(* ===== verification/Prelude.thy ===== *)
theory Prelude
  imports Main "HOL-Library.Word"
begin

text \<open>
  Shared vocabulary of the development: the machine types of the C++ code, the error monad
  (a sum whose left side is the failure), three-way comparison and the two interfaces that
  several components implement: a codec (an encoder with a decoder that inverts it on any
  continuation of the input) and a three-way comparator (the contract of a \<open>compare\<close>
  method that is used as a total preorder).
\<close>

unbundle bit_operations_syntax

subsection \<open>Machine types\<close>

type_synonym byte = "8 word"
type_synonym char16 = "16 word"
type_synonym int64 = "64 word"
type_synonym bytes = "byte list"
type_synonym string16 = "char16 list"
type_synonym int32 = "32 word"
type_synonym double = "64 word"

text \<open>\<open>base::NullableString16\<close>; the text of a null string is empty.\<close>

type_synonym NullableString16 = "string16 option"

definition nullable_text :: "NullableString16 \<Rightarrow> string16" where
  "nullable_text s = (case s of None \<Rightarrow> [] | Some t \<Rightarrow> t)"

named_theorems outcome_simps \<open>evaluation rules of the error monad\<close>

subsection \<open>The error monad\<close>

definition bindE :: "'e + 'a \<Rightarrow> ('a \<Rightarrow> 'e + 'b) \<Rightarrow> 'e + 'b" where
  "bindE m f = (case m of Inl e \<Rightarrow> Inl e | Inr x \<Rightarrow> f x)"

lemma bindE_Inl [simp, outcome_simps]: "bindE (Inl e) f = Inl e"
  by (simp add: bindE_def)

lemma bindE_Inr [simp, outcome_simps]: "bindE (Inr x) f = f x"
  by (simp add: bindE_def)

lemma bindE_eq_Inr:
  "bindE m f = Inr y \<longleftrightarrow> (\<exists>x. m = Inr x \<and> f x = Inr y)"
  by (cases m) auto

lemma bindE_eq_Inl:
  "bindE m f = Inl e \<longleftrightarrow> m = Inl e \<or> (\<exists>x. m = Inr x \<and> f x = Inl e)"
  by (cases m) auto

lemma bindE_cong [fundef_cong]:
  "m = m' \<Longrightarrow> (\<And>x. m' = Inr x \<Longrightarrow> f x = f' x) \<Longrightarrow> bindE m f = bindE m' f'"
  by (cases m') auto

subsection \<open>Three-way comparison\<close>

text \<open>
  A C++ \<open>compare\<close> promises only the sign of its result; the model returns -1, 0 or 1
  where the magnitude is unspecified.
\<close>

definition three_way_of :: "('a \<Rightarrow> 'a \<Rightarrow> bool) \<Rightarrow> 'a \<Rightarrow> 'a \<Rightarrow> int" where
  "three_way_of lt a b = (if lt a b then -1 else if lt b a then 1 else 0)"

fun lex_compare :: "('a \<Rightarrow> 'a \<Rightarrow> int) \<Rightarrow> 'a list \<Rightarrow> 'a list \<Rightarrow> int" where
  "lex_compare c [] [] = 0"
| "lex_compare c [] (y # ys) = -1"
| "lex_compare c (x # xs) [] = 1"
| "lex_compare c (x # xs) (y # ys) = (if c x y \<noteq> 0 then c x y else lex_compare c xs ys)"

locale three_way =
  fixes cmp :: "'a \<Rightarrow> 'a \<Rightarrow> int"
    and within :: "'a \<Rightarrow> bool"
  assumes cmp_swap: "within x \<Longrightarrow> within y \<Longrightarrow> sgn (cmp y x) = - sgn (cmp x y)"
    and cmp_trans: "within x \<Longrightarrow> within y \<Longrightarrow> within z \<Longrightarrow>
      cmp x y \<le> 0 \<Longrightarrow> cmp y z \<le> 0 \<Longrightarrow> cmp x z \<le> 0"
begin

lemma cmp_refl: "within x \<Longrightarrow> cmp x x = 0"
  using cmp_swap [of x x] by (simp add: sgn_if split: if_splits)

lemma cmp_neg_iff: "within x \<Longrightarrow> within y \<Longrightarrow> cmp y x < 0 \<longleftrightarrow> 0 < cmp x y"
  using cmp_swap [of x y] by (auto simp: sgn_if split: if_splits)

lemma cmp_zero_iff: "within x \<Longrightarrow> within y \<Longrightarrow> cmp y x = 0 \<longleftrightarrow> cmp x y = 0"
  using cmp_swap [of x y] by (auto simp: sgn_if split: if_splits)

lemma cmp_le_iff: "within x \<Longrightarrow> within y \<Longrightarrow> cmp y x \<le> 0 \<longleftrightarrow> 0 \<le> cmp x y"
  using cmp_swap [of x y] by (auto simp: sgn_if split: if_splits)

lemma cmp_total: "within x \<Longrightarrow> within y \<Longrightarrow> cmp x y \<le> 0 \<or> cmp y x \<le> 0"
  using cmp_le_iff by fastforce

lemma cmp_strict_trans:
  assumes "within x" "within y" "within z" "cmp x y < 0" "cmp y z \<le> 0"
  shows "cmp x z < 0"
proof (rule ccontr)
  assume "\<not> cmp x z < 0"
  then have "cmp z x \<le> 0" using assms cmp_le_iff by force
  then have "cmp y x \<le> 0" using assms cmp_trans by blast
  then show False using assms cmp_le_iff by force
qed

lemma cmp_strict_trans2:
  assumes "within x" "within y" "within z" "cmp x y \<le> 0" "cmp y z < 0"
  shows "cmp x z < 0"
proof (rule ccontr)
  assume "\<not> cmp x z < 0"
  then have "cmp z x \<le> 0" using assms cmp_le_iff by force
  then have "cmp z y \<le> 0" using assms cmp_trans by blast
  then show False using assms cmp_le_iff by force
qed

lemma cmp_equiv_trans:
  assumes "within x" "within y" "within z" "cmp x y = 0" "cmp y z = 0"
  shows "cmp x z = 0"
proof -
  have "cmp x z \<le> 0" using cmp_trans [of x y z] assms by simp
  moreover have "cmp z x \<le> 0"
    using cmp_trans [of z y x] assms cmp_zero_iff [of x y] cmp_zero_iff [of y z] by simp
  ultimately show ?thesis using cmp_le_iff [of x z] assms by simp
qed

lemma lex_swap:
  "(\<forall>x \<in> set xs. within x) \<Longrightarrow> (\<forall>y \<in> set ys. within y) \<Longrightarrow>
   sgn (lex_compare cmp ys xs) = - sgn (lex_compare cmp xs ys)"
proof (induction xs arbitrary: ys)
  case Nil
  then show ?case by (cases ys) auto
next
  case (Cons x xs)
  show ?case
  proof (cases ys)
    case Nil
    then show ?thesis by simp
  next
    case (Cons y ys')
    with Cons.prems have w: "within x" "within y" by auto
    have "sgn (lex_compare cmp ys' xs) = - sgn (lex_compare cmp xs ys')"
      using Cons.IH [of ys'] Cons.prems \<open>ys = y # ys'\<close> by simp
    then show ?thesis
      using cmp_swap [OF w] cmp_zero_iff [OF w] \<open>ys = y # ys'\<close> by simp
  qed
qed

lemma lex_trans:
  "(\<forall>x \<in> set xs. within x) \<Longrightarrow> (\<forall>y \<in> set ys. within y) \<Longrightarrow> (\<forall>z \<in> set zs. within z) \<Longrightarrow>
   lex_compare cmp xs ys \<le> 0 \<Longrightarrow> lex_compare cmp ys zs \<le> 0 \<Longrightarrow> lex_compare cmp xs zs \<le> 0"
proof (induction xs arbitrary: ys zs)
  case Nil
  then show ?case by (cases zs) auto
next
  case (Cons x xs)
  obtain y ys' z zs' where ys: "ys = y # ys'" and zs: "zs = z # zs'"
    using Cons.prems by (cases ys; cases zs) auto
  have w: "within x" "within y" "within z" using Cons.prems ys zs by auto
  have xy: "cmp x y \<le> 0" and yz: "cmp y z \<le> 0"
    using Cons.prems ys zs by (auto split: if_splits)
  show ?case
  proof (cases "cmp x y = 0 \<and> cmp y z = 0")
    case True
    then have "cmp x z = 0" using w cmp_equiv_trans by blast
    then show ?thesis using True Cons.IH [of ys' zs'] Cons.prems ys zs by auto
  next
    case False
    then have "cmp x z < 0"
      using xy yz w cmp_strict_trans cmp_strict_trans2 by (metis order_le_less)
    then show ?thesis using zs by simp
  qed
qed

lemma lex_three_way: "three_way (lex_compare cmp) (\<lambda>xs. \<forall>x \<in> set xs. within x)"
  by (unfold_locales) (blast intro: lex_swap lex_trans)+

end

lemma three_way_linorder:
  "three_way (three_way_of ((<) :: 'a::linorder \<Rightarrow> 'a \<Rightarrow> bool)) (\<lambda>_. True)"
  by unfold_locales (auto simp: three_way_of_def split: if_splits)

interpretation word_order: three_way "three_way_of ((<) :: 'w::len word \<Rightarrow> 'w word \<Rightarrow> bool)" "\<lambda>_. True"
  by (rule three_way_linorder)

text \<open>Comparing first by one comparator and then, on a tie, by another.\<close>

definition then_compare :: "int \<Rightarrow> int \<Rightarrow> int" where
  "then_compare r r' = (if r \<noteq> 0 then r else r')"

subsection \<open>Codecs\<close>

locale codec =
  fixes enc :: "'a \<Rightarrow> bytes"
    and dec :: "bytes \<Rightarrow> 'e + 'a \<times> bytes"
    and valid :: "'a \<Rightarrow> bool"
  assumes dec_enc: "valid x \<Longrightarrow> dec (enc x @ rest) = Inr (x, rest)"
begin

lemma dec_enc_exact: "valid x \<Longrightarrow> dec (enc x) = Inr (x, [])"
  using dec_enc [of x "[]"] by simp

lemma prefix_free:
  assumes "valid x" "valid y" "enc x @ r = enc y @ s"
  shows "x = y \<and> r = s"
proof -
  have "Inr (x, r) = dec (enc x @ r)" using dec_enc [OF assms(1)] by (rule sym)
  also have "\<dots> = dec (enc y @ s)" by (simp only: assms(3))
  also have "\<dots> = Inr (y, s)" using assms(2) by (rule dec_enc)
  finally show ?thesis by blast
qed

lemma enc_inj:
  assumes "valid x" "valid y" "enc x = enc y"
  shows "x = y"
proof -
  from assms(3) have "enc x @ [] = enc y @ []" by (rule arg_cong)
  with assms(1,2) show ?thesis by (rule prefix_free [THEN conjunct1])
qed

end

text \<open>Running a decoder a given number of times: the \<open>while (length--)\<close> loops.\<close>

primrec decode_times :: "(bytes \<Rightarrow> 'e + 'a \<times> bytes) \<Rightarrow> nat \<Rightarrow> bytes \<Rightarrow> 'e + 'a list \<times> bytes" where
  "decode_times d 0 s = Inr ([], s)"
| "decode_times d (Suc n) s =
     bindE (d s) (\<lambda>(x, s'). bindE (decode_times d n s') (\<lambda>(xs, s''). Inr (x # xs, s'')))"

lemma decode_times_cong:
  assumes "\<And>t. length t \<le> length s \<Longrightarrow> d t = d' t"
    and "\<And>t v t'. d' t = Inr (v, t') \<Longrightarrow> length t' \<le> length t"
  shows "decode_times d n s = decode_times d' n s"
  using assms(1)
proof (induction n arbitrary: s)
  case 0
  show ?case by simp
next
  case (Suc n)
  have "d s = d' s" by (rule Suc.prems) simp
  moreover have "decode_times d n s' = decode_times d' n s'" if "d' s = Inr (v, s')" for v s'
    using that assms(2) [OF that] by (intro Suc.IH Suc.prems) simp
  ultimately show ?case by (auto intro!: bindE_cong)
qed

lemma decode_times_shorter:
  assumes "\<And>t v t'. d t = Inr (v, t') \<Longrightarrow> length t' < length t"
  shows "decode_times d n s = Inr (vs, s') \<Longrightarrow> length s' + n \<le> length s"
proof (induction n arbitrary: s vs)
  case (Suc n)
  then obtain v t ws where "d s = Inr (v, t)" "decode_times d n t = Inr (ws, s')"
    by (auto simp: bindE_eq_Inr)
  then show ?case using assms [of s v t] Suc.IH [of t ws] by simp
qed simp

lemma decode_times_not_Inl:
  assumes "\<And>t. d t \<noteq> Inl e"
  shows "decode_times d n s \<noteq> Inl e"
  using assms by (induction n arbitrary: s) (auto simp: bindE_eq_Inl)

lemma decode_times_concat:
  assumes "\<And>x rest. x \<in> set xs \<Longrightarrow> d (enc x @ rest) = Inr (x, rest)"
  shows "decode_times d (length xs) (concat (map enc xs) @ rest) = Inr (xs, rest)"
  using assms by (induction xs) simp_all

context codec
begin

lemma decode_times_enc:
  "(\<forall>x \<in> set xs. valid x) \<Longrightarrow>
   decode_times dec (length xs) (concat (map enc xs) @ rest) = Inr (xs, rest)"
  by (rule decode_times_concat) (simp add: dec_enc)

end

subsection \<open>Values in memory\<close>

text \<open>The bytes of a value, the lowest first, as \<open>memcpy\<close> sees them.\<close>

primrec le_bytes :: "nat \<Rightarrow> 64 word \<Rightarrow> bytes" where
  "le_bytes 0 v = []"
| "le_bytes (Suc n) v = ucast v # le_bytes n (drop_bit 8 v)"

primrec of_le_bytes :: "bytes \<Rightarrow> 64 word" where
  "of_le_bytes [] = 0"
| "of_le_bytes (b # bs) = ucast b OR push_bit 8 (of_le_bytes bs)"

lemma take_bit_step:
  "take_bit (k + w) (v :: 64 word) = take_bit k v OR push_bit k (take_bit w (drop_bit k v))"
  by (rule bit_word_eqI) (auto simp: bit_simps)

lemma ucast_low_byte: "ucast (ucast (v :: 64 word) :: byte) = take_bit 8 v"
  by (rule bit_word_eqI) (auto simp: bit_simps)

lemma length_le_bytes [simp]: "length (le_bytes n v) = n"
  by (induction n arbitrary: v) simp_all

lemma of_le_bytes_enc: "of_le_bytes (le_bytes n v) = take_bit (8 * n) v"
proof (induction n arbitrary: v)
  case (Suc n)
  have "take_bit 8 v OR push_bit 8 (take_bit (8 * n) (drop_bit 8 v)) = take_bit (8 + 8 * n) v"
    by (simp add: take_bit_step)
  with Suc show ?case by (simp add: ucast_low_byte)
qed simp

lemma of_le_bytes_8 [simp]: "of_le_bytes (le_bytes 8 d) = d"
proof -
  have "take_bit (8 * 8) d = d" by (rule bit_word_eqI) (auto simp: bit_simps)
  then show ?thesis by (simp only: of_le_bytes_enc)
qed

fun utf16le :: "string16 \<Rightarrow> bytes" where
  "utf16le [] = []"
| "utf16le (c # cs) = ucast c # ucast (drop_bit 8 c) # utf16le cs"

fun of_utf16le :: "bytes \<Rightarrow> string16" where
  "of_utf16le (a # b # bs) = (ucast a OR push_bit 8 (ucast b)) # of_utf16le bs"
| "of_utf16le _ = []"

lemma length_utf16le [simp]: "length (utf16le s) = 2 * length s"
  by (induction s) simp_all

lemma length_of_utf16le [simp]: "length (of_utf16le bs) = length bs div 2"
  by (induction bs rule: of_utf16le.induct) simp_all

lemma of_utf16le_enc [simp]: "of_utf16le (utf16le s) = s"
proof (induction s)
  case (Cons c s)
  have "ucast (ucast c :: byte) OR push_bit 8 (ucast (ucast (drop_bit 8 c) :: byte)) = c"
    by (rule bit_word_eqI) (auto simp: bit_simps)
  with Cons show ?case by simp
qed simp

subsection \<open>Printing\<close>

text \<open>Streams and \<open>std::to_string\<close> print an integer in decimal.\<close>

fun show_nat :: "nat \<Rightarrow> string" where
  "show_nat n = (if n < 10 then [char_of (48 + n)] else show_nat (n div 10) @ [char_of (48 + n mod 10)])"

declare show_nat.simps [simp del]

definition show_int :: "int \<Rightarrow> string" where
  "show_int i = (if i < 0 then CHR ''-'' # show_nat (nat (- i)) else show_nat (nat i))"

end
