(* ===== verification/Idb_Coding.thy ===== *)
theory Idb_Coding
  imports Prelude
begin

text \<open>
  The primitive encoders and decoders of
  \<open>content/browser/indexed_db/indexed_db_leveldb_coding.cc\<close>: bytes, booleans, integers in
  little-endian and in base-128 form, UTF-16 strings, byte strings and doubles.

  An encoder takes the value and the string it appends to (\<open>into\<close>) and returns the longer
  string. A decoder takes the slice and returns the value with what is left of the slice, or
  the reason it stopped: \<open>Refused\<close> is the code's \<open>return false\<close>; \<open>OutOfBounds\<close> is a
  read past the end of the slice and \<open>ShiftOverflow\<close> a shift by 64 bits or more, both of
  which C++ leaves undefined. The slice after a refusal is not part of the model: every caller
  gives up too. An \<open>int64_t\<close> is a 64-bit word read with \<open>sint\<close>, a size a natural number.
  DCHECKs are compiled out of the builds that ship and are not modelled; where a property
  needs what one states, it is a hypothesis.
\<close>

datatype failure = Refused | OutOfBounds | ShiftOverflow

type_synonym 'a decoded = "failure + 'a \<times> bytes"

subsection \<open>Encoders\<close>

definition EncodeByte :: "byte \<Rightarrow> bytes \<Rightarrow> bytes" where
  "EncodeByte value into = into @ [value]"

definition EncodeBool :: "bool \<Rightarrow> bytes \<Rightarrow> bytes" where
  "EncodeBool value into = into @ [if value then 1 else 0]"

text \<open>The \<open>do ... while (n)\<close> loops of \<open>EncodeInt\<close> and \<open>EncodeVarInt\<close>.\<close>

lemma drop_bit_less:
  assumes "drop_bit k (n :: 64 word) \<noteq> 0" "0 < k"
  shows "unat (drop_bit k n) < unat n"
proof -
  have n: "unat n \<noteq> 0" using assms(1) by (metis drop_bit_of_0 unat_eq_zero)
  have "unat (drop_bit k n) = unat n div 2 ^ k"
    unfolding unat_drop_bit_eq by (simp add: drop_bit_eq_div)
  also have "\<dots> < unat n"
    using n assms(2) by (intro div_less_dividend) (auto intro: one_less_power simp del: One_nat_def)
  finally show ?thesis .
qed

function int_loop :: "64 word \<Rightarrow> bytes" where
  "int_loop n =
     (let c = ucast n; n' = drop_bit 8 n in c # (if n' \<noteq> 0 then int_loop n' else []))"
  by pat_completeness auto
termination
  by (relation "measure unat") (simp_all add: drop_bit_less)

function var_int_loop :: "64 word \<Rightarrow> bytes" where
  "var_int_loop n =
     (let c = ucast (n AND 0x7f); n' = drop_bit 7 n
      in if n' \<noteq> 0 then (c OR 0x80) # var_int_loop n' else [c])"
  by pat_completeness auto
termination
  by (relation "measure unat") (simp_all add: drop_bit_less)

declare int_loop.simps [simp del] var_int_loop.simps [simp del]

definition EncodeInt :: "int64 \<Rightarrow> bytes \<Rightarrow> bytes" where
  "EncodeInt value into = into @ int_loop value"

definition EncodeVarInt :: "int64 \<Rightarrow> bytes \<Rightarrow> bytes" where
  "EncodeVarInt value into = into @ var_int_loop value"

text \<open>\<open>HostToNet16\<close>: the high byte of each UTF-16 code unit first.\<close>

fun utf16be :: "string16 \<Rightarrow> bytes" where
  "utf16be [] = []"
| "utf16be (c # cs) = ucast (drop_bit 8 c) # ucast c # utf16be cs"

definition EncodeString :: "string16 \<Rightarrow> bytes \<Rightarrow> bytes" where
  "EncodeString value into = (if value = [] then into else into @ utf16be value)"

definition EncodeBinary :: "bytes \<Rightarrow> bytes \<Rightarrow> bytes" where
  "EncodeBinary value into = EncodeVarInt (of_nat (length value)) into @ value"

definition EncodeStringWithLength :: "string16 \<Rightarrow> bytes \<Rightarrow> bytes" where
  "EncodeStringWithLength value into =
     EncodeString value (EncodeVarInt (of_nat (length value)) into)"

text \<open>
  A \<open>double\<close> is its 64-bit pattern; it is copied with host endianness, which is
  little-endian on every platform the browser ships for.
\<close>

definition EncodeDouble :: "double \<Rightarrow> bytes \<Rightarrow> bytes" where
  "EncodeDouble value into = into @ le_bytes 8 value"

subsection \<open>Decoders\<close>

definition DecodeByte :: "bytes \<Rightarrow> byte decoded" where
  "DecodeByte sl = (case sl of [] \<Rightarrow> Inl Refused | b # s \<Rightarrow> Inr (b, s))"

definition DecodeBool :: "bytes \<Rightarrow> bool decoded" where
  "DecodeBool sl = (case sl of [] \<Rightarrow> Inl Refused | b # s \<Rightarrow> Inr (b \<noteq> 0, s))"

fun decode_int_loop :: "bytes \<Rightarrow> nat \<Rightarrow> int64 \<Rightarrow> failure + int64" where
  "decode_int_loop [] shift ret = Inr ret"
| "decode_int_loop (c # it) shift ret =
     (if 64 \<le> shift then Inl ShiftOverflow
      else decode_int_loop it (shift + 8) (ret OR push_bit shift (ucast c)))"

definition DecodeInt :: "bytes \<Rightarrow> int64 decoded" where
  "DecodeInt sl =
     (if sl = [] then Inl Refused
      else bindE (decode_int_loop sl 0 0) (\<lambda>ret. Inr (ret, [])))"

fun decode_var_int_loop :: "bytes \<Rightarrow> nat \<Rightarrow> int64 \<Rightarrow> int64 decoded" where
  "decode_var_int_loop [] shift ret = Inl Refused"
| "decode_var_int_loop (c # it) shift ret =
     (if 64 \<le> shift then Inl ShiftOverflow
      else let ret' = ret OR push_bit shift (ucast (c AND 0x7f))
           in if c AND 0x80 \<noteq> 0 then decode_var_int_loop it (shift + 7) ret'
              else Inr (ret', it))"

definition DecodeVarInt :: "bytes \<Rightarrow> int64 decoded" where
  "DecodeVarInt sl = (if sl = [] then Inl Refused else decode_var_int_loop sl 0 0)"

text \<open>\<open>NetToHost16\<close> on each pair of bytes; an odd last byte stays in the slice.\<close>

fun of_utf16be :: "bytes \<Rightarrow> string16 \<times> bytes" where
  "of_utf16be (hi # lo # s) =
     (let (cs, rest) = of_utf16be s in ((push_bit 8 (ucast hi) OR ucast lo) # cs, rest))"
| "of_utf16be s = ([], s)"

definition DecodeString :: "bytes \<Rightarrow> string16 decoded" where
  "DecodeString sl = (if sl = [] then Inr ([], sl) else Inr (of_utf16be sl))"

definition DecodeStringWithLength :: "bytes \<Rightarrow> string16 decoded" where
  "DecodeStringWithLength sl =
     (if sl = [] then Inl Refused
      else bindE (DecodeVarInt sl) (\<lambda>(len, s).
        if sint len < 0 then Inl Refused
        else let nbytes = unat len * 2 in
          if length s < nbytes then Inl Refused
          else bindE (DecodeString (take nbytes s)) (\<lambda>(value, _). Inr (value, drop nbytes s))))"

definition DecodeBinary :: "bytes \<Rightarrow> bytes decoded" where
  "DecodeBinary sl =
     (if sl = [] then Inl Refused
      else bindE (DecodeVarInt sl) (\<lambda>(len, s).
        if sint len < 0 then Inl Refused
        else let size = unat len in
          if length s < size then Inl Refused else Inr (take size s, drop size s)))"

definition DecodeDouble :: "bytes \<Rightarrow> double decoded" where
  "DecodeDouble sl =
     (if length sl < 8 then Inl Refused else Inr (of_le_bytes (take 8 sl), drop 8 sl))"

subsection \<open>Round trips of the primitives\<close>

lemma mask_7F: "(0x7f :: 'w::len word) = mask 7"
  by (simp add: mask_eq_exp_minus_1)

lemma ucast_low_septet: "ucast (ucast (v AND 0x7f :: 64 word) :: byte) = take_bit 7 v"
  unfolding mask_7F by (rule bit_word_eqI) (auto simp: bit_simps)

lemma high_bit: "(x :: byte) AND 0x80 = 0 \<longleftrightarrow> \<not> bit x 7"
  using and_exp_eq_0_iff_not_bit [of x 7] by simp

lemma bit_80: "bit (0x80 :: 'w::len word) n \<longleftrightarrow> n = 7 \<and> 7 < LENGTH('w)"
  using bit_exp_iff [of 7 n, where 'a = "'w word"] by auto

lemma bit_80_int: "bit (0x80 :: int) n \<longleftrightarrow> n = 7"
  using bit_exp_iff [of 7 n, where 'a = int] by auto

lemma septet_more:
  "(ucast (v AND 0x7f :: 64 word) OR 0x80 :: byte) AND 0x80 \<noteq> 0"
  "ucast ((ucast (v AND 0x7f) OR 0x80 :: byte) AND 0x7f) = take_bit 7 v"
  unfolding high_bit mask_7F
  by (simp add: bit_simps bit_80 bit_80_int)
     (rule bit_word_eqI, auto simp: bit_simps bit_80 bit_80_int)

lemma septet_last:
  "ucast (v AND 0x7f :: 64 word) AND (0x80 :: byte) = 0"
  "ucast (ucast (v AND 0x7f) AND (0x7f :: byte)) = take_bit 7 v"
  unfolding high_bit mask_7F
  by (simp add: bit_simps)
     (rule bit_word_eqI, auto simp: bit_simps)

lemma drop_bit_nonzero_less: "drop_bit k (v :: 64 word) \<noteq> 0 \<Longrightarrow> k < 64"
  by (rule ccontr) (auto simp: bit_eq_iff bit_simps dest: bit_imp_le_length)

lemma take_bit_all: "drop_bit k (v :: 64 word) = 0 \<Longrightarrow> take_bit k v = v"
  using bits_ident [of k v] by simp

lemma decode_int_loop_enc:
  "k < 64 \<Longrightarrow> decode_int_loop (int_loop (drop_bit k v)) k (take_bit k v) = Inr v"
proof (induction "drop_bit k v" arbitrary: k rule: int_loop.induct)
  case 1
  let ?n = "drop_bit k v"
  have ret: "take_bit k v OR push_bit k (ucast (ucast ?n :: byte)) = take_bit (k + 8) v"
    by (simp add: take_bit_step ucast_low_byte)
  have next_n: "drop_bit 8 ?n = drop_bit (k + 8) v" by (simp add: drop_bit_drop_bit add.commute)
  show ?case
  proof (cases "drop_bit (k + 8) v = 0")
    case True
    then have "take_bit (k + 8) v = v" by (rule take_bit_all)
    then show ?thesis using True 1(2) ret next_n by (simp add: int_loop.simps [of ?n] Let_def)
  next
    case False
    then have "k + 8 < 64" by (rule drop_bit_nonzero_less)
    then show ?thesis
      using 1 False ret next_n by (simp add: int_loop.simps [of ?n] Let_def)
  qed
qed

lemma decode_var_int_loop_enc:
  "k < 64 \<Longrightarrow>
   decode_var_int_loop (var_int_loop (drop_bit k v) @ rest) k (take_bit k v) = Inr (v, rest)"
proof (induction "drop_bit k v" arbitrary: k rule: var_int_loop.induct)
  case 1
  let ?n = "drop_bit k v"
  have ret: "take_bit k v OR push_bit k (take_bit 7 ?n) = take_bit (k + 7) v"
    by (simp add: take_bit_step)
  have next_n: "drop_bit 7 ?n = drop_bit (k + 7) v" by (simp add: drop_bit_drop_bit add.commute)
  show ?case
  proof (cases "drop_bit (k + 7) v = 0")
    case True
    then have "take_bit (k + 7) v = v" by (rule take_bit_all)
    then show ?thesis using True 1(2) ret next_n
      by (simp add: var_int_loop.simps [of ?n] Let_def septet_last)
  next
    case False
    then have "k + 7 < 64" by (rule drop_bit_nonzero_less)
    then show ?thesis
      using 1 False ret next_n by (simp add: var_int_loop.simps [of ?n] Let_def septet_more)
  qed
qed

lemma int_loop_not_Nil [simp]: "int_loop v \<noteq> []"
  by (simp add: int_loop.simps [of v] Let_def)

lemma var_int_loop_not_Nil [simp]: "var_int_loop v \<noteq> []"
  by (simp add: var_int_loop.simps [of v] Let_def)

lemma DecodeInt_enc [simp]: "DecodeInt (int_loop v) = Inr (v, [])"
  using decode_int_loop_enc [of 0 v] by (simp add: DecodeInt_def)

lemma DecodeVarInt_enc [simp]: "DecodeVarInt (var_int_loop v @ rest) = Inr (v, rest)"
  using decode_var_int_loop_enc [of 0 v] by (simp add: DecodeVarInt_def)

lemma of_utf16be_enc: "of_utf16be (utf16be cs) = (cs, [])"
proof (induction cs)
  case (Cons c cs)
  have "push_bit 8 (ucast (ucast (drop_bit 8 c) :: byte)) OR ucast (ucast c :: byte) = c"
    by (rule bit_word_eqI) (auto simp: bit_simps)
  with Cons show ?case by simp
qed simp

lemma length_utf16be [simp]: "length (utf16be cs) = 2 * length cs"
  by (induction cs) simp_all

lemma DecodeString_enc [simp]: "DecodeString (utf16be cs) = Inr (cs, [])"
  using of_utf16be_enc [of cs] by (cases cs) (simp_all add: DecodeString_def of_utf16be_enc del: of_utf16be.simps)

lemma EncodeString_eq [simp]: "EncodeString cs into = into @ utf16be cs"
  by (cases cs) (simp_all add: EncodeString_def)

text \<open>A length that the \<open>int64_t\<close> count can hold.\<close>

definition fits_int64 :: "nat \<Rightarrow> bool" where
  "fits_int64 n \<longleftrightarrow> n < 2 ^ 63"

lemma unat_of_nat_fits: "fits_int64 n \<Longrightarrow> unat (of_nat n :: int64) = n"
  by (simp add: fits_int64_def unat_of_nat)

lemma sint_of_nat_fits: "fits_int64 n \<Longrightarrow> sint (of_nat n :: int64) = int n"
  by (simp add: fits_int64_def signed_of_nat signed_take_bit_int_eq_self)

lemma DecodeStringWithLength_enc:
  assumes "fits_int64 (length cs)"
  shows "DecodeStringWithLength (EncodeStringWithLength cs [] @ rest) = Inr (cs, rest)"
  using assms
  by (simp add: DecodeStringWithLength_def EncodeStringWithLength_def EncodeVarInt_def
      unat_of_nat_fits sint_of_nat_fits Let_def mult.commute)

lemma DecodeBinary_enc:
  assumes "fits_int64 (length bs)"
  shows "DecodeBinary (EncodeBinary bs [] @ rest) = Inr (bs, rest)"
  using assms
  by (simp add: DecodeBinary_def EncodeBinary_def EncodeVarInt_def
      unat_of_nat_fits sint_of_nat_fits Let_def)

lemma DecodeDouble_enc: "DecodeDouble (EncodeDouble d [] @ rest) = Inr (d, rest)"
  by (simp add: DecodeDouble_def EncodeDouble_def del: le_bytes.simps)

interpretation byte_codec: codec "\<lambda>v. EncodeByte v []" DecodeByte "\<lambda>_. True"
  by unfold_locales (simp add: EncodeByte_def DecodeByte_def)

interpretation bool_codec: codec "\<lambda>v. EncodeBool v []" DecodeBool "\<lambda>_. True"
  by unfold_locales (simp add: EncodeBool_def DecodeBool_def)

interpretation var_int: codec "\<lambda>v. EncodeVarInt v []" DecodeVarInt "\<lambda>_. True"
  by unfold_locales (simp add: EncodeVarInt_def)

interpretation sized_string: codec "\<lambda>v. EncodeStringWithLength v []" DecodeStringWithLength
    "\<lambda>v. fits_int64 (length v)"
  by unfold_locales (rule DecodeStringWithLength_enc)

interpretation binary: codec "\<lambda>v. EncodeBinary v []" DecodeBinary "\<lambda>v. fits_int64 (length v)"
  by unfold_locales (rule DecodeBinary_enc)

interpretation double_codec: codec "\<lambda>v. EncodeDouble v []" DecodeDouble "\<lambda>_. True"
  by unfold_locales (rule DecodeDouble_enc)

subsection \<open>Decoders stay inside the slice and always consume\<close>

lemma decode_var_int_loop_shorter:
  "decode_var_int_loop s k r = Inr (v, s') \<Longrightarrow> length s' < length s"
proof (induction s k r arbitrary: v s' rule: decode_var_int_loop.induct)
  case (2 c it shift ret)
  show ?case
  proof (cases "c AND 0x80 = 0")
    case True
    with "2.prems" show ?thesis by (auto simp: Let_def split: if_splits)
  next
    case False
    with "2.prems" have sh: "\<not> 64 \<le> shift"
      and rec: "decode_var_int_loop it (shift + 7) (ret OR push_bit shift (ucast (c AND 0x7f)))
        = Inr (v, s')"
      by (auto simp: Let_def split: if_splits)
    from "2.IH" [OF sh refl False rec] show ?thesis by simp
  qed
qed simp

lemma decode_var_int_loop_in_bounds: "decode_var_int_loop s k r \<noteq> Inl OutOfBounds"
  by (induction s k r rule: decode_var_int_loop.induct) (auto simp: Let_def)

lemma DecodeVarInt_shorter: "DecodeVarInt s = Inr (v, s') \<Longrightarrow> length s' < length s"
  by (auto simp: DecodeVarInt_def dest: decode_var_int_loop_shorter split: if_splits)

lemma DecodeVarInt_in_bounds [simp]: "DecodeVarInt s \<noteq> Inl OutOfBounds"
  by (simp add: DecodeVarInt_def decode_var_int_loop_in_bounds)

lemma DecodeString_total: "\<exists>r. DecodeString s = Inr r"
  by (simp add: DecodeString_def)

lemma DecodeStringWithLength_shorter:
  "DecodeStringWithLength s = Inr (v, s') \<Longrightarrow> length s' < length s"
  by (auto simp: DecodeStringWithLength_def bindE_eq_Inr Let_def dest!: DecodeVarInt_shorter
      split: if_splits)

lemma DecodeBinary_shorter: "DecodeBinary s = Inr (v, s') \<Longrightarrow> length s' < length s"
  by (auto simp: DecodeBinary_def bindE_eq_Inr Let_def dest!: DecodeVarInt_shorter
      split: if_splits)

lemma DecodeDouble_shorter: "DecodeDouble s = Inr (v, s') \<Longrightarrow> length s' < length s"
  by (auto simp: DecodeDouble_def split: if_splits)

lemma DecodeStringWithLength_in_bounds [simp]: "DecodeStringWithLength s \<noteq> Inl OutOfBounds"
  using DecodeString_total
  by (auto simp: DecodeStringWithLength_def bindE_eq_Inl Let_def DecodeString_def split: if_splits)

lemma DecodeBinary_in_bounds [simp]: "DecodeBinary s \<noteq> Inl OutOfBounds"
  by (auto simp: DecodeBinary_def bindE_eq_Inl Let_def split: if_splits)

lemma DecodeDouble_in_bounds [simp]: "DecodeDouble s \<noteq> Inl OutOfBounds"
  by (simp add: DecodeDouble_def)

end
