(* ===== verification/Idb_Key.thy ===== *)
theory Idb_Key
  imports Idb_Coding
begin

text \<open>
  IndexedDB keys and key paths: \<open>content/common/indexed_db/indexed_db_key.cc\<close> and
  \<open>indexed_db_key_path.cc\<close>, and their encoding, decoding, skipping and comparison in
  encoded form in \<open>indexed_db_leveldb_coding.cc\<close>.

  The numeric values of Blink's \<open>WebIDBKeyType\<close> enumerators are declared outside this
  repository; they are the parameter \<open>kt\<close>. A decoder that calls itself takes its recursion
  depth as fuel; the length of the slice is enough, because every level consumes a byte, and
  at fuel 0 the slice is empty, so that the equation for 0 is what the code does on an empty
  slice (\<open>DecodeIDBKey_unfold\<close>, \<open>ConsumeEncodedIDBKey_unfold\<close> and
  \<open>CompareEncodedIDBKeys_unfold\<close> are the recursive equations without fuel).
\<close>

subsection \<open>Keys\<close>

datatype WebIDBKeyType =
    kWebIDBKeyTypeInvalid | kWebIDBKeyTypeArray | kWebIDBKeyTypeBinary | kWebIDBKeyTypeString
  | kWebIDBKeyTypeDate | kWebIDBKeyTypeNumber | kWebIDBKeyTypeNull | kWebIDBKeyTypeMin

datatype IndexedDBKey =
    ArrayKey "IndexedDBKey list" | BinaryKey bytes | StringKey string16
  | DateKey double | NumberKey double | NullKey | InvalidKey

fun key_type :: "IndexedDBKey \<Rightarrow> WebIDBKeyType" where
  "key_type (ArrayKey _) = kWebIDBKeyTypeArray"
| "key_type (BinaryKey _) = kWebIDBKeyTypeBinary"
| "key_type (StringKey _) = kWebIDBKeyTypeString"
| "key_type (DateKey _) = kWebIDBKeyTypeDate"
| "key_type (NumberKey _) = kWebIDBKeyTypeNumber"
| "key_type NullKey = kWebIDBKeyTypeNull"
| "key_type InvalidKey = kWebIDBKeyTypeInvalid"

text \<open>The \<open>size_estimate_\<close> that each constructor stores; \<open>kOverheadSize\<close> is 16.\<close>

fun size_estimate :: "IndexedDBKey \<Rightarrow> nat" where
  "size_estimate (ArrayKey ks) = 16 + sum_list (map size_estimate ks)"
| "size_estimate (BinaryKey bs) = 16 + length bs"
| "size_estimate (StringKey cs) = 16 + length cs * 2"
| "size_estimate (DateKey d) = 16 + 8"
| "size_estimate (NumberKey d) = 16 + 8"
| "size_estimate NullKey = 16"
| "size_estimate InvalidKey = 16"

fun IsValid :: "IndexedDBKey \<Rightarrow> bool" where
  "IsValid (ArrayKey ks) = (\<forall>k \<in> set ks. IsValid k)"
| "IsValid NullKey = False"
| "IsValid InvalidKey = False"
| "IsValid _ = True"

text \<open>
  The order of IEEE 754 doubles on their bit patterns: a NaN is unordered, the two zeros are
  equal, and otherwise the sign and the magnitude decide.
\<close>

definition double_is_nan :: "double \<Rightarrow> bool" where
  "double_is_nan d \<longleftrightarrow> 0x7FF0000000000000 < take_bit 63 d"

definition double_rank :: "double \<Rightarrow> int" where
  "double_rank d = (if bit d 63 then - uint (take_bit 63 d) else uint (take_bit 63 d))"

definition double_less :: "double \<Rightarrow> double \<Rightarrow> bool" where
  "double_less a b \<longleftrightarrow> \<not> double_is_nan a \<and> \<not> double_is_nan b \<and> double_rank a < double_rank b"

text \<open>\<open>std::string::compare\<close> and \<open>string16::compare\<close>: code units as unsigned numbers.\<close>

definition compare_units :: "'w::len word list \<Rightarrow> 'w word list \<Rightarrow> int" where
  "compare_units = lex_compare (three_way_of (<))"

fun CompareTo :: "(WebIDBKeyType \<Rightarrow> int) \<Rightarrow> IndexedDBKey \<Rightarrow> IndexedDBKey \<Rightarrow> int"
  and CompareArrays :: "(WebIDBKeyType \<Rightarrow> int) \<Rightarrow> IndexedDBKey list \<Rightarrow> IndexedDBKey list \<Rightarrow> int"
where
  "CompareTo kt a b =
     (if key_type a \<noteq> key_type b
      then if kt (key_type a) > kt (key_type b) then -1 else 1
      else case (a, b) of
          (ArrayKey xs, ArrayKey ys) \<Rightarrow> CompareArrays kt xs ys
        | (BinaryKey x, BinaryKey y) \<Rightarrow> compare_units x y
        | (StringKey x, StringKey y) \<Rightarrow> compare_units x y
        | (DateKey x, DateKey y) \<Rightarrow> three_way_of double_less x y
        | (NumberKey x, NumberKey y) \<Rightarrow> three_way_of double_less x y
        | _ \<Rightarrow> 0)"
| "CompareArrays kt (x # xs) (y # ys) =
     (let result = CompareTo kt x y in if result \<noteq> 0 then result else CompareArrays kt xs ys)"
| "CompareArrays kt [] ys = three_way_of (<) 0 (length ys)"
| "CompareArrays kt xs [] = three_way_of (<) (length xs) 0"

definition IsLessThan :: "(WebIDBKeyType \<Rightarrow> int) \<Rightarrow> IndexedDBKey \<Rightarrow> IndexedDBKey \<Rightarrow> bool" where
  "IsLessThan kt a b \<longleftrightarrow> CompareTo kt a b < 0"

definition Equals :: "(WebIDBKeyType \<Rightarrow> int) \<Rightarrow> IndexedDBKey \<Rightarrow> IndexedDBKey \<Rightarrow> bool" where
  "Equals kt a b \<longleftrightarrow> CompareTo kt a b = 0"

subsection \<open>Encoding and decoding keys\<close>

abbreviation (input) kIndexedDBKeyNullTypeByte :: byte where "kIndexedDBKeyNullTypeByte \<equiv> 0"
abbreviation (input) kIndexedDBKeyStringTypeByte :: byte where "kIndexedDBKeyStringTypeByte \<equiv> 1"
abbreviation (input) kIndexedDBKeyDateTypeByte :: byte where "kIndexedDBKeyDateTypeByte \<equiv> 2"
abbreviation (input) kIndexedDBKeyNumberTypeByte :: byte where "kIndexedDBKeyNumberTypeByte \<equiv> 3"
abbreviation (input) kIndexedDBKeyArrayTypeByte :: byte where "kIndexedDBKeyArrayTypeByte \<equiv> 4"
abbreviation (input) kIndexedDBKeyMinKeyTypeByte :: byte where "kIndexedDBKeyMinKeyTypeByte \<equiv> 5"
abbreviation (input) kIndexedDBKeyBinaryTypeByte :: byte where "kIndexedDBKeyBinaryTypeByte \<equiv> 6"

definition MaxIDBKey :: bytes where
  "MaxIDBKey = EncodeByte kIndexedDBKeyNullTypeByte []"

definition MinIDBKey :: bytes where
  "MinIDBKey = EncodeByte kIndexedDBKeyMinKeyTypeByte []"

fun EncodeIDBKey :: "IndexedDBKey \<Rightarrow> bytes \<Rightarrow> bytes" where
  "EncodeIDBKey (ArrayKey ks) into =
     fold EncodeIDBKey ks
       (EncodeVarInt (of_nat (length ks)) (EncodeByte kIndexedDBKeyArrayTypeByte into))"
| "EncodeIDBKey (BinaryKey bs) into = EncodeBinary bs (EncodeByte kIndexedDBKeyBinaryTypeByte into)"
| "EncodeIDBKey (StringKey cs) into =
     EncodeStringWithLength cs (EncodeByte kIndexedDBKeyStringTypeByte into)"
| "EncodeIDBKey (DateKey d) into = EncodeDouble d (EncodeByte kIndexedDBKeyDateTypeByte into)"
| "EncodeIDBKey (NumberKey d) into = EncodeDouble d (EncodeByte kIndexedDBKeyNumberTypeByte into)"
| "EncodeIDBKey _ into = EncodeByte kIndexedDBKeyNullTypeByte into"

primrec decode_key :: "nat \<Rightarrow> bytes \<Rightarrow> IndexedDBKey decoded" where
  "decode_key 0 sl = Inl Refused"
| "decode_key (Suc depth) sl =
     (case sl of
        [] \<Rightarrow> Inl Refused
      | type # s \<Rightarrow>
          if type = kIndexedDBKeyNullTypeByte then Inr (NullKey, s)
          else if type = kIndexedDBKeyArrayTypeByte then
            bindE (DecodeVarInt s) (\<lambda>(len, s1).
              if sint len < 0 then Inl Refused
              else bindE (decode_times (decode_key depth) (unat len) s1)
                (\<lambda>(array, s2). Inr (ArrayKey array, s2)))
          else if type = kIndexedDBKeyBinaryTypeByte then
            bindE (DecodeBinary s) (\<lambda>(binary, s1). Inr (BinaryKey binary, s1))
          else if type = kIndexedDBKeyStringTypeByte then
            bindE (DecodeStringWithLength s) (\<lambda>(str, s1). Inr (StringKey str, s1))
          else if type = kIndexedDBKeyDateTypeByte then
            bindE (DecodeDouble s) (\<lambda>(d, s1). Inr (DateKey d, s1))
          else if type = kIndexedDBKeyNumberTypeByte then
            bindE (DecodeDouble s) (\<lambda>(d, s1). Inr (NumberKey d, s1))
          else Inl Refused)"

definition DecodeIDBKey :: "bytes \<Rightarrow> IndexedDBKey decoded" where
  "DecodeIDBKey sl = decode_key (length sl) sl"

subsection \<open>Skipping an encoded key\<close>

primrec consume_times :: "(bytes \<Rightarrow> failure + bytes) \<Rightarrow> nat \<Rightarrow> bytes \<Rightarrow> failure + bytes" where
  "consume_times c 0 s = Inr s"
| "consume_times c (Suc n) s = bindE (c s) (consume_times c n)"

primrec consume_key :: "nat \<Rightarrow> bytes \<Rightarrow> failure + bytes" where
  "consume_key 0 sl = Inl OutOfBounds"
| "consume_key (Suc depth) sl =
     (case sl of
        [] \<Rightarrow> Inl OutOfBounds
      | type # s \<Rightarrow>
          if type = kIndexedDBKeyNullTypeByte \<or> type = kIndexedDBKeyMinKeyTypeByte then Inr s
          else if type = kIndexedDBKeyArrayTypeByte then
            bindE (DecodeVarInt s) (\<lambda>(len, s1). consume_times (consume_key depth) (unat len) s1)
          else if type = kIndexedDBKeyBinaryTypeByte then
            bindE (DecodeVarInt s) (\<lambda>(len, s1).
              if sint len < 0 then Inl Refused
              else if length s1 < unat len then Inl Refused else Inr (drop (unat len) s1))
          else if type = kIndexedDBKeyStringTypeByte then
            bindE (DecodeVarInt s) (\<lambda>(len, s1).
              if sint len < 0 then Inl Refused
              else if length s1 < unat len * 2 then Inl Refused else Inr (drop (unat len * 2) s1))
          else if type = kIndexedDBKeyDateTypeByte \<or> type = kIndexedDBKeyNumberTypeByte then
            if length s < 8 then Inl Refused else Inr (drop 8 s)
          else Inl Refused)"

definition ConsumeEncodedIDBKey :: "bytes \<Rightarrow> failure + bytes" where
  "ConsumeEncodedIDBKey sl = consume_key (length sl) sl"

definition ExtractEncodedIDBKey :: "bytes \<Rightarrow> bytes decoded" where
  "ExtractEncodedIDBKey sl =
     bindE (ConsumeEncodedIDBKey sl) (\<lambda>s. Inr (take (length sl - length s) sl, s))"

subsection \<open>Comparing encoded keys\<close>

definition KeyTypeByteToKeyType :: "byte \<Rightarrow> WebIDBKeyType" where
  "KeyTypeByteToKeyType type =
     (if type = kIndexedDBKeyNullTypeByte then kWebIDBKeyTypeInvalid
      else if type = kIndexedDBKeyArrayTypeByte then kWebIDBKeyTypeArray
      else if type = kIndexedDBKeyBinaryTypeByte then kWebIDBKeyTypeBinary
      else if type = kIndexedDBKeyStringTypeByte then kWebIDBKeyTypeString
      else if type = kIndexedDBKeyDateTypeByte then kWebIDBKeyTypeDate
      else if type = kIndexedDBKeyNumberTypeByte then kWebIDBKeyTypeNumber
      else if type = kIndexedDBKeyMinKeyTypeByte then kWebIDBKeyTypeMin
      else kWebIDBKeyTypeInvalid)"

text \<open>
  A comparison returns the result with both slices moved on; \<open>*ok = false\<close> is \<open>Refused\<close>.
\<close>

type_synonym comparison = "failure + int \<times> bytes \<times> bytes"

definition compare_sized :: "nat \<Rightarrow> bytes \<Rightarrow> bytes \<Rightarrow> comparison" where
  "compare_sized unit sl1 sl2 =
     bindE (DecodeVarInt sl1) (\<lambda>(len1, s1).
     bindE (DecodeVarInt sl2) (\<lambda>(len2, s2).
       if sint len1 < 0 \<or> sint len2 < 0 then Inl Refused
       else let n1 = unat len1 * unit; n2 = unat len2 * unit in
         if length s1 < n1 \<or> length s2 < n2 then Inl Refused
         else Inr (compare_units (take n1 s1) (take n2 s2), drop n1 s1, drop n2 s2)))"

definition CompareEncodedStringsWithLength :: "bytes \<Rightarrow> bytes \<Rightarrow> comparison" where
  "CompareEncodedStringsWithLength = compare_sized 2"

definition CompareEncodedBinary :: "bytes \<Rightarrow> bytes \<Rightarrow> comparison" where
  "CompareEncodedBinary = compare_sized 1"

text \<open>The conversion of an \<open>int64_t\<close> to the \<open>int\<close> a comparison returns.\<close>

definition int_of_int64 :: "int64 \<Rightarrow> int" where
  "int_of_int64 w = sint (ucast w :: 32 word)"

definition CompareInts :: "int64 \<Rightarrow> int64 \<Rightarrow> int" where
  "CompareInts a b =
     (let diff = a - b in if sint diff < 0 then -1 else if 0 < sint diff then 1 else 0)"

definition CompareSizes :: "nat \<Rightarrow> nat \<Rightarrow> int" where
  "CompareSizes a b = (if a > b then 1 else if b > a then -1 else 0)"

definition CompareTypes :: "(WebIDBKeyType \<Rightarrow> int) \<Rightarrow> WebIDBKeyType \<Rightarrow> WebIDBKeyType \<Rightarrow> int" where
  "CompareTypes kt a b = kt b - kt a"

primrec compare_times ::
  "(bytes \<Rightarrow> bytes \<Rightarrow> comparison) \<Rightarrow> nat \<Rightarrow> bytes \<Rightarrow> bytes \<Rightarrow> comparison" where
  "compare_times c 0 a b = Inr (0, a, b)"
| "compare_times c (Suc n) a b =
     bindE (c a b) (\<lambda>(result, a', b').
       if result \<noteq> 0 then Inr (result, a', b') else compare_times c n a' b')"

definition compare_doubles :: "bytes \<Rightarrow> bytes \<Rightarrow> comparison" where
  "compare_doubles a b =
     bindE (DecodeDouble a) (\<lambda>(d, a'). bindE (DecodeDouble b) (\<lambda>(e, b').
       Inr (if double_less d e then -1 else if double_less e d then 1 else 0, a', b')))"

primrec compare_keys :: "(WebIDBKeyType \<Rightarrow> int) \<Rightarrow> nat \<Rightarrow> bytes \<Rightarrow> bytes \<Rightarrow> comparison" where
  "compare_keys kt 0 a b = Inl OutOfBounds"
| "compare_keys kt (Suc depth) a b =
     (case (a, b) of
        (type_a # a1, type_b # b1) \<Rightarrow>
          let x = CompareTypes kt (KeyTypeByteToKeyType type_a) (KeyTypeByteToKeyType type_b) in
          if x \<noteq> 0 then Inr (x, a1, b1)
          else if type_a = kIndexedDBKeyNullTypeByte \<or> type_a = kIndexedDBKeyMinKeyTypeByte
            then Inr (0, a1, b1)
          else if type_a = kIndexedDBKeyArrayTypeByte then
            bindE (DecodeVarInt a1) (\<lambda>(length_a, a2). bindE (DecodeVarInt b1) (\<lambda>(length_b, b2).
              bindE (compare_times (compare_keys kt depth)
                       (nat (min (sint length_a) (sint length_b))) a2 b2)
                (\<lambda>(result, a3, b3).
                  if result \<noteq> 0 then Inr (result, a3, b3)
                  else Inr (int_of_int64 (length_a - length_b), a3, b3))))
          else if type_a = kIndexedDBKeyBinaryTypeByte then CompareEncodedBinary a1 b1
          else if type_a = kIndexedDBKeyStringTypeByte then CompareEncodedStringsWithLength a1 b1
          else if type_a = kIndexedDBKeyDateTypeByte \<or> type_a = kIndexedDBKeyNumberTypeByte
            then compare_doubles a1 b1
          else Inr (0, a1, b1)
      | _ \<Rightarrow> Inl OutOfBounds)"

definition CompareEncodedIDBKeys ::
  "(WebIDBKeyType \<Rightarrow> int) \<Rightarrow> bytes \<Rightarrow> bytes \<Rightarrow> comparison" where
  "CompareEncodedIDBKeys kt a b = compare_keys kt (length a) a b"

subsection \<open>Key paths\<close>

datatype IndexedDBKeyPath = NullPath | StringPath string16 | ArrayPath "string16 list"

abbreviation (input) kIndexedDBKeyPathTypeCodedByte1 :: byte where "kIndexedDBKeyPathTypeCodedByte1 \<equiv> 0"
abbreviation (input) kIndexedDBKeyPathTypeCodedByte2 :: byte where "kIndexedDBKeyPathTypeCodedByte2 \<equiv> 0"
abbreviation (input) kIndexedDBKeyPathNullTypeByte :: byte where "kIndexedDBKeyPathNullTypeByte \<equiv> 0"
abbreviation (input) kIndexedDBKeyPathStringTypeByte :: byte where "kIndexedDBKeyPathStringTypeByte \<equiv> 1"
abbreviation (input) kIndexedDBKeyPathArrayTypeByte :: byte where "kIndexedDBKeyPathArrayTypeByte \<equiv> 2"

definition path_equal :: "IndexedDBKeyPath \<Rightarrow> IndexedDBKeyPath \<Rightarrow> bool" where
  "path_equal p q =
     (case (p, q) of
        (NullPath, NullPath) \<Rightarrow> True
      | (StringPath s, StringPath t) \<Rightarrow> s = t
      | (ArrayPath ss, ArrayPath ts) \<Rightarrow> ss = ts
      | _ \<Rightarrow> False)"

definition EncodeIDBKeyPath :: "IndexedDBKeyPath \<Rightarrow> bytes \<Rightarrow> bytes" where
  "EncodeIDBKeyPath value into =
     (let coded = EncodeByte kIndexedDBKeyPathTypeCodedByte2
                    (EncodeByte kIndexedDBKeyPathTypeCodedByte1 into)
      in case value of
           NullPath \<Rightarrow> EncodeByte kIndexedDBKeyPathNullTypeByte coded
         | StringPath s \<Rightarrow>
             EncodeStringWithLength s (EncodeByte kIndexedDBKeyPathStringTypeByte coded)
         | ArrayPath array \<Rightarrow>
             fold EncodeStringWithLength array
               (EncodeVarInt (of_nat (length array))
                 (EncodeByte kIndexedDBKeyPathArrayTypeByte coded)))"

definition DecodeIDBKeyPath :: "bytes \<Rightarrow> IndexedDBKeyPath decoded" where
  "DecodeIDBKeyPath sl =
     (if length sl < 3 \<or> sl ! 0 \<noteq> kIndexedDBKeyPathTypeCodedByte1
         \<or> sl ! 1 \<noteq> kIndexedDBKeyPathTypeCodedByte2
      then bindE (DecodeString sl) (\<lambda>(s, rest). Inr (StringPath s, rest))
      else let type = sl ! 2; s = drop 3 sl in
        if type = kIndexedDBKeyPathNullTypeByte then Inr (NullPath, s)
        else if type = kIndexedDBKeyPathStringTypeByte then
          bindE (DecodeStringWithLength s) (\<lambda>(str, rest). Inr (StringPath str, rest))
        else if type = kIndexedDBKeyPathArrayTypeByte then
          bindE (DecodeVarInt s) (\<lambda>(count, s1).
            bindE (decode_times DecodeStringWithLength (unat count) s1)
              (\<lambda>(array, rest). Inr (ArrayPath array, rest)))
        else Inl Refused)"

end
