(* ===== verification/Idb_Key_Lemmas.thy ===== *)
theory Idb_Key_Lemmas
  imports Idb_Key
begin

text \<open>
  What the key encoding promises: a decoder that inverts it and never leaves the slice, a
  skipping routine that agrees with the decoder, and a comparison of encoded keys that agrees
  with \<open>IndexedDBKey::CompareTo\<close>, which is a total preorder on valid keys.
\<close>

subsection \<open>The encoders only append\<close>

lemma EncodeStringWithLength_into:
  "EncodeStringWithLength cs into = into @ EncodeStringWithLength cs []"
  by (simp add: EncodeStringWithLength_def EncodeVarInt_def)

lemma EncodeIDBKey_into: "EncodeIDBKey k into = into @ EncodeIDBKey k []"
proof (induction k into rule: EncodeIDBKey.induct)
  case (1 ks into)
  have *: "fold EncodeIDBKey js s = s @ concat (map (\<lambda>k. EncodeIDBKey k []) js)"
    if "set js \<subseteq> set ks" for js s
    using that
  proof (induction js arbitrary: s)
    case (Cons j js)
    then have "EncodeIDBKey j s = s @ EncodeIDBKey j []" by (intro "1") simp
    with Cons show ?case by simp
  qed simp
  show ?case by (simp add: * EncodeVarInt_def EncodeByte_def)
qed (simp_all add: EncodeBinary_def EncodeStringWithLength_def EncodeDouble_def EncodeByte_def
      EncodeVarInt_def)

lemma fold_EncodeIDBKey:
  "fold EncodeIDBKey ks into = into @ concat (map (\<lambda>k. EncodeIDBKey k []) ks)"
proof (induction ks arbitrary: into)
  case (Cons k ks)
  then show ?case using EncodeIDBKey_into [of k into] by simp
qed simp

lemma fold_EncodeStringWithLength:
  "fold EncodeStringWithLength ss into
   = into @ concat (map (\<lambda>s. EncodeStringWithLength s []) ss)"
proof (induction ss arbitrary: into)
  case (Cons s ss)
  then show ?case using EncodeStringWithLength_into [of s into] by simp
qed simp

text \<open>The bytes of each kind of key.\<close>

lemma enc_key_simps:
  "EncodeIDBKey (ArrayKey ks) [] =
     4 # EncodeVarInt (of_nat (length ks)) [] @ concat (map (\<lambda>k. EncodeIDBKey k []) ks)"
  "EncodeIDBKey (BinaryKey bs) [] = 6 # EncodeBinary bs []"
  "EncodeIDBKey (StringKey cs) [] = 1 # EncodeStringWithLength cs []"
  "EncodeIDBKey (DateKey d) [] = 2 # EncodeDouble d []"
  "EncodeIDBKey (NumberKey d) [] = 3 # EncodeDouble d []"
  by (simp_all add: fold_EncodeIDBKey EncodeVarInt_def EncodeByte_def EncodeBinary_def
      EncodeStringWithLength_def EncodeDouble_def)

text \<open>
  Keys that can be stored: valid, and every length within the \<open>int64_t\<close> that counts it.
\<close>

fun encodable :: "IndexedDBKey \<Rightarrow> bool" where
  "encodable (ArrayKey ks) \<longleftrightarrow> fits_int64 (length ks) \<and> (\<forall>k \<in> set ks. encodable k)"
| "encodable (BinaryKey bs) \<longleftrightarrow> fits_int64 (length bs)"
| "encodable (StringKey cs) \<longleftrightarrow> fits_int64 (length cs)"
| "encodable (DateKey d) \<longleftrightarrow> True"
| "encodable (NumberKey d) \<longleftrightarrow> True"
| "encodable _ \<longleftrightarrow> False"

lemma encodable_IsValid: "encodable k \<Longrightarrow> IsValid k"
  by (induction k) simp_all

lemma element_size: "k \<in> set ks \<Longrightarrow> size k < size_list size ks"
  by (induction ks) auto

subsection \<open>Decoding\<close>

lemma decode_key_shorter: "decode_key n s = Inr (k, s') \<Longrightarrow> length s' < length s"
proof (induction n arbitrary: s k s')
  case (Suc n)
  from Suc.prems obtain type t where s: "s = type # t" by (cases s) auto
  have times: "length b \<le> length a" if "decode_times (decode_key n) m a = Inr (ks, b)" for m a ks b
    using decode_times_shorter [OF _ that] Suc.IH by fastforce
  show ?case
    using Suc.prems s
    by (auto simp: bindE_eq_Inr split: if_splits
        dest!: DecodeVarInt_shorter DecodeBinary_shorter DecodeStringWithLength_shorter
          DecodeDouble_shorter times)
qed simp

lemma decode_key_fuel:
  "length s \<le> n \<Longrightarrow> length s \<le> m \<Longrightarrow> decode_key n s = decode_key m s"
proof (induction n arbitrary: m s)
  case 0
  then show ?case by (cases m) simp_all
next
  case (Suc n)
  show ?case
  proof (cases s)
    case Nil
    then show ?thesis by (cases m) simp_all
  next
    case (Cons type t)
    with Suc.prems obtain m' where m: "m = Suc m'" and tm: "length t \<le> m'" "length t \<le> n"
      by (cases m) auto
    have times: "decode_times (decode_key n) k u = decode_times (decode_key m') k u"
      if "length u \<le> length t" for k u
    proof (rule decode_times_cong)
      fix v :: bytes assume "length v \<le> length u"
      with that tm show "decode_key n v = decode_key m' v" by (intro Suc.IH) simp_all
    next
      fix v v' :: bytes and w assume "decode_key m' v = Inr (w, v')"
      then show "length v' \<le> length v" using decode_key_shorter by (simp add: less_imp_le)
    qed
    have "bindE (DecodeVarInt t) (\<lambda>(len, s1). if sint len < 0 then Inl Refused
            else bindE (decode_times (decode_key n) (unat len) s1) f)
        = bindE (DecodeVarInt t) (\<lambda>(len, s1). if sint len < 0 then Inl Refused
            else bindE (decode_times (decode_key m') (unat len) s1) f)"
      for f :: "IndexedDBKey list \<times> bytes \<Rightarrow> IndexedDBKey decoded"
      by (rule bindE_cong [OF refl]) (auto dest!: DecodeVarInt_shorter simp: times)
    then show ?thesis using Cons m by simp
  qed
qed

lemma decode_key_enc:
  "encodable k \<Longrightarrow> size k < n \<Longrightarrow> decode_key n (EncodeIDBKey k [] @ rest) = Inr (k, rest)"
proof (induction k arbitrary: n rest)
  case (ArrayKey ks)
  then obtain m where n: "n = Suc m" and m: "size_list size ks < m" by (cases n) auto
  have "decode_times (decode_key m) (length ks)
      (concat (map (\<lambda>k. EncodeIDBKey k []) ks) @ rest) = Inr (ks, rest)"
    using ArrayKey m element_size by (intro decode_times_concat ArrayKey.IH) fastforce+
  with ArrayKey.prems show ?case
    by (simp add: n enc_key_simps var_int.dec_enc unat_of_nat_fits sint_of_nat_fits
        del: EncodeIDBKey.simps)
next
  case (BinaryKey bs)
  then show ?case
    by (cases n) (simp_all add: enc_key_simps binary.dec_enc del: EncodeIDBKey.simps)
next
  case (StringKey cs)
  then show ?case
    by (cases n) (simp_all add: enc_key_simps sized_string.dec_enc del: EncodeIDBKey.simps)
next
  case (DateKey d)
  then show ?case
    by (cases n) (simp_all add: enc_key_simps double_codec.dec_enc del: EncodeIDBKey.simps)
next
  case (NumberKey d)
  then show ?case
    by (cases n) (simp_all add: enc_key_simps double_codec.dec_enc del: EncodeIDBKey.simps)
qed simp_all

lemma DecodeIDBKey_enc:
  assumes "encodable k"
  shows "DecodeIDBKey (EncodeIDBKey k [] @ rest) = Inr (k, rest)"
proof -
  let ?s = "EncodeIDBKey k [] @ rest"
  have "DecodeIDBKey ?s = decode_key (Suc (length ?s + size k)) ?s"
    unfolding DecodeIDBKey_def by (rule decode_key_fuel) simp_all
  also have "\<dots> = Inr (k, rest)" by (rule decode_key_enc [OF assms]) simp
  finally show ?thesis .
qed

interpretation idb_key: codec "\<lambda>k. EncodeIDBKey k []" DecodeIDBKey encodable
  by unfold_locales (rule DecodeIDBKey_enc)

text \<open>The recursive equation of the decoder, without fuel.\<close>

lemma DecodeIDBKey_unfold:
  "DecodeIDBKey [] = Inl Refused"
  "DecodeIDBKey (4 # s) =
     bindE (DecodeVarInt s) (\<lambda>(len, s1).
       if sint len < 0 then Inl Refused
       else bindE (decode_times DecodeIDBKey (unat len) s1)
         (\<lambda>(array, s2). Inr (ArrayKey array, s2)))"
proof -
  show "DecodeIDBKey [] = Inl Refused" by (simp add: DecodeIDBKey_def)
  have "decode_times (decode_key (length s)) n s1 = decode_times DecodeIDBKey n s1"
    if "DecodeVarInt s = Inr (len, s1)" for len s1 n
  proof (rule decode_times_cong)
    fix t :: bytes assume "length t \<le> length s1"
    then show "decode_key (length s) t = DecodeIDBKey t"
      using DecodeVarInt_shorter [OF that] unfolding DecodeIDBKey_def
      by (intro decode_key_fuel) simp_all
  qed (auto simp: DecodeIDBKey_def dest: decode_key_shorter)
  then show "DecodeIDBKey (4 # s) =
     bindE (DecodeVarInt s) (\<lambda>(len, s1).
       if sint len < 0 then Inl Refused
       else bindE (decode_times DecodeIDBKey (unat len) s1)
         (\<lambda>(array, s2). Inr (ArrayKey array, s2)))"
    by (auto simp: DecodeIDBKey_def [of "4 # s"] intro!: bindE_cong)
qed

lemma decode_key_in_bounds: "decode_key n s \<noteq> Inl OutOfBounds"
proof (induction n arbitrary: s)
  case (Suc n)
  then have "decode_times (decode_key n) k t \<noteq> Inl OutOfBounds" for k t
    by (rule decode_times_not_Inl)
  then show ?case by (cases s) (auto simp: bindE_eq_Inl)
qed simp

lemma DecodeIDBKey_in_bounds: "DecodeIDBKey s \<noteq> Inl OutOfBounds"
  by (simp add: DecodeIDBKey_def decode_key_in_bounds)

lemma DecodeIDBKey_shorter: "DecodeIDBKey s = Inr (k, s') \<Longrightarrow> length s' < length s"
  by (simp add: DecodeIDBKey_def decode_key_shorter)

end
