(* ===== verification/Idb_Key_Compare.thy ===== *)
theory Idb_Key_Compare
  imports Idb_Key_Lemmas
begin

text \<open>
  Skipping an encoded key agrees with decoding it, and comparing two encoded keys agrees in
  sign with \<open>IndexedDBKey::CompareTo\<close> on the keys themselves.
\<close>

subsection \<open>Skipping\<close>

lemma consume_key_shorter: "consume_key n s = Inr s' \<Longrightarrow> length s' < length s"
proof (induction n arbitrary: s s')
  case (Suc n)
  note outer = Suc.IH
  from Suc.prems obtain type t where s: "s = type # t" by (cases s) auto
  have times: "length b \<le> length a" if "consume_times (consume_key n) m a = Inr b" for m a b
    using that
  proof (induction m arbitrary: a)
    case (Suc m)
    then obtain u where "consume_key n a = Inr u" "consume_times (consume_key n) m u = Inr b"
      by (auto simp: bindE_eq_Inr)
    with Suc.IH [of u] outer [of a u] show ?case by simp
  qed simp
  show ?case
    using Suc.prems s
    by (auto simp: bindE_eq_Inr split: if_splits dest!: DecodeVarInt_shorter times)
qed simp

lemma consume_key_fuel:
  "length s \<le> n \<Longrightarrow> length s \<le> m \<Longrightarrow> consume_key n s = consume_key m s"
proof (induction n arbitrary: m s)
  case 0
  then show ?case by (cases m) simp_all
next
  case (Suc n)
  note outer = Suc.IH
  show ?case
  proof (cases s)
    case Nil
    then show ?thesis by (cases m) simp_all
  next
    case (Cons type t)
    with Suc.prems obtain m' where m: "m = Suc m'" and tm: "length t \<le> m'" "length t \<le> n"
      by (cases m) auto
    have times: "consume_times (consume_key n) k u = consume_times (consume_key m') k u"
      if "length u \<le> length t" for k u
      using that
    proof (induction k arbitrary: u)
      case (Suc k)
      then have "consume_key n u = consume_key m' u"
        using tm by (intro outer) simp_all
      with Suc show ?case
        by (auto intro!: bindE_cong dest!: consume_key_shorter)
    qed simp
    have "bindE (DecodeVarInt t) (\<lambda>(len, s1). consume_times (consume_key n) (unat len) s1)
        = bindE (DecodeVarInt t) (\<lambda>(len, s1). consume_times (consume_key m') (unat len) s1)"
      by (rule bindE_cong [OF refl]) (auto dest!: DecodeVarInt_shorter simp: times)
    then show ?thesis using Cons m by simp
  qed
qed

lemma consume_times_of_decode:
  assumes "\<And>t k t'. d t = Inr (k, t') \<Longrightarrow> c t = Inr t'"
  shows "decode_times d n s = Inr (ks, s') \<Longrightarrow> consume_times c n s = Inr s'"
proof (induction n arbitrary: s ks)
  case (Suc n)
  then obtain k t ks' where "d s = Inr (k, t)" "decode_times d n t = Inr (ks', s')"
    by (auto simp: bindE_eq_Inr)
  then show ?case using assms [of s k t] Suc.IH [of t ks'] by simp
qed simp

lemma consume_key_of_decode:
  "decode_key n s = Inr (k, s') \<Longrightarrow> consume_key n s = Inr s'"
proof (induction n arbitrary: s k s')
  case (Suc n)
  from Suc.prems obtain type t where s: "s = type # t" by (cases s) auto
  have times: "consume_times (consume_key n) m a = Inr b"
    if "decode_times (decode_key n) m a = Inr (ks, b)" for m a ks b
    using consume_times_of_decode [OF Suc.IH that] by simp
  show ?case
    using Suc.prems s
    by (auto simp: bindE_eq_Inr DecodeBinary_def DecodeStringWithLength_def DecodeDouble_def
        DecodeString_def Let_def dest!: times split: if_splits)
qed simp

lemma ConsumeEncodedIDBKey_of_decode:
  "DecodeIDBKey s = Inr (k, s') \<Longrightarrow> ConsumeEncodedIDBKey s = Inr s'"
  by (simp add: DecodeIDBKey_def ConsumeEncodedIDBKey_def consume_key_of_decode)

lemma ExtractEncodedIDBKey_enc:
  assumes "encodable k"
  shows "ExtractEncodedIDBKey (EncodeIDBKey k [] @ rest) = Inr (EncodeIDBKey k [], rest)"
  using ConsumeEncodedIDBKey_of_decode [OF DecodeIDBKey_enc [OF assms]]
  by (simp add: ExtractEncodedIDBKey_def)

lemma ConsumeEncodedIDBKey_unfold:
  "ConsumeEncodedIDBKey [] = Inl OutOfBounds"
  "ConsumeEncodedIDBKey (4 # s) =
     bindE (DecodeVarInt s) (\<lambda>(len, s1). consume_times ConsumeEncodedIDBKey (unat len) s1)"
proof -
  show "ConsumeEncodedIDBKey [] = Inl OutOfBounds" by (simp add: ConsumeEncodedIDBKey_def)
  have "consume_times (consume_key (length s)) n t = consume_times ConsumeEncodedIDBKey n t"
    if "length t \<le> length s" for n t
    using that
  proof (induction n arbitrary: t)
    case (Suc n)
    then have "consume_key (length s) t = ConsumeEncodedIDBKey t"
      unfolding ConsumeEncodedIDBKey_def by (intro consume_key_fuel) simp_all
    moreover have "length u \<le> length s" if "ConsumeEncodedIDBKey t = Inr u" for u
      using that Suc.prems consume_key_shorter [of "length t" t u]
      by (simp add: ConsumeEncodedIDBKey_def)
    ultimately show ?case using Suc.IH by (auto intro!: bindE_cong)
  qed simp
  then show "ConsumeEncodedIDBKey (4 # s) =
     bindE (DecodeVarInt s) (\<lambda>(len, s1). consume_times ConsumeEncodedIDBKey (unat len) s1)"
    by (auto simp: ConsumeEncodedIDBKey_def [of "4 # s"] intro!: bindE_cong
        dest!: DecodeVarInt_shorter)
qed

subsection \<open>Comparing code units\<close>

lemma utf16_unit_order:
  "three_way_of (<) (c :: char16) d =
     then_compare (three_way_of (<) (ucast (drop_bit 8 c) :: byte) (ucast (drop_bit 8 d)))
       (three_way_of (<) (ucast c :: byte) (ucast d))"
proof -
  have split: "unat v = 256 * unat (ucast (drop_bit 8 v) :: byte) + unat (ucast v :: byte)"
    for v :: char16
  proof -
    have "unat v div 256 < 256" using unsigned_less [of v, where 'a = nat] by auto
    then have "unat (ucast (drop_bit 8 v) :: byte) = unat v div 256"
      unfolding unsigned_ucast_eq unat_drop_bit_eq by (simp add: take_bit_eq_mod drop_bit_eq_div)
    moreover have "unat (ucast v :: byte) = unat v mod 256" by (simp add: unsigned_ucast_eq take_bit_eq_mod)
    ultimately show ?thesis by simp
  qed
  have lo: "unat (ucast v :: byte) < 256" for v :: char16
    using unsigned_less [of "ucast v :: byte", where 'a = nat] by simp
  show ?thesis
    using split [of c] split [of d] lo [of c] lo [of d]
    by (auto simp: three_way_of_def then_compare_def word_less_nat_alt)
qed

lemma compare_utf16be: "compare_units (utf16be a) (utf16be b) = compare_units a b"
  unfolding compare_units_def
proof (induction a arbitrary: b)
  case Nil
  then show ?case by (cases b) simp_all
next
  case (Cons c a)
  show ?case
  proof (cases b)
    case (Cons d b')
    then show ?thesis
      using Cons.IH [of b'] utf16_unit_order [of c d] by (simp add: then_compare_def)
  qed simp
qed

interpretation unit_order: three_way "compare_units :: 'w::len word list \<Rightarrow> _" "\<lambda>_. True"
  using word_order.lex_three_way unfolding compare_units_def by simp

lemma compare_units_sign: "compare_units a b \<in> {-1, 0, 1}"
  unfolding compare_units_def
  by (induction "three_way_of (<) :: 'a word \<Rightarrow> _" a b rule: lex_compare.induct)
    (auto simp: three_way_of_def split: if_splits)

subsection \<open>Doubles\<close>

interpretation double_order: three_way "three_way_of double_less" "\<lambda>d. \<not> double_is_nan d"
  by unfold_locales (auto simp: three_way_of_def double_less_def split: if_splits)

subsection \<open>Keys\<close>

text \<open>
  Keys whose arrays are shorter than 2^31: the length difference of two arrays is returned as a
  32-bit \<open>int\<close>.
\<close>

fun comparable :: "IndexedDBKey \<Rightarrow> bool" where
  "comparable (ArrayKey ks) \<longleftrightarrow> length ks < 2 ^ 31 \<and> (\<forall>k \<in> set ks. comparable k)"
| "comparable k \<longleftrightarrow> encodable k"

lemma comparable_encodable: "comparable k \<Longrightarrow> encodable k"
  by (induction k) (auto simp: fits_int64_def)

lemma ucast_of_int_32: "ucast (word_of_int j :: int64) = (word_of_int j :: 32 word)"
  by (rule bit_word_eqI) (simp add: bit_simps)

lemma int_of_int64_diff:
  assumes "m < 2 ^ 31" "n < 2 ^ 31"
  shows "int_of_int64 (of_nat m - of_nat n) = int m - int n"
proof -
  let ?k = "int m - int n"
  have "(of_nat m - of_nat n :: int64) = of_int ?k" by simp
  moreover have "ucast (of_int ?k :: int64) = (of_int ?k :: 32 word)"
    by (rule ucast_of_int_32)
  ultimately have "int_of_int64 (of_nat m - of_nat n) = signed_take_bit 31 ?k"
    by (simp only: int_of_int64_def signed_of_int) simp
  also have "\<dots> = ?k" using assms by (intro signed_take_bit_int_eq_self) auto
  finally show ?thesis .
qed

lemma KeyTypeByteToKeyType_enc:
  "encodable k \<Longrightarrow> \<exists>b s. EncodeIDBKey k [] = b # s \<and> KeyTypeByteToKeyType b = key_type k"
  by (cases k) (simp_all add: enc_key_simps KeyTypeByteToKeyType_def del: EncodeIDBKey.simps)

text \<open>
  A run of an encoded comparison on the encodings of two values, followed by anything: the
  result has the sign of \<open>r\<close>, and on a tie both slices stand after the values.
\<close>

definition agrees :: "comparison \<Rightarrow> int \<Rightarrow> bytes \<Rightarrow> bytes \<Rightarrow> bool" where
  "agrees c r s t \<longleftrightarrow>
     (\<exists>x a b. c = Inr (x, a, b) \<and> sgn x = sgn r \<and> (x = 0 \<longrightarrow> a = s \<and> b = t))"

lemma agrees_same: "agrees (Inr (r, s, t)) r s t"
  by (simp add: agrees_def)

lemma CompareEncodedBinary_enc:
  assumes "fits_int64 (length x)" "fits_int64 (length y)"
  shows "agrees (CompareEncodedBinary (EncodeBinary x [] @ s) (EncodeBinary y [] @ t))
           (compare_units x y) s t"
  using assms
  by (simp add: CompareEncodedBinary_def compare_sized_def EncodeBinary_def EncodeVarInt_def
      sint_of_nat_fits unat_of_nat_fits Let_def agrees_def)

lemma CompareEncodedStringsWithLength_enc:
  assumes "fits_int64 (length x)" "fits_int64 (length y)"
  shows "agrees (CompareEncodedStringsWithLength
            (EncodeStringWithLength x [] @ s) (EncodeStringWithLength y [] @ t))
           (compare_units x y) s t"
  using assms
  by (simp add: CompareEncodedStringsWithLength_def compare_sized_def EncodeStringWithLength_def
      EncodeVarInt_def sint_of_nat_fits unat_of_nat_fits Let_def agrees_def compare_utf16be
      mult.commute)

lemma compare_doubles_enc:
  "agrees (compare_doubles (EncodeDouble x [] @ s) (EncodeDouble y [] @ t))
     (three_way_of double_less x y) s t"
  by (simp add: compare_doubles_def double_codec.dec_enc agrees_def three_way_of_def)

lemma CompareArrays_same_length:
  "length xs = length ys \<Longrightarrow>
   CompareArrays kt xs ys = lex_compare (CompareTo kt) xs ys"
  by (induction xs ys rule: list_induct2)
    (simp_all add: three_way_of_def Let_def del: CompareTo.simps)

lemma compare_times_enc:
  assumes "\<And>x y s t. x \<in> set xs \<Longrightarrow> y \<in> set ys \<Longrightarrow>
      agrees (c (EncodeIDBKey x [] @ s) (EncodeIDBKey y [] @ t)) (CompareTo kt x y) s t"
  shows "\<exists>r a b. compare_times c (min (length xs) (length ys))
       (concat (map (\<lambda>k. EncodeIDBKey k []) xs) @ s) (concat (map (\<lambda>k. EncodeIDBKey k []) ys) @ t)
       = Inr (r, a, b)
     \<and> (r \<noteq> 0 \<longrightarrow> sgn r = sgn (CompareArrays kt xs ys))
     \<and> (r = 0 \<longrightarrow> CompareArrays kt xs ys = three_way_of (<) (length xs) (length ys)
          \<and> (length xs = length ys \<longrightarrow> a = s \<and> b = t))"
  using assms
proof (induction xs arbitrary: ys)
  case Nil
  then show ?case by (cases ys) simp_all
next
  case (Cons x xs)
  show ?case
  proof (cases ys)
    case Nil
    then show ?thesis by simp
  next
    case (Cons y ys')
    let ?e = "\<lambda>ks. concat (map (\<lambda>k. EncodeIDBKey k []) ks)"
    obtain r a b where c: "c (EncodeIDBKey x [] @ ?e xs @ s) (EncodeIDBKey y [] @ ?e ys' @ t) = Inr (r, a, b)"
      and r: "sgn r = sgn (CompareTo kt x y)" "r = 0 \<longrightarrow> a = ?e xs @ s \<and> b = ?e ys' @ t"
      using Cons.prems [of x y "?e xs @ s" "?e ys' @ t"] \<open>ys = y # ys'\<close> by (auto simp: agrees_def)
    show ?thesis
    proof (cases "r = 0")
      case True
      then have "CompareTo kt x y = 0" using r(1) by (metis sgn_0_0)
      moreover obtain r' a' b' where "compare_times c (min (length xs) (length ys'))
            (?e xs @ s) (?e ys' @ t) = Inr (r', a', b')"
        and "r' \<noteq> 0 \<longrightarrow> sgn r' = sgn (CompareArrays kt xs ys')"
        and "r' = 0 \<longrightarrow> CompareArrays kt xs ys' = three_way_of (<) (length xs) (length ys')
            \<and> (length xs = length ys' \<longrightarrow> a' = s \<and> b' = t)"
        using Cons.IH [of ys'] Cons.prems \<open>ys = y # ys'\<close> by auto
      ultimately show ?thesis
        using True r c \<open>ys = y # ys'\<close>
        by (auto simp: three_way_of_def simp del: CompareTo.simps)
    next
      case False
      then have "CompareTo kt x y \<noteq> 0" using r(1) by (metis sgn_0_0)
      then show ?thesis using False c r(1) \<open>ys = y # ys'\<close>
        by (simp add: Let_def del: CompareTo.simps)
    qed
  qed
qed

declare CompareTo.simps [simp del]

lemma CompareTo_types:
  "key_type a \<noteq> key_type b \<Longrightarrow>
   CompareTo kt a b = (if kt (key_type a) > kt (key_type b) then -1 else 1)"
  by (simp add: CompareTo.simps)

lemma CompareTo_same [simp]:
  "CompareTo kt (ArrayKey xs) (ArrayKey ys) = CompareArrays kt xs ys"
  "CompareTo kt (BinaryKey x) (BinaryKey y) = compare_units x y"
  "CompareTo kt (StringKey u) (StringKey v) = compare_units u v"
  "CompareTo kt (DateKey d) (DateKey e) = three_way_of double_less d e"
  "CompareTo kt (NumberKey d) (NumberKey e) = three_way_of double_less d e"
  by (simp_all add: CompareTo.simps)

text \<open>Two keys of one type are built by one constructor.\<close>

lemma same_type_cases:
  assumes "key_type a = key_type b" "IsValid a"
  obtains xs ys where "a = ArrayKey xs" "b = ArrayKey ys"
  | x y where "a = BinaryKey x" "b = BinaryKey y"
  | u v where "a = StringKey u" "b = StringKey v"
  | d e where "a = DateKey d" "b = DateKey e"
  | d e where "a = NumberKey d" "b = NumberKey e"
  using assms by (cases a; cases b) auto

lemma compare_keys_enc:
  "inj kt \<Longrightarrow> comparable a \<Longrightarrow> comparable b \<Longrightarrow> size a < n \<Longrightarrow>
   agrees (compare_keys kt n (EncodeIDBKey a [] @ s) (EncodeIDBKey b [] @ t))
     (CompareTo kt a b) s t"
proof (induction n arbitrary: a b s t)
  case (Suc n)
  note enc = comparable_encodable [OF Suc.prems(2)] comparable_encodable [OF Suc.prems(3)]
  obtain ba sa bb sb where a: "EncodeIDBKey a [] = ba # sa" "KeyTypeByteToKeyType ba = key_type a"
    and b: "EncodeIDBKey b [] = bb # sb" "KeyTypeByteToKeyType bb = key_type b"
    using KeyTypeByteToKeyType_enc enc by metis
  show ?case
  proof (cases "key_type a = key_type b")
    case False
    then have "kt (key_type a) \<noteq> kt (key_type b)" using \<open>inj kt\<close> by (simp add: inj_eq)
    then show ?thesis
      using a b False by (auto simp: agrees_def CompareTypes_def CompareTo_types Let_def)
  next
    case True
    from True encodable_IsValid [OF enc(1)] show ?thesis
    proof (cases rule: same_type_cases)
      case (1 xs ys)
      let ?e = "\<lambda>ks. concat (map (\<lambda>k. EncodeIDBKey k []) ks)"
      have len: "length xs < 2 ^ 31" "length ys < 2 ^ 31" "fits_int64 (length xs)" "fits_int64 (length ys)"
        using 1 Suc.prems by (auto simp: fits_int64_def)
      have "\<exists>r a b. compare_times (compare_keys kt n) (min (length xs) (length ys))
          (?e xs @ s) (?e ys @ t) = Inr (r, a, b)
        \<and> (r \<noteq> 0 \<longrightarrow> sgn r = sgn (CompareArrays kt xs ys))
        \<and> (r = 0 \<longrightarrow> CompareArrays kt xs ys = three_way_of (<) (length xs) (length ys)
             \<and> (length xs = length ys \<longrightarrow> a = s \<and> b = t))"
        using 1 Suc.prems element_size
        by (intro compare_times_enc Suc.IH) fastforce+
      then obtain r a' b' where r: "compare_times (compare_keys kt n) (min (length xs) (length ys))
          (?e xs @ s) (?e ys @ t) = Inr (r, a', b')"
        and nz: "r \<noteq> 0 \<longrightarrow> sgn r = sgn (CompareArrays kt xs ys)"
        and z: "r = 0 \<longrightarrow> CompareArrays kt xs ys = three_way_of (<) (length xs) (length ys)
             \<and> (length xs = length ys \<longrightarrow> a' = s \<and> b' = t)"
        by blast
      have m: "nat (min (int (length xs)) (int (length ys))) = min (length xs) (length ys)"
        by simp
      have diff: "int_of_int64 (of_nat (length xs) - of_nat (length ys))
          = int (length xs) - int (length ys)"
        using len(1,2) by (rule int_of_int64_diff)
      show ?thesis
      proof (cases "r = 0")
        case True
        have "compare_keys kt (Suc n) (EncodeIDBKey a [] @ s) (EncodeIDBKey b [] @ t)
            = Inr (int (length xs) - int (length ys), a', b')"
          using 1 r m diff True
          by (simp add: enc_key_simps var_int.dec_enc sint_of_nat_fits len Let_def
              CompareTypes_def del: EncodeIDBKey.simps)
        then show ?thesis using z True 1 by (auto simp: agrees_def three_way_of_def)
      next
        case False
        have "compare_keys kt (Suc n) (EncodeIDBKey a [] @ s) (EncodeIDBKey b [] @ t)
            = Inr (r, a', b')"
          using 1 r m False
          by (simp add: enc_key_simps var_int.dec_enc sint_of_nat_fits len Let_def
              CompareTypes_def del: EncodeIDBKey.simps)
        then show ?thesis using nz False 1 by (simp add: agrees_def)
      qed
    next
      case (2 x y)
      then show ?thesis using enc
        by (simp add: enc_key_simps CompareTypes_def CompareEncodedBinary_enc
            del: EncodeIDBKey.simps)
    next
      case (3 u v)
      then show ?thesis using enc
        by (simp add: enc_key_simps CompareTypes_def CompareEncodedStringsWithLength_enc
            del: EncodeIDBKey.simps)
    next
      case (4 d e)
      then show ?thesis
        by (simp add: enc_key_simps CompareTypes_def compare_doubles_enc del: EncodeIDBKey.simps)
    next
      case (5 d e)
      then show ?thesis
        by (simp add: enc_key_simps CompareTypes_def compare_doubles_enc del: EncodeIDBKey.simps)
    qed
  qed
qed simp

lemma size_less_encoding: "encodable k \<Longrightarrow> size k < length (EncodeIDBKey k [])"
proof (induction k)
  case (ArrayKey ks)
  from ArrayKey have "size_list size js \<le> length (concat (map (\<lambda>k. EncodeIDBKey k []) js))"
    if "set js \<subseteq> set ks" for js
    using that by (induction js) (fastforce simp del: EncodeIDBKey.simps)+
  note body = this [OF subset_refl]
  have "1 \<le> length (EncodeVarInt (of_nat (length ks)) [])"
    by (simp add: EncodeVarInt_def Suc_le_eq)
  from add_mono [OF this body] show ?case
    by (simp add: enc_key_simps less_Suc_eq_le del: EncodeIDBKey.simps)
qed (simp_all add: enc_key_simps EncodeBinary_def EncodeVarInt_def EncodeStringWithLength_def
      EncodeDouble_def del: EncodeIDBKey.simps)

lemma CompareEncodedIDBKeys_enc:
  assumes "inj kt" "comparable a" "comparable b"
  shows "agrees (CompareEncodedIDBKeys kt (EncodeIDBKey a [] @ s) (EncodeIDBKey b [] @ t))
           (CompareTo kt a b) s t"
  unfolding CompareEncodedIDBKeys_def
  using assms size_less_encoding [OF comparable_encodable [OF assms(2)]]
  by (intro compare_keys_enc) (simp_all add: trans_less_add1)

subsection \<open>The order of keys\<close>

text \<open>Valid keys without a NaN: on these \<open>CompareTo\<close> is a total preorder.\<close>

fun ordered_key :: "IndexedDBKey \<Rightarrow> bool" where
  "ordered_key (ArrayKey ks) \<longleftrightarrow> (\<forall>k \<in> set ks. ordered_key k)"
| "ordered_key (DateKey d) \<longleftrightarrow> \<not> double_is_nan d"
| "ordered_key (NumberKey d) \<longleftrightarrow> \<not> double_is_nan d"
| "ordered_key k \<longleftrightarrow> IsValid k"

lemma ordered_key_IsValid: "ordered_key k \<Longrightarrow> IsValid k"
  by (induction k) simp_all

lemma CompareArrays_lex: "CompareArrays kt xs ys = lex_compare (CompareTo kt) xs ys"
proof (induction xs arbitrary: ys)
  case Nil
  then show ?case by (cases ys) (simp_all add: three_way_of_def)
next
  case (Cons x xs)
  then show ?case by (cases ys) (simp_all add: three_way_of_def Let_def)
qed

lemma CompareTo_three_way_size:
  "inj kt \<Longrightarrow> three_way (CompareTo kt) (\<lambda>k. ordered_key k \<and> size k < n)"
proof (induction n)
  case 0
  show ?case by unfold_locales simp_all
next
  case (Suc n)
  note lex = three_way.lex_three_way [OF Suc.IH [OF Suc.prems]]
  have kt: "kt (key_type a) = kt (key_type b) \<longleftrightarrow> key_type a = key_type b" for a b
    using Suc.prems by (simp add: inj_eq)
  show ?case
  proof
    fix a b
    assume w: "ordered_key a \<and> size a < Suc n" "ordered_key b \<and> size b < Suc n"
    show "sgn (CompareTo kt b a) = - sgn (CompareTo kt a b)"
    proof (cases "key_type a = key_type b")
      case False
      then show ?thesis using kt [of a b] by (auto simp: CompareTo_types)
    next
      case True
      moreover have "IsValid a" using w ordered_key_IsValid by blast
      ultimately show ?thesis
      proof (cases rule: same_type_cases)
        case (1 xs ys)
        with w have "\<forall>k \<in> set xs. ordered_key k \<and> size k < n"
            "\<forall>k \<in> set ys. ordered_key k \<and> size k < n"
          by (auto dest: element_size)
        from three_way.cmp_swap [OF lex this] 1 show ?thesis
          by (simp add: CompareArrays_lex)
      next
        case (2 x y)
        show ?thesis unfolding 2 CompareTo_same by (rule unit_order.cmp_swap) simp_all
      next
        case (3 x y)
        show ?thesis unfolding 3 CompareTo_same by (rule unit_order.cmp_swap) simp_all
      next
        case (4 x y)
        with w show ?thesis
          unfolding 4 CompareTo_same by (intro double_order.cmp_swap) simp_all
      next
        case (5 x y)
        with w show ?thesis
          unfolding 5 CompareTo_same by (intro double_order.cmp_swap) simp_all
      qed
    qed
  next
    fix a b c
    assume w: "ordered_key a \<and> size a < Suc n" "ordered_key b \<and> size b < Suc n"
        "ordered_key c \<and> size c < Suc n"
      and le: "CompareTo kt a b \<le> 0" "CompareTo kt b c \<le> 0"
    show "CompareTo kt a c \<le> 0"
    proof (cases "key_type a = key_type b \<and> key_type b = key_type c")
      case False
      then show ?thesis
        using le kt [of a b] kt [of b c] kt [of a c]
        by (cases "key_type a = key_type b"; cases "key_type b = key_type c";
            cases "key_type a = key_type c") (auto simp: CompareTo_types split: if_splits)
    next
      case True
      then have "key_type a = key_type b" "IsValid a" using w ordered_key_IsValid by auto
      then show ?thesis
      proof (cases rule: same_type_cases)
        case (1 xs ys)
        then obtain zs where c: "c = ArrayKey zs" using True by (cases c) auto
        with w 1 have "\<forall>k \<in> set xs. ordered_key k \<and> size k < n"
            "\<forall>k \<in> set ys. ordered_key k \<and> size k < n"
            "\<forall>k \<in> set zs. ordered_key k \<and> size k < n"
          by (auto dest: element_size)
        from three_way.cmp_trans [OF lex this] 1 c le show ?thesis
          by (simp add: CompareArrays_lex)
      next
        case (2 x y)
        then obtain z where "c = BinaryKey z" using True by (cases c) auto
        then show ?thesis using 2 le unit_order.cmp_trans by simp
      next
        case (3 x y)
        then obtain z where "c = StringKey z" using True by (cases c) auto
        then show ?thesis using 3 le unit_order.cmp_trans by simp
      next
        case (4 x y)
        then obtain z where "c = DateKey z" using True by (cases c) auto
        then show ?thesis using 4 w le double_order.cmp_trans [of x y z] by simp
      next
        case (5 x y)
        then obtain z where "c = NumberKey z" using True by (cases c) auto
        then show ?thesis using 5 w le double_order.cmp_trans [of x y z] by simp
      qed
    qed
  qed
qed

lemma CompareTo_three_way:
  assumes "inj kt"
  shows "three_way (CompareTo kt) ordered_key"
proof
  fix a b assume "ordered_key a" "ordered_key b"
  then show "sgn (CompareTo kt b a) = - sgn (CompareTo kt a b)"
    using three_way.cmp_swap [OF CompareTo_three_way_size [OF assms], of a "Suc (size a + size b)" b]
    by simp
next
  fix a b c assume "ordered_key a" "ordered_key b" "ordered_key c"
    and "CompareTo kt a b \<le> 0" "CompareTo kt b c \<le> 0"
  then show "CompareTo kt a c \<le> 0"
    using three_way.cmp_trans [OF CompareTo_three_way_size [OF assms],
        of a "Suc (size a + size b + size c)" b c]
    by simp
qed

subsection \<open>Fuel\<close>

text \<open>The length of the first slice is enough fuel for the comparison.\<close>

lemma compare_sized_shorter:
  "compare_sized unit a b = Inr (r, a', b') \<Longrightarrow> length a' < length a"
  by (auto simp: compare_sized_def Let_def bindE_eq_Inr split: if_splits dest!: DecodeVarInt_shorter)

lemma compare_keys_shorter: "compare_keys kt n a b = Inr (r, a', b') \<Longrightarrow> length a' < length a"
proof (induction n arbitrary: a b r a' b')
  case (Suc n)
  note outer = Suc.IH
  from Suc.prems obtain x s y t where ab: "a = x # s" "b = y # t"
    by (cases a; cases b) auto
  have times: "length u' \<le> length u" if "compare_times (compare_keys kt n) m u v = Inr (q, u', v')"
    for m u v q u' v'
    using that
  proof (induction m arbitrary: u v)
    case (Suc m)
    then show ?case
      by (fastforce simp: bindE_eq_Inr split: if_splits dest!: outer)
  qed simp
  show ?case
    using Suc.prems ab
    by (auto simp: bindE_eq_Inr Let_def CompareEncodedBinary_def CompareEncodedStringsWithLength_def
        compare_doubles_def split: if_splits
        dest!: DecodeVarInt_shorter DecodeDouble_shorter times compare_sized_shorter)
qed simp

lemma compare_keys_fuel:
  "length a \<le> n \<Longrightarrow> length a \<le> m \<Longrightarrow> compare_keys kt n a b = compare_keys kt m a b"
proof (induction n arbitrary: m a b)
  case 0
  then show ?case by (cases m) simp_all
next
  case (Suc n)
  note outer = Suc.IH
  show ?case
  proof (cases a)
    case Nil
    then show ?thesis by (cases m) simp_all
  next
    case (Cons x s)
    with Suc.prems obtain m' where m: "m = Suc m'" and tm: "length s \<le> m'" "length s \<le> n"
      by (cases m) auto
    have times: "compare_times (compare_keys kt n) k u v = compare_times (compare_keys kt m') k u v"
      if "length u \<le> length s" for k u v
      using that
    proof (induction k arbitrary: u v)
      case (Suc k)
      then have "compare_keys kt n u v = compare_keys kt m' u v"
        using tm by (intro outer) simp_all
      with Suc show ?case
        by (auto intro!: bindE_cong dest!: compare_keys_shorter)
    qed simp
    have "bindE (DecodeVarInt s) (\<lambda>(la, u). bindE (DecodeVarInt t) (\<lambda>(lb, v).
           bindE (compare_times (compare_keys kt n) (k la lb) u v) (f la lb)))
        = bindE (DecodeVarInt s) (\<lambda>(la, u). bindE (DecodeVarInt t) (\<lambda>(lb, v).
           bindE (compare_times (compare_keys kt m') (k la lb) u v) (f la lb)))" for t k 
       and f :: "int64 \<Rightarrow> int64 \<Rightarrow> int \<times> bytes \<times> bytes \<Rightarrow> comparison"
      by (rule bindE_cong [OF refl]) (auto dest!: DecodeVarInt_shorter simp: times)
    then show ?thesis using Cons m by (cases b) (simp_all add: Let_def)
  qed
qed

lemma CompareEncodedIDBKeys_unfold:
  "CompareEncodedIDBKeys kt [] b = Inl OutOfBounds"
  "CompareEncodedIDBKeys kt a [] = Inl OutOfBounds"
  "CompareEncodedIDBKeys kt (4 # a) (4 # b) =
     bindE (DecodeVarInt a) (\<lambda>(length_a, a2). bindE (DecodeVarInt b) (\<lambda>(length_b, b2).
       bindE (compare_times (CompareEncodedIDBKeys kt) (nat (min (sint length_a) (sint length_b))) a2 b2)
         (\<lambda>(result, a3, b3). if result \<noteq> 0 then Inr (result, a3, b3)
            else Inr (int_of_int64 (length_a - length_b), a3, b3))))"
proof -
  show "CompareEncodedIDBKeys kt [] b = Inl OutOfBounds"
    "CompareEncodedIDBKeys kt a [] = Inl OutOfBounds"
    by (cases a; simp add: CompareEncodedIDBKeys_def)+
  have times: "compare_times (compare_keys kt (length a)) n u v = compare_times (CompareEncodedIDBKeys kt) n u v"
    if "length u \<le> length a" for n u v
    using that
  proof (induction n arbitrary: u v)
    case (Suc n)
    then have "compare_keys kt (length a) u v = CompareEncodedIDBKeys kt u v"
      unfolding CompareEncodedIDBKeys_def by (intro compare_keys_fuel) simp_all
    moreover have "length u' \<le> length a" if "CompareEncodedIDBKeys kt u v = Inr (r, u', v')" for r u' v'
      using compare_keys_shorter [OF that [unfolded CompareEncodedIDBKeys_def]] Suc.prems by simp
    ultimately show ?case using Suc.IH by (auto intro!: bindE_cong)
  qed simp
  have ty: "CompareTypes kt (KeyTypeByteToKeyType 4) (KeyTypeByteToKeyType 4) = 0"
    by (simp add: CompareTypes_def)
  show "CompareEncodedIDBKeys kt (4 # a) (4 # b) =
     bindE (DecodeVarInt a) (\<lambda>(length_a, a2). bindE (DecodeVarInt b) (\<lambda>(length_b, b2).
       bindE (compare_times (CompareEncodedIDBKeys kt) (nat (min (sint length_a) (sint length_b))) a2 b2)
         (\<lambda>(result, a3, b3). if result \<noteq> 0 then Inr (result, a3, b3)
            else Inr (int_of_int64 (length_a - length_b), a3, b3))))"
    unfolding CompareEncodedIDBKeys_def [of kt "4 # a"]
    by (simp add: Let_def ty) (auto intro!: bindE_cong dest!: DecodeVarInt_shorter simp: times)
qed

end
