(* ===== verification/Idb_Prefix.thy ===== *)
theory Idb_Prefix
  imports Idb_Key_Compare
begin

text \<open>
  The key prefix that starts every LevelDB key of IndexedDB (\<open>class KeyPrefix\<close>): three ids
  behind a byte that holds their lengths; and the blob journal, whose entries are checked
  against the ranges of the ids.
\<close>

subsection \<open>Ids\<close>

record KeyPrefix =
  database_id :: int64
  object_store_id :: int64
  index_id :: int64

datatype KeyPrefixType =
    GLOBAL_METADATA | DATABASE_METADATA | OBJECT_STORE_DATA | EXISTS_ENTRY | INDEX_DATA
  | INVALID_TYPE | BLOB_ENTRY

definition kMaxDatabaseId :: int64 where "kMaxDatabaseId = push_bit 63 1 - 1"
definition kMaxObjectStoreId :: int64 where "kMaxObjectStoreId = push_bit 63 1 - 1"
definition kMaxIndexId :: int64 where "kMaxIndexId = push_bit 31 1 - 1"

abbreviation (input) kObjectStoreDataIndexId :: int64 where "kObjectStoreDataIndexId \<equiv> 1"
abbreviation (input) kExistsEntryIndexId :: int64 where "kExistsEntryIndexId \<equiv> 2"
abbreviation (input) kBlobEntryIndexId :: int64 where "kBlobEntryIndexId \<equiv> 3"
abbreviation (input) kMinimumIndexId :: int64 where "kMinimumIndexId \<equiv> 30"

definition IsValidDatabaseId :: "int64 \<Rightarrow> bool" where
  "IsValidDatabaseId i \<longleftrightarrow> 0 < sint i \<and> sint i < sint kMaxDatabaseId"

definition IsValidObjectStoreId :: "int64 \<Rightarrow> bool" where
  "IsValidObjectStoreId i \<longleftrightarrow> 0 < sint i \<and> sint i < sint kMaxObjectStoreId"

definition IsValidIndexId :: "int64 \<Rightarrow> bool" where
  "IsValidIndexId i \<longleftrightarrow> sint kMinimumIndexId \<le> sint i \<and> sint i < sint kMaxIndexId"

definition ValidIds :: "int64 \<Rightarrow> int64 \<Rightarrow> int64 \<Rightarrow> bool" where
  "ValidIds db store index \<longleftrightarrow>
     IsValidDatabaseId db \<and> IsValidObjectStoreId store \<and> IsValidIndexId index"

definition ValidStoreIds :: "int64 \<Rightarrow> int64 \<Rightarrow> bool" where
  "ValidStoreIds db store \<longleftrightarrow> IsValidDatabaseId db \<and> IsValidObjectStoreId store"

text \<open>
  The constructors. The default one stores the number of the enumerator \<open>INVALID_TYPE\<close>, 5,
  in all three ids.
\<close>

definition KeyPrefix_default :: KeyPrefix where
  "KeyPrefix_default = \<lparr>database_id = 5, object_store_id = 5, index_id = 5\<rparr>"

definition KeyPrefix_database :: "int64 \<Rightarrow> KeyPrefix" where
  "KeyPrefix_database db = \<lparr>database_id = db, object_store_id = 0, index_id = 0\<rparr>"

definition KeyPrefix_store :: "int64 \<Rightarrow> int64 \<Rightarrow> KeyPrefix" where
  "KeyPrefix_store db store = \<lparr>database_id = db, object_store_id = store, index_id = 0\<rparr>"

definition KeyPrefix_index :: "int64 \<Rightarrow> int64 \<Rightarrow> int64 \<Rightarrow> KeyPrefix" where
  "KeyPrefix_index db store index =
     \<lparr>database_id = db, object_store_id = store, index_id = index\<rparr>"

definition CreateWithSpecialIndex :: "int64 \<Rightarrow> int64 \<Rightarrow> int64 \<Rightarrow> KeyPrefix" where
  "CreateWithSpecialIndex db store index =
     \<lparr>database_id = db, object_store_id = store, index_id = index\<rparr>"

subsection \<open>Encoding\<close>

definition EncodeInternal :: "int64 \<Rightarrow> int64 \<Rightarrow> int64 \<Rightarrow> bytes" where
  "EncodeInternal db store index =
     (let database_id_string = EncodeInt db [];
          object_store_id_string = EncodeInt store [];
          index_id_string = EncodeInt index [];
          first_byte = push_bit (3 + 2) (of_nat (length database_id_string - 1))
            OR push_bit 2 (of_nat (length object_store_id_string - 1))
            OR of_nat (length index_id_string - 1)
      in first_byte # database_id_string @ object_store_id_string @ index_id_string)"

definition EncodeEmpty :: bytes where
  "EncodeEmpty = replicate 4 0"

definition KeyPrefix_Encode :: "KeyPrefix \<Rightarrow> bytes" where
  "KeyPrefix_Encode p = EncodeInternal (database_id p) (object_store_id p) (index_id p)"

definition KeyPrefix_Decode :: "bytes \<Rightarrow> KeyPrefix decoded" where
  "KeyPrefix_Decode sl =
     bindE (DecodeByte sl) (\<lambda>(first_byte, s).
       let database_id_bytes = unat (drop_bit 5 first_byte AND 0x7) + 1;
           object_store_id_bytes = unat (drop_bit 2 first_byte AND 0x7) + 1;
           index_id_bytes = unat (first_byte AND 0x3) + 1
       in if database_id_bytes + object_store_id_bytes + index_id_bytes > length s
          then Inl Refused
          else bindE (DecodeInt (take database_id_bytes s)) (\<lambda>(db, _).
            let s1 = drop database_id_bytes s in
            bindE (DecodeInt (take object_store_id_bytes s1)) (\<lambda>(store, _).
              let s2 = drop object_store_id_bytes s1 in
              bindE (DecodeInt (take index_id_bytes s2)) (\<lambda>(index, _).
                Inr (\<lparr>database_id = db, object_store_id = store, index_id = index\<rparr>,
                     drop index_id_bytes s2)))))"

definition KeyPrefix_Compare :: "KeyPrefix \<Rightarrow> KeyPrefix \<Rightarrow> int" where
  "KeyPrefix_Compare a b =
     (if database_id a \<noteq> database_id b then CompareInts (database_id a) (database_id b)
      else if object_store_id a \<noteq> object_store_id b
        then CompareInts (object_store_id a) (object_store_id b)
      else if index_id a \<noteq> index_id b then CompareInts (index_id a) (index_id b)
      else 0)"

definition KeyPrefix_type :: "KeyPrefix \<Rightarrow> KeyPrefixType" where
  "KeyPrefix_type p =
     (if database_id p = 0 then GLOBAL_METADATA
      else if object_store_id p = 0 then DATABASE_METADATA
      else if index_id p = kObjectStoreDataIndexId then OBJECT_STORE_DATA
      else if index_id p = kExistsEntryIndexId then EXISTS_ENTRY
      else if index_id p = kBlobEntryIndexId then BLOB_ENTRY
      else if sint kMinimumIndexId \<le> sint (index_id p) then INDEX_DATA
      else INVALID_TYPE)"

subsection \<open>The blob journal\<close>

text \<open>\<open>DatabaseMetaDataKey\<close>'s blob keys.\<close>

abbreviation (input) kAllBlobsKey :: int64 where "kAllBlobsKey \<equiv> 1"
abbreviation (input) kBlobKeyGeneratorInitialNumber :: int64 where "kBlobKeyGeneratorInitialNumber \<equiv> 2"
abbreviation (input) kInvalidBlobKey :: int64 where "kInvalidBlobKey \<equiv> -1"

definition IsValidBlobKey :: "int64 \<Rightarrow> bool" where
  "IsValidBlobKey blob_key \<longleftrightarrow> sint kBlobKeyGeneratorInitialNumber \<le> sint blob_key"

type_synonym BlobJournal = "(int64 \<times> int64) list"

definition EncodeBlobJournal :: "BlobJournal \<Rightarrow> bytes \<Rightarrow> bytes" where
  "EncodeBlobJournal journal into =
     fold (\<lambda>(first, second) s. EncodeVarInt second (EncodeVarInt first s)) journal into"

function DecodeBlobJournal :: "bytes \<Rightarrow> failure + BlobJournal" where
  "DecodeBlobJournal sl =
     (if sl = [] then Inr []
      else bindE (DecodeVarInt sl) (\<lambda>(db, s1).
        if \<not> IsValidDatabaseId db then Inl Refused
        else bindE (DecodeVarInt s1) (\<lambda>(blob_key, s2).
          if \<not> IsValidBlobKey blob_key \<and> blob_key \<noteq> kAllBlobsKey then Inl Refused
          else bindE (DecodeBlobJournal s2) (\<lambda>output. Inr ((db, blob_key) # output)))))"
  by pat_completeness auto
termination
  by (relation "measure length") (auto dest!: DecodeVarInt_shorter)

declare DecodeBlobJournal.simps [simp del]

subsection \<open>The prefix round trip\<close>

lemma int_loop_length:
  "unat n < 256 ^ Suc k \<Longrightarrow> length (int_loop n) \<le> Suc k"
proof (induction k arbitrary: n)
  case 0
  then have "unat (drop_bit 8 n) = 0"
    unfolding unat_drop_bit_eq by (simp add: drop_bit_eq_div)
  then have "drop_bit 8 n = 0" by (simp only: unat_eq_zero)
  then show ?case by (simp add: int_loop.simps [of n] Let_def)
next
  case (Suc k)
  then have "unat (drop_bit 8 n) < 256 ^ Suc k"
    unfolding unat_drop_bit_eq by (simp add: drop_bit_eq_div less_mult_imp_div_less)
  from Suc.IH [OF this] show ?case by (simp add: int_loop.simps [of n] Let_def)
qed

lemma int_loop_length_8: "length (int_loop n) \<le> 8"
  using int_loop_length [of n 7] unsigned_less [of n, where 'a = nat] by simp

lemma sizes_byte:
  assumes "d < 8" "r < 8" "i < 4"
  defines "b \<equiv> push_bit 5 (of_nat d) OR push_bit 2 (of_nat r) OR of_nat i :: byte"
  shows "unat (drop_bit 5 b AND 7) = d \<and> unat (drop_bit 2 b AND 7) = r \<and> unat (b AND 3) = i"
proof -
  have "\<forall>d \<in> set [0..<8]. \<forall>r \<in> set [0..<8]. \<forall>i \<in> set [0..<4].
    let b = push_bit 5 (of_nat d) OR push_bit 2 (of_nat r) OR of_nat i :: byte in
    unat (drop_bit 5 b AND 7) = d \<and> unat (drop_bit 2 b AND 7) = r \<and> unat (b AND 3) = i"
    by code_simp
  with assms(1-3) show ?thesis unfolding b_def Let_def by simp
qed

text \<open>An index id that \<open>EncodeIntSafely\<close> accepts takes at most four bytes.\<close>

definition prefix_fits :: "KeyPrefix \<Rightarrow> bool" where
  "prefix_fits p \<longleftrightarrow> unat (index_id p) < 2 ^ 32"

lemma KeyPrefix_Decode_enc:
  assumes "prefix_fits p"
  shows "KeyPrefix_Decode (KeyPrefix_Encode p @ rest) = Inr (p, rest)"
proof -
  let ?d = "int_loop (database_id p)" and ?o = "int_loop (object_store_id p)"
    and ?i = "int_loop (index_id p)"
  have len: "length ?d - 1 < 8" "length ?o - 1 < 8" "length ?i - 1 < 4"
    using int_loop_length_8 [of "database_id p"] int_loop_length_8 [of "object_store_id p"]
      int_loop_length [of "index_id p" 3] assms by (simp_all add: prefix_fits_def)
  have pos: "0 < length ?d" "0 < length ?o" "0 < length ?i" by simp_all
  show ?thesis
    using sizes_byte [OF len] pos
    by (simp add: KeyPrefix_Decode_def KeyPrefix_Encode_def EncodeInternal_def EncodeInt_def
        DecodeByte_def Let_def del: length_greater_0_conv)
qed

interpretation key_prefix: codec KeyPrefix_Encode KeyPrefix_Decode prefix_fits
  by unfold_locales (rule KeyPrefix_Decode_enc)

lemma EncodeEmpty_eq: "EncodeEmpty = KeyPrefix_Encode \<lparr>database_id = 0, object_store_id = 0, index_id = 0\<rparr>"
  by (simp add: EncodeEmpty_def KeyPrefix_Encode_def EncodeInternal_def EncodeInt_def
      int_loop.simps [of 0] numeral_eq_Suc)

lemma KeyPrefix_Decode_in_bounds: "KeyPrefix_Decode s \<noteq> Inl OutOfBounds"
proof -
  have loop: "decode_int_loop t k r \<noteq> Inl OutOfBounds" for t k r
    by (induction t k r rule: decode_int_loop.induct) auto
  have "DecodeInt t \<noteq> Inl OutOfBounds" for t
    by (simp add: DecodeInt_def bindE_eq_Inl loop)
  then show ?thesis
    by (auto simp: KeyPrefix_Decode_def bindE_eq_Inl DecodeByte_def Let_def
        split: if_splits list.splits)
qed

subsection \<open>The blob journal round trip\<close>

lemma EncodeBlobJournal_Cons:
  "EncodeBlobJournal ((db, blob) # j) [] = var_int_loop db @ var_int_loop blob @ EncodeBlobJournal j []"
proof -
  have "EncodeBlobJournal j into = into @ EncodeBlobJournal j []" for j into
  proof (induction j arbitrary: into)
    case (Cons e j)
    obtain a b where e: "e = (a, b)" by (cases e)
    have "EncodeBlobJournal (e # j) s = EncodeBlobJournal j (s @ var_int_loop a @ var_int_loop b)" for s
      by (simp add: EncodeBlobJournal_def EncodeVarInt_def e)
    then show ?case
      using Cons.IH [of "into @ var_int_loop a @ var_int_loop b"]
        Cons.IH [of "var_int_loop a @ var_int_loop b"] by simp
  qed (simp add: EncodeBlobJournal_def)
  from this [of j "var_int_loop db @ var_int_loop blob"] show ?thesis
    by (simp add: EncodeBlobJournal_def EncodeVarInt_def)
qed

lemma DecodeBlobJournal_enc:
  "(\<forall>(db, blob) \<in> set j. IsValidDatabaseId db \<and> (IsValidBlobKey blob \<or> blob = kAllBlobsKey)) \<Longrightarrow>
   DecodeBlobJournal (EncodeBlobJournal j []) = Inr j"
proof (induction j)
  case Nil
  show ?case by (simp add: EncodeBlobJournal_def DecodeBlobJournal.simps)
next
  case (Cons e j)
  obtain db blob where e: "e = (db, blob)" by (cases e)
  with Cons show ?case
    by (simp add: EncodeBlobJournal_Cons DecodeBlobJournal.simps
        [of "var_int_loop db @ var_int_loop blob @ EncodeBlobJournal j []"])
qed

text \<open>What a decoded journal can contain, whatever the input.\<close>

lemma DecodeBlobJournal_valid:
  "DecodeBlobJournal s = Inr j \<Longrightarrow> (db, blob) \<in> set j \<Longrightarrow>
   IsValidDatabaseId db \<and> (IsValidBlobKey blob \<or> blob = kAllBlobsKey)"
proof (induction s arbitrary: j rule: DecodeBlobJournal.induct)
  case (1 s)
  show ?case
  proof (cases "s = []")
    case True
    with "1.prems" show ?thesis by (simp add: DecodeBlobJournal.simps)
  next
    case False
    with "1.prems" obtain d s1 b s2 j' where
      d: "DecodeVarInt s = Inr (d, s1)" "IsValidDatabaseId d"
      and b: "DecodeVarInt s1 = Inr (b, s2)" "IsValidBlobKey b \<or> b = kAllBlobsKey"
      and r: "DecodeBlobJournal s2 = Inr j'" "j = (d, b) # j'"
      by (auto simp: DecodeBlobJournal.simps [of s] bindE_eq_Inr split: if_splits)
    with "1.IH" [OF False d(1) refl _ b(1) refl _ r(1)] "1.prems" show ?thesis by auto
  qed
qed

end
