(* ===== verification/Idb_Entries.thy ===== *)
theory Idb_Entries
  imports Idb_Prefix
begin

text \<open>
  The key classes of the backing store (global metadata, database metadata, object store data,
  exists entries, blob entries and index data) with their encoders, decoders and comparisons.
  \<open>ascii16\<close> stands for \<open>base::ASCIIToUTF16\<close>, which is not part of the repository.
\<close>

abbreviation (input) int64_max :: int64 where "int64_max \<equiv> 0x7FFFFFFFFFFFFFFF"

abbreviation (input) kSchemaVersionTypeByte :: byte where "kSchemaVersionTypeByte \<equiv> 0"
abbreviation (input) kMaxDatabaseIdTypeByte :: byte where "kMaxDatabaseIdTypeByte \<equiv> 1"
abbreviation (input) kDataVersionTypeByte :: byte where "kDataVersionTypeByte \<equiv> 2"
abbreviation (input) kBlobJournalTypeByte :: byte where "kBlobJournalTypeByte \<equiv> 3"
abbreviation (input) kLiveBlobJournalTypeByte :: byte where "kLiveBlobJournalTypeByte \<equiv> 4"
abbreviation (input) kMaxSimpleGlobalMetaDataTypeByte :: byte where "kMaxSimpleGlobalMetaDataTypeByte \<equiv> 5"
abbreviation (input) kDatabaseFreeListTypeByte :: byte where "kDatabaseFreeListTypeByte \<equiv> 100"
abbreviation (input) kDatabaseNameTypeByte :: byte where "kDatabaseNameTypeByte \<equiv> 201"
abbreviation (input) kObjectStoreMetaDataTypeByte :: byte where "kObjectStoreMetaDataTypeByte \<equiv> 50"
abbreviation (input) kIndexMetaDataTypeByte :: byte where "kIndexMetaDataTypeByte \<equiv> 100"
abbreviation (input) kObjectStoreFreeListTypeByte :: byte where "kObjectStoreFreeListTypeByte \<equiv> 150"
abbreviation (input) kIndexFreeListTypeByte :: byte where "kIndexFreeListTypeByte \<equiv> 151"
abbreviation (input) kObjectStoreNamesTypeByte :: byte where "kObjectStoreNamesTypeByte \<equiv> 200"
abbreviation (input) kIndexNamesKeyTypeByte :: byte where "kIndexNamesKeyTypeByte \<equiv> 201"
abbreviation (input) kObjectMetaDataTypeMaximum :: byte where "kObjectMetaDataTypeMaximum \<equiv> 255"
abbreviation (input) kIndexMetaDataTypeMaximum :: byte where "kIndexMetaDataTypeMaximum \<equiv> 255"

subsection \<open>Global metadata\<close>

definition SchemaVersionKey_Encode :: bytes where
  "SchemaVersionKey_Encode = EncodeEmpty @ [kSchemaVersionTypeByte]"

definition MaxDatabaseIdKey_Encode :: bytes where
  "MaxDatabaseIdKey_Encode = EncodeEmpty @ [kMaxDatabaseIdTypeByte]"

definition DataVersionKey_Encode :: bytes where
  "DataVersionKey_Encode = EncodeEmpty @ [kDataVersionTypeByte]"

definition BlobJournalKey_Encode :: bytes where
  "BlobJournalKey_Encode = EncodeEmpty @ [kBlobJournalTypeByte]"

definition LiveBlobJournalKey_Encode :: bytes where
  "LiveBlobJournalKey_Encode = EncodeEmpty @ [kLiveBlobJournalTypeByte]"

record DatabaseFreeListKey =
  dfl_database_id :: int64

definition DatabaseFreeListKey_Decode :: "bytes \<Rightarrow> DatabaseFreeListKey decoded" where
  "DatabaseFreeListKey_Decode sl =
     bindE (KeyPrefix_Decode sl) (\<lambda>(prefix, s).
     bindE (DecodeByte s) (\<lambda>(type_byte, s).
     bindE (DecodeVarInt s) (\<lambda>(i, s). Inr (\<lparr>dfl_database_id = i\<rparr>, s))))"

definition DatabaseFreeListKey_Encode :: "int64 \<Rightarrow> bytes" where
  "DatabaseFreeListKey_Encode db = EncodeVarInt db (EncodeEmpty @ [kDatabaseFreeListTypeByte])"

definition DatabaseFreeListKey_EncodeMaxKey :: bytes where
  "DatabaseFreeListKey_EncodeMaxKey = DatabaseFreeListKey_Encode int64_max"

definition DatabaseFreeListKey_Compare ::
  "DatabaseFreeListKey \<Rightarrow> DatabaseFreeListKey \<Rightarrow> int" where
  "DatabaseFreeListKey_Compare a b = CompareInts (dfl_database_id a) (dfl_database_id b)"

record DatabaseNameKey =
  dn_origin :: string16
  dn_database_name :: string16

definition DatabaseNameKey_Decode :: "bytes \<Rightarrow> DatabaseNameKey decoded" where
  "DatabaseNameKey_Decode sl =
     bindE (KeyPrefix_Decode sl) (\<lambda>(prefix, s).
     bindE (DecodeByte s) (\<lambda>(type_byte, s).
     bindE (DecodeStringWithLength s) (\<lambda>(origin, s).
     bindE (DecodeStringWithLength s) (\<lambda>(name, s).
       Inr (\<lparr>dn_origin = origin, dn_database_name = name\<rparr>, s)))))"

definition DatabaseNameKey_Encode :: "(bytes \<Rightarrow> string16) \<Rightarrow> bytes \<Rightarrow> string16 \<Rightarrow> bytes" where
  "DatabaseNameKey_Encode ascii16 origin_identifier database_name =
     EncodeStringWithLength database_name
       (EncodeStringWithLength (ascii16 origin_identifier) (EncodeEmpty @ [kDatabaseNameTypeByte]))"

definition EncodeMinKeyForOrigin :: "(bytes \<Rightarrow> string16) \<Rightarrow> bytes \<Rightarrow> bytes" where
  "EncodeMinKeyForOrigin ascii16 origin_identifier =
     DatabaseNameKey_Encode ascii16 origin_identifier []"

definition EncodeStopKeyForOrigin :: "(bytes \<Rightarrow> string16) \<Rightarrow> bytes \<Rightarrow> bytes" where
  "EncodeStopKeyForOrigin ascii16 origin_identifier =
     EncodeMinKeyForOrigin ascii16 (origin_identifier @ [1])"

definition DatabaseNameKey_Compare :: "DatabaseNameKey \<Rightarrow> DatabaseNameKey \<Rightarrow> int" where
  "DatabaseNameKey_Compare a b =
     (let x = compare_units (dn_origin a) (dn_origin b)
      in if x \<noteq> 0 then x else compare_units (dn_database_name a) (dn_database_name b))"

subsection \<open>Database metadata\<close>

datatype DatabaseMetaDataType =
    ORIGIN_NAME | DATABASE_NAME | USER_STRING_VERSION | MAX_OBJECT_STORE_ID | USER_VERSION
  | BLOB_KEY_GENERATOR_CURRENT_NUMBER | MAX_SIMPLE_METADATA_TYPE

fun meta_data_byte :: "DatabaseMetaDataType \<Rightarrow> byte" where
  "meta_data_byte ORIGIN_NAME = 0"
| "meta_data_byte DATABASE_NAME = 1"
| "meta_data_byte USER_STRING_VERSION = 2"
| "meta_data_byte MAX_OBJECT_STORE_ID = 3"
| "meta_data_byte USER_VERSION = 4"
| "meta_data_byte BLOB_KEY_GENERATOR_CURRENT_NUMBER = 5"
| "meta_data_byte MAX_SIMPLE_METADATA_TYPE = 6"

definition DatabaseMetaDataKey_Encode :: "int64 \<Rightarrow> DatabaseMetaDataType \<Rightarrow> bytes" where
  "DatabaseMetaDataKey_Encode db type =
     KeyPrefix_Encode (KeyPrefix_database db) @ [meta_data_byte type]"

record ObjectStoreMetaDataKey =
  osm_object_store_id :: int64
  osm_meta_data_type :: byte

definition ObjectStoreMetaDataKey_default :: ObjectStoreMetaDataKey where
  "ObjectStoreMetaDataKey_default = \<lparr>osm_object_store_id = -1, osm_meta_data_type = 0xFF\<rparr>"

definition ObjectStoreMetaDataKey_Decode :: "bytes \<Rightarrow> ObjectStoreMetaDataKey decoded" where
  "ObjectStoreMetaDataKey_Decode sl =
     bindE (KeyPrefix_Decode sl) (\<lambda>(prefix, s).
     bindE (DecodeByte s) (\<lambda>(type_byte, s).
     bindE (DecodeVarInt s) (\<lambda>(store, s).
     bindE (DecodeByte s) (\<lambda>(meta, s).
       Inr (\<lparr>osm_object_store_id = store, osm_meta_data_type = meta\<rparr>, s)))))"

definition ObjectStoreMetaDataKey_Encode :: "int64 \<Rightarrow> int64 \<Rightarrow> byte \<Rightarrow> bytes" where
  "ObjectStoreMetaDataKey_Encode db store meta =
     EncodeVarInt store (KeyPrefix_Encode (KeyPrefix_database db) @ [kObjectStoreMetaDataTypeByte])
     @ [meta]"

definition ObjectStoreMetaDataKey_EncodeMaxKey :: "int64 \<Rightarrow> bytes" where
  "ObjectStoreMetaDataKey_EncodeMaxKey db =
     ObjectStoreMetaDataKey_Encode db int64_max kObjectMetaDataTypeMaximum"

definition ObjectStoreMetaDataKey_EncodeMaxKey_store :: "int64 \<Rightarrow> int64 \<Rightarrow> bytes" where
  "ObjectStoreMetaDataKey_EncodeMaxKey_store db store =
     ObjectStoreMetaDataKey_Encode db store kObjectMetaDataTypeMaximum"

definition ObjectStoreMetaDataKey_Compare ::
  "ObjectStoreMetaDataKey \<Rightarrow> ObjectStoreMetaDataKey \<Rightarrow> int" where
  "ObjectStoreMetaDataKey_Compare a b =
     (let x = CompareInts (osm_object_store_id a) (osm_object_store_id b)
      in if x \<noteq> 0 then x else uint (osm_meta_data_type a) - uint (osm_meta_data_type b))"

record IndexMetaDataKey =
  im_object_store_id :: int64
  im_index_id :: int64
  im_meta_data_type :: byte

definition IndexMetaDataKey_default :: IndexMetaDataKey where
  "IndexMetaDataKey_default =
     \<lparr>im_object_store_id = -1, im_index_id = -1, im_meta_data_type = 0\<rparr>"

definition IndexMetaDataKey_Decode :: "bytes \<Rightarrow> IndexMetaDataKey decoded" where
  "IndexMetaDataKey_Decode sl =
     bindE (KeyPrefix_Decode sl) (\<lambda>(prefix, s).
     bindE (DecodeByte s) (\<lambda>(type_byte, s).
     bindE (DecodeVarInt s) (\<lambda>(store, s).
     bindE (DecodeVarInt s) (\<lambda>(index, s).
     bindE (DecodeByte s) (\<lambda>(meta, s).
       Inr (\<lparr>im_object_store_id = store, im_index_id = index, im_meta_data_type = meta\<rparr>, s))))))"

definition IndexMetaDataKey_Encode :: "int64 \<Rightarrow> int64 \<Rightarrow> int64 \<Rightarrow> byte \<Rightarrow> bytes" where
  "IndexMetaDataKey_Encode db store index meta =
     EncodeByte meta (EncodeVarInt index (EncodeVarInt store
       (KeyPrefix_Encode (KeyPrefix_database db) @ [kIndexMetaDataTypeByte])))"

definition IndexMetaDataKey_EncodeMaxKey :: "int64 \<Rightarrow> int64 \<Rightarrow> bytes" where
  "IndexMetaDataKey_EncodeMaxKey db store =
     IndexMetaDataKey_Encode db store int64_max kIndexMetaDataTypeMaximum"

definition IndexMetaDataKey_EncodeMaxKey_index :: "int64 \<Rightarrow> int64 \<Rightarrow> int64 \<Rightarrow> bytes" where
  "IndexMetaDataKey_EncodeMaxKey_index db store index =
     IndexMetaDataKey_Encode db store index kIndexMetaDataTypeMaximum"

definition IndexMetaDataKey_Compare :: "IndexMetaDataKey \<Rightarrow> IndexMetaDataKey \<Rightarrow> int" where
  "IndexMetaDataKey_Compare a b =
     (let x = CompareInts (im_object_store_id a) (im_object_store_id b) in
      if x \<noteq> 0 then x
      else let y = CompareInts (im_index_id a) (im_index_id b) in
        if y \<noteq> 0 then y else uint (im_meta_data_type a) - uint (im_meta_data_type b))"

record ObjectStoreFreeListKey =
  osf_object_store_id :: int64

definition ObjectStoreFreeListKey_Decode :: "bytes \<Rightarrow> ObjectStoreFreeListKey decoded" where
  "ObjectStoreFreeListKey_Decode sl =
     bindE (KeyPrefix_Decode sl) (\<lambda>(prefix, s).
     bindE (DecodeByte s) (\<lambda>(type_byte, s).
     bindE (DecodeVarInt s) (\<lambda>(store, s). Inr (\<lparr>osf_object_store_id = store\<rparr>, s))))"

definition ObjectStoreFreeListKey_Encode :: "int64 \<Rightarrow> int64 \<Rightarrow> bytes" where
  "ObjectStoreFreeListKey_Encode db store =
     EncodeVarInt store (KeyPrefix_Encode (KeyPrefix_database db) @ [kObjectStoreFreeListTypeByte])"

definition ObjectStoreFreeListKey_EncodeMaxKey :: "int64 \<Rightarrow> bytes" where
  "ObjectStoreFreeListKey_EncodeMaxKey db = ObjectStoreFreeListKey_Encode db int64_max"

definition ObjectStoreFreeListKey_Compare ::
  "ObjectStoreFreeListKey \<Rightarrow> ObjectStoreFreeListKey \<Rightarrow> int" where
  "ObjectStoreFreeListKey_Compare a b = CompareInts (osf_object_store_id a) (osf_object_store_id b)"

record IndexFreeListKey =
  ifl_object_store_id :: int64
  ifl_index_id :: int64

definition IndexFreeListKey_Decode :: "bytes \<Rightarrow> IndexFreeListKey decoded" where
  "IndexFreeListKey_Decode sl =
     bindE (KeyPrefix_Decode sl) (\<lambda>(prefix, s).
     bindE (DecodeByte s) (\<lambda>(type_byte, s).
     bindE (DecodeVarInt s) (\<lambda>(store, s).
     bindE (DecodeVarInt s) (\<lambda>(index, s).
       Inr (\<lparr>ifl_object_store_id = store, ifl_index_id = index\<rparr>, s)))))"

definition IndexFreeListKey_Encode :: "int64 \<Rightarrow> int64 \<Rightarrow> int64 \<Rightarrow> bytes" where
  "IndexFreeListKey_Encode db store index =
     EncodeVarInt index (EncodeVarInt store
       (KeyPrefix_Encode (KeyPrefix_database db) @ [kIndexFreeListTypeByte]))"

definition IndexFreeListKey_EncodeMaxKey :: "int64 \<Rightarrow> int64 \<Rightarrow> bytes" where
  "IndexFreeListKey_EncodeMaxKey db store = IndexFreeListKey_Encode db store int64_max"

definition IndexFreeListKey_Compare :: "IndexFreeListKey \<Rightarrow> IndexFreeListKey \<Rightarrow> int" where
  "IndexFreeListKey_Compare a b =
     (let x = CompareInts (ifl_object_store_id a) (ifl_object_store_id b)
      in if x \<noteq> 0 then x else CompareInts (ifl_index_id a) (ifl_index_id b))"

record ObjectStoreNamesKey =
  osn_object_store_name :: string16

definition ObjectStoreNamesKey_Decode :: "bytes \<Rightarrow> ObjectStoreNamesKey decoded" where
  "ObjectStoreNamesKey_Decode sl =
     bindE (KeyPrefix_Decode sl) (\<lambda>(prefix, s).
     bindE (DecodeByte s) (\<lambda>(type_byte, s).
     bindE (DecodeStringWithLength s) (\<lambda>(name, s). Inr (\<lparr>osn_object_store_name = name\<rparr>, s))))"

definition ObjectStoreNamesKey_Encode :: "int64 \<Rightarrow> string16 \<Rightarrow> bytes" where
  "ObjectStoreNamesKey_Encode db name =
     EncodeStringWithLength name
       (KeyPrefix_Encode (KeyPrefix_database db) @ [kObjectStoreNamesTypeByte])"

definition ObjectStoreNamesKey_Compare ::
  "ObjectStoreNamesKey \<Rightarrow> ObjectStoreNamesKey \<Rightarrow> int" where
  "ObjectStoreNamesKey_Compare a b =
     compare_units (osn_object_store_name a) (osn_object_store_name b)"

record IndexNamesKey =
  in_object_store_id :: int64
  in_index_name :: string16

definition IndexNamesKey_Decode :: "bytes \<Rightarrow> IndexNamesKey decoded" where
  "IndexNamesKey_Decode sl =
     bindE (KeyPrefix_Decode sl) (\<lambda>(prefix, s).
     bindE (DecodeByte s) (\<lambda>(type_byte, s).
     bindE (DecodeVarInt s) (\<lambda>(store, s).
     bindE (DecodeStringWithLength s) (\<lambda>(name, s).
       Inr (\<lparr>in_object_store_id = store, in_index_name = name\<rparr>, s)))))"

definition IndexNamesKey_Encode :: "int64 \<Rightarrow> int64 \<Rightarrow> string16 \<Rightarrow> bytes" where
  "IndexNamesKey_Encode db store name =
     EncodeStringWithLength name (EncodeVarInt store
       (KeyPrefix_Encode (KeyPrefix_database db) @ [kIndexNamesKeyTypeByte]))"

definition IndexNamesKey_Compare :: "IndexNamesKey \<Rightarrow> IndexNamesKey \<Rightarrow> int" where
  "IndexNamesKey_Compare a b =
     (let x = CompareInts (in_object_store_id a) (in_object_store_id b)
      in if x \<noteq> 0 then x else compare_units (in_index_name a) (in_index_name b))"

subsection \<open>Object store data, exists entries, blob entries\<close>

record ObjectStoreDataKey =
  osd_encoded_user_key :: bytes

definition ObjectStoreDataKey_Decode :: "bytes \<Rightarrow> ObjectStoreDataKey decoded" where
  "ObjectStoreDataKey_Decode sl =
     bindE (KeyPrefix_Decode sl) (\<lambda>(prefix, s).
     bindE (ExtractEncodedIDBKey s) (\<lambda>(key, s). Inr (\<lparr>osd_encoded_user_key = key\<rparr>, s)))"

definition ObjectStoreDataKey_Encode :: "int64 \<Rightarrow> int64 \<Rightarrow> bytes \<Rightarrow> bytes" where
  "ObjectStoreDataKey_Encode db store encoded_user_key =
     KeyPrefix_Encode (CreateWithSpecialIndex db store kObjectStoreDataIndexId) @ encoded_user_key"

definition ObjectStoreDataKey_Encode_key :: "int64 \<Rightarrow> int64 \<Rightarrow> IndexedDBKey \<Rightarrow> bytes" where
  "ObjectStoreDataKey_Encode_key db store user_key =
     ObjectStoreDataKey_Encode db store (EncodeIDBKey user_key [])"

text \<open>\<open>user_key()\<close> is a null pointer, \<open>None\<close>, when the stored bytes do not decode.\<close>

definition decoded_key :: "bytes \<Rightarrow> IndexedDBKey option" where
  "decoded_key s = (case DecodeIDBKey s of Inl _ \<Rightarrow> None | Inr (k, _) \<Rightarrow> Some k)"

definition ObjectStoreDataKey_user_key :: "ObjectStoreDataKey \<Rightarrow> IndexedDBKey option" where
  "ObjectStoreDataKey_user_key k = decoded_key (osd_encoded_user_key k)"

record ExistsEntryKey =
  ee_encoded_user_key :: bytes

definition ExistsEntryKey_Decode :: "bytes \<Rightarrow> ExistsEntryKey decoded" where
  "ExistsEntryKey_Decode sl =
     bindE (KeyPrefix_Decode sl) (\<lambda>(prefix, s).
     bindE (ExtractEncodedIDBKey s) (\<lambda>(key, s). Inr (\<lparr>ee_encoded_user_key = key\<rparr>, s)))"

definition ExistsEntryKey_Encode :: "int64 \<Rightarrow> int64 \<Rightarrow> bytes \<Rightarrow> bytes" where
  "ExistsEntryKey_Encode db store encoded_key =
     KeyPrefix_Encode (CreateWithSpecialIndex db store kExistsEntryIndexId) @ encoded_key"

definition ExistsEntryKey_Encode_key :: "int64 \<Rightarrow> int64 \<Rightarrow> IndexedDBKey \<Rightarrow> bytes" where
  "ExistsEntryKey_Encode_key db store user_key =
     ExistsEntryKey_Encode db store (EncodeIDBKey user_key [])"

definition ExistsEntryKey_user_key :: "ExistsEntryKey \<Rightarrow> IndexedDBKey option" where
  "ExistsEntryKey_user_key k = decoded_key (ee_encoded_user_key k)"

record BlobEntryKey =
  be_database_id :: int64
  be_object_store_id :: int64
  be_encoded_user_key :: bytes

definition BlobEntryKey_Decode :: "bytes \<Rightarrow> BlobEntryKey decoded" where
  "BlobEntryKey_Decode sl =
     bindE (KeyPrefix_Decode sl) (\<lambda>(prefix, s).
     bindE (ExtractEncodedIDBKey s) (\<lambda>(key, s).
       Inr (\<lparr>be_database_id = database_id prefix, be_object_store_id = object_store_id prefix,
             be_encoded_user_key = key\<rparr>, s)))"

definition FromObjectStoreDataKey :: "bytes \<Rightarrow> BlobEntryKey decoded" where
  "FromObjectStoreDataKey sl =
     bindE (KeyPrefix_Decode sl) (\<lambda>(prefix, s).
     bindE (ExtractEncodedIDBKey s) (\<lambda>(key, s).
       Inr (\<lparr>be_database_id = database_id prefix, be_object_store_id = object_store_id prefix,
             be_encoded_user_key = key\<rparr>, s)))"

text \<open>An empty string where the decoder refuses; the undefined outcomes stay visible.\<close>

definition ReencodeToObjectStoreDataKey :: "bytes \<Rightarrow> failure + bytes" where
  "ReencodeToObjectStoreDataKey sl =
     (case BlobEntryKey_Decode sl of
        Inr (key, _) \<Rightarrow>
          Inr (ObjectStoreDataKey_Encode (be_database_id key) (be_object_store_id key)
                 (be_encoded_user_key key))
      | Inl Refused \<Rightarrow> Inr []
      | Inl e \<Rightarrow> Inl e)"

definition BlobEntryKey_Encode_bytes :: "int64 \<Rightarrow> int64 \<Rightarrow> bytes \<Rightarrow> bytes" where
  "BlobEntryKey_Encode_bytes db store encoded_user_key =
     KeyPrefix_Encode (CreateWithSpecialIndex db store kBlobEntryIndexId) @ encoded_user_key"

definition EncodeMinKeyForObjectStore :: "int64 \<Rightarrow> int64 \<Rightarrow> bytes" where
  "EncodeMinKeyForObjectStore db store = BlobEntryKey_Encode_bytes db store []"

definition EncodeStopKeyForObjectStore :: "int64 \<Rightarrow> int64 \<Rightarrow> bytes" where
  "EncodeStopKeyForObjectStore db store =
     KeyPrefix_Encode (CreateWithSpecialIndex db store (kBlobEntryIndexId + 1))"

definition BlobEntryKey_Encode :: "BlobEntryKey \<Rightarrow> bytes" where
  "BlobEntryKey_Encode k =
     BlobEntryKey_Encode_bytes (be_database_id k) (be_object_store_id k) (be_encoded_user_key k)"

definition BlobEntryKey_Encode_key :: "int64 \<Rightarrow> int64 \<Rightarrow> IndexedDBKey \<Rightarrow> bytes" where
  "BlobEntryKey_Encode_key db store user_key =
     BlobEntryKey_Encode_bytes db store (EncodeIDBKey user_key [])"

subsection \<open>Index data\<close>

record IndexDataKey =
  id_database_id :: int64
  id_object_store_id :: int64
  id_index_id :: int64
  id_encoded_user_key :: bytes
  id_encoded_primary_key :: bytes
  id_sequence_number :: int64

definition IndexDataKey_default :: IndexDataKey where
  "IndexDataKey_default =
     \<lparr>id_database_id = -1, id_object_store_id = -1, id_index_id = -1, id_encoded_user_key = [],
      id_encoded_primary_key = [], id_sequence_number = -1\<rparr>"

definition IndexDataKey_Decode :: "bytes \<Rightarrow> IndexDataKey decoded" where
  "IndexDataKey_Decode sl =
     bindE (KeyPrefix_Decode sl) (\<lambda>(prefix, s).
     bindE (ExtractEncodedIDBKey s) (\<lambda>(user_key, s).
       let result =
         \<lparr>id_database_id = database_id prefix, id_object_store_id = object_store_id prefix,
          id_index_id = index_id prefix, id_encoded_user_key = user_key,
          id_encoded_primary_key = MinIDBKey, id_sequence_number = -1\<rparr> in
       if s = [] then Inr (result, s)
       else bindE (DecodeVarInt s) (\<lambda>(seq, s).
         let result = result\<lparr>id_sequence_number := seq\<rparr> in
         if s = [] then Inr (result, s)
         else bindE (ExtractEncodedIDBKey s) (\<lambda>(primary_key, s).
           Inr (result\<lparr>id_encoded_primary_key := primary_key\<rparr>, s)))))"

definition IndexDataKey_Encode ::
  "int64 \<Rightarrow> int64 \<Rightarrow> int64 \<Rightarrow> bytes \<Rightarrow> bytes \<Rightarrow> int64 \<Rightarrow> bytes" where
  "IndexDataKey_Encode db store index encoded_user_key encoded_primary_key sequence_number =
     EncodeVarInt sequence_number
       (KeyPrefix_Encode (KeyPrefix_index db store index) @ encoded_user_key)
     @ encoded_primary_key"

definition IndexDataKey_Encode_user ::
  "int64 \<Rightarrow> int64 \<Rightarrow> int64 \<Rightarrow> IndexedDBKey \<Rightarrow> bytes" where
  "IndexDataKey_Encode_user db store index user_key =
     IndexDataKey_Encode db store index (EncodeIDBKey user_key []) MinIDBKey 0"

definition IndexDataKey_Encode_primary ::
  "int64 \<Rightarrow> int64 \<Rightarrow> int64 \<Rightarrow> IndexedDBKey \<Rightarrow> IndexedDBKey \<Rightarrow> bytes" where
  "IndexDataKey_Encode_primary db store index user_key user_primary_key =
     IndexDataKey_Encode db store index (EncodeIDBKey user_key [])
       (EncodeIDBKey user_primary_key []) 0"

definition IndexDataKey_EncodeMinKey :: "int64 \<Rightarrow> int64 \<Rightarrow> int64 \<Rightarrow> bytes" where
  "IndexDataKey_EncodeMinKey db store index =
     IndexDataKey_Encode db store index MinIDBKey MinIDBKey 0"

definition IndexDataKey_EncodeMaxKey :: "int64 \<Rightarrow> int64 \<Rightarrow> int64 \<Rightarrow> bytes" where
  "IndexDataKey_EncodeMaxKey db store index =
     IndexDataKey_Encode db store index MaxIDBKey MaxIDBKey int64_max"

definition IndexDataKey_user_key :: "IndexDataKey \<Rightarrow> IndexedDBKey option" where
  "IndexDataKey_user_key k = decoded_key (id_encoded_user_key k)"

definition IndexDataKey_primary_key :: "IndexDataKey \<Rightarrow> IndexedDBKey option" where
  "IndexDataKey_primary_key k = decoded_key (id_encoded_primary_key k)"

subsection \<open>Comparing database keys\<close>

definition compare_as ::
  "(bytes \<Rightarrow> 'k decoded) \<Rightarrow> ('k \<Rightarrow> 'k \<Rightarrow> int) \<Rightarrow> bytes \<Rightarrow> bytes \<Rightarrow> failure + int" where
  "compare_as decode compare a b =
     bindE (decode a) (\<lambda>(key_a, _). bindE (decode b) (\<lambda>(key_b, _). Inr (compare key_a key_b)))"

definition CompareSuffix :: "(WebIDBKeyType \<Rightarrow> int) \<Rightarrow> bytes \<Rightarrow> bytes \<Rightarrow> failure + int" where
  "CompareSuffix kt a b = bindE (CompareEncodedIDBKeys kt a b) (\<lambda>(result, _). Inr result)"

text \<open>
  \<open>CompareSuffix\<close> of an index entry. A sequence number that does not decode makes the two
  entries equal, with \<open>*ok\<close> still true.
\<close>

definition sequence_number :: "bytes \<Rightarrow> int64 decoded" where
  "sequence_number s = (if s = [] then Inr (-1, s) else DecodeVarInt s)"

definition CompareSuffix_IndexData ::
  "(WebIDBKeyType \<Rightarrow> int) \<Rightarrow> bool \<Rightarrow> bytes \<Rightarrow> bytes \<Rightarrow> failure + int" where
  "CompareSuffix_IndexData kt only_compare_index_keys a b =
     bindE (CompareEncodedIDBKeys kt a b) (\<lambda>(result, a, b).
       if result \<noteq> 0 then Inr result
       else if only_compare_index_keys then Inr 0
       else case sequence_number a of
           Inl Refused \<Rightarrow> Inr 0
         | Inl e \<Rightarrow> Inl e
         | Inr (seq_a, a) \<Rightarrow>
             (case sequence_number b of
                Inl Refused \<Rightarrow> Inr 0
              | Inl e \<Rightarrow> Inl e
              | Inr (seq_b, b) \<Rightarrow>
                  if a = [] \<or> b = [] then Inr (CompareSizes (length a) (length b))
                  else bindE (CompareEncodedIDBKeys kt a b) (\<lambda>(result, _).
                    if result \<noteq> 0 then Inr result else Inr (CompareInts seq_a seq_b))))"

definition compare_global_metadata :: "bytes \<Rightarrow> bytes \<Rightarrow> bytes \<Rightarrow> bytes \<Rightarrow> failure + int" where
  "compare_global_metadata a b rest_a rest_b =
     bindE (DecodeByte rest_a) (\<lambda>(type_byte_a, _).
     bindE (DecodeByte rest_b) (\<lambda>(type_byte_b, _).
       let x = uint type_byte_a - uint type_byte_b in
       if x \<noteq> 0 then Inr x
       else if type_byte_a < kMaxSimpleGlobalMetaDataTypeByte then Inr 0
       else if type_byte_a = kDatabaseFreeListTypeByte then
         compare_as DatabaseFreeListKey_Decode DatabaseFreeListKey_Compare a b
       else if type_byte_a = kDatabaseNameTypeByte then
         compare_as DatabaseNameKey_Decode DatabaseNameKey_Compare a b
       else Inl Refused))"

definition compare_database_metadata :: "bytes \<Rightarrow> bytes \<Rightarrow> bytes \<Rightarrow> bytes \<Rightarrow> failure + int" where
  "compare_database_metadata a b rest_a rest_b =
     bindE (DecodeByte rest_a) (\<lambda>(type_byte_a, _).
     bindE (DecodeByte rest_b) (\<lambda>(type_byte_b, _).
       let x = uint type_byte_a - uint type_byte_b in
       if x \<noteq> 0 then Inr x
       else if type_byte_a < meta_data_byte MAX_SIMPLE_METADATA_TYPE then Inr 0
       else if type_byte_a = kObjectStoreMetaDataTypeByte then
         compare_as ObjectStoreMetaDataKey_Decode ObjectStoreMetaDataKey_Compare a b
       else if type_byte_a = kIndexMetaDataTypeByte then
         compare_as IndexMetaDataKey_Decode IndexMetaDataKey_Compare a b
       else if type_byte_a = kObjectStoreFreeListTypeByte then
         compare_as ObjectStoreFreeListKey_Decode ObjectStoreFreeListKey_Compare a b
       else if type_byte_a = kIndexFreeListTypeByte then
         compare_as IndexFreeListKey_Decode IndexFreeListKey_Compare a b
       else if type_byte_a = kObjectStoreNamesTypeByte then
         compare_as ObjectStoreNamesKey_Decode ObjectStoreNamesKey_Compare a b
       else if type_byte_a = kIndexNamesKeyTypeByte then
         compare_as IndexNamesKey_Decode IndexNamesKey_Compare a b
       else Inl Refused))"

definition Compare_ok ::
  "(WebIDBKeyType \<Rightarrow> int) \<Rightarrow> bytes \<Rightarrow> bytes \<Rightarrow> bool \<Rightarrow> failure + int" where
  "Compare_ok kt a b only_compare_index_keys =
     bindE (KeyPrefix_Decode a) (\<lambda>(prefix_a, rest_a).
     bindE (KeyPrefix_Decode b) (\<lambda>(prefix_b, rest_b).
       let x = KeyPrefix_Compare prefix_a prefix_b in
       if x \<noteq> 0 then Inr x
       else let suffix = (\<lambda>f.
           if rest_a = [] \<or> rest_b = [] then Inr (CompareSizes (length rest_a) (length rest_b))
           else f rest_a rest_b) in
         case KeyPrefix_type prefix_a of
           GLOBAL_METADATA \<Rightarrow> compare_global_metadata a b rest_a rest_b
         | DATABASE_METADATA \<Rightarrow> compare_database_metadata a b rest_a rest_b
         | OBJECT_STORE_DATA \<Rightarrow> suffix (CompareSuffix kt)
         | EXISTS_ENTRY \<Rightarrow> suffix (CompareSuffix kt)
         | BLOB_ENTRY \<Rightarrow> suffix (CompareSuffix kt)
         | INDEX_DATA \<Rightarrow> suffix (CompareSuffix_IndexData kt only_compare_index_keys)
         | INVALID_TYPE \<Rightarrow> Inl Refused))"

definition Compare :: "(WebIDBKeyType \<Rightarrow> int) \<Rightarrow> bytes \<Rightarrow> bytes \<Rightarrow> bool \<Rightarrow> failure + int" where
  "Compare kt a b only_compare_index_keys =
     (case Compare_ok kt a b only_compare_index_keys of
        Inl Refused \<Rightarrow> Inr 0
      | r \<Rightarrow> r)"

end
