(* ===== verification/Idb_Entries_Lemmas.thy ===== *)
theory Idb_Entries_Lemmas
  imports Idb_Entries
begin

text \<open>
  Round trips of the key classes and the order that \<open>Compare\<close> puts on encoded keys.
\<close>

lemmas prefix_constructors =
  KeyPrefix_database_def KeyPrefix_store_def KeyPrefix_index_def CreateWithSpecialIndex_def

lemma prefix_fits_simps [simp]:
  "prefix_fits (KeyPrefix_database db)"
  "prefix_fits (KeyPrefix_store db store)"
  "prefix_fits (CreateWithSpecialIndex db store index) \<longleftrightarrow> unat index < 2 ^ 32"
  "prefix_fits (KeyPrefix_index db store index) \<longleftrightarrow> unat index < 2 ^ 32"
  by (simp_all add: prefix_fits_def prefix_constructors)

lemma EncodeEmpty_Decode [simp]:
  "KeyPrefix_Decode (EncodeEmpty @ rest) = Inr (KeyPrefix_database 0, rest)"
  by (simp add: EncodeEmpty_eq key_prefix.dec_enc prefix_fits_def KeyPrefix_database_def)

lemmas decode_rules = key_prefix.dec_enc var_int.dec_enc sized_string.dec_enc
  ExtractEncodedIDBKey_enc

text \<open>The encoders in terms of what they append.\<close>

lemma EncodeVarInt_into: "EncodeVarInt v into = into @ EncodeVarInt v []"
  by (simp add: EncodeVarInt_def)

lemma DecodeByte_Cons [simp]: "DecodeByte (b # s) = Inr (b, s)"
  by (simp add: DecodeByte_def)

lemma enc_metadata:
  "DatabaseFreeListKey_Encode i = EncodeEmpty @ kDatabaseFreeListTypeByte # EncodeVarInt i []"
  "DatabaseNameKey_Encode ascii16 org name = EncodeEmpty @ kDatabaseNameTypeByte
     # EncodeStringWithLength (ascii16 org) [] @ EncodeStringWithLength name []"
  "ObjectStoreMetaDataKey_Encode db store meta = KeyPrefix_Encode (KeyPrefix_database db)
     @ kObjectStoreMetaDataTypeByte # EncodeVarInt store [] @ [meta]"
  "IndexMetaDataKey_Encode db store index meta = KeyPrefix_Encode (KeyPrefix_database db)
     @ kIndexMetaDataTypeByte # EncodeVarInt store [] @ EncodeVarInt index [] @ [meta]"
  "ObjectStoreFreeListKey_Encode db store = KeyPrefix_Encode (KeyPrefix_database db)
     @ kObjectStoreFreeListTypeByte # EncodeVarInt store []"
  "IndexFreeListKey_Encode db store index = KeyPrefix_Encode (KeyPrefix_database db)
     @ kIndexFreeListTypeByte # EncodeVarInt store [] @ EncodeVarInt index []"
  "ObjectStoreNamesKey_Encode db name = KeyPrefix_Encode (KeyPrefix_database db)
     @ kObjectStoreNamesTypeByte # EncodeStringWithLength name []"
  "IndexNamesKey_Encode db store name = KeyPrefix_Encode (KeyPrefix_database db)
     @ kIndexNamesKeyTypeByte # EncodeVarInt store [] @ EncodeStringWithLength name []"
  by (simp_all add: DatabaseFreeListKey_Encode_def DatabaseNameKey_Encode_def
      ObjectStoreMetaDataKey_Encode_def IndexMetaDataKey_Encode_def
      ObjectStoreFreeListKey_Encode_def IndexFreeListKey_Encode_def
      ObjectStoreNamesKey_Encode_def IndexNamesKey_Encode_def
      EncodeStringWithLength_def EncodeVarInt_def EncodeByte_def)

lemma DatabaseFreeListKey_roundtrip:
  "DatabaseFreeListKey_Decode (DatabaseFreeListKey_Encode i @ rest) = Inr (\<lparr>dfl_database_id = i\<rparr>, rest)"
  by (simp add: DatabaseFreeListKey_Decode_def enc_metadata var_int.dec_enc)

lemma DatabaseNameKey_roundtrip:
  assumes "fits_int64 (length (ascii16 org))" "fits_int64 (length name)"
  shows "DatabaseNameKey_Decode (DatabaseNameKey_Encode ascii16 org name @ rest)
    = Inr (\<lparr>dn_origin = ascii16 org, dn_database_name = name\<rparr>, rest)"
  using assms by (simp add: DatabaseNameKey_Decode_def enc_metadata sized_string.dec_enc)

lemma ObjectStoreMetaDataKey_roundtrip:
  "ObjectStoreMetaDataKey_Decode (ObjectStoreMetaDataKey_Encode db store meta @ rest)
    = Inr (\<lparr>osm_object_store_id = store, osm_meta_data_type = meta\<rparr>, rest)"
  by (simp add: ObjectStoreMetaDataKey_Decode_def enc_metadata decode_rules)

lemma IndexMetaDataKey_roundtrip:
  "IndexMetaDataKey_Decode (IndexMetaDataKey_Encode db store index meta @ rest)
    = Inr (\<lparr>im_object_store_id = store, im_index_id = index, im_meta_data_type = meta\<rparr>, rest)"
  by (simp add: IndexMetaDataKey_Decode_def enc_metadata decode_rules)

lemma ObjectStoreFreeListKey_roundtrip:
  "ObjectStoreFreeListKey_Decode (ObjectStoreFreeListKey_Encode db store @ rest)
    = Inr (\<lparr>osf_object_store_id = store\<rparr>, rest)"
  by (simp add: ObjectStoreFreeListKey_Decode_def enc_metadata decode_rules)

lemma IndexFreeListKey_roundtrip:
  "IndexFreeListKey_Decode (IndexFreeListKey_Encode db store index @ rest)
    = Inr (\<lparr>ifl_object_store_id = store, ifl_index_id = index\<rparr>, rest)"
  by (simp add: IndexFreeListKey_Decode_def enc_metadata decode_rules)

lemma ObjectStoreNamesKey_roundtrip:
  "fits_int64 (length name) \<Longrightarrow>
   ObjectStoreNamesKey_Decode (ObjectStoreNamesKey_Encode db name @ rest)
    = Inr (\<lparr>osn_object_store_name = name\<rparr>, rest)"
  by (simp add: ObjectStoreNamesKey_Decode_def enc_metadata decode_rules)

lemma IndexNamesKey_roundtrip:
  "fits_int64 (length name) \<Longrightarrow>
   IndexNamesKey_Decode (IndexNamesKey_Encode db store name @ rest)
    = Inr (\<lparr>in_object_store_id = store, in_index_name = name\<rparr>, rest)"
  by (simp add: IndexNamesKey_Decode_def enc_metadata decode_rules)

lemma encodable_not_Nil: "encodable k \<Longrightarrow> EncodeIDBKey k [] \<noteq> []"
  using KeyTypeByteToKeyType_enc by fastforce

lemma decoded_key_enc: "encodable k \<Longrightarrow> decoded_key (EncodeIDBKey k []) = Some k"
  using DecodeIDBKey_enc [of k "[]"] by (simp add: decoded_key_def)

lemma ObjectStoreDataKey_roundtrip:
  "encodable k \<Longrightarrow> ObjectStoreDataKey_Decode (ObjectStoreDataKey_Encode_key db store k @ rest)
    = Inr (\<lparr>osd_encoded_user_key = EncodeIDBKey k []\<rparr>, rest)"
  by (simp add: ObjectStoreDataKey_Decode_def ObjectStoreDataKey_Encode_key_def
      ObjectStoreDataKey_Encode_def decode_rules)

lemma BlobEntryKey_roundtrip:
  "encodable k \<Longrightarrow> BlobEntryKey_Decode (BlobEntryKey_Encode_key db store k @ rest)
    = Inr (\<lparr>be_database_id = db, be_object_store_id = store, be_encoded_user_key = EncodeIDBKey k []\<rparr>, rest)"
  by (simp add: BlobEntryKey_Decode_def BlobEntryKey_Encode_key_def
      BlobEntryKey_Encode_bytes_def decode_rules) (simp add: CreateWithSpecialIndex_def)

lemma ReencodeToObjectStoreDataKey_enc:
  "encodable k \<Longrightarrow> ReencodeToObjectStoreDataKey (BlobEntryKey_Encode_key db store k)
    = Inr (ObjectStoreDataKey_Encode_key db store k)"
  using BlobEntryKey_roundtrip [of k db store "[]"]
  by (simp add: ReencodeToObjectStoreDataKey_def ObjectStoreDataKey_Encode_key_def)

lemma IndexDataKey_Encode_eq:
  "IndexDataKey_Encode db store index u p seq =
     KeyPrefix_Encode (KeyPrefix_index db store index) @ u @ EncodeVarInt seq [] @ p"
  by (simp add: IndexDataKey_Encode_def EncodeVarInt_def)

lemma EncodeVarInt_not_Nil [simp]: "EncodeVarInt v [] \<noteq> []"
  by (simp add: EncodeVarInt_def)

lemma IndexDataKey_roundtrip:
  assumes "unat index < 2 ^ 32" "encodable u" "encodable p"
  shows "IndexDataKey_Decode
      (IndexDataKey_Encode db store index (EncodeIDBKey u []) (EncodeIDBKey p []) seq)
    = Inr (\<lparr>id_database_id = db, id_object_store_id = store, id_index_id = index,
            id_encoded_user_key = EncodeIDBKey u [], id_encoded_primary_key = EncodeIDBKey p [],
            id_sequence_number = seq\<rparr>, [])"
  using assms ExtractEncodedIDBKey_enc [of p "[]"] encodable_not_Nil [of p]
  by (simp add: IndexDataKey_Decode_def IndexDataKey_Encode_eq decode_rules)
    (simp add: KeyPrefix_index_def)

subsection \<open>Comparing ids\<close>

lemma CompareInts_sign:
  assumes "0 \<le> sint a" "0 \<le> sint b"
  shows "CompareInts a b = sgn (sint a - sint b)"
proof -
  have "sint a < 2 ^ 63" "sint b < 2 ^ 63"
    using sint_less [of a] sint_less [of b] by simp_all
  then have "sint (a - b) = sint a - sint b"
    using assms by (simp add: sint_word_ariths signed_take_bit_int_eq_self)
  then show ?thesis by (simp add: CompareInts_def sgn_if)
qed

lemma sint_eq_iff: "sint (a :: int64) = sint b \<longleftrightarrow> a = b"
  by (auto intro: signed_word_eqI)

text \<open>The order of the ids, as numbers.\<close>

definition ids_order :: "KeyPrefix \<Rightarrow> KeyPrefix \<Rightarrow> int" where
  "ids_order p q =
     then_compare (sint (database_id p) - sint (database_id q))
       (then_compare (sint (object_store_id p) - sint (object_store_id q))
         (sint (index_id p) - sint (index_id q)))"

definition nonneg_ids :: "KeyPrefix \<Rightarrow> bool" where
  "nonneg_ids p \<longleftrightarrow>
     0 \<le> sint (database_id p) \<and> 0 \<le> sint (object_store_id p) \<and> 0 \<le> sint (index_id p)"

lemma KeyPrefix_Compare_sign:
  "nonneg_ids p \<Longrightarrow> nonneg_ids q \<Longrightarrow> KeyPrefix_Compare p q = sgn (ids_order p q)"
  by (auto simp: KeyPrefix_Compare_def ids_order_def nonneg_ids_def CompareInts_sign
      then_compare_def sint_eq_iff)

lemma ids_order_zero: "ids_order p q = 0 \<longleftrightarrow> p = q"
  by (auto simp: ids_order_def then_compare_def sint_eq_iff)

subsection \<open>Comparing stored keys\<close>

text \<open>\<open>Compare\<close> returned, with a result of the sign of \<open>r\<close>.\<close>

definition compares_as :: "failure + int \<Rightarrow> int \<Rightarrow> bool" where
  "compares_as c r \<longleftrightarrow> (\<exists>x. c = Inr x \<and> sgn x = sgn r)"

lemma compares_as_Compare: "compares_as (Compare_ok kt a b oi) r \<Longrightarrow> compares_as (Compare kt a b oi) r"
  by (auto simp: compares_as_def Compare_def)

lemma CompareSuffix_enc:
  assumes "inj kt" "comparable a" "comparable b"
  shows "compares_as (CompareSuffix kt (EncodeIDBKey a [] @ s) (EncodeIDBKey b [] @ t)) (CompareTo kt a b)"
  using CompareEncodedIDBKeys_enc [OF assms, of s t]
  by (auto simp: agrees_def CompareSuffix_def compares_as_def)

text \<open>Keys with different prefixes are ordered by their ids, whatever follows.\<close>

lemma Compare_prefix:
  assumes "prefix_fits p" "prefix_fits q" "nonneg_ids p" "nonneg_ids q" "p \<noteq> q"
  shows "compares_as (Compare kt (KeyPrefix_Encode p @ s) (KeyPrefix_Encode q @ t) oi) (ids_order p q)"
  using assms ids_order_zero [of p q]
  by (intro compares_as_Compare)
    (simp add: Compare_ok_def key_prefix.dec_enc KeyPrefix_Compare_sign compares_as_def sgn_if)

lemma Compare_same_prefix:
  assumes "prefix_fits p" "s \<noteq> []" "t \<noteq> []"
    and "KeyPrefix_type p \<in> {OBJECT_STORE_DATA, EXISTS_ENTRY, BLOB_ENTRY}"
  shows "Compare_ok kt (KeyPrefix_Encode p @ s) (KeyPrefix_Encode p @ t) oi = CompareSuffix kt s t"
  using assms by (auto simp: Compare_ok_def key_prefix.dec_enc KeyPrefix_Compare_def)

lemma Compare_same_index:
  assumes "prefix_fits p" "s \<noteq> []" "t \<noteq> []" "KeyPrefix_type p = INDEX_DATA"
  shows "Compare_ok kt (KeyPrefix_Encode p @ s) (KeyPrefix_Encode p @ t) oi
    = CompareSuffix_IndexData kt oi s t"
  using assms by (simp add: Compare_ok_def key_prefix.dec_enc KeyPrefix_Compare_def)

lemma then_compare_sgn: "sgn r = sgn r' \<Longrightarrow> sgn s = sgn s' \<Longrightarrow>
   sgn (then_compare r s) = sgn (then_compare r' s')"
  by (auto simp: then_compare_def sgn_if split: if_splits)

lemma CompareSuffix_IndexData_enc:
  assumes "inj kt" "comparable u" "comparable v" "comparable p" "comparable q"
    and "0 \<le> sint m" "0 \<le> sint n"
  shows "compares_as
      (CompareSuffix_IndexData kt oi (EncodeIDBKey u [] @ EncodeVarInt m [] @ EncodeIDBKey p [])
         (EncodeIDBKey v [] @ EncodeVarInt n [] @ EncodeIDBKey q []))
      (then_compare (CompareTo kt u v)
        (if oi then 0 else then_compare (CompareTo kt p q) (sint m - sint n)))"
proof -
  obtain x a b where user: "CompareEncodedIDBKeys kt
        (EncodeIDBKey u [] @ EncodeVarInt m [] @ EncodeIDBKey p [])
        (EncodeIDBKey v [] @ EncodeVarInt n [] @ EncodeIDBKey q []) = Inr (x, a, b)"
    and x: "sgn x = sgn (CompareTo kt u v)"
      "x = 0 \<longrightarrow> a = EncodeVarInt m [] @ EncodeIDBKey p [] \<and> b = EncodeVarInt n [] @ EncodeIDBKey q []"
    using CompareEncodedIDBKeys_enc [OF assms(1,2,3)] unfolding agrees_def by blast
  obtain y a' b' where primary: "CompareEncodedIDBKeys kt (EncodeIDBKey p []) (EncodeIDBKey q [])
      = Inr (y, a', b')" and y: "sgn y = sgn (CompareTo kt p q)"
    using CompareEncodedIDBKeys_enc [OF assms(1,4,5), of "[]" "[]"] by (auto simp: agrees_def)
  have ne: "EncodeIDBKey p [] \<noteq> []" "EncodeIDBKey q [] \<noteq> []"
    using assms comparable_encodable encodable_not_Nil by blast+
  show ?thesis
  proof (cases "x = 0 \<and> \<not> oi")
    case True
    then have "CompareTo kt u v = 0" using x(1) by (metis sgn_0_0)
    with True show ?thesis
      using user primary x(2) y ne assms(6,7)
      by (auto simp: CompareSuffix_IndexData_def sequence_number_def var_int.dec_enc
          compares_as_def then_compare_def CompareInts_sign sgn_0_0 sgn_if split: if_splits)
  next
    case False
    then show ?thesis
      using user x(1) by (auto simp: CompareSuffix_IndexData_def compares_as_def then_compare_def
          sgn_if split: if_splits)
  qed
qed

subsection \<open>The bounds of an index\<close>

text \<open>
  What the key range scans rely on in Blink's numbering: the invalid type comes before all
  others and the minimum type after all others.
\<close>

definition type_bounds :: "(WebIDBKeyType \<Rightarrow> int) \<Rightarrow> bool" where
  "type_bounds kt \<longleftrightarrow> (\<forall>t. (t \<noteq> kWebIDBKeyTypeInvalid \<longrightarrow> kt kWebIDBKeyTypeInvalid < kt t)
     \<and> (t \<noteq> kWebIDBKeyTypeMin \<longrightarrow> kt t < kt kWebIDBKeyTypeMin))"

lemma encodable_key_type:
  "encodable k \<Longrightarrow> key_type k \<noteq> kWebIDBKeyTypeInvalid \<and> key_type k \<noteq> kWebIDBKeyTypeMin"
  by (cases k) simp_all

lemma CompareEncodedIDBKeys_Cons:
  assumes "KeyTypeByteToKeyType b \<noteq> KeyTypeByteToKeyType c" "inj kt"
  shows "CompareEncodedIDBKeys kt (b # s) (c # t) =
    Inr (kt (KeyTypeByteToKeyType c) - kt (KeyTypeByteToKeyType b), s, t)"
  using assms by (simp add: CompareEncodedIDBKeys_def CompareTypes_def Let_def inj_eq)

lemma min_key_below:
  assumes "encodable k" "inj kt" "type_bounds kt"
  shows "\<exists>x a b. CompareEncodedIDBKeys kt (MinIDBKey @ s) (EncodeIDBKey k [] @ t) = Inr (x, a, b) \<and> x < 0"
proof -
  obtain c r where k: "EncodeIDBKey k [] = c # r" "KeyTypeByteToKeyType c = key_type k"
    using KeyTypeByteToKeyType_enc [OF assms(1)] by blast
  have m: "MinIDBKey = [5]" "KeyTypeByteToKeyType 5 = kWebIDBKeyTypeMin"
    by (simp_all add: MinIDBKey_def EncodeByte_def KeyTypeByteToKeyType_def)
  have ne: "KeyTypeByteToKeyType 5 \<noteq> KeyTypeByteToKeyType c"
    using encodable_key_type [OF assms(1)] unfolding k m by metis
  have "kt (key_type k) < kt kWebIDBKeyTypeMin"
    using encodable_key_type [OF assms(1)] assms(3) by (simp add: type_bounds_def)
  then show ?thesis
    using CompareEncodedIDBKeys_Cons [OF ne assms(2), of s "r @ t"] unfolding k m by simp
qed

lemma max_key_above:
  assumes "encodable k" "inj kt" "type_bounds kt"
  shows "\<exists>x a b. CompareEncodedIDBKeys kt (EncodeIDBKey k [] @ s) (MaxIDBKey @ t) = Inr (x, a, b) \<and> x < 0"
proof -
  obtain c r where k: "EncodeIDBKey k [] = c # r" "KeyTypeByteToKeyType c = key_type k"
    using KeyTypeByteToKeyType_enc [OF assms(1)] by blast
  have m: "MaxIDBKey = [0]" "KeyTypeByteToKeyType 0 = kWebIDBKeyTypeInvalid"
    by (simp_all add: MaxIDBKey_def EncodeByte_def KeyTypeByteToKeyType_def)
  have ne: "KeyTypeByteToKeyType c \<noteq> KeyTypeByteToKeyType 0"
    using encodable_key_type [OF assms(1)] unfolding k m by metis
  have "kt kWebIDBKeyTypeInvalid < kt (key_type k)"
    using encodable_key_type [OF assms(1)] assms(3) by (simp add: type_bounds_def)
  then show ?thesis
    using CompareEncodedIDBKeys_Cons [OF ne assms(2), of "r @ s" t] unfolding k m by simp
qed

subsection \<open>The database names of an origin\<close>

lemma unit_lex: "compare_units (a @ b) (a @ c) = compare_units b c"
  by (induction a) (simp_all add: compare_units_def three_way_of_def)

lemma compare_units_Nil: "compare_units [] b \<le> 0"
  by (cases b) (simp_all add: compare_units_def)

lemma compare_units_zero: "compare_units a b = 0 \<longleftrightarrow> a = b"
proof (induction a arbitrary: b)
  case Nil
  then show ?case by (cases b) (simp_all add: compare_units_def)
next
  case (Cons x a)
  then show ?case by (cases b) (auto simp: compare_units_def three_way_of_def)
qed

text \<open>Between a string and the string followed by the unit 1 lie only extensions by a zero unit.\<close>

lemma units_between:
  "compare_units a b \<le> 0 \<Longrightarrow> compare_units b (a @ [1 :: char16]) < 0 \<Longrightarrow> 0 \<notin> set b \<Longrightarrow> b = a"
proof (induction a arbitrary: b)
  case Nil
  show ?case
  proof (cases b)
    case (Cons y b')
    then have "y \<noteq> 0" using Nil by simp
    then have "1 \<le> y" using word_gt_0 [of y] inc_le [of 0 y] by simp
    then have "y = 1 \<or> 1 < y" by auto
    then show ?thesis
      using Nil Cons by (cases b') (auto simp: compare_units_def three_way_of_def split: if_splits)
  qed simp
next
  case (Cons x a)
  obtain y b' where b: "b = y # b'"
    using Cons.prems(1) by (cases b) (auto simp: compare_units_def)
  have "x = y"
    using Cons.prems(1,2) b by (auto simp: compare_units_def three_way_of_def split: if_splits)
  then show ?case
    using Cons.IH [of b'] Cons.prems b by (simp add: compare_units_def three_way_of_def)
qed

lemma Compare_database_names:
  assumes "fits_int64 (length (ascii16 org))" "fits_int64 (length n)"
    and "fits_int64 (length (ascii16 org'))" "fits_int64 (length n')"
  shows "Compare kt (DatabaseNameKey_Encode ascii16 org n) (DatabaseNameKey_Encode ascii16 org' n') oi
    = Inr (then_compare (compare_units (ascii16 org) (ascii16 org')) (compare_units n n'))"
proof -
  let ?a = "DatabaseNameKey_Encode ascii16 org n" and ?b = "DatabaseNameKey_Encode ascii16 org' n'"
  have names: "compare_as DatabaseNameKey_Decode DatabaseNameKey_Compare ?a ?b
      = Inr (then_compare (compare_units (ascii16 org) (ascii16 org')) (compare_units n n'))"
    using DatabaseNameKey_roundtrip [of ascii16 org n, OF assms(1,2), where rest = "[]"]
      DatabaseNameKey_roundtrip [of ascii16 org' n', OF assms(3,4), where rest = "[]"]
    by (simp add: compare_as_def DatabaseNameKey_Compare_def then_compare_def Let_def)
  have "Compare_ok kt ?a ?b oi = compare_as DatabaseNameKey_Decode DatabaseNameKey_Compare ?a ?b"
    using names by (simp add: Compare_ok_def KeyPrefix_Compare_def compare_global_metadata_def
        KeyPrefix_type_def enc_metadata(2) KeyPrefix_database_def)
  then show ?thesis by (simp add: Compare_def names)
qed

subsection \<open>Valid ids\<close>

lemma nonneg_uint:
  assumes "0 \<le> sint (i :: int64)" shows "uint i = sint i"
proof -
  have "sint i < 2 ^ 63" using sint_less [of i] by simp
  then have "take_bit 64 (sint i) = sint i" using assms by (intro take_bit_int_eq_self) auto
  moreover have "uint i = take_bit LENGTH(64) (sint i)" by (rule uint_sint)
  ultimately show ?thesis by simp
qed

lemma valid_ids:
  "IsValidDatabaseId i \<Longrightarrow> 0 < sint i \<and> i \<noteq> 0"
  "IsValidObjectStoreId i \<Longrightarrow> 0 < sint i \<and> i \<noteq> 0"
  by (auto simp: IsValidDatabaseId_def IsValidObjectStoreId_def)

lemma valid_index:
  assumes "IsValidIndexId i"
  shows "30 \<le> sint i \<and> unat i < 2 ^ 32"
proof -
  have "30 \<le> sint i" "sint i < 2147483647" using assms by (simp_all add: IsValidIndexId_def kMaxIndexId_def)
  then show ?thesis using nonneg_uint [of i] by (simp add: unat_eq_nat_uint)
qed

lemma INDEX_type: "ValidIds db store index \<Longrightarrow> KeyPrefix_type (KeyPrefix_index db store index) = INDEX_DATA"
  using valid_index [of index] by (auto simp: ValidIds_def KeyPrefix_type_def KeyPrefix_index_def dest: valid_ids)

lemma nonneg_index: "ValidIds db store index \<Longrightarrow> nonneg_ids (KeyPrefix_index db store index)"
  using valid_index [of index] by (auto simp: ValidIds_def nonneg_ids_def KeyPrefix_index_def dest: valid_ids)

lemma nonneg_store: "ValidStoreIds db store \<Longrightarrow> 0 \<le> sint i \<Longrightarrow> nonneg_ids (CreateWithSpecialIndex db store i)"
  by (auto simp: ValidStoreIds_def nonneg_ids_def CreateWithSpecialIndex_def dest: valid_ids)

end
