(* ===== verification/Idb_Properties.thy ===== *)
theory Idb_Properties
  imports Idb_Entries_Lemmas
begin

text \<open>
  The properties of the IndexedDB key coding, over the lemmas of the theories it imports. The
  witnesses number Blink's key types in the order of its enumeration.
\<close>

fun example_type_order :: "WebIDBKeyType \<Rightarrow> int" where
  "example_type_order kWebIDBKeyTypeInvalid = 0"
| "example_type_order kWebIDBKeyTypeArray = 1"
| "example_type_order kWebIDBKeyTypeBinary = 2"
| "example_type_order kWebIDBKeyTypeString = 3"
| "example_type_order kWebIDBKeyTypeDate = 4"
| "example_type_order kWebIDBKeyTypeNumber = 5"
| "example_type_order kWebIDBKeyTypeNull = 6"
| "example_type_order kWebIDBKeyTypeMin = 7"

lemma example_type_order_inj: "inj example_type_order"
proof
  fix x y show "example_type_order x = example_type_order y \<Longrightarrow> x = y"
    by (cases x; cases y) simp_all
qed

lemma example_type_order_bounds: "type_bounds example_type_order"
  unfolding type_bounds_def
proof (intro allI conjI impI)
  fix t
  show "t \<noteq> kWebIDBKeyTypeInvalid \<Longrightarrow>
      example_type_order kWebIDBKeyTypeInvalid < example_type_order t" by (cases t) simp_all
  show "t \<noteq> kWebIDBKeyTypeMin \<Longrightarrow>
      example_type_order t < example_type_order kWebIDBKeyTypeMin" by (cases t) simp_all
qed

subsection \<open>Keys\<close>

text \<open>C25. Decoding an encoded key gives the key back and leaves exactly what followed it, for
  every valid key (nested arrays, binary, string, date and number) whose lengths fit the
  counts; and the encoding is appended to whatever the output string held.\<close>

theorem idb_key_roundtrip:
  assumes "encodable k"
  shows "EncodeIDBKey k into = into @ EncodeIDBKey k [] \<and>
    DecodeIDBKey (EncodeIDBKey k [] @ rest) = Inr (k, rest)"
  using EncodeIDBKey_into [of k into] idb_key.dec_enc [OF assms] by blast

theorem idb_key_roundtrip_witness:
  "DecodeIDBKey (EncodeIDBKey (ArrayKey [StringKey [97], ArrayKey [], NumberKey 0]) [] @ [9])
    = Inr (ArrayKey [StringKey [97], ArrayKey [], NumberKey 0], [9])"
  using idb_key_roundtrip [of "ArrayKey [StringKey [97], ArrayKey [], NumberKey 0]" "[]" "[9]"]
  by (simp add: fits_int64_def del: EncodeIDBKey.simps)

text \<open>C24. The comparison of two keys in encoded form refines the comparison of the keys: on the
  encodings of two keys, whatever follows them, it does not fail, its result has the sign that
  \<open>CompareTo\<close> gives, and when the keys are equal both slices are left standing just after
  them.\<close>

theorem encoded_comparison_refines:
  assumes "inj kt" "comparable a" "comparable b"
  shows "\<exists>x s' t'. CompareEncodedIDBKeys kt (EncodeIDBKey a [] @ s) (EncodeIDBKey b [] @ t)
      = Inr (x, s', t') \<and> sgn x = sgn (CompareTo kt a b) \<and> (x = 0 \<longrightarrow> s' = s \<and> t' = t)"
  using CompareEncodedIDBKeys_enc [OF assms, of s t] unfolding agrees_def by blast

theorem encoded_comparison_refines_witness:
  "\<exists>x s' t'. CompareEncodedIDBKeys example_type_order
      (EncodeIDBKey (ArrayKey [NumberKey 0, StringKey [97]]) [] @ [1])
      (EncodeIDBKey (ArrayKey [NumberKey 0, StringKey [97, 98]]) [] @ [2]) = Inr (x, s', t') \<and> sgn x = - 1"
  using encoded_comparison_refines [of example_type_order "ArrayKey [NumberKey 0, StringKey [97]]"
      "ArrayKey [NumberKey 0, StringKey [97, 98]]" "[1]" "[2]", OF example_type_order_inj]
  by (auto simp: fits_int64_def three_way_of_def double_less_def compare_units_def
      simp del: EncodeIDBKey.simps)

text \<open>On valid keys without a NaN the comparison is a total preorder: swapping the
  arguments negates it, \<open>IsLessThan\<close> is transitive, and exactly one of less, greater and
  equal holds.\<close>

lemma key_comparison_is_an_order:
  assumes "inj kt" "ordered_key a" "ordered_key b" "ordered_key c"
  shows "sgn (CompareTo kt b a) = - sgn (CompareTo kt a b)
    \<and> (IsLessThan kt a b \<and> \<not> IsLessThan kt c b \<longrightarrow> IsLessThan kt a c)
    \<and> (Equals kt a b \<and> Equals kt b c \<longrightarrow> Equals kt a c)
    \<and> (Equals kt a b \<longleftrightarrow> \<not> IsLessThan kt a b \<and> \<not> IsLessThan kt b a)"
proof -
  note order = CompareTo_three_way [OF assms(1)]
  note swap = three_way.cmp_swap [OF order] and le = three_way.cmp_le_iff [OF order]
    and trans = three_way.cmp_strict_trans [OF order] and equiv = three_way.cmp_equiv_trans [OF order]
  have "IsLessThan kt a c" if "IsLessThan kt a b" "\<not> IsLessThan kt c b"
    using trans [OF assms(2,3,4)] le [OF assms(4,3)] that by (simp add: IsLessThan_def)
  moreover have "Equals kt a c" if "Equals kt a b" "Equals kt b c"
    using equiv [OF assms(2,3,4)] that by (simp add: Equals_def)
  moreover have "Equals kt a b \<longleftrightarrow> \<not> IsLessThan kt a b \<and> \<not> IsLessThan kt b a"
    using le [OF assms(2,3)] le [OF assms(3,2)] by (auto simp: Equals_def IsLessThan_def)
  ultimately show ?thesis using swap [OF assms(2,3)] by blast
qed

text \<open>The decoder of keys never reads past the end of its input, whatever the input, and
  every key it decodes consumes at least one byte.\<close>

lemma decoder_stays_in_bounds:
  "DecodeIDBKey s \<noteq> Inl OutOfBounds \<and>
   (\<forall>k rest. DecodeIDBKey s = Inr (k, rest) \<longrightarrow> length rest < length s)"
  using DecodeIDBKey_in_bounds DecodeIDBKey_shorter by blast

text \<open>The routine that skips an encoded key has no check for an empty slice: on an array
  whose elements are missing it reads past the end, where the decoder refuses.\<close>

lemma skipping_a_truncated_array:
  assumes "0 < sint n"
  shows "ConsumeEncodedIDBKey (4 # EncodeVarInt n []) = Inl OutOfBounds \<and>
    DecodeIDBKey (4 # EncodeVarInt n []) = Inl Refused"
proof -
  have "unat n \<noteq> 0" using assms by (metis less_irrefl signed_0 unat_eq_zero)
  then obtain m where m: "unat n = Suc m" using not0_implies_Suc by blast
  have enc: "DecodeVarInt (EncodeVarInt n []) = Inr (n, [])"
    using var_int.dec_enc_exact [of n] by simp
  show ?thesis
    using assms m by (simp add: ConsumeEncodedIDBKey_unfold DecodeIDBKey_unfold enc)
qed

text \<open>On every input that decodes, skipping moves to the same place as decoding, and what is
  extracted is as many bytes from the start as were consumed.\<close>

lemma extraction_agrees_with_decoding:
  assumes "DecodeIDBKey s = Inr (k, rest)"
  shows "ConsumeEncodedIDBKey s = Inr rest \<and>
    ExtractEncodedIDBKey s = Inr (take (length s - length rest) s, rest) \<and> length rest < length s"
  using ConsumeEncodedIDBKey_of_decode [OF assms] DecodeIDBKey_shorter [OF assms]
  by (simp add: ExtractEncodedIDBKey_def)

subsection \<open>Stored entries\<close>

text \<open>The three ids of a key prefix survive encoding, for every database and object store
  id and every index id below 2^32, and nothing else of the stored key is consumed; so no
  prefix is the beginning of another one.\<close>

lemma prefix_roundtrip:
  assumes "unat (index_id p) < 2 ^ 32" "unat (index_id q) < 2 ^ 32"
  shows "KeyPrefix_Decode (KeyPrefix_Encode p @ rest) = Inr (p, rest) \<and>
    (KeyPrefix_Encode p @ rest = KeyPrefix_Encode q @ rest' \<longrightarrow> p = q \<and> rest = rest')"
proof -
  have fits: "prefix_fits p" "prefix_fits q" using assms by (simp_all add: prefix_fits_def)
  show ?thesis using key_prefix.dec_enc [OF fits(1)] key_prefix.prefix_free [OF fits] by blast
qed

text \<open>Stored keys with different prefixes are ordered by their ids as numbers (database,
  then object store, then index), whatever kind of entry follows the prefixes.\<close>

lemma entries_ordered_by_ids:
  assumes "prefix_fits p" "prefix_fits q" "nonneg_ids p" "nonneg_ids q" "p \<noteq> q"
  shows "\<exists>x. Compare kt (KeyPrefix_Encode p @ s) (KeyPrefix_Encode q @ t) only = Inr x \<and>
    sgn x = sgn (ids_order p q)"
  using Compare_prefix [OF assms, of kt s t only] by (simp add: compares_as_def)

text \<open>Two records, existence marks or blobs of one object store are ordered as their user
  keys are.\<close>

lemma records_ordered_by_user_key:
  assumes "inj kt" "comparable a" "comparable b" "ValidStoreIds db store"
  shows "\<exists>x y z.
      Compare kt (ObjectStoreDataKey_Encode_key db store a) (ObjectStoreDataKey_Encode_key db store b) only
        = Inr x \<and> sgn x = sgn (CompareTo kt a b) \<and>
      Compare kt (ExistsEntryKey_Encode_key db store a) (ExistsEntryKey_Encode_key db store b) only
        = Inr y \<and> sgn y = sgn (CompareTo kt a b) \<and>
      Compare kt (BlobEntryKey_Encode_key db store a) (BlobEntryKey_Encode_key db store b) only
        = Inr z \<and> sgn z = sgn (CompareTo kt a b)"
proof -
  have "compares_as (Compare kt (KeyPrefix_Encode (CreateWithSpecialIndex db store i) @ EncodeIDBKey a [])
          (KeyPrefix_Encode (CreateWithSpecialIndex db store i) @ EncodeIDBKey b []) only)
        (CompareTo kt a b)" if "i \<in> {1, 2, 3}" for i
  proof -
    let ?p = "CreateWithSpecialIndex db store i"
    have "prefix_fits ?p" "KeyPrefix_type ?p \<in> {OBJECT_STORE_DATA, EXISTS_ENTRY, BLOB_ENTRY}"
      using that assms(4) valid_ids
      by (auto simp: KeyPrefix_type_def CreateWithSpecialIndex_def ValidStoreIds_def prefix_fits_def)
    moreover have "EncodeIDBKey a [] \<noteq> []" "EncodeIDBKey b [] \<noteq> []"
      using assms(2,3) comparable_encodable encodable_not_Nil by blast+
    ultimately show ?thesis
      using CompareSuffix_enc [OF assms(1,2,3), of "[]" "[]"]
      by (intro compares_as_Compare) (simp add: Compare_same_prefix)
  qed
  from this [of 1] this [of 2] this [of 3] show ?thesis
    by (simp add: compares_as_def ObjectStoreDataKey_Encode_key_def ObjectStoreDataKey_Encode_def
        ExistsEntryKey_Encode_key_def ExistsEntryKey_Encode_def BlobEntryKey_Encode_key_def
        BlobEntryKey_Encode_bytes_def del: EncodeIDBKey.simps)
qed

text \<open>C26. Two entries of one index are ordered by user key, then by primary key, then by
  sequence number; when only the index keys are to be compared, by the user key alone.\<close>

theorem index_entry_order:
  assumes "inj kt" "ValidIds db store index" "comparable u" "comparable v" "comparable p"
    and "comparable q" "0 \<le> sint m" "0 \<le> sint n"
  shows "\<exists>x. Compare kt
        (IndexDataKey_Encode db store index (EncodeIDBKey u []) (EncodeIDBKey p []) m)
        (IndexDataKey_Encode db store index (EncodeIDBKey v []) (EncodeIDBKey q []) n) only = Inr x \<and>
      sgn x = sgn (then_compare (CompareTo kt u v)
        (if only then 0 else then_compare (CompareTo kt p q) (sint m - sint n)))"
proof -
  let ?p = "KeyPrefix_index db store index"
  have p: "prefix_fits ?p" "KeyPrefix_type ?p = INDEX_DATA"
    using assms(2) valid_index INDEX_type by (auto simp: ValidIds_def)
  have ne: "EncodeIDBKey u [] \<noteq> []" "EncodeIDBKey v [] \<noteq> []"
    using assms(3,4) comparable_encodable encodable_not_Nil by blast+
  have "compares_as (Compare kt
        (IndexDataKey_Encode db store index (EncodeIDBKey u []) (EncodeIDBKey p []) m)
        (IndexDataKey_Encode db store index (EncodeIDBKey v []) (EncodeIDBKey q []) n) only)
      (then_compare (CompareTo kt u v)
        (if only then 0 else then_compare (CompareTo kt p q) (sint m - sint n)))"
    unfolding IndexDataKey_Encode_eq
    using CompareSuffix_IndexData_enc [OF assms(1,3-8)] ne
    by (intro compares_as_Compare) (simp add: Compare_same_index [OF p(1) _ _ p(2)])
  then show ?thesis by (simp add: compares_as_def)
qed

lemmas example_ids = ValidIds_def IsValidDatabaseId_def IsValidObjectStoreId_def IsValidIndexId_def
  kMaxDatabaseId_def kMaxObjectStoreId_def kMaxIndexId_def

theorem index_entry_order_witness:
  "\<exists>x. Compare example_type_order
      (IndexDataKey_Encode 1 1 30 (EncodeIDBKey (StringKey [97]) []) (EncodeIDBKey (NumberKey 0) []) 5)
      (IndexDataKey_Encode 1 1 30 (EncodeIDBKey (StringKey [97]) []) (EncodeIDBKey (NumberKey 0) []) 7)
      False = Inr x \<and> sgn x = - 1"
  using index_entry_order [of example_type_order 1 1 30 "StringKey [97]" "StringKey [97]" "NumberKey 0"
      "NumberKey 0" 5 7 False, OF example_type_order_inj]
  by (auto simp: fits_int64_def example_ids compare_units_def three_way_of_def then_compare_def
      simp del: EncodeIDBKey.simps)

text \<open>Every entry of an index lies strictly between the index's minimum and maximum key,
  whatever its user key, primary key and sequence number.\<close>

lemma index_range_bounds:
  assumes "inj kt" "type_bounds kt" "ValidIds db store index" "encodable u"
  shows "\<exists>lo hi.
      Compare kt (IndexDataKey_EncodeMinKey db store index)
        (IndexDataKey_Encode db store index (EncodeIDBKey u []) p m) only = Inr lo \<and> lo < 0 \<and>
      Compare kt (IndexDataKey_Encode db store index (EncodeIDBKey u []) p m)
        (IndexDataKey_EncodeMaxKey db store index) only = Inr hi \<and> hi < 0"
proof -
  let ?p = "KeyPrefix_index db store index"
  have p: "prefix_fits ?p" "KeyPrefix_type ?p = INDEX_DATA"
    using assms(3) valid_index INDEX_type by (auto simp: ValidIds_def)
  have ne: "EncodeIDBKey u [] \<noteq> []" "MinIDBKey \<noteq> []" "MaxIDBKey \<noteq> []"
    using assms(4) encodable_not_Nil by (simp_all add: MinIDBKey_def MaxIDBKey_def EncodeByte_def)
  note entry = IndexDataKey_EncodeMinKey_def IndexDataKey_EncodeMaxKey_def IndexDataKey_Encode_eq
    Compare_def Compare_same_index [OF p(1) _ _ p(2)] CompareSuffix_IndexData_def
  obtain x a b where lo: "CompareEncodedIDBKeys kt (MinIDBKey @ EncodeVarInt 0 [] @ MinIDBKey)
      (EncodeIDBKey u [] @ EncodeVarInt m [] @ p) = Inr (x, a, b)" "x < 0"
    using min_key_below [OF assms(4,1,2)] by blast
  obtain y a' b' where hi: "CompareEncodedIDBKeys kt (EncodeIDBKey u [] @ EncodeVarInt m [] @ p)
      (MaxIDBKey @ EncodeVarInt int64_max [] @ MaxIDBKey) = Inr (y, a', b')" "y < 0"
    using max_key_above [OF assms(4,1,2)] by blast
  have "Compare kt (IndexDataKey_EncodeMinKey db store index)
      (IndexDataKey_Encode db store index (EncodeIDBKey u []) p m) only = Inr x"
    using lo ne by (simp add: entry)
  moreover have "Compare kt (IndexDataKey_Encode db store index (EncodeIDBKey u []) p m)
      (IndexDataKey_EncodeMaxKey db store index) only = Inr y"
    using hi ne by (simp add: entry)
  ultimately show ?thesis using lo(2) hi(2) by blast
qed

text \<open>The scan from an origin's minimum key up to, not including, its stop key meets
  exactly the database names of that origin, provided the other origins contain no zero code
  unit (which origin identifiers never do).\<close>

lemma origin_range_is_exact:
  assumes "ascii16 (org @ [1]) = ascii16 org @ [1]" "0 \<notin> set (ascii16 org')"
    and "fits_int64 (Suc (length (ascii16 org)))" "fits_int64 (length (ascii16 org'))"
    and "fits_int64 (length name)"
  shows "\<exists>lo hi.
      Compare kt (EncodeMinKeyForOrigin ascii16 org) (DatabaseNameKey_Encode ascii16 org' name) only
        = Inr lo \<and>
      Compare kt (DatabaseNameKey_Encode ascii16 org' name) (EncodeStopKeyForOrigin ascii16 org) only
        = Inr hi \<and>
      (lo \<le> 0 \<and> hi < 0 \<longleftrightarrow> ascii16 org' = ascii16 org)"
proof -
  let ?o = "ascii16 org" and ?q = "ascii16 org'"
  have fits: "fits_int64 (length ?o)" "fits_int64 (length (ascii16 (org @ [1])))" "fits_int64 0"
    using assms(1,3) by (simp_all add: fits_int64_def)
  let ?lo = "then_compare (compare_units ?o ?q) (compare_units [] name)"
  let ?hi = "then_compare (compare_units ?q (?o @ [1])) (compare_units name [])"
  have lo: "Compare kt (EncodeMinKeyForOrigin ascii16 org) (DatabaseNameKey_Encode ascii16 org' name) only
      = Inr ?lo"
    using Compare_database_names [of ascii16 org "[]" org' name, OF fits(1) _ assms(4,5)] fits(3)
    by (simp add: EncodeMinKeyForOrigin_def)
  have hi: "Compare kt (DatabaseNameKey_Encode ascii16 org' name) (EncodeStopKeyForOrigin ascii16 org) only
      = Inr ?hi"
    using Compare_database_names [of ascii16 org' name "org @ [1]" "[]", OF assms(4,5) fits(2)] fits(3)
    by (simp add: EncodeStopKeyForOrigin_def EncodeMinKeyForOrigin_def assms(1))
  have "?q = ?o" if "?lo \<le> 0" "?hi < 0"
  proof -
    have "compare_units ?o ?q \<le> 0" using that(1) by (auto simp: then_compare_def split: if_splits)
    moreover have "compare_units ?q (?o @ [1]) < 0"
    proof (rule ccontr)
      assume *: "\<not> compare_units ?q (?o @ [1]) < 0"
      have "0 \<le> compare_units name []" by (cases name) (simp_all add: compare_units_def)
      with that(2) * show False by (auto simp: then_compare_def split: if_splits)
    qed
    ultimately show ?thesis using units_between assms(2) by blast
  qed
  moreover have "?lo \<le> 0 \<and> ?hi < 0" if "?q = ?o"
  proof -
    have "compare_units ?o ?o = 0" by (simp add: compare_units_zero)
    moreover have "compare_units ?o (?o @ [1]) = -1"
      using unit_lex [of ?o "[]" "[1]"] by (simp add: compare_units_def)
    ultimately show ?thesis using that by (simp add: then_compare_def compare_units_Nil)
  qed
  ultimately have iff: "(?lo \<le> 0 \<and> ?hi < 0) = (?q = ?o)" by blast
  show ?thesis using lo hi iff by blast
qed

subsection \<open>Round trips\<close>

text \<open>The keys of the metadata decode to the ids, names and type bytes they were encoded
  from, whatever follows them.\<close>

lemma metadata_keys_roundtrip:
  assumes "fits_int64 (length (ascii16 org))" "fits_int64 (length name)"
  shows "DatabaseFreeListKey_Decode (DatabaseFreeListKey_Encode i @ rest)
        = Inr (\<lparr>dfl_database_id = i\<rparr>, rest) \<and>
    DatabaseNameKey_Decode (DatabaseNameKey_Encode ascii16 org name @ rest)
        = Inr (\<lparr>dn_origin = ascii16 org, dn_database_name = name\<rparr>, rest) \<and>
    ObjectStoreMetaDataKey_Decode (ObjectStoreMetaDataKey_Encode db store meta @ rest)
        = Inr (\<lparr>osm_object_store_id = store, osm_meta_data_type = meta\<rparr>, rest) \<and>
    IndexMetaDataKey_Decode (IndexMetaDataKey_Encode db store index meta @ rest)
        = Inr (\<lparr>im_object_store_id = store, im_index_id = index, im_meta_data_type = meta\<rparr>, rest) \<and>
    ObjectStoreFreeListKey_Decode (ObjectStoreFreeListKey_Encode db store @ rest)
        = Inr (\<lparr>osf_object_store_id = store\<rparr>, rest) \<and>
    IndexFreeListKey_Decode (IndexFreeListKey_Encode db store index @ rest)
        = Inr (\<lparr>ifl_object_store_id = store, ifl_index_id = index\<rparr>, rest) \<and>
    ObjectStoreNamesKey_Decode (ObjectStoreNamesKey_Encode db name @ rest)
        = Inr (\<lparr>osn_object_store_name = name\<rparr>, rest) \<and>
    IndexNamesKey_Decode (IndexNamesKey_Encode db store name @ rest)
        = Inr (\<lparr>in_object_store_id = store, in_index_name = name\<rparr>, rest)"
  using assms
  by (simp add: DatabaseFreeListKey_roundtrip DatabaseNameKey_roundtrip
      ObjectStoreMetaDataKey_roundtrip IndexMetaDataKey_roundtrip ObjectStoreFreeListKey_roundtrip
      IndexFreeListKey_roundtrip ObjectStoreNamesKey_roundtrip IndexNamesKey_roundtrip)

text \<open>An index entry decodes to the ids, the sequence number and the two encoded keys it was
  built from, and the keys decode to the user key and the primary key.\<close>

lemma index_entry_roundtrip:
  assumes "ValidIds db store index" "encodable u" "encodable p"
  shows "\<exists>k. IndexDataKey_Decode
        (IndexDataKey_Encode db store index (EncodeIDBKey u []) (EncodeIDBKey p []) seq) = Inr (k, []) \<and>
      id_database_id k = db \<and> id_object_store_id k = store \<and> id_index_id k = index \<and>
      id_sequence_number k = seq \<and> IndexDataKey_user_key k = Some u \<and>
      IndexDataKey_primary_key k = Some p"
  using IndexDataKey_roundtrip [of index u p db store seq] assms valid_index [of index]
  by (simp add: ValidIds_def IndexDataKey_user_key_def IndexDataKey_primary_key_def decoded_key_enc
      del: EncodeIDBKey.simps)

text \<open>A blob entry key is rewritten to the key of the record it belongs to, and to the empty
  string only where it does not decode.\<close>

lemma blob_entry_reencodes:
  assumes "encodable k"
  shows "ReencodeToObjectStoreDataKey (BlobEntryKey_Encode_key db store k)
      = Inr (ObjectStoreDataKey_Encode_key db store k) \<and>
    (ReencodeToObjectStoreDataKey s = Inr [] \<longrightarrow> BlobEntryKey_Decode s = Inl Refused)"
proof -
  have "ObjectStoreDataKey_Encode d o' r \<noteq> []" for d o' r
    by (simp add: ObjectStoreDataKey_Encode_def KeyPrefix_Encode_def EncodeInternal_def Let_def)
  then have "ReencodeToObjectStoreDataKey s = Inr [] \<longrightarrow> BlobEntryKey_Decode s = Inl Refused"
    by (auto simp: ReencodeToObjectStoreDataKey_def split: sum.splits failure.splits)
  then show ?thesis using ReencodeToObjectStoreDataKey_enc [OF assms] by blast
qed

text \<open>A blob journal whose entries are valid decodes to itself; and whatever bytes are
  decoded, every entry of the journal has a valid database id and names a blob or all blobs.\<close>

lemma blob_journal_roundtrip:
  assumes "\<forall>(db, blob) \<in> set j. IsValidDatabaseId db \<and> (IsValidBlobKey blob \<or> blob = kAllBlobsKey)"
  shows "DecodeBlobJournal (EncodeBlobJournal j []) = Inr j \<and>
    (\<forall>s j'. DecodeBlobJournal s = Inr j' \<longrightarrow>
      (\<forall>(db, blob) \<in> set j'. IsValidDatabaseId db \<and> (IsValidBlobKey blob \<or> blob = kAllBlobsKey)))"
  using DecodeBlobJournal_enc [OF assms] DecodeBlobJournal_valid by blast

text \<open>A key path decodes to itself; and a value written before key paths had a type, the bare
  UTF-16 text, decodes to the path of that text unless the text starts with a zero unit.\<close>

lemma key_path_roundtrip:
  assumes "case path of NullPath \<Rightarrow> True | StringPath s \<Rightarrow> fits_int64 (length s)
      | ArrayPath ss \<Rightarrow> fits_int64 (length ss) \<and> (\<forall>s \<in> set ss. fits_int64 (length s))"
    and "str = [] \<or> hd str \<noteq> 0"
  shows "DecodeIDBKeyPath (EncodeIDBKeyPath path []) = Inr (path, []) \<and>
    DecodeIDBKeyPath (EncodeString str []) = Inr (StringPath str, [])"
proof
  show "DecodeIDBKeyPath (EncodeIDBKeyPath path []) = Inr (path, [])"
  proof (cases path)
    case (ArrayPath ss)
    then have "decode_times DecodeStringWithLength (length ss)
        (concat (map (\<lambda>s. EncodeStringWithLength s []) ss) @ []) = Inr (ss, [])"
      using assms(1) by (intro sized_string.decode_times_enc) simp
    with ArrayPath show ?thesis
      using assms(1) by (simp add: DecodeIDBKeyPath_def EncodeIDBKeyPath_def EncodeByte_def
          fold_EncodeStringWithLength EncodeVarInt_def unat_of_nat_fits)
  next
    case (StringPath s)
    then show ?thesis
      using assms(1) sized_string.dec_enc_exact [of s]
      by (simp add: DecodeIDBKeyPath_def EncodeIDBKeyPath_def EncodeByte_def
          EncodeStringWithLength_def EncodeVarInt_def)
  qed (simp add: DecodeIDBKeyPath_def EncodeIDBKeyPath_def EncodeByte_def)
  show "DecodeIDBKeyPath (EncodeString str []) = Inr (StringPath str, [])"
  proof (cases str)
    case (Cons c cs)
    then have "c \<noteq> 0" using assms(2) by simp
    have "c = 0" if "ucast (drop_bit 8 c) = (0 :: byte)" "ucast c = (0 :: byte)"
    proof -
      have "bit c n \<longleftrightarrow> False" for n
      proof (cases "n < 8")
        case True
        then show ?thesis using arg_cong [OF that(2), of "\<lambda>w. bit w n"] by (simp add: bit_simps)
      next
        case False
        then show ?thesis
          using arg_cong [OF that(1), of "\<lambda>w. bit w (n - 8)"] bit_imp_le_length [of c n]
          by (auto simp: bit_simps)
      qed
      then show ?thesis by (intro bit_word_eqI) simp
    qed
    with Cons \<open>c \<noteq> 0\<close> show ?thesis
      by (auto simp: DecodeIDBKeyPath_def DecodeString_enc [of "c # cs", simplified])
  qed (simp add: DecodeIDBKeyPath_def DecodeString_def)
qed

text \<open>The primitive encodings: integers in base 128 (all 64-bit values), strings and byte
  strings behind their length, doubles and booleans decode to themselves and leave exactly
  what followed them.\<close>

lemma primitives_roundtrip:
  assumes "fits_int64 (length str)" "fits_int64 (length bin)"
  shows "DecodeVarInt (EncodeVarInt v [] @ rest) = Inr (v, rest) \<and>
    DecodeInt (EncodeInt v []) = Inr (v, []) \<and>
    DecodeStringWithLength (EncodeStringWithLength str [] @ rest) = Inr (str, rest) \<and>
    DecodeBinary (EncodeBinary bin [] @ rest) = Inr (bin, rest) \<and>
    DecodeDouble (EncodeDouble d [] @ rest) = Inr (d, rest) \<and>
    DecodeBool (EncodeBool b [] @ rest) = Inr (b, rest)"
  using assms
  by (simp add: var_int.dec_enc sized_string.dec_enc binary.dec_enc double_codec.dec_enc
      bool_codec.dec_enc EncodeInt_def)

subsection \<open>The store as a whole\<close>

text \<open>The order of the store: keys with different prefixes are ordered by database, object
  store and index id as numbers, whatever entries they are; and under one prefix two records,
  two existence marks or two blobs are ordered as their user keys are.\<close>

lemma stored_entries_order:
  assumes "inj kt"
  shows "(\<forall>p q s t. prefix_fits p \<and> prefix_fits q \<and> nonneg_ids p \<and> nonneg_ids q \<and> p \<noteq> q \<longrightarrow>
      (\<exists>x. Compare kt (KeyPrefix_Encode p @ s) (KeyPrefix_Encode q @ t) only = Inr x \<and>
        sgn x = sgn (ids_order p q))) \<and>
    (\<forall>a b db store. comparable a \<and> comparable b \<and> ValidStoreIds db store \<longrightarrow>
      (\<exists>x y z.
        Compare kt (ObjectStoreDataKey_Encode_key db store a) (ObjectStoreDataKey_Encode_key db store b)
          only = Inr x \<and> sgn x = sgn (CompareTo kt a b) \<and>
        Compare kt (ExistsEntryKey_Encode_key db store a) (ExistsEntryKey_Encode_key db store b)
          only = Inr y \<and> sgn y = sgn (CompareTo kt a b) \<and>
        Compare kt (BlobEntryKey_Encode_key db store a) (BlobEntryKey_Encode_key db store b)
          only = Inr z \<and> sgn z = sgn (CompareTo kt a b)))"
  by (meson entries_ordered_by_ids records_ordered_by_user_key [OF assms])

text \<open>C40. The decoder of keys never reads past the end of its input, whatever the input; every key
  it decodes consumes at least one byte, and then skipping moves to the same place as decoding
  and extracting returns that many bytes from the start of the input.\<close>

theorem decoding_is_bounded:
  "DecodeIDBKey s \<noteq> Inl OutOfBounds \<and>
   (\<forall>k rest. DecodeIDBKey s = Inr (k, rest) \<longrightarrow>
      length rest < length s \<and> ConsumeEncodedIDBKey s = Inr rest \<and>
      ExtractEncodedIDBKey s = Inr (take (length s - length rest) s, rest))"
  using decoder_stays_in_bounds [of s] extraction_agrees_with_decoding [of s] by blast

theorem decoding_is_bounded_witness:
  "DecodeIDBKey [4] \<noteq> Inl OutOfBounds \<and> ConsumeEncodedIDBKey [0, 7] = Inr [7]"
  using decoding_is_bounded [of "[4]"] decoding_is_bounded [of "[0, 7]"]
  by (simp add: DecodeIDBKey_def)

text \<open>Every stored key is read back: the prefix, the entry of an index (with its sequence number
  and its two keys), the keys of the metadata with their ids, names and type bytes; and the key
  of a blob entry is rewritten to the key of its record.\<close>

lemma stored_keys_roundtrip:
  assumes "unat (index_id p) < 2 ^ 32" "ValidIds db store index" "encodable u" "encodable k"
    and "fits_int64 (length (ascii16 org))" "fits_int64 (length name)"
  shows "KeyPrefix_Decode (KeyPrefix_Encode p @ rest) = Inr (p, rest) \<and>
    (\<exists>e. IndexDataKey_Decode
        (IndexDataKey_Encode db store index (EncodeIDBKey u []) (EncodeIDBKey k []) seq) = Inr (e, []) \<and>
      id_database_id e = db \<and> id_object_store_id e = store \<and> id_index_id e = index \<and>
      id_sequence_number e = seq \<and> IndexDataKey_user_key e = Some u \<and>
      IndexDataKey_primary_key e = Some k) \<and>
    ReencodeToObjectStoreDataKey (BlobEntryKey_Encode_key db store k)
      = Inr (ObjectStoreDataKey_Encode_key db store k) \<and>
    DatabaseFreeListKey_Decode (DatabaseFreeListKey_Encode i @ rest)
      = Inr (\<lparr>dfl_database_id = i\<rparr>, rest) \<and>
    DatabaseNameKey_Decode (DatabaseNameKey_Encode ascii16 org name @ rest)
      = Inr (\<lparr>dn_origin = ascii16 org, dn_database_name = name\<rparr>, rest) \<and>
    ObjectStoreMetaDataKey_Decode (ObjectStoreMetaDataKey_Encode db store meta @ rest)
      = Inr (\<lparr>osm_object_store_id = store, osm_meta_data_type = meta\<rparr>, rest) \<and>
    IndexMetaDataKey_Decode (IndexMetaDataKey_Encode db store index meta @ rest)
      = Inr (\<lparr>im_object_store_id = store, im_index_id = index, im_meta_data_type = meta\<rparr>, rest) \<and>
    ObjectStoreFreeListKey_Decode (ObjectStoreFreeListKey_Encode db store @ rest)
      = Inr (\<lparr>osf_object_store_id = store\<rparr>, rest) \<and>
    IndexFreeListKey_Decode (IndexFreeListKey_Encode db store index @ rest)
      = Inr (\<lparr>ifl_object_store_id = store, ifl_index_id = index\<rparr>, rest) \<and>
    ObjectStoreNamesKey_Decode (ObjectStoreNamesKey_Encode db name @ rest)
      = Inr (\<lparr>osn_object_store_name = name\<rparr>, rest) \<and>
    IndexNamesKey_Decode (IndexNamesKey_Encode db store name @ rest)
      = Inr (\<lparr>in_object_store_id = store, in_index_name = name\<rparr>, rest)"
proof -
  note meta = metadata_keys_roundtrip [of ascii16 org name i rest db store meta index, OF assms(5,6)]
  note entry = index_entry_roundtrip [OF assms(2-4), of seq]
  show ?thesis
    using prefix_roundtrip [OF assms(1) assms(1), of rest] blob_entry_reencodes [OF assms(4), of db store]
      meta entry
    by presburger
qed

text \<open>Every stored value is read back: integers in base 128 (all 64-bit values), strings and byte
  strings behind their length, doubles, booleans, key paths (and the bare text that older
  versions wrote for a key path) and blob journals; and whatever bytes are read as a journal,
  each of its entries has a valid database id and names a blob or all blobs.\<close>

lemma stored_values_roundtrip:
  assumes "fits_int64 (length str)" "fits_int64 (length bin)" "str = [] \<or> hd str \<noteq> 0"
    and "case path of NullPath \<Rightarrow> True | StringPath s \<Rightarrow> fits_int64 (length s)
      | ArrayPath ss \<Rightarrow> fits_int64 (length ss) \<and> (\<forall>s \<in> set ss. fits_int64 (length s))"
    and "\<forall>(db, blob) \<in> set j. IsValidDatabaseId db \<and> (IsValidBlobKey blob \<or> blob = kAllBlobsKey)"
  shows "DecodeVarInt (EncodeVarInt v [] @ rest) = Inr (v, rest) \<and>
    DecodeInt (EncodeInt v []) = Inr (v, []) \<and>
    DecodeStringWithLength (EncodeStringWithLength str [] @ rest) = Inr (str, rest) \<and>
    DecodeBinary (EncodeBinary bin [] @ rest) = Inr (bin, rest) \<and>
    DecodeDouble (EncodeDouble d [] @ rest) = Inr (d, rest) \<and>
    DecodeBool (EncodeBool b [] @ rest) = Inr (b, rest) \<and>
    DecodeIDBKeyPath (EncodeIDBKeyPath path []) = Inr (path, []) \<and>
    DecodeIDBKeyPath (EncodeString str []) = Inr (StringPath str, []) \<and>
    DecodeBlobJournal (EncodeBlobJournal j []) = Inr j \<and>
    (\<forall>s j'. DecodeBlobJournal s = Inr j' \<longrightarrow>
      (\<forall>(db, blob) \<in> set j'. IsValidDatabaseId db \<and> (IsValidBlobKey blob \<or> blob = kAllBlobsKey)))"
  using primitives_roundtrip [OF assms(1,2), of v rest d b] key_path_roundtrip [OF assms(4,3)]
    blob_journal_roundtrip [OF assms(5)]
  by blast

end
