(* ===== verification/Std_Map.thy ===== *)
theory Std_Map
  imports Prelude "HOL-Library.List_Lexorder"
begin

text \<open>
  \<open>std::map\<close> as the list of its pairs in the order of the keys, with the operations the sources
  use: \<open>find\<close> is \<open>map_of\<close>, \<open>m[k] = v\<close> is \<open>map_put\<close> and \<open>erase\<close> is \<open>map_erase\<close>. The locale
  \<open>weighed_map\<close> states what a component that keeps a running total over a map relies on.
\<close>

fun map_put :: "'k::linorder \<Rightarrow> 'v \<Rightarrow> ('k \<times> 'v) list \<Rightarrow> ('k \<times> 'v) list" where
  "map_put k v [] = [(k, v)]"
| "map_put k v ((k', v') # m) =
     (if k < k' then (k, v) # (k', v') # m
      else if k = k' then (k, v) # m
      else (k', v') # map_put k v m)"

fun map_erase :: "'k::linorder \<Rightarrow> ('k \<times> 'v) list \<Rightarrow> ('k \<times> 'v) list" where
  "map_erase k [] = []"
| "map_erase k ((k', v') # m) = (if k = k' then m else (k', v') # map_erase k m)"

definition map_ok :: "('k::linorder \<times> 'v) list \<Rightarrow> bool" where
  "map_ok m \<longleftrightarrow> sorted_wrt (<) (map fst m)"

definition map_weight :: "('k \<Rightarrow> 'v \<Rightarrow> nat) \<Rightarrow> ('k \<times> 'v) list \<Rightarrow> nat" where
  "map_weight weight m = sum_list (map (\<lambda>(k, v). weight k v) m)"

definition weight_of :: "('k \<Rightarrow> 'v \<Rightarrow> nat) \<Rightarrow> 'k \<Rightarrow> 'v option \<Rightarrow> nat" where
  "weight_of weight k v = (case v of None \<Rightarrow> 0 | Some w \<Rightarrow> weight k w)"

lemma weight_of_simps [simp]: "weight_of weight k None = 0" "weight_of weight k (Some v) = weight k v"
  by (simp_all add: weight_of_def)

lemma map_weight_simps [simp]:
  "map_weight weight [] = 0" "map_weight weight ((k, v) # m) = weight k v + map_weight weight m"
  by (simp_all add: map_weight_def)

subsection \<open>The interface\<close>

locale weighed_map =
  fixes lookup :: "'m \<Rightarrow> 'k \<Rightarrow> 'v option"
    and put :: "'k \<Rightarrow> 'v \<Rightarrow> 'm \<Rightarrow> 'm"
    and erase :: "'k \<Rightarrow> 'm \<Rightarrow> 'm"
    and weight_sum :: "('k \<Rightarrow> 'v \<Rightarrow> nat) \<Rightarrow> 'm \<Rightarrow> nat"
    and ok :: "'m \<Rightarrow> bool"
  assumes ok_put: "ok m \<Longrightarrow> ok (put k v m)"
    and ok_erase: "ok m \<Longrightarrow> ok (erase k m)"
    and lookup_put: "ok m \<Longrightarrow> lookup (put k v m) = (lookup m)(k \<mapsto> v)"
    and lookup_erase: "ok m \<Longrightarrow> lookup (erase k m) = (lookup m)(k := None)"
    and sum_put: "ok m \<Longrightarrow>
      weight_sum weight (put k v m) + weight_of weight k (lookup m k) = weight_sum weight m + weight k v"
    and sum_erase: "ok m \<Longrightarrow>
      weight_sum weight (erase k m) + weight_of weight k (lookup m k) = weight_sum weight m"
begin

text \<open>Running totals in machine arithmetic stay exact modulo the word size.\<close>

lemma running_put:
  assumes "ok m" "used = of_nat (weight_sum weight m)"
  shows "used - of_nat (weight_of weight k (lookup m k)) + of_nat (weight k v)
    = (of_nat (weight_sum weight (put k v m)) :: 'w::len word)"
proof -
  have "(of_nat (weight_sum weight (put k v m)) :: 'w word) + of_nat (weight_of weight k (lookup m k))
      = used + of_nat (weight k v)"
    unfolding assms(2) of_nat_add [symmetric] by (simp only: sum_put [OF assms(1)])
  then show ?thesis by (simp add: algebra_simps)
qed

lemma running_erase:
  assumes "ok m" "used = of_nat (weight_sum weight m)"
  shows "used - of_nat (weight_of weight k (lookup m k))
    = (of_nat (weight_sum weight (erase k m)) :: 'w::len word)"
proof -
  have "(of_nat (weight_sum weight (erase k m)) :: 'w word) + of_nat (weight_of weight k (lookup m k)) = used"
    unfolding assms(2) of_nat_add [symmetric] by (simp only: sum_erase [OF assms(1)])
  then show ?thesis by (simp add: algebra_simps)
qed

lemma weight_le_sum: "ok m \<Longrightarrow> weight_of weight k (lookup m k) \<le> weight_sum weight m"
  using sum_erase [of m weight k] by simp

end

subsection \<open>The ordered list of pairs provides it\<close>

lemma map_ok_Cons: "map_ok ((k, v) # m) \<longleftrightarrow> (\<forall>k' \<in> fst ` set m. k < k') \<and> map_ok m"
  by (simp add: map_ok_def)

lemma keys_put: "fst ` set (map_put k v m) = insert k (fst ` set m)"
  by (induction k v m rule: map_put.induct) auto

lemma set_erase: "set (map_erase k m) \<subseteq> set m"
  by (induction k m rule: map_erase.induct) auto

lemma map_ok_put: "map_ok m \<Longrightarrow> map_ok (map_put k v m)"
proof (induction k v m rule: map_put.induct)
  case (2 k v k' v' m)
  then show ?case by (auto simp: map_ok_Cons keys_put)
qed (simp add: map_ok_def)

lemma map_ok_erase: "map_ok m \<Longrightarrow> map_ok (map_erase k m)"
proof (induction k m rule: map_erase.induct)
  case (2 k k' v' m)
  then show ?case using set_erase [of k m] by (auto simp: map_ok_Cons)
qed simp

lemma map_of_fresh: "map_ok m \<Longrightarrow> \<forall>k' \<in> fst ` set m. k < k' \<Longrightarrow> map_of m k = None"
  by (force simp: map_of_eq_None_iff)

lemma map_of_put: "map_ok m \<Longrightarrow> map_of (map_put k v m) = (map_of m)(k \<mapsto> v)"
  by (induction k v m rule: map_put.induct) (auto simp: map_ok_Cons fun_eq_iff)

lemma map_of_erase: "map_ok m \<Longrightarrow> map_of (map_erase k m) = (map_of m)(k := None)"
proof (induction k m rule: map_erase.induct)
  case (2 k k' v' m)
  then show ?case using map_of_fresh [of m k'] by (auto simp: map_ok_Cons fun_eq_iff)
qed simp

lemma map_weight_put:
  "map_ok m \<Longrightarrow> map_weight weight (map_put k v m) + weight_of weight k (map_of m k) = map_weight weight m + weight k v"
proof (induction k v m rule: map_put.induct)
  case (2 k v k' v' m)
  then show ?case using map_of_fresh [of m k] by (force simp: map_ok_Cons)
qed simp

lemma map_weight_erase:
  "map_ok m \<Longrightarrow> map_weight weight (map_erase k m) + weight_of weight k (map_of m k) = map_weight weight m"
  by (induction k m rule: map_erase.induct) (auto simp: map_ok_Cons)

interpretation std_map: weighed_map map_of map_put map_erase map_weight map_ok
  by unfold_locales (fact map_ok_put map_ok_erase map_of_put map_of_erase map_weight_put map_weight_erase)+

end
