(* ===== verification/List_Set.thy ===== *)
theory List_Set
  imports Prelude
begin

text \<open>
  \<open>browser/indexed_db/list_set.h\<close>: a container with the membership test of a set that keeps the
  order of insertion. The locale \<open>insertion_ordered\<close> is what its clients rely on; the container
  of the code provides it.
\<close>

record 'a list_set =
  items :: "'a list"
  members :: "'a set"

definition list_set_new :: "'a list_set" where
  "list_set_new = \<lparr>items = [], members = {}\<rparr>"

definition insert_front :: "'a \<Rightarrow> 'a list_set \<Rightarrow> 'a list_set" where
  "insert_front elem s =
     (if elem \<in> members s then s
      else s\<lparr>members := insert elem (members s), items := elem # items s\<rparr>)"

definition insert_back :: "'a \<Rightarrow> 'a list_set \<Rightarrow> 'a list_set" where
  "insert_back elem s =
     (if elem \<in> members s then s
      else s\<lparr>members := insert elem (members s), items := items s @ [elem]\<rparr>)"

definition erase :: "'a \<Rightarrow> 'a list_set \<Rightarrow> 'a list_set" where
  "erase elem s =
     (if elem \<notin> members s then s
      else s\<lparr>members := members s - {elem}, items := remove1 elem (items s)\<rparr>)"

definition count_of :: "'a \<Rightarrow> 'a list_set \<Rightarrow> nat" where
  "count_of elem s = (if elem \<notin> members s then 0 else 1)"

definition size_of :: "'a list_set \<Rightarrow> nat" where
  "size_of s = card (members s)"

definition is_empty :: "'a list_set \<Rightarrow> bool" where
  "is_empty s \<longleftrightarrow> members s = {}"

subsection \<open>The interface\<close>

locale insertion_ordered =
  fixes ok :: "'s \<Rightarrow> bool"
    and elems :: "'s \<Rightarrow> 'a list"
    and new :: 's
    and put_front :: "'a \<Rightarrow> 's \<Rightarrow> 's"
    and put_back :: "'a \<Rightarrow> 's \<Rightarrow> 's"
    and remove :: "'a \<Rightarrow> 's \<Rightarrow> 's"
    and occurrences :: "'a \<Rightarrow> 's \<Rightarrow> nat"
    and number :: "'s \<Rightarrow> nat"
  assumes distinct_elems: "ok s \<Longrightarrow> distinct (elems s)"
    and new: "ok new" "elems new = []"
    and put_front: "ok s \<Longrightarrow> ok (put_front x s)"
      "ok s \<Longrightarrow> elems (put_front x s) = (if x \<in> set (elems s) then elems s else x # elems s)"
    and put_back: "ok s \<Longrightarrow> ok (put_back x s)"
      "ok s \<Longrightarrow> elems (put_back x s) = (if x \<in> set (elems s) then elems s else elems s @ [x])"
    and remove: "ok s \<Longrightarrow> ok (remove x s)" "ok s \<Longrightarrow> elems (remove x s) = removeAll x (elems s)"
    and occurrences: "ok s \<Longrightarrow> occurrences x s = (if x \<in> set (elems s) then 1 else 0)"
    and number: "ok s \<Longrightarrow> number s = length (elems s)"
begin

definition partition :: "'s \<Rightarrow> 's \<Rightarrow> bool" where
  "partition a b \<longleftrightarrow> ok a \<and> ok b \<and> set (elems a) \<inter> set (elems b) = {}"

lemma partition_new: "partition new new"
  by (simp add: partition_def new)

lemma move:
  assumes "partition a b" "x \<in> set (elems a)"
  shows "partition (remove x a) (put_back x b)" "elems (put_back x b) = elems b @ [x]"
proof -
  have "x \<notin> set (elems b)" using assms by (auto simp: partition_def)
  then show "partition (remove x a) (put_back x b)" "elems (put_back x b) = elems b @ [x]"
    using assms by (auto simp: partition_def remove put_back)
qed

lemma drop:
  "partition a b \<Longrightarrow> partition (remove x a) b" "partition a b \<Longrightarrow> partition a (remove x b)"
  by (auto simp: partition_def remove)

lemma add:
  "partition a b \<Longrightarrow> x \<notin> set (elems b) \<Longrightarrow> partition (put_back x a) b"
  "partition a b \<Longrightarrow> x \<notin> set (elems a) \<Longrightarrow> partition a (put_front x b)"
  by (auto simp: partition_def put_back put_front)

end

definition list_set_ok :: "'a list_set \<Rightarrow> bool" where
  "list_set_ok s \<longleftrightarrow> distinct (items s) \<and> members s = set (items s)"

interpretation list_set: insertion_ordered list_set_ok items list_set_new insert_front insert_back
  erase count_of size_of
  by unfold_locales
    (auto simp: list_set_ok_def list_set_new_def insert_front_def insert_back_def erase_def
      count_of_def size_of_def distinct_remove1_removeAll distinct_removeAll distinct_card)

lemma is_empty_iff: "list_set_ok s \<Longrightarrow> is_empty s \<longleftrightarrow> items s = []"
  by (simp add: list_set_ok_def is_empty_def)

end
