(* ===== verification/Idb_Transaction.thy ===== *)
theory Idb_Transaction
  imports Std_Map List_Set
begin

text \<open>
  The object behind an IndexedDB transaction
  (\<open>browser/indexed_db/indexed_db_transaction.h\<close> and \<open>.cc\<close>) up to the point where it meets the
  coordinator: its state, its queues of operations and the loop that runs them. The operations
  are those of \<open>indexed_db_database.cc\<close>; what they do to the transaction they run in is a list of
  effects, what they do to the store is left out. The memory is a function from pointers; the
  pointers of the objects that have not been deleted are the live ones.
\<close>

subsection \<open>Types\<close>

datatype WebIDBTransactionMode = ReadOnly | ReadWrite | VersionChange

datatype WebIDBTaskType = NormalTask | PreemptiveTask

datatype State = CREATED | STARTED | COMMITTING | FINISHED

text \<open>
  \<open>leveldb::Status\<close>: success, or an error for which \<open>leveldb_env::IndicatesDiskFull\<close> answers the
  flag.
\<close>

datatype Status = StatusOK | StatusError bool

datatype BlobWriteResult = FAILURE_ASYNC | SUCCESS_ASYNC | SUCCESS_SYNC

record ObserverChanges =
  observations :: "nat list"
  transaction_map :: "(int \<times> int \<times> int list) list"

datatype effect =
    CallsAddPreemptiveEvent
  | CallsDidCompletePreemptiveEvent
  | CallsScheduleAbortTask nat
  | CallsRegisterOpenCursor nat
  | CallsUnregisterOpenCursor nat
  | CallsAddObservation int nat
  | AddsObserverTransaction int int int "int list"

record Operation =
  operation_name :: nat
  effects :: "effect list"
  operation_status :: Status

record IndexedDBTransaction =
  id_of :: int
  object_store_ids :: "int list"
  mode_of :: WebIDBTransactionMode
  used :: bool
  state_of :: State
  commit_pending :: bool
  connection_of :: int
  pending_observers :: "int list"
  connection_changes_map :: "(int \<times> ObserverChanges) list"
  task_queue :: "Operation list"
  preemptive_task_queue :: "Operation list"
  abort_task_stack :: "nat list"
  backing_store_transaction_begun :: bool
  should_process_queue :: bool
  pending_preemptive_events :: int
  processing_event_queue :: bool
  open_cursors :: "nat set"
  timeout_timer_running :: bool
  tasks_scheduled :: int
  tasks_completed :: int

definition IndexedDBTransaction_new ::
  "int \<Rightarrow> int \<Rightarrow> int list \<Rightarrow> WebIDBTransactionMode \<Rightarrow> IndexedDBTransaction" where
  "IndexedDBTransaction_new tid connection ids mode =
     \<lparr>id_of = tid, object_store_ids = ids, mode_of = mode, used = False, state_of = CREATED,
      commit_pending = False, connection_of = connection, pending_observers = [],
      connection_changes_map = [], task_queue = [], preemptive_task_queue = [],
      abort_task_stack = [], backing_store_transaction_begun = False, should_process_queue = False,
      pending_preemptive_events = 0, processing_event_queue = False, open_cursors = {},
      timeout_timer_running = False, tasks_scheduled = 0, tasks_completed = 0\<rparr>"

subsection \<open>Operations on one transaction\<close>

definition IsTaskQueueEmpty :: "IndexedDBTransaction \<Rightarrow> bool" where
  "IsTaskQueueEmpty t \<longleftrightarrow> preemptive_task_queue t = [] \<and> task_queue t = []"

definition HasPendingTasks :: "IndexedDBTransaction \<Rightarrow> bool" where
  "HasPendingTasks t \<longleftrightarrow> pending_preemptive_events t \<noteq> 0 \<or> \<not> IsTaskQueueEmpty t"

definition AddPreemptiveEvent :: "IndexedDBTransaction \<Rightarrow> IndexedDBTransaction" where
  "AddPreemptiveEvent t = t\<lparr>pending_preemptive_events := pending_preemptive_events t + 1\<rparr>"

definition DidCompletePreemptiveEvent :: "IndexedDBTransaction \<Rightarrow> IndexedDBTransaction" where
  "DidCompletePreemptiveEvent t = t\<lparr>pending_preemptive_events := pending_preemptive_events t - 1\<rparr>"

definition ScheduleAbortTask :: "nat \<Rightarrow> IndexedDBTransaction \<Rightarrow> IndexedDBTransaction" where
  "ScheduleAbortTask abort_task t = t\<lparr>abort_task_stack := abort_task # abort_task_stack t\<rparr>"

definition RegisterOpenCursor :: "nat \<Rightarrow> IndexedDBTransaction \<Rightarrow> IndexedDBTransaction" where
  "RegisterOpenCursor cursor t = t\<lparr>open_cursors := insert cursor (open_cursors t)\<rparr>"

definition UnregisterOpenCursor :: "nat \<Rightarrow> IndexedDBTransaction \<Rightarrow> IndexedDBTransaction" where
  "UnregisterOpenCursor cursor t = t\<lparr>open_cursors := open_cursors t - {cursor}\<rparr>"

definition CloseOpenCursors :: "IndexedDBTransaction \<Rightarrow> IndexedDBTransaction" where
  "CloseOpenCursors t = t\<lparr>open_cursors := {}\<rparr>"

definition AddPendingObserver :: "int \<Rightarrow> IndexedDBTransaction \<Rightarrow> IndexedDBTransaction" where
  "AddPendingObserver observer_id t = t\<lparr>pending_observers := pending_observers t @ [observer_id]\<rparr>"

definition RemovePendingObservers :: "int list \<Rightarrow> IndexedDBTransaction \<Rightarrow> IndexedDBTransaction" where
  "RemovePendingObservers ids t =
     t\<lparr>pending_observers := filter (\<lambda>o_id. o_id \<notin> set ids) (pending_observers t)\<rparr>"

definition GetPendingChangesForConnection :: "int \<Rightarrow> IndexedDBTransaction \<Rightarrow> ObserverChanges option" where
  "GetPendingChangesForConnection connection_id t = map_of (connection_changes_map t) connection_id"

definition AddObservation :: "int \<Rightarrow> nat \<Rightarrow> IndexedDBTransaction \<Rightarrow> IndexedDBTransaction" where
  "AddObservation connection_id observation t =
     (let changes = (case map_of (connection_changes_map t) connection_id of
        None \<Rightarrow> \<lparr>observations = [], transaction_map = []\<rparr> | Some c \<Rightarrow> c)
      in t\<lparr>connection_changes_map := map_put connection_id
             (changes\<lparr>observations := observations changes @ [observation]\<rparr>) (connection_changes_map t)\<rparr>)"

text \<open>The entry that \<open>FilterObservation\<close> makes for an observer that asks for a transaction.\<close>

definition AddObserverTransaction ::
  "int \<Rightarrow> int \<Rightarrow> int \<Rightarrow> int list \<Rightarrow> IndexedDBTransaction \<Rightarrow> IndexedDBTransaction" where
  "AddObserverTransaction connection_id observer_id tid ids t =
     (case GetPendingChangesForConnection connection_id t of
        None \<Rightarrow> t
      | Some changes \<Rightarrow>
          if map_of (transaction_map changes) observer_id \<noteq> None then t
          else t\<lparr>connection_changes_map := map_put connection_id
                   (changes\<lparr>transaction_map := map_put observer_id (tid, ids) (transaction_map changes)\<rparr>)
                   (connection_changes_map t)\<rparr>)"

fun apply_effect :: "effect \<Rightarrow> IndexedDBTransaction \<Rightarrow> IndexedDBTransaction" where
  "apply_effect CallsAddPreemptiveEvent t = AddPreemptiveEvent t"
| "apply_effect CallsDidCompletePreemptiveEvent t = DidCompletePreemptiveEvent t"
| "apply_effect (CallsScheduleAbortTask a) t = ScheduleAbortTask a t"
| "apply_effect (CallsRegisterOpenCursor c) t = RegisterOpenCursor c t"
| "apply_effect (CallsUnregisterOpenCursor c) t = UnregisterOpenCursor c t"
| "apply_effect (CallsAddObservation c n) t = AddObservation c n t"
| "apply_effect (AddsObserverTransaction c o_id tid ids) t = AddObserverTransaction c o_id tid ids t"

subsection \<open>The loop that runs the operations\<close>

text \<open>
  \<open>pop_task\<close> is the choice of the queue with \<open>TaskQueue::pop\<close>; \<open>run_tasks\<close> is the loop of
  \<open>ProcessTaskQueue\<close> with the names of the operations it runs. A failing operation ends it.
\<close>

definition current_queue :: "IndexedDBTransaction \<Rightarrow> Operation list" where
  "current_queue t = (if pending_preemptive_events t \<noteq> 0 then preemptive_task_queue t else task_queue t)"

definition pop_task :: "IndexedDBTransaction \<Rightarrow> IndexedDBTransaction" where
  "pop_task t =
     (if pending_preemptive_events t \<noteq> 0 then t\<lparr>preemptive_task_queue := tl (preemptive_task_queue t)\<rparr>
      else t\<lparr>task_queue := tl (task_queue t)\<rparr>)"

definition count_completed :: "IndexedDBTransaction \<Rightarrow> IndexedDBTransaction" where
  "count_completed t =
     (if pending_preemptive_events t = 0 then t\<lparr>tasks_completed := tasks_completed t + 1\<rparr> else t)"

definition run_operation :: "Operation \<Rightarrow> IndexedDBTransaction \<Rightarrow> IndexedDBTransaction" where
  "run_operation task t = count_completed (fold apply_effect (effects task) (pop_task t))"

lemma effect_queues [simp]:
  "task_queue (apply_effect e t) = task_queue t"
  "preemptive_task_queue (apply_effect e t) = preemptive_task_queue t"
  by (cases e; simp add: AddPreemptiveEvent_def DidCompletePreemptiveEvent_def ScheduleAbortTask_def
      RegisterOpenCursor_def UnregisterOpenCursor_def AddObservation_def AddObserverTransaction_def Let_def
      split: option.split)+

lemma effects_queues [simp]:
  "task_queue (fold apply_effect es t) = task_queue t"
  "preemptive_task_queue (fold apply_effect es t) = preemptive_task_queue t"
  by (induction es arbitrary: t) simp_all

lemma pop_shrinks:
  "current_queue t = task # rest \<Longrightarrow>
   length (task_queue (pop_task t)) + length (preemptive_task_queue (pop_task t))
     < length (task_queue t) + length (preemptive_task_queue t)"
  by (cases "task_queue t"; cases "preemptive_task_queue t")
    (auto simp: current_queue_def pop_task_def split: if_splits)

function run_tasks :: "IndexedDBTransaction \<Rightarrow> nat list \<Rightarrow> IndexedDBTransaction \<times> nat list \<times> Status" where
  "run_tasks t names =
     (case current_queue t of
        [] \<Rightarrow> (t, names, StatusOK)
      | task # rest \<Rightarrow>
          if state_of t = FINISHED then (t, names, StatusOK)
          else (let t1 = run_operation task t; names1 = names @ [operation_name task]
                in case operation_status task of
                     StatusOK \<Rightarrow> run_tasks t1 names1
                   | StatusError e \<Rightarrow> (t1, names1, StatusError e)))"
  by auto

termination
proof (relation "measure (\<lambda>(t, names). length (task_queue t) + length (preemptive_task_queue t))", goal_cases)
  case (2 t names task rest t1 names1)
  then show ?case using pop_shrinks [of t task rest]
    by (simp add: run_operation_def count_completed_def)
qed simp

declare run_tasks.simps [simp del]

end
