(* ===== verification/Idb_Coordinator.thy ===== *)
theory Idb_Coordinator
  imports Idb_Transaction
begin

text \<open>
  The coordinator that decides which transactions of a database run
  (\<open>browser/indexed_db/indexed_db_transaction_coordinator.cc\<close>) and the part of the database, of
  its connections and of the transactions that it works with: the creation of transactions, their
  start, the scheduling of operations and the tasks posted to the sequence.
\<close>

subsection \<open>State\<close>

text \<open>What the sequence's task runner holds; a task is bound to a weak pointer.\<close>

datatype posted_task = PostedProcessTaskQueue nat | PostedCommitUnused nat

datatype notification =
    TaskRun nat nat
  | AbortTaskRun nat nat
  | RolledBack nat
  | OnComplete nat
  | OnAbort nat
  | OnDatabaseChange int
  | ReportError Status
  | UpgradeTransactionFinished bool

record IndexedDBDatabase =
  heap :: "nat \<Rightarrow> IndexedDBTransaction"
  live :: "nat set"
  next_object :: nat
  queued_transactions :: "nat list_set"
  started_transactions :: "nat list_set"
  connections :: "int list"
  active_observers :: "int \<Rightarrow> int list"
  active_request :: bool
  connection_transactions :: "int \<times> int \<Rightarrow> nat option"
  transaction_count :: int
  posted :: "posted_task list"
  notified :: "notification list"

definition database_new :: "int list \<Rightarrow> IndexedDBDatabase" where
  "database_new connection_ids =
     \<lparr>heap = (\<lambda>p. IndexedDBTransaction_new 0 0 [] ReadOnly), live = {}, next_object = 0,
      queued_transactions = list_set_new, started_transactions = list_set_new,
      connections = connection_ids, active_observers = (\<lambda>c. []),
      active_request = False, connection_transactions = (\<lambda>k. None),
      transaction_count = 0, posted = [], notified = []\<rparr>"

datatype idb_crash = DuplicateTransactionId

definition update_object ::
  "nat \<Rightarrow> (IndexedDBTransaction \<Rightarrow> IndexedDBTransaction) \<Rightarrow> IndexedDBDatabase \<Rightarrow> IndexedDBDatabase" where
  "update_object p f db = db\<lparr>heap := (heap db)(p := f (heap db p))\<rparr>"

definition notify :: "notification list \<Rightarrow> IndexedDBDatabase \<Rightarrow> IndexedDBDatabase" where
  "notify ns db = db\<lparr>notified := notified db @ ns\<rparr>"

definition PostTask :: "posted_task \<Rightarrow> IndexedDBDatabase \<Rightarrow> IndexedDBDatabase" where
  "PostTask task db = db\<lparr>posted := posted db @ [task]\<rparr>"

subsection \<open>Starting a transaction\<close>

definition RunTasksIfStarted :: "nat \<Rightarrow> IndexedDBDatabase \<Rightarrow> IndexedDBDatabase" where
  "RunTasksIfStarted p db =
     (if state_of (heap db p) \<noteq> STARTED then db
      else if should_process_queue (heap db p) then db
      else PostTask (PostedProcessTaskQueue p)
             (update_object p (\<lambda>t. t\<lparr>should_process_queue := True\<rparr>) db))"

definition ScheduleTask :: "WebIDBTaskType \<Rightarrow> Operation \<Rightarrow> nat \<Rightarrow> IndexedDBDatabase \<Rightarrow> IndexedDBDatabase" where
  "ScheduleTask type task p db =
     (if state_of (heap db p) = FINISHED then db
      else RunTasksIfStarted p (update_object p (\<lambda>t.
        (let t1 = t\<lparr>timeout_timer_running := False, used := True\<rparr>
         in case type of
              NormalTask \<Rightarrow> t1\<lparr>task_queue := task_queue t1 @ [task], tasks_scheduled := tasks_scheduled t1 + 1\<rparr>
            | PreemptiveTask \<Rightarrow> t1\<lparr>preemptive_task_queue := preemptive_task_queue t1 @ [task]\<rparr>)) db))"

definition Start :: "nat \<Rightarrow> IndexedDBDatabase \<Rightarrow> IndexedDBDatabase" where
  "Start p db =
     (let db1 = update_object p (\<lambda>t. t\<lparr>state_of := STARTED\<rparr>) db
      in if \<not> used (heap db1 p)
         then (if commit_pending (heap db1 p) then PostTask (PostedCommitUnused p) db1 else db1)
         else RunTasksIfStarted p db1)"

definition GrabSnapshotThenStart :: "nat \<Rightarrow> IndexedDBDatabase \<Rightarrow> IndexedDBDatabase" where
  "GrabSnapshotThenStart p db =
     Start p (update_object p (\<lambda>t. t\<lparr>backing_store_transaction_begun := True\<rparr>) db)"

subsection \<open>The coordinator\<close>

definition kMaxStartedTransactions :: nat where
  "kMaxStartedTransactions = 10"

text \<open>A \<open>std::set<int64_t>\<close> is the list of its elements in their order.\<close>

fun DoSetsIntersect :: "int list \<Rightarrow> int list \<Rightarrow> bool" where
  "DoSetsIntersect (x # xs) (y # ys) =
     (if x < y then DoSetsIntersect xs (y # ys)
      else if y < x then DoSetsIntersect (x # xs) ys
      else True)"
| "DoSetsIntersect xs ys = False"

definition set_insert_range :: "int list \<Rightarrow> int list \<Rightarrow> int list" where
  "set_insert_range ids s = fold insort_insert ids s"

definition CanStartTransaction :: "nat \<Rightarrow> int list \<Rightarrow> IndexedDBDatabase \<Rightarrow> bool" where
  "CanStartTransaction p locked_scope db =
     (if size_of (started_transactions db) \<ge> kMaxStartedTransactions then False
      else (case mode_of (heap db p) of
              VersionChange \<Rightarrow> True
            | ReadOnly \<Rightarrow> \<not> DoSetsIntersect (object_store_ids (heap db p)) locked_scope
            | ReadWrite \<Rightarrow> \<not> DoSetsIntersect (object_store_ids (heap db p)) locked_scope))"

definition lock_scope :: "nat \<Rightarrow> IndexedDBDatabase \<Rightarrow> int list \<Rightarrow> int list" where
  "lock_scope p db locked_scope =
     (if mode_of (heap db p) = ReadWrite
      then set_insert_range (object_store_ids (heap db p)) locked_scope else locked_scope)"

text \<open>The loop over the queue; the iterator has moved on before the transaction is taken out.\<close>

fun process_queue :: "nat list \<Rightarrow> int list \<Rightarrow> IndexedDBDatabase \<Rightarrow> IndexedDBDatabase" where
  "process_queue [] locked_scope db = db"
| "process_queue (p # queue) locked_scope db =
     (let db1 = (if CanStartTransaction p locked_scope db
                 then Start p (db\<lparr>queued_transactions := erase p (queued_transactions db),
                                  started_transactions := insert_back p (started_transactions db)\<rparr>)
                 else db)
      in process_queue queue (lock_scope p db1 locked_scope) db1)"

definition ProcessQueuedTransactions :: "IndexedDBDatabase \<Rightarrow> IndexedDBDatabase" where
  "ProcessQueuedTransactions db =
     (if is_empty (queued_transactions db) then db
      else process_queue (items (queued_transactions db))
             (fold (\<lambda>p. lock_scope p db) (items (started_transactions db)) []) db)"

definition DidCreateTransaction :: "nat \<Rightarrow> IndexedDBDatabase \<Rightarrow> IndexedDBDatabase" where
  "DidCreateTransaction p db = ProcessQueuedTransactions
     (db\<lparr>queued_transactions := insert_back p (queued_transactions db)\<rparr>)"

definition DidCreateObserverTransaction :: "nat \<Rightarrow> IndexedDBDatabase \<Rightarrow> IndexedDBDatabase" where
  "DidCreateObserverTransaction p db = ProcessQueuedTransactions
     (db\<lparr>started_transactions := insert_front p (started_transactions db)\<rparr>)"

definition DidFinishTransaction :: "nat \<Rightarrow> IndexedDBDatabase \<Rightarrow> IndexedDBDatabase" where
  "DidFinishTransaction p db = ProcessQueuedTransactions
     (if count_of p (queued_transactions db) \<noteq> 0
      then db\<lparr>queued_transactions := erase p (queued_transactions db)\<rparr>
      else db\<lparr>started_transactions := erase p (started_transactions db)\<rparr>)"

definition IsRunningVersionChangeTransaction :: "IndexedDBDatabase \<Rightarrow> bool" where
  "IsRunningVersionChangeTransaction db =
     (case items (started_transactions db) of
        [] \<Rightarrow> False
      | p # ps \<Rightarrow> mode_of (heap db p) = VersionChange)"

definition IsActive :: "nat \<Rightarrow> IndexedDBDatabase \<Rightarrow> bool" where
  "IsActive p db \<longleftrightarrow> count_of p (queued_transactions db) \<noteq> 0 \<or> count_of p (started_transactions db) \<noteq> 0"

definition GetTransactions :: "IndexedDBDatabase \<Rightarrow> nat list" where
  "GetTransactions db = items (started_transactions db) @ items (queued_transactions db)"

subsection \<open>Connections create the transactions\<close>

definition GetTransaction :: "int \<Rightarrow> int \<Rightarrow> IndexedDBDatabase \<Rightarrow> nat option" where
  "GetTransaction c tid db = connection_transactions db (c, tid)"

text \<open>The method of the connection; a duplicate id fails its \<open>CHECK\<close>.\<close>

definition Connection_CreateTransaction ::
  "int \<Rightarrow> int \<Rightarrow> int list \<Rightarrow> WebIDBTransactionMode \<Rightarrow> IndexedDBDatabase \<Rightarrow>
   idb_crash + nat \<times> IndexedDBDatabase" where
  "Connection_CreateTransaction c tid ids mode db =
     (if GetTransaction c tid db \<noteq> None then Inl DuplicateTransactionId
      else let p = next_object db
           in Inr (p, db\<lparr>heap := (heap db)(p := IndexedDBTransaction_new tid c ids mode),
                         live := insert p (live db), next_object := p + 1,
                         connection_transactions := (connection_transactions db)((c, tid) \<mapsto> p)\<rparr>))"

definition RemoveTransaction :: "int \<Rightarrow> int \<Rightarrow> IndexedDBDatabase \<Rightarrow> IndexedDBDatabase" where
  "RemoveTransaction c tid db =
     (case connection_transactions db (c, tid) of
        None \<Rightarrow> db
      | Some p \<Rightarrow> db\<lparr>connection_transactions := (connection_transactions db)((c, tid) := None),
                     live := live db - {p}\<rparr>)"

definition TransactionCreated :: "nat \<Rightarrow> IndexedDBDatabase \<Rightarrow> IndexedDBDatabase" where
  "TransactionCreated p db = DidCreateTransaction p (db\<lparr>transaction_count := transaction_count db + 1\<rparr>)"

definition CreateTransaction ::
  "int \<Rightarrow> int \<Rightarrow> int list \<Rightarrow> WebIDBTransactionMode \<Rightarrow> IndexedDBDatabase \<Rightarrow>
   idb_crash + nat \<times> IndexedDBDatabase" where
  "CreateTransaction tid c ids mode db =
     bindE (Connection_CreateTransaction c tid (set_insert_range ids []) mode db)
       (\<lambda>(p, db1). Inr (p, TransactionCreated p db1))"

end
