(* ===== verification/Idb_Commit.thy ===== *)
theory Idb_Commit
  imports Idb_Coordinator
begin

text \<open>
  How an IndexedDB transaction ends (\<open>browser/indexed_db/indexed_db_transaction.cc\<close>): abort, the
  two phases of a commit, the processing of its task queue, and what the database and the
  connection do about it. What the backing store answers to the two phases of a commit is an
  argument; the next open or delete request of the database is not part of the model.
\<close>

datatype phase_one_outcome = PhaseOneFails bool | PhaseOneWritesBlobs | PhaseOneHasNoBlobs

record store_answers =
  phase_one :: phase_one_outcome
  phase_two :: Status

subsection \<open>Abort\<close>

definition TransactionFinished :: "nat \<Rightarrow> bool \<Rightarrow> IndexedDBDatabase \<Rightarrow> IndexedDBDatabase" where
  "TransactionFinished p committed db =
     (let db1 = db\<lparr>transaction_count := transaction_count db - 1\<rparr>
      in if active_request db1 \<and> mode_of (heap db1 p) = VersionChange
         then notify [UpgradeTransactionFinished committed] db1 else db1)"

definition run_abort_tasks :: "nat \<Rightarrow> IndexedDBDatabase \<Rightarrow> IndexedDBDatabase" where
  "run_abort_tasks p db =
     update_object p (\<lambda>t. t\<lparr>abort_task_stack := []\<rparr>)
       (notify (map (AbortTaskRun p) (abort_task_stack (heap db p))) db)"

definition Abort :: "nat \<Rightarrow> IndexedDBDatabase \<Rightarrow> IndexedDBDatabase" where
  "Abort p db =
     (let t = heap db p
      in if state_of t = FINISHED then db
         else
           let db1 = update_object p (\<lambda>t. t\<lparr>timeout_timer_running := False, state_of := FINISHED,
                       should_process_queue := False\<rparr>) db;
               db2 = (if backing_store_transaction_begun t then notify [RolledBack p] db1 else db1);
               db3 = run_abort_tasks p db2;
               db4 = update_object p (\<lambda>t. CloseOpenCursors (t\<lparr>preemptive_task_queue := [],
                       pending_preemptive_events := 0, task_queue := []\<rparr>)) db3;
               db5 = DidFinishTransaction p db4;
               db6 = notify [OnAbort p] db5;
               db7 = TransactionFinished p False db6
           in RemoveTransaction (connection_of t) (id_of t) db7)"

definition Timeout :: "nat \<Rightarrow> IndexedDBDatabase \<Rightarrow> IndexedDBDatabase" where
  "Timeout p db = Abort p (update_object p (\<lambda>t. t\<lparr>timeout_timer_running := False\<rparr>) db)"

text \<open>
  A closing connection takes its map of transactions aside, aborts them in the order of the
  unordered map, which is an argument, and deletes them.
\<close>

definition AbortAllTransactions :: "int \<Rightarrow> nat list \<Rightarrow> IndexedDBDatabase \<Rightarrow> IndexedDBDatabase" where
  "AbortAllTransactions c order db =
     (let db1 = db\<lparr>connection_transactions :=
                  (\<lambda>(c', tid). if c' = c then None else connection_transactions db (c', tid))\<rparr>;
          db2 = fold Abort order db1
      in db2\<lparr>live := live db2 - set order\<rparr>)"

subsection \<open>Observers\<close>

definition ActivatePendingObservers :: "int \<Rightarrow> int list \<Rightarrow> IndexedDBDatabase \<Rightarrow> IndexedDBDatabase" where
  "ActivatePendingObservers c observers db =
     db\<lparr>active_observers := (active_observers db)(c := active_observers db c @ observers)\<rparr>"

fun start_observers ::
  "int \<Rightarrow> (int \<times> int \<times> int list) list \<Rightarrow> IndexedDBDatabase \<Rightarrow> idb_crash + IndexedDBDatabase" where
  "start_observers c [] db = Inr db"
| "start_observers c ((observer_id, tid, ids) # m) db =
     bindE (Connection_CreateTransaction c tid (set_insert_range ids []) ReadOnly db) (\<lambda>(p, db1).
       let db2 = DidCreateObserverTransaction p db1;
           db3 = db2\<lparr>transaction_count := transaction_count db2 + 1\<rparr>
       in start_observers c m (GrabSnapshotThenStart p db3))"

fun SendObservations ::
  "int list \<Rightarrow> (int \<times> ObserverChanges) list \<Rightarrow> IndexedDBDatabase \<Rightarrow> idb_crash + IndexedDBDatabase" where
  "SendObservations [] changes_map db = Inr db"
| "SendObservations (c # cs) changes_map db =
     (case map_of changes_map c of
        None \<Rightarrow> SendObservations cs changes_map db
      | Some changes \<Rightarrow>
          bindE (start_observers c (transaction_map changes) db) (\<lambda>db1.
            SendObservations cs changes_map (notify [OnDatabaseChange c] db1)))"

subsection \<open>Commit\<close>

definition CommitPhaseTwo ::
  "nat \<Rightarrow> store_answers \<Rightarrow> IndexedDBDatabase \<Rightarrow> idb_crash + Status \<times> IndexedDBDatabase" where
  "CommitPhaseTwo p env db =
     (let t = heap db p
      in if state_of t = FINISHED then Inr (StatusOK, db)
         else
           let s = (if \<not> used t then StatusOK else phase_two env);
               db1 = update_object p (\<lambda>t. CloseOpenCursors (t\<lparr>state_of := FINISHED\<rparr>)) db;
               db2 = DidFinishTransaction p db1
           in if s = StatusOK
              then
                let db3 = update_object p (\<lambda>t. t\<lparr>abort_task_stack := [], connection_changes_map := []\<rparr>) db2
                in bindE (SendObservations (connections db3) (connection_changes_map t) db3) (\<lambda>db4.
                     let db5 = notify [OnComplete p] db4;
                         db6 = ActivatePendingObservers (connection_of t) (pending_observers t) db5;
                         db7 = TransactionFinished p True db6
                     in Inr (s, RemoveTransaction (connection_of t) (id_of t) db7))
              else Inr (s, TransactionFinished p False (notify [OnAbort p] (run_abort_tasks p db2))))"

definition BlobWriteComplete ::
  "nat \<Rightarrow> BlobWriteResult \<Rightarrow> store_answers \<Rightarrow> IndexedDBDatabase \<Rightarrow>
   idb_crash + Status \<times> IndexedDBDatabase" where
  "BlobWriteComplete p result env db =
     (if state_of (heap db p) = FINISHED then Inr (StatusOK, db)
      else (case result of
              FAILURE_ASYNC \<Rightarrow> Inr (StatusOK, Abort p db)
            | SUCCESS_ASYNC \<Rightarrow>
                bindE (CommitPhaseTwo p env db) (\<lambda>(s, db1).
                  Inr (s, if s \<noteq> StatusOK then notify [ReportError s] db1 else db1))
            | SUCCESS_SYNC \<Rightarrow> CommitPhaseTwo p env db))"

definition Commit ::
  "nat \<Rightarrow> store_answers \<Rightarrow> IndexedDBDatabase \<Rightarrow> idb_crash + Status \<times> IndexedDBDatabase" where
  "Commit p env db =
     (let db1 = update_object p (\<lambda>t. t\<lparr>timeout_timer_running := False\<rparr>) db
      in if state_of (heap db1 p) = FINISHED then Inr (StatusOK, db1)
         else
           let db2 = update_object p (\<lambda>t. t\<lparr>commit_pending := True\<rparr>) db1
           in if state_of (heap db2 p) \<noteq> STARTED then Inr (StatusOK, db2)
              else if HasPendingTasks (heap db2 p) then Inr (StatusOK, db2)
              else
                let db3 = update_object p (\<lambda>t. t\<lparr>state_of := COMMITTING\<rparr>) db2
                in if \<not> used (heap db3 p) then CommitPhaseTwo p env db3
                   else (case phase_one env of
                           PhaseOneFails e \<Rightarrow> Inr (StatusError e, db3)
                         | PhaseOneWritesBlobs \<Rightarrow> Inr (StatusOK, db3)
                         | PhaseOneHasNoBlobs \<Rightarrow> BlobWriteComplete p SUCCESS_SYNC env db3))"

text \<open>\<open>IndexedDBDatabase::Commit\<close>, for a transaction that may have been disposed of.\<close>

definition report_unless_ok :: "Status \<times> IndexedDBDatabase \<Rightarrow> IndexedDBDatabase" where
  "report_unless_ok r = (if fst r \<noteq> StatusOK then notify [ReportError (fst r)] (snd r) else snd r)"

definition Database_Commit ::
  "int \<Rightarrow> int \<Rightarrow> store_answers \<Rightarrow> IndexedDBDatabase \<Rightarrow> idb_crash + IndexedDBDatabase" where
  "Database_Commit c tid env db =
     (case GetTransaction c tid db of
        None \<Rightarrow> Inr db
      | Some p \<Rightarrow> bindE (Commit p env db) (\<lambda>r. Inr (report_unless_ok r)))"

subsection \<open>Processing the queue\<close>

definition begin_processing :: "IndexedDBTransaction \<Rightarrow> IndexedDBTransaction" where
  "begin_processing t = t\<lparr>processing_event_queue := True, should_process_queue := False,
     backing_store_transaction_begun := True\<rparr>"

definition ProcessTaskQueue ::
  "nat \<Rightarrow> store_answers \<Rightarrow> IndexedDBDatabase \<Rightarrow> idb_crash + IndexedDBDatabase" where
  "ProcessTaskQueue p env db =
     (if \<not> should_process_queue (heap db p) then Inr db
      else
        let (t, names, result) = run_tasks (begin_processing (heap db p)) [];
            db1 = notify (map (TaskRun p) names)
                    (update_object p (\<lambda>t'. t\<lparr>processing_event_queue := False\<rparr>) db)
        in if result \<noteq> StatusOK then Inr (notify [ReportError result] db1)
           else if \<not> HasPendingTasks t \<and> state_of t \<noteq> FINISHED \<and> commit_pending t
           then bindE (Commit p env db1) (\<lambda>r. Inr (report_unless_ok r))
           else if state_of t = FINISHED then Inr db1
           else if mode_of t \<noteq> ReadOnly
           then Inr (update_object p (\<lambda>t. t\<lparr>timeout_timer_running := True\<rparr>) db1)
           else Inr db1)"

definition CommitUnused ::
  "nat \<Rightarrow> store_answers \<Rightarrow> IndexedDBDatabase \<Rightarrow> idb_crash + IndexedDBDatabase" where
  "CommitUnused p env db =
     (if p \<notin> live db then Inr db else bindE (Commit p env db) (\<lambda>(s, db1). Inr db1))"

text \<open>The task runner takes the first task; a method bound to a dead weak pointer is skipped.\<close>

definition run_posted_task :: "store_answers \<Rightarrow> IndexedDBDatabase \<Rightarrow> idb_crash + IndexedDBDatabase" where
  "run_posted_task env db =
     (case posted db of
        [] \<Rightarrow> Inr db
      | PostedProcessTaskQueue p # rest \<Rightarrow>
          if p \<notin> live db then Inr (db\<lparr>posted := rest\<rparr>) else ProcessTaskQueue p env (db\<lparr>posted := rest\<rparr>)
      | PostedCommitUnused p # rest \<Rightarrow> CommitUnused p env (db\<lparr>posted := rest\<rparr>))"

end
