(* ===== verification/Idb_Commit_Lemmas.thy ===== *)
theory Idb_Commit_Lemmas
  imports Idb_Commit
begin

text \<open>
  The invariant of the transactions of a database and its preservation by the coordinator. The
  invariant is relative to a set of transactions that an operation is in the middle of changing.
\<close>

subsection \<open>The sets of locked object stores\<close>

definition ordered_ids :: "int list \<Rightarrow> bool" where
  "ordered_ids ids \<longleftrightarrow> sorted_wrt (<) ids"

lemma ordered_ids_iff: "ordered_ids ids \<longleftrightarrow> sorted ids \<and> distinct ids"
  by (simp add: ordered_ids_def strict_sorted_iff)

lemma ordered_insert: "ordered_ids s \<Longrightarrow> ordered_ids (insort_insert x s)"
  by (simp add: ordered_ids_iff sorted_insort_insert distinct_insort_insert)

lemma set_insert_range: "set (set_insert_range ids s) = set ids \<union> set s"
  unfolding set_insert_range_def
  by (induction ids arbitrary: s) (auto simp: set_insort_insert)

lemma ordered_insert_range: "ordered_ids s \<Longrightarrow> ordered_ids (set_insert_range ids s)"
  unfolding set_insert_range_def
  by (induction ids arbitrary: s) (simp_all add: ordered_insert)

lemma DoSetsIntersect_iff:
  "ordered_ids xs \<Longrightarrow> ordered_ids ys \<Longrightarrow> DoSetsIntersect xs ys \<longleftrightarrow> set xs \<inter> set ys \<noteq> {}"
proof (induction xs ys rule: DoSetsIntersect.induct)
  case (1 x xs y ys)
  then show ?case by (auto simp: ordered_ids_def not_less_iff_gr_or_eq)
qed (auto simp: ordered_ids_def)

subsection \<open>The invariant\<close>

definition stores :: "IndexedDBDatabase \<Rightarrow> nat \<Rightarrow> int set" where
  "stores db p = set (object_store_ids (heap db p))"

definition writes :: "IndexedDBDatabase \<Rightarrow> nat \<Rightarrow> bool" where
  "writes db p \<longleftrightarrow> mode_of (heap db p) = ReadWrite"

definition conflict :: "IndexedDBDatabase \<Rightarrow> nat \<Rightarrow> nat set \<Rightarrow> bool" where
  "conflict db p ps \<longleftrightarrow> (\<exists>q \<in> ps. writes db q \<and> stores db p \<inter> stores db q \<noteq> {})"

definition blocked :: "IndexedDBDatabase \<Rightarrow> nat list \<Rightarrow> nat \<Rightarrow> bool" where
  "blocked db earlier p \<longleftrightarrow>
     length (items (started_transactions db)) \<ge> kMaxStartedTransactions \<or>
     (mode_of (heap db p) \<noteq> VersionChange \<and>
      conflict db p (set (items (started_transactions db)) \<union> set earlier))"

definition drained :: "IndexedDBDatabase \<Rightarrow> bool" where
  "drained db \<longleftrightarrow> (\<forall>xs p ys. items (queued_transactions db) = xs @ p # ys \<longrightarrow> blocked db xs p)"

definition failed :: "IndexedDBDatabase \<Rightarrow> bool" where
  "failed db \<longleftrightarrow> (\<exists>s. ReportError s \<in> set (notified db))"

definition task_ok :: "bool \<Rightarrow> bool \<Rightarrow> bool \<Rightarrow> IndexedDBTransaction \<Rightarrow> bool" where
  "task_ok process_posted commit_posted failure t \<longleftrightarrow>
     (\<not> used t \<longrightarrow> IsTaskQueueEmpty t \<and> pending_preemptive_events t = 0) \<and>
     (state_of t = CREATED \<longrightarrow> pending_preemptive_events t = 0 \<and> (used t \<longrightarrow> \<not> IsTaskQueueEmpty t)) \<and>
     (state_of t = COMMITTING \<longrightarrow> \<not> HasPendingTasks t) \<and>
     (should_process_queue t \<longrightarrow> state_of t = STARTED \<and> process_posted \<and> \<not> IsTaskQueueEmpty t) \<and>
     (state_of t = STARTED \<longrightarrow> current_queue t \<noteq> [] \<longrightarrow> should_process_queue t \<or> failure) \<and>
     (state_of t = STARTED \<longrightarrow> commit_pending t \<longrightarrow> \<not> HasPendingTasks t \<longrightarrow>
        commit_posted \<or> should_process_queue t \<or> failure)"

definition txn_ok :: "IndexedDBDatabase \<Rightarrow> nat \<Rightarrow> bool" where
  "txn_ok db p \<longleftrightarrow> task_ok (PostedProcessTaskQueue p \<in> set (posted db))
     (PostedCommitUnused p \<in> set (posted db)) (failed db) (heap db p)"

lemma task_ok_mono:
  "task_ok a b c t \<Longrightarrow> (a \<Longrightarrow> a') \<Longrightarrow> (b \<Longrightarrow> b') \<Longrightarrow> (c \<Longrightarrow> c') \<Longrightarrow> task_ok a' b' c' t"
  unfolding task_ok_def by blast

definition outcomes :: "IndexedDBDatabase \<Rightarrow> nat \<Rightarrow> nat" where
  "outcomes db p = length (filter (\<lambda>n. n = OnComplete p \<or> n = OnAbort p) (notified db))"

definition placed :: "IndexedDBDatabase \<Rightarrow> nat \<Rightarrow> bool" where
  "placed db p \<longleftrightarrow>
     (p \<in> set (items (queued_transactions db)) \<longleftrightarrow> state_of (heap db p) = CREATED) \<and>
     (p \<in> set (items (started_transactions db)) \<longleftrightarrow> state_of (heap db p) \<in> {STARTED, COMMITTING})"

definition one_outcome :: "IndexedDBDatabase \<Rightarrow> nat \<Rightarrow> bool" where
  "one_outcome db p \<longleftrightarrow>
     outcomes db p = (if p < next_object db \<and> state_of (heap db p) = FINISHED then 1 else 0)"

definition scopes_ok :: "IndexedDBDatabase \<Rightarrow> bool" where
  "scopes_ok db \<longleftrightarrow>
     list_set.partition (queued_transactions db) (started_transactions db) \<and>
     set (items (queued_transactions db)) \<union> set (items (started_transactions db)) \<subseteq> live db \<and>
     (\<forall>p \<in> live db. p < next_object db \<and> ordered_ids (object_store_ids (heap db p))) \<and>
     (\<forall>p \<in> set (items (started_transactions db)). \<forall>q \<in> set (items (started_transactions db)).
        p \<noteq> q \<longrightarrow> writes db p \<longrightarrow> writes db q \<longrightarrow> stores db p \<inter> stores db q = {})"

definition idb_inv :: "nat set \<Rightarrow> IndexedDBDatabase \<Rightarrow> bool" where
  "idb_inv X db \<longleftrightarrow> scopes_ok db \<and> (\<forall>p \<in> live db - X. placed db p \<and> txn_ok db p) \<and>
     (\<forall>p. p \<notin> X \<longrightarrow> one_outcome db p)"

text \<open>What the invariant reads.\<close>

lemma scopes_ok_cong:
  assumes "scopes_ok db"
    and "queued_transactions db' = queued_transactions db"
    and "started_transactions db' = started_transactions db"
    and "live db' = live db" "next_object db' = next_object db"
    and "\<And>p. p \<in> live db \<Longrightarrow> mode_of (heap db' p) = mode_of (heap db p) \<and>
      object_store_ids (heap db' p) = object_store_ids (heap db p)"
  shows "scopes_ok db'"
proof -
  have v: "mode_of (heap db' p) = mode_of (heap db p)" "object_store_ids (heap db' p) = object_store_ids (heap db p)"
    if "p \<in> set (items (started_transactions db))" for p
    using assms(1,6) that by (auto simp: scopes_ok_def)
  then have w: "writes db' p = writes db p" "stores db' p = stores db p"
    if "p \<in> set (items (started_transactions db))" for p
    using that by (simp_all add: writes_def stores_def)
  have ids: "\<forall>p \<in> live db'. p < next_object db' \<and> ordered_ids (object_store_ids (heap db' p))"
    using assms(1,4,5,6) by (simp add: scopes_ok_def)
  have "stores db' p \<inter> stores db' q = {}"
    if "p \<in> set (items (started_transactions db))" "q \<in> set (items (started_transactions db))"
      "p \<noteq> q" "writes db' p" "writes db' q" for p q
    using assms(1) that w [of p] w [of q] by (simp add: scopes_ok_def)
  then show ?thesis using assms(1) ids by (simp add: scopes_ok_def assms(2-5))
qed

text \<open>Changing one transaction while the operation is in the middle of it.\<close>

lemma idb_inv_update:
  assumes "idb_inv X db" "p \<in> X"
    and "mode_of (f (heap db p)) = mode_of (heap db p)"
    and "object_store_ids (f (heap db p)) = object_store_ids (heap db p)"
  shows "idb_inv X (update_object p f db)"
proof -
  have scopes_ok: "scopes_ok db" using assms(1) by (simp add: idb_inv_def)
  have "scopes_ok (update_object p f db)"
    by (rule scopes_ok_cong [OF scopes_ok]) (simp_all add: update_object_def assms(3,4))
  moreover have "placed (update_object p f db) q = placed db q" "txn_ok (update_object p f db) q = txn_ok db q"
    "one_outcome (update_object p f db) q = one_outcome db q" if "q \<notin> X" for q
    using that assms(2)
    by (auto simp: update_object_def placed_def txn_ok_def one_outcome_def outcomes_def failed_def)
  moreover have "live (update_object p f db) = live db" by (simp add: update_object_def)
  ultimately show ?thesis using assms(1) unfolding idb_inv_def by blast
qed

lemma idb_inv_mono: "idb_inv X db \<Longrightarrow> X \<subseteq> Y \<Longrightarrow> idb_inv Y db"
  by (auto simp: idb_inv_def)

lemma idb_inv_settle:
  assumes "idb_inv (insert p X) db" "p \<in> live db \<Longrightarrow> placed db p \<and> txn_ok db p" "one_outcome db p"
  shows "idb_inv X db"
  unfolding idb_inv_def
proof (intro conjI ballI allI impI)
  fix q assume "q \<in> live db - X"
  then show "placed db q" "txn_ok db q" using assms by (cases "q = p"; simp add: idb_inv_def)+
next
  fix q assume "q \<notin> X"
  then show "one_outcome db q" using assms by (cases "q = p") (simp_all add: idb_inv_def)
qed (use assms in \<open>simp add: idb_inv_def\<close>)

text \<open>Fields that only the transactions in flight may depend on.\<close>

lemma idb_inv_frame:
  assumes "idb_inv X db"
    and "heap db' = heap db" "live db' = live db" "next_object db' = next_object db"
    and "queued_transactions db' = queued_transactions db"
    and "started_transactions db' = started_transactions db"
    and "\<And>p. p \<in> live db - X \<Longrightarrow>
      PostedProcessTaskQueue p \<in> set (posted db) \<longrightarrow> PostedProcessTaskQueue p \<in> set (posted db')"
    and "\<And>p. p \<in> live db - X \<Longrightarrow>
      PostedCommitUnused p \<in> set (posted db) \<longrightarrow> PostedCommitUnused p \<in> set (posted db')"
    and "failed db \<Longrightarrow> failed db'"
    and "\<And>p. p \<notin> X \<Longrightarrow> outcomes db' p = outcomes db p"
  shows "idb_inv X db'"
proof -
  have "scopes_ok db" using assms(1) by (simp add: idb_inv_def)
  then have "scopes_ok db'" by (rule scopes_ok_cong) (simp_all add: assms(2-6))
  moreover have "txn_ok db' p" if "p \<in> live db - X" for p
  proof -
    have "txn_ok db p" using assms(1) that by (simp add: idb_inv_def)
    then show ?thesis unfolding txn_ok_def assms(2)
      using assms(7) [OF that] assms(8) [OF that] assms(9) by (blast intro: task_ok_mono)
  qed
  moreover have "placed db' p = placed db p" for p using assms(2,5,6) by (simp add: placed_def)
  moreover have "one_outcome db' p = one_outcome db p" if "p \<notin> X" for p
    using assms(2,4) assms(10) [OF that] by (simp add: one_outcome_def)
  ultimately show ?thesis using assms(1,3) unfolding idb_inv_def by metis
qed

lemma idb_inv_notify:
  assumes "idb_inv X db" "\<And>p. OnComplete p \<in> set ns \<or> OnAbort p \<in> set ns \<Longrightarrow> p \<in> X"
  shows "idb_inv X (notify ns db)"
proof -
  have "filter (\<lambda>n. n = OnComplete p \<or> n = OnAbort p) ns = []" if "p \<notin> X" for p
    using assms(2) that by (auto simp: filter_empty_conv)
  then show ?thesis
    by (intro idb_inv_frame [OF assms(1)]) (auto simp: notify_def failed_def outcomes_def)
qed

lemma idb_inv_post: "idb_inv X db \<Longrightarrow> idb_inv X (PostTask task db)"
  by (erule idb_inv_frame) (auto simp: PostTask_def failed_def outcomes_def)

lemma idb_inv_count: "idb_inv X db \<Longrightarrow> idb_inv X (db\<lparr>transaction_count := n\<rparr>)"
  by (erule idb_inv_frame) (auto simp: failed_def outcomes_def)

subsection \<open>Starting\<close>

lemmas object_defs = update_object_def PostTask_def notify_def

lemma Start_frame [simp]:
  "queued_transactions (Start p db) = queued_transactions db"
  "started_transactions (Start p db) = started_transactions db"
  "live (Start p db) = live db" "next_object (Start p db) = next_object db"
  "connections (Start p db) = connections db" "active_request (Start p db) = active_request db"
  "connection_transactions (Start p db) = connection_transactions db"
  "transaction_count (Start p db) = transaction_count db" "notified (Start p db) = notified db"
  "q \<noteq> p \<Longrightarrow> heap (Start p db) q = heap db q"
  "mode_of (heap (Start p db) q) = mode_of (heap db q)"
  "object_store_ids (heap (Start p db) q) = object_store_ids (heap db q)"
  "id_of (heap (Start p db) q) = id_of (heap db q)"
  "connection_of (heap (Start p db) q) = connection_of (heap db q)"
  "state_of (heap (Start p db) p) = STARTED"
  "length (posted (Start p db)) \<le> Suc (length (posted db))"
  by (simp_all add: Start_def RunTasksIfStarted_def object_defs Let_def)

lemma idb_inv_Start: "idb_inv X db \<Longrightarrow> p \<in> X \<Longrightarrow> idb_inv X (Start p db)"
  by (auto simp: Start_def RunTasksIfStarted_def Let_def intro!: idb_inv_post idb_inv_update)

lemma txn_ok_Start:
  assumes "txn_ok db p" "state_of (heap db p) = CREATED"
  shows "txn_ok (Start p db) p"
  using assms
  by (auto simp: txn_ok_def task_ok_def Start_def RunTasksIfStarted_def object_defs Let_def failed_def
      IsTaskQueueEmpty_def HasPendingTasks_def current_queue_def)

lemma scopes_ok_move:
  assumes "scopes_ok db" "p \<in> set (items (queued_transactions db))"
    and "writes db p \<Longrightarrow> \<not> conflict db p (set (items (started_transactions db)))"
  shows "scopes_ok (db\<lparr>queued_transactions := erase p (queued_transactions db),
                        started_transactions := insert_back p (started_transactions db)\<rparr>)"
    and "items (insert_back p (started_transactions db)) = items (started_transactions db) @ [p]"
    and "items (erase p (queued_transactions db)) = removeAll p (items (queued_transactions db))"
proof -
  have part: "list_set.partition (queued_transactions db) (started_transactions db)"
    using assms(1) by (simp add: scopes_ok_def)
  note m = list_set.move [OF part assms(2)]
  have e: "items (erase p (queued_transactions db)) = removeAll p (items (queued_transactions db))"
    using part by (simp add: list_set.partition_def list_set.remove)
  show "items (insert_back p (started_transactions db)) = items (started_transactions db) @ [p]"
    "items (erase p (queued_transactions db)) = removeAll p (items (queued_transactions db))"
    by (fact m(2) e)+
  have "stores db p \<inter> stores db q = {}"
    if "q \<in> set (items (started_transactions db))" "writes db q" "writes db p" for q
    using assms(3) that by (auto simp: conflict_def)
  then show "scopes_ok (db\<lparr>queued_transactions := erase p (queued_transactions db),
                        started_transactions := insert_back p (started_transactions db)\<rparr>)"
    using assms(1,2) m(1)
    by (auto simp: scopes_ok_def m(2) e stores_def writes_def)
qed

lemma idb_inv_start:
  assumes inv: "idb_inv X db" and p: "p \<in> set (items (queued_transactions db))" "p \<notin> X"
    and free: "writes db p \<Longrightarrow> \<not> conflict db p (set (items (started_transactions db)))"
  defines "db1 \<equiv> db\<lparr>queued_transactions := erase p (queued_transactions db),
                   started_transactions := insert_back p (started_transactions db)\<rparr>"
  shows "idb_inv X (Start p db1)"
proof -
  have ok: "scopes_ok db" and live: "p \<in> live db" using inv p by (auto simp: idb_inv_def scopes_ok_def)
  note m = scopes_ok_move [OF ok p(1) free]
  have placed: "placed db p" "txn_ok db p" "one_outcome db p" using inv live p(2) by (simp_all add: idb_inv_def)
  have created: "state_of (heap db p) = CREATED" using placed(1) p(1) by (simp add: placed_def)
  have "placed db1 q = placed db q" if "q \<noteq> p" for q
    using that m(2,3) by (simp add: placed_def db1_def)
  moreover have "txn_ok db1 q = txn_ok db q" "one_outcome db1 q = one_outcome db q" for q
    by (simp_all add: txn_ok_def one_outcome_def outcomes_def failed_def db1_def)
  moreover have "live db1 = live db" by (simp add: db1_def)
  ultimately have "idb_inv (insert p X) db1"
    using inv m(1) by (simp add: idb_inv_def db1_def [symmetric])
  then have "idb_inv (insert p X) (Start p db1)" by (rule idb_inv_Start) simp
  moreover have "placed (Start p db1) p" using m(2,3) by (simp add: placed_def db1_def)
  moreover have "txn_ok (Start p db1) p"
    using placed(2) created by (intro txn_ok_Start) (simp_all add: txn_ok_def failed_def db1_def)
  moreover have "one_outcome (Start p db1) p"
    using placed(3) created by (simp add: one_outcome_def outcomes_def db1_def)
  ultimately show ?thesis by (blast intro: idb_inv_settle)
qed

subsection \<open>Processing the coordinator's queue\<close>

definition locked_by :: "IndexedDBDatabase \<Rightarrow> nat set \<Rightarrow> int set" where
  "locked_by db ps = (\<Union>q \<in> {q \<in> ps. writes db q}. stores db q)"

lemma conflict_iff: "conflict db p ps \<longleftrightarrow> stores db p \<inter> locked_by db ps \<noteq> {}"
  by (auto simp: conflict_def locked_by_def)

lemma stores_Start [simp]: "stores (Start p db) = stores db" "writes (Start p db) = writes db"
  by (simp_all add: stores_def writes_def fun_eq_iff)

lemma lock_scope_set:
  "set (lock_scope p db locked) = set locked \<union> (if writes db p then stores db p else {})"
  by (auto simp: lock_scope_def set_insert_range writes_def stores_def)

lemma lock_scope_ordered: "ordered_ids locked \<Longrightarrow> ordered_ids (lock_scope p db locked)"
  by (simp add: lock_scope_def ordered_insert_range)

lemma initial_locks:
  "set (fold (\<lambda>p. lock_scope p db) ps locked) = set locked \<union> locked_by db (set ps)"
  "ordered_ids locked \<Longrightarrow> ordered_ids (fold (\<lambda>p. lock_scope p db) ps locked)"
  by (induction ps arbitrary: locked) (auto simp: lock_scope_set locked_by_def lock_scope_ordered)

lemma CanStart_iff:
  assumes "scopes_ok db" "ordered_ids locked" "p \<in> live db"
  shows "CanStartTransaction p locked db \<longleftrightarrow>
    length (items (started_transactions db)) < kMaxStartedTransactions \<and>
    (mode_of (heap db p) = VersionChange \<or> stores db p \<inter> set locked = {})"
proof -
  have "list_set_ok (started_transactions db)" using assms(1) by (simp add: scopes_ok_def list_set.partition_def)
  then have "size_of (started_transactions db) = length (items (started_transactions db))"
    by (rule list_set.number)
  moreover have "ordered_ids (object_store_ids (heap db p))" using assms(1,3) by (simp add: scopes_ok_def)
  ultimately show ?thesis using assms(2)
    by (auto simp: CanStartTransaction_def DoSetsIntersect_iff stores_def split: WebIDBTransactionMode.split)
qed

lemma blocked_mono:
  "blocked db xs q \<Longrightarrow> length (items (started_transactions db)) \<le> length (items (started_transactions db')) \<Longrightarrow>
   set (items (started_transactions db)) \<subseteq> set (items (started_transactions db')) \<Longrightarrow>
   mode_of (heap db' q) = mode_of (heap db q) \<Longrightarrow> stores db' = stores db \<Longrightarrow> writes db' = writes db \<Longrightarrow>
   blocked db' xs q"
  unfolding blocked_def conflict_def using le_trans by (simp; blast)

definition load :: "IndexedDBDatabase \<Rightarrow> nat" where
  "load db = length (posted db) + length (items (queued_transactions db))"

lemma process_queue_inv:
  assumes "idb_inv X db" "set queue \<inter> X = {}" "items (queued_transactions db) = kept @ queue"
    and "set locked = locked_by db (set (items (started_transactions db)) \<union> set kept)" "ordered_ids locked"
    and "\<forall>xs q ys. kept = xs @ q # ys \<longrightarrow> blocked db xs q"
  shows "idb_inv X (process_queue queue locked db) \<and> drained (process_queue queue locked db) \<and>
    load (process_queue queue locked db) \<le> load db"
  using assms
proof (induction queue arbitrary: kept locked db)
  case (Nil kept locked db)
  then show ?case by (simp add: drained_def)
next
  case (Cons p queue kept locked db)
  have ok: "scopes_ok db" using Cons.prems(1) by (simp add: idb_inv_def)
  have p: "p \<in> set (items (queued_transactions db))" "p \<notin> X" using Cons.prems(2,3) by auto
  have live: "p \<in> live db" using ok p(1) by (auto simp: scopes_ok_def)
  have dist: "distinct (kept @ p # queue)"
    using ok list_set.distinct_elems [of "queued_transactions db"] Cons.prems(3)
    by (simp add: scopes_ok_def list_set.partition_def)
  note can = CanStart_iff [OF ok Cons.prems(5) live]
  show ?case
  proof (cases "CanStartTransaction p locked db")
    case False
    then have "blocked db kept p"
      using can Cons.prems(4) by (auto simp: blocked_def conflict_iff)
    then have "\<forall>xs q ys. kept @ [p] = xs @ q # ys \<longrightarrow> blocked db xs q"
      using Cons.prems(6) by (auto simp: append_eq_append_conv2 append_eq_Cons_conv Cons_eq_append_conv)
    moreover have "set (lock_scope p db locked)
        = locked_by db (set (items (started_transactions db)) \<union> set (kept @ [p]))"
      using Cons.prems(4) by (auto simp: lock_scope_set locked_by_def)
    ultimately show ?thesis
      using Cons.IH [of db "kept @ [p]"] Cons.prems False
      by (simp add: lock_scope_ordered)
  next
    case True
    define db1 where "db1 = db\<lparr>queued_transactions := erase p (queued_transactions db),
      started_transactions := insert_back p (started_transactions db)\<rparr>"
    define db2 where "db2 = Start p db1"
    have free: "\<not> conflict db p (set (items (started_transactions db)))" if "writes db p"
      using True can Cons.prems(4) that by (auto simp: conflict_iff writes_def locked_by_def)
    note m = scopes_ok_move [OF ok p(1) free]
    have inv: "idb_inv X db2"
      unfolding db2_def db1_def by (rule idb_inv_start [OF Cons.prems(1) p free])
    have q: "items (queued_transactions db2) = kept @ queue"
      using m(3) dist Cons.prems(3) by (simp add: db2_def db1_def)
    have s: "items (started_transactions db2) = items (started_transactions db) @ [p]"
      using m(2) by (simp add: db2_def db1_def)
    have same: "stores db2 = stores db" "writes db2 = writes db"
      by (simp_all add: db2_def db1_def) (simp_all add: stores_def writes_def fun_eq_iff)
    have mode: "mode_of (heap db2 r) = mode_of (heap db r)" for r by (simp add: db2_def db1_def)
    have "set (lock_scope p db2 locked) = locked_by db2 (set (items (started_transactions db2)) \<union> set kept)"
      using Cons.prems(4) by (auto simp: lock_scope_set locked_by_def s same)
    moreover have "\<forall>xs r ys. kept = xs @ r # ys \<longrightarrow> blocked db2 xs r"
      using Cons.prems(6) by (auto intro!: blocked_mono [of db _ _ db2] simp: s same mode)
    ultimately have "idb_inv X (process_queue queue (lock_scope p db2 locked) db2) \<and>
        drained (process_queue queue (lock_scope p db2 locked) db2) \<and>
        load (process_queue queue (lock_scope p db2 locked) db2) \<le> load db2"
      using Cons.IH [OF inv _ q] Cons.prems(2,5) by (simp add: lock_scope_ordered)
    moreover have "load db2 \<le> load db"
      using Start_frame(16) [of p db1] q Cons.prems(3) by (simp add: load_def db2_def db1_def)
    moreover have "process_queue (p # queue) locked db = process_queue queue (lock_scope p db2 locked) db2"
      using True by (simp add: db2_def db1_def Let_def)
    ultimately show ?thesis by simp
  qed
qed

lemma ProcessQueued_inv:
  assumes "idb_inv X db" "set (items (queued_transactions db)) \<inter> X = {}"
  shows "idb_inv X (ProcessQueuedTransactions db)" "drained (ProcessQueuedTransactions db)"
    "load (ProcessQueuedTransactions db) \<le> load db"
proof -
  have "list_set_ok (queued_transactions db)"
    using assms(1) by (simp add: idb_inv_def scopes_ok_def list_set.partition_def)
  then have e: "is_empty (queued_transactions db) \<longleftrightarrow> items (queued_transactions db) = []"
    by (rule is_empty_iff)
  have "idb_inv X (ProcessQueuedTransactions db) \<and> drained (ProcessQueuedTransactions db) \<and>
    load (ProcessQueuedTransactions db) \<le> load db"
  proof (cases "items (queued_transactions db) = []")
    case True
    then show ?thesis using assms(1) e by (simp add: ProcessQueuedTransactions_def drained_def)
  next
    case False
    then show ?thesis
      using process_queue_inv [OF assms, of "[]" "fold (\<lambda>p. lock_scope p db) (items (started_transactions db)) []"] e
        initial_locks(1) [of db "items (started_transactions db)" "[]"]
        initial_locks(2) [of "[]" db "items (started_transactions db)"]
      by (simp add: ProcessQueuedTransactions_def ordered_ids_def)
  qed
  then show "idb_inv X (ProcessQueuedTransactions db)" "drained (ProcessQueuedTransactions db)"
    "load (ProcessQueuedTransactions db) \<le> load db" by blast+
qed

text \<open>What processing the queue leaves alone.\<close>

lemma process_queue_frame:
  "live (process_queue qs l db) = live db" "next_object (process_queue qs l db) = next_object db"
  "connections (process_queue qs l db) = connections db"
  "active_request (process_queue qs l db) = active_request db"
  "connection_transactions (process_queue qs l db) = connection_transactions db"
  "transaction_count (process_queue qs l db) = transaction_count db"
  "notified (process_queue qs l db) = notified db"
  "q \<notin> set qs \<Longrightarrow> heap (process_queue qs l db) q = heap db q"
  "mode_of (heap (process_queue qs l db) q) = mode_of (heap db q)"
  "object_store_ids (heap (process_queue qs l db) q) = object_store_ids (heap db q)"
  "id_of (heap (process_queue qs l db) q) = id_of (heap db q)"
  "connection_of (heap (process_queue qs l db) q) = connection_of (heap db q)"
  by (induction qs l db rule: process_queue.induct) (simp_all add: Let_def)

lemma ProcessQueued_frame [simp]:
  "live (ProcessQueuedTransactions db) = live db" "next_object (ProcessQueuedTransactions db) = next_object db"
  "connections (ProcessQueuedTransactions db) = connections db"
  "active_request (ProcessQueuedTransactions db) = active_request db"
  "connection_transactions (ProcessQueuedTransactions db) = connection_transactions db"
  "transaction_count (ProcessQueuedTransactions db) = transaction_count db"
  "notified (ProcessQueuedTransactions db) = notified db"
  "q \<notin> set (items (queued_transactions db)) \<Longrightarrow> heap (ProcessQueuedTransactions db) q = heap db q"
  "mode_of (heap (ProcessQueuedTransactions db) q) = mode_of (heap db q)"
  "object_store_ids (heap (ProcessQueuedTransactions db) q) = object_store_ids (heap db q)"
  "id_of (heap (ProcessQueuedTransactions db) q) = id_of (heap db q)"
  "connection_of (heap (ProcessQueuedTransactions db) q) = connection_of (heap db q)"
  by (simp_all add: ProcessQueuedTransactions_def process_queue_frame)

end
