(* ===== verification/Idb_Commit_Inv.thy ===== *)
theory Idb_Commit_Inv
  imports Idb_Commit_Lemmas
begin

text \<open>
  The operations that create and end transactions preserve the invariant.
\<close>

subsection \<open>Finishing\<close>

lemma drained_cong:
  assumes "drained db" "queued_transactions db' = queued_transactions db"
    and "started_transactions db' = started_transactions db"
    and "\<And>p. mode_of (heap db' p) = mode_of (heap db p)"
    and "\<And>p. object_store_ids (heap db' p) = object_store_ids (heap db p)"
  shows "drained db'"
proof -
  have "stores db' = stores db" "writes db' = writes db"
    using assms(4,5) by (simp_all add: stores_def writes_def fun_eq_iff)
  then have "blocked db' xs p = blocked db xs p" for xs p
    by (simp add: blocked_def conflict_def assms(3,4))
  then show ?thesis using assms(1) by (simp add: drained_def assms(2))
qed

lemma outcomes_notify [simp]:
  "outcomes (notify ns db) p = outcomes db p + length (filter (\<lambda>n. n = OnComplete p \<or> n = OnAbort p) ns)"
  by (simp add: outcomes_def notify_def)

lemma outcomes_cong [simp]:
  "outcomes (update_object q f db) p = outcomes db p"
  "outcomes (db\<lparr>queued_transactions := qs\<rparr>) p = outcomes db p"
  "outcomes (db\<lparr>started_transactions := qs\<rparr>) p = outcomes db p"
  "outcomes (db\<lparr>transaction_count := n\<rparr>) p = outcomes db p"
  "outcomes (ProcessQueuedTransactions db) p = outcomes db p"
  "outcomes (Start q db) p = outcomes db p"
  by (simp_all add: outcomes_def update_object_def)

lemma started_from_queue:
  "set (items (started_transactions (process_queue qs l db))) \<subseteq> set (items (started_transactions db)) \<union> set qs"
  "set (items (queued_transactions (process_queue qs l db))) \<subseteq> set (items (queued_transactions db))"
proof (induction qs l db rule: process_queue.induct)
  case (2 p queue locked db)
  have "set (items (insert_back p s)) \<subseteq> insert p (set (items s))" "set (items (erase p s)) \<subseteq> set (items s)"
    for s :: "nat list_set"
    by (auto simp: insert_back_def erase_def dest: notin_set_remove1 subsetD [OF set_remove1_subset])
  note this [of "started_transactions db"] this [of "queued_transactions db"]
  with 2 show "set (items (started_transactions (process_queue (p # queue) locked db)))
      \<subseteq> set (items (started_transactions db)) \<union> set (p # queue)"
    "set (items (queued_transactions (process_queue (p # queue) locked db)))
      \<subseteq> set (items (queued_transactions db))"
    by (auto simp: Let_def split: if_splits)
qed simp_all

lemma ProcessQueued_members:
  "set (items (started_transactions (ProcessQueuedTransactions db)))
    \<subseteq> set (items (started_transactions db)) \<union> set (items (queued_transactions db))"
  "set (items (queued_transactions (ProcessQueuedTransactions db))) \<subseteq> set (items (queued_transactions db))"
  using started_from_queue by (auto simp: ProcessQueuedTransactions_def)

definition idle :: "nat \<Rightarrow> IndexedDBDatabase \<Rightarrow> bool" where
  "idle p db \<longleftrightarrow> p \<notin> set (items (queued_transactions db)) \<and> p \<notin> set (items (started_transactions db))"

lemma DidFinish_inv:
  assumes inv: "idb_inv {p} db"
  shows "idb_inv {p} (DidFinishTransaction p db)" "drained (DidFinishTransaction p db)"
    "load (DidFinishTransaction p db) \<le> load db" "idle p (DidFinishTransaction p db)"
    "heap (DidFinishTransaction p db) p = heap db p" "outcomes (DidFinishTransaction p db) q = outcomes db q"
    "notified (DidFinishTransaction p db) = notified db"
    "live (DidFinishTransaction p db) = live db" "next_object (DidFinishTransaction p db) = next_object db"
    "connection_transactions (DidFinishTransaction p db) = connection_transactions db"
    "id_of (heap (DidFinishTransaction p db) q) = id_of (heap db q)"
    "connection_of (heap (DidFinishTransaction p db) q) = connection_of (heap db q)"
    "connections (DidFinishTransaction p db) = connections db"
proof -
  have ok: "scopes_ok db" using inv by (simp add: idb_inv_def)
  then have part: "list_set.partition (queued_transactions db) (started_transactions db)"
    by (simp add: scopes_ok_def)
  then have lsok: "list_set_ok (queued_transactions db)" "list_set_ok (started_transactions db)"
    by (simp_all add: list_set.partition_def)
  define db1 where "db1 = (if count_of p (queued_transactions db) \<noteq> 0
    then db\<lparr>queued_transactions := erase p (queued_transactions db)\<rparr>
    else db\<lparr>started_transactions := erase p (started_transactions db)\<rparr>)"
  have q1: "items (queued_transactions db1) = removeAll p (items (queued_transactions db))"
    using lsok list_set.occurrences [of "queued_transactions db" p]
    by (auto simp: db1_def list_set.remove split: if_splits)
  have s1: "items (started_transactions db1) = removeAll p (items (started_transactions db))"
    using lsok part list_set.occurrences [of "queued_transactions db" p]
    by (auto simp: db1_def list_set.remove list_set.partition_def disjoint_iff removeAll_id split: if_splits)
  have p1: "list_set.partition (queued_transactions db1) (started_transactions db1)"
    using list_set.drop [OF part] by (simp add: db1_def)
  have same: "heap db1 = heap db" "live db1 = live db" "next_object db1 = next_object db"
    "posted db1 = posted db" "notified db1 = notified db" "connections db1 = connections db"
    "connection_transactions db1 = connection_transactions db"
    by (simp_all add: db1_def)
  then have same2: "stores db1 = stores db" "writes db1 = writes db" "outcomes db1 = outcomes db" "failed db1 = failed db"
    by (simp_all add: stores_def writes_def outcomes_def failed_def fun_eq_iff)
  have "scopes_ok db1"
    using ok p1 by (auto simp: scopes_ok_def q1 s1 same same2)
  moreover have "placed db1 q = placed db q" "txn_ok db1 q = txn_ok db q" if "q \<noteq> p" for q
    using that by (simp_all add: placed_def txn_ok_def q1 s1 same same2)
  moreover have "one_outcome db1 q = one_outcome db q" for q by (simp add: one_outcome_def same same2)
  ultimately have inv1: "idb_inv {p} db1" using inv by (simp add: idb_inv_def same)
  have disj: "set (items (queued_transactions db1)) \<inter> {p} = {}" by (simp add: q1)
  note P = ProcessQueued_inv [OF inv1 disj]
  have eq: "DidFinishTransaction p db = ProcessQueuedTransactions db1"
    by (simp add: DidFinishTransaction_def db1_def)
  have "load db1 \<le> load db" by (simp add: load_def q1 same)
  with P show "idb_inv {p} (DidFinishTransaction p db)" "drained (DidFinishTransaction p db)"
    "load (DidFinishTransaction p db) \<le> load db" unfolding eq by auto
  show "idle p (DidFinishTransaction p db)"
    using ProcessQueued_members [of db1] unfolding eq idle_def q1 s1 by auto
  show "heap (DidFinishTransaction p db) p = heap db p"
    using disj unfolding eq by (simp add: same)
  show "notified (DidFinishTransaction p db) = notified db" "outcomes (DidFinishTransaction p db) q = outcomes db q"
    "live (DidFinishTransaction p db) = live db" "next_object (DidFinishTransaction p db) = next_object db"
    "connection_transactions (DidFinishTransaction p db) = connection_transactions db"
    "id_of (heap (DidFinishTransaction p db) q) = id_of (heap db q)"
    "connection_of (heap (DidFinishTransaction p db) q) = connection_of (heap db q)"
    "connections (DidFinishTransaction p db) = connections db"
    unfolding eq by (simp_all add: same same2)
qed

subsection \<open>The map of a connection\<close>

definition key_of :: "IndexedDBDatabase \<Rightarrow> nat \<Rightarrow> int \<times> int" where
  "key_of db p = (connection_of (heap db p), id_of (heap db p))"

text \<open>The detached transactions are those of a connection that is closing.\<close>

definition keys_ok :: "nat set \<Rightarrow> IndexedDBDatabase \<Rightarrow> bool" where
  "keys_ok detached db \<longleftrightarrow>
     (\<forall>p \<in> live db. connection_transactions db (key_of db p) = (if p \<in> detached then None else Some p)) \<and>
     (\<forall>k p. connection_transactions db k = Some p \<longrightarrow> p \<in> live db \<and> key_of db p = k)"

lemma keys_ok_cong:
  assumes "keys_ok Z db" "live db' = live db" "connection_transactions db' = connection_transactions db"
    and "\<And>p. id_of (heap db' p) = id_of (heap db p)"
    and "\<And>p. connection_of (heap db' p) = connection_of (heap db p)"
  shows "keys_ok Z db'"
  using assms by (simp add: keys_ok_def key_of_def)

definition idb_ok :: "nat set \<Rightarrow> IndexedDBDatabase \<Rightarrow> bool" where
  "idb_ok Z db \<longleftrightarrow> idb_inv {} db \<and> drained db \<and> keys_ok Z db"

lemma idb_inv_live:
  assumes "idb_inv X db" "live db' = live db - S" "\<forall>p \<in> S. idle p db"
    and "heap db' = heap db" "next_object db' = next_object db" "posted db' = posted db"
    and "queued_transactions db' = queued_transactions db"
    and "started_transactions db' = started_transactions db" "notified db' = notified db"
  shows "idb_inv X db'"
proof -
  have "stores db' = stores db" "writes db' = writes db" "outcomes db' = outcomes db" "failed db' = failed db"
    using assms by (simp_all add: stores_def writes_def outcomes_def failed_def fun_eq_iff)
  then show ?thesis using assms
    by (auto simp: idb_inv_def scopes_ok_def placed_def txn_ok_def one_outcome_def idle_def)
qed

lemma RemoveTransaction_frame [simp]:
  "heap (RemoveTransaction c tid db) = heap db" "next_object (RemoveTransaction c tid db) = next_object db"
  "queued_transactions (RemoveTransaction c tid db) = queued_transactions db"
  "started_transactions (RemoveTransaction c tid db) = started_transactions db"
  "posted (RemoveTransaction c tid db) = posted db" "notified (RemoveTransaction c tid db) = notified db"
  "outcomes (RemoveTransaction c tid db) p = outcomes db p" "load (RemoveTransaction c tid db) = load db"
  by (auto simp: RemoveTransaction_def outcomes_def load_def split: option.split)

lemma remove_ok:
  assumes inv: "idb_inv {} db" "keys_ok Z db" "drained db" and p: "p \<in> live db" "idle p db"
  shows "idb_ok Z (RemoveTransaction (connection_of (heap db p)) (id_of (heap db p)) db)"
    and "p \<notin> Z \<Longrightarrow>
      live (RemoveTransaction (connection_of (heap db p)) (id_of (heap db p)) db) = live db - {p}"
    and "p \<in> Z \<Longrightarrow> RemoveTransaction (connection_of (heap db p)) (id_of (heap db p)) db = db"
proof -
  let ?db = "RemoveTransaction (connection_of (heap db p)) (id_of (heap db p)) db"
  have k: "connection_transactions db (connection_of (heap db p), id_of (heap db p))
      = (if p \<in> Z then None else Some p)"
    using inv(2) p(1) by (simp add: keys_ok_def key_of_def)
  show Z: "p \<in> Z \<Longrightarrow> ?db = db" using k by (simp add: RemoveTransaction_def)
  show live: "p \<notin> Z \<Longrightarrow> live ?db = live db - {p}" using k by (simp add: RemoveTransaction_def)
  show "idb_ok Z ?db"
  proof (cases "p \<in> Z")
    case True
    then show ?thesis using inv Z by (simp add: idb_ok_def)
  next
    case False
    then have "idb_inv {} ?db" using live p(2) by (intro idb_inv_live [OF inv(1), where S = "{p}"]) simp_all
    moreover have "drained ?db" by (rule drained_cong [OF inv(3)]) simp_all
    moreover have "keys_ok Z ?db"
    proof -
      have "\<And>q. q \<in> live db \<Longrightarrow> q \<noteq> p \<Longrightarrow> key_of db q \<noteq> key_of db p \<or> q \<in> Z"
        using inv(2) k False by (metis keys_ok_def key_of_def option.inject)
      moreover have "\<And>k q. connection_transactions db k = Some q \<Longrightarrow> k \<noteq> key_of db p \<Longrightarrow> q \<noteq> p"
        using inv(2) by (auto simp: keys_ok_def)
      moreover have "connection_transactions ?db = (connection_transactions db)(key_of db p := None)"
        "key_of ?db = key_of db"
        using False k by (simp_all add: RemoveTransaction_def key_of_def fun_eq_iff)
      ultimately show ?thesis
        using inv(2) unfolding keys_ok_def live [OF False] by simp
    qed
    ultimately show ?thesis by (simp add: idb_ok_def)
  qed
qed

subsection \<open>Abort\<close>

lemma settle_finished:
  assumes "idb_inv {p} db" "idle p db" "state_of (heap db p) = FINISHED" "\<not> should_process_queue (heap db p)"
    and "\<not> used (heap db p) \<longrightarrow> IsTaskQueueEmpty (heap db p) \<and> pending_preemptive_events (heap db p) = 0"
    and "outcomes db p = 1" "p < next_object db"
  shows "idb_inv {} db"
  using assms by (intro idb_inv_settle [of p "{}" db])
    (simp_all add: idle_def placed_def txn_ok_def task_ok_def one_outcome_def)

lemma TransactionFinished_frame [simp]:
  "heap (TransactionFinished p b db) = heap db" "next_object (TransactionFinished p b db) = next_object db"
  "queued_transactions (TransactionFinished p b db) = queued_transactions db"
  "started_transactions (TransactionFinished p b db) = started_transactions db"
  "posted (TransactionFinished p b db) = posted db" "live (TransactionFinished p b db) = live db"
  "connection_transactions (TransactionFinished p b db) = connection_transactions db"
  "connections (TransactionFinished p b db) = connections db"
  "outcomes (TransactionFinished p b db) q = outcomes db q" "load (TransactionFinished p b db) = load db"
  by (auto simp: TransactionFinished_def notify_def outcomes_def load_def Let_def)

lemma TransactionFinished_inv: "idb_inv X db \<Longrightarrow> idb_inv X (TransactionFinished p b db)"
  by (auto simp: TransactionFinished_def Let_def intro!: idb_inv_count idb_inv_notify)

lemma run_abort_tasks_frame [simp]:
  "queued_transactions (run_abort_tasks p db) = queued_transactions db"
  "started_transactions (run_abort_tasks p db) = started_transactions db"
  "posted (run_abort_tasks p db) = posted db" "live (run_abort_tasks p db) = live db"
  "next_object (run_abort_tasks p db) = next_object db"
  "connection_transactions (run_abort_tasks p db) = connection_transactions db"
  "heap (run_abort_tasks p db) = (heap db)(p := heap db p\<lparr>abort_task_stack := []\<rparr>)"
  "outcomes (run_abort_tasks p db) q = outcomes db q"
  by (auto simp: run_abort_tasks_def object_defs outcomes_def filter_empty_conv)

lemma run_abort_tasks_inv: "idb_inv {p} db \<Longrightarrow> idb_inv {p} (run_abort_tasks p db)"
  unfolding run_abort_tasks_def by (intro idb_inv_update idb_inv_notify) auto

lemma notify_frame [simp]:
  "heap (notify ns db) = heap db" "queued_transactions (notify ns db) = queued_transactions db"
  "started_transactions (notify ns db) = started_transactions db" "posted (notify ns db) = posted db"
  "live (notify ns db) = live db" "next_object (notify ns db) = next_object db"
  "connection_transactions (notify ns db) = connection_transactions db"
  "connections (notify ns db) = connections db" "load (notify ns db) = load db"
  by (simp_all add: notify_def load_def)

lemma update_object_frame [simp]:
  "heap (update_object p f db) = (heap db)(p := f (heap db p))"
  "queued_transactions (update_object p f db) = queued_transactions db"
  "started_transactions (update_object p f db) = started_transactions db"
  "posted (update_object p f db) = posted db" "live (update_object p f db) = live db"
  "next_object (update_object p f db) = next_object db" "notified (update_object p f db) = notified db"
  "connection_transactions (update_object p f db) = connection_transactions db"
  "connections (update_object p f db) = connections db" "load (update_object p f db) = load db"
  by (simp_all add: update_object_def load_def)

text \<open>The common end of \<open>Abort\<close> and \<open>CommitPhaseTwo\<close>.\<close>

lemma finish_ok:
  assumes inv: "idb_inv {p} db" "drained db" "keys_ok Z db" and p: "p \<in> live db" "idle p db"
    and t: "state_of (heap db p) = FINISHED" "\<not> should_process_queue (heap db p)"
      "\<not> used (heap db p) \<longrightarrow> IsTaskQueueEmpty (heap db p) \<and> pending_preemptive_events (heap db p) = 0"
      "outcomes db p = 1"
    and key: "c = connection_of (heap db p)" "tid = id_of (heap db p)"
  shows "idb_ok Z (RemoveTransaction c tid (TransactionFinished p b db))"
    and "live (RemoveTransaction c tid (TransactionFinished p b db)) = (if p \<in> Z then live db else live db - {p})"
    and "idb_ok Z (TransactionFinished p b db)"
proof -
  let ?db = "TransactionFinished p b db"
  have "p < next_object db" using inv(1) p(1) by (simp add: idb_inv_def scopes_ok_def)
  then have i: "idb_inv {} ?db"
    using t p by (intro settle_finished [of p] TransactionFinished_inv inv(1)) (simp_all add: idle_def)
  have k: "keys_ok Z ?db" by (rule keys_ok_cong [OF inv(3)]) simp_all
  have d: "drained ?db" by (rule drained_cong [OF inv(2)]) simp_all
  have p': "p \<in> live ?db" "idle p ?db" using p by (simp_all add: idle_def)
  show "idb_ok Z ?db" using i k d by (simp add: idb_ok_def)
  show "idb_ok Z (RemoveTransaction c tid ?db)"
    "live (RemoveTransaction c tid ?db) = (if p \<in> Z then live db else live db - {p})"
    using remove_ok [OF i k d p'] key by auto
qed

lemma Abort_ok:
  assumes ok: "idb_ok Z db" and p: "p \<in> live db"
  shows "idb_ok Z (Abort p db) \<and> load (Abort p db) \<le> load db \<and>
    state_of (heap (Abort p db) p) = FINISHED \<and> next_object (Abort p db) = next_object db \<and>
    live (Abort p db) = (if p \<in> Z \<or> state_of (heap db p) = FINISHED then live db else live db - {p})"
proof (cases "state_of (heap db p) = FINISHED")
  case True
  then show ?thesis using ok by (simp add: Abort_def)
next
  case False
  define db1 where "db1 = update_object p (\<lambda>t. t\<lparr>timeout_timer_running := False, state_of := FINISHED,
                       should_process_queue := False\<rparr>) db"
  define db2 where "db2 = (if backing_store_transaction_begun (heap db p) then notify [RolledBack p] db1 else db1)"
  define db4 where "db4 = update_object p (\<lambda>t. CloseOpenCursors (t\<lparr>preemptive_task_queue := [],
                       pending_preemptive_events := 0, task_queue := []\<rparr>)) (run_abort_tasks p db2)"
  define db5 where "db5 = DidFinishTransaction p db4"
  have inv: "idb_inv {} db" "drained db" "keys_ok Z db" using ok by (simp_all add: idb_ok_def)
  have "idb_inv {p} db1" unfolding db1_def
    by (intro idb_inv_update idb_inv_mono [OF inv(1)]) simp_all
  then have "idb_inv {p} db2" by (auto simp: db2_def intro!: idb_inv_notify)
  then have i4: "idb_inv {p} db4"
    unfolding db4_def by (intro idb_inv_update run_abort_tasks_inv) (simp_all add: CloseOpenCursors_def)
  have "outcomes db p = 0" using inv(1) p False by (simp add: idb_inv_def one_outcome_def)
  then have o: "outcomes db4 p = 0" by (simp add: db4_def db2_def db1_def)
  note D = DidFinish_inv [OF i4, folded db5_def]
  have same: "live db4 = live db" "next_object db4 = next_object db" "load db4 = load db"
    "connection_transactions db4 = connection_transactions db"
    "id_of (heap db4 q) = id_of (heap db q)" "connection_of (heap db4 q) = connection_of (heap db q)" for q
    by (auto simp: db4_def db2_def db1_def CloseOpenCursors_def load_def)
  have "keys_ok Z db4" by (rule keys_ok_cong [OF inv(3)]) (simp_all add: same)
  then have k5: "keys_ok Z (notify [OnAbort p] db5)"
    by (rule keys_ok_cong) (simp_all add: D)
  have i5: "idb_inv {p} (notify [OnAbort p] db5)" using D(1) by (rule idb_inv_notify) auto
  have d5: "drained (notify [OnAbort p] db5)" by (rule drained_cong [OF D(2)]) simp_all
  have eq: "Abort p db = RemoveTransaction (connection_of (heap db p)) (id_of (heap db p))
      (TransactionFinished p False (notify [OnAbort p] db5))"
    using False by (simp add: Abort_def db1_def db2_def db4_def db5_def Let_def)
  have t: "state_of (heap db5 p) = FINISHED" "\<not> should_process_queue (heap db5 p)"
    "IsTaskQueueEmpty (heap db5 p)" "pending_preemptive_events (heap db5 p) = 0"
    unfolding D(5) by (auto simp: db4_def db2_def db1_def CloseOpenCursors_def IsTaskQueueEmpty_def)
  have lv: "p \<in> live (notify [OnAbort p] db5)" "idle p (notify [OnAbort p] db5)"
    using p D(4,8) same by (simp_all add: idle_def)
  have "idb_ok Z (Abort p db)" "live (Abort p db) = (if p \<in> Z then live db5 else live db5 - {p})"
    unfolding eq using finish_ok(1,2) [OF i5 d5 k5 lv] t o D(6,11,12) same by simp_all
  then show ?thesis
    using D same t False by (simp add: eq)
qed

end
