(* ===== verification/Idb_Commit_Steps.thy ===== *)
theory Idb_Commit_Steps
  imports Idb_Commit_Inv
begin

text \<open>
  Creation of transactions, the transactions of observers, commits and the processing of task
  queues preserve the invariant.
\<close>

subsection \<open>Creation\<close>

lemma started_grow: "set (items (started_transactions db)) \<subseteq> set (items (started_transactions (process_queue qs l db)))"
proof (induction qs l db rule: process_queue.induct)
  case (2 p queue locked db)
  have "set (items s) \<subseteq> set (items (insert_back p s))" for s :: "nat list_set"
    by (auto simp: insert_back_def)
  from this [of "started_transactions db"] 2 show ?case by (auto simp: Let_def split: if_splits)
qed simp

lemma ProcessQueued_grow:
  "set (items (started_transactions db)) \<subseteq> set (items (started_transactions (ProcessQueuedTransactions db)))"
  using started_grow by (simp add: ProcessQueuedTransactions_def)

lemma create_object:
  assumes inv: "idb_inv X db" "keys_ok {} db" "drained db"
    and create: "Connection_CreateTransaction c tid ids mode db = Inr (p, db1)" and ids: "ordered_ids ids"
  shows "idb_inv (insert p X) db1" "keys_ok {} db1" "drained db1" "idle p db1" "p \<in> live db1" "live db1 = insert p (live db)"
    "p \<notin> live db" "heap db1 p = IndexedDBTransaction_new tid c ids mode" "load db1 = load db"
    "q \<noteq> p \<Longrightarrow> heap db1 q = heap db q" "outcomes db1 q = outcomes db q" "p = next_object db"
    "queued_transactions db1 = queued_transactions db" "started_transactions db1 = started_transactions db"
    "p < next_object db1"
proof -
  have db1: "p = next_object db" "db1 = db\<lparr>heap := (heap db)(p := IndexedDBTransaction_new tid c ids mode),
      live := insert p (live db), next_object := p + 1,
      connection_transactions := (connection_transactions db)((c, tid) \<mapsto> p)\<rparr>"
    and none: "connection_transactions db (c, tid) = None"
    using create by (auto simp: Connection_CreateTransaction_def GetTransaction_def Let_def split: if_splits)
  have ok: "scopes_ok db" using inv(1) by (simp add: idb_inv_def)
  show fresh: "p \<notin> live db" using ok by (auto simp: scopes_ok_def db1(1))
  then have idle: "idle p db" using ok by (auto simp: scopes_ok_def idle_def)
  show "p = next_object db" "idle p db1" "p \<in> live db1" "live db1 = insert p (live db)"
    "heap db1 p = IndexedDBTransaction_new tid c ids mode"
    "load db1 = load db" "q \<noteq> p \<Longrightarrow> heap db1 q = heap db q" "outcomes db1 q = outcomes db q"
    "queued_transactions db1 = queued_transactions db" "started_transactions db1 = started_transactions db"
    "p < next_object db1"
    using idle by (simp_all add: db1 idle_def load_def outcomes_def)
  have v: "stores db1 q = stores db q" "writes db1 q = writes db q" if "q \<noteq> p" for q
    using that by (simp_all add: db1(2) stores_def writes_def)
  have mem: "q \<noteq> p" if "q \<in> set (items (queued_transactions db)) \<union> set (items (started_transactions db))" for q
    using idle that by (auto simp: idle_def)
  have lt: "\<forall>q \<in> live db. q < p" using ok by (simp add: scopes_ok_def db1(1))
  have "scopes_ok db1"
    using ok v mem ids lt unfolding scopes_ok_def
    by (auto simp: db1(2) stores_def writes_def IndexedDBTransaction_new_def)
  moreover have "placed db1 q = placed db q" "txn_ok db1 q = txn_ok db q" if "q \<noteq> p" for q
    using that by (simp_all add: placed_def txn_ok_def failed_def db1(2))
  moreover have "one_outcome db1 q" if "q \<notin> insert p X" for q
    using inv(1) that by (auto simp: one_outcome_def outcomes_def db1 idb_inv_def less_Suc_eq)
  ultimately show "idb_inv (insert p X) db1"
    using inv(1) by (auto simp: idb_inv_def db1(2))
  have "(c, tid) \<noteq> key_of db q" if "q \<in> live db" for q
    using inv(2) none that by (auto simp: keys_ok_def)
  moreover have "key_of db1 q = key_of db q" if "q \<noteq> p" for q using that by (simp add: key_of_def db1(2))
  moreover have "key_of db1 p = (c, tid)" by (simp add: key_of_def db1(2) IndexedDBTransaction_new_def)
  ultimately show "keys_ok {} db1" using inv(2) fresh
    by (auto simp: keys_ok_def db1(2)) (metis option.inject)+
  have "blocked db1 xs q = blocked db xs q"
    if "items (queued_transactions db) = xs @ q # ys" for xs q ys
  proof -
    have other: "q \<noteq> p" "\<forall>r \<in> set (items (started_transactions db)) \<union> set xs. r \<noteq> p" using mem that by auto
    have "conflict db1 q (set (items (started_transactions db)) \<union> set xs)
        = conflict db q (set (items (started_transactions db)) \<union> set xs)"
      unfolding conflict_def using other v by (intro bex_cong refl) simp
    moreover have "mode_of (heap db1 q) = mode_of (heap db q)" "started_transactions db1 = started_transactions db"
      using other(1) by (simp_all add: db1(2))
    ultimately show ?thesis by (simp add: blocked_def)
  qed
  then show "drained db1" using inv(3) by (auto simp: drained_def db1(2))
qed

lemma keys_ok_process: "keys_ok Z db \<Longrightarrow> keys_ok Z (ProcessQueuedTransactions db)"
  by (erule keys_ok_cong) simp_all

lemma CreateTransaction_ok:
  assumes ok: "idb_ok {} db" and create: "CreateTransaction tid c ids mode db = Inr (p, db')"
  shows "idb_ok {} db'" "p \<in> live db'"
proof -
  obtain db1 where c1: "Connection_CreateTransaction c tid (set_insert_range ids []) mode db = Inr (p, db1)"
    and db': "db' = TransactionCreated p db1"
    using create by (auto simp: CreateTransaction_def bindE_eq_Inr)
  have "ordered_ids (set_insert_range ids [])" by (rule ordered_insert_range) (simp add: ordered_ids_def)
  note C = create_object [OF _ _ _ c1 this, of "{}"]
  have inv: "idb_inv {} db" "drained db" "keys_ok {} db" using ok by (simp_all add: idb_ok_def)
  note C = C [OF inv(1,3,2)]
  define db2 where "db2 = db1\<lparr>transaction_count := transaction_count db1 + 1,
     queued_transactions := insert_back p (queued_transactions db1)\<rparr>"
  have ok1: "scopes_ok db1" and part: "list_set.partition (queued_transactions db1) (started_transactions db1)"
    using C(1) by (simp_all add: idb_inv_def scopes_ok_def)
  have q2: "items (insert_back p (queued_transactions db1)) = items (queued_transactions db1) @ [p]"
    using part C(4) by (simp add: list_set.put_back list_set.partition_def idle_def)
  have "list_set.partition (insert_back p (queued_transactions db1)) (started_transactions db1)"
    using list_set.add(1) [OF part] C(4) by (simp add: idle_def)
  then have s2: "scopes_ok db2"
    using ok1 C(5) by (auto simp: scopes_ok_def db2_def q2 stores_def writes_def)
  have "placed db2 q = placed db1 q" "txn_ok db2 q = txn_ok db1 q" "one_outcome db2 q = one_outcome db1 q"
    if "q \<noteq> p" for q
    using that by (simp_all add: placed_def txn_ok_def failed_def one_outcome_def outcomes_def db2_def q2)
  with C(1) s2 have i2: "idb_inv {p} db2" by (simp add: idb_inv_def db2_def)
  have new: "heap db2 p = IndexedDBTransaction_new tid c (set_insert_range ids []) mode"
    using C(8) by (simp add: db2_def)
  have "outcomes db p = 0" using inv(1) C(12) by (simp add: idb_inv_def one_outcome_def)
  then have "one_outcome db2 p" using C(11) new by (simp add: one_outcome_def db2_def outcomes_def IndexedDBTransaction_new_def)
  moreover have "placed db2 p" "txn_ok db2 p"
    using C(4) by (auto simp: placed_def txn_ok_def task_ok_def new IndexedDBTransaction_new_def
        IsTaskQueueEmpty_def HasPendingTasks_def) (auto simp: db2_def q2 idle_def)
  ultimately have i: "idb_inv {} db2" using i2 by (blast intro: idb_inv_settle)
  have "db' = ProcessQueuedTransactions db2"
    by (simp add: db' TransactionCreated_def DidCreateTransaction_def db2_def)
  moreover have "keys_ok {} db2" by (rule keys_ok_cong [OF C(2)]) (simp_all add: db2_def)
  ultimately show "idb_ok {} db'" "p \<in> live db'"
    using ProcessQueued_inv [OF i] C(5) by (simp_all add: idb_ok_def keys_ok_process db2_def)
qed

subsection \<open>Transactions of observers\<close>

text \<open>States between the finish of a transaction and the report of its outcome.\<close>

definition midway :: "nat \<Rightarrow> IndexedDBDatabase \<Rightarrow> bool" where
  "midway p db \<longleftrightarrow> idb_inv {p} db \<and> drained db \<and> keys_ok {} db \<and> idle p db \<and> p \<in> live db"

definition onward :: "nat \<Rightarrow> IndexedDBDatabase \<Rightarrow> IndexedDBDatabase \<Rightarrow> bool" where
  "onward p db db' \<longleftrightarrow> midway p db' \<and> load db' \<le> load db \<and> heap db' p = heap db p \<and>
     outcomes db' p = outcomes db p \<and> live db \<subseteq> live db'"

lemma onward_refl: "midway p db \<Longrightarrow> onward p db db"
  by (simp add: onward_def)

lemma onward_trans: "onward p db db' \<Longrightarrow> onward p db' db'' \<Longrightarrow> onward p db db''"
  unfolding onward_def by (auto intro: order_trans)

lemma onward_notify:
  "midway p db \<Longrightarrow> (\<And>q. OnComplete q \<notin> set ns \<and> OnAbort q \<notin> set ns) \<Longrightarrow> onward p db (notify ns db)"
proof -
  assume m: "midway p db" and ns: "\<And>q. OnComplete q \<notin> set ns \<and> OnAbort q \<notin> set ns"
  have "filter (\<lambda>n. n = OnComplete p \<or> n = OnAbort p) ns = []" using ns by (auto simp: filter_empty_conv)
  moreover have "idb_inv {p} (notify ns db)" using m ns by (intro idb_inv_notify) (auto simp: midway_def)
  moreover have "drained (notify ns db)"
    by (rule drained_cong [of db]) (use m in \<open>simp_all add: midway_def\<close>)
  moreover have "keys_ok {} (notify ns db)"
    by (rule keys_ok_cong [of _ db]) (use m in \<open>simp_all add: midway_def\<close>)
  ultimately show ?thesis using m by (simp add: onward_def midway_def idle_def)
qed

lemma observer_started:
  assumes mid: "midway p db"
    and create: "Connection_CreateTransaction c tid ids ReadOnly db = Inr (q, db1)" and ids: "ordered_ids ids"
  defines "db2 \<equiv> DidCreateObserverTransaction q db1"
  shows "onward p db (GrabSnapshotThenStart q (db2\<lparr>transaction_count := n\<rparr>))"
proof -
  note C = create_object [OF _ _ _ create ids, of "{p}"]
  have mids: "idb_inv {p} db" "drained db" "keys_ok {} db" "idle p db" "p \<in> live db"
    using mid by (simp_all add: midway_def)
  note C = C [OF mids(1,3,2)]
  have qp: "q \<noteq> p" using C(7) mids(5) by blast
  define db1' where "db1' = db1\<lparr>started_transactions := insert_front q (started_transactions db1)\<rparr>"
  have part: "list_set.partition (queued_transactions db1) (started_transactions db1)"
    using C(1) by (simp add: idb_inv_def scopes_ok_def)
  have s1: "items (started_transactions db1') = q # items (started_transactions db1)"
    using part C(4) by (simp add: db1'_def list_set.put_front list_set.partition_def idle_def)
  have ro: "\<not> writes db1 q" using C(8) by (simp add: writes_def IndexedDBTransaction_new_def)
  have "list_set.partition (queued_transactions db1') (started_transactions db1')"
    using list_set.add(2) [OF part] C(4) by (simp add: db1'_def idle_def)
  moreover have "scopes_ok db1" using C(1) by (simp add: idb_inv_def)
  ultimately have "scopes_ok db1'"
    unfolding scopes_ok_def s1 using C(5) ro by (auto simp: db1'_def stores_def writes_def)
  moreover have "placed db1' r = placed db1 r" "txn_ok db1' r = txn_ok db1 r" "one_outcome db1' r = one_outcome db1 r"
    if "r \<noteq> q" for r
    using that s1 by (simp_all add: placed_def txn_ok_def failed_def one_outcome_def outcomes_def db1'_def)
  ultimately have i1: "idb_inv {q, p} db1'" using C(1) by (simp add: idb_inv_def db1'_def)
  have disj: "set (items (queued_transactions db1')) \<inter> {q, p} = {}"
    using C(4,13) mids(4) by (auto simp: db1'_def idle_def)
  note P = ProcessQueued_inv [OF i1 disj]
  have db2: "db2 = ProcessQueuedTransactions db1'" by (simp add: db2_def DidCreateObserverTransaction_def db1'_def)
  define db3 where "db3 = db2\<lparr>transaction_count := n\<rparr>"
  define db4 where "db4 = update_object q (\<lambda>t. t\<lparr>backing_store_transaction_begun := True\<rparr>) db3"
  have i3: "idb_inv {q, p} db3" unfolding db3_def db2 by (rule idb_inv_count) (rule P(1))
  then have i4: "idb_inv {q, p} db4" unfolding db4_def by (intro idb_inv_update) simp_all
  then have i5: "idb_inv {q, p} (Start q db4)" by (rule idb_inv_Start) simp
  have notin: "q \<notin> set (items (queued_transactions db1'))" "p \<notin> set (items (queued_transactions db1'))"
    using disj by auto
  have heapq: "heap db4 q = (IndexedDBTransaction_new tid c ids ReadOnly)\<lparr>backing_store_transaction_begun := True\<rparr>"
    using notin C(8) by (simp add: db4_def db3_def db2) (simp add: db1'_def)
  have heapp: "heap db4 p = heap db p"
    using notin qp C(10) [of p] by (simp add: db4_def db3_def db2) (simp add: db1'_def)
  have started: "q \<in> set (items (started_transactions db2))" "q \<notin> set (items (queued_transactions db2))"
    "idle p db2"
    using ProcessQueued_grow [of db1'] ProcessQueued_members [of db1'] s1 notin mids(4) qp C(13,14)
    by (auto simp: db2 idle_def)
  have o: "outcomes (Start q db4) r = outcomes db r" for r
    using C(11) by (simp add: db4_def db3_def db2) (simp add: db1'_def)
  have "outcomes db q = 0"
    using mids(1) C(12) qp by (simp add: idb_inv_def one_outcome_def)
  then have oq: "one_outcome (Start q db4) q" using o by (simp add: one_outcome_def)
  have pq: "placed (Start q db4) q" using started by (simp add: placed_def db4_def db3_def)
  have "txn_ok (Start q db4) q"
    by (intro txn_ok_Start) (simp_all add: heapq txn_ok_def task_ok_def IndexedDBTransaction_new_def
        IsTaskQueueEmpty_def HasPendingTasks_def)
  with i5 oq pq have inv: "idb_inv {p} (Start q db4)" by (blast intro: idb_inv_settle)
  have "drained db4"
    by (rule drained_cong [OF P(2)]) (simp_all add: db4_def db3_def db2)
  then have dr: "drained (Start q db4)" by (rule drained_cong) simp_all
  have "keys_ok {} db4"
    by (rule keys_ok_cong [OF C(2)]) (simp_all add: db4_def db3_def db2, simp_all add: db1'_def)
  then have ks: "keys_ok {} (Start q db4)" by (rule keys_ok_cong) simp_all
  have lv: "live (Start q db4) = insert q (live db)"
    using C(6) by (simp add: db4_def db3_def db2) (simp add: db1'_def)
  have post: "posted (Start q db4) = posted db4"
    using heapq by (simp add: Start_def object_defs Let_def IndexedDBTransaction_new_def)
  have "load (Start q db4) \<le> load db1'"
    using P(3) post by (simp add: load_def db4_def db3_def db2)
  then have "load (Start q db4) \<le> load db"
    using C(9) by (simp add: load_def db1'_def)
  then show ?thesis
    using inv dr ks lv o heapp qp started(3) mids(5)
    by (simp add: onward_def midway_def GrabSnapshotThenStart_def db3_def db4_def idle_def subset_insertI)
qed

lemma start_observers_ok:
  "start_observers c m db = Inr db' \<Longrightarrow> midway p db \<Longrightarrow> onward p db db'"
proof (induction c m db arbitrary: db' rule: start_observers.induct)
  case (1 c db)
  then show ?case by (simp add: onward_refl)
next
  case (2 c observer_id tid ids m db db')
  obtain q db1 where c: "Connection_CreateTransaction c tid (set_insert_range ids []) ReadOnly db = Inr (q, db1)"
    and rest: "start_observers c m (GrabSnapshotThenStart q ((DidCreateObserverTransaction q db1)\<lparr>
      transaction_count := transaction_count (DidCreateObserverTransaction q db1) + 1\<rparr>)) = Inr db'"
    using 2(2) by (auto simp: bindE_eq_Inr Let_def)
  have "ordered_ids (set_insert_range ids [])" by (rule ordered_insert_range) (simp add: ordered_ids_def)
  note o = observer_started [OF 2(3) c this]
  then have "onward p (GrabSnapshotThenStart q ((DidCreateObserverTransaction q db1)\<lparr>
      transaction_count := transaction_count (DidCreateObserverTransaction q db1) + 1\<rparr>)) db'"
    by (intro 2(1) [OF c refl refl refl rest]) (simp add: onward_def)
  with o show ?case by (rule onward_trans)
qed

lemma SendObservations_ok:
  "SendObservations cs changes db = Inr db' \<Longrightarrow> midway p db \<Longrightarrow> onward p db db'"
proof (induction cs changes db arbitrary: db' rule: SendObservations.induct)
  case (1 changes db)
  then show ?case by (simp add: onward_refl)
next
  case (2 c cs changes db db')
  show ?case
  proof (cases "map_of changes c")
    case None
    then show ?thesis using 2 by simp
  next
    case (Some ch)
    obtain db1 where s: "start_observers c (transaction_map ch) db = Inr db1"
      and rest: "SendObservations cs changes (notify [OnDatabaseChange c] db1) = Inr db'"
      using 2(3) Some by (auto simp: bindE_eq_Inr)
    have o1: "onward p db db1" by (rule start_observers_ok [OF s 2(4)])
    then have o2: "onward p db1 (notify [OnDatabaseChange c] db1)" by (intro onward_notify) (auto simp: onward_def)
    then have "onward p (notify [OnDatabaseChange c] db1) db'"
      by (intro 2(2) [OF Some s rest]) (simp add: onward_def)
    with o1 o2 show ?thesis by (blast intro: onward_trans)
  qed
qed

subsection \<open>Commit\<close>

lemma Activate_frame [simp]:
  "heap (ActivatePendingObservers c os db) = heap db" "posted (ActivatePendingObservers c os db) = posted db"
  "queued_transactions (ActivatePendingObservers c os db) = queued_transactions db"
  "started_transactions (ActivatePendingObservers c os db) = started_transactions db"
  "live (ActivatePendingObservers c os db) = live db" "load (ActivatePendingObservers c os db) = load db"
  "next_object (ActivatePendingObservers c os db) = next_object db"
  "connection_transactions (ActivatePendingObservers c os db) = connection_transactions db"
  "outcomes (ActivatePendingObservers c os db) p = outcomes db p"
  "failed (ActivatePendingObservers c os db) = failed db"
  by (simp_all add: ActivatePendingObservers_def load_def outcomes_def failed_def)

lemma Activate_inv: "idb_inv X db \<Longrightarrow> idb_inv X (ActivatePendingObservers c os db)"
  by (erule idb_inv_frame) simp_all

lemma notify_ok:
  "drained db \<Longrightarrow> drained (notify ns db)" "keys_ok Z db \<Longrightarrow> keys_ok Z (notify ns db)"
  by (erule drained_cong; simp) (erule keys_ok_cong; simp)

lemma update_ok:
  "drained db \<Longrightarrow> (\<And>t. mode_of (f t) = mode_of t \<and> object_store_ids (f t) = object_store_ids t) \<Longrightarrow>
    drained (update_object p f db)"
  "keys_ok Z db \<Longrightarrow> (\<And>t. id_of (f t) = id_of t \<and> connection_of (f t) = connection_of t) \<Longrightarrow>
    keys_ok Z (update_object p f db)"
  by (erule drained_cong; simp) (erule keys_ok_cong; simp)

lemma CommitPhaseTwo_ok:
  assumes ok: "idb_ok {} db" and p: "p \<in> live db"
    and state: "state_of (heap db p) \<in> {COMMITTING, FINISHED}"
    and commit: "CommitPhaseTwo p env db = Inr (s, db')"
  shows "idb_ok {} db' \<and> load db' \<le> load db \<and> live db - {p} \<subseteq> live db' \<and> state_of (heap db' p) = FINISHED"
proof (cases "state_of (heap db p) = FINISHED")
  case True
  then show ?thesis using ok commit by (auto simp: CommitPhaseTwo_def)
next
  case False
  have inv: "idb_inv {} db" "drained db" "keys_ok {} db" using ok by (simp_all add: idb_ok_def)
  have txn: "txn_ok db p" "one_outcome db p" using inv(1) p by (simp_all add: idb_inv_def)
  have unused: "\<not> should_process_queue (heap db p)"
    "\<not> used (heap db p) \<longrightarrow> IsTaskQueueEmpty (heap db p) \<and> pending_preemptive_events (heap db p) = 0"
    using txn(1) state False by (auto simp: txn_ok_def task_ok_def)
  have zero: "outcomes db p = 0" using txn(2) False by (simp add: one_outcome_def)
  define t where "t = heap db p"
  define db1 where "db1 = update_object p (\<lambda>t. CloseOpenCursors (t\<lparr>state_of := FINISHED\<rparr>)) db"
  define db2 where "db2 = DidFinishTransaction p db1"
  have i1: "idb_inv {p} db1" unfolding db1_def
    by (intro idb_inv_update idb_inv_mono [OF inv(1)]) (simp_all add: CloseOpenCursors_def)
  note D = DidFinish_inv [OF i1, folded db2_def]
  have k1: "keys_ok {} db1" unfolding db1_def by (rule update_ok(2) [OF inv(3)]) (simp add: CloseOpenCursors_def)
  have k2: "keys_ok {} db2" by (rule keys_ok_cong [OF k1]) (simp_all add: D)
  have h2: "heap db2 p = CloseOpenCursors (t\<lparr>state_of := FINISHED\<rparr>)" unfolding D(5) by (simp add: db1_def t_def)
  have mid2: "midway p db2" using D k2 p by (simp add: midway_def db1_def)
  define s' where "s' = (if \<not> used t then StatusOK else phase_two env)"
  show ?thesis
  proof (cases "s' = StatusOK")
    case True
    define db3 where "db3 = update_object p (\<lambda>t. t\<lparr>abort_task_stack := [], connection_changes_map := []\<rparr>) db2"
    obtain db4 where send: "SendObservations (connections db3) (connection_changes_map t) db3 = Inr db4"
      and db': "db' = RemoveTransaction (connection_of t) (id_of t) (TransactionFinished p True
        (ActivatePendingObservers (connection_of t) (pending_observers t) (notify [OnComplete p] db4)))"
      using commit True False unfolding CommitPhaseTwo_def
      by (auto simp: t_def [symmetric] s'_def [symmetric] db1_def [symmetric] db2_def [symmetric]
          db3_def [symmetric] Let_def bindE_eq_Inr)
    have mid3: "midway p db3"
      using mid2 unfolding midway_def db3_def
      by (auto simp: idle_def intro!: idb_inv_update update_ok)
    have o: "onward p db3 db4" by (rule SendObservations_ok [OF send mid3])
    define db5 where "db5 = ActivatePendingObservers (connection_of t) (pending_observers t) (notify [OnComplete p] db4)"
    have m4: "idb_inv {p} db4" "drained db4" "keys_ok {} db4" "idle p db4" "p \<in> live db4"
      using o by (simp_all add: onward_def midway_def)
    have i5: "idb_inv {p} db5" unfolding db5_def by (intro Activate_inv idb_inv_notify m4(1)) simp
    have d5: "drained db5" by (rule drained_cong [OF m4(2)]) (simp_all add: db5_def)
    have k5: "keys_ok {} db5" by (rule keys_ok_cong [OF m4(3)]) (simp_all add: db5_def)
    have l5: "p \<in> live db5" "idle p db5" using m4(4,5) by (simp_all add: db5_def idle_def)
    have h5: "heap db5 p = (CloseOpenCursors (t\<lparr>state_of := FINISHED\<rparr>))\<lparr>abort_task_stack := [], connection_changes_map := []\<rparr>"
      using o by (simp add: db5_def onward_def db3_def h2)
    have "outcomes db5 p = 1"
      using o D(6) zero by (simp add: db5_def onward_def db3_def) (simp add: db1_def)
    then have "idb_ok {} db'" "live db' = live db5 - {p}"
      unfolding db' db5_def [symmetric]
      using finish_ok(1,2) [OF i5 d5 k5 l5, of "connection_of t" "id_of t" True] unused [folded t_def]
      by (simp_all add: h5 CloseOpenCursors_def IsTaskQueueEmpty_def)
    moreover have "load db' \<le> load db"
      using o D(3) by (simp add: db' onward_def db3_def db1_def)
    moreover have "live db - {p} \<subseteq> live db5 - {p}"
      using o D(8) by (auto simp: db5_def onward_def db3_def db1_def)
    moreover have "state_of (heap db' p) = FINISHED"
      using h5 by (simp add: db' db5_def CloseOpenCursors_def)
    ultimately show ?thesis by simp
  next
    case failure: False
    define db3 where "db3 = notify [OnAbort p] (run_abort_tasks p db2)"
    have db': "db' = TransactionFinished p False db3"
      using commit failure False unfolding CommitPhaseTwo_def
      by (simp add: t_def [symmetric] s'_def [symmetric] db1_def [symmetric] db2_def [symmetric] db3_def Let_def)
    have i3: "idb_inv {p} db3" unfolding db3_def by (intro idb_inv_notify run_abort_tasks_inv D(1)) simp
    have d3: "drained db3" by (rule drained_cong [OF D(2)]) (simp_all add: db3_def)
    have k3: "keys_ok {} db3" by (rule keys_ok_cong [OF k2]) (simp_all add: db3_def)
    have l3: "p \<in> live db3" "idle p db3" using mid2 by (simp_all add: db3_def midway_def idle_def)
    have "outcomes db3 p = 1" using D(6) zero by (simp add: db3_def) (simp add: db1_def)
    moreover have h3: "heap db3 p = (CloseOpenCursors (t\<lparr>state_of := FINISHED\<rparr>))\<lparr>abort_task_stack := []\<rparr>"
      by (simp add: db3_def h2)
    ultimately have "idb_ok {} db'"
      unfolding db' using unused
      by (intro finish_ok(3) [OF i3 d3 k3 l3, where c = "connection_of (heap db3 p)" and tid = "id_of (heap db3 p)"])
        (simp_all add: h3 CloseOpenCursors_def t_def IsTaskQueueEmpty_def)
    moreover have "load db' \<le> load db" using D(3) by (simp add: db' db3_def load_def db1_def)
    moreover have "live db' = live db" using D(8) by (simp add: db' db3_def db1_def)
    moreover have "state_of (heap db' p) = FINISHED" using h3 by (simp add: db' CloseOpenCursors_def)
    ultimately show ?thesis by auto
  qed
qed

end
