(* ===== verification/Idb_Commit_Reach.thy ===== *)
theory Idb_Commit_Reach
  imports Idb_Commit_Steps
begin

text \<open>
  The requests of the front-end, the tasks of the sequence and the answers of the backing store
  preserve the invariant, and so every state they lead to satisfies it.
\<close>

subsection \<open>Requests\<close>

lemma commit_settle:
  assumes "idb_inv {p} db" "drained db" "keys_ok {} db" "placed db p" "one_outcome db p" "txn_ok db p"
  shows "idb_ok {} db"
  using assms by (auto simp: idb_ok_def intro: idb_inv_settle)

lemma idb_ok_parts:
  assumes "idb_ok {} db"
  shows "idb_inv {p} db" "drained db" "keys_ok {} db" "p \<in> live db \<Longrightarrow> placed db p"
    "one_outcome db p" "p \<in> live db \<Longrightarrow> txn_ok db p"
  using assms idb_inv_mono [of "{}" db "{p}"] by (simp_all add: idb_ok_def idb_inv_def)

text \<open>Changes of one transaction that keep its place.\<close>

lemma update_settle:
  assumes ok: "idb_ok {} db" and p: "p \<in> live db"
    and same: "mode_of (f (heap db p)) = mode_of (heap db p)" "object_store_ids (f (heap db p)) = object_store_ids (heap db p)"
      "id_of (f (heap db p)) = id_of (heap db p)" "connection_of (f (heap db p)) = connection_of (heap db p)"
      "state_of (f (heap db p)) = state_of (heap db p)"
    and task: "task_ok (PostedProcessTaskQueue p \<in> set (posted db)) (PostedCommitUnused p \<in> set (posted db))
      (failed db) (heap db p) \<Longrightarrow>
      task_ok (PostedProcessTaskQueue p \<in> set (posted db)) (PostedCommitUnused p \<in> set (posted db))
      (failed db) (f (heap db p))"
  shows "idb_ok {} (update_object p f db)"
proof -
  note P = idb_ok_parts [OF ok]
  have "idb_inv {p} (update_object p f db)" using same by (intro idb_inv_update P) simp_all
  moreover have "drained (update_object p f db)" by (rule drained_cong [OF P(2)]) (simp_all add: same)
  moreover have "keys_ok {} (update_object p f db)" by (rule keys_ok_cong [OF P(3)]) (simp_all add: same)
  moreover have "placed (update_object p f db) p" "one_outcome (update_object p f db) p"
    using P(4-5) p same by (simp_all add: placed_def one_outcome_def)
  moreover have "txn_ok (update_object p f db) p"
    using P(6) p task by (simp add: txn_ok_def failed_def)
  ultimately show ?thesis by (rule commit_settle)
qed

lemma ScheduleTask_ok:
  assumes ok: "idb_ok {} db" and p: "p \<in> live db" and state: "state_of (heap db p) \<noteq> COMMITTING"
  shows "idb_ok {} (ScheduleTask type task p db)" "live (ScheduleTask type task p db) = live db"
proof -
  note P = idb_ok_parts [OF ok]
  have t: "task_ok (PostedProcessTaskQueue p \<in> set (posted db)) (PostedCommitUnused p \<in> set (posted db))
      (failed db) (heap db p)" using P(6) p by (simp add: txn_ok_def)
  have pl: "placed db p" "one_outcome db p" using P p by simp_all
  define f :: "IndexedDBTransaction \<Rightarrow> IndexedDBTransaction" where "f = (\<lambda>t. (let t1 = t\<lparr>timeout_timer_running := False, used := True\<rparr>
         in case type of
              NormalTask \<Rightarrow> t1\<lparr>task_queue := task_queue t1 @ [task], tasks_scheduled := tasks_scheduled t1 + 1\<rparr>
            | PreemptiveTask \<Rightarrow> t1\<lparr>preemptive_task_queue := preemptive_task_queue t1 @ [task]\<rparr>))"
  have f: "mode_of (f t) = mode_of t" "object_store_ids (f t) = object_store_ids t" "id_of (f t) = id_of t"
    "connection_of (f t) = connection_of t" "state_of (f t) = state_of t" "\<not> IsTaskQueueEmpty (f t)"
    "used (f t)" "pending_preemptive_events (f t) = pending_preemptive_events t"
    "should_process_queue (f t) = should_process_queue t" for t
    by (simp_all add: f_def Let_def IsTaskQueueEmpty_def split: WebIDBTaskType.split)
  define db1 where "db1 = update_object p f db"
  have eq: "ScheduleTask type task p db = (if state_of (heap db p) = FINISHED then db else RunTasksIfStarted p db1)"
    by (simp add: ScheduleTask_def db1_def f_def)
  show "live (ScheduleTask type task p db) = live db"
    by (simp add: eq RunTasksIfStarted_def PostTask_def db1_def)
  have i1: "idb_inv {p} db1" "drained db1" "keys_ok {} db1"
    unfolding db1_def using f by (auto intro!: idb_inv_update update_ok P)
  have st: "state_of (heap db1 p) = state_of (heap db p)" by (simp add: db1_def f)
  show "idb_ok {} (ScheduleTask type task p db)"
  proof (cases "state_of (heap db p) = STARTED \<and> \<not> should_process_queue (heap db p)")
    case True
    define db2 where "db2 = PostTask (PostedProcessTaskQueue p) (update_object p (\<lambda>t. t\<lparr>should_process_queue := True\<rparr>) db1)"
    have "ScheduleTask type task p db = db2"
      using True by (simp add: eq RunTasksIfStarted_def db2_def db1_def f)
    moreover have "idb_inv {p} db2" unfolding db2_def by (intro idb_inv_post idb_inv_update i1) simp_all
    moreover have "drained db2" by (rule drained_cong [OF i1(2)]) (simp_all add: db2_def PostTask_def)
    moreover have "keys_ok {} db2" by (rule keys_ok_cong [OF i1(3)]) (simp_all add: db2_def PostTask_def)
    moreover have "placed db2 p" using pl(1) st True by (simp add: placed_def db2_def db1_def PostTask_def)
    moreover have "one_outcome db2 p" using pl(2) True f(5)
      by (simp add: one_outcome_def db2_def db1_def PostTask_def outcomes_def)
    moreover have "txn_ok db2 p" using True f
      by (simp add: txn_ok_def task_ok_def db2_def db1_def PostTask_def IsTaskQueueEmpty_def)
    ultimately show ?thesis by (simp add: commit_settle)
  next
    case False
    have "RunTasksIfStarted p db1 = db1" using False by (auto simp: RunTasksIfStarted_def db1_def f)
    moreover have "txn_ok db1 p" if "state_of (heap db p) \<noteq> FINISHED"
      using False that t state f by (auto simp: txn_ok_def task_ok_def db1_def failed_def)
    moreover have "placed db1 p" "one_outcome db1 p" using pl st
      by (simp_all add: placed_def one_outcome_def db1_def f(5))
    ultimately show ?thesis using ok i1 by (simp add: eq commit_settle)
  qed
qed

lemma BlobWriteComplete_ok:
  assumes ok: "idb_ok {} db" and p: "p \<in> live db"
    and state: "state_of (heap db p) \<in> {COMMITTING, FINISHED}"
    and run: "BlobWriteComplete p result env db = Inr (s, db')"
  shows "idb_ok {} db' \<and> load db' \<le> load db"
proof -
  have n: "idb_ok {} db2 \<Longrightarrow> idb_ok {} (notify [ReportError s] db2)" for db2 s
    by (auto simp: idb_ok_def notify_ok intro!: idb_inv_notify)
  have two: "CommitPhaseTwo p env db = Inr (s', db'') \<Longrightarrow> idb_ok {} db'' \<and> load db'' \<le> load db" for s' db''
    using CommitPhaseTwo_ok [OF ok p state] by blast
  show ?thesis
    using ok run Abort_ok [OF ok p] two n
    by (auto simp: BlobWriteComplete_def bindE_eq_Inr split: if_splits BlobWriteResult.splits)
qed

lemma Commit_ok:
  assumes i: "idb_inv {p} db" "drained db" "keys_ok {} db" "placed db p" "one_outcome db p"
    and p: "p \<in> live db"
    and task: "task_ok (PostedProcessTaskQueue p \<in> set (posted db)) True (failed db) (heap db p)"
    and run: "Commit p env db = Inr (s, db')"
  shows "idb_ok {} db' \<and> load db' \<le> load db"
proof -
  define db1 where "db1 = update_object p (\<lambda>t. t\<lparr>timeout_timer_running := False\<rparr>) db"
  define db2 where "db2 = update_object p (\<lambda>t. t\<lparr>commit_pending := True\<rparr>) db1"
  define db3 where "db3 = update_object p (\<lambda>t. t\<lparr>state_of := COMMITTING\<rparr>) db2"
  note P = i(1-3)
  have i1: "idb_inv {p} db1" "drained db1" "keys_ok {} db1"
    unfolding db1_def by (auto intro!: idb_inv_update update_ok P)
  have i2: "idb_inv {p} db2" "drained db2" "keys_ok {} db2"
    unfolding db2_def by (auto intro!: idb_inv_update update_ok i1)
  have i3: "idb_inv {p} db3" "drained db3" "keys_ok {} db3"
    unfolding db3_def by (auto intro!: idb_inv_update update_ok i2)
  have pl: "placed db1 p" "one_outcome db1 p" "placed db2 p" "one_outcome db2 p"
    using i(4,5) by (simp_all add: placed_def one_outcome_def db1_def db2_def)
  have ld: "load db1 = load db" "load db2 = load db" "load db3 = load db"
    by (simp_all add: db1_def db2_def db3_def)
  have pend: "HasPendingTasks (heap db2 p) = HasPendingTasks (heap db p)"
    by (simp add: db2_def db1_def HasPendingTasks_def IsTaskQueueEmpty_def)
  have st: "state_of (heap db1 p) = state_of (heap db p)" "state_of (heap db2 p) = state_of (heap db p)"
    by (simp_all add: db2_def db1_def)
  have cases: "state_of (heap db p) = FINISHED \<and> db' = db1 \<or>
      state_of (heap db p) \<noteq> FINISHED \<and> (state_of (heap db p) \<noteq> STARTED \<or> HasPendingTasks (heap db p)) \<and> db' = db2 \<or>
      state_of (heap db p) = STARTED \<and> \<not> HasPendingTasks (heap db p) \<and>
        (CommitPhaseTwo p env db3 = Inr (s, db') \<or> db' = db3 \<or> BlobWriteComplete p SUCCESS_SYNC env db3 = Inr (s, db'))"
    using run unfolding Commit_def Let_def db1_def [symmetric] db2_def [symmetric] db3_def [symmetric] st pend
    by (auto split: if_splits phase_one_outcome.splits)
  have "idb_ok {} db1 \<and> load db1 \<le> load db" if "state_of (heap db p) = FINISHED"
  proof -
    have "txn_ok db1 p" using task that
      by (auto simp: txn_ok_def task_ok_def db1_def failed_def IsTaskQueueEmpty_def HasPendingTasks_def)
    then show ?thesis using i1 pl ld by (simp add: commit_settle)
  qed
  moreover have "idb_ok {} db2 \<and> load db2 \<le> load db"
    if "state_of (heap db p) \<noteq> STARTED \<or> HasPendingTasks (heap db p)"
  proof -
    have "txn_ok db2 p" using task that
      by (auto simp: txn_ok_def task_ok_def db1_def db2_def failed_def IsTaskQueueEmpty_def HasPendingTasks_def
          current_queue_def)
    then show ?thesis using i2 pl ld by (simp add: commit_settle)
  qed
  moreover have "idb_ok {} db3 \<and> p \<in> live db3 \<and> state_of (heap db3 p) = COMMITTING"
    if "state_of (heap db p) = STARTED" "\<not> HasPendingTasks (heap db p)"
  proof -
    have "txn_ok db3 p" using task that
      by (auto simp: txn_ok_def task_ok_def db1_def db2_def db3_def failed_def IsTaskQueueEmpty_def HasPendingTasks_def)
    moreover have "placed db3 p" "one_outcome db3 p" using i(4,5) that
      by (simp_all add: placed_def one_outcome_def db1_def db2_def db3_def)
    ultimately show ?thesis using i3 p by (auto simp: commit_settle) (simp_all add: db1_def db2_def db3_def)
  qed
  ultimately show ?thesis
    using cases ld CommitPhaseTwo_ok [of db3 p env s db'] BlobWriteComplete_ok [of db3 p SUCCESS_SYNC env s db']
    by auto
qed

subsection \<open>Tasks of the sequence\<close>

lemma effect_frame [simp]:
  "used (apply_effect e t) = used t" "state_of (apply_effect e t) = state_of t"
  "mode_of (apply_effect e t) = mode_of t" "object_store_ids (apply_effect e t) = object_store_ids t"
  "id_of (apply_effect e t) = id_of t" "connection_of (apply_effect e t) = connection_of t"
  "should_process_queue (apply_effect e t) = should_process_queue t"
  "commit_pending (apply_effect e t) = commit_pending t"
  by (cases e; simp add: AddPreemptiveEvent_def DidCompletePreemptiveEvent_def ScheduleAbortTask_def
      RegisterOpenCursor_def UnregisterOpenCursor_def AddObservation_def AddObserverTransaction_def Let_def
      split: option.split)+

lemma run_operation_frame [simp]:
  "used (run_operation op t) = used t" "state_of (run_operation op t) = state_of t"
  "mode_of (run_operation op t) = mode_of t" "object_store_ids (run_operation op t) = object_store_ids t"
  "id_of (run_operation op t) = id_of t" "connection_of (run_operation op t) = connection_of t"
  "should_process_queue (run_operation op t) = should_process_queue t"
  "commit_pending (run_operation op t) = commit_pending t"
proof -
  have "used (fold apply_effect es u) = used u \<and> state_of (fold apply_effect es u) = state_of u \<and>
      mode_of (fold apply_effect es u) = mode_of u \<and> object_store_ids (fold apply_effect es u) = object_store_ids u \<and>
      id_of (fold apply_effect es u) = id_of u \<and> connection_of (fold apply_effect es u) = connection_of u \<and>
      should_process_queue (fold apply_effect es u) = should_process_queue u \<and>
      commit_pending (fold apply_effect es u) = commit_pending u" for es u
    by (induction es arbitrary: u) simp_all
  then show "used (run_operation op t) = used t" "state_of (run_operation op t) = state_of t"
    "mode_of (run_operation op t) = mode_of t" "object_store_ids (run_operation op t) = object_store_ids t"
    "id_of (run_operation op t) = id_of t" "connection_of (run_operation op t) = connection_of t"
    "should_process_queue (run_operation op t) = should_process_queue t"
    "commit_pending (run_operation op t) = commit_pending t"
    by (simp_all add: run_operation_def count_completed_def pop_task_def)
qed

lemma run_tasks_frame:
  "run_tasks t names = (t', names', result) \<Longrightarrow>
   used t' = used t \<and> state_of t' = state_of t \<and> mode_of t' = mode_of t \<and>
   object_store_ids t' = object_store_ids t \<and> id_of t' = id_of t \<and> connection_of t' = connection_of t \<and>
   should_process_queue t' = should_process_queue t \<and> commit_pending t' = commit_pending t \<and>
   (result = StatusOK \<longrightarrow> current_queue t' = [] \<or> state_of t' = FINISHED)"
proof (induction t names arbitrary: t' rule: run_tasks.induct)
  case (1 t names t')
  show ?case
  proof (cases "current_queue t")
    case Nil
    then show ?thesis using 1(2) by (auto simp: run_tasks.simps [of t])
  next
    case (Cons task rest)
    show ?thesis
    proof (cases "state_of t = FINISHED")
      case True
      then show ?thesis using 1(2) Cons by (simp add: run_tasks.simps [of t])
    next
      case False
      show ?thesis
      proof (cases "operation_status task")
        case StatusOK
        have "run_tasks (run_operation task t) (names @ [operation_name task]) = (t', names', result)"
          using 1(2) Cons False StatusOK by (simp add: run_tasks.simps [of t])
        from 1(1) [OF Cons False refl refl StatusOK this] show ?thesis by auto
      next
        case (StatusError e)
        then have "t' = run_operation task t" "result = StatusError e"
          using 1(2) Cons False by (simp_all add: run_tasks.simps [of t])
        then show ?thesis by simp
      qed
    qed
  qed
qed

lemma report_ok: "idb_ok {} db \<Longrightarrow> idb_ok {} (notify [ReportError s] db)"
  by (auto simp: idb_ok_def notify_ok intro!: idb_inv_notify)

lemma report_unless_ok_ok: "idb_ok {} (snd r) \<Longrightarrow> idb_ok {} (report_unless_ok r) \<and> load (report_unless_ok r) = load (snd r)"
  by (simp add: report_unless_ok_def report_ok)

lemma ProcessTaskQueue_ok:
  assumes i: "idb_inv {p} db" "drained db" "keys_ok {} db" "placed db p" "one_outcome db p" and p: "p \<in> live db"
    and task: "task_ok True (PostedCommitUnused p \<in> set (posted db)) (failed db) (heap db p)"
    and run: "ProcessTaskQueue p env db = Inr db'"
  shows "idb_ok {} db' \<and> load db' \<le> load db"
proof (cases "should_process_queue (heap db p)")
  case False
  then have "txn_ok db p" using task by (simp add: txn_ok_def task_ok_def)
  then show ?thesis using i run False by (simp add: ProcessTaskQueue_def commit_settle)
next
  case True
  obtain t names result where rt: "run_tasks (begin_processing (heap db p)) [] = (t, names, result)"
    by (metis prod_cases3)
  define db1 where "db1 = notify (map (TaskRun p) names) (update_object p (\<lambda>t'. t\<lparr>processing_event_queue := False\<rparr>) db)"
  have st: "state_of (heap db p) = STARTED" "used (heap db p)" "\<not> IsTaskQueueEmpty (heap db p)"
    using task True by (auto simp: task_ok_def)
  have t: "used t" "state_of t = STARTED" "mode_of t = mode_of (heap db p)"
    "object_store_ids t = object_store_ids (heap db p)" "id_of t = id_of (heap db p)"
    "connection_of t = connection_of (heap db p)" "\<not> should_process_queue t"
    "result = StatusOK \<Longrightarrow> current_queue t = []"
    using run_tasks_frame [OF rt] st by (auto simp: begin_processing_def)
  have "idb_inv {p} (update_object p (\<lambda>t'. t\<lparr>processing_event_queue := False\<rparr>) db)"
    using t by (intro idb_inv_update i(1)) simp_all
  then have i1: "idb_inv {p} db1" unfolding db1_def by (rule idb_inv_notify) auto
  have d1: "drained db1" by (rule drained_cong [OF i(2)]) (simp_all add: db1_def t)
  have k1: "keys_ok {} db1" by (rule keys_ok_cong [OF i(3)]) (simp_all add: db1_def t)
  have p1: "placed db1 p" "p \<in> live db1" using i(4) p st t by (simp_all add: placed_def db1_def)
  have "filter (\<lambda>n. n = OnComplete p \<or> n = OnAbort p) (map (TaskRun p) names) = []"
    by (auto simp: filter_empty_conv)
  then have o1: "one_outcome db1 p" using i(5) st t by (simp add: one_outcome_def db1_def)
  have l1: "load db1 = load db" by (simp add: db1_def)
  have h1: "heap db1 p = t\<lparr>processing_event_queue := False\<rparr>" by (simp add: db1_def)
  have same: "HasPendingTasks (t\<lparr>processing_event_queue := b\<rparr>) = HasPendingTasks t"
    "current_queue (t\<lparr>processing_event_queue := b\<rparr>) = current_queue t" for b
    by (simp_all add: HasPendingTasks_def IsTaskQueueEmpty_def current_queue_def)
  show ?thesis
  proof (cases "result = StatusOK")
    case False
    let ?db = "notify [ReportError result] db1"
    have "db' = ?db" using run True False by (simp add: ProcessTaskQueue_def rt db1_def [symmetric])
    moreover have "idb_inv {p} ?db" by (rule idb_inv_notify [OF i1]) simp
    moreover have "txn_ok ?db p" using t
      by (auto simp: txn_ok_def task_ok_def failed_def h1 same) (auto simp: notify_def)
    moreover have "placed ?db p" "one_outcome ?db p" using p1 o1 by (simp_all add: placed_def one_outcome_def)
    ultimately show ?thesis using d1 k1 l1 by (simp add: commit_settle notify_ok)
  next
    case fine: True
    show ?thesis
    proof (cases "\<not> HasPendingTasks t \<and> commit_pending t")
      case True
      then obtain r where r: "Commit p env db1 = Inr r" and db': "db' = report_unless_ok r"
        using run \<open>should_process_queue (heap db p)\<close> fine t(2)
        by (auto simp: ProcessTaskQueue_def rt db1_def [symmetric] bindE_eq_Inr)
      have task1: "task_ok (PostedProcessTaskQueue p \<in> set (posted db1)) True (failed db1) (heap db1 p)"
        using t fine by (simp add: task_ok_def h1 same)
      have "idb_ok {} (snd r) \<and> load (snd r) \<le> load db1"
        using Commit_ok [OF i1 d1 k1 p1(1) o1 p1(2) task1, of env "fst r" "snd r"] r by simp
      then show ?thesis using report_unless_ok_ok [of r] l1 by (simp add: db')
    next
      case False
      define db2 where "db2 = (if mode_of t \<noteq> ReadOnly
        then update_object p (\<lambda>t. t\<lparr>timeout_timer_running := True\<rparr>) db1 else db1)"
      have "db' = db2"
        using run True fine False t(2) by (auto simp: ProcessTaskQueue_def rt db1_def [symmetric] db2_def)
      moreover have "idb_inv {p} db2" "drained db2" "keys_ok {} db2"
        unfolding db2_def using i1 d1 k1 by (auto intro!: idb_inv_update update_ok)
      moreover have "placed db2 p" "one_outcome db2 p"
        using p1 o1 by (simp_all add: db2_def placed_def one_outcome_def)
      moreover have "txn_ok db2 p" using t fine False
        by (simp add: txn_ok_def task_ok_def db2_def h1) (auto simp: HasPendingTasks_def IsTaskQueueEmpty_def current_queue_def split: if_splits)
      moreover have "load db2 = load db" by (simp add: db2_def l1)
      ultimately show ?thesis by (simp add: commit_settle)
    qed
  qed
qed

lemma run_posted_task_ok:
  assumes ok: "idb_ok {} db" and run: "run_posted_task env db = Inr db'"
  shows "idb_ok {} db' \<and> (posted db \<noteq> [] \<longrightarrow> load db' < load db)"
proof (cases "posted db")
  case Nil
  then show ?thesis using ok run by (simp add: run_posted_task_def)
next
  case (Cons task rest)
  define p where "p = (case task of PostedProcessTaskQueue p \<Rightarrow> p | PostedCommitUnused p \<Rightarrow> p)"
  define db1 where "db1 = db\<lparr>posted := rest\<rparr>"
  note P = idb_ok_parts [OF ok]
  have same: "heap db1 = heap db" "live db1 = live db" "failed db1 = failed db" "outcomes db1 = outcomes db"
    "queued_transactions db1 = queued_transactions db" "started_transactions db1 = started_transactions db"
    "next_object db1 = next_object db" "connection_transactions db1 = connection_transactions db"
    by (simp_all add: db1_def failed_def outcomes_def fun_eq_iff)
  have i1: "idb_inv {p} db1"
  proof (rule idb_inv_frame [OF P(1) [of p]])
    fix q assume "q \<in> live db - {p}"
    then show "PostedProcessTaskQueue q \<in> set (posted db) \<longrightarrow> PostedProcessTaskQueue q \<in> set (posted db1)"
      "PostedCommitUnused q \<in> set (posted db) \<longrightarrow> PostedCommitUnused q \<in> set (posted db1)"
      using Cons by (auto simp: db1_def p_def)
  qed (simp_all add: same)
  have d1: "drained db1" by (rule drained_cong [OF P(2)]) (simp_all add: same)
  have k1: "keys_ok {} db1" by (rule keys_ok_cong [OF P(3)]) (simp_all add: same)
  have l1: "load db1 < load db" using Cons by (simp add: load_def db1_def)
  have o1: "one_outcome db1 p" using P(5) by (simp add: one_outcome_def same)
  show ?thesis
  proof (cases "p \<in> live db")
    case False
    then have eq: "db' = db1" using run Cons
      by (cases task) (auto simp: run_posted_task_def CommitUnused_def db1_def p_def)
    have "idb_inv {} db1"
      by (rule idb_inv_settle [OF i1 _ o1]) (use False in \<open>simp add: same\<close>)
    then show ?thesis using d1 k1 l1 unfolding eq idb_ok_def by blast
  next
    case True
    have pl: "placed db1 p" "p \<in> live db1" using P(4) True by (simp_all add: placed_def same)
    have t0: "task_ok (PostedProcessTaskQueue p \<in> set (posted db)) (PostedCommitUnused p \<in> set (posted db))
        (failed db1) (heap db1 p)"
      using P(6) [OF True] by (simp add: txn_ok_def same)
    show ?thesis
    proof (cases task)
      case (PostedProcessTaskQueue q)
      then have q: "q = p" by (simp add: p_def)
      have "ProcessTaskQueue p env db1 = Inr db'"
        using run Cons True PostedProcessTaskQueue q by (simp add: run_posted_task_def db1_def)
      moreover have "task_ok True (PostedCommitUnused p \<in> set (posted db1)) (failed db1) (heap db1 p)"
        by (rule task_ok_mono [OF t0]) (use Cons PostedProcessTaskQueue in \<open>auto simp: db1_def\<close>)
      ultimately show ?thesis
        using ProcessTaskQueue_ok [OF i1 d1 k1 pl(1) o1 pl(2)] l1 by fastforce
    next
      case (PostedCommitUnused q)
      then have q: "q = p" by (simp add: p_def)
      obtain s where "Commit p env db1 = Inr (s, db')"
        using run Cons True PostedCommitUnused q
        by (auto simp: run_posted_task_def CommitUnused_def db1_def bindE_eq_Inr)
      moreover have "task_ok (PostedProcessTaskQueue p \<in> set (posted db1)) True (failed db1) (heap db1 p)"
        by (rule task_ok_mono [OF t0]) (use Cons PostedCommitUnused in \<open>auto simp: db1_def\<close>)
      ultimately show ?thesis
        using Commit_ok [OF i1 d1 k1 pl(1) o1 pl(2)] l1 by fastforce
    qed
  qed
qed

end
