(* ===== verification/Idb_Commit_Properties.thy ===== *)
theory Idb_Commit_Properties
  imports Idb_Commit_Reach
begin

text \<open>
  The states an IndexedDB database reaches, and the properties of its transactions: exclusion
  and admission by the coordinator, one outcome for each transaction, and progress of the
  sequence of tasks.
\<close>

subsection \<open>Closing a connection\<close>

lemma DidFinish_keeps:
  assumes "q \<notin> set (items (queued_transactions db))"
  shows "heap (DidFinishTransaction p db) q = heap db q"
proof -
  have "set (items (erase p s)) \<subseteq> set (items s)" for s :: "nat list_set"
    by (auto simp: erase_def dest: subsetD [OF set_remove1_subset])
  then have "q \<notin> set (items (erase p (queued_transactions db)))" using assms by blast
  then show ?thesis using assms by (simp add: DidFinishTransaction_def)
qed

lemma Abort_keeps:
  "q \<noteq> p \<Longrightarrow> q \<notin> set (items (queued_transactions db)) \<Longrightarrow> heap (Abort p db) q = heap db q"
  by (simp add: Abort_def Let_def DidFinish_keeps)

lemma abort_all:
  "idb_ok Z db \<Longrightarrow> set order \<subseteq> Z \<inter> live db \<Longrightarrow> (\<forall>q \<in> done_set. q \<in> live db \<and> state_of (heap db q) = FINISHED) \<Longrightarrow>
   idb_ok Z (fold Abort order db) \<and> live (fold Abort order db) = live db \<and>
   (\<forall>q \<in> done_set \<union> set order. state_of (heap (fold Abort order db) q) = FINISHED)"
proof (induction order arbitrary: db done_set)
  case (Cons p order db done_set)
  have p: "p \<in> live db" "p \<in> Z" using Cons.prems(2) by auto
  note A = Abort_ok [OF Cons.prems(1) p(1)]
  have live: "live (Abort p db) = live db" using A p(2) by simp
  have fin: "state_of (heap (Abort p db) q) = FINISHED" if "q \<in> insert p done_set" for q
  proof (cases "q = p")
    case True
    then show ?thesis using A by simp
  next
    case False
    then have q: "q \<in> live db" "state_of (heap db q) = FINISHED" using that Cons.prems(3) by auto
    then have "placed db q" using Cons.prems(1) by (simp add: idb_ok_def idb_inv_def)
    then have "q \<notin> set (items (queued_transactions db))" using q(2) by (simp add: placed_def)
    then show ?thesis using Abort_keeps [OF False] q(2) by simp
  qed
  have "\<forall>q \<in> insert p done_set. q \<in> live (Abort p db) \<and> state_of (heap (Abort p db) q) = FINISHED"
    using fin Cons.prems(3) p(1) by (auto simp: live)
  from Cons.IH [OF _ _ this] A Cons.prems(2) live show ?case by auto
qed simp

lemma AbortAll_ok:
  assumes ok: "idb_ok {} db" and order: "set order = {p \<in> live db. connection_of (heap db p) = c}"
  shows "idb_ok {} (AbortAllTransactions c order db)"
proof -
  define db1 where "db1 = db\<lparr>connection_transactions :=
    (\<lambda>(c', tid). if c' = c then None else connection_transactions db (c', tid))\<rparr>"
  define db2 where "db2 = fold Abort order db1"
  have inv: "idb_inv {} db" "drained db" "keys_ok {} db" using ok by (simp_all add: idb_ok_def)
  have "idb_inv {} db1" by (rule idb_inv_frame [OF inv(1)]) (simp_all add: db1_def failed_def outcomes_def)
  moreover have "drained db1" by (rule drained_cong [OF inv(2)]) (simp_all add: db1_def)
  moreover have "keys_ok (set order) db1"
  proof -
    have "key_of db1 = key_of db" by (simp add: key_of_def db1_def fun_eq_iff)
    moreover have "(connection_of (heap db p) = c) = (p \<in> set order)" if "p \<in> live db" for p
      using that order by simp
    ultimately show ?thesis using inv(3)
      by (auto simp: keys_ok_def db1_def key_of_def split: if_splits)
  qed
  ultimately have "idb_ok (set order) db1" by (simp add: idb_ok_def)
  from abort_all [OF this, of order "{}"] order
  have A: "idb_ok (set order) db2" "live db2 = live db" "\<forall>q \<in> set order. state_of (heap db2 q) = FINISHED"
    by (auto simp: db2_def db1_def)
  have B: "idb_inv {} db2" "drained db2" "keys_ok (set order) db2" using A(1) by (simp_all add: idb_ok_def)
  let ?db = "db2\<lparr>live := live db2 - set order\<rparr>"
  have "idle q db2" if "q \<in> set order" for q
  proof -
    have "placed db2 q" using B(1) A(2) order that by (simp add: idb_inv_def)
    then show ?thesis using A(3) that by (simp add: placed_def idle_def)
  qed
  then have "idb_inv {} ?db" by (intro idb_inv_live [OF B(1), where S = "set order"]) simp_all
  moreover have "drained ?db" by (rule drained_cong [OF B(2)]) simp_all
  moreover have "keys_ok {} ?db"
  proof -
    have "key_of ?db = key_of db2" by (simp add: key_of_def fun_eq_iff)
    moreover have "p \<notin> set order" if "connection_transactions db2 k = Some p" for k p
    proof -
      have k: "p \<in> live db2" "key_of db2 p = k" using B(3) that unfolding keys_ok_def by blast+
      have "\<forall>q \<in> live db2. connection_transactions db2 (key_of db2 q) = (if q \<in> set order then None else Some q)"
        using B(3) by (simp add: keys_ok_def)
      from bspec [OF this k(1)] show ?thesis using that k(2) by (auto split: if_splits)
    qed
    ultimately show ?thesis using B(3) by (simp add: keys_ok_def)
  qed
  ultimately show ?thesis by (simp add: AbortAllTransactions_def idb_ok_def db1_def [symmetric] db2_def [symmetric] Let_def)
qed

subsection \<open>Reachable states\<close>

text \<open>
  The requests keep to the conditions that the sources assert: no operation is scheduled and no
  commit is requested for a transaction that is committing, and the answer about the blobs comes
  to a transaction that is committing or has been aborted.
\<close>

inductive idb_reachable :: "IndexedDBDatabase \<Rightarrow> bool" where
  new: "idb_reachable (database_new cs)"
| create: "idb_reachable db \<Longrightarrow> CreateTransaction tid c ids mode db = Inr (p, db') \<Longrightarrow> idb_reachable db'"
| schedule: "idb_reachable db \<Longrightarrow> p \<in> live db \<Longrightarrow> state_of (heap db p) \<noteq> COMMITTING \<Longrightarrow>
    idb_reachable (ScheduleTask type task p db)"
| abort_task: "idb_reachable db \<Longrightarrow> p \<in> live db \<Longrightarrow> idb_reachable (update_object p (ScheduleAbortTask a) db)"
| observe: "idb_reachable db \<Longrightarrow> p \<in> live db \<Longrightarrow> idb_reachable (update_object p (AddPendingObserver i) db)"
| unobserve: "idb_reachable db \<Longrightarrow> p \<in> live db \<Longrightarrow> idb_reachable (update_object p (RemovePendingObservers is) db)"
| commit: "idb_reachable db \<Longrightarrow> GetTransaction c tid db = Some p \<Longrightarrow> state_of (heap db p) \<noteq> COMMITTING \<Longrightarrow>
    Database_Commit c tid env db = Inr db' \<Longrightarrow> idb_reachable db'"
| abort: "idb_reachable db \<Longrightarrow> p \<in> live db \<Longrightarrow> idb_reachable (Abort p db)"
| close: "idb_reachable db \<Longrightarrow> set order = {p \<in> live db. connection_of (heap db p) = c} \<Longrightarrow>
    idb_reachable (AbortAllTransactions c order db)"
| blobs: "idb_reachable db \<Longrightarrow> p \<in> live db \<Longrightarrow> state_of (heap db p) \<in> {COMMITTING, FINISHED} \<Longrightarrow>
    BlobWriteComplete p result env db = Inr (s, db') \<Longrightarrow> idb_reachable db'"
| timeout: "idb_reachable db \<Longrightarrow> p \<in> live db \<Longrightarrow> timeout_timer_running (heap db p) \<Longrightarrow>
    idb_reachable (Timeout p db)"
| posted: "idb_reachable db \<Longrightarrow> run_posted_task env db = Inr db' \<Longrightarrow> idb_reachable db'"
| request: "idb_reachable db \<Longrightarrow> idb_reachable (db\<lparr>active_request := b, connections := cs\<rparr>)"

lemma idb_ok_new: "idb_ok {} (database_new cs)"
  using list_set.partition_new
  by (simp add: idb_ok_def idb_inv_def scopes_ok_def database_new_def drained_def keys_ok_def
      one_outcome_def outcomes_def list_set.new)

lemma idb_ok_request: "idb_ok {} db \<Longrightarrow> idb_ok {} (db\<lparr>active_request := b, connections := cs\<rparr>)"
proof -
  assume ok: "idb_ok {} db"
  let ?db = "db\<lparr>active_request := b, connections := cs\<rparr>"
  have inv: "idb_inv {} db" "drained db" "keys_ok {} db" using ok by (simp_all add: idb_ok_def)
  have "idb_inv {} ?db" by (rule idb_inv_frame [OF inv(1)]) (simp_all add: failed_def outcomes_def)
  moreover have "drained ?db" by (rule drained_cong [OF inv(2)]) simp_all
  moreover have "keys_ok {} ?db" by (rule keys_ok_cong [OF inv(3)]) simp_all
  ultimately show ?thesis by (simp add: idb_ok_def)
qed

lemma task_ok_fields:
  "task_ok a b c t \<Longrightarrow> used t' = used t \<Longrightarrow> state_of t' = state_of t \<Longrightarrow> task_queue t' = task_queue t \<Longrightarrow>
   preemptive_task_queue t' = preemptive_task_queue t \<Longrightarrow>
   pending_preemptive_events t' = pending_preemptive_events t \<Longrightarrow>
   should_process_queue t' = should_process_queue t \<Longrightarrow> commit_pending t' = commit_pending t \<Longrightarrow>
   task_ok a b c t'"
  by (simp add: task_ok_def IsTaskQueueEmpty_def HasPendingTasks_def current_queue_def)

lemma reachable_ok: "idb_reachable db \<Longrightarrow> idb_ok {} db"
proof (induction rule: idb_reachable.induct)
  case (commit db c tid p env db')
  then have p: "p \<in> live db" by (simp add: idb_ok_def keys_ok_def GetTransaction_def)
  obtain r where r: "Commit p env db = Inr r" "db' = report_unless_ok r"
    using commit by (auto simp: Database_Commit_def bindE_eq_Inr)
  note P = idb_ok_parts [OF commit.IH]
  have "task_ok (PostedProcessTaskQueue p \<in> set (posted db)) True (failed db) (heap db p)"
    using P(6) [OF p] by (simp add: txn_ok_def) (erule task_ok_mono; simp)
  then show ?case
    using Commit_ok [OF P(1) P(2) P(3) P(4) [OF p] P(5) p, of env "fst r" "snd r"] r report_unless_ok_ok [of r]
    by simp
next
  case (timeout db p)
  have "idb_ok {} (update_object p (\<lambda>t. t\<lparr>timeout_timer_running := False\<rparr>) db)"
    by (rule update_settle [OF timeout.IH timeout.hyps(2)]) (auto elim: task_ok_fields)
  then show ?case unfolding Timeout_def using Abort_ok timeout.hyps(2) by simp
qed (auto simp: idb_ok_new idb_ok_request CreateTransaction_ok ScheduleTask_ok Abort_ok AbortAll_ok
    dest: BlobWriteComplete_ok run_posted_task_ok
    intro!: update_settle elim: task_ok_fields simp: ScheduleAbortTask_def AddPendingObserver_def
      RemovePendingObservers_def)

subsection \<open>The sequence runs until nothing is posted\<close>

fun run_sequence :: "store_answers list \<Rightarrow> IndexedDBDatabase \<Rightarrow> idb_crash + IndexedDBDatabase" where
  "run_sequence [] db = Inr db"
| "run_sequence (env # envs) db = bindE (run_posted_task env db) (run_sequence envs)"

lemma run_sequence_drains:
  "idb_reachable db \<Longrightarrow> load db \<le> length envs \<Longrightarrow> run_sequence envs db = Inr db' \<Longrightarrow>
   posted db' = [] \<and> idb_reachable db'"
proof (induction envs arbitrary: db)
  case Nil
  then show ?case by (simp add: load_def)
next
  case (Cons env envs)
  obtain db1 where run: "run_posted_task env db = Inr db1" and rest: "run_sequence envs db1 = Inr db'"
    using Cons.prems(3) by (auto simp: bindE_eq_Inr)
  have reach: "idb_reachable db1" using Cons.prems(1) run by (rule idb_reachable.posted)
  show ?case
  proof (cases "posted db = []")
    case True
    have "run_posted_task env d = Inr d" if "posted d = []" for env d using that by (simp add: run_posted_task_def)
    then have "run_sequence es db = Inr db" for es using True by (induction es) simp_all
    then show ?thesis using Cons.prems True by (metis sum.inject(2))
  next
    case False
    then have "load db1 < load db" using run_posted_task_ok [OF reachable_ok [OF Cons.prems(1)] run] by simp
    then show ?thesis using Cons.IH [OF reach _ rest] Cons.prems(2) by simp
  qed
qed

lemma nothing_to_do:
  assumes "idb_reachable db" "posted db = []" "p \<in> live db" "state_of (heap db p) = STARTED" "\<not> failed db"
  shows "current_queue (heap db p) = []" "commit_pending (heap db p) \<Longrightarrow> HasPendingTasks (heap db p)"
  using idb_ok_parts(6) [OF reachable_ok [OF assms(1)] assms(3)] assms(2,4,5)
  by (auto simp: txn_ok_def task_ok_def)

subsection \<open>Examples\<close>

definition created_in :: "IndexedDBDatabase \<Rightarrow> int \<Rightarrow> int list \<Rightarrow> IndexedDBDatabase" where
  "created_in db tid ids = (case CreateTransaction tid 1 ids ReadWrite db of Inl e \<Rightarrow> db | Inr (p, db') \<Rightarrow> db')"

definition busy_database :: IndexedDBDatabase where
  "busy_database = created_in (created_in (created_in (database_new [1]) 1 [5]) 2 [7, 6]) 3 [5, 6]"

definition quiet_store :: store_answers where
  "quiet_store = \<lparr>phase_one = PhaseOneHasNoBlobs, phase_two = StatusOK\<rparr>"

definition an_operation :: Operation where
  "an_operation = \<lparr>operation_name = 8, effects = [], operation_status = StatusOK\<rparr>"

definition committing_database :: IndexedDBDatabase where
  "committing_database = (let db = ScheduleTask NormalTask an_operation 0 busy_database
     in case Database_Commit 1 1 quiet_store db of Inl e \<Rightarrow> db | Inr db' \<Rightarrow> db')"

definition finished_database :: IndexedDBDatabase where
  "finished_database = (case run_posted_task quiet_store committing_database of
     Inl e \<Rightarrow> committing_database | Inr db' \<Rightarrow> db')"

lemma created_reachable: "idb_reachable db \<Longrightarrow> idb_reachable (created_in db tid ids)"
  by (auto simp: created_in_def split: sum.split intro: idb_reachable.create)

lemma busy_reachable: "idb_reachable busy_database"
  unfolding busy_database_def by (intro created_reachable idb_reachable.new)

lemma busy_facts:
  "items (started_transactions busy_database) = [0, 1]" "items (queued_transactions busy_database) = [2]"
  "0 \<in> live busy_database" "state_of (heap busy_database 0) = STARTED"
  "mode_of (heap busy_database 0) = ReadWrite" "mode_of (heap busy_database 1) = ReadWrite"
  by code_simp+

lemma scheduled_facts:
  "GetTransaction 1 1 (ScheduleTask NormalTask an_operation 0 busy_database) = Some 0"
  "state_of (heap (ScheduleTask NormalTask an_operation 0 busy_database) 0) = STARTED"
  by code_simp+

lemma committing_reachable: "idb_reachable committing_database"
proof -
  have "idb_reachable (ScheduleTask NormalTask an_operation 0 busy_database)"
    by (rule idb_reachable.schedule [OF busy_reachable]) (simp_all add: busy_facts)
  then show ?thesis using scheduled_facts
    by (auto simp: committing_database_def Let_def split: sum.split intro: idb_reachable.commit)
qed

lemma finished_reachable: "idb_reachable finished_database"
  using committing_reachable
  by (auto simp: finished_database_def split: sum.split intro: idb_reachable.posted)

lemma committing_facts:
  "posted committing_database = [PostedProcessTaskQueue 0]"
  "items (queued_transactions committing_database) = [2]"
  "\<not> isl (run_sequence [quiet_store, quiet_store] committing_database)"
  by code_simp+

lemma finished_facts: "next_object finished_database = 3" "state_of (heap finished_database 0) = FINISHED"
  by code_simp+

subsection \<open>The properties\<close>

text \<open>C2. Running transactions exclude each other. In every reachable state two started read-write
  transactions have disjoint sets of object stores; a transaction that has not been deleted is
  queued exactly while it is created and started exactly while it runs or commits; the
  coordinator holds no pointer twice and none to a deleted transaction.\<close>

theorem running_writers_exclude_each_other:
  assumes "idb_reachable db"
  shows "distinct (GetTransactions db) \<and> set (GetTransactions db) \<subseteq> live db \<and>
    (\<forall>p \<in> set (items (started_transactions db)). \<forall>q \<in> set (items (started_transactions db)). p \<noteq> q \<longrightarrow>
      mode_of (heap db p) = ReadWrite \<longrightarrow> mode_of (heap db q) = ReadWrite \<longrightarrow>
      set (object_store_ids (heap db p)) \<inter> set (object_store_ids (heap db q)) = {}) \<and>
    (\<forall>p \<in> live db. (p \<in> set (items (queued_transactions db)) \<longleftrightarrow> state_of (heap db p) = CREATED) \<and>
      (p \<in> set (items (started_transactions db)) \<longleftrightarrow> state_of (heap db p) \<in> {STARTED, COMMITTING}))"
proof -
  have ok: "idb_ok {} db" by (rule reachable_ok [OF assms])
  then have s: "scopes_ok db" by (simp add: idb_ok_def idb_inv_def)
  then have part: "list_set.partition (queued_transactions db) (started_transactions db)"
    by (simp add: scopes_ok_def)
  have "distinct (GetTransactions db) \<and> set (GetTransactions db) \<subseteq> live db"
    using s part list_set.distinct_elems by (auto simp: GetTransactions_def scopes_ok_def list_set.partition_def)
  moreover have "\<forall>p \<in> live db. placed db p" using idb_ok_parts(4) [OF ok] by simp
  ultimately show ?thesis using s by (simp add: scopes_ok_def stores_def writes_def placed_def)
qed

theorem running_writers_exclude_each_other_witness:
  "items (started_transactions busy_database) = [0, 1] \<and> items (queued_transactions busy_database) = [2] \<and>
   set (object_store_ids (heap busy_database 0)) \<inter> set (object_store_ids (heap busy_database 1)) = {}"
  using running_writers_exclude_each_other [OF busy_reachable] busy_facts by simp

text \<open>C3. Admission. In every reachable state a transaction waits in the queue only because ten
  transactions run already, or because one of its object stores belongs to a read-write
  transaction that runs or was created before it; and when something waits, something runs.\<close>

theorem waiting_has_a_reason:
  assumes "idb_reachable db" "items (queued_transactions db) = earlier @ p # later"
  shows "(length (items (started_transactions db)) \<ge> kMaxStartedTransactions \<or>
      (\<exists>q \<in> set (items (started_transactions db)) \<union> set earlier. mode_of (heap db q) = ReadWrite \<and>
        set (object_store_ids (heap db p)) \<inter> set (object_store_ids (heap db q)) \<noteq> {})) \<and>
    items (started_transactions db) \<noteq> []"
proof -
  have d: "drained db" using reachable_ok [OF assms(1)] by (simp add: idb_ok_def)
  then have b: "blocked db earlier p" using assms(2) by (simp add: drained_def)
  then have reason: "length (items (started_transactions db)) \<ge> kMaxStartedTransactions \<or>
      (\<exists>q \<in> set (items (started_transactions db)) \<union> set earlier. mode_of (heap db q) = ReadWrite \<and>
        set (object_store_ids (heap db p)) \<inter> set (object_store_ids (heap db q)) \<noteq> {})"
    by (auto simp: blocked_def conflict_def stores_def writes_def)
  obtain p0 rest where "items (queued_transactions db) = p0 # rest" using assms(2) by (cases earlier) auto
  then have "blocked db [] p0" using d unfolding drained_def by (metis append_Nil)
  then have "items (started_transactions db) \<noteq> []"
    by (auto simp: blocked_def conflict_def kMaxStartedTransactions_def)
  with reason show ?thesis by blast
qed

theorem waiting_has_a_reason_witness:
  "items (queued_transactions busy_database) = [] @ 2 # [] \<and> items (started_transactions busy_database) \<noteq> []"
  using waiting_has_a_reason [OF busy_reachable, of "[]" 2 "[]"] busy_facts by simp

text \<open>C4. One outcome. In every reachable state a transaction has been reported complete or aborted
  exactly once if it is finished and never before, and a transaction that is committing has no
  operation left to run and no preemptive event pending.\<close>

theorem each_transaction_has_one_outcome:
  assumes "idb_reachable db"
  shows "length (filter (\<lambda>n. n = OnComplete p \<or> n = OnAbort p) (notified db))
      = (if p < next_object db \<and> state_of (heap db p) = FINISHED then 1 else 0) \<and>
    (p \<in> live db \<longrightarrow> state_of (heap db p) = COMMITTING \<longrightarrow> \<not> HasPendingTasks (heap db p))"
  using idb_ok_parts(5,6) [OF reachable_ok [OF assms], of p]
  by (auto simp: one_outcome_def outcomes_def txn_ok_def task_ok_def)

theorem each_transaction_has_one_outcome_witness:
  "state_of (heap finished_database 0) = FINISHED \<and>
   length (filter (\<lambda>n. n = OnComplete 0 \<or> n = OnAbort 0) (notified finished_database)) = 1"
  using each_transaction_has_one_outcome [OF finished_reachable, of 0] finished_facts by simp

text \<open>C5. Progress of the sequence. From every reachable state, running as many posted tasks as there
  are posted tasks and queued transactions leaves nothing posted, unless a duplicate transaction
  id ends the process; then, if no operation and no commit has failed, every started transaction
  has run all the operations it may run, and one whose commit was requested waits only for
  preemptive events.\<close>

theorem sequence_comes_to_rest:
  assumes "idb_reachable db" "length (posted db) + length (items (queued_transactions db)) \<le> length envs"
  shows "run_sequence envs db = Inl DuplicateTransactionId \<or>
    (\<exists>db'. run_sequence envs db = Inr db' \<and> posted db' = [] \<and>
      (\<forall>p \<in> live db'. state_of (heap db' p) = STARTED \<longrightarrow> (\<forall>s. ReportError s \<notin> set (notified db')) \<longrightarrow>
        current_queue (heap db' p) = [] \<and> (commit_pending (heap db' p) \<longrightarrow> HasPendingTasks (heap db' p))))"
proof (cases "run_sequence envs db")
  case (Inl e)
  then show ?thesis by (cases e) simp
next
  case (Inr db')
  have "posted db' = [] \<and> idb_reachable db'"
    using run_sequence_drains [OF assms(1) _ Inr] assms(2) by (simp add: load_def)
  then show ?thesis using nothing_to_do [of db'] Inr by (auto simp: failed_def)
qed

theorem sequence_comes_to_rest_witness:
  "\<exists>db'. run_sequence [quiet_store, quiet_store] committing_database = Inr db' \<and> posted db' = []"
proof -
  have "run_sequence [quiet_store, quiet_store] committing_database \<noteq> Inl DuplicateTransactionId"
    using committing_facts(3) by auto
  then show ?thesis
    using sequence_comes_to_rest [OF committing_reachable, of "[quiet_store, quiet_store]"] committing_facts(1,2)
    by auto
qed

end
