(* ===== verification/Urls.thy ===== *)
theory Urls
  imports Prelude
begin

text \<open>
  URLs and origins as the policies see them. \<open>GURL\<close> and \<open>url::Origin\<close> are not part of the
  repository, so a URL is the collection of the results of its accessors, and the functions of
  the \<open>url\<close>, \<open>base\<close> and \<open>net\<close> libraries that the code calls are the fields of
  \<open>url_library\<close>, a parameter of every definition that uses one. \<open>SchemeIs\<close> compares the
  scheme with a lower-case literal.
\<close>

datatype GURL = GURL
  (spec: string) (is_valid: bool) (url_scheme: string) (url_host: string) (url_port: string)
  (EffectiveIntPort: int) (url_path: string) (GetContent: string) (inner_url: "GURL option")

record Origin =
  unique :: bool
  origin_scheme :: string
  origin_host :: string
  origin_port :: int

record url_library =
  Origin_of :: "GURL \<Rightarrow> Origin"
  Serialize :: "Origin \<Rightarrow> string"
  parse_url :: "string \<Rightarrow> GURL"
  IsAboutBlank :: "GURL \<Rightarrow> bool"
  ReplaceSchemeAndPort :: "GURL \<Rightarrow> string \<Rightarrow> string option \<Rightarrow> GURL"
  DecodePath :: "string \<Rightarrow> string option"
  DefaultPortForScheme :: "string \<Rightarrow> int"
  StartsWith_insensitive :: "string \<Rightarrow> string \<Rightarrow> bool"
  EndsWith_insensitive :: "string \<Rightarrow> string \<Rightarrow> bool"
  StartsWith :: "string \<Rightarrow> string \<Rightarrow> bool"
  EndsWith :: "string \<Rightarrow> string \<Rightarrow> bool"
  DomainAndRegistry :: "string \<Rightarrow> string"
  SameDomainOrHost :: "Origin \<Rightarrow> Origin \<Rightarrow> bool"
  IsSameOriginWith :: "Origin \<Rightarrow> Origin \<Rightarrow> bool"
  GetOrigin :: "GURL \<Rightarrow> GURL"

text \<open>The literals of \<open>url/url_constants.h\<close> and \<open>content/public/common/url_constants.cc\<close>.\<close>

abbreviation (input) kAboutScheme :: string where "kAboutScheme \<equiv> ''about''"
abbreviation (input) kAboutBlankURL :: string where "kAboutBlankURL \<equiv> ''about:blank''"
abbreviation (input) kAboutSrcDocURL :: string where "kAboutSrcDocURL \<equiv> ''about:srcdoc''"
abbreviation (input) kBlobScheme :: string where "kBlobScheme \<equiv> ''blob''"
abbreviation (input) kDataScheme :: string where "kDataScheme \<equiv> ''data''"
abbreviation (input) kFileScheme :: string where "kFileScheme \<equiv> ''file''"
abbreviation (input) kFileSystemScheme :: string where "kFileSystemScheme \<equiv> ''filesystem''"
abbreviation (input) kFtpScheme :: string where "kFtpScheme \<equiv> ''ftp''"
abbreviation (input) kHttpScheme :: string where "kHttpScheme \<equiv> ''http''"
abbreviation (input) kHttpsScheme :: string where "kHttpsScheme \<equiv> ''https''"
abbreviation (input) kHttpSuboriginScheme :: string where "kHttpSuboriginScheme \<equiv> ''http-so''"
abbreviation (input) kHttpsSuboriginScheme :: string where "kHttpsSuboriginScheme \<equiv> ''https-so''"
abbreviation (input) kJavaScriptScheme :: string where "kJavaScriptScheme \<equiv> ''javascript''"
abbreviation (input) kWsScheme :: string where "kWsScheme \<equiv> ''ws''"
abbreviation (input) kWssScheme :: string where "kWssScheme \<equiv> ''wss''"
abbreviation (input) kChromeUIScheme :: string where "kChromeUIScheme \<equiv> ''chrome''"
abbreviation (input) kGuestScheme :: string where "kGuestScheme \<equiv> ''chrome-guest''"
abbreviation (input) kViewSourceScheme :: string where "kViewSourceScheme \<equiv> ''view-source''"
abbreviation (input) PORT_UNSPECIFIED :: int where "PORT_UNSPECIFIED \<equiv> -1"

abbreviation SchemeIs :: "GURL \<Rightarrow> string \<Rightarrow> bool" where
  "SchemeIs url s \<equiv> url_scheme url = s"

abbreviation SchemeIsNested :: "GURL \<Rightarrow> bool" where
  "SchemeIsNested url \<equiv> SchemeIs url kBlobScheme \<or> SchemeIs url kFileSystemScheme"

definition empty_url :: GURL where
  "empty_url = GURL [] False [] [] [] PORT_UNSPECIFIED [] [] None"

subsection \<open>A library for the witnesses\<close>

text \<open>A simple library on which the witnesses of the properties run.\<close>

definition example_library :: url_library where
  "example_library =
     \<lparr>Origin_of = (\<lambda>u. \<lparr>unique = SchemeIsNested u, origin_scheme = url_scheme u,
                        origin_host = url_host u, origin_port = EffectiveIntPort u\<rparr>),
      Serialize = (\<lambda>ori. origin_scheme ori @ ''://'' @ origin_host ori),
      parse_url = (\<lambda>s. GURL s True (let t = takeWhile (\<lambda>c. c \<noteq> CHR '':'') s
          in if t = kBlobScheme \<or> t = kFileSystemScheme then [] else t) [] [] 0 [] s None),
      IsAboutBlank = (\<lambda>u. spec u = kAboutBlankURL),
      ReplaceSchemeAndPort = (\<lambda>u s port. GURL (spec u) (is_valid u) s (url_host u) (url_port u)
          (EffectiveIntPort u) (url_path u) (GetContent u) None),
      DecodePath = Some, DefaultPortForScheme = (\<lambda>s. if s = kHttpsScheme then 443 else 80),
      StartsWith_insensitive = (\<lambda>s t. take (length t) s = t),
      EndsWith_insensitive = (\<lambda>s t. drop (length s - length t) s = t),
      StartsWith = (\<lambda>s t. take (length t) s = t),
      EndsWith = (\<lambda>s t. drop (length s - length t) s = t),
      DomainAndRegistry = (\<lambda>h. h), SameDomainOrHost = (\<lambda>a b. origin_host a = origin_host b),
      IsSameOriginWith = (\<lambda>a b. \<not> unique a \<and> a = b),
      GetOrigin = (\<lambda>u. GURL (url_scheme u @ ''://'' @ url_host u) True (url_scheme u) (url_host u)
          (url_port u) (EffectiveIntPort u) [] [] None)\<rparr>"

lemma example_library_simps:
  "Origin_of example_library u = \<lparr>unique = SchemeIsNested u, origin_scheme = url_scheme u,
     origin_host = url_host u, origin_port = EffectiveIntPort u\<rparr>"
  "IsAboutBlank example_library u \<longleftrightarrow> spec u = kAboutBlankURL"
  "DecodePath example_library s = Some s"
  "DefaultPortForScheme example_library s = (if s = kHttpsScheme then 443 else 80)"
  "StartsWith example_library s t \<longleftrightarrow> take (length t) s = t"
  "EndsWith example_library s t \<longleftrightarrow> drop (length s - length t) s = t"
  "GetOrigin example_library u = GURL (url_scheme u @ ''://'' @ url_host u) True (url_scheme u) (url_host u)
     (url_port u) (EffectiveIntPort u) [] [] None"
  "IsSameOriginWith example_library a b \<longleftrightarrow> \<not> unique a \<and> a = b"
  unfolding example_library_def by (simp_all only: url_library.simps)

abbreviation example_url :: "string \<Rightarrow> string \<Rightarrow> GURL" where
  "example_url s path \<equiv> GURL (s @ '':'' @ path) True s [] [] 0 path path None"

end
