(* ===== verification/Security_Policy.thy ===== *)
theory Security_Policy
  imports Urls
begin

text \<open>
  \<open>content/browser/child_process_security_policy_impl.cc\<close>: what every child process may
  request, commit, read and write; and the part of \<open>site_instance_impl.cc\<close> that turns a URL
  into its site.

  \<open>policy_env\<close> holds what the code calls outside the repository: the URL library, the
  operations of \<open>base::FilePath\<close> (a path is a value of type \<open>'p\<close>), the embedder's client and
  the file system constants. The build is the Android one, as the repository's is. Two
  definitions follow a chain that outside code determines, the directories above a path and
  the inner origins of a URL; they are \<open>partial_function\<close>s into an option, where \<open>None\<close> is a
  run that does not end, and the properties show that they end. The histograms and the lock
  are not modelled: each operation is atomic, as the lock makes it.
\<close>

subsection \<open>The environment\<close>

record 'p policy_env =
  lib :: url_library
  StripTrailingSeparators :: "'p \<Rightarrow> 'p"
  BaseName :: "'p \<Rightarrow> string"
  DirName :: "'p \<Rightarrow> 'p"
  empty_path :: 'p
  IsAbsolute :: "'p \<Rightarrow> bool"
  IsContentUri :: "'p \<Rightarrow> bool"
  ReferencesParent :: "'p \<Rightarrow> bool"
  IsRootPath :: "'p \<Rightarrow> bool"
  FileURLToFilePath :: "GURL \<Rightarrow> 'p option"
  client_IsHandledURL :: "GURL \<Rightarrow> bool"
  net_IsHandledURL :: "GURL \<Rightarrow> bool"
  client_GetEffectiveURL :: "GURL \<Rightarrow> GURL"
  client_RequiresDedicatedProcess :: "GURL \<Rightarrow> bool"
  SplitOrigins :: "string \<Rightarrow> string list"
  kFileSystemTypeIsolated :: nat
  FILE_PERMISSION_READ_ONLY :: "32 word"
  FILE_PERMISSION_USE_FILE_PERMISSION :: "32 word"
  FILE_PERMISSION_SANDBOX :: "32 word"

abbreviation (input) kParentDirectory :: string where "kParentDirectory \<equiv> ''..''"
abbreviation (input) kCurrentDirectory :: string where "kCurrentDirectory \<equiv> ''.''"
abbreviation (input) BINDINGS_POLICY_WEB_UI :: "32 word" where "BINDINGS_POLICY_WEB_UI \<equiv> 1"

text \<open>\<open>storage::FileSystemURL\<close>, by its accessors.\<close>

record 'p FileSystemURL =
  fs_is_valid :: bool
  fs_path :: 'p
  fs_mount_type :: nat
  fs_mount_filesystem_id :: string
  fs_origin :: GURL
  fs_type :: nat

subsection \<open>Permissions\<close>

definition READ_FILE_PERMISSION :: "32 word" where "READ_FILE_PERMISSION = push_bit 0 1"
definition WRITE_FILE_PERMISSION :: "32 word" where "WRITE_FILE_PERMISSION = push_bit 1 1"
definition CREATE_NEW_FILE_PERMISSION :: "32 word" where "CREATE_NEW_FILE_PERMISSION = push_bit 2 1"
definition CREATE_OVERWRITE_FILE_PERMISSION :: "32 word" where
  "CREATE_OVERWRITE_FILE_PERMISSION = push_bit 3 1"
definition DELETE_FILE_PERMISSION :: "32 word" where "DELETE_FILE_PERMISSION = push_bit 4 1"
definition COPY_INTO_FILE_PERMISSION :: "32 word" where "COPY_INTO_FILE_PERMISSION = push_bit 5 1"

definition READ_FILE_GRANT :: "32 word" where "READ_FILE_GRANT = READ_FILE_PERMISSION"
definition WRITE_FILE_GRANT :: "32 word" where "WRITE_FILE_GRANT = WRITE_FILE_PERMISSION"
definition CREATE_NEW_FILE_GRANT :: "32 word" where
  "CREATE_NEW_FILE_GRANT = CREATE_NEW_FILE_PERMISSION OR COPY_INTO_FILE_PERMISSION"
definition CREATE_READ_WRITE_FILE_GRANT :: "32 word" where
  "CREATE_READ_WRITE_FILE_GRANT = CREATE_NEW_FILE_PERMISSION OR CREATE_OVERWRITE_FILE_PERMISSION
     OR READ_FILE_PERMISSION OR WRITE_FILE_PERMISSION OR COPY_INTO_FILE_PERMISSION
     OR DELETE_FILE_PERMISSION"
definition COPY_INTO_FILE_GRANT :: "32 word" where "COPY_INTO_FILE_GRANT = COPY_INTO_FILE_PERMISSION"
definition DELETE_FILE_GRANT :: "32 word" where "DELETE_FILE_GRANT = DELETE_FILE_PERMISSION"

definition IsMalformedBlobUrl :: "'p policy_env \<Rightarrow> GURL \<Rightarrow> bool" where
  "IsMalformedBlobUrl env url =
     (if \<not> SchemeIs url kBlobScheme then False
      else let canonical_origin = Serialize (lib env) (Origin_of (lib env) url) @ ''/'' in
        if StartsWith_insensitive (lib env) (GetContent url) canonical_origin then False
        else if StartsWith_insensitive (lib env) (GetContent url) ''blobinternal://'' then False
        else True)"

subsection \<open>The state of one child process\<close>

record 'p SecurityState =
  scheme_policy :: "string set"
  origin_set :: "Origin set"
  file_permissions :: "'p \<rightharpoonup> 32 word"
  request_file_set :: "'p set"
  enabled_bindings :: "32 word"
  can_read_raw_cookies :: bool
  can_send_midi_sysex :: bool
  origin_lock :: "GURL option"
  filesystem_permissions :: "string \<rightharpoonup> 32 word"

text \<open>\<open>origin_lock\<close> starts as the empty URL: \<open>None\<close>.\<close>

definition SecurityState_new :: "'p SecurityState" where
  "SecurityState_new =
     \<lparr>scheme_policy = {}, origin_set = {}, file_permissions = (\<lambda>_. None), request_file_set = {},
      enabled_bindings = 0, can_read_raw_cookies = False, can_send_midi_sysex = False,
      origin_lock = None, filesystem_permissions = (\<lambda>_. None)\<rparr>"

text \<open>\<open>m[key] |= flags\<close> on a map whose missing entries count as 0.\<close>

definition or_entry :: "('k \<rightharpoonup> 32 word) \<Rightarrow> 'k \<Rightarrow> 32 word \<Rightarrow> ('k \<rightharpoonup> 32 word)" where
  "or_entry m k flags = m(k \<mapsto> (case m k of None \<Rightarrow> 0 | Some old \<Rightarrow> old) OR flags)"

definition has_flags :: "('k \<rightharpoonup> 32 word) \<Rightarrow> 'k \<Rightarrow> 32 word \<Rightarrow> bool" where
  "has_flags m k flags = (case m k of None \<Rightarrow> False | Some v \<Rightarrow> v AND flags = flags)"

definition State_GrantOrigin :: "Origin \<Rightarrow> 'p SecurityState \<Rightarrow> 'p SecurityState" where
  "State_GrantOrigin origin s = s\<lparr>origin_set := insert origin (origin_set s)\<rparr>"

definition State_GrantScheme :: "string \<Rightarrow> 'p SecurityState \<Rightarrow> 'p SecurityState" where
  "State_GrantScheme scheme s = s\<lparr>scheme_policy := insert scheme (scheme_policy s)\<rparr>"

definition State_GrantPermissionsForFile ::
  "'p policy_env \<Rightarrow> 'p \<Rightarrow> 32 word \<Rightarrow> 'p SecurityState \<Rightarrow> 'p SecurityState" where
  "State_GrantPermissionsForFile env file permissions s =
     (let stripped = StripTrailingSeparators env file
      in s\<lparr>file_permissions := or_entry (file_permissions s) stripped permissions\<rparr>)"

definition State_GrantRequestOfSpecificFile ::
  "'p policy_env \<Rightarrow> 'p \<Rightarrow> 'p SecurityState \<Rightarrow> 'p SecurityState" where
  "State_GrantRequestOfSpecificFile env file s =
     s\<lparr>request_file_set := insert (StripTrailingSeparators env file) (request_file_set s)\<rparr>"

definition State_RevokeAllPermissionsForFile ::
  "'p policy_env \<Rightarrow> 'p \<Rightarrow> 'p SecurityState \<Rightarrow> 'p SecurityState" where
  "State_RevokeAllPermissionsForFile env file s =
     (let stripped = StripTrailingSeparators env file
      in s\<lparr>file_permissions := (file_permissions s)(stripped := None),
           request_file_set := request_file_set s - {stripped}\<rparr>)"

definition State_GrantPermissionsForFileSystem ::
  "string \<Rightarrow> 32 word \<Rightarrow> 'p SecurityState \<Rightarrow> 'p SecurityState" where
  "State_GrantPermissionsForFileSystem filesystem_id permissions s =
     s\<lparr>filesystem_permissions := or_entry (filesystem_permissions s) filesystem_id permissions\<rparr>"

definition State_HasPermissionsForFileSystem :: "'p SecurityState \<Rightarrow> string \<Rightarrow> 32 word \<Rightarrow> bool" where
  "State_HasPermissionsForFileSystem s filesystem_id permissions =
     has_flags (filesystem_permissions s) filesystem_id permissions"

definition State_HasPermissionsForContentUri ::
  "'p policy_env \<Rightarrow> 'p SecurityState \<Rightarrow> 'p \<Rightarrow> 32 word \<Rightarrow> bool" where
  "State_HasPermissionsForContentUri env s file permissions =
     (if permissions = 0 then False
      else has_flags (file_permissions s) (StripTrailingSeparators env file) permissions)"

definition State_GrantBindings :: "32 word \<Rightarrow> 'p SecurityState \<Rightarrow> 'p SecurityState" where
  "State_GrantBindings bindings s = s\<lparr>enabled_bindings := enabled_bindings s OR bindings\<rparr>"

definition State_GrantReadRawCookies :: "'p SecurityState \<Rightarrow> 'p SecurityState" where
  "State_GrantReadRawCookies s = s\<lparr>can_read_raw_cookies := True\<rparr>"

definition State_RevokeReadRawCookies :: "'p SecurityState \<Rightarrow> 'p SecurityState" where
  "State_RevokeReadRawCookies s = s\<lparr>can_read_raw_cookies := False\<rparr>"

definition State_GrantPermissionForMidiSysEx :: "'p SecurityState \<Rightarrow> 'p SecurityState" where
  "State_GrantPermissionForMidiSysEx s = s\<lparr>can_send_midi_sysex := True\<rparr>"

definition State_CanCommitOrigin :: "'p SecurityState \<Rightarrow> Origin \<Rightarrow> bool" where
  "State_CanCommitOrigin s origin \<longleftrightarrow> origin \<in> origin_set s"

definition State_CanCommitURL :: "'p policy_env \<Rightarrow> 'p SecurityState \<Rightarrow> GURL \<Rightarrow> bool" where
  "State_CanCommitURL env s url =
     (if url_scheme url \<in> scheme_policy s then True
      else if State_CanCommitOrigin s (Origin_of (lib env) url) then True
      else if SchemeIs url kFileScheme then
        (case FileURLToFilePath env url of
           Some path \<Rightarrow> path \<in> request_file_set s
         | None \<Rightarrow> False)
      else False)"

text \<open>
  The walk from a path up its directories. \<open>skip\<close> counts the components that a \<open>..\<close> below
  them has cancelled.
\<close>

partial_function (option) permission_walk ::
  "'p policy_env \<Rightarrow> ('p \<rightharpoonup> 32 word) \<Rightarrow> 32 word \<Rightarrow> nat \<Rightarrow> 'p \<Rightarrow> 'p \<Rightarrow> bool option" where
  "permission_walk env perms permissions skip current_path last_path =
     (if current_path = last_path then Some False
      else if BaseName env current_path = kParentDirectory then
        permission_walk env perms permissions (skip + 1) (DirName env current_path) current_path
      else if skip > 0 then
        permission_walk env perms permissions
          (if BaseName env current_path \<noteq> kCurrentDirectory then skip - 1 else skip)
          (DirName env current_path) current_path
      else case perms current_path of
          Some flags \<Rightarrow> Some (flags AND permissions = permissions)
        | None \<Rightarrow> permission_walk env perms permissions skip (DirName env current_path) current_path)"

definition State_HasPermissionsForFile ::
  "'p policy_env \<Rightarrow> 'p SecurityState \<Rightarrow> 'p \<Rightarrow> 32 word \<Rightarrow> bool option" where
  "State_HasPermissionsForFile env s file permissions =
     (if IsContentUri env file then Some (State_HasPermissionsForContentUri env s file permissions)
      else if permissions = 0 \<or> file = empty_path env \<or> \<not> IsAbsolute env file then Some False
      else permission_walk env (file_permissions s) permissions 0
             (StripTrailingSeparators env file) (empty_path env))"

definition State_CanAccessDataForOrigin :: "'p SecurityState \<Rightarrow> GURL \<Rightarrow> bool" where
  "State_CanAccessDataForOrigin s site_url =
     (case origin_lock s of None \<Rightarrow> True | Some l \<Rightarrow> spec l = spec site_url)"

definition State_LockToOrigin :: "GURL \<Rightarrow> 'p SecurityState \<Rightarrow> 'p SecurityState" where
  "State_LockToOrigin gurl s = s\<lparr>origin_lock := if spec gurl = [] then None else Some gurl\<rparr>"

definition has_web_ui_bindings :: "'p SecurityState \<Rightarrow> bool" where
  "has_web_ui_bindings s \<longleftrightarrow> enabled_bindings s AND BINDINGS_POLICY_WEB_UI \<noteq> 0"

subsection \<open>The policy\<close>

text \<open>
  \<open>isolated_references\<close> counts the references that the policy holds on every isolated file
  system: the calls of \<open>IsolatedContext::AddReference\<close> less those of \<open>RemoveReference\<close>.
\<close>

record 'p policy =
  okay_to_commit :: "string set"
  okay_to_request :: "string set"
  okay_as_origin_header :: "string set"
  pseudo_schemes :: "string set"
  security_state :: "int \<rightharpoonup> 'p SecurityState"
  worker_map :: "int \<rightharpoonup> int"
  file_system_policy_map :: "nat \<rightharpoonup> 32 word"
  isolated_origins :: "Origin set"
  isolated_references :: "string \<Rightarrow> int"

definition RegisterWebSafeScheme :: "string \<Rightarrow> 'p policy \<Rightarrow> 'p policy" where
  "RegisterWebSafeScheme scheme p =
     p\<lparr>okay_to_request := insert scheme (okay_to_request p),
       okay_to_commit := insert scheme (okay_to_commit p)\<rparr>"

definition RegisterWebSafeIsolatedScheme :: "string \<Rightarrow> bool \<Rightarrow> 'p policy \<Rightarrow> 'p policy" where
  "RegisterWebSafeIsolatedScheme scheme always_allow_in_origin_headers p =
     (let p = p\<lparr>okay_to_request := insert scheme (okay_to_request p)\<rparr>
      in if always_allow_in_origin_headers
         then p\<lparr>okay_as_origin_header := insert scheme (okay_as_origin_header p)\<rparr> else p)"

definition IsWebSafeScheme :: "'p policy \<Rightarrow> string \<Rightarrow> bool" where
  "IsWebSafeScheme p scheme \<longleftrightarrow> scheme \<in> okay_to_request p"

definition RegisterPseudoScheme :: "string \<Rightarrow> 'p policy \<Rightarrow> 'p policy" where
  "RegisterPseudoScheme scheme p = p\<lparr>pseudo_schemes := insert scheme (pseudo_schemes p)\<rparr>"

definition IsPseudoScheme :: "'p policy \<Rightarrow> string \<Rightarrow> bool" where
  "IsPseudoScheme p scheme \<longleftrightarrow> scheme \<in> pseudo_schemes p"

definition policy_new :: "'p policy" where
  "policy_new =
     fold RegisterPseudoScheme
       [kAboutScheme, kJavaScriptScheme, kViewSourceScheme, kHttpSuboriginScheme, kHttpsSuboriginScheme]
     (fold RegisterWebSafeScheme
       [kHttpScheme, kHttpsScheme, kFtpScheme, kDataScheme, ''feed'', kBlobScheme, kFileSystemScheme]
     \<lparr>okay_to_commit = {}, okay_to_request = {}, okay_as_origin_header = {}, pseudo_schemes = {},
      security_state = (\<lambda>_. None), worker_map = (\<lambda>_. None), file_system_policy_map = (\<lambda>_. None),
      isolated_origins = {}, isolated_references = (\<lambda>_. 0)\<rparr>)"

definition AddChild :: "int \<Rightarrow> 'p policy \<Rightarrow> 'p policy" where
  "AddChild child_id p =
     (if security_state p child_id \<noteq> None then p
      else p\<lparr>security_state := (security_state p)(child_id \<mapsto> SecurityState_new)\<rparr>)"

definition Add :: "int \<Rightarrow> 'p policy \<Rightarrow> 'p policy" where
  "Add child_id p = AddChild child_id p"

definition AddWorker :: "int \<Rightarrow> int \<Rightarrow> 'p policy \<Rightarrow> 'p policy" where
  "AddWorker child_id main_render_process_id p =
     (let p = AddChild child_id p
      in p\<lparr>worker_map := (worker_map p)(child_id \<mapsto> main_render_process_id)\<rparr>)"

text \<open>Destroying a state gives back its file system references.\<close>

definition drop_references :: "'p SecurityState option \<Rightarrow> (string \<Rightarrow> int) \<Rightarrow> string \<Rightarrow> int" where
  "drop_references state refs fs =
     (case state of
        None \<Rightarrow> refs fs
      | Some s \<Rightarrow> if filesystem_permissions s fs = None then refs fs else refs fs - 1)"

definition Remove :: "int \<Rightarrow> 'p policy \<Rightarrow> 'p policy" where
  "Remove child_id p =
     p\<lparr>isolated_references := drop_references (security_state p child_id) (isolated_references p),
       security_state := (security_state p)(child_id := None),
       worker_map := (worker_map p)(child_id := None)\<rparr>"

text \<open>The pattern of every grant: find the child's state, do nothing without one.\<close>

definition on_state ::
  "('p SecurityState \<Rightarrow> 'p SecurityState) \<Rightarrow> int \<Rightarrow> 'p policy \<Rightarrow> 'p policy" where
  "on_state f child_id p =
     (case security_state p child_id of
        None \<Rightarrow> p
      | Some s \<Rightarrow> p\<lparr>security_state := (security_state p)(child_id \<mapsto> f s)\<rparr>)"

definition ask_state :: "('p SecurityState \<Rightarrow> bool) \<Rightarrow> 'p policy \<Rightarrow> int \<Rightarrow> bool" where
  "ask_state f p child_id =
     (case security_state p child_id of None \<Rightarrow> False | Some s \<Rightarrow> f s)"

subsection \<open>Grants\<close>

definition GrantRequestURL :: "int \<Rightarrow> GURL \<Rightarrow> 'p policy \<Rightarrow> 'p policy" where
  "GrantRequestURL child_id url p =
     (if \<not> is_valid url then p
      else if IsWebSafeScheme p (url_scheme url) then p
      else if IsPseudoScheme p (url_scheme url) then p
      else if SchemeIsNested url then p
      else on_state (State_GrantScheme (url_scheme url)) child_id p)"

definition GrantRequestSpecificFileURL ::
  "'p policy_env \<Rightarrow> int \<Rightarrow> GURL \<Rightarrow> 'p policy \<Rightarrow> 'p policy" where
  "GrantRequestSpecificFileURL env child_id url p =
     (if \<not> SchemeIs url kFileScheme then p
      else case FileURLToFilePath env url of
          Some path \<Rightarrow> on_state (State_GrantRequestOfSpecificFile env path) child_id p
        | None \<Rightarrow> p)"

definition GrantPermissionsForFile ::
  "'p policy_env \<Rightarrow> int \<Rightarrow> 'p \<Rightarrow> 32 word \<Rightarrow> 'p policy \<Rightarrow> 'p policy" where
  "GrantPermissionsForFile env child_id file permissions =
     on_state (State_GrantPermissionsForFile env file permissions) child_id"

definition GrantReadFile :: "'p policy_env \<Rightarrow> int \<Rightarrow> 'p \<Rightarrow> 'p policy \<Rightarrow> 'p policy" where
  "GrantReadFile env child_id file = GrantPermissionsForFile env child_id file READ_FILE_GRANT"

definition GrantCreateReadWriteFile :: "'p policy_env \<Rightarrow> int \<Rightarrow> 'p \<Rightarrow> 'p policy \<Rightarrow> 'p policy" where
  "GrantCreateReadWriteFile env child_id file =
     GrantPermissionsForFile env child_id file CREATE_READ_WRITE_FILE_GRANT"

definition GrantCopyInto :: "'p policy_env \<Rightarrow> int \<Rightarrow> 'p \<Rightarrow> 'p policy \<Rightarrow> 'p policy" where
  "GrantCopyInto env child_id dir = GrantPermissionsForFile env child_id dir COPY_INTO_FILE_GRANT"

definition GrantDeleteFrom :: "'p policy_env \<Rightarrow> int \<Rightarrow> 'p \<Rightarrow> 'p policy \<Rightarrow> 'p policy" where
  "GrantDeleteFrom env child_id dir = GrantPermissionsForFile env child_id dir DELETE_FILE_GRANT"

definition RevokeAllPermissionsForFile :: "'p policy_env \<Rightarrow> int \<Rightarrow> 'p \<Rightarrow> 'p policy \<Rightarrow> 'p policy" where
  "RevokeAllPermissionsForFile env child_id file =
     on_state (State_RevokeAllPermissionsForFile env file) child_id"

text \<open>The first grant of a file system takes a reference on it.\<close>

definition GrantPermissionsForFileSystem ::
  "int \<Rightarrow> string \<Rightarrow> 32 word \<Rightarrow> 'p policy \<Rightarrow> 'p policy" where
  "GrantPermissionsForFileSystem child_id filesystem_id permission p =
     (case security_state p child_id of
        None \<Rightarrow> p
      | Some s \<Rightarrow>
          (let p = (if filesystem_permissions s filesystem_id = None
                    then p\<lparr>isolated_references := (isolated_references p)
                             (filesystem_id := isolated_references p filesystem_id + 1)\<rparr>
                    else p)
           in on_state (State_GrantPermissionsForFileSystem filesystem_id permission) child_id p))"

definition GrantReadFileSystem :: "int \<Rightarrow> string \<Rightarrow> 'p policy \<Rightarrow> 'p policy" where
  "GrantReadFileSystem child_id filesystem_id =
     GrantPermissionsForFileSystem child_id filesystem_id READ_FILE_GRANT"

definition GrantWriteFileSystem :: "int \<Rightarrow> string \<Rightarrow> 'p policy \<Rightarrow> 'p policy" where
  "GrantWriteFileSystem child_id filesystem_id =
     GrantPermissionsForFileSystem child_id filesystem_id WRITE_FILE_GRANT"

definition GrantCreateFileForFileSystem :: "int \<Rightarrow> string \<Rightarrow> 'p policy \<Rightarrow> 'p policy" where
  "GrantCreateFileForFileSystem child_id filesystem_id =
     GrantPermissionsForFileSystem child_id filesystem_id CREATE_NEW_FILE_GRANT"

definition GrantCreateReadWriteFileSystem :: "int \<Rightarrow> string \<Rightarrow> 'p policy \<Rightarrow> 'p policy" where
  "GrantCreateReadWriteFileSystem child_id filesystem_id =
     GrantPermissionsForFileSystem child_id filesystem_id CREATE_READ_WRITE_FILE_GRANT"

definition GrantCopyIntoFileSystem :: "int \<Rightarrow> string \<Rightarrow> 'p policy \<Rightarrow> 'p policy" where
  "GrantCopyIntoFileSystem child_id filesystem_id =
     GrantPermissionsForFileSystem child_id filesystem_id COPY_INTO_FILE_GRANT"

definition GrantDeleteFromFileSystem :: "int \<Rightarrow> string \<Rightarrow> 'p policy \<Rightarrow> 'p policy" where
  "GrantDeleteFromFileSystem child_id filesystem_id =
     GrantPermissionsForFileSystem child_id filesystem_id DELETE_FILE_GRANT"

definition GrantSendMidiSysExMessage :: "int \<Rightarrow> 'p policy \<Rightarrow> 'p policy" where
  "GrantSendMidiSysExMessage = on_state State_GrantPermissionForMidiSysEx"

definition GrantOrigin :: "int \<Rightarrow> Origin \<Rightarrow> 'p policy \<Rightarrow> 'p policy" where
  "GrantOrigin child_id origin = on_state (State_GrantOrigin origin) child_id"

definition GrantScheme :: "int \<Rightarrow> string \<Rightarrow> 'p policy \<Rightarrow> 'p policy" where
  "GrantScheme child_id scheme = on_state (State_GrantScheme scheme) child_id"

definition GrantWebUIBindings :: "int \<Rightarrow> 'p policy \<Rightarrow> 'p policy" where
  "GrantWebUIBindings child_id =
     on_state (\<lambda>s. State_GrantScheme kFileScheme
       (State_GrantScheme kChromeUIScheme (State_GrantBindings BINDINGS_POLICY_WEB_UI s))) child_id"

definition GrantReadRawCookies :: "int \<Rightarrow> 'p policy \<Rightarrow> 'p policy" where
  "GrantReadRawCookies = on_state State_GrantReadRawCookies"

definition RevokeReadRawCookies :: "int \<Rightarrow> 'p policy \<Rightarrow> 'p policy" where
  "RevokeReadRawCookies = on_state State_RevokeReadRawCookies"

definition RegisterFileSystemPermissionPolicy :: "nat \<Rightarrow> 32 word \<Rightarrow> 'p policy \<Rightarrow> 'p policy" where
  "RegisterFileSystemPermissionPolicy type flags p =
     p\<lparr>file_system_policy_map := (file_system_policy_map p)(type \<mapsto> flags)\<rparr>"

text \<open>\<open>LockToOrigin\<close> dereferences the end of the map for an unknown child: \<open>None\<close>.\<close>

definition LockToOrigin :: "int \<Rightarrow> GURL \<Rightarrow> 'p policy \<Rightarrow> 'p policy option" where
  "LockToOrigin child_id gurl p =
     (if security_state p child_id = None then None
      else Some (on_state (State_LockToOrigin gurl) child_id p))"

subsection \<open>Isolated origins\<close>

definition IsIsolatedOrigin :: "'p policy \<Rightarrow> Origin \<Rightarrow> bool" where
  "IsIsolatedOrigin p origin \<longleftrightarrow> origin \<in> isolated_origins p"

text \<open>A failing \<open>CHECK\<close> ends the browser: \<open>None\<close>.\<close>

definition AddIsolatedOrigin :: "Origin \<Rightarrow> 'p policy \<Rightarrow> 'p policy option" where
  "AddIsolatedOrigin origin p =
     (if unique origin then None
      else if IsIsolatedOrigin p origin then None
      else Some (p\<lparr>isolated_origins := insert origin (isolated_origins p)\<rparr>))"

primrec add_isolated_origins :: "url_library \<Rightarrow> string list \<Rightarrow> 'p policy \<Rightarrow> 'p policy option" where
  "add_isolated_origins url_lib [] p = Some p"
| "add_isolated_origins url_lib (piece # pieces) p =
     (let origin = Origin_of url_lib (parse_url url_lib piece)
      in if unique origin then add_isolated_origins url_lib pieces p
         else Option.bind (AddIsolatedOrigin origin p) (add_isolated_origins url_lib pieces))"

definition AddIsolatedOriginsFromCommandLine ::
  "'p policy_env \<Rightarrow> string \<Rightarrow> 'p policy \<Rightarrow> 'p policy option" where
  "AddIsolatedOriginsFromCommandLine env origin_list =
     add_isolated_origins (lib env) (SplitOrigins env origin_list)"

subsection \<open>Requesting and committing URLs\<close>

text \<open>The embedded origin of a blob or filesystem URL is judged as a URL of its own.\<close>

partial_function (option) CanCommitURL ::
  "'p policy_env \<Rightarrow> 'p policy \<Rightarrow> int \<Rightarrow> GURL \<Rightarrow> bool option" where
  "CanCommitURL env p child_id url =
     (if \<not> is_valid url then Some False
      else if IsPseudoScheme p (url_scheme url) then
        Some (spec url = kAboutBlankURL \<or> spec url = kAboutSrcDocURL)
      else if SchemeIsNested url then
        if IsMalformedBlobUrl env url then Some False
        else if unique (Origin_of (lib env) url) then Some True
        else CanCommitURL env p child_id
               (parse_url (lib env) (Serialize (lib env) (Origin_of (lib env) url)))
      else if url_scheme url \<in> okay_to_commit p then Some True
      else case security_state p child_id of
          None \<Rightarrow> Some False
        | Some s \<Rightarrow> Some (State_CanCommitURL env s url))"

definition CanRequestURL :: "'p policy_env \<Rightarrow> 'p policy \<Rightarrow> int \<Rightarrow> GURL \<Rightarrow> bool option" where
  "CanRequestURL env p child_id url =
     (if \<not> is_valid url then Some False
      else if IsPseudoScheme p (url_scheme url) then
        Some (IsAboutBlank (lib env) url \<or> spec url = kAboutSrcDocURL)
      else if SchemeIsNested url then
        if IsMalformedBlobUrl env url then Some False
        else let origin = Origin_of (lib env) url in
          if unique origin \<or> IsWebSafeScheme p (origin_scheme origin) then Some True
          else CanCommitURL env p child_id (parse_url (lib env) (Serialize (lib env) origin))
      else if IsWebSafeScheme p (url_scheme url) then Some True
      else Option.bind (CanCommitURL env p child_id url) (\<lambda>can_commit.
        Some (can_commit \<or> (\<not> client_IsHandledURL env url \<and> \<not> net_IsHandledURL env url))))"

definition CanSetAsOriginHeader :: "'p policy_env \<Rightarrow> 'p policy \<Rightarrow> int \<Rightarrow> GURL \<Rightarrow> bool option" where
  "CanSetAsOriginHeader env p child_id url =
     (if \<not> is_valid url then Some False
      else if url_scheme url = kHttpSuboriginScheme \<or> url_scheme url = kHttpsSuboriginScheme
        then Some True
      else if spec url = kAboutSrcDocURL then Some False
      else Option.bind (CanCommitURL env p child_id url) (\<lambda>can_commit.
        Some (can_commit \<or> url_scheme url \<in> okay_as_origin_header p)))"

subsection \<open>Files\<close>

definition ChildProcessHasPermissionsForFile ::
  "'p policy_env \<Rightarrow> 'p policy \<Rightarrow> int \<Rightarrow> 'p \<Rightarrow> 32 word \<Rightarrow> bool option" where
  "ChildProcessHasPermissionsForFile env p child_id file permissions =
     (case security_state p child_id of
        None \<Rightarrow> Some False
      | Some s \<Rightarrow> State_HasPermissionsForFile env s file permissions)"

definition HasPermissionsForFile ::
  "'p policy_env \<Rightarrow> 'p policy \<Rightarrow> int \<Rightarrow> 'p \<Rightarrow> 32 word \<Rightarrow> bool option" where
  "HasPermissionsForFile env p child_id file permissions =
     Option.bind (ChildProcessHasPermissionsForFile env p child_id file permissions) (\<lambda>result.
       if \<not> result then
         (case worker_map p child_id of
            Some main \<Rightarrow>
              if main \<noteq> 0 then ChildProcessHasPermissionsForFile env p main file permissions
              else Some result
          | None \<Rightarrow> Some result)
       else Some result)"

definition CanReadFile :: "'p policy_env \<Rightarrow> 'p policy \<Rightarrow> int \<Rightarrow> 'p \<Rightarrow> bool option" where
  "CanReadFile env p child_id file = HasPermissionsForFile env p child_id file READ_FILE_GRANT"

primrec CanReadAllFiles :: "'p policy_env \<Rightarrow> 'p policy \<Rightarrow> int \<Rightarrow> 'p list \<Rightarrow> bool option" where
  "CanReadAllFiles env p child_id [] = Some True"
| "CanReadAllFiles env p child_id (file # files) =
     Option.bind (CanReadFile env p child_id file) (\<lambda>ok.
       if ok then CanReadAllFiles env p child_id files else Some False)"

definition CanCreateReadWriteFile :: "'p policy_env \<Rightarrow> 'p policy \<Rightarrow> int \<Rightarrow> 'p \<Rightarrow> bool option" where
  "CanCreateReadWriteFile env p child_id file =
     HasPermissionsForFile env p child_id file CREATE_READ_WRITE_FILE_GRANT"

subsection \<open>File systems\<close>

definition HasPermissionsForFileSystem :: "'p policy \<Rightarrow> int \<Rightarrow> string \<Rightarrow> 32 word \<Rightarrow> bool" where
  "HasPermissionsForFileSystem p child_id filesystem_id permission =
     ask_state (\<lambda>s. State_HasPermissionsForFileSystem s filesystem_id permission) p child_id"

definition CanReadFileSystem :: "'p policy \<Rightarrow> int \<Rightarrow> string \<Rightarrow> bool" where
  "CanReadFileSystem p child_id fs = HasPermissionsForFileSystem p child_id fs READ_FILE_GRANT"

definition CanReadWriteFileSystem :: "'p policy \<Rightarrow> int \<Rightarrow> string \<Rightarrow> bool" where
  "CanReadWriteFileSystem p child_id fs =
     HasPermissionsForFileSystem p child_id fs (READ_FILE_GRANT OR WRITE_FILE_GRANT)"

definition CanCopyIntoFileSystem :: "'p policy \<Rightarrow> int \<Rightarrow> string \<Rightarrow> bool" where
  "CanCopyIntoFileSystem p child_id fs =
     HasPermissionsForFileSystem p child_id fs COPY_INTO_FILE_GRANT"

definition CanDeleteFromFileSystem :: "'p policy \<Rightarrow> int \<Rightarrow> string \<Rightarrow> bool" where
  "CanDeleteFromFileSystem p child_id fs =
     HasPermissionsForFileSystem p child_id fs DELETE_FILE_GRANT"

definition HasPermissionsForFileSystemFile ::
  "'p policy_env \<Rightarrow> 'p policy \<Rightarrow> int \<Rightarrow> 'p FileSystemURL \<Rightarrow> 32 word \<Rightarrow> bool option" where
  "HasPermissionsForFileSystemFile env p child_id url permissions =
     (if \<not> fs_is_valid url then Some False
      else if ReferencesParent env (fs_path url) then Some False
      else if IsRootPath env (fs_path url) \<and> permissions AND NOT READ_FILE_GRANT \<noteq> 0
        then Some False
      else if fs_mount_type url = kFileSystemTypeIsolated env then
        Some (HasPermissionsForFileSystem p child_id (fs_mount_filesystem_id url) permissions)
      else Option.bind (CanCommitURL env p child_id (fs_origin url)) (\<lambda>can_commit.
        if \<not> can_commit then Some False
        else case file_system_policy_map p (fs_type url) of
            None \<Rightarrow> Some False
          | Some flags \<Rightarrow>
              if flags AND FILE_PERMISSION_READ_ONLY env \<noteq> 0 \<and> permissions AND NOT READ_FILE_GRANT \<noteq> 0
                then Some False
              else if flags AND FILE_PERMISSION_USE_FILE_PERMISSION env \<noteq> 0 then
                HasPermissionsForFile env p child_id (fs_path url) permissions
              else Some (flags AND FILE_PERMISSION_SANDBOX env \<noteq> 0)))"

definition CanReadFileSystemFile ::
  "'p policy_env \<Rightarrow> 'p policy \<Rightarrow> int \<Rightarrow> 'p FileSystemURL \<Rightarrow> bool option" where
  "CanReadFileSystemFile env p child_id url =
     HasPermissionsForFileSystemFile env p child_id url READ_FILE_GRANT"

definition CanWriteFileSystemFile ::
  "'p policy_env \<Rightarrow> 'p policy \<Rightarrow> int \<Rightarrow> 'p FileSystemURL \<Rightarrow> bool option" where
  "CanWriteFileSystemFile env p child_id url =
     HasPermissionsForFileSystemFile env p child_id url WRITE_FILE_GRANT"

definition CanCreateFileSystemFile ::
  "'p policy_env \<Rightarrow> 'p policy \<Rightarrow> int \<Rightarrow> 'p FileSystemURL \<Rightarrow> bool option" where
  "CanCreateFileSystemFile env p child_id url =
     HasPermissionsForFileSystemFile env p child_id url CREATE_NEW_FILE_GRANT"

definition CanCreateReadWriteFileSystemFile ::
  "'p policy_env \<Rightarrow> 'p policy \<Rightarrow> int \<Rightarrow> 'p FileSystemURL \<Rightarrow> bool option" where
  "CanCreateReadWriteFileSystemFile env p child_id url =
     HasPermissionsForFileSystemFile env p child_id url CREATE_READ_WRITE_FILE_GRANT"

definition CanCopyIntoFileSystemFile ::
  "'p policy_env \<Rightarrow> 'p policy \<Rightarrow> int \<Rightarrow> 'p FileSystemURL \<Rightarrow> bool option" where
  "CanCopyIntoFileSystemFile env p child_id url =
     HasPermissionsForFileSystemFile env p child_id url COPY_INTO_FILE_GRANT"

definition CanDeleteFileSystemFile ::
  "'p policy_env \<Rightarrow> 'p policy \<Rightarrow> int \<Rightarrow> 'p FileSystemURL \<Rightarrow> bool option" where
  "CanDeleteFileSystemFile env p child_id url =
     HasPermissionsForFileSystemFile env p child_id url DELETE_FILE_GRANT"

text \<open>
  A request body is a list of elements, or absent; \<open>crack\<close> is \<open>FileSystemContext::CrackURL\<close>.
\<close>

datatype 'p body_element =
    TYPE_UNKNOWN | TYPE_BYTES | TYPE_BYTES_DESCRIPTION | TYPE_BLOB | TYPE_DISK_CACHE_ENTRY
  | TYPE_FILE 'p | TYPE_FILE_FILESYSTEM GURL

fun can_read_elements ::
  "'p policy_env \<Rightarrow> 'p policy \<Rightarrow> int \<Rightarrow> (GURL \<Rightarrow> 'p FileSystemURL) \<Rightarrow> 'p body_element list \<Rightarrow> bool option"
where
  "can_read_elements env p child_id crack [] = Some True"
| "can_read_elements env p child_id crack (TYPE_FILE path # es) =
     Option.bind (CanReadFile env p child_id path) (\<lambda>ok.
       if \<not> ok then Some False else can_read_elements env p child_id crack es)"
| "can_read_elements env p child_id crack (TYPE_FILE_FILESYSTEM url # es) =
     Option.bind (CanReadFileSystemFile env p child_id (crack url)) (\<lambda>ok.
       if \<not> ok then Some False else can_read_elements env p child_id crack es)"
| "can_read_elements env p child_id crack (TYPE_DISK_CACHE_ENTRY # es) = Some False"
| "can_read_elements env p child_id crack (TYPE_UNKNOWN # es) = Some False"
| "can_read_elements env p child_id crack (_ # es) = can_read_elements env p child_id crack es"

definition CanReadRequestBody ::
  "'p policy_env \<Rightarrow> 'p policy \<Rightarrow> int \<Rightarrow> (GURL \<Rightarrow> 'p FileSystemURL) \<Rightarrow> 'p body_element list option
     \<Rightarrow> bool option" where
  "CanReadRequestBody env p child_id crack body =
     (case body of None \<Rightarrow> Some True | Some es \<Rightarrow> can_read_elements env p child_id crack es)"

subsection \<open>Other checks\<close>

definition HasWebUIBindings :: "'p policy \<Rightarrow> int \<Rightarrow> bool" where
  "HasWebUIBindings = ask_state has_web_ui_bindings"

definition CanReadRawCookies :: "'p policy \<Rightarrow> int \<Rightarrow> bool" where
  "CanReadRawCookies = ask_state can_read_raw_cookies"

definition CanSendMidiSysExMessage :: "'p policy \<Rightarrow> int \<Rightarrow> bool" where
  "CanSendMidiSysExMessage = ask_state can_send_midi_sysex"

definition HasSpecificPermissionForOrigin :: "'p policy \<Rightarrow> int \<Rightarrow> Origin \<Rightarrow> bool" where
  "HasSpecificPermissionForOrigin p child_id origin =
     ask_state (\<lambda>s. State_CanCommitOrigin s origin) p child_id"

subsection \<open>Sites\<close>

text \<open>\<open>content/browser/frame_host/debug_urls.cc\<close>.\<close>

definition IsRendererDebugURL :: "GURL \<Rightarrow> bool" where
  "IsRendererDebugURL url =
     (if \<not> is_valid url then False
      else if SchemeIs url kJavaScriptScheme then True
      else spec url \<in> {''chrome://checkcrash/'', ''chrome://badcastcrash/'', ''chrome://crash/'',
             ''chrome://crashdump/'', ''chrome://kill/'', ''chrome://hang/'', ''chrome://shorthang/'',
             ''chrome://memory-exhaust/''})"

text \<open>
  \<open>site_instance_impl.cc\<close>. \<open>client_RequiresDedicatedProcess\<close> is the embedder's answer in its
  supplementary isolation mode, \<open>all_sites\<close> the switch of \<open>--site-per-process\<close>.
\<close>

definition GetEffectiveURL :: "'p policy_env \<Rightarrow> 'p policy \<Rightarrow> GURL \<Rightarrow> GURL" where
  "GetEffectiveURL env p url =
     (if IsIsolatedOrigin p (Origin_of (lib env) url) then url else client_GetEffectiveURL env url)"

definition GetSiteForURL :: "'p policy_env \<Rightarrow> 'p policy \<Rightarrow> GURL \<Rightarrow> GURL" where
  "GetSiteForURL env p real_url =
     (if SchemeIs real_url kGuestScheme then real_url
      else let url = GetEffectiveURL env p real_url; origin = Origin_of (lib env) url in
        if IsIsolatedOrigin p origin then parse_url (lib env) (Serialize (lib env) origin)
        else if origin_host origin \<noteq> [] then
          let domain = DomainAndRegistry (lib env) (origin_host origin);
              site = origin_scheme origin @ ''://''
                @ (if domain = [] then origin_host origin else domain)
          in parse_url (lib env) site
        else if url_scheme url \<noteq> [] then parse_url (lib env) (url_scheme url @ '':'')
        else parse_url (lib env) [])"

definition IsSameWebSite :: "'p policy_env \<Rightarrow> 'p policy \<Rightarrow> GURL \<Rightarrow> GURL \<Rightarrow> bool" where
  "IsSameWebSite env p real_src_url real_dest_url =
     (let src_url = GetEffectiveURL env p real_src_url;
          dest_url = GetEffectiveURL env p real_dest_url in
      if IsRendererDebugURL src_url \<or> IsRendererDebugURL dest_url then True
      else if \<not> is_valid src_url \<or> \<not> is_valid dest_url then False
      else if spec dest_url = kAboutBlankURL then True
      else let src_origin = Origin_of (lib env) src_url; dest_origin = Origin_of (lib env) dest_url in
        if IsIsolatedOrigin p src_origin \<or> IsIsolatedOrigin p dest_origin
          then src_origin = dest_origin
        else if origin_scheme src_origin \<noteq> origin_scheme dest_origin then False
        else SameDomainOrHost (lib env) src_origin dest_origin)"

definition DoesSiteRequireDedicatedProcess ::
  "'p policy_env \<Rightarrow> 'p policy \<Rightarrow> bool \<Rightarrow> GURL \<Rightarrow> bool" where
  "DoesSiteRequireDedicatedProcess env p all_sites url =
     (if all_sites then True
      else let site_url = GetSiteForURL env p url in
        if IsIsolatedOrigin p (Origin_of (lib env) site_url) then True
        else client_RequiresDedicatedProcess env site_url)"

definition CanAccessDataForOrigin :: "'p policy_env \<Rightarrow> 'p policy \<Rightarrow> int \<Rightarrow> GURL \<Rightarrow> bool" where
  "CanAccessDataForOrigin env p child_id url =
     (let site_url = GetSiteForURL env p url in
      case security_state p child_id of
        None \<Rightarrow> True
      | Some s \<Rightarrow> State_CanAccessDataForOrigin s site_url)"

end
