(* ===== verification/Security_Policy_Lemmas.thy ===== *)
theory Security_Policy_Lemmas
  imports Security_Policy
begin

text \<open>
  The operations of the child process security policy as one step relation, its reachable
  states and their invariants; isolation of the children from each other; and the file walk.
\<close>

subsection \<open>Operations\<close>

datatype 'p policy_op =
    OpAdd int | OpAddWorker int int | OpRemove int
  | OpRegisterWebSafeScheme string | OpRegisterWebSafeIsolatedScheme string bool
  | OpRegisterPseudoScheme string | OpRegisterFileSystemPermissionPolicy nat "32 word"
  | OpGrantRequestURL int GURL | OpGrantRequestSpecificFileURL int GURL
  | OpGrantPermissionsForFile int 'p "32 word" | OpRevokeAllPermissionsForFile int 'p
  | OpGrantPermissionsForFileSystem int string "32 word" | OpGrantSendMidiSysExMessage int
  | OpGrantOrigin int Origin | OpGrantScheme int string | OpGrantWebUIBindings int
  | OpGrantReadRawCookies int | OpRevokeReadRawCookies int | OpLockToOrigin int GURL
  | OpAddIsolatedOrigin Origin | OpAddIsolatedOriginsFromCommandLine string

fun perform :: "'p policy_env \<Rightarrow> 'p policy_op \<Rightarrow> 'p policy \<Rightarrow> 'p policy option" where
  "perform env (OpAdd c) p = Some (Add c p)"
| "perform env (OpAddWorker c m) p = Some (AddWorker c m p)"
| "perform env (OpRemove c) p = Some (Remove c p)"
| "perform env (OpRegisterWebSafeScheme s) p = Some (RegisterWebSafeScheme s p)"
| "perform env (OpRegisterWebSafeIsolatedScheme s h) p = Some (RegisterWebSafeIsolatedScheme s h p)"
| "perform env (OpRegisterPseudoScheme s) p = Some (RegisterPseudoScheme s p)"
| "perform env (OpRegisterFileSystemPermissionPolicy t f) p =
     Some (RegisterFileSystemPermissionPolicy t f p)"
| "perform env (OpGrantRequestURL c u) p = Some (GrantRequestURL c u p)"
| "perform env (OpGrantRequestSpecificFileURL c u) p = Some (GrantRequestSpecificFileURL env c u p)"
| "perform env (OpGrantPermissionsForFile c f m) p = Some (GrantPermissionsForFile env c f m p)"
| "perform env (OpRevokeAllPermissionsForFile c f) p = Some (RevokeAllPermissionsForFile env c f p)"
| "perform env (OpGrantPermissionsForFileSystem c f m) p =
     Some (GrantPermissionsForFileSystem c f m p)"
| "perform env (OpGrantSendMidiSysExMessage c) p = Some (GrantSendMidiSysExMessage c p)"
| "perform env (OpGrantOrigin c ori) p = Some (GrantOrigin c ori p)"
| "perform env (OpGrantScheme c s) p = Some (GrantScheme c s p)"
| "perform env (OpGrantWebUIBindings c) p = Some (GrantWebUIBindings c p)"
| "perform env (OpGrantReadRawCookies c) p = Some (GrantReadRawCookies c p)"
| "perform env (OpRevokeReadRawCookies c) p = Some (RevokeReadRawCookies c p)"
| "perform env (OpLockToOrigin c u) p = LockToOrigin c u p"
| "perform env (OpAddIsolatedOrigin ori) p = AddIsolatedOrigin ori p"
| "perform env (OpAddIsolatedOriginsFromCommandLine l) p = AddIsolatedOriginsFromCommandLine env l p"

text \<open>What the callers owe: the \<open>DCHECK\<close>s of the scheme registrations.\<close>

fun caller_obeys :: "'p policy_op \<Rightarrow> 'p policy \<Rightarrow> bool" where
  "caller_obeys (OpRegisterWebSafeScheme s) p \<longleftrightarrow> s \<notin> okay_to_request p \<and> s \<notin> pseudo_schemes p"
| "caller_obeys (OpRegisterWebSafeIsolatedScheme s h) p \<longleftrightarrow>
     s \<notin> okay_to_request p \<and> s \<notin> pseudo_schemes p"
| "caller_obeys (OpRegisterPseudoScheme s) p \<longleftrightarrow>
     s \<notin> pseudo_schemes p \<and> s \<notin> okay_to_request p \<and> s \<notin> okay_to_commit p"
| "caller_obeys _ p \<longleftrightarrow> True"

inductive reachable_policy :: "'p policy_env \<Rightarrow> 'p policy \<Rightarrow> bool" for env where
  initial: "reachable_policy env policy_new"
| step: "reachable_policy env p \<Longrightarrow> caller_obeys op p \<Longrightarrow> perform env op p = Some p' \<Longrightarrow>
    reachable_policy env p'"

text \<open>The child an operation is about.\<close>

fun subject :: "'p policy_op \<Rightarrow> int option" where
  "subject (OpAdd c) = Some c"
| "subject (OpAddWorker c m) = Some c"
| "subject (OpRemove c) = Some c"
| "subject (OpGrantRequestURL c u) = Some c"
| "subject (OpGrantRequestSpecificFileURL c u) = Some c"
| "subject (OpGrantPermissionsForFile c f m) = Some c"
| "subject (OpRevokeAllPermissionsForFile c f) = Some c"
| "subject (OpGrantPermissionsForFileSystem c f m) = Some c"
| "subject (OpGrantSendMidiSysExMessage c) = Some c"
| "subject (OpGrantOrigin c ori) = Some c"
| "subject (OpGrantScheme c s) = Some c"
| "subject (OpGrantWebUIBindings c) = Some c"
| "subject (OpGrantReadRawCookies c) = Some c"
| "subject (OpRevokeReadRawCookies c) = Some c"
| "subject (OpLockToOrigin c u) = Some c"
| "subject _ = None"

lemmas grant_defs = GrantRequestURL_def GrantRequestSpecificFileURL_def GrantPermissionsForFile_def
  RevokeAllPermissionsForFile_def GrantSendMidiSysExMessage_def GrantOrigin_def GrantScheme_def
  GrantWebUIBindings_def GrantReadRawCookies_def RevokeReadRawCookies_def

lemmas registration_defs = RegisterWebSafeScheme_def RegisterWebSafeIsolatedScheme_def
  RegisterPseudoScheme_def RegisterFileSystemPermissionPolicy_def

subsection \<open>What an update of one state leaves alone\<close>

lemma on_state_frame [simp]:
  "okay_to_commit (on_state f c p) = okay_to_commit p"
  "okay_to_request (on_state f c p) = okay_to_request p"
  "okay_as_origin_header (on_state f c p) = okay_as_origin_header p"
  "pseudo_schemes (on_state f c p) = pseudo_schemes p"
  "worker_map (on_state f c p) = worker_map p"
  "file_system_policy_map (on_state f c p) = file_system_policy_map p"
  "isolated_origins (on_state f c p) = isolated_origins p"
  "isolated_references (on_state f c p) = isolated_references p"
  by (simp_all add: on_state_def split: option.splits)

lemma security_state_on_state [simp]:
  "security_state (on_state f c p) =
     (security_state p)(c := map_option f (security_state p c))"
  by (auto simp: on_state_def split: option.splits)

lemma add_isolated_frame:
  "add_isolated_origins lb pieces p = Some p' \<Longrightarrow>
   p' = p\<lparr>isolated_origins := isolated_origins p'\<rparr> \<and> isolated_origins p \<subseteq> isolated_origins p'
   \<and> (\<forall>ori \<in> isolated_origins p' - isolated_origins p. \<not> unique ori)"
proof (induction pieces arbitrary: p)
  case (Cons piece pieces)
  let ?o = "Origin_of lb (parse_url lb piece)"
  show ?case
  proof (cases "unique ?o")
    case True
    with Cons show ?thesis by (simp add: Let_def)
  next
    case False
    with Cons.prems have r: "?o \<notin> isolated_origins p"
      "add_isolated_origins lb pieces (p\<lparr>isolated_origins := insert ?o (isolated_origins p)\<rparr>) = Some p'"
      by (auto simp: Let_def AddIsolatedOrigin_def IsIsolatedOrigin_def split: if_splits)
    from Cons.IH [OF r(2)] False show ?thesis by auto
  qed
qed simp

subsection \<open>Schemes\<close>

text \<open>Every committable scheme is requestable, and no pseudo scheme is either.\<close>

definition schemes_ok :: "'p policy \<Rightarrow> bool" where
  "schemes_ok p \<longleftrightarrow> okay_to_commit p \<subseteq> okay_to_request p
     \<and> okay_to_request p \<inter> pseudo_schemes p = {}"

lemma fold_RegisterPseudoScheme:
  "fold RegisterPseudoScheme l p = p\<lparr>pseudo_schemes := set l \<union> pseudo_schemes p\<rparr>"
  by (induction l arbitrary: p) (simp_all add: RegisterPseudoScheme_def)

lemma fold_RegisterWebSafeScheme:
  "fold RegisterWebSafeScheme l p =
     p\<lparr>okay_to_request := set l \<union> okay_to_request p, okay_to_commit := set l \<union> okay_to_commit p\<rparr>"
  by (induction l arbitrary: p) (simp_all add: RegisterWebSafeScheme_def)

lemma policy_new_simps [simp]:
  "okay_to_commit policy_new = set [kHttpScheme, kHttpsScheme, kFtpScheme, kDataScheme, ''feed'',
     kBlobScheme, kFileSystemScheme]"
  "okay_to_request policy_new = set [kHttpScheme, kHttpsScheme, kFtpScheme, kDataScheme, ''feed'',
     kBlobScheme, kFileSystemScheme]"
  "okay_as_origin_header policy_new = {}"
  "pseudo_schemes policy_new = set [kAboutScheme, kJavaScriptScheme, kViewSourceScheme,
     kHttpSuboriginScheme, kHttpsSuboriginScheme]"
  "security_state policy_new = (\<lambda>_. None)"
  "worker_map policy_new = (\<lambda>_. None)"
  "file_system_policy_map policy_new = (\<lambda>_. None)"
  "isolated_origins policy_new = {}"
  "isolated_references policy_new = (\<lambda>_. 0)"
  unfolding policy_new_def fold_RegisterPseudoScheme fold_RegisterWebSafeScheme
  by (simp_all only: policy.simps set_simps Un_empty_right)

lemma schemes_ok_new: "schemes_ok policy_new"
  unfolding schemes_ok_def policy_new_simps by code_simp

text \<open>The operations that register no scheme.\<close>

fun registers :: "'p policy_op \<Rightarrow> bool" where
  "registers (OpRegisterWebSafeScheme s) = True"
| "registers (OpRegisterWebSafeIsolatedScheme s h) = True"
| "registers (OpRegisterPseudoScheme s) = True"
| "registers _ = False"

lemma children_frame:
  "okay_to_commit (Add c p) = okay_to_commit p" "okay_to_commit (AddWorker c m p) = okay_to_commit p"
  "okay_to_commit (Remove c p) = okay_to_commit p"
  "okay_to_request (Add c p) = okay_to_request p" "okay_to_request (AddWorker c m p) = okay_to_request p"
  "okay_to_request (Remove c p) = okay_to_request p"
  "pseudo_schemes (Add c p) = pseudo_schemes p" "pseudo_schemes (AddWorker c m p) = pseudo_schemes p"
  "pseudo_schemes (Remove c p) = pseudo_schemes p"
  by (simp_all add: Add_def AddWorker_def AddChild_def Remove_def)

lemma file_system_frame:
  "okay_to_commit (GrantPermissionsForFileSystem c f m p) = okay_to_commit p"
  "okay_to_request (GrantPermissionsForFileSystem c f m p) = okay_to_request p"
  "pseudo_schemes (GrantPermissionsForFileSystem c f m p) = pseudo_schemes p"
  by (simp_all add: GrantPermissionsForFileSystem_def split: option.splits)

lemma url_frame:
  "okay_to_commit (GrantRequestURL c u p) = okay_to_commit p"
  "okay_to_request (GrantRequestURL c u p) = okay_to_request p"
  "pseudo_schemes (GrantRequestURL c u p) = pseudo_schemes p"
  "okay_to_commit (GrantRequestSpecificFileURL env c u p) = okay_to_commit p"
  "okay_to_request (GrantRequestSpecificFileURL env c u p) = okay_to_request p"
  "pseudo_schemes (GrantRequestSpecificFileURL env c u p) = pseudo_schemes p"
  by (simp_all add: GrantRequestURL_def GrantRequestSpecificFileURL_def split: option.splits)

lemma isolated_frame:
  assumes "add_isolated_origins lb pieces p = Some p'"
  shows "okay_to_commit p' = okay_to_commit p" "okay_to_request p' = okay_to_request p"
    "pseudo_schemes p' = pseudo_schemes p" "security_state p' = security_state p"
    "worker_map p' = worker_map p" "isolated_references p' = isolated_references p"
proof -
  obtain X where "p' = p\<lparr>isolated_origins := X\<rparr>" using add_isolated_frame [OF assms] by blast
  then show "okay_to_commit p' = okay_to_commit p" "okay_to_request p' = okay_to_request p"
    "pseudo_schemes p' = pseudo_schemes p" "security_state p' = security_state p"
    "worker_map p' = worker_map p" "isolated_references p' = isolated_references p"
    by simp_all
qed

lemma scheme_frame:
  assumes "\<not> registers op" "perform env op p = Some p'"
  shows "okay_to_commit p' = okay_to_commit p \<and> okay_to_request p' = okay_to_request p
    \<and> pseudo_schemes p' = pseudo_schemes p"
proof (cases op)
  case (OpAddIsolatedOriginsFromCommandLine l)
  with assms isolated_frame [of "lib env" "SplitOrigins env l" p p'] show ?thesis
    by (simp add: AddIsolatedOriginsFromCommandLine_def)
qed (use assms in \<open>auto simp: children_frame file_system_frame url_frame
      GrantPermissionsForFile_def RevokeAllPermissionsForFile_def GrantSendMidiSysExMessage_def
      GrantOrigin_def GrantScheme_def GrantWebUIBindings_def GrantReadRawCookies_def
      RevokeReadRawCookies_def LockToOrigin_def AddIsolatedOrigin_def
      RegisterFileSystemPermissionPolicy_def split: if_splits\<close>)

lemma schemes_ok_step:
  assumes "schemes_ok p" "caller_obeys op p" "perform env op p = Some p'"
  shows "schemes_ok p'"
proof (cases "registers op")
  case False
  with scheme_frame [OF _ assms(3)] assms(1) show ?thesis by (simp add: schemes_ok_def)
next
  case True
  then show ?thesis
    using assms by (cases op) (auto simp: registration_defs schemes_ok_def Let_def split: if_splits)
qed

subsection \<open>Isolation of the children\<close>

lemma Remove_frame:
  "security_state (Remove c p) = (security_state p)(c := None)"
  "worker_map (Remove c p) = (worker_map p)(c := None)"
  by (simp_all add: Remove_def)

lemma child_states_frame:
  "d \<noteq> c \<Longrightarrow> security_state (Add c p) d = security_state p d"
  "d \<noteq> c \<Longrightarrow> security_state (AddWorker c m p) d = security_state p d"
  "d \<noteq> c \<Longrightarrow> security_state (GrantRequestURL c u p) d = security_state p d"
  "d \<noteq> c \<Longrightarrow> security_state (GrantRequestSpecificFileURL env c u p) d = security_state p d"
  "d \<noteq> c \<Longrightarrow> security_state (GrantPermissionsForFileSystem c f fl p) d = security_state p d"
  "worker_map (Add c p) = worker_map p"
  "d \<noteq> c \<Longrightarrow> worker_map (AddWorker c m p) d = worker_map p d"
  "worker_map (GrantRequestURL c u p) = worker_map p"
  "worker_map (GrantRequestSpecificFileURL env c u p) = worker_map p"
  "worker_map (GrantPermissionsForFileSystem c f fl p) = worker_map p"
  by (simp_all add: Add_def AddWorker_def AddChild_def GrantRequestURL_def Let_def
      GrantRequestSpecificFileURL_def GrantPermissionsForFileSystem_def split: option.splits)

lemma registration_frame:
  "security_state (RegisterWebSafeScheme s p) = security_state p"
  "security_state (RegisterWebSafeIsolatedScheme s h p) = security_state p"
  "security_state (RegisterPseudoScheme s p) = security_state p"
  "security_state (RegisterFileSystemPermissionPolicy t f p) = security_state p"
  "worker_map (RegisterWebSafeScheme s p) = worker_map p"
  "worker_map (RegisterWebSafeIsolatedScheme s h p) = worker_map p"
  "worker_map (RegisterPseudoScheme s p) = worker_map p"
  "worker_map (RegisterFileSystemPermissionPolicy t f p) = worker_map p"
  "isolated_references (RegisterWebSafeScheme s p) = isolated_references p"
  "isolated_references (RegisterWebSafeIsolatedScheme s h p) = isolated_references p"
  "isolated_references (RegisterPseudoScheme s p) = isolated_references p"
  "isolated_references (RegisterFileSystemPermissionPolicy t f p) = isolated_references p"
  by (simp_all add: registration_defs Let_def)

lemma other_child_untouched:
  assumes "subject op \<noteq> Some d" "perform env op p = Some p'"
  shows "security_state p' d = security_state p d \<and> worker_map p' d = worker_map p d"
proof (cases op)
  case (OpAddIsolatedOriginsFromCommandLine l)
  with assms isolated_frame [of "lib env" "SplitOrigins env l" p p'] show ?thesis
    by (simp add: AddIsolatedOriginsFromCommandLine_def)
qed (use assms in \<open>auto simp: child_states_frame Remove_frame registration_frame
      GrantPermissionsForFile_def RevokeAllPermissionsForFile_def GrantSendMidiSysExMessage_def
      GrantOrigin_def GrantScheme_def GrantWebUIBindings_def GrantReadRawCookies_def
      RevokeReadRawCookies_def LockToOrigin_def AddIsolatedOrigin_def split: if_splits\<close>)

subsection \<open>References on isolated file systems\<close>

text \<open>The children that were granted something on a file system.\<close>

definition holders :: "'p policy \<Rightarrow> string \<Rightarrow> int set" where
  "holders p fs = {c. \<exists>s. security_state p c = Some s \<and> filesystem_permissions s fs \<noteq> None}"

definition references_ok :: "'p policy \<Rightarrow> bool" where
  "references_ok p \<longleftrightarrow> finite (dom (security_state p))
     \<and> (\<forall>fs. isolated_references p fs = int (card (holders p fs)))"

lemma holders_finite: "finite (dom (security_state p)) \<Longrightarrow> finite (holders p fs)"
  by (rule finite_subset [of _ "dom (security_state p)"]) (auto simp: holders_def)

text \<open>An update of one state that keeps its file systems.\<close>

lemma references_ok_update:
  assumes "references_ok p" "isolated_references p' = isolated_references p"
    and "security_state p' = (security_state p)(c := map_option f (security_state p c))"
    and "\<And>s. filesystem_permissions (f s) = filesystem_permissions s"
  shows "references_ok p'"
proof -
  have "holders p' fs = holders p fs" for fs
    using assms(3,4) by (auto simp: holders_def split: if_splits)
  moreover have "dom (security_state p') \<subseteq> insert c (dom (security_state p))"
    using assms(3) by (auto split: if_splits)
  then have "finite (dom (security_state p'))"
    using assms(1) by (intro finite_subset [OF \<open>_ \<subseteq> _\<close>]) (simp add: references_ok_def)
  ultimately show ?thesis using assms(1,2) by (simp add: references_ok_def)
qed

lemma references_ok_on_state:
  assumes "references_ok p" "\<And>s. filesystem_permissions (f s) = filesystem_permissions s"
  shows "references_ok (on_state f c p)"
  by (rule references_ok_update [OF assms(1) _ security_state_on_state assms(2)]) simp

lemma references_ok_same:
  assumes "references_ok p" "isolated_references p' = isolated_references p"
    and "security_state p' = security_state p"
  shows "references_ok p'"
  using assms by (simp add: references_ok_def holders_def)

lemma state_ops_keep_file_systems [simp]:
  "filesystem_permissions (State_GrantScheme s st) = filesystem_permissions st"
  "filesystem_permissions (State_GrantOrigin ori st) = filesystem_permissions st"
  "filesystem_permissions (State_GrantPermissionsForFile env f m st) = filesystem_permissions st"
  "filesystem_permissions (State_GrantRequestOfSpecificFile env f st) = filesystem_permissions st"
  "filesystem_permissions (State_RevokeAllPermissionsForFile env f st) = filesystem_permissions st"
  "filesystem_permissions (State_GrantBindings b st) = filesystem_permissions st"
  "filesystem_permissions (State_GrantReadRawCookies st) = filesystem_permissions st"
  "filesystem_permissions (State_RevokeReadRawCookies st) = filesystem_permissions st"
  "filesystem_permissions (State_GrantPermissionForMidiSysEx st) = filesystem_permissions st"
  "filesystem_permissions (State_LockToOrigin u st) = filesystem_permissions st"
  by (simp_all add: State_GrantScheme_def State_GrantOrigin_def State_GrantPermissionsForFile_def
      State_GrantRequestOfSpecificFile_def State_RevokeAllPermissionsForFile_def
      State_GrantBindings_def State_GrantReadRawCookies_def State_RevokeReadRawCookies_def
      State_GrantPermissionForMidiSysEx_def State_LockToOrigin_def Let_def)

lemma references_ok_AddChild:
  assumes "references_ok p" shows "references_ok (AddChild c p)"
proof (cases "security_state p c = None")
  case True
  then have "holders (AddChild c p) fs = holders p fs" for fs
    by (auto simp: holders_def AddChild_def SecurityState_new_def)
  with assms True show ?thesis by (simp add: references_ok_def AddChild_def)
qed (use assms in \<open>simp add: AddChild_def\<close>)

lemma references_ok_Remove:
  assumes "references_ok p" shows "references_ok (Remove c p)"
proof -
  have "int (card (holders (Remove c p) fs)) = drop_references (security_state p c) (isolated_references p) fs"
    for fs
  proof (cases "c \<in> holders p fs")
    case True
    then have "holders (Remove c p) fs = holders p fs - {c}" by (auto simp: holders_def Remove_def)
    moreover have "0 < card (holders p fs)"
      using True assms holders_finite [of p fs] by (auto simp: references_ok_def card_gt_0_iff)
    ultimately show ?thesis
      using True assms by (auto simp: references_ok_def drop_references_def holders_def of_nat_diff)
  next
    case False
    then have "holders (Remove c p) fs = holders p fs" by (auto simp: holders_def Remove_def)
    then show ?thesis
      using False assms by (auto simp: references_ok_def drop_references_def holders_def
          split: option.splits)
  qed
  then show ?thesis using assms by (simp add: references_ok_def Remove_def)
qed

lemma references_ok_GrantPermissionsForFileSystem:
  assumes "references_ok p" shows "references_ok (GrantPermissionsForFileSystem c f m p)"
proof (cases "security_state p c")
  case None
  with assms show ?thesis by (simp add: GrantPermissionsForFileSystem_def)
next
  case (Some s)
  let ?p = "GrantPermissionsForFileSystem c f m p"
  have st: "security_state ?p = (security_state p)(c \<mapsto> State_GrantPermissionsForFileSystem f m s)"
    using Some by (simp add: GrantPermissionsForFileSystem_def Let_def)
  have refs: "isolated_references ?p =
      (if filesystem_permissions s f = None
       then (isolated_references p)(f := isolated_references p f + 1) else isolated_references p)"
    using Some by (simp add: GrantPermissionsForFileSystem_def Let_def)
  have holders: "holders ?p g = (if g = f then insert c (holders p f) else holders p g)" for g
    using Some st by (auto simp: holders_def State_GrantPermissionsForFileSystem_def or_entry_def
        split: if_splits)
  have "c \<in> holders p f \<longleftrightarrow> filesystem_permissions s f \<noteq> None"
    using Some by (auto simp: holders_def)
  then have "isolated_references ?p g = int (card (holders ?p g))" for g
    using assms holders_finite [of p f]
    by (auto simp: refs holders references_ok_def insert_absorb)
  then show ?thesis using assms st by (simp add: references_ok_def)
qed

lemma references_ok_new: "references_ok policy_new"
  by (simp add: references_ok_def holders_def)

lemma references_ok_step:
  assumes "references_ok p" "perform env op p = Some p'"
  shows "references_ok p'"
proof (cases op)
  case (OpAddWorker c m)
  with assms references_ok_same [OF references_ok_AddChild [OF assms(1), of c]] show ?thesis
    by (auto simp: AddWorker_def Let_def)
next
  case (OpGrantRequestURL c u)
  with assms show ?thesis
    by (auto simp: GrantRequestURL_def intro: references_ok_on_state split: if_splits)
next
  case (OpGrantRequestSpecificFileURL c u)
  with assms show ?thesis
    by (auto simp: GrantRequestSpecificFileURL_def intro: references_ok_on_state
        split: if_splits option.splits)
next
  case (OpAddIsolatedOriginsFromCommandLine l)
  with assms show ?thesis
    by (auto simp: AddIsolatedOriginsFromCommandLine_def intro: references_ok_same dest: isolated_frame)
next
  case (OpAddIsolatedOrigin ori)
  with assms show ?thesis
    by (auto simp: AddIsolatedOrigin_def split: if_splits intro: references_ok_same)
qed (use assms in \<open>auto simp: Add_def references_ok_AddChild references_ok_Remove
      references_ok_GrantPermissionsForFileSystem registration_frame references_ok_on_state
      references_ok_same GrantPermissionsForFile_def RevokeAllPermissionsForFile_def
      GrantSendMidiSysExMessage_def GrantOrigin_def GrantScheme_def GrantWebUIBindings_def
      GrantReadRawCookies_def RevokeReadRawCookies_def LockToOrigin_def
      split: if_splits intro: references_ok_same [OF assms(1)]\<close>)

lemma reachable_invariants:
  "reachable_policy env p \<Longrightarrow> schemes_ok p \<and> references_ok p"
proof (induction rule: reachable_policy.induct)
  case initial
  show ?case using schemes_ok_new references_ok_new by blast
next
  case (step p op p')
  then show ?case using schemes_ok_step references_ok_step by blast
qed

end
