(* ===== verification/Security_Policy_Walk.thy ===== *)
theory Security_Policy_Walk
  imports Security_Policy_Lemmas
begin

text \<open>
  The two chains that outside code determines: the directories above a path, with the nearest
  grant as the specification of the walk, and the origin embedded in a URL.
\<close>

subsection \<open>The directories above a path\<close>

lemma walk_stops: "permission_walk env perms fl k current_path current_path = Some False"
  by (subst permission_walk.simps) simp

lemma walk_returns:
  "(DirName env ^^ Suc n) q = (DirName env ^^ n) q \<Longrightarrow>
   \<exists>b. permission_walk env perms fl k q last_path = Some b"
proof (induction n arbitrary: q k last_path)
  case 0
  then have "DirName env q = q" by simp
  then show ?case
    by (subst permission_walk.simps) (auto simp: walk_stops split: option.splits)
next
  case (Suc n)
  then have "(DirName env ^^ Suc n) (DirName env q) = (DirName env ^^ n) (DirName env q)"
    by (simp only: funpow_Suc_right comp_apply)
  note up = Suc.IH [OF this]
  show ?case
    by (subst permission_walk.simps) (auto intro: up split: option.splits)
qed

text \<open>The path and the directories above it, up to the one that is its own directory.\<close>

definition ancestors :: "'p policy_env \<Rightarrow> nat \<Rightarrow> 'p \<Rightarrow> 'p list" where
  "ancestors env n q = map (\<lambda>i. (DirName env ^^ i) q) [0..<Suc n]"

lemma ancestors_0 [simp]: "ancestors env 0 q = [q]"
  by (simp add: ancestors_def)

lemma ancestors_Suc [simp]: "ancestors env (Suc n) q = q # ancestors env n (DirName env q)"
proof -
  have "[0..<Suc (Suc n)] = 0 # map Suc [0..<Suc n]" by (simp add: upt_conv_Cons map_Suc_upt del: upt_Suc)
  then show ?thesis by (simp add: ancestors_def funpow_swap1 del: upt_Suc)
qed

text \<open>\<open>n\<close> steps lead to the root and no fewer, and no component is a parent reference.\<close>

definition plain_path :: "'p policy_env \<Rightarrow> nat \<Rightarrow> 'p \<Rightarrow> bool" where
  "plain_path env n q \<longleftrightarrow>
     (\<forall>i < n. (DirName env ^^ Suc i) q \<noteq> (DirName env ^^ i) q) \<and>
     (DirName env ^^ Suc n) q = (DirName env ^^ n) q \<and>
     (\<forall>i \<le> n. BaseName env ((DirName env ^^ i) q) \<noteq> kParentDirectory)"

lemma plain_path_0: "plain_path env 0 q \<longleftrightarrow> DirName env q = q \<and> BaseName env q \<noteq> kParentDirectory"
  by (simp add: plain_path_def)

lemma plain_path_Suc:
  "plain_path env (Suc n) q \<longleftrightarrow>
     DirName env q \<noteq> q \<and> BaseName env q \<noteq> kParentDirectory \<and> plain_path env n (DirName env q)"
  unfolding plain_path_def
  by (simp only: All_less_Suc2 all_simps funpow_Suc_right comp_apply funpow_0 id_apply less_Suc_eq_le [symmetric])
     auto

definition nearest_grant :: "('p \<rightharpoonup> 32 word) \<Rightarrow> 'p list \<Rightarrow> 32 word \<Rightarrow> bool" where
  "nearest_grant perms dirs permissions =
     (case find (\<lambda>d. perms d \<noteq> None) dirs of
        None \<Rightarrow> False
      | Some d \<Rightarrow> has_flags perms d permissions)"

lemma walk_nearest:
  "plain_path env n q \<Longrightarrow> q \<noteq> last_path \<Longrightarrow>
   permission_walk env perms fl 0 q last_path = Some (nearest_grant perms (ancestors env n q) fl)"
proof (induction n arbitrary: q last_path)
  case 0
  then show ?case
    by (subst permission_walk.simps)
      (auto simp: plain_path_0 walk_stops nearest_grant_def has_flags_def split: option.splits)
next
  case (Suc n)
  then have "permission_walk env perms fl 0 (DirName env q) q
      = Some (nearest_grant perms (ancestors env n (DirName env q)) fl)"
    by (intro Suc.IH) (auto simp: plain_path_Suc)
  then show ?case
    using Suc.prems
    by (subst permission_walk.simps)
      (auto simp: plain_path_Suc nearest_grant_def has_flags_def split: option.splits)
qed

text \<open>A parent reference cancels the ordinary component before it.\<close>

lemma walk_parent:
  assumes "q \<noteq> last_path" "BaseName env q = kParentDirectory" "DirName env q = r"
    and "r \<noteq> q" "BaseName env r \<noteq> kParentDirectory" "BaseName env r \<noteq> kCurrentDirectory"
  shows "permission_walk env perms fl 0 q last_path = permission_walk env perms fl 0 (DirName env r) r"
proof -
  have "permission_walk env perms fl 0 q last_path = permission_walk env perms fl 1 r q"
    using assms by (subst permission_walk.simps) simp
  also have "\<dots> = permission_walk env perms fl 0 (DirName env r) r"
    using assms by (subst permission_walk.simps) simp
  finally show ?thesis .
qed

lemma walk_last:
  assumes "q \<noteq> l" "q \<noteq> l'"
  shows "permission_walk env perms fl k q l = permission_walk env perms fl k q l'"
  using assms by (subst (1 2) permission_walk.simps) simp

subsection \<open>Committing\<close>

text \<open>The URL of an origin does not embed another origin.\<close>

definition origins_are_flat :: "url_library \<Rightarrow> bool" where
  "origins_are_flat lb \<longleftrightarrow> (\<forall>ori. \<not> SchemeIsNested (parse_url lb (Serialize lb ori)))"

lemma CanCommitURL_plain:
  "\<not> SchemeIsNested url \<Longrightarrow> CanCommitURL env p c url = Some
     (is_valid url \<and>
      (if IsPseudoScheme p (url_scheme url)
       then spec url = kAboutBlankURL \<or> spec url = kAboutSrcDocURL
       else url_scheme url \<in> okay_to_commit p \<or> ask_state (\<lambda>s. State_CanCommitURL env s url) p c))"
  by (subst CanCommitURL.simps) (auto simp: ask_state_def split: option.splits)

lemma CanCommitURL_nested:
  "SchemeIsNested url \<Longrightarrow> is_valid url \<Longrightarrow> \<not> IsPseudoScheme p (url_scheme url) \<Longrightarrow>
   CanCommitURL env p c url =
     (if IsMalformedBlobUrl env url then Some False
      else if unique (Origin_of (lib env) url) then Some True
      else CanCommitURL env p c (parse_url (lib env) (Serialize (lib env) (Origin_of (lib env) url))))"
  by (subst CanCommitURL.simps) simp

lemma CanCommitURL_invalid: "\<not> is_valid url \<Longrightarrow> CanCommitURL env p c url = Some False"
  by (subst CanCommitURL.simps) simp

lemma CanCommitURL_pseudo:
  "is_valid url \<Longrightarrow> IsPseudoScheme p (url_scheme url) \<Longrightarrow>
   CanCommitURL env p c url = Some (spec url = kAboutBlankURL \<or> spec url = kAboutSrcDocURL)"
  by (subst CanCommitURL.simps) simp

lemma CanCommitURL_returns:
  assumes "origins_are_flat (lib env)"
  shows "\<exists>b. CanCommitURL env p c url = Some b"
proof -
  have flat: "\<exists>b. CanCommitURL env p c (parse_url (lib env) (Serialize (lib env) ori)) = Some b" for ori
    using assms CanCommitURL_plain unfolding origins_are_flat_def by blast
  show ?thesis
  proof (cases "SchemeIsNested url")
    case True
    then show ?thesis
      using flat by (subst CanCommitURL.simps) auto
  next
    case False
    then show ?thesis using CanCommitURL_plain by blast
  qed
qed

text \<open>What the invariants say of the built-in schemes.\<close>

lemma perform_grows:
  assumes "perform env op p = Some p'"
  shows "okay_to_commit p \<subseteq> okay_to_commit p' \<and> pseudo_schemes p \<subseteq> pseudo_schemes p'"
proof (cases "registers op")
  case False
  with scheme_frame [OF _ assms] show ?thesis by simp
next
  case True
  then show ?thesis
    using assms by (cases op) (auto simp: registration_defs Let_def split: if_splits)
qed

lemma reachable_grows:
  "reachable_policy env p \<Longrightarrow>
   okay_to_commit policy_new \<subseteq> okay_to_commit p \<and> pseudo_schemes policy_new \<subseteq> pseudo_schemes p"
proof (induction rule: reachable_policy.induct)
  case (step p op p')
  from perform_grows [OF step.hyps(3)] step.IH show ?case by (meson order_trans)
qed simp

end
