(* ===== verification/Security_Policy_Properties.thy ===== *)
theory Security_Policy_Properties
  imports Security_Policy_Walk
begin

text \<open>
  The properties of the child process security policy. The witnesses run it on paths that are
  lists of components, the last one first.
\<close>

definition example_env :: "string list policy_env" where
  "example_env =
     \<lparr>lib = example_library, StripTrailingSeparators = (\<lambda>q. if q \<noteq> [] \<and> hd q = [] then tl q else q),
      BaseName = (\<lambda>q. if q = [] then [] else hd q),
      DirName = (\<lambda>q. if length q < 2 then q else tl q), empty_path = [],
      IsAbsolute = (\<lambda>q. q \<noteq> [] \<and> last q = ''/''), IsContentUri = (\<lambda>q. False),
      ReferencesParent = (\<lambda>q. ''..'' \<in> set q), IsRootPath = (\<lambda>q. q = [''/'']),
      FileURLToFilePath = (\<lambda>u. if SchemeIs u kFileScheme then Some [url_path u, ''/''] else None),
      client_IsHandledURL = (\<lambda>u. True), net_IsHandledURL = (\<lambda>u. True),
      client_GetEffectiveURL = (\<lambda>u. u), client_RequiresDedicatedProcess = (\<lambda>u. False),
      SplitOrigins = (\<lambda>s. [s]), kFileSystemTypeIsolated = 9, FILE_PERMISSION_READ_ONLY = 1,
      FILE_PERMISSION_USE_FILE_PERMISSION = 2, FILE_PERMISSION_SANDBOX = 4\<rparr>"

lemma example_origins_are_flat: "origins_are_flat (lib example_env)"
  by (simp add: origins_are_flat_def example_env_def example_library_def Let_def)

subsection \<open>The states\<close>

text \<open>C29. Children do not affect each other: an operation about one child, and every operation
  about no child, leaves the state of every other child, and with it what that child may do to
  isolated file systems, its bindings, cookies and MIDI access, and, unless it is a worker, to
  files.\<close>

theorem children_are_isolated:
  assumes "subject op \<noteq> Some d" "perform env op p = Some p'"
  shows "security_state p' d = security_state p d \<and>
    HasPermissionsForFileSystem p' d fs fl = HasPermissionsForFileSystem p d fs fl \<and>
    HasWebUIBindings p' d = HasWebUIBindings p d \<and> CanReadRawCookies p' d = CanReadRawCookies p d \<and>
    CanSendMidiSysExMessage p' d = CanSendMidiSysExMessage p d \<and>
    HasSpecificPermissionForOrigin p' d ori = HasSpecificPermissionForOrigin p d ori \<and>
    (worker_map p d = None \<longrightarrow> HasPermissionsForFile env p' d file fl = HasPermissionsForFile env p d file fl)"
  using other_child_untouched [OF assms]
  by (auto simp: HasPermissionsForFileSystem_def HasWebUIBindings_def CanReadRawCookies_def
      CanSendMidiSysExMessage_def HasSpecificPermissionForOrigin_def HasPermissionsForFile_def
      ChildProcessHasPermissionsForFile_def ask_state_def cong: if_cong)

theorem children_are_isolated_witness:
  "HasWebUIBindings (GrantWebUIBindings 7 (Add 7 (policy_new :: string list policy))) 8 = False"
proof -
  have "HasWebUIBindings (GrantWebUIBindings 7 (Add 7 (policy_new :: string list policy))) 8 = HasWebUIBindings (Add 7 (policy_new :: string list policy)) 8"
    using children_are_isolated [of "OpGrantWebUIBindings 7" 8 example_env "Add 7 (policy_new :: string list policy)"
        "GrantWebUIBindings 7 (Add 7 (policy_new :: string list policy))"] by simp
  also have "\<dots> = False" by (simp add: HasWebUIBindings_def ask_state_def Add_def AddChild_def)
  finally show ?thesis .
qed

text \<open>C27. In every state that operations can lead to, the references held on an isolated file
  system are exactly the children that were granted something on it and not removed since; every
  scheme that may be committed anywhere may be requested anywhere, and none is a pseudo
  scheme.\<close>

theorem reachable_states_are_consistent:
  assumes "reachable_policy env p"
  shows "isolated_references p fs
      = int (card {c. \<exists>s. security_state p c = Some s \<and> filesystem_permissions s fs \<noteq> None}) \<and>
    okay_to_commit p \<subseteq> okay_to_request p \<and> okay_to_request p \<inter> pseudo_schemes p = {}"
  using reachable_invariants [OF assms]
  by (simp add: references_ok_def schemes_ok_def holders_def)

theorem reachable_states_are_consistent_witness:
  "isolated_references (GrantReadFileSystem 7 ''x'' (Add 7 (policy_new :: string list policy))) ''x'' = 1"
proof -
  let ?p = "Add 7 (policy_new :: string list policy)"
  let ?q = "GrantReadFileSystem 7 ''x'' ?p"
  have "reachable_policy example_env ?p"
    by (rule reachable_policy.step [OF reachable_policy.initial, of "OpAdd 7"]) simp_all
  then have "reachable_policy example_env ?q"
    by (rule reachable_policy.step [of _ _ "OpGrantPermissionsForFileSystem 7 ''x'' READ_FILE_GRANT"])
      (simp_all add: GrantReadFileSystem_def)
  note reachable_states_are_consistent [OF this, of "''x''"]
  moreover have "{c. \<exists>s. security_state ?q c = Some s \<and> filesystem_permissions s ''x'' \<noteq> None} = {7}"
    by (auto simp: GrantReadFileSystem_def GrantPermissionsForFileSystem_def Add_def AddChild_def
        SecurityState_new_def State_GrantPermissionsForFileSystem_def or_entry_def Let_def
        split: if_splits)
  ultimately show ?thesis by simp
qed

text \<open>A removed child keeps nothing: it has no file or file system permission, no bindings,
  cookies or MIDI access, and commits only what every process may commit.\<close>

lemma removed_child_keeps_nothing:
  assumes "p' = Remove c p"
  shows "HasPermissionsForFile env p' c file fl = Some False \<and>
    \<not> HasPermissionsForFileSystem p' c fs fl \<and> \<not> HasWebUIBindings p' c \<and> \<not> CanReadRawCookies p' c \<and>
    \<not> CanSendMidiSysExMessage p' c \<and> \<not> HasSpecificPermissionForOrigin p' c ori \<and>
    (CanCommitURL env p' c url = Some True \<and> \<not> SchemeIsNested url \<longrightarrow>
      url_scheme url \<in> okay_to_commit p \<or> spec url = kAboutBlankURL \<or> spec url = kAboutSrcDocURL)"
  unfolding assms
  by (auto simp: HasPermissionsForFile_def ChildProcessHasPermissionsForFile_def Remove_frame
      HasPermissionsForFileSystem_def HasWebUIBindings_def CanReadRawCookies_def
      CanSendMidiSysExMessage_def HasSpecificPermissionForOrigin_def ask_state_def
      CanCommitURL_plain children_frame split: if_splits)

subsection \<open>URLs\<close>

text \<open>C30. The decision to commit a URL always ends, provided the URL of an origin embeds no
  further origin, and whatever a child may commit it may request.\<close>

theorem committable_is_requestable:
  assumes "origins_are_flat (lib env)"
    and "\<forall>u. spec u = kAboutBlankURL \<longrightarrow> IsAboutBlank (lib env) u"
  shows "\<exists>commit request. CanCommitURL env p c url = Some commit \<and>
    CanRequestURL env p c url = Some request \<and> (commit \<longrightarrow> request)"
proof -
  let ?inner = "parse_url (lib env) (Serialize (lib env) (Origin_of (lib env) url))"
  obtain b where b: "CanCommitURL env p c url = Some b" using CanCommitURL_returns [OF assms(1)] by blast
  obtain i where i: "CanCommitURL env p c ?inner = Some i"
    using CanCommitURL_returns [OF assms(1)] by blast
  consider "\<not> is_valid url" | "is_valid url" "IsPseudoScheme p (url_scheme url)"
    | "is_valid url" "\<not> IsPseudoScheme p (url_scheme url)" "SchemeIsNested url"
    | "is_valid url" "\<not> IsPseudoScheme p (url_scheme url)" "\<not> SchemeIsNested url"
    by blast
  then show ?thesis
  proof cases
    case 1
    then show ?thesis by (auto simp: CanCommitURL_invalid CanRequestURL_def)
  next
    case 2
    then show ?thesis using assms(2) by (auto simp: CanCommitURL_pseudo CanRequestURL_def)
  next
    case 3
    then show ?thesis using i by (auto simp: CanCommitURL_nested CanRequestURL_def Let_def)
  next
    case 4
    then show ?thesis using b by (auto simp: CanRequestURL_def)
  qed
qed

theorem committable_is_requestable_witness:
  "CanRequestURL example_env policy_new 7 (example_url ''http'' ''/'') = Some True"
proof -
  have "CanCommitURL example_env policy_new 7 (example_url ''http'' ''/'') = Some True"
    by (subst CanCommitURL_plain) (simp_all add: IsPseudoScheme_def)
  moreover have "\<forall>u. spec u = kAboutBlankURL \<longrightarrow> IsAboutBlank (lib example_env) u"
    by (simp add: example_env_def example_library_def)
  ultimately show ?thesis
    using committable_is_requestable [OF example_origins_are_flat, of policy_new 7 "example_url ''http'' ''/''"]
    by auto
qed

text \<open>In every reachable state any process may commit valid http, https, ftp and data URLs,
  and no process, whatever it was granted, may commit or request a javascript: or view-source:
  URL.\<close>

lemma builtin_schemes:
  assumes "reachable_policy env p" "is_valid url" "spec url \<noteq> kAboutBlankURL"
    and "spec url \<noteq> kAboutSrcDocURL" "\<not> IsAboutBlank (lib env) url"
  shows "(url_scheme url \<in> {''http'', ''https'', ''ftp'', ''data''} \<longrightarrow>
      CanCommitURL env p c url = Some True) \<and>
    (url_scheme url \<in> {''javascript'', ''view-source''} \<longrightarrow>
      CanCommitURL env p c url = Some False \<and> CanRequestURL env p c url = Some False)"
proof -
  note grows = reachable_grows [OF assms(1)] and ok = reachable_invariants [OF assms(1)]
  have "{''http'', ''https'', ''ftp'', ''data''} \<subseteq> okay_to_commit p" using grows by simp
  moreover have "okay_to_commit p \<inter> pseudo_schemes p = {}" using ok by (auto simp: schemes_ok_def)
  ultimately have "CanCommitURL env p c url = Some True"
    if "url_scheme url \<in> {''http'', ''https'', ''ftp'', ''data''}"
    using that assms(2) by (subst CanCommitURL_plain) (auto simp: IsPseudoScheme_def)
  moreover have "{''javascript'', ''view-source''} \<subseteq> pseudo_schemes p" using grows by simp
  then have "IsPseudoScheme p (url_scheme url)" if "url_scheme url \<in> {''javascript'', ''view-source''}"
    using that by (auto simp: IsPseudoScheme_def)
  then have "CanCommitURL env p c url = Some False \<and> CanRequestURL env p c url = Some False"
    if "url_scheme url \<in> {''javascript'', ''view-source''}"
    using that assms(2-5) by (simp add: CanCommitURL_pseudo CanRequestURL_def)
  ultimately show ?thesis by blast
qed

subsection \<open>Files\<close>

text \<open>C28. For a child process that is no worker and an absolute path that is no content URI and has no
  parent references, the check of a file permission ends, and it is the specification: among the
  file and the directories above it, from the bottom up, the first that was granted anything
  decides alone, and it must have been granted all the flags. In particular a permission on
  the directory itself, with nothing granted below it, covers the file.\<close>

theorem nearest_grant_decides:
  assumes "security_state p c = Some s" "worker_map p c = None" "\<not> IsContentUri env file"
    and "permissions \<noteq> 0" "file \<noteq> empty_path env" "IsAbsolute env file"
    and "StripTrailingSeparators env file = q" "q \<noteq> empty_path env" "plain_path env n q"
  shows "HasPermissionsForFile env p c file permissions
      = Some (nearest_grant (file_permissions s) (ancestors env n q) permissions)"
  using assms
  by (simp add: HasPermissionsForFile_def ChildProcessHasPermissionsForFile_def
      State_HasPermissionsForFile_def walk_nearest)

theorem nearest_grant_decides_witness:
  "CanReadFile example_env (GrantReadFile example_env 7 [''docs'', ''/''] (Add 7 policy_new)) 7
     [''a.txt'', ''docs'', ''/''] = Some True"
proof -
  let ?p = "GrantReadFile example_env 7 [''docs'', ''/''] (Add 7 policy_new)"
  let ?s = "State_GrantPermissionsForFile example_env [''docs'', ''/''] READ_FILE_GRANT SecurityState_new"
  have fn: "StripTrailingSeparators example_env q = q \<longleftrightarrow> \<not> (q \<noteq> [] \<and> hd q = [])"
    "BaseName example_env q = (if q = [] then [] else hd q)"
    "DirName example_env q = (if length q < 2 then q else tl q)" "empty_path example_env = []"
    "IsAbsolute example_env q = (q \<noteq> [] \<and> last q = ''/'')" "IsContentUri example_env q = False" for q
    by (cases q; auto simp: example_env_def)+
  have st: "security_state ?p 7 = Some ?s" "worker_map ?p 7 = None"
    by (simp_all add: GrantReadFile_def GrantPermissionsForFile_def Add_def AddChild_def)
  have perms: "file_permissions ?s = [[''docs'', ''/''] \<mapsto> 1]"
    by (simp add: State_GrantPermissionsForFile_def example_env_def or_entry_def SecurityState_new_def
        READ_FILE_GRANT_def READ_FILE_PERMISSION_def)
  have "plain_path example_env 2 [''a.txt'', ''docs'', ''/'']"
    by (simp add: numeral_2_eq_2 plain_path_Suc plain_path_0 fn)
  then have "HasPermissionsForFile example_env ?p 7 [''a.txt'', ''docs'', ''/''] READ_FILE_GRANT
      = Some (nearest_grant (file_permissions ?s)
          (ancestors example_env 2 [''a.txt'', ''docs'', ''/'']) READ_FILE_GRANT)"
    using st by (intro nearest_grant_decides) (simp_all add: fn READ_FILE_GRANT_def READ_FILE_PERMISSION_def)
  then show ?thesis
    unfolding perms CanReadFile_def
    by (simp add: numeral_2_eq_2 fn nearest_grant_def has_flags_def READ_FILE_GRANT_def
        READ_FILE_PERMISSION_def)
qed

text \<open>A parent reference gives no way around the grants: the path that goes through an
  ordinary component and back has exactly the permissions of the directory it comes back to.\<close>

lemma parent_reference_grants_nothing:
  assumes "BaseName env q = kParentDirectory" "DirName env q = r" "DirName env r = d"
    and "BaseName env r \<noteq> kParentDirectory" "BaseName env r \<noteq> kCurrentDirectory"
    and "r \<noteq> q" "d \<noteq> r" "q \<noteq> empty_path env" "d \<noteq> empty_path env"
    and "StripTrailingSeparators env q = q" "StripTrailingSeparators env d = d"
    and "\<not> IsContentUri env q" "\<not> IsContentUri env d" "IsAbsolute env q = IsAbsolute env d"
  shows "HasPermissionsForFile env p c q permissions = HasPermissionsForFile env p c d permissions"
proof -
  have "permission_walk env perms permissions 0 q (empty_path env)
      = permission_walk env perms permissions 0 d (empty_path env)" for perms
    using assms walk_parent [of q "empty_path env" env r perms permissions]
      walk_last [of d r "empty_path env"] by metis
  then have "State_HasPermissionsForFile env s q permissions = State_HasPermissionsForFile env s d permissions"
    for s
    using assms by (simp add: State_HasPermissionsForFile_def)
  then have "ChildProcessHasPermissionsForFile env p child q permissions
      = ChildProcessHasPermissionsForFile env p child d permissions" for child
    by (simp add: ChildProcessHasPermissionsForFile_def split: option.splits)
  then show ?thesis
    by (simp add: HasPermissionsForFile_def cong: if_cong option.case_cong)
qed

text \<open>Through the file system API nothing is allowed on an invalid URL, on a path with a
  parent reference, or for writing on the root of a file system; and outside isolated file
  systems nothing is allowed for an origin the process may not commit, nor for writing on a
  read-only type.\<close>

lemma file_system_guards:
  assumes "HasPermissionsForFileSystemFile env p c url permissions = Some True"
  shows "fs_is_valid url \<and> \<not> ReferencesParent env (fs_path url) \<and>
    (IsRootPath env (fs_path url) \<longrightarrow> permissions AND NOT READ_FILE_GRANT = 0) \<and>
    (fs_mount_type url \<noteq> kFileSystemTypeIsolated env \<longrightarrow>
      CanCommitURL env p c (fs_origin url) = Some True \<and>
      (\<exists>flags. file_system_policy_map p (fs_type url) = Some flags \<and>
        (flags AND FILE_PERMISSION_READ_ONLY env \<noteq> 0 \<longrightarrow> permissions AND NOT READ_FILE_GRANT = 0)))"
  using assms
  by (auto simp: HasPermissionsForFileSystemFile_def bind_eq_Some_conv
      split: if_splits option.splits)

text \<open>The grant of one file URL is stored without trailing separators but looked up with
  them: for a URL whose path ends in a separator the grant changes nothing for that URL.\<close>

lemma specific_file_grant_with_separator:
  assumes "SchemeIs url kFileScheme" "FileURLToFilePath env url = Some path"
    and "StripTrailingSeparators env path \<noteq> path"
  shows "CanCommitURL env (GrantRequestSpecificFileURL env c url p) c url = CanCommitURL env p c url"
proof -
  let ?p = "GrantRequestSpecificFileURL env c url p"
  have plain: "\<not> SchemeIsNested url" using assms(1) by simp
  have "ask_state (\<lambda>s. State_CanCommitURL env s url) ?p c
      = ask_state (\<lambda>s. State_CanCommitURL env s url) p c"
    using assms by (auto simp: GrantRequestSpecificFileURL_def ask_state_def State_CanCommitURL_def
        State_GrantRequestOfSpecificFile_def State_CanCommitOrigin_def split: option.splits)
  moreover have "okay_to_commit ?p = okay_to_commit p" "IsPseudoScheme ?p = IsPseudoScheme p"
    by (simp_all add: url_frame IsPseudoScheme_def fun_eq_iff)
  ultimately show ?thesis unfolding CanCommitURL_plain [OF plain] by simp
qed

text \<open>A process locked to a site reaches the data of exactly the URLs whose site is that
  site, and the lock of one process leaves the others unlocked or locked as they were.\<close>

lemma locked_process_data:
  assumes "security_state p c = Some s" "spec site \<noteq> []"
  shows "\<exists>p'. LockToOrigin c site p = Some p' \<and>
    (CanAccessDataForOrigin env p' c url \<longleftrightarrow> spec (GetSiteForURL env p url) = spec site) \<and>
    (\<forall>d. d \<noteq> c \<longrightarrow> CanAccessDataForOrigin env p' d url = CanAccessDataForOrigin env p d url)"
proof -
  let ?p = "on_state (State_LockToOrigin site) c p"
  have "GetSiteForURL env ?p url = GetSiteForURL env p url"
    by (simp add: GetSiteForURL_def GetEffectiveURL_def IsIsolatedOrigin_def)
  then show ?thesis
    using assms by (auto simp: LockToOrigin_def CanAccessDataForOrigin_def Let_def
        State_CanAccessDataForOrigin_def State_LockToOrigin_def cong: option.case_cong)
qed

end
