(* ===== verification/Csp.thy ===== *)
theory Csp
  imports Urls
begin

text \<open>
  Content security policies: \<open>content/common/content_security_policy/\<close> (sources, source lists,
  directives, policies and the context that owns them), the frame host's part of a context in
  \<open>render_frame_host_impl.cc\<close>, and the checks of frame and form navigations in
  \<open>navigation_request.cc\<close> and \<open>form_submission_throttle.cc\<close>.

  A check returns its verdict together with the violations it reported, in order. The virtual
  methods of a context are the fields of \<open>csp_hooks\<close>, with the base class and the frame host
  as two instances.
\<close>

subsection \<open>Sources\<close>

record CSPSource =
  source_scheme :: string
  source_host :: string
  is_host_wildcard :: bool
  source_port :: int
  is_port_wildcard :: bool
  source_path :: string

datatype PortMatchingResult = PortNotMatching | PortMatchingWildcard | PortMatchingUpgrade | PortMatchingExact
datatype SchemeMatchingResult = SchemeNotMatching | SchemeMatchingUpgrade | SchemeMatchingExact

definition CSPSource_default :: CSPSource where
  "CSPSource_default =
     \<lparr>source_scheme = [], source_host = [], is_host_wildcard = False, source_port = PORT_UNSPECIFIED,
      is_port_wildcard = False, source_path = []\<rparr>"

definition HasPort :: "CSPSource \<Rightarrow> bool" where
  "HasPort s \<longleftrightarrow> source_port s \<noteq> PORT_UNSPECIFIED \<or> is_port_wildcard s"

definition HasHost :: "CSPSource \<Rightarrow> bool" where
  "HasHost s \<longleftrightarrow> source_host s \<noteq> [] \<or> is_host_wildcard s"

definition HasPath :: "CSPSource \<Rightarrow> bool" where
  "HasPath s \<longleftrightarrow> source_path s \<noteq> []"

definition IsSchemeOnly :: "CSPSource \<Rightarrow> bool" where
  "IsSchemeOnly s \<longleftrightarrow> \<not> HasHost s"

text \<open>\<open>self\<close> is the context's \<open>self_source()\<close>, absent for a unique origin.\<close>

definition SourceAllowScheme :: "CSPSource \<Rightarrow> GURL \<Rightarrow> CSPSource option \<Rightarrow> SchemeMatchingResult" where
  "SourceAllowScheme source url self =
     (let matching = (\<lambda>allowed_scheme.
        if SchemeIs url allowed_scheme then SchemeMatchingExact
        else if (allowed_scheme = kHttpScheme \<and> SchemeIs url kHttpsScheme)
            \<or> (allowed_scheme = kHttpScheme \<and> SchemeIs url kHttpsSuboriginScheme)
            \<or> (allowed_scheme = kWsScheme \<and> SchemeIs url kWssScheme) then SchemeMatchingUpgrade
        else if (allowed_scheme = kHttpScheme \<and> SchemeIs url kHttpSuboriginScheme)
            \<or> (allowed_scheme = kHttpsScheme \<and> SchemeIs url kHttpsSuboriginScheme)
          then SchemeMatchingExact
        else SchemeNotMatching)
      in if source_scheme source = []
         then (case self of
                 None \<Rightarrow> SchemeNotMatching
               | Some self_source \<Rightarrow> matching (source_scheme self_source))
         else matching (source_scheme source))"

definition SourceAllowHost :: "url_library \<Rightarrow> CSPSource \<Rightarrow> GURL \<Rightarrow> bool" where
  "SourceAllowHost lb source url =
     (if is_host_wildcard source then
        if source_host source = [] then True
        else EndsWith_insensitive lb (url_host url) (CHR ''.'' # source_host source)
      else url_host url = source_host source)"

definition SourceAllowPort :: "url_library \<Rightarrow> CSPSource \<Rightarrow> GURL \<Rightarrow> PortMatchingResult" where
  "SourceAllowPort lb source url =
     (let port = EffectiveIntPort url in
      if is_port_wildcard source then PortMatchingWildcard
      else if source_port source = port then
        if source_port source = PORT_UNSPECIFIED then PortMatchingWildcard else PortMatchingExact
      else if source_port source = PORT_UNSPECIFIED then
        if DefaultPortForScheme lb (url_scheme url) = port then PortMatchingWildcard
        else PortNotMatching
      else let port' = (if source_port source = PORT_UNSPECIFIED
                        then DefaultPortForScheme lb (source_scheme source) else source_port source) in
        if port' = 80 \<and> port = 443 then PortMatchingUpgrade else PortNotMatching)"

definition SourceAllowPath :: "url_library \<Rightarrow> CSPSource \<Rightarrow> GURL \<Rightarrow> bool \<Rightarrow> bool" where
  "SourceAllowPath lb source url is_redirect =
     (if is_redirect then True
      else if source_path source = [] \<or> url_path url = [] then True
      else case DecodePath lb (url_path url) of
          None \<Rightarrow> False
        | Some path \<Rightarrow>
            if EndsWith lb (source_path source) ''/'' then StartsWith lb path (source_path source)
            else source_path source = path)"

definition CSPSource_Allow ::
  "url_library \<Rightarrow> CSPSource \<Rightarrow> GURL \<Rightarrow> CSPSource option \<Rightarrow> bool \<Rightarrow> bool" where
  "CSPSource_Allow lb source url self is_redirect =
     (if IsSchemeOnly source then SourceAllowScheme source url self \<noteq> SchemeNotMatching
      else let portResult = SourceAllowPort lb source url;
               schemeResult = SourceAllowScheme source url self in
        if schemeResult = SchemeMatchingUpgrade
            \<and> \<not> (portResult = PortMatchingUpgrade \<or> portResult = PortMatchingWildcard) then False
        else if portResult = PortMatchingUpgrade \<and> \<not> schemeResult = SchemeMatchingUpgrade then False
        else schemeResult \<noteq> SchemeNotMatching \<and> SourceAllowHost lb source url
          \<and> portResult \<noteq> PortNotMatching \<and> SourceAllowPath lb source url is_redirect)"

definition CSPSource_ToString :: "CSPSource \<Rightarrow> string" where
  "CSPSource_ToString s =
     (if IsSchemeOnly s then source_scheme s @ '':''
      else (if source_scheme s \<noteq> [] then source_scheme s @ ''://'' else [])
        @ (if is_host_wildcard s then if source_host s = [] then ''*'' else ''*.'' @ source_host s
           else source_host s)
        @ (if is_port_wildcard s then '':*'' else [])
        @ (if source_port s \<noteq> PORT_UNSPECIFIED then '':'' @ show_int (source_port s) else [])
        @ source_path s)"

subsection \<open>Source lists\<close>

record CSPSourceList =
  allow_self :: bool
  allow_star :: bool
  list_sources :: "CSPSource list"

primrec AllowFromSources ::
  "url_library \<Rightarrow> GURL \<Rightarrow> CSPSource list \<Rightarrow> CSPSource option \<Rightarrow> bool \<Rightarrow> bool" where
  "AllowFromSources lb url [] self is_redirect = False"
| "AllowFromSources lb url (s # ss) self is_redirect =
     (if CSPSource_Allow lb s url self is_redirect then True
      else AllowFromSources lb url ss self is_redirect)"

definition CSPSourceList_Allow ::
  "url_library \<Rightarrow> CSPSourceList \<Rightarrow> GURL \<Rightarrow> CSPSource option \<Rightarrow> bool \<Rightarrow> bool" where
  "CSPSourceList_Allow lb l url self is_redirect =
     (if allow_star l
          \<and> (SchemeIs url kHttpScheme \<or> SchemeIs url kHttpsScheme \<or> SchemeIs url kHttpSuboriginScheme
             \<or> SchemeIs url kHttpsSuboriginScheme \<or> SchemeIs url kWsScheme \<or> SchemeIs url kWssScheme
             \<or> SchemeIs url ''ftp'') then True
      else if allow_star l \<and> (case self of None \<Rightarrow> False | Some s \<Rightarrow> SchemeIs url (source_scheme s))
        then True
      else if allow_self l
          \<and> (case self of None \<Rightarrow> False | Some s \<Rightarrow> CSPSource_Allow lb s url self is_redirect) then True
      else AllowFromSources lb url (list_sources l) self is_redirect)"

definition IsNone :: "CSPSourceList \<Rightarrow> bool" where
  "IsNone l \<longleftrightarrow> \<not> allow_self l \<and> \<not> allow_star l \<and> list_sources l = []"

primrec print_sources :: "bool \<Rightarrow> CSPSource list \<Rightarrow> string" where
  "print_sources is_empty [] = []"
| "print_sources is_empty (s # ss) =
     (if is_empty then [] else '' '') @ CSPSource_ToString s @ print_sources False ss"

definition CSPSourceList_ToString :: "CSPSourceList \<Rightarrow> string" where
  "CSPSourceList_ToString l =
     (if IsNone l then [CHR 0x27] @ ''none'' @ [CHR 0x27]
      else if allow_star l then ''*''
      else (if allow_self l then [CHR 0x27] @ ''self'' @ [CHR 0x27] else [])
        @ print_sources (\<not> allow_self l) (list_sources l))"

subsection \<open>Directives and policies\<close>

datatype directive_name = DefaultSrc | ChildSrc | FrameSrc | FormAction | UpgradeInsecureRequests | Unknown

fun NameToString :: "directive_name \<Rightarrow> string" where
  "NameToString DefaultSrc = ''default-src''"
| "NameToString ChildSrc = ''child-src''"
| "NameToString FrameSrc = ''frame-src''"
| "NameToString FormAction = ''form-action''"
| "NameToString UpgradeInsecureRequests = ''upgrade-insecure-requests''"
| "NameToString Unknown = []"

definition StringToName :: "string \<Rightarrow> directive_name" where
  "StringToName name =
     (if name = ''default-src'' then DefaultSrc
      else if name = ''child-src'' then ChildSrc
      else if name = ''frame-src'' then FrameSrc
      else if name = ''form-action'' then FormAction
      else if name = ''upgrade-insecure-requests'' then UpgradeInsecureRequests
      else Unknown)"

record CSPDirective =
  directive_name :: directive_name
  source_list :: CSPSourceList

definition CSPDirective_ToString :: "CSPDirective \<Rightarrow> string" where
  "CSPDirective_ToString d = NameToString (directive_name d) @ '' '' @ CSPSourceList_ToString (source_list d)"

datatype policy_type = PolicyReport | PolicyEnforce
datatype policy_source = SourceHTTP | SourceMeta

record ContentSecurityPolicyHeader =
  header_value :: string
  header_type :: policy_type
  header_source :: policy_source

record ContentSecurityPolicy =
  policy_header :: ContentSecurityPolicyHeader
  directives :: "CSPDirective list"
  report_endpoints :: "string list"

definition ContentSecurityPolicy_default :: ContentSecurityPolicy where
  "ContentSecurityPolicy_default =
     \<lparr>policy_header = \<lparr>header_value = [], header_type = PolicyEnforce, header_source = SourceHTTP\<rparr>,
      directives = [], report_endpoints = []\<rparr>"

record SourceLocation =
  location_url :: string
  line_number :: "32 word"
  column_number :: "32 word"

record CSPViolationParams =
  violated_directive :: string
  effective_directive :: string
  console_message :: string
  blocked_url :: GURL
  violation_endpoints :: "string list"
  violated_header :: string
  disposition :: policy_type
  after_redirect :: bool
  violation_location :: SourceLocation

record csp_hooks =
  SchemeShouldBypassCSP :: "string \<Rightarrow> bool"
  SanitizeData :: "bool \<Rightarrow> directive_name \<Rightarrow> GURL \<Rightarrow> SourceLocation \<Rightarrow> GURL \<times> SourceLocation"

record CSPContext =
  self_source :: "CSPSource option"
  policies :: "ContentSecurityPolicy list"

fun CSPFallback :: "directive_name \<Rightarrow> directive_name" where
  "CSPFallback DefaultSrc = Unknown"
| "CSPFallback FormAction = Unknown"
| "CSPFallback UpgradeInsecureRequests = Unknown"
| "CSPFallback FrameSrc = ChildSrc"
| "CSPFallback ChildSrc = DefaultSrc"
| "CSPFallback Unknown = Unknown"

text \<open>\<open>ReportViolation\<close>: the violation it hands to the context.\<close>

definition ReportViolation ::
  "csp_hooks \<Rightarrow> ContentSecurityPolicy \<Rightarrow> CSPDirective \<Rightarrow> directive_name \<Rightarrow> GURL \<Rightarrow> bool
     \<Rightarrow> SourceLocation \<Rightarrow> CSPViolationParams" where
  "ReportViolation hooks policy directive name url is_redirect source_location =
     (let (safe_url, safe_source_location) = SanitizeData hooks is_redirect name url source_location;
          message =
            (if header_type (policy_header policy) = PolicyReport then ''[Report Only] '' else [])
            @ (if name = FormAction then ''Refused to send form data to '' @ [CHR 0x27]
               else if name = FrameSrc then ''Refused to frame '' @ [CHR 0x27] else [])
            @ spec safe_url @ [CHR 0x27] @ '' because it violates the following Content Security Policy directive: ''
            @ [CHR 0x22] @ CSPDirective_ToString directive @ [CHR 0x22] @ ''.''
            @ (if directive_name directive \<noteq> name
               then '' Note that '' @ [CHR 0x27] @ NameToString name @ [CHR 0x27]
                 @ '' was not explicitly set, so '' @ [CHR 0x27] @ NameToString (directive_name directive)
                 @ [CHR 0x27] @ '' is used as a fallback.''
               else [])
            @ [CHR 0x0A]
      in \<lparr>violated_directive = NameToString (directive_name directive),
          effective_directive = NameToString name, console_message = message, blocked_url = safe_url,
          violation_endpoints = report_endpoints policy,
          violated_header = header_value (policy_header policy),
          disposition = header_type (policy_header policy), after_redirect = is_redirect,
          violation_location = safe_source_location\<rparr>)"

definition AllowDirective ::
  "url_library \<Rightarrow> csp_hooks \<Rightarrow> CSPSource option \<Rightarrow> ContentSecurityPolicy \<Rightarrow> CSPDirective
     \<Rightarrow> directive_name \<Rightarrow> GURL \<Rightarrow> bool \<Rightarrow> SourceLocation \<Rightarrow> bool \<times> CSPViolationParams list" where
  "AllowDirective lb hooks self policy directive name url is_redirect loc =
     (if CSPSourceList_Allow lb (source_list directive) url self is_redirect then (True, [])
      else (False, [ReportViolation hooks policy directive name url is_redirect loc]))"

definition ExtractInnerURL :: "url_library \<Rightarrow> GURL \<Rightarrow> GURL" where
  "ExtractInnerURL lb url =
     (case inner_url url of Some inner \<Rightarrow> inner | None \<Rightarrow> parse_url lb (url_path url))"

definition ShouldBypassContentSecurityPolicy :: "url_library \<Rightarrow> csp_hooks \<Rightarrow> GURL \<Rightarrow> bool" where
  "ShouldBypassContentSecurityPolicy lb hooks url =
     (if SchemeIs url kFileSystemScheme \<or> SchemeIs url kBlobScheme
      then SchemeShouldBypassCSP hooks (url_scheme (ExtractInnerURL lb url))
      else SchemeShouldBypassCSP hooks (url_scheme url))"

fun fallback_rank :: "directive_name \<Rightarrow> nat" where
  "fallback_rank FrameSrc = 2"
| "fallback_rank ChildSrc = 1"
| "fallback_rank _ = 0"

text \<open>The \<open>do ... while\<close> loop over the fallbacks of a directive name.\<close>

function allow_loop ::
  "url_library \<Rightarrow> csp_hooks \<Rightarrow> CSPSource option \<Rightarrow> ContentSecurityPolicy \<Rightarrow> directive_name
     \<Rightarrow> directive_name \<Rightarrow> GURL \<Rightarrow> bool \<Rightarrow> SourceLocation \<Rightarrow> bool \<times> CSPViolationParams list" where
  "allow_loop lb hooks self policy name current url is_redirect loc =
     (case find (\<lambda>d. directive_name d = current) (directives policy) of
        Some directive \<Rightarrow>
          let (allowed, reports) = AllowDirective lb hooks self policy directive name url is_redirect loc
          in (allowed \<or> header_type (policy_header policy) = PolicyReport, reports)
      | None \<Rightarrow>
          let current' = CSPFallback current in
          if current' \<noteq> Unknown
          then allow_loop lb hooks self policy name current' url is_redirect loc
          else (True, []))"
  by pat_completeness auto
termination
proof (relation "measure (\<lambda>(_, _, _, _, _, c, _). fallback_rank c)", goal_cases)
  case (2 lb hooks self policy name current url is_redirect loc x)
  then show ?case by (cases current) simp_all
qed simp

declare allow_loop.simps [simp del]

definition ContentSecurityPolicy_Allow ::
  "url_library \<Rightarrow> csp_hooks \<Rightarrow> CSPSource option \<Rightarrow> ContentSecurityPolicy \<Rightarrow> directive_name \<Rightarrow> GURL
     \<Rightarrow> bool \<Rightarrow> SourceLocation \<Rightarrow> bool \<times> CSPViolationParams list" where
  "ContentSecurityPolicy_Allow lb hooks self policy name url is_redirect loc =
     (if ShouldBypassContentSecurityPolicy lb hooks url then (True, [])
      else allow_loop lb hooks self policy name name url is_redirect loc)"

definition ContentSecurityPolicy_ToString :: "ContentSecurityPolicy \<Rightarrow> string" where
  "ContentSecurityPolicy_ToString policy =
     (let (is_first, str) = fold (\<lambda>d (is_first, str).
            (False, str @ (if is_first then [] else ''; '') @ CSPDirective_ToString d))
          (directives policy) (True, [])
      in if report_endpoints policy \<noteq> []
         then str @ (if is_first then [] else ''; '') @ ''report-uri''
           @ concat (map (\<lambda>e. '' '' @ e) (report_endpoints policy))
         else str)"

definition ShouldUpgradeInsecureRequest :: "ContentSecurityPolicy \<Rightarrow> bool" where
  "ShouldUpgradeInsecureRequest policy \<longleftrightarrow>
     (\<exists>d \<in> set (directives policy). directive_name d = UpgradeInsecureRequests)"

end
