(* ===== verification/Csp_Context.thy ===== *)
theory Csp_Context
  imports Csp
begin

text \<open>
  The context of a content security policy, \<open>csp_context.cc\<close>; the frame host as a context and
  the checks of navigations that ask it.
\<close>

subsection \<open>The context\<close>

datatype CheckCSPDisposition = CHECK_REPORT_ONLY_CSP | CHECK_ENFORCED_CSP | CHECK_ALL_CSP

definition CSPContext_new :: CSPContext where
  "CSPContext_new = \<lparr>self_source = None, policies = []\<rparr>"

definition ResetContentSecurityPolicies :: "CSPContext \<Rightarrow> CSPContext" where
  "ResetContentSecurityPolicies c = c\<lparr>policies := []\<rparr>"

definition AddContentSecurityPolicy :: "ContentSecurityPolicy \<Rightarrow> CSPContext \<Rightarrow> CSPContext" where
  "AddContentSecurityPolicy policy c = c\<lparr>policies := policies c @ [policy]\<rparr>"

fun ShouldCheckPolicy :: "ContentSecurityPolicy \<Rightarrow> CheckCSPDisposition \<Rightarrow> bool" where
  "ShouldCheckPolicy policy CHECK_REPORT_ONLY_CSP = (header_type (policy_header policy) = PolicyReport)"
| "ShouldCheckPolicy policy CHECK_ENFORCED_CSP = (header_type (policy_header policy) = PolicyEnforce)"
| "ShouldCheckPolicy policy CHECK_ALL_CSP = True"

text \<open>\<open>allow &= ...\<close>: every policy is checked, whatever the ones before it said.\<close>

primrec check_policies ::
  "url_library \<Rightarrow> csp_hooks \<Rightarrow> CSPSource option \<Rightarrow> directive_name \<Rightarrow> GURL \<Rightarrow> bool \<Rightarrow> SourceLocation
     \<Rightarrow> CheckCSPDisposition \<Rightarrow> bool \<Rightarrow> ContentSecurityPolicy list \<Rightarrow> bool \<times> CSPViolationParams list" where
  "check_policies lb hooks self name url is_redirect loc check allow [] = (allow, [])"
| "check_policies lb hooks self name url is_redirect loc check allow (policy # rest) =
     (if ShouldCheckPolicy policy check then
        let (allowed, reports) =
              ContentSecurityPolicy_Allow lb hooks self policy name url is_redirect loc;
            (result, more) =
              check_policies lb hooks self name url is_redirect loc check (allow \<and> allowed) rest
        in (result, reports @ more)
      else check_policies lb hooks self name url is_redirect loc check allow rest)"

definition IsAllowedByCsp ::
  "url_library \<Rightarrow> csp_hooks \<Rightarrow> CSPContext \<Rightarrow> directive_name \<Rightarrow> GURL \<Rightarrow> bool \<Rightarrow> SourceLocation
     \<Rightarrow> CheckCSPDisposition \<Rightarrow> bool \<times> CSPViolationParams list" where
  "IsAllowedByCsp lb hooks c name url is_redirect loc check =
     (if SchemeShouldBypassCSP hooks (url_scheme url) then (True, [])
      else check_policies lb hooks (self_source c) name url is_redirect loc check True (policies c))"

text \<open>The new URL, when the request has to be modified.\<close>

primrec upgraded_url ::
  "url_library \<Rightarrow> GURL \<Rightarrow> bool \<Rightarrow> ContentSecurityPolicy list \<Rightarrow> GURL option" where
  "upgraded_url lb url is_subresource_or_form_submission [] = None"
| "upgraded_url lb url is_subresource_or_form_submission (policy # rest) =
     (if url_scheme url = ''http'' \<and> ShouldUpgradeInsecureRequest policy
         \<and> is_subresource_or_form_submission
      then Some (ReplaceSchemeAndPort lb url ''https'' (if url_port url = ''80'' then Some ''443'' else None))
      else upgraded_url lb url is_subresource_or_form_submission rest)"

definition ShouldModifyRequestUrlForCsp :: "url_library \<Rightarrow> CSPContext \<Rightarrow> GURL \<Rightarrow> bool \<Rightarrow> GURL option" where
  "ShouldModifyRequestUrlForCsp lb c url is_subresource_or_form_submission =
     upgraded_url lb url is_subresource_or_form_submission (policies c)"

definition SetSelf :: "Origin \<Rightarrow> CSPContext \<Rightarrow> CSPContext" where
  "SetSelf origin c =
     (if unique origin then c\<lparr>self_source := None\<rparr>
      else if origin_scheme origin = kFileScheme then
        c\<lparr>self_source := Some
            \<lparr>source_scheme = kFileScheme, source_host = [], is_host_wildcard = False,
             source_port = PORT_UNSPECIFIED, is_port_wildcard = False, source_path = []\<rparr>\<rparr>
      else c\<lparr>self_source := Some
            \<lparr>source_scheme = origin_scheme origin, source_host = origin_host origin,
             is_host_wildcard = False,
             source_port = (if origin_port origin = 0 then PORT_UNSPECIFIED else origin_port origin),
             is_port_wildcard = False, source_path = []\<rparr>\<rparr>)"

subsection \<open>The virtual methods\<close>

text \<open>The base class.\<close>

definition CSPContext_hooks :: csp_hooks where
  "CSPContext_hooks =
     \<lparr>SchemeShouldBypassCSP = (\<lambda>scheme. False),
      SanitizeData = (\<lambda>is_redirect directive url loc. (url, loc))\<rparr>"

text \<open>
  The frame host: what a report tells is cut down to origins where it is not about the frame's
  own origin. \<open>bypassing_schemes\<close> is \<open>url::GetCSPBypassingSchemes()\<close>.
\<close>

definition SanitizeDataForUseInCspViolation ::
  "url_library \<Rightarrow> Origin \<Rightarrow> bool \<Rightarrow> directive_name \<Rightarrow> GURL \<Rightarrow> SourceLocation \<Rightarrow> GURL \<times> SourceLocation"
where
  "SanitizeDataForUseInCspViolation lb last_committed_origin is_redirect directive url loc =
     (let source_location_url = parse_url lb (location_url loc);
          sanitize_blocked_url =
            (if \<not> is_redirect \<and> directive = FormAction then False
             else \<not> IsSameOriginWith lb (Origin_of lb url) last_committed_origin);
          sanitize_source_location =
            (\<not> IsSameOriginWith lb (Origin_of lb source_location_url) last_committed_origin)
      in (if sanitize_blocked_url then GetOrigin lb url else url,
          if sanitize_source_location
          then \<lparr>location_url = spec (GetOrigin lb source_location_url), line_number = 0,
                column_number = 0\<rparr>
          else loc))"

definition RenderFrameHost_hooks :: "url_library \<Rightarrow> string list \<Rightarrow> Origin \<Rightarrow> csp_hooks" where
  "RenderFrameHost_hooks lb bypassing_schemes last_committed_origin =
     \<lparr>SchemeShouldBypassCSP = (\<lambda>scheme. scheme \<in> set bypassing_schemes),
      SanitizeData = SanitizeDataForUseInCspViolation lb last_committed_origin\<rparr>"

subsection \<open>Navigations\<close>

record navigation_urls =
  common_params_url :: GURL
  original_url :: GURL

definition SourceLocation_default :: SourceLocation where
  "SourceLocation_default = \<lparr>location_url = [], line_number = 0, column_number = 0\<rparr>"

text \<open>
  \<open>NavigationRequest::CheckContentSecurityPolicyFrameSrc\<close>: whether the check passed, the
  navigation's URLs after it, and the reports. \<open>parent\<close> is the context of the parent frame's host.
\<close>

definition CheckContentSecurityPolicyFrameSrc ::
  "url_library \<Rightarrow> csp_hooks \<Rightarrow> CSPContext \<Rightarrow> bool \<Rightarrow> bool \<Rightarrow> SourceLocation option \<Rightarrow> bool
     \<Rightarrow> navigation_urls \<Rightarrow> bool \<times> navigation_urls \<times> CSPViolationParams list" where
  "CheckContentSecurityPolicyFrameSrc lb hooks parent do_not_check is_main_frame loc is_redirect nav =
     (if SchemeIs (common_params_url nav) kAboutScheme then (True, nav, [])
      else if do_not_check then (True, nav, [])
      else if is_main_frame then (True, nav, [])
      else
        let location = (case loc of None \<Rightarrow> SourceLocation_default | Some l \<Rightarrow> l);
            (_, reports) = IsAllowedByCsp lb hooks parent FrameSrc (common_params_url nav)
                             is_redirect location CHECK_REPORT_ONLY_CSP;
            nav' = (if is_redirect then nav
                    else case ShouldModifyRequestUrlForCsp lb parent (common_params_url nav) True of
                        Some new_url \<Rightarrow> nav\<lparr>common_params_url := new_url, original_url := new_url\<rparr>
                      | None \<Rightarrow> nav);
            (allowed, more) = IsAllowedByCsp lb hooks parent FrameSrc (common_params_url nav')
                                is_redirect location CHECK_ENFORCED_CSP
        in (allowed, nav', reports @ more))"

text \<open>\<open>FormSubmissionThrottle\<close>: proceed or cancel.\<close>

definition CheckContentSecurityPolicyFormAction ::
  "url_library \<Rightarrow> csp_hooks \<Rightarrow> CSPContext \<Rightarrow> bool \<Rightarrow> GURL \<Rightarrow> SourceLocation \<Rightarrow> bool
     \<Rightarrow> bool \<times> CSPViolationParams list" where
  "CheckContentSecurityPolicyFormAction lb hooks frame do_not_check url loc is_redirect =
     (if do_not_check then (True, [])
      else IsAllowedByCsp lb hooks frame FormAction url is_redirect loc CHECK_ALL_CSP)"

end
