(* ===== verification/Csp_Properties.thy ===== *)
theory Csp_Properties
  imports Csp_Context
begin

text \<open>
  What the checks of a content security policy decide: the directive that takes effect, the
  verdict over all policies, the meaning of 'self', redirects, what reports disclose, and the
  order of the three phases of a frame navigation.
\<close>

subsection \<open>The effective directive\<close>

fun fallback_chain :: "directive_name \<Rightarrow> directive_name list" where
  "fallback_chain FrameSrc = [FrameSrc, ChildSrc, DefaultSrc]"
| "fallback_chain ChildSrc = [ChildSrc, DefaultSrc]"
| "fallback_chain name = [name]"

text \<open>The first directive of the first name in the chain that has one.\<close>

primrec effective_among :: "CSPDirective list \<Rightarrow> directive_name list \<Rightarrow> CSPDirective option" where
  "effective_among ds [] = None"
| "effective_among ds (name # names) =
     (case find (\<lambda>d. directive_name d = name) ds of Some d \<Rightarrow> Some d | None \<Rightarrow> effective_among ds names)"

definition verdict ::
  "url_library \<Rightarrow> csp_hooks \<Rightarrow> CSPSource option \<Rightarrow> ContentSecurityPolicy \<Rightarrow> directive_name \<Rightarrow> GURL
     \<Rightarrow> bool \<Rightarrow> SourceLocation \<Rightarrow> CSPDirective option \<Rightarrow> bool \<times> CSPViolationParams list" where
  "verdict lb hooks self policy name url is_redirect loc d =
     (case d of
        None \<Rightarrow> (True, [])
      | Some d \<Rightarrow>
          if CSPSourceList_Allow lb (source_list d) url self is_redirect then (True, [])
          else (header_type (policy_header policy) = PolicyReport,
                [ReportViolation hooks policy d name url is_redirect loc]))"

lemma allow_loop_step:
  "allow_loop lb hooks self policy name current url r loc =
     (case find (\<lambda>d. directive_name d = current) (directives policy) of
        Some d \<Rightarrow> verdict lb hooks self policy name url r loc (Some d)
      | None \<Rightarrow> if CSPFallback current \<noteq> Unknown
                then allow_loop lb hooks self policy name (CSPFallback current) url r loc else (True, []))"
  by (subst allow_loop.simps) (simp add: verdict_def AllowDirective_def split: option.splits)

lemma allow_loop_effective:
  "allow_loop lb hooks self policy name current url r loc =
     verdict lb hooks self policy name url r loc
       (effective_among (directives policy) (fallback_chain current))"
proof -
  have verdict_None: "verdict lb hooks self policy name url r loc None = (True, [])"
    by (simp add: verdict_def)
  have leaf: "allow_loop lb hooks self policy name c url r loc =
      verdict lb hooks self policy name url r loc (effective_among (directives policy) [c])"
    if "CSPFallback c = Unknown" for c
    using that by (subst allow_loop_step) (simp add: verdict_None split: option.splits)
  have child: "allow_loop lb hooks self policy name ChildSrc url r loc =
      verdict lb hooks self policy name url r loc (effective_among (directives policy) [ChildSrc, DefaultSrc])"
    by (subst allow_loop_step) (simp add: leaf split: option.splits)
  have frame: "allow_loop lb hooks self policy name FrameSrc url r loc =
      verdict lb hooks self policy name url r loc
        (effective_among (directives policy) [FrameSrc, ChildSrc, DefaultSrc])"
    by (subst allow_loop_step) (simp add: child split: option.splits)
  show ?thesis
    by (cases current) (simp_all only: fallback_chain.simps frame child leaf CSPFallback.simps)
qed

lemma Allow_verdict:
  "ContentSecurityPolicy_Allow lb hooks self policy name url r loc =
     (if ShouldBypassContentSecurityPolicy lb hooks url then (True, [])
      else verdict lb hooks self policy name url r loc
             (effective_among (directives policy) (fallback_chain name)))"
  by (simp add: ContentSecurityPolicy_Allow_def allow_loop_effective)

text \<open>C31. A policy judges a URL by one directive only: the first one of the requested name, else
  of child-src and then default-src where frame-src and child-src fall back to them. Without one
  it allows everything; a URL the directive does not list is reported exactly once and refused,
  unless the policy is report-only.\<close>

theorem effective_directive_decides:
  "ContentSecurityPolicy_Allow lb hooks self policy name url r loc =
     (if ShouldBypassContentSecurityPolicy lb hooks url then (True, [])
      else case effective_among (directives policy) (fallback_chain name) of
          None \<Rightarrow> (True, [])
        | Some d \<Rightarrow>
            if CSPSourceList_Allow lb (source_list d) url self r then (True, [])
            else (header_type (policy_header policy) = PolicyReport,
                  [ReportViolation hooks policy d name url r loc]))"
  by (rule Allow_verdict [unfolded verdict_def])

subsection \<open>All policies\<close>

lemma check_policies_verdict:
  "check_policies lb hooks self name url r loc check allow ps =
     (allow \<and> (\<forall>p \<in> set (filter (\<lambda>p. ShouldCheckPolicy p check) ps).
         fst (ContentSecurityPolicy_Allow lb hooks self p name url r loc)),
      concat (map (\<lambda>p. snd (ContentSecurityPolicy_Allow lb hooks self p name url r loc))
        (filter (\<lambda>p. ShouldCheckPolicy p check) ps)))"
  by (induction ps arbitrary: allow) (auto simp: Let_def split: prod.splits)

lemma report_only_allows:
  "header_type (policy_header p) = PolicyReport \<Longrightarrow>
   fst (ContentSecurityPolicy_Allow lb hooks self p name url r loc)"
  by (simp add: Allow_verdict verdict_def split: option.splits)

text \<open>A request is refused exactly when some enforced policy among the checked ones refuses
  it: report-only policies never block, checking only them always allows, and every checked
  policy reports its own violation even when an earlier one refused.\<close>

lemma only_enforced_policies_block:
  assumes "\<not> SchemeShouldBypassCSP hooks (url_scheme url)"
  shows "(fst (IsAllowedByCsp lb hooks c name url r loc check) \<longleftrightarrow>
      check = CHECK_REPORT_ONLY_CSP \<or>
      (\<forall>p \<in> set (policies c). header_type (policy_header p) = PolicyEnforce \<longrightarrow>
        fst (ContentSecurityPolicy_Allow lb hooks (self_source c) p name url r loc))) \<and>
    snd (IsAllowedByCsp lb hooks c name url r loc check) =
      concat (map (\<lambda>p. snd (ContentSecurityPolicy_Allow lb hooks (self_source c) p name url r loc))
        (filter (\<lambda>p. ShouldCheckPolicy p check) (policies c)))"
proof -
  have report: "fst (ContentSecurityPolicy_Allow lb hooks (self_source c) p name url r loc)"
    if "header_type (policy_header p) \<noteq> PolicyEnforce" for p
    using that by (cases "header_type (policy_header p)") (auto intro: report_only_allows)
  have "(\<forall>p \<in> set (filter (\<lambda>p. ShouldCheckPolicy p check) (policies c)).
        fst (ContentSecurityPolicy_Allow lb hooks (self_source c) p name url r loc)) \<longleftrightarrow>
      check = CHECK_REPORT_ONLY_CSP \<or>
      (\<forall>p \<in> set (policies c). header_type (policy_header p) = PolicyEnforce \<longrightarrow>
        fst (ContentSecurityPolicy_Allow lb hooks (self_source c) p name url r loc))"
    using report by (cases check) (auto intro: report_only_allows)
  then show ?thesis using assms by (simp add: IsAllowedByCsp_def check_policies_verdict)
qed

definition example_policy :: "policy_type \<Rightarrow> ContentSecurityPolicy" where
  "example_policy t =
     \<lparr>policy_header = \<lparr>header_value = [], header_type = t, header_source = SourceHTTP\<rparr>,
      directives = [\<lparr>directive_name = ChildSrc,
        source_list = \<lparr>allow_self = False, allow_star = False, list_sources = []\<rparr>\<rparr>],
      report_endpoints = []\<rparr>"

subsection \<open>Sources\<close>

text \<open>The scheme itself or its suborigin form, and the secure form of an insecure scheme.\<close>

definition same_scheme :: "string \<Rightarrow> string \<Rightarrow> bool" where
  "same_scheme u allowed \<longleftrightarrow> u = allowed \<or>
     ((allowed = kHttpScheme \<and> u = kHttpSuboriginScheme) \<or>
      (allowed = kHttpsScheme \<and> u = kHttpsSuboriginScheme))"

definition secure_scheme :: "string \<Rightarrow> string \<Rightarrow> bool" where
  "secure_scheme u allowed \<longleftrightarrow>
     (allowed = kHttpScheme \<and> u = kHttpsScheme) \<or>
     (allowed = kHttpScheme \<and> u = kHttpsSuboriginScheme) \<or> (allowed = kWsScheme \<and> u = kWssScheme)"

lemma schemes_apart: "\<not> (same_scheme u allowed \<and> secure_scheme u allowed)"
  by (auto simp: same_scheme_def secure_scheme_def)

lemma if_reorder:
  "\<not> (q \<and> r) \<Longrightarrow> (if p then x else if q then y else if r then x else z) = (if p \<or> r then x else if q then y else z)"
  by auto

lemma SourceAllowScheme_eq:
  assumes "source_scheme s \<noteq> []"
  shows "SourceAllowScheme s url self =
    (if same_scheme (url_scheme url) (source_scheme s) then SchemeMatchingExact
     else if secure_scheme (url_scheme url) (source_scheme s) then SchemeMatchingUpgrade
     else SchemeNotMatching)"
proof -
  have "\<not> (secure_scheme (url_scheme url) (source_scheme s) \<and>
      ((source_scheme s = kHttpScheme \<and> SchemeIs url kHttpSuboriginScheme) \<or>
       (source_scheme s = kHttpsScheme \<and> SchemeIs url kHttpsSuboriginScheme)))"
    by (auto simp: secure_scheme_def)
  from if_reorder [OF this] show ?thesis
    unfolding SourceAllowScheme_def Let_def same_scheme_def if_not_P [OF assms] secure_scheme_def .
qed

text \<open>For a page of a tuple origin, 'self' lists exactly the URLs of its host with its scheme
  (or the suborigin form of it) and its port, and beyond those only the secure form of an
  insecure page: https for http and wss for ws, from port 80 to port 443. For a page of a
  unique origin 'self' lists nothing.\<close>

lemma self_lists_own_origin:
  assumes "origin_scheme ori \<notin> {[], ''file''}" "origin_host ori \<noteq> []" "0 < origin_port ori"
    and "l = \<lparr>allow_self = True, allow_star = False, list_sources = []\<rparr>"
  shows "CSPSourceList_Allow lb l url (self_source (SetSelf ori c)) r \<longleftrightarrow>
    \<not> unique ori \<and> url_host url = origin_host ori \<and>
    (same_scheme (url_scheme url) (origin_scheme ori) \<and> EffectiveIntPort url = origin_port ori \<or>
     secure_scheme (url_scheme url) (origin_scheme ori) \<and> origin_port ori = 80 \<and> EffectiveIntPort url = 443)"
proof (cases "unique ori")
  case True
  then show ?thesis using assms(4) by (simp add: SetSelf_def CSPSourceList_Allow_def)
next
  case False
  let ?s = "\<lparr>source_scheme = origin_scheme ori, source_host = origin_host ori,
    is_host_wildcard = False, source_port = origin_port ori, is_port_wildcard = False, source_path = []\<rparr>"
  have self: "self_source (SetSelf ori c) = Some ?s" using False assms by (simp add: SetSelf_def)
  have port: "SourceAllowPort lb ?s url = (if origin_port ori = EffectiveIntPort url then PortMatchingExact
      else if origin_port ori = 80 \<and> EffectiveIntPort url = 443 then PortMatchingUpgrade else PortNotMatching)"
    using assms(3) by (simp add: SourceAllowPort_def)
  have host: "SourceAllowHost lb ?s url \<longleftrightarrow> url_host url = origin_host ori"
    by (simp add: SourceAllowHost_def)
  have path: "SourceAllowPath lb ?s url r" by (simp add: SourceAllowPath_def)
  let ?exact = "same_scheme (url_scheme url) (origin_scheme ori)"
  let ?upgrade = "secure_scheme (url_scheme url) (origin_scheme ori)"
  have scheme: "SourceAllowScheme ?s url self' =
      (if ?exact then SchemeMatchingExact else if ?upgrade then SchemeMatchingUpgrade
       else SchemeNotMatching)" for self'
    using SourceAllowScheme_eq [of ?s url self'] assms(1) by simp
  have scheme_only: "\<not> IsSchemeOnly ?s" using assms(2) by (simp add: IsSchemeOnly_def HasHost_def)
  have "CSPSourceList_Allow lb l url (Some ?s) r \<longleftrightarrow> CSPSource_Allow lb ?s url (Some ?s) r"
    using assms(4) by (simp add: CSPSourceList_Allow_def)
  also have "\<dots> \<longleftrightarrow> url_host url = origin_host ori \<and>
      (?exact \<and> EffectiveIntPort url = origin_port ori \<or>
       ?upgrade \<and> origin_port ori = 80 \<and> EffectiveIntPort url = 443)"
    unfolding CSPSource_Allow_def if_not_P [OF scheme_only] Let_def port scheme host eqTrueI [OF path]
    using schemes_apart [of "url_scheme url" "origin_scheme ori"] by auto
  finally show ?thesis using False unfolding self by simp
qed

text \<open>After a redirect the path of a source is ignored, so that a policy does not reveal where
  a redirect led: a source matches a redirected URL exactly when the source without its path
  matches, and what it matched before a redirect it matches after one.\<close>

lemma redirects_ignore_paths:
  "CSPSource_Allow lb s url self True = CSPSource_Allow lb (s\<lparr>source_path := []\<rparr>) url self b \<and>
   (CSPSource_Allow lb s url self False \<longrightarrow> CSPSource_Allow lb s url self True)"
proof -
  let ?t = "s\<lparr>source_path := []\<rparr>"
  have eq: "IsSchemeOnly ?t = IsSchemeOnly s" "SourceAllowPort lb ?t url = SourceAllowPort lb s url"
    "SourceAllowScheme ?t url self = SourceAllowScheme s url self"
    "SourceAllowHost lb ?t url = SourceAllowHost lb s url"
    by (simp_all add: IsSchemeOnly_def HasHost_def SourceAllowPort_def SourceAllowScheme_def
        SourceAllowHost_def Let_def cong: if_cong)
  have path: "SourceAllowPath lb s url True" "SourceAllowPath lb ?t url b"
    by (simp_all add: SourceAllowPath_def)
  have "CSPSource_Allow lb s url self True = CSPSource_Allow lb ?t url self b"
    unfolding CSPSource_Allow_def eq using path by simp
  moreover have "CSPSource_Allow lb s url self False \<Longrightarrow> CSPSource_Allow lb s url self True"
    using path(1) by (simp add: CSPSource_Allow_def Let_def split: if_split_asm)
  ultimately show ?thesis by blast
qed

subsection \<open>Reports\<close>

lemma reports_of_policy:
  "v \<in> set (snd (ContentSecurityPolicy_Allow lb hooks self p name url r loc)) \<Longrightarrow>
   \<exists>d \<in> set (directives p). v = ReportViolation hooks p d name url r loc"
proof -
  have "effective_among ds ns = Some d \<Longrightarrow> d \<in> set ds" for ds ns d
    by (induction ns) (auto split: option.splits simp: find_Some_iff)
  then show "v \<in> set (snd (ContentSecurityPolicy_Allow lb hooks self p name url r loc)) \<Longrightarrow>
      \<exists>d \<in> set (directives p). v = ReportViolation hooks p d name url r loc"
    by (auto simp: Allow_verdict verdict_def split: if_splits option.splits)
qed

text \<open>A report about a URL of another origin discloses only its origin, unless it is a form
  submission that was not redirected; and a source location of another origin only its origin
  without line and column.\<close>

lemma reports_disclose_origins_only:
  assumes "\<not> SchemeShouldBypassCSP hooks (url_scheme url)"
    and "hooks = RenderFrameHost_hooks lb bypassing committed"
    and "v \<in> set (snd (IsAllowedByCsp lb hooks c name url r loc check))"
  shows "(\<not> IsSameOriginWith lb (Origin_of lb url) committed \<and> (r \<or> name \<noteq> FormAction) \<longrightarrow>
      blocked_url v = GetOrigin lb url) \<and>
    (\<not> IsSameOriginWith lb (Origin_of lb (parse_url lb (location_url loc))) committed \<longrightarrow>
      violation_location v =
        \<lparr>location_url = spec (GetOrigin lb (parse_url lb (location_url loc))), line_number = 0,
         column_number = 0\<rparr>)"
proof -
  obtain p where "v \<in> set (snd (ContentSecurityPolicy_Allow lb hooks (self_source c) p name url r loc))"
    using assms(1,3) by (auto simp: IsAllowedByCsp_def check_policies_verdict)
  then obtain d where "v = ReportViolation hooks p d name url r loc"
    using reports_of_policy by blast
  then show ?thesis
    unfolding assms(2)
    by (auto simp: ReportViolation_def RenderFrameHost_hooks_def SanitizeDataForUseInCspViolation_def Let_def)
qed

subsection \<open>Frame navigations\<close>

lemma upgraded_url_eq:
  "upgraded_url lb url True ps =
     (if url_scheme url = ''http'' \<and> (\<exists>p \<in> set ps. ShouldUpgradeInsecureRequest p)
      then Some (ReplaceSchemeAndPort lb url ''https'' (if url_port url = ''80'' then Some ''443'' else None))
      else None)"
  by (induction ps) auto

text \<open>A frame navigation that is checked goes through three phases in order: the report-only
  policies report on the URL as it was, then, unless it is a redirect, an http URL is upgraded
  when some policy asks for it, and then the enforced policies decide, and report, on the URL as
  it is by then. Nothing else changes the URLs of the navigation.\<close>

lemma frame_navigation_phases:
  assumes "\<And>scheme. \<not> SchemeShouldBypassCSP hooks scheme"
    and "\<not> SchemeIs (common_params_url nav) ''about''"
    and "upgrade \<longleftrightarrow> \<not> r \<and> url_scheme (common_params_url nav) = ''http'' \<and>
      (\<exists>p \<in> set (policies parent). ShouldUpgradeInsecureRequest p)"
    and "final = (if upgrade then ReplaceSchemeAndPort lb (common_params_url nav) ''https''
      (if url_port (common_params_url nav) = ''80'' then Some ''443'' else None) else common_params_url nav)"
  shows "CheckContentSecurityPolicyFrameSrc lb hooks parent False False (Some loc) r nav =
    (\<forall>p \<in> set (policies parent). header_type (policy_header p) = PolicyEnforce \<longrightarrow>
       fst (ContentSecurityPolicy_Allow lb hooks (self_source parent) p FrameSrc final r loc),
     if upgrade then nav\<lparr>common_params_url := final, original_url := final\<rparr> else nav,
     concat (map (\<lambda>p. snd (ContentSecurityPolicy_Allow lb hooks (self_source parent) p FrameSrc
         (common_params_url nav) r loc))
       (filter (\<lambda>p. header_type (policy_header p) = PolicyReport) (policies parent))) @
     concat (map (\<lambda>p. snd (ContentSecurityPolicy_Allow lb hooks (self_source parent) p FrameSrc final r loc))
       (filter (\<lambda>p. header_type (policy_header p) = PolicyEnforce) (policies parent))))"
proof -
  have check: "IsAllowedByCsp lb hooks parent FrameSrc u r loc c =
      (\<forall>p \<in> set (filter (\<lambda>p. ShouldCheckPolicy p c) (policies parent)).
         fst (ContentSecurityPolicy_Allow lb hooks (self_source parent) p FrameSrc u r loc),
       concat (map (\<lambda>p. snd (ContentSecurityPolicy_Allow lb hooks (self_source parent) p FrameSrc u r loc))
        (filter (\<lambda>p. ShouldCheckPolicy p c) (policies parent))))" for u c
    using assms(1) by (simp add: IsAllowedByCsp_def check_policies_verdict)
  have nav: "(if r then nav
      else case ShouldModifyRequestUrlForCsp lb parent (common_params_url nav) True of
          Some new_url \<Rightarrow> nav\<lparr>common_params_url := new_url, original_url := new_url\<rparr> | None \<Rightarrow> nav)
    = (if upgrade then nav\<lparr>common_params_url := final, original_url := final\<rparr> else nav)"
    using assms(3,4) by (auto simp: ShouldModifyRequestUrlForCsp_def upgraded_url_eq)
  have final: "common_params_url (if upgrade then nav\<lparr>common_params_url := final, original_url := final\<rparr> else nav)
      = final"
    using assms(4) by simp
  show ?thesis
    using assms(2) unfolding CheckContentSecurityPolicyFrameSrc_def Let_def nav option.case check
    by (simp add: final) auto
qed

end
