(* ===== verification/Frame_Options.thy ===== *)
theory Frame_Options
  imports Urls
begin

text \<open>
  \<open>content/browser/frame_host/ancestor_throttle.cc\<close>: the \<open>X-Frame-Options\<close> header of a framed
  response. Response headers are a list of name and value in order; the trimming and splitting
  functions of \<open>base\<close> are the fields of \<open>header_library\<close>.
\<close>

subsection \<open>The throttle\<close>

record header_library =
  EnumerateHeader :: "string \<Rightarrow> string list"
  TrimWhitespace :: "string \<Rightarrow> string"
  LowerCaseEquals :: "string \<Rightarrow> string \<Rightarrow> bool"
  SplitDirectives :: "string \<Rightarrow> string list"
  DirectiveStartsWith :: "string \<Rightarrow> string \<Rightarrow> bool"

datatype HeaderDisposition = NONE | DENY | SAMEORIGIN | ALLOWALL | INVALID | CONFLICT | BYPASS

definition HeadersContainFrameAncestorsCSP :: "header_library \<Rightarrow> bool" where
  "HeadersContainFrameAncestorsCSP h =
     list_ex (\<lambda>val. list_ex (\<lambda>directive. DirectiveStartsWith h directive ''frame-ancestors '')
         (SplitDirectives h val))
       (EnumerateHeader h ''content-security-policy'')"

definition value_disposition :: "header_library \<Rightarrow> string \<Rightarrow> HeaderDisposition" where
  "value_disposition h trimmed =
     (if LowerCaseEquals h trimmed ''deny'' then DENY
      else if LowerCaseEquals h trimmed ''allowall'' then ALLOWALL
      else if LowerCaseEquals h trimmed ''sameorigin'' then SAMEORIGIN
      else INVALID)"

primrec parse_values ::
  "header_library \<Rightarrow> string list \<Rightarrow> HeaderDisposition \<Rightarrow> string \<Rightarrow> HeaderDisposition \<times> string" where
  "parse_values h [] result header_value = (result, header_value)"
| "parse_values h (val # vals) result header_value =
     (let trimmed = TrimWhitespace h val;
          header_value' = (if header_value \<noteq> [] then header_value @ '', '' else header_value) @ trimmed;
          current = value_disposition h trimmed;
          result' = (if result = NONE then current else if result \<noteq> current then CONFLICT else result)
      in parse_values h vals result' header_value')"

text \<open>\<open>None\<close> stands for absent headers.\<close>

definition ParseHeader :: "header_library option \<Rightarrow> HeaderDisposition \<times> string" where
  "ParseHeader headers =
     (case headers of
        None \<Rightarrow> (NONE, [])
      | Some h \<Rightarrow>
          let (result, header_value) = parse_values h (EnumerateHeader h ''x-frame-options'') NONE []
          in if result \<noteq> NONE \<and> result \<noteq> ALLOWALL \<and> HeadersContainFrameAncestorsCSP h
             then (BYPASS, header_value) else (result, header_value))"

datatype ThrottleCheckResult =
    PROCEED | DEFER | CANCEL | CANCEL_AND_IGNORE | BLOCK_REQUEST | BLOCK_REQUEST_AND_COLLAPSE
  | BLOCK_RESPONSE

text \<open>What \<open>RecordXFrameOptionsUsage\<close> counts. The comments of the source say that a navigation of the kind
  \<open>SAMEORIGIN_WITH_BAD_ANCESTOR_CHAIN\<close> proceeds and that one of the kind \<open>SAMEORIGIN_BLOCKED\<close> has a
  topmost frame with another origin; the code below does otherwise.\<close>

datatype XFrameOptionsHistogram = UMA_NONE | UMA_DENY | UMA_SAMEORIGIN | SAMEORIGIN_BLOCKED
  | SAMEORIGIN_WITH_BAD_ANCESTOR_CHAIN | UMA_ALLOWALL | UMA_INVALID | UMA_CONFLICT | UMA_BYPASS

primrec same_origin_ancestors :: "url_library \<Rightarrow> Origin \<Rightarrow> Origin list \<Rightarrow> bool" where
  "same_origin_ancestors lb current_origin [] = True"
| "same_origin_ancestors lb current_origin (parent # rest) =
     (if \<not> IsSameOriginWith lb parent current_origin then False
      else same_origin_ancestors lb current_origin rest)"

definition ParseError :: "bool \<Rightarrow> GURL \<Rightarrow> string \<Rightarrow> HeaderDisposition \<Rightarrow> string list" where
  "ParseError has_frame_host url val disposition =
     (if \<not> has_frame_host then []
      else [if disposition = CONFLICT
            then ''Refused to display '' @ [CHR 0x27] @ spec url @ [CHR 0x27]
              @ '' in a frame because it set multiple '' @ [CHR 0x27] @ ''X-Frame-Options'' @ [CHR 0x27]
              @ '' headers with conflicting values ('' @ [CHR 0x27] @ val @ [CHR 0x27]
              @ ''). Falling back to '' @ [CHR 0x27] @ ''deny'' @ [CHR 0x27] @ ''.''
            else ''Invalid '' @ [CHR 0x27] @ ''X-Frame-Options'' @ [CHR 0x27]
              @ '' header encountered when loading '' @ [CHR 0x27] @ spec url @ [CHR 0x27] @ '': ''
              @ [CHR 0x27] @ val @ [CHR 0x27]
              @ '' is not a recognized directive. The header will be ignored.''])"

definition ConsoleError :: "bool \<Rightarrow> GURL \<Rightarrow> HeaderDisposition \<Rightarrow> string list" where
  "ConsoleError has_frame_host url disposition =
     (if \<not> has_frame_host then []
      else [''Refused to display '' @ [CHR 0x27] @ spec url @ [CHR 0x27]
        @ '' in a frame because it set '' @ [CHR 0x27] @ ''X-Frame-Options'' @ [CHR 0x27] @ '' to ''
        @ [CHR 0x27] @ (if disposition = DENY then ''deny'' else ''sameorigin'') @ [CHR 0x27] @ ''.''])"

text \<open>
  \<open>WillProcessResponse\<close>: the decision, the console messages and what the usage histogram counts.
  \<open>ancestors\<close> holds the current origins of the frames above, the parent first and the root last.
\<close>

definition WillProcessResponse ::
  "url_library \<Rightarrow> bool \<Rightarrow> header_library option \<Rightarrow> bool \<Rightarrow> GURL \<Rightarrow> Origin list
     \<Rightarrow> ThrottleCheckResult \<times> string list \<times> XFrameOptionsHistogram list" where
  "WillProcessResponse lb is_download headers has_frame_host url ancestors =
     (if is_download then (PROCEED, [], [])
      else let (disposition, header_value) = ParseHeader headers in
        case disposition of
          CONFLICT \<Rightarrow> (BLOCK_RESPONSE, ParseError has_frame_host url header_value disposition, [UMA_CONFLICT])
        | INVALID \<Rightarrow> (PROCEED, ParseError has_frame_host url header_value disposition, [UMA_INVALID])
        | DENY \<Rightarrow> (BLOCK_RESPONSE, ConsoleError has_frame_host url disposition, [UMA_DENY])
        | SAMEORIGIN \<Rightarrow>
            let current_origin = Origin_of lb url in
            if \<not> same_origin_ancestors lb current_origin ancestors
            then (BLOCK_RESPONSE, ConsoleError has_frame_host url disposition,
              if IsSameOriginWith lb (last ancestors) current_origin
              then [SAMEORIGIN_BLOCKED, SAMEORIGIN_WITH_BAD_ANCESTOR_CHAIN] else [SAMEORIGIN_BLOCKED])
            else (PROCEED, [], [UMA_SAMEORIGIN])
        | NONE \<Rightarrow> (PROCEED, [], [UMA_NONE])
        | BYPASS \<Rightarrow> (PROCEED, [], [UMA_BYPASS])
        | ALLOWALL \<Rightarrow> (PROCEED, [], [UMA_ALLOWALL]))"

subsection \<open>What it decides\<close>

lemma parse_values_result:
  assumes "result \<noteq> NONE"
  shows "fst (parse_values h vals result hv) =
     (if \<forall>v \<in> set vals. value_disposition h (TrimWhitespace h v) = result then result else CONFLICT)"
  using assms
proof (induction vals arbitrary: result hv)
  case (Cons v vals)
  have "value_disposition h t \<noteq> CONFLICT" for t by (simp add: value_disposition_def)
  then show ?case using Cons by (auto simp: Let_def)
qed simp

definition header_meaning :: "header_library \<Rightarrow> HeaderDisposition list \<Rightarrow> HeaderDisposition" where
  "header_meaning h ds =
     (case ds of [] \<Rightarrow> NONE | d # rest \<Rightarrow> if \<forall>e \<in> set rest. e = d then d else CONFLICT)"

lemma parse_values_meaning:
  "fst (parse_values h vals NONE []) = header_meaning h (map (\<lambda>v. value_disposition h (TrimWhitespace h v)) vals)"
proof (cases vals)
  case (Cons v rest)
  have "value_disposition h t \<noteq> NONE" for t by (simp add: value_disposition_def)
  with Cons show ?thesis
    by (simp add: Let_def header_meaning_def parse_values_result)
qed (simp add: header_meaning_def)

lemma same_origin_ancestors_all:
  "same_origin_ancestors lb ori ancestors \<longleftrightarrow> (\<forall>a \<in> set ancestors. IsSameOriginWith lb a ori)"
  by (induction ancestors) auto

lemma response_decision:
  assumes "ParseHeader headers = (d, hv)"
    and "WillProcessResponse lb False headers has_frame_host url ancestors = (result, messages, usage)"
  shows "(result = BLOCK_RESPONSE \<longleftrightarrow>
      d = CONFLICT \<or> d = DENY \<or> d = SAMEORIGIN \<and> (\<exists>a \<in> set ancestors. \<not> IsSameOriginWith lb a (Origin_of lb url))) \<and>
    (SAMEORIGIN_WITH_BAD_ANCESTOR_CHAIN \<in> set usage \<longleftrightarrow> d = SAMEORIGIN \<and>
      (\<exists>a \<in> set ancestors. \<not> IsSameOriginWith lb a (Origin_of lb url)) \<and>
      IsSameOriginWith lb (last ancestors) (Origin_of lb url))"
  using assms(2) unfolding WillProcessResponse_def assms(1)
  by (cases d) (auto simp: Let_def same_origin_ancestors_all split: if_splits)

lemma header_meaning_cases:
  assumes "\<forall>d \<in> set ds. d \<in> {DENY, ALLOWALL, SAMEORIGIN, INVALID}"
  shows "header_meaning h ds = CONFLICT \<longleftrightarrow> ds \<noteq> [] \<and> (\<exists>d \<in> set ds. \<exists>e \<in> set ds. d \<noteq> e)"
    and "header_meaning h ds = DENY \<longleftrightarrow> set ds = {DENY}"
    and "header_meaning h ds = SAMEORIGIN \<longleftrightarrow> set ds = {SAMEORIGIN}"
    and "header_meaning h ds \<noteq> BYPASS"
proof -
  show "header_meaning h ds = CONFLICT \<longleftrightarrow> ds \<noteq> [] \<and> (\<exists>d \<in> set ds. \<exists>e \<in> set ds. d \<noteq> e)"
  proof (cases ds)
    case (Cons d rest)
    then have "d \<noteq> CONFLICT" using assms by auto
    then show ?thesis using Cons by (simp add: header_meaning_def) blast
  qed (simp add: header_meaning_def)
  have "header_meaning h ds = d \<longleftrightarrow> set ds = {d}" if "d \<in> {DENY, SAMEORIGIN}" for d
    using that by (cases ds) (auto simp: header_meaning_def)
  then show "header_meaning h ds = DENY \<longleftrightarrow> set ds = {DENY}"
    "header_meaning h ds = SAMEORIGIN \<longleftrightarrow> set ds = {SAMEORIGIN}" by simp_all
  show "header_meaning h ds \<noteq> BYPASS" using assms by (cases ds) (auto simp: header_meaning_def)
qed

text \<open>C32. A framed response that is no download is blocked exactly when it carries
  \<open>X-Frame-Options\<close> values that do not all mean the same, or all mean deny, or all mean sameorigin
  while some frame above has another origin; and when no frame-ancestors policy replaces the header.
  The topmost frame plays no part in it, against the comments on the usage histogram, by which a
  navigation is blocked because of the topmost frame and proceeds despite another ancestor: a
  navigation counted as \<open>SAMEORIGIN_WITH_BAD_ANCESTOR_CHAIN\<close> is one of those that are blocked, with a
  topmost frame of the same origin.\<close>

theorem framing_is_blocked:
  assumes "ds = map (\<lambda>v. value_disposition h (TrimWhitespace h v)) (EnumerateHeader h ''x-frame-options'')"
    and "WillProcessResponse lb False (Some h) has_frame_host url ancestors = (result, messages, usage)"
  shows "(result = BLOCK_RESPONSE \<longleftrightarrow>
      \<not> HeadersContainFrameAncestorsCSP h \<and> ds \<noteq> [] \<and>
      ((\<exists>d \<in> set ds. \<exists>e \<in> set ds. d \<noteq> e) \<or> set ds = {DENY} \<or>
       set ds = {SAMEORIGIN} \<and> (\<exists>a \<in> set ancestors. \<not> IsSameOriginWith lb a (Origin_of lb url)))) \<and>
    (SAMEORIGIN_WITH_BAD_ANCESTOR_CHAIN \<in> set usage \<longleftrightarrow>
      result = BLOCK_RESPONSE \<and> set ds = {SAMEORIGIN} \<and> IsSameOriginWith lb (last ancestors) (Origin_of lb url))"
proof -
  define m where "m = header_meaning h ds"
  define E where "E \<longleftrightarrow> (\<exists>d \<in> set ds. \<exists>e \<in> set ds. d \<noteq> e)"
  define foreign where "foreign \<longleftrightarrow> (\<exists>a \<in> set ancestors. \<not> IsSameOriginWith lb a (Origin_of lb url))"
  have "\<forall>d \<in> set ds. d \<in> {DENY, ALLOWALL, SAMEORIGIN, INVALID}"
    using assms(1) by (auto simp: value_disposition_def)
  note m = header_meaning_cases [OF this, of h, folded m_def E_def]
  have "fst (parse_values h (EnumerateHeader h ''x-frame-options'') NONE []) = m"
    using parse_values_meaning assms(1) m_def by blast
  then obtain hv where "parse_values h (EnumerateHeader h ''x-frame-options'') NONE [] = (m, hv)"
    by (metis prod.collapse)
  then have "ParseHeader (Some h) =
      (if m \<noteq> NONE \<and> m \<noteq> ALLOWALL \<and> HeadersContainFrameAncestorsCSP h then BYPASS else m, hv)"
    by (simp add: ParseHeader_def)
  note decision = response_decision [OF this assms(2), folded foreign_def]
  have blocked: "result = BLOCK_RESPONSE \<longleftrightarrow>
      \<not> HeadersContainFrameAncestorsCSP h \<and> (m = CONFLICT \<or> m = DENY \<or> m = SAMEORIGIN \<and> foreign)"
    using decision m(4) by (auto split: if_splits)
  have counted: "SAMEORIGIN_WITH_BAD_ANCESTOR_CHAIN \<in> set usage \<longleftrightarrow>
      result = BLOCK_RESPONSE \<and> m = SAMEORIGIN \<and> IsSameOriginWith lb (last ancestors) (Origin_of lb url)"
    using decision m(4) by (auto split: if_splits)
  have some: "set ds = {d} \<longrightarrow> ds \<noteq> []" for d by auto
  have "result = BLOCK_RESPONSE \<longleftrightarrow> \<not> HeadersContainFrameAncestorsCSP h \<and> ds \<noteq> [] \<and>
      (E \<or> set ds = {DENY} \<or> set ds = {SAMEORIGIN} \<and> foreign)"
    unfolding blocked m(1-3) using some [of DENY] some [of SAMEORIGIN] by argo
  then show ?thesis using counted unfolding m(3) E_def foreign_def by (rule conjI)
qed

definition example_headers :: "string list \<Rightarrow> header_library" where
  "example_headers values = \<lparr>EnumerateHeader = (\<lambda>name. if name = ''x-frame-options'' then values else []),
     TrimWhitespace = (\<lambda>s. s), LowerCaseEquals = (\<lambda>s t. s = t), SplitDirectives = (\<lambda>s. [s]),
     DirectiveStartsWith = (\<lambda>s t. take (length t) s = t)\<rparr>"

theorem framing_is_blocked_witness:
  "fst (WillProcessResponse example_library False (Some (example_headers [''deny''])) False (example_url ''http'' ''/'') [])
    = BLOCK_RESPONSE"
proof -
  obtain result messages usage where run: "WillProcessResponse example_library False (Some (example_headers [''deny''])) False
      (example_url ''http'' ''/'') [] = (result, messages, usage)" using prod_cases3 by blast
  show ?thesis
    using framing_is_blocked [OF refl run] run
    by (simp add: example_headers_def value_disposition_def HeadersContainFrameAncestorsCSP_def)
qed

text \<open>An ancestor of another origin between the response and a root of its own origin.\<close>

lemma bad_ancestor_chain_is_blocked:
  assumes "IsSameOriginWith lb root (Origin_of lb url)" "\<not> IsSameOriginWith lb between (Origin_of lb url)"
  shows "WillProcessResponse lb False (Some (example_headers [''sameorigin''])) False url [between, root] =
    (BLOCK_RESPONSE, [], [SAMEORIGIN_BLOCKED, SAMEORIGIN_WITH_BAD_ANCESTOR_CHAIN])"
  using assms
  by (simp add: WillProcessResponse_def ParseHeader_def example_headers_def value_disposition_def
      HeadersContainFrameAncestorsCSP_def ConsoleError_def Let_def)

end
