(* ===== verification/Feature_Policy.thy ===== *)
theory Feature_Policy
  imports Urls
begin

text \<open>
  Feature policies (\<open>common/feature_policy/feature_policy.h\<close> and \<open>.cc\<close>): which features a
  document may use, given its parent's policy, the policy of the frame that contains it and the
  header it came with. A lookup with \<open>at\<close> of a missing key ends the process, the failure
  \<open>OutOfRange\<close>, and so do a use of the parent's policy when there is none and the check that only a
  frame with a parent changes its policy. An origin passed by reference is an origin and whether it is the policy's own
  object, because the code compares the addresses.
\<close>

subsection \<open>Types\<close>

datatype WebFeaturePolicyFeature =
    kNotFound | kCamera | kEme | kFullscreen | kGeolocation | kMicrophone | kMidiFeature | kPayment
  | kSpeaker | kVibrate | kDocumentCookie | kDocumentDomain | kDocumentWrite | kNotifications | kPush
  | kSyncScript | kSyncXHR | kWebRTC | kUsb

datatype FeatureDefault = DisableForAll | EnableForSelf | EnableForAll

record Whitelist =
  matches_all_origins :: bool
  origins :: "Origin list"

record ParsedFeaturePolicyDeclaration =
  feature :: WebFeaturePolicyFeature
  declaration_matches_all :: bool
  declaration_origins :: "Origin list"

type_synonym ParsedFeaturePolicyHeader = "ParsedFeaturePolicyDeclaration list"

text \<open>A \<open>std::map\<close> that is only looked up and iterated is the list of its pairs.\<close>

type_synonym FeatureList = "(WebFeaturePolicyFeature \<times> FeatureDefault) list"

record FeaturePolicy =
  policy_origin :: Origin
  whitelists :: "WebFeaturePolicyFeature \<Rightarrow> Whitelist option"
  inherited_policies :: "WebFeaturePolicyFeature \<Rightarrow> bool option"
  feature_list :: FeatureList

datatype policy_failure = OutOfRange | NullParent | PolicyOfMainFrameChanged

definition declarations_equal :: "ParsedFeaturePolicyDeclaration \<Rightarrow> ParsedFeaturePolicyDeclaration \<Rightarrow> bool" where
  "declarations_equal l r \<longleftrightarrow> feature l = feature r \<and>
     declaration_matches_all l = declaration_matches_all r \<and> declaration_origins l = declaration_origins r"

subsection \<open>Whitelists\<close>

definition Whitelist_new :: Whitelist where
  "Whitelist_new = \<lparr>matches_all_origins = False, origins = []\<rparr>"

definition Whitelist_Add :: "Origin \<Rightarrow> Whitelist \<Rightarrow> Whitelist" where
  "Whitelist_Add ori w = w\<lparr>origins := origins w @ [ori]\<rparr>"

definition Whitelist_AddAll :: "Whitelist \<Rightarrow> Whitelist" where
  "Whitelist_AddAll w = w\<lparr>matches_all_origins := True\<rparr>"

fun some_same_origin :: "url_library \<Rightarrow> Origin list \<Rightarrow> Origin \<Rightarrow> bool" where
  "some_same_origin lb [] ori = False"
| "some_same_origin lb (target # targets) ori =
     (if IsSameOriginWith lb target ori then True else some_same_origin lb targets ori)"

definition Whitelist_Contains :: "url_library \<Rightarrow> Whitelist \<Rightarrow> Origin \<Rightarrow> bool" where
  "Whitelist_Contains lb w ori = (if matches_all_origins w then True else some_same_origin lb (origins w) ori)"

definition WhitelistFromDeclaration :: "ParsedFeaturePolicyDeclaration \<Rightarrow> Whitelist" where
  "WhitelistFromDeclaration d =
     fold Whitelist_Add (declaration_origins d)
       (if declaration_matches_all d then Whitelist_AddAll Whitelist_new else Whitelist_new)"

subsection \<open>Decisions\<close>

definition GetDefaultFeatureList :: FeatureList where
  "GetDefaultFeatureList =
     [(kCamera, EnableForSelf), (kEme, EnableForSelf), (kFullscreen, EnableForSelf),
      (kGeolocation, EnableForSelf), (kMicrophone, EnableForSelf), (kMidiFeature, EnableForSelf),
      (kPayment, EnableForSelf), (kSpeaker, EnableForSelf), (kVibrate, EnableForSelf),
      (kDocumentCookie, EnableForAll), (kDocumentDomain, EnableForAll), (kDocumentWrite, EnableForAll),
      (kNotifications, EnableForAll), (kPush, EnableForAll), (kSyncScript, EnableForAll),
      (kSyncXHR, EnableForAll), (kWebRTC, EnableForAll), (kUsb, EnableForSelf)]"

definition at_key :: "'b option \<Rightarrow> policy_failure + 'b" where
  "at_key v = (case v of None \<Rightarrow> Inl OutOfRange | Some x \<Rightarrow> Inr x)"

definition IsFeatureEnabledForOrigin ::
  "url_library \<Rightarrow> FeaturePolicy \<Rightarrow> WebFeaturePolicyFeature \<Rightarrow> bool \<Rightarrow> Origin \<Rightarrow> policy_failure + bool" where
  "IsFeatureEnabledForOrigin lb p f same_object ori =
     bindE (at_key (map_of (feature_list p) f)) (\<lambda>default_policy.
     bindE (at_key (inherited_policies p f)) (\<lambda>inherited.
       if \<not> inherited then Inr False
       else (case whitelists p f of
               Some w \<Rightarrow> Inr (Whitelist_Contains lb w ori)
             | None \<Rightarrow>
                 if default_policy = EnableForAll then Inr True
                 else if default_policy = EnableForSelf
                 then Inr (same_object \<or> IsSameOriginWith lb (policy_origin p) ori)
                 else Inr False)))"

definition IsFeatureEnabled ::
  "url_library \<Rightarrow> FeaturePolicy \<Rightarrow> WebFeaturePolicyFeature \<Rightarrow> policy_failure + bool" where
  "IsFeatureEnabled lb p f = IsFeatureEnabledForOrigin lb p f True (policy_origin p)"

subsection \<open>Construction\<close>

definition FeaturePolicy_new :: "Origin \<Rightarrow> FeatureList \<Rightarrow> FeaturePolicy" where
  "FeaturePolicy_new ori features =
     \<lparr>policy_origin = ori, whitelists = (\<lambda>f. None), inherited_policies = (\<lambda>f. None), feature_list = features\<rparr>"

fun inherit_features ::
  "url_library \<Rightarrow> FeaturePolicy option \<Rightarrow> Origin \<Rightarrow> FeatureList \<Rightarrow> FeaturePolicy \<Rightarrow>
   policy_failure + FeaturePolicy" where
  "inherit_features lb parent ori [] p = Inr p"
| "inherit_features lb parent ori ((f, d) # features) p =
     bindE (case parent of None \<Rightarrow> Inr True | Some parent_policy \<Rightarrow>
              IsFeatureEnabledForOrigin lb parent_policy f False ori) (\<lambda>enabled.
       inherit_features lb parent ori features
         (p\<lparr>inherited_policies := (inherited_policies p)(f \<mapsto> enabled)\<rparr>))"

fun AddContainerPolicy ::
  "url_library \<Rightarrow> FeaturePolicy option \<Rightarrow> ParsedFeaturePolicyHeader \<Rightarrow> FeaturePolicy \<Rightarrow>
   policy_failure + FeaturePolicy" where
  "AddContainerPolicy lb parent [] p = Inr p"
| "AddContainerPolicy lb parent (d # ds) p =
     (if feature d = kNotFound then AddContainerPolicy lb parent ds p
      else
        bindE (if Whitelist_Contains lb (WhitelistFromDeclaration d) (policy_origin p)
               then (case parent of None \<Rightarrow> Inl NullParent
                     | Some parent_policy \<Rightarrow> IsFeatureEnabled lb parent_policy (feature d))
               else Inr False) (\<lambda>enabled.
          AddContainerPolicy lb parent ds
            (p\<lparr>inherited_policies := (inherited_policies p)(feature d \<mapsto> enabled)\<rparr>)))"

text \<open>The origin handed over is never the object of the parent's policy.\<close>

definition CreateFromParentPolicy_features ::
  "url_library \<Rightarrow> FeaturePolicy option \<Rightarrow> ParsedFeaturePolicyHeader \<Rightarrow> Origin \<Rightarrow> FeatureList \<Rightarrow>
   policy_failure + FeaturePolicy" where
  "CreateFromParentPolicy_features lb parent container_policy ori features =
     bindE (inherit_features lb parent ori features (FeaturePolicy_new ori features)) (\<lambda>p.
       if container_policy \<noteq> [] then AddContainerPolicy lb parent container_policy p else Inr p)"

definition CreateFromParentPolicy ::
  "url_library \<Rightarrow> FeaturePolicy option \<Rightarrow> ParsedFeaturePolicyHeader \<Rightarrow> Origin \<Rightarrow>
   policy_failure + FeaturePolicy" where
  "CreateFromParentPolicy lb parent container_policy ori =
     CreateFromParentPolicy_features lb parent container_policy ori GetDefaultFeatureList"

definition CreateFromPolicyWithOrigin :: "FeaturePolicy \<Rightarrow> Origin \<Rightarrow> FeaturePolicy" where
  "CreateFromPolicyWithOrigin p ori =
     (FeaturePolicy_new ori (feature_list p))\<lparr>inherited_policies := inherited_policies p,
        whitelists := whitelists p\<rparr>"

definition SetHeaderPolicy :: "ParsedFeaturePolicyHeader \<Rightarrow> FeaturePolicy \<Rightarrow> FeaturePolicy" where
  "SetHeaderPolicy parsed_header p =
     fold (\<lambda>d p. p\<lparr>whitelists := (whitelists p)(feature d \<mapsto> WhitelistFromDeclaration d)\<rparr>) parsed_header p"

subsection \<open>Policies of documents\<close>

text \<open>
  The policies that come about: the root's and, from any of them, that of a child and those that
  a header or a new origin give.
\<close>

definition answers :: "FeaturePolicy \<Rightarrow> bool" where
  "answers p \<longleftrightarrow> feature_list p = GetDefaultFeatureList \<and> (\<forall>f. f \<noteq> kNotFound \<longrightarrow> inherited_policies p f \<noteq> None)"

lemma listed: "f \<noteq> kNotFound \<Longrightarrow> \<exists>d. map_of GetDefaultFeatureList f = Some d \<and> d \<noteq> DisableForAll"
  by (cases f) (simp_all add: GetDefaultFeatureList_def)

lemma not_listed: "map_of GetDefaultFeatureList kNotFound = None"
  by (simp add: GetDefaultFeatureList_def)

lemma some_same_origin_iff: "some_same_origin lb os ori \<longleftrightarrow> (\<exists>target \<in> set os. IsSameOriginWith lb target ori)"
  by (induction os) auto

definition declares :: "url_library \<Rightarrow> ParsedFeaturePolicyDeclaration \<Rightarrow> Origin \<Rightarrow> bool" where
  "declares lb d ori \<longleftrightarrow> declaration_matches_all d \<or>
     (\<exists>target \<in> set (declaration_origins d). IsSameOriginWith lb target ori)"

lemma whitelist_fold:
  "matches_all_origins (fold Whitelist_Add os w) = matches_all_origins w"
  "origins (fold Whitelist_Add os w) = origins w @ os"
  by (induction os arbitrary: w) (simp_all add: Whitelist_Add_def)

lemma Contains_declaration: "Whitelist_Contains lb (WhitelistFromDeclaration d) ori \<longleftrightarrow> declares lb d ori"
  by (auto simp: Whitelist_Contains_def WhitelistFromDeclaration_def whitelist_fold declares_def
      Whitelist_new_def Whitelist_AddAll_def some_same_origin_iff)

text \<open>The declaration of a feature that counts is the last one.\<close>

definition last_declaration ::
  "WebFeaturePolicyFeature \<Rightarrow> ParsedFeaturePolicyHeader \<Rightarrow> ParsedFeaturePolicyDeclaration option" where
  "last_declaration f h = find (\<lambda>d. feature d = f) (rev h)"

lemma last_declaration_snoc:
  "last_declaration f (h @ [d]) = (if feature d = f then Some d else last_declaration f h)"
  by (simp add: last_declaration_def)

lemma last_declaration_feature: "last_declaration f h = Some d \<Longrightarrow> feature d = f"
  by (auto simp: last_declaration_def find_Some_iff)

lemma SetHeaderPolicy_simps [simp]:
  "policy_origin (SetHeaderPolicy h p) = policy_origin p"
  "inherited_policies (SetHeaderPolicy h p) = inherited_policies p"
  "feature_list (SetHeaderPolicy h p) = feature_list p"
  unfolding SetHeaderPolicy_def by (induction h arbitrary: p) simp_all

lemma SetHeaderPolicy_whitelists:
  "whitelists (SetHeaderPolicy h p) f =
     (case last_declaration f h of None \<Rightarrow> whitelists p f | Some d \<Rightarrow> Some (WhitelistFromDeclaration d))"
  by (induction h rule: rev_induct)
    (auto simp: SetHeaderPolicy_def last_declaration_snoc, simp add: last_declaration_def)

lemma answers_header: "answers p \<Longrightarrow> answers (SetHeaderPolicy h p)"
  by (simp add: answers_def)

lemma answers_origin: "answers p \<Longrightarrow> answers (CreateFromPolicyWithOrigin p ori)"
  by (simp add: answers_def CreateFromPolicyWithOrigin_def FeaturePolicy_new_def)

text \<open>The decision without the failures.\<close>

definition enabled_for :: "url_library \<Rightarrow> FeaturePolicy \<Rightarrow> WebFeaturePolicyFeature \<Rightarrow> bool \<Rightarrow> Origin \<Rightarrow> bool" where
  "enabled_for lb p f same_object ori \<longleftrightarrow>
     inherited_policies p f = Some True \<and>
     (case whitelists p f of
        Some w \<Rightarrow> Whitelist_Contains lb w ori
      | None \<Rightarrow> map_of (feature_list p) f = Some EnableForAll \<or>
          (same_object \<or> IsSameOriginWith lb (policy_origin p) ori))"

lemma enabled_eq:
  "answers p \<Longrightarrow> f \<noteq> kNotFound \<Longrightarrow> IsFeatureEnabledForOrigin lb p f same ori = Inr (enabled_for lb p f same ori)"
proof -
  assume p: "answers p" "f \<noteq> kNotFound"
  obtain d where d: "map_of GetDefaultFeatureList f = Some d" "d \<noteq> DisableForAll" using listed [OF p(2)] by blast
  show ?thesis using p d
    by (cases d; cases "inherited_policies p f")
      (auto simp: answers_def IsFeatureEnabledForOrigin_def enabled_for_def at_key_def split: option.split)
qed

lemma same_inherited: "(\<And>f. i f = j f) \<Longrightarrow> p\<lparr>inherited_policies := i\<rparr> = p\<lparr>inherited_policies := j\<rparr>"
  by (rule arg_cong [where f = "\<lambda>i. p\<lparr>inherited_policies := i\<rparr>"]) auto

lemma inherit_features_eq:
  assumes "\<And>f d pp. (f, d) \<in> set features \<Longrightarrow> parent = Some pp \<Longrightarrow> answers pp \<and> f \<noteq> kNotFound"
  shows "inherit_features lb parent ori features p = Inr (p\<lparr>inherited_policies :=
    (\<lambda>f. if f \<in> fst ` set features
         then Some (case parent of None \<Rightarrow> True | Some pp \<Rightarrow> enabled_for lb pp f False ori)
         else inherited_policies p f)\<rparr>)"
  using assms
proof (induction features arbitrary: p)
  case (Cons fd features)
  obtain f d where fd: "fd = (f, d)" by (cases fd)
  have "(case parent of None \<Rightarrow> Inr True | Some parent_policy \<Rightarrow>
          IsFeatureEnabledForOrigin lb parent_policy f False ori)
      = (Inr (case parent of None \<Rightarrow> True | Some pp \<Rightarrow> enabled_for lb pp f False ori) :: policy_failure + bool)"
    using Cons.prems [of f d] by (auto simp: fd enabled_eq split: option.split)
  moreover have "inherit_features lb parent ori features (q :: FeaturePolicy) = Inr (q\<lparr>inherited_policies :=
    (\<lambda>f. if f \<in> fst ` set features
         then Some (case parent of None \<Rightarrow> True | Some pp \<Rightarrow> enabled_for lb pp f False ori)
         else inherited_policies q f)\<rparr>)" for q
  proof (rule Cons.IH)
    fix f d pp assume "(f, d) \<in> set features" "parent = Some pp"
    then show "answers pp \<and> f \<noteq> kNotFound" using Cons.prems [of f d pp] by simp
  qed
  ultimately show ?case by (auto simp: fd intro!: same_inherited)
next
  case Nil
  then show ?case by simp
qed

lemma AddContainerPolicy_eq:
  assumes "answers parent"
  shows "AddContainerPolicy lb (Some parent) ds p = Inr (p\<lparr>inherited_policies :=
    (\<lambda>f. if f = kNotFound then inherited_policies p f
         else (case last_declaration f ds of
                 None \<Rightarrow> inherited_policies p f
               | Some d \<Rightarrow> Some (declares lb d (policy_origin p) \<and>
                   enabled_for lb parent f True (policy_origin parent))))\<rparr>)"
proof -
  have append: "AddContainerPolicy lb (Some parent) (ds @ [d]) p =
      bindE (AddContainerPolicy lb (Some parent) ds p) (AddContainerPolicy lb (Some parent) [d])" for ds d p
    by (induction ds arbitrary: p) (auto simp: bindE_def split: sum.split)
  show ?thesis
  proof (induction ds rule: rev_induct)
    case Nil
    have "p = p\<lparr>inherited_policies := inherited_policies p\<rparr>" by simp
    also have "\<dots> = p\<lparr>inherited_policies := (\<lambda>f. if f = kNotFound then inherited_policies p f
         else (case last_declaration f [] of
                 None \<Rightarrow> inherited_policies p f
               | Some d \<Rightarrow> Some (declares lb d (policy_origin p) \<and>
                   enabled_for lb parent f True (policy_origin parent))))\<rparr>"
      by (rule same_inherited) (simp add: last_declaration_def)
    finally show ?case by simp
  next
    case (snoc d ds)
    show ?case
      using assms
      by (auto simp: append snoc
          last_declaration_snoc Contains_declaration IsFeatureEnabled_def enabled_eq fun_eq_iff
          intro!: same_inherited split: option.split)
  qed
qed

end
