(* ===== verification/Frame_Policy.thy ===== *)
theory Frame_Policy
  imports Feature_Policy
begin

text \<open>
  The policies of the frames of a page: the sandbox flags and the container policy that a frame
  node keeps (\<open>browser/frame_host/frame_tree_node.cc\<close>, \<open>frame_tree.cc\<close>), the messages that change
  them (\<open>render_frame_host_impl.cc\<close>) and the part of a commit that puts them into effect
  (\<open>navigator_impl.cc\<close>, \<open>render_frame_host_manager.cc\<close>). The frames are a map from node ids.
\<close>

subsection \<open>State\<close>

record FrameTreeNode =
  parent_of :: "nat option"
  sandbox_flags :: "32 word"
  pending_sandbox_flags :: "32 word"
  container_policy :: ParsedFeaturePolicyHeader
  pending_container_policy :: ParsedFeaturePolicyHeader
  feature_policy_header :: ParsedFeaturePolicyHeader
  feature_policy :: "FeaturePolicy option"
  last_committed_origin :: Origin

type_synonym frames = "nat \<Rightarrow> FrameTreeNode option"

definition unique_origin :: Origin where
  "unique_origin = \<lparr>unique = True, origin_scheme = [], origin_host = [], origin_port = 0\<rparr>"

definition FrameTreeNode_new :: "nat option \<Rightarrow> FrameTreeNode" where
  "FrameTreeNode_new parent =
     \<lparr>parent_of = parent, sandbox_flags = 0, pending_sandbox_flags = 0, container_policy = [],
      pending_container_policy = [], feature_policy_header = [], feature_policy = None,
      last_committed_origin = unique_origin\<rparr>"

definition effective_sandbox_flags :: "FrameTreeNode \<Rightarrow> 32 word" where
  "effective_sandbox_flags fr = sandbox_flags fr"

definition effective_container_policy :: "FrameTreeNode \<Rightarrow> ParsedFeaturePolicyHeader" where
  "effective_container_policy fr = container_policy fr"

definition with_frame :: "nat \<Rightarrow> (FrameTreeNode \<Rightarrow> FrameTreeNode) \<Rightarrow> frames \<Rightarrow> frames" where
  "with_frame n g fs = (case fs n of None \<Rightarrow> fs | Some fr \<Rightarrow> fs(n \<mapsto> g fr))"

definition parent_frame :: "nat \<Rightarrow> frames \<Rightarrow> FrameTreeNode option" where
  "parent_frame n fs = (case fs n of None \<Rightarrow> None | Some fr \<Rightarrow>
     (case parent_of fr of None \<Rightarrow> None | Some m \<Rightarrow> fs m))"

subsection \<open>Frame nodes\<close>

definition SetPendingSandboxFlags :: "32 word \<Rightarrow> nat \<Rightarrow> frames \<Rightarrow> frames" where
  "SetPendingSandboxFlags flags n fs = with_frame n (\<lambda>fr. fr\<lparr>pending_sandbox_flags :=
     (case parent_frame n fs of None \<Rightarrow> flags | Some parent \<Rightarrow> flags OR effective_sandbox_flags parent)\<rparr>) fs"

definition SetPendingContainerPolicy :: "ParsedFeaturePolicyHeader \<Rightarrow> nat \<Rightarrow> frames \<Rightarrow> frames" where
  "SetPendingContainerPolicy policy n fs = with_frame n (\<lambda>fr. fr\<lparr>pending_container_policy := policy\<rparr>) fs"

definition Node_CommitPendingFramePolicy :: "FrameTreeNode \<Rightarrow> bool \<times> FrameTreeNode" where
  "Node_CommitPendingFramePolicy fr =
     (let did_change_flags = (pending_sandbox_flags fr \<noteq> sandbox_flags fr);
          did_change_container_policy = (pending_container_policy fr \<noteq> container_policy fr);
          fr1 = (if did_change_flags then fr\<lparr>sandbox_flags := pending_sandbox_flags fr\<rparr> else fr);
          fr2 = (if did_change_container_policy then fr1\<lparr>container_policy := pending_container_policy fr1\<rparr> else fr1)
      in (did_change_flags \<or> did_change_container_policy, fr2))"

definition SetFeaturePolicyHeader :: "ParsedFeaturePolicyHeader \<Rightarrow> nat \<Rightarrow> frames \<Rightarrow> frames" where
  "SetFeaturePolicyHeader h n fs = with_frame n (\<lambda>fr. fr\<lparr>feature_policy_header := h\<rparr>) fs"

definition ResetFeaturePolicyHeader :: "nat \<Rightarrow> frames \<Rightarrow> frames" where
  "ResetFeaturePolicyHeader n fs = with_frame n (\<lambda>fr. fr\<lparr>feature_policy_header := []\<rparr>) fs"

subsection \<open>Frame hosts\<close>

definition ResetFeaturePolicy :: "url_library \<Rightarrow> nat \<Rightarrow> frames \<Rightarrow> policy_failure + frames" where
  "ResetFeaturePolicy lb n fs =
     (case fs n of
        None \<Rightarrow> Inr fs
      | Some fr \<Rightarrow>
          let parent_policy = (case parent_frame n fs of None \<Rightarrow> None | Some parent \<Rightarrow> feature_policy parent)
          in bindE (CreateFromParentPolicy lb parent_policy (effective_container_policy fr) (last_committed_origin fr))
               (\<lambda>p. Inr (fs(n \<mapsto> fr\<lparr>feature_policy := Some p\<rparr>))))"

definition OnDidSetFeaturePolicyHeader ::
  "url_library \<Rightarrow> nat \<Rightarrow> ParsedFeaturePolicyHeader \<Rightarrow> frames \<Rightarrow> policy_failure + frames" where
  "OnDidSetFeaturePolicyHeader lb n parsed_header fs =
     bindE (ResetFeaturePolicy lb n (SetFeaturePolicyHeader parsed_header n fs)) (\<lambda>fs1.
       Inr (with_frame n (\<lambda>fr. fr\<lparr>feature_policy := map_option (SetHeaderPolicy parsed_header) (feature_policy fr)\<rparr>) fs1))"

text \<open>The question that browser code asks about a frame.\<close>

definition Host_IsFeatureEnabled ::
  "url_library \<Rightarrow> FrameTreeNode \<Rightarrow> WebFeaturePolicyFeature \<Rightarrow> policy_failure + bool" where
  "Host_IsFeatureEnabled lb fr f =
     (case feature_policy fr of
        None \<Rightarrow> Inr False
      | Some p \<Rightarrow> IsFeatureEnabledForOrigin lb p f False (last_committed_origin fr))"

datatype child_lookup = NoSuchChild | BadMessage | VerifiedChild nat

definition FindAndVerifyChild :: "nat \<Rightarrow> nat option \<Rightarrow> frames \<Rightarrow> child_lookup" where
  "FindAndVerifyChild n found fs =
     (case found of
        None \<Rightarrow> NoSuchChild
      | Some c \<Rightarrow>
          (case fs c of
             None \<Rightarrow> NoSuchChild
           | Some fr \<Rightarrow> if parent_of fr \<noteq> Some n then BadMessage else VerifiedChild c))"

text \<open>The flag says whether the renderer is killed.\<close>

definition OnDidChangeFramePolicy ::
  "nat \<Rightarrow> nat option \<Rightarrow> 32 word \<Rightarrow> ParsedFeaturePolicyHeader \<Rightarrow> frames \<Rightarrow> bool \<times> frames" where
  "OnDidChangeFramePolicy n found flags policy fs =
     (case FindAndVerifyChild n found fs of
        NoSuchChild \<Rightarrow> (False, fs)
      | BadMessage \<Rightarrow> (True, fs)
      | VerifiedChild c \<Rightarrow> (False, SetPendingContainerPolicy policy c (SetPendingSandboxFlags flags c fs)))"

subsection \<open>New frames and commits\<close>

text \<open>
  \<open>AddFrame\<close>: the constructor of the frame's host computes its feature policy, then the node
  gets its flags and container policy and commits them.
\<close>

definition commit_pending :: "nat \<Rightarrow> frames \<Rightarrow> frames" where
  "commit_pending n fs = with_frame n (\<lambda>fr. snd (Node_CommitPendingFramePolicy fr)) fs"

definition AddFrame ::
  "url_library \<Rightarrow> bool \<Rightarrow> nat \<Rightarrow> nat \<Rightarrow> 32 word \<Rightarrow> ParsedFeaturePolicyHeader \<Rightarrow> frames \<Rightarrow>
   policy_failure + bool \<times> frames" where
  "AddFrame lb same_process parent n flags policy fs =
     (if \<not> same_process then Inr (False, fs)
      else bindE (ResetFeaturePolicy lb n (fs(n \<mapsto> FrameTreeNode_new (Some parent)))) (\<lambda>fs1.
        Inr (True, commit_pending n (SetPendingContainerPolicy policy n (SetPendingSandboxFlags flags n fs1)))))"

definition Manager_CommitPendingFramePolicy :: "nat \<Rightarrow> frames \<Rightarrow> policy_failure + frames" where
  "Manager_CommitPendingFramePolicy n fs =
     (case fs n of
        None \<Rightarrow> Inr fs
      | Some fr \<Rightarrow>
          if \<not> fst (Node_CommitPendingFramePolicy fr) then Inr (commit_pending n fs)
          else if parent_of fr = None then Inl PolicyOfMainFrameChanged
          else Inr (commit_pending n fs))"

text \<open>
  What a commit does to the policies: before the new document is accounted for, its header is
  dropped (a same-document navigation keeps it) and the pending policy is committed; when the
  origin of the new document is known, its feature policy is computed.
\<close>

definition begin_commit :: "nat \<Rightarrow> bool \<Rightarrow> frames \<Rightarrow> policy_failure + frames" where
  "begin_commit n is_navigation_within_page fs =
     (let fs1 = (if is_navigation_within_page then fs else ResetFeaturePolicyHeader n fs)
      in Manager_CommitPendingFramePolicy n fs1)"

definition DidNavigate :: "url_library \<Rightarrow> nat \<Rightarrow> bool \<Rightarrow> Origin \<Rightarrow> frames \<Rightarrow> policy_failure + frames" where
  "DidNavigate lb n is_navigation_within_page ori fs =
     bindE (begin_commit n is_navigation_within_page fs) (\<lambda>fs2.
       let fs3 = with_frame n (\<lambda>fr. fr\<lparr>last_committed_origin := ori\<rparr>) fs2
       in if is_navigation_within_page then Inr fs3 else ResetFeaturePolicy lb n fs3)"

end
