(* ===== verification/Frame_Policy_Properties.thy ===== *)
theory Frame_Policy_Properties
  imports Frame_Policy
begin

text \<open>
  What the policies of a page guarantee: the exact decision for a child document, features and
  sandbox flags that no descendant gets back, and where the browser departs from it.
\<close>

subsection \<open>One document and its child\<close>

text \<open>The container policy's word on a feature: the last declaration for it.\<close>

definition delegated ::
  "url_library \<Rightarrow> FeaturePolicy option \<Rightarrow> ParsedFeaturePolicyHeader \<Rightarrow> Origin \<Rightarrow> WebFeaturePolicyFeature \<Rightarrow> bool" where
  "delegated lb parent container ori f \<longleftrightarrow>
     (case parent of
        None \<Rightarrow> True
      | Some pp \<Rightarrow>
          (case last_declaration f container of
             None \<Rightarrow> enabled_for lb pp f False ori
           | Some d \<Rightarrow> declares lb d ori \<and> enabled_for lb pp f True (policy_origin pp)))"

lemma listed_iff: "f \<in> fst ` set GetDefaultFeatureList \<longleftrightarrow> f \<noteq> kNotFound"
  using listed [of f] not_listed by (metis map_of_eq_None_iff option.distinct(1))

lemma policy_eta: "p\<lparr>policy_origin := policy_origin p, whitelists := whitelists p,
    inherited_policies := inherited_policies p, feature_list := feature_list p\<rparr> = (p :: FeaturePolicy)"
  by simp

lemma CreateFromParent_eq:
  assumes "\<And>pp. parent = Some pp \<Longrightarrow> answers pp" "parent = None \<Longrightarrow> container = []"
  shows "CreateFromParentPolicy lb parent container ori = Inr ((FeaturePolicy_new ori GetDefaultFeatureList)
    \<lparr>inherited_policies := (\<lambda>f. if f = kNotFound then None else Some (delegated lb parent container ori f))\<rparr>)"
proof -
  let ?p = "FeaturePolicy_new ori GetDefaultFeatureList"
  have "inherit_features lb parent ori GetDefaultFeatureList ?p = Inr (?p\<lparr>inherited_policies :=
    (\<lambda>f. if f \<in> fst ` set GetDefaultFeatureList
         then Some (case parent of None \<Rightarrow> True | Some pp \<Rightarrow> enabled_for lb pp f False ori)
         else inherited_policies ?p f)\<rparr>)"
  proof (rule inherit_features_eq)
    fix f d pp assume "(f, d) \<in> set GetDefaultFeatureList" "parent = Some pp"
    then show "answers pp \<and> f \<noteq> kNotFound" using assms(1) listed_iff [of f] by force
  qed
  then have inh: "inherit_features lb parent ori GetDefaultFeatureList ?p = Inr (?p\<lparr>inherited_policies :=
      (\<lambda>f. if f \<noteq> kNotFound then Some (case parent of None \<Rightarrow> True | Some pp \<Rightarrow> enabled_for lb pp f False ori)
           else None)\<rparr>)"
    by (simp add: listed_iff FeaturePolicy_new_def cong: if_cong)
  have none: "last_declaration f [] = None" for f by (simp add: last_declaration_def)
  show ?thesis
  proof (cases parent)
    case None
    then show ?thesis using assms(2) inh [unfolded None]
      by (auto simp: CreateFromParentPolicy_def CreateFromParentPolicy_features_def delegated_def
          intro!: same_inherited)
  next
    case (Some pp)
    then show ?thesis
      using AddContainerPolicy_eq [OF assms(1) [OF Some], of lb container] inh [unfolded Some] none
      by (auto simp: CreateFromParentPolicy_def CreateFromParentPolicy_features_def delegated_def FeaturePolicy_new_def
          intro!: same_inherited split: option.split)
  qed
qed

lemma CreateFromParent_answers:
  "CreateFromParentPolicy lb parent container ori = Inr q \<Longrightarrow> (\<And>pp. parent = Some pp \<Longrightarrow> answers pp) \<Longrightarrow>
   (parent = None \<Longrightarrow> container = []) \<Longrightarrow> answers q"
  by (auto simp: CreateFromParent_eq answers_def FeaturePolicy_new_def)

text \<open>C23. What a child document may use. For a parent whose policy covers the features, a child with
  any container policy and header always gets a policy; a listed feature is enabled in the child
  exactly if the last container declaration for it matches the child's origin and the feature is
  enabled in the parent, or without a declaration, the parent's policy is enabled for the child's
  origin, and if the last header declaration for it, if there is one, matches the child's origin.\<close>

theorem child_policy_decision:
  assumes "answers parent" "f \<noteq> kNotFound"
  shows "\<exists>q. CreateFromParentPolicy lb (Some parent) container ori = Inr q \<and> answers (SetHeaderPolicy h q) \<and>
    IsFeatureEnabled lb (SetHeaderPolicy h q) f = Inr (
      (case last_declaration f container of
         None \<Rightarrow> IsFeatureEnabledForOrigin lb parent f False ori = Inr True
       | Some d \<Rightarrow> declares lb d ori \<and> IsFeatureEnabled lb parent f = Inr True) \<and>
      (case last_declaration f h of None \<Rightarrow> True | Some d \<Rightarrow> declares lb d ori))"
proof -
  let ?q = "(FeaturePolicy_new ori GetDefaultFeatureList)\<lparr>inherited_policies :=
    (\<lambda>f. if f = kNotFound then None else Some (delegated lb (Some parent) container ori f))\<rparr>"
  have c: "CreateFromParentPolicy lb (Some parent) container ori = Inr ?q"
    using assms(1) by (intro CreateFromParent_eq) auto
  have a: "answers (SetHeaderPolicy h ?q)" by (simp add: answers_def FeaturePolicy_new_def)
  have "IsFeatureEnabled lb (SetHeaderPolicy h ?q) f = Inr (enabled_for lb (SetHeaderPolicy h ?q) f True ori)"
    using enabled_eq [OF a assms(2)] by (simp add: IsFeatureEnabled_def FeaturePolicy_new_def)
  also have "enabled_for lb (SetHeaderPolicy h ?q) f True ori \<longleftrightarrow>
      delegated lb (Some parent) container ori f \<and>
      (case last_declaration f h of None \<Rightarrow> True | Some d \<Rightarrow> declares lb d ori)"
    using assms(2)
    by (auto simp: enabled_for_def SetHeaderPolicy_whitelists FeaturePolicy_new_def Contains_declaration
        split: option.split)
  also have "delegated lb (Some parent) container ori f \<longleftrightarrow>
      (case last_declaration f container of
         None \<Rightarrow> IsFeatureEnabledForOrigin lb parent f False ori = Inr True
       | Some d \<Rightarrow> declares lb d ori \<and> IsFeatureEnabled lb parent f = Inr True)"
    by (simp add: delegated_def IsFeatureEnabled_def enabled_eq [OF assms] split: option.split)
  finally show ?thesis using c a by blast
qed

definition site_origin :: "string \<Rightarrow> Origin" where
  "site_origin host = \<lparr>unique = False, origin_scheme = kHttpsScheme, origin_host = host, origin_port = 443\<rparr>"

definition root_policy :: FeaturePolicy where
  "root_policy = (FeaturePolicy_new (site_origin ''a'') GetDefaultFeatureList)
     \<lparr>inherited_policies := (\<lambda>f. if f = kNotFound then None else Some True)\<rparr>"

lemma root_policy_created: "CreateFromParentPolicy lb None [] (site_origin ''a'') = Inr root_policy"
  using CreateFromParent_eq [of None "[]" lb "site_origin ''a''"]
  by (simp add: delegated_def root_policy_def cong: if_cong)

lemma root_answers: "answers root_policy"
  by (simp add: root_policy_def answers_def FeaturePolicy_new_def)

theorem child_policy_decision_witness:
  "(\<exists>q. CreateFromParentPolicy example_library (Some root_policy) [] (site_origin ''b'') = Inr q \<and>
     IsFeatureEnabled example_library (SetHeaderPolicy [] q) kCamera = Inr False) \<and>
   (\<exists>q. CreateFromParentPolicy example_library (Some root_policy) [] (site_origin ''b'') = Inr q \<and>
     IsFeatureEnabled example_library (SetHeaderPolicy [] q) kPush = Inr True)"
proof -
  have n: "last_declaration f [] = None" for f by (simp add: last_declaration_def)
  have "IsFeatureEnabledForOrigin example_library root_policy kCamera False (site_origin ''b'') \<noteq> Inr True"
    "IsFeatureEnabledForOrigin example_library root_policy kPush False (site_origin ''b'') = Inr True"
    unfolding enabled_eq [OF root_answers, of kCamera, simplified] enabled_eq [OF root_answers, of kPush, simplified]
    by (simp_all add: enabled_for_def root_policy_def FeaturePolicy_new_def GetDefaultFeatureList_def
        site_origin_def example_library_simps)
  then show ?thesis
    using child_policy_decision [OF root_answers, of kCamera example_library "[]" "site_origin ''b''" "[]"]
      child_policy_decision [OF root_answers, of kPush example_library "[]" "site_origin ''b''" "[]"]
    by (auto simp: n)
qed

subsection \<open>Frames\<close>

text \<open>A feature that a policy gives to no origin.\<close>

definition off :: "url_library \<Rightarrow> FeaturePolicy \<Rightarrow> WebFeaturePolicyFeature \<Rightarrow> bool" where
  "off lb p f \<longleftrightarrow> (\<forall>same ori. (same \<longrightarrow> ori = policy_origin p) \<longrightarrow> IsFeatureEnabledForOrigin lb p f same ori = Inr False)"

lemma off_iff:
  "answers p \<Longrightarrow> f \<noteq> kNotFound \<Longrightarrow>
   off lb p f \<longleftrightarrow> (\<forall>same ori. (same \<longrightarrow> ori = policy_origin p) \<longrightarrow> \<not> enabled_for lb p f same ori)"
  by (simp add: off_def enabled_eq)

lemma not_inherited_off:
  "answers p \<Longrightarrow> f \<noteq> kNotFound \<Longrightarrow> inherited_policies p f = Some False \<Longrightarrow> off lb p f"
  by (simp add: off_iff enabled_for_def)

lemma off_child:
  assumes "answers parent" "f \<noteq> kNotFound" "off lb parent f"
    and "CreateFromParentPolicy lb (Some parent) container ori = Inr q"
  shows "off lb (SetHeaderPolicy h q) f"
proof -
  have "\<not> delegated lb (Some parent) container ori f"
    using assms(1-3) by (auto simp: delegated_def off_iff split: option.split)
  then have "inherited_policies q f = Some False"
    using CreateFromParent_eq [of "Some parent" container lb ori] assms(1,2,4) by auto
  moreover have "answers q" using CreateFromParent_answers [OF assms(4)] assms(1) by simp
  ultimately show ?thesis using assms(2) by (intro not_inherited_off) (simp_all add: answers_header)
qed

subsection \<open>Reachable pages\<close>

text \<open>
  The steps keep to what a renderer does that is not compromised: the frames below a frame are
  gone before its document is replaced, and the header of a document arrives before it has frames.
  A navigation within the page puts the pending policy into effect as well. In a \<open>steady\<close> page no
  such navigation adds a sandbox flag to a frame that has frames below it.
\<close>

definition childless :: "nat \<Rightarrow> frames \<Rightarrow> bool" where
  "childless n fs \<longleftrightarrow> (\<forall>c fr. fs c = Some fr \<longrightarrow> parent_of fr \<noteq> Some n)"

inductive page :: "url_library \<Rightarrow> bool \<Rightarrow> frames \<Rightarrow> bool" for lb steady where
  root: "ResetFeaturePolicy lb n (Map.empty(n \<mapsto> FrameTreeNode_new None)) = Inr fs \<Longrightarrow> page lb steady fs"
| add: "page lb steady fs \<Longrightarrow> fs parent \<noteq> None \<Longrightarrow> fs n = None \<Longrightarrow> childless n fs \<Longrightarrow>
    AddFrame lb same parent n flags policy fs = Inr (b, fs') \<Longrightarrow> page lb steady fs'"
| change: "page lb steady fs \<Longrightarrow> OnDidChangeFramePolicy n found flags policy fs = (b, fs') \<Longrightarrow> page lb steady fs'"
| navigate: "page lb steady fs \<Longrightarrow> childless n fs \<Longrightarrow> DidNavigate lb n False ori fs = Inr fs' \<Longrightarrow> page lb steady fs'"
| within: "page lb steady fs \<Longrightarrow> fs n = Some fr \<Longrightarrow>
    (steady \<longrightarrow> childless n fs \<or> pending_sandbox_flags fr AND sandbox_flags fr = pending_sandbox_flags fr) \<Longrightarrow>
    DidNavigate lb n True ori fs = Inr fs' \<Longrightarrow> page lb steady fs'"
| header: "page lb steady fs \<Longrightarrow> childless n fs \<Longrightarrow> OnDidSetFeaturePolicyHeader lb n h fs = Inr fs' \<Longrightarrow> page lb steady fs'"
| remove: "page lb steady fs \<Longrightarrow> childless n fs \<Longrightarrow> page lb steady (fs(n := None))"

text \<open>Flags as sets of bits; a frame against its parent.\<close>

definition flags_within :: "32 word \<Rightarrow> 32 word \<Rightarrow> bool" where
  "flags_within a b \<longleftrightarrow> a AND b = a"

lemma flags_within_OR: "flags_within a (b OR a)"
  unfolding flags_within_def by (auto simp: bit_eq_iff bit_simps)

lemma flags_within_refl: "flags_within a a"
  by (simp add: flags_within_def)

lemma flags_within_trans: "flags_within a b \<Longrightarrow> flags_within b c \<Longrightarrow> flags_within a c"
  unfolding flags_within_def by (metis and.assoc)

definition bounded_by :: "url_library \<Rightarrow> bool \<Rightarrow> FrameTreeNode \<Rightarrow> FrameTreeNode \<Rightarrow> bool" where
  "bounded_by lb steady parent fr \<longleftrightarrow>
     (steady \<longrightarrow> flags_within (sandbox_flags parent) (sandbox_flags fr) \<and>
       flags_within (sandbox_flags parent) (pending_sandbox_flags fr)) \<and>
     (\<exists>pp p. feature_policy parent = Some pp \<and> feature_policy fr = Some p \<and>
        (\<forall>f. f \<noteq> kNotFound \<longrightarrow> off lb pp f \<longrightarrow> off lb p f))"

definition frame_ok :: "url_library \<Rightarrow> bool \<Rightarrow> frames \<Rightarrow> FrameTreeNode \<Rightarrow> bool" where
  "frame_ok lb steady fs fr \<longleftrightarrow>
     (\<exists>p. feature_policy fr = Some p \<and> answers p) \<and>
     (case parent_of fr of
        None \<Rightarrow> container_policy fr = [] \<and> pending_container_policy fr = []
      | Some m \<Rightarrow> (\<exists>parent. fs m = Some parent \<and> bounded_by lb steady parent fr))"

definition page_ok :: "url_library \<Rightarrow> bool \<Rightarrow> frames \<Rightarrow> bool" where
  "page_ok lb steady fs \<longleftrightarrow> (\<forall>n fr. fs n = Some fr \<longrightarrow> frame_ok lb steady fs fr \<and> parent_of fr \<noteq> Some n)"

lemma page_okD:
  "page_ok lb steady fs \<Longrightarrow> fs n = Some fr \<Longrightarrow> frame_ok lb steady fs fr"
  "page_ok lb steady fs \<Longrightarrow> fs n = Some fr \<Longrightarrow> parent_of fr \<noteq> Some n"
  by (simp_all add: page_ok_def)

text \<open>The parts of the invariant that do not speak of the frame's own feature policy.\<close>

definition seat_ok :: "bool \<Rightarrow> frames \<Rightarrow> FrameTreeNode \<Rightarrow> bool" where
  "seat_ok steady fs fr \<longleftrightarrow>
     (case parent_of fr of
        None \<Rightarrow> container_policy fr = [] \<and> pending_container_policy fr = []
      | Some m \<Rightarrow> (\<exists>parent pp. fs m = Some parent \<and> feature_policy parent = Some pp \<and> answers pp \<and>
          (steady \<longrightarrow> flags_within (sandbox_flags parent) (sandbox_flags fr) \<and>
             flags_within (sandbox_flags parent) (pending_sandbox_flags fr))))"

lemma frame_ok_seat: "page_ok lb steady fs \<Longrightarrow> frame_ok lb steady fs fr \<Longrightarrow> seat_ok steady fs fr"
proof -
  assume page: "page_ok lb steady fs" and fr: "frame_ok lb steady fs fr"
  have "answers pp" if "fs m = Some parent" "feature_policy parent = Some pp" for m parent pp
    using page_okD(1) [OF page that(1)] that(2) by (auto simp: frame_ok_def)
  then show ?thesis using fr by (fastforce simp: frame_ok_def seat_ok_def bounded_by_def split: option.splits)
qed

lemma Reset_ok:
  assumes "fs n = Some fr" "seat_ok steady fs fr"
  shows "\<exists>p. ResetFeaturePolicy lb n fs = Inr (fs(n \<mapsto> fr\<lparr>feature_policy := Some p\<rparr>)) \<and>
    (\<forall>h. frame_ok lb steady fs (fr\<lparr>feature_policy := Some (SetHeaderPolicy h p)\<rparr>))"
proof (cases "parent_of fr")
  case None
  then have c: "container_policy fr = []" using assms(2) by (simp add: seat_ok_def)
  obtain p where p: "CreateFromParentPolicy lb None [] (last_committed_origin fr) = Inr p"
    using CreateFromParent_eq [of None "[]" lb] by blast
  then have "answers p" by (rule CreateFromParent_answers) auto
  then show ?thesis using assms None c p
    by (auto simp: ResetFeaturePolicy_def parent_frame_def effective_container_policy_def frame_ok_def seat_ok_def
        answers_header)
next
  case (Some m)
  obtain parent pp where pp: "fs m = Some parent" "feature_policy parent = Some pp" "answers pp"
    "steady \<longrightarrow> flags_within (sandbox_flags parent) (sandbox_flags fr) \<and>
       flags_within (sandbox_flags parent) (pending_sandbox_flags fr)"
    using assms(2) Some by (auto simp: seat_ok_def)
  obtain p where p: "CreateFromParentPolicy lb (Some pp) (container_policy fr) (last_committed_origin fr) = Inr p"
    using CreateFromParent_eq [of "Some pp" "container_policy fr" lb] pp(3) by blast
  then have a: "answers p" by (rule CreateFromParent_answers) (use pp(3) in auto)
  have "off lb (SetHeaderPolicy h p) f" if "f \<noteq> kNotFound" "off lb pp f" for h f
    by (rule off_child [OF pp(3) that p])
  then show ?thesis using assms Some pp p a
    by (auto simp: ResetFeaturePolicy_def parent_frame_def effective_container_policy_def frame_ok_def
        answers_header bounded_by_def)
qed

text \<open>Replacing one frame.\<close>

lemma page_ok_replace:
  assumes ok: "page_ok lb steady fs" and fr: "frame_ok lb steady fs fr'" and self: "parent_of fr' \<noteq> Some n"
    and keep: "childless n fs \<or> (\<exists>fr. fs n = Some fr \<and> (steady \<longrightarrow> flags_within (sandbox_flags fr') (sandbox_flags fr)) \<and>
      feature_policy fr' = feature_policy fr)"
  shows "page_ok lb steady (fs(n \<mapsto> fr'))"
  unfolding page_ok_def
proof (intro allI impI)
  fix k g assume g: "(fs(n \<mapsto> fr')) k = Some g"
  have "parent_of g \<noteq> Some k"
    using g self page_okD(2) [OF ok] by (cases "k = n") auto
  moreover have "frame_ok lb steady (fs(n \<mapsto> fr')) g"
  proof (cases "k = n")
    case True
    then show ?thesis using g fr self by (auto simp: frame_ok_def split: option.splits)
  next
    case False
    then have k: "fs k = Some g" "frame_ok lb steady fs g" using g ok by (auto simp: page_ok_def)
    show ?thesis
    proof (cases "parent_of g = Some n")
      case True
      then obtain fr where "fs n = Some fr" "steady \<longrightarrow> flags_within (sandbox_flags fr') (sandbox_flags fr)"
        "feature_policy fr' = feature_policy fr"
        using keep k(1) by (auto simp: childless_def)
      then show ?thesis using k(2) True by (auto simp: frame_ok_def bounded_by_def intro: flags_within_trans)
    next
      case False
      then show ?thesis using k(2) by (auto simp: frame_ok_def split: option.splits)
    qed
  qed
  ultimately show "frame_ok lb steady (fs(n \<mapsto> fr')) g \<and> parent_of g \<noteq> Some k" by simp
qed

lemma not_own_parent: "childless n fs \<Longrightarrow> fs n = Some fr \<Longrightarrow> parent_of fr \<noteq> Some n"
  by (simp add: childless_def)

lemma Reset_page:
  assumes "page_ok lb steady fs" "childless n fs" "fs n = Some fr" "seat_ok steady fs fr" "ResetFeaturePolicy lb n fs = Inr fs'"
  shows "page_ok lb steady fs'"
proof -
  obtain p where p: "fs' = fs(n \<mapsto> fr\<lparr>feature_policy := Some p\<rparr>)"
    "\<forall>h. frame_ok lb steady fs (fr\<lparr>feature_policy := Some (SetHeaderPolicy h p)\<rparr>)"
    using Reset_ok [OF assms(3,4), of lb] assms(5) by auto
  have "frame_ok lb steady fs (fr\<lparr>feature_policy := Some p\<rparr>)"
    using spec [OF p(2), of "[]"] by (simp add: SetHeaderPolicy_def)
  then show ?thesis unfolding p(1)
    by (rule page_ok_replace [OF assms(1)]) (use assms(2,3) in \<open>auto simp: childless_def\<close>)
qed

lemma commit_frame:
  "sandbox_flags (snd (Node_CommitPendingFramePolicy fr)) = pending_sandbox_flags fr"
  "pending_sandbox_flags (snd (Node_CommitPendingFramePolicy fr)) = pending_sandbox_flags fr"
  "container_policy (snd (Node_CommitPendingFramePolicy fr)) = pending_container_policy fr"
  "pending_container_policy (snd (Node_CommitPendingFramePolicy fr)) = pending_container_policy fr"
  "parent_of (snd (Node_CommitPendingFramePolicy fr)) = parent_of fr"
  "feature_policy (snd (Node_CommitPendingFramePolicy fr)) = feature_policy fr"
  by (simp_all add: Node_CommitPendingFramePolicy_def Let_def)

lemma commit_nothing: "\<not> fst (Node_CommitPendingFramePolicy fr) \<Longrightarrow> snd (Node_CommitPendingFramePolicy fr) = fr"
  by (simp add: Node_CommitPendingFramePolicy_def Let_def)

lemma with_frame_eq: "fs n = Some fr \<Longrightarrow> with_frame n g fs = fs(n \<mapsto> g fr)"
  by (simp add: with_frame_def)

lemma with_frame_none: "fs n = None \<Longrightarrow> with_frame n g fs = fs"
  by (simp add: with_frame_def)

lemma parent_frame_new: "fs n = None \<Longrightarrow> m \<noteq> n \<Longrightarrow> parent_frame n (fs(n \<mapsto> fr)) = (case parent_of fr of None \<Rightarrow> None | Some m \<Rightarrow> (fs(n \<mapsto> fr)) m)"
  by (simp add: parent_frame_def)

lemma AddFrame_page:
  assumes ok: "page_ok lb steady fs" and parent: "fs m = Some parent" and n: "fs n = None" "childless n fs"
    and add: "AddFrame lb same m n flags policy fs = Inr (b, fs')"
  shows "page_ok lb steady fs'"
proof (cases same)
  case False
  then show ?thesis using ok add by (simp add: AddFrame_def)
next
  case True
  have mn: "m \<noteq> n" using parent n by auto
  let ?fr = "FrameTreeNode_new (Some m)"
  let ?fs = "fs(n \<mapsto> ?fr)"
  obtain pp where pp: "feature_policy parent = Some pp" "answers pp"
    using page_okD(1) [OF ok parent] by (auto simp: frame_ok_def)
  obtain p where p: "CreateFromParentPolicy lb (Some pp) [] unique_origin = Inr p"
    using CreateFromParent_eq [of "Some pp" "[]" lb] pp(2) by blast
  have a: "answers p" by (rule CreateFromParent_answers [OF p]) (use pp in auto)
  have o: "off lb p f" if "f \<noteq> kNotFound" "off lb pp f" for f
    using off_child [OF pp(2) that p, of "[]"] by (simp add: SetHeaderPolicy_def)
  have r: "ResetFeaturePolicy lb n ?fs = Inr (fs(n \<mapsto> ?fr\<lparr>feature_policy := Some p\<rparr>))"
    using mn parent pp(1) p
    by (simp add: ResetFeaturePolicy_def parent_frame_def FrameTreeNode_new_def effective_container_policy_def)
  let ?f1 = "?fr\<lparr>feature_policy := Some p\<rparr>"
  let ?f2 = "?f1\<lparr>pending_sandbox_flags := flags OR sandbox_flags parent\<rparr>"
  let ?f3 = "?f2\<lparr>pending_container_policy := policy\<rparr>"
  have "fs' = fs(n \<mapsto> snd (Node_CommitPendingFramePolicy ?f3))"
    using add True r mn parent
    by (auto simp: AddFrame_def SetPendingSandboxFlags_def SetPendingContainerPolicy_def commit_pending_def
        with_frame_def parent_frame_def FrameTreeNode_new_def effective_sandbox_flags_def)
  moreover have "frame_ok lb steady fs (snd (Node_CommitPendingFramePolicy ?f3))"
    using parent pp a o
    by (simp add: frame_ok_def commit_frame FrameTreeNode_new_def bounded_by_def flags_within_OR)
  ultimately show ?thesis
    using n(2) mn by (auto intro!: page_ok_replace [OF ok] simp: commit_frame FrameTreeNode_new_def)
qed

lemma change_page:
  assumes ok: "page_ok lb steady fs" and change: "OnDidChangeFramePolicy n found flags policy fs = (b, fs')"
  shows "page_ok lb steady fs'"
proof (cases "FindAndVerifyChild n found fs")
  case (VerifiedChild c)
  then obtain fr where c: "fs c = Some fr" "parent_of fr = Some n"
    by (auto simp: FindAndVerifyChild_def split: option.splits if_splits)
  obtain parent where parent: "fs n = Some parent" "bounded_by lb steady parent fr"
    using page_okD(1) [OF ok c(1)] c(2) by (auto simp: frame_ok_def)
  have cn: "n \<noteq> c" using page_okD(2) [OF ok c(1)] c(2) by auto
  let ?fr = "fr\<lparr>pending_sandbox_flags := flags OR sandbox_flags parent, pending_container_policy := policy\<rparr>"
  have "fs' = fs(c \<mapsto> ?fr)"
    using change VerifiedChild c parent(1) cn
    by (auto simp: OnDidChangeFramePolicy_def SetPendingSandboxFlags_def SetPendingContainerPolicy_def
        with_frame_def parent_frame_def effective_sandbox_flags_def)
  moreover have "frame_ok lb steady fs ?fr"
    using page_okD(1) [OF ok c(1)] c(2) parent by (simp add: frame_ok_def bounded_by_def flags_within_OR)
  ultimately show ?thesis using c cn by (auto intro!: page_ok_replace [OF ok] simp: flags_within_refl)
qed (use assms in \<open>auto simp: OnDidChangeFramePolicy_def\<close>)

lemma header_page:
  assumes ok: "page_ok lb steady fs" and n: "childless n fs" and header: "OnDidSetFeaturePolicyHeader lb n h fs = Inr fs'"
  shows "page_ok lb steady fs'"
proof (cases "fs n")
  case None
  then show ?thesis using ok header
    by (simp add: OnDidSetFeaturePolicyHeader_def SetFeaturePolicyHeader_def with_frame_none ResetFeaturePolicy_def)
next
  case (Some fr)
  let ?fr = "fr\<lparr>feature_policy_header := h\<rparr>"
  let ?fs = "fs(n \<mapsto> ?fr)"
  have self: "parent_of fr \<noteq> Some n" by (rule not_own_parent [OF n Some])
  have seat: "seat_ok steady ?fs ?fr"
    using frame_ok_seat [OF ok page_okD(1) [OF ok Some]] self by (auto simp: seat_ok_def split: option.splits)
  obtain p where p: "ResetFeaturePolicy lb n ?fs = Inr (?fs(n \<mapsto> ?fr\<lparr>feature_policy := Some p\<rparr>))"
    "\<forall>h. frame_ok lb steady ?fs (?fr\<lparr>feature_policy := Some (SetHeaderPolicy h p)\<rparr>)"
    using Reset_ok [OF _ seat, of n lb] by auto
  have "fs' = fs(n \<mapsto> ?fr\<lparr>feature_policy := Some (SetHeaderPolicy h p)\<rparr>)"
    using header Some p(1)
    by (simp add: OnDidSetFeaturePolicyHeader_def SetFeaturePolicyHeader_def with_frame_def)
  moreover have "frame_ok lb steady fs (?fr\<lparr>feature_policy := Some (SetHeaderPolicy h p)\<rparr>)"
    using spec [OF p(2), of h] self by (auto simp: frame_ok_def split: option.splits)
  ultimately show ?thesis using n self by (auto intro!: page_ok_replace [OF ok])
qed

lemma navigate_page:
  assumes ok: "page_ok lb steady fs" and n: "childless n fs" and nav: "DidNavigate lb n False ori fs = Inr fs'"
  shows "page_ok lb steady fs'"
proof (cases "fs n")
  case None
  then show ?thesis using ok nav
    by (simp add: DidNavigate_def begin_commit_def ResetFeaturePolicyHeader_def Manager_CommitPendingFramePolicy_def
        with_frame_none ResetFeaturePolicy_def)
next
  case (Some fr)
  let ?fr = "fr\<lparr>feature_policy_header := []\<rparr>"
  let ?fr1 = "(snd (Node_CommitPendingFramePolicy ?fr))\<lparr>last_committed_origin := ori\<rparr>"
  let ?fs1 = "fs(n \<mapsto> ?fr1)"
  have run: "ResetFeaturePolicy lb n ?fs1 = Inr fs'"
    using nav Some
    by (auto simp: DidNavigate_def begin_commit_def ResetFeaturePolicyHeader_def Manager_CommitPendingFramePolicy_def
        commit_pending_def with_frame_def Let_def split: if_splits)
  have self: "parent_of fr \<noteq> Some n" by (rule not_own_parent [OF n Some])
  note ok1 = page_okD(1) [OF ok Some]
  have f1: "frame_ok lb steady fs ?fr1"
    using ok1 by (auto simp: frame_ok_def commit_frame bounded_by_def split: option.splits)
  have p1: "page_ok lb steady ?fs1"
    by (rule page_ok_replace [OF ok f1]) (use n self in \<open>simp_all add: commit_frame\<close>)
  have n1: "childless n ?fs1" using n self by (simp add: childless_def commit_frame)
  show ?thesis
    by (rule Reset_page [OF p1 n1 _ frame_ok_seat [OF p1 page_okD(1) [OF p1, of n]] run]) simp_all
qed

lemma within_page:
  assumes ok: "page_ok lb steady fs" and n: "fs n = Some fr"
    and keep: "steady \<longrightarrow> childless n fs \<or> pending_sandbox_flags fr AND sandbox_flags fr = pending_sandbox_flags fr"
    and nav: "DidNavigate lb n True ori fs = Inr fs'"
  shows "page_ok lb steady fs'"
proof -
  let ?fr = "(snd (Node_CommitPendingFramePolicy fr))\<lparr>last_committed_origin := ori\<rparr>"
  have "fs' = fs(n \<mapsto> ?fr)"
    using nav n by (auto simp: DidNavigate_def begin_commit_def Manager_CommitPendingFramePolicy_def commit_pending_def
        with_frame_def Let_def split: if_splits)
  moreover have "frame_ok lb steady fs ?fr"
    using page_okD(1) [OF ok n] by (auto simp: frame_ok_def commit_frame bounded_by_def split: option.splits)
  moreover have "childless n fs \<or> (\<exists>fr. fs n = Some fr \<and> (steady \<longrightarrow> flags_within (sandbox_flags ?fr) (sandbox_flags fr)) \<and>
      feature_policy ?fr = feature_policy fr)"
    using keep n by (auto simp: commit_frame flags_within_def)
  ultimately show ?thesis
    using page_okD(2) [OF ok n] by (auto intro!: page_ok_replace [OF ok] simp: commit_frame)
qed

lemma remove_page: "page_ok lb steady fs \<Longrightarrow> childless n fs \<Longrightarrow> page_ok lb steady (fs(n := None))"
proof -
  assume ok: "page_ok lb steady fs" and n: "childless n fs"
  have "frame_ok lb steady (fs(n := None)) g" if "fs k = Some g" for k g
    using page_okD(1) [OF ok that] n that by (auto simp: frame_ok_def childless_def split: option.splits)
  then show ?thesis using page_okD(2) [OF ok] by (auto simp: page_ok_def)
qed

lemma page_page_ok: "page lb steady fs \<Longrightarrow> page_ok lb steady fs"
proof (induction rule: page.induct)
  case (root n fs)
  let ?fr = "FrameTreeNode_new None"
  have seat: "seat_ok steady (Map.empty(n \<mapsto> ?fr)) ?fr" by (simp add: seat_ok_def FrameTreeNode_new_def)
  obtain p where "fs = Map.empty(n \<mapsto> ?fr\<lparr>feature_policy := Some p\<rparr>)"
    "\<forall>h. frame_ok lb steady (Map.empty(n \<mapsto> ?fr)) (?fr\<lparr>feature_policy := Some (SetHeaderPolicy h p)\<rparr>)"
    using Reset_ok [OF _ seat, of n lb] root by auto
  then show ?case by (auto simp: page_ok_def frame_ok_def FrameTreeNode_new_def answers_def)
next
  case (within fs n fr ori fs')
  from within_page [OF within.IH within.hyps(2-4)] show ?case .
next
  case (add fs m n same flags policy b fs')
  then obtain g where "fs m = Some g" by auto
  from AddFrame_page [OF add.IH this add.hyps(3,4,5)] show ?case .
next
  case (change fs n found flags policy b fs')
  from change_page [OF change.IH change.hyps(2)] show ?case .
next
  case (navigate fs n ori fs')
  from navigate_page [OF navigate.IH navigate.hyps(2,3)] show ?case .
next
  case (header fs n h fs')
  from header_page [OF header.IH header.hyps(2,3)] show ?case .
next
  case (remove fs n)
  from remove_page [OF remove.IH remove.hyps(2)] show ?case .
qed

subsection \<open>An example page\<close>

definition one_frame :: frames where
  "one_frame = Map.empty(
     0 \<mapsto> (FrameTreeNode_new None)\<lparr>feature_policy := Some ((FeaturePolicy_new unique_origin GetDefaultFeatureList)
       \<lparr>inherited_policies := (\<lambda>f. if f = kNotFound then None else Some True)\<rparr>)\<rparr>)"

lemma one_frame_page: "page example_library True one_frame"
proof (rule page.root [of _ 0])
  have "CreateFromParentPolicy example_library None [] unique_origin = Inr
      ((FeaturePolicy_new unique_origin GetDefaultFeatureList)
       \<lparr>inherited_policies := (\<lambda>f. if f = kNotFound then None else Some True)\<rparr>)"
    using CreateFromParent_eq [of None "[]" example_library unique_origin] by (simp add: delegated_def cong: if_cong)
  then show "ResetFeaturePolicy example_library 0 (Map.empty(0 \<mapsto> FrameTreeNode_new None)) = Inr one_frame"
    by (simp add: ResetFeaturePolicy_def parent_frame_def effective_container_policy_def FrameTreeNode_new_def one_frame_def)
qed

definition fullscreen_for_all :: ParsedFeaturePolicyHeader where
  "fullscreen_for_all = [\<lparr>feature = kFullscreen, declaration_matches_all = True, declaration_origins = []\<rparr>]"

definition framed_page :: frames where
  "framed_page = (case AddFrame example_library True 0 1 5 fullscreen_for_all one_frame of
     Inl e \<Rightarrow> one_frame | Inr (b, fs) \<Rightarrow> fs)"

lemma framed_page_page: "page example_library True framed_page"
proof -
  have "page example_library True fs" if "AddFrame example_library True 0 1 5 fullscreen_for_all one_frame = Inr (b, fs)" for b fs
    by (rule page.add [OF one_frame_page _ _ _ that]) (simp_all add: one_frame_def childless_def FrameTreeNode_new_def)
  then show ?thesis using one_frame_page by (auto simp: framed_page_def split: sum.split)
qed

lemma framed_page_facts:
  "map_option parent_of (framed_page 1) = Some (Some 0)"
  "map_option sandbox_flags (framed_page 1) = Some 5"
  by code_simp+

subsection \<open>Ancestors\<close>

inductive ancestor :: "frames \<Rightarrow> nat \<Rightarrow> nat \<Rightarrow> bool" for fs where
  parent: "fs n = Some fr \<Longrightarrow> parent_of fr = Some m \<Longrightarrow> ancestor fs m n"
| further: "fs n = Some fr \<Longrightarrow> parent_of fr = Some m \<Longrightarrow> ancestor fs k m \<Longrightarrow> ancestor fs k n"

text \<open>C22. No frame escapes its ancestors. Take a page that renderers build which remove the frames below a
  frame before its document is replaced and send a document's header before it has frames. A feature
  that the policy of a frame gives to no origin is given to no origin by the policy of any frame below
  it. And if no navigation within a document added sandbox flags to a frame that had frames below it,
  each frame carries all effective sandbox flags of the frames above it, also in the flags that take
  effect with its next navigation; without that condition it need not.\<close>

theorem descendants_are_bounded:
  assumes "page lb steady fs" "ancestor fs m n"
  shows "\<exists>a d p q. fs m = Some a \<and> fs n = Some d \<and>
    (steady \<longrightarrow> sandbox_flags a AND sandbox_flags d = sandbox_flags a \<and>
      sandbox_flags a AND pending_sandbox_flags d = sandbox_flags a) \<and>
    feature_policy a = Some p \<and> feature_policy d = Some q \<and>
    (\<forall>f. f \<noteq> kNotFound \<longrightarrow>
      (\<forall>same ori. (same \<longrightarrow> ori = policy_origin p) \<longrightarrow> IsFeatureEnabledForOrigin lb p f same ori = Inr False) \<longrightarrow>
      IsFeatureEnabled lb q f = Inr False \<and> (\<forall>ori. IsFeatureEnabledForOrigin lb q f False ori = Inr False))"
proof -
  have ok: "page_ok lb steady fs" by (rule page_page_ok [OF assms(1)])
  have "\<exists>a d. fs m = Some a \<and> fs n = Some d \<and> bounded_by lb steady a d"
    using assms(2)
  proof induction
    case (parent n fr m)
    then show ?case using page_okD(1) [OF ok parent(1)] by (auto simp: frame_ok_def)
  next
    case (further n fr m k)
    then obtain a d where ad: "fs k = Some a" "fs m = Some d" "bounded_by lb steady a d" by blast
    moreover have "bounded_by lb steady d fr"
      using page_okD(1) [OF ok further(1)] further(2) ad by (auto simp: frame_ok_def)
    ultimately have "bounded_by lb steady a fr" by (auto simp: bounded_by_def intro: flags_within_trans)
    then show ?case using ad further(1) by blast
  qed
  then obtain a d where "fs m = Some a" "fs n = Some d" "bounded_by lb steady a d" by blast
  then show ?thesis
    by (auto simp: bounded_by_def flags_within_def off_def IsFeatureEnabled_def)
qed

theorem descendants_are_bounded_witness:
  "ancestor framed_page 0 1 \<and> (\<exists>a d. framed_page 0 = Some a \<and> framed_page 1 = Some d \<and>
     sandbox_flags a AND sandbox_flags d = sandbox_flags a)"
proof -
  have below: "ancestor framed_page 0 1"
    using framed_page_facts(1) by (auto intro: ancestor.parent)
  then show ?thesis using descendants_are_bounded [OF framed_page_page below] by blast
qed

subsection \<open>Departures\<close>

text \<open>
  A navigation within the page puts pending flags into effect: the parent drops the sandbox of a
  frame, and the document that was loaded under it is out of it as soon as it changes its
  fragment.
\<close>

definition unsandboxed :: "policy_failure + frames" where
  "unsandboxed = DidNavigate example_library 1 True unique_origin
     (snd (OnDidChangeFramePolicy 0 (Some 1) 0 fullscreen_for_all framed_page))"

lemma same_document_navigation_drops_the_sandbox:
  "(case unsandboxed of Inl e \<Rightarrow> None | Inr fs \<Rightarrow> map_option sandbox_flags (fs 1)) = Some 0 \<and>
   map_option sandbox_flags (framed_page 1) = Some 5"
  by code_simp

text \<open>
  For the same reason a frame can lack flags of the frame above it: the parent of frame 1 sandboxes it
  further while frame 2 is below it, and a change of the fragment in frame 1 puts the flags into
  effect for frame 1 alone.
\<close>

definition outgrown :: "policy_failure + frames" where
  "outgrown = bindE (AddFrame example_library True 1 2 5 [] framed_page) (\<lambda>(b, fs).
     DidNavigate example_library 1 True unique_origin
       (snd (OnDidChangeFramePolicy 0 (Some 1) 7 fullscreen_for_all fs)))"

lemma same_document_navigation_leaves_subframes_behind:
  "(case outgrown of Inl e \<Rightarrow> None | Inr fs \<Rightarrow> map_option sandbox_flags (fs 1)) = Some 7 \<and>
   (case outgrown of Inl e \<Rightarrow> None | Inr fs \<Rightarrow> map_option sandbox_flags (fs 2)) = Some 5 \<and>
   (case outgrown of Inl e \<Rightarrow> None | Inr fs \<Rightarrow> map_option parent_of (fs 2)) = Some (Some 1)"
  by code_simp

text \<open>
  The feature policy of a new frame's initial document is computed before the container policy of
  the frame is set and not computed again.
\<close>

definition fullscreen_in :: "frames \<Rightarrow> policy_failure + bool" where
  "fullscreen_in fs = (case fs 1 of None \<Rightarrow> Inr False | Some fr \<Rightarrow>
     (case feature_policy fr of None \<Rightarrow> Inr False | Some p \<Rightarrow> IsFeatureEnabled example_library p kFullscreen))"

lemma initial_document_misses_the_container_policy:
  "map_option effective_container_policy (framed_page 1) = Some fullscreen_for_all"
  "fullscreen_in framed_page = Inr False"
  "bindE (ResetFeaturePolicy example_library 1 framed_page) fullscreen_in = Inr True"
  by code_simp+

text \<open>
  The browser asks the policy of a document with an opaque origin about a copy of that origin, and
  gets another answer than the policy gives for its own document.
\<close>

lemma opaque_document_loses_its_own_features:
  "(case one_frame 0 of None \<Rightarrow> Inr True | Some fr \<Rightarrow> Host_IsFeatureEnabled example_library fr kCamera) = Inr False"
  "(case one_frame 0 of None \<Rightarrow> Inr False | Some fr \<Rightarrow> (case feature_policy fr of None \<Rightarrow> Inr False
      | Some p \<Rightarrow> IsFeatureEnabled example_library p kCamera)) = Inr True"
  by code_simp+

end
