(* ===== verification/Osv_Messages.thy ===== *)
theory Osv_Messages
  imports Urls
begin

text \<open>
  OSV-Free, the messages from web pages to the app's native code that this repository adds to the
  browser: the app registers a callback on a main frame
  (\<open>web_contents_android.cc\<close>, \<open>render_frame_host_impl.cc\<close>), the renderer installs
  \<open>postMessageToNativeFrame\<close> in the frame's main world (\<open>render_frame_impl.cc\<close>), and what a
  script posts comes back to the frame host, which runs the callback with the origins of frame
  and script. The two processes exchange the messages of \<open>frame_messages.h\<close> through ordered
  queues. One renderer process hosts several main frames (several web views of an app).

  Text is UTF-8 bytes on the renderer's side: what \<open>v8::String::Utf8Value\<close> holds, \<open>None\<close> when
  the conversion failed and \<open>*value\<close> is null; \<open>std::string(*value)\<close> reads a C string, up to
  the first zero byte. \<open>base::string16 s16(data.begin(), data.end())\<close> widens every \<open>char\<close> to a code unit, with sign where \<open>char\<close> is signed (\<open>char_signed\<close>). Stack
  frames are what V8's \<open>CurrentStackTrace\<close> reports, innermost first; \<open>parse16\<close> is the \<open>GURL\<close>
  constructor on UTF-16 text. Logging is not modelled.
\<close>

subsection \<open>State\<close>

datatype osv_failure = NullString | NoStackFrame | NullCallback

record stack_frame =
  script_name :: "bytes option"
  function_name :: "bytes option"

text \<open>\<open>FrameHostMsg_MessageFromMainFrameReceived\<close>.\<close>

record reply =
  reply_routing_id :: int
  reply_script_url :: string16
  reply_data :: string16
  reply_onmessage :: bool

record 'cb frame_host =
  host_callback :: "'cb option"
  last_committed_url :: GURL

record 'cb delivery =
  to_callback :: 'cb
  frame_origin :: string16
  script_origin :: string16
  delivered_data :: string16
  onmessage_involved :: bool

text \<open>
  \<open>contexts\<close> are the frames whose main world context is not empty, \<open>exposed\<close> those whose global
  object has \<open>postMessageToNativeFrame\<close>; \<open>myrouting_id\<close> is the renderer's file-static variable.
\<close>

record 'cb osv_system =
  hosts :: "int \<rightharpoonup> 'cb frame_host"
  to_renderer :: "int list"
  contexts :: "int set"
  exposed :: "int set"
  myrouting_id :: int
  to_browser :: "reply list"
  delivered :: "'cb delivery list"

definition osv_system_new :: "'cb osv_system" where
  "osv_system_new =
     \<lparr>hosts = (\<lambda>_. None), to_renderer = [], contexts = {}, exposed = {}, myrouting_id = 0,
      to_browser = [], delivered = []\<rparr>"

subsection \<open>Operations\<close>

definition ascii_bytes :: "string \<Rightarrow> bytes" where
  "ascii_bytes s = map (\<lambda>c. of_nat (of_char c)) s"

definition widen :: "bool \<Rightarrow> bytes \<Rightarrow> string16" where
  "widen char_signed s = map (\<lambda>b. if char_signed then scast b else ucast b) s"

definition ReceiveMessageFromMainFrame :: "int \<Rightarrow> 'cb \<Rightarrow> 'cb osv_system \<Rightarrow> 'cb osv_system" where
  "ReceiveMessageFromMainFrame routing_id callback s =
     (case hosts s routing_id of
        None \<Rightarrow> s
      | Some h \<Rightarrow> s\<lparr>hosts := (hosts s)(routing_id \<mapsto> h\<lparr>host_callback := Some callback\<rparr>),
                    to_renderer := to_renderer s @ [routing_id]\<rparr>)"

definition OnReceiveMessageFromMainFrame :: "int \<Rightarrow> 'cb osv_system \<Rightarrow> 'cb osv_system" where
  "OnReceiveMessageFromMainFrame routing_id s =
     (if routing_id \<notin> contexts s then s
      else s\<lparr>myrouting_id := routing_id, exposed := insert routing_id (exposed s)\<rparr>)"

definition c_string :: "bytes option \<Rightarrow> osv_failure + bytes" where
  "c_string value =
     (case value of None \<Rightarrow> Inl NullString | Some b \<Rightarrow> Inr (takeWhile (\<lambda>c. c \<noteq> 0) b))"

primrec describe_stack ::
  "stack_frame list \<Rightarrow> bytes \<Rightarrow> bool \<Rightarrow> osv_failure + bytes \<times> bool" where
  "describe_stack [] data involved = Inr (data, involved)"
| "describe_stack (f # fs) data involved =
     bindE (c_string (script_name f)) (\<lambda>scriptName.
     bindE (c_string (function_name f)) (\<lambda>functionName.
       describe_stack fs
         (data @ ascii_bytes ''ScriptName:'' @ scriptName @ ascii_bytes ''@function:''
            @ functionName @ ascii_bytes ''->'')
         (if functionName = ascii_bytes ''onmessage'' then True else involved)))"

abbreviation (input) myst_size :: nat where "myst_size \<equiv> 10"

definition postMessageToNativeFrameCallback ::
  "bool \<Rightarrow> bytes option list \<Rightarrow> stack_frame list \<Rightarrow> 'cb osv_system \<Rightarrow> osv_failure + 'cb osv_system"
where
  "postMessageToNativeFrameCallback char_signed args stack s =
     (case args of
        [] \<Rightarrow> Inr s
      | param1 # _ \<Rightarrow>
          let myst = take myst_size stack
          in bindE (c_string param1) (\<lambda>arg.
             bindE (describe_stack myst
                      (ascii_bytes ''data:'' @ arg @ ascii_bytes ''||-''
                         @ ascii_bytes (show_nat (length myst)) @ ascii_bytes ''-||'') False)
               (\<lambda>(data, involved).
                  case myst of
                    [] \<Rightarrow> Inl NoStackFrame
                  | innermost # _ \<Rightarrow>
                      bindE (c_string (script_name innermost)) (\<lambda>scriptOriginStr.
                        Inr (s\<lparr>to_browser := to_browser s @
                          [\<lparr>reply_routing_id = myrouting_id s,
                            reply_script_url = widen char_signed scriptOriginStr,
                            reply_data = widen char_signed data, reply_onmessage = involved\<rparr>]\<rparr>)))))"

text \<open>A reply for a frame that is gone finds no listener and is dropped.\<close>

definition OnMessageFromMainFrameReceived ::
  "url_library \<Rightarrow> (string16 \<Rightarrow> GURL) \<Rightarrow> bool \<Rightarrow> reply \<Rightarrow> 'cb osv_system \<Rightarrow> osv_failure + 'cb osv_system"
where
  "OnMessageFromMainFrameReceived lb parse16 char_signed m s =
     (case hosts s (reply_routing_id m) of
        None \<Rightarrow> Inr s
      | Some h \<Rightarrow>
          let frameOrigin = spec (GetOrigin lb (last_committed_url h));
              scriptOrigin = spec (GetOrigin lb (parse16 (reply_script_url m)));
              fo16 = widen char_signed (ascii_bytes frameOrigin);
              so16 = widen char_signed (ascii_bytes scriptOrigin)
          in case host_callback h of
               None \<Rightarrow> Inl NullCallback
             | Some callback \<Rightarrow>
                 Inr (s\<lparr>delivered := delivered s @
                   [\<lparr>to_callback = callback, frame_origin = fo16, script_origin = so16,
                     delivered_data = reply_data m, onmessage_involved = reply_onmessage m\<rparr>]\<rparr>))"

subsection \<open>Runs\<close>

text \<open>
  The browser and the renderer take messages from their queues in order; frames are created,
  commit URLs (with a new global object) and go away around them.
\<close>

inductive osv_step ::
  "url_library \<Rightarrow> (string16 \<Rightarrow> GURL) \<Rightarrow> bool \<Rightarrow> 'cb osv_system \<Rightarrow> 'cb osv_system \<Rightarrow> bool"
  for lb parse16 char_signed where
  create: "hosts s r = None \<Longrightarrow> r \<notin> set (to_renderer s) \<Longrightarrow> r \<notin> exposed s \<Longrightarrow>
    r \<notin> reply_routing_id ` set (to_browser s) \<Longrightarrow> r \<noteq> myrouting_id s \<Longrightarrow>
    osv_step lb parse16 char_signed s
      (s\<lparr>hosts := (hosts s)(r \<mapsto> \<lparr>host_callback = None, last_committed_url = url\<rparr>),
         contexts := insert r (contexts s)\<rparr>)"
| commit: "hosts s r = Some h \<Longrightarrow>
    osv_step lb parse16 char_signed s
      (s\<lparr>hosts := (hosts s)(r \<mapsto> h\<lparr>last_committed_url := url\<rparr>), exposed := exposed s - {r}\<rparr>)"
| destroy: "osv_step lb parse16 char_signed s
    (s\<lparr>hosts := (hosts s)(r := None), contexts := contexts s - {r}, exposed := exposed s - {r}\<rparr>)"
| register: "osv_step lb parse16 char_signed s (ReceiveMessageFromMainFrame r callback s)"
| renderer: "to_renderer s = r # rest \<Longrightarrow>
    osv_step lb parse16 char_signed s (OnReceiveMessageFromMainFrame r (s\<lparr>to_renderer := rest\<rparr>))"
| post: "f \<in> exposed s \<Longrightarrow> postMessageToNativeFrameCallback char_signed args stack s = Inr s' \<Longrightarrow>
    osv_step lb parse16 char_signed s s'"
| browser: "to_browser s = m # rest \<Longrightarrow>
    OnMessageFromMainFrameReceived lb parse16 char_signed m (s\<lparr>to_browser := rest\<rparr>) = Inr s' \<Longrightarrow>
    osv_step lb parse16 char_signed s s'"

inductive osv_reachable :: "url_library \<Rightarrow> (string16 \<Rightarrow> GURL) \<Rightarrow> bool \<Rightarrow> 'cb osv_system \<Rightarrow> bool"
  for lb parse16 char_signed where
  initial: "osv_reachable lb parse16 char_signed osv_system_new"
| step: "osv_reachable lb parse16 char_signed s \<Longrightarrow> osv_step lb parse16 char_signed s s' \<Longrightarrow>
    osv_reachable lb parse16 char_signed s'"

subsection \<open>Who is behind a reply\<close>

text \<open>
  Every frame that the renderer has been told about, or that a reply can be routed to, has a
  callback as long as its host exists.
\<close>

definition has_callback :: "'cb osv_system \<Rightarrow> int \<Rightarrow> bool" where
  "has_callback s r \<longleftrightarrow> (\<forall>h. hosts s r = Some h \<longrightarrow> host_callback h \<noteq> None)"

definition osv_ok :: "'cb osv_system \<Rightarrow> bool" where
  "osv_ok s \<longleftrightarrow> (\<forall>r \<in> set (to_renderer s). has_callback s r) \<and> (\<forall>r \<in> exposed s. has_callback s r)
     \<and> (\<forall>m \<in> set (to_browser s). has_callback s (reply_routing_id m))
     \<and> (exposed s \<noteq> {} \<longrightarrow> has_callback s (myrouting_id s))"

lemma osv_ok_step:
  assumes "osv_ok s" "osv_step lb parse16 sg s s'"
  shows "osv_ok s'"
  using assms(2)
proof cases
  case (create r url)
  with assms(1) show ?thesis by (auto simp: osv_ok_def has_callback_def)
next
  case (commit r h url)
  with assms(1) show ?thesis by (auto simp: osv_ok_def has_callback_def)
next
  case (destroy r)
  with assms(1) show ?thesis by (auto simp: osv_ok_def has_callback_def)
next
  case (register r callback)
  with assms(1) show ?thesis
    by (auto simp: osv_ok_def has_callback_def ReceiveMessageFromMainFrame_def split: option.splits)
next
  case (renderer r rest)
  with assms(1) show ?thesis
    by (auto simp: osv_ok_def has_callback_def OnReceiveMessageFromMainFrame_def)
next
  case (post f args stack)
  with assms(1) show ?thesis
    by (auto simp: osv_ok_def has_callback_def postMessageToNativeFrameCallback_def Let_def bindE_def
        split: list.splits prod.splits sum.splits)
next
  case (browser m rest)
  with assms(1) show ?thesis
    by (auto simp: osv_ok_def has_callback_def OnMessageFromMainFrameReceived_def Let_def
        split: option.splits)
qed

lemma osv_reachable_ok: "osv_reachable lb parse16 sg s \<Longrightarrow> osv_ok s"
proof (induction rule: osv_reachable.induct)
  case initial
  show ?case by (simp add: osv_ok_def osv_system_new_def)
next
  case (step s s')
  then show ?case by (blast intro: osv_ok_step)
qed

subsection \<open>What a reply carries\<close>

text \<open>Frames whose names can be read, and the text a name or an argument gives.\<close>

definition readable :: "stack_frame \<Rightarrow> bool" where
  "readable f \<longleftrightarrow> script_name f \<noteq> None \<and> function_name f \<noteq> None"

definition text_of :: "bytes option \<Rightarrow> bytes" where
  "text_of value = (case value of None \<Rightarrow> [] | Some b \<Rightarrow> takeWhile (\<lambda>c. c \<noteq> 0) b)"

lemma c_string_Some [simp]: "value \<noteq> None \<Longrightarrow> c_string value = Inr (text_of value)"
  by (auto simp: c_string_def text_of_def)

lemma c_string_None [simp]: "c_string None = Inl NullString"
  by (simp add: c_string_def)

definition stack_text :: "stack_frame list \<Rightarrow> bytes" where
  "stack_text fs =
     concat (map (\<lambda>f. ascii_bytes ''ScriptName:'' @ text_of (script_name f)
       @ ascii_bytes ''@function:'' @ text_of (function_name f) @ ascii_bytes ''->'') fs)"

definition calls_onmessage :: "stack_frame list \<Rightarrow> bool" where
  "calls_onmessage fs \<longleftrightarrow> (\<exists>f \<in> set fs. text_of (function_name f) = ascii_bytes ''onmessage'')"

lemma describe_stack_eq:
  assumes "\<forall>f \<in> set fs. readable f"
  shows "describe_stack fs data involved = Inr (data @ stack_text fs, involved \<or> calls_onmessage fs)"
  using assms
  by (induction fs arbitrary: data involved)
    (auto simp: readable_def stack_text_def calls_onmessage_def bindE_def)

lemma describe_stack_unreadable:
  assumes "\<exists>f \<in> set fs. \<not> readable f"
  shows "describe_stack fs data involved = Inl NullString"
  using assms
proof (induction fs arbitrary: data involved)
  case (Cons f fs)
  then show ?case
    by (cases "script_name f"; cases "function_name f") (auto simp: readable_def bindE_def)
qed simp

definition message_text :: "bytes \<Rightarrow> stack_frame list \<Rightarrow> bytes" where
  "message_text arg fs =
     ascii_bytes ''data:'' @ text_of (Some arg) @ ascii_bytes ''||-'' @ ascii_bytes (show_nat (length fs))
       @ ascii_bytes ''-||'' @ stack_text fs"

lemma post_eq:
  assumes "\<forall>g \<in> set (take 10 (f # stack)). readable g"
  shows "postMessageToNativeFrameCallback sg (Some arg # args) (f # stack) s =
     Inr (s\<lparr>to_browser := to_browser s @
       [\<lparr>reply_routing_id = myrouting_id s, reply_script_url = widen sg (text_of (script_name f)),
         reply_data = widen sg (message_text arg (take 10 (f # stack))),
         reply_onmessage = calls_onmessage (take 10 (f # stack))\<rparr>]\<rparr>)"
proof -
  define fs where "fs = take 10 (f # stack)"
  have fs: "fs = f # take 9 stack" by (simp add: fs_def)
  have "script_name f \<noteq> None" using assms by (simp add: readable_def)
  moreover note describe_stack_eq [OF assms [folded fs_def]]
  ultimately show ?thesis
    unfolding postMessageToNativeFrameCallback_def message_text_def fs_def [symmetric]
    by (simp add: Let_def fs del: describe_stack.simps)
qed

lemma post_unreadable:
  assumes "\<exists>g \<in> set (take 10 stack). \<not> readable g"
  shows "postMessageToNativeFrameCallback sg (Some arg # args) stack s = Inl NullString"
  using describe_stack_unreadable [OF assms]
  by (simp add: postMessageToNativeFrameCallback_def Let_def del: describe_stack.simps)

lemma post_readable:
  assumes "postMessageToNativeFrameCallback sg (Some arg # args) stack s = Inr s'"
  shows "\<forall>g \<in> set (take 10 stack). readable g"
  using assms post_unreadable [of stack sg arg args s] by (auto simp del: take_Suc_Cons)

text \<open>The system after a frame was registered and its renderer told, with empty queues.\<close>

definition registered :: "int \<Rightarrow> 'cb \<Rightarrow> 'cb osv_system \<Rightarrow> 'cb osv_system" where
  "registered r callback s =
     OnReceiveMessageFromMainFrame r (ReceiveMessageFromMainFrame r callback s\<lparr>to_renderer := []\<rparr>)"

definition commit_url :: "int \<Rightarrow> GURL \<Rightarrow> 'cb osv_system \<Rightarrow> 'cb osv_system" where
  "commit_url r url s =
     (case hosts s r of
        None \<Rightarrow> s
      | Some h \<Rightarrow> s\<lparr>hosts := (hosts s)(r \<mapsto> h\<lparr>last_committed_url := url\<rparr>), exposed := exposed s - {r}\<rparr>)"

definition deliver ::
  "url_library \<Rightarrow> (string16 \<Rightarrow> GURL) \<Rightarrow> bool \<Rightarrow> 'cb osv_system \<Rightarrow> osv_failure + 'cb osv_system" where
  "deliver lb parse16 sg s =
     (case to_browser s of
        [] \<Rightarrow> Inr s
      | m # rest \<Rightarrow> OnMessageFromMainFrameReceived lb parse16 sg m (s\<lparr>to_browser := rest\<rparr>))"

lemma registered_fields:
  assumes "hosts s r = Some h" "r \<in> contexts s"
  shows "hosts (registered r callback s) = (hosts s)(r \<mapsto> h\<lparr>host_callback := Some callback\<rparr>)"
    "myrouting_id (registered r callback s) = r" "exposed (registered r callback s) = insert r (exposed s)"
    "contexts (registered r callback s) = contexts s" "to_browser (registered r callback s) = to_browser s"
    "delivered (registered r callback s) = delivered s"
  using assms by (simp_all add: registered_def ReceiveMessageFromMainFrame_def OnReceiveMessageFromMainFrame_def)

text \<open>The origin of a URL and of a script name, as the app sees them.\<close>

definition shown_origin :: "url_library \<Rightarrow> bool \<Rightarrow> GURL \<Rightarrow> string16" where
  "shown_origin lb sg url = widen sg (ascii_bytes (spec (GetOrigin lb url)))"

lemma deliver_eq:
  assumes "to_browser s = [m]" "hosts s (reply_routing_id m) = Some h" "host_callback h = Some callback"
  shows "deliver lb parse16 sg s = Inr (s\<lparr>to_browser := [], delivered := delivered s @
    [\<lparr>to_callback = callback, frame_origin = shown_origin lb sg (last_committed_url h),
      script_origin = shown_origin lb sg (parse16 (reply_script_url m)), delivered_data = reply_data m,
      onmessage_involved = reply_onmessage m\<rparr>]\<rparr>)"
  using assms by (simp add: deliver_def OnMessageFromMainFrameReceived_def shown_origin_def Let_def)

end
