(* ===== verification/Osv_Properties.thy ===== *)
theory Osv_Properties
  imports Osv_Messages
begin

text \<open>The properties of the messages from pages to native code.\<close>

text \<open>C1. A message posted in the only registered frame reaches that frame's callback with the
  origin of the frame, the origin of the innermost script on the stack, the posted text framed
  by the description of the stack, and the flag that tells whether one of the ten innermost
  functions is called onmessage. Posting with an empty stack is a read past its end, and a
  name on the stack that cannot be read is a null string.\<close>

theorem message_reaches_its_callback:
  assumes "hosts s r = Some h" "r \<in> contexts s" "to_browser s = []"
    and "\<forall>g \<in> set (take 10 (f # stack)). readable g" "\<not> readable f'"
  shows "\<exists>s' s''.
    postMessageToNativeFrameCallback sg (Some arg # args) (f # stack) (registered r callback s) = Inr s' \<and>
    deliver lb parse16 sg s' = Inr s'' \<and>
    delivered s'' = delivered s @
      [\<lparr>to_callback = callback, frame_origin = shown_origin lb sg (last_committed_url h),
        script_origin = shown_origin lb sg (parse16 (widen sg (text_of (script_name f)))),
        delivered_data = widen sg (message_text arg (take 10 (f # stack))),
        onmessage_involved = calls_onmessage (take 10 (f # stack))\<rparr>] \<and>
    postMessageToNativeFrameCallback sg (Some arg # args) [] (registered r callback s) = Inl NoStackFrame \<and>
    postMessageToNativeFrameCallback sg (Some arg # args) (f' # stack) (registered r callback s) = Inl NullString"
proof -
  note reg = registered_fields [OF assms(1,2), of callback]
  let ?m = "\<lparr>reply_routing_id = r, reply_script_url = widen sg (text_of (script_name f)),
      reply_data = widen sg (message_text arg (take 10 (f # stack))),
      reply_onmessage = calls_onmessage (take 10 (f # stack))\<rparr>"
  let ?s = "registered r callback s\<lparr>to_browser := [?m]\<rparr>"
  have posted: "postMessageToNativeFrameCallback sg (Some arg # args) (f # stack) (registered r callback s) = Inr ?s"
    using assms(3) by (simp only: post_eq [OF assms(4)] reg append_Nil)
  have host: "hosts ?s (reply_routing_id ?m) = Some (h\<lparr>host_callback := Some callback\<rparr>)"
    by (simp add: reg)
  have "postMessageToNativeFrameCallback sg (Some arg # args) [] (registered r callback s) = Inl NoStackFrame"
    by (simp add: postMessageToNativeFrameCallback_def Let_def)
  moreover have "postMessageToNativeFrameCallback sg (Some arg # args) (f' # stack) (registered r callback s)
      = Inl NullString"
    using assms(5) by (intro post_unreadable) simp
  ultimately show ?thesis
    using posted deliver_eq [OF _ host, of callback lb parse16 sg] by (simp add: reg)
qed

definition example_system :: "nat osv_system" where
  "example_system =
     \<lparr>hosts = [1 \<mapsto> \<lparr>host_callback = None, last_committed_url = GURL ''http://a/x'' True ''http'' ''a'' [] 80 ''/x'' [] None\<rparr>,
               2 \<mapsto> \<lparr>host_callback = None, last_committed_url = GURL ''http://b/'' True ''http'' ''b'' [] 80 ''/'' [] None\<rparr>],
      to_renderer = [], contexts = {1, 2}, exposed = {}, myrouting_id = 0, to_browser = [], delivered = []\<rparr>"

theorem message_reaches_its_callback_witness:
  "\<exists>s' s''. postMessageToNativeFrameCallback False [Some (ascii_bytes ''hi'')]
      [\<lparr>script_name = Some (ascii_bytes ''http://a/x.js''), function_name = Some (ascii_bytes ''onmessage'')\<rparr>]
      (registered 1 5 example_system) = Inr s' \<and>
    deliver example_library (\<lambda>t. GURL [] True ''http'' ''a'' [] 80 [] [] None) False s' = Inr s'' \<and>
    map to_callback (delivered s'') = [5] \<and> map onmessage_involved (delivered s'') = [True]"
proof -
  have h: "hosts example_system 1 = Some \<lparr>host_callback = None,
      last_committed_url = GURL ''http://a/x'' True ''http'' ''a'' [] 80 ''/x'' [] None\<rparr>"
    "1 \<in> contexts example_system" "to_browser example_system = []" "delivered example_system = []"
    by (simp_all add: example_system_def)
  have r: "\<forall>g \<in> set (take 10 ([\<lparr>script_name = Some (ascii_bytes ''http://a/x.js''),
      function_name = Some (ascii_bytes ''onmessage'')\<rparr>])). readable g"
    "\<not> readable \<lparr>script_name = None, function_name = None\<rparr>"
    by (simp_all add: readable_def)
  from message_reaches_its_callback [OF h(1,2,3) r, of False "ascii_bytes ''hi''" "[]" 5
      example_library "\<lambda>t. GURL [] True ''http'' ''a'' [] 80 [] [] None"]
  show ?thesis by (auto simp: h(4) calls_onmessage_def text_of_def ascii_bytes_def)
qed

text \<open>The renderer remembers one routing id for all its frames: once a second frame has been
  registered, a message posted in the first one, where the function is still exposed, is
  delivered to the second frame's callback under the second frame's origin.\<close>

lemma replies_follow_the_last_registration:
  assumes "hosts s a = Some h" "hosts s b = Some k" "a \<noteq> b" "a \<in> contexts s" "b \<in> contexts s"
    and "to_browser s = []" "s' = registered b callback_b (registered a callback_a s)"
    and "\<forall>g \<in> set (take 10 (f # stack)). readable g"
  shows "a \<in> exposed s' \<and>
    (\<exists>t t'. postMessageToNativeFrameCallback sg (Some arg # args) (f # stack) s' = Inr t \<and>
      deliver lb parse16 sg t = Inr t' \<and>
      (\<exists>d. delivered t' = delivered s @ [d] \<and> to_callback d = callback_b \<and>
        frame_origin d = shown_origin lb sg (last_committed_url k) \<and>
        delivered_data d = widen sg (message_text arg (take 10 (f # stack)))))"
proof -
  note ra = registered_fields [OF assms(1,4), of callback_a]
  have "hosts (registered a callback_a s) b = Some k" "b \<in> contexts (registered a callback_a s)"
    using assms(2,3,5) by (simp_all add: ra)
  note rb = registered_fields [OF this, of callback_b]
  let ?m = "\<lparr>reply_routing_id = b, reply_script_url = widen sg (text_of (script_name f)),
      reply_data = widen sg (message_text arg (take 10 (f # stack))),
      reply_onmessage = calls_onmessage (take 10 (f # stack))\<rparr>"
  let ?t = "s'\<lparr>to_browser := [?m]\<rparr>"
  have posted: "postMessageToNativeFrameCallback sg (Some arg # args) (f # stack) s' = Inr ?t"
    unfolding assms(7) using assms(6) by (simp only: post_eq [OF assms(8)] ra rb append_Nil)
  have host: "hosts ?t (reply_routing_id ?m) = Some (k\<lparr>host_callback := Some callback_b\<rparr>)"
    by (simp add: assms(7) rb)
  show ?thesis
    using posted deliver_eq [OF _ host, of callback_b lb parse16 sg] by (simp add: assms(7) ra rb)
qed

text \<open>The origin of the frame is taken when the browser receives the message: a message posted
  before a navigation and received after it is delivered under the origin of the new page.\<close>

lemma frame_origin_is_taken_at_receipt:
  assumes "hosts s r = Some h" "r \<in> contexts s" "to_browser s = []"
    and "postMessageToNativeFrameCallback sg (Some arg # args) (f # stack) (registered r callback s) = Inr s'"
  shows "\<exists>t. deliver lb parse16 sg (commit_url r new_url s') = Inr t \<and>
    (\<exists>d. delivered t = delivered s @ [d] \<and> to_callback d = callback \<and>
      frame_origin d = shown_origin lb sg new_url \<and>
      delivered_data d = widen sg (message_text arg (take 10 (f # stack))))"
proof -
  note reg = registered_fields [OF assms(1,2), of callback]
  let ?m = "\<lparr>reply_routing_id = r, reply_script_url = widen sg (text_of (script_name f)),
      reply_data = widen sg (message_text arg (take 10 (f # stack))),
      reply_onmessage = calls_onmessage (take 10 (f # stack))\<rparr>"
  have s': "s' = registered r callback s\<lparr>to_browser := [?m]\<rparr>"
    using assms(3,4) by (simp only: post_eq [OF post_readable [OF assms(4)]] reg append_Nil sum.inject)
  let ?t = "commit_url r new_url s'"
  have t: "to_browser ?t = [?m]" "delivered ?t = delivered s"
    "hosts ?t (reply_routing_id ?m) = Some (h\<lparr>host_callback := Some callback, last_committed_url := new_url\<rparr>)"
    by (simp_all add: s' commit_url_def reg)
  show ?thesis
    using deliver_eq [OF t(1) t(3), of callback lb parse16 sg] by (simp add: t(2))
qed

text \<open>In every run in which the renderer posts only through the function it installed, the
  browser never runs a callback that was not registered: receiving any pending message does
  not fail.\<close>

lemma callbacks_are_registered:
  assumes "osv_reachable lb parse16 sg s"
  shows "\<exists>s'. deliver lb parse16 sg s = Inr s'"
proof (cases "to_browser s")
  case Nil
  then show ?thesis by (simp add: deliver_def)
next
  case (Cons m rest)
  with osv_reachable_ok [OF assms] have "has_callback s (reply_routing_id m)"
    by (simp add: osv_ok_def)
  then show ?thesis
    using Cons by (auto simp: deliver_def OnMessageFromMainFrameReceived_def has_callback_def Let_def
        split: option.splits)
qed

end
