(* ===== verification/Dom_Storage.thy ===== *)
theory Dom_Storage
  imports Std_Map
begin

text \<open>
  The map behind one storage area of a page (\<open>common/dom_storage/dom_storage_map.cc\<close>): the items
  in the order of their keys, the bytes they use against a quota, and an iterator that remembers
  the last key that was asked for by number. \<open>size_t\<close> is a word of 64 bits and \<open>unsigned\<close> one of
  32. The iterator is a position in the map; a position before the first or after the last key
  that is read is a read outside of the map.
\<close>

subsection \<open>State\<close>

type_synonym DOMStorageValuesMap = "(string16 \<times> NullableString16) list"

record DOMStorageMap =
  stored_values :: DOMStorageValuesMap
  key_iterator :: int
  last_key_index :: "32 word"
  bytes_used :: "64 word"
  quota :: "64 word"

definition size_of_item :: "string16 \<Rightarrow> string16 \<Rightarrow> 64 word" where
  "size_of_item key val = (of_nat (length key) + of_nat (length val)) * 2"

subsection \<open>Operations\<close>

definition ResetKeyIterator :: "DOMStorageMap \<Rightarrow> DOMStorageMap" where
  "ResetKeyIterator m = m\<lparr>key_iterator := 0, last_key_index := 0\<rparr>"

definition DOMStorageMap_new :: "64 word \<Rightarrow> DOMStorageMap" where
  "DOMStorageMap_new q = ResetKeyIterator
     \<lparr>stored_values = [], key_iterator = 0, last_key_index = 0, bytes_used = 0, quota = q\<rparr>"

definition Length :: "DOMStorageMap \<Rightarrow> 32 word" where
  "Length m = of_nat (length (stored_values m))"

lemma uint_step_up: "a < b \<Longrightarrow> uint (a + 1) = uint a + 1" for a b :: "'w::len word"
proof -
  assume "a < b"
  then have "uint a + 1 < 2 ^ LENGTH('w)" using uint_lt2p [of b] unfolding word_less_def by linarith
  then show ?thesis by (simp add: uint_word_ariths)
qed

lemma uint_step_down: "a < b \<Longrightarrow> uint (b - 1) = uint b - 1" for a b :: "'w::len word"
proof -
  assume "a < b"
  then have "0 \<le> uint b - 1" using uint_ge_0 [of a] unfolding word_less_def by linarith
  moreover have "uint b - 1 < 2 ^ LENGTH('w)" using uint_lt2p [of b] by linarith
  ultimately show ?thesis by (simp add: uint_word_ariths)
qed

lemma word_above: "a \<noteq> b \<Longrightarrow> \<not> b < a \<Longrightarrow> a < b" for a b :: "'w::len word"
  by simp

text \<open>The loop of \<open>Key\<close>.\<close>

function move_iterator :: "32 word \<Rightarrow> int \<Rightarrow> 32 word \<Rightarrow> int \<times> 32 word" where
  "move_iterator index it last_index =
     (if last_index = index then (it, last_index)
      else if last_index > index then move_iterator index (it - 1) (last_index - 1)
      else move_iterator index (it + 1) (last_index + 1))"
  by auto

termination
proof (relation "measure (\<lambda>(index, it, last_index). nat \<bar>uint last_index - uint index\<bar>)", goal_cases)
  case (2 index it last_index)
  then show ?case using uint_step_down [OF 2(2)] by (simp add: word_less_def)
next
  case (3 index it last_index)
  then have "last_index < index" by simp
  then show ?case using uint_step_up [of last_index index] by (simp add: word_less_def)
qed simp

declare move_iterator.simps [simp del]

datatype storage_failure = OutsideMap

definition Key :: "32 word \<Rightarrow> DOMStorageMap \<Rightarrow> storage_failure + string16 option \<times> DOMStorageMap" where
  "Key index m =
     (if length (stored_values m) \<le> unat index then Inr (None, m)
      else let (it, last_index) = move_iterator index (key_iterator m) (last_key_index m)
        in if 0 \<le> it \<and> it < int (length (stored_values m))
           then Inr (Some (fst (stored_values m ! nat it)),
                     m\<lparr>key_iterator := it, last_key_index := last_index\<rparr>)
           else Inl OutsideMap)"

definition GetItem :: "string16 \<Rightarrow> DOMStorageMap \<Rightarrow> NullableString16" where
  "GetItem key m = (case map_of (stored_values m) key of None \<Rightarrow> None | Some found \<Rightarrow> found)"

text \<open>The result, the old value and the new state.\<close>

definition SetItem ::
  "string16 \<Rightarrow> string16 \<Rightarrow> DOMStorageMap \<Rightarrow> bool \<times> NullableString16 \<times> DOMStorageMap" where
  "SetItem key val m =
     (let old_value = (case map_of (stored_values m) key of None \<Rightarrow> None | Some found \<Rightarrow> found);
          old_item_size = (case old_value of None \<Rightarrow> 0 | Some old \<Rightarrow> size_of_item key old);
          new_item_size = size_of_item key val;
          new_bytes_used = bytes_used m - old_item_size + new_item_size
      in if old_item_size < new_item_size \<and> quota m < new_bytes_used then (False, old_value, m)
         else (True, old_value,
               ResetKeyIterator (m\<lparr>stored_values := map_put key (Some val) (stored_values m)\<rparr>)
                 \<lparr>bytes_used := new_bytes_used\<rparr>))"

definition RemoveItem :: "string16 \<Rightarrow> DOMStorageMap \<Rightarrow> (string16 \<times> DOMStorageMap) option" where
  "RemoveItem key m =
     (case map_of (stored_values m) key of
        None \<Rightarrow> None
      | Some found \<Rightarrow>
          let old_value = nullable_text found in
          Some (old_value,
            ResetKeyIterator (m\<lparr>stored_values := map_erase key (stored_values m)\<rparr>)
              \<lparr>bytes_used := bytes_used m - size_of_item key old_value\<rparr>))"

definition CountBytes :: "DOMStorageValuesMap \<Rightarrow> 64 word" where
  "CountBytes vals =
     (if vals = [] then 0
      else fold (\<lambda>(k, v) count. count + size_of_item k (nullable_text v)) vals 0)"

text \<open>The values of the map and of the argument change places.\<close>

definition SwapValues :: "DOMStorageValuesMap \<Rightarrow> DOMStorageMap \<Rightarrow> DOMStorageValuesMap \<times> DOMStorageMap" where
  "SwapValues vals m =
     (stored_values m,
      ResetKeyIterator (m\<lparr>stored_values := vals, bytes_used := CountBytes vals\<rparr>))"

definition DeepCopy :: "DOMStorageMap \<Rightarrow> DOMStorageMap" where
  "DeepCopy m = ResetKeyIterator
     ((DOMStorageMap_new (quota m))\<lparr>stored_values := stored_values m, bytes_used := bytes_used m\<rparr>)"

definition ExtractValues :: "DOMStorageMap \<Rightarrow> DOMStorageValuesMap" where
  "ExtractValues m = stored_values m"

definition set_quota :: "64 word \<Rightarrow> DOMStorageMap \<Rightarrow> DOMStorageMap" where
  "set_quota q m = m\<lparr>quota := q\<rparr>"

end
