(* ===== verification/Dom_Storage_Properties.thy ===== *)
theory Dom_Storage_Properties
  imports Dom_Storage
begin

text \<open>
  Storage areas: the states that the operations lead to, the invariant of the running total and
  of the remembered iterator, and the properties.
\<close>

subsection \<open>Sizes\<close>

definition item_weight :: "string16 \<Rightarrow> NullableString16 \<Rightarrow> nat" where
  "item_weight key val = 2 * (length key + length (nullable_text val))"

lemma size_of_item_weight: "size_of_item key (nullable_text val) = of_nat (item_weight key val)"
  by (simp add: size_of_item_def item_weight_def)

lemma size_of_item_Some: "size_of_item key val = of_nat (item_weight key (Some val))"
  using size_of_item_weight [of key "Some val"] by (simp add: nullable_text_def)

lemma CountBytes_total: "CountBytes vals = of_nat (map_weight item_weight vals)"
proof -
  have "fold (\<lambda>(k, v) count. count + size_of_item k (nullable_text v)) vals c
      = c + of_nat (map_weight item_weight vals)" for c
    by (induction vals arbitrary: c) (auto simp: size_of_item_weight)
  from this [of 0] show ?thesis by (auto simp: CountBytes_def)
qed

subsection \<open>The iterator\<close>

lemma move_iterator_eq:
  "move_iterator index it last_index = (it + uint index - uint last_index, index)"
proof (induction index it last_index rule: move_iterator.induct)
  case (1 index it last_index)
  show ?case
  proof (cases last_index index rule: linorder_cases)
    case less
    then have c: "last_index \<noteq> index" "\<not> index < last_index" by auto
    show ?thesis
      using 1(2) [OF c] less by (subst move_iterator.simps) (simp add: c uint_step_up)
  next
    case equal
    then show ?thesis by (subst move_iterator.simps) simp
  next
    case greater
    then have c: "last_index \<noteq> index" by auto
    show ?thesis
      using 1(1) [OF c greater] greater by (subst move_iterator.simps) (simp add: c uint_step_down)
  qed
qed

subsection \<open>Reachable states\<close>

inductive storage_reachable :: "DOMStorageMap \<Rightarrow> bool" where
  new: "storage_reachable (DOMStorageMap_new q)"
| key: "storage_reachable m \<Longrightarrow> Key i m = Inr (k, m') \<Longrightarrow> storage_reachable m'"
| set_item: "storage_reachable m \<Longrightarrow> SetItem key val m = (b, old, m') \<Longrightarrow> storage_reachable m'"
| remove_item: "storage_reachable m \<Longrightarrow> RemoveItem key m = Some (old, m') \<Longrightarrow> storage_reachable m'"
| swap: "storage_reachable m \<Longrightarrow> map_ok vals \<Longrightarrow> None \<notin> snd ` set vals \<Longrightarrow>
    SwapValues vals m = (old_vals, m') \<Longrightarrow> storage_reachable m'"
| copy: "storage_reachable m \<Longrightarrow> storage_reachable (DeepCopy m)"
| quota: "storage_reachable m \<Longrightarrow> storage_reachable (set_quota q m)"

definition storage_ok :: "DOMStorageMap \<Rightarrow> bool" where
  "storage_ok m \<longleftrightarrow> map_ok (stored_values m) \<and> None \<notin> ran (map_of (stored_values m)) \<and>
     bytes_used m = of_nat (map_weight item_weight (stored_values m)) \<and>
     key_iterator m = uint (last_key_index m)"

lemma storage_ok_reset:
  "map_ok vals \<Longrightarrow> None \<notin> ran (map_of vals) \<Longrightarrow> b = of_nat (map_weight item_weight vals) \<Longrightarrow>
   storage_ok (ResetKeyIterator (m\<lparr>stored_values := vals\<rparr>)\<lparr>bytes_used := b\<rparr>)"
  by (simp add: storage_ok_def ResetKeyIterator_def)

lemma Key_eq:
  assumes "storage_ok m"
  shows "Key i m = Inr (if unat i < length (stored_values m)
    then (Some (fst (stored_values m ! unat i)), m\<lparr>key_iterator := uint i, last_key_index := i\<rparr>)
    else (None, m))"
proof -
  have it: "key_iterator m = uint (last_key_index m)" using assms by (simp add: storage_ok_def)
  have u: "int (unat i) = uint i" by simp
  then have "uint i < int n \<longleftrightarrow> unat i < n" for n by linarith
  moreover have "nat (uint i) = unat i" using u by linarith
  ultimately show ?thesis
    unfolding Key_def move_iterator_eq it by (simp add: not_less [symmetric])
qed

lemma SetItem_eq:
  assumes "storage_ok m"
  shows "SetItem key val m =
    (let old = GetItem key m;
         old_size = weight_of item_weight key (map_of (stored_values m) key);
         new_size = item_weight key (Some val);
         vals = map_put key (Some val) (stored_values m);
         used = of_nat (map_weight item_weight vals)
     in if (of_nat old_size :: 64 word) < of_nat new_size \<and> quota m < used then (False, old, m)
        else (True, old, ResetKeyIterator (m\<lparr>stored_values := vals\<rparr>)\<lparr>bytes_used := used\<rparr>))"
proof -
  have old: "(case GetItem key m of None \<Rightarrow> 0 | Some t \<Rightarrow> size_of_item key t)
      = (of_nat (weight_of item_weight key (map_of (stored_values m) key)) :: 64 word)"
  proof (cases "map_of (stored_values m) key")
    case (Some v)
    have "None \<notin> ran (map_of (stored_values m))" using assms by (simp add: storage_ok_def)
    then have "v \<noteq> None" using ranI [of "map_of (stored_values m)" key v] Some by (cases v) simp_all
    with Some show ?thesis by (auto simp: GetItem_def size_of_item_Some)
  qed (simp add: GetItem_def)
  have "bytes_used m - of_nat (weight_of item_weight key (map_of (stored_values m) key))
      + of_nat (item_weight key (Some val))
      = of_nat (map_weight item_weight (map_put key (Some val) (stored_values m)))"
    using assms by (intro std_map.running_put) (auto simp: storage_ok_def)
  then show ?thesis
    unfolding SetItem_def GetItem_def [symmetric] old Let_def size_of_item_Some by simp
qed

lemma RemoveItem_eq:
  assumes "storage_ok m" "RemoveItem key m = Some (old, m')"
  shows "m' = ResetKeyIterator (m\<lparr>stored_values := map_erase key (stored_values m)\<rparr>)
    \<lparr>bytes_used := of_nat (map_weight item_weight (map_erase key (stored_values m)))\<rparr>"
proof -
  obtain v where v: "map_of (stored_values m) key = Some v"
    using assms(2) by (auto simp: RemoveItem_def split: option.splits)
  have "bytes_used m - of_nat (weight_of item_weight key (map_of (stored_values m) key))
      = of_nat (map_weight item_weight (map_erase key (stored_values m)))"
    using assms(1) by (intro std_map.running_erase) (auto simp: storage_ok_def)
  with v assms(2) show ?thesis
    by (simp add: RemoveItem_def Let_def size_of_item_weight)
qed

lemma storage_reachable_ok: "storage_reachable m \<Longrightarrow> storage_ok m"
proof (induction rule: storage_reachable.induct)
  case (new q)
  show ?case by (simp add: storage_ok_def DOMStorageMap_new_def ResetKeyIterator_def map_ok_def)
next
  case (key m i k m')
  then show ?case by (auto simp: Key_eq storage_ok_def split: if_splits)
next
  case (set_item m key val b old m')
  have "None \<notin> ran (map_of (map_put key (Some val) (stored_values m)))"
    using set_item.IH by (auto simp: storage_ok_def std_map.lookup_put ran_def)
  then have "storage_ok (ResetKeyIterator (m\<lparr>stored_values := map_put key (Some val) (stored_values m)\<rparr>)
      \<lparr>bytes_used := of_nat (map_weight item_weight (map_put key (Some val) (stored_values m)))\<rparr>)"
    using set_item.IH by (intro storage_ok_reset) (auto simp: storage_ok_def std_map.ok_put)
  with set_item.IH set_item.hyps(2) show ?case
    by (auto simp only: SetItem_eq Let_def prod.inject split: if_splits)
next
  case (remove_item m key old m')
  have "None \<notin> ran (map_of (map_erase key (stored_values m)))"
    using remove_item.IH by (auto simp: storage_ok_def std_map.lookup_erase ran_def)
  with remove_item.IH show ?case
    unfolding RemoveItem_eq [OF remove_item.IH remove_item.hyps(2)]
    by (intro storage_ok_reset) (auto simp: storage_ok_def std_map.ok_erase)
next
  case (swap m vals old_vals m')
  then have "None \<notin> ran (map_of vals)" by (force simp: ran_def dest: map_of_SomeD)
  with swap show ?case
    by (auto simp: SwapValues_def storage_ok_def ResetKeyIterator_def CountBytes_total)
next
  case (copy m)
  then show ?case
    by (simp add: DeepCopy_def storage_ok_def ResetKeyIterator_def DOMStorageMap_new_def)
next
  case (quota m q)
  then show ?case by (simp add: set_quota_def storage_ok_def)
qed

subsection \<open>The properties\<close>

text \<open>C38. In every state that operations lead to, the running count of bytes is the count of the
  items, the keys are stored in strictly increasing order, and asking for a key by number gives
  the key of that rank, or none past the last one, without a read outside of the map and
  without changing the items: the remembered iterator never shows.\<close>

theorem storage_accounting:
  assumes "storage_reachable m"
  shows "bytes_used m = CountBytes (ExtractValues m) \<and>
    sorted_wrt (<) (map fst (stored_values m)) \<and>
    (\<exists>m'. Key i m = Inr (if unat i < length (stored_values m) then Some (fst (stored_values m ! unat i)) else None, m')
      \<and> stored_values m' = stored_values m \<and> bytes_used m' = bytes_used m)"
proof -
  have ok: "storage_ok m" using assms by (rule storage_reachable_ok)
  then have "bytes_used m = CountBytes (ExtractValues m)" "sorted_wrt (<) (map fst (stored_values m))"
    by (simp_all add: storage_ok_def CountBytes_total ExtractValues_def map_ok_def)
  then show ?thesis by (simp add: Key_eq [OF ok])
qed

theorem storage_accounting_witness:
  "\<exists>m'. Key 0 (snd (snd (SetItem [97] [98, 99] (DOMStorageMap_new 100)))) = Inr (Some [97], m')"
proof -
  let ?m = "snd (snd (SetItem [97] [98, 99] (DOMStorageMap_new 100)))"
  obtain b old m where "SetItem [97] [98, 99] (DOMStorageMap_new 100) = (b, old, m)"
    by (cases "SetItem [97] [98, 99] (DOMStorageMap_new 100)")
  then have "storage_reachable ?m"
    using storage_reachable.set_item [OF storage_reachable.new] by simp
  from storage_accounting [OF this, of 0] show ?thesis
    by (auto simp: SetItem_def DOMStorageMap_new_def ResetKeyIterator_def size_of_item_def Let_def)
qed

text \<open>C39. Storing an item succeeds exactly when the item does not grow or the items then fit the
  quota. A refused item changes nothing; a stored one changes that key alone, and the number of
  bytes by the difference, so a store that grows an area never leaves it over its quota.\<close>

theorem quota_is_enforced:
  assumes "storage_reachable m" "SetItem key val m = (stored, old, m')"
    and "map_weight item_weight (stored_values m) + item_weight key (Some val) < 2 ^ 64"
    and "old_size = (case GetItem key m of None \<Rightarrow> 0 | Some t \<Rightarrow> item_weight key (Some t))"
    and "new_size = item_weight key (Some val)"
  shows "old = GetItem key m \<and>
    (stored \<longleftrightarrow> new_size \<le> old_size \<or> unat (bytes_used m) - old_size + new_size \<le> unat (quota m)) \<and>
    (\<not> stored \<longrightarrow> m' = m) \<and>
    (stored \<longrightarrow> (\<forall>k. GetItem k m' = (if k = key then Some val else GetItem k m)) \<and>
      unat (bytes_used m') = unat (bytes_used m) - old_size + new_size \<and>
      (old_size < new_size \<longrightarrow> bytes_used m' \<le> quota m'))"
proof -
  let ?vals = "map_put key (Some val) (stored_values m)"
  let ?w = "map_weight item_weight" and ?old = "weight_of item_weight key (map_of (stored_values m) key)"
  have ok: "storage_ok m" using assms(1) by (rule storage_reachable_ok)
  then have "map_of (stored_values m) key \<noteq> Some None" by (auto simp: storage_ok_def ran_def)
  then have old: "old_size = ?old"
    using assms(4) by (auto simp: GetItem_def split: option.splits)
  have vals_ok: "map_ok (stored_values m)" and used: "bytes_used m = of_nat (?w (stored_values m))"
    using ok by (simp_all add: storage_ok_def)
  have w: "?w ?vals + ?old = ?w (stored_values m) + new_size"
    using std_map.sum_put [OF vals_ok] assms(5) by simp
  have le: "?old \<le> ?w (stored_values m)" using std_map.weight_le_sum [OF vals_ok] .
  have unat_small: "unat (of_nat n :: 64 word) = n" if "n < 2 ^ 64" for n
    using that by (simp add: unat_of_nat)
  have small: "unat (of_nat (?w ?vals) :: 64 word) = ?w ?vals" "unat (of_nat ?old :: 64 word) = ?old"
    "unat (of_nat new_size :: 64 word) = new_size" "unat (bytes_used m) = ?w (stored_values m)"
    unfolding used using assms(3,5) w le by (auto intro!: unat_small)
  have now: "?w ?vals = unat (bytes_used m) - old_size + new_size" using w le small(4) old by simp
  have guard: "(of_nat ?old :: 64 word) < of_nat new_size \<longleftrightarrow> old_size < new_size"
    "quota m < of_nat (?w ?vals) \<longleftrightarrow> unat (quota m) < ?w ?vals"
    by (simp_all add: word_less_nat_alt small old)
  define m1 where "m1 = ResetKeyIterator (m\<lparr>stored_values := ?vals\<rparr>)\<lparr>bytes_used := of_nat (?w ?vals)\<rparr>"
  have m1: "GetItem k m1 = (if k = key then Some val else GetItem k m)"
    "unat (bytes_used m1) = unat (bytes_used m) - old_size + new_size" "quota m1 = quota m" for k
    using now small(1)
    by (simp_all add: m1_def GetItem_def ResetKeyIterator_def std_map.lookup_put [OF vals_ok])
  have "(stored, old, m') = (if old_size < new_size \<and> unat (quota m) < unat (bytes_used m1)
      then (False, GetItem key m, m) else (True, GetItem key m, m1))"
    using SetItem_eq [OF ok, of key val] guard assms(2,5) now m1(2) by (simp add: Let_def m1_def)
  then show ?thesis using m1 by (auto simp: word_le_nat_alt split: if_splits)
qed

theorem quota_is_enforced_witness:
  "fst (SetItem [97] [98, 99] (DOMStorageMap_new 5)) = False"
proof -
  obtain stored old m' where r: "SetItem [97] [98, 99] (DOMStorageMap_new 5) = (stored, old, m')"
    by (cases "SetItem [97] [98, 99] (DOMStorageMap_new 5)")
  have "map_weight item_weight (stored_values (DOMStorageMap_new 5)) + item_weight [97] (Some [98, 99]) < 2 ^ 64"
    by (simp add: DOMStorageMap_new_def ResetKeyIterator_def item_weight_def nullable_text_def)
  from quota_is_enforced [OF storage_reachable.new r this refl refl] r show ?thesis
    by (simp add: DOMStorageMap_new_def ResetKeyIterator_def item_weight_def nullable_text_def GetItem_def)
qed

end
