(* ===== verification/Resource_Buffer.thy ===== *)
theory Resource_Buffer
  imports Prelude
begin

text \<open>
  The circular buffer through which the browser hands response bodies to a renderer
  (\<open>browser/loader/resource_buffer.cc\<close>): contiguous segments are allocated at the end and freed
  at the start. A failed \<open>CHECK\<close>, a division by zero (here as a failed check) and a null pointer end the
  process: the left side of the sum. Offsets are ints; every value the operations compute lies between -1 and the size of
  the buffer, or is the sum of a size and the minimal size, so no \<open>int\<close> overflows below
  \<open>INT_MAX\<close>. The shared memory is opaque, and its pointer is null until it is mapped.
\<close>

datatype crash = CheckFailed | NullPointer

definition check :: "bool \<Rightarrow> crash + 'a \<Rightarrow> crash + 'a" where
  "check holds continue = (if holds then continue else Inl CheckFailed)"

lemma check_True [simp]: "check True m = m" by (simp add: check_def)

lemma check_eq_Inr: "check b m = Inr x \<longleftrightarrow> b \<and> m = Inr x" by (simp add: check_def)

record ResourceBuffer =
  is_mapped :: bool
  buf_size :: int
  min_alloc_size :: int
  max_alloc_size :: int
  alloc_start :: int
  alloc_end :: int
  alloc_sizes :: "int list"

definition ResourceBuffer_new :: ResourceBuffer where
  "ResourceBuffer_new =
     \<lparr>is_mapped = False, buf_size = 0, min_alloc_size = 0, max_alloc_size = 0, alloc_start = -1,
      alloc_end = -1, alloc_sizes = []\<rparr>"

text \<open>\<open>mapped\<close> is what \<open>CreateAndMapAnonymous\<close> answers.\<close>

definition Initialize :: "bool \<Rightarrow> int \<Rightarrow> int \<Rightarrow> int \<Rightarrow> ResourceBuffer \<Rightarrow> crash + bool \<times> ResourceBuffer" where
  "Initialize mapped buffer_size min_allocation_size max_allocation_size b =
     check (\<not> is_mapped b)
    (check (min_allocation_size \<noteq> 0)
    (check (buffer_size mod min_allocation_size = 0)
    (check (max_allocation_size mod min_allocation_size = 0)
      (Inr (mapped, b\<lparr>is_mapped := mapped, buf_size := buffer_size,
        min_alloc_size := min_allocation_size, max_alloc_size := max_allocation_size\<rparr>)))))"

definition CanAllocate :: "ResourceBuffer \<Rightarrow> crash + bool" where
  "CanAllocate b =
     check (is_mapped b)
      (Inr (if alloc_start b = -1 then True
            else let diff = alloc_end b - alloc_start b in
              if diff > 0 then buf_size b - diff \<ge> min_alloc_size b
              else - diff \<ge> min_alloc_size b))"

definition ShrinkLastAllocation :: "int \<Rightarrow> ResourceBuffer \<Rightarrow> crash + ResourceBuffer" where
  "ShrinkLastAllocation new_size b =
     check (alloc_sizes b \<noteq> [])
      (let aligned = (new_size div min_alloc_size b) * min_alloc_size b;
           aligned_size = (if aligned < new_size then aligned + min_alloc_size b else aligned);
           last_size = last (alloc_sizes b)
       in check (new_size \<le> aligned_size)
         (check (last_size \<ge> aligned_size)
           (Inr (b\<lparr>alloc_end := alloc_end b - (last_size - aligned_size),
                   alloc_sizes := butlast (alloc_sizes b) @ [aligned_size]\<rparr>))))"

text \<open>Where the next segment goes, before it is limited to the maximal size: its offset, its
  size and the new end.\<close>

definition next_segment :: "ResourceBuffer \<Rightarrow> crash + int \<times> int \<times> ResourceBuffer" where
  "next_segment b =
     (if alloc_start b = -1 then
        Inr (0, buf_size b, b\<lparr>alloc_start := 0, alloc_end := buf_size b\<rparr>)
      else if alloc_start b < alloc_end b then
        if buf_size b - alloc_end b \<ge> min_alloc_size b
        then Inr (alloc_end b, buf_size b - alloc_end b, b\<lparr>alloc_end := buf_size b\<rparr>)
        else check (alloc_start b \<ge> min_alloc_size b)
          (Inr (0, alloc_start b, b\<lparr>alloc_end := alloc_start b\<rparr>))
      else check (alloc_end b < alloc_start b)
        (Inr (alloc_end b, alloc_start b - alloc_end b, b\<lparr>alloc_end := alloc_start b\<rparr>)))"

text \<open>The offset of the segment, its size and the buffer.\<close>

definition Allocate :: "ResourceBuffer \<Rightarrow> crash + int \<times> int \<times> ResourceBuffer" where
  "Allocate b =
     bindE (CanAllocate b) (\<lambda>can. check can
    (bindE (next_segment b) (\<lambda>(alloc_offset, alloc_size, b1).
       let b2 = b1\<lparr>alloc_sizes := alloc_sizes b1 @ [alloc_size]\<rparr> in
       if alloc_size > max_alloc_size b2
       then bindE (ShrinkLastAllocation (max_alloc_size b2) b2)
              (\<lambda>b3. Inr (alloc_offset, max_alloc_size b2, b3))
       else Inr (alloc_offset, alloc_size, b2))))"

definition GetLastAllocationOffset :: "ResourceBuffer \<Rightarrow> crash + int" where
  "GetLastAllocationOffset b =
     check (alloc_sizes b \<noteq> [])
    (check (alloc_end b \<ge> last (alloc_sizes b))
      (Inr (alloc_end b - last (alloc_sizes b))))"

definition RecycleLeastRecentlyAllocated :: "ResourceBuffer \<Rightarrow> crash + ResourceBuffer" where
  "RecycleLeastRecentlyAllocated b =
     (case alloc_sizes b of
        [] \<Rightarrow> Inl CheckFailed
      | allocation_size # sizes \<Rightarrow>
          let start = alloc_start b + allocation_size;
              b1 = b\<lparr>alloc_sizes := sizes, alloc_start := start\<rparr>
          in check (start \<le> buf_size b)
            (if start = alloc_end b
             then check (sizes = []) (Inr (b1\<lparr>alloc_start := -1, alloc_end := -1\<rparr>))
             else if start = buf_size b then check (sizes \<noteq> []) (Inr (b1\<lparr>alloc_start := 0\<rparr>))
             else Inr b1))"

subsection \<open>The segments in use\<close>

text \<open>
  The abstraction: the live segments as pairs of offset and size, oldest first. They follow one
  another around the buffer and never cross its end.
\<close>

type_synonym segment = "int \<times> int"

primrec walk :: "int \<Rightarrow> int \<Rightarrow> int list \<Rightarrow> segment list" where
  "walk n pos [] = []"
| "walk n pos (s # ss) = (let p = (if pos = n then 0 else pos) in (p, s) # walk n (p + s) ss)"

definition segments :: "ResourceBuffer \<Rightarrow> segment list" where
  "segments b = walk (buf_size b) (alloc_start b) (alloc_sizes b)"

definition bytes_of :: "segment \<Rightarrow> int set" where
  "bytes_of seg = {fst seg ..< fst seg + snd seg}"

text \<open>Segments that follow one another from \<open>a\<close> to \<open>e\<close>, each a positive multiple of \<open>m\<close>.\<close>

primrec chain :: "int \<Rightarrow> int \<Rightarrow> segment list \<Rightarrow> int \<Rightarrow> bool" where
  "chain m a [] e \<longleftrightarrow> a = e"
| "chain m a (seg # r) e \<longleftrightarrow> fst seg = a \<and> 0 < snd seg \<and> m dvd snd seg \<and> chain m (a + snd seg) r e"

definition laid_out :: "ResourceBuffer \<Rightarrow> segment list \<Rightarrow> segment list \<Rightarrow> bool" where
  "laid_out b high low \<longleftrightarrow>
     (if high = [] then low = [] \<and> alloc_start b = -1 \<and> alloc_end b = -1
      else 0 \<le> alloc_start b \<and> min_alloc_size b dvd alloc_start b \<and>
        (if low = [] then chain (min_alloc_size b) (alloc_start b) high (alloc_end b)
           \<and> alloc_end b \<le> buf_size b
         else chain (min_alloc_size b) (alloc_start b) high (buf_size b)
           \<and> chain (min_alloc_size b) 0 low (alloc_end b) \<and> alloc_end b \<le> alloc_start b))"

definition buffer_ok :: "ResourceBuffer \<Rightarrow> bool" where
  "buffer_ok b \<longleftrightarrow> is_mapped b \<and> 0 < min_alloc_size b \<and> 0 < buf_size b \<and> 0 < max_alloc_size b \<and>
     min_alloc_size b dvd buf_size b \<and> min_alloc_size b dvd max_alloc_size b \<and>
     (\<exists>high low. laid_out b high low \<and> map snd (high @ low) = alloc_sizes b)"

subsection \<open>Chains\<close>

lemma chain_append: "chain m a (xs @ ys) e \<longleftrightarrow> (\<exists>c. chain m a xs c \<and> chain m c ys e)"
  by (induction xs arbitrary: a) auto

lemma chain_snoc [simp]:
  "chain m a (xs @ [seg]) e \<longleftrightarrow> chain m a xs (fst seg) \<and> 0 < snd seg \<and> m dvd snd seg \<and> e = fst seg + snd seg"
  by (auto simp: chain_append)

lemma chain_sum: "chain m a xs e \<Longrightarrow> e = a + sum_list (map snd xs)"
proof (induction xs arbitrary: a)
  case (Cons seg xs a)
  from Cons.prems have "chain m (a + snd seg) xs e" by simp
  from Cons.IH [OF this] show ?case by simp
qed simp

lemma chain_le: "chain m a xs e \<Longrightarrow> a \<le> e \<and> (xs \<noteq> [] \<longrightarrow> a < e)"
proof (induction xs arbitrary: a)
  case (Cons seg xs a)
  from Cons.prems have c: "chain m (a + snd seg) xs e" and "0 < snd seg" by simp_all
  with Cons.IH [OF c] show ?case by simp
qed simp

lemma chain_dvd: "chain m a xs e \<Longrightarrow> m dvd a \<longleftrightarrow> m dvd e"
proof (induction xs arbitrary: a)
  case (Cons seg xs a)
  then have "m dvd a + snd seg \<longleftrightarrow> m dvd e" "m dvd snd seg" by auto
  then show ?case by (simp add: dvd_add_left_iff)
qed simp

lemma chain_within:
  "chain m a xs e \<Longrightarrow> seg \<in> set xs \<Longrightarrow> a \<le> fst seg \<and> fst seg + snd seg \<le> e \<and> 0 < snd seg \<and> m dvd snd seg"
proof (induction xs arbitrary: a)
  case (Cons s xs a)
  then show ?case using chain_le [of m "a + snd s" xs e] by force
qed simp

lemma chain_bytes: "chain m a xs e \<Longrightarrow> seg \<in> set xs \<Longrightarrow> bytes_of seg \<subseteq> {a..<e}"
  by (frule (1) chain_within) (auto simp: bytes_of_def)

definition apart :: "segment list \<Rightarrow> bool" where
  "apart segs \<longleftrightarrow> sorted_wrt (\<lambda>s t. bytes_of s \<inter> bytes_of t = {}) segs"

lemma chain_apart: "chain m a xs e \<Longrightarrow> apart xs"
proof (induction xs arbitrary: a)
  case (Cons seg xs a)
  then have "chain m (a + snd seg) xs e" "fst seg = a" by auto
  then have "bytes_of t \<subseteq> {a + snd seg..<e}" if "t \<in> set xs" for t
    using chain_bytes [of m "a + snd seg" xs e t] that by blast
  moreover have "bytes_of seg = {a..<a + snd seg}" using \<open>fst seg = a\<close> by (simp add: bytes_of_def)
  ultimately have "bytes_of seg \<inter> bytes_of t = {}" if "t \<in> set xs" for t using that by fastforce
  then show ?case using Cons by (auto simp: apart_def)
qed (simp add: apart_def)

lemma chain_walk:
  "chain m a xs e \<Longrightarrow> a < n \<or> xs = [] \<Longrightarrow> e \<le> n \<Longrightarrow> walk n a (map snd xs @ ss) = xs @ walk n e ss"
proof (induction xs arbitrary: a)
  case (Cons seg xs a)
  then have c: "chain m (a + snd seg) xs e" "fst seg = a" by auto
  have "a + snd seg < n \<or> xs = []" using chain_le [OF c(1)] Cons.prems(3) by auto
  then show ?case using Cons.IH [OF c(1)] Cons.prems c(2) by (cases seg) (auto simp: Let_def)
qed simp

lemma walk_at_end: "ss \<noteq> [] \<Longrightarrow> walk n n ss = walk n 0 ss" if "0 < n"
  using that by (cases ss) auto

subsection \<open>The layout\<close>

lemma segments_laid_out:
  assumes "laid_out b high low" "map snd (high @ low) = alloc_sizes b" "0 < buf_size b"
  shows "segments b = high @ low"
proof (cases "low = []")
  case True
  then show ?thesis
    using assms chain_walk [of "min_alloc_size b" "alloc_start b" high "alloc_end b" "buf_size b" "[]"]
      chain_le [of "min_alloc_size b" "alloc_start b" high "alloc_end b"]
    by (auto simp: laid_out_def segments_def split: if_splits)
next
  case False
  then have c: "chain (min_alloc_size b) (alloc_start b) high (buf_size b)"
    "chain (min_alloc_size b) 0 low (alloc_end b)" "alloc_end b \<le> alloc_start b" "high \<noteq> []"
    using assms(1) by (auto simp: laid_out_def split: if_splits)
  have lt: "alloc_start b < buf_size b" using chain_le [OF c(1)] c(4) by simp
  have "walk (buf_size b) (alloc_start b) (map snd high @ map snd low) = high @ walk (buf_size b) (buf_size b) (map snd low)"
    using chain_walk [OF c(1)] lt by simp
  also have "walk (buf_size b) (buf_size b) (map snd low) = walk (buf_size b) 0 (map snd low @ [])"
    using walk_at_end [OF assms(3)] False by simp
  also have "\<dots> = low" using chain_walk [OF c(2), of "buf_size b" "[]"] assms(3) c(3) lt by simp
  finally show ?thesis using assms(2) by (simp add: segments_def)
qed

lemma buffer_okE:
  assumes "buffer_ok b"
  obtains (empty) "segments b = []" "alloc_sizes b = []" "alloc_start b = -1" "alloc_end b = -1"
  | (straight) high where "segments b = high" "high \<noteq> []" "map snd high = alloc_sizes b"
      "0 \<le> alloc_start b" "min_alloc_size b dvd alloc_start b"
      "chain (min_alloc_size b) (alloc_start b) high (alloc_end b)" "alloc_end b \<le> buf_size b"
      "alloc_start b < alloc_end b"
  | (wrapped) high low where "segments b = high @ low" "high \<noteq> []" "low \<noteq> []"
      "map snd high @ map snd low = alloc_sizes b" "0 \<le> alloc_start b" "min_alloc_size b dvd alloc_start b"
      "chain (min_alloc_size b) (alloc_start b) high (buf_size b)"
      "chain (min_alloc_size b) 0 low (alloc_end b)" "alloc_end b \<le> alloc_start b"
      "alloc_start b < buf_size b" "0 < alloc_end b"
proof -
  obtain high low where l: "laid_out b high low" and sizes: "map snd (high @ low) = alloc_sizes b"
    using assms by (auto simp: buffer_ok_def)
  have segs: "segments b = high @ low"
    using segments_laid_out [OF l sizes] assms by (simp add: buffer_ok_def)
  consider "high = []" | "high \<noteq> []" "low = []" | "high \<noteq> []" "low \<noteq> []" by blast
  then show ?thesis
  proof cases
    case 1
    with l sizes segs show ?thesis by (intro empty) (auto simp: laid_out_def)
  next
    case 2
    with l have c: "chain (min_alloc_size b) (alloc_start b) high (alloc_end b)" by (simp add: laid_out_def)
    from 2 l sizes segs chain_le [OF c] show ?thesis by (intro straight [of high]) (auto simp: laid_out_def)
  next
    case 3
    with l have c: "chain (min_alloc_size b) (alloc_start b) high (buf_size b)"
      "chain (min_alloc_size b) 0 low (alloc_end b)" by (simp_all add: laid_out_def)
    from 3 l sizes segs chain_le [OF c(1)] chain_le [OF c(2)] show ?thesis
      by (intro wrapped [of high low]) (auto simp: laid_out_def)
  qed
qed

text \<open>The segments of a good buffer are inside of it, at multiples of the minimal size, and apart.\<close>

lemma buffer_ok_segments:
  assumes "buffer_ok b"
  shows "map snd (segments b) = alloc_sizes b \<and> apart (segments b) \<and>
    (\<forall>seg \<in> set (segments b). 0 < snd seg \<and> bytes_of seg \<subseteq> {0..<buf_size b})"
  using assms
proof (cases rule: buffer_okE)
  case empty
  then show ?thesis by (simp add: apart_def)
next
  case (straight high)
  have "apart high" using straight(6) by (rule chain_apart)
  moreover have "0 < snd seg \<and> bytes_of seg \<subseteq> {0..<buf_size b}" if "seg \<in> set high" for seg
    using chain_bytes [OF straight(6) that] chain_within [OF straight(6) that] straight(4,7) by fastforce
  ultimately show ?thesis using straight(1,3) by simp
next
  case (wrapped high low)
  have "bytes_of s \<inter> bytes_of t = {}" if "s \<in> set high" "t \<in> set low" for s t
    using chain_bytes [OF wrapped(7) that(1)] chain_bytes [OF wrapped(8) that(2)] wrapped(9) by fastforce
  moreover have "apart high" "apart low" using wrapped(7,8) chain_apart by blast+
  ultimately have a: "apart (high @ low)" by (auto simp: apart_def sorted_wrt_append)
  have h: "0 < snd seg \<and> bytes_of seg \<subseteq> {0..<buf_size b}" if "seg \<in> set high" for seg
    using chain_bytes [OF wrapped(7) that] chain_within [OF wrapped(7) that] wrapped(5) by fastforce
  have l: "0 < snd seg \<and> bytes_of seg \<subseteq> {0..<buf_size b}" if "seg \<in> set low" for seg
    using chain_bytes [OF wrapped(8) that] chain_within [OF wrapped(8) that] wrapped(9,10) by fastforce
  show ?thesis unfolding wrapped(1) using a h l wrapped(4) by (simp add: ball_Un)
qed

subsection \<open>The operations keep the layout\<close>

lemma dvd_room: "0 < m \<Longrightarrow> m dvd x \<Longrightarrow> 0 \<le> x \<Longrightarrow> m \<le> x \<longleftrightarrow> 0 < x" for m x :: int
  by (auto dest: zdvd_imp_le)

lemma CanAllocate_eq:
  assumes "buffer_ok b"
  shows "CanAllocate b = Inr (sum_list (alloc_sizes b) < buf_size b)"
proof -
  have m: "is_mapped b" "0 < min_alloc_size b" "0 < buf_size b" "min_alloc_size b dvd buf_size b"
    using assms by (auto simp: buffer_ok_def)
  from assms show ?thesis
  proof (cases rule: buffer_okE)
    case empty
    then show ?thesis using m by (simp add: CanAllocate_def)
  next
    case (straight high)
    have sum: "alloc_end b - alloc_start b = sum_list (alloc_sizes b)"
      using chain_sum [OF straight(6)] straight(3) by simp
    have d: "min_alloc_size b dvd alloc_end b" using chain_dvd [OF straight(6)] straight(5) by simp
    have "min_alloc_size b dvd buf_size b - sum_list (alloc_sizes b)"
      unfolding sum [symmetric] using m(4) d straight(5) by simp
    moreover have "0 \<le> buf_size b - sum_list (alloc_sizes b)" using sum straight(4,7) by simp
    ultimately show ?thesis
      using dvd_room [OF m(2)] straight(4,8) m(1) sum by (simp add: CanAllocate_def)
  next
    case (wrapped high low)
    have sum: "sum_list (alloc_sizes b) = buf_size b - alloc_start b + alloc_end b"
      using chain_sum [OF wrapped(7)] chain_sum [OF wrapped(8)] wrapped(4) [symmetric] by simp
    have "min_alloc_size b dvd alloc_end b" using chain_dvd [OF wrapped(8)] by simp
    then have "min_alloc_size b dvd alloc_start b - alloc_end b" using wrapped(6) by simp
    then show ?thesis
      using dvd_room [OF m(2)] wrapped(5,9) m(1) sum by (simp add: CanAllocate_def)
  qed
qed

text \<open>What never changes after the initialization.\<close>

definition shape :: "ResourceBuffer \<Rightarrow> bool \<times> int \<times> int \<times> int" where
  "shape b = (is_mapped b, buf_size b, min_alloc_size b, max_alloc_size b)"

lemma shape_eq_iff:
  "shape b = shape c \<longleftrightarrow> is_mapped b = is_mapped c \<and> buf_size b = buf_size c \<and>
     min_alloc_size b = min_alloc_size c \<and> max_alloc_size b = max_alloc_size c"
  by (auto simp: shape_def)

lemma buffer_okI:
  assumes "buffer_ok b" "shape b' = shape b" "laid_out b' high low" "map snd (high @ low) = alloc_sizes b'"
  shows "buffer_ok b' \<and> segments b' = high @ low"
proof -
  have "buffer_ok b'"
    unfolding buffer_ok_def using assms by (auto simp: shape_eq_iff buffer_ok_def)
  moreover have "segments b' = high @ low"
    using assms by (intro segments_laid_out) (auto simp: shape_eq_iff buffer_ok_def)
  ultimately show ?thesis by blast
qed

lemma next_segment_ok:
  assumes "buffer_ok b" "sum_list (alloc_sizes b) < buf_size b"
  obtains off n b1 where "next_segment b = Inr (off, n, b1)" "min_alloc_size b \<le> n"
    "alloc_sizes b1 = alloc_sizes b" "shape b1 = shape b"
    "buffer_ok (b1\<lparr>alloc_sizes := alloc_sizes b @ [n]\<rparr>)"
    "segments (b1\<lparr>alloc_sizes := alloc_sizes b @ [n]\<rparr>) = segments b @ [(off, n)]"
proof -
  have m: "is_mapped b" "0 < min_alloc_size b" "0 < buf_size b" "min_alloc_size b dvd buf_size b"
    using assms by (auto simp: buffer_ok_def)
  have min_le: "min_alloc_size b \<le> buf_size b" using m by (simp add: zdvd_imp_le)
  note found = that
  have make: thesis
    if "next_segment b = Inr (off, n, b1)" "min_alloc_size b \<le> n" "alloc_sizes b1 = alloc_sizes b"
      "shape b1 = shape b" "segments b @ [(off, n)] = high @ low"
      "laid_out (b1\<lparr>alloc_sizes := alloc_sizes b @ [n]\<rparr>) high low" for off n b1 high low
  proof -
    have "map snd (high @ low) = alloc_sizes b @ [n]"
      unfolding that(5) [symmetric] using buffer_ok_segments [OF assms(1)] by simp
    then have "buffer_ok (b1\<lparr>alloc_sizes := alloc_sizes b @ [n]\<rparr>) \<and>
        segments (b1\<lparr>alloc_sizes := alloc_sizes b @ [n]\<rparr>) = high @ low"
      using that(4) by (intro buffer_okI [OF assms(1) _ that(6)]) (simp_all add: shape_def)
    with that(1-5) show thesis by (intro found [of off n b1]) simp_all
  qed
  from assms(1) show thesis
  proof (cases rule: buffer_okE)
    case empty
    then show thesis
      using m min_le by (intro make [of 0 "buf_size b" "b\<lparr>alloc_start := 0, alloc_end := buf_size b\<rparr>" "[(0, buf_size b)]" "[]"])
        (auto simp: next_segment_def shape_def laid_out_def)
  next
    case (straight high)
    have d: "min_alloc_size b dvd alloc_end b" using chain_dvd [OF straight(6)] straight(5) by simp
    show thesis
    proof (cases "min_alloc_size b \<le> buf_size b - alloc_end b")
      case True
      with straight m d show thesis
        by (intro make [of "alloc_end b" "buf_size b - alloc_end b" "b\<lparr>alloc_end := buf_size b\<rparr>" "high @ [(alloc_end b, buf_size b - alloc_end b)]" "[]"])
          (auto simp: next_segment_def shape_def laid_out_def)
    next
      case False
      have "min_alloc_size b dvd buf_size b - alloc_end b" using d m(4) by simp
      then have e: "alloc_end b = buf_size b" using False dvd_room [OF m(2)] straight(7) by force
      have "0 < alloc_start b"
        using chain_sum [OF straight(6)] straight(3) assms(2) e by simp
      then have st: "min_alloc_size b \<le> alloc_start b" using dvd_room [OF m(2) straight(5) straight(4)] by simp
      with straight m e show thesis
        by (intro make [of 0 "alloc_start b" "b\<lparr>alloc_end := alloc_start b\<rparr>" high "[(0, alloc_start b)]"])
          (auto simp: next_segment_def shape_def laid_out_def)
    qed
  next
    case (wrapped high low)
    have d: "min_alloc_size b dvd alloc_end b" using chain_dvd [OF wrapped(8)] by simp
    have sum: "sum_list (alloc_sizes b) = buf_size b - alloc_start b + alloc_end b"
      using chain_sum [OF wrapped(7)] chain_sum [OF wrapped(8)] wrapped(4) [symmetric] by simp
    then have lt: "alloc_end b < alloc_start b" using assms(2) by simp
    have dd: "min_alloc_size b dvd alloc_start b - alloc_end b" using d wrapped(6) by simp
    then have "min_alloc_size b \<le> alloc_start b - alloc_end b" using dvd_room [OF m(2)] lt by simp
    with wrapped m d dd lt show thesis
      by (intro make [of "alloc_end b" "alloc_start b - alloc_end b" "b\<lparr>alloc_end := alloc_start b\<rparr>" high "low @ [(alloc_end b, alloc_start b - alloc_end b)]"])
        (auto simp: next_segment_def shape_def laid_out_def)
  qed
qed

lemma shorten_last:
  assumes "buffer_ok b" "segments b = segs @ [(off, n)]" "0 < n'" "n' \<le> n" "min_alloc_size b dvd n'"
    and "b' = b\<lparr>alloc_end := alloc_end b - (n - n'), alloc_sizes := butlast (alloc_sizes b) @ [n']\<rparr>"
  shows "buffer_ok b' \<and> segments b' = segs @ [(off, n')]"
proof -
  have sizes: "alloc_sizes b = map snd segs @ [n]" using buffer_ok_segments [OF assms(1)] assms(2) by simp
  have b': "shape b' = shape b" "alloc_sizes b' = map snd segs @ [n']"
    by (simp_all add: assms(6) shape_def sizes)
  from assms(1) show ?thesis
  proof (cases rule: buffer_okE)
    case empty
    with assms(2) show ?thesis by simp
  next
    case (straight high)
    with assms(2) have h: "high = segs @ [(off, n)]" by simp
    have "laid_out b' (segs @ [(off, n')]) []"
      using straight(4-7) assms(3-6) by (auto simp: laid_out_def h)
    then show ?thesis
      using buffer_okI [OF assms(1), of b' "segs @ [(off, n')]" "[]"] by (simp add: b')
  next
    case (wrapped high low)
    then obtain low' where low: "low = low' @ [(off, n)]" and segs: "segs = high @ low'"
      using assms(2) by (metis append.assoc append1_eq_conv append_butlast_last_id)
    have "laid_out b' high (low' @ [(off, n')])"
      using wrapped(2,5-9) assms(3-6) by (auto simp: laid_out_def low)
    then show ?thesis
      using buffer_okI [OF assms(1), of b' high "low' @ [(off, n')]"] by (simp add: b' segs)
  qed
qed

text \<open>The size that \<open>ShrinkLastAllocation\<close> rounds up to.\<close>

definition aligned :: "int \<Rightarrow> int \<Rightarrow> int" where
  "aligned m n = (if (n div m) * m < n then (n div m) * m + m else (n div m) * m)"

lemma aligned:
  assumes "0 < m" "0 < n"
  shows "n \<le> aligned m n" "m dvd aligned m n" "aligned m n < n + m"
    "m dvd l \<Longrightarrow> n \<le> l \<Longrightarrow> aligned m n \<le> l"
proof -
  have dm: "n div m * m = n - n mod m" by (simp add: minus_mod_eq_div_mult)
  have r: "0 \<le> n mod m" "n mod m < m" using assms by simp_all
  show "n \<le> aligned m n" "aligned m n < n + m" using r by (simp_all add: aligned_def dm)
  show "m dvd aligned m n" by (simp add: aligned_def)
  show "aligned m n \<le> l" if "m dvd l" "n \<le> l"
  proof (rule ccontr)
    assume "\<not> aligned m n \<le> l"
    moreover have "m dvd aligned m n - l" using that(1) \<open>m dvd aligned m n\<close> by simp
    ultimately have "m \<le> aligned m n - l" by (simp add: zdvd_imp_le)
    with \<open>aligned m n < n + m\<close> that(2) show False by simp
  qed
qed

lemma last_size_dvd:
  assumes "buffer_ok b" "segments b = segs @ [(off, n)]"
  shows "min_alloc_size b dvd n"
  using assms(1)
proof (cases rule: buffer_okE)
  case (straight high)
  with assms(2) chain_within [OF straight(6), of "(off, n)"] show ?thesis by simp
next
  case (wrapped high low)
  then have "(off, n) \<in> set low" using assms(2) by (metis last_appendR last_in_set last_snoc)
  with chain_within [OF wrapped(8)] show ?thesis by force
qed (use assms(2) in simp)

lemma ShrinkLastAllocation_le:
  assumes "buffer_ok b" "segments b = segs @ [(off, n)]" "0 < new_size" "new_size \<le> n"
  shows "aligned (min_alloc_size b) new_size \<le> n"
  using aligned(4) last_size_dvd [OF assms(1,2)] assms by (simp add: buffer_ok_def)

lemma ShrinkLastAllocation_ok:
  assumes "buffer_ok b" "segments b = segs @ [(off, n)]" "0 < new_size" "new_size \<le> n"
  obtains b' where "ShrinkLastAllocation new_size b = Inr b'" "buffer_ok b'" "shape b' = shape b"
    "segments b' = segs @ [(off, aligned (min_alloc_size b) new_size)]"
proof -
  have m: "0 < min_alloc_size b" using assms(1) by (simp add: buffer_ok_def)
  have sizes: "alloc_sizes b = map snd segs @ [n]" using buffer_ok_segments [OF assms(1)] assms(2) by simp
  have dn: "min_alloc_size b dvd n" using last_size_dvd [OF assms(1,2)] .
  let ?a = "aligned (min_alloc_size b) new_size"
  let ?b = "b\<lparr>alloc_end := alloc_end b - (n - ?a), alloc_sizes := butlast (alloc_sizes b) @ [?a]\<rparr>"
  have a: "new_size \<le> ?a" "min_alloc_size b dvd ?a" "?a \<le> n" using aligned [OF m assms(3)] dn assms(4) by blast+
  have "ShrinkLastAllocation new_size b = Inr ?b"
    using a unfolding ShrinkLastAllocation_def aligned_def by (auto simp: Let_def sizes check_def)
  moreover have "buffer_ok ?b \<and> segments ?b = segs @ [(off, ?a)]"
    using a assms(3) by (intro shorten_last [OF assms(1,2)]) auto
  ultimately show thesis by (intro that [of ?b]) (simp_all add: shape_def)
qed

lemma Allocate_ok:
  assumes "buffer_ok b" "sum_list (alloc_sizes b) < buf_size b"
  obtains off n b' where "Allocate b = Inr (off, n, b')" "buffer_ok b'" "shape b' = shape b"
    "segments b' = segments b @ [(off, n)]" "0 < n" "n \<le> max_alloc_size b"
proof -
  have m: "0 < min_alloc_size b" "0 < max_alloc_size b" "min_alloc_size b dvd max_alloc_size b"
    using assms(1) by (simp_all add: buffer_ok_def)
  obtain off n b1 where b1: "next_segment b = Inr (off, n, b1)" "min_alloc_size b \<le> n"
      "alloc_sizes b1 = alloc_sizes b" "shape b1 = shape b"
    and b2: "buffer_ok (b1\<lparr>alloc_sizes := alloc_sizes b @ [n]\<rparr>)"
      "segments (b1\<lparr>alloc_sizes := alloc_sizes b @ [n]\<rparr>) = segments b @ [(off, n)]"
    using next_segment_ok [OF assms] by blast
  let ?b2 = "b1\<lparr>alloc_sizes := alloc_sizes b @ [n]\<rparr>"
  have start: "Allocate b = (if n > max_alloc_size b
      then bindE (ShrinkLastAllocation (max_alloc_size b) ?b2) (\<lambda>b3. Inr (off, max_alloc_size b, b3))
      else Inr (off, n, ?b2))"
    using CanAllocate_eq [OF assms(1)] assms(2) b1(1,3,4)
    by (simp add: Allocate_def shape_eq_iff Let_def)
  have sh: "shape ?b2 = shape b" "min_alloc_size ?b2 = min_alloc_size b"
    using b1(4) by (simp_all add: shape_def)
  show thesis
  proof (cases "n > max_alloc_size b")
    case True
    then obtain b3 where b3: "ShrinkLastAllocation (max_alloc_size b) ?b2 = Inr b3" "buffer_ok b3"
        "shape b3 = shape ?b2" "segments b3 = segments b @ [(off, aligned (min_alloc_size ?b2) (max_alloc_size b))]"
      using ShrinkLastAllocation_ok [OF b2] m(2) by (metis less_imp_le)
    have "aligned (min_alloc_size ?b2) (max_alloc_size b) = max_alloc_size b"
      unfolding sh using aligned [OF m(1,2)] m(3) by (simp add: order_antisym)
    with True b3 start sh m show thesis by (intro that [of off "max_alloc_size b" b3]) simp_all
  next
    case False
    with start sh b1(2) b2 m(1) show thesis by (intro that [of off n ?b2]) simp_all
  qed
qed

lemma GetLastAllocationOffset_ok:
  assumes "buffer_ok b" "segments b = segs @ [(off, n)]"
  shows "GetLastAllocationOffset b = Inr off"
proof -
  have sizes: "alloc_sizes b = map snd segs @ [n]" using buffer_ok_segments [OF assms(1)] assms(2) by simp
  have "alloc_end b = off + n \<and> 0 \<le> off"
    using assms(1)
  proof (cases rule: buffer_okE)
    case (straight high)
    with assms(2) have h: "high = segs @ [(off, n)]" by simp
    show ?thesis using straight(4,6) chain_le [of "min_alloc_size b" "alloc_start b" segs off] by (auto simp: h)
  next
    case (wrapped high low)
    then obtain low' where low: "low = low' @ [(off, n)]"
      using assms(2) by (metis append.assoc append1_eq_conv append_butlast_last_id)
    show ?thesis using wrapped(8) chain_le [of "min_alloc_size b" 0 low' off] by (auto simp: low)
  qed (use assms(2) in simp)
  then show ?thesis by (simp add: GetLastAllocationOffset_def sizes)
qed

lemma Recycle_ok:
  assumes "buffer_ok b" "segments b \<noteq> []"
  obtains b' where "RecycleLeastRecentlyAllocated b = Inr b'" "buffer_ok b'" "shape b' = shape b"
    "segments b' = tl (segments b)"
proof -
  let ?m = "min_alloc_size b"
  note found = that
  have make: thesis
    if "RecycleLeastRecentlyAllocated b = Inr b'" "shape b' = shape b" "laid_out b' high low"
      "alloc_sizes b' = tl (alloc_sizes b)" "high @ low = tl (segments b)" for b' high low
  proof -
    have "map snd (high @ low) = alloc_sizes b'"
      unfolding that(4,5) using buffer_ok_segments [OF assms(1)] by (metis map_tl)
    from buffer_okI [OF assms(1) that(2,3) this] that(1,2,5) show thesis by (intro found [of b']) simp_all
  qed
  from assms(1) show thesis
  proof (cases rule: buffer_okE)
    case empty
    with assms(2) show thesis by simp
  next
    case (straight high)
    then obtain seg rest where h: "high = seg # rest" by (cases high) auto
    have c: "fst seg = alloc_start b" "0 < snd seg" "?m dvd snd seg" "chain ?m (alloc_start b + snd seg) rest (alloc_end b)"
      using straight(6) by (simp_all add: h)
    have le: "alloc_start b + snd seg \<le> alloc_end b" "rest \<noteq> [] \<longrightarrow> alloc_start b + snd seg < alloc_end b"
      using chain_le [OF c(4)] by simp_all
    have sizes: "alloc_sizes b = snd seg # map snd rest" using straight(3) by (simp add: h)
    show thesis
    proof (cases "rest = []")
      case True
      then have e: "alloc_start b + snd seg = alloc_end b" using c(4) by simp
      show thesis
        using straight(7) True h straight(1)
        by (intro make [of "b\<lparr>alloc_sizes := [], alloc_start := -1, alloc_end := -1\<rparr>" "[]" "[]"])
          (simp_all add: RecycleLeastRecentlyAllocated_def sizes e Let_def shape_def laid_out_def)
    next
      case False
      show thesis
        using straight(1,4,5,7) False le c(2-4) h
        by (intro make [of "b\<lparr>alloc_sizes := map snd rest, alloc_start := alloc_start b + snd seg\<rparr>" rest "[]"])
          (simp_all add: RecycleLeastRecentlyAllocated_def sizes Let_def shape_def laid_out_def)
    qed
  next
    case (wrapped high low)
    then obtain seg rest where h: "high = seg # rest" by (cases high) auto
    have c: "fst seg = alloc_start b" "0 < snd seg" "?m dvd snd seg" "chain ?m (alloc_start b + snd seg) rest (buf_size b)"
      using wrapped(7) by (simp_all add: h)
    have le: "alloc_start b + snd seg \<le> buf_size b" "rest \<noteq> [] \<longrightarrow> alloc_start b + snd seg < buf_size b"
      using chain_le [OF c(4)] by simp_all
    have ne: "alloc_start b + snd seg \<noteq> alloc_end b" using c(2) wrapped(9) by simp
    have sizes: "alloc_sizes b = snd seg # map snd rest @ map snd low" using wrapped(4) by (simp add: h)
    show thesis
    proof (cases "rest = []")
      case True
      then have e: "alloc_start b + snd seg = buf_size b" using c(4) by simp
      show thesis
        using True wrapped(1,3,8-11) h e ne
        by (intro make [of "b\<lparr>alloc_sizes := map snd low, alloc_start := 0\<rparr>" low "[]"])
          (simp_all add: RecycleLeastRecentlyAllocated_def sizes Let_def shape_def laid_out_def)
    next
      case False
      show thesis
        using wrapped(1,3,5,6,8,9) False le c(2-4) h ne
        by (intro make [of "b\<lparr>alloc_sizes := map snd rest @ map snd low, alloc_start := alloc_start b + snd seg\<rparr>" rest low])
          (simp_all add: RecycleLeastRecentlyAllocated_def sizes Let_def shape_def laid_out_def)
    qed
  qed
qed

lemma Initialize_ok:
  assumes "0 < minimum" "0 < n" "0 < maximum" "minimum dvd n" "minimum dvd maximum"
  obtains b where "Initialize True n minimum maximum ResourceBuffer_new = Inr (True, b)" "buffer_ok b"
    "segments b = []" "shape b = (True, n, minimum, maximum)"
proof -
  let ?b = "ResourceBuffer_new\<lparr>is_mapped := True, buf_size := n, min_alloc_size := minimum, max_alloc_size := maximum\<rparr>"
  have "laid_out ?b [] []" "segments ?b = []" "alloc_sizes ?b = []"
    by (simp_all add: laid_out_def segments_def ResourceBuffer_new_def)
  then have "\<exists>high low. laid_out ?b high low \<and> map snd (high @ low) = alloc_sizes ?b"
    by (intro exI [of _ "[]"]) simp
  then have "buffer_ok ?b" unfolding buffer_ok_def using assms by simp
  then show thesis
    using assms by (intro that [of ?b])
      (simp_all add: Initialize_def ResourceBuffer_new_def segments_def shape_def)
qed

subsection \<open>The contract\<close>

text \<open>
  What the loader relies on: a queue of segments in a fixed range. Allocation appends one, and
  is possible exactly while some byte is free; freeing takes the oldest away.
\<close>

locale segment_queue =
  fixes ok :: "'b \<Rightarrow> bool"
    and segs :: "'b \<Rightarrow> segment list"
    and capacity :: "'b \<Rightarrow> int"
    and room :: "'b \<Rightarrow> crash + bool"
    and alloc :: "'b \<Rightarrow> crash + int \<times> int \<times> 'b"
    and shrink :: "int \<Rightarrow> 'b \<Rightarrow> crash + 'b"
    and recycle :: "'b \<Rightarrow> crash + 'b"
  assumes inside: "ok b \<Longrightarrow> apart (segs b) \<and>
      (\<forall>seg \<in> set (segs b). 0 < snd seg \<and> bytes_of seg \<subseteq> {0..<capacity b})"
    and room: "ok b \<Longrightarrow> room b = Inr (sum_list (map snd (segs b)) < capacity b)"
    and alloc: "ok b \<Longrightarrow> room b = Inr True \<Longrightarrow>
      \<exists>off n b'. alloc b = Inr (off, n, b') \<and> ok b' \<and> capacity b' = capacity b \<and>
        segs b' = segs b @ [(off, n)] \<and> 0 < n"
    and shrink: "ok b \<Longrightarrow> segs b = front @ [(off, n)] \<Longrightarrow> 0 < k \<Longrightarrow> k \<le> n \<Longrightarrow>
      \<exists>b' n'. shrink k b = Inr b' \<and> ok b' \<and> capacity b' = capacity b \<and>
        segs b' = front @ [(off, n')] \<and> k \<le> n' \<and> n' \<le> n"
    and recycle: "ok b \<Longrightarrow> segs b \<noteq> [] \<Longrightarrow>
      \<exists>b'. recycle b = Inr b' \<and> ok b' \<and> capacity b' = capacity b \<and> segs b' = tl (segs b)"
begin

lemma sum_le_capacity_pos: "ok b \<Longrightarrow> seg \<in> set (segs b) \<Longrightarrow> 0 < snd seg"
  using inside by blast

text \<open>A fresh segment overlaps none of the live ones.\<close>

lemma fresh_apart:
  assumes "ok b" "segs b = front @ [seg]" "s \<in> set front"
  shows "bytes_of s \<inter> bytes_of seg = {}"
  using inside [OF assms(1)] assms(2,3) by (auto simp: apart_def sorted_wrt_append)

text \<open>After freeing a segment there is room, if there was not too much in use.\<close>

lemma recycle_makes_room:
  assumes "ok b" "segs b \<noteq> []" "sum_list (map snd (segs b)) \<le> capacity b" "recycle b = Inr b'"
  shows "room b' = Inr True"
proof -
  have b': "ok b'" "capacity b' = capacity b" "segs b' = tl (segs b)"
    using recycle [OF assms(1,2)] assms(4) by auto
  obtain seg rest where s: "segs b = seg # rest" using assms(2) by (cases "segs b") auto
  have "0 < snd seg" using inside [OF assms(1)] by (simp add: s)
  then have "sum_list (map snd (segs b')) < capacity b'" using assms(3) b' by (simp add: s)
  then show ?thesis using room [OF b'(1)] by simp
qed

end

lemma sum_sizes_le:
  assumes "buffer_ok b"
  shows "sum_list (alloc_sizes b) \<le> buf_size b"
  using assms
proof (cases rule: buffer_okE)
  case (straight high)
  then show ?thesis using chain_sum [OF straight(6)] by simp
next
  case (wrapped high low)
  then show ?thesis
    using chain_sum [OF wrapped(7)] chain_sum [OF wrapped(8)] wrapped(4) [symmetric] by simp
qed (use assms in \<open>simp add: buffer_ok_def\<close>)

interpretation shm: segment_queue buffer_ok segments buf_size CanAllocate Allocate
  ShrinkLastAllocation RecycleLeastRecentlyAllocated
proof (unfold_locales, goal_cases)
  case (1 b) then show ?case using buffer_ok_segments by blast
next
  case (2 b) then show ?case using CanAllocate_eq buffer_ok_segments by simp
next
  case (3 b)
  then have "sum_list (alloc_sizes b) < buf_size b" using CanAllocate_eq by simp
  from Allocate_ok [OF 3(1) this] show ?case by (metis shape_eq_iff)
next
  case (4 b front off n k)
  have m: "0 < min_alloc_size b" using 4(1) by (simp add: buffer_ok_def)
  obtain b' where b': "ShrinkLastAllocation k b = Inr b'" "buffer_ok b'" "shape b' = shape b"
    "segments b' = front @ [(off, aligned (min_alloc_size b) k)]"
    using ShrinkLastAllocation_ok [OF 4] by blast
  have "aligned (min_alloc_size b) k \<le> n"
    using ShrinkLastAllocation_le [OF 4] .
  with b' aligned(1) [OF m 4(3)] show ?case by (metis shape_eq_iff)
next
  case (5 b) then show ?case using Recycle_ok by (metis shape_eq_iff)
qed

end
