(* ===== verification/Async_Handler.thy ===== *)
theory Async_Handler
  imports Resource_Buffer
begin

text \<open>
  The flow of a response body from the browser to a renderer
  (\<open>browser/loader/async_resource_handler.cc\<close>): the loader asks for memory to read into, the
  handler gives it a segment of the shared buffer and tells the renderer where the data is, and
  the renderer acknowledges the pieces in order. When the buffer is full the handler holds the
  loader's controller, and resumes it later. Redirects, the start and the end of the response,
  uploads, histograms and logging are not modelled; what the process around the handler
  answers (enough resources, memory mapped, filter alive, handle valid, byte counts) are
  arguments.
\<close>

record buffer_constants =
  kBufferSize :: int
  kMinAllocationSize :: int
  kMaxAllocationSize :: int

text \<open>The values that the command line may replace.\<close>

definition default_constants :: buffer_constants where
  "default_constants =
     \<lparr>kBufferSize = 1024 * 512, kMinAllocationSize = 1024 * 4, kMaxAllocationSize = 1024 * 32\<rparr>"

record AsyncResourceHandler =
  buffer_of :: "ResourceBuffer option"
  pending_data_count :: int
  allocation_size :: int
  total_read_body_bytes :: int
  first_chunk_read :: bool
  has_checked_for_sufficient_resources :: bool
  sent_data_buffer_msg :: bool
  reported_transfer_size :: int
  has_controller :: bool

datatype handler_output =
    ControllerResume | ControllerCancel | ControllerCancelInsufficientResources
  | SetDataBuffer int
  | DataReceived int int int

definition AsyncResourceHandler_new :: AsyncResourceHandler where
  "AsyncResourceHandler_new =
     \<lparr>buffer_of = None, pending_data_count = 0, allocation_size = 0, total_read_body_bytes = 0,
      first_chunk_read = False, has_checked_for_sufficient_resources = False,
      sent_data_buffer_msg = False, reported_transfer_size = 0, has_controller = False\<rparr>"

definition CheckForSufficientResource :: "bool \<Rightarrow> AsyncResourceHandler \<Rightarrow> bool \<times> AsyncResourceHandler" where
  "CheckForSufficientResource sufficient h =
     (if has_checked_for_sufficient_resources h then (True, h)
      else (sufficient, h\<lparr>has_checked_for_sufficient_resources := True\<rparr>))"

definition EnsureResourceBufferIsInitialized ::
  "buffer_constants \<Rightarrow> bool \<Rightarrow> AsyncResourceHandler \<Rightarrow> crash + bool \<times> AsyncResourceHandler" where
  "EnsureResourceBufferIsInitialized c mapped h =
     (if (case buffer_of h of None \<Rightarrow> False | Some b \<Rightarrow> is_mapped b) then Inr (True, h)
      else bindE (Initialize mapped (kBufferSize c) (kMinAllocationSize c) (kMaxAllocationSize c) ResourceBuffer_new)
        (\<lambda>(done, b). Inr (done, h\<lparr>buffer_of := Some b\<rparr>)))"

text \<open>A method called on the buffer, through a pointer that may be null.\<close>

definition with_buffer :: "AsyncResourceHandler \<Rightarrow> (ResourceBuffer \<Rightarrow> crash + 'a) \<Rightarrow> crash + 'a" where
  "with_buffer h f = (case buffer_of h of None \<Rightarrow> Inl NullPointer | Some b \<Rightarrow> f b)"

text \<open>The handler afterwards, what it sent and called, and the memory given to the loader.\<close>

definition OnWillRead ::
  "buffer_constants \<Rightarrow> bool \<Rightarrow> bool \<Rightarrow> AsyncResourceHandler
     \<Rightarrow> crash + AsyncResourceHandler \<times> handler_output list \<times> segment option" where
  "OnWillRead c sufficient mapped h =
     (let (enough, h1) = CheckForSufficientResource sufficient h in
      if \<not> enough then Inr (h1, [ControllerCancelInsufficientResources], None)
      else bindE (EnsureResourceBufferIsInitialized c mapped h1) (\<lambda>(initialized, h2).
        if \<not> initialized then Inr (h2, [ControllerCancelInsufficientResources], None)
        else with_buffer h2 (\<lambda>b.
          bindE (Allocate b) (\<lambda>(off, n, b').
            Inr (h2\<lparr>buffer_of := Some b', allocation_size := n\<rparr>, [ControllerResume], Some (off, n))))))"

text \<open>The difference of two counts of 64 bits is returned as an \<open>int\<close>.\<close>

definition CalculateEncodedDataLengthToReport :: "int \<Rightarrow> AsyncResourceHandler \<Rightarrow> int \<times> AsyncResourceHandler" where
  "CalculateEncodedDataLengthToReport transfer_size h =
     (signed_take_bit 31 (transfer_size - reported_transfer_size h), h\<lparr>reported_transfer_size := transfer_size\<rparr>)"

definition OnDefer :: "AsyncResourceHandler \<Rightarrow> AsyncResourceHandler" where
  "OnDefer h = h\<lparr>has_controller := True\<rparr>"

definition ResumeIfDeferred :: "AsyncResourceHandler \<Rightarrow> AsyncResourceHandler \<times> handler_output list" where
  "ResumeIfDeferred h =
     (if has_controller h then (h\<lparr>has_controller := False\<rparr>, [ControllerResume]) else (h, []))"

definition OnReadCompleted ::
  "int \<Rightarrow> bool \<Rightarrow> bool \<Rightarrow> int \<Rightarrow> int \<Rightarrow> AsyncResourceHandler
     \<Rightarrow> crash + AsyncResourceHandler \<times> handler_output list" where
  "OnReadCompleted bytes_read filter_alive handle_valid transfer_size raw_header_size h =
     (if bytes_read = 0 then Inr (h, [ControllerResume])
      else if \<not> filter_alive then Inr (h, [ControllerCancel])
      else
        let (len, h1) = CalculateEncodedDataLengthToReport transfer_size h;
            encoded_data_length = (if first_chunk_read h1 then len else len - raw_header_size);
            h2 = h1\<lparr>first_chunk_read := True\<rparr>
        in with_buffer h2 (\<lambda>b.
          bindE (ShrinkLastAllocation bytes_read b) (\<lambda>b1.
            let h3 = h2\<lparr>buffer_of := Some b1, total_read_body_bytes := total_read_body_bytes h2 + bytes_read\<rparr> in
            check (sent_data_buffer_msg h3 \<or> is_mapped b1)
              (if \<not> sent_data_buffer_msg h3 \<and> \<not> handle_valid then Inr (h3, [ControllerCancel])
               else
                 let setup = (if sent_data_buffer_msg h3 then [] else [SetDataBuffer (buf_size b1)]);
                     h4 = h3\<lparr>sent_data_buffer_msg := True\<rparr>
                 in bindE (GetLastAllocationOffset b1) (\<lambda>data_offset.
                    bindE (CanAllocate b1) (\<lambda>can.
                      let out = setup @ [DataReceived data_offset bytes_read encoded_data_length];
                          h5 = h4\<lparr>pending_data_count := pending_data_count h4 + 1\<rparr>
                      in if \<not> can then Inr (OnDefer h5, out) else Inr (h5, out @ [ControllerResume])))))))"

definition OnDataReceivedACK ::
  "AsyncResourceHandler \<Rightarrow> crash + AsyncResourceHandler \<times> handler_output list" where
  "OnDataReceivedACK h =
     (if pending_data_count h = 0 then Inr (h, [])
      else
        let h1 = h\<lparr>pending_data_count := pending_data_count h - 1\<rparr> in
        with_buffer h1 (\<lambda>b.
          bindE (RecycleLeastRecentlyAllocated b) (\<lambda>b1.
            let h2 = h1\<lparr>buffer_of := Some b1\<rparr> in
            bindE (CanAllocate b1) (\<lambda>can.
              Inr (if can then ResumeIfDeferred h2 else (h2, []))))))"

definition OnFollowRedirect :: "bool \<Rightarrow> AsyncResourceHandler \<Rightarrow> AsyncResourceHandler \<times> handler_output list" where
  "OnFollowRedirect status_success h = (if \<not> status_success then (h, []) else ResumeIfDeferred h)"

subsection \<open>Runs\<close>

text \<open>
  A state of a run: the handler, the memory that the loader is reading into, and the data that
  the renderer was told about and has not acknowledged. A completed read of no bytes ends the
  body; the segment then stays where it is. \<open>sent\<close> picks the data messages of an output.
\<close>

fun sent :: "handler_output list \<Rightarrow> segment list" where
  "sent [] = []"
| "sent (DataReceived off n len # out) = (off, n) # sent out"
| "sent (_ # out) = sent out"

lemma sent_append [simp]: "sent (xs @ ys) = sent xs @ sent ys"
  by (induction xs rule: sent.induct) auto

inductive flow ::
  "buffer_constants \<Rightarrow> AsyncResourceHandler \<Rightarrow> segment option \<Rightarrow> segment list \<Rightarrow> bool" for c where
  start: "flow c AsyncResourceHandler_new None []"
| will_read: "flow c h None un \<Longrightarrow> \<not> has_controller h \<Longrightarrow>
    OnWillRead c sufficient mapped h = Inr (h', out, Some seg) \<Longrightarrow> flow c h' (Some seg) un"
| read_data: "flow c h (Some seg) un \<Longrightarrow> 0 < n \<Longrightarrow> n \<le> snd seg \<Longrightarrow>
    OnReadCompleted n filter_alive handle_valid transferred hdr h = Inr (h', out) \<Longrightarrow>
    ControllerCancel \<notin> set out \<Longrightarrow> flow c h' None (un @ sent out)"
| read_nothing: "flow c h (Some seg) un \<Longrightarrow>
    OnReadCompleted 0 filter_alive handle_valid transferred hdr h = Inr (h', out) \<Longrightarrow> flow c h' (Some seg) un"
| ack: "flow c h reading un \<Longrightarrow> OnDataReceivedACK h = Inr (h', out) \<Longrightarrow> flow c h' reading (tl un)"

inductive_cases flowE: "flow c h reading un"

definition constants_ok :: "buffer_constants \<Rightarrow> bool" where
  "constants_ok c \<longleftrightarrow> 0 < kMinAllocationSize c \<and> 0 < kBufferSize c \<and> 0 < kMaxAllocationSize c \<and>
     kMinAllocationSize c dvd kBufferSize c \<and> kMinAllocationSize c dvd kMaxAllocationSize c"

text \<open>The data that was sent lies at the start of the segments, in their order.\<close>

definition covers :: "segment list \<Rightarrow> segment list \<Rightarrow> bool" where
  "covers = list_all2 (\<lambda>seg data. fst data = fst seg \<and> 0 < snd data \<and> snd data \<le> snd seg)"

definition live :: "segment option \<Rightarrow> segment list" where
  "live reading = (case reading of None \<Rightarrow> [] | Some seg \<Rightarrow> [seg])"

definition flow_ok :: "AsyncResourceHandler \<Rightarrow> segment option \<Rightarrow> segment list \<Rightarrow> bool" where
  "flow_ok h reading un \<longleftrightarrow> pending_data_count h = int (length un) \<and>
     (case buffer_of h of
        None \<Rightarrow> reading = None \<and> un = [] \<and> \<not> has_controller h
      | Some b \<Rightarrow> buffer_ok b \<and>
          (\<exists>told. segments b = told @ live reading \<and> covers told un) \<and>
          (if reading = None then has_controller h \<longleftrightarrow> CanAllocate b \<noteq> Inr True else \<not> has_controller h))"

lemma covers_apart:
  assumes "covers told un" "data \<in> set un"
  obtains seg where "seg \<in> set told" "bytes_of data \<subseteq> bytes_of seg"
proof -
  obtain i where i: "i < length un" "data = un ! i" using assms(2) by (auto simp: in_set_conv_nth)
  then have "told ! i \<in> set told" "fst data = fst (told ! i)" "snd data \<le> snd (told ! i)"
    using assms(1) by (simp_all add: covers_def list_all2_conv_all_nth)
  moreover define seg where "seg = told ! i"
  ultimately have "seg \<in> set told" "fst data = fst seg" "snd data \<le> snd seg" by simp_all
  then show thesis by (intro that [of seg]) (auto simp: bytes_of_def)
qed

lemma covers_apart_all:
  assumes "covers told un" "apart (told @ extra)"
  shows "apart un \<and> (\<forall>data \<in> set un. \<forall>seg \<in> set extra. bytes_of data \<inter> bytes_of seg = {})"
proof
  have sub: "bytes_of (un ! i) \<subseteq> bytes_of (told ! i)" "length told = length un" if "i < length un" for i
    using assms(1) that by (auto simp: covers_def list_all2_conv_all_nth bytes_of_def)
  have "bytes_of (told ! i) \<inter> bytes_of (told ! j) = {}" if "i < j" "j < length told" for i j
  proof -
    have "sorted_wrt (\<lambda>s t. bytes_of s \<inter> bytes_of t = {}) told"
      using assms(2) by (simp add: apart_def sorted_wrt_append)
    then show ?thesis using that by (simp add: sorted_wrt_iff_nth_less)
  qed
  then show "apart un"
    unfolding apart_def sorted_wrt_iff_nth_less using sub by (metis (no_types, lifting) disjoint_iff less_trans subsetD)
  show "\<forall>data \<in> set un. \<forall>seg \<in> set extra. bytes_of data \<inter> bytes_of seg = {}"
  proof (intro ballI)
    fix data seg
    assume "data \<in> set un" "seg \<in> set extra"
    moreover from this obtain s where "s \<in> set told" "bytes_of data \<subseteq> bytes_of s"
      using covers_apart [OF assms(1)] by metis
    ultimately show "bytes_of data \<inter> bytes_of seg = {}"
      using assms(2) by (fastforce simp: apart_def sorted_wrt_append)
  qed
qed

lemma flow_ok_start: "flow_ok AsyncResourceHandler_new None []"
  by (simp add: flow_ok_def AsyncResourceHandler_new_def)

text \<open>The buffer that \<open>OnWillRead\<close> works on.\<close>

lemma Ensure_ok:
  assumes "constants_ok c" "flow_ok h None un" "\<not> has_controller h"
  obtains h2 b told where "EnsureResourceBufferIsInitialized c True h = Inr (True, h2)"
    "buffer_of h2 = Some b" "buffer_ok b" "segments b = told" "covers told un" "CanAllocate b = Inr True"
    "pending_data_count h2 = pending_data_count h" "has_controller h2 = has_controller h"
proof (cases "buffer_of h")
  case None
  then have un: "un = []" using assms(2) by (simp add: flow_ok_def)
  obtain b where b: "Initialize True (kBufferSize c) (kMinAllocationSize c) (kMaxAllocationSize c) ResourceBuffer_new
      = Inr (True, b)" "buffer_ok b" "segments b = []"
    using Initialize_ok assms(1) unfolding constants_ok_def by metis
  have "CanAllocate b = Inr True"
    using shm.room [OF b(2)] b(2,3) by (simp add: buffer_ok_def)
  with None b un show thesis
    by (intro that [of "h\<lparr>buffer_of := Some b\<rparr>" b "[]"])
      (simp_all add: EnsureResourceBufferIsInitialized_def covers_def)
next
  case (Some b)
  then have "buffer_ok b" "is_mapped b" "CanAllocate b = Inr True" "covers (segments b) un"
    using assms(2,3) by (auto simp: flow_ok_def live_def buffer_ok_def)
  with Some show thesis
    by (intro that [of h b "segments b"]) (simp_all add: EnsureResourceBufferIsInitialized_def)
qed

lemma OnWillRead_ok:
  assumes "constants_ok c" "flow_ok h None un" "\<not> has_controller h"
  obtains h' seg where "OnWillRead c True True h = Inr (h', [ControllerResume], Some seg)"
    "flow_ok h' (Some seg) un" "0 < snd seg" "\<forall>data \<in> set un. bytes_of data \<inter> bytes_of seg = {}"
proof -
  define h1 where "h1 = (if has_checked_for_sufficient_resources h then h
    else h\<lparr>has_checked_for_sufficient_resources := True\<rparr>)"
  have h1: "CheckForSufficientResource True h = (True, h1)" "flow_ok h1 None un" "\<not> has_controller h1"
    using assms(2,3)
    by (simp_all add: CheckForSufficientResource_def flow_ok_def h1_def cong: option.case_cong if_cong)
  obtain h2 b told where e: "EnsureResourceBufferIsInitialized c True h1 = Inr (True, h2)"
    "buffer_of h2 = Some b" "buffer_ok b" "segments b = told" "covers told un" "CanAllocate b = Inr True"
    "pending_data_count h2 = pending_data_count h1" "has_controller h2 = has_controller h1"
    using Ensure_ok [OF assms(1) h1(2,3)] by blast
  obtain off n b' where b': "Allocate b = Inr (off, n, b')" "buffer_ok b'" "segments b' = told @ [(off, n)]" "0 < n"
    using shm.alloc [OF e(3,6)] e(4) by blast
  have "bytes_of data \<inter> bytes_of (off, n) = {}" if d: "data \<in> set un" for data
  proof -
    obtain seg where "seg \<in> set told" "bytes_of data \<subseteq> bytes_of seg" using covers_apart [OF e(5) d] .
    with shm.fresh_apart [OF b'(2,3), of seg] show ?thesis by blast
  qed
  moreover have "OnWillRead c True True h
      = Inr (h2\<lparr>buffer_of := Some b', allocation_size := n\<rparr>, [ControllerResume], Some (off, n))"
    by (simp add: OnWillRead_def h1(1) e(1,2) with_buffer_def b'(1))
  moreover have "flow_ok (h2\<lparr>buffer_of := Some b', allocation_size := n\<rparr>) (Some (off, n)) un"
    using b'(2,3) e(5,7,8) h1(2,3) by (simp add: flow_ok_def live_def)
  ultimately show thesis
    using b'(4) by (intro that [of "h2\<lparr>buffer_of := Some b', allocation_size := n\<rparr>" "(off, n)"]) simp_all
qed

lemma Ensure_some:
  "EnsureResourceBufferIsInitialized c mapped h = Inr (True, h2) \<Longrightarrow>
   EnsureResourceBufferIsInitialized c True h = Inr (True, h2)"
  by (auto simp: EnsureResourceBufferIsInitialized_def Initialize_def check_def bindE_eq_Inr split: if_splits)

lemma OnWillRead_some:
  assumes "OnWillRead c sufficient mapped h = Inr (h', out, Some seg)"
  shows "OnWillRead c True True h = Inr (h', out, Some seg)"
proof -
  obtain h1 where h1: "CheckForSufficientResource sufficient h = (True, h1)"
    "CheckForSufficientResource True h = (True, h1)"
    using assms by (auto simp: OnWillRead_def CheckForSufficientResource_def split: if_splits)
  obtain h2 where h2: "EnsureResourceBufferIsInitialized c mapped h1 = Inr (True, h2)"
    using assms by (auto simp: OnWillRead_def h1(1) bindE_eq_Inr split: if_splits)
  show ?thesis using assms by (simp add: OnWillRead_def h1 h2 Ensure_some [OF h2])
qed

lemma OnReadCompleted_ok:
  assumes "flow_ok h (Some seg) un" "0 < n" "n \<le> snd seg"
    and "OnReadCompleted n filter_alive handle_valid transferred hdr h = Inr (h', out)" "ControllerCancel \<notin> set out"
  shows "flow_ok h' None (un @ sent out) \<and> sent out = [(fst seg, n)]"
proof -
  obtain b told where b: "buffer_of h = Some b" "buffer_ok b" "segments b = told @ [seg]" "covers told un"
    "\<not> has_controller h" "pending_data_count h = int (length un)"
    using assms(1) by (auto simp: flow_ok_def live_def split: option.splits)
  have seg: "segments b = told @ [(fst seg, snd seg)]" using b(3) by simp
  obtain b1 n' where b1: "ShrinkLastAllocation n b = Inr b1" "buffer_ok b1"
    "segments b1 = told @ [(fst seg, n')]" "n \<le> n'"
    using shm.shrink [OF b(2) seg assms(2,3)] by blast
  have off: "GetLastAllocationOffset b1 = Inr (fst seg)"
    using GetLastAllocationOffset_ok [OF b1(2,3)] .
  obtain can where can: "CanAllocate b1 = Inr can" using shm.room [OF b1(2)] by blast
  have cov: "covers (told @ [(fst seg, n')]) (un @ [(fst seg, n)])"
    using b(4) b1(4) assms(2) by (simp add: covers_def list_all2_appendI)
  have m: "is_mapped b1" using b1(2) by (simp add: buffer_ok_def)
  show ?thesis
    using assms(2,4,5) b b1(1-3) off can m cov
    by (auto simp: OnReadCompleted_def CalculateEncodedDataLengthToReport_def with_buffer_def Let_def
        check_def OnDefer_def flow_ok_def live_def split: if_splits)
qed

lemma OnDataReceivedACK_ok:
  assumes "flow_ok h reading un"
  obtains h' out where "OnDataReceivedACK h = Inr (h', out)" "flow_ok h' reading (tl un)"
proof (cases un)
  case Nil
  with assms show thesis by (intro that [of h "[]"]) (auto simp: OnDataReceivedACK_def flow_ok_def)
next
  case (Cons data rest)
  obtain b told where b: "buffer_of h = Some b" "buffer_ok b" "segments b = told @ live reading" "covers told un"
    "pending_data_count h = int (length un)" "reading \<noteq> None \<longrightarrow> \<not> has_controller h"
    using assms Cons by (auto simp: flow_ok_def split: option.splits if_splits)
  obtain seg told' where told: "told = seg # told'" using b(4) Cons by (cases told) (auto simp: covers_def)
  obtain b1 where b1: "RecycleLeastRecentlyAllocated b = Inr b1" "buffer_ok b1"
    "segments b1 = told' @ live reading"
    using shm.recycle [OF b(2)] b(3) told by auto
  have "sum_list (map snd (segments b)) \<le> buf_size b"
    using sum_sizes_le [OF b(2)] buffer_ok_segments [OF b(2)] by simp
  then have can: "CanAllocate b1 = Inr True"
    using shm.recycle_makes_room [OF b(2) _ _ b1(1)] b(3) told by simp
  let ?h = "h\<lparr>pending_data_count := pending_data_count h - 1, buffer_of := Some b1\<rparr>"
  have "OnDataReceivedACK h = Inr (ResumeIfDeferred ?h)"
    using b(1,5) b1(1) can Cons by (simp add: OnDataReceivedACK_def with_buffer_def Let_def)
  moreover have "flow_ok (fst (ResumeIfDeferred ?h)) reading (tl un)"
    using b(4-6) b1(2,3) can Cons told
    by (auto simp: flow_ok_def ResumeIfDeferred_def covers_def)
  ultimately show thesis by (intro that [of "fst (ResumeIfDeferred ?h)" "snd (ResumeIfDeferred ?h)"]) simp_all
qed

lemma ack_resumes:
  assumes "buffer_of h = Some b" "buffer_ok b" "segments b \<noteq> []" "has_controller h"
    and "OnDataReceivedACK h = Inr (h', out)" "pending_data_count h \<noteq> 0"
  shows "out = [ControllerResume] \<and> \<not> has_controller h'"
proof -
  obtain b1 where b1: "RecycleLeastRecentlyAllocated b = Inr b1"
    using shm.recycle [OF assms(2,3)] by blast
  have "sum_list (map snd (segments b)) \<le> buf_size b"
    using sum_sizes_le [OF assms(2)] buffer_ok_segments [OF assms(2)] by simp
  then have "CanAllocate b1 = Inr True" using shm.recycle_makes_room [OF assms(2,3) _ b1] by simp
  with assms b1 show ?thesis
    by (auto simp: OnDataReceivedACK_def with_buffer_def ResumeIfDeferred_def Let_def)
qed

lemma flow_invariant:
  assumes "constants_ok c" "flow c h reading un"
  shows "flow_ok h reading un"
  using assms(2)
proof (induction rule: flow.induct)
  case start
  show ?case by (rule flow_ok_start)
next
  case (will_read h un sufficient mapped h' out seg)
  then show ?case
    using OnWillRead_ok [OF assms(1) will_read.IH will_read.hyps(2)] OnWillRead_some by fastforce
next
  case (read_data h seg un n filter_alive handle_valid transferred hdr h' out)
  then show ?case using OnReadCompleted_ok by blast
next
  case (read_nothing h seg un filter_alive handle_valid transferred hdr h' out)
  then show ?case by (simp add: OnReadCompleted_def)
next
  case (ack h reading un h' out)
  then show ?case using OnDataReceivedACK_ok by (metis Inr_inject prod.inject)
qed

end
