(* ===== verification/Resource_Properties.thy ===== *)
theory Resource_Properties
  imports Async_Handler
begin

text \<open>The properties of the response buffer and of the handler that fills it.\<close>

text \<open>C33. The circular buffer is a queue of segments: nothing overlaps, allocation is possible
  exactly while a byte is free and appends a segment, shrinking keeps its offset and rounds its
  size up to the minimal size, recycling removes the oldest, and none of these operations fails
  a check.\<close>

theorem buffer_is_a_segment_queue:
  assumes "buffer_ok b"
  shows "apart (segments b) \<and> (\<forall>seg \<in> set (segments b). bytes_of seg \<subseteq> {0..<buf_size b}) \<and>
    CanAllocate b = Inr (sum_list (map snd (segments b)) < buf_size b) \<and>
    (CanAllocate b = Inr True \<longrightarrow> (\<exists>off n b'. Allocate b = Inr (off, n, b') \<and> buffer_ok b' \<and>
       segments b' = segments b @ [(off, n)] \<and> 0 < n \<and> n \<le> max_alloc_size b)) \<and>
    (\<forall>front off n k. segments b = front @ [(off, n)] \<and> 0 < k \<and> k \<le> n \<longrightarrow>
       (\<exists>b' n'. ShrinkLastAllocation k b = Inr b' \<and> buffer_ok b' \<and> segments b' = front @ [(off, n')] \<and>
          k \<le> n' \<and> n' < k + min_alloc_size b \<and> min_alloc_size b dvd n' \<and> GetLastAllocationOffset b' = Inr off)) \<and>
    (segments b \<noteq> [] \<longrightarrow> (\<exists>b'. RecycleLeastRecentlyAllocated b = Inr b' \<and> buffer_ok b' \<and>
       segments b' = tl (segments b)))"
proof -
  have alloc: "\<exists>off n b'. Allocate b = Inr (off, n, b') \<and> buffer_ok b' \<and>
      segments b' = segments b @ [(off, n)] \<and> 0 < n \<and> n \<le> max_alloc_size b" if "CanAllocate b = Inr True"
  proof -
    have "sum_list (alloc_sizes b) < buf_size b" using that CanAllocate_eq [OF assms] by simp
    from Allocate_ok [OF assms this] show ?thesis by metis
  qed
  have shrink: "\<exists>b' n'. ShrinkLastAllocation k b = Inr b' \<and> buffer_ok b' \<and> segments b' = front @ [(off, n')] \<and>
      k \<le> n' \<and> n' < k + min_alloc_size b \<and> min_alloc_size b dvd n' \<and> GetLastAllocationOffset b' = Inr off"
    if s: "segments b = front @ [(off, n)]" "0 < k" "k \<le> n" for front off n k
  proof -
    have m: "0 < min_alloc_size b" using assms by (simp add: buffer_ok_def)
    obtain b' where "ShrinkLastAllocation k b = Inr b'" "buffer_ok b'"
      "segments b' = front @ [(off, aligned (min_alloc_size b) k)]"
      using ShrinkLastAllocation_ok [OF assms s] by blast
    with aligned(1-3) [OF m s(2)] GetLastAllocationOffset_ok show ?thesis by blast
  qed
  show ?thesis
    using shm.inside [OF assms] shm.room [OF assms] alloc shrink shm.recycle [OF assms] by blast
qed

theorem buffer_is_a_segment_queue_witness:
  "\<exists>b. Initialize True 8 4 4 ResourceBuffer_new = Inr (True, b) \<and> CanAllocate b = Inr True \<and>
    (\<exists>off n b'. Allocate b = Inr (off, n, b') \<and> segments b' = [(off, n)])"
proof -
  obtain b where b: "Initialize True 8 4 4 ResourceBuffer_new = Inr (True, b)" "buffer_ok b" "segments b = []"
    "shape b = (True, 8, 4, 4)"
    using Initialize_ok [of 4 8 4] by auto
  from buffer_is_a_segment_queue [OF b(2)] b show ?thesis by (auto simp: shape_def)
qed

text \<open>C34. Whatever the order of reads and acknowledgements, the memory that the loader reads into
  never overlaps data that the renderer was told about and has not acknowledged, acknowledging
  never fails a check, and a loader that is not held always gets memory.\<close>

theorem unacknowledged_data_is_kept:
  assumes "constants_ok c" "flow c h reading un"
  shows "apart un \<and> pending_data_count h = int (length un) \<and> (\<exists>r. OnDataReceivedACK h = Inr r) \<and>
    (\<forall>seg data. reading = Some seg \<and> data \<in> set un \<longrightarrow> bytes_of data \<inter> bytes_of seg = {}) \<and>
    (reading = None \<and> \<not> has_controller h \<longrightarrow>
      (\<exists>h' seg. OnWillRead c True True h = Inr (h', [ControllerResume], Some seg) \<and> 0 < snd seg))"
proof -
  have ok: "flow_ok h reading un" by (rule flow_invariant [OF assms])
  have told: "apart un \<and> (\<forall>seg data. reading = Some seg \<and> data \<in> set un \<longrightarrow> bytes_of data \<inter> bytes_of seg = {})"
  proof (cases "buffer_of h")
    case None
    with ok show ?thesis by (simp add: flow_ok_def apart_def)
  next
    case (Some b)
    with ok obtain told where b: "buffer_ok b" "segments b = told @ live reading" "covers told un"
      by (auto simp: flow_ok_def)
    have "apart (told @ live reading)" using shm.inside [OF b(1)] b(2) by simp
    from covers_apart_all [OF b(3) this] show ?thesis by (cases reading) (auto simp: live_def)
  qed
  have "\<exists>r. OnDataReceivedACK h = Inr r" using OnDataReceivedACK_ok [OF ok] by metis
  moreover have "\<exists>h' seg. OnWillRead c True True h = Inr (h', [ControllerResume], Some seg) \<and> 0 < snd seg"
    if "reading = None" "\<not> has_controller h"
    using OnWillRead_ok [OF assms(1), of h un] ok that by metis
  moreover have "pending_data_count h = int (length un)" using ok by (simp add: flow_ok_def)
  ultimately show ?thesis using told by blast
qed

text \<open>A run in a buffer of one segment: after the first read the loader is held.\<close>

definition tiny_constants :: buffer_constants where
  "tiny_constants = \<lparr>kBufferSize = 4, kMinAllocationSize = 4, kMaxAllocationSize = 4\<rparr>"

lemma tiny_constants_ok: "constants_ok tiny_constants"
  by (simp add: constants_ok_def tiny_constants_def)

lemma full_run: "\<exists>h. flow tiny_constants h None [(0, 4)] \<and> has_controller h"
proof -
  have "OnWillRead tiny_constants True True AsyncResourceHandler_new = Inr (
      AsyncResourceHandler_new\<lparr>has_checked_for_sufficient_resources := True, allocation_size := 4,
        buffer_of := Some \<lparr>is_mapped = True, buf_size = 4, min_alloc_size = 4, max_alloc_size = 4,
          alloc_start = 0, alloc_end = 4, alloc_sizes = [4]\<rparr>\<rparr>, [ControllerResume], Some (0, 4))"
    (is "_ = Inr (?h1, _, _)")
    by (simp add: OnWillRead_def CheckForSufficientResource_def EnsureResourceBufferIsInitialized_def
        Initialize_def with_buffer_def Allocate_def CanAllocate_def next_segment_def tiny_constants_def
        AsyncResourceHandler_new_def ResourceBuffer_new_def Let_def)
  from flow.will_read [OF flow.start _ this]
  have run: "flow tiny_constants ?h1 (Some (0, 4)) []" by (simp add: AsyncResourceHandler_new_def)
  obtain h2 where r: "OnReadCompleted 4 True True 0 0 ?h1 = Inr (h2, [SetDataBuffer 4, DataReceived 0 4 0])"
      and "has_controller h2"
    by (simp add: OnReadCompleted_def CalculateEncodedDataLengthToReport_def with_buffer_def
        ShrinkLastAllocation_def GetLastAllocationOffset_def CanAllocate_def OnDefer_def
        AsyncResourceHandler_new_def Let_def)
  moreover have "flow tiny_constants h2 None ([] @ sent [SetDataBuffer 4, DataReceived 0 4 0])"
    by (rule flow.read_data [OF run _ _ r]) simp_all
  ultimately show ?thesis by auto
qed

theorem unacknowledged_data_is_kept_witness:
  "\<exists>h. flow tiny_constants h None [(0, 4)] \<and> pending_data_count h = 1"
proof -
  obtain h where "flow tiny_constants h None [(0, 4)]" using full_run by blast
  from unacknowledged_data_is_kept [OF tiny_constants_ok this] this show ?thesis by auto
qed

text \<open>C35. A loader that is held waits only for the renderer: some data is unacknowledged, and the
  next acknowledgement resumes the loader, which then gets memory again. So a run never stops
  with a held loader and an empty list of unacknowledged data.\<close>

theorem held_loader_is_resumed:
  assumes "constants_ok c" "flow c h reading un" "has_controller h"
  shows "un \<noteq> [] \<and> reading = None \<and> (\<exists>h'. OnDataReceivedACK h = Inr (h', [ControllerResume]) \<and>
    \<not> has_controller h' \<and> (\<exists>h'' seg. OnWillRead c True True h' = Inr (h'', [ControllerResume], Some seg)))"
proof -
  have ok: "flow_ok h reading un" by (rule flow_invariant [OF assms(1,2)])
  then obtain b told where b: "buffer_of h = Some b" "buffer_ok b" "segments b = told @ live reading"
    "covers told un" "reading = None" "CanAllocate b \<noteq> Inr True"
    using assms(3) by (auto simp: flow_ok_def split: option.splits if_splits)
  have "told \<noteq> []"
    using shm.room [OF b(2)] b(2,3,5,6) by (auto simp: live_def buffer_ok_def)
  then have un: "un \<noteq> []" using b(4) by (auto simp: covers_def)
  obtain h' out where ack: "OnDataReceivedACK h = Inr (h', out)" "flow_ok h' reading (tl un)"
    by (rule OnDataReceivedACK_ok [OF ok])
  have "out = [ControllerResume] \<and> \<not> has_controller h'"
  proof (rule ack_resumes [OF b(1,2) _ assms(3) ack(1)])
    show "segments b \<noteq> []" using b(3) \<open>told \<noteq> []\<close> by simp
    show "pending_data_count h \<noteq> 0" using ok un by (simp add: flow_ok_def)
  qed
  moreover have "\<exists>h'' seg. OnWillRead c True True h' = Inr (h'', [ControllerResume], Some seg)"
    if "\<not> has_controller h'"
    using OnWillRead_ok [OF assms(1), of h' "tl un"] ack(2) b(5) that by metis
  ultimately show ?thesis using ack(1) un b(5) by blast
qed

theorem held_loader_is_resumed_witness:
  "\<exists>h h'. flow tiny_constants h None [(0, 4)] \<and> OnDataReceivedACK h = Inr (h', [ControllerResume])"
proof -
  obtain h where "flow tiny_constants h None [(0, 4)]" "has_controller h" using full_run by blast
  from held_loader_is_resumed [OF tiny_constants_ok this] this show ?thesis by blast
qed

text \<open>
  A message that a redirect may be followed resumes the loader whatever it is held for. Sent
  while the buffer is full, it makes the next read fail the check in \<open>Allocate\<close>, which ends the
  browser process; \<open>full_run\<close> shows that such states are reached.
\<close>

lemma redirect_message_while_full:
  assumes "constants_ok c" "flow c h reading un" "has_controller h"
  shows "snd (OnFollowRedirect True h) = [ControllerResume] \<and>
    OnWillRead c True True (fst (OnFollowRedirect True h)) = Inl CheckFailed"
proof -
  have "flow_ok h reading un" by (rule flow_invariant [OF assms(1,2)])
  then obtain b where b: "buffer_of h = Some b" "buffer_ok b" "CanAllocate b \<noteq> Inr True"
    using assms(3) by (auto simp: flow_ok_def split: option.splits if_splits)
  then have "Allocate b = Inl CheckFailed"
    using shm.room [OF b(2)] by (simp add: Allocate_def check_def)
  then show ?thesis
    using b assms(3) by (auto simp: OnFollowRedirect_def ResumeIfDeferred_def OnWillRead_def
        CheckForSufficientResource_def EnsureResourceBufferIsInitialized_def with_buffer_def buffer_ok_def)
qed

end
