(* ===== verification/Cross_Site.thy ===== *)
theory Cross_Site
  imports Urls
begin

text \<open>
  Which responses from other sites a renderer would have to be protected from
  (\<open>common/cross_site_document_classifier.cc\<close>, \<open>child/site_isolation_stats_gatherer.cc\<close>): the type
  that the response claims, the sniffers that look at its first bytes, and the decision. A
  \<open>StringPiece\<close> is a string; the functions of \<open>base\<close> that compare strings without case are a
  parameter.
\<close>

subsection \<open>Types\<close>

record text_library =
  LowerCaseEqualsASCII :: "string \<Rightarrow> string \<Rightarrow> bool"
  StartsWithIgnoringCase :: "string \<Rightarrow> string \<Rightarrow> bool"

datatype CrossSiteDocumentMimeType = MIME_HTML | MIME_XML | MIME_JSON | MIME_PLAIN | MIME_OTHERS

datatype ResourceType =
    RESOURCE_TYPE_MAIN_FRAME | RESOURCE_TYPE_SUB_FRAME | RESOURCE_TYPE_STYLESHEET | RESOURCE_TYPE_SCRIPT
  | RESOURCE_TYPE_IMAGE | RESOURCE_TYPE_FONT_RESOURCE | RESOURCE_TYPE_SUB_RESOURCE | RESOURCE_TYPE_OBJECT
  | RESOURCE_TYPE_MEDIA | RESOURCE_TYPE_WORKER | RESOURCE_TYPE_SHARED_WORKER | RESOURCE_TYPE_PREFETCH
  | RESOURCE_TYPE_FAVICON | RESOURCE_TYPE_XHR | RESOURCE_TYPE_PING | RESOURCE_TYPE_SERVICE_WORKER
  | RESOURCE_TYPE_CSP_REPORT | RESOURCE_TYPE_PLUGIN_RESOURCE

record ResourceResponseInfo =
  mime_type :: string
  access_control_allow_origin :: string
  content_type_options :: string
  response_code :: int

record SiteIsolationResponseMetaData =
  response_url :: GURL
  resource_type :: ResourceType
  canonical_mime_type :: CrossSiteDocumentMimeType
  http_status_code :: int
  no_sniff :: bool

subsection \<open>Headers\<close>

definition GetCanonicalMimeType :: "text_library \<Rightarrow> string \<Rightarrow> CrossSiteDocumentMimeType" where
  "GetCanonicalMimeType tx mime =
     (if LowerCaseEqualsASCII tx mime ''text/html'' then MIME_HTML
      else if LowerCaseEqualsASCII tx mime ''text/plain'' then MIME_PLAIN
      else if LowerCaseEqualsASCII tx mime ''application/json'' \<or> LowerCaseEqualsASCII tx mime ''text/json'' \<or>
              LowerCaseEqualsASCII tx mime ''text/x-json'' then MIME_JSON
      else if LowerCaseEqualsASCII tx mime ''text/xml'' \<or> LowerCaseEqualsASCII tx mime ''application/rss+xml'' \<or>
              LowerCaseEqualsASCII tx mime ''application/xml'' then MIME_XML
      else MIME_OTHERS)"

definition IsBlockableScheme :: "GURL \<Rightarrow> bool" where
  "IsBlockableScheme url \<longleftrightarrow> SchemeIs url kHttpScheme \<or> SchemeIs url kHttpsScheme"

definition IsSameSite :: "url_library \<Rightarrow> Origin \<Rightarrow> GURL \<Rightarrow> bool" where
  "IsSameSite lb frame_origin url =
     (if unique frame_origin \<or> \<not> is_valid url then False
      else if origin_scheme frame_origin \<noteq> url_scheme url then False
      else SameDomainOrHost lb (Origin_of lb url) frame_origin)"

definition IsValidCorsHeaderSet :: "url_library \<Rightarrow> Origin \<Rightarrow> GURL \<Rightarrow> string \<Rightarrow> bool" where
  "IsValidCorsHeaderSet lb frame_origin website_origin access_control_origin =
     (if access_control_origin = ''*'' then True
      else IsSameSite lb frame_origin (parse_url lb access_control_origin))"

subsection \<open>Sniffers\<close>

definition is_space :: "char \<Rightarrow> bool" where
  "is_space c \<longleftrightarrow> c \<in> {CHR '' '', CHR 0x09, CHR 0x0D, CHR 0x0A}"

text \<open>\<open>StringPiece::find_first_not_of\<close> with \<open>remove_prefix\<close>, and \<open>StringPiece::find\<close>.\<close>

definition skip_space :: "string \<Rightarrow> string" where
  "skip_space data = dropWhile is_space data"

fun find_string :: "string \<Rightarrow> string \<Rightarrow> nat option" where
  "find_string pat [] = (if pat = [] then Some 0 else None)"
| "find_string pat (c # cs) =
     (if take (length pat) (c # cs) = pat then Some 0 else map_option Suc (find_string pat cs))"

definition MatchesSignature :: "text_library \<Rightarrow> string \<Rightarrow> string list \<Rightarrow> bool" where
  "MatchesSignature tx data signatures =
     (let data1 = skip_space data
      in if data1 = [] then False
         else (\<exists>signature \<in> set signatures. StartsWithIgnoringCase tx data1 signature))"

definition kHtmlSignatures :: "string list" where
  "kHtmlSignatures =
     [''<!doctype html'', ''<script'', ''<html'', ''<head'', ''<iframe'', ''<h1'', ''<div'', ''<font'',
      ''<table'', ''<a'', ''<style'', ''<title'', ''<b'', ''<body'', ''<br'', ''<p'']"

definition kCommentBegins :: "string list" where
  "kCommentBegins = [''<!--'']"

definition kEndComment :: string where
  "kEndComment = ''-->''"

function SniffForHTML :: "text_library \<Rightarrow> string \<Rightarrow> bool" where
  "SniffForHTML tx data =
     (if data = [] then False
      else if MatchesSignature tx data kHtmlSignatures then True
      else if \<not> MatchesSignature tx data kCommentBegins then False
      else (case find_string kEndComment data of
              None \<Rightarrow> False
            | Some offset \<Rightarrow> SniffForHTML tx (drop (offset + length kEndComment) data)))"
  by auto

termination
  by (relation "measure (\<lambda>(tx, data). length data)") (auto simp: kEndComment_def)

declare SniffForHTML.simps [simp del]

definition SniffForXML :: "text_library \<Rightarrow> string \<Rightarrow> bool" where
  "SniffForXML tx data = MatchesSignature tx data [''<?xml'']"

datatype json_state = kStartState | kLeftBraceState | kLeftQuoteState | kColonState | kTerminalState

text \<open>The loop runs while the state is below \<open>kColonState\<close>.\<close>

fun json_step :: "json_state \<Rightarrow> char \<Rightarrow> json_state" where
  "json_step kStartState c = (if c = CHR ''{'' then kLeftBraceState else kTerminalState)"
| "json_step kLeftBraceState c = (if c = CHR 0x22 \<or> c = CHR 0x27 then kLeftQuoteState else kTerminalState)"
| "json_step kLeftQuoteState c = (if c = CHR '':'' then kColonState else kLeftQuoteState)"
| "json_step s c = s"

fun json_loop :: "json_state \<Rightarrow> string \<Rightarrow> json_state" where
  "json_loop s [] = s"
| "json_loop s (c # cs) =
     (if s = kColonState \<or> s = kTerminalState then s
      else if is_space c then json_loop s cs
      else json_loop (json_step s c) cs)"

definition SniffForJSON :: "string \<Rightarrow> bool" where
  "SniffForJSON data \<longleftrightarrow> json_loop kStartState data = kColonState"

definition SniffForJS :: "string \<Rightarrow> bool" where
  "SniffForJS data \<longleftrightarrow> find_string ''var '' data \<noteq> None"

subsection \<open>The decision and its statistics\<close>

text \<open>Histograms are recorded under their names; an enumeration has its sample.\<close>

datatype histogram = Count string | Enumeration string ResourceType

definition renderable_status_code :: "int list" where
  "renderable_status_code = [200, 201, 202, 203, 206, 300, 301, 302, 303, 305, 306, 307]"

definition IsRenderableStatusCode :: "int \<Rightarrow> bool" where
  "IsRenderableStatusCode status_code \<longleftrightarrow> status_code \<in> set renderable_status_code"

definition HistogramCountBlockedResponse :: "string \<Rightarrow> SiteIsolationResponseMetaData \<Rightarrow> bool \<Rightarrow> histogram list" where
  "HistogramCountBlockedResponse bucket_prefix resp_data nosniff_block =
     (let block_label = (if nosniff_block then ''.NoSniffBlocked'' else ''.Blocked'')
      in Count (bucket_prefix @ block_label) #
         (if IsRenderableStatusCode (http_status_code resp_data)
          then [Enumeration (bucket_prefix @ block_label @ ''.RenderableStatusCode2'') (resource_type resp_data)]
          else [Count (bucket_prefix @ block_label @ ''.NonRenderableStatusCode'')]))"

definition HistogramCountNotBlockedResponse :: "string \<Rightarrow> bool \<Rightarrow> histogram list" where
  "HistogramCountNotBlockedResponse bucket_prefix sniffed_as_js =
     Count (bucket_prefix @ ''.NotBlocked'') #
     (if sniffed_as_js then [Count (bucket_prefix @ ''.NotBlocked.MaybeJS'')] else [])"

definition IsResourceTypeFrame :: "ResourceType \<Rightarrow> bool" where
  "IsResourceTypeFrame type \<longleftrightarrow> type = RESOURCE_TYPE_MAIN_FRAME \<or> type = RESOURCE_TYPE_SUB_FRAME"

definition OnReceivedResponse ::
  "url_library \<Rightarrow> text_library \<Rightarrow> bool \<Rightarrow> Origin \<Rightarrow> GURL \<Rightarrow> ResourceType \<Rightarrow> int \<Rightarrow> ResourceResponseInfo \<Rightarrow>
   SiteIsolationResponseMetaData option" where
  "OnReceivedResponse lb tx stats_gathering_enabled frame_origin url type origin_pid info =
     (if \<not> stats_gathering_enabled then None
      else if origin_pid \<noteq> 0 then None
      else if IsResourceTypeFrame type then None
      else if \<not> IsBlockableScheme url then None
      else if IsSameSite lb frame_origin url then None
      else if GetCanonicalMimeType tx (mime_type info) = MIME_OTHERS then None
      else if IsValidCorsHeaderSet lb frame_origin url (access_control_allow_origin info) then None
      else Some \<lparr>response_url = url, resource_type = type,
                 canonical_mime_type = GetCanonicalMimeType tx (mime_type info),
                 http_status_code = response_code info,
                 no_sniff = LowerCaseEqualsASCII tx (content_type_options info) ''nosniff''\<rparr>)"

text \<open>The type of the response picks the sniffer; plain text is tried with each in turn.\<close>

definition sniffed_as_target :: "text_library \<Rightarrow> CrossSiteDocumentMimeType \<Rightarrow> string \<Rightarrow> string \<times> bool" where
  "sniffed_as_target tx mime data =
     (case mime of
        MIME_HTML \<Rightarrow> (''SiteIsolation.XSD.HTML'', SniffForHTML tx data)
      | MIME_XML \<Rightarrow> (''SiteIsolation.XSD.XML'', SniffForXML tx data)
      | MIME_JSON \<Rightarrow> (''SiteIsolation.XSD.JSON'', SniffForJSON data)
      | _ \<Rightarrow> ([], False))"

definition plain_bucket :: "text_library \<Rightarrow> string \<Rightarrow> string" where
  "plain_bucket tx data =
     (if SniffForHTML tx data then ''SiteIsolation.XSD.Plain.HTML''
      else if SniffForXML tx data then ''SiteIsolation.XSD.Plain.XML''
      else if SniffForJSON data then ''SiteIsolation.XSD.Plain.JSON''
      else [])"

definition OnReceivedFirstChunk ::
  "text_library \<Rightarrow> bool \<Rightarrow> SiteIsolationResponseMetaData \<Rightarrow> string \<Rightarrow> bool \<times> histogram list" where
  "OnReceivedFirstChunk tx stats_gathering_enabled resp_data data =
     (if \<not> stats_gathering_enabled then (False, [])
      else
        let sniffed_as_js = SniffForJS data
        in if canonical_mime_type resp_data \<noteq> MIME_PLAIN
           then (let (bucket_prefix, sniffed) = sniffed_as_target tx (canonical_mime_type resp_data) data
                 in if sniffed then (True, HistogramCountBlockedResponse bucket_prefix resp_data False)
                    else if no_sniff resp_data then (True, HistogramCountBlockedResponse bucket_prefix resp_data True)
                    else (False, HistogramCountNotBlockedResponse bucket_prefix sniffed_as_js))
           else (let bucket_prefix = plain_bucket tx data
                 in if bucket_prefix \<noteq> [] then (True, HistogramCountBlockedResponse bucket_prefix resp_data False)
                    else if no_sniff resp_data
                    then (True, HistogramCountBlockedResponse ''SiteIsolation.XSD.Plain'' resp_data True)
                    else (False, HistogramCountNotBlockedResponse ''SiteIsolation.XSD.Plain'' sniffed_as_js)))"

end
