(* ===== verification/Cross_Site_Properties.thy ===== *)
theory Cross_Site_Properties
  imports Cross_Site
begin

text \<open>
  What the sniffers accept, as languages, and which responses the decision singles out.
\<close>

subsection \<open>Searching\<close>

lemma find_string_fits: "find_string pat s = Some n \<Longrightarrow> n + length pat \<le> length s"
proof (induction pat s arbitrary: n rule: find_string.induct)
  case (2 pat c cs)
  show ?case
  proof (cases "take (length pat) (c # cs) = pat")
    case True
    then have "length pat = min (length (c # cs)) (length pat)" by (metis length_take)
    then show ?thesis using 2(2) True by simp
  next
    case False
    then show ?thesis using 2 by auto
  qed
qed (simp split: if_splits)

lemma find_string_append: "find_string pat s = Some n \<Longrightarrow> find_string pat (s @ t) = Some n"
proof (induction pat s arbitrary: n rule: find_string.induct)
  case (1 pat)
  then have "pat = []" "n = 0" by (auto split: if_splits)
  then show ?case by (cases t) simp_all
next
  case (2 pat c cs)
  have "length pat \<le> length (c # cs)" using find_string_fits [OF 2(2)] by simp
  then have "take (length pat) ((c # cs) @ t) = take (length pat) (c # cs)"
    by (simp only: take_append) simp
  then show ?case using 2 by (auto split: if_splits)
qed

lemma find_string_take: "find_string pat s = Some n \<Longrightarrow> find_string pat (take (n + length pat) s) = Some n"
proof (induction pat s arbitrary: n rule: find_string.induct)
  case (2 pat c cs)
  show ?case
  proof (cases "take (length pat) (c # cs) = pat")
    case True
    then have n: "n = 0" using 2(2) by simp
    show ?thesis
    proof (cases pat)
      case Nil
      then show ?thesis using n by simp
    next
      case (Cons p ps)
      then have "take (length pat) (take (length pat) (c # cs)) = pat" using True by simp
      then show ?thesis using n Cons True by (simp add: take_Cons')
    qed
  next
    case False
    then obtain m where m: "find_string pat cs = Some m" "n = Suc m" using 2(2) by auto
    have "take (length pat) (c # take (m + length pat) cs) = take (length pat) (c # cs)"
      by (cases "length pat") simp_all
    then show ?thesis using 2(1) [OF False m(1)] False m by simp
  qed
qed (simp split: if_splits)

subsection \<open>JSON\<close>

lemma json_loop_stop: "s = kColonState \<or> s = kTerminalState \<Longrightarrow> json_loop s cs = s"
  by (cases cs) auto

lemma json_quote: "json_loop kLeftQuoteState cs = kColonState \<longleftrightarrow> CHR '':'' \<in> set cs"
proof (induction cs)
  case (Cons c cs)
  then show ?case by (cases "c = CHR '':''") (auto simp: json_loop_stop is_space_def)
qed simp

lemma json_brace:
  "json_loop kLeftBraceState cs = kColonState \<longleftrightarrow>
   (\<exists>q rest. filter (\<lambda>c. \<not> is_space c) cs = q # rest \<and> q \<in> {CHR 0x22, CHR 0x27} \<and> CHR '':'' \<in> set rest)"
proof (induction cs)
  case (Cons c cs)
  show ?case
  proof (cases "is_space c")
    case True
    then show ?thesis using Cons by simp
  next
    case False
    have "CHR '':'' \<in> set (filter (\<lambda>c. \<not> is_space c) cs) \<longleftrightarrow> CHR '':'' \<in> set cs" by (auto simp: is_space_def)
    then show ?thesis using False by (auto simp: json_quote json_loop_stop)
  qed
qed simp

text \<open>The language of the JSON sniffer. A text is taken for JSON exactly if, white space left out,
  it starts with a left brace and a single or double quote and has a colon after that.\<close>

lemma json_sniffer_language:
  "SniffForJSON data \<longleftrightarrow>
   (\<exists>q rest. filter (\<lambda>c. \<not> is_space c) data = CHR ''{'' # q # rest \<and> q \<in> {CHR 0x22, CHR 0x27} \<and> CHR '':'' \<in> set rest)"
proof -
  have "json_loop kStartState cs = kColonState \<longleftrightarrow>
      (\<exists>rest. filter (\<lambda>c. \<not> is_space c) cs = CHR ''{'' # rest \<and>
         (\<exists>q more. rest = q # more \<and> q \<in> {CHR 0x22, CHR 0x27} \<and> CHR '':'' \<in> set more))" for cs
  proof (induction cs)
    case (Cons c cs)
    show ?case
    proof (cases "is_space c")
      case True
      then show ?thesis using Cons by simp
    next
      case False
      then show ?thesis by (auto simp: json_brace json_loop_stop)
    qed
  qed simp
  then show ?thesis unfolding SniffForJSON_def by (simp; blast)
qed

subsection \<open>HTML\<close>

text \<open>The documented behaviour of the comparison: letters match whatever their case.\<close>

definition ascii_lower :: "char \<Rightarrow> char" where
  "ascii_lower c = (if 65 \<le> (of_char c :: nat) \<and> (of_char c :: nat) \<le> 90 then char_of (of_char c + 32 :: nat) else c)"

definition starts_ignoring_case :: "string \<Rightarrow> string \<Rightarrow> bool" where
  "starts_ignoring_case s t \<longleftrightarrow> map ascii_lower (take (length t) s) = map ascii_lower t"

definition html_comment :: "string \<Rightarrow> bool" where
  "html_comment c \<longleftrightarrow> starts_ignoring_case (skip_space c) ''<!--'' \<and> find_string ''-->'' c = Some (length c - 3)"

definition opens_html :: "string \<Rightarrow> bool" where
  "opens_html body \<longleftrightarrow> (\<exists>tag \<in> set kHtmlSignatures. starts_ignoring_case (skip_space body) tag)"

definition compares_ignoring_case :: "text_library \<Rightarrow> bool" where
  "compares_ignoring_case tx \<longleftrightarrow> (\<forall>s t. StartsWithIgnoringCase tx s t = starts_ignoring_case s t)"

lemma Matches_iff:
  assumes "compares_ignoring_case tx" "\<forall>t \<in> set sigs. t \<noteq> []"
  shows "MatchesSignature tx data sigs \<longleftrightarrow> (\<exists>t \<in> set sigs. starts_ignoring_case (skip_space data) t)"
proof -
  have "\<not> starts_ignoring_case [] t" if "t \<in> set sigs" for t
    using assms(2) that by (auto simp: starts_ignoring_case_def)
  then show ?thesis using assms(1)
    by (auto simp: MatchesSignature_def compares_ignoring_case_def Let_def)
qed

lemma starts_append: "length t \<le> length s \<Longrightarrow> starts_ignoring_case (s @ u) t = starts_ignoring_case s t"
  by (simp add: starts_ignoring_case_def)

lemma starts_length: "starts_ignoring_case s t \<Longrightarrow> length t \<le> length s"
  unfolding starts_ignoring_case_def by (metis length_map length_take min.cobounded1)

lemma skip_space_append: "skip_space s \<noteq> [] \<Longrightarrow> skip_space (s @ t) = skip_space s @ t"
  unfolding skip_space_def by (induction s) auto

lemma comment_nonempty: "html_comment c \<Longrightarrow> skip_space c \<noteq> []"
  using starts_length by (fastforce simp: html_comment_def)

lemma comment_append:
  assumes "html_comment c"
  shows "starts_ignoring_case (skip_space (c @ d)) ''<!--''" "find_string ''-->'' (c @ d) = Some (length c - 3)"
    "3 \<le> length c"
proof -
  have "length ''<!--'' \<le> length (skip_space c)"
    using assms by (intro starts_length) (simp add: html_comment_def)
  then show "starts_ignoring_case (skip_space (c @ d)) ''<!--''"
    using assms comment_nonempty [OF assms] starts_append [of "''<!--''" "skip_space c" d]
    by (simp add: skip_space_append html_comment_def)
  show "find_string ''-->'' (c @ d) = Some (length c - 3)" "3 \<le> length c"
    using assms find_string_append [of "''-->''" c] find_string_fits [of "''-->''" c]
    by (auto simp: html_comment_def)
qed

lemma found_there: "find_string pat s = Some n \<Longrightarrow> take (length pat) (drop n s) = pat"
  by (induction pat s arbitrary: n rule: find_string.induct) (auto split: if_splits)

text \<open>A prefix up to the first end of a comment that opens as one is a comment.\<close>

lemma comment_prefix:
  assumes "starts_ignoring_case (skip_space data) ''<!--''" "find_string ''-->'' data = Some off"
  shows "html_comment (take (off + 3) data)"
proof -
  define ws where "ws = takeWhile is_space data"
  define w where "w = skip_space data"
  have data: "data = ws @ w" by (simp add: ws_def w_def skip_space_def)
  have starts: "starts_ignoring_case w ''<!--''" using assms(1) by (simp add: w_def)
  have len: "4 \<le> length w" using starts_length [OF starts] by simp
  then obtain c1 c2 rest where w: "w = c1 # c2 # rest"
    by (cases w; cases "tl w") auto
  have "ascii_lower c1 = ascii_lower (CHR ''<'')" "ascii_lower c2 = ascii_lower (CHR ''!'')"
    using starts by (simp_all add: starts_ignoring_case_def w numeral_eq_Suc)
  moreover have "ascii_lower (CHR ''<'') \<noteq> ascii_lower (CHR ''-'')" "ascii_lower (CHR ''!'') \<noteq> ascii_lower (CHR ''-'')"
    by code_simp+
  ultimately have no_dash: "c1 \<noteq> CHR ''-''" "c2 \<noteq> CHR ''-''" by auto
  have "take 3 (drop off data) = ''-->''" using found_there [OF assms(2)] by (simp add: numeral_3_eq_3)
  then obtain r where r: "drop off data = CHR ''-'' # r" by (cases "drop off data") (auto simp: numeral_3_eq_3)
  then have "off < length data" by (metis drop_all list.distinct(1) not_le_imp_less)
  with r have dash: "off < length data" "data ! off = CHR ''-''" by (simp_all add: nth_via_drop)
  have spaces: "is_space c" if "c \<in> set ws" for c using that by (auto simp: ws_def dest: set_takeWhileD)
  have "length ws \<le> off"
  proof (rule ccontr)
    assume "\<not> length ws \<le> off"
    then have "is_space (CHR ''-'')" using dash spaces [of "ws ! off"] nth_mem [of off ws] by (simp add: data nth_append)
    then show False by (simp add: is_space_def)
  qed
  moreover have "off \<noteq> length ws" "off \<noteq> Suc (length ws)"
    using dash no_dash by (auto simp: data nth_append w)
  ultimately have off: "length ws + 2 \<le> off" by simp
  then have "take (off + 3) data = ws @ take (off + 3 - length ws) w" by (simp add: data)
  moreover have "w \<noteq> []" using len by auto
  moreover have "\<not> is_space (hd w)"
    using hd_dropWhile [of is_space data] \<open>w \<noteq> []\<close> unfolding w_def skip_space_def by blast
  ultimately have skip: "skip_space (take (off + 3) data) = take (off + 3 - length ws) w"
    using off spaces by (cases w) (auto simp: skip_space_def dropWhile_append1 dropWhile_append2 take_Cons')
  have "starts_ignoring_case (take (off + 3 - length ws) w) ''<!--''"
    using starts off len by (simp add: starts_ignoring_case_def min_def)
  moreover have "find_string ''-->'' (take (off + 3) data) = Some off"
    using find_string_take [OF assms(2)] by (simp add: numeral_3_eq_3)
  moreover have "off + 3 \<le> length data" using find_string_fits [OF assms(2)] by simp
  ultimately show ?thesis by (simp add: html_comment_def skip)
qed

lemma html_signatures_nonempty:
  "\<forall>t \<in> set kHtmlSignatures. t \<noteq> []" "\<forall>t \<in> set kCommentBegins. t \<noteq> []"
  by (simp_all add: kHtmlSignatures_def kCommentBegins_def)

lemma Matches_html:
  "compares_ignoring_case tx \<Longrightarrow> MatchesSignature tx d kHtmlSignatures \<longleftrightarrow> opens_html d"
  using Matches_iff [OF _ html_signatures_nonempty(1)] by (simp add: opens_html_def)

lemma Matches_comment:
  "compares_ignoring_case tx \<Longrightarrow>
   MatchesSignature tx d kCommentBegins \<longleftrightarrow> starts_ignoring_case (skip_space d) ''<!--''"
  using Matches_iff [OF _ html_signatures_nonempty(2)] by (simp add: kCommentBegins_def)

lemma sniffed_html_splits:
  assumes "compares_ignoring_case tx" "SniffForHTML tx data"
  shows "\<exists>comments body. data = concat comments @ body \<and> (\<forall>c \<in> set comments. html_comment c) \<and> opens_html body"
  using assms(2)
proof (induction "length data" arbitrary: data rule: less_induct)
  case less
  show ?case
  proof (cases "opens_html data")
    case True
    then show ?thesis by (intro exI [of _ "[]"] exI [of _ data]) simp
  next
    case False
    obtain off where off: "find_string kEndComment data = Some off" "data \<noteq> []"
      and c: "starts_ignoring_case (skip_space data) ''<!--''"
      and rest: "SniffForHTML tx (drop (off + length kEndComment) data)"
      using less(2) False unfolding SniffForHTML.simps [of tx data]
      by (auto simp: Matches_html [OF assms(1)] Matches_comment [OF assms(1)] split: if_splits option.splits)
    have "length (drop (off + length kEndComment) data) < length data" using off(2) by (simp add: kEndComment_def)
    from less(1) [OF this rest] obtain cs body where
      rec: "drop (off + 3) data = concat cs @ body" "\<forall>c \<in> set cs. html_comment c" "opens_html body"
      by (auto simp: kEndComment_def numeral_3_eq_3)
    have "html_comment (take (off + 3) data)"
      using comment_prefix [OF c] off(1) by (simp add: kEndComment_def)
    moreover have "data = concat (take (off + 3) data # cs) @ body"
      using append_take_drop_id [of "off + 3" data] rec(1) by simp
    ultimately show ?thesis using rec by (intro exI [of _ "take (off + 3) data # cs"] exI [of _ body]) auto
  qed
qed

lemma comments_are_skipped:
  assumes "compares_ignoring_case tx" "\<forall>c \<in> set cs. html_comment c" "opens_html body"
  shows "SniffForHTML tx (concat cs @ body)"
  using assms(2)
proof (induction cs)
  case Nil
  have "body \<noteq> []"
    using assms(3) by (auto simp: opens_html_def starts_ignoring_case_def skip_space_def kHtmlSignatures_def)
  then show ?case using assms(3) by (simp add: SniffForHTML.simps [of tx body] Matches_html [OF assms(1)])
next
  case (Cons c cs)
  let ?d = "concat cs @ body"
  note C = comment_append
  have c: "html_comment c" using Cons.prems by simp
  have "drop (length c - 3 + length kEndComment) (c @ ?d) = ?d" using C(3) [OF c] by (simp add: kEndComment_def)
  moreover have "c \<noteq> []" using C(3) [OF c] by auto
  ultimately show ?case
    using Cons C(1) [OF c, of ?d] C(2) [OF c, of ?d]
    by (simp add: SniffForHTML.simps [of tx "c @ ?d"] Matches_comment [OF assms(1)] kEndComment_def)
qed

text \<open>C37. The language of the HTML sniffer. A text is taken for HTML exactly if it consists of any
  number of HTML comments, each up to its first end and with white space before it, followed by
  white space and one of the tags, in letters of any case.\<close>

theorem html_sniffer_language:
  assumes "compares_ignoring_case tx"
  shows "SniffForHTML tx data \<longleftrightarrow>
    (\<exists>comments body. data = concat comments @ body \<and> (\<forall>c \<in> set comments. html_comment c) \<and> opens_html body)"
  using sniffed_html_splits [OF assms] comments_are_skipped [OF assms] by blast

definition example_text_library :: text_library where
  "example_text_library = \<lparr>LowerCaseEqualsASCII = (\<lambda>s t. map ascii_lower s = t),
     StartsWithIgnoringCase = starts_ignoring_case\<rparr>"

theorem html_sniffer_language_witness:
  "compares_ignoring_case example_text_library \<and>
   SniffForHTML example_text_library '' <!-- a --> <!--> <BODY>''"
proof -
  have ok: "compares_ignoring_case example_text_library"
    by (simp add: compares_ignoring_case_def example_text_library_def)
  have "'' <!-- a --> <!--> <BODY>'' = concat ['' <!-- a -->'', '' <!-->''] @ '' <BODY>''"
    "\<forall>c \<in> set ['' <!-- a -->'', '' <!-->'']. html_comment c" "opens_html '' <BODY>''"
    by code_simp+
  then have "\<exists>comments body. '' <!-- a --> <!--> <BODY>'' = concat comments @ body \<and>
      (\<forall>c \<in> set comments. html_comment c) \<and> opens_html body"
    by blast
  then show ?thesis using html_sniffer_language [OF ok, of "'' <!-- a --> <!--> <BODY>''"] ok by blast
qed

subsection \<open>The decision\<close>

definition document_sniffed :: "text_library \<Rightarrow> CrossSiteDocumentMimeType \<Rightarrow> string \<Rightarrow> bool" where
  "document_sniffed tx mime data \<longleftrightarrow>
     (mime \<in> {MIME_HTML, MIME_PLAIN} \<and> SniffForHTML tx data) \<or>
     (mime \<in> {MIME_XML, MIME_PLAIN} \<and> SniffForXML tx data) \<or>
     (mime \<in> {MIME_JSON, MIME_PLAIN} \<and> SniffForJSON data)"

definition would_block ::
  "url_library \<Rightarrow> text_library \<Rightarrow> Origin \<Rightarrow> GURL \<Rightarrow> ResourceType \<Rightarrow> int \<Rightarrow> ResourceResponseInfo \<Rightarrow> string \<Rightarrow> bool" where
  "would_block lb tx frame_origin url type origin_pid info data =
     (case OnReceivedResponse lb tx True frame_origin url type origin_pid info of
        None \<Rightarrow> False
      | Some resp_data \<Rightarrow> fst (OnReceivedFirstChunk tx True resp_data data))"

text \<open>C36. Which responses are singled out. With the gathering enabled, a response is marked as one to
  block exactly if it is not for a plugin and not a frame's document, its address has a web
  scheme and is of another site, its type is a document type, its CORS header does not open it
  to the frame's site, and it either says nosniff or its first bytes are those of a document of
  the type it claims, of any of the types if it claims to be plain text.\<close>

theorem blocked_exactly:
  "would_block lb tx frame_origin url type origin_pid info data \<longleftrightarrow>
     origin_pid = 0 \<and> type \<noteq> RESOURCE_TYPE_MAIN_FRAME \<and> type \<noteq> RESOURCE_TYPE_SUB_FRAME \<and>
     (SchemeIs url kHttpScheme \<or> SchemeIs url kHttpsScheme) \<and>
     \<not> (\<not> unique frame_origin \<and> is_valid url \<and> origin_scheme frame_origin = url_scheme url \<and>
        SameDomainOrHost lb (Origin_of lb url) frame_origin) \<and>
     GetCanonicalMimeType tx (mime_type info) \<noteq> MIME_OTHERS \<and>
     access_control_allow_origin info \<noteq> ''*'' \<and>
     \<not> IsSameSite lb frame_origin (parse_url lb (access_control_allow_origin info)) \<and>
     (LowerCaseEqualsASCII tx (content_type_options info) ''nosniff'' \<or>
        document_sniffed tx (GetCanonicalMimeType tx (mime_type info)) data)"
proof -
  let ?mime = "GetCanonicalMimeType tx (mime_type info)"
  have chunk: "fst (OnReceivedFirstChunk tx True m data) \<longleftrightarrow>
      no_sniff m \<or> document_sniffed tx (canonical_mime_type m) data"
    if "canonical_mime_type m \<noteq> MIME_OTHERS" for m
    using that
    by (cases "canonical_mime_type m")
      (auto simp: OnReceivedFirstChunk_def sniffed_as_target_def plain_bucket_def document_sniffed_def Let_def)
  show ?thesis
  proof (cases "OnReceivedResponse lb tx True frame_origin url type origin_pid info")
    case None
    then show ?thesis
      by (auto simp: would_block_def OnReceivedResponse_def IsResourceTypeFrame_def IsBlockableScheme_def
          IsValidCorsHeaderSet_def IsSameSite_def split: if_splits)
  next
    case (Some m)
    then have m: "canonical_mime_type m = ?mime" "?mime \<noteq> MIME_OTHERS"
      "no_sniff m = LowerCaseEqualsASCII tx (content_type_options info) ''nosniff''"
      by (auto simp: OnReceivedResponse_def split: if_splits)
    have "would_block lb tx frame_origin url type origin_pid info data
        = fst (OnReceivedFirstChunk tx True m data)"
      using Some by (simp add: would_block_def)
    then show ?thesis using chunk [of m] m Some
      by (auto simp: OnReceivedResponse_def IsResourceTypeFrame_def IsBlockableScheme_def
          IsValidCorsHeaderSet_def IsSameSite_def split: if_splits)
  qed
qed

end
