(* ===== verification/Event_Validators.thy ===== *)
theory Event_Validators
  imports Prelude
begin

text \<open>
  The validators of the streams of gesture and touch events
  (\<open>common/input/gesture_event_stream_validator.cc\<close>, \<open>touch_event_stream_validator.cc\<close>,
  \<open>web_touch_event_traits.cc\<close>). The event types of Blink are data types; the names that
  \<open>WebInputEvent\<close> gives them and its division into gesture and touch events are a parameter.
\<close>

subsection \<open>Events\<close>

datatype EventType =
    kGestureScrollBegin | kGestureScrollUpdate | kGestureScrollEnd | kGestureFlingStart | kGestureFlingCancel
  | kGesturePinchBegin | kGesturePinchUpdate | kGesturePinchEnd
  | kGestureTapDown | kGestureShowPress | kGestureTap | kGestureTapUnconfirmed | kGestureTapCancel
  | kGestureDoubleTap | kGestureTwoFingerTap | kGestureLongPress | kGestureLongTap
  | kTouchStart | kTouchMove | kTouchEnd | kTouchCancel | kTouchScrollStarted
  | kOtherEvent nat

record event_library =
  GetName :: "EventType \<Rightarrow> string"
  IsGestureEventType :: "EventType \<Rightarrow> bool"
  IsTouchEventType :: "EventType \<Rightarrow> bool"

datatype GestureDevice = DeviceUninitialized | DeviceTouchpad | DeviceTouchscreen

text \<open>The bits of a \<open>float\<close>; the sign does not matter for zero.\<close>

type_synonym float32 = "32 word"

definition float_zero :: "float32 \<Rightarrow> bool" where
  "float_zero x \<longleftrightarrow> x AND 0x7FFFFFFF = 0"

text \<open>The union of the data of the types is flat, a field for each; what only the functions of \<open>ui\<close> read
  is the last one.\<close>

record WebGestureEvent =
  gesture_type :: EventType
  source_device :: GestureDevice
  pointer_count :: int
  delta_x_hint :: float32
  delta_y_hint :: float32
  scroll_begin_synthetic :: bool
  scroll_delta_x :: float32
  scroll_delta_y :: float32
  scroll_velocity_x :: float32
  scroll_velocity_y :: float32
  scroll_end_synthetic :: bool
  fling_velocity_x :: float32
  fling_velocity_y :: float32
  other_gesture_data :: nat

definition fling_velocity_zero :: "WebGestureEvent \<Rightarrow> bool" where
  "fling_velocity_zero e \<longleftrightarrow> float_zero (fling_velocity_x e) \<and> float_zero (fling_velocity_y e)"

subsection \<open>Gestures\<close>

record GestureEventStreamValidator =
  scrolling :: bool
  pinching :: bool
  waiting_for_tap_end :: bool

definition GestureEventStreamValidator_new :: GestureEventStreamValidator where
  "GestureEventStreamValidator_new = \<lparr>scrolling = False, pinching = False, waiting_for_tap_end = False\<rparr>"

definition newline :: string where
  "newline = [CHR 0x0A]"

definition complain :: "bool \<Rightarrow> string \<Rightarrow> string" where
  "complain b msg = (if b then msg @ newline else [])"

text \<open>The switch over the type of the event: the message and the new state.\<close>

fun gesture_step :: "WebGestureEvent \<Rightarrow> EventType \<Rightarrow> GestureEventStreamValidator \<Rightarrow> string \<times> GestureEventStreamValidator" where
  "gesture_step e kGestureScrollBegin v =
     (complain (scrolling v) ''Scroll begin during scroll'' @ complain (pinching v) ''Scroll begin during pinch'',
      v\<lparr>scrolling := True\<rparr>)"
| "gesture_step e kGestureScrollUpdate v = (complain (\<not> scrolling v) ''Scroll update outside of scroll'', v)"
| "gesture_step e kGestureFlingStart v =
     (complain (source_device e = DeviceTouchscreen \<and> fling_velocity_zero e) ''Zero velocity touchscreen fling'' @
      complain (\<not> scrolling v) ''Fling start outside of scroll'' @
      complain (pinching v) ''Flinging while pinching'',
      v\<lparr>scrolling := False\<rparr>)"
| "gesture_step e kGestureScrollEnd v =
     (complain (\<not> scrolling v) ''Scroll end outside of scroll'' @
      complain (pinching v) ''Ending scroll while pinching'',
      v\<lparr>scrolling := False\<rparr>)"
| "gesture_step e kGesturePinchBegin v =
     (complain (pinching v) ''Pinch begin during pinch'', v\<lparr>pinching := True\<rparr>)"
| "gesture_step e kGesturePinchUpdate v = (complain (\<not> pinching v) ''Pinch update outside of pinch'', v)"
| "gesture_step e kGesturePinchEnd v =
     (complain (\<not> pinching v) ''Pinch end outside of pinch'', v\<lparr>pinching := False\<rparr>)"
| "gesture_step e kGestureTapDown v =
     (complain (waiting_for_tap_end v) ''Missing tap ending event before TapDown'', v\<lparr>waiting_for_tap_end := True\<rparr>)"
| "gesture_step e kGestureTapUnconfirmed v =
     (complain (\<not> waiting_for_tap_end v) ''Missing TapDown event before TapUnconfirmed'', v)"
| "gesture_step e kGestureTapCancel v =
     (complain (\<not> waiting_for_tap_end v) ''Missing TapDown event before TapCancel'', v\<lparr>waiting_for_tap_end := False\<rparr>)"
| "gesture_step e kGestureTap v =
     (complain (\<not> waiting_for_tap_end v) ''Missing TapDown event before Tap'', v\<lparr>waiting_for_tap_end := False\<rparr>)"
| "gesture_step e kGestureDoubleTap v = ([], v\<lparr>waiting_for_tap_end := False\<rparr>)"
| "gesture_step e t v = ([], v)"

definition Gesture_Validate ::
  "event_library \<Rightarrow> WebGestureEvent \<Rightarrow> GestureEventStreamValidator \<Rightarrow>
   bool \<times> string \<times> GestureEventStreamValidator" where
  "Gesture_Validate el event v =
     (let invalid = (if \<not> IsGestureEventType el (gesture_type event)
                     then ''Invalid gesture type: '' @ GetName el (gesture_type event) else []);
          (msg, v1) = gesture_step event (gesture_type event) v;
          uninitialized = complain (source_device event = DeviceUninitialized) ''Gesture event source is uninitialized.'';
          error_msg = invalid @ msg @ uninitialized
      in (error_msg = [], error_msg, v1))"

subsection \<open>Touches\<close>

datatype TouchState = StateUndefined | StateReleased | StatePressed | StateMoved | StateStationary | StateCancelled

record WebTouchPoint =
  point_id :: int
  point_state :: TouchState

datatype DispatchType = kBlocking | kEventNonBlocking

record WebTouchEvent =
  touch_type :: EventType
  touches :: "WebTouchPoint list"
  dispatch_type :: DispatchType
  time_stamp :: int

definition WebTouchEvent_new :: WebTouchEvent where
  "WebTouchEvent_new = \<lparr>touch_type = kOtherEvent 0, touches = [], dispatch_type = kBlocking, time_stamp = 0\<rparr>"

fun AllTouchPointsHaveState_loop :: "WebTouchPoint list \<Rightarrow> TouchState \<Rightarrow> bool" where
  "AllTouchPointsHaveState_loop [] s = True"
| "AllTouchPointsHaveState_loop (p # ps) s = (if point_state p \<noteq> s then False else AllTouchPointsHaveState_loop ps s)"

definition AllTouchPointsHaveState :: "WebTouchEvent \<Rightarrow> TouchState \<Rightarrow> bool" where
  "AllTouchPointsHaveState event s =
     (if touches event = [] then False else AllTouchPointsHaveState_loop (touches event) s)"

definition IsTouchSequenceStart :: "WebTouchEvent \<Rightarrow> bool" where
  "IsTouchSequenceStart event =
     (if touch_type event \<noteq> kTouchStart then False else AllTouchPointsHaveState event StatePressed)"

definition IsTouchSequenceEnd :: "WebTouchEvent \<Rightarrow> bool" where
  "IsTouchSequenceEnd event =
     (if touch_type event \<noteq> kTouchEnd \<and> touch_type event \<noteq> kTouchCancel then False
      else list_all (\<lambda>p. point_state p = StateReleased \<or> point_state p = StateCancelled) (touches event))"

definition ResetType :: "EventType \<Rightarrow> int \<Rightarrow> WebTouchEvent \<Rightarrow> WebTouchEvent" where
  "ResetType type timestamp event =
     event\<lparr>touch_type := type, dispatch_type := (if type = kTouchCancel then kEventNonBlocking else kBlocking),
           time_stamp := timestamp\<rparr>"

definition ResetTypeAndTouchStates :: "EventType \<Rightarrow> int \<Rightarrow> WebTouchEvent \<Rightarrow> WebTouchEvent" where
  "ResetTypeAndTouchStates type timestamp event =
     (let event1 = ResetType type timestamp event;
          newState = (case touch_type event1 of
             kTouchStart \<Rightarrow> StatePressed | kTouchMove \<Rightarrow> StateMoved | kTouchEnd \<Rightarrow> StateReleased
           | kTouchCancel \<Rightarrow> StateCancelled | _ \<Rightarrow> StateUndefined)
      in event1\<lparr>touches := map (\<lambda>p. p\<lparr>point_state := newState\<rparr>) (touches event1)\<rparr>)"

definition FindTouchPoint :: "WebTouchEvent \<Rightarrow> int \<Rightarrow> WebTouchPoint option" where
  "FindTouchPoint event i = find (\<lambda>p. point_id p = i) (touches event)"

fun TouchPointIds_loop :: "WebTouchPoint list \<Rightarrow> string" where
  "TouchPointIds_loop [] = []"
| "TouchPointIds_loop (p # ps) = '','' @ show_int (point_id p) @ TouchPointIds_loop ps"

definition TouchPointIdsToString :: "WebTouchEvent \<Rightarrow> string" where
  "TouchPointIdsToString event =
     (case touches event of [] \<Rightarrow> [] | p # ps \<Rightarrow> show_int (point_id p) @ TouchPointIds_loop ps)"

definition point_message :: "string \<Rightarrow> int \<Rightarrow> string \<Rightarrow> string" where
  "point_message what i rest = what @ '' touch point (id='' @ show_int i @ '')'' @ rest @ newline"

text \<open>The loop over the points of the previous event.\<close>

fun missing_points :: "WebTouchEvent \<Rightarrow> WebTouchPoint list \<Rightarrow> string" where
  "missing_points event [] = []"
| "missing_points event (previous_point # points) =
     (if point_state previous_point = StateCancelled \<or> point_state previous_point = StateReleased
      then missing_points event points
      else (case FindTouchPoint event (point_id previous_point) of
              None \<Rightarrow> point_message ''Previously active'' (point_id previous_point)
                        ('' not in new event (ids='' @ TouchPointIdsToString event @ '').'')
            | Some p \<Rightarrow> []) @ missing_points event points)"

text \<open>The two parts of the loop over the points of the event; the flag is \<open>found_valid_state_for_type\<close>.\<close>

definition known_point_message :: "WebTouchEvent \<Rightarrow> WebTouchPoint \<Rightarrow> string" where
  "known_point_message previous_event point =
     (case FindTouchPoint previous_event (point_id point) of
        None \<Rightarrow>
          if point_state point \<noteq> StatePressed
          then point_message ''Active'' (point_id point)
                 ('' not in previous event (ids='' @ TouchPointIdsToString previous_event @ '').'')
          else []
      | Some previous_point \<Rightarrow>
          if point_state point = StatePressed \<and> point_state previous_point \<noteq> StateCancelled \<and>
             point_state previous_point \<noteq> StateReleased
          then point_message ''Pressed'' (point_id point)
                 ('' already exists in previous event (ids='' @ TouchPointIdsToString previous_event @ '').'')
          else [])"

definition point_state_message :: "EventType \<Rightarrow> WebTouchPoint \<Rightarrow> string \<times> bool" where
  "point_state_message type point =
     (case point_state point of
        StateUndefined \<Rightarrow> (''Undefined touch point state (id='' @ show_int (point_id point) @ '').'' @ newline, False)
      | StateReleased \<Rightarrow> if type \<noteq> kTouchEnd then (point_message ''Released'' (point_id point) '' outside touchend.'', False) else ([], True)
      | StatePressed \<Rightarrow> if type \<noteq> kTouchStart then (point_message ''Pressed'' (point_id point) '' outside touchstart.'', False) else ([], True)
      | StateMoved \<Rightarrow> if type \<noteq> kTouchMove then (point_message ''Moved'' (point_id point) '' outside touchmove.'', False) else ([], True)
      | StateStationary \<Rightarrow> ([], False)
      | StateCancelled \<Rightarrow> if type \<noteq> kTouchCancel then (point_message ''Cancelled'' (point_id point) '' outside touchcancel.'', False) else ([], True))"

fun points_messages :: "EventType \<Rightarrow> WebTouchEvent \<Rightarrow> WebTouchPoint list \<Rightarrow> bool \<Rightarrow> string \<times> bool" where
  "points_messages type previous_event [] found = ([], found)"
| "points_messages type previous_event (p # ps) found =
     (let (msg, valid) = point_state_message type p;
          (msgs, found1) = points_messages type previous_event ps (found \<or> valid)
      in (known_point_message previous_event p @ msg @ msgs, found1))"

text \<open>The validator's state is the previous event.\<close>

definition Touch_Validate ::
  "event_library \<Rightarrow> WebTouchEvent \<Rightarrow> WebTouchEvent \<Rightarrow> bool \<times> string \<times> WebTouchEvent" where
  "Touch_Validate el event previous =
     (if touch_type event = kTouchScrollStarted then (True, [], previous)
      else if touches event = [] then (False, ''Touch event is empty.'' @ newline, event)
      else
        let invalid = (if \<not> IsTouchEventType el (touch_type event)
                       then ''Touch event has invalid type: '' @ GetName el (touch_type event) @ newline else []);
            previous_event = (if IsTouchSequenceStart event then WebTouchEvent_new else previous);
            missing = missing_points event (touches previous_event);
            (msgs, found) = points_messages (touch_type event) previous_event (touches event) False;
            novalid = (if \<not> found
                       then ''No valid touch point corresponding to event type: '' @ GetName el (touch_type event) @ newline
                       else []);
            error_msg = invalid @ missing @ msgs @ novalid
        in (error_msg = [], error_msg, event))"

end
