(* ===== verification/Event_Properties.thy ===== *)
theory Event_Properties
  imports Event_Validators
begin

text \<open>
  The streams of events that the validators accept: gestures by looking back at the history, touch
  events by comparing an event with the one before.
\<close>

subsection \<open>Gesture streams\<close>

fun gesture_run :: "event_library \<Rightarrow> WebGestureEvent list \<Rightarrow> GestureEventStreamValidator \<Rightarrow> bool" where
  "gesture_run el [] v = True"
| "gesture_run el (e # es) v =
     (case Gesture_Validate el e v of (ok, msg, v1) \<Rightarrow> ok \<and> gesture_run el es v1)"

text \<open>Something is open in a history if an opening event has no closing event after it.\<close>

definition is_open :: "EventType \<Rightarrow> EventType set \<Rightarrow> WebGestureEvent list \<Rightarrow> bool" where
  "is_open opening closing history \<longleftrightarrow>
     (\<exists>before e after. history = before @ e # after \<and> gesture_type e = opening \<and>
        (\<forall>e' \<in> set after. gesture_type e' \<notin> closing))"

abbreviation scroll_open :: "WebGestureEvent list \<Rightarrow> bool" where
  "scroll_open \<equiv> is_open kGestureScrollBegin {kGestureScrollEnd, kGestureFlingStart}"

abbreviation pinch_open :: "WebGestureEvent list \<Rightarrow> bool" where
  "pinch_open \<equiv> is_open kGesturePinchBegin {kGesturePinchEnd}"

abbreviation tap_open :: "WebGestureEvent list \<Rightarrow> bool" where
  "tap_open \<equiv> is_open kGestureTapDown {kGestureTap, kGestureTapCancel, kGestureDoubleTap}"

definition fits :: "event_library \<Rightarrow> WebGestureEvent list \<Rightarrow> WebGestureEvent \<Rightarrow> bool" where
  "fits el history e \<longleftrightarrow>
     IsGestureEventType el (gesture_type e) \<and> source_device e \<noteq> DeviceUninitialized \<and>
     (gesture_type e = kGestureScrollBegin \<longrightarrow> \<not> scroll_open history \<and> \<not> pinch_open history) \<and>
     (gesture_type e = kGestureScrollUpdate \<longrightarrow> scroll_open history) \<and>
     (gesture_type e \<in> {kGestureScrollEnd, kGestureFlingStart} \<longrightarrow> scroll_open history \<and> \<not> pinch_open history) \<and>
     (gesture_type e = kGestureFlingStart \<longrightarrow> source_device e = DeviceTouchscreen \<longrightarrow> \<not> fling_velocity_zero e) \<and>
     (gesture_type e = kGesturePinchBegin \<longrightarrow> \<not> pinch_open history) \<and>
     (gesture_type e \<in> {kGesturePinchUpdate, kGesturePinchEnd} \<longrightarrow> pinch_open history) \<and>
     (gesture_type e = kGestureTapDown \<longrightarrow> \<not> tap_open history) \<and>
     (gesture_type e \<in> {kGestureTapUnconfirmed, kGestureTapCancel, kGestureTap} \<longrightarrow> tap_open history)"

lemma is_open_Nil: "\<not> is_open ev closing []"
  by (simp add: is_open_def)

lemma is_open_snoc:
  assumes "ev \<notin> closing"
  shows "is_open ev closing (h @ [e]) \<longleftrightarrow>
    gesture_type e = ev \<or> (gesture_type e \<notin> closing \<and> is_open ev closing h)"
proof
  assume "is_open ev closing (h @ [e])"
  then obtain b x a where x: "h @ [e] = b @ x # a" "gesture_type x = ev" "\<forall>e' \<in> set a. gesture_type e' \<notin> closing"
    by (auto simp: is_open_def)
  show "gesture_type e = ev \<or> (gesture_type e \<notin> closing \<and> is_open ev closing h)"
  proof (cases a rule: rev_cases)
    case Nil
    then show ?thesis using x by simp
  next
    case (snoc a' y)
    then have "h = b @ x # a'" "y = e" using x(1) by simp_all
    then show ?thesis using x snoc by (auto simp: is_open_def)
  qed
next
  assume "gesture_type e = ev \<or> (gesture_type e \<notin> closing \<and> is_open ev closing h)"
  then show "is_open ev closing (h @ [e])"
  proof
    assume "gesture_type e = ev"
    then show ?thesis unfolding is_open_def by (intro exI [of _ h] exI [of _ e] exI [of _ "[]"]) simp
  next
    assume r: "gesture_type e \<notin> closing \<and> is_open ev closing h"
    then obtain b x a where "h = b @ x # a" "gesture_type x = ev" "\<forall>e' \<in> set a. gesture_type e' \<notin> closing"
      by (auto simp: is_open_def)
    with r show ?thesis unfolding is_open_def
      by (intro exI [of _ b] exI [of _ x] exI [of _ "a @ [e]"]) auto
  qed
qed

definition remembers :: "GestureEventStreamValidator \<Rightarrow> WebGestureEvent list \<Rightarrow> bool" where
  "remembers v h \<longleftrightarrow> scrolling v = scroll_open h \<and> pinching v = pinch_open h \<and> waiting_for_tap_end v = tap_open h"

lemma complain_Nil [simp]: "complain b msg = [] \<longleftrightarrow> \<not> b"
  by (simp add: complain_def newline_def)

lemma gesture_validate:
  "remembers v h \<Longrightarrow> fst (Gesture_Validate el e v) \<longleftrightarrow> fits el h e"
  by (cases "gesture_type e") (auto simp: Gesture_Validate_def remembers_def fits_def Let_def split: prod.splits)

lemma gesture_remembers:
  "remembers v h \<Longrightarrow> remembers (snd (snd (Gesture_Validate el e v))) (h @ [e])"
  by (cases "gesture_type e") (simp_all add: Gesture_Validate_def remembers_def is_open_snoc Let_def split_beta)

lemma gesture_run_iff:
  "remembers v h \<Longrightarrow> gesture_run el es v \<longleftrightarrow> (\<forall>before e after. es = before @ e # after \<longrightarrow> fits el (h @ before) e)"
proof (induction es arbitrary: v h)
  case (Cons e es)
  obtain ok msg v1 where r: "Gesture_Validate el e v = (ok, msg, v1)" by (metis prod_cases3)
  have g: "ok \<longleftrightarrow> fits el h e" "remembers v1 (h @ [e])"
    using gesture_validate [OF Cons.prems, of el e] gesture_remembers [OF Cons.prems, of el e] r by simp_all
  show ?case
  proof
    assume "gesture_run el (e # es) v"
    then have run: "fits el h e" "gesture_run el es v1" using g(1) r by simp_all
    then show "\<forall>before x after. e # es = before @ x # after \<longrightarrow> fits el (h @ before) x"
      using Cons.IH [OF g(2)] by (auto simp: Cons_eq_append_conv)
  next
    assume all: "\<forall>before x after. e # es = before @ x # after \<longrightarrow> fits el (h @ before) x"
    then have "fits el h e" by (metis append_Nil append_Nil2)
    moreover have "\<forall>before x after. es = before @ x # after \<longrightarrow> fits el ((h @ [e]) @ before) x"
      using all by (metis append_Cons append_Nil append_assoc)
    ultimately show "gesture_run el (e # es) v" using g r Cons.IH [OF g(2)] by simp
  qed
qed simp

text \<open>The gesture streams. A new validator accepts every event of a stream exactly if each event is
  a gesture with a source and fits its history: scrolls, pinches and taps open only when none is
  open, they continue and close only when one is open, a scroll neither begins nor ends during a
  pinch, and no touchscreen fling has zero velocity.\<close>

lemma gesture_streams:
  "gesture_run el es GestureEventStreamValidator_new \<longleftrightarrow>
     (\<forall>history e later. es = history @ e # later \<longrightarrow> fits el history e)"
  using gesture_run_iff [of GestureEventStreamValidator_new "[]"]
  by (simp add: remembers_def GestureEventStreamValidator_new_def is_open_Nil)

definition plain_events :: event_library where
  "plain_events = \<lparr>GetName = (\<lambda>t. ''event''),
     IsGestureEventType = (\<lambda>t. t \<notin> {kTouchStart, kTouchMove, kTouchEnd, kTouchCancel, kTouchScrollStarted}),
     IsTouchEventType = (\<lambda>t. t \<in> {kTouchStart, kTouchMove, kTouchEnd, kTouchCancel, kTouchScrollStarted})\<rparr>"

definition finger :: "EventType \<Rightarrow> WebGestureEvent" where
  "finger t = \<lparr>gesture_type = t, source_device = DeviceTouchscreen, pointer_count = 1,
     delta_x_hint = 0, delta_y_hint = 0, scroll_begin_synthetic = False,
     scroll_delta_x = 0, scroll_delta_y = 0, scroll_velocity_x = 0, scroll_velocity_y = 0, scroll_end_synthetic = False,
     fling_velocity_x = 0x3F800000, fling_velocity_y = 0, other_gesture_data = 0\<rparr>"

subsection \<open>Touch events\<close>

definition state_for :: "EventType \<Rightarrow> TouchState option" where
  "state_for type = (if type = kTouchStart then Some StatePressed else if type = kTouchMove then Some StateMoved
     else if type = kTouchEnd then Some StateReleased else if type = kTouchCancel then Some StateCancelled else None)"

definition gone :: "WebTouchPoint \<Rightarrow> bool" where
  "gone p \<longleftrightarrow> point_state p \<in> {StateCancelled, StateReleased}"

lemma point_message_nonempty [simp]: "point_message w i r \<noteq> []"
  by (simp add: point_message_def)

lemma FindTouchPoint_None: "FindTouchPoint ev i = None \<longleftrightarrow> (\<forall>p \<in> set (touches ev). point_id p \<noteq> i)"
  by (auto simp: FindTouchPoint_def find_None_iff)

lemma FindTouchPoint_Some: "FindTouchPoint ev i = Some q \<Longrightarrow> q \<in> set (touches ev) \<and> point_id q = i"
  by (auto simp: FindTouchPoint_def find_Some_iff)

lemma FindTouchPoint_distinct:
  assumes "distinct (map point_id (touches ev))" "q \<in> set (touches ev)"
  shows "FindTouchPoint ev (point_id q) = Some q"
proof (cases "FindTouchPoint ev (point_id q)")
  case None
  then show ?thesis using assms(2) unfolding FindTouchPoint_None by blast
next
  case (Some r)
  then show ?thesis using FindTouchPoint_Some [OF Some] assms by (auto dest: eq_key_imp_eq_value simp: distinct_map inj_on_def)
qed

lemma missing_points_Nil:
  "missing_points ev ps = [] \<longleftrightarrow> (\<forall>q \<in> set ps. \<not> gone q \<longrightarrow> (\<exists>p \<in> set (touches ev). point_id p = point_id q))"
proof (induction ps)
  case (Cons q ps)
  show ?case
  proof (cases "FindTouchPoint ev (point_id q)")
    case None
    then have "\<forall>p \<in> set (touches ev). point_id p \<noteq> point_id q" unfolding FindTouchPoint_None .
    then show ?thesis using Cons None by (auto simp: gone_def)
  next
    case (Some p)
    then show ?thesis using Cons FindTouchPoint_Some [OF Some] by (auto simp: gone_def)
  qed
qed simp

lemma known_Nil:
  assumes "distinct (map point_id (touches prev))"
  shows "known_point_message prev p = [] \<longleftrightarrow>
    (if point_state p = StatePressed then \<forall>q \<in> set (touches prev). point_id q = point_id p \<longrightarrow> gone q
     else \<exists>q \<in> set (touches prev). point_id q = point_id p)"
proof (cases "FindTouchPoint prev (point_id p)")
  case None
  then have "\<forall>q \<in> set (touches prev). point_id q \<noteq> point_id p" unfolding FindTouchPoint_None .
  then show ?thesis using None by (auto simp: known_point_message_def)
next
  case (Some q)
  have "r = q" if "r \<in> set (touches prev)" "point_id r = point_id p" for r
    using FindTouchPoint_distinct [OF assms that(1)] that(2) Some by simp
  then show ?thesis using FindTouchPoint_Some [OF Some] Some
    by (auto simp: known_point_message_def gone_def)
qed

lemma point_state_Nil:
  "fst (point_state_message t p) = [] \<longleftrightarrow> point_state p = StateStationary \<or> state_for t = Some (point_state p)"
  "snd (point_state_message t p) \<longleftrightarrow> state_for t = Some (point_state p)"
  by (cases "point_state p"; auto simp: point_state_message_def state_for_def)+

lemma points_messages_Nil:
  "fst (points_messages t prev ps found) = [] \<longleftrightarrow>
     (\<forall>p \<in> set ps. known_point_message prev p = [] \<and> fst (point_state_message t p) = [])"
  "snd (points_messages t prev ps found) \<longleftrightarrow> found \<or> (\<exists>p \<in> set ps. snd (point_state_message t p))"
  by (induction ps arbitrary: found) (auto simp: split_beta Let_def)

text \<open>The touch streams, event by event. An event is accepted after a previous one (none, if it starts
  a sequence) exactly if it marks the start of a touch scroll, or is a touch event with points
  such that every point that was down is still there, a point is pressed only if it was not down
  and is otherwise known from before, every point is stationary or in the state that belongs to
  the event's type, and some point is in that state.\<close>

lemma touch_streams:
  assumes "distinct (map point_id (touches previous))"
  shows "fst (Touch_Validate el event previous) \<longleftrightarrow>
    touch_type event = kTouchScrollStarted \<or>
    (let before = (if IsTouchSequenceStart event then [] else touches previous)
     in touches event \<noteq> [] \<and> IsTouchEventType el (touch_type event) \<and>
        (\<forall>q \<in> set before. \<not> gone q \<longrightarrow> (\<exists>p \<in> set (touches event). point_id p = point_id q)) \<and>
        (\<forall>p \<in> set (touches event).
           (if point_state p = StatePressed then \<forall>q \<in> set before. point_id q = point_id p \<longrightarrow> gone q
            else \<exists>q \<in> set before. point_id q = point_id p) \<and>
           (point_state p = StateStationary \<or> state_for (touch_type event) = Some (point_state p))) \<and>
        (\<exists>p \<in> set (touches event). state_for (touch_type event) = Some (point_state p)))"
proof -
  define prev where "prev = (if IsTouchSequenceStart event then WebTouchEvent_new else previous)"
  have d: "distinct (map point_id (touches prev))" using assms by (simp add: prev_def WebTouchEvent_new_def)
  have before: "touches prev = (if IsTouchSequenceStart event then [] else touches previous)"
    by (simp add: prev_def WebTouchEvent_new_def)
  obtain msgs found where pm: "points_messages (touch_type event) prev (touches event) False = (msgs, found)"
    by fastforce
  have eq: "fst (Touch_Validate el event previous) \<longleftrightarrow> touch_type event = kTouchScrollStarted \<or>
      (touches event \<noteq> [] \<and> IsTouchEventType el (touch_type event) \<and>
       missing_points event (touches prev) = [] \<and> msgs = [] \<and> found)"
    using pm by (auto simp: Touch_Validate_def Let_def prev_def [symmetric])
  have msgs: "msgs = [] \<longleftrightarrow> (\<forall>p \<in> set (touches event).
      known_point_message prev p = [] \<and> fst (point_state_message (touch_type event) p) = [])"
    using points_messages_Nil(1) [of "touch_type event" prev "touches event" False] pm by simp
  have found: "found \<longleftrightarrow> (\<exists>p \<in> set (touches event). snd (point_state_message (touch_type event) p))"
    using points_messages_Nil(2) [of "touch_type event" prev "touches event" False] pm by simp
  show ?thesis
    unfolding eq msgs found missing_points_Nil known_Nil [OF d] point_state_Nil before Let_def by (rule refl)
qed

definition touch :: "EventType \<Rightarrow> (int \<times> TouchState) list \<Rightarrow> WebTouchEvent" where
  "touch t ps = \<lparr>touch_type = t, touches = map (\<lambda>(i, s). \<lparr>point_id = i, point_state = s\<rparr>) ps,
     dispatch_type = kBlocking, time_stamp = 0\<rparr>"

text \<open>A point that was released in the previous event may move in the next one.\<close>

lemma released_point_may_move:
  "\<exists>e1 e2 e3. fst (Touch_Validate plain_events e1 WebTouchEvent_new) \<and> fst (Touch_Validate plain_events e2 e1) \<and>
     fst (Touch_Validate plain_events e3 e2) \<and>
     e2 = touch kTouchEnd [(1, StateReleased), (2, StateStationary)] \<and>
     e3 = touch kTouchMove [(1, StateMoved), (2, StateStationary)]"
proof (intro exI conjI)
  show "fst (Touch_Validate plain_events (touch kTouchStart [(1, StatePressed), (2, StatePressed)]) WebTouchEvent_new)"
    "fst (Touch_Validate plain_events (touch kTouchEnd [(1, StateReleased), (2, StateStationary)])
       (touch kTouchStart [(1, StatePressed), (2, StatePressed)]))"
    "fst (Touch_Validate plain_events (touch kTouchMove [(1, StateMoved), (2, StateStationary)])
       (touch kTouchEnd [(1, StateReleased), (2, StateStationary)]))"
    by code_simp+
qed (rule refl)+

end
