(* ===== verification/Ldb_Transaction.thy ===== *)
theory Ldb_Transaction
  imports Prelude
begin

text \<open>
  A transaction over LevelDB (\<open>browser/indexed_db/leveldb/leveldb_transaction.cc\<close>): the uncommitted
  records over a snapshot of the database, and the iterator that shows both as one sequence.
  LevelDB itself is a parameter, the record \<open>leveldb\<close>: its comparator, the operations of an
  iterator over the snapshot, a lookup in it and the size of a \<open>Record\<close>. The uncommitted records
  are a \<open>std::map\<close> ordered by the comparator, here the list of its elements; an iterator into it
  is the key of its element, which stays where it is when others are inserted, or \<open>None\<close> at the end.
\<close>

subsection \<open>LevelDB\<close>

type_synonym entry = "bytes \<times> bytes"

record 'i leveldb =
  comparator :: "bytes \<Rightarrow> bytes \<Rightarrow> int"
  it_Create :: 'i
  it_IsValid :: "'i \<Rightarrow> bool"
  it_SeekToLast :: "'i \<Rightarrow> bool \<times> 'i"
  it_Seek :: "bytes \<Rightarrow> 'i \<Rightarrow> bool \<times> 'i"
  it_Next :: "'i \<Rightarrow> bool \<times> 'i"
  it_Prev :: "'i \<Rightarrow> bool \<times> 'i"
  it_Key :: "'i \<Rightarrow> bytes"
  it_Value :: "'i \<Rightarrow> bytes"
  db_Get :: "bytes \<Rightarrow> bool \<times> bytes option"
  sizeof_Record :: "64 word"

datatype batch_op = BatchPut bytes bytes | BatchRemove bytes

subsection \<open>State\<close>

record Record =
  rec_value :: bytes
  rec_deleted :: bool

type_synonym DataType = "(bytes \<times> Record) list"

datatype Direction = FORWARD | REVERSE

datatype which_iterator = DataIt | DbIt

record 'i TransactionIterator =
  data_iterator :: "bytes option"
  db_iterator :: 'i
  current :: "which_iterator option"
  direction :: Direction
  data_changed :: bool

record 'i LevelDBTransaction =
  data_of :: DataType
  txn_size :: "64 word"
  finished :: bool
  iterators :: "nat \<Rightarrow> 'i TransactionIterator option"

definition LevelDBTransaction_new :: "'i LevelDBTransaction" where
  "LevelDBTransaction_new = \<lparr>data_of = [], txn_size = 0, finished = False, iterators = (\<lambda>n. None)\<rparr>"

subsection \<open>The map of uncommitted records\<close>

definition lower_bound :: "(bytes \<Rightarrow> bytes \<Rightarrow> int) \<Rightarrow> bytes \<Rightarrow> DataType \<Rightarrow> DataType" where
  "lower_bound cmp target m = dropWhile (\<lambda>e. cmp (fst e) target < 0) m"

definition data_find :: "(bytes \<Rightarrow> bytes \<Rightarrow> int) \<Rightarrow> bytes \<Rightarrow> DataType \<Rightarrow> (bytes \<times> Record) option" where
  "data_find cmp key m =
     (case lower_bound cmp key m of [] \<Rightarrow> None | e # es \<Rightarrow> if cmp key (fst e) < 0 then None else Some e)"

definition data_insert :: "(bytes \<Rightarrow> bytes \<Rightarrow> int) \<Rightarrow> bytes \<Rightarrow> Record \<Rightarrow> DataType \<Rightarrow> DataType" where
  "data_insert cmp key r m =
     takeWhile (\<lambda>e. cmp (fst e) key < 0) m @ (key, r) # dropWhile (\<lambda>e. cmp (fst e) key < 0) m"

definition data_replace :: "bytes \<Rightarrow> (Record \<Rightarrow> Record) \<Rightarrow> DataType \<Rightarrow> DataType" where
  "data_replace key g m = map (\<lambda>e. if fst e = key then (fst e, g (snd e)) else e) m"

text \<open>The elements from an iterator on, in either direction.\<close>

fun elements_from :: "Direction \<Rightarrow> bytes option \<Rightarrow> DataType \<Rightarrow> DataType" where
  "elements_from dir None m = []"
| "elements_from FORWARD (Some key) m = dropWhile (\<lambda>e. fst e \<noteq> key) m"
| "elements_from REVERSE (Some key) m = dropWhile (\<lambda>e. fst e \<noteq> key) (rev m)"

definition iterator_at :: "DataType \<Rightarrow> bytes option" where
  "iterator_at es = (case es of [] \<Rightarrow> None | e # _ \<Rightarrow> Some (fst e))"

definition Data_SeekToLast :: "DataType \<Rightarrow> bytes option" where
  "Data_SeekToLast m = iterator_at (rev m)"

definition Data_Seek :: "(bytes \<Rightarrow> bytes \<Rightarrow> int) \<Rightarrow> bytes \<Rightarrow> DataType \<Rightarrow> bytes option" where
  "Data_Seek cmp target m = iterator_at (lower_bound cmp target m)"

definition Data_Next :: "DataType \<Rightarrow> bytes option \<Rightarrow> bytes option" where
  "Data_Next m it = iterator_at (tl (elements_from FORWARD it m))"

definition Data_Prev :: "DataType \<Rightarrow> bytes option \<Rightarrow> bytes option" where
  "Data_Prev m it = iterator_at (tl (elements_from REVERSE it m))"

subsection \<open>The iterator\<close>

definition TransactionIterator_new :: "'i leveldb \<Rightarrow> 'i TransactionIterator" where
  "TransactionIterator_new lb =
     \<lparr>data_iterator = None, db_iterator = it_Create lb, current = None, direction = FORWARD,
      data_changed = False\<rparr>"

definition current_key :: "'i leveldb \<Rightarrow> 'i TransactionIterator \<Rightarrow> bytes" where
  "current_key lb it =
     (if current it = Some DataIt then the (data_iterator it) else it_Key lb (db_iterator it))"

definition current_value :: "'i leveldb \<Rightarrow> DataType \<Rightarrow> 'i TransactionIterator \<Rightarrow> bytes" where
  "current_value lb m it =
     (if current it = Some DataIt then rec_value (the (map_of m (the (data_iterator it))))
      else it_Value lb (db_iterator it))"

fun DataIteratorIsAhead :: "'i leveldb \<Rightarrow> Direction \<Rightarrow> bytes \<Rightarrow> 'i \<Rightarrow> bool" where
  "DataIteratorIsAhead lb FORWARD key db \<longleftrightarrow> comparator lb key (it_Key lb db) < 0"
| "DataIteratorIsAhead lb REVERSE key db \<longleftrightarrow> comparator lb key (it_Key lb db) > 0"

fun db_step :: "'i leveldb \<Rightarrow> Direction \<Rightarrow> 'i \<Rightarrow> bool \<times> 'i" where
  "db_step lb FORWARD db = it_Next lb db"
| "db_step lb REVERSE db = it_Prev lb db"

text \<open>The loop of \<open>HandleConflictsAndDeletes\<close> over the elements that are still ahead.\<close>

fun skip_deleted :: "'i leveldb \<Rightarrow> Direction \<Rightarrow> DataType \<Rightarrow> 'i \<Rightarrow> DataType \<times> 'i" where
  "skip_deleted lb dir [] db = ([], db)"
| "skip_deleted lb dir ((key, r) # ahead) db =
     (let db1 = (if it_IsValid lb db \<and> comparator lb key (it_Key lb db) = 0
                 then snd (db_step lb dir db) else db)
      in if rec_deleted r \<and> (\<not> it_IsValid lb db1 \<or> DataIteratorIsAhead lb dir key db1)
         then skip_deleted lb dir ahead db1 else ((key, r) # ahead, db1))"

definition HandleConflictsAndDeletes ::
  "'i leveldb \<Rightarrow> DataType \<Rightarrow> 'i TransactionIterator \<Rightarrow> 'i TransactionIterator" where
  "HandleConflictsAndDeletes lb m it =
     (let (ahead, db) = skip_deleted lb (direction it) (elements_from (direction it) (data_iterator it) m)
                          (db_iterator it)
      in it\<lparr>data_iterator := iterator_at ahead, db_iterator := db\<rparr>)"

definition SetCurrentIteratorToSmallestKey :: "'i leveldb \<Rightarrow> 'i TransactionIterator \<Rightarrow> 'i TransactionIterator" where
  "SetCurrentIteratorToSmallestKey lb it =
     (let smallest = (if data_iterator it \<noteq> None then Some DataIt else None)
      in it\<lparr>current :=
           (if it_IsValid lb (db_iterator it) \<and>
               (smallest = None \<or> comparator lb (it_Key lb (db_iterator it)) (the (data_iterator it)) < 0)
            then Some DbIt else smallest)\<rparr>)"

definition SetCurrentIteratorToLargestKey :: "'i leveldb \<Rightarrow> 'i TransactionIterator \<Rightarrow> 'i TransactionIterator" where
  "SetCurrentIteratorToLargestKey lb it =
     (let largest = (if data_iterator it \<noteq> None then Some DataIt else None)
      in it\<lparr>current :=
           (if it_IsValid lb (db_iterator it) \<and>
               (largest = None \<or> comparator lb (it_Key lb (db_iterator it)) (the (data_iterator it)) > 0)
            then Some DbIt else largest)\<rparr>)"

definition RefreshDataIterator ::
  "'i leveldb \<Rightarrow> DataType \<Rightarrow> 'i TransactionIterator \<Rightarrow> 'i TransactionIterator" where
  "RefreshDataIterator lb m it0 =
     (let it = it0\<lparr>data_changed := False\<rparr>;
          db_key = it_Key lb (db_iterator it);
          sought = Data_Seek (comparator lb) db_key m
      in if data_iterator it \<noteq> None \<and> current it = Some DataIt then it
         else if \<not> it_IsValid lb (db_iterator it) then it
         else if direction it = FORWARD
         then it\<lparr>data_iterator :=
                (if sought \<noteq> None \<and> comparator lb (the sought) db_key = 0 then Data_Next m sought
                 else sought)\<rparr>
         else it\<lparr>data_iterator := (if sought \<noteq> None then Data_Prev m sought else sought)\<rparr>)"

definition refreshed :: "'i leveldb \<Rightarrow> DataType \<Rightarrow> 'i TransactionIterator \<Rightarrow> 'i TransactionIterator" where
  "refreshed lb m it = (if data_changed it then RefreshDataIterator lb m it else it)"

definition Iterator_Key :: "'i leveldb \<Rightarrow> DataType \<Rightarrow> 'i TransactionIterator \<Rightarrow> bytes \<times> 'i TransactionIterator" where
  "Iterator_Key lb m it0 = (let it = refreshed lb m it0 in (current_key lb it, it))"

definition Iterator_Value :: "'i leveldb \<Rightarrow> DataType \<Rightarrow> 'i TransactionIterator \<Rightarrow> bytes \<times> 'i TransactionIterator" where
  "Iterator_Value lb m it0 = (let it = refreshed lb m it0 in (current_value lb m it, it))"

text \<open>The operations that move return LevelDB's status with the iterator.\<close>

definition Iterator_SeekToLast ::
  "'i leveldb \<Rightarrow> DataType \<Rightarrow> 'i TransactionIterator \<Rightarrow> bool \<times> 'i TransactionIterator" where
  "Iterator_SeekToLast lb m it =
     (let (ok, db) = it_SeekToLast lb (db_iterator it);
          it1 = it\<lparr>data_iterator := Data_SeekToLast m, db_iterator := db\<rparr>
      in if \<not> ok then (False, it1)
         else (True, SetCurrentIteratorToLargestKey lb
                 (HandleConflictsAndDeletes lb m (it1\<lparr>direction := REVERSE\<rparr>))))"

definition Iterator_Seek ::
  "'i leveldb \<Rightarrow> DataType \<Rightarrow> bytes \<Rightarrow> 'i TransactionIterator \<Rightarrow> bool \<times> 'i TransactionIterator" where
  "Iterator_Seek lb m target it =
     (let (ok, db) = it_Seek lb target (db_iterator it);
          it1 = it\<lparr>data_iterator := Data_Seek (comparator lb) target m, db_iterator := db\<rparr>
      in if \<not> ok then (False, it1)
         else (True, SetCurrentIteratorToSmallestKey lb
                 (HandleConflictsAndDeletes lb m (it1\<lparr>direction := FORWARD\<rparr>))))"

text \<open>The iterator that is not the current one is moved strictly past the current key.\<close>

definition turn_forward ::
  "'i leveldb \<Rightarrow> DataType \<Rightarrow> 'i TransactionIterator \<Rightarrow> bool \<times> 'i TransactionIterator" where
  "turn_forward lb m it =
     (if direction it = FORWARD then (True, it)
      else
        let key = current_key lb it; cmp = comparator lb
        in if current it = Some DbIt
           then (let sought = Data_Seek cmp key m
                 in (True, it\<lparr>data_iterator :=
                       (if sought \<noteq> None \<and> cmp (the sought) key = 0 then Data_Next m sought else sought),
                     direction := FORWARD\<rparr>))
           else (let db = snd (it_Seek lb key (db_iterator it))
                 in if it_IsValid lb db \<and> cmp (it_Key lb db) key = 0
                    then (let (ok, db1) = it_Next lb db
                          in if \<not> ok then (False, it\<lparr>db_iterator := db1\<rparr>)
                             else (True, it\<lparr>db_iterator := db1, direction := FORWARD\<rparr>))
                    else (True, it\<lparr>db_iterator := db, direction := FORWARD\<rparr>)))"

definition turn_reverse ::
  "'i leveldb \<Rightarrow> DataType \<Rightarrow> 'i TransactionIterator \<Rightarrow> bool \<times> 'i TransactionIterator" where
  "turn_reverse lb m it =
     (if direction it = REVERSE then (True, it)
      else
        let key = current_key lb it
        in if current it = Some DbIt
           then (let sought = Data_Seek (comparator lb) key m
                 in (True, it\<lparr>data_iterator :=
                       (if sought \<noteq> None then Data_Prev m sought else Data_SeekToLast m),
                     direction := REVERSE\<rparr>))
           else (let (ok, db) = it_Seek lb key (db_iterator it)
                 in if \<not> ok then (False, it\<lparr>db_iterator := db\<rparr>)
                    else (True, it\<lparr>db_iterator :=
                            snd (if it_IsValid lb db then it_Prev lb db else it_SeekToLast lb db),
                          direction := REVERSE\<rparr>)))"

definition step_current ::
  "'i leveldb \<Rightarrow> DataType \<Rightarrow> 'i TransactionIterator \<Rightarrow> bool \<times> 'i TransactionIterator" where
  "step_current lb m it =
     (if current it = Some DataIt
      then (True, it\<lparr>data_iterator := (case direction it of
               FORWARD \<Rightarrow> Data_Next m (data_iterator it)
             | REVERSE \<Rightarrow> Data_Prev m (data_iterator it))\<rparr>)
      else (let (ok, db) = db_step lb (direction it) (db_iterator it) in (ok, it\<lparr>db_iterator := db\<rparr>)))"

text \<open>\<open>None\<close>: no current iterator, a null pointer.\<close>

definition Iterator_Next ::
  "'i leveldb \<Rightarrow> DataType \<Rightarrow> 'i TransactionIterator \<Rightarrow> (bool \<times> 'i TransactionIterator) option" where
  "Iterator_Next lb m it0 =
     (if current it0 = None then None
      else Some (
        let (ok, it1) = turn_forward lb m (refreshed lb m it0)
        in if \<not> ok then (False, it1)
           else let (ok', it2) = step_current lb m it1
                in if \<not> ok' then (False, it2)
                   else (True, SetCurrentIteratorToSmallestKey lb (HandleConflictsAndDeletes lb m it2))))"

definition Iterator_Prev ::
  "'i leveldb \<Rightarrow> DataType \<Rightarrow> 'i TransactionIterator \<Rightarrow> (bool \<times> 'i TransactionIterator) option" where
  "Iterator_Prev lb m it0 =
     (if current it0 = None then None
      else Some (
        let (ok, it1) = turn_reverse lb m (refreshed lb m it0)
        in if \<not> ok then (False, it1)
           else let (ok', it2) = step_current lb m it1
                in if \<not> ok' then (False, it2)
                   else (True, SetCurrentIteratorToLargestKey lb (HandleConflictsAndDeletes lb m it2))))"

subsection \<open>The transaction\<close>

definition SizeOfRecordInMap :: "'i leveldb \<Rightarrow> bytes \<Rightarrow> 64 word" where
  "SizeOfRecordInMap lb key = sizeof_Record lb + of_nat (length key) * 2"

definition DataChanged :: "'i TransactionIterator \<Rightarrow> 'i TransactionIterator" where
  "DataChanged it = it\<lparr>data_changed := True\<rparr>"

definition NotifyIterators :: "'i LevelDBTransaction \<Rightarrow> 'i LevelDBTransaction" where
  "NotifyIterators t = t\<lparr>iterators := (\<lambda>n. map_option DataChanged (iterators t n))\<rparr>"

definition RegisterIterator :: "nat \<Rightarrow> 'i TransactionIterator \<Rightarrow> 'i LevelDBTransaction \<Rightarrow> 'i LevelDBTransaction" where
  "RegisterIterator n it t = t\<lparr>iterators := (iterators t)(n \<mapsto> it)\<rparr>"

definition UnregisterIterator :: "nat \<Rightarrow> 'i LevelDBTransaction \<Rightarrow> 'i LevelDBTransaction" where
  "UnregisterIterator n t = t\<lparr>iterators := (iterators t)(n := None)\<rparr>"

definition Transaction_Set ::
  "'i leveldb \<Rightarrow> bytes \<Rightarrow> bytes \<Rightarrow> bool \<Rightarrow> 'i LevelDBTransaction \<Rightarrow> 'i LevelDBTransaction" where
  "Transaction_Set lb key val deleted t =
     (case data_find (comparator lb) key (data_of t) of
        None \<Rightarrow> NotifyIterators (t\<lparr>
          txn_size := txn_size t + (SizeOfRecordInMap lb key + of_nat (length val)),
          data_of := data_insert (comparator lb) key \<lparr>rec_value = val, rec_deleted = deleted\<rparr> (data_of t)\<rparr>)
      | Some (k, r) \<Rightarrow> t\<lparr>
          txn_size := txn_size t + of_nat (length val) - of_nat (length (rec_value r)),
          data_of := data_replace k (\<lambda>r. \<lparr>rec_value = val, rec_deleted = deleted\<rparr>) (data_of t)\<rparr>)"

definition Transaction_Put :: "'i leveldb \<Rightarrow> bytes \<Rightarrow> bytes \<Rightarrow> 'i LevelDBTransaction \<Rightarrow> 'i LevelDBTransaction" where
  "Transaction_Put lb key val t = Transaction_Set lb key val False t"

definition Transaction_Remove :: "'i leveldb \<Rightarrow> bytes \<Rightarrow> 'i LevelDBTransaction \<Rightarrow> 'i LevelDBTransaction" where
  "Transaction_Remove lb key t = Transaction_Set lb key [] True t"

definition Transaction_Get :: "'i leveldb \<Rightarrow> bytes \<Rightarrow> 'i LevelDBTransaction \<Rightarrow> bool \<times> bytes option" where
  "Transaction_Get lb key t =
     (case data_find (comparator lb) key (data_of t) of
        Some (k, r) \<Rightarrow> if rec_deleted r then (True, None) else (True, Some (rec_value r))
      | None \<Rightarrow> db_Get lb key)"

text \<open>\<open>TransactionIterator::Delete\<close>: what it makes of the iterator and the transaction.\<close>

definition Iterator_Delete ::
  "'i leveldb \<Rightarrow> 'i TransactionIterator \<Rightarrow> 'i LevelDBTransaction \<Rightarrow> 'i TransactionIterator \<times> 'i LevelDBTransaction" where
  "Iterator_Delete lb it t =
     (if current it = Some DataIt
      then (let key = the (data_iterator it)
            in (it, t\<lparr>txn_size := txn_size t - of_nat (length (rec_value (the (map_of (data_of t) key)))),
                     data_of := data_replace key (\<lambda>r. \<lparr>rec_value = [], rec_deleted = True\<rparr>) (data_of t)\<rparr>))
      else (let (key, it1) = Iterator_Key lb (data_of t) it; r = \<lparr>rec_value = [], rec_deleted = True\<rparr>
            in (it1, t\<lparr>txn_size := txn_size t + SizeOfRecordInMap lb key,
                  data_of := (case data_find (comparator lb) key (data_of t) of
                      None \<Rightarrow> data_insert (comparator lb) key r (data_of t)
                    | Some (k, old) \<Rightarrow> data_replace k (\<lambda>_. r) (data_of t))\<rparr>)))"

definition IsKeyBeforeEndOfRange :: "'i leveldb \<Rightarrow> bytes \<Rightarrow> bytes \<Rightarrow> bool \<Rightarrow> bool" where
  "IsKeyBeforeEndOfRange lb key end_key open_end =
     (if open_end then comparator lb key end_key < 0 else comparator lb key end_key \<le> 0)"

text \<open>The loop of \<open>RemoveRange\<close>, with its status and whether it deleted anything.\<close>

partial_function (option) remove_loop ::
  "'i leveldb \<Rightarrow> bytes \<Rightarrow> bool \<Rightarrow> 'i TransactionIterator \<Rightarrow> bool \<Rightarrow> 'i LevelDBTransaction \<Rightarrow>
   (bool \<times> bool \<times> 'i LevelDBTransaction) option" where
  "remove_loop lb end_key upper_open it dirty t =
     (if current it = None then Some (True, dirty, t)
      else
        let (key, it1) = Iterator_Key lb (data_of t) it
        in if \<not> IsKeyBeforeEndOfRange lb key end_key upper_open then Some (True, dirty, t)
           else
             let (it2, t1) = Iterator_Delete lb it1 t
             in Option.bind (Iterator_Next lb (data_of t1) it2) (\<lambda>(ok, it3).
                  if \<not> ok then Some (False, True, t1)
                  else remove_loop lb end_key upper_open it3 True t1))"

definition RemoveRange ::
  "'i leveldb \<Rightarrow> bytes \<Rightarrow> bytes \<Rightarrow> bool \<Rightarrow> 'i LevelDBTransaction \<Rightarrow> (bool \<times> 'i LevelDBTransaction) option" where
  "RemoveRange lb begin_key end_key upper_open t =
     (let (ok, it) = Iterator_Seek lb (data_of t) begin_key (TransactionIterator_new lb)
      in map_option (\<lambda>(ok, dirty, t1). (ok, if dirty then NotifyIterators t1 else t1))
           (if \<not> ok then Some (False, False, t) else remove_loop lb end_key upper_open it False t))"

definition write_batch_of :: "DataType \<Rightarrow> batch_op list" where
  "write_batch_of m = map (\<lambda>(key, r). if \<not> rec_deleted r then BatchPut key (rec_value r) else BatchRemove key) m"

definition Transaction_Commit ::
  "(batch_op list \<Rightarrow> bool) \<Rightarrow> 'i LevelDBTransaction \<Rightarrow> bool \<times> 'i LevelDBTransaction" where
  "Transaction_Commit write t =
     (if data_of t = [] then (True, t\<lparr>finished := True\<rparr>)
      else
        let batch = write_batch_of (data_of t);
            t1 = t\<lparr>data_of := []\<rparr>;
            ok = write batch
        in (ok, if ok then t1\<lparr>finished := True\<rparr> else t1))"

definition Transaction_Rollback :: "'i LevelDBTransaction \<Rightarrow> 'i LevelDBTransaction" where
  "Transaction_Rollback t = t\<lparr>finished := True, data_of := []\<rparr>"

subsection \<open>Direct transactions\<close>

record LevelDBDirectTransaction =
  write_batch :: "batch_op list"
  direct_finished :: bool

definition DirectTransaction_new :: LevelDBDirectTransaction where
  "DirectTransaction_new = \<lparr>write_batch = [], direct_finished = False\<rparr>"

definition Direct_Put :: "bytes \<Rightarrow> bytes \<Rightarrow> LevelDBDirectTransaction \<Rightarrow> LevelDBDirectTransaction" where
  "Direct_Put key val d = d\<lparr>write_batch := write_batch d @ [BatchPut key val]\<rparr>"

definition Direct_Remove :: "bytes \<Rightarrow> LevelDBDirectTransaction \<Rightarrow> LevelDBDirectTransaction" where
  "Direct_Remove key d = d\<lparr>write_batch := write_batch d @ [BatchRemove key]\<rparr>"

definition Direct_Get :: "'i leveldb \<Rightarrow> bytes \<Rightarrow> bool \<times> bytes option" where
  "Direct_Get lb key = db_Get lb key"

definition Direct_Commit ::
  "(batch_op list \<Rightarrow> bool) \<Rightarrow> LevelDBDirectTransaction \<Rightarrow> bool \<times> LevelDBDirectTransaction" where
  "Direct_Commit write d =
     (let ok = write (write_batch d)
      in (ok, if ok then d\<lparr>direct_finished := True, write_batch := []\<rparr> else d))"

end
