(* ===== verification/Ldb_View.thy ===== *)
theory Ldb_View
  imports Ldb_Transaction
begin

text \<open>
  What a transaction over LevelDB shows: the records of the snapshot that it has not overwritten,
  merged with its own that are not deleted. The lemmas on merging hold for every three-way
  comparator, so they serve both directions of an iterator.
\<close>

subsection \<open>Ordered lists\<close>

definition ordered :: "('k \<Rightarrow> 'k \<Rightarrow> int) \<Rightarrow> ('k \<times> 'v) list \<Rightarrow> bool" where
  "ordered cmp xs \<longleftrightarrow> sorted_wrt (\<lambda>a b. cmp (fst a) (fst b) < 0) xs"

definition keys_within :: "('k \<Rightarrow> bool) \<Rightarrow> ('k \<times> 'v) list \<Rightarrow> bool" where
  "keys_within W xs \<longleftrightarrow> (\<forall>e \<in> set xs. W (fst e))"

lemma ordered_simps [simp]:
  "ordered cmp []"
  "ordered cmp (e # xs) \<longleftrightarrow> (\<forall>x \<in> set xs. cmp (fst e) (fst x) < 0) \<and> ordered cmp xs"
  "ordered cmp (xs @ ys) \<longleftrightarrow> ordered cmp xs \<and> ordered cmp ys \<and>
     (\<forall>x \<in> set xs. \<forall>y \<in> set ys. cmp (fst x) (fst y) < 0)"
  by (auto simp: ordered_def sorted_wrt_append)

lemma ordered_rev [simp]: "ordered cmp (rev xs) \<longleftrightarrow> ordered (\<lambda>a b. cmp b a) xs"
  by (simp add: ordered_def sorted_wrt_rev)

lemma ordered_filter: "ordered cmp xs \<Longrightarrow> ordered cmp (filter P xs)"
  by (simp add: ordered_def sorted_wrt_filter)

lemma keys_within_simps [simp]:
  "keys_within W []" "keys_within W (e # xs) \<longleftrightarrow> W (fst e) \<and> keys_within W xs"
  "keys_within W (xs @ ys) \<longleftrightarrow> keys_within W xs \<and> keys_within W ys"
  "keys_within W (rev xs) \<longleftrightarrow> keys_within W xs"
  by (auto simp: keys_within_def)

lemma keys_within_filter: "keys_within W xs \<Longrightarrow> keys_within W (filter P xs)"
  by (simp add: keys_within_def)

lemma keys_withinD: "keys_within W xs \<Longrightarrow> e \<in> set xs \<Longrightarrow> W (fst e)"
  by (simp add: keys_within_def)

subsection \<open>Merging\<close>

fun merged :: "('k \<Rightarrow> 'k \<Rightarrow> int) \<Rightarrow> ('k \<times> Record) list \<Rightarrow> ('k \<times> bytes) list \<Rightarrow> ('k \<times> bytes) list" where
  "merged cmp [] es = es"
| "merged cmp ((k, r) # m) [] = (if rec_deleted r then merged cmp m [] else (k, rec_value r) # merged cmp m [])"
| "merged cmp ((k, r) # m) ((k', v) # es) =
     (if cmp k k' = 0 then (if rec_deleted r then merged cmp m es else (k, rec_value r) # merged cmp m es)
      else if cmp k k' < 0
      then (if rec_deleted r then merged cmp m ((k', v) # es)
            else (k, rec_value r) # merged cmp m ((k', v) # es))
      else (k', v) # merged cmp ((k, r) # m) es)"

definition shown :: "('k \<Rightarrow> 'k \<Rightarrow> int) \<Rightarrow> ('k \<times> Record) list \<Rightarrow> ('k \<times> bytes) list \<Rightarrow> ('k \<times> bytes) set" where
  "shown cmp m es =
     {(k, rec_value r) | k r. (k, r) \<in> set m \<and> \<not> rec_deleted r} \<union>
     {e \<in> set es. \<forall>x \<in> set m. cmp (fst x) (fst e) \<noteq> 0}"

lemma merge_induct [case_names Nil rest both]:
  assumes "\<And>es. P [] es" "\<And>k r m. P m [] \<Longrightarrow> P ((k, r) # m) []"
    and "\<And>k r m k' v es. P m es \<Longrightarrow> P m ((k', v) # es) \<Longrightarrow> P ((k, r) # m) es \<Longrightarrow> P ((k, r) # m) ((k', v) # es)"
  shows "P m es"
proof (induction "length m + length es" arbitrary: m es rule: less_induct)
  case less
  then show ?case
    using assms by (cases m; cases es) auto
qed

text \<open>The state in which the loop over conflicts and deletions stops.\<close>

fun settle :: "('k \<Rightarrow> 'k \<Rightarrow> int) \<Rightarrow> ('k \<times> Record) list \<Rightarrow> ('k \<times> bytes) list \<Rightarrow>
    ('k \<times> Record) list \<times> ('k \<times> bytes) list" where
  "settle cmp [] es = ([], es)"
| "settle cmp ((k, r) # m) es =
     (let es1 = (if es \<noteq> [] \<and> cmp k (fst (hd es)) = 0 then tl es else es)
      in if rec_deleted r \<and> (es1 = [] \<or> cmp k (fst (hd es1)) < 0) then settle cmp m es1
         else ((k, r) # m, es1))"

definition settled :: "('k \<Rightarrow> 'k \<Rightarrow> int) \<Rightarrow> ('k \<times> Record) list \<Rightarrow> ('k \<times> bytes) list \<Rightarrow> bool" where
  "settled cmp m es \<longleftrightarrow> (m \<noteq> [] \<longrightarrow>
     (es \<noteq> [] \<longrightarrow> cmp (fst (hd m)) (fst (hd es)) \<noteq> 0) \<and>
     (es = [] \<or> cmp (fst (hd m)) (fst (hd es)) < 0 \<longrightarrow> \<not> rec_deleted (snd (hd m))))"

text \<open>Which element comes first.\<close>

definition first_item :: "('k \<Rightarrow> 'k \<Rightarrow> int) \<Rightarrow> ('k \<times> Record) list \<Rightarrow> ('k \<times> bytes) list \<Rightarrow> ('k \<times> bytes) option" where
  "first_item cmp m es =
     (if es \<noteq> [] \<and> (m = [] \<or> cmp (fst (hd es)) (fst (hd m)) < 0) then Some (hd es)
      else case m of [] \<Rightarrow> None | (k, r) # _ \<Rightarrow> Some (k, rec_value r))"

definition head :: "'a list \<Rightarrow> 'a option" where
  "head xs = (case xs of [] \<Rightarrow> None | x # _ \<Rightarrow> Some x)"

context three_way
begin

lemma cmp_irrefl: "within x \<Longrightarrow> \<not> cmp x x < 0"
  by (simp add: cmp_refl)

lemma cmp_asym: "within x \<Longrightarrow> within y \<Longrightarrow> cmp x y < 0 \<Longrightarrow> \<not> cmp y x < 0"
  using cmp_neg_iff [of x y] by auto

lemma cmp_less_equiv: "within x \<Longrightarrow> within y \<Longrightarrow> within z \<Longrightarrow> cmp x y < 0 \<Longrightarrow> cmp y z = 0 \<Longrightarrow> cmp x z < 0"
  by (rule cmp_strict_trans) auto

lemma cmp_equiv_less: "within x \<Longrightarrow> within y \<Longrightarrow> within z \<Longrightarrow> cmp x y = 0 \<Longrightarrow> cmp y z < 0 \<Longrightarrow> cmp x z < 0"
  by (rule cmp_strict_trans2 [of x y z]) auto

lemma cmp_less_trans: "within x \<Longrightarrow> within y \<Longrightarrow> within z \<Longrightarrow> cmp x y < 0 \<Longrightarrow> cmp y z < 0 \<Longrightarrow> cmp x z < 0"
  by (rule cmp_strict_trans) auto

lemma flip: "three_way (\<lambda>a b. cmp b a) within"
proof
  show "sgn (cmp x y) = - sgn (cmp y x)" if "within x" "within y" for x y
    using cmp_swap [OF that(2,1)] .
  show "cmp z x \<le> 0" if "within x" "within y" "within z" "cmp y x \<le> 0" "cmp z y \<le> 0" for x y z
    using cmp_trans [of z y x] that by blast
qed

lemma ordered_unique:
  assumes "ordered cmp xs" "ordered cmp ys" "keys_within within xs" "set xs = set ys"
  shows "xs = ys"
  using assms
proof (induction xs arbitrary: ys)
  case Nil
  then show ?case by simp
next
  case (Cons x xs)
  then obtain y ys' where ys: "ys = y # ys'" by (cases ys) auto
  have w: "within (fst e)" if "e \<in> set (x # xs)" for e using Cons.prems(3) that by (auto simp: keys_within_def)
  have mem: "y \<in> set (x # xs)" "x \<in> set ys" using Cons.prems(4) ys by auto
  have "x = y"
  proof (rule ccontr)
    assume ne: "x \<noteq> y"
    then have "cmp (fst x) (fst y) < 0" "cmp (fst y) (fst x) < 0"
      using mem Cons.prems(1,2) ys by auto
    then show False using cmp_asym w mem(1) by (meson list.set_intros(1))
  qed
  have nin: "x \<notin> set xs" "y \<notin> set ys'"
    using Cons.prems(1,2) ys cmp_irrefl [OF w [OF mem(1)]] \<open>x = y\<close> by auto
  have "set xs = set ys'" using Cons.prems(4) ys nin \<open>x = y\<close> by auto
  moreover have "ordered cmp xs" "ordered cmp ys'" "keys_within within xs"
    using Cons.prems ys by simp_all
  ultimately show ?case using Cons.IH [of ys'] ys \<open>x = y\<close> by simp
qed

lemma merged_source:
  "e \<in> set (merged cmp m es) \<Longrightarrow> e \<in> set es \<or> (\<exists>r. (fst e, r) \<in> set m \<and> \<not> rec_deleted r \<and> snd e = rec_value r)"
proof (induction m es rule: merge_induct)
  case (both k r m k' v es)
  then show ?case by (simp split: if_split_asm) auto
qed (auto split: if_splits)

lemma merged_bounded:
  assumes "\<forall>x \<in> set m. cmp a (fst x) < 0" "\<forall>x \<in> set es. cmp a (fst x) < 0"
  shows "\<forall>x \<in> set (merged cmp m es). cmp a (fst x) < 0"
  using merged_source assms by fastforce

lemma merged_within: "keys_within within m \<Longrightarrow> keys_within within es \<Longrightarrow> keys_within within (merged cmp m es)"
  unfolding keys_within_def using merged_source by fastforce

lemma less_all:
  assumes "ordered cmp ((k', v) # es)" "cmp k k' < 0" "within k" "keys_within within ((k', v) # es)"
  shows "\<forall>x \<in> set ((k', v) # es). cmp k (fst x) < 0"
  using assms by (auto simp: keys_within_def intro: cmp_less_trans)

lemma equiv_less_all:
  assumes "ordered cmp ((k', v) # es)" "cmp k k' = 0" "within k" "keys_within within ((k', v) # es)"
  shows "\<forall>x \<in> set es. cmp k (fst x) < 0"
  using assms by (auto simp: keys_within_def intro: cmp_equiv_less)

lemma greater_all:
  assumes "ordered cmp ((k, r) # m)" "\<not> cmp k k' < 0" "cmp k k' \<noteq> 0" "within k'" "keys_within within ((k, r) # m)"
  shows "\<forall>x \<in> set ((k, r) # m). cmp k' (fst x) < 0"
proof -
  have "cmp k' k < 0" using assms cmp_neg_iff [of k k'] by (simp add: keys_within_def)
  then show ?thesis using less_all [of k r m k'] assms by blast
qed

lemma ordered_merged:
  "ordered cmp m \<Longrightarrow> ordered cmp es \<Longrightarrow> keys_within within m \<Longrightarrow> keys_within within es \<Longrightarrow>
   ordered cmp (merged cmp m es)"
proof (induction m es rule: merge_induct)
  case (both k r m k' v es)
  then have w: "within k" "within k'" and o: "ordered cmp m" "ordered cmp es" "\<forall>x \<in> set m. cmp k (fst x) < 0"
    "\<forall>x \<in> set es. cmp k' (fst x) < 0" "keys_within within m" "keys_within within es"
    by simp_all
  consider "cmp k k' = 0" | "cmp k k' < 0" | "\<not> cmp k k' < 0" "cmp k k' \<noteq> 0" by blast
  then show ?case
  proof cases
    case 1
    have "\<forall>x \<in> set (merged cmp m es). cmp k (fst x) < 0"
      by (rule merged_bounded [OF o(3) equiv_less_all [OF both.prems(2) 1 w(1) both.prems(4)]])
    then show ?thesis using 1 both.IH(1) o by simp
  next
    case 2
    have "\<forall>x \<in> set (merged cmp m ((k', v) # es)). cmp k (fst x) < 0"
      by (rule merged_bounded [OF o(3) less_all [OF both.prems(2) 2 w(1) both.prems(4)]])
    then show ?thesis using 2 both.IH(2) both.prems o by simp
  next
    case 3
    have "\<forall>x \<in> set (merged cmp ((k, r) # m) es). cmp k' (fst x) < 0"
      by (rule merged_bounded [OF greater_all [OF both.prems(1) 3 w(2) both.prems(3)] o(4)])
    then show ?thesis using 3 both.IH(3) both.prems o by simp
  qed
next
  case (rest k r m)
  then show ?case using merged_bounded [of m k "[]"] by simp
qed simp

lemma shown_Cons_data:
  "\<forall>x \<in> set es. cmp k (fst x) \<noteq> 0 \<Longrightarrow>
   shown cmp ((k, r) # m) es = (if rec_deleted r then {} else {(k, rec_value r)}) \<union> shown cmp m es"
  by (auto simp: shown_def)

lemma shown_Cons_entry:
  "shown cmp m (e # es) =
     (if \<forall>x \<in> set m. cmp (fst x) (fst e) \<noteq> 0 then insert e (shown cmp m es) else shown cmp m es)"
  by (auto simp: shown_def)

lemma set_merged:
  "ordered cmp m \<Longrightarrow> ordered cmp es \<Longrightarrow> keys_within within m \<Longrightarrow> keys_within within es \<Longrightarrow>
   set (merged cmp m es) = shown cmp m es"
proof (induction m es rule: merge_induct)
  case (both k r m k' v es)
  then have w: "within k" "within k'" and o: "ordered cmp m" "ordered cmp es" "keys_within within m" "keys_within within es"
    by simp_all
  consider "cmp k k' = 0" | "cmp k k' < 0" | "\<not> cmp k k' < 0" "cmp k k' \<noteq> 0" by blast
  then show ?case
  proof cases
    case 1
    have "\<forall>x \<in> set es. cmp k (fst x) \<noteq> 0"
      using equiv_less_all [OF both.prems(2) 1 w(1) both.prems(4)] by fastforce
    then show ?thesis
      using 1 both.IH(1) [OF o] shown_Cons_entry [of "(k, r) # m" "(k', v)" es] shown_Cons_data [of es k r m] by simp
  next
    case 2
    have "\<forall>x \<in> set ((k', v) # es). cmp k (fst x) \<noteq> 0"
      using less_all [OF both.prems(2) 2 w(1) both.prems(4)] by fastforce
    then show ?thesis
      using 2 both.IH(2) [OF o(1) both.prems(2) o(3) both.prems(4)] shown_Cons_data [of "(k', v) # es" k r m] by simp
  next
    case 3
    have "\<forall>x \<in> set ((k, r) # m). cmp (fst x) k' \<noteq> 0"
      using greater_all [OF both.prems(1) 3 w(2) both.prems(3)] both.prems(3) cmp_zero_iff w(2)
      by (fastforce simp: keys_within_def)
    then show ?thesis
      using 3 both.IH(3) [OF both.prems(1) o(2) both.prems(3) o(4)]
        shown_Cons_entry [of "(k, r) # m" "(k', v)" es] by simp
  qed
next
  case (rest k r m)
  then show ?case by (simp add: shown_Cons_data)
qed (simp add: shown_def)

text \<open>A predicate on keys that does not tell equivalent keys apart selects in the merged list what
  it selects in both sources.\<close>

lemma merged_filter:
  assumes "ordered cmp m" "ordered cmp es" "keys_within within m" "keys_within within es"
    and "\<And>x y. within x \<Longrightarrow> within y \<Longrightarrow> cmp x y = 0 \<Longrightarrow> P x = P y"
  shows "merged cmp (filter (\<lambda>e. P (fst e)) m) (filter (\<lambda>e. P (fst e)) es) = filter (\<lambda>e. P (fst e)) (merged cmp m es)"
proof (rule ordered_unique)
  let ?m = "filter (\<lambda>e. P (fst e)) m" and ?es = "filter (\<lambda>e. P (fst e)) es"
  have ok: "ordered cmp ?m" "ordered cmp ?es" "keys_within within ?m" "keys_within within ?es"
    using assms(1-4) by (simp_all add: ordered_filter keys_within_filter)
  show "ordered cmp (merged cmp ?m ?es)" "ordered cmp (filter (\<lambda>e. P (fst e)) (merged cmp m es))"
    using ok assms(1-4) ordered_merged by (auto intro: ordered_filter)
  show "keys_within within (merged cmp ?m ?es)" using ok(3,4) by (rule merged_within)
  have P: "P (fst x) = P (fst e)" if "x \<in> set m" "e \<in> set es" "cmp (fst x) (fst e) = 0" for x e
    using assms(5) keys_withinD [OF assms(3) that(1)] keys_withinD [OF assms(4) that(2)] that(3) by blast
  have "{e \<in> set ?es. \<forall>x \<in> set ?m. cmp (fst x) (fst e) \<noteq> 0}
      = {e \<in> {e \<in> set es. \<forall>x \<in> set m. cmp (fst x) (fst e) \<noteq> 0}. P (fst e)}"
    unfolding set_filter using P by blast
  then have "shown cmp ?m ?es = {e \<in> shown cmp m es. P (fst e)}"
    unfolding shown_def by auto
  then show "set (merged cmp ?m ?es) = set (filter (\<lambda>e. P (fst e)) (merged cmp m es))"
    using set_merged [OF ok] set_merged [OF assms(1-4)] by simp
qed

lemma merged_flip:
  assumes "ordered cmp m" "ordered cmp es" "keys_within within m" "keys_within within es"
  shows "merged (\<lambda>a b. cmp b a) (rev m) (rev es) = rev (merged cmp m es)"
proof (rule three_way.ordered_unique [OF flip])
  have ok: "ordered (\<lambda>a b. cmp b a) (rev m)" "ordered (\<lambda>a b. cmp b a) (rev es)"
    "keys_within within (rev m)" "keys_within within (rev es)"
    using assms by simp_all
  show "ordered (\<lambda>a b. cmp b a) (merged (\<lambda>a b. cmp b a) (rev m) (rev es))"
    by (rule three_way.ordered_merged [OF flip ok])
  show "ordered (\<lambda>a b. cmp b a) (rev (merged cmp m es))" using ordered_merged [OF assms] by simp
  show "keys_within within (merged (\<lambda>a b. cmp b a) (rev m) (rev es))"
    by (rule three_way.merged_within [OF flip ok(3,4)])
  have "cmp (fst e) (fst x) = 0 \<longleftrightarrow> cmp (fst x) (fst e) = 0" if "x \<in> set m" "e \<in> set es" for x e
    using cmp_zero_iff keys_withinD [OF assms(3) that(1)] keys_withinD [OF assms(4) that(2)] by blast
  then have "{e \<in> set es. \<forall>x \<in> set m. cmp (fst e) (fst x) \<noteq> 0} = {e \<in> set es. \<forall>x \<in> set m. cmp (fst x) (fst e) \<noteq> 0}"
    by blast
  then have "shown (\<lambda>a b. cmp b a) (rev m) (rev es) = shown cmp m es"
    by (simp add: shown_def)
  then show "set (merged (\<lambda>a b. cmp b a) (rev m) (rev es)) = set (rev (merged cmp m es))"
    using three_way.set_merged [OF flip ok] set_merged [OF assms] by simp
qed

end

subsection \<open>Settling\<close>

text \<open>
  What the loop keeps: the elements left behind in the records are below all entries ahead, the
  entries left behind are not above any record ahead.
\<close>

definition in_step :: "('k \<Rightarrow> 'k \<Rightarrow> int) \<Rightarrow> ('k \<times> Record) list \<Rightarrow> ('k \<times> bytes) list \<Rightarrow> ('k \<times> Record) list \<Rightarrow>
    ('k \<times> bytes) list \<Rightarrow> bool" where
  "in_step cmp behind passed m es \<longleftrightarrow>
     (\<forall>p \<in> set behind. \<forall>x \<in> set es. cmp (fst p) (fst x) < 0) \<and>
     (\<forall>p \<in> set passed. \<forall>x \<in> set m. cmp (fst p) (fst x) \<le> 0)"

context three_way
begin

lemma settle_steps:
  assumes "ordered cmp (behind @ m)" "ordered cmp (passed @ es)" "keys_within within (behind @ m)"
    and "keys_within within (passed @ es)" "in_step cmp behind passed m es" "settle cmp m es = (m', es')"
  shows "\<exists>behind' passed'. behind @ m = behind' @ m' \<and> passed @ es = passed' @ es' \<and>
    in_step cmp behind' passed' m' es' \<and> settled cmp m' es' \<and> merged cmp m' es' = merged cmp m es"
  using assms
proof (induction m arbitrary: behind passed es)
  case Nil
  then show ?case by (auto simp: settled_def)
next
  case (Cons e m)
  obtain k r where e: "e = (k, r)" by (cases e)
  let ?eq = "es \<noteq> [] \<and> cmp k (fst (hd es)) = 0"
  define es1 where "es1 = (if ?eq then tl es else es)"
  define passed1 where "passed1 = (if ?eq then passed @ [hd es] else passed)"
  have split: "passed @ es = passed1 @ es1" by (simp add: es1_def passed1_def)
  have wk: "within k" using Cons.prems(3) e by simp
  have wes: "keys_within within es1" "ordered cmp es1" using Cons.prems(2,4) unfolding split by auto
  have above: "\<forall>x \<in> set es1. cmp k (fst x) < 0" if "es1 = [] \<or> ?eq \<or> cmp k (fst (hd es1)) < 0"
  proof (cases ?eq)
    case True
    then obtain v es2 where es: "es = (fst (hd es), v) # es2" by (cases es) auto
    have "ordered cmp ((fst (hd es), v) # es2)" "keys_within within ((fst (hd es), v) # es2)"
      using Cons.prems(2,4) es by (metis ordered_simps(3), metis keys_within_simps(3))
    from equiv_less_all [OF this(1) _ wk this(2)] True have "\<forall>x \<in> set es2. cmp k (fst x) < 0" by blast
    moreover have "es1 = es2" using True es by (metis es1_def list.sel(3))
    ultimately show ?thesis by simp
  next
    case False
    show ?thesis
    proof (cases es1)
      case (Cons x es2)
      then show ?thesis
        using that False less_all [of "fst x" "snd x" es2 k] wes wk by (simp add: es1_def)
    qed simp
  qed
  have kept: "in_step cmp behind passed1 (e # m) es1"
  proof -
    have "cmp (fst (hd es)) (fst x) \<le> 0" if "?eq" "x \<in> set (e # m)" for x
    proof -
      have we: "within (fst (hd es))" "within (fst x)"
        using Cons.prems(3,4) that by (cases es; auto simp: keys_within_def)+
      have "cmp (fst (hd es)) k = 0" using cmp_zero_iff [OF wk we(1)] that by simp
      moreover have "cmp k (fst x) \<le> 0"
        using Cons.prems(1) that(2) e cmp_refl [OF wk] by auto
      ultimately show ?thesis using cmp_trans [OF we(1) wk we(2)] by simp
    qed
    moreover have "set es1 \<subseteq> set es" by (auto simp: es1_def dest: list.set_sel(2))
    then have "\<forall>p \<in> set behind. \<forall>x \<in> set es1. cmp (fst p) (fst x) < 0"
      using Cons.prems(5) unfolding in_step_def by blast
    ultimately show ?thesis
      using Cons.prems(5) unfolding in_step_def passed1_def by (cases ?eq) auto
  qed
  have no_eq: "es1 = es" if "\<not> ?eq" unfolding es1_def using that by (rule if_not_P)
  have ahead: "es1 = [] \<or> cmp k (fst (hd es1)) < 0" if "?eq"
    using above that by (cases es1) auto
  let ?skip = "rec_deleted r \<and> (es1 = [] \<or> cmp k (fst (hd es1)) < 0)"
  have at_eq: "merged cmp (e # m) es =
      (if rec_deleted r then merged cmp m es1 else (k, rec_value r) # merged cmp m es1)" if "?eq"
    using that e by (cases es) (auto simp: es1_def)
  have at_less: "merged cmp (e # m) es1 =
      (if rec_deleted r then merged cmp m es1 else (k, rec_value r) # merged cmp m es1)"
    if "es1 = [] \<or> cmp k (fst (hd es1)) < 0"
    using that e by (cases es1) auto
  show ?case
  proof (cases ?skip)
    case True
    then have result: "settle cmp m es1 = (m', es')"
      using Cons.prems(6) e by (simp add: es1_def)
    have lists: "ordered cmp ((behind @ [e]) @ m)" "ordered cmp (passed1 @ es1)"
      "keys_within within ((behind @ [e]) @ m)" "keys_within within (passed1 @ es1)"
      using Cons.prems(1-4) split by auto
    have "in_step cmp (behind @ [e]) passed1 m es1"
      using kept above True e unfolding in_step_def by auto
    from Cons.IH [OF lists this result] have
      "\<exists>behind' passed'. (behind @ [e]) @ m = behind' @ m' \<and> passed1 @ es1 = passed' @ es' \<and>
         in_step cmp behind' passed' m' es' \<and> settled cmp m' es' \<and> merged cmp m' es' = merged cmp m es1" .
    moreover have "merged cmp m es1 = merged cmp (e # m) es"
      using True at_eq at_less no_eq by (cases ?eq) auto
    ultimately show ?thesis using split by simp
  next
    case False
    then have result: "m' = e # m" "es' = es1" using Cons.prems(6) e by (auto simp: es1_def split: if_splits)
    have "settled cmp (e # m) es1"
    proof -
      have "cmp k (fst (hd es1)) \<noteq> 0" if "es1 \<noteq> []"
        using that ahead no_eq by (cases ?eq) auto
      then show ?thesis using False e unfolding settled_def by auto
    qed
    moreover have "merged cmp (e # m) es1 = merged cmp (e # m) es"
      using at_eq at_less [OF ahead] no_eq by (cases ?eq) auto
    ultimately show ?thesis using kept split result by metis
  qed
qed

lemma head_merged:
  assumes "settled cmp m es" "keys_within within m" "keys_within within es"
  shows "head (merged cmp m es) = first_item cmp m es"
proof (cases m)
  case Nil
  then show ?thesis by (cases es) (simp_all add: head_def first_item_def)
next
  case (Cons e m')
  obtain k r where e: "e = (k, r)" by (cases e)
  show ?thesis
  proof (cases es)
    case Nil
    then show ?thesis using assms Cons e by (simp add: head_def first_item_def settled_def)
  next
    case (Cons x es')
    obtain k' v where x: "x = (k', v)" by (cases x)
    have w: "within k" "within k'" using assms(2,3) \<open>m = e # m'\<close> Cons e x by simp_all
    show ?thesis
      using assms(1) \<open>m = e # m'\<close> Cons e x cmp_asym [OF w] cmp_neg_iff [OF w]
      by (auto simp: head_def first_item_def settled_def)
  qed
qed

text \<open>Where the two lists stand, seen from the element that comes first.\<close>

lemma after_record:
  assumes "in_step cmp behind passed ((k, r) # m) es" "settled cmp ((k, r) # m) es"
    and "es = [] \<or> \<not> cmp (fst (hd es)) k < 0"
    and "ordered cmp (passed @ es)" "keys_within within (passed @ es)" "within k"
  shows "filter (\<lambda>e. cmp k (fst e) < 0) (passed @ es) = es"
proof -
  have "\<not> cmp k (fst p) < 0" if "p \<in> set passed" for p
  proof -
    have "cmp (fst p) k \<le> 0" using assms(1) that by (auto simp: in_step_def)
    then show ?thesis using cmp_le_iff [of k "fst p"] assms(5,6) that by (auto simp: keys_within_def)
  qed
  moreover have "cmp k (fst x) < 0" if x: "x \<in> set es" for x
  proof -
    obtain k' v es' where es: "es = (k', v) # es'" using x by (cases es) auto
    have "cmp k k' < 0"
      using assms(2,3,5,6) es cmp_neg_iff [of k' k] cmp_zero_iff [of k' k] by (auto simp: settled_def)
    then show ?thesis using less_all [of k' v es' k] assms(4-6) es x by auto
  qed
  ultimately have "filter (\<lambda>e. cmp k (fst e) < 0) passed = []" "filter (\<lambda>e. cmp k (fst e) < 0) es = es"
    by (auto simp: filter_empty_conv)
  then show ?thesis by simp
qed

lemma after_entry:
  assumes "in_step cmp behind passed m ((k, v) # es)" "m = [] \<or> cmp k (fst (hd m)) < 0"
    and "ordered cmp (behind @ m)" "keys_within within (behind @ m)" "within k"
  shows "filter (\<lambda>e. cmp k (fst e) < 0) (behind @ m) = m \<and> (\<forall>e \<in> set (behind @ m). cmp k (fst e) \<noteq> 0)"
proof -
  have before: "\<not> cmp k (fst p) < 0 \<and> cmp k (fst p) \<noteq> 0" if "p \<in> set behind" for p
  proof -
    have "cmp (fst p) k < 0" using assms(1) that by (auto simp: in_step_def)
    then show ?thesis
      using cmp_neg_iff [of "fst p" k] cmp_zero_iff [of k "fst p"] keys_withinD [OF assms(4), of p] assms(5) that
      by simp
  qed
  have after: "cmp k (fst x) < 0" if x: "x \<in> set m" for x
  proof -
    obtain k' r m' where m: "m = (k', r) # m'" using x by (cases m) auto
    then show ?thesis using less_all [of k' r m' k] assms(2-5) m x by auto
  qed
  have "filter (\<lambda>e. cmp k (fst e) < 0) behind = []" using before by (simp add: filter_empty_conv)
  moreover have "filter (\<lambda>e. cmp k (fst e) < 0) m = m" using after by (simp add: filter_id_conv)
  moreover have "\<forall>e \<in> set (behind @ m). cmp k (fst e) \<noteq> 0" using before after by fastforce
  ultimately show ?thesis by simp
qed

end

end
