(* ===== verification/Ldb_Cursor.thy ===== *)
theory Ldb_Cursor
  imports Ldb_View
begin

text \<open>
  The iterator of a transaction walks the merged view. The definition \<open>snapshot\<close> states what
  LevelDB documents of an iterator over a snapshot: it stands at an index into the sorted entries
  or past them. \<open>positioned\<close> is what an iterator of a transaction keeps: the one of its two
  iterators that is not current stands just beyond the current key.
\<close>

subsection \<open>What LevelDB promises\<close>

definition snapshot :: "'i leveldb \<Rightarrow> ('i \<Rightarrow> nat) \<Rightarrow> entry list \<Rightarrow> bool" where
  "snapshot lb pos entries \<longleftrightarrow>
     ordered (comparator lb) entries \<and> \<not> it_IsValid lb (it_Create lb) \<and>
     (\<forall>i. it_IsValid lb i = (pos i < length entries)) \<and>
     (\<forall>i. pos i < length entries \<longrightarrow> it_Key lb i = fst (entries ! pos i) \<and> it_Value lb i = snd (entries ! pos i)) \<and>
     (\<forall>i t. fst (it_Seek lb t i) \<and>
        pos (snd (it_Seek lb t i)) = length (takeWhile (\<lambda>e. comparator lb (fst e) t < 0) entries)) \<and>
     (\<forall>i. fst (it_SeekToLast lb i) \<and> pos (snd (it_SeekToLast lb i)) = length entries - 1) \<and>
     (\<forall>i. pos i < length entries \<longrightarrow> fst (it_Next lb i) \<and> pos (snd (it_Next lb i)) = Suc (pos i)) \<and>
     (\<forall>i. pos i < length entries \<longrightarrow> fst (it_Prev lb i) \<and>
        pos (snd (it_Prev lb i)) = (if pos i = 0 then length entries else pos i - 1)) \<and>
     (\<forall>key. db_Get lb key = (True, map_option snd (find (\<lambda>e. comparator lb (fst e) key = 0) entries)))"

subsection \<open>Both directions\<close>

fun dcmp :: "Direction \<Rightarrow> ('k \<Rightarrow> 'k \<Rightarrow> int) \<Rightarrow> 'k \<Rightarrow> 'k \<Rightarrow> int" where
  "dcmp FORWARD cmp a b = cmp a b"
| "dcmp REVERSE cmp a b = cmp b a"

fun in_dir :: "Direction \<Rightarrow> 'a list \<Rightarrow> 'a list" where
  "in_dir FORWARD xs = xs"
| "in_dir REVERSE xs = rev xs"

definition beyond :: "('k \<Rightarrow> 'k \<Rightarrow> int) \<Rightarrow> Direction \<Rightarrow> 'k \<Rightarrow> ('k \<times> 'v) list \<Rightarrow> ('k \<times> 'v) list" where
  "beyond cmp dir key xs = filter (\<lambda>e. dcmp dir cmp key (fst e) < 0) (in_dir dir xs)"

fun db_walk :: "('i \<Rightarrow> nat) \<Rightarrow> entry list \<Rightarrow> Direction \<Rightarrow> 'i \<Rightarrow> entry list" where
  "db_walk pos entries FORWARD i = drop (pos i) entries"
| "db_walk pos entries REVERSE i = (if pos i < length entries then rev (take (Suc (pos i)) entries) else [])"

lemma dcmp_fun: "dcmp FORWARD cmp = cmp" "dcmp REVERSE cmp = (\<lambda>a b. cmp b a)"
  by (simp_all add: fun_eq_iff)

lemma three_way_dcmp: "three_way cmp W \<Longrightarrow> three_way (dcmp dir cmp) W"
  by (cases dir) (simp_all add: dcmp_fun three_way.flip)

lemma ordered_in_dir: "ordered cmp xs \<Longrightarrow> ordered (dcmp dir cmp) (in_dir dir xs)"
  by (cases dir) (simp_all add: dcmp_fun)

lemma in_dir_simps [simp]:
  "set (in_dir dir xs) = set xs" "keys_within W (in_dir dir xs) = keys_within W xs"
  "in_dir dir (in_dir dir xs) = xs" "in_dir dir xs = [] \<longleftrightarrow> xs = []"
  by (cases dir; simp)+

lemma merged_in_dir:
  assumes "three_way cmp W" "ordered cmp m" "ordered cmp es" "keys_within W m" "keys_within W es"
  shows "merged (dcmp dir cmp) (in_dir dir m) (in_dir dir es) = in_dir dir (merged cmp m es)"
  using three_way.merged_flip [OF assms] by (cases dir) (simp_all add: dcmp_fun)

lemma in_dir_map: "in_dir dir (map g xs) = map g (in_dir dir xs)"
  by (cases dir) (simp_all add: rev_map)

text \<open>In an ordered list, dropping a beginning and selecting an end are the same.\<close>

lemma dropWhile_filter:
  assumes "ordered cmp xs" "\<And>x y. x \<in> set xs \<Longrightarrow> y \<in> set xs \<Longrightarrow> cmp (fst x) (fst y) < 0 \<Longrightarrow> P x \<Longrightarrow> P y"
  shows "dropWhile (\<lambda>e. \<not> P e) xs = filter P xs"
  using assms
proof (induction xs)
  case (Cons x xs)
  have IH: "dropWhile (\<lambda>e. \<not> P e) xs = filter P xs"
    using Cons.IH Cons.prems by auto
  have "filter P xs = xs" if "P x"
    using Cons.prems that by (intro filter_True) (metis list.set_intros ordered_simps(2))
  then show ?case using IH by simp
qed simp

lemma dropWhile_less:
  assumes "three_way cmp W" "ordered cmp xs" "keys_within W xs" "W t"
  shows "dropWhile (\<lambda>e. cmp (fst e) t < 0) xs = filter (\<lambda>e. \<not> cmp (fst e) t < 0) xs"
proof -
  have "\<not> cmp (fst y) t < 0" if "x \<in> set xs" "y \<in> set xs" "cmp (fst x) (fst y) < 0" "\<not> cmp (fst x) t < 0" for x y
    using three_way.cmp_less_trans [OF assms(1), of "fst x" "fst y" t] assms(3,4) that
    by (auto simp: keys_within_def)
  from dropWhile_filter [where P = "\<lambda>e. \<not> cmp (fst e) t < 0", OF assms(2) this] show ?thesis by simp
qed

subsection \<open>The iterator of the database\<close>

lemma valid_walk: "snapshot lb pos entries \<Longrightarrow> it_IsValid lb i \<longleftrightarrow> db_walk pos entries dir i \<noteq> []"
 by (cases dir) (auto simp: snapshot_def)

lemma at_walk:
  assumes snap: "snapshot lb pos entries" and *: "db_walk pos entries dir i = (k, v) # es"
  shows "it_Key lb i = k \<and> it_Value lb i = v"
proof (cases dir)
  case FORWARD
  then have d: "drop (pos i) entries = (k, v) # es" using * by simp
  then have len: "pos i < length entries" by (simp add: drop_eq_Nil not_le [symmetric]) auto
  then have "entries ! pos i = (k, v)" using d hd_drop_conv_nth [OF len] by simp
  then show ?thesis using snap len by (auto simp: snapshot_def)
next
  case REVERSE
  then have len: "pos i < length entries" using * by (auto split: if_splits)
  then have "entries ! pos i = (k, v)"
    using * REVERSE by (simp add: take_Suc_conv_app_nth)
  then show ?thesis using snap len by (auto simp: snapshot_def)
qed

lemma step_walk:
  assumes snap: "snapshot lb pos entries" and "db_walk pos entries dir i \<noteq> []"
  shows "fst (db_step lb dir i) \<and> db_walk pos entries dir (snd (db_step lb dir i)) = tl (db_walk pos entries dir i)"
proof (cases dir)
  case FORWARD
  then have "pos i < length entries" using assms(2) by simp
  then show ?thesis using snap FORWARD by (simp add: snapshot_def drop_Suc tl_drop)
next
  case REVERSE
  then have "pos i < length entries" using assms(2) by (auto split: if_splits)
  then show ?thesis
    using snap REVERSE by (cases "pos i") (auto simp: snapshot_def take_Suc_conv_app_nth)
qed

lemma seek_walk:
  assumes snap: "snapshot lb pos entries" and "three_way (comparator lb) W" "keys_within W entries" "W t"
  shows "fst (it_Seek lb t i) \<and> db_walk pos entries FORWARD (snd (it_Seek lb t i)) =
    filter (\<lambda>e. \<not> comparator lb (fst e) t < 0) entries"
proof -
  have o: "ordered (comparator lb) entries" using snap by (simp add: snapshot_def)
  have "fst (it_Seek lb t i)" "db_walk pos entries FORWARD (snd (it_Seek lb t i)) =
      drop (length (takeWhile (\<lambda>e. comparator lb (fst e) t < 0) entries)) entries"
    using snap by (simp_all add: snapshot_def)
  then show ?thesis
    using dropWhile_less [OF assms(2) o assms(3,4)] by (simp add: dropWhile_eq_drop)
qed

lemma last_walk:
  assumes snap: "snapshot lb pos entries"
  shows "fst (it_SeekToLast lb i) \<and> db_walk pos entries REVERSE (snd (it_SeekToLast lb i)) = rev entries"
  using snap by (cases entries) (auto simp: snapshot_def)

text \<open>After seeking a key, the entries before it in reverse.\<close>

lemma seek_reverse:
  assumes snap: "snapshot lb pos entries" and "three_way (comparator lb) W" "keys_within W entries" "W t"
  shows "db_walk pos entries REVERSE
      (snd (if it_IsValid lb (snd (it_Seek lb t i)) then it_Prev lb (snd (it_Seek lb t i))
            else it_SeekToLast lb (snd (it_Seek lb t i)))) = beyond (comparator lb) REVERSE t entries"
proof -
  let ?n = "length (takeWhile (\<lambda>e. comparator lb (fst e) t < 0) entries)"
  let ?i = "snd (it_Seek lb t i)"
  have o: "ordered (comparator lb) entries" and p: "pos ?i = ?n"
    using snap by (simp_all add: snapshot_def)
  have split: "entries = takeWhile (\<lambda>e. comparator lb (fst e) t < 0) entries
      @ filter (\<lambda>e. \<not> comparator lb (fst e) t < 0) entries"
    using takeWhile_dropWhile_id [of "\<lambda>e. comparator lb (fst e) t < 0" entries]
      dropWhile_less [OF assms(2) o assms(3,4)] by simp
  have "filter (\<lambda>e. comparator lb (fst e) t < 0) entries = takeWhile (\<lambda>e. comparator lb (fst e) t < 0) entries"
    by (subst split) (auto simp: filter_empty_conv filter_id_conv dest: set_takeWhileD)
  then have b: "beyond (comparator lb) REVERSE t entries = rev (take ?n entries)"
    by (simp add: beyond_def takeWhile_eq_take [symmetric] flip: rev_filter)
  show ?thesis
  proof (cases "it_IsValid lb ?i")
    case True
    then have "?n < length entries" using snap p by (simp add: snapshot_def)
    moreover from this have "pos (snd (it_Prev lb ?i)) = (if ?n = 0 then length entries else ?n - 1)"
      using snap p by (simp add: snapshot_def)
    ultimately show ?thesis using True b by (cases ?n) auto
  next
    case False
    then have "?n = length entries"
      using snap p length_takeWhile_le [of "\<lambda>e. comparator lb (fst e) t < 0" entries]
      by (simp add: snapshot_def)
    then show ?thesis using False b last_walk [OF snap] by simp
  qed
qed

subsection \<open>The iterator of the records\<close>

lemma ordered_apart:
  assumes "three_way cmp W" "ordered cmp xs" "keys_within W xs"
  shows "distinct (map fst xs)"
  using assms(2,3)
proof (induction xs)
  case (Cons x xs)
  then show ?case using three_way.cmp_irrefl [OF assms(1), of "fst x"] by auto
qed simp

lemma elements_from_dir: "elements_from dir (Some k) m = dropWhile (\<lambda>e. fst e \<noteq> k) (in_dir dir m)"
  by (cases dir) simp_all

lemma elements_from_suffix:
  assumes "distinct (map fst m)" "in_dir dir m = ys @ xs"
  shows "elements_from dir (iterator_at xs) m = xs"
proof (cases xs)
  case Nil
  then show ?thesis by (cases dir) (simp_all add: iterator_at_def)
next
  case (Cons x xs')
  have "distinct (map fst (in_dir dir m))" using assms(1) by (cases dir) (simp_all flip: rev_map)
  then have "\<forall>y \<in> set ys. fst y \<noteq> fst x" using assms(2) Cons by (auto simp: image_iff)
  then have "dropWhile (\<lambda>e. fst e \<noteq> fst x) (ys @ xs) = xs"
    using Cons by (simp add: dropWhile_append3 dropWhile_append)
  then show ?thesis using Cons assms(2) by (simp add: iterator_at_def elements_from_dir)
qed

lemma elements_from_tl:
  assumes "distinct (map fst m)" "k \<in> fst ` set m"
  shows "elements_from dir (iterator_at (tl (elements_from dir (Some k) m))) m = tl (elements_from dir (Some k) m)"
proof -
  let ?d = "dropWhile (\<lambda>e. fst e \<noteq> k) (in_dir dir m)"
  have "?d \<noteq> []" using assms(2) by auto
  then have "?d = hd ?d # tl ?d" by simp
  then have "in_dir dir m = (takeWhile (\<lambda>e. fst e \<noteq> k) (in_dir dir m) @ [hd ?d]) @ tl ?d"
    using takeWhile_dropWhile_id [of "\<lambda>e. fst e \<noteq> k" "in_dir dir m"] by (metis append.assoc append_Cons append_Nil)
  from elements_from_suffix [OF assms(1) this] show ?thesis by (simp add: elements_from_dir)
qed

text \<open>In an ordered map, what follows an element is what is beyond its key.\<close>

lemma tl_beyond:
  assumes "three_way cmp W" "ordered cmp m" "keys_within W m" "k \<in> fst ` set m"
  shows "tl (elements_from dir (Some k) m) = beyond cmp dir k m"
proof -
  have tw: "three_way (dcmp dir cmp) W" using assms(1) by (rule three_way_dcmp)
  have o: "ordered (dcmp dir cmp) (in_dir dir m)" using assms(2) by (rule ordered_in_dir)
  obtain ys e xs where split: "in_dir dir m = ys @ e # xs" "fst e = k" "\<forall>y \<in> set ys. fst y \<noteq> k"
  proof -
    have "\<exists>x \<in> set (in_dir dir m). fst x = k" using assms(4) by force
    from split_list_first_prop [OF this] show ?thesis using that by metis
  qed
  have w: "W (fst y)" if "y \<in> set (in_dir dir m)" for y using assms(3) that by (simp add: keys_within_def)
  have "\<not> dcmp dir cmp k (fst y) < 0" if "y \<in> set ys" for y
  proof -
    have "W (fst y)" "W k" using w [of y] w [of e] split that by simp_all
    moreover have "dcmp dir cmp (fst y) k < 0" using o split that by simp
    ultimately show ?thesis using three_way.cmp_asym [OF tw] by blast
  qed
  moreover have "\<not> dcmp dir cmp k k < 0" using three_way.cmp_irrefl [OF tw] w [of e] split by simp
  moreover have "dcmp dir cmp k (fst x) < 0" if "x \<in> set xs" for x using o split that by auto
  ultimately have "beyond cmp dir k m = xs"
    using split by (simp add: beyond_def filter_empty_conv filter_id_conv)
  moreover have "tl (elements_from dir (Some k) m) = xs"
    using split by (simp add: elements_from_dir dropWhile_append3 dropWhile_append)
  ultimately show ?thesis by simp
qed

lemma seek_elements:
  assumes "three_way cmp W" "ordered cmp m" "keys_within W m" "W t"
  shows "elements_from FORWARD (Data_Seek cmp t m) m = filter (\<lambda>e. \<not> cmp (fst e) t < 0) m"
proof -
  have "in_dir FORWARD m = takeWhile (\<lambda>e. cmp (fst e) t < 0) m @ lower_bound cmp t m"
    by (simp add: lower_bound_def)
  from elements_from_suffix [OF ordered_apart [OF assms(1-3)] this] show ?thesis
    using dropWhile_less [OF assms] by (simp add: Data_Seek_def lower_bound_def)
qed

lemma last_elements:
  assumes "three_way cmp W" "ordered cmp m" "keys_within W m"
  shows "elements_from REVERSE (Data_SeekToLast m) m = rev m"
  using elements_from_suffix [OF ordered_apart [OF assms], of REVERSE "[]" "rev m"]
  by (simp add: Data_SeekToLast_def)

lemma seek_next_elements:
  assumes "three_way cmp W" "ordered cmp m" "keys_within W m" "W t"
  shows "elements_from FORWARD (let s = Data_Seek cmp t m in
      if s \<noteq> None \<and> cmp (the s) t = 0 then Data_Next m s else s) m = beyond cmp FORWARD t m"
proof -
  let ?lb = "lower_bound cmp t m"
  have lb: "?lb = filter (\<lambda>e. \<not> cmp (fst e) t < 0) m"
    using dropWhile_less [OF assms] by (simp add: lower_bound_def)
  have less_iff: "cmp t (fst e) < 0 \<longleftrightarrow> \<not> cmp (fst e) t < 0 \<and> cmp (fst e) t \<noteq> 0" if "e \<in> set m" for e
    using three_way.cmp_neg_iff [OF assms(1), of "fst e" t] keys_withinD [OF assms(3) that] assms(4) by auto
  show ?thesis
  proof (cases ?lb)
    case Nil
    then have "beyond cmp FORWARD t m = []"
      using lb less_iff by (auto simp: beyond_def filter_empty_conv)
    then show ?thesis using Nil by (simp add: Data_Seek_def iterator_at_def)
  next
    case (Cons e es)
    then have "e \<in> set (filter (\<lambda>e. \<not> cmp (fst e) t < 0) m)" using lb by simp
    then have e: "e \<in> set m" "Data_Seek cmp t m = Some (fst e)" "\<not> cmp (fst e) t < 0"
      using Cons by (simp_all add: Data_Seek_def iterator_at_def)
    have seek: "elements_from FORWARD (Some (fst e)) m = e # es"
      using seek_elements [OF assms] e(2) lb Cons by simp
    show ?thesis
    proof (cases "cmp (fst e) t = 0")
      case True
      have "beyond cmp FORWARD t m = beyond cmp FORWARD (fst e) m"
        unfolding beyond_def
        using three_way.cmp_equiv_less [OF assms(1), of "fst e" t] three_way.cmp_equiv_less [OF assms(1), of t "fst e"]
          three_way.cmp_zero_iff [OF assms(1), of "fst e" t] True assms(3,4) e(1)
        by (auto simp: keys_within_def intro!: filter_cong)
      moreover have "elements_from FORWARD (Data_Next m (Some (fst e))) m = tl (elements_from FORWARD (Some (fst e)) m)"
        unfolding Data_Next_def using elements_from_tl [OF ordered_apart [OF assms(1-3)], of "fst e" FORWARD] e(1) by blast
      ultimately show ?thesis
        using e True tl_beyond [OF assms(1-3), of "fst e" FORWARD] by simp
    next
      case False
      have "beyond cmp FORWARD t m = filter (\<lambda>e. \<not> cmp (fst e) t < 0) m"
      proof -
        have "cmp t (fst e) < 0" using less_iff [OF e(1)] e(3) False by blast
        have "cmp (fst x) t \<noteq> 0" if "x \<in> set m" "\<not> cmp (fst x) t < 0" for x
        proof -
          have "x \<in> set (e # es)" using that lb Cons by (metis (mono_tags, lifting) mem_Collect_eq set_filter)
          then have "x = e \<or> cmp (fst e) (fst x) < 0"
            using lb Cons ordered_filter [OF assms(2), of "\<lambda>e. \<not> cmp (fst e) t < 0"] ordered_simps(2) [of cmp e es]
            by (metis set_ConsD)
          then have "cmp t (fst x) < 0"
            using \<open>cmp t (fst e) < 0\<close> three_way.cmp_less_trans [OF assms(1), of t "fst e" "fst x"]
              keys_withinD [OF assms(3)] e(1) that(1) assms(4) by blast
          then show ?thesis using less_iff [OF that(1)] by blast
        qed
        then show ?thesis unfolding beyond_def using less_iff by (auto intro!: filter_cong)
      qed
      then show ?thesis using e False seek lb Cons by simp
    qed
  qed
qed

lemma seek_prev_elements:
  assumes "three_way cmp W" "ordered cmp m" "keys_within W m" "W t"
    and "lower_bound cmp t m \<noteq> []"
  shows "elements_from REVERSE (Data_Prev m (Data_Seek cmp t m)) m = beyond cmp REVERSE t m"
proof -
  obtain e es where lb: "lower_bound cmp t m = e # es" using assms(5) by (cases "lower_bound cmp t m") auto
  then have split: "m = takeWhile (\<lambda>e. cmp (fst e) t < 0) m @ e # es" "\<not> cmp (fst e) t < 0"
    using takeWhile_dropWhile_id [of "\<lambda>e. cmp (fst e) t < 0" m] hd_dropWhile [of "\<lambda>e. cmp (fst e) t < 0" m]
    by (auto simp: lower_bound_def)
  have "e \<in> set m" by (subst split(1)) simp
  moreover have "Data_Seek cmp t m = Some (fst e)" using lb by (simp add: Data_Seek_def iterator_at_def)
  ultimately have e: "e \<in> set m" "Data_Seek cmp t m = Some (fst e)" .
  have w: "W (fst e)" "\<And>x. x \<in> set m \<Longrightarrow> W (fst x)" using assms(3) e(1) by (simp_all add: keys_within_def)
  have "cmp (fst x) (fst e) < 0 \<longleftrightarrow> cmp (fst x) t < 0" if "x \<in> set m" for x
  proof
    assume "cmp (fst x) (fst e) < 0"
    show "cmp (fst x) t < 0"
    proof (rule ccontr)
      assume *: "\<not> cmp (fst x) t < 0"
      then have "x \<in> set (lower_bound cmp t m)"
        using that dropWhile_less [OF assms(1-4)] by (simp add: lower_bound_def)
      then have "x = e \<or> cmp (fst e) (fst x) < 0"
        using lb assms(2) by (subst (asm) split(1)) auto
      then show False
        using \<open>cmp (fst x) (fst e) < 0\<close> three_way.cmp_asym [OF assms(1) w(1) w(2) [OF that]]
          three_way.cmp_irrefl [OF assms(1) w(1)] by auto
    qed
  next
    assume "cmp (fst x) t < 0"
    moreover have "cmp t (fst e) \<le> 0" using split(2) three_way.cmp_le_iff [OF assms(1) w(1) assms(4)] by simp
    ultimately show "cmp (fst x) (fst e) < 0"
      using three_way.cmp_strict_trans [OF assms(1) w(2) [OF that] assms(4) w(1)] by blast
  qed
  then have "beyond cmp REVERSE (fst e) m = beyond cmp REVERSE t m"
    unfolding beyond_def by (auto intro!: filter_cong)
  moreover have "elements_from REVERSE (Data_Prev m (Some (fst e))) m = beyond cmp REVERSE (fst e) m"
    unfolding Data_Prev_def
    using elements_from_tl [OF ordered_apart [OF assms(1-3)], of "fst e" REVERSE]
      tl_beyond [OF assms(1-3), of "fst e" REVERSE] e(1) by simp
  ultimately show ?thesis using e(2) by simp
qed

lemma seek_nothing:
  assumes "three_way cmp W" "ordered cmp m" "keys_within W m" "W t" "lower_bound cmp t m = []"
  shows "beyond cmp REVERSE t m = rev m"
proof -
  have "\<forall>e \<in> set m. cmp (fst e) t < 0" using assms(5) by (simp add: lower_bound_def dropWhile_eq_Nil_conv)
  then show ?thesis by (simp add: beyond_def filter_id_conv)
qed

lemma seek_none: "Data_Seek cmp t m = None \<longleftrightarrow> lower_bound cmp t m = []"
  by (simp add: Data_Seek_def iterator_at_def split: list.split)

subsection \<open>The loop over conflicts and deletions\<close>

lemma skip_deleted_settle:
  assumes "snapshot lb pos entries" "three_way (comparator lb) W" "keys_within W entries"
    and "keys_within W m" "set (db_walk pos entries dir db) \<subseteq> set entries"
  shows "\<exists>db'. skip_deleted lb dir m db =
      (fst (settle (dcmp dir (comparator lb)) m (db_walk pos entries dir db)), db') \<and>
    db_walk pos entries dir db' = snd (settle (dcmp dir (comparator lb)) m (db_walk pos entries dir db))"
  using assms(4,5)
proof (induction m arbitrary: db)
  case (Cons e m)
  obtain k r where e: "e = (k, r)" by (cases e)
  let ?cmp = "comparator lb" and ?c = "dcmp dir (comparator lb)"
  let ?w = "db_walk pos entries dir"
  have same: "?cmp k k' = 0 \<longleftrightarrow> ?c k k' = 0" and less: "DataIteratorIsAhead lb dir k db' \<longleftrightarrow> ?c k k' < 0"
    if "W k'" "k' = it_Key lb db'" for k' db'
    using that Cons.prems(1) e three_way.cmp_zero_iff [OF assms(2), of k k'] three_way.cmp_neg_iff [OF assms(2), of k k']
    by (cases dir; simp)+
  have key: "W (it_Key lb db') \<and> it_Key lb db' = fst (hd (?w db'))"
    if ne: "?w db' \<noteq> []" "set (?w db') \<subseteq> set entries" for db'
  proof -
    obtain x xs where x: "?w db' = x # xs" using ne(1) by (cases "?w db'") auto
    then have "it_Key lb db' = fst x" using at_walk [OF assms(1), of dir db' "fst x" "snd x" xs] by simp
    moreover have "x \<in> set entries" using x ne(2) by auto
    ultimately show ?thesis using x keys_withinD [OF assms(3)] by simp
  qed
  define db1 where "db1 = (if it_IsValid lb db \<and> ?cmp k (it_Key lb db) = 0 then snd (db_step lb dir db) else db)"
  have w1: "?w db1 = (if ?w db \<noteq> [] \<and> ?c k (fst (hd (?w db))) = 0 then tl (?w db) else ?w db)"
  proof (cases "?w db = []")
    case True
    then show ?thesis using valid_walk [OF assms(1), of db dir] by (simp add: db1_def)
  next
    case False
    have k: "W (it_Key lb db)" "it_Key lb db = fst (hd (?w db))" using key [OF False Cons.prems(2)] by blast+
    have "?cmp k (fst (hd (?w db))) = 0 \<longleftrightarrow> ?c k (fst (hd (?w db))) = 0" using same [OF k(1) refl] k(2) by simp
    then show ?thesis
      using valid_walk [OF assms(1), of db dir] k(2) False step_walk [OF assms(1) False] by (simp add: db1_def)
  qed
  have sub: "set (?w db1) \<subseteq> set entries"
    unfolding w1 using Cons.prems(2) by (auto dest: list.set_sel(2))
  have "(\<not> it_IsValid lb db1 \<or> DataIteratorIsAhead lb dir k db1) \<longleftrightarrow> (?w db1 = [] \<or> ?c k (fst (hd (?w db1))) < 0)"
  proof (cases "?w db1 = []")
    case True
    then show ?thesis using valid_walk [OF assms(1), of db1 dir] by simp
  next
    case False
    then show ?thesis
      using valid_walk [OF assms(1), of db1 dir] key [OF False sub] less [of "it_Key lb db1" db1] by metis
  qed
  then show ?case
    using Cons.IH [OF _ sub] Cons.prems(1) e w1
    by (auto simp: Let_def db1_def [symmetric])
qed simp

lemma db_walk_subset: "set (db_walk pos entries dir db) \<subseteq> set entries"
  by (cases dir) (auto dest: in_set_dropD in_set_takeD)

end
