(* ===== verification/Ldb_Walk.thy ===== *)
theory Ldb_Walk
  imports Ldb_Cursor
begin

text \<open>
  Where an iterator of a transaction arrives: seeking and stepping end with one settling of its
  two iterators, from the elements of both sources that a predicate on the keys selects.
\<close>

subsection \<open>Positions\<close>

definition item :: "'i leveldb \<Rightarrow> DataType \<Rightarrow> 'i TransactionIterator \<Rightarrow> entry option" where
  "item lb m it = (if current it = None then None else Some (current_key lb it, current_value lb m it))"

definition positioned ::
  "'i leveldb \<Rightarrow> ('i \<Rightarrow> nat) \<Rightarrow> entry list \<Rightarrow> DataType \<Rightarrow> 'i TransactionIterator \<Rightarrow> bool" where
  "positioned lb pos entries m it \<longleftrightarrow>
     (current it = Some DataIt \<longrightarrow> data_iterator it \<in> Some ` fst ` set m \<and>
        db_walk pos entries (direction it) (db_iterator it)
          = beyond (comparator lb) (direction it) (current_key lb it) entries) \<and>
     (current it = Some DbIt \<longrightarrow> it_IsValid lb (db_iterator it) \<and>
        (\<not> data_changed it \<longrightarrow> elements_from (direction it) (data_iterator it) m
          = beyond (comparator lb) (direction it) (current_key lb it) m))"

text \<open>The iterator of the records stands on one of them, or at the end.\<close>

definition held :: "DataType \<Rightarrow> 'i TransactionIterator \<Rightarrow> bool" where
  "held m it \<longleftrightarrow> data_iterator it \<in> insert None (Some ` fst ` set m)"

definition fresh :: "'i leveldb \<Rightarrow> DataType \<Rightarrow> 'i TransactionIterator \<Rightarrow> bool" where
  "fresh lb m it \<longleftrightarrow> held m it \<and>
     (current it = Some DbIt \<longrightarrow> (\<forall>e \<in> set m. comparator lb (current_key lb it) (fst e) \<noteq> 0))"

fun SetCurrent :: "'i leveldb \<Rightarrow> Direction \<Rightarrow> 'i TransactionIterator \<Rightarrow> 'i TransactionIterator" where
  "SetCurrent lb FORWARD it = SetCurrentIteratorToSmallestKey lb it"
| "SetCurrent lb REVERSE it = SetCurrentIteratorToLargestKey lb it"

text \<open>The hypotheses that the lemmas share: LevelDB keeps its promises, and the records are ordered.\<close>

definition ldb_ok :: "'i leveldb \<Rightarrow> (bytes \<Rightarrow> bool) \<Rightarrow> ('i \<Rightarrow> nat) \<Rightarrow> entry list \<Rightarrow> DataType \<Rightarrow> bool" where
  "ldb_ok lb W pos entries m \<longleftrightarrow>
     three_way (comparator lb) W \<and> snapshot lb pos entries \<and> keys_within W entries \<and>
     ordered (comparator lb) m \<and> keys_within W m"

lemma ldb_okD:
  assumes "ldb_ok lb W pos entries m"
  shows "three_way (comparator lb) W" "snapshot lb pos entries" "keys_within W entries"
    "ordered (comparator lb) m" "keys_within W m" "ordered (comparator lb) entries"
  using assms by (auto simp: ldb_ok_def snapshot_def)

lemma SetCurrent_simps [simp]:
  "direction (SetCurrent lb dir it) = direction it" "data_changed (SetCurrent lb dir it) = data_changed it"
  "data_iterator (SetCurrent lb dir it) = data_iterator it" "db_iterator (SetCurrent lb dir it) = db_iterator it"
  by (cases dir; simp add: SetCurrentIteratorToSmallestKey_def SetCurrentIteratorToLargestKey_def Let_def)+

lemma Handle_simps [simp]:
  "direction (HandleConflictsAndDeletes lb m it) = direction it"
  "data_changed (HandleConflictsAndDeletes lb m it) = data_changed it"
  by (simp_all add: HandleConflictsAndDeletes_def split: prod.split)

lemma skip_deleted_suffix: "set (fst (skip_deleted lb dir es db)) \<subseteq> set es"
  by (induction lb dir es db rule: skip_deleted.induct) (auto simp: Let_def)

lemma elements_from_subset: "set (elements_from dir di m) \<subseteq> set m"
  by (cases di; cases dir) (auto dest: set_dropWhileD)

lemma held_SetCurrent [simp]: "held m (SetCurrent lb dir it) = held m it"
  by (simp add: held_def)

lemma held_Handle: "held m (HandleConflictsAndDeletes lb m it)"
proof -
  obtain ahead db where s: "skip_deleted lb (direction it) (elements_from (direction it) (data_iterator it) m)
      (db_iterator it) = (ahead, db)" by fastforce
  then have "set ahead \<subseteq> set m"
    using skip_deleted_suffix [of lb "direction it" "elements_from (direction it) (data_iterator it) m" "db_iterator it"]
      elements_from_subset [of "direction it" "data_iterator it" m] by auto
  then show ?thesis
    using s by (cases ahead) (auto simp: held_def HandleConflictsAndDeletes_def iterator_at_def)
qed

lemma map_of_data: "distinct (map fst m) \<Longrightarrow> (k, r) \<in> set m \<Longrightarrow> map_of m k = Some r"
  by simp

lemma SetCurrent_current:
  assumes "three_way (comparator lb) W"
    and "data_iterator it \<noteq> None \<Longrightarrow> W (the (data_iterator it))"
    and "it_IsValid lb (db_iterator it) \<Longrightarrow> W (it_Key lb (db_iterator it))"
  shows "current (SetCurrent lb dir it) =
    (if it_IsValid lb (db_iterator it) \<and> (data_iterator it = None \<or>
          dcmp dir (comparator lb) (it_Key lb (db_iterator it)) (the (data_iterator it)) < 0)
     then Some DbIt else if data_iterator it = None then None else Some DataIt)"
  using assms three_way.cmp_neg_iff [OF assms(1), of "it_Key lb (db_iterator it)" "the (data_iterator it)"]
  by (cases dir; cases "data_iterator it")
    (auto simp: SetCurrentIteratorToSmallestKey_def SetCurrentIteratorToLargestKey_def Let_def)

lemma filter_split:
  assumes "ordered cmp xs"
    and "\<And>x y. x \<in> set xs \<Longrightarrow> y \<in> set xs \<Longrightarrow> cmp (fst x) (fst y) < 0 \<Longrightarrow> P (fst x) \<Longrightarrow> P (fst y)"
  shows "xs = filter (\<lambda>e. \<not> P (fst e)) xs @ filter (\<lambda>e. P (fst e)) xs"
  using assms
proof (induction xs)
  case (Cons x xs)
  have IH: "xs = filter (\<lambda>e. \<not> P (fst e)) xs @ filter (\<lambda>e. P (fst e)) xs"
    using Cons.IH Cons.prems by (meson list.set_intros(2) ordered_simps(2))
  show ?case
  proof (cases "P (fst x)")
    case True
    then have "\<forall>y \<in> set xs. P (fst y)"
      using Cons.prems by (metis list.set_intros ordered_simps(2))
    then show ?thesis using True by (simp add: filter_id_conv filter_empty_conv)
  next
    case False
    then show ?thesis using IH by simp
  qed
qed simp

text \<open>The arrival. The predicate is closed in the direction of travel.\<close>

lemma arrive:
  assumes ok: "ldb_ok lb W pos entries m"
    and closed: "\<And>x y. W x \<Longrightarrow> W y \<Longrightarrow> P y \<Longrightarrow> \<not> P x \<Longrightarrow> dcmp dir (comparator lb) x y < 0"
    and dir: "direction it = dir"
    and data: "elements_from dir (data_iterator it) m = filter (\<lambda>e. P (fst e)) (in_dir dir m)"
    and db: "db_walk pos entries dir (db_iterator it) = filter (\<lambda>e. P (fst e)) (in_dir dir entries)"
    and it': "it' = SetCurrent lb dir (HandleConflictsAndDeletes lb m it)"
  shows "positioned lb pos entries m it' \<and> fresh lb m it' \<and> direction it' = dir \<and> data_changed it' = data_changed it \<and>
    item lb m it' = head (filter (\<lambda>e. P (fst e)) (in_dir dir (merged (comparator lb) m entries)))"
proof -
  let ?c = "dcmp dir (comparator lb)"
  let ?S = "filter (\<lambda>e. P (fst e)) (in_dir dir m)" and ?T = "filter (\<lambda>e. P (fst e)) (in_dir dir entries)"
  let ?B = "filter (\<lambda>e. \<not> P (fst e)) (in_dir dir m)" and ?A = "filter (\<lambda>e. \<not> P (fst e)) (in_dir dir entries)"
  note D = ldb_okD [OF ok]
  have tw: "three_way ?c W" using D(1) by (rule three_way_dcmp)
  have up: "P y" if "W x" "W y" "?c x y < 0" "P x" for x y
    using closed [OF that(2,1,4)] three_way.cmp_asym [OF tw that(1,2,3)] by blast
  have om: "ordered ?c (in_dir dir m)" and oe: "ordered ?c (in_dir dir entries)"
    using D(4,6) by (simp_all add: ordered_in_dir)
  have wm: "keys_within W (in_dir dir m)" and we: "keys_within W (in_dir dir entries)" using D(3,5) by simp_all
  have sm: "in_dir dir m = ?B @ ?S"
    by (rule filter_split [OF om]) (use up keys_withinD [OF wm] in blast)
  have se: "in_dir dir entries = ?A @ ?T"
    by (rule filter_split [OF oe]) (use up keys_withinD [OF we] in blast)
  have step: "in_step ?c ?B ?A ?S ?T"
    using closed D(3,5) unfolding in_step_def by (force simp: keys_within_def)
  obtain S' T' where settle: "settle ?c ?S ?T = (S', T')" by fastforce
  have lists: "ordered ?c (?B @ ?S)" "ordered ?c (?A @ ?T)" "keys_within W (?B @ ?S)" "keys_within W (?A @ ?T)"
    using om oe wm we sm se by simp_all
  obtain behind passed where after: "?B @ ?S = behind @ S'" "?A @ ?T = passed @ T'"
    "in_step ?c behind passed S' T'" "settled ?c S' T'" "merged ?c S' T' = merged ?c ?S ?T"
    using three_way.settle_steps [OF tw lists step settle] by blast
  have dm: "in_dir dir m = behind @ S'" using sm after(1) by (rule trans)
  have de: "in_dir dir entries = passed @ T'" using se after(2) by (rule trans)
  define it1 where "it1 = HandleConflictsAndDeletes lb m it"
  obtain db' where db': "it1 = it\<lparr>data_iterator := iterator_at S', db_iterator := db'\<rparr>"
    "db_walk pos entries dir db' = T'"
    using skip_deleted_settle [OF D(2,1,3), of ?S dir "db_iterator it"] keys_within_filter [OF wm]
      db_walk_subset settle
    by (auto simp: it1_def HandleConflictsAndDeletes_def dir data db)
  have md: "distinct (map fst m)" using ordered_apart [OF D(1,4,5)] .
  have at: "elements_from dir (iterator_at S') m = S'"
    using elements_from_suffix [OF md dm] .
  have wS: "keys_within W S'" and wT: "keys_within W T'" using wm we by (simp_all add: dm de)
  have valid: "it_IsValid lb db' \<longleftrightarrow> T' \<noteq> []" using valid_walk [OF D(2), of db' dir] db'(2) by simp
  have hdT: "it_Key lb db' = fst (hd T') \<and> it_Value lb db' = snd (hd T') \<and> W (fst (hd T'))" if "T' \<noteq> []"
    using that at_walk [OF D(2), of dir db' "fst (hd T')" "snd (hd T')" "tl T'"] db'(2) wT
    by (cases T') auto
  have hdS: "data_iterator it1 = Some (fst (hd S')) \<and> W (fst (hd S')) \<and> hd S' \<in> set m" if "S' \<noteq> []"
  proof -
    have "hd S' \<in> set (in_dir dir m)" using that by (simp add: dm)
    then show ?thesis using that db'(1) wS by (cases S') (auto simp: iterator_at_def)
  qed
  have noS: "data_iterator it1 = None" if "S' = []" using that db'(1) by (simp add: iterator_at_def)
  have cur: "current it' = (if T' \<noteq> [] \<and> (S' = [] \<or> ?c (fst (hd T')) (fst (hd S')) < 0) then Some DbIt
      else if S' = [] then None else Some DataIt)"
    unfolding it' it1_def [symmetric]
    using SetCurrent_current [OF D(1), of it1 dir] hdS hdT noS valid db'(1) by (cases "S' = []") auto
  have fields: "data_iterator it' = data_iterator it1" "db_iterator it' = db'" "direction it' = dir"
    "data_changed it' = data_changed it"
    by (simp_all add: it' it1_def [symmetric] db'(1) dir)
  have S': "S' = (fst (hd S'), snd (hd S')) # tl S'" if "S' \<noteq> []" using that by simp
  have T': "T' = (fst (hd T'), snd (hd T')) # tl T'" if "T' \<noteq> []" using that by simp
  have item: "item lb m it' = first_item ?c S' T'"
    using cur hdS hdT fields map_of_data [OF md, of "fst (hd S')" "snd (hd S')"]
    by (cases S'; cases T') (auto simp: item_def first_item_def current_key_def current_value_def)
  have setm: "set m = set (behind @ S')" using in_dir_simps(1) [of dir m] dm by simp
  have zero: "comparator lb x y = 0 \<longleftrightarrow> ?c x y = 0" if "W x" "W y" for x y
    using three_way.cmp_zero_iff [OF D(1) that] by (cases dir) simp_all
  have "positioned lb pos entries m it' \<and> fresh lb m it'"
  proof -
    have "db_walk pos entries dir db' = beyond (comparator lb) dir (fst (hd S')) entries"
      if "current it' = Some DataIt"
    proof -
      have ne: "S' \<noteq> []" and less: "T' = [] \<or> \<not> ?c (fst (hd T')) (fst (hd S')) < 0"
        using that cur by (auto split: if_splits)
      from three_way.after_record [OF tw, of behind passed "fst (hd S')" "snd (hd S')" "tl S'" T'] less
      show ?thesis
        using S' [OF ne] after(3,4) oe we hdS [OF ne] by (simp add: db'(2) beyond_def de)
    qed
    moreover have "S' = beyond (comparator lb) dir (fst (hd T')) m \<and> (\<forall>e \<in> set m. ?c (fst (hd T')) (fst e) \<noteq> 0)"
      if "current it' = Some DbIt"
    proof -
      have ne: "T' \<noteq> []" and less: "S' = [] \<or> ?c (fst (hd T')) (fst (hd S')) < 0"
        using that cur by (auto split: if_splits)
      from three_way.after_entry [OF tw, of behind passed S' "fst (hd T')" "snd (hd T')" "tl T'"] less
      show ?thesis
        using T' [OF ne] after(3) om wm hdT [OF ne] setm by (simp add: beyond_def dm)
    qed
    moreover have "S' \<noteq> []" if "current it' = Some DataIt" using that cur by (auto split: if_splits)
    moreover have "T' \<noteq> []" if "current it' = Some DbIt" using that cur by (auto split: if_splits)
    ultimately show ?thesis
      using fields hdS hdT valid at db'(1) zero keys_withinD [OF D(5)] held_Handle [of m lb it]
      unfolding positioned_def fresh_def current_key_def it' by (auto simp: image_image)
  qed
  moreover have "head (merged ?c ?S ?T) = head (filter (\<lambda>e. P (fst e)) (in_dir dir (merged (comparator lb) m entries)))"
  proof -
    have eq: "P x = P y" if "W x" "W y" "?c x y = 0" for x y
      using closed [OF that(1,2)] closed [OF that(2,1)] that(3) three_way.cmp_zero_iff [OF tw that(1,2)] by force
    show ?thesis
      using three_way.merged_filter [OF tw om oe wm we, of P] eq merged_in_dir [OF D(1,4,6,5,3), of dir] by simp
  qed
  ultimately show ?thesis
    using item fields three_way.head_merged [OF tw after(4) wS wT] after(5) by simp
qed

subsection \<open>Seeking\<close>

lemma Seek_arrives:
  assumes ok: "ldb_ok lb W pos entries m" and t: "W t"
  shows "\<exists>it'. Iterator_Seek lb m t it = (True, it') \<and> positioned lb pos entries m it' \<and> fresh lb m it' \<and>
    direction it' = FORWARD \<and> data_changed it' = data_changed it \<and>
    item lb m it' = head (filter (\<lambda>e. \<not> comparator lb (fst e) t < 0) (merged (comparator lb) m entries))"
proof -
  note D = ldb_okD [OF ok]
  let ?it = "it\<lparr>data_iterator := Data_Seek (comparator lb) t m, db_iterator := snd (it_Seek lb t (db_iterator it)),
    direction := FORWARD\<rparr>"
  note seek = seek_walk [OF D(2,1,3) t, of "db_iterator it"]
  have closed: "comparator lb x y < 0" if "W x" "W y" "\<not> comparator lb y t < 0" "\<not> \<not> comparator lb x t < 0" for x y
    using three_way.cmp_strict_trans [OF D(1) that(1) t that(2)] three_way.cmp_le_iff [OF D(1) that(2) t] that(3,4) by simp
  have "Iterator_Seek lb m t it = (True, SetCurrent lb FORWARD (HandleConflictsAndDeletes lb m ?it))"
    using seek by (cases "it_Seek lb t (db_iterator it)") (simp add: Iterator_Seek_def)
  then show ?thesis
    using arrive [OF ok _ _ _ _ refl, of "\<lambda>k. \<not> comparator lb k t < 0" FORWARD ?it] closed
      seek_elements [OF D(1,4,5) t] seek by simp
qed

lemma SeekToLast_arrives:
  assumes ok: "ldb_ok lb W pos entries m"
  shows "\<exists>it'. Iterator_SeekToLast lb m it = (True, it') \<and> positioned lb pos entries m it' \<and> fresh lb m it' \<and>
    direction it' = REVERSE \<and> data_changed it' = data_changed it \<and>
    item lb m it' = head (rev (merged (comparator lb) m entries))"
proof -
  note D = ldb_okD [OF ok]
  let ?it = "it\<lparr>data_iterator := Data_SeekToLast m, db_iterator := snd (it_SeekToLast lb (db_iterator it)),
    direction := REVERSE\<rparr>"
  note last = last_walk [OF D(2), of "db_iterator it"]
  have "Iterator_SeekToLast lb m it = (True, SetCurrent lb REVERSE (HandleConflictsAndDeletes lb m ?it))"
    using last by (cases "it_SeekToLast lb (db_iterator it)") (simp add: Iterator_SeekToLast_def)
  then show ?thesis
    using arrive [OF ok _ _ _ _ refl, of "\<lambda>k. True" REVERSE ?it]
      last_elements [OF D(1,4,5)] last by simp
qed

subsection \<open>Stepping\<close>

lemma current_within:
  assumes "ldb_ok lb W pos entries m" "positioned lb pos entries m it" "current it \<noteq> None"
  shows "W (current_key lb it)"
proof (cases "current it")
  case (Some w)
  note D = ldb_okD [OF assms(1)]
  show ?thesis
  proof (cases w)
    case DataIt
    then show ?thesis using Some assms(2) D(5) by (auto simp: positioned_def current_key_def keys_within_def)
  next
    case DbIt
    then have "pos (db_iterator it) < length entries" "it_Key lb (db_iterator it) = fst (entries ! pos (db_iterator it))"
      using Some assms(2) D(2) by (auto simp: positioned_def snapshot_def)
    then show ?thesis using Some DbIt D(3) by (simp add: current_key_def keys_within_def)
  qed
qed (use assms(3) in simp)

text \<open>An element of the snapshot is followed by what is beyond its key.\<close>

lemma walk_beyond:
  assumes ok: "ldb_ok lb W pos entries m" and valid: "it_IsValid lb i"
  shows "tl (db_walk pos entries dir i) = beyond (comparator lb) dir (it_Key lb i) entries"
proof -
  note D = ldb_okD [OF ok]
  have tw: "three_way (dcmp dir (comparator lb)) W" using D(1) by (rule three_way_dcmp)
  have "\<exists>passed. in_dir dir entries = passed @ db_walk pos entries dir i"
    using valid D(2) by (cases dir) (auto simp: snapshot_def simp flip: rev_append
        intro: exI [of _ "take (pos i) entries"] exI [of _ "rev (drop (Suc (pos i)) entries)"])
  then obtain passed where split: "in_dir dir entries = passed @ db_walk pos entries dir i" by blast
  obtain e xs where w: "db_walk pos entries dir i = e # xs"
    using valid valid_walk [OF D(2), of i dir] by (cases "db_walk pos entries dir i") auto
  have k: "it_Key lb i = fst e" using at_walk [OF D(2), of dir i "fst e" "snd e" xs] w by simp
  have o: "ordered (dcmp dir (comparator lb)) (passed @ e # xs)" "keys_within W (passed @ e # xs)"
    using ordered_in_dir [OF D(6), of dir] D(3) split w by (metis, metis in_dir_simps(2))
  have "\<not> dcmp dir (comparator lb) (fst e) (fst y) < 0" if "y \<in> set (passed @ [e])" for y
    using that o three_way.cmp_asym [OF tw, of "fst y" "fst e"] three_way.cmp_irrefl [OF tw, of "fst e"]
      keys_withinD [OF o(2)] by (cases "y = e") auto
  moreover have "dcmp dir (comparator lb) (fst e) (fst y) < 0" if "y \<in> set xs" for y
    using that o by simp
  ultimately have "filter (\<lambda>y. dcmp dir (comparator lb) (fst e) (fst y) < 0) (passed @ e # xs) = xs"
    by (simp add: filter_empty_conv filter_id_conv)
  then show ?thesis by (simp add: beyond_def k w split)
qed


lemma beyond_closed:
  assumes "three_way cmp W" "W k" "W x" "W y" "dcmp dir cmp k y < 0" "\<not> dcmp dir cmp k x < 0"
  shows "dcmp dir cmp x y < 0"
  using three_way.cmp_strict_trans2 [OF three_way_dcmp [OF assms(1), of dir] assms(3,2,4)] assms(5,6)
    three_way.cmp_le_iff [OF three_way_dcmp [OF assms(1), of dir] assms(2,3)] by auto

text \<open>A step from a key arrives at the head of what is beyond it in the view.\<close>

lemma step_arrives:
  assumes ok: "ldb_ok lb W pos entries m" and at: "positioned lb pos entries m it"
    and "\<not> data_changed it" "current it \<noteq> None"
  shows "\<exists>it2. step_current lb m it = (True, it2) \<and>
    (\<forall>it'. it' = SetCurrent lb (direction it) (HandleConflictsAndDeletes lb m it2) \<longrightarrow>
       positioned lb pos entries m it' \<and> fresh lb m it' \<and> direction it' = direction it \<and> \<not> data_changed it' \<and>
       item lb m it' =
         head (beyond (comparator lb) (direction it) (current_key lb it) (merged (comparator lb) m entries)))"
proof -
  note D = ldb_okD [OF ok]
  let ?dir = "direction it" and ?k = "current_key lb it"
  have k: "W ?k" by (rule current_within [OF ok at assms(4)])
  have md: "distinct (map fst m)" using ordered_apart [OF D(1,4,5)] .
  obtain it2 where it2: "step_current lb m it = (True, it2)" "direction it2 = ?dir" "data_changed it2 = data_changed it"
    "elements_from ?dir (data_iterator it2) m = beyond (comparator lb) ?dir ?k m"
    "db_walk pos entries ?dir (db_iterator it2) = beyond (comparator lb) ?dir ?k entries"
  proof (cases "current it = Some DataIt")
    case True
    then have d: "data_iterator it = Some ?k" "?k \<in> fst ` set m"
      "db_walk pos entries ?dir (db_iterator it) = beyond (comparator lb) ?dir ?k entries"
      using at by (force simp: positioned_def current_key_def)+
    have "elements_from ?dir (case ?dir of FORWARD \<Rightarrow> Data_Next m (Some ?k) | REVERSE \<Rightarrow> Data_Prev m (Some ?k)) m
        = beyond (comparator lb) ?dir ?k m"
      using elements_from_tl [OF md d(2), of ?dir] tl_beyond [OF D(1,4,5) d(2), of ?dir]
      by (cases ?dir) (simp_all add: Data_Next_def Data_Prev_def)
    then show ?thesis
      using d True by (intro that [of "snd (step_current lb m it)"]; cases ?dir) (simp_all add: step_current_def)
  next
    case False
    then have db: "current it = Some DbIt" using assms(4) by (cases "current it"; cases "the (current it)") auto
    then have v: "it_IsValid lb (db_iterator it)" "it_Key lb (db_iterator it) = ?k"
      "elements_from ?dir (data_iterator it) m = beyond (comparator lb) ?dir ?k m"
      using at assms(3) by (simp_all add: positioned_def current_key_def)
    have "db_walk pos entries ?dir (db_iterator it) \<noteq> []" using v(1) valid_walk [OF D(2)] by blast
    from step_walk [OF D(2) this] walk_beyond [OF ok v(1), of ?dir] v db that show ?thesis
      by (cases "db_step lb ?dir (db_iterator it)") (simp add: step_current_def)
  qed
  have "positioned lb pos entries m it' \<and> fresh lb m it' \<and> direction it' = ?dir \<and> data_changed it' = data_changed it2 \<and>
      item lb m it' = head (filter (\<lambda>e. dcmp ?dir (comparator lb) ?k (fst e) < 0)
        (in_dir ?dir (merged (comparator lb) m entries)))"
    if "it' = SetCurrent lb ?dir (HandleConflictsAndDeletes lb m it2)" for it'
    by (rule arrive [OF ok _ it2(2) _ _ that, of "\<lambda>x. dcmp ?dir (comparator lb) ?k x < 0"])
      (use beyond_closed [OF D(1) k] it2(4,5) in \<open>simp_all add: beyond_def\<close>)
  then show ?thesis using it2(1,3) assms(3) by (simp add: beyond_def)
qed

text \<open>Before stepping, an iterator is told of the records that were inserted. One case is left
  out: in reverse, on an element of the snapshot that no record follows.\<close>

definition loses_records :: "'i leveldb \<Rightarrow> DataType \<Rightarrow> 'i TransactionIterator \<Rightarrow> bool" where
  "loses_records lb m it \<longleftrightarrow> data_changed it \<and> current it = Some DbIt \<and> direction it = REVERSE \<and>
     m \<noteq> [] \<and> lower_bound (comparator lb) (current_key lb it) m = []"

lemma refreshed_same:
  "current (refreshed lb m it) = current it" "direction (refreshed lb m it) = direction it"
  "db_iterator (refreshed lb m it) = db_iterator it" "\<not> data_changed (refreshed lb m it)"
  by (simp_all add: refreshed_def RefreshDataIterator_def Let_def)

lemma refreshed_record:
  "current it = Some DataIt \<Longrightarrow> data_iterator it \<noteq> None \<Longrightarrow> data_iterator (refreshed lb m it) = data_iterator it"
  by (simp add: refreshed_def RefreshDataIterator_def Let_def)

lemma refreshed_key:
  assumes "positioned lb pos entries m it" "current it \<noteq> None"
  shows "current_key lb (refreshed lb m it) = current_key lb it"
proof (cases "current it = Some DataIt")
  case True
  then have "data_iterator it \<noteq> None" using assms(1) by (auto simp: positioned_def)
  from refreshed_record [OF True this] True show ?thesis by (simp add: current_key_def refreshed_same)
qed (simp add: current_key_def refreshed_same)

lemma refreshed_positioned:
  assumes ok: "ldb_ok lb W pos entries m" and at: "positioned lb pos entries m it" "current it \<noteq> None"
    and fine: "\<not> loses_records lb m it"
  shows "positioned lb pos entries m (refreshed lb m it)"
proof (cases "data_changed it \<and> current it = Some DbIt")
  case True
  note D = ldb_okD [OF ok]
  let ?k = "current_key lb it"
  have k: "W ?k" by (rule current_within [OF ok at])
  have key: "it_Key lb (db_iterator it) = ?k" "it_IsValid lb (db_iterator it)"
    using True at by (simp_all add: current_key_def positioned_def)
  have "elements_from (direction it) (data_iterator (refreshed lb m it)) m = beyond (comparator lb) (direction it) ?k m"
  proof (cases "direction it")
    case FORWARD
    then show ?thesis
      using True key seek_next_elements [OF D(1,4,5) k]
      by (cases "Data_Seek (comparator lb) ?k m"; cases "comparator lb (the (Data_Seek (comparator lb) ?k m)) ?k = 0")
        (simp_all add: refreshed_def RefreshDataIterator_def Let_def)
  next
    case REVERSE
    show ?thesis
    proof (cases "lower_bound (comparator lb) ?k m = []")
      case True
      then have "m = []" using fine REVERSE \<open>data_changed it \<and> current it = Some DbIt\<close> by (simp add: loses_records_def)
      then show ?thesis
        using REVERSE by (cases "data_iterator (refreshed lb m it)") (simp_all add: beyond_def)
    next
      case False
      then show ?thesis
        using REVERSE True key seek_prev_elements [OF D(1,4,5) k False] seek_none [of "comparator lb" ?k m]
        by (simp add: refreshed_def RefreshDataIterator_def Let_def)
    qed
  qed
  then show ?thesis using True key(2) refreshed_key [OF at] by (simp add: positioned_def refreshed_same)
next
  case False
  show ?thesis
  proof (cases "data_changed it")
    case True
    then have c: "current it = Some DataIt" using False at(2) by (cases "current it"; cases "the (current it)") auto
    then have d: "data_iterator it \<noteq> None" using at(1) by (auto simp: positioned_def)
    show ?thesis
      using at(1) c refreshed_same [of lb m it] refreshed_record [OF c d]
      by (simp add: positioned_def current_key_def)
  next
    case False
    then show ?thesis using at(1) by (simp add: refreshed_def)
  qed
qed

subsection \<open>Turning\<close>

lemma DataChanged_simps [simp]:
  "data_iterator (DataChanged it) = data_iterator it" "db_iterator (DataChanged it) = db_iterator it"
  "current (DataChanged it) = current it" "direction (DataChanged it) = direction it" "data_changed (DataChanged it)"
  "current_key lb (DataChanged it) = current_key lb it"
  by (simp_all add: DataChanged_def current_key_def)

lemma positioned_DataChanged: "positioned lb pos entries m it \<Longrightarrow> positioned lb pos entries m (DataChanged it)"
  by (simp add: positioned_def)

lemma refreshed_weak:
  assumes "positioned lb pos entries m it" "current it \<noteq> None"
  shows "positioned lb pos entries m (DataChanged (refreshed lb m it))"
proof (cases "current it = Some DataIt")
  case True
  then have "data_iterator it \<noteq> None" using assms(1) by (auto simp: positioned_def)
  from refreshed_record [OF True this, of lb m] show ?thesis
    using assms(1) True refreshed_same [of lb m it] refreshed_key [OF assms] by (simp add: positioned_def)
next
  case False
  then show ?thesis
    using assms(1) refreshed_same [of lb m it] by (simp add: positioned_def)
qed

lemma seek_past:
  fixes j
  assumes ok: "ldb_ok lb W pos entries m" and t: "W t"
  defines "i \<equiv> snd (it_Seek lb t j)"
  defines "at \<equiv> it_IsValid lb i \<and> comparator lb (it_Key lb i) t = 0"
  shows "(at \<longrightarrow> fst (it_Next lb i)) \<and>
    db_walk pos entries FORWARD (if at then snd (it_Next lb i) else i) = beyond (comparator lb) FORWARD t entries"
proof -
  note D = ldb_okD [OF ok]
  have w: "db_walk pos entries FORWARD i = filter (\<lambda>e. \<not> comparator lb (fst e) t < 0) entries"
    using seek_walk [OF D(2,1,3) t] by (simp add: i_def)
  have less: "comparator lb t (fst e) < 0 \<longleftrightarrow> \<not> comparator lb (fst e) t < 0 \<and> comparator lb (fst e) t \<noteq> 0"
    if "e \<in> set entries" for e
    using three_way.cmp_neg_iff [OF D(1), of "fst e" t] keys_withinD [OF D(3) that] t by auto
  show ?thesis
  proof (cases "it_IsValid lb i")
    case False
    then have none: "filter (\<lambda>e. \<not> comparator lb (fst e) t < 0) entries = []"
      using w valid_walk [OF D(2), of i FORWARD] by simp
    moreover have "beyond (comparator lb) FORWARD t entries = []"
      using none less by (auto simp: beyond_def filter_empty_conv)
    ultimately show ?thesis using False w by (simp add: at_def)
  next
    case True
    then obtain e es where e: "db_walk pos entries FORWARD i = e # es"
      using valid_walk [OF D(2), of i FORWARD] by (cases "db_walk pos entries FORWARD i") auto
    have k: "it_Key lb i = fst e" using at_walk [OF D(2), of FORWARD i "fst e" "snd e" es] e by simp
    have fl: "filter (\<lambda>e. \<not> comparator lb (fst e) t < 0) entries = e # es" using w e by simp
    have sub: "set (e # es) \<subseteq> {x \<in> set entries. \<not> comparator lb (fst x) t < 0}"
      unfolding fl [symmetric] by auto
    then have mem: "e \<in> set entries" "\<not> comparator lb (fst e) t < 0" by auto
    have o: "ordered (comparator lb) (e # es)" using ordered_filter [OF D(6)] fl by metis
    have we: "W (fst x)" if "x \<in> set entries" for x using keys_withinD [OF D(3) that] .
    have past: "comparator lb t (fst x) < 0" if "x \<in> set es" for x
    proof -
      have xe: "x \<in> set entries" using sub that by auto
      have "comparator lb (fst e) (fst x) < 0" using o that by simp
      then show ?thesis
        using three_way.cmp_strict_trans2 [OF D(1) t, of "fst e" "fst x"] three_way.cmp_le_iff [OF D(1) t, of "fst e"]
          mem(2) we [OF mem(1)] we [OF xe] three_way.cmp_zero_iff [OF D(1) t we [OF mem(1)]] by auto
    qed
    have "beyond (comparator lb) FORWARD t entries = filter (\<lambda>y. comparator lb t (fst y) < 0) (e # es)"
      unfolding e [symmetric] w using less by (auto simp: beyond_def intro!: filter_cong)
    also have "\<dots> = (if at then es else e # es)"
      using past less [OF mem(1)] mem(2) True k by (auto simp: at_def filter_id_conv)
    finally show ?thesis
      using step_walk [OF D(2), of FORWARD i] e by (auto simp: at_def simp del: db_walk.simps)
  qed
qed

text \<open>Turning keeps the current element and moves the other iterator beyond it.\<close>

lemma turn_forward_positioned:
  assumes ok: "ldb_ok lb W pos entries m" and at: "positioned lb pos entries m (DataChanged it)"
    and cur: "current it \<noteq> None" and k: "W (current_key lb it)"
    and "\<not> data_changed it" "direction it = REVERSE"
  shows "\<exists>it1. turn_forward lb m it = (True, it1) \<and> positioned lb pos entries m it1 \<and> direction it1 = FORWARD \<and>
    \<not> data_changed it1 \<and> current it1 = current it \<and> current_key lb it1 = current_key lb it"
proof -
  note D = ldb_okD [OF ok]
  let ?k = "current_key lb it"
  show ?thesis
  proof (cases "current it = Some DbIt")
    case True
    let ?d = "let s = Data_Seek (comparator lb) ?k m in
        if s \<noteq> None \<and> comparator lb (the s) ?k = 0 then Data_Next m s else s"
    have turn: "turn_forward lb m it = (True, it\<lparr>data_iterator := ?d, direction := FORWARD\<rparr>)"
      using True assms(6) by (simp add: turn_forward_def Let_def)
    have key: "current_key lb (it\<lparr>data_iterator := ?d, direction := FORWARD\<rparr>) = ?k"
      using True by (simp add: current_key_def)
    show ?thesis
      unfolding turn using True at assms(5) seek_next_elements [OF D(1,4,5) k] key
      by (auto simp: positioned_def)
  next
    case False
    then have c: "current it = Some DataIt" using cur by (cases "current it"; cases "the (current it)") auto
    define db where "db = snd (it_Seek lb ?k (db_iterator it))"
    define same where "same \<longleftrightarrow> it_IsValid lb db \<and> comparator lb (it_Key lb db) ?k = 0"
    note seek = seek_past [OF ok k, of "db_iterator it", folded db_def, folded same_def]
    let ?it1 = "it\<lparr>db_iterator := if same then snd (it_Next lb db) else db, direction := FORWARD\<rparr>"
    have turn: "turn_forward lb m it = (True, ?it1)"
      using c assms(6) seek
      by (cases "it_Next lb db") (simp add: turn_forward_def Let_def flip: db_def same_def)
    have key: "current_key lb ?it1 = ?k" using c by (simp add: current_key_def)
    show ?thesis
      unfolding turn using c at assms(5) seek key by (simp add: positioned_def)
  qed
qed

lemma turn_reverse_positioned:
  assumes ok: "ldb_ok lb W pos entries m" and at: "positioned lb pos entries m (DataChanged it)"
    and cur: "current it \<noteq> None" and k: "W (current_key lb it)"
    and "\<not> data_changed it" "direction it = FORWARD"
  shows "\<exists>it1. turn_reverse lb m it = (True, it1) \<and> positioned lb pos entries m it1 \<and> direction it1 = REVERSE \<and>
    \<not> data_changed it1 \<and> current it1 = current it \<and> current_key lb it1 = current_key lb it"
proof -
  note D = ldb_okD [OF ok]
  let ?k = "current_key lb it"
  show ?thesis
  proof (cases "current it = Some DbIt")
    case True
    let ?s = "Data_Seek (comparator lb) ?k m"
    let ?d = "if ?s \<noteq> None then Data_Prev m ?s else Data_SeekToLast m"
    have turn: "turn_reverse lb m it = (True, it\<lparr>data_iterator := ?d, direction := REVERSE\<rparr>)"
      using True assms(6) by (simp add: turn_reverse_def Let_def)
    have key: "current_key lb (it\<lparr>data_iterator := ?d, direction := REVERSE\<rparr>) = ?k"
      using True by (simp add: current_key_def)
    have "elements_from REVERSE ?d m = beyond (comparator lb) REVERSE ?k m"
      using seek_none [of "comparator lb" ?k m] seek_prev_elements [OF D(1,4,5) k] seek_nothing [OF D(1,4,5) k]
        last_elements [OF D(1,4,5)] by (cases "?s = None") simp_all
    then show ?thesis
      unfolding turn using True at assms(5) key by (auto simp: positioned_def)
  next
    case False
    then have c: "current it = Some DataIt" using cur by (cases "current it"; cases "the (current it)") auto
    define db where "db = snd (it_Seek lb ?k (db_iterator it))"
    have seek: "it_Seek lb ?k (db_iterator it) = (True, db)"
      using seek_walk [OF D(2,1,3) k, of "db_iterator it"] by (simp add: db_def prod_eq_iff)
    let ?it1 = "it\<lparr>db_iterator := snd (if it_IsValid lb db then it_Prev lb db else it_SeekToLast lb db),
      direction := REVERSE\<rparr>"
    have turn: "turn_reverse lb m it = (True, ?it1)"
      using c assms(6) seek by (simp add: turn_reverse_def Let_def)
    have key: "current_key lb ?it1 = ?k" using c by (simp add: current_key_def)
    show ?thesis
      unfolding turn
      using c at assms(5) seek_reverse [OF D(2,1,3) k, of "db_iterator it", folded db_def] key
      by (simp add: positioned_def del: db_walk.simps)
  qed
qed

text \<open>\<open>Next\<close> arrives at the next element of the view, whatever was inserted before. \<open>Prev\<close> arrives
  at the previous one, unless its records were lost.\<close>

lemma Next_arrives:
  assumes ok: "ldb_ok lb W pos entries m" and at: "positioned lb pos entries m it" "current it \<noteq> None"
  shows "\<exists>it'. Iterator_Next lb m it = Some (True, it') \<and> positioned lb pos entries m it' \<and> fresh lb m it' \<and>
    direction it' = FORWARD \<and> \<not> data_changed it' \<and>
    item lb m it' = head (beyond (comparator lb) FORWARD (current_key lb it) (merged (comparator lb) m entries))"
proof -
  let ?r = "refreshed lb m it"
  have k: "W (current_key lb ?r)" using current_within [OF ok at] refreshed_key [OF at] by simp
  have weak: "positioned lb pos entries m (DataChanged ?r)" by (rule refreshed_weak [OF at])
  obtain it1 where it1: "turn_forward lb m ?r = (True, it1)" "positioned lb pos entries m it1" "direction it1 = FORWARD"
    "\<not> data_changed it1" "current it1 = current it" "current_key lb it1 = current_key lb it"
  proof (cases "direction it")
    case FORWARD
    then have "\<not> loses_records lb m it" by (simp add: loses_records_def)
    from refreshed_positioned [OF ok at this] FORWARD show ?thesis
      using refreshed_same [of lb m it] refreshed_key [OF at] by (intro that [of ?r]) (simp_all add: turn_forward_def)
  next
    case REVERSE
    then show ?thesis
      using turn_forward_positioned [OF ok weak _ k] refreshed_same [of lb m it] refreshed_key [OF at] at(2) that
      by (simp add: refreshed_same) metis
  qed
  have "current it1 \<noteq> None" using it1(5) at(2) by simp
  from step_arrives [OF ok it1(2,4) this] obtain it2 where it2: "step_current lb m it1 = (True, it2)"
    "\<And>it'. it' = SetCurrent lb (direction it1) (HandleConflictsAndDeletes lb m it2) \<Longrightarrow>
       positioned lb pos entries m it' \<and> fresh lb m it' \<and> direction it' = direction it1 \<and> \<not> data_changed it' \<and>
       item lb m it' =
         head (beyond (comparator lb) (direction it1) (current_key lb it1) (merged (comparator lb) m entries))"
    by blast
  then show ?thesis using it1 at(2) by (simp add: Iterator_Next_def)
qed

lemma Prev_arrives:
  assumes ok: "ldb_ok lb W pos entries m" and at: "positioned lb pos entries m it" "current it \<noteq> None"
    and fine: "\<not> loses_records lb m it"
  shows "\<exists>it'. Iterator_Prev lb m it = Some (True, it') \<and> positioned lb pos entries m it' \<and> fresh lb m it' \<and>
    direction it' = REVERSE \<and> \<not> data_changed it' \<and>
    item lb m it' = head (beyond (comparator lb) REVERSE (current_key lb it) (merged (comparator lb) m entries))"
proof -
  let ?r = "refreshed lb m it"
  have k: "W (current_key lb ?r)" using current_within [OF ok at] refreshed_key [OF at] by simp
  have r: "positioned lb pos entries m ?r" by (rule refreshed_positioned [OF ok at fine])
  obtain it1 where it1: "turn_reverse lb m ?r = (True, it1)" "positioned lb pos entries m it1" "direction it1 = REVERSE"
    "\<not> data_changed it1" "current it1 = current it" "current_key lb it1 = current_key lb it"
  proof (cases "direction it")
    case REVERSE
    then show ?thesis
      using r refreshed_same [of lb m it] refreshed_key [OF at] by (intro that [of ?r]) (simp_all add: turn_reverse_def)
  next
    case FORWARD
    then show ?thesis
      using turn_reverse_positioned [OF ok positioned_DataChanged [OF r] _ k] refreshed_same [of lb m it]
        refreshed_key [OF at] at(2) that
      by (simp add: refreshed_same) metis
  qed
  have "current it1 \<noteq> None" using it1(5) at(2) by simp
  from step_arrives [OF ok it1(2,4) this] obtain it2 where it2: "step_current lb m it1 = (True, it2)"
    "\<And>it'. it' = SetCurrent lb (direction it1) (HandleConflictsAndDeletes lb m it2) \<Longrightarrow>
       positioned lb pos entries m it' \<and> fresh lb m it' \<and> direction it' = direction it1 \<and> \<not> data_changed it' \<and>
       item lb m it' =
         head (beyond (comparator lb) (direction it1) (current_key lb it1) (merged (comparator lb) m entries))"
    by blast
  then show ?thesis using it1 at(2) by (simp add: Iterator_Prev_def)
qed

end
