(* ===== verification/Ldb_Writes.thy ===== *)
theory Ldb_Writes
  imports Ldb_Walk
begin

text \<open>
  What the operations of a transaction make of its view: putting, removing, deleting at an
  iterator, removing a range and writing the batch of a commit; and that the iterators of the
  transaction keep their positions.
\<close>

subsection \<open>Looking up a key\<close>

definition lookup :: "(bytes \<Rightarrow> bytes \<Rightarrow> int) \<Rightarrow> bytes \<Rightarrow> entry list \<Rightarrow> bytes option" where
  "lookup cmp key es = map_option snd (find (\<lambda>e. cmp (fst e) key = 0) es)"

context three_way
begin

lemma ordered_equiv_unique:
  assumes "ordered cmp xs" "keys_within within xs" "x \<in> set xs" "y \<in> set xs" "within k"
    and "cmp (fst x) k = 0" "cmp (fst y) k = 0"
  shows "x = y"
proof -
  have "within (fst x)" "within (fst y)" using assms(2-4) keys_withinD by blast+
  then have "cmp (fst x) (fst y) = 0" "cmp (fst y) (fst x) = 0"
    using assms(5-7) cmp_equiv_trans cmp_zero_iff by metis+
  moreover have "x = y \<or> cmp (fst x) (fst y) < 0 \<or> cmp (fst y) (fst x) < 0"
    using assms(1,3,4) by (induction xs) auto
  ultimately show ?thesis by simp
qed

end

lemma lookup_iff:
  assumes "three_way cmp W" "ordered cmp es" "keys_within W es" "W key"
  shows "lookup cmp key es = Some v \<longleftrightarrow> (\<exists>k. (k, v) \<in> set es \<and> cmp k key = 0)"
proof
  assume "lookup cmp key es = Some v"
  then show "\<exists>k. (k, v) \<in> set es \<and> cmp k key = 0"
    by (auto simp: lookup_def find_Some_iff) (metis fst_conv nth_mem)
next
  assume "\<exists>k. (k, v) \<in> set es \<and> cmp k key = 0"
  then obtain k where k: "(k, v) \<in> set es" "cmp k key = 0" by blast
  then obtain e where e: "find (\<lambda>e. cmp (fst e) key = 0) es = Some e"
    by (cases "find (\<lambda>e. cmp (fst e) key = 0) es") (auto simp: find_None_iff)
  then have "e \<in> set es" "cmp (fst e) key = 0" by (auto simp: find_Some_iff)
  then have "e = (k, v)"
    using three_way.ordered_equiv_unique [OF assms(1-3) _ k(1) assms(4)] k(2) by simp
  then show "lookup cmp key es = Some v" using e by (simp add: lookup_def)
qed

lemma lookup_None:
  "lookup cmp key es = None \<longleftrightarrow> (\<forall>e \<in> set es. cmp (fst e) key \<noteq> 0)"
  by (auto simp: lookup_def find_None_iff)

lemma data_find_iff:
  assumes "three_way cmp W" "ordered cmp m" "keys_within W m" "W key"
  shows "data_find cmp key m = Some e \<longleftrightarrow> e \<in> set m \<and> cmp (fst e) key = 0"
proof -
  have lb: "lower_bound cmp key m = filter (\<lambda>e. \<not> cmp (fst e) key < 0) m"
    using dropWhile_less [OF assms] by (simp add: lower_bound_def)
  have w: "W (fst x)" if "x \<in> set m" for x using keys_withinD [OF assms(3) that] .
  have o: "ordered cmp (lower_bound cmp key m)" using ordered_filter [OF assms(2)] lb by simp
  have sub: "set (lower_bound cmp key m) = {x \<in> set m. \<not> cmp (fst x) key < 0}" using lb by simp
  show ?thesis
  proof (cases "lower_bound cmp key m")
    case Nil
    then have "cmp (fst e) key < 0" if "e \<in> set m" using sub that Nil by (cases e) auto
    then show ?thesis using Nil by (auto simp: data_find_def)
  next
    case (Cons x xs)
    have x: "x \<in> set m" "\<not> cmp (fst x) key < 0" using sub Cons by auto
    have zero: "cmp (fst x) key = 0 \<longleftrightarrow> \<not> cmp key (fst x) < 0"
      using three_way.cmp_neg_iff [OF assms(1) w [OF x(1)] assms(4)] x(2) by auto
    have only: "e = x" if "e \<in> set m" "cmp (fst e) key = 0"
    proof (rule ccontr)
      assume "e \<noteq> x"
      moreover have "e \<in> set (x # xs)" using that sub Cons by simp
      ultimately have "cmp (fst x) (fst e) < 0" using o Cons by simp
      then have "cmp (fst x) key < 0"
        using three_way.cmp_less_equiv [OF assms(1) w [OF x(1)] w [OF that(1)] assms(4)] that(2) by blast
      then show False using x(2) by simp
    qed
    show ?thesis
      using Cons x zero only by (auto simp: data_find_def)
  qed
qed

lemma data_find_None:
  assumes "three_way cmp W" "ordered cmp m" "keys_within W m" "W key"
  shows "data_find cmp key m = None \<longleftrightarrow> (\<forall>e \<in> set m. cmp (fst e) key \<noteq> 0)"
  using data_find_iff [OF assms] by (metis not_None_eq)

text \<open>A lookup in the transaction is a lookup in its view.\<close>

lemma Get_lookup:
  assumes ok: "ldb_ok lb W pos entries (data_of t)" and k: "W key"
  shows "Transaction_Get lb key t = (True, lookup (comparator lb) key (merged (comparator lb) (data_of t) entries))"
proof -
  note D = ldb_okD [OF ok]
  let ?c = "comparator lb" and ?m = "data_of t"
  let ?v = "merged ?c ?m entries"
  have sv: "set ?v = shown ?c ?m entries" using three_way.set_merged [OF D(1,4,6,5,3)] .
  have ov: "ordered ?c ?v" "keys_within W ?v"
    using three_way.ordered_merged [OF D(1,4,6,5,3)] three_way.merged_within [OF D(1,5,3)] by simp_all
  show ?thesis
  proof (cases "data_find ?c key ?m")
    case None
    then have none: "\<forall>e \<in> set ?m. ?c (fst e) key \<noteq> 0" using data_find_None [OF D(1,4,5) k] by blast
    have "(k', v) \<in> shown ?c ?m entries \<longleftrightarrow> (k', v) \<in> set entries" if "?c k' key = 0" "W k'" for k' v
    proof -
      have "?c (fst x) k' \<noteq> 0" if "x \<in> set ?m" for x
        using none that \<open>?c k' key = 0\<close> three_way.cmp_equiv_trans [OF D(1) keys_withinD [OF D(5) that] \<open>W k'\<close> k] by blast
      moreover have "(k', r) \<notin> set ?m" for r using none that by force
      ultimately show ?thesis by (auto simp: shown_def)
    qed
    then have "lookup ?c key ?v = Some v \<longleftrightarrow> lookup ?c key entries = Some v" for v
      using lookup_iff [OF D(1) ov k, of v] lookup_iff [OF D(1,6,3) k, of v] keys_withinD [OF D(3)]
        keys_withinD [OF ov(2)] sv by (metis fst_conv)
    then have "lookup ?c key ?v = lookup ?c key entries" by (metis option.exhaust)
    moreover have "db_Get lb key = (True, lookup ?c key entries)" using D(2) by (simp add: snapshot_def lookup_def)
    ultimately show ?thesis using None by (simp add: Transaction_Get_def)
  next
    case (Some e)
    then have e: "e \<in> set ?m" "?c (fst e) key = 0" using data_find_iff [OF D(1,4,5) k] by blast+
    have we: "W (fst e)" using keys_withinD [OF D(5) e(1)] .
    have shown_e: "x \<in> shown ?c ?m entries \<longleftrightarrow> x = (fst e, rec_value (snd e)) \<and> \<not> rec_deleted (snd e)"
      if "?c (fst x) key = 0" for x
    proof
      assume x: "x \<in> shown ?c ?m entries"
      have "W (fst x)" using x sv keys_withinD [OF ov(2)] by metis
      then have "?c (fst e) (fst x) = 0"
        using three_way.cmp_equiv_trans [OF D(1) we k] three_way.cmp_zero_iff [OF D(1), of "fst x" key] e(2) that k by blast
      then obtain r where r: "(fst x, r) \<in> set ?m" "snd x = rec_value r" "\<not> rec_deleted r"
        using x e(1) by (auto simp: shown_def)
      then have "(fst x, r) = e"
        using three_way.ordered_equiv_unique [OF D(1,4,5) r(1) e(1) k] that e(2) by simp
      then show "x = (fst e, rec_value (snd e)) \<and> \<not> rec_deleted (snd e)" using r by (metis fst_conv prod.collapse snd_conv)
    next
      assume "x = (fst e, rec_value (snd e)) \<and> \<not> rec_deleted (snd e)"
      then show "x \<in> shown ?c ?m entries" using e(1) by (cases e) (auto simp: shown_def)
    qed
    have "lookup ?c key ?v = (if rec_deleted (snd e) then None else Some (rec_value (snd e)))"
    proof (cases "rec_deleted (snd e)")
      case True
      then have "\<forall>x \<in> set ?v. ?c (fst x) key \<noteq> 0" using shown_e sv by auto
      then show ?thesis using True lookup_None [of ?c key ?v] by simp
    next
      case False
      then have "(fst e, rec_value (snd e)) \<in> set ?v" using shown_e [of "(fst e, rec_value (snd e))"] e(2) sv by simp
      then show ?thesis using False lookup_iff [OF D(1) ov k] e(2) by auto
    qed
    then show ?thesis using Some by (cases e) (simp add: Transaction_Get_def)
  qed
qed

subsection \<open>Setting a record\<close>

definition record_set :: "(bytes \<Rightarrow> bytes \<Rightarrow> int) \<Rightarrow> bytes \<Rightarrow> Record \<Rightarrow> DataType \<Rightarrow> DataType" where
  "record_set cmp key r m =
     (case data_find cmp key m of
        None \<Rightarrow> data_insert cmp key r m
      | Some (k, old) \<Rightarrow> data_replace k (\<lambda>_. r) m)"

definition record_key :: "(bytes \<Rightarrow> bytes \<Rightarrow> int) \<Rightarrow> bytes \<Rightarrow> DataType \<Rightarrow> bytes" where
  "record_key cmp key m = (case data_find cmp key m of None \<Rightarrow> key | Some (k, old) \<Rightarrow> k)"

lemma replace_keys [simp]: "map fst (data_replace k g m) = map fst m"
  by (simp add: data_replace_def)

lemma ordered_keys: "ordered cmp xs \<longleftrightarrow> sorted_wrt (\<lambda>a b. cmp a b < 0) (map fst xs)"
  by (simp add: ordered_def sorted_wrt_map)

lemma keys_within_keys: "keys_within W xs \<longleftrightarrow> (\<forall>k \<in> set (map fst xs). W k)"
  by (auto simp: keys_within_def)

lemma record_set_props:
  assumes tw: "three_way cmp W" and m: "ordered cmp m" "keys_within W m" and k: "W key"
  shows "ordered cmp (record_set cmp key r m)" "keys_within W (record_set cmp key r m)"
    "set (record_set cmp key r m) = {e \<in> set m. cmp (fst e) key \<noteq> 0} \<union> {(record_key cmp key m, r)}"
    "cmp (record_key cmp key m) key = 0" "W (record_key cmp key m)"
    "fst ` set m \<subseteq> fst ` set (record_set cmp key r m)"
proof -
  define m' where "m' = record_set cmp key r m"
  define k0 where "k0 = record_key cmp key m"
  have w: "W (fst x)" if "x \<in> set m" for x using keys_withinD [OF m(2) that] .
  have "ordered cmp m' \<and> keys_within W m' \<and> set m' = {e \<in> set m. cmp (fst e) key \<noteq> 0} \<union> {(k0, r)} \<and>
    cmp k0 key = 0 \<and> W k0 \<and> fst ` set m \<subseteq> fst ` set m'"
  proof (cases "data_find cmp key m")
    case None
    then have none: "\<forall>e \<in> set m. cmp (fst e) key \<noteq> 0" using data_find_None [OF tw m k] by blast
    have m': "m' = takeWhile (\<lambda>e. cmp (fst e) key < 0) m @ (key, r) # dropWhile (\<lambda>e. cmp (fst e) key < 0) m"
      and k0: "k0 = key"
      using None by (simp_all add: m'_def k0_def record_set_def record_key_def data_insert_def)
    have dw: "dropWhile (\<lambda>e. cmp (fst e) key < 0) m = filter (\<lambda>e. \<not> cmp (fst e) key < 0) m"
      using dropWhile_less [OF tw m k] .
    have split: "m = takeWhile (\<lambda>e. cmp (fst e) key < 0) m @ dropWhile (\<lambda>e. cmp (fst e) key < 0) m" by simp
    have set': "set m' = insert (key, r) (set m)"
      unfolding m' by (subst (3) split) (simp add: Un_commute del: takeWhile_dropWhile_id)
    have above: "cmp key (fst x) < 0" if "x \<in> set (dropWhile (\<lambda>e. cmp (fst e) key < 0) m)" for x
    proof -
      have x: "x \<in> set m" "\<not> cmp (fst x) key < 0" using that unfolding dw by simp_all
      then have "cmp (fst x) key \<noteq> 0" using none by blast
      then show ?thesis using x(2) three_way.cmp_neg_iff [OF tw w [OF x(1)] k] by linarith
    qed
    have "ordered cmp (takeWhile (\<lambda>e. cmp (fst e) key < 0) m @ dropWhile (\<lambda>e. cmp (fst e) key < 0) m)"
      using m(1) by simp
    then have "ordered cmp m'"
      using above unfolding m' ordered_simps by (auto dest: set_takeWhileD)
    then show ?thesis using set' none k0 k w three_way.cmp_refl [OF tw k] by (auto simp: keys_within_def)
  next
    case (Some e)
    then have e: "e \<in> set m" "cmp (fst e) key = 0" using data_find_iff [OF tw m k] by blast+
    have m': "m' = data_replace (fst e) (\<lambda>_. r) m" and k0: "k0 = fst e"
      using Some by (auto simp: m'_def k0_def record_set_def record_key_def split: prod.split)
    have keys: "map fst m' = map fst m" unfolding m' by simp
    have img: "fst ` set m' = fst ` set m" using keys by (metis set_map)
    have same: "fst x = fst e \<longleftrightarrow> cmp (fst x) key = 0" if "x \<in> set m" for x
      using three_way.ordered_equiv_unique [OF tw m that e(1) k] e(2) by auto
    have "set m' = (\<lambda>x. if fst x = fst e then (fst x, r) else x) ` set m" by (simp add: m' data_replace_def)
    also have "\<dots> = {x \<in> set m. cmp (fst x) key \<noteq> 0} \<union> {(fst e, r)}"
    proof (rule set_eqI)
      fix y
      show "y \<in> (\<lambda>x. if fst x = fst e then (fst x, r) else x) ` set m \<longleftrightarrow>
          y \<in> {x \<in> set m. cmp (fst x) key \<noteq> 0} \<union> {(fst e, r)}"
        using same e by (auto simp: image_iff split: if_splits)
    qed
    finally show ?thesis
      using e(2) m keys img k0 w [OF e(1)] by (simp add: ordered_keys keys_within_keys)
  qed
  then show "ordered cmp (record_set cmp key r m)" "keys_within W (record_set cmp key r m)"
    "set (record_set cmp key r m) = {e \<in> set m. cmp (fst e) key \<noteq> 0} \<union> {(record_key cmp key m, r)}"
    "cmp (record_key cmp key m) key = 0" "W (record_key cmp key m)"
    "fst ` set m \<subseteq> fst ` set (record_set cmp key r m)"
    unfolding m'_def k0_def by blast+
qed

text \<open>The view after a record was set.\<close>

lemma record_set_view:
  assumes tw: "three_way cmp W" and m: "ordered cmp m" "keys_within W m"
    and es: "ordered cmp es" "keys_within W es" and k: "W key"
  shows "set (merged cmp (record_set cmp key r m) es) =
    {e \<in> set (merged cmp m es). cmp (fst e) key \<noteq> 0} \<union>
    (if rec_deleted r then {} else {(record_key cmp key m, rec_value r)})"
proof -
  note P = record_set_props [OF tw m k]
  let ?k0 = "record_key cmp key m"
  have same: "cmp ?k0 (fst e) = 0 \<longleftrightarrow> cmp (fst e) key = 0" if "e \<in> set es" for e
    using three_way.cmp_equiv_trans [OF tw] three_way.cmp_zero_iff [OF tw] P(4,5) k keys_withinD [OF es(2) that]
    by metis
  have eq: "cmp (fst x) (fst e) \<noteq> 0"
    if "x \<in> set m" "e \<in> set es" "cmp (fst x) key = 0" "cmp (fst e) key \<noteq> 0" for x e
    using three_way.cmp_equiv_trans [OF tw] three_way.cmp_zero_iff [OF tw] that k keys_withinD [OF es(2) that(2)]
      keys_withinD [OF m(2) that(1)] by metis
  have "shown cmp (record_set cmp key r m) es = {e \<in> shown cmp m es. cmp (fst e) key \<noteq> 0} \<union>
      (if rec_deleted r then {} else {(?k0, rec_value r)})"
  proof (rule set_eqI)
    fix e :: entry
    have "e \<in> {(k, rec_value r') | k r'. (k, r') \<in> set (record_set cmp key r m) \<and> \<not> rec_deleted r'} \<longleftrightarrow>
      (e \<in> {(k, rec_value r') | k r'. (k, r') \<in> set m \<and> \<not> rec_deleted r'} \<and> cmp (fst e) key \<noteq> 0) \<or>
      (\<not> rec_deleted r \<and> e = (?k0, rec_value r))"
      unfolding P(3) by auto
    moreover have "e \<in> {e \<in> set es. \<forall>x \<in> set (record_set cmp key r m). cmp (fst x) (fst e) \<noteq> 0} \<longleftrightarrow>
      e \<in> {e \<in> set es. \<forall>x \<in> set m. cmp (fst x) (fst e) \<noteq> 0} \<and> cmp (fst e) key \<noteq> 0"
    proof (cases "e \<in> set es \<and> cmp (fst e) key \<noteq> 0")
      case True
      then show ?thesis unfolding P(3) using same [of e] eq [of _ e] by auto
    next
      case False
      then show ?thesis unfolding P(3) using same [of e] by auto
    qed
    ultimately show "e \<in> shown cmp (record_set cmp key r m) es \<longleftrightarrow>
        e \<in> {e \<in> shown cmp m es. cmp (fst e) key \<noteq> 0} \<union> (if rec_deleted r then {} else {(?k0, rec_value r)})"
      unfolding shown_def by auto
  qed
  then show ?thesis
    using three_way.set_merged [OF tw P(1) es(1) P(2) es(2)] three_way.set_merged [OF tw m(1) es(1) m(2) es(2)] by simp
qed

subsection \<open>Positions after a write\<close>

lemma positioned_told:
  assumes "positioned lb pos entries m it" "fst ` set m \<subseteq> fst ` set m'"
  shows "positioned lb pos entries m' (DataChanged it)"
proof -
  have "Some ` fst ` set m \<subseteq> Some ` fst ` set m'" using assms(2) by (rule image_mono)
  then show ?thesis using assms(1) by (simp add: positioned_def) blast
qed

lemma elements_from_map:
  "(\<And>e. fst (h e) = fst e) \<Longrightarrow> elements_from dir di (map h m) = map h (elements_from dir di m)"
  by (cases di) (simp_all add: elements_from_dir in_dir_map dropWhile_map o_def)

lemma beyond_map: "(\<And>e. fst (h e) = fst e) \<Longrightarrow> beyond cmp dir key (map h m) = map h (beyond cmp dir key m)"
  by (simp add: beyond_def in_dir_map filter_map o_def)

lemmas replace_commutes =
  elements_from_map [where h = "\<lambda>e. if fst e = k then (fst e, g (snd e)) else e" for k g, simplified if_distrib, simplified]
  beyond_map [where h = "\<lambda>e. if fst e = k then (fst e, g (snd e)) else e" for k g, simplified if_distrib, simplified]

lemma positioned_replace:
  assumes "positioned lb pos entries m it"
  shows "positioned lb pos entries (data_replace k g m) it"
proof -
  have "fst ` set (data_replace k g m) = fst ` set m" by (metis replace_keys set_map)
  then show ?thesis
    using assms by (simp add: positioned_def data_replace_def replace_commutes image_image [symmetric])
qed

text \<open>A record inserted at the current key does not move an iterator that stands beyond it.\<close>

lemma beyond_insert:
  assumes tw: "three_way cmp W" and m: "ordered cmp m" "keys_within W m" and k: "W key"
  shows "beyond cmp dir key (data_insert cmp key r m) = beyond cmp dir key m"
proof -
  have "\<not> dcmp dir cmp key key < 0" using three_way.cmp_irrefl [OF three_way_dcmp [OF tw] k] .
  moreover have "m = takeWhile (\<lambda>e. cmp (fst e) key < 0) m @ dropWhile (\<lambda>e. cmp (fst e) key < 0) m" by simp
  then have "filter P m = filter P (takeWhile (\<lambda>e. cmp (fst e) key < 0) m) @
      filter P (dropWhile (\<lambda>e. cmp (fst e) key < 0) m)" for P
    by (metis filter_append)
  ultimately show ?thesis
    by (cases dir) (simp_all add: beyond_def data_insert_def flip: rev_filter)
qed

lemma positioned_insert:
  assumes ok: "ldb_ok lb W pos entries m" and at: "positioned lb pos entries m it"
    and db: "current it = Some DbIt" and h: "held m it" and none: "\<forall>e \<in> set m. comparator lb (fst e) (current_key lb it) \<noteq> 0"
  shows "positioned lb pos entries (data_insert (comparator lb) (current_key lb it) r m) it"
proof -
  note D = ldb_okD [OF ok]
  let ?k = "current_key lb it" and ?dir = "direction it"
  let ?m' = "data_insert (comparator lb) ?k r m"
  have k: "W ?k" using current_within [OF ok at] db by simp
  have find: "record_set (comparator lb) ?k r m = ?m'"
    using none data_find_None [OF D(1,4,5) k] by (simp add: record_set_def)
  note P = record_set_props [OF D(1,4,5) k, unfolded find]
  have P': "ordered (comparator lb) ?m'" "keys_within W ?m'"
    using record_set_props(1,2) [OF D(1,4,5) k, of r] find by simp_all
  have md: "distinct (map fst ?m')" using ordered_apart [OF D(1) P'] .
  have "elements_from ?dir (data_iterator it) ?m' = beyond (comparator lb) ?dir ?k ?m'" if "\<not> data_changed it"
  proof -
    have e: "elements_from ?dir (data_iterator it) m = beyond (comparator lb) ?dir ?k m"
      using at db that by (simp add: positioned_def)
    show ?thesis
    proof (cases "data_iterator it")
      case None
      then show ?thesis using e beyond_insert [OF D(1,4,5) k, of ?dir r] by simp
    next
      case (Some d)
      then have "d \<in> fst ` set m" using h by (auto simp: held_def)
      then have ne: "elements_from ?dir (Some d) m \<noteq> []" "fst (hd (elements_from ?dir (Some d) m)) = d"
        by (auto simp: elements_from_dir hd_dropWhile [of "\<lambda>e. fst e \<noteq> d"] dropWhile_eq_Nil_conv)
          (metis (mono_tags, lifting) dropWhile_eq_Nil_conv fst_conv hd_dropWhile in_dir_simps(1))
      have "iterator_at (beyond (comparator lb) ?dir ?k ?m') = Some d"
        using ne e Some beyond_insert [OF D(1,4,5) k, of ?dir r]
        by (cases "beyond (comparator lb) ?dir ?k m") (auto simp: iterator_at_def)
      moreover have "in_dir ?dir ?m' = filter (\<lambda>e. \<not> dcmp ?dir (comparator lb) ?k (fst e) < 0) (in_dir ?dir ?m') @
          beyond (comparator lb) ?dir ?k ?m'"
        unfolding beyond_def
        by (rule filter_split [OF ordered_in_dir [OF P'(1)]])
          (use three_way.cmp_less_trans [OF three_way_dcmp [OF D(1)] k] keys_withinD [OF P'(2)] in \<open>simp; blast\<close>)
      ultimately show ?thesis using elements_from_suffix [OF md] Some by metis
    qed
  qed
  then show ?thesis using at db by (simp add: positioned_def)
qed

subsection \<open>Transactions\<close>

definition view :: "'i leveldb \<Rightarrow> entry list \<Rightarrow> 'i LevelDBTransaction \<Rightarrow> entry list" where
  "view lb entries t = merged (comparator lb) (data_of t) entries"

definition txn_ok :: "'i leveldb \<Rightarrow> (bytes \<Rightarrow> bool) \<Rightarrow> ('i \<Rightarrow> nat) \<Rightarrow> entry list \<Rightarrow> 'i LevelDBTransaction \<Rightarrow> bool" where
  "txn_ok lb W pos entries t \<longleftrightarrow> ldb_ok lb W pos entries (data_of t) \<and>
     (\<forall>n it. iterators t n = Some it \<longrightarrow> positioned lb pos entries (data_of t) it)"

lemma view_ordered:
  assumes "ldb_ok lb W pos entries (data_of t)"
  shows "ordered (comparator lb) (view lb entries t)" "keys_within W (view lb entries t)"
  using three_way.ordered_merged [OF ldb_okD(1,4,6,5,3) [OF assms]]
    three_way.merged_within [OF ldb_okD(1,5,3) [OF assms]] by (simp_all add: view_def)

lemma record_set_ok:
  assumes "ldb_ok lb W pos entries m" "W key"
  shows "ldb_ok lb W pos entries (record_set (comparator lb) key r m)"
  using assms record_set_props(1,2) [OF ldb_okD(1,4,5) [OF assms(1)] assms(2), of r] by (simp add: ldb_ok_def)

lemma Notify_simps [simp]:
  "data_of (NotifyIterators t) = data_of t" "finished (NotifyIterators t) = finished t"
  "txn_size (NotifyIterators t) = txn_size t"
  "iterators (NotifyIterators t) n = map_option DataChanged (iterators t n)"
  by (simp_all add: NotifyIterators_def)

lemma Set_simps [simp]:
  "data_of (Transaction_Set lb key val deleted t) =
     record_set (comparator lb) key \<lparr>rec_value = val, rec_deleted = deleted\<rparr> (data_of t)"
  "finished (Transaction_Set lb key val deleted t) = finished t"
  by (auto simp: Transaction_Set_def record_set_def split: option.split)

lemma Set_ok:
  assumes ok: "txn_ok lb W pos entries t" and k: "W key"
  shows "txn_ok lb W pos entries (Transaction_Set lb key val deleted t)"
proof -
  let ?r = "\<lparr>rec_value = val, rec_deleted = deleted\<rparr>"
  have l: "ldb_ok lb W pos entries (data_of t)" using ok by (simp add: txn_ok_def)
  note sub = record_set_props(6) [OF ldb_okD(1,4,5) [OF l] k, of ?r]
  have "positioned lb pos entries (record_set (comparator lb) key ?r (data_of t)) it"
    if it: "iterators (Transaction_Set lb key val deleted t) n = Some it" for n it
  proof (cases "data_find (comparator lb) key (data_of t)")
    case None
    then obtain it0 where "iterators t n = Some it0" "it = DataChanged it0"
      using it by (auto simp: Transaction_Set_def)
    moreover from this have "positioned lb pos entries (data_of t) it0" using ok by (simp add: txn_ok_def)
    ultimately show ?thesis using positioned_told [OF _ sub] by blast
  next
    case (Some e)
    then have "iterators t n = Some it" using it by (cases e) (simp add: Transaction_Set_def)
    then have "positioned lb pos entries (data_of t) it" using ok by (simp add: txn_ok_def)
    from positioned_replace [OF this] Some show ?thesis by (cases e) (simp add: record_set_def)
  qed
  then show ?thesis using record_set_ok [OF l k] by (simp add: txn_ok_def)
qed

lemma Set_view:
  assumes ok: "txn_ok lb W pos entries t" and k: "W key"
  shows "set (view lb entries (Transaction_Set lb key val deleted t)) =
    {e \<in> set (view lb entries t). comparator lb (fst e) key \<noteq> 0} \<union>
    (if deleted then {} else {(record_key (comparator lb) key (data_of t), val)})"
proof -
  have "ldb_ok lb W pos entries (data_of t)" using ok by (simp add: txn_ok_def)
  from record_set_view [OF ldb_okD(1,4,5,6,3) [OF this] k] show ?thesis by (simp add: view_def)
qed

lemma record_deleted_view:
  assumes ok: "ldb_ok lb W pos entries m" and k: "W key"
  shows "merged (comparator lb) (record_set (comparator lb) key \<lparr>rec_value = v, rec_deleted = True\<rparr> m) entries =
    filter (\<lambda>e. comparator lb (fst e) key \<noteq> 0) (merged (comparator lb) m entries)"
proof (rule three_way.ordered_unique [OF ldb_okD(1) [OF ok]])
  note D = ldb_okD [OF ok] and D' = ldb_okD [OF record_set_ok [OF ok k]]
  show "ordered (comparator lb) (merged (comparator lb)
      (record_set (comparator lb) key \<lparr>rec_value = v, rec_deleted = True\<rparr> m) entries)"
    using three_way.ordered_merged [OF D'(1,4,6,5,3)] .
  show "keys_within W (merged (comparator lb)
      (record_set (comparator lb) key \<lparr>rec_value = v, rec_deleted = True\<rparr> m) entries)"
    using three_way.merged_within [OF D'(1,5,3)] .
  show "ordered (comparator lb) (filter (\<lambda>e. comparator lb (fst e) key \<noteq> 0) (merged (comparator lb) m entries))"
    using three_way.ordered_merged [OF D(1,4,6,5,3)] by (rule ordered_filter)
qed (use record_set_view [OF ldb_okD(1,4,5,6,3) [OF ok] k] in simp)

text \<open>What a lookup finds after a write.\<close>

lemma Set_lookup:
  assumes ok: "txn_ok lb W pos entries t" and k: "W key" "W key'"
  shows "lookup (comparator lb) key' (view lb entries (Transaction_Set lb key val deleted t)) =
    (if comparator lb key' key = 0 then (if deleted then None else Some val)
     else lookup (comparator lb) key' (view lb entries t))"
proof -
  let ?c = "comparator lb" and ?t = "Transaction_Set lb key val deleted t"
  have l: "ldb_ok lb W pos entries (data_of t)" and l': "ldb_ok lb W pos entries (data_of ?t)"
    using ok Set_ok [OF ok k(1)] by (simp_all add: txn_ok_def)
  note D = ldb_okD [OF l]
  let ?k0 = "record_key ?c key (data_of t)"
  have k0: "?c ?k0 key = 0" "W ?k0" using record_set_props(4,5) [OF D(1,4,5) k(1)] .
  have iff: "lookup ?c key' (view lb entries ?t) = Some v \<longleftrightarrow>
      (\<exists>k. (k, v) \<in> set (view lb entries t) \<and> ?c k key \<noteq> 0 \<and> ?c k key' = 0) \<or>
      \<not> deleted \<and> v = val \<and> ?c ?k0 key' = 0" for v
    unfolding lookup_iff [OF D(1) view_ordered [OF l'] k(2)] Set_view [OF ok k(1)] by auto
  have old: "lookup ?c key' (view lb entries t) = Some v \<longleftrightarrow> (\<exists>k. (k, v) \<in> set (view lb entries t) \<and> ?c k key' = 0)" for v
    by (rule lookup_iff [OF D(1) view_ordered [OF l] k(2)])
  have eq: "?c x key = 0 \<longleftrightarrow> ?c key' key = 0" if "?c x key' = 0" "W x" for x
    using three_way.cmp_equiv_trans [OF D(1)] three_way.cmp_zero_iff [OF D(1)] that k by metis
  have k0': "?c ?k0 key' = 0 \<longleftrightarrow> ?c key' key = 0"
    using three_way.cmp_equiv_trans [OF D(1)] three_way.cmp_zero_iff [OF D(1)] k0 k by metis
  have within: "W k" if "(k, v) \<in> set (view lb entries t)" for k v
    using keys_withinD [OF view_ordered(2) [OF l] that] by simp
  have "lookup ?c key' (view lb entries ?t) = Some v \<longleftrightarrow>
      (if ?c key' key = 0 then (if deleted then None else Some val) else lookup ?c key' (view lb entries t)) = Some v" for v
    unfolding iff using old eq within k0' by auto
  then show ?thesis by (metis option.exhaust)
qed

subsection \<open>The size of a transaction\<close>

definition records_size :: "'i leveldb \<Rightarrow> DataType \<Rightarrow> 64 word" where
  "records_size lb m = sum_list (map (\<lambda>e. SizeOfRecordInMap lb (fst e) + of_nat (length (rec_value (snd e)))) m)"

definition size_ok :: "'i leveldb \<Rightarrow> 'i LevelDBTransaction \<Rightarrow> bool" where
  "size_ok lb t \<longleftrightarrow> txn_size t = records_size lb (data_of t)"

lemma records_size_insert:
  "records_size lb (data_insert cmp key r m) =
     records_size lb m + (SizeOfRecordInMap lb key + of_nat (length (rec_value r)))"
proof -
  have append: "records_size lb (xs @ ys) = records_size lb xs + records_size lb ys" for xs ys
    by (simp add: records_size_def)
  have first: "records_size lb (e # xs) =
      SizeOfRecordInMap lb (fst e) + of_nat (length (rec_value (snd e))) + records_size lb xs" for e xs
    by (simp add: records_size_def)
  let ?a = "takeWhile (\<lambda>e. cmp (fst e) key < 0) m" and ?b = "dropWhile (\<lambda>e. cmp (fst e) key < 0) m"
  have "records_size lb m = records_size lb ?a + records_size lb ?b"
    using append [of ?a ?b] unfolding takeWhile_dropWhile_id .
  moreover have "records_size lb (data_insert cmp key r m) = records_size lb ?a +
      (SizeOfRecordInMap lb key + of_nat (length (rec_value r)) + records_size lb ?b)"
    unfolding data_insert_def append first fst_conv snd_conv ..
  ultimately show ?thesis by (simp only: ac_simps)
qed

lemma records_size_replace:
  assumes "distinct (map fst m)" "(k, old) \<in> set m"
  shows "records_size lb (data_replace k (\<lambda>_. r) m) =
    records_size lb m + of_nat (length (rec_value r)) - of_nat (length (rec_value old))"
proof -
  obtain xs ys where m: "m = xs @ (k, old) # ys" using assms(2) by (meson split_list)
  have other: "data_replace k (\<lambda>_. r) zs = zs" if "k \<notin> fst ` set zs" for zs
    unfolding data_replace_def by (rule map_idI) (use that in force)
  have apart: "k \<notin> fst ` set xs" "k \<notin> fst ` set ys" using assms(1) unfolding m by simp_all
  have "data_replace k (\<lambda>_. r) m = data_replace k (\<lambda>_. r) xs @ (k, r) # data_replace k (\<lambda>_. r) ys"
    unfolding m by (simp add: data_replace_def)
  then have "data_replace k (\<lambda>_. r) m = xs @ (k, r) # ys"
    unfolding other [OF apart(1)] other [OF apart(2)] .
  then show ?thesis by (simp add: records_size_def m)
qed

lemma Set_size:
  assumes ok: "ldb_ok lb W pos entries (data_of t)" and k: "W key" and "size_ok lb t"
  shows "size_ok lb (Transaction_Set lb key val deleted t)"
proof (cases "data_find (comparator lb) key (data_of t)")
  case None
  then show ?thesis
    using assms(3) by (simp add: size_ok_def record_set_def records_size_insert Transaction_Set_def)
next
  case (Some e)
  note D = ldb_okD [OF ok]
  have "e \<in> set (data_of t)" using Some data_find_iff [OF D(1,4,5) k] by blast
  from records_size_replace [OF ordered_apart [OF D(1,4,5)], of "fst e" "snd e" lb
      "\<lparr>rec_value = val, rec_deleted = deleted\<rparr>"] this
  show ?thesis
    using Some assms(3) by (cases e) (simp add: size_ok_def record_set_def Transaction_Set_def)
qed

subsection \<open>Deleting at an iterator\<close>

abbreviation deleted_record :: Record where
  "deleted_record \<equiv> \<lparr>rec_value = [], rec_deleted = True\<rparr>"

lemma Delete_step:
  assumes ok: "ldb_ok lb W pos entries (data_of t)" and at: "positioned lb pos entries (data_of t) it"
    and cur: "current it \<noteq> None" and fresh: "fresh lb (data_of t) it" and "\<not> data_changed it"
  shows "\<exists>t1. Iterator_Delete lb it t = (it, t1) \<and>
    data_of t1 = record_set (comparator lb) (current_key lb it) deleted_record (data_of t) \<and>
    positioned lb pos entries (data_of t1) it \<and> iterators t1 = iterators t \<and> finished t1 = finished t \<and>
    (size_ok lb t \<longrightarrow> size_ok lb t1)"
proof -
  note D = ldb_okD [OF ok]
  let ?k = "current_key lb it" and ?m = "data_of t"
  have k: "W ?k" by (rule current_within [OF ok at cur])
  have md: "distinct (map fst ?m)" using ordered_apart [OF D(1,4,5)] .
  show ?thesis
  proof (cases "current it = Some DataIt")
    case True
    then have d: "data_iterator it = Some ?k" "?k \<in> fst ` set ?m"
      using at by (force simp: positioned_def current_key_def)+
    then obtain r where r: "(?k, r) \<in> set ?m" by auto
    then have find: "data_find (comparator lb) ?k ?m = Some (?k, r)"
      using data_find_iff [OF D(1,4,5) k] three_way.cmp_refl [OF D(1) k] by simp
    have "map_of ?m ?k = Some r" using map_of_data [OF md r] .
    then show ?thesis
      using True d(1) find positioned_replace [OF at] records_size_replace [OF md r, of lb deleted_record]
      by (simp add: Iterator_Delete_def record_set_def size_ok_def)
  next
    case False
    then have c: "current it = Some DbIt" using cur by (cases "current it"; cases "the (current it)") auto
    have none: "\<forall>e \<in> set ?m. comparator lb (fst e) ?k \<noteq> 0"
      using fresh c three_way.cmp_zero_iff [OF D(1) k] keys_withinD [OF D(5)] by (simp add: fresh_def)
    then have find: "data_find (comparator lb) ?k ?m = None" using data_find_None [OF D(1,4,5) k] by blast
    have "positioned lb pos entries (data_insert (comparator lb) ?k deleted_record ?m) it"
      using positioned_insert [OF ok at c _ none] fresh by (simp add: fresh_def)
    then show ?thesis
      using c find assms(5)
      by (simp add: Iterator_Delete_def Iterator_Key_def refreshed_def record_set_def size_ok_def records_size_insert)
  qed
qed

subsection \<open>Removing a range\<close>

definition before_end :: "'i leveldb \<Rightarrow> bytes \<Rightarrow> bool \<Rightarrow> entry \<Rightarrow> bool" where
  "before_end lb end_key upper_open e \<longleftrightarrow> IsKeyBeforeEndOfRange lb (fst e) end_key upper_open"

lemma before_end_closed:
  assumes "three_way (comparator lb) W" "W x" "W y" "W end_key" "comparator lb x y < 0"
    and "IsKeyBeforeEndOfRange lb y end_key upper_open"
  shows "IsKeyBeforeEndOfRange lb x end_key upper_open"
  using three_way.cmp_less_trans [OF assms(1-4,5)] three_way.cmp_strict_trans [OF assms(1-4,5)] assms(6)
  by (auto simp: IsKeyBeforeEndOfRange_def split: if_splits)

lemma item_Some:
  assumes "item lb m it = head es"
  shows "current it = None \<longleftrightarrow> es = []" "es = e # es' \<Longrightarrow> current_key lb it = fst e"
  using assms by (auto simp: item_def head_def split: if_splits list.splits)

text \<open>What the loop keeps: the iterator stands at the head of what is left of the view.\<close>

definition at_rest ::
  "'i leveldb \<Rightarrow> (bytes \<Rightarrow> bool) \<Rightarrow> ('i \<Rightarrow> nat) \<Rightarrow> entry list \<Rightarrow> entry list \<Rightarrow> entry list \<Rightarrow>
   'i TransactionIterator \<Rightarrow> 'i LevelDBTransaction \<Rightarrow> bool" where
  "at_rest lb W pos entries past rest it t \<longleftrightarrow>
     ldb_ok lb W pos entries (data_of t) \<and> positioned lb pos entries (data_of t) it \<and> fresh lb (data_of t) it \<and>
     \<not> data_changed it \<and> item lb (data_of t) it = head rest \<and> view lb entries t = past @ rest"

lemma loop_step:
  assumes inv: "at_rest lb W pos entries past (e # rest) it t"
  shows "\<exists>t1 it1. Iterator_Delete lb it t = (it, t1) \<and> Iterator_Next lb (data_of t1) it = Some (True, it1) \<and>
    at_rest lb W pos entries past rest it1 t1 \<and> iterators t1 = iterators t \<and> finished t1 = finished t \<and>
    fst ` set (data_of t) \<subseteq> fst ` set (data_of t1) \<and> (size_ok lb t \<longrightarrow> size_ok lb t1)"
proof -
  let ?c = "comparator lb"
  have ok: "ldb_ok lb W pos entries (data_of t)" and at: "positioned lb pos entries (data_of t) it"
    and fresh: "fresh lb (data_of t) it" "\<not> data_changed it"
    and item: "item lb (data_of t) it = head (e # rest)" and view: "view lb entries t = past @ e # rest"
    using inv by (simp_all add: at_rest_def)
  note D = ldb_okD [OF ok]
  have cur: "current it \<noteq> None" and key: "current_key lb it = fst e" using item_Some [OF item] by simp_all
  have k: "W (fst e)" using current_within [OF ok at cur] key by simp
  obtain t1 where t1: "Iterator_Delete lb it t = (it, t1)"
    "data_of t1 = record_set ?c (fst e) deleted_record (data_of t)" "positioned lb pos entries (data_of t1) it"
    "iterators t1 = iterators t" "finished t1 = finished t" "size_ok lb t \<longrightarrow> size_ok lb t1"
    using Delete_step [OF ok at cur fresh] key by auto
  have ok1: "ldb_ok lb W pos entries (data_of t1)" using record_set_ok [OF ok k] t1(2) by simp
  have ov: "ordered ?c (past @ e # rest)" "keys_within W (past @ e # rest)" using view_ordered [OF ok] view by simp_all
  have apart: "?c (fst x) (fst e) \<noteq> 0" "\<not> ?c (fst e) (fst x) < 0" if "x \<in> set past" for x
    using ov that three_way.cmp_asym [OF D(1) _ k] keys_withinD [OF ov(2)] by auto
  have beyond: "?c (fst e) (fst x) < 0 \<and> ?c (fst x) (fst e) \<noteq> 0" if "x \<in> set rest" for x
  proof -
    have "?c (fst e) (fst x) < 0" using ov that by simp
    then show ?thesis using three_way.cmp_zero_iff [OF D(1) k keys_withinD [OF ov(2)], of x] that by force
  qed
  have view1: "view lb entries t1 = past @ rest"
    using record_deleted_view [OF ok k, of "[]"] view three_way.cmp_refl [OF D(1) k] apart(1) beyond
    by (simp add: view_def t1(2) filter_id_conv)
  obtain it1 where it1: "Iterator_Next lb (data_of t1) it = Some (True, it1)"
    "positioned lb pos entries (data_of t1) it1" "fresh lb (data_of t1) it1" "\<not> data_changed it1"
    "item lb (data_of t1) it1 = head (beyond ?c FORWARD (fst e) (view lb entries t1))"
    using Next_arrives [OF ok1 t1(3) cur] key by (auto simp: view_def)
  have "beyond ?c FORWARD (fst e) (view lb entries t1) = rest"
    using apart(2) beyond by (simp add: view1 beyond_def filter_empty_conv filter_id_conv)
  then have "at_rest lb W pos entries past rest it1 t1"
    using ok1 it1 view1 by (simp add: at_rest_def)
  moreover have "fst ` set (data_of t) \<subseteq> fst ` set (data_of t1)"
    using record_set_props(6) [OF D(1,4,5) k] t1(2) by simp
  ultimately show ?thesis using t1(1,4-6) it1(1) by blast
qed

lemma remove_loop_exact:
  assumes "at_rest lb W pos entries past rest it t" "W end_key"
  shows "\<exists>dirty' t'. remove_loop lb end_key upper_open it dirty t = Some (True, dirty', t') \<and>
    ldb_ok lb W pos entries (data_of t') \<and>
    view lb entries t' = past @ filter (\<lambda>e. \<not> before_end lb end_key upper_open e) rest \<and>
    iterators t' = iterators t \<and> finished t' = finished t \<and> fst ` set (data_of t) \<subseteq> fst ` set (data_of t') \<and>
    (size_ok lb t \<longrightarrow> size_ok lb t') \<and> (dirty' \<or> dirty' = dirty \<and> t' = t)"
  using assms(1)
proof (induction rest arbitrary: it t dirty)
  case Nil
  then have "current it = None" using item_Some(1) [of lb "data_of t" it "[]"] by (simp add: at_rest_def)
  then have "remove_loop lb end_key upper_open it dirty t = Some (True, dirty, t)"
    by (subst remove_loop.simps) simp
  then show ?case using Nil by (simp add: at_rest_def)
next
  case (Cons e rest)
  have inv: "ldb_ok lb W pos entries (data_of t)" "item lb (data_of t) it = head (e # rest)" "\<not> data_changed it"
    "view lb entries t = past @ e # rest"
    using Cons.prems by (simp_all add: at_rest_def)
  note D = ldb_okD [OF inv(1)]
  have cur: "current it \<noteq> None" and key: "Iterator_Key lb (data_of t) it = (fst e, it)"
    using item_Some [OF inv(2)] inv(3) by (simp_all add: Iterator_Key_def refreshed_def)
  have ov: "ordered (comparator lb) (past @ e # rest)" "keys_within W (past @ e # rest)"
    using view_ordered [OF inv(1)] inv(4) by simp_all
  show ?case
  proof (cases "IsKeyBeforeEndOfRange lb (fst e) end_key upper_open")
    case False
    then have "\<not> before_end lb end_key upper_open x" if "x \<in> set (e # rest)" for x
      using that before_end_closed [OF D(1) _ _ assms(2), of "fst e" "fst x"] ov keys_withinD [OF ov(2), of x]
      by (auto simp: before_end_def)
    then have "filter (\<lambda>e. \<not> before_end lb end_key upper_open e) (e # rest) = e # rest"
      by (simp add: filter_id_conv)
    moreover have "remove_loop lb end_key upper_open it dirty t = Some (True, dirty, t)"
      using cur key False by (subst remove_loop.simps) simp
    ultimately show ?thesis using inv by auto
  next
    case True
    obtain t1 it1 where step: "Iterator_Delete lb it t = (it, t1)" "Iterator_Next lb (data_of t1) it = Some (True, it1)"
      "at_rest lb W pos entries past rest it1 t1" "iterators t1 = iterators t" "finished t1 = finished t"
      "fst ` set (data_of t) \<subseteq> fst ` set (data_of t1)" "size_ok lb t \<longrightarrow> size_ok lb t1"
      using loop_step [OF Cons.prems] by blast
    have "remove_loop lb end_key upper_open it dirty t = remove_loop lb end_key upper_open it1 True t1"
      by (subst remove_loop.simps) (simp add: cur key True step(1,2))
    moreover obtain dirty' t' where t': "remove_loop lb end_key upper_open it1 True t1 = Some (True, dirty', t')"
      "ldb_ok lb W pos entries (data_of t')"
      "view lb entries t' = past @ filter (\<lambda>e. \<not> before_end lb end_key upper_open e) rest"
      "iterators t' = iterators t1" "finished t' = finished t1" "fst ` set (data_of t1) \<subseteq> fst ` set (data_of t')"
      "size_ok lb t1 \<longrightarrow> size_ok lb t'" "dirty' \<or> dirty' = True \<and> t' = t1"
      using Cons.IH [OF step(3), of True] by blast
    moreover have "fst ` set (data_of t) \<subseteq> fst ` set (data_of t')" using step(6) t'(6) by (rule subset_trans)
    moreover have "before_end lb end_key upper_open e" using True by (simp add: before_end_def)
    ultimately show ?thesis using step(4,5,7) by (intro exI [of _ dirty'] exI [of _ t']) auto
  qed
qed

definition in_range :: "'i leveldb \<Rightarrow> bytes \<Rightarrow> bytes \<Rightarrow> bool \<Rightarrow> entry \<Rightarrow> bool" where
  "in_range lb begin_key end_key upper_open e \<longleftrightarrow>
     \<not> comparator lb (fst e) begin_key < 0 \<and> before_end lb end_key upper_open e"

lemma RemoveRange_exact:
  assumes ok: "txn_ok lb W pos entries t" and k: "W begin_key" "W end_key"
  shows "\<exists>t'. RemoveRange lb begin_key end_key upper_open t = Some (True, t') \<and> txn_ok lb W pos entries t' \<and>
    view lb entries t' = filter (\<lambda>e. \<not> in_range lb begin_key end_key upper_open e) (view lb entries t) \<and>
    finished t' = finished t \<and> (size_ok lb t \<longrightarrow> size_ok lb t')"
proof -
  let ?c = "comparator lb"
  let ?past = "takeWhile (\<lambda>e. ?c (fst e) begin_key < 0) (view lb entries t)"
  let ?rest = "filter (\<lambda>e. \<not> ?c (fst e) begin_key < 0) (view lb entries t)"
  have l: "ldb_ok lb W pos entries (data_of t)" using ok by (simp add: txn_ok_def)
  note D = ldb_okD [OF l]
  obtain it where it: "Iterator_Seek lb (data_of t) begin_key (TransactionIterator_new lb) = (True, it)"
    "positioned lb pos entries (data_of t) it" "fresh lb (data_of t) it"
    "data_changed it = data_changed (TransactionIterator_new lb)" "item lb (data_of t) it = head ?rest"
    using Seek_arrives [OF l k(1), of "TransactionIterator_new lb"] by (auto simp: view_def)
  have split: "view lb entries t = ?past @ ?rest"
    using dropWhile_less [OF D(1) view_ordered [OF l] k(1)] by (metis takeWhile_dropWhile_id)
  have "at_rest lb W pos entries ?past ?rest it t"
    using l it(2-5) split by (simp add: at_rest_def TransactionIterator_new_def)
  from remove_loop_exact [OF this k(2), of upper_open False] obtain dirty t1 where
    t1: "remove_loop lb end_key upper_open it False t = Some (True, dirty, t1)" "ldb_ok lb W pos entries (data_of t1)"
    "view lb entries t1 = ?past @ filter (\<lambda>e. \<not> before_end lb end_key upper_open e) ?rest"
    "iterators t1 = iterators t" "finished t1 = finished t" "fst ` set (data_of t) \<subseteq> fst ` set (data_of t1)"
    "size_ok lb t \<longrightarrow> size_ok lb t1" "dirty \<or> t1 = t"
    by blast
  let ?t' = "if dirty then NotifyIterators t1 else t1"
  have range: "filter (\<lambda>e. \<not> in_range lb begin_key end_key upper_open e) (?past @ ?rest) =
      ?past @ filter (\<lambda>e. \<not> before_end lb end_key upper_open e) ?rest"
  proof -
    have "\<forall>x \<in> set ?past. ?c (fst x) begin_key < 0" by (auto dest: set_takeWhileD)
    then have "filter (\<lambda>e. \<not> in_range lb begin_key end_key upper_open e) ?past = ?past"
      by (simp add: filter_id_conv in_range_def)
    moreover have "filter (\<lambda>e. \<not> in_range lb begin_key end_key upper_open e) ?rest =
        filter (\<lambda>e. \<not> before_end lb end_key upper_open e) ?rest"
      by (auto simp: in_range_def intro!: filter_cong)
    ultimately show ?thesis by (simp only: filter_append)
  qed
  have "view lb entries ?t' = view lb entries t1" by (simp add: view_def)
  then have view': "view lb entries ?t' = filter (\<lambda>e. \<not> in_range lb begin_key end_key upper_open e) (view lb entries t)"
    unfolding t1(3) range [symmetric] split [symmetric] .
  have "positioned lb pos entries (data_of t1) it'" if it': "iterators ?t' n = Some it'" for n it'
  proof (cases dirty)
    case True
    then obtain it0 where "iterators t n = Some it0" "it' = DataChanged it0" using it' t1(4) by auto
    moreover from this have "positioned lb pos entries (data_of t) it0" using ok by (simp add: txn_ok_def)
    ultimately show ?thesis using positioned_told [OF _ t1(6)] by blast
  next
    case False
    then show ?thesis using it' t1(8) ok by (simp add: txn_ok_def)
  qed
  then have "txn_ok lb W pos entries ?t'" using t1(2) by (simp add: txn_ok_def)
  moreover have "RemoveRange lb begin_key end_key upper_open t = Some (True, ?t')"
    using it(1) t1(1) by (simp add: RemoveRange_def)
  moreover have "size_ok lb t \<longrightarrow> size_ok lb ?t'" using t1(7) by (simp add: size_ok_def)
  ultimately show ?thesis using view' t1(5) by auto
qed

subsection \<open>The batch of a commit\<close>

text \<open>What LevelDB documents of a write batch: its operations take effect in their order.\<close>

fun apply_op :: "(bytes \<Rightarrow> bytes \<Rightarrow> int) \<Rightarrow> entry list \<Rightarrow> batch_op \<Rightarrow> entry list" where
  "apply_op cmp es (BatchPut k v) =
     filter (\<lambda>e. cmp (fst e) k < 0) es @ (k, v) # filter (\<lambda>e. cmp k (fst e) < 0) es"
| "apply_op cmp es (BatchRemove k) = filter (\<lambda>e. cmp (fst e) k \<noteq> 0) es"

definition apply_batch :: "(bytes \<Rightarrow> bytes \<Rightarrow> int) \<Rightarrow> batch_op list \<Rightarrow> entry list \<Rightarrow> entry list" where
  "apply_batch cmp ops es = foldl (apply_op cmp) es ops"

lemma apply_op_props:
  assumes tw: "three_way cmp W" and es: "ordered cmp es" "keys_within W es" and k: "W k"
  shows "ordered cmp (apply_op cmp es (BatchPut k v))" "keys_within W (apply_op cmp es (BatchPut k v))"
    "set (apply_op cmp es (BatchPut k v)) = {e \<in> set es. cmp (fst e) k \<noteq> 0} \<union> {(k, v)}"
proof -
  have w: "W (fst e)" if "e \<in> set es" for e using keys_withinD [OF es(2) that] .
  have "cmp (fst x) (fst y) < 0" if "x \<in> set es" "y \<in> set es" "cmp (fst x) k < 0" "cmp k (fst y) < 0" for x y
    using three_way.cmp_less_trans [OF tw w k w] that by blast
  then show "ordered cmp (apply_op cmp es (BatchPut k v))" using es(1) by (auto simp: ordered_filter)
  show "keys_within W (apply_op cmp es (BatchPut k v))" using es(2) k by (simp add: keys_within_filter)
  have "cmp (fst e) k < 0 \<or> cmp k (fst e) < 0 \<longleftrightarrow> cmp (fst e) k \<noteq> 0" if "e \<in> set es" for e
    using three_way.cmp_neg_iff [OF tw w [OF that] k] by auto
  then show "set (apply_op cmp es (BatchPut k v)) = {e \<in> set es. cmp (fst e) k \<noteq> 0} \<union> {(k, v)}"
    by (auto simp del: split_paired_All)
qed

lemma write_first:
  assumes tw: "three_way cmp W" and m: "ordered cmp ((k, r) # m)" "keys_within W ((k, r) # m)"
    and es: "ordered cmp es" "keys_within W es"
  defines "es' \<equiv> apply_op cmp es (if rec_deleted r then BatchRemove k else BatchPut k (rec_value r))"
  shows "ordered cmp es' \<and> keys_within W es' \<and> merged cmp m es' = merged cmp ((k, r) # m) es"
proof -
  have k: "W k" "keys_within W m" "ordered cmp m" using m by simp_all
  note P = apply_op_props [OF tw es k(1), of "rec_value r"]
  have es': "ordered cmp es'" "keys_within W es'"
    "set es' = {e \<in> set es. cmp (fst e) k \<noteq> 0} \<union> (if rec_deleted r then {} else {(k, rec_value r)})"
    using P es by (auto simp: es'_def ordered_filter keys_within_filter simp del: apply_op.simps(1))
  have zero: "cmp k (fst e) = 0 \<longleftrightarrow> cmp (fst e) k = 0" if "e \<in> set es" for e
    using three_way.cmp_zero_iff [OF tw keys_withinD [OF es(2) that] k(1)] .
  have above: "cmp (fst x) k \<noteq> 0" if "x \<in> set m" for x
    using m(1) that three_way.cmp_zero_iff [OF tw k(1) keys_withinD [OF k(2) that]] by force
  have "shown cmp m es' = shown cmp ((k, r) # m) es"
    unfolding shown_def es'(3) using zero above by (auto split: if_splits)
  then have "set (merged cmp m es') = set (merged cmp ((k, r) # m) es)"
    using three_way.set_merged [OF tw k(3) es'(1) k(2) es'(2)] three_way.set_merged [OF tw m(1) es(1) m(2) es(2)] by simp
  then show ?thesis
    using three_way.ordered_unique [OF tw three_way.ordered_merged [OF tw k(3) es'(1) k(2) es'(2)]
        three_way.ordered_merged [OF tw m(1) es(1) m(2) es(2)] three_way.merged_within [OF tw k(2) es'(2)]] es' by simp
qed

lemma batch_view:
  assumes tw: "three_way cmp W" and "ordered cmp m" "keys_within W m" "ordered cmp es" "keys_within W es"
  shows "apply_batch cmp (write_batch_of m) es = merged cmp m es"
  using assms(2-)
proof (induction m arbitrary: es)
  case Nil
  then show ?case by (simp add: apply_batch_def write_batch_of_def)
next
  case (Cons e m)
  obtain k r where e: "e = (k, r)" by (cases e)
  note first = write_first [OF tw Cons.prems [unfolded e]]
  have "apply_batch cmp (write_batch_of (e # m)) es =
      apply_batch cmp (write_batch_of m)
        (apply_op cmp es (if rec_deleted r then BatchRemove k else BatchPut k (rec_value r)))"
    by (simp add: apply_batch_def write_batch_of_def e)
  also have "\<dots> = merged cmp m (apply_op cmp es (if rec_deleted r then BatchRemove k else BatchPut k (rec_value r)))"
    by (rule Cons.IH) (use first Cons.prems in simp_all)
  finally show ?case using first e by simp
qed

end
