(* ===== verification/Ldb_Properties.thy ===== *)
theory Ldb_Properties
  imports Ldb_Writes Idb_Key_Compare
begin

text \<open>
  The properties of the transactions over LevelDB. A sample of LevelDB over any sorted list of
  entries, with the bytewise comparator, shows that its promises can be kept.
\<close>

definition leveldb_of :: "entry list \<Rightarrow> nat leveldb" where
  "leveldb_of entries =
     \<lparr>comparator = compare_units, it_Create = length entries, it_IsValid = (\<lambda>i. i < length entries),
      it_SeekToLast = (\<lambda>i. (True, length entries - 1)),
      it_Seek = (\<lambda>t i. (True, length (takeWhile (\<lambda>e. compare_units (fst e) t < 0) entries))),
      it_Next = (\<lambda>i. (True, Suc i)), it_Prev = (\<lambda>i. (True, if i = 0 then length entries else i - 1)),
      it_Key = (\<lambda>i. fst (entries ! i)), it_Value = (\<lambda>i. snd (entries ! i)),
      db_Get = (\<lambda>key. (True, map_option snd (find (\<lambda>e. compare_units (fst e) key = 0) entries))),
      sizeof_Record = 72\<rparr>"

lemma leveldb_of_simps [simp]: "comparator (leveldb_of entries) = compare_units"
  by (simp add: leveldb_of_def)

lemma leveldb_of_ok:
  "ordered compare_units entries \<Longrightarrow> ordered compare_units m \<Longrightarrow>
   ldb_ok (leveldb_of entries) (\<lambda>_. True) (\<lambda>i. i) entries m"
  using unit_order.three_way_axioms
  by (auto simp: ldb_ok_def snapshot_def leveldb_of_def keys_within_def)

text \<open>When its records are lost, an iterator in reverse shows the snapshot alone.\<close>

lemma Prev_loses_records:
  assumes ok: "ldb_ok lb W pos entries m" and at: "positioned lb pos entries m it"
    and lost: "loses_records lb m it"
  shows "\<exists>it'. Iterator_Prev lb m it = Some (True, it') \<and> item lb m it' =
    head (filter (\<lambda>e. comparator lb (fst e) (current_key lb it) < 0) (rev entries))"
proof -
  note D = ldb_okD [OF ok]
  let ?k = "current_key lb it" and ?db = "db_iterator it"
  have l: "data_changed it" "current it = Some DbIt" "direction it = REVERSE"
    "lower_bound (comparator lb) ?k m = []"
    using lost by (simp_all add: loses_records_def)
  have v: "it_IsValid lb ?db" "it_Key lb ?db = ?k" using at l(2) by (simp_all add: positioned_def current_key_def)
  have ne: "db_walk pos entries REVERSE ?db \<noteq> []" using v(1) valid_walk [OF D(2)] by blast
  obtain db where db: "it_Prev lb ?db = (True, db)" "db_walk pos entries REVERSE db =
      filter (\<lambda>e. comparator lb (fst e) ?k < 0) (rev entries)"
    using step_walk [OF D(2) ne] walk_beyond [OF ok v(1), of REVERSE] v(2)
    by (cases "it_Prev lb ?db") (simp add: beyond_def del: db_walk.simps)
  have "Data_Seek (comparator lb) ?k m = None" using l(4) seek_none by blast
  then have refreshed: "refreshed lb m it = it\<lparr>data_changed := False, data_iterator := None\<rparr>"
    using l v by (simp add: refreshed_def RefreshDataIterator_def Let_def)
  let ?it' = "SetCurrentIteratorToLargestKey lb
      (it\<lparr>data_changed := False, data_iterator := None, db_iterator := db\<rparr>)"
  have prev: "Iterator_Prev lb m it = Some (True, ?it')"
    using l db(1) by (simp add: Iterator_Prev_def refreshed turn_reverse_def step_current_def
        HandleConflictsAndDeletes_def iterator_at_def)
  have "item lb m ?it' = head (db_walk pos entries REVERSE db)"
  proof (cases "db_walk pos entries REVERSE db")
    case Nil
    then have "\<not> it_IsValid lb db" using valid_walk [OF D(2), of db REVERSE] by simp
    then show ?thesis using Nil by (simp add: SetCurrentIteratorToLargestKey_def item_def head_def)
  next
    case (Cons e es)
    then have "it_IsValid lb db" using valid_walk [OF D(2), of db REVERSE] by simp
    moreover have "it_Key lb db = fst e \<and> it_Value lb db = snd e"
      using at_walk [OF D(2), of REVERSE db "fst e" "snd e" es] Cons by simp
    ultimately show ?thesis
      unfolding Cons by (simp add: SetCurrentIteratorToLargestKey_def item_def head_def current_key_def current_value_def)
  qed
  then show ?thesis using prev db(2) by simp
qed

subsection \<open>A sample\<close>

abbreviation sample_entries :: "entry list" where
  "sample_entries \<equiv> [([1], [10]), ([3], [30]), ([5], [50])]"

abbreviation sample_db :: "nat leveldb" where
  "sample_db \<equiv> leveldb_of sample_entries"

text \<open>The transaction has overwritten one record, inserted one and removed one; its iterator
  stands on the inserted one.\<close>

definition sample_iterator :: "nat TransactionIterator" where
  "sample_iterator = \<lparr>data_iterator = Some [2], db_iterator = 1, current = Some DataIt, direction = FORWARD,
     data_changed = False\<rparr>"

definition sample_transaction :: "nat LevelDBTransaction" where
  "sample_transaction = \<lparr>data_of = [([2], \<lparr>rec_value = [20], rec_deleted = False\<rparr>),
       ([3], \<lparr>rec_value = [31], rec_deleted = False\<rparr>), ([5], deleted_record)],
     txn_size = 3 * 74 + 2, finished = False, iterators = [0 \<mapsto> sample_iterator]\<rparr>"

lemma sample_ok: "txn_ok sample_db (\<lambda>_. True) (\<lambda>i. i) sample_entries sample_transaction"
  and sample_size: "size_ok sample_db sample_transaction"
proof -
  have "ordered compare_units sample_entries" "ordered compare_units (data_of sample_transaction)"
    by (simp_all add: sample_transaction_def compare_units_def three_way_of_def)
  then have "ldb_ok sample_db (\<lambda>_. True) (\<lambda>i. i) sample_entries (data_of sample_transaction)"
    by (rule leveldb_of_ok)
  moreover have "positioned sample_db (\<lambda>i. i) sample_entries (data_of sample_transaction) sample_iterator"
    by (simp add: positioned_def sample_iterator_def sample_transaction_def current_key_def beyond_def
        compare_units_def three_way_of_def)
  ultimately show "txn_ok sample_db (\<lambda>_. True) (\<lambda>i. i) sample_entries sample_transaction"
    by (simp add: txn_ok_def sample_transaction_def)
  show "size_ok sample_db sample_transaction"
    by (simp add: size_ok_def sample_transaction_def records_size_def SizeOfRecordInMap_def leveldb_of_def)
qed

subsection \<open>Properties\<close>

text \<open>C6. The iterator of a transaction walks the view, the snapshot merged with the uncommitted
  records. Seeking a key arrives at its first element that is not before the key, seeking the last
  at its last; from a current element \<open>Next\<close> arrives at the next element and \<open>Prev\<close> at the previous
  one, in either direction of travel and whatever was inserted in between. One case is different:
  \<open>Prev\<close> in reverse from an element of the snapshot that no record follows, after an insertion, arrives
  at the previous element of the snapshot alone.\<close>

theorem cursor_walks_the_view:
  assumes "txn_ok lb W pos entries t" "iterators t n = Some it" "W target"
  defines "m \<equiv> data_of t" and "key \<equiv> current_key lb it"
  shows "(\<exists>it'. Iterator_Seek lb m target it = (True, it') \<and> positioned lb pos entries m it' \<and>
      item lb m it' = head (filter (\<lambda>e. \<not> comparator lb (fst e) target < 0) (view lb entries t))) \<and>
    (\<exists>it'. Iterator_SeekToLast lb m it = (True, it') \<and> positioned lb pos entries m it' \<and>
      item lb m it' = head (rev (view lb entries t))) \<and>
    (current it \<noteq> None \<longrightarrow>
      (\<exists>it'. Iterator_Next lb m it = Some (True, it') \<and> positioned lb pos entries m it' \<and>
        item lb m it' = head (filter (\<lambda>e. comparator lb key (fst e) < 0) (view lb entries t))) \<and>
      (\<not> loses_records lb m it \<longrightarrow>
        (\<exists>it'. Iterator_Prev lb m it = Some (True, it') \<and> positioned lb pos entries m it' \<and>
          item lb m it' = head (filter (\<lambda>e. comparator lb (fst e) key < 0) (rev (view lb entries t))))) \<and>
      (loses_records lb m it \<longrightarrow>
        (\<exists>it'. Iterator_Prev lb m it = Some (True, it') \<and>
          item lb m it' = head (filter (\<lambda>e. comparator lb (fst e) key < 0) (rev entries)))))"
proof (intro conjI impI)
  have ok: "ldb_ok lb W pos entries m" and at: "positioned lb pos entries m it"
    using assms(1,2) by (simp_all add: txn_ok_def m_def)
  have v: "view lb entries t = merged (comparator lb) m entries" by (simp add: view_def m_def)
  show "\<exists>it'. Iterator_Seek lb m target it = (True, it') \<and> positioned lb pos entries m it' \<and>
      item lb m it' = head (filter (\<lambda>e. \<not> comparator lb (fst e) target < 0) (view lb entries t))"
    using Seek_arrives [OF ok assms(3)] v by auto
  show "\<exists>it'. Iterator_SeekToLast lb m it = (True, it') \<and> positioned lb pos entries m it' \<and>
      item lb m it' = head (rev (view lb entries t))"
    using SeekToLast_arrives [OF ok] v by auto
  assume cur: "current it \<noteq> None"
  show "\<exists>it'. Iterator_Next lb m it = Some (True, it') \<and> positioned lb pos entries m it' \<and>
      item lb m it' = head (filter (\<lambda>e. comparator lb key (fst e) < 0) (view lb entries t))"
    using Next_arrives [OF ok at cur] v by (auto simp: beyond_def key_def)
  show "\<exists>it'. Iterator_Prev lb m it = Some (True, it') \<and> positioned lb pos entries m it' \<and>
      item lb m it' = head (filter (\<lambda>e. comparator lb (fst e) key < 0) (rev (view lb entries t)))"
    if "\<not> loses_records lb m it"
    using Prev_arrives [OF ok at cur that] v by (auto simp: beyond_def key_def)
  show "\<exists>it'. Iterator_Prev lb m it = Some (True, it') \<and>
      item lb m it' = head (filter (\<lambda>e. comparator lb (fst e) key < 0) (rev entries))"
    if "loses_records lb m it"
    using Prev_loses_records [OF ok at that] unfolding key_def .
qed

lemma cursor_walks_the_view_witness:
  "\<exists>it'. Iterator_Next sample_db (data_of sample_transaction) sample_iterator = Some (True, it') \<and>
     item sample_db (data_of sample_transaction) it' = Some ([3], [31])"
proof -
  have "iterators sample_transaction 0 = Some sample_iterator" by (simp add: sample_transaction_def)
  from cursor_walks_the_view [OF sample_ok this, of "[]"] show ?thesis
    by (auto simp: sample_iterator_def sample_transaction_def view_def current_key_def head_def
        compare_units_def three_way_of_def)
qed

text \<open>C7. A transaction sees its own writes: a lookup by key finds what the view shows, after a put
  the key has the new value and after a removal it has none, every other key keeps what it had, and
  the iterators stay positioned. The recorded size is the size of the records.\<close>

theorem transaction_shows_its_writes:
  fixes val :: bytes
  assumes "txn_ok lb W pos entries t" "W key" "W key'"
  defines "put \<equiv> Transaction_Put lb key val t" and "removed \<equiv> Transaction_Remove lb key t"
  shows "Transaction_Get lb key' t = (True, lookup (comparator lb) key' (view lb entries t)) \<and>
    txn_ok lb W pos entries put \<and> txn_ok lb W pos entries removed \<and>
    Transaction_Get lb key' put =
      (if comparator lb key' key = 0 then (True, Some val) else Transaction_Get lb key' t) \<and>
    Transaction_Get lb key' removed =
      (if comparator lb key' key = 0 then (True, None) else Transaction_Get lb key' t) \<and>
    view lb entries removed = filter (\<lambda>e. comparator lb (fst e) key \<noteq> 0) (view lb entries t) \<and>
    (size_ok lb t \<longrightarrow> size_ok lb put \<and> size_ok lb removed)"
proof -
  have ok: "ldb_ok lb W pos entries (data_of t)" using assms(1) by (simp add: txn_ok_def)
  have kept: "txn_ok lb W pos entries put" "txn_ok lb W pos entries removed"
    using Set_ok [OF assms(1,2)] by (simp_all add: put_def removed_def Transaction_Put_def Transaction_Remove_def)
  then have ok': "ldb_ok lb W pos entries (data_of put)" "ldb_ok lb W pos entries (data_of removed)"
    by (simp_all add: txn_ok_def)
  note get = Get_lookup [OF ok assms(3)] Get_lookup [OF ok'(1) assms(3)] Get_lookup [OF ok'(2) assms(3)]
  note look = Set_lookup [OF assms(1-3)]
  have "view lb entries removed = filter (\<lambda>e. comparator lb (fst e) key \<noteq> 0) (view lb entries t)"
    using record_deleted_view [OF ok assms(2)] by (simp add: view_def removed_def Transaction_Remove_def)
  moreover have "size_ok lb t \<longrightarrow> size_ok lb put \<and> size_ok lb removed"
    using Set_size [OF ok assms(2)] by (simp add: put_def removed_def Transaction_Put_def Transaction_Remove_def)
  ultimately show ?thesis
    using kept get look [of val False] look [of "[]" True]
    by (simp add: view_def put_def removed_def Transaction_Put_def Transaction_Remove_def)
qed

lemma transaction_shows_its_writes_witness:
  "Transaction_Get sample_db [1] (Transaction_Put sample_db [1] [11] sample_transaction) = (True, Some [11]) \<and>
   Transaction_Get sample_db [3] (Transaction_Put sample_db [1] [11] sample_transaction) = (True, Some [31])"
proof -
  have "compare_units [1] [1 :: byte] = 0" "compare_units [3] [1 :: byte] \<noteq> 0"
    by (simp_all add: compare_units_def three_way_of_def)
  moreover have "Transaction_Get sample_db [3] sample_transaction = (True, Some [31])"
    by (simp add: Transaction_Get_def sample_transaction_def data_find_def lower_bound_def compare_units_def
        three_way_of_def)
  ultimately show ?thesis
    using transaction_shows_its_writes [OF sample_ok, of "[1]" "[1]" "[11]"]
      transaction_shows_its_writes [OF sample_ok, of "[3]" "[1]" "[11]"] by simp
qed

text \<open>C8. Removing a range ends, succeeds, and removes from the view exactly the elements between
  the bounds, the upper one included or not as asked; the iterators of the transaction stay
  positioned and the recorded size stays right.\<close>

theorem remove_range_is_exact:
  assumes "txn_ok lb W pos entries t" "W begin_key" "W end_key"
  shows "\<exists>t'. RemoveRange lb begin_key end_key upper_open t = Some (True, t') \<and> txn_ok lb W pos entries t' \<and>
    view lb entries t' = filter (\<lambda>e. comparator lb (fst e) begin_key < 0 \<or>
        (if upper_open then comparator lb (fst e) end_key \<ge> 0 else comparator lb (fst e) end_key > 0))
      (view lb entries t) \<and>
    finished t' = finished t \<and> (size_ok lb t \<longrightarrow> size_ok lb t')"
proof -
  have "\<not> in_range lb begin_key end_key upper_open e \<longleftrightarrow> comparator lb (fst e) begin_key < 0 \<or>
      (if upper_open then comparator lb (fst e) end_key \<ge> 0 else comparator lb (fst e) end_key > 0)" for e
    by (auto simp: in_range_def before_end_def IsKeyBeforeEndOfRange_def)
  then show ?thesis using RemoveRange_exact [OF assms, of upper_open] by simp
qed

lemma remove_range_is_exact_witness:
  "\<exists>t'. RemoveRange sample_db [2] [4] True sample_transaction = Some (True, t') \<and>
     view sample_db sample_entries t' = [([1], [10])] \<and> size_ok sample_db t'"
  using remove_range_is_exact [OF sample_ok, of "[2]" "[4]" True] sample_size
  by (auto simp: view_def sample_transaction_def compare_units_def three_way_of_def)

text \<open>C9. A commit writes one batch whose effect on the snapshot is the view of the transaction, or
  nothing when there are no records, and reports what the write reports. When the write fails the
  transaction is not finished but has lost its records, so committing again reports success without
  writing.\<close>

theorem committed_batch_is_the_view:
  assumes "txn_ok lb W pos entries t"
  shows "let batch = write_batch_of (data_of t); (ok, t') = Transaction_Commit write t in
    apply_batch (comparator lb) batch entries = view lb entries t \<and>
    ok = (data_of t = [] \<or> write batch) \<and> finished t' = (ok \<or> finished t) \<and> data_of t' = [] \<and>
    Transaction_Commit write' t' = (True, t'\<lparr>finished := True\<rparr>)"
proof -
  have "ldb_ok lb W pos entries (data_of t)" using assms by (simp add: txn_ok_def)
  from batch_view [OF ldb_okD(1,4,5,6,3) [OF this]] show ?thesis
    by (simp add: Let_def Transaction_Commit_def view_def)
qed

lemma committed_batch_is_the_view_witness:
  "apply_batch compare_units (write_batch_of (data_of sample_transaction)) sample_entries =
     [([1], [10]), ([2], [20]), ([3], [31])]"
  using committed_batch_is_the_view [OF sample_ok]
  by (simp add: Let_def view_def sample_transaction_def compare_units_def three_way_of_def split: prod.splits)

subsection \<open>Records that are skipped\<close>

text \<open>An iterator stands on the last element in reverse; a record is put before it; the next step
  back passes over that record.\<close>

lemma reverse_iterator_skips_new_record:
  "let lb = leveldb_of [([1], [10]), ([3], [30])];
       t0 = LevelDBTransaction_new :: nat LevelDBTransaction;
       (_, it) = Iterator_SeekToLast lb (data_of t0) (TransactionIterator_new lb);
       t = Transaction_Put lb [2] [20] (RegisterIterator 0 it t0);
       it1 = the (iterators t 0);
       (_, it2) = the (Iterator_Prev lb (data_of t) it1)
   in item lb (data_of t) it1 = Some ([3], [30]) \<and> item lb (data_of t) it2 = Some ([1], [10]) \<and>
      Transaction_Get lb [2] t = (True, Some [20])"
  by (simp add: leveldb_of_def LevelDBTransaction_new_def Iterator_SeekToLast_def TransactionIterator_new_def
      Data_SeekToLast_def iterator_at_def HandleConflictsAndDeletes_def SetCurrentIteratorToLargestKey_def
      Transaction_Put_def Transaction_Set_def RegisterIterator_def NotifyIterators_def DataChanged_def
      data_find_def lower_bound_def data_insert_def Iterator_Prev_def refreshed_def RefreshDataIterator_def
      Data_Seek_def turn_reverse_def step_current_def item_def current_key_def current_value_def
      Transaction_Get_def compare_units_def three_way_of_def)

end
