(* ===== verification/Page_State.thy ===== *)
theory Page_State
  imports Urls "HOL-Library.State_Monad"
begin

text \<open>
  Page states: what the browser keeps of a page to show it again
  (\<open>common/page_state_serialization.cc\<close>, \<open>public/common/page_state.cc\<close> and
  \<open>common/resource_request_body_impl.cc\<close>). A page state is a string of bytes, the pickle of a
  tree of frame states. Writing is the list of bytes it appends to the pickle, or \<open>None\<close> when a
  CHECK on a size ends the process. Reading is a state monad over the \<open>SerializeObject\<close>, whose
  iterator is the part of the pickle that is left; like the code it goes on after an error, with
  defaults and the flag \<open>parse_error\<close>. The pickles of \<open>base\<close>, its times and paths, and the
  constants of Blink are not in the repository: they are the record \<open>page_env\<close>. The model is of
  Android, which has one field more to read in the oldest version.
\<close>

subsection \<open>The environment\<close>

type_synonym 'a pickle_read = "bytes \<Rightarrow> 'a option \<times> bytes"

record page_env =
  page_urls :: url_library
  PickleData :: "bytes \<Rightarrow> bytes"
  PicklePayload :: "bytes \<Rightarrow> bytes"
  Pickle_WriteInt :: "int32 \<Rightarrow> bytes"
  Pickle_WriteInt64 :: "int64 \<Rightarrow> bytes"
  Pickle_WriteBytes :: "bytes \<Rightarrow> bytes"
  Pickle_WriteData :: "bytes \<Rightarrow> bytes"
  Pickle_WriteString :: "string \<Rightarrow> bytes"
  Iterator_ReadInt :: "int32 pickle_read"
  Iterator_ReadInt64 :: "int64 pickle_read"
  Iterator_ReadBool :: "bool pickle_read"
  Iterator_ReadBytes :: "nat \<Rightarrow> bytes pickle_read"
  Iterator_ReadData :: "bytes pickle_read"
  Iterator_ReadString :: "string pickle_read"
  UTF16ToUTF8 :: "string16 \<Rightarrow> string"
  UTF8ToUTF16 :: "string \<Rightarrow> string16"
  FromUTF16Unsafe :: "string16 \<Rightarrow> string"
  AsUTF16Unsafe :: "string \<Rightarrow> string16"
  parse_url16 :: "string16 \<Rightarrow> GURL"
  StringToSizeT :: "string16 \<Rightarrow> 64 word option"
  FromDoubleT :: "double \<Rightarrow> int"
  ToDoubleT :: "int \<Rightarrow> double"
  double_of_float :: "32 word \<Rightarrow> double"
  float_of_double :: "double \<Rightarrow> 32 word"
  divide_offset :: "int32 \<Rightarrow> double \<Rightarrow> int32"
  divide_scale :: "double \<Rightarrow> 32 word \<Rightarrow> double"
  device_scale_factor :: "32 word"
  minus_one_float :: "32 word"
  kTypeData :: int32
  kTypeFile :: int32
  kTypeBlob :: int32
  kTypeFileSystemURL :: int32
  kWebHistoryScrollRestorationAuto :: int32
  kWebReferrerPolicyDefault :: int32
  sizeof_NullableString16 :: nat
  sizeof_Element :: nat
  sizeof_ExplodedFrameState :: nat

abbreviation (input) int_max :: nat where "int_max \<equiv> 2147483647"

subsection \<open>Request bodies\<close>

datatype Element = TYPE_BYTES bytes
  | TYPE_FILE string "64 word" "64 word" int
  | TYPE_FILE_FILESYSTEM GURL "64 word" "64 word" int
  | TYPE_BLOB string
  | TYPE_BYTES_DESCRIPTION
  | TYPE_DISK_CACHE_ENTRY

record ResourceRequestBodyImpl =
  body_elements :: "Element list"
  body_identifier :: int64
  contains_sensitive_info :: bool

definition ResourceRequestBodyImpl_new :: ResourceRequestBodyImpl where
  "ResourceRequestBodyImpl_new = \<lparr>body_elements = [], body_identifier = 0, contains_sensitive_info = False\<rparr>"

definition append_element :: "Element \<Rightarrow> ResourceRequestBodyImpl \<Rightarrow> ResourceRequestBodyImpl" where
  "append_element e body = body\<lparr>body_elements := body_elements body @ [e]\<rparr>"

definition AppendBytes :: "bytes \<Rightarrow> ResourceRequestBodyImpl \<Rightarrow> ResourceRequestBodyImpl" where
  "AppendBytes data body = (if length data > 0 then append_element (TYPE_BYTES data) body else body)"

text \<open>The offsets arrive as \<open>int\<close>, so their low 32 bits are widened again.\<close>

definition int_argument :: "int64 \<Rightarrow> 64 word" where
  "int_argument n = scast (ucast n :: int32)"

definition AppendFileRangeToRequestBody ::
  "page_env \<Rightarrow> NullableString16 \<Rightarrow> int64 \<Rightarrow> int64 \<Rightarrow> double \<Rightarrow> ResourceRequestBodyImpl \<Rightarrow> ResourceRequestBodyImpl" where
  "AppendFileRangeToRequestBody env file_path file_start file_length modification_time =
     append_element (TYPE_FILE (FromUTF16Unsafe env (nullable_text file_path)) (int_argument file_start)
       (int_argument file_length) (FromDoubleT env modification_time))"

definition AppendURLRangeToRequestBody ::
  "page_env \<Rightarrow> GURL \<Rightarrow> int64 \<Rightarrow> int64 \<Rightarrow> double \<Rightarrow> ResourceRequestBodyImpl \<Rightarrow> ResourceRequestBodyImpl" where
  "AppendURLRangeToRequestBody env url file_start file_length modification_time =
     append_element (TYPE_FILE_FILESYSTEM url (int_argument file_start) (int_argument file_length)
       (FromDoubleT env modification_time))"

definition AppendBlob :: "string \<Rightarrow> ResourceRequestBodyImpl \<Rightarrow> ResourceRequestBodyImpl" where
  "AppendBlob uuid = append_element (TYPE_BLOB uuid)"

definition GetReferencedFiles :: "ResourceRequestBodyImpl \<Rightarrow> string list" where
  "GetReferencedFiles body = List.map_filter (\<lambda>e. case e of TYPE_FILE path _ _ _ \<Rightarrow> Some path | _ \<Rightarrow> None) (body_elements body)"

subsection \<open>Frame states\<close>

record ExplodedHttpBody =
  http_content_type :: NullableString16
  request_body :: "ResourceRequestBodyImpl option"
  contains_passwords :: bool

definition ExplodedHttpBody_new :: ExplodedHttpBody where
  "ExplodedHttpBody_new = \<lparr>http_content_type = None, request_body = None, contains_passwords = False\<rparr>"

text \<open>A frame state is its own fields and the states of its children.\<close>

record frame_fields =
  x_url_string :: NullableString16
  x_referrer :: NullableString16
  x_target :: NullableString16
  x_state_object :: NullableString16
  x_document_state :: "NullableString16 list"
  x_scroll_restoration_type :: int32
  x_did_save_scroll_or_scale_state :: bool
  x_visual_viewport_scroll_offset :: "32 word \<times> 32 word"
  x_scroll_offset :: "int32 \<times> int32"
  x_item_sequence_number :: int64
  x_document_sequence_number :: int64
  x_page_scale_factor :: double
  x_referrer_policy :: int32
  x_http_body :: ExplodedHttpBody

datatype ExplodedFrameState = ExplodedFrameState (x_fields: frame_fields) (x_children: "ExplodedFrameState list")

definition frame_fields_new :: "page_env \<Rightarrow> frame_fields" where
  "frame_fields_new env =
     \<lparr>x_url_string = None, x_referrer = None, x_target = None, x_state_object = None, x_document_state = [],
      x_scroll_restoration_type = kWebHistoryScrollRestorationAuto env,
      x_did_save_scroll_or_scale_state = True, x_visual_viewport_scroll_offset = (0, 0),
      x_scroll_offset = (0, 0), x_item_sequence_number = 0, x_document_sequence_number = 0,
      x_page_scale_factor = 0, x_referrer_policy = kWebReferrerPolicyDefault env,
      x_http_body = ExplodedHttpBody_new\<rparr>"

definition ExplodedFrameState_new :: "page_env \<Rightarrow> ExplodedFrameState" where
  "ExplodedFrameState_new env = ExplodedFrameState (frame_fields_new env) []"

record ExplodedPageState =
  referenced_files :: "NullableString16 list"
  top_state :: ExplodedFrameState

definition ExplodedPageState_new :: "page_env \<Rightarrow> ExplodedPageState" where
  "ExplodedPageState_new env = \<lparr>referenced_files = [], top_state = ExplodedFrameState_new env\<rparr>"

subsection \<open>Referenced files\<close>

text \<open>What the oldest versions do not list: files named in the body and in the saved form controls.\<close>

definition AppendReferencedFilesFromHttpBody ::
  "page_env \<Rightarrow> Element list \<Rightarrow> NullableString16 list \<Rightarrow> NullableString16 list" where
  "AppendReferencedFilesFromHttpBody env elements files =
     files @ List.map_filter (\<lambda>e. case e of TYPE_FILE path _ _ _ \<Rightarrow> Some (Some (AsUTF16Unsafe env path)) | _ \<Rightarrow> None) elements"

text \<open>The loop over the items: the index, the files so far, and whether the form was sound. Sizes are
  words of 64 bits, so that the second test of the code catches their overflow.\<close>

function document_items ::
  "page_env \<Rightarrow> NullableString16 list \<Rightarrow> 64 word \<Rightarrow> nat \<Rightarrow> NullableString16 list \<Rightarrow> NullableString16 list \<times> bool" where
  "document_items env ds item_count index files =
     (if item_count = 0 then (files, True)
      else if index + 1 \<ge> length ds then (files, False)
      else if index + 2 \<ge> length ds then (files, False)
      else case StringToSizeT env (nullable_text (ds ! (index + 2))) of
          None \<Rightarrow> (files, False)
        | Some value_size \<Rightarrow>
            let at_value = index + 3; w = (of_nat at_value :: 64 word) in
            if w + value_size > of_nat (length ds) \<or> w + value_size < w then (files, False)
            else if nullable_text (ds ! (index + 1)) = map (of_nat \<circ> of_char) ''file''
            then if value_size \<noteq> 2 then (files, False)
                 else document_items env ds (item_count - 1) (at_value + 2) (files @ [ds ! at_value])
            else document_items env ds (item_count - 1) (at_value + unat value_size) files)"
  by pat_completeness auto
termination
  by (relation "measure (\<lambda>(env, ds, item_count, index, files). length ds - index)") auto

declare document_items.simps [simp del]

definition AppendReferencedFilesFromDocumentState ::
  "page_env \<Rightarrow> NullableString16 list \<Rightarrow> NullableString16 list \<Rightarrow> NullableString16 list \<times> bool" where
  "AppendReferencedFilesFromDocumentState env ds files =
     (if ds = [] then (files, True)
      else if length ds < 3 then (files, False)
      else case StringToSizeT env (nullable_text (ds ! 2)) of
          None \<Rightarrow> (files, False)
        | Some item_count \<Rightarrow> document_items env ds item_count 3 files)"

fun RecursivelyAppendReferencedFiles ::
  "page_env \<Rightarrow> ExplodedFrameState \<Rightarrow> NullableString16 list \<Rightarrow> NullableString16 list \<times> bool" where
  "RecursivelyAppendReferencedFiles env (ExplodedFrameState s cs) files =
     (let files1 = (case request_body (x_http_body s) of None \<Rightarrow> files
                    | Some body \<Rightarrow> AppendReferencedFilesFromHttpBody env (body_elements body) files) in
      case AppendReferencedFilesFromDocumentState env (x_document_state s) files1 of
        (files2, False) \<Rightarrow> (files2, False)
      | (files2, True) \<Rightarrow>
          fold (\<lambda>child (fs, ok). if ok then RecursivelyAppendReferencedFiles env child fs else (fs, ok)) cs (files2, True))"

subsection \<open>Writing\<close>

definition kMinVersion :: int where "kMinVersion = 11"

definition kCurrentVersion :: int where "kCurrentVersion = 24"

text \<open>Writes one after the other.\<close>

definition appended :: "bytes option list \<Rightarrow> bytes option" where
  "appended ws = map_option concat (those ws)"

definition WriteInteger :: "page_env \<Rightarrow> int32 \<Rightarrow> bytes option" where
  "WriteInteger env n = Some (Pickle_WriteInt env n)"

definition WriteInteger64 :: "page_env \<Rightarrow> int64 \<Rightarrow> bytes option" where
  "WriteInteger64 env n = Some (Pickle_WriteInt64 env n)"

definition WriteReal :: "page_env \<Rightarrow> double \<Rightarrow> bytes option" where
  "WriteReal env d = Some (Pickle_WriteData env (le_bytes 8 d))"

definition WriteBoolean :: "page_env \<Rightarrow> bool \<Rightarrow> bytes option" where
  "WriteBoolean env b = Some (Pickle_WriteInt env (if b then 1 else 0))"

definition WriteGURL :: "page_env \<Rightarrow> GURL \<Rightarrow> bytes option" where
  "WriteGURL env url = Some (Pickle_WriteString env (spec url))"

definition WriteStdString :: "page_env \<Rightarrow> string \<Rightarrow> bytes option" where
  "WriteStdString env s = Some (Pickle_WriteString env s)"

definition WriteString :: "page_env \<Rightarrow> NullableString16 \<Rightarrow> bytes option" where
  "WriteString env str =
     (case str of
        None \<Rightarrow> WriteInteger env (-1)
      | Some s \<Rightarrow>
          let length_in_bytes = length s * 2 in
          if length_in_bytes < int_max
          then appended [WriteInteger env (of_nat length_in_bytes), Some (Pickle_WriteBytes env (utf16le s))]
          else None)"

definition WriteAndValidateVectorSize :: "page_env \<Rightarrow> nat \<Rightarrow> 'a list \<Rightarrow> bytes option" where
  "WriteAndValidateVectorSize env element_size v =
     (if length v < int_max div element_size then WriteInteger env (of_nat (length v)) else None)"

definition WriteStringVector :: "page_env \<Rightarrow> NullableString16 list \<Rightarrow> bytes option" where
  "WriteStringVector env v =
     appended (WriteAndValidateVectorSize env (sizeof_NullableString16 env) v # map (WriteString env) v)"

fun write_element :: "page_env \<Rightarrow> Element \<Rightarrow> bytes option" where
  "write_element env (TYPE_BYTES data) = appended [WriteInteger env (kTypeData env), Some (Pickle_WriteData env data)]"
| "write_element env (TYPE_FILE path offset len time) = appended
     [WriteInteger env (kTypeFile env), WriteString env (Some (AsUTF16Unsafe env path)),
      WriteInteger64 env offset, WriteInteger64 env len, WriteReal env (ToDoubleT env time)]"
| "write_element env (TYPE_FILE_FILESYSTEM url offset len time) = appended
     [WriteInteger env (kTypeFileSystemURL env), WriteGURL env url,
      WriteInteger64 env offset, WriteInteger64 env len, WriteReal env (ToDoubleT env time)]"
| "write_element env (TYPE_BLOB uuid) = appended [WriteInteger env (kTypeBlob env), WriteStdString env uuid]"
| "write_element env TYPE_BYTES_DESCRIPTION = Some []"
| "write_element env TYPE_DISK_CACHE_ENTRY = Some []"

definition WriteResourceRequestBody :: "page_env \<Rightarrow> ResourceRequestBodyImpl \<Rightarrow> bytes option" where
  "WriteResourceRequestBody env body = appended
     [WriteAndValidateVectorSize env (sizeof_Element env) (body_elements body),
      appended (map (write_element env) (body_elements body)),
      WriteInteger64 env (body_identifier body)]"

definition WriteHttpBody :: "page_env \<Rightarrow> ExplodedHttpBody \<Rightarrow> bytes option" where
  "WriteHttpBody env http_body =
     (case request_body http_body of
        None \<Rightarrow> WriteBoolean env False
      | Some body \<Rightarrow> appended
          [WriteBoolean env True, WriteResourceRequestBody env body, WriteBoolean env (contains_passwords http_body)])"

definition write_fields :: "page_env \<Rightarrow> frame_fields \<Rightarrow> bytes option" where
  "write_fields env s =
     (let saved = (\<lambda>ws. if x_did_save_scroll_or_scale_state s then appended ws else Some []) in
      appended
        [WriteString env (x_url_string s), WriteString env (x_target s),
         WriteBoolean env (x_did_save_scroll_or_scale_state s),
         saved [WriteInteger env (fst (x_scroll_offset s)), WriteInteger env (snd (x_scroll_offset s))],
         WriteString env (x_referrer s), WriteStringVector env (x_document_state s),
         saved [WriteReal env (x_page_scale_factor s)],
         WriteInteger64 env (x_item_sequence_number s), WriteInteger64 env (x_document_sequence_number s),
         WriteInteger env (x_referrer_policy s),
         saved [WriteReal env (double_of_float env (fst (x_visual_viewport_scroll_offset s))),
                WriteReal env (double_of_float env (snd (x_visual_viewport_scroll_offset s)))],
         WriteInteger env (x_scroll_restoration_type s),
         WriteBoolean env (x_state_object s \<noteq> None),
         (if x_state_object s \<noteq> None then WriteString env (x_state_object s) else Some []),
         WriteHttpBody env (x_http_body s), WriteString env (http_content_type (x_http_body s))])"

fun WriteFrameState :: "page_env \<Rightarrow> ExplodedFrameState \<Rightarrow> bytes option" where
  "WriteFrameState env (ExplodedFrameState s cs) = appended
     [write_fields env s, WriteAndValidateVectorSize env (sizeof_ExplodedFrameState env) cs,
      appended (map (WriteFrameState env) cs)]"

definition WritePageState :: "page_env \<Rightarrow> ExplodedPageState \<Rightarrow> bytes option" where
  "WritePageState env state = appended
     [WriteInteger env (of_int kCurrentVersion), WriteStringVector env (referenced_files state),
      WriteFrameState env (top_state state)]"

definition EncodePageState :: "page_env \<Rightarrow> ExplodedPageState \<Rightarrow> bytes option" where
  "EncodePageState env exploded = map_option (PickleData env) (WritePageState env exploded)"

definition EncodeResourceRequestBody :: "page_env \<Rightarrow> ResourceRequestBodyImpl \<Rightarrow> bytes option" where
  "EncodeResourceRequestBody env body = map_option (PickleData env)
     (appended [WriteResourceRequestBody env body, WriteBoolean env (contains_sensitive_info body)])"

subsection \<open>Reading\<close>

record SerializeObject =
  payload_size :: nat
  iter :: bytes
  obj_version :: int
  parse_error :: bool

type_synonym 'a reader = "(SerializeObject, 'a) state"

definition SerializeObject_new :: "page_env \<Rightarrow> bytes \<Rightarrow> SerializeObject" where
  "SerializeObject_new env data =
     \<lparr>payload_size = length (PicklePayload env data), iter = PicklePayload env data, obj_version = 0,
      parse_error = False\<rparr>"

definition parse_failed :: "'a \<Rightarrow> 'a reader" where
  "parse_failed x = State (\<lambda>obj. (x, obj\<lparr>parse_error := True\<rparr>))"

definition read_or :: "'a pickle_read \<Rightarrow> 'a \<Rightarrow> 'a reader" where
  "read_or r fallback = State (\<lambda>obj. case r (iter obj) of
       (Some x, rest) \<Rightarrow> (x, obj\<lparr>iter := rest\<rparr>)
     | (None, rest) \<Rightarrow> (fallback, obj\<lparr>iter := rest, parse_error := True\<rparr>))"

definition mapped :: "('a \<Rightarrow> 'b) \<Rightarrow> 'a pickle_read \<Rightarrow> 'b pickle_read" where
  "mapped g r data = (case r data of (x, rest) \<Rightarrow> (map_option g x, rest))"

definition get_version :: "int reader" where
  "get_version = State (\<lambda>obj. (obj_version obj, obj))"

definition set_version :: "int \<Rightarrow> unit reader" where
  "set_version v = State (\<lambda>obj. ((), obj\<lparr>obj_version := v\<rparr>))"

primrec read_times :: "nat \<Rightarrow> 'a reader \<Rightarrow> 'a list reader" where
  "read_times 0 m = State_Monad.return []"
| "read_times (Suc n) m = do { x \<leftarrow> m; xs \<leftarrow> read_times n m; State_Monad.return (x # xs) }"

definition ReadInteger :: "page_env \<Rightarrow> int32 reader" where
  "ReadInteger env = read_or (Iterator_ReadInt env) 0"

definition ReadInteger64 :: "page_env \<Rightarrow> int64 reader" where
  "ReadInteger64 env = read_or (Iterator_ReadInt64 env) 0"

definition ReadBoolean :: "page_env \<Rightarrow> bool reader" where
  "ReadBoolean env = read_or (Iterator_ReadBool env) False"

definition ReadData :: "page_env \<Rightarrow> bytes reader" where
  "ReadData env = read_or (Iterator_ReadData env) []"

definition ReadReal :: "page_env \<Rightarrow> double reader" where
  "ReadReal env = do {
     d \<leftarrow> ReadData env;
     if length d = 8 then State_Monad.return (of_le_bytes d) else parse_failed 0 }"

definition ReadGURL :: "page_env \<Rightarrow> GURL reader" where
  "ReadGURL env = read_or (mapped (parse_url (page_urls env)) (Iterator_ReadString env)) empty_url"

definition ReadStdString :: "page_env \<Rightarrow> string reader" where
  "ReadStdString env = read_or (Iterator_ReadString env) []"

definition ReadStringNoCopy :: "page_env \<Rightarrow> bytes option reader" where
  "ReadStringNoCopy env = do {
     length_in_bytes \<leftarrow> read_or (mapped Some (Iterator_ReadInt env)) None;
     case length_in_bytes of
       None \<Rightarrow> State_Monad.return None
     | Some n \<Rightarrow>
         if sint n < 0 then State_Monad.return None
         else read_or (mapped Some (Iterator_ReadBytes env (unat n))) None }"

definition ReadString :: "page_env \<Rightarrow> NullableString16 reader" where
  "ReadString env = do {
     chars \<leftarrow> ReadStringNoCopy env;
     State_Monad.return (map_option of_utf16le chars) }"

text \<open>The cast of a negative count to \<open>size_t\<close> is large.\<close>

definition ReadAndValidateVectorSize :: "page_env \<Rightarrow> nat \<Rightarrow> nat reader" where
  "ReadAndValidateVectorSize env element_size = do {
     n \<leftarrow> ReadInteger env;
     let num_elements = unat (scast n :: 64 word);
     payload \<leftarrow> State (\<lambda>obj. (payload_size obj, obj));
     if int_max div element_size \<le> num_elements then parse_failed 0
     else if payload \<le> num_elements then parse_failed 0
     else State_Monad.return num_elements }"

definition ReadStringVector :: "page_env \<Rightarrow> NullableString16 list reader" where
  "ReadStringVector env = do {
     n \<leftarrow> ReadAndValidateVectorSize env (sizeof_NullableString16 env);
     read_times n (ReadString env) }"

definition read_element :: "page_env \<Rightarrow> ResourceRequestBodyImpl \<Rightarrow> ResourceRequestBodyImpl reader" where
  "read_element env body = do {
     type \<leftarrow> ReadInteger env;
     if type = kTypeData env
     then do { data \<leftarrow> ReadData env; State_Monad.return (AppendBytes data body) }
     else if type = kTypeFile env
     then do {
       file_path \<leftarrow> ReadString env;
       file_start \<leftarrow> ReadInteger64 env;
       file_length \<leftarrow> ReadInteger64 env;
       time \<leftarrow> ReadReal env;
       State_Monad.return (AppendFileRangeToRequestBody env file_path file_start file_length time body) }
     else if type = kTypeFileSystemURL env
     then do {
       url \<leftarrow> ReadGURL env;
       file_start \<leftarrow> ReadInteger64 env;
       file_length \<leftarrow> ReadInteger64 env;
       time \<leftarrow> ReadReal env;
       State_Monad.return (AppendURLRangeToRequestBody env url file_start file_length time body) }
     else if type = kTypeBlob env
     then do {
       version \<leftarrow> get_version;
       if version \<ge> 16
       then do { uuid \<leftarrow> ReadStdString env; State_Monad.return (AppendBlob uuid body) }
       else do { _ \<leftarrow> ReadGURL env; State_Monad.return body } }
     else State_Monad.return body }"

primrec read_elements :: "page_env \<Rightarrow> nat \<Rightarrow> ResourceRequestBodyImpl \<Rightarrow> ResourceRequestBodyImpl reader" where
  "read_elements env 0 body = State_Monad.return body"
| "read_elements env (Suc n) body = do { body' \<leftarrow> read_element env body; read_elements env n body' }"

definition ReadResourceRequestBody :: "page_env \<Rightarrow> ResourceRequestBodyImpl reader" where
  "ReadResourceRequestBody env = do {
     num_elements \<leftarrow> ReadInteger env;
     body \<leftarrow> read_elements env (nat (sint num_elements)) ResourceRequestBodyImpl_new;
     n \<leftarrow> ReadInteger64 env;
     State_Monad.return (body\<lparr>body_identifier := n\<rparr>) }"

definition ReadHttpBody :: "page_env \<Rightarrow> ExplodedHttpBody reader" where
  "ReadHttpBody env = do {
     has_body \<leftarrow> ReadBoolean env;
     if \<not> has_body then State_Monad.return ExplodedHttpBody_new
     else do {
       body \<leftarrow> ReadResourceRequestBody env;
       version \<leftarrow> get_version;
       passwords \<leftarrow> (if version \<ge> 12 then ReadBoolean env else State_Monad.return False);
       State_Monad.return (ExplodedHttpBody_new\<lparr>request_body := Some body, contains_passwords := passwords\<rparr>) } }"

text \<open>Fields that only some versions have are read and dropped.\<close>

definition skip_if :: "bool \<Rightarrow> 'a reader \<Rightarrow> unit reader" where
  "skip_if c m = (if c then do { _ \<leftarrow> m; State_Monad.return () } else State_Monad.return ())"

text \<open>What the first versions for Android had multiplied into the offsets is divided out.\<close>

definition unscale :: "page_env \<Rightarrow> int32 \<times> int32 \<Rightarrow> double \<Rightarrow> (int32 \<times> int32) \<times> double" where
  "unscale env offset scale =
     (if scale AND 0x7FFFFFFFFFFFFFFF \<noteq> 0
      then ((divide_offset env (fst offset) scale, divide_offset env (snd offset) scale),
            divide_scale env scale (device_scale_factor env))
      else (offset, scale))"

definition read_fields :: "page_env \<Rightarrow> bool \<Rightarrow> frame_fields reader" where
  "read_fields env is_top = do {
     version \<leftarrow> get_version;
     _ \<leftarrow> skip_if (version < 14 \<and> \<not> is_top) (ReadInteger env);
     url_string \<leftarrow> ReadString env;
     _ \<leftarrow> skip_if (version < 19) (ReadString env);
     target \<leftarrow> ReadString env;
     _ \<leftarrow> skip_if (version < 15) (do { _ \<leftarrow> ReadString env; _ \<leftarrow> ReadString env; _ \<leftarrow> ReadString env; ReadReal env });
     did_save \<leftarrow> (if version \<ge> 24 then ReadBoolean env else State_Monad.return True);
     offset \<leftarrow> (if did_save then do { x \<leftarrow> ReadInteger env; y \<leftarrow> ReadInteger env; State_Monad.return (x, y) }
                else State_Monad.return (0, 0));
     _ \<leftarrow> skip_if (version < 15) (do { _ \<leftarrow> ReadBoolean env; ReadInteger env });
     referrer \<leftarrow> ReadString env;
     document_state \<leftarrow> ReadStringVector env;
     scale \<leftarrow> (if did_save then ReadReal env else State_Monad.return 0);
     item \<leftarrow> ReadInteger64 env;
     document \<leftarrow> ReadInteger64 env;
     _ \<leftarrow> skip_if (21 \<le> version \<and> version < 23) (ReadInteger64 env);
     _ \<leftarrow> skip_if (17 \<le> version \<and> version < 19) (ReadInteger64 env);
     policy \<leftarrow> (if version \<ge> 18 then ReadInteger env else State_Monad.return (kWebReferrerPolicyDefault env));
     viewport \<leftarrow> (if version \<ge> 20 \<and> did_save
       then do { x \<leftarrow> ReadReal env; y \<leftarrow> ReadReal env; State_Monad.return (float_of_double env x, float_of_double env y) }
       else State_Monad.return (minus_one_float env, minus_one_float env));
     restoration \<leftarrow> (if version \<ge> 22 then ReadInteger env
       else State_Monad.return (kWebHistoryScrollRestorationAuto env));
     has_state_object \<leftarrow> ReadBoolean env;
     state_object \<leftarrow> (if has_state_object then ReadString env else State_Monad.return None);
     body \<leftarrow> ReadHttpBody env;
     content_type \<leftarrow> ReadString env;
     _ \<leftarrow> skip_if (version < 14) (ReadString env);
     _ \<leftarrow> skip_if (version = 11) (do { _ \<leftarrow> ReadReal env; ReadBoolean env });
     let (offset', scale') = (if version = 11 then unscale env offset scale else (offset, scale));
     State_Monad.return
       \<lparr>x_url_string = url_string, x_referrer = referrer, x_target = target, x_state_object = state_object,
        x_document_state = document_state, x_scroll_restoration_type = restoration,
        x_did_save_scroll_or_scale_state = did_save, x_visual_viewport_scroll_offset = viewport,
        x_scroll_offset = offset', x_item_sequence_number = item, x_document_sequence_number = document,
        x_page_scale_factor = scale', x_referrer_policy = policy,
        x_http_body = body\<lparr>http_content_type := content_type\<rparr>\<rparr> }"

text \<open>The recursion runs on fuel; more than the bytes that are left is enough, because a frame has
  children only if their number was read.\<close>

primrec ReadFrameState :: "page_env \<Rightarrow> nat \<Rightarrow> bool \<Rightarrow> ExplodedFrameState reader" where
  "ReadFrameState env 0 is_top = State_Monad.return (ExplodedFrameState_new env)"
| "ReadFrameState env (Suc fuel) is_top = do {
     s \<leftarrow> read_fields env is_top;
     num_children \<leftarrow> ReadAndValidateVectorSize env (sizeof_ExplodedFrameState env);
     children \<leftarrow> read_times num_children (ReadFrameState env fuel False);
     State_Monad.return (ExplodedFrameState s children) }"

definition read_frame :: "page_env \<Rightarrow> bool \<Rightarrow> ExplodedFrameState reader" where
  "read_frame env is_top = do {
     obj \<leftarrow> State_Monad.get;
     ReadFrameState env (Suc (length (iter obj))) is_top }"

definition ReadPageState :: "page_env \<Rightarrow> ExplodedPageState reader" where
  "ReadPageState env = do {
     v \<leftarrow> ReadInteger env;
     let version = sint v;
     _ \<leftarrow> set_version version;
     if version = -1
     then do {
       url \<leftarrow> ReadGURL env;
       State_Monad.return ((ExplodedPageState_new env)\<lparr>top_state := ExplodedFrameState
         ((frame_fields_new env)\<lparr>x_url_string := Some (UTF8ToUTF16 env (spec url))\<rparr>) []\<rparr>) }
     else if version > kCurrentVersion \<or> version < kMinVersion
     then parse_failed (ExplodedPageState_new env)
     else do {
       files \<leftarrow> (if version \<ge> 14 then ReadStringVector env else State_Monad.return []);
       top \<leftarrow> read_frame env True;
       let files' = (if version < 14 then fst (RecursivelyAppendReferencedFiles env top files) else files);
       State_Monad.return \<lparr>referenced_files = remdups_adj files', top_state = top\<rparr> } }"

definition DecodePageState :: "page_env \<Rightarrow> bytes \<Rightarrow> ExplodedPageState option" where
  "DecodePageState env encoded =
     (if encoded = [] then Some (ExplodedPageState_new env)
      else case run_state (ReadPageState env) (SerializeObject_new env encoded) of
          (exploded, obj) \<Rightarrow> if parse_error obj then None else Some exploded)"

definition DecodeResourceRequestBody :: "page_env \<Rightarrow> bytes \<Rightarrow> ResourceRequestBodyImpl option" where
  "DecodeResourceRequestBody env data =
     (case run_state (do {
          body \<leftarrow> ReadResourceRequestBody env;
          sensitive \<leftarrow> ReadBoolean env;
          State_Monad.return (body\<lparr>contains_sensitive_info := sensitive\<rparr>) }) (SerializeObject_new env data) of
        (body, obj) \<Rightarrow> if parse_error obj then None else Some body)"

subsection \<open>Page states\<close>

type_synonym PageState = bytes

definition PageState_IsValid :: "PageState \<Rightarrow> bool" where
  "PageState_IsValid data \<longleftrightarrow> data \<noteq> []"

definition PageState_CreateFromURL :: "page_env \<Rightarrow> GURL \<Rightarrow> PageState option" where
  "PageState_CreateFromURL env url =
     EncodePageState env ((ExplodedPageState_new env)\<lparr>top_state := ExplodedFrameState
       ((frame_fields_new env)\<lparr>x_url_string := Some (UTF8ToUTF16 env (spec url))\<rparr>) []\<rparr>)"

definition PageState_GetReferencedFiles :: "page_env \<Rightarrow> PageState \<Rightarrow> string list" where
  "PageState_GetReferencedFiles env data =
     (case DecodePageState env data of
        None \<Rightarrow> [] | Some state \<Rightarrow> map (\<lambda>s. FromUTF16Unsafe env (nullable_text s)) (referenced_files state))"

definition RecursivelyRemovePasswordData :: "ExplodedFrameState \<Rightarrow> ExplodedFrameState" where
  "RecursivelyRemovePasswordData state =
     (if contains_passwords (x_http_body (x_fields state))
      then ExplodedFrameState ((x_fields state)\<lparr>x_http_body := ExplodedHttpBody_new\<rparr>) (x_children state)
      else state)"

definition RecursivelyRemoveScrollOffset :: "ExplodedFrameState \<Rightarrow> ExplodedFrameState" where
  "RecursivelyRemoveScrollOffset state = ExplodedFrameState
     ((x_fields state)\<lparr>x_scroll_offset := (0, 0), x_visual_viewport_scroll_offset := (0, 0)\<rparr>) (x_children state)"

fun RecursivelyRemoveReferrer :: "page_env \<Rightarrow> ExplodedFrameState \<Rightarrow> ExplodedFrameState" where
  "RecursivelyRemoveReferrer env (ExplodedFrameState s cs) = ExplodedFrameState
     (s\<lparr>x_referrer := None, x_referrer_policy := kWebReferrerPolicyDefault env\<rparr>)
     (map (RecursivelyRemoveReferrer env) cs)"

text \<open>A state that does not decode becomes the empty one.\<close>

definition rewritten :: "page_env \<Rightarrow> (ExplodedFrameState \<Rightarrow> ExplodedFrameState) \<Rightarrow> PageState \<Rightarrow> PageState option" where
  "rewritten env g data =
     (case DecodePageState env data of
        None \<Rightarrow> Some []
      | Some state \<Rightarrow> EncodePageState env (state\<lparr>top_state := g (top_state state)\<rparr>))"

definition RemovePasswordData :: "page_env \<Rightarrow> PageState \<Rightarrow> PageState option" where
  "RemovePasswordData env = rewritten env RecursivelyRemovePasswordData"

definition RemoveScrollOffset :: "page_env \<Rightarrow> PageState \<Rightarrow> PageState option" where
  "RemoveScrollOffset env = rewritten env RecursivelyRemoveScrollOffset"

definition RemoveReferrer :: "page_env \<Rightarrow> PageState \<Rightarrow> PageState option" where
  "RemoveReferrer env data =
     (if data = [] then Some data else rewritten env (RecursivelyRemoveReferrer env) data)"

end
