(* ===== verification/Nav_Entry.thy ===== *)
theory Nav_Entry
  imports Page_State
begin

text \<open>
  Entries of the session history (\<open>browser/frame_host/navigation_entry_impl.cc\<close>,
  \<open>frame_navigation_entry.cc\<close>). An entry holds a tree with one \<open>FrameNavigationEntry\<close> per frame of
  its page. A tree node is found by a search that the code does with pointers; here it is named by
  its path, the child indices from the root. A frame of the live frame tree is named by its unique
  name followed by those of its ancestors, so that \<open>parent()\<close> is the tail. Values that the code only
  stores and hands on (favicons, certificates) are a \<open>blob\<close>. Page states are the bytes of
  \<open>Page_State\<close>; writing one with a string of two gigabytes ends the process, and where the callers
  here go on with the result it is the empty state.
\<close>

type_synonym blob = nat

type_synonym site_instance = nat

record Referrer =
  referrer_url :: GURL
  referrer_policy :: int32

definition Referrer_new :: "page_env \<Rightarrow> Referrer" where
  "Referrer_new ps = \<lparr>referrer_url = empty_url, referrer_policy = kWebReferrerPolicyDefault ps\<rparr>"

definition unless_ended :: "PageState option \<Rightarrow> PageState" where
  "unless_ended state = (case state of None \<Rightarrow> [] | Some s \<Rightarrow> s)"

subsection \<open>Frame entries\<close>

record FrameNavigationEntry =
  frame_unique_name :: string
  item_sequence_number :: int
  document_sequence_number :: int
  fne_site_instance :: "site_instance option"
  fne_source_site_instance :: "site_instance option"
  fne_url :: GURL
  fne_referrer :: Referrer
  fne_redirect_chain :: "GURL list"
  fne_page_state :: PageState
  fne_method :: string
  fne_post_id :: int

text \<open>What a renderer reports of a frame, the arguments of \<open>UpdateEntry\<close>.\<close>

record frame_update =
  u_item_sequence_number :: int
  u_document_sequence_number :: int
  u_site_instance :: "site_instance option"
  u_source_site_instance :: "site_instance option"
  u_url :: GURL
  u_referrer :: Referrer
  u_redirect_chain :: "GURL list"
  u_page_state :: PageState
  u_method :: string
  u_post_id :: int

definition FrameNavigationEntry_new ::
  "string \<Rightarrow> int \<Rightarrow> int \<Rightarrow> site_instance option \<Rightarrow> site_instance option \<Rightarrow> GURL \<Rightarrow> Referrer \<Rightarrow>
   string \<Rightarrow> int \<Rightarrow> FrameNavigationEntry" where
  "FrameNavigationEntry_new name isn dsn si ssi url ref method post =
     \<lparr>frame_unique_name = name, item_sequence_number = isn, document_sequence_number = dsn,
      fne_site_instance = si, fne_source_site_instance = ssi, fne_url = url, fne_referrer = ref,
      fne_redirect_chain = [], fne_page_state = [], fne_method = method, fne_post_id = post\<rparr>"

definition UpdateEntry :: "string \<Rightarrow> frame_update \<Rightarrow> FrameNavigationEntry \<Rightarrow> FrameNavigationEntry" where
  "UpdateEntry name u fe = fe\<lparr>
     frame_unique_name := name,
     item_sequence_number := u_item_sequence_number u,
     document_sequence_number := u_document_sequence_number u,
     fne_site_instance := u_site_instance u,
     fne_source_site_instance := u_source_site_instance u,
     fne_redirect_chain := u_redirect_chain u,
     fne_url := u_url u,
     fne_referrer := u_referrer u,
     fne_page_state := u_page_state u,
     fne_method := u_method u,
     fne_post_id := u_post_id u\<rparr>"

definition FrameEntry_Clone :: "FrameNavigationEntry \<Rightarrow> FrameNavigationEntry" where
  "FrameEntry_Clone fe = UpdateEntry (frame_unique_name fe)
     \<lparr>u_item_sequence_number = item_sequence_number fe, u_document_sequence_number = document_sequence_number fe,
      u_site_instance = fne_site_instance fe, u_source_site_instance = None, u_url = fne_url fe,
      u_referrer = fne_referrer fe, u_redirect_chain = fne_redirect_chain fe,
      u_page_state = fne_page_state fe, u_method = fne_method fe, u_post_id = fne_post_id fe\<rparr> fe"

definition FrameEntry_SetPageState :: "page_env \<Rightarrow> PageState \<Rightarrow> FrameNavigationEntry \<Rightarrow> FrameNavigationEntry" where
  "FrameEntry_SetPageState ps state fe =
     (case DecodePageState ps state of
        None \<Rightarrow> fe\<lparr>fne_page_state := state\<rparr>
      | Some exploded \<Rightarrow> fe\<lparr>fne_page_state := state,
          item_sequence_number := sint (x_item_sequence_number (x_fields (top_state exploded))),
          document_sequence_number := sint (x_document_sequence_number (x_fields (top_state exploded)))\<rparr>)"

subsection \<open>Frames and tree nodes\<close>

type_synonym frame = "string list"

definition IsMainFrame :: "frame \<Rightarrow> bool" where
  "IsMainFrame f \<longleftrightarrow> length f = 1"

datatype live_frame = LiveFrame
  (live_name: string) (no_committed_url: bool) (live_children: "live_frame list")

datatype TreeNode = TreeNode (frame_entry: FrameNavigationEntry) (tree_children: "TreeNode list")

text \<open>The root has no parent, so its path is empty.\<close>

type_synonym tree_path = "nat list"

definition MatchesFrame :: "frame \<Rightarrow> tree_path \<Rightarrow> TreeNode \<Rightarrow> bool" where
  "MatchesFrame f path node \<longleftrightarrow>
     (if path = [] then IsMainFrame f
      else \<not> IsMainFrame f \<and> hd f = frame_unique_name (frame_entry node))"

definition children_at :: "tree_path \<Rightarrow> TreeNode \<Rightarrow> (tree_path \<times> TreeNode) list" where
  "children_at path node = map (\<lambda>(i, child). (path @ [i], child)) (enumerate 0 (tree_children node))"

text \<open>The search over a queue of nodes.\<close>

fun queue_size :: "(tree_path \<times> TreeNode) list \<Rightarrow> nat" where
  "queue_size [] = 0"
| "queue_size ((path, node) # queue) = size node + queue_size queue"

lemma queue_size_append [simp]: "queue_size (xs @ ys) = queue_size xs + queue_size ys"
  by (induction xs rule: queue_size.induct) simp_all

lemma queue_size_children: "queue_size (children_at path node) < size node"
proof -
  have "queue_size (map (\<lambda>(i, child). (path @ [i], child)) (enumerate n ts)) \<le> size_list size ts" for n ts
    by (induction ts arbitrary: n) (auto intro: le_SucI)
  from this [of 0 "tree_children node"] show ?thesis
    by (cases node) (simp add: children_at_def)
qed

function find_matching :: "frame \<Rightarrow> (tree_path \<times> TreeNode) list \<Rightarrow> tree_path option" where
  "find_matching f [] = None"
| "find_matching f ((path, node) # queue) =
     (if MatchesFrame f path node then Some path
      else find_matching f (queue @ children_at path node))"
  by pat_completeness auto
termination
  by (relation "measure (\<lambda>(f, queue). queue_size queue)") (use queue_size_children in auto)

definition FindFrameEntry :: "frame \<Rightarrow> TreeNode \<Rightarrow> tree_path option" where
  "FindFrameEntry f root = find_matching f [([], root)]"

fun node_at :: "tree_path \<Rightarrow> TreeNode \<Rightarrow> TreeNode option" where
  "node_at [] node = Some node"
| "node_at (i # path) node =
     (if i < length (tree_children node) then node_at path (tree_children node ! i) else None)"

fun update_at :: "tree_path \<Rightarrow> (TreeNode \<Rightarrow> TreeNode) \<Rightarrow> TreeNode \<Rightarrow> TreeNode" where
  "update_at [] g node = g node"
| "update_at (i # path) g (TreeNode fe cs) =
     TreeNode fe (if i < length cs then cs[i := update_at path g (cs ! i)] else cs)"

definition Tree_GetFrameEntry :: "frame \<Rightarrow> TreeNode \<Rightarrow> FrameNavigationEntry option" where
  "Tree_GetFrameEntry f root =
     Option.bind (FindFrameEntry f root) (\<lambda>path. map_option frame_entry (node_at path root))"

subsection \<open>Updating the tree\<close>

definition update_node :: "string \<Rightarrow> frame_update \<Rightarrow> TreeNode \<Rightarrow> TreeNode" where
  "update_node name u node = TreeNode (UpdateEntry name u (frame_entry node))
     (if document_sequence_number (frame_entry node) \<noteq> u_document_sequence_number u then [] else tree_children node)"

fun update_child :: "page_env \<Rightarrow> string \<Rightarrow> frame_update \<Rightarrow> TreeNode list \<Rightarrow> TreeNode list" where
  "update_child ps name u [] =
     [TreeNode ((FrameEntry_SetPageState ps (u_page_state u)
        (FrameNavigationEntry_new name (u_item_sequence_number u) (u_document_sequence_number u)
           (u_site_instance u) (u_source_site_instance u) (u_url u) (u_referrer u) (u_method u) (u_post_id u)))
        \<lparr>fne_redirect_chain := u_redirect_chain u\<rparr>) []]"
| "update_child ps name u (child # cs) =
     (if frame_unique_name (frame_entry child) = name then update_node name u child # cs
      else child # update_child ps name u cs)"

definition AddOrUpdateFrameEntry :: "page_env \<Rightarrow> frame \<Rightarrow> frame_update \<Rightarrow> TreeNode \<Rightarrow> TreeNode" where
  "AddOrUpdateFrameEntry ps f u root =
     (if IsMainFrame f then update_node (hd f) u root
      else case FindFrameEntry (tl f) root of
          None \<Rightarrow> root
        | Some path \<Rightarrow> update_at path (\<lambda>parent. TreeNode (frame_entry parent)
              (update_child ps (hd f) u (tree_children parent))) root)"

text \<open>The child of the live frame with the name, looked for from the same position on when both
  lists of children have the same length.\<close>

definition live_child :: "nat \<Rightarrow> nat \<Rightarrow> string \<Rightarrow> live_frame \<Rightarrow> live_frame option" where
  "live_child n i name live = find (\<lambda>c. live_name c = name)
     (if n = length (live_children live) then rotate i (live_children live) else live_children live)"

lemma enumerate_child: "(i, child) \<in> set (enumerate n cs) \<Longrightarrow> size child < Suc (size_list size cs)"
  by (induction cs arbitrary: n) (auto simp: less_Suc_eq_le le_SucI trans_le_add2 dest: less_imp_le_nat)

lemma zip_child: "(child, x) \<in> set (zip cs xs) \<Longrightarrow> size child < Suc (size_list size cs)"
  using enumerate_child [of _ child 0 cs] by (auto simp: in_set_zip in_set_enumerate_eq)

text \<open>\<open>TreeNode::CloneAndReplace\<close>: the target and the live frame may be null; \<open>path\<close> is where the
  node stands in its tree.\<close>

function Tree_CloneAndReplace ::
  "FrameNavigationEntry \<Rightarrow> bool \<Rightarrow> frame option \<Rightarrow> live_frame option \<Rightarrow> tree_path \<Rightarrow> TreeNode \<Rightarrow> TreeNode" where
  "Tree_CloneAndReplace fe clone_children target live path (TreeNode own cs) =
     (let is_target = (case target of None \<Rightarrow> False | Some f \<Rightarrow> MatchesFrame f path (TreeNode own cs))
      in TreeNode (if is_target then fe else FrameEntry_Clone own)
           (if \<not> is_target \<or> clone_children
            then concat (map (\<lambda>(i, child).
                   case live of
                     None \<Rightarrow> [Tree_CloneAndReplace fe clone_children target None (path @ [i]) child]
                   | Some l \<Rightarrow>
                       (case live_child (length cs) i (frame_unique_name (frame_entry child)) l of
                          None \<Rightarrow> []
                        | Some lc \<Rightarrow> [Tree_CloneAndReplace fe clone_children target (Some lc) (path @ [i]) child]))
                 (enumerate 0 cs))
            else []))"
  by pat_completeness auto
termination
  by (relation "measure (\<lambda>(fe, clone_children, target, live, path, node). size node)")
    (use enumerate_child in auto)

text \<open>\<open>InSameTreePosition\<close>: the ancestors of a node match those of the frame. The names of the
  ancestors of the node, from its parent up to the root, stand for the chain of parent pointers.\<close>

fun ancestors_match :: "frame \<Rightarrow> string list \<Rightarrow> bool" where
  "ancestors_match f [] \<longleftrightarrow> True"
| "ancestors_match [] (a # as) \<longleftrightarrow> True"
| "ancestors_match (n # f) (a # as) \<longleftrightarrow>
     (if as = [] then f = [] else f \<noteq> [] \<and> n = a) \<and> ancestors_match f as"

definition InSameTreePosition :: "frame \<Rightarrow> string list \<Rightarrow> bool" where
  "InSameTreePosition f ancestors = ancestors_match (tl f) ancestors"

text \<open>\<open>ClearStaleFrameEntriesForNewFrame\<close>. The code visits the nodes in a queue; it does not go below
  a matching node, so the order of the visit does not matter.\<close>

fun clear_stale :: "frame \<Rightarrow> string list \<Rightarrow> TreeNode \<Rightarrow> TreeNode" where
  "clear_stale f ancestors (TreeNode fe cs) = TreeNode fe (concat (map (\<lambda>child.
     if hd f = frame_unique_name (frame_entry child)
     then (if InSameTreePosition f (frame_unique_name fe # ancestors) then [child] else [])
     else [clear_stale f (frame_unique_name fe # ancestors) child]) cs))"

definition ClearStaleFrameEntriesForNewFrame :: "frame \<Rightarrow> TreeNode \<Rightarrow> TreeNode" where
  "ClearStaleFrameEntriesForNewFrame f root = (if IsMainFrame f then root else clear_stale f [] root)"

definition GetSubframeUniqueNames :: "page_env \<Rightarrow> frame \<Rightarrow> TreeNode \<Rightarrow> string \<rightharpoonup> bool" where
  "GetSubframeUniqueNames ps f root =
     (case Option.bind (FindFrameEntry f root) (\<lambda>path. node_at path root) of
        None \<Rightarrow> Map.empty
      | Some node \<Rightarrow> fold (\<lambda>child names. names(frame_unique_name (frame_entry child) \<mapsto>
            (case DecodePageState ps (fne_page_state (frame_entry child)) of
              None \<Rightarrow> False
            | Some state \<Rightarrow> UTF16ToUTF8 ps (nullable_text (x_url_string (x_fields (top_state state)))) = kAboutBlankURL))) (tree_children node) Map.empty)"

subsection \<open>Page states of whole pages\<close>

fun RecursivelyGenerateFrameEntries ::
  "page_env \<Rightarrow> ExplodedFrameState \<Rightarrow> NullableString16 list \<Rightarrow> TreeNode" where
  "RecursivelyGenerateFrameEntries ps (ExplodedFrameState s children) files =
     TreeNode (FrameEntry_SetPageState ps
        (unless_ended (EncodePageState ps \<lparr>referenced_files = files, top_state = ExplodedFrameState s children\<rparr>))
        (FrameNavigationEntry_new (UTF16ToUTF8 ps (nullable_text (x_target s)))
           (sint (x_item_sequence_number s)) (sint (x_document_sequence_number s)) None None
           (parse_url16 ps (nullable_text (x_url_string s)))
           \<lparr>referrer_url = parse_url16 ps (nullable_text (x_referrer s)), referrer_policy = x_referrer_policy s\<rparr>
           ''GET'' (-1)))
      (map (\<lambda>child. RecursivelyGenerateFrameEntries ps child []) children)"

text \<open>The state to fill in is an argument: when a frame's own state does not decode, it stays what it
  was. A parent's state is filled in first and its children resized.\<close>

function RecursivelyGenerateFrameState ::
  "page_env \<Rightarrow> TreeNode \<Rightarrow> ExplodedFrameState \<Rightarrow> ExplodedFrameState \<times> NullableString16 list" where
  "RecursivelyGenerateFrameState ps (TreeNode fe cs) state =
     (case DecodePageState ps (fne_page_state fe) of
        None \<Rightarrow> (state, [])
      | Some exploded \<Rightarrow>
          (case top_state exploded of ExplodedFrameState s children \<Rightarrow>
             let resized = take (length cs) children @ replicate (length cs - length children) (ExplodedFrameState_new ps);
                 results = map (\<lambda>(child, child_state). RecursivelyGenerateFrameState ps child child_state) (zip cs resized)
             in (ExplodedFrameState s (map fst results),
                 referenced_files exploded @ concat (map snd results))))"
  by pat_completeness auto
termination
  by (relation "measure (\<lambda>(ps, node, state). size node)") (auto simp: zip_child)

definition Tree_SetPageState :: "page_env \<Rightarrow> PageState \<Rightarrow> TreeNode \<Rightarrow> TreeNode" where
  "Tree_SetPageState ps state root =
     (case DecodePageState ps state of
        None \<Rightarrow> TreeNode (FrameEntry_SetPageState ps state (frame_entry root)) []
      | Some exploded \<Rightarrow>
          if x_children (top_state exploded) = []
          then TreeNode (FrameEntry_SetPageState ps state (frame_entry root)) []
          else RecursivelyGenerateFrameEntries ps (top_state exploded) (referenced_files exploded))"

definition Tree_GetPageState :: "page_env \<Rightarrow> TreeNode \<Rightarrow> PageState" where
  "Tree_GetPageState ps root =
     (if tree_children root = [] then fne_page_state (frame_entry root)
      else case RecursivelyGenerateFrameState ps root (ExplodedFrameState_new ps) of (state, files) \<Rightarrow>
             unless_ended (EncodePageState ps \<lparr>referenced_files = files, top_state = state\<rparr>))"

end
