(* ===== verification/Nav_Controller.thy ===== *)
theory Nav_Controller
  imports Nav_Entry Security_Policy
begin

text \<open>
  The session history of a tab (\<open>browser/frame_host/navigation_controller_impl.cc\<close>). Entries are
  objects: the list of the committed ones and the pending entry hold pointers, so that an entry that
  is pending and in the list is one object, and using a deleted one is the outcome
  \<open>DanglingPointer\<close>. An index out of the list is \<open>OutOfRange\<close>, a null pointer \<open>NullPointer\<close>, a CHECK
  that fails \<open>CheckFailed\<close>. The record \<open>nav_env\<close> holds what the code asks of other parts: URL
  rewriting, site instances, the live frame tree, and whether a navigator starts a load.
\<close>

datatype nav_error = NullPointer | DanglingPointer | OutOfRange | CheckFailed

subsection \<open>Entries\<close>

datatype PageType = PAGE_TYPE_NORMAL | PAGE_TYPE_ERROR | PAGE_TYPE_INTERSTITIAL

datatype RestoreType = LAST_SESSION_EXITED_CLEANLY | LAST_SESSION_CRASHED | CURRENT_SESSION | RESTORE_NONE

datatype ReloadType = RELOAD_NONE | RELOAD_NORMAL | BYPASSING_CACHE | ORIGINAL_REQUEST_URL | DISABLE_LOFI_MODE

text \<open>\<open>ui::PageTransition\<close>, not part of the repository: a core type with qualifiers.\<close>

datatype core_transition = TRANSITION_LINK | TRANSITION_TYPED | TRANSITION_AUTO_SUBFRAME
  | TRANSITION_MANUAL_SUBFRAME | TRANSITION_RELOAD | TRANSITION_OTHER nat

record PageTransition =
  core_type :: core_transition
  FORWARD_BACK :: bool
  FROM_ADDRESS_BAR :: bool
  IS_REDIRECT :: bool

definition plain :: "core_transition \<Rightarrow> PageTransition" where
  "plain c = \<lparr>core_type = c, FORWARD_BACK = False, FROM_ADDRESS_BAR = False, IS_REDIRECT = False\<rparr>"

record SSLStatus =
  ssl_initialized :: bool
  ssl_content :: blob

record NavigationEntryImpl =
  frame_tree :: TreeNode
  unique_id :: int
  bindings :: int
  page_type :: PageType
  virtual_url :: GURL
  update_virtual_url_with_url :: bool
  title :: string16
  favicon :: "blob option"
  ssl :: SSLStatus
  transition_type :: PageTransition
  user_typed_url :: GURL
  restore_type :: RestoreType
  original_request_url :: GURL
  is_overriding_user_agent :: bool
  timestamp :: int
  http_status_code :: int
  post_data :: "blob option"
  screenshot :: "blob option"
  extra_headers :: string
  base_url_for_data_url :: GURL
  data_url_as_string :: "blob option"
  is_renderer_initiated :: bool
  transferred_global_request_id :: "blob option"
  should_replace_entry :: bool
  should_clear_history_list :: bool
  can_load_local_resources :: bool
  frame_tree_node_id :: int
  intent_received_timestamp :: "int option"
  has_user_gesture :: bool
  reload_type :: ReloadType
  started_from_context_menu :: bool
  extra_data :: "(string \<times> string16) list"
  ssl_error :: bool

definition kInvalidBindings :: int where "kInvalidBindings = -1"

definition NavigationEntryImpl_new ::
  "int \<Rightarrow> site_instance option \<Rightarrow> GURL \<Rightarrow> Referrer \<Rightarrow> string16 \<Rightarrow> PageTransition \<Rightarrow> bool \<Rightarrow>
   NavigationEntryImpl" where
  "NavigationEntryImpl_new uid inst url ref ttl transition renderer_initiated =
     \<lparr>frame_tree = TreeNode (FrameNavigationEntry_new [] (-1) (-1) inst None url ref ''GET'' (-1)) [],
      unique_id = uid, bindings = kInvalidBindings, page_type = PAGE_TYPE_NORMAL, virtual_url = empty_url,
      update_virtual_url_with_url = False, title = ttl, favicon = None,
      ssl = \<lparr>ssl_initialized = False, ssl_content = 0\<rparr>, transition_type = transition,
      user_typed_url = empty_url, restore_type = RESTORE_NONE, original_request_url = empty_url,
      is_overriding_user_agent = False, timestamp = 0, http_status_code = 0, post_data = None,
      screenshot = None, extra_headers = [], base_url_for_data_url = empty_url, data_url_as_string = None,
      is_renderer_initiated = renderer_initiated, transferred_global_request_id = None,
      should_replace_entry = False, should_clear_history_list = False, can_load_local_resources = False,
      frame_tree_node_id = -1, intent_received_timestamp = None, has_user_gesture = False,
      reload_type = RELOAD_NONE, started_from_context_menu = False, extra_data = [], ssl_error = False\<rparr>"

abbreviation root_entry :: "NavigationEntryImpl \<Rightarrow> FrameNavigationEntry" where
  "root_entry e \<equiv> frame_entry (frame_tree e)"

definition update_root :: "(FrameNavigationEntry \<Rightarrow> FrameNavigationEntry) \<Rightarrow> NavigationEntryImpl \<Rightarrow> NavigationEntryImpl" where
  "update_root g e = e\<lparr>frame_tree := TreeNode (g (root_entry e)) (tree_children (frame_tree e))\<rparr>"

definition GetURL :: "NavigationEntryImpl \<Rightarrow> GURL" where "GetURL e = fne_url (root_entry e)"

definition SetURL :: "GURL \<Rightarrow> NavigationEntryImpl \<Rightarrow> NavigationEntryImpl" where
  "SetURL url = update_root (\<lambda>fe. fe\<lparr>fne_url := url\<rparr>)"

definition SetReferrer :: "Referrer \<Rightarrow> NavigationEntryImpl \<Rightarrow> NavigationEntryImpl" where
  "SetReferrer ref = update_root (\<lambda>fe. fe\<lparr>fne_referrer := ref\<rparr>)"

definition SetVirtualURL :: "GURL \<Rightarrow> NavigationEntryImpl \<Rightarrow> NavigationEntryImpl" where
  "SetVirtualURL url e = e\<lparr>virtual_url := (if url = GetURL e then empty_url else url)\<rparr>"

definition GetVirtualURL :: "NavigationEntryImpl \<Rightarrow> GURL" where
  "GetVirtualURL e = (if spec (virtual_url e) = [] then GetURL e else virtual_url e)"

definition entry_site_instance :: "NavigationEntryImpl \<Rightarrow> site_instance option" where
  "entry_site_instance e = fne_site_instance (root_entry e)"

definition set_site_instance :: "site_instance option \<Rightarrow> NavigationEntryImpl \<Rightarrow> NavigationEntryImpl" where
  "set_site_instance si = update_root (\<lambda>fe. fe\<lparr>fne_site_instance := si\<rparr>)"

definition set_source_site_instance :: "site_instance option \<Rightarrow> NavigationEntryImpl \<Rightarrow> NavigationEntryImpl" where
  "set_source_site_instance si = update_root (\<lambda>fe. fe\<lparr>fne_source_site_instance := si\<rparr>)"

definition SetHasPostData :: "bool \<Rightarrow> NavigationEntryImpl \<Rightarrow> NavigationEntryImpl" where
  "SetHasPostData has = update_root (\<lambda>fe. fe\<lparr>fne_method := (if has then ''POST'' else ''GET'')\<rparr>)"

definition GetHasPostData :: "NavigationEntryImpl \<Rightarrow> bool" where
  "GetHasPostData e \<longleftrightarrow> fne_method (root_entry e) = ''POST''"

definition SetRedirectChain :: "GURL list \<Rightarrow> NavigationEntryImpl \<Rightarrow> NavigationEntryImpl" where
  "SetRedirectChain chain = update_root (\<lambda>fe. fe\<lparr>fne_redirect_chain := chain\<rparr>)"

definition GetPageState :: "page_env \<Rightarrow> NavigationEntryImpl \<Rightarrow> PageState" where
  "GetPageState ps e = Tree_GetPageState ps (frame_tree e)"

definition SetPageState :: "page_env \<Rightarrow> PageState \<Rightarrow> NavigationEntryImpl \<Rightarrow> NavigationEntryImpl" where
  "SetPageState ps state e = e\<lparr>frame_tree := Tree_SetPageState ps state (frame_tree e)\<rparr>"

definition Entry_GetFrameEntry :: "frame \<Rightarrow> NavigationEntryImpl \<Rightarrow> FrameNavigationEntry option" where
  "Entry_GetFrameEntry f e = Tree_GetFrameEntry f (frame_tree e)"

definition Entry_AddOrUpdateFrameEntry ::
  "page_env \<Rightarrow> frame \<Rightarrow> frame_update \<Rightarrow> NavigationEntryImpl \<Rightarrow> NavigationEntryImpl" where
  "Entry_AddOrUpdateFrameEntry ps f u e = e\<lparr>frame_tree := AddOrUpdateFrameEntry ps f u (frame_tree e)\<rparr>"

text \<open>The frame entry that a frame has, changed; nothing when it has none.\<close>

definition update_frame_entry ::
  "frame \<Rightarrow> (FrameNavigationEntry \<Rightarrow> FrameNavigationEntry) \<Rightarrow> NavigationEntryImpl \<Rightarrow> NavigationEntryImpl" where
  "update_frame_entry f g e =
     (case FindFrameEntry f (frame_tree e) of
        None \<Rightarrow> e
      | Some path \<Rightarrow> e\<lparr>frame_tree := update_at path (\<lambda>n. TreeNode (g (frame_entry n)) (tree_children n)) (frame_tree e)\<rparr>)"

definition Entry_CloneAndReplace ::
  "page_env \<Rightarrow> int \<Rightarrow> FrameNavigationEntry \<Rightarrow> bool \<Rightarrow> frame option \<Rightarrow> live_frame option \<Rightarrow>
   NavigationEntryImpl \<Rightarrow> NavigationEntryImpl" where
  "Entry_CloneAndReplace ps uid fe clone_children target live e =
     (NavigationEntryImpl_new uid None empty_url (Referrer_new ps) [] (plain TRANSITION_LINK) False)
       \<lparr>frame_tree := Tree_CloneAndReplace fe clone_children target live [] (frame_tree e),
        bindings := bindings e, page_type := page_type e, virtual_url := virtual_url e,
        update_virtual_url_with_url := update_virtual_url_with_url e, title := title e,
        favicon := favicon e, ssl := ssl e, transition_type := transition_type e,
        user_typed_url := user_typed_url e, restore_type := restore_type e,
        original_request_url := original_request_url e,
        is_overriding_user_agent := is_overriding_user_agent e, timestamp := timestamp e,
        http_status_code := http_status_code e, screenshot := screenshot e,
        extra_headers := extra_headers e, base_url_for_data_url := base_url_for_data_url e,
        data_url_as_string := data_url_as_string e, has_user_gesture := has_user_gesture e,
        extra_data := extra_data e\<rparr>"

definition Entry_Clone :: "page_env \<Rightarrow> int \<Rightarrow> NavigationEntryImpl \<Rightarrow> NavigationEntryImpl" where
  "Entry_Clone ps uid e = Entry_CloneAndReplace ps uid (root_entry e) False None None e"

definition ResetForCommit :: "frame option \<Rightarrow> NavigationEntryImpl \<Rightarrow> NavigationEntryImpl" where
  "ResetForCommit f e =
     (let e1 = e\<lparr>post_data := None, is_renderer_initiated := False, transferred_global_request_id := None,
                 should_replace_entry := False, should_clear_history_list := False,
                 frame_tree_node_id := -1, reload_type := RELOAD_NONE, intent_received_timestamp := None\<rparr>
      in case f of None \<Rightarrow> e1
         | Some f \<Rightarrow> update_frame_entry f (\<lambda>fe. fe\<lparr>fne_source_site_instance := None\<rparr>) e1)"

subsection \<open>Time\<close>

record TimeSmoother =
  low_water_mark :: int
  high_water_mark :: int

definition GetSmoothedTime :: "int \<Rightarrow> TimeSmoother \<Rightarrow> int \<times> TimeSmoother" where
  "GetSmoothedTime t ts =
     (if low_water_mark ts \<le> t \<and> t \<le> high_water_mark ts
      then (high_water_mark ts + 1, ts\<lparr>high_water_mark := high_water_mark ts + 1\<rparr>)
      else (t, ts\<lparr>low_water_mark := t, high_water_mark := t\<rparr>))"

subsection \<open>The controller\<close>

type_synonym entry_ptr = nat

text \<open>What the controller tells its delegate and the notification service, in order.\<close>

datatype nav_event = NavListPruned bool int | EntryPending entry_ptr | StateChangedURL | StateChangedAll
  | EntryCommitted entry_ptr | EntryChanged int | StopLoading | RepostWarning
  | SetHistoryOffsetAndLength int int | UpdateOverridingUserAgent | BadMessage
  | SetNavEntryIds int

record nav_controller =
  objects :: "entry_ptr \<Rightarrow> NavigationEntryImpl option"
  created :: nat
  entries :: "entry_ptr list"
  pending_entry :: "entry_ptr option"
  last_pending_entry :: "entry_ptr option"
  failed_pending_entry_id :: int
  last_committed_entry_index :: int
  pending_entry_index :: int
  transient_entry_index :: int
  last_pending_entry_index :: int
  last_transient_entry_index :: int
  needs_reload :: bool
  is_initial_navigation :: bool
  in_navigate_to_pending_entry :: bool
  pending_reload :: ReloadType
  time_smoother :: TimeSmoother
  last_committed_reload_type :: ReloadType
  last_committed_reload_time :: "int option"
  events :: "nav_event list"

record nav_env =
  url_lib :: url_library
  page_state_env :: page_env
  live_root :: live_frame
  max_entry_count :: nat
  FixupURLBeforeRewrite :: "GURL \<Rightarrow> GURL"
  RewriteURLIfNecessary :: "GURL \<Rightarrow> GURL \<times> bool"
  ReverseURLRewrite :: "GURL \<Rightarrow> GURL \<Rightarrow> GURL option"
  HandleDebugURL :: "GURL \<Rightarrow> PageTransition \<Rightarrow> bool"
  gpu_benchmarking :: bool
  starts_navigation :: "frame \<Rightarrow> FrameNavigationEntry \<Rightarrow> ReloadType \<Rightarrow> bool \<Rightarrow> bool"
  render_view_live :: bool
  has_accessed_initial_document :: bool
  is_being_destroyed :: bool
  is_for_guests_only :: "site_instance \<Rightarrow> bool"
  HasWrongProcessForURL :: "site_instance \<Rightarrow> GURL \<Rightarrow> bool"
  check_for_repost_flag :: bool
  current_time :: int

definition kMaxSessionHistoryEntries :: nat where "kMaxSessionHistoryEntries = 50"

definition NavigationControllerImpl_new :: nav_controller where
  "NavigationControllerImpl_new =
     \<lparr>objects = (\<lambda>p. None), created = 0, entries = [], pending_entry = None, last_pending_entry = None,
      failed_pending_entry_id = 0, last_committed_entry_index = -1, pending_entry_index = -1,
      transient_entry_index = -1, last_pending_entry_index = -1, last_transient_entry_index = -1,
      needs_reload = False, is_initial_navigation = True, in_navigate_to_pending_entry = False,
      pending_reload = RELOAD_NONE, time_smoother = \<lparr>low_water_mark = 0, high_water_mark = 0\<rparr>,
      last_committed_reload_type = RELOAD_NONE, last_committed_reload_time = None, events = []\<rparr>"

text \<open>Objects. Their unique ids count up from 1 as they are created.\<close>

definition new_object :: "(int \<Rightarrow> NavigationEntryImpl) \<Rightarrow> nav_controller \<Rightarrow> entry_ptr \<times> nav_controller" where
  "new_object mk s =
     (created s, s\<lparr>objects := (objects s)(created s \<mapsto> mk (int (created s) + 1)), created := Suc (created s)\<rparr>)"

definition delete_object :: "entry_ptr \<Rightarrow> nav_controller \<Rightarrow> nav_controller" where
  "delete_object p s = s\<lparr>objects := (objects s)(p := None)\<rparr>"

definition deref :: "entry_ptr \<Rightarrow> nav_controller \<Rightarrow> nav_error + NavigationEntryImpl" where
  "deref p s = (case objects s p of None \<Rightarrow> Inl DanglingPointer | Some e \<Rightarrow> Inr e)"

definition not_null :: "entry_ptr option \<Rightarrow> nav_error + entry_ptr" where
  "not_null p = (case p of None \<Rightarrow> Inl NullPointer | Some p \<Rightarrow> Inr p)"

definition modify :: "entry_ptr \<Rightarrow> (NavigationEntryImpl \<Rightarrow> NavigationEntryImpl) \<Rightarrow> nav_controller \<Rightarrow>
    nav_error + nav_controller" where
  "modify p g s = bindE (deref p s) (\<lambda>e. Inr (s\<lparr>objects := (objects s)(p \<mapsto> g e)\<rparr>))"

definition notify :: "nav_event \<Rightarrow> nav_controller \<Rightarrow> nav_controller" where
  "notify ev s = s\<lparr>events := events s @ [ev]\<rparr>"

definition entry_ptr_at :: "int \<Rightarrow> nav_controller \<Rightarrow> nav_error + entry_ptr" where
  "entry_ptr_at i s = (if 0 \<le> i \<and> i < int (length (entries s)) then Inr (entries s ! nat i) else Inl OutOfRange)"

text \<open>\<open>entries_.erase(entries_.begin() + i)\<close>, which deletes the object.\<close>

definition erase_entry :: "int \<Rightarrow> nav_controller \<Rightarrow> nav_error + nav_controller" where
  "erase_entry i s = bindE (entry_ptr_at i s) (\<lambda>p.
     Inr ((delete_object p s)\<lparr>entries := take (nat i) (entries s) @ drop (Suc (nat i)) (entries s)\<rparr>))"

definition insert_entry :: "int \<Rightarrow> entry_ptr \<Rightarrow> nav_controller \<Rightarrow> nav_error + nav_controller" where
  "insert_entry i p s =
     (if 0 \<le> i \<and> i \<le> int (length (entries s))
      then Inr (s\<lparr>entries := take (nat i) (entries s) @ p # drop (nat i) (entries s)\<rparr>) else Inl OutOfRange)"

subsection \<open>Looking at the entries\<close>

definition GetEntryCount :: "nav_controller \<Rightarrow> int" where
  "GetEntryCount s = int (length (entries s))"

definition GetEntryAtIndex :: "int \<Rightarrow> nav_controller \<Rightarrow> entry_ptr option" where
  "GetEntryAtIndex i s = (if i < 0 \<or> i \<ge> GetEntryCount s then None else Some (entries s ! nat i))"

definition GetLastCommittedEntry :: "nav_controller \<Rightarrow> nav_error + entry_ptr option" where
  "GetLastCommittedEntry s =
     (if last_committed_entry_index s = -1 then Inr None
      else bindE (entry_ptr_at (last_committed_entry_index s) s) (\<lambda>p. Inr (Some p)))"

definition GetTransientEntry :: "nav_controller \<Rightarrow> nav_error + entry_ptr option" where
  "GetTransientEntry s =
     (if transient_entry_index s = -1 then Inr None
      else bindE (entry_ptr_at (transient_entry_index s) s) (\<lambda>p. Inr (Some p)))"

definition GetActiveEntry :: "nav_controller \<Rightarrow> nav_error + entry_ptr option" where
  "GetActiveEntry s =
     (if transient_entry_index s \<noteq> -1 then GetTransientEntry s
      else if pending_entry s \<noteq> None then Inr (pending_entry s)
      else GetLastCommittedEntry s)"

definition IsUnmodifiedBlankTab :: "nav_env \<Rightarrow> nav_controller \<Rightarrow> nav_error + bool" where
  "IsUnmodifiedBlankTab env s = bindE (GetLastCommittedEntry s) (\<lambda>last.
     Inr (is_initial_navigation s \<and> last = None \<and> \<not> has_accessed_initial_document env))"

definition GetVisibleEntry :: "nav_env \<Rightarrow> nav_controller \<Rightarrow> nav_error + entry_ptr option" where
  "GetVisibleEntry env s =
     (if transient_entry_index s \<noteq> -1 then GetTransientEntry s
      else case pending_entry s of
          None \<Rightarrow> GetLastCommittedEntry s
        | Some p \<Rightarrow>
            bindE (deref p s) (\<lambda>pending.
            bindE (IsUnmodifiedBlankTab env s) (\<lambda>blank.
              let safe_to_show_pending =
                    pending_entry_index s = -1 \<and> (\<not> is_renderer_initiated pending \<or> blank) \<or>
                    pending_entry_index s \<noteq> -1 \<and> is_initial_navigation s \<and> \<not> is_renderer_initiated pending
              in if safe_to_show_pending then Inr (Some p) else GetLastCommittedEntry s)))"

definition GetCurrentEntryIndex :: "nav_controller \<Rightarrow> int" where
  "GetCurrentEntryIndex s =
     (if transient_entry_index s \<noteq> -1 then transient_entry_index s
      else if pending_entry_index s \<noteq> -1 then pending_entry_index s
      else last_committed_entry_index s)"

definition GetIndexForOffset :: "int \<Rightarrow> nav_controller \<Rightarrow> int" where
  "GetIndexForOffset offset s = GetCurrentEntryIndex s + offset"

definition GetEntryAtOffset :: "int \<Rightarrow> nav_controller \<Rightarrow> entry_ptr option" where
  "GetEntryAtOffset offset s = GetEntryAtIndex (GetIndexForOffset offset s) s"

definition CanGoToOffset :: "int \<Rightarrow> nav_controller \<Rightarrow> bool" where
  "CanGoToOffset offset s \<longleftrightarrow>
     (let index = GetIndexForOffset offset s in index \<ge> 0 \<and> index < GetEntryCount s)"

definition CanGoBack :: "nav_controller \<Rightarrow> bool" where "CanGoBack s = CanGoToOffset (-1) s"

definition CanGoForward :: "nav_controller \<Rightarrow> bool" where "CanGoForward s = CanGoToOffset 1 s"

text \<open>The last entry with the id, and the first place of an object.\<close>

definition GetEntryIndexWithUniqueID :: "int \<Rightarrow> nav_controller \<Rightarrow> int" where
  "GetEntryIndexWithUniqueID uid s =
     (case find (\<lambda>i. map_option unique_id (objects s (entries s ! i)) = Some uid) (rev [0..<length (entries s)]) of
        None \<Rightarrow> -1 | Some i \<Rightarrow> int i)"

definition GetEntryWithUniqueID :: "int \<Rightarrow> nav_controller \<Rightarrow> nav_error + entry_ptr option" where
  "GetEntryWithUniqueID uid s =
     (let index = GetEntryIndexWithUniqueID uid s
      in if index \<noteq> -1 then bindE (entry_ptr_at index s) (\<lambda>p. Inr (Some p)) else Inr None)"

definition GetIndexOfEntry :: "entry_ptr option \<Rightarrow> nav_controller \<Rightarrow> int" where
  "GetIndexOfEntry p s =
     (case find (\<lambda>i. Some (entries s ! i) = p) [0..<length (entries s)] of None \<Rightarrow> -1 | Some i \<Rightarrow> int i)"

definition PendingEntryMatchesHandle :: "int \<Rightarrow> nav_controller \<Rightarrow> bool" where
  "PendingEntryMatchesHandle handle_entry_id s \<longleftrightarrow>
     Option.bind (pending_entry s) (\<lambda>p. map_option unique_id (objects s p)) = Some handle_entry_id"

subsection \<open>Discarding\<close>

definition DiscardPendingEntry :: "nav_env \<Rightarrow> bool \<Rightarrow> nav_controller \<Rightarrow> nav_error + nav_controller" where
  "DiscardPendingEntry env was_failure s =
     (if in_navigate_to_pending_entry s \<and> \<not> is_being_destroyed env then Inl CheckFailed
      else case pending_entry s of
          None \<Rightarrow> Inr (s\<lparr>failed_pending_entry_id := 0\<rparr>)
        | Some p \<Rightarrow>
            bindE (deref p s) (\<lambda>pending.
              let s1 = s\<lparr>failed_pending_entry_id := (if was_failure then unique_id pending else 0)\<rparr>;
                  s2 = (if pending_entry_index s1 = -1 then delete_object p s1 else s1)
              in Inr (s2\<lparr>pending_entry_index := -1, pending_entry := None\<rparr>)))"

definition DiscardTransientEntry :: "nav_controller \<Rightarrow> nav_error + nav_controller" where
  "DiscardTransientEntry s =
     (let t = transient_entry_index s in
      if t = -1 then Inr s
      else bindE (erase_entry t s) (\<lambda>s1.
        let s2 = (if last_committed_entry_index s1 > t
                  then s1\<lparr>last_committed_entry_index := last_committed_entry_index s1 - 1\<rparr> else s1);
            s3 = (if pending_entry_index s2 > t
                  then s2\<lparr>pending_entry_index := pending_entry_index s2 - 1\<rparr> else s2)
        in Inr (s3\<lparr>transient_entry_index := -1\<rparr>)))"

definition DiscardNonCommittedEntriesInternal :: "nav_env \<Rightarrow> nav_controller \<Rightarrow> nav_error + nav_controller" where
  "DiscardNonCommittedEntriesInternal env s = bindE (DiscardPendingEntry env False s) DiscardTransientEntry"

definition DiscardNonCommittedEntries :: "nav_env \<Rightarrow> nav_controller \<Rightarrow> nav_error + nav_controller" where
  "DiscardNonCommittedEntries env s =
     bindE (DiscardNonCommittedEntriesInternal env s) (\<lambda>s1.
       Inr (if transient_entry_index s \<noteq> -1 then notify StateChangedAll s1 else s1))"

definition SetTransientEntry :: "entry_ptr \<Rightarrow> nav_controller \<Rightarrow> nav_error + nav_controller" where
  "SetTransientEntry p s =
     (let index = (if last_committed_entry_index s \<noteq> -1 then last_committed_entry_index s + 1 else 0)
      in bindE (DiscardTransientEntry s) (\<lambda>s1.
         bindE (insert_entry index p s1) (\<lambda>s2.
           let s3 = (if pending_entry_index s2 \<ge> index
                     then s2\<lparr>pending_entry_index := pending_entry_index s2 + 1\<rparr> else s2)
           in Inr (notify StateChangedAll (s3\<lparr>transient_entry_index := index\<rparr>)))))"

definition SetPendingNavigationSSLError :: "bool \<Rightarrow> nav_controller \<Rightarrow> nav_error + nav_controller" where
  "SetPendingNavigationSSLError err s =
     (case pending_entry s of None \<Rightarrow> Inr s | Some p \<Rightarrow> modify p (\<lambda>e. e\<lparr>ssl_error := err\<rparr>) s)"

subsection \<open>Removing\<close>

definition RemoveEntryAtIndexInternal :: "nav_env \<Rightarrow> int \<Rightarrow> nav_controller \<Rightarrow> nav_error + nav_controller" where
  "RemoveEntryAtIndexInternal env index s =
     bindE (DiscardNonCommittedEntries env s) (\<lambda>s1.
     bindE (erase_entry index s1) (\<lambda>s2.
       Inr (if last_committed_entry_index s2 > index
            then s2\<lparr>last_committed_entry_index := last_committed_entry_index s2 - 1\<rparr> else s2)))"

definition RemoveEntryAtIndex :: "nav_env \<Rightarrow> int \<Rightarrow> nav_controller \<Rightarrow> nav_error + bool \<times> nav_controller" where
  "RemoveEntryAtIndex env index s =
     (if index = last_committed_entry_index s \<or> index = pending_entry_index s then Inr (False, s)
      else bindE (RemoveEntryAtIndexInternal env index s) (\<lambda>s1. Inr (True, s1)))"

definition PruneOldestEntryIfFull :: "nav_env \<Rightarrow> nav_controller \<Rightarrow> nav_error + nav_controller" where
  "PruneOldestEntryIfFull env s =
     (if length (entries s) \<ge> max_entry_count env
      then bindE (RemoveEntryAtIndex env 0 s) (\<lambda>(_, s1). Inr (notify (NavListPruned True 1) s1))
      else Inr s)"

definition CanPruneAllButLastCommitted :: "nav_controller \<Rightarrow> bool" where
  "CanPruneAllButLastCommitted s \<longleftrightarrow>
     \<not> last_committed_entry_index s = -1 \<and> \<not> pending_entry_index s \<noteq> -1 \<and> \<not> transient_entry_index s \<noteq> -1"

definition delete_objects :: "entry_ptr list \<Rightarrow> nav_controller \<Rightarrow> nav_controller" where
  "delete_objects ps s = fold delete_object ps s"

definition PruneAllButLastCommittedInternal :: "nav_controller \<Rightarrow> nav_error + nav_controller" where
  "PruneAllButLastCommittedInternal s =
     (if \<not> CanPruneAllButLastCommitted s then Inl CheckFailed
      else bindE (entry_ptr_at (last_committed_entry_index s) s) (\<lambda>p.
        let n = nat (last_committed_entry_index s)
        in Inr ((delete_objects (take n (entries s) @ drop (Suc n) (entries s)) s)
             \<lparr>entries := [p], last_committed_entry_index := 0\<rparr>)))"

definition PruneAllButLastCommitted :: "nav_controller \<Rightarrow> nav_error + nav_controller" where
  "PruneAllButLastCommitted s =
     bindE (PruneAllButLastCommittedInternal s) (\<lambda>s1.
       Inr (notify (SetHistoryOffsetAndLength (last_committed_entry_index s1) (GetEntryCount s1)) s1))"

text \<open>\<open>InsertOrReplaceEntry\<close>. The forward entries are popped one by one.\<close>

fun prune_forward :: "nat \<Rightarrow> nav_controller \<Rightarrow> nav_controller" where
  "prune_forward 0 s = s"
| "prune_forward (Suc n) s = prune_forward n
     ((if entries s = [] then s else delete_object (last (entries s)) s)\<lparr>entries := butlast (entries s)\<rparr>)"

definition InsertOrReplaceEntry :: "nav_env \<Rightarrow> entry_ptr \<Rightarrow> bool \<Rightarrow> nav_controller \<Rightarrow> nav_error + nav_controller" where
  "InsertOrReplaceEntry env p replace s =
     bindE (case pending_entry s of
          Some q \<Rightarrow> if pending_entry_index s = -1
            then bindE (deref q s) (\<lambda>pending. modify p (\<lambda>e. e\<lparr>unique_id := unique_id pending\<rparr>) s) else Inr s
        | None \<Rightarrow> Inr s) (\<lambda>s1.
     bindE (DiscardNonCommittedEntriesInternal env s1) (\<lambda>s2.
       let current_size = int (length (entries s2)) in
       if replace \<and> current_size > 0
       then bindE (entry_ptr_at (last_committed_entry_index s2) s2) (\<lambda>old.
              Inr ((delete_object old s2)\<lparr>entries := (entries s2)[nat (last_committed_entry_index s2) := p]\<rparr>))
       else
         let num_pruned = (if current_size > 0 then current_size - 1 - last_committed_entry_index s2 else 0);
             s3 = (if num_pruned > 0
                   then notify (NavListPruned False num_pruned) (prune_forward (nat num_pruned) s2) else s2)
         in bindE (PruneOldestEntryIfFull env s3) (\<lambda>s4.
              let s5 = s4\<lparr>entries := entries s4 @ [p]\<rparr>
              in Inr (s5\<lparr>last_committed_entry_index := int (length (entries s5)) - 1\<rparr>))))"

end
