(* ===== verification/Nav_Load.thy ===== *)
theory Nav_Load
  imports Nav_Controller
begin

text \<open>
  How the navigation controller starts loads: the pending entry, reloads, session history
  navigations, restored and copied tabs. What an interstitial page does when a navigation cancels it
  is not modelled.
\<close>

subsection \<open>Which frames to navigate\<close>

text \<open>\<open>FindFramesToNavigate\<close> for a frame and its ancestors, with the loads found so far.\<close>

fun FindFramesToNavigate ::
  "TreeNode \<Rightarrow> TreeNode \<Rightarrow> frame \<Rightarrow> live_frame \<Rightarrow>
   (frame \<times> FrameNavigationEntry) list \<times> (frame \<times> FrameNavigationEntry) list" where
  "FindFramesToNavigate new_tree old_tree ancestors (LiveFrame name no_url cs) =
     (let f = name # ancestors in
      case Tree_GetFrameEntry f new_tree of
        None \<Rightarrow> ([], [])
      | Some new_item \<Rightarrow>
          let old_item = Tree_GetFrameEntry f old_tree in
          if (case old_item of
                None \<Rightarrow> True
              | Some old \<Rightarrow> item_sequence_number new_item \<noteq> item_sequence_number old \<or>
                  fne_site_instance new_item \<noteq> None \<and> fne_site_instance new_item \<noteq> fne_site_instance old)
          then
            if (case old_item of
                  None \<Rightarrow> False
                | Some old \<Rightarrow> document_sequence_number new_item = document_sequence_number old \<and> \<not> no_url)
            then ([(f, new_item)], []) else ([], [(f, new_item)])
          else
            let found = map (FindFramesToNavigate new_tree old_tree f) cs
            in (concat (map fst found), concat (map snd found)))"

definition NavigateToPendingEntryInternal ::
  "nav_env \<Rightarrow> ReloadType \<Rightarrow> nav_controller \<Rightarrow> nav_error + bool" where
  "NavigateToPendingEntryInternal env reload s =
     bindE (not_null (pending_entry s)) (\<lambda>p.
     bindE (deref p s) (\<lambda>pending.
     bindE (GetLastCommittedEntry s) (\<lambda>prior.
     bindE (case prior of
          None \<Rightarrow> Inr ([], [])
        | Some l \<Rightarrow> bindE (deref l s) (\<lambda>committed.
            Inr (FindFramesToNavigate (frame_tree pending) (frame_tree committed) [] (live_root env))))
       (\<lambda>(same_document_loads, different_document_loads).
       let root = [live_name (live_root env)];
           different = (if same_document_loads = [] \<and> different_document_loads = []
                        then [(root, frame_entry (frame_tree pending))] else different_document_loads)
       in Inr ((\<exists>(f, item) \<in> set same_document_loads. starts_navigation env f item reload True) \<or>
               (\<exists>(f, item) \<in> set different. starts_navigation env f item reload False))))))"

definition ShouldTreatNavigationAsReload :: "NavigationEntryImpl \<Rightarrow> bool" where
  "ShouldTreatNavigationAsReload e \<longleftrightarrow>
     core_type (transition_type e) = TRANSITION_RELOAD \<and> FROM_ADDRESS_BAR (transition_type e) \<or>
     core_type (transition_type e) = TRANSITION_TYPED \<or> core_type (transition_type e) = TRANSITION_LINK"

text \<open>Whether a load is converted to a reload, as pressing Enter in the address bar is.\<close>

definition converts_to_reload ::
  "int \<Rightarrow> int \<Rightarrow> ReloadType \<Rightarrow> NavigationEntryImpl option \<Rightarrow> NavigationEntryImpl \<Rightarrow> bool" where
  "converts_to_reload pending_index last_transient_index reload last_navigation pending \<longleftrightarrow>
     reload = RELOAD_NONE \<and>
     (case last_navigation of
        None \<Rightarrow> False
      | Some prior \<Rightarrow>
          pending_index = -1 \<and> ShouldTreatNavigationAsReload pending \<and> \<not> ssl_error prior \<and>
          last_transient_index = -1 \<and> frame_tree_node_id pending = -1 \<and> GetURL pending = GetURL prior \<and>
          \<not> GetHasPostData pending \<and> \<not> GetHasPostData prior \<and> GetVirtualURL prior = GetVirtualURL pending \<and>
          (if SchemeIs (GetURL pending) kDataScheme \<and> is_valid (base_url_for_data_url pending)
           then base_url_for_data_url pending = base_url_for_data_url prior else True))"

definition NavigateToPendingEntry :: "nav_env \<Rightarrow> ReloadType \<Rightarrow> nav_controller \<Rightarrow> nav_error + nav_controller" where
  "NavigateToPendingEntry env reload s0 =
     bindE (not_null (pending_entry s0)) (\<lambda>p.
     let s = s0\<lparr>needs_reload := False\<rparr> in
     bindE (deref p s) (\<lambda>pending.
     if pending_entry_index s \<noteq> -1 \<and> pending_entry_index s = last_committed_entry_index s \<and>
        restore_type pending = RESTORE_NONE \<and> FORWARD_BACK (transition_type pending)
     then DiscardNonCommittedEntries env (notify StopLoading s)
     else
     bindE (GetLastCommittedEntry s) (\<lambda>last_committed.
     let last_ptr = (if last_pending_entry s \<noteq> None then last_pending_entry s else last_committed) in
     bindE (case last_ptr of None \<Rightarrow> Inr None | Some l \<Rightarrow> bindE (deref l s) (\<lambda>e. Inr (Some e))) (\<lambda>last_navigation.
     let reload1 = (if converts_to_reload (pending_entry_index s) (last_transient_entry_index s) reload
                         last_navigation pending then RELOAD_NORMAL else reload);
         s1 = (case last_pending_entry s of
                 Some l \<Rightarrow> if last_pending_entry_index s = -1 then delete_object l s else s
               | None \<Rightarrow> s);
         s2 = s1\<lparr>last_transient_entry_index := -1, last_pending_entry := None, last_pending_entry_index := -1\<rparr>
     in
     if IsRendererDebugURL (GetURL pending) \<and> \<not> render_view_live env \<and> \<not> is_initial_navigation s2
     then DiscardNonCommittedEntries env s2
     else if in_navigate_to_pending_entry s2 then Inl CheckFailed
     else bindE (NavigateToPendingEntryInternal env reload1 s2) (\<lambda>success.
          if success then Inr s2 else DiscardNonCommittedEntries env s2)))))"

subsection \<open>New loads\<close>

definition SetPendingEntry :: "nav_env \<Rightarrow> entry_ptr \<Rightarrow> nav_controller \<Rightarrow> nav_error + nav_controller" where
  "SetPendingEntry env p s =
     bindE (DiscardNonCommittedEntriesInternal env s) (\<lambda>s1.
       Inr (notify (EntryPending p) (s1\<lparr>pending_entry := Some p\<rparr>)))"

definition LoadEntry :: "nav_env \<Rightarrow> entry_ptr \<Rightarrow> nav_controller \<Rightarrow> nav_error + nav_controller" where
  "LoadEntry env p s =
     (let s1 = s\<lparr>last_pending_entry := pending_entry s, last_pending_entry_index := pending_entry_index s,
                 last_transient_entry_index := transient_entry_index s,
                 pending_entry := None, pending_entry_index := -1\<rparr>
      in bindE (SetPendingEntry env p s1) (NavigateToPendingEntry env RELOAD_NONE))"

definition CreateNavigationEntry ::
  "nav_env \<Rightarrow> GURL \<Rightarrow> Referrer \<Rightarrow> PageTransition \<Rightarrow> bool \<Rightarrow> string \<Rightarrow> int \<Rightarrow> NavigationEntryImpl" where
  "CreateNavigationEntry env url ref transition renderer_initiated headers uid =
     (let dest_url = FixupURLBeforeRewrite env url;
          (loaded_url, reverse_on_redirect) = RewriteURLIfNecessary env dest_url
      in (SetVirtualURL dest_url
            (NavigationEntryImpl_new uid None loaded_url ref [] transition renderer_initiated))
           \<lparr>user_typed_url := dest_url, update_virtual_url_with_url := reverse_on_redirect,
            extra_headers := headers\<rparr>)"

datatype LoadURLType = LOAD_TYPE_DEFAULT | LOAD_TYPE_HTTP_POST | LOAD_TYPE_DATA

datatype UserAgentOverrideOption = UA_OVERRIDE_INHERIT | UA_OVERRIDE_FALSE | UA_OVERRIDE_TRUE

record LoadURLParams =
  p_url :: GURL
  load_type :: LoadURLType
  p_transition_type :: PageTransition
  p_frame_tree_node_id :: int
  p_subframe :: "frame option"
  p_referrer :: Referrer
  p_redirect_chain :: "GURL list"
  p_extra_headers :: string
  p_is_renderer_initiated :: bool
  override_user_agent :: UserAgentOverrideOption
  p_source_site_instance :: "site_instance option"
  p_transferred_global_request_id :: "blob option"
  p_base_url_for_data_url :: GURL
  virtual_url_for_data_url :: GURL
  p_data_url_as_string :: "blob option"
  p_post_data :: "blob option"
  p_can_load_local_resources :: bool
  should_replace_current_entry :: bool
  p_intent_received_timestamp :: int
  p_has_user_gesture :: bool
  p_should_clear_history_list :: bool
  p_started_from_context_menu :: bool

text \<open>\<open>p_subframe\<close> is the frame that the frame tree finds for the id or the name, when it is not the
  main frame. The id of a subframe found by name is \<open>subframe_id\<close>.\<close>

definition new_load_entry ::
  "nav_env \<Rightarrow> LoadURLParams \<Rightarrow> int \<Rightarrow> NavigationEntryImpl option \<Rightarrow> int \<Rightarrow> NavigationEntryImpl" where
  "new_load_entry env params subframe_id last_committed uid =
     (case (p_subframe params, last_committed) of
        (Some f, Some prior) \<Rightarrow>
          Entry_AddOrUpdateFrameEntry (page_state_env env) f
            \<lparr>u_item_sequence_number = -1, u_document_sequence_number = -1, u_site_instance = None,
             u_source_site_instance = p_source_site_instance params, u_url = p_url params,
             u_referrer = p_referrer params, u_redirect_chain = p_redirect_chain params,
             u_page_state = [], u_method = ''GET'', u_post_id = -1\<rparr>
            (Entry_Clone (page_state_env env) uid prior)\<lparr>frame_tree_node_id := subframe_id\<rparr>
      | _ \<Rightarrow>
          (SetRedirectChain (p_redirect_chain params)
             (set_source_site_instance (p_source_site_instance params)
                (CreateNavigationEntry env (p_url params) (p_referrer params) (p_transition_type params)
                   (p_is_renderer_initiated params) (p_extra_headers params) uid)))
            \<lparr>frame_tree_node_id := p_frame_tree_node_id params\<rparr>)"

definition finish_load_entry :: "LoadURLParams \<Rightarrow> bool \<Rightarrow> bool \<Rightarrow> NavigationEntryImpl \<Rightarrow> NavigationEntryImpl" where
  "finish_load_entry params has_entries override e0 =
     (let e1 = (if should_replace_current_entry params \<and> has_entries then e0\<lparr>should_replace_entry := True\<rparr> else e0);
          e2 = e1\<lparr>should_clear_history_list := p_should_clear_history_list params,
                  is_overriding_user_agent := override,
                  transferred_global_request_id := p_transferred_global_request_id params\<rparr>;
          e3 = (if p_intent_received_timestamp params > 0
                then e2\<lparr>intent_received_timestamp := Some (p_intent_received_timestamp params)\<rparr> else e2);
          e4 = e3\<lparr>has_user_gesture := p_has_user_gesture params\<rparr>;
          e5 = (case load_type params of
                  LOAD_TYPE_DEFAULT \<Rightarrow> e4
                | LOAD_TYPE_HTTP_POST \<Rightarrow> (SetHasPostData True e4)\<lparr>post_data := p_post_data params\<rparr>
                | LOAD_TYPE_DATA \<Rightarrow>
                    (SetVirtualURL (virtual_url_for_data_url params)
                       (e4\<lparr>base_url_for_data_url := p_base_url_for_data_url params\<rparr>))
                      \<lparr>data_url_as_string := p_data_url_as_string params,
                       can_load_local_resources := p_can_load_local_resources params\<rparr>)
      in e5\<lparr>started_from_context_menu := p_started_from_context_menu params\<rparr>)"

definition ShouldKeepOverride :: "NavigationEntryImpl option \<Rightarrow> bool" where
  "ShouldKeepOverride last_entry = (case last_entry of None \<Rightarrow> False | Some e \<Rightarrow> is_overriding_user_agent e)"

definition deref_option :: "entry_ptr option \<Rightarrow> nav_controller \<Rightarrow> nav_error + NavigationEntryImpl option" where
  "deref_option p s = (case p of None \<Rightarrow> Inr None | Some p \<Rightarrow> bindE (deref p s) (\<lambda>e. Inr (Some e)))"

definition LoadURLWithParams ::
  "nav_env \<Rightarrow> LoadURLParams \<Rightarrow> int \<Rightarrow> nav_controller \<Rightarrow> nav_error + nav_controller" where
  "LoadURLWithParams env params subframe_id s0 =
     (if HandleDebugURL env (p_url params) (p_transition_type params) \<and> \<not> gpu_benchmarking env then Inr s0
      else if load_type params = LOAD_TYPE_DATA \<and> \<not> SchemeIs (p_url params) kDataScheme then Inr s0
      else
      let s = s0\<lparr>needs_reload := False\<rparr> in
      bindE (GetLastCommittedEntry s) (\<lambda>last_ptr.
      bindE (deref_option last_ptr s) (\<lambda>last_committed.
      let override = (case override_user_agent params of
                        UA_OVERRIDE_INHERIT \<Rightarrow> ShouldKeepOverride last_committed
                      | UA_OVERRIDE_TRUE \<Rightarrow> True | UA_OVERRIDE_FALSE \<Rightarrow> False)
      in
      if p_subframe params \<noteq> None \<and> last_committed = None then Inl NullPointer
      else
        let (p, s1) = new_object (\<lambda>uid. finish_load_entry params (entries s \<noteq> []) override
                         (new_load_entry env params subframe_id last_committed uid)) s
        in LoadEntry env p s1)))"

definition LoadURL :: "nav_env \<Rightarrow> GURL \<Rightarrow> Referrer \<Rightarrow> PageTransition \<Rightarrow> string \<Rightarrow> nav_controller \<Rightarrow>
    nav_error + nav_controller" where
  "LoadURL env url ref transition headers =
     LoadURLWithParams env
       \<lparr>p_url = url, load_type = LOAD_TYPE_DEFAULT, p_transition_type = transition, p_frame_tree_node_id = -1,
        p_subframe = None, p_referrer = ref, p_redirect_chain = [], p_extra_headers = headers,
        p_is_renderer_initiated = False, override_user_agent = UA_OVERRIDE_INHERIT,
        p_source_site_instance = None, p_transferred_global_request_id = None,
        p_base_url_for_data_url = empty_url, virtual_url_for_data_url = empty_url,
        p_data_url_as_string = None, p_post_data = None, p_can_load_local_resources = False,
        should_replace_current_entry = False, p_intent_received_timestamp = 0, p_has_user_gesture = False,
        p_should_clear_history_list = False, p_started_from_context_menu = False\<rparr> (-1)"

subsection \<open>Session history navigations\<close>

definition GoToIndex :: "nav_env \<Rightarrow> int \<Rightarrow> nav_controller \<Rightarrow> nav_error + nav_controller" where
  "GoToIndex env index0 s =
     (if index0 < 0 \<or> index0 \<ge> GetEntryCount s then Inr s
      else if transient_entry_index s \<noteq> -1 \<and> index0 = transient_entry_index s then Inr s
      else
      let index = (if transient_entry_index s \<noteq> -1 \<and> index0 > transient_entry_index s then index0 - 1 else index0) in
      bindE (DiscardNonCommittedEntries env s) (\<lambda>s1.
      bindE (entry_ptr_at index s1) (\<lambda>p.
      let s2 = s1\<lparr>pending_entry := Some p, pending_entry_index := index\<rparr> in
      bindE (modify p (\<lambda>e. e\<lparr>transition_type := (transition_type e)\<lparr>FORWARD_BACK := True\<rparr>\<rparr>) s2)
        (NavigateToPendingEntry env RELOAD_NONE))))"

definition GoBack :: "nav_env \<Rightarrow> nav_controller \<Rightarrow> nav_error + nav_controller" where
  "GoBack env s = GoToIndex env (GetIndexForOffset (-1) s) s"

definition GoForward :: "nav_env \<Rightarrow> nav_controller \<Rightarrow> nav_error + nav_controller" where
  "GoForward env s = GoToIndex env (GetIndexForOffset 1 s) s"

definition GoToOffset :: "nav_env \<Rightarrow> int \<Rightarrow> nav_controller \<Rightarrow> nav_error + nav_controller" where
  "GoToOffset env offset s =
     (if \<not> CanGoToOffset offset s then Inr s else GoToIndex env (GetIndexForOffset offset s) s)"

text \<open>The part of \<open>Reload\<close> after the entry is chosen and the repost warning is settled.\<close>

definition reload_entry ::
  "nav_env \<Rightarrow> ReloadType \<Rightarrow> entry_ptr \<Rightarrow> int \<Rightarrow> nav_controller \<Rightarrow> nav_error + nav_controller" where
  "reload_entry env reload p current_index s0 =
     bindE (if \<not> is_initial_navigation s0 then DiscardNonCommittedEntriesInternal env s0 else Inr s0) (\<lambda>s.
     bindE (deref p s) (\<lambda>entry.
     if (case entry_site_instance entry of
           None \<Rightarrow> False
         | Some si \<Rightarrow> \<not> is_for_guests_only env si \<and> HasWrongProcessForURL env si (GetURL entry))
     then
       let (q, s1) = new_object (\<lambda>uid.
              (CreateNavigationEntry env (GetURL entry) (fne_referrer (root_entry entry)) (transition_type entry)
                 False (extra_headers entry) uid)\<lparr>should_replace_entry := True\<rparr>) s
       in NavigateToPendingEntry env RELOAD_NONE (s1\<lparr>pending_entry := Some q\<rparr>)
     else
       bindE (modify p (\<lambda>e. e\<lparr>title := [], transition_type := plain TRANSITION_RELOAD\<rparr>)
                (s\<lparr>pending_entry := Some p, pending_entry_index := current_index\<rparr>))
         (NavigateToPendingEntry env reload)))"

definition Reload :: "nav_env \<Rightarrow> ReloadType \<Rightarrow> bool \<Rightarrow> nav_controller \<Rightarrow> nav_error + nav_controller" where
  "Reload env reload check_for_repost s =
     (if transient_entry_index s \<noteq> -1
      then bindE (GetTransientEntry s) (\<lambda>t. case t of
             None \<Rightarrow> Inr s
           | Some p \<Rightarrow> bindE (deref p s) (\<lambda>e.
               LoadURL env (GetURL e) (Referrer_new (page_state_env env)) (plain TRANSITION_RELOAD) (extra_headers e) s))
      else
      bindE (if is_initial_navigation s \<and> pending_entry s \<noteq> None
             then Inr (pending_entry s, pending_entry_index s, s)
             else bindE (DiscardNonCommittedEntriesInternal env s) (\<lambda>s1.
               let current_index = GetCurrentEntryIndex s1
               in Inr (if current_index \<noteq> -1 then GetEntryAtIndex current_index s1 else None, current_index, s1)))
        (\<lambda>(entry, current_index, s1).
        case entry of
          None \<Rightarrow> Inr s1
        | Some p \<Rightarrow>
          let s2 = (if last_committed_reload_type s1 \<noteq> RELOAD_NONE
                    then s1\<lparr>time_smoother := snd (GetSmoothedTime (current_time env) (time_smoother s1))\<rparr> else s1) in
          bindE (modify p (\<lambda>e. e\<lparr>reload_type := reload\<rparr>) s2) (\<lambda>s3.
          bindE (deref p s3) (\<lambda>e.
          if check_for_repost_flag env \<and> check_for_repost \<and> GetHasPostData e
          then Inr (notify RepostWarning (s3\<lparr>pending_reload := reload\<rparr>))
          else reload_entry env reload p current_index s3))))"

definition CancelPendingReload :: "nav_controller \<Rightarrow> nav_controller" where
  "CancelPendingReload s = s\<lparr>pending_reload := RELOAD_NONE\<rparr>"

definition ContinuePendingReload :: "nav_env \<Rightarrow> nav_controller \<Rightarrow> nav_error + nav_controller" where
  "ContinuePendingReload env s =
     (if pending_reload s = RELOAD_NONE then Inr s
      else bindE (Reload env (pending_reload s) False s) (\<lambda>s1. Inr (s1\<lparr>pending_reload := RELOAD_NONE\<rparr>)))"

definition SetNeedsReload :: "nav_controller \<Rightarrow> nav_error + nav_controller" where
  "SetNeedsReload s0 =
     (let s = s0\<lparr>needs_reload := True\<rparr> in
      if last_committed_entry_index s \<noteq> -1
      then bindE (entry_ptr_at (last_committed_entry_index s) s) (\<lambda>p.
             modify p (\<lambda>e. e\<lparr>transition_type := plain TRANSITION_RELOAD\<rparr>) s)
      else Inr s)"

definition LoadIfNecessary :: "nav_env \<Rightarrow> nav_controller \<Rightarrow> nav_error + nav_controller" where
  "LoadIfNecessary env s =
     (if \<not> needs_reload s then Inr s
      else if pending_entry s \<noteq> None then NavigateToPendingEntry env RELOAD_NONE s
      else if last_committed_entry_index s \<noteq> -1
      then bindE (entry_ptr_at (last_committed_entry_index s) s) (\<lambda>p.
             NavigateToPendingEntry env RELOAD_NONE
               (s\<lparr>pending_entry := Some p, pending_entry_index := last_committed_entry_index s\<rparr>))
      else Inr (s\<lparr>needs_reload := False\<rparr>))"

definition SetActive :: "nav_env \<Rightarrow> bool \<Rightarrow> nav_controller \<Rightarrow> nav_error + nav_controller" where
  "SetActive env is_active s = (if is_active \<and> needs_reload s then LoadIfNecessary env s else Inr s)"

subsection \<open>Restoring and copying\<close>

definition SetPageStateIfEmpty :: "page_env \<Rightarrow> NavigationEntryImpl \<Rightarrow> NavigationEntryImpl" where
  "SetPageStateIfEmpty ps e =
     (if \<not> PageState_IsValid (GetPageState ps e)
      then SetPageState ps (unless_ended (PageState_CreateFromURL ps (GetURL e))) e else e)"

definition configure_entry :: "page_env \<Rightarrow> RestoreType \<Rightarrow> NavigationEntryImpl \<Rightarrow> NavigationEntryImpl" where
  "configure_entry ps type e =
     SetPageStateIfEmpty ps (e\<lparr>transition_type := plain TRANSITION_RELOAD, restore_type := type\<rparr>)"

fun ConfigureEntriesForRestore ::
  "page_env \<Rightarrow> RestoreType \<Rightarrow> entry_ptr list \<Rightarrow> nav_controller \<Rightarrow> nav_error + nav_controller" where
  "ConfigureEntriesForRestore ps type [] s = Inr s"
| "ConfigureEntriesForRestore ps type (p # rest) s =
     bindE (modify p (configure_entry ps type) s) (ConfigureEntriesForRestore ps type rest)"

definition FinishRestore :: "nav_env \<Rightarrow> int \<Rightarrow> RestoreType \<Rightarrow> nav_controller \<Rightarrow> nav_error + nav_controller" where
  "FinishRestore env selected_index type s =
     bindE (ConfigureEntriesForRestore (page_state_env env) type (entries s) s) (\<lambda>s1.
       Inr (s1\<lparr>last_committed_entry_index := selected_index\<rparr>))"

text \<open>The entries that the caller hands over are objects already.\<close>

definition Restore ::
  "nav_env \<Rightarrow> int \<Rightarrow> RestoreType \<Rightarrow> entry_ptr list \<Rightarrow> nav_controller \<Rightarrow> nav_error + nav_controller" where
  "Restore env selected_navigation type ps s =
     FinishRestore env selected_navigation type (s\<lparr>needs_reload := True, entries := entries s @ ps\<rparr>)"

fun insert_clones :: "page_env \<Rightarrow> NavigationEntryImpl list \<Rightarrow> nat \<Rightarrow> nav_controller \<Rightarrow> nav_controller" where
  "insert_clones ps [] insert_index s = s"
| "insert_clones ps (e # es) insert_index s =
     (if page_type e \<noteq> PAGE_TYPE_INTERSTITIAL
      then let (p, s1) = new_object (\<lambda>uid. Entry_Clone ps uid e) s
           in insert_clones ps es (Suc insert_index)
                (s1\<lparr>entries := take insert_index (entries s1) @ p # drop insert_index (entries s1)\<rparr>)
      else insert_clones ps es insert_index s)"

fun source_entries :: "entry_ptr list \<Rightarrow> nav_controller \<Rightarrow> nav_error + NavigationEntryImpl list" where
  "source_entries [] s = Inr []"
| "source_entries (p # ps) s = bindE (deref p s) (\<lambda>e. bindE (source_entries ps s) (\<lambda>es. Inr (e # es)))"

definition InsertEntriesFrom ::
  "nav_env \<Rightarrow> nav_controller \<Rightarrow> int \<Rightarrow> nav_controller \<Rightarrow> nav_error + nav_controller" where
  "InsertEntriesFrom env source max_index s =
     (if max_index > GetEntryCount source then Inl OutOfRange
      else bindE (source_entries (take (nat max_index) (entries source)) source) (\<lambda>es.
        Inr (insert_clones (page_state_env env) es 0 s)))"

definition CopyStateFrom :: "nav_env \<Rightarrow> nav_controller \<Rightarrow> nav_controller \<Rightarrow> nav_error + nav_controller" where
  "CopyStateFrom env source s =
     (if GetEntryCount source = 0 then Inr s
      else bindE (InsertEntriesFrom env source (GetEntryCount source) (s\<lparr>needs_reload := True\<rparr>)) (\<lambda>s1.
        FinishRestore env (last_committed_entry_index source) CURRENT_SESSION s1))"

text \<open>Both controllers after \<open>CopyStateFromAndPrune\<close>: this one and the source.\<close>

definition CopyStateFromAndPrune ::
  "nav_env \<Rightarrow> bool \<Rightarrow> nav_controller \<Rightarrow> nav_controller \<Rightarrow> nav_error + nav_controller \<times> nav_controller" where
  "CopyStateFromAndPrune env replace_entry source0 s =
     (if \<not> CanPruneAllButLastCommitted s then Inl CheckFailed
      else
      bindE (PruneAllButLastCommittedInternal s) (\<lambda>s1.
      bindE (if \<not> replace_entry then PruneOldestEntryIfFull env source0 else Inr source0) (\<lambda>source.
      let max1 = (if last_committed_entry_index source = -1 then GetEntryCount source
                  else last_committed_entry_index source + 1);
          max_source_index = (if replace_entry \<and> max1 > 0 then max1 - 1 else max1)
      in
      bindE (InsertEntriesFrom env source max_source_index s1) (\<lambda>s2.
        let s3 = s2\<lparr>last_committed_entry_index := GetEntryCount s2 - 1\<rparr>
        in Inr (notify (SetHistoryOffsetAndLength (last_committed_entry_index s3) (GetEntryCount s3)) s3, source)))))"

end
