(* ===== verification/Nav_Commit.thy ===== *)
theory Nav_Commit
  imports Nav_Load
begin

text \<open>
  What the navigation controller makes of a commit that a renderer reports: the classification of
  the navigation and the handler of each kind.
\<close>

subsection \<open>What the renderer reports\<close>

text \<open>The frame host that committed: its frame, the live one, its site instance and bindings.\<close>

record committing_frame_host =
  rfh_frame :: frame
  rfh_site_instance :: "site_instance option"
  rfh_bindings :: int

definition has_parent :: "committing_frame_host \<Rightarrow> bool" where
  "has_parent rfh \<longleftrightarrow> \<not> IsMainFrame (rfh_frame rfh)"

record commit_params =
  nav_entry_id :: int
  c_item_sequence_number :: int
  c_document_sequence_number :: int
  c_url :: GURL
  c_referrer :: Referrer
  c_transition :: PageTransition
  c_redirects :: "GURL list"
  c_page_state :: PageState
  c_method :: string
  c_post_id :: int
  c_frame_unique_name :: string
  c_http_status_code :: int
  c_original_request_url :: GURL
  c_is_overriding_user_agent :: bool
  history_list_was_cleared :: bool
  url_is_unreachable :: bool
  intended_as_new_entry :: bool
  did_create_new_entry :: bool
  c_should_replace_current_entry :: bool
  gesture_user :: bool

datatype net_error = ERR_BLOCKED_BY_CLIENT | ERR_BLOCKED_BY_RESPONSE | ERR_BLOCKED_BY_XSS_AUDITOR
  | ERR_UNSAFE_REDIRECT | ERR_OTHER int

fun IsBlockedNavigation :: "net_error \<Rightarrow> bool" where
  "IsBlockedNavigation ERR_BLOCKED_BY_CLIENT = True"
| "IsBlockedNavigation ERR_BLOCKED_BY_RESPONSE = True"
| "IsBlockedNavigation ERR_BLOCKED_BY_XSS_AUDITOR = True"
| "IsBlockedNavigation ERR_UNSAFE_REDIRECT = True"
| "IsBlockedNavigation _ = False"

record nav_handle =
  pending_nav_entry_id :: int
  handle_ssl_status :: SSLStatus
  net_error_code :: net_error

definition update_of :: "committing_frame_host \<Rightarrow> commit_params \<Rightarrow> frame_update" where
  "update_of rfh params =
     \<lparr>u_item_sequence_number = c_item_sequence_number params,
      u_document_sequence_number = c_document_sequence_number params,
      u_site_instance = rfh_site_instance rfh, u_source_site_instance = None, u_url = c_url params,
      u_referrer = c_referrer params, u_redirect_chain = c_redirects params,
      u_page_state = c_page_state params, u_method = c_method params, u_post_id = c_post_id params\<rparr>"

definition committed_frame_entry :: "nav_env \<Rightarrow> committing_frame_host \<Rightarrow> commit_params \<Rightarrow> FrameNavigationEntry" where
  "committed_frame_entry env rfh params =
     FrameNavigationEntry_new (c_frame_unique_name params) (c_item_sequence_number params)
       (c_document_sequence_number params) (rfh_site_instance rfh) None (c_url params) (c_referrer params)
       (c_method params) (c_post_id params)"

subsection \<open>Classification\<close>

datatype NavigationType = NAVIGATION_TYPE_NEW_PAGE | NAVIGATION_TYPE_EXISTING_PAGE | NAVIGATION_TYPE_SAME_PAGE
  | NAVIGATION_TYPE_NEW_SUBFRAME | NAVIGATION_TYPE_AUTO_SUBFRAME | NAVIGATION_TYPE_NAV_IGNORE

definition classify ::
  "committing_frame_host \<Rightarrow> commit_params \<Rightarrow> NavigationEntryImpl option \<Rightarrow> NavigationEntryImpl option \<Rightarrow> nav_controller \<Rightarrow>
   NavigationType" where
  "classify rfh params last_committed pending s =
     (let other_site = (case last_committed of None \<Rightarrow> False
                        | Some e \<Rightarrow> entry_site_instance e \<noteq> rfh_site_instance rfh) in
      if did_create_new_entry params
      then if \<not> has_parent rfh then NAVIGATION_TYPE_NEW_PAGE
           else if last_committed = None then NAVIGATION_TYPE_NAV_IGNORE
           else NAVIGATION_TYPE_NEW_SUBFRAME
      else if \<not> has_parent rfh \<and> last_committed \<noteq> None \<and> other_site \<and> c_should_replace_current_entry params
      then NAVIGATION_TYPE_NEW_PAGE
      else if has_parent rfh
      then if last_committed \<noteq> None then NAVIGATION_TYPE_AUTO_SUBFRAME else NAVIGATION_TYPE_NAV_IGNORE
      else if nav_entry_id params = 0
      then if last_committed = None then NAVIGATION_TYPE_NAV_IGNORE else NAVIGATION_TYPE_EXISTING_PAGE
      else if pending_entry_index s = -1 \<and> map_option unique_id pending = Some (nav_entry_id params)
      then if last_committed = None \<or> other_site then NAVIGATION_TYPE_NEW_PAGE else NAVIGATION_TYPE_SAME_PAGE
      else if last_committed = None then NAVIGATION_TYPE_NEW_PAGE
      else if intended_as_new_entry params then NAVIGATION_TYPE_EXISTING_PAGE
      else if url_is_unreachable params \<and> failed_pending_entry_id s \<noteq> 0 \<and>
              nav_entry_id params = failed_pending_entry_id s then NAVIGATION_TYPE_EXISTING_PAGE
      else if GetEntryIndexWithUniqueID (nav_entry_id params) s = -1 then NAVIGATION_TYPE_NEW_PAGE
      else NAVIGATION_TYPE_EXISTING_PAGE)"

definition ClassifyNavigation ::
  "committing_frame_host \<Rightarrow> commit_params \<Rightarrow> nav_controller \<Rightarrow> nav_error + NavigationType" where
  "ClassifyNavigation rfh params s =
     bindE (GetLastCommittedEntry s) (\<lambda>l.
     bindE (deref_option l s) (\<lambda>last_committed.
     bindE (deref_option (pending_entry s) s) (\<lambda>pending.
       Inr (classify rfh params last_committed pending s))))"

subsection \<open>New pages\<close>

definition UpdateVirtualURLToURL :: "nav_env \<Rightarrow> GURL \<Rightarrow> NavigationEntryImpl \<Rightarrow> NavigationEntryImpl" where
  "UpdateVirtualURLToURL env new_url e =
     (case ReverseURLRewrite env new_url (GetVirtualURL e) of
        None \<Rightarrow> e | Some new_virtual_url \<Rightarrow> SetVirtualURL new_virtual_url e)"

text \<open>The entry to start from: a copy of the last committed one for a navigation within the page, of
  the pending one when the commit is for it, or a new one. With it, whether its virtual URL follows.\<close>

definition new_page_base ::
  "nav_env \<Rightarrow> committing_frame_host \<Rightarrow> commit_params \<Rightarrow> bool \<Rightarrow> nav_handle \<Rightarrow> NavigationEntryImpl option \<Rightarrow>
   NavigationEntryImpl option \<Rightarrow> int \<Rightarrow> int \<Rightarrow> NavigationEntryImpl \<times> bool" where
  "new_page_base env rfh params same_document handle last_committed pending pending_index uid =
     (let matching = (case pending of
            None \<Rightarrow> None
          | Some p \<Rightarrow>
              if unique_id p = pending_nav_entry_id handle \<and> pending_index = -1 \<and>
                 (entry_site_instance p = None \<or> entry_site_instance p = rfh_site_instance rfh)
              then Some p else None)
      in case (if same_document then last_committed else None, matching) of
        (Some e, _) \<Rightarrow>
          let e1 = Entry_CloneAndReplace (page_state_env env) uid (committed_frame_entry env rfh params) True
                     (Some (rfh_frame rfh)) (Some (live_root env)) e;
              e2 = (if GetOrigin (url_lib env) (GetURL e1) \<noteq> GetOrigin (url_lib env) (c_url params)
                    then e1\<lparr>ssl := \<lparr>ssl_initialized = False, ssl_content = 0\<rparr>\<rparr> else e1)
          in (e2, update_virtual_url_with_url e2)
      | (None, Some p) \<Rightarrow>
          let e1 = Entry_Clone (page_state_env env) uid p
          in (e1\<lparr>ssl := handle_ssl_status handle\<rparr>, update_virtual_url_with_url e1)
      | (None, None) \<Rightarrow>
          let needs_update = snd (RewriteURLIfNecessary env (c_url params))
          in ((NavigationEntryImpl_new uid None empty_url (Referrer_new (page_state_env env)) [] (plain TRANSITION_LINK) False)
                \<lparr>update_virtual_url_with_url := needs_update, ssl := handle_ssl_status handle\<rparr>, needs_update))"

definition committed_page_type :: "commit_params \<Rightarrow> PageType" where
  "committed_page_type params = (if url_is_unreachable params then PAGE_TYPE_ERROR else PAGE_TYPE_NORMAL)"

definition finish_new_page ::
  "nav_env \<Rightarrow> committing_frame_host \<Rightarrow> commit_params \<Rightarrow> bool \<Rightarrow> NavigationEntryImpl option \<Rightarrow> NavigationEntryImpl \<times> bool \<Rightarrow>
   NavigationEntryImpl" where
  "finish_new_page env rfh params same_document last_committed = (\<lambda>(e0, update_virtual_url).
     let e1 = SetURL (c_url params) (e0\<lparr>page_type := committed_page_type params\<rparr>);
         e2 = (if update_virtual_url then UpdateVirtualURLToURL env (c_url params) e1 else e1);
         e3 = (SetReferrer (c_referrer params) e2)\<lparr>transition_type := c_transition params\<rparr>;
         e4 = (set_site_instance (rfh_site_instance rfh) e3)
                \<lparr>original_request_url := c_original_request_url params,
                 is_overriding_user_agent := c_is_overriding_user_agent params\<rparr>;
         e5 = update_frame_entry (rfh_frame rfh) (\<lambda>fe. fe
                \<lparr>frame_unique_name := c_frame_unique_name params,
                 item_sequence_number := c_item_sequence_number params,
                 document_sequence_number := c_document_sequence_number params,
                 fne_method := c_method params, fne_post_id := c_post_id params\<rparr>) e4
     in case (if same_document then last_committed else None) of
          None \<Rightarrow> e5 | Some e \<Rightarrow> e5\<lparr>title := title e, favicon := favicon e\<rparr>)"

definition RendererDidNavigateToNewPage ::
  "nav_env \<Rightarrow> committing_frame_host \<Rightarrow> commit_params \<Rightarrow> bool \<Rightarrow> bool \<Rightarrow> nav_handle \<Rightarrow> nav_controller \<Rightarrow>
   nav_error + nav_controller" where
  "RendererDidNavigateToNewPage env rfh params same_document replace handle s =
     bindE (GetLastCommittedEntry s) (\<lambda>l.
     bindE (deref_option l s) (\<lambda>last_committed.
     bindE (deref_option (pending_entry s) s) (\<lambda>pending.
     let (p, s1) = new_object (\<lambda>uid. finish_new_page env rfh params same_document last_committed
           (new_page_base env rfh params same_document handle last_committed pending (pending_entry_index s) uid)) s
     in bindE (if history_list_was_cleared params
               then bindE (DiscardNonCommittedEntriesInternal env s1) (\<lambda>s2.
                 Inr ((delete_objects (entries s2) s2)\<lparr>entries := [], last_committed_entry_index := -1\<rparr>))
               else Inr s1)
          (InsertOrReplaceEntry env p replace))))"

subsection \<open>Existing pages\<close>

definition existing_ssl ::
  "url_library \<Rightarrow> bool \<Rightarrow> bool \<Rightarrow> nav_handle \<Rightarrow> commit_params \<Rightarrow> NavigationEntryImpl \<Rightarrow> NavigationEntryImpl \<Rightarrow>
   SSLStatus" where
  "existing_ssl ul same_document was_restored handle params last_entry e =
     (if \<not> intended_as_new_entry params \<and> nav_entry_id params \<noteq> 0
      then if same_document
           then if GetOrigin ul (GetURL e) = GetOrigin ul (GetURL last_entry) \<and> ssl_initialized (ssl last_entry) \<and>
                   \<not> ssl_initialized (ssl e) \<and> was_restored then ssl last_entry else ssl e
           else if was_restored then handle_ssl_status handle else ssl e
      else if same_document then ssl e else handle_ssl_status handle)"

definition finish_existing_page ::
  "nav_env \<Rightarrow> committing_frame_host \<Rightarrow> commit_params \<Rightarrow> bool \<Rightarrow> NavigationEntryImpl \<Rightarrow> NavigationEntryImpl" where
  "finish_existing_page env rfh params same_document e0 =
     (let e1 = SetReferrer (c_referrer params) (SetURL (c_url params) (e0\<lparr>page_type := committed_page_type params\<rparr>));
          e2 = (if update_virtual_url_with_url e1 then UpdateVirtualURLToURL env (c_url params) e1 else e1);
          e3 = Entry_AddOrUpdateFrameEntry (page_state_env env) (rfh_frame rfh) (update_of rfh params) e2
      in if IS_REDIRECT (c_transition params) \<and> \<not> same_document then e3\<lparr>favicon := None\<rparr> else e3)"

definition RendererDidNavigateToExistingPage ::
  "nav_env \<Rightarrow> committing_frame_host \<Rightarrow> commit_params \<Rightarrow> bool \<Rightarrow> bool \<Rightarrow> nav_handle \<Rightarrow> nav_controller \<Rightarrow>
   nav_error + nav_controller" where
  "RendererDidNavigateToExistingPage env rfh params same_document was_restored handle s =
     bindE (GetLastCommittedEntry s) (\<lambda>last_ptr.
     bindE (if intended_as_new_entry params then Inr last_ptr
            else if nav_entry_id params \<noteq> 0 then GetEntryWithUniqueID (nav_entry_id params) s
            else Inr last_ptr) (\<lambda>entry.
     bindE (not_null entry) (\<lambda>p.
     bindE (not_null last_ptr) (\<lambda>l.
     bindE (deref l s) (\<lambda>last_entry.
     bindE (modify p (\<lambda>e. finish_existing_page env rfh params same_document
                (e\<lparr>ssl := existing_ssl (url_lib env) same_document was_restored handle params last_entry e\<rparr>)) s)
       (\<lambda>s1.
     bindE (DiscardNonCommittedEntriesInternal env s1) (\<lambda>s2.
       Inr (s2\<lparr>last_committed_entry_index := GetIndexOfEntry (Some p) s2\<rparr>))))))))"

definition finish_same_page ::
  "nav_env \<Rightarrow> committing_frame_host \<Rightarrow> commit_params \<Rightarrow> nav_handle \<Rightarrow> NavigationEntryImpl \<Rightarrow> NavigationEntryImpl \<Rightarrow>
   NavigationEntryImpl" where
  "finish_same_page env rfh params handle pending e0 =
     (let e1 = e0\<lparr>unique_id := unique_id pending, page_type := committed_page_type params\<rparr>;
          e2 = (if update_virtual_url_with_url e1 then UpdateVirtualURLToURL env (c_url params) e1 else e1);
          e3 = (SetURL (c_url params) e2)\<lparr>ssl := handle_ssl_status handle, extra_headers := extra_headers pending\<rparr>
      in Entry_AddOrUpdateFrameEntry (page_state_env env) (rfh_frame rfh) (update_of rfh params) e3)"

definition RendererDidNavigateToSamePage ::
  "nav_env \<Rightarrow> committing_frame_host \<Rightarrow> commit_params \<Rightarrow> nav_handle \<Rightarrow> nav_controller \<Rightarrow> nav_error + nav_controller" where
  "RendererDidNavigateToSamePage env rfh params handle s =
     bindE (GetLastCommittedEntry s) (\<lambda>l.
     bindE (not_null l) (\<lambda>p.
     bindE (deref p s) (\<lambda>existing_entry.
     if entry_site_instance existing_entry \<noteq> rfh_site_instance rfh then Inl CheckFailed
     else bindE (not_null (pending_entry s)) (\<lambda>q.
     bindE (deref q s) (\<lambda>pending.
     bindE (modify p (finish_same_page env rfh params handle pending) s) (DiscardNonCommittedEntries env))))))"

subsection \<open>Subframes\<close>

definition RendererDidNavigateNewSubframe ::
  "nav_env \<Rightarrow> committing_frame_host \<Rightarrow> commit_params \<Rightarrow> bool \<Rightarrow> bool \<Rightarrow> nav_controller \<Rightarrow> nav_error + nav_controller" where
  "RendererDidNavigateNewSubframe env rfh params same_document replace s =
     bindE (GetLastCommittedEntry s) (\<lambda>l.
     bindE (not_null l) (\<lambda>q.
     bindE (deref q s) (\<lambda>last_committed.
     let (p, s1) = new_object (\<lambda>uid. Entry_CloneAndReplace (page_state_env env) uid (committed_frame_entry env rfh params)
           same_document (Some (rfh_frame rfh)) (Some (live_root env)) last_committed) s
     in InsertOrReplaceEntry env p replace s1)))"

definition RendererDidNavigateAutoSubframe ::
  "nav_env \<Rightarrow> committing_frame_host \<Rightarrow> commit_params \<Rightarrow> nav_controller \<Rightarrow> nav_error + bool \<times> nav_controller" where
  "RendererDidNavigateAutoSubframe env rfh params s =
     (let entry_index = (if nav_entry_id params \<noteq> 0 then GetEntryIndexWithUniqueID (nav_entry_id params) s else -1);
          history = entry_index \<noteq> -1 \<and> entry_index \<noteq> last_committed_entry_index s in
      bindE (if \<not> history then Inr s
             else
               bindE (entry_ptr_at entry_index s) (\<lambda>d.
               bindE (deref d s) (\<lambda>dest.
               bindE (GetLastCommittedEntry s) (\<lambda>l.
               bindE (not_null l) (\<lambda>c.
               bindE (deref c s) (\<lambda>cur.
               let web = (\<lambda>u. SchemeIs u kHttpScheme \<or> SchemeIs u kHttpsScheme);
                   s1 = (if web (GetURL cur) \<and> web (GetURL dest) \<and>
                            GetOrigin (url_lib env) (GetURL cur) \<noteq> GetOrigin (url_lib env) (GetURL dest)
                         then notify BadMessage s else s)
               in DiscardNonCommittedEntriesInternal env (s1\<lparr>last_committed_entry_index := entry_index\<rparr>)))))))
        (\<lambda>s2.
      bindE (GetLastCommittedEntry s2) (\<lambda>l.
      bindE (not_null l) (\<lambda>p.
      bindE (modify p (Entry_AddOrUpdateFrameEntry (page_state_env env) (rfh_frame rfh) (update_of rfh params)) s2) (\<lambda>s3.
        Inr (history, s3))))))"

subsection \<open>The whole commit\<close>

definition SetBindings :: "int \<Rightarrow> NavigationEntryImpl \<Rightarrow> nav_error + NavigationEntryImpl" where
  "SetBindings b e =
     (if b = kInvalidBindings then Inl CheckFailed
      else if bindings e \<noteq> kInvalidBindings \<and> bindings e \<noteq> b then Inl CheckFailed
      else Inr (e\<lparr>bindings := b\<rparr>))"

text \<open>What is recorded of the entry that was committed.\<close>

definition block_entry :: "nav_env \<Rightarrow> frame \<Rightarrow> commit_params \<Rightarrow> NavigationEntryImpl \<Rightarrow> NavigationEntryImpl" where
  "block_entry env f params e =
     (let e1 = SetVirtualURL (c_url params) (SetURL (parse_url (url_lib env) kAboutBlankURL) e)
      in update_frame_entry f (FrameEntry_SetPageState (page_state_env env) (unless_ended (PageState_CreateFromURL (page_state_env env) (GetURL e1)))) e1)"

definition finish_committed_entry ::
  "nav_env \<Rightarrow> committing_frame_host \<Rightarrow> commit_params \<Rightarrow> nav_handle \<Rightarrow> int \<Rightarrow> NavigationEntryImpl \<Rightarrow> NavigationEntryImpl" where
  "finish_committed_entry env rfh params handle t e =
     (let f = rfh_frame rfh;
          e1 = update_frame_entry f
                 (\<lambda>fe. (FrameEntry_SetPageState (page_state_env env) (c_page_state params) fe)
                         \<lparr>fne_redirect_chain := c_redirects params\<rparr>)
                 (e\<lparr>timestamp := t, http_status_code := c_http_status_code params\<rparr>);
          e2 = (if \<not> has_parent rfh \<and> IsBlockedNavigation (net_error_code handle)
                then block_entry env f params e1 else e1)
      in ResetForCommit (Some f) e2)"

definition record_reload ::
  "nav_env \<Rightarrow> commit_params \<Rightarrow> nav_handle \<Rightarrow> nav_controller \<Rightarrow> nav_error + nav_controller" where
  "record_reload env params handle s =
     (if \<not> PendingEntryMatchesHandle (pending_nav_entry_id handle) s then Inr s
      else
      bindE (not_null (pending_entry s)) (\<lambda>p.
      bindE (deref p s) (\<lambda>pending.
      if reload_type pending \<noteq> RELOAD_NONE
      then let (t, ts) = GetSmoothedTime (current_time env) (time_smoother s)
           in Inr (s\<lparr>last_committed_reload_type := reload_type pending, time_smoother := ts,
                    last_committed_reload_time := Some t\<rparr>)
      else if \<not> is_renderer_initiated pending \<or> gesture_user params
      then Inr (s\<lparr>last_committed_reload_type := RELOAD_NONE, last_committed_reload_time := None\<rparr>)
      else Inr s)))"

text \<open>\<open>restore_type\<close> of the pending entry is reset; the result tells whether it was set.\<close>

definition clear_restore_type :: "nav_controller \<Rightarrow> nav_error + bool \<times> nav_controller" where
  "clear_restore_type s =
     (case pending_entry s of
        None \<Rightarrow> Inr (False, s)
      | Some p \<Rightarrow> bindE (deref p s) (\<lambda>pending.
          if restore_type pending = RESTORE_NONE then Inr (False, s)
          else bindE (modify p (\<lambda>e. e\<lparr>restore_type := RESTORE_NONE\<rparr>) s) (\<lambda>s1. Inr (True, s1))))"

definition overriding_user_agent_changed ::
  "NavigationEntryImpl option \<Rightarrow> NavigationEntryImpl option \<Rightarrow> bool" where
  "overriding_user_agent_changed last_committed pending \<longleftrightarrow>
     (case (last_committed, pending) of
        (Some l, Some p) \<Rightarrow> is_overriding_user_agent p \<noteq> is_overriding_user_agent l
      | _ \<Rightarrow> False)"

text \<open>The handler of the class. No state is the outcome when the commit ends there.\<close>

definition dispatch_commit ::
  "nav_env \<Rightarrow> committing_frame_host \<Rightarrow> commit_params \<Rightarrow> bool \<Rightarrow> bool \<Rightarrow> nav_handle \<Rightarrow> NavigationType \<Rightarrow> nav_controller \<Rightarrow>
   nav_error + bool \<times> nav_controller" where
  "dispatch_commit env rfh params same_document was_restored handle type s =
     (case type of
        NAVIGATION_TYPE_NEW_PAGE \<Rightarrow>
          bindE (RendererDidNavigateToNewPage env rfh params same_document (c_should_replace_current_entry params) handle s)
            (\<lambda>s1. Inr (True, s1))
      | NAVIGATION_TYPE_EXISTING_PAGE \<Rightarrow>
          bindE (RendererDidNavigateToExistingPage env rfh params same_document was_restored handle s)
            (\<lambda>s1. Inr (True, s1))
      | NAVIGATION_TYPE_SAME_PAGE \<Rightarrow>
          bindE (RendererDidNavigateToSamePage env rfh params handle s) (\<lambda>s1. Inr (True, s1))
      | NAVIGATION_TYPE_NEW_SUBFRAME \<Rightarrow>
          bindE (RendererDidNavigateNewSubframe env rfh params same_document (c_should_replace_current_entry params) s)
            (\<lambda>s1. Inr (True, s1))
      | NAVIGATION_TYPE_AUTO_SUBFRAME \<Rightarrow>
          bindE (RendererDidNavigateAutoSubframe env rfh params s) (\<lambda>(history, s1).
            if history then Inr (True, s1)
            else bindE (GetLastCommittedEntry s1) (\<lambda>l. Inr (False, notify (EntryChanged (GetIndexOfEntry l s1)) s1)))
      | NAVIGATION_TYPE_NAV_IGNORE \<Rightarrow>
          if pending_entry s \<noteq> None
          then bindE (DiscardNonCommittedEntries env s) (\<lambda>s1. Inr (False, notify StateChangedURL s1))
          else Inr (False, s))"

definition complete_commit ::
  "nav_env \<Rightarrow> committing_frame_host \<Rightarrow> commit_params \<Rightarrow> nav_handle \<Rightarrow> bool \<Rightarrow> nav_controller \<Rightarrow> nav_error + nav_controller" where
  "complete_commit env rfh params handle ua_changed s0 =
     (let (t, ts) = GetSmoothedTime (current_time env) (time_smoother s0) in
      bindE (DiscardNonCommittedEntriesInternal env (s0\<lparr>time_smoother := ts\<rparr>)) (\<lambda>s1.
      bindE (GetLastCommittedEntry s1) (\<lambda>l.
      bindE (not_null l) (\<lambda>p.
      bindE (deref p s1) (\<lambda>e0.
      let e = finish_committed_entry env rfh params handle t e0 in
      if \<not> has_parent rfh \<and> entry_site_instance e \<noteq> rfh_site_instance rfh then Inl CheckFailed
      else
      bindE (SetBindings (rfh_bindings rfh) e) (\<lambda>e'.
      bindE (modify p (\<lambda>_. e') s1) (\<lambda>s2.
      let s3 = notify (EntryCommitted p) (notify StateChangedAll s2);
          s4 = (if ua_changed then notify UpdateOverridingUserAgent s3 else s3)
      in Inr (notify (SetNavEntryIds (unique_id e')) s4))))))))"

definition RendererDidNavigate ::
  "nav_env \<Rightarrow> committing_frame_host \<Rightarrow> commit_params \<Rightarrow> bool \<Rightarrow> nav_handle \<Rightarrow> nav_controller \<Rightarrow>
   nav_error + bool \<times> nav_controller" where
  "RendererDidNavigate env rfh params same_document handle s0 =
     (let s = s0\<lparr>is_initial_navigation := False\<rparr> in
      bindE (GetLastCommittedEntry s) (\<lambda>l.
      bindE (deref_option l s) (\<lambda>last_committed.
      bindE (deref_option (pending_entry s) s) (\<lambda>pending.
      let ua_changed = overriding_user_agent_changed last_committed pending in
      bindE (clear_restore_type s) (\<lambda>(was_restored, s1).
      bindE (ClassifyNavigation rfh params s1) (\<lambda>type.
      bindE (record_reload env params handle s1) (\<lambda>s2.
      bindE (dispatch_commit env rfh params same_document was_restored handle type s2) (\<lambda>(committed, s3).
      if \<not> committed then Inr (False, s3)
      else bindE (complete_commit env rfh params handle ua_changed s3) (\<lambda>s4. Inr (True, s4))))))))))"

text \<open>Whether a commit that the renderer says to be within the page is taken for one.\<close>

record page_prefs =
  web_security_enabled :: bool
  allow_universal_access_from_file_urls :: bool

definition same_origin_navigation ::
  "url_library \<Rightarrow> page_prefs \<Rightarrow> Origin \<Rightarrow> GURL \<Rightarrow> GURL \<Rightarrow> Origin \<Rightarrow> bool" where
  "same_origin_navigation ul prefs committed_origin last_committed_url url origin \<longleftrightarrow>
     spec last_committed_url = [] \<or> spec last_committed_url = kAboutBlankURL \<or>
     GetOrigin ul last_committed_url = GetOrigin ul url \<or>
     IsSameOriginWith ul committed_origin origin \<or>
     \<not> web_security_enabled prefs \<or>
     allow_universal_access_from_file_urls prefs \<and> origin_scheme committed_origin = kFileScheme"

definition IsURLInPageNavigation ::
  "nav_env \<Rightarrow> page_prefs \<Rightarrow> GURL \<Rightarrow> Origin \<Rightarrow> committing_frame_host \<Rightarrow> GURL \<Rightarrow> Origin \<Rightarrow> bool \<Rightarrow> nav_controller \<Rightarrow>
   nav_error + bool \<times> nav_controller" where
  "IsURLInPageNavigation env prefs current_url current_origin rfh url origin renderer_says_in_page s =
     bindE (if has_parent rfh then Inr (Some current_url)
            else bindE (GetLastCommittedEntry s) (\<lambda>l.
                 bindE (deref_option l s) (\<lambda>e. Inr (map_option GetURL e)))) (\<lambda>last_committed_url.
     case last_committed_url of
       None \<Rightarrow> Inr (False, s)
     | Some last_url \<Rightarrow>
         let same = same_origin_navigation (url_lib env) prefs current_origin last_url url origin
         in Inr (same \<and> renderer_says_in_page,
                 if \<not> same \<and> renderer_says_in_page then notify BadMessage s else s))"

end
