(* ===== verification/Nav_Invariant.thy ===== *)
theory Nav_Invariant
  imports Nav_Commit
begin

text \<open>
  The invariant of the session history between operations, the committed list that a transient entry
  leaves out, and the exact effect of discarding the entries that are not committed. Outcomes are
  reasoned about with \<open>safe\<close>: an outcome is one of the allowed errors or a value with the property.
\<close>

subsection \<open>Outcomes\<close>

named_theorems nav_simps \<open>what the small operations do\<close>

definition safe :: "'e set \<Rightarrow> 'e + 'a \<Rightarrow> ('a \<Rightarrow> bool) \<Rightarrow> bool" where
  "safe E m Q = (case m of Inl e \<Rightarrow> e \<in> E | Inr x \<Rightarrow> Q x)"

lemma safe_Inr [simp]: "safe E (Inr x) Q \<longleftrightarrow> Q x"
  by (simp add: safe_def)

lemma safe_Inl [simp]: "safe E (Inl e) Q \<longleftrightarrow> e \<in> E"
  by (simp add: safe_def)

lemma safe_bind [simp]: "safe E (bindE m f) Q \<longleftrightarrow> safe E m (\<lambda>x. safe E (f x) Q)"
  by (cases m) simp_all

lemma safe_mono: "safe E m P \<Longrightarrow> (\<And>x. P x \<Longrightarrow> Q x) \<Longrightarrow> safe E m Q"
  by (cases m) simp_all

lemma safe_weaken: "safe E m P \<Longrightarrow> E \<subseteq> F \<Longrightarrow> (\<And>x. P x \<Longrightarrow> Q x) \<Longrightarrow> safe F m Q"
  by (cases m) auto

lemma safe_total: "safe {} m Q \<longleftrightarrow> (\<exists>x. m = Inr x \<and> Q x)"
  by (cases m) simp_all

lemma safe_Inr_eq: "m = Inr x \<Longrightarrow> safe E m Q \<longleftrightarrow> Q x"
  by simp

subsection \<open>The invariant\<close>

definition ids_ok :: "nav_controller \<Rightarrow> bool" where
  "ids_ok s \<longleftrightarrow>
     (\<forall>p e. objects s p = Some e \<longrightarrow> p < created s \<and> 1 \<le> unique_id e \<and> unique_id e \<le> int (created s)) \<and>
     (\<forall>p q e f. objects s p = Some e \<longrightarrow> objects s q = Some f \<longrightarrow> unique_id e = unique_id f \<longrightarrow> p = q)"

definition list_ok :: "nav_controller \<Rightarrow> bool" where
  "list_ok s \<longleftrightarrow>
     distinct (entries s) \<and> (\<forall>p \<in> set (entries s). objects s p \<noteq> None) \<and>
     -1 \<le> last_committed_entry_index s \<and> last_committed_entry_index s < int (length (entries s)) \<and>
     (transient_entry_index s = -1 \<or>
      transient_entry_index s = last_committed_entry_index s + 1 \<and>
      transient_entry_index s < int (length (entries s))) \<and>
     (last_committed_entry_index s = -1 \<longrightarrow>
        length (entries s) = (if transient_entry_index s = -1 then 0 else 1))"

text \<open>A pending index names the pending entry or, after a reload in another process during the initial
  navigation, the entry of the list that the new pending entry is to replace.\<close>

definition pending_ok :: "nav_controller \<Rightarrow> bool" where
  "pending_ok s \<longleftrightarrow>
     (case pending_entry s of
        None \<Rightarrow> pending_entry_index s = -1
      | Some p \<Rightarrow> objects s p \<noteq> None \<and>
          (if pending_entry_index s = -1 then p \<notin> set (entries s)
           else 0 \<le> pending_entry_index s \<and> pending_entry_index s < int (length (entries s)) \<and>
                (entries s ! nat (pending_entry_index s) = p \<or> p \<notin> set (entries s)) \<and>
                pending_entry_index s \<noteq> transient_entry_index s))"

definition nav_core :: "nav_controller \<Rightarrow> bool" where
  "nav_core s \<longleftrightarrow> ids_ok s \<and> list_ok s \<and> pending_ok s \<and> \<not> in_navigate_to_pending_entry s"

definition idle :: "nav_controller \<Rightarrow> bool" where
  "idle s \<longleftrightarrow> last_pending_entry s = None \<and> last_pending_entry_index s = -1 \<and> last_transient_entry_index s = -1"

definition nav_ok :: "nav_controller \<Rightarrow> bool" where
  "nav_ok s \<longleftrightarrow> nav_core s \<and> idle s"

text \<open>The committed entries, and what is seen of one: its id and its frames.\<close>

definition remove_nth :: "int \<Rightarrow> 'a list \<Rightarrow> 'a list" where
  "remove_nth i xs = take (nat i) xs @ drop (Suc (nat i)) xs"

definition committed_entries :: "nav_controller \<Rightarrow> entry_ptr list" where
  "committed_entries s =
     (if transient_entry_index s = -1 then entries s else remove_nth (transient_entry_index s) (entries s))"

definition page_of :: "nav_controller \<Rightarrow> entry_ptr \<Rightarrow> (int \<times> TreeNode) option" where
  "page_of s p = map_option (\<lambda>e. (unique_id e, frame_tree e)) (objects s p)"

definition history :: "nav_controller \<Rightarrow> (int \<times> TreeNode) option list \<times> int" where
  "history s = (map (page_of s) (committed_entries s), last_committed_entry_index s)"

subsection \<open>Lists without one element\<close>

lemma remove_nth_facts:
  assumes "0 \<le> i" "i < int (length xs)"
  shows length_remove_nth: "length (remove_nth i xs) = length xs - 1"
    and set_remove_nth: "distinct xs \<Longrightarrow> set (remove_nth i xs) = set xs - {xs ! nat i}"
    and distinct_remove_nth: "distinct xs \<Longrightarrow> distinct (remove_nth i xs)"
    and nth_remove_nth: "j < length xs - 1 \<Longrightarrow> remove_nth i xs ! j = (if j < nat i then xs ! j else xs ! Suc j)"
proof -
  have i: "nat i < length xs" using assms by simp
  have split: "xs = take (nat i) xs @ xs ! nat i # drop (Suc (nat i)) xs"
    using i by (simp add: id_take_nth_drop)
  show "length (remove_nth i xs) = length xs - 1"
    using i by (simp add: remove_nth_def)
  show "set (remove_nth i xs) = set xs - {xs ! nat i}" if d: "distinct xs"
  proof -
    obtain a x b where xs: "xs = a @ x # b" "a = take (nat i) xs" "x = xs ! nat i" "b = drop (Suc (nat i)) xs"
      using split by blast
    have "set (a @ b) = set xs - {x}" using d unfolding xs(1) by auto
    then show ?thesis unfolding remove_nth_def xs(2-4) .
  qed
  show "distinct (remove_nth i xs)" if "distinct xs"
  proof -
    have "distinct (take (nat i) xs @ xs ! nat i # drop (Suc (nat i)) xs)" using that split by simp
    then show ?thesis by (simp add: remove_nth_def)
  qed
  show "remove_nth i xs ! j = (if j < nat i then xs ! j else xs ! Suc j)" if "j < length xs - 1"
    using i that by (auto simp: remove_nth_def nth_append min_def)
qed

lemma take_remove_nth: "n \<le> nat i \<Longrightarrow> take n (remove_nth i xs) = take n xs"
  by (auto simp: remove_nth_def)

subsection \<open>Small operations\<close>

lemma entry_ptr_at_ok [nav_simps]:
  "0 \<le> i \<Longrightarrow> i < int (length (entries s)) \<Longrightarrow> entry_ptr_at i s = Inr (entries s ! nat i)"
  by (simp add: entry_ptr_at_def)

lemma deref_ok: "objects s p = Some e \<Longrightarrow> deref p s = Inr e"
  by (simp add: deref_def)

lemma modify_ok: "objects s p = Some e \<Longrightarrow> modify p g s = Inr (s\<lparr>objects := (objects s)(p \<mapsto> g e)\<rparr>)"
  by (simp add: modify_def deref_def)

lemma deref_option_ok:
  "(\<And>p. r = Some p \<Longrightarrow> objects s p \<noteq> None) \<Longrightarrow> deref_option r s = Inr (Option.bind r (objects s))"
  by (cases r) (auto simp: deref_option_def deref_def)

lemma erase_entry_ok [nav_simps]:
  "0 \<le> i \<Longrightarrow> i < int (length (entries s)) \<Longrightarrow>
   erase_entry i s = Inr ((delete_object (entries s ! nat i) s)\<lparr>entries := remove_nth i (entries s)\<rparr>)"
  by (simp add: erase_entry_def entry_ptr_at_ok remove_nth_def)

definition last_committed_ptr :: "nav_controller \<Rightarrow> entry_ptr option" where
  "last_committed_ptr s =
     (if last_committed_entry_index s = -1 then None else Some (entries s ! nat (last_committed_entry_index s)))"

lemma GetLastCommittedEntry_ok: "list_ok s \<Longrightarrow> GetLastCommittedEntry s = Inr (last_committed_ptr s)"
  by (auto simp: GetLastCommittedEntry_def last_committed_ptr_def list_ok_def entry_ptr_at_ok)

lemma last_committed_alive:
  "list_ok s \<Longrightarrow> last_committed_ptr s = Some p \<Longrightarrow> p \<in> set (entries s) \<and> (\<exists>e. objects s p = Some e)"
  by (auto simp: last_committed_ptr_def list_ok_def split: if_splits)

lemma transient_in_list:
  "list_ok s \<Longrightarrow> transient_entry_index s \<noteq> -1 \<Longrightarrow> entries s ! nat (transient_entry_index s) \<in> set (entries s)"
  by (intro nth_mem) (auto simp: list_ok_def nat_less_iff)

lemma nav_core_parts:
  "nav_core s \<Longrightarrow> ids_ok s" "nav_core s \<Longrightarrow> list_ok s" "nav_core s \<Longrightarrow> pending_ok s"
  "nav_core s \<Longrightarrow> \<not> in_navigate_to_pending_entry s"
  by (simp_all add: nav_core_def)

lemma pending_alive: "pending_ok s \<Longrightarrow> pending_entry s = Some p \<Longrightarrow> \<exists>e. objects s p = Some e"
  by (auto simp: pending_ok_def)

subsection \<open>Discarding\<close>

definition drop_pending :: "int \<Rightarrow> nav_controller \<Rightarrow> nav_controller" where
  "drop_pending failed s =
     (case pending_entry s of
        None \<Rightarrow> s\<lparr>failed_pending_entry_id := 0\<rparr>
      | Some p \<Rightarrow> s\<lparr>failed_pending_entry_id := failed, pending_entry := None, pending_entry_index := -1,
          objects := (if pending_entry_index s = -1 then (objects s)(p := None) else objects s)\<rparr>)"

definition drop_transient :: "nav_controller \<Rightarrow> nav_controller" where
  "drop_transient s =
     (if transient_entry_index s = -1 then s
      else s\<lparr>objects := (objects s)(entries s ! nat (transient_entry_index s) := None),
             entries := remove_nth (transient_entry_index s) (entries s), transient_entry_index := -1,
             pending_entry_index := (if pending_entry_index s > transient_entry_index s
                                     then pending_entry_index s - 1 else pending_entry_index s)\<rparr>)"

definition drop_all :: "nav_controller \<Rightarrow> nav_controller" where
  "drop_all s = drop_transient (drop_pending 0 s)"

definition failed_id :: "bool \<Rightarrow> nav_controller \<Rightarrow> int" where
  "failed_id was_failure s =
     (if was_failure then case Option.bind (pending_entry s) (objects s) of None \<Rightarrow> 0 | Some e \<Rightarrow> unique_id e else 0)"

lemma DiscardPendingEntry_ok:
  assumes "pending_ok s" "\<not> in_navigate_to_pending_entry s"
  shows "DiscardPendingEntry env was_failure s = Inr (drop_pending (failed_id was_failure s) s)"
  using assms pending_alive [OF assms(1)]
  by (cases "pending_entry s")
    (auto simp: DiscardPendingEntry_def drop_pending_def deref_def delete_object_def failed_id_def Let_def)

lemma DiscardTransientEntry_ok: "list_ok s \<Longrightarrow> DiscardTransientEntry s = Inr (drop_transient s)"
  by (auto simp: DiscardTransientEntry_def drop_transient_def list_ok_def erase_entry_ok delete_object_def Let_def)

lemma drop_pending_ok:
  assumes "nav_core s" shows "nav_core (drop_pending failed s)"
  using assms
  by (auto simp: nav_core_def ids_ok_def list_ok_def pending_ok_def drop_pending_def split: option.splits if_splits)

lemma drop_transient_ok:
  assumes "nav_core s" shows "nav_core (drop_transient s)"
proof (cases "transient_entry_index s = -1")
  case True then show ?thesis using assms by (simp add: drop_transient_def)
next
  case False
  let ?t = "transient_entry_index s" and ?l = "last_committed_entry_index s"
  have l: "list_ok s" and ids: "ids_ok s" and pend: "pending_ok s" using assms by (auto simp: nav_core_def)
  have t: "0 \<le> ?t" "?t < int (length (entries s))" "?t = ?l + 1" using l False by (auto simp: list_ok_def)
  have d: "distinct (entries s)" using l by (simp add: list_ok_def)
  note facts = set_remove_nth [OF t(1,2) d] length_remove_nth [OF t(1,2)] distinct_remove_nth [OF t(1,2) d]
  have "ids_ok (drop_transient s)" using ids False by (auto simp: ids_ok_def drop_transient_def split: if_splits)
  moreover have "list_ok (drop_transient s)"
  proof -
    have "\<forall>p \<in> set (entries s). objects s p \<noteq> None" "?l = -1 \<longrightarrow> length (entries s) = 1"
      using l False by (auto simp: list_ok_def)
    moreover have "?l = ?t - 1" using t by simp
    moreover have "remove_nth ?t (entries s) = [] \<longleftrightarrow> length (entries s) = 1"
      using facts(2) t(1,2) by (metis One_nat_def Suc_pred diff_Suc_1 length_0_conv length_greater_0_conv
          less_imp_of_nat_less list.size(3) of_nat_0_less_iff order_le_less_trans)
    ultimately show ?thesis
      using t(1,2) False unfolding list_ok_def drop_transient_def by (auto simp: facts)
  qed
  moreover have "pending_ok (drop_transient s)"
  proof (cases "pending_entry s")
    case None then show ?thesis using pend t False by (auto simp: pending_ok_def drop_transient_def)
  next
    case (Some p)
    show ?thesis
    proof (cases "pending_entry_index s = -1")
      case True
      then have "p \<notin> set (entries s)" "objects s p \<noteq> None" using pend Some by (auto simp: pending_ok_def)
      moreover have "entries s ! nat ?t \<in> set (entries s)" using t by simp
      ultimately show ?thesis using Some False True t(1,2) by (auto simp: pending_ok_def drop_transient_def facts)
    next
      case pi: False
      let ?e = "entries s ! nat (pending_entry_index s)"
      let ?j = "nat (if pending_entry_index s > ?t then pending_entry_index s - 1 else pending_entry_index s)"
      have pr: "0 \<le> pending_entry_index s" "pending_entry_index s < int (length (entries s))"
        "?e = p \<or> p \<notin> set (entries s)" "pending_entry_index s \<noteq> ?t" "objects s p \<noteq> None"
        using pend Some pi by (auto simp: pending_ok_def)
      have "entries s ! nat ?t \<in> set (entries s)" using t by simp
      moreover have "entries s ! nat ?t \<noteq> ?e"
        using nth_eq_iff_index_eq [OF d, of "nat ?t" "nat (pending_entry_index s)"] t pr(1,2,4) by auto
      ultimately have "entries s ! nat ?t \<noteq> p" using pr(3) by auto
      moreover have "remove_nth ?t (entries s) ! ?j = ?e"
      proof -
        have j: "?j < length (entries s) - 1" using pr t by (auto split: if_splits)
        show ?thesis
          using nth_remove_nth [OF t(1,2) j] pr(1,4) t(1) by (auto simp: Suc_nat_eq_nat_zadd1 split: if_splits)
      qed
      ultimately show ?thesis using Some False pi pr t(1,2) by (auto simp: pending_ok_def drop_transient_def facts)
    qed
  qed
  ultimately show ?thesis using assms False by (auto simp: nav_core_def drop_transient_def)
qed

lemma DiscardNonCommittedEntriesInternal_weak:
  assumes "list_ok s" "pending_ok s" "\<not> in_navigate_to_pending_entry s"
  shows "DiscardNonCommittedEntriesInternal env s = Inr (drop_all s)"
proof -
  have "list_ok (drop_pending 0 s)"
    using assms by (auto simp: list_ok_def pending_ok_def drop_pending_def split: option.splits if_splits)
  then show ?thesis
    using DiscardPendingEntry_ok [OF assms(2,3), of env False]
    by (simp add: DiscardNonCommittedEntriesInternal_def drop_all_def DiscardTransientEntry_ok failed_id_def)
qed

lemma DiscardNonCommittedEntriesInternal_ok:
  assumes "nav_core s" shows "DiscardNonCommittedEntriesInternal env s = Inr (drop_all s)"
  using assms by (simp add: nav_core_def DiscardNonCommittedEntriesInternal_weak)

lemma drop_all_ok: "nav_core s \<Longrightarrow> nav_core (drop_all s)"
  by (simp add: drop_all_def drop_transient_ok drop_pending_ok)

lemma drop_all_fields [simp]:
  "created (drop_all s) = created s" "last_committed_entry_index (drop_all s) = last_committed_entry_index s"
  "transient_entry_index (drop_all s) = -1" "entries (drop_all s) = committed_entries s"
  "last_pending_entry (drop_all s) = last_pending_entry s" "events (drop_all s) = events s"
  "last_pending_entry_index (drop_all s) = last_pending_entry_index s"
  "last_transient_entry_index (drop_all s) = last_transient_entry_index s"
  "pending_entry (drop_all s) = None" "time_smoother (drop_all s) = time_smoother s"
  "is_initial_navigation (drop_all s) = is_initial_navigation s" "needs_reload (drop_all s) = needs_reload s"
  "in_navigate_to_pending_entry (drop_all s) = in_navigate_to_pending_entry s"
  by (auto simp: drop_all_def drop_transient_def drop_pending_def committed_entries_def split: option.splits)

lemma drop_all_index [simp]: "nav_core s \<Longrightarrow> pending_entry_index (drop_all s) = -1"
  using drop_all_ok [of s] by (simp add: nav_core_def pending_ok_def)

lemma committed_entries_facts:
  assumes "list_ok s"
  shows "set (committed_entries s) \<subseteq> set (entries s)" "distinct (committed_entries s)"
    and "last_committed_entry_index s < int (length (committed_entries s))"
    and "transient_entry_index s = -1 \<Longrightarrow> committed_entries s = entries s"
    and "take (nat (last_committed_entry_index s + 1)) (committed_entries s) =
         take (nat (last_committed_entry_index s + 1)) (entries s)"
proof -
  consider "transient_entry_index s = -1" | "transient_entry_index s \<noteq> -1" by blast
  then have "set (committed_entries s) \<subseteq> set (entries s) \<and> distinct (committed_entries s) \<and>
    last_committed_entry_index s < int (length (committed_entries s)) \<and>
    take (nat (last_committed_entry_index s + 1)) (committed_entries s) =
    take (nat (last_committed_entry_index s + 1)) (entries s)"
  proof cases
    case 1 then show ?thesis using assms by (simp add: committed_entries_def list_ok_def)
  next
    case 2
    then have t: "0 \<le> transient_entry_index s" "transient_entry_index s < int (length (entries s))"
      "transient_entry_index s = last_committed_entry_index s + 1" and d: "distinct (entries s)"
      using assms by (auto simp: list_ok_def)
    show ?thesis
      using 2 t set_remove_nth [OF t(1,2) d] distinct_remove_nth [OF t(1,2) d] length_remove_nth [OF t(1,2)]
      by (auto simp: committed_entries_def take_remove_nth)
  qed
  then show "set (committed_entries s) \<subseteq> set (entries s)" "distinct (committed_entries s)"
    "last_committed_entry_index s < int (length (committed_entries s))"
    "take (nat (last_committed_entry_index s + 1)) (committed_entries s) =
         take (nat (last_committed_entry_index s + 1)) (entries s)" by simp_all
  show "transient_entry_index s = -1 \<Longrightarrow> committed_entries s = entries s" by (simp add: committed_entries_def)
qed

lemma drop_all_objects:
  assumes "nav_core s" "p \<in> set (committed_entries s)"
  shows "objects (drop_all s) p = objects s p"
proof -
  have l: "list_ok s" and pend: "pending_ok s" using assms(1) by (auto simp: nav_core_def)
  have p: "p \<in> set (entries s)" using committed_entries_facts(1) [OF l] assms(2) by blast
  have "transient_entry_index s \<noteq> -1 \<Longrightarrow> entries s ! nat (transient_entry_index s) \<noteq> p"
    using assms(2) l set_remove_nth [of "transient_entry_index s" "entries s"]
    by (auto simp: committed_entries_def list_ok_def)
  then have "objects (drop_transient s') p = objects s' p"
    if "transient_entry_index s' = transient_entry_index s" "entries s' = entries s" for s'
    using that by (auto simp: drop_transient_def)
  moreover have "objects (drop_pending 0 s) p = objects s p"
  proof (cases "pending_entry s")
    case None then show ?thesis by (simp add: drop_pending_def)
  next
    case (Some q)
    then have "pending_entry_index s = -1 \<Longrightarrow> p \<noteq> q" using p pend by (auto simp: pending_ok_def)
    then show ?thesis using Some by (auto simp: drop_pending_def)
  qed
  ultimately show ?thesis
    by (simp add: drop_all_def drop_pending_def split: option.splits)
qed

lemma committed_entries_no_transient [simp]: "transient_entry_index s = -1 \<Longrightarrow> committed_entries s = entries s"
  by (simp add: committed_entries_def)

lemma history_drop_all: "nav_core s \<Longrightarrow> history (drop_all s) = history s"
  by (auto simp: history_def page_of_def drop_all_objects)

lemma DiscardNonCommittedEntries_ok:
  assumes "nav_core s"
  shows "\<exists>evs. DiscardNonCommittedEntries env s = Inr ((drop_all s)\<lparr>events := evs\<rparr>)"
proof (cases "transient_entry_index s = -1")
  case True
  then have "DiscardNonCommittedEntries env s = Inr ((drop_all s)\<lparr>events := events (drop_all s)\<rparr>)"
    by (simp add: DiscardNonCommittedEntries_def DiscardNonCommittedEntriesInternal_ok [OF assms])
  then show ?thesis by blast
next
  case False
  then show ?thesis
    unfolding DiscardNonCommittedEntries_def DiscardNonCommittedEntriesInternal_ok [OF assms] notify_def by simp blast
qed

text \<open>What the invariant and the history do not depend on.\<close>

lemma nav_core_irrelevant [simp]:
  "nav_core (s\<lparr>events := evs\<rparr>) = nav_core s" "nav_core (s\<lparr>needs_reload := b\<rparr>) = nav_core s"
  "nav_core (s\<lparr>is_initial_navigation := b\<rparr>) = nav_core s" "nav_core (s\<lparr>pending_reload := r\<rparr>) = nav_core s"
  "nav_core (s\<lparr>time_smoother := ts\<rparr>) = nav_core s" "nav_core (s\<lparr>failed_pending_entry_id := i\<rparr>) = nav_core s"
  "nav_core (s\<lparr>last_committed_reload_type := r\<rparr>) = nav_core s"
  "nav_core (s\<lparr>last_committed_reload_time := lt\<rparr>) = nav_core s"
  "nav_core (s\<lparr>last_pending_entry := lp\<rparr>) = nav_core s" "nav_core (s\<lparr>last_pending_entry_index := i\<rparr>) = nav_core s"
  "nav_core (s\<lparr>last_transient_entry_index := i\<rparr>) = nav_core s"
  by (simp_all add: nav_core_def ids_ok_def list_ok_def pending_ok_def cong: option.case_cong)

lemma idle_irrelevant [simp]:
  "idle (s\<lparr>events := evs\<rparr>) = idle s" "idle (s\<lparr>needs_reload := b\<rparr>) = idle s"
  "idle (s\<lparr>is_initial_navigation := b\<rparr>) = idle s" "idle (s\<lparr>pending_reload := r\<rparr>) = idle s"
  "idle (s\<lparr>time_smoother := ts\<rparr>) = idle s" "idle (s\<lparr>failed_pending_entry_id := i\<rparr>) = idle s"
  "idle (s\<lparr>last_committed_reload_type := r\<rparr>) = idle s" "idle (s\<lparr>last_committed_reload_time := lt\<rparr>) = idle s"
  "idle (s\<lparr>objects := ob\<rparr>) = idle s" "idle (s\<lparr>created := n\<rparr>) = idle s" "idle (s\<lparr>entries := es\<rparr>) = idle s"
  "idle (s\<lparr>pending_entry := pe\<rparr>) = idle s" "idle (s\<lparr>pending_entry_index := i\<rparr>) = idle s"
  "idle (s\<lparr>last_committed_entry_index := i\<rparr>) = idle s" "idle (s\<lparr>transient_entry_index := i\<rparr>) = idle s"
  "idle (drop_all s) = idle s"
  by (simp_all add: idle_def)

lemma committed_entries_irrelevant [simp]:
  "committed_entries (s\<lparr>events := evs\<rparr>) = committed_entries s"
  "committed_entries (s\<lparr>needs_reload := b\<rparr>) = committed_entries s"
  "committed_entries (s\<lparr>is_initial_navigation := b\<rparr>) = committed_entries s"
  "committed_entries (s\<lparr>pending_reload := r\<rparr>) = committed_entries s"
  "committed_entries (s\<lparr>time_smoother := ts\<rparr>) = committed_entries s"
  "committed_entries (s\<lparr>failed_pending_entry_id := i\<rparr>) = committed_entries s"
  "committed_entries (s\<lparr>last_committed_reload_type := r\<rparr>) = committed_entries s"
  "committed_entries (s\<lparr>last_committed_reload_time := lt\<rparr>) = committed_entries s"
  "committed_entries (s\<lparr>last_pending_entry := lp\<rparr>) = committed_entries s"
  "committed_entries (s\<lparr>last_pending_entry_index := i\<rparr>) = committed_entries s"
  "committed_entries (s\<lparr>last_transient_entry_index := i\<rparr>) = committed_entries s"
  "committed_entries (s\<lparr>objects := ob\<rparr>) = committed_entries s"
  "committed_entries (s\<lparr>created := n\<rparr>) = committed_entries s"
  "committed_entries (s\<lparr>pending_entry := pe\<rparr>) = committed_entries s"
  "committed_entries (s\<lparr>pending_entry_index := i\<rparr>) = committed_entries s"
  "committed_entries (s\<lparr>last_committed_entry_index := i\<rparr>) = committed_entries s"
  by (simp_all add: committed_entries_def)

lemma history_irrelevant [simp]:
  "history (s\<lparr>events := evs\<rparr>) = history s" "history (s\<lparr>needs_reload := b\<rparr>) = history s"
  "history (s\<lparr>is_initial_navigation := b\<rparr>) = history s" "history (s\<lparr>pending_reload := r\<rparr>) = history s"
  "history (s\<lparr>time_smoother := ts\<rparr>) = history s" "history (s\<lparr>failed_pending_entry_id := i\<rparr>) = history s"
  "history (s\<lparr>last_committed_reload_type := r\<rparr>) = history s"
  "history (s\<lparr>last_committed_reload_time := lt\<rparr>) = history s"
  "history (s\<lparr>last_pending_entry := lp\<rparr>) = history s" "history (s\<lparr>last_pending_entry_index := i\<rparr>) = history s"
  "history (s\<lparr>last_transient_entry_index := i\<rparr>) = history s" "history (s\<lparr>pending_entry := pe\<rparr>) = history s"
  "history (s\<lparr>pending_entry_index := i\<rparr>) = history s" "history (s\<lparr>created := n\<rparr>) = history s"
  by (simp_all add: history_def page_of_def fun_eq_iff)

end
