(* ===== verification/Nav_Operations.thy ===== *)
theory Nav_Operations
  imports Nav_Invariant
begin

text \<open>
  Every operation that starts a load, discards, shows a transient entry or removes entries keeps the
  invariant and cannot fail under its precondition, and what each makes of the committed history.
\<close>

subsection \<open>Changes of one object\<close>

lemma notify_fields [simp]:
  "nav_core (notify ev s) = nav_core s" "idle (notify ev s) = idle s" "history (notify ev s) = history s"
  "committed_entries (notify ev s) = committed_entries s" "objects (notify ev s) = objects s"
  "entries (notify ev s) = entries s" "pending_entry (notify ev s) = pending_entry s"
  "pending_entry_index (notify ev s) = pending_entry_index s"
  "last_committed_entry_index (notify ev s) = last_committed_entry_index s"
  "transient_entry_index (notify ev s) = transient_entry_index s" "created (notify ev s) = created s"
  by (simp_all add: notify_def)

lemma modify_keeps:
  assumes "nav_core s" "objects s p = Some e" "unique_id e' = unique_id e"
  shows "nav_core (s\<lparr>objects := (objects s)(p \<mapsto> e')\<rparr>)"
    and "frame_tree e' = frame_tree e \<Longrightarrow> history (s\<lparr>objects := (objects s)(p \<mapsto> e')\<rparr>) = history s"
proof -
  let ?s = "s\<lparr>objects := (objects s)(p \<mapsto> e')\<rparr>"
  have "ids_ok s" using assms(1) by (simp add: nav_core_def)
  then have "ids_ok ?s" using assms(2,3) unfolding ids_ok_def by (auto split: if_splits)
  moreover have "list_ok ?s" using assms by (auto simp: nav_core_def list_ok_def)
  moreover have "pending_ok ?s" using assms by (auto simp: nav_core_def pending_ok_def split: option.splits if_splits)
  ultimately show "nav_core ?s" using assms(1) by (simp add: nav_core_def)
  show "history ?s = history s" if "frame_tree e' = frame_tree e"
    using assms that by (auto simp: history_def page_of_def)
qed

lemma delete_keeps:
  assumes "nav_core s" "p \<notin> set (entries s)" "pending_entry s \<noteq> Some p"
  shows "nav_core (delete_object p s)" "history (delete_object p s) = history s"
proof -
  have "ids_ok (delete_object p s)" using assms(1) by (auto simp: nav_core_def ids_ok_def delete_object_def split: if_splits)
  moreover have "list_ok (delete_object p s)"
    using assms(1,2) by (auto simp: nav_core_def list_ok_def delete_object_def)
  moreover have "pending_ok (delete_object p s)"
    using assms by (auto simp: nav_core_def pending_ok_def delete_object_def split: option.splits if_splits)
  ultimately show "nav_core (delete_object p s)" using assms(1) by (simp add: nav_core_def delete_object_def)
  have "set (committed_entries s) \<subseteq> set (entries s)" using assms(1) committed_entries_facts(1) by (simp add: nav_core_def)
  then show "history (delete_object p s) = history s"
    using assms(2) by (auto simp: history_def page_of_def delete_object_def)
qed

lemma delete_fields [simp]:
  "idle (delete_object p s) = idle s" "entries (delete_object p s) = entries s"
  "pending_entry (delete_object p s) = pending_entry s"
  "pending_entry_index (delete_object p s) = pending_entry_index s"
  "last_committed_entry_index (delete_object p s) = last_committed_entry_index s"
  "transient_entry_index (delete_object p s) = transient_entry_index s"
  "in_navigate_to_pending_entry (delete_object p s) = in_navigate_to_pending_entry s"
  "is_initial_navigation (delete_object p s) = is_initial_navigation s"
  "created (delete_object p s) = created s"
  by (simp_all add: delete_object_def)

lemma new_keeps:
  assumes "nav_core s" "\<And>uid. unique_id (mk uid) = uid" "new_object mk s = (p, s')"
  shows "nav_core s'" "history s' = history s" "p \<notin> set (entries s')" "pending_entry s' \<noteq> Some p"
    and "objects s' p = Some (mk (int (created s) + 1))" "idle s' = idle s" "entries s' = entries s"
    and "pending_entry s' = pending_entry s" "pending_entry_index s' = pending_entry_index s"
    and "transient_entry_index s' = transient_entry_index s"
    and "last_committed_entry_index s' = last_committed_entry_index s"
    and "committed_entries s' = committed_entries s" "q \<noteq> p \<Longrightarrow> objects s' q = objects s q" "p = created s"
    and "is_initial_navigation s' = is_initial_navigation s" "objects s p = None"
proof -
  have s': "s' = s\<lparr>objects := (objects s)(p \<mapsto> mk (int (created s) + 1)), created := Suc (created s)\<rparr>"
    and p: "p = created s" using assms(3) by (auto simp: new_object_def)
  have ids: "ids_ok s" and l: "list_ok s" and pend: "pending_ok s" using assms(1) by (auto simp: nav_core_def)
  have below: "objects s q = Some e \<Longrightarrow> q < created s \<and> 1 \<le> unique_id e \<and> unique_id e \<le> int (created s)" for q e
    using ids by (auto simp: ids_ok_def)
  show fresh: "objects s p = None" using below [of p] p by (cases "objects s p") auto
  then have p_entries: "p \<notin> set (entries s)" using l by (auto simp: list_ok_def)
  have p_pending: "pending_entry s \<noteq> Some p" using fresh pend by (auto simp: pending_ok_def)
  have "ids_ok s'"
    using ids below unfolding s' ids_ok_def
    by (auto simp: assms(2) p split: if_splits; (force dest: below)?)
  moreover have "list_ok s'" using l unfolding s' list_ok_def by auto
  moreover have "pending_ok s'" using pend unfolding s' pending_ok_def by (auto split: option.splits if_splits)
  ultimately show "nav_core s'" using assms(1) by (simp add: nav_core_def s')
  show "history s' = history s"
    using p_entries committed_entries_facts(1) [OF l] by (auto simp: s' history_def page_of_def)
  show "p \<notin> set (entries s')" "pending_entry s' \<noteq> Some p" using p_entries p_pending by (simp_all add: s')
qed (use assms(3) in \<open>auto simp: new_object_def\<close>)

lemma set_pending_new:
  assumes "nav_core s" "objects s p \<noteq> None" "p \<notin> set (entries s)"
  shows "nav_core (s\<lparr>pending_entry := Some p, pending_entry_index := -1\<rparr>)"
  using assms by (auto simp: nav_core_def ids_ok_def list_ok_def pending_ok_def)

lemma set_pending_at:
  assumes "nav_core s" "0 \<le> i" "i < int (length (entries s))" "entries s ! nat i = p" "i \<noteq> transient_entry_index s"
  shows "nav_core (s\<lparr>pending_entry := Some p, pending_entry_index := i\<rparr>)"
  using assms by (auto simp: nav_core_def ids_ok_def list_ok_def pending_ok_def)

lemma set_pending_none:
  "nav_core s \<Longrightarrow> nav_core (s\<lparr>pending_entry := None, pending_entry_index := -1\<rparr>)"
  by (auto simp: nav_core_def ids_ok_def list_ok_def pending_ok_def)

lemma replace_pending:
  assumes "nav_core s" "objects s p \<noteq> None" "p \<notin> set (entries s)"
    and "pending_entry_index s = -1 \<or> 0 \<le> pending_entry_index s \<and> pending_entry_index s < int (length (entries s)) \<and>
       pending_entry_index s \<noteq> transient_entry_index s"
  shows "nav_core (s\<lparr>pending_entry := Some p\<rparr>)"
  using assms by (auto simp: nav_core_def ids_ok_def list_ok_def pending_ok_def)

lemma drop_all_other_objects:
  assumes "pending_entry s \<noteq> Some q" "transient_entry_index s \<noteq> -1 \<Longrightarrow> entries s ! nat (transient_entry_index s) \<noteq> q"
  shows "objects (drop_all s) q = objects s q"
  using assms by (cases "pending_entry s") (auto simp: drop_all_def drop_transient_def drop_pending_def)

subsection \<open>Starting a load\<close>

definition last_pending_ok :: "nav_controller \<Rightarrow> bool" where
  "last_pending_ok s \<longleftrightarrow>
     (case last_pending_entry s of None \<Rightarrow> True
      | Some l \<Rightarrow> objects s l \<noteq> None \<and> pending_entry s \<noteq> Some l \<and>
          (last_pending_entry_index s = -1 \<longrightarrow> l \<notin> set (entries s)))"

definition keeps_history :: "nav_controller \<Rightarrow> nav_controller \<Rightarrow> bool" where
  "keeps_history s s' \<longleftrightarrow> nav_ok s' \<and> history s' = history s"

lemma keeps_history_cong: "history s = history s' \<Longrightarrow> keeps_history s = keeps_history s'"
  by (auto simp: keeps_history_def fun_eq_iff)

lemma NavigateToPendingEntryInternal_ok:
  assumes "nav_core s" "pending_entry s = Some p"
  shows "\<exists>success. NavigateToPendingEntryInternal env reload s = Inr success"
proof -
  obtain e where e: "objects s p = Some e" using assms pending_alive by (auto simp: nav_core_def)
  have l: "list_ok s" using assms by (simp add: nav_core_def)
  show ?thesis
  proof (cases "last_committed_ptr s")
    case None then show ?thesis
      by (simp add: NavigateToPendingEntryInternal_def assms not_null_def deref_ok [OF e] GetLastCommittedEntry_ok [OF l])
  next
    case (Some q)
    then obtain f where "objects s q = Some f" using last_committed_alive [OF l] by blast
    then show ?thesis using Some
      by (simp add: NavigateToPendingEntryInternal_def assms not_null_def deref_ok [OF e] deref_ok
          GetLastCommittedEntry_ok [OF l] split: prod.split)
  qed
qed

lemma discard_keeps:
  assumes "nav_ok s" shows "safe {} (DiscardNonCommittedEntries env s) (keeps_history s)"
proof -
  obtain evs where "DiscardNonCommittedEntries env s = Inr ((drop_all s)\<lparr>events := evs\<rparr>)"
    using DiscardNonCommittedEntries_ok assms by (auto simp: nav_ok_def)
  then show ?thesis using assms by (simp add: keeps_history_def nav_ok_def drop_all_ok history_drop_all)
qed

lemma NavigateToPendingEntry_keeps:
  assumes core: "nav_core s" and p: "pending_entry s = Some p" and lp: "last_pending_ok s"
    and idle: "pending_entry_index s \<noteq> -1 \<Longrightarrow> idle s"
  shows "safe {} (NavigateToPendingEntry env reload s) (keeps_history s)"
proof -
  let ?s = "s\<lparr>needs_reload := False\<rparr>"
  have core': "nav_core ?s" using core by simp
  have l: "list_ok ?s" using core' by (rule nav_core_parts)
  obtain e where e: "objects s p = Some e" using core p pending_alive by (auto simp: nav_core_def)
  show ?thesis
  proof (cases "pending_entry_index s \<noteq> -1 \<and> pending_entry_index s = last_committed_entry_index s \<and>
        restore_type e = RESTORE_NONE \<and> FORWARD_BACK (transition_type e)")
    case True
    then have ok: "nav_ok (notify StopLoading ?s)" using idle core by (simp add: nav_ok_def)
    have "NavigateToPendingEntry env reload s = DiscardNonCommittedEntries env (notify StopLoading ?s)"
      using True by (simp add: NavigateToPendingEntry_def p not_null_def deref_def e)
    then show ?thesis
      using discard_keeps [OF ok, of env] keeps_history_cong [of "notify StopLoading ?s" s] by simp
  next
    case False
    define last_ptr where "last_ptr = (if last_pending_entry ?s \<noteq> None then last_pending_entry ?s else last_committed_ptr ?s)"
    have alive: "objects s q \<noteq> None" if "last_ptr = Some q" for q
      using that lp last_committed_alive [OF l] by (auto simp: last_ptr_def last_pending_ok_def split: if_splits)
    define s1 where "s1 = (case last_pending_entry ?s of
                 Some l \<Rightarrow> if last_pending_entry_index ?s = -1 then delete_object l ?s else ?s | None \<Rightarrow> ?s)"
    define s2 where "s2 = s1\<lparr>last_transient_entry_index := -1, last_pending_entry := None, last_pending_entry_index := -1\<rparr>"
    have "nav_core s1 \<and> history s1 = history s \<and> pending_entry s1 = Some p"
      using core lp p delete_keeps [OF core']
      by (cases "last_pending_entry s") (auto simp: s1_def last_pending_ok_def)
    then have s2: "nav_ok s2" "history s2 = history s" "pending_entry s2 = Some p"
      by (simp_all add: s2_def nav_ok_def, simp add: idle_def)
    obtain r where r: "(case last_ptr of None \<Rightarrow> Inr None | Some l \<Rightarrow> bindE (deref l ?s) (\<lambda>e. Inr (Some e))) = Inr r"
      using alive by (cases last_ptr) (auto simp: deref_def)
    define reload1 where "reload1 = (if converts_to_reload (pending_entry_index ?s) (last_transient_entry_index ?s)
        reload r e then RELOAD_NORMAL else reload)"
    have guard: "\<not> (pending_entry_index ?s \<noteq> -1 \<and> pending_entry_index ?s = last_committed_entry_index ?s \<and>
        restore_type e = RESTORE_NONE \<and> FORWARD_BACK (transition_type e))" using False by simp
    have first: "not_null (pending_entry s) = Inr p" "deref p ?s = Inr e"
      by (simp_all add: p not_null_def deref_def e)
    have eq: "NavigateToPendingEntry env reload s =
        (if IsRendererDebugURL (GetURL e) \<and> \<not> render_view_live env \<and> \<not> is_initial_navigation s2
         then DiscardNonCommittedEntries env s2
         else if in_navigate_to_pending_entry s2 then Inl CheckFailed
         else bindE (NavigateToPendingEntryInternal env reload1 s2) (\<lambda>success.
              if success then Inr s2 else DiscardNonCommittedEntries env s2))"
      unfolding NavigateToPendingEntry_def Let_def first bindE_Inr if_not_P [OF guard] GetLastCommittedEntry_ok [OF l]
        last_ptr_def [symmetric] r s1_def [symmetric] s2_def [symmetric] reload1_def [symmetric] ..
    obtain success where "NavigateToPendingEntryInternal env reload1 s2 = Inr success"
      using NavigateToPendingEntryInternal_ok [of s2 p env reload1] s2 by (auto simp: nav_ok_def)
    moreover have "\<not> in_navigate_to_pending_entry s2" using s2 by (simp add: nav_ok_def nav_core_def)
    ultimately show ?thesis
      using s2 discard_keeps [OF s2(1), of env] keeps_history_cong [OF s2(2)] by (simp add: eq) (simp add: keeps_history_def)
  qed
qed

lemma LoadEntry_keeps:
  assumes ok: "nav_ok s" and p: "objects s p \<noteq> None" "p \<notin> set (entries s)" "pending_entry s \<noteq> Some p"
  shows "safe {} (LoadEntry env p s) (keeps_history s)"
proof -
  let ?s = "s\<lparr>last_pending_entry := pending_entry s, last_pending_entry_index := pending_entry_index s,
                 last_transient_entry_index := transient_entry_index s,
                 pending_entry := None, pending_entry_index := -1\<rparr>"
  have core: "nav_core s" using ok by (simp add: nav_ok_def)
  have pend: "pending_ok s" and l: "list_ok s" using core by (auto simp: nav_core_def)
  have core1: "nav_core ?s"
    using core by (auto simp: nav_core_def ids_ok_def list_ok_def pending_ok_def)
  have alive: "objects (drop_all ?s) q = objects s q"
    if "transient_entry_index s \<noteq> -1 \<Longrightarrow> entries s ! nat (transient_entry_index s) \<noteq> q" for q
    using drop_all_other_objects [of ?s q] that by simp
  have t: "transient_entry_index s \<noteq> -1 \<Longrightarrow> 0 \<le> transient_entry_index s \<and> transient_entry_index s < int (length (entries s))"
    using l by (auto simp: list_ok_def)
  have p_alive: "objects (drop_all ?s) p = objects s p"
    by (rule alive) (use p t in \<open>force intro: nth_mem\<close>)
  have q_alive: "objects (drop_all ?s) q = objects s q" if q: "pending_entry s = Some q" for q
  proof (rule alive)
    assume t': "transient_entry_index s \<noteq> -1"
    show "entries s ! nat (transient_entry_index s) \<noteq> q"
    proof (cases "pending_entry_index s = -1")
      case True
      then have "q \<notin> set (entries s)" using pend q by (auto simp: pending_ok_def)
      then show ?thesis using t [OF t'] by (force intro: nth_mem)
    next
      case False
      then have pi: "0 \<le> pending_entry_index s" "pending_entry_index s < int (length (entries s))"
        "entries s ! nat (pending_entry_index s) = q \<or> q \<notin> set (entries s)"
        "pending_entry_index s \<noteq> transient_entry_index s"
        using pend q by (auto simp: pending_ok_def)
      have "nat (pending_entry_index s) \<noteq> nat (transient_entry_index s)"
        using pi(1,4) t [OF t'] by (simp add: eq_nat_nat_iff)
      moreover have "distinct (entries s)" using l by (simp add: list_ok_def)
      ultimately have "entries s ! nat (transient_entry_index s) \<noteq> entries s ! nat (pending_entry_index s)"
        using pi(1,2) t [OF t'] nth_eq_iff_index_eq [of "entries s" "nat (transient_entry_index s)" "nat (pending_entry_index s)"]
        by (simp add: nat_less_iff)
      moreover have "entries s ! nat (transient_entry_index s) \<in> set (entries s)"
        using t [OF t'] by (simp add: nat_less_iff)
      ultimately show ?thesis using pi(3) by auto
    qed
  qed
  define s2 where "s2 = notify (EntryPending p) ((drop_all ?s)\<lparr>pending_entry := Some p\<rparr>)"
  have sub: "set (committed_entries s) \<subseteq> set (entries s)" using l by (rule committed_entries_facts)
  have pi: "pending_entry_index (drop_all ?s) = -1" using core1 by simp
  have "nav_core ((drop_all ?s)\<lparr>pending_entry := Some p, pending_entry_index := -1\<rparr>)"
    using set_pending_new [OF drop_all_ok [OF core1], of p] p sub p_alive by auto
  moreover have "(drop_all ?s)\<lparr>pending_entry := Some p, pending_entry_index := -1\<rparr> = (drop_all ?s)\<lparr>pending_entry := Some p\<rparr>"
    using pi by simp
  ultimately have "nav_core s2" by (simp add: s2_def)
  moreover have "last_pending_ok s2"
  proof (cases "pending_entry s")
    case None then show ?thesis by (simp add: s2_def last_pending_ok_def notify_def)
  next
    case (Some q)
    then show ?thesis using q_alive [OF Some] pend p sub
      by (auto simp: s2_def last_pending_ok_def notify_def pending_ok_def)
  qed
  ultimately have "safe {} (NavigateToPendingEntry env RELOAD_NONE s2) (keeps_history s2)"
    using NavigateToPendingEntry_keeps [of s2 p env RELOAD_NONE] pi by (simp add: s2_def)
  moreover have "history s2 = history s"
    using history_drop_all [OF core1] by (simp add: s2_def)
  ultimately show ?thesis
    using keeps_history_cong [of s2 s]
    by (simp add: LoadEntry_def SetPendingEntry_def Let_def DiscardNonCommittedEntriesInternal_ok [OF core1] s2_def)
qed

lemma new_entry_ids [simp]:
  "unique_id (NavigationEntryImpl_new uid si url ref ttl tr ri) = uid"
  "unique_id (Entry_CloneAndReplace ps uid fe cc tg lv e) = uid" "unique_id (Entry_Clone ps uid e) = uid"
  "unique_id (update_root g e) = unique_id e" "unique_id (SetURL url e) = unique_id e"
  "unique_id (SetReferrer ref e) = unique_id e" "unique_id (SetVirtualURL url e) = unique_id e"
  "unique_id (set_site_instance si e) = unique_id e" "unique_id (set_source_site_instance si e) = unique_id e"
  "unique_id (SetHasPostData has e) = unique_id e" "unique_id (SetRedirectChain chain e) = unique_id e"
  "unique_id (Entry_AddOrUpdateFrameEntry ps f u e) = unique_id e"
  "unique_id (update_frame_entry f h e) = unique_id e" "unique_id (SetPageState ps st e) = unique_id e"
  "unique_id (ResetForCommit g0 e) = unique_id e"
  by (auto simp: NavigationEntryImpl_new_def Entry_CloneAndReplace_def Entry_Clone_def update_root_def SetURL_def
      SetReferrer_def SetVirtualURL_def set_site_instance_def set_source_site_instance_def SetHasPostData_def
      SetRedirectChain_def Entry_AddOrUpdateFrameEntry_def update_frame_entry_def SetPageState_def ResetForCommit_def
      Let_def split: option.splits)

lemma created_entry_id [simp]: "unique_id (CreateNavigationEntry env url ref tr ri headers uid) = uid"
  by (simp add: CreateNavigationEntry_def Let_def split: prod.split)

lemma load_entry_id [simp]:
  "unique_id (finish_load_entry params b ov (new_load_entry env params sub lc uid)) = uid"
  by (simp add: finish_load_entry_def new_load_entry_def Let_def split: option.split LoadURLType.split)

lemma LoadURLWithParams_keeps:
  assumes ok: "nav_ok s" and main: "p_subframe params \<noteq> None \<Longrightarrow> last_committed_entry_index s \<noteq> -1"
  shows "safe {} (LoadURLWithParams env params subframe_id s) (keeps_history s)"
proof (cases "HandleDebugURL env (p_url params) (p_transition_type params) \<and> \<not> gpu_benchmarking env \<or>
      load_type params = LOAD_TYPE_DATA \<and> \<not> SchemeIs (p_url params) kDataScheme")
  case True
  then have "LoadURLWithParams env params subframe_id s = Inr s" by (auto simp: LoadURLWithParams_def)
  then show ?thesis using ok by (simp add: keeps_history_def)
next
  case False
  let ?s = "s\<lparr>needs_reload := False\<rparr>"
  have core: "nav_core ?s" using ok by (simp add: nav_ok_def)
  have l: "list_ok ?s" using core by (rule nav_core_parts)
  have d: "deref_option (last_committed_ptr ?s) ?s = Inr (Option.bind (last_committed_ptr ?s) (objects ?s))"
    using last_committed_alive [OF l] by (intro deref_option_ok) blast
  have some: "Option.bind (last_committed_ptr ?s) (objects ?s) \<noteq> None" if "last_committed_entry_index s \<noteq> -1"
    using that last_committed_alive [OF l] by (auto simp: last_committed_ptr_def)
  define lc where "lc = Option.bind (last_committed_ptr ?s) (objects ?s)"
  define ov where "ov = (case override_user_agent params of
                        UA_OVERRIDE_INHERIT \<Rightarrow> ShouldKeepOverride lc
                      | UA_OVERRIDE_TRUE \<Rightarrow> True | UA_OVERRIDE_FALSE \<Rightarrow> False)"
  have "\<not> (HandleDebugURL env (p_url params) (p_transition_type params) \<and> \<not> gpu_benchmarking env)"
    "\<not> (load_type params = LOAD_TYPE_DATA \<and> \<not> SchemeIs (p_url params) kDataScheme)" using False by blast+
  then have "LoadURLWithParams env params subframe_id s =
      (if p_subframe params \<noteq> None \<and> lc = None then Inl NullPointer
       else let (p, s1) = new_object (\<lambda>uid. finish_load_entry params (entries ?s \<noteq> []) ov
                         (new_load_entry env params subframe_id lc uid)) ?s in LoadEntry env p s1)"
    unfolding LoadURLWithParams_def Let_def GetLastCommittedEntry_ok [OF l] bindE_Inr d
    by (simp only: if_False lc_def ov_def)
  moreover obtain p s1 where new: "new_object (\<lambda>uid. finish_load_entry params (entries ?s \<noteq> []) ov
                         (new_load_entry env params subframe_id lc uid)) ?s = (p, s1)" by fastforce
  ultimately have eq: "LoadURLWithParams env params subframe_id s = LoadEntry env p s1"
    using main some by (auto simp: lc_def)
  note made = new_keeps [OF core _ new, simplified]
  have "nav_ok s1" using made(1,6) ok by (simp add: nav_ok_def)
  then have "safe {} (LoadEntry env p s1) (keeps_history s1)"
    using made by (intro LoadEntry_keeps) auto
  then show ?thesis using made(2) keeps_history_cong [of s1 s] by (simp add: eq)
qed

text \<open>A subframe cannot be loaded before the first commit.\<close>

lemma LoadURLWithParams_outcome:
  assumes ok: "nav_ok s" shows "safe {NullPointer} (LoadURLWithParams env params subframe_id s) (keeps_history s)"
proof (cases "p_subframe params \<noteq> None \<longrightarrow> last_committed_entry_index s \<noteq> -1")
  case True
  then show ?thesis using LoadURLWithParams_keeps [OF ok, of params env subframe_id] by (auto elim: safe_weaken)
next
  case False
  let ?s = "s\<lparr>needs_reload := False\<rparr>"
  have "nav_core ?s" using ok by (simp add: nav_ok_def)
  then have l: "list_ok ?s" by (rule nav_core_parts)
  have "last_committed_ptr ?s = None" using False by (simp add: last_committed_ptr_def)
  then show ?thesis using False ok
    by (auto simp: LoadURLWithParams_def GetLastCommittedEntry_ok [OF l] deref_option_def keeps_history_def)
qed

lemma LoadURL_keeps: "nav_ok s \<Longrightarrow> safe {} (LoadURL env url ref tr headers s) (keeps_history s)"
  unfolding LoadURL_def by (rule LoadURLWithParams_keeps) simp_all

subsection \<open>History navigations and reloads\<close>

lemma idle_last_pending: "idle s \<Longrightarrow> last_pending_ok s"
  by (simp add: idle_def last_pending_ok_def)

lemma navigate_modified:
  assumes ok: "nav_ok s" and p: "pending_entry s = Some p"
    and g: "\<And>e. unique_id (g e) = unique_id e" "\<And>e. frame_tree (g e) = frame_tree e"
  shows "safe {} (bindE (modify p g s) (NavigateToPendingEntry env reload)) (keeps_history s)"
proof -
  have core: "nav_core s" and id: "idle s" using ok by (auto simp: nav_ok_def)
  obtain e where e: "objects s p = Some e" using core p pending_alive by (auto simp: nav_core_def)
  let ?s = "s\<lparr>objects := (objects s)(p \<mapsto> g e)\<rparr>"
  have s: "nav_core ?s" "history ?s = history s" using modify_keeps [OF core e, of "g e"] g by auto
  then have "safe {} (NavigateToPendingEntry env reload ?s) (keeps_history ?s)"
    using id p by (intro NavigateToPendingEntry_keeps [where p = p] idle_last_pending) simp_all
  then show ?thesis using keeps_history_cong [OF s(2)] by (simp add: modify_ok [OF e])
qed

lemma navigate_to_entry:
  assumes ok: "nav_ok s" and t: "transient_entry_index s = -1"
    and i: "0 \<le> i" "i < int (length (entries s))"
    and g: "\<And>e. unique_id (g e) = unique_id e" "\<And>e. frame_tree (g e) = frame_tree e"
  shows "safe {} (bindE (modify (entries s ! nat i) g
            (s\<lparr>pending_entry := Some (entries s ! nat i), pending_entry_index := i\<rparr>))
          (NavigateToPendingEntry env reload)) (keeps_history s)"
proof -
  let ?s = "s\<lparr>pending_entry := Some (entries s ! nat i), pending_entry_index := i\<rparr>"
  have "nav_ok ?s" using ok i t by (simp add: nav_ok_def set_pending_at)
  moreover have "keeps_history ?s = keeps_history s" by (intro keeps_history_cong) simp
  ultimately show ?thesis using navigate_modified [of ?s _ g env reload] g by simp
qed

lemma GoToIndex_keeps:
  assumes ok: "nav_ok s" shows "safe {} (GoToIndex env index s) (keeps_history s)"
proof (cases "index < 0 \<or> index \<ge> GetEntryCount s \<or>
      transient_entry_index s \<noteq> -1 \<and> index = transient_entry_index s")
  case True then show ?thesis using ok by (auto simp: GoToIndex_def keeps_history_def)
next
  case False
  define i where "i = (if transient_entry_index s \<noteq> -1 \<and> index > transient_entry_index s then index - 1 else index)"
  have core: "nav_core s" using ok by (simp add: nav_ok_def)
  have l: "list_ok s" using core by (rule nav_core_parts)
  obtain evs where evs: "DiscardNonCommittedEntries env s = Inr ((drop_all s)\<lparr>events := evs\<rparr>)"
    using DiscardNonCommittedEntries_ok [OF core] by blast
  let ?s = "(drop_all s)\<lparr>events := evs\<rparr>"
  have i: "0 \<le> i" "i < int (length (committed_entries s))"
  proof -
    have t: "transient_entry_index s \<noteq> -1 \<Longrightarrow>
        0 \<le> transient_entry_index s \<and> transient_entry_index s < int (length (entries s))"
      using l by (auto simp: list_ok_def)
    show "0 \<le> i" using False t by (auto simp: i_def)
    show "i < int (length (committed_entries s))"
      using False t length_remove_nth [of "transient_entry_index s" "entries s"]
      by (auto simp: i_def committed_entries_def GetEntryCount_def)
  qed
  have "nav_ok ?s" using ok by (simp add: nav_ok_def drop_all_ok)
  then have "safe {} (bindE (modify (entries ?s ! nat i) (\<lambda>e. e\<lparr>transition_type := (transition_type e)\<lparr>FORWARD_BACK := True\<rparr>\<rparr>)
      (?s\<lparr>pending_entry := Some (entries ?s ! nat i), pending_entry_index := i\<rparr>)) (NavigateToPendingEntry env RELOAD_NONE))
      (keeps_history ?s)"
    using i by (intro navigate_to_entry) auto
  moreover have "keeps_history ?s = keeps_history s"
    using history_drop_all [OF core] by (intro keeps_history_cong) simp
  moreover have "GoToIndex env index s = bindE (modify (entries ?s ! nat i)
      (\<lambda>e. e\<lparr>transition_type := (transition_type e)\<lparr>FORWARD_BACK := True\<rparr>\<rparr>)
      (?s\<lparr>pending_entry := Some (entries ?s ! nat i), pending_entry_index := i\<rparr>)) (NavigateToPendingEntry env RELOAD_NONE)"
  proof -
    have guard: "\<not> (index < 0 \<or> index \<ge> GetEntryCount s)"
      "\<not> (transient_entry_index s \<noteq> -1 \<and> index = transient_entry_index s)" using False by blast+
    have "entry_ptr_at i ?s = Inr (entries ?s ! nat i)" using i by (intro entry_ptr_at_ok) simp_all
    then show ?thesis
      unfolding GoToIndex_def if_not_P [OF guard(1)] if_not_P [OF guard(2)] Let_def i_def [symmetric] evs bindE_Inr
      by (simp only: bindE_Inr)
  qed
  ultimately show ?thesis by metis
qed

lemma GoBack_keeps: "nav_ok s \<Longrightarrow> safe {} (GoBack env s) (keeps_history s)"
  and GoForward_keeps: "nav_ok s \<Longrightarrow> safe {} (GoForward env s) (keeps_history s)"
  by (simp_all add: GoBack_def GoForward_def GoToIndex_keeps)

lemma GoToOffset_keeps: "nav_ok s \<Longrightarrow> safe {} (GoToOffset env offset s) (keeps_history s)"
  by (simp add: GoToOffset_def GoToIndex_keeps) (simp add: keeps_history_def)

text \<open>The entry to reload is the pending one of the initial navigation or one of the list.\<close>

definition reload_target :: "entry_ptr \<Rightarrow> int \<Rightarrow> nav_controller \<Rightarrow> bool" where
  "reload_target p i s \<longleftrightarrow>
     nav_ok s \<and> transient_entry_index s = -1 \<and>
     (is_initial_navigation s \<and> pending_entry s = Some p \<and> pending_entry_index s = i \<or>
      pending_entry s = None \<and> 0 \<le> i \<and> i < int (length (entries s)) \<and> entries s ! nat i = p)"

lemma reload_target_alive: "reload_target p i s \<Longrightarrow> \<exists>e. objects s p = Some e"
  unfolding reload_target_def nav_ok_def nav_core_def list_ok_def
  by (auto dest: pending_alive simp: nat_less_iff)

lemma reload_target_fields:
  "reload_target p i (s\<lparr>time_smoother := ts\<rparr>) = reload_target p i s"
  by (simp add: reload_target_def nav_ok_def)

lemma reload_target_modify:
  assumes "reload_target p i s" "objects s q = Some e" "unique_id e' = unique_id e"
  shows "reload_target p i (s\<lparr>objects := (objects s)(q \<mapsto> e')\<rparr>)"
  using assms modify_keeps(1) [of s q e e'] by (simp add: reload_target_def nav_ok_def)

lemma reload_target_drop:
  assumes "reload_target p i s" "\<not> is_initial_navigation s"
  shows "reload_target p i (drop_all s)"
  using assms by (auto simp: reload_target_def nav_ok_def drop_all_ok)

lemma reload_entry_keeps:
  assumes target: "reload_target p i s"
  shows "safe {} (reload_entry env reload p i s) (keeps_history s)"
proof -
  have core: "nav_core s" using target by (simp add: reload_target_def nav_ok_def)
  define s1 where "s1 = (if \<not> is_initial_navigation s then drop_all s else s)"
  have s1: "reload_target p i s1" using target reload_target_drop [OF target] by (simp add: s1_def)
  have hist: "keeps_history s1 = keeps_history s"
    using history_drop_all [OF core] by (intro keeps_history_cong) (simp add: s1_def)
  have first: "(if \<not> is_initial_navigation s then DiscardNonCommittedEntriesInternal env s else Inr s) = Inr s1"
    using DiscardNonCommittedEntriesInternal_ok [OF core] by (simp add: s1_def)
  obtain e where e: "objects s1 p = Some e" using reload_target_alive [OF s1] by blast
  have ok: "nav_ok s1" and core1: "nav_core s1" and t: "transient_entry_index s1 = -1"
    using s1 by (simp_all add: reload_target_def nav_ok_def)
  define g where "g = (\<lambda>e. e\<lparr>title := [], transition_type := plain TRANSITION_RELOAD\<rparr> :: NavigationEntryImpl)"
  have g: "unique_id (g e) = unique_id e" "frame_tree (g e) = frame_tree e" for e by (simp_all add: g_def)
  let ?cond = "case entry_site_instance e of None \<Rightarrow> False
        | Some si \<Rightarrow> \<not> is_for_guests_only env si \<and> HasWrongProcessForURL env si (GetURL e)"
  show ?thesis
  proof (cases ?cond)
    case True
    define mk where "mk = (\<lambda>uid. (CreateNavigationEntry env (GetURL e) (fne_referrer (root_entry e)) (transition_type e)
                 False (extra_headers e) uid)\<lparr>should_replace_entry := True\<rparr>)"
    obtain q s2 where new: "new_object mk s1 = (q, s2)" by fastforce
    have "unique_id (mk uid) = uid" for uid by (simp add: mk_def)
    note made = new_keeps [OF core1 this new]
    let ?s = "s2\<lparr>pending_entry := Some q\<rparr>"
    have "nav_core ?s" by (rule replace_pending) (use s1 core1 made in \<open>auto simp: reload_target_def nav_core_def pending_ok_def\<close>)
    then have "safe {} (NavigateToPendingEntry env RELOAD_NONE ?s) (keeps_history ?s)"
      using ok made by (intro NavigateToPendingEntry_keeps [where p = q] idle_last_pending) (simp_all add: nav_ok_def)
    moreover have "keeps_history ?s = keeps_history s"
      unfolding hist [symmetric] using made(2) by (intro keeps_history_cong) simp
    ultimately show ?thesis
      unfolding reload_entry_def first bindE_Inr using True new
      by (simp add: deref_ok [OF e] mk_def [symmetric])
  next
    case False
    have "safe {} (bindE (modify p g (s1\<lparr>pending_entry := Some p, pending_entry_index := i\<rparr>))
         (NavigateToPendingEntry env reload)) (keeps_history s1)"
    proof (cases "pending_entry s1 = None")
      case True
      then show ?thesis using s1 navigate_to_entry [OF ok t, of i g env reload] g by (auto simp: reload_target_def)
    next
      case pend: False
      then have "s1\<lparr>pending_entry := Some p, pending_entry_index := i\<rparr> = s1"
        and p: "pending_entry s1 = Some p" using s1 by (auto simp: reload_target_def)
      then show ?thesis using navigate_modified [OF ok p, of g env reload] g by simp
    qed
    then show ?thesis
      unfolding reload_entry_def first bindE_Inr deref_ok [OF e] if_not_P [OF False] hist g_def .
  qed
qed

lemma Reload_keeps:
  assumes ok: "nav_ok s"
  shows "safe {} (Reload env reload check_for_repost s) (keeps_history s)"
proof (cases "transient_entry_index s = -1")
  case False
  have l: "list_ok s" using ok by (simp add: nav_ok_def nav_core_def)
  have t: "0 \<le> transient_entry_index s" "transient_entry_index s < int (length (entries s))"
    using l False by (auto simp: list_ok_def)
  let ?p = "entries s ! nat (transient_entry_index s)"
  have "?p \<in> set (entries s)" using t by (simp add: nat_less_iff)
  then obtain e where "objects s ?p = Some e" using l by (auto simp: list_ok_def)
  then show ?thesis
    using False t LoadURL_keeps [OF ok]
    by (simp add: Reload_def GetTransientEntry_def entry_ptr_at_ok deref_ok)
next
  case True
  have core: "nav_core s" using ok by (simp add: nav_ok_def)
  define chosen where "chosen = (if is_initial_navigation s \<and> pending_entry s \<noteq> None
             then Inr (pending_entry s, pending_entry_index s, s)
             else bindE (DiscardNonCommittedEntriesInternal env s) (\<lambda>s1.
               let current_index = GetCurrentEntryIndex s1
               in Inr (if current_index \<noteq> -1 then GetEntryAtIndex current_index s1 else None, current_index, s1)))"
  have "\<exists>entry i s1. chosen = Inr (entry, i, s1) \<and> nav_ok s1 \<and> history s1 = history s \<and>
      (\<forall>p. entry = Some p \<longrightarrow> reload_target p i s1)"
  proof (cases "is_initial_navigation s \<and> pending_entry s \<noteq> None")
    case True
    then show ?thesis using ok \<open>transient_entry_index s = -1\<close>
      by (auto simp: chosen_def reload_target_def)
  next
    case False
    let ?i = "last_committed_entry_index s"
    have d: "nav_ok (drop_all s)" using ok by (simp add: nav_ok_def drop_all_ok)
    have "chosen = Inr (if ?i \<noteq> -1 then GetEntryAtIndex ?i (drop_all s) else None, ?i, drop_all s)"
      using False core by (auto simp: chosen_def DiscardNonCommittedEntriesInternal_ok [OF core] GetCurrentEntryIndex_def Let_def)
    moreover have "reload_target p ?i (drop_all s)"
      if "(if ?i \<noteq> -1 then GetEntryAtIndex ?i (drop_all s) else None) = Some p" for p
      using that d by (auto simp: reload_target_def GetEntryAtIndex_def GetEntryCount_def split: if_splits)
    ultimately show ?thesis using d history_drop_all [OF core] by blast
  qed
  then obtain entry i s1 where c: "chosen = Inr (entry, i, s1)" and s1: "nav_ok s1" "history s1 = history s"
    and target: "\<And>p. entry = Some p \<Longrightarrow> reload_target p i s1" by blast
  have no_transient: "\<not> transient_entry_index s \<noteq> -1" using True by simp
  note unfolded = Reload_def if_not_P [OF no_transient] chosen_def [symmetric] c bindE_Inr prod.case
  show ?thesis
  proof (cases entry)
    case None
    show ?thesis unfolding unfolded None using s1 by (simp add: keeps_history_def)
  next
    case (Some p)
    define s2 where "s2 = (if last_committed_reload_type s1 \<noteq> RELOAD_NONE
                    then s1\<lparr>time_smoother := snd (GetSmoothedTime (current_time env) (time_smoother s1))\<rparr> else s1)"
    have t2: "reload_target p i s2" "history s2 = history s" "nav_ok s2"
      using target [OF Some] s1 by (simp_all add: s2_def reload_target_fields nav_ok_def)
    obtain e where e: "objects s2 p = Some e" using reload_target_alive [OF t2(1)] by blast
    let ?e = "e\<lparr>reload_type := reload\<rparr>"
    define s3 where "s3 = s2\<lparr>objects := (objects s2)(p \<mapsto> ?e)\<rparr>"
    have s3: "reload_target p i s3" "nav_ok s3" "history s3 = history s"
      using reload_target_modify [OF t2(1) e, of ?e] modify_keeps [of s2 p e ?e] e t2
      by (simp_all add: s3_def nav_ok_def)
    have e3: "deref p s3 = Inr ?e" by (simp add: s3_def deref_def)
    have "Reload env reload check_for_repost s =
        (if check_for_repost_flag env \<and> check_for_repost \<and> GetHasPostData ?e
         then Inr (notify RepostWarning (s3\<lparr>pending_reload := reload\<rparr>))
         else reload_entry env reload p i s3)"
      unfolding unfolded Some
      by (simp add: s2_def [symmetric] modify_ok [OF e] s3_def [symmetric] e3)
    moreover have "keeps_history s3 = keeps_history s" using s3(3) by (rule keeps_history_cong)
    ultimately show ?thesis
      using reload_entry_keeps [OF s3(1), of env reload] s3(2,3) by (simp add: keeps_history_def [of s] nav_ok_def)
  qed
qed

end
