(* ===== verification/Nav_Editing.thy ===== *)
theory Nav_Editing
  imports Nav_Operations
begin

text \<open>
  Edits of the list of entries: a list that shrinks, an entry appended or replaced, and the
  operations made of them - removing an entry, pruning, showing a transient entry, restoring.
\<close>

subsection \<open>Shrinking\<close>

definition shrink :: "entry_ptr list \<Rightarrow> int \<Rightarrow> nav_controller \<Rightarrow> nav_controller" where
  "shrink es l s = s\<lparr>objects := (\<lambda>p. if p \<in> set (entries s) - set es then None else objects s p),
     entries := es, last_committed_entry_index := l\<rparr>"

text \<open>No entry of the list is pending, and none is transient.\<close>

definition settled :: "nav_controller \<Rightarrow> bool" where
  "settled s \<longleftrightarrow> nav_core s \<and> transient_entry_index s = -1 \<and> pending_entry_index s = -1"

lemma settled_drop_all: "nav_core s \<Longrightarrow> settled (drop_all s)"
  by (simp add: settled_def drop_all_ok)

lemma settled_pending: "settled s \<Longrightarrow> pending_entry s = Some p \<Longrightarrow> p \<notin> set (entries s)"
  by (auto simp: settled_def nav_core_def pending_ok_def)

lemma shrink_settled:
  assumes s: "settled s" and es: "set es \<subseteq> set (entries s)" "distinct es"
    and l: "-1 \<le> l" "l < int (length es)" "l = -1 \<longleftrightarrow> es = []"
  shows "settled (shrink es l s)" "history (shrink es l s) = (map (page_of s) es, l)"
proof -
  have core: "nav_core s" using s by (simp add: settled_def)
  have "ids_ok (shrink es l s)" using core by (auto simp: nav_core_def ids_ok_def shrink_def split: if_splits)
  moreover have "list_ok (shrink es l s)"
  proof -
    have "\<forall>p \<in> set (entries s). objects s p \<noteq> None" using core by (simp add: nav_core_def list_ok_def)
    then show ?thesis using s es l by (auto simp: settled_def list_ok_def shrink_def)
  qed
  moreover have "pending_ok (shrink es l s)"
    using s es settled_pending [OF s] by (auto simp: settled_def nav_core_def pending_ok_def shrink_def split: option.splits)
  ultimately show "settled (shrink es l s)" using s by (simp add: settled_def nav_core_def shrink_def)
  show "history (shrink es l s) = (map (page_of s) es, l)"
    using s es by (auto simp: history_def page_of_def shrink_def settled_def)
qed

lemma shrink_fields [simp]:
  "entries (shrink es l s) = es" "last_committed_entry_index (shrink es l s) = l"
  "pending_entry (shrink es l s) = pending_entry s" "idle (shrink es l s) = idle s"
  "created (shrink es l s) = created s" "is_initial_navigation (shrink es l s) = is_initial_navigation s"
  "transient_entry_index (shrink es l s) = transient_entry_index s"
  "pending_entry_index (shrink es l s) = pending_entry_index s"
  by (simp_all add: shrink_def idle_def)

lemma objects_shrink [simp]: "p \<in> set es \<Longrightarrow> objects (shrink es l s) p = objects s p"
  by (simp add: shrink_def)

lemma objects_shrink_outside [simp]: "p \<notin> set (entries s) \<Longrightarrow> objects (shrink es l s) p = objects s p"
  by (simp add: shrink_def)

lemma erase_is_shrink:
  assumes s: "settled s" and i: "0 \<le> i" "i < int (length (entries s))"
  shows "bindE (erase_entry i s) (\<lambda>s2. Inr (if last_committed_entry_index s2 > i
            then s2\<lparr>last_committed_entry_index := last_committed_entry_index s2 - 1\<rparr> else s2)) =
         Inr (shrink (remove_nth i (entries s))
            (if last_committed_entry_index s > i then last_committed_entry_index s - 1 else last_committed_entry_index s) s)"
proof -
  have d: "distinct (entries s)" using s by (simp add: settled_def nav_core_def list_ok_def)
  have "entries s ! nat i \<in> set (entries s)" using i by (simp add: nat_less_iff)
  then have "set (entries s) - set (remove_nth i (entries s)) = {entries s ! nat i}"
    unfolding set_remove_nth [OF i d] by blast
  then have "(objects s)(entries s ! nat i := None) =
      (\<lambda>p. if p \<in> set (entries s) - set (remove_nth i (entries s)) then None else objects s p)"
    by (auto simp: fun_eq_iff)
  then show ?thesis by (simp add: erase_entry_ok [OF i] shrink_def delete_object_def)
qed

lemma delete_objects_eq:
  "delete_objects ps s = s\<lparr>objects := (\<lambda>p. if p \<in> set ps then None else objects s p)\<rparr>"
proof (induction ps arbitrary: s)
  case (Cons a ps)
  have "(\<lambda>p. if p \<in> set ps then None else ((objects s)(a := None)) p) = (\<lambda>p. if p \<in> set (a # ps) then None else objects s p)"
    by (auto simp: fun_eq_iff)
  moreover have "delete_objects (a # ps) s = delete_objects ps (s\<lparr>objects := (objects s)(a := None)\<rparr>)"
    by (simp add: delete_objects_def delete_object_def)
  ultimately show ?case using Cons [of "s\<lparr>objects := (objects s)(a := None)\<rparr>"] by (simp cong: if_cong)
qed (simp add: delete_objects_def)

subsection \<open>Removing entries\<close>

definition removed :: "int \<Rightarrow> 'a list \<times> int \<Rightarrow> 'a list \<times> int" where
  "removed i h = (remove_nth i (fst h), if snd h > i then snd h - 1 else snd h)"

lemma map_remove_nth: "map f (remove_nth i xs) = remove_nth i (map f xs)"
  by (simp add: remove_nth_def take_map drop_map)

lemma shrink_remove:
  assumes s: "settled s" and i: "0 \<le> i" "i < int (length (entries s))" "i \<noteq> last_committed_entry_index s"
  defines "s' \<equiv> shrink (remove_nth i (entries s))
     (if last_committed_entry_index s > i then last_committed_entry_index s - 1 else last_committed_entry_index s) s"
  shows "settled s'" "history s' = removed i (history s)"
proof -
  let ?l = "last_committed_entry_index s"
  have l: "list_ok s" and t: "transient_entry_index s = -1" using s by (simp_all add: settled_def nav_core_def)
  have d: "distinct (entries s)" using l by (simp add: list_ok_def)
  have ne: "?l \<noteq> -1" "0 \<le> ?l" "?l < int (length (entries s))" using l t i by (auto simp: list_ok_def)
  note r = set_remove_nth [OF i(1,2) d] distinct_remove_nth [OF i(1,2) d] length_remove_nth [OF i(1,2)]
  have len: "int (length (remove_nth i (entries s))) = int (length (entries s)) - 1" using r(3) i by simp
  have "remove_nth i (entries s) \<noteq> []" using len i ne by auto
  then show "settled s'" "history s' = removed i (history s)"
    unfolding s'_def
    using shrink_settled [OF s, of "remove_nth i (entries s)" "if ?l > i then ?l - 1 else ?l"] r(1,2) len ne i t
    by (simp_all add: history_def removed_def map_remove_nth)
qed

text \<open>The index is taken before the transient entry is discarded: with a transient entry before it, it
  is the index in the committed list of the next entry, or past the end of it.\<close>

lemma RemoveEntryAtIndex_outcome:
  assumes ok: "nav_ok s" and i: "0 \<le> i" and free: "i \<noteq> last_committed_entry_index s" "i \<noteq> pending_entry_index s"
  shows "if i < int (length (committed_entries s))
         then safe {} (RemoveEntryAtIndex env i s) (\<lambda>(removed', s'). removed' \<and> nav_ok s' \<and>
           history s' = removed i (history s) \<and> pending_entry s' = None)
         else RemoveEntryAtIndex env i s = Inl OutOfRange"
proof -
  have core: "nav_core s" using ok by (simp add: nav_ok_def)
  obtain evs where d: "DiscardNonCommittedEntries env s = Inr ((drop_all s)\<lparr>events := evs\<rparr>)"
    using DiscardNonCommittedEntries_ok [OF core] by blast
  let ?s = "(drop_all s)\<lparr>events := evs\<rparr>"
  have s: "settled ?s" using settled_drop_all [OF core] by (simp add: settled_def)
  have i3: "i \<noteq> last_committed_entry_index ?s" using free by simp
  have hist: "history ?s = history s" using history_drop_all [OF core] by simp
  show ?thesis
  proof (cases "i < int (length (committed_entries s))")
    case True
    then have i2: "i < int (length (entries ?s))" by simp
    note r = shrink_remove [OF s i i2 i3]
    have "RemoveEntryAtIndex env i s = Inr (True, shrink (remove_nth i (entries ?s))
       (if last_committed_entry_index ?s > i then last_committed_entry_index ?s - 1 else last_committed_entry_index ?s) ?s)"
      unfolding RemoveEntryAtIndex_def RemoveEntryAtIndexInternal_def d bindE_Inr erase_is_shrink [OF s i i2]
      using free by simp
    then show ?thesis using r ok hist True by (simp add: nav_ok_def settled_def)
  next
    case False
    then have "erase_entry i ?s = Inl OutOfRange" using i by (simp add: erase_entry_def entry_ptr_at_def)
    then show ?thesis using False free by (simp add: RemoveEntryAtIndex_def RemoveEntryAtIndexInternal_def d)
  qed
qed

lemma RemoveEntryAtIndex_negative:
  assumes "nav_ok s" "i < 0" "i \<noteq> last_committed_entry_index s" "i \<noteq> pending_entry_index s"
  shows "RemoveEntryAtIndex env i s = Inl OutOfRange"
proof -
  obtain evs where "DiscardNonCommittedEntries env s = Inr ((drop_all s)\<lparr>events := evs\<rparr>)"
    using DiscardNonCommittedEntries_ok assms(1) by (auto simp: nav_ok_def)
  then show ?thesis
    using assms(2-4) by (simp add: RemoveEntryAtIndex_def RemoveEntryAtIndexInternal_def erase_entry_def entry_ptr_at_def)
qed

lemma RemoveEntryAtIndex_ok:
  assumes ok: "nav_ok s" and i: "0 \<le> i" "i < int (length (entries s))"
    and free: "i \<noteq> last_committed_entry_index s" "i \<noteq> pending_entry_index s"
    and t: "transient_entry_index s = -1 \<or> i < transient_entry_index s"
  shows "safe {} (RemoveEntryAtIndex env i s) (\<lambda>(removed', s'). removed' \<and> nav_ok s' \<and>
           history s' = removed i (history s) \<and> pending_entry s' = None)"
proof -
  have "list_ok s" using ok by (simp add: nav_ok_def nav_core_def)
  then have "i < int (length (committed_entries s))"
    using i t free(1) length_remove_nth [of "transient_entry_index s" "entries s"]
    by (auto simp: committed_entries_def list_ok_def)
  then show ?thesis using RemoveEntryAtIndex_outcome [OF ok i(1) free, of env] by simp
qed

lemma RemoveEntryAtIndex_busy:
  "i = last_committed_entry_index s \<or> i = pending_entry_index s \<Longrightarrow> RemoveEntryAtIndex env i s = Inr (False, s)"
  by (auto simp: RemoveEntryAtIndex_def)

subsection \<open>Pruning\<close>

lemma prune_forward_eq:
  assumes "n \<le> length (entries s)"
  shows "prune_forward n s = (delete_objects (drop (length (entries s) - n) (entries s)) s)
           \<lparr>entries := take (length (entries s) - n) (entries s)\<rparr>"
  using assms
proof (induction n arbitrary: s)
  case 0 then show ?case by (simp add: delete_objects_def)
next
  case (Suc n)
  then have ne: "entries s \<noteq> []" by auto
  let ?s = "(delete_object (last (entries s)) s)\<lparr>entries := butlast (entries s)\<rparr>"
  let ?k = "length (entries s) - Suc n"
  have es: "entries s = butlast (entries s) @ [last (entries s)]" using ne by simp
  have k: "length (butlast (entries s)) - n = ?k" by simp
  have "drop ?k (entries s) = drop ?k (butlast (entries s)) @ [last (entries s)]"
    using Suc.prems by (subst es) simp
  moreover have "take ?k (entries s) = take ?k (butlast (entries s))"
    using Suc.prems by (subst es) simp
  moreover have "prune_forward (Suc n) s = prune_forward n ?s" using ne by simp
  moreover have "prune_forward n ?s = (delete_objects (drop ?k (butlast (entries s))) ?s)\<lparr>entries := take ?k (butlast (entries s))\<rparr>"
    using Suc.IH [of ?s] Suc.prems by (simp add: k)
  ultimately show ?case by (simp add: delete_objects_eq delete_object_def fun_eq_iff)
qed

lemma prune_forward_shrink:
  assumes s: "settled s" and n: "n = length (entries s) - nat (last_committed_entry_index s + 1)"
    and l: "last_committed_entry_index s \<noteq> -1"
  shows "prune_forward n s = shrink (take (nat (last_committed_entry_index s + 1)) (entries s)) (last_committed_entry_index s) s"
proof -
  let ?k = "nat (last_committed_entry_index s + 1)"
  have d: "distinct (entries s)" and k: "?k \<le> length (entries s)"
    using s l by (auto simp: settled_def nav_core_def list_ok_def)
  have "length (entries s) - n = ?k" using n k by simp
  then have "prune_forward n s = (delete_objects (drop ?k (entries s)) s)\<lparr>entries := take ?k (entries s)\<rparr>"
    using prune_forward_eq [of n s] n by simp
  moreover have "set (drop ?k (entries s)) = set (entries s) - set (take ?k (entries s))"
  proof -
    have "set (take ?k (entries s)) \<inter> set (drop ?k (entries s)) = {}"
      using d by (rule set_take_disj_set_drop_if_distinct) simp
    moreover have "set (entries s) = set (take ?k (entries s)) \<union> set (drop ?k (entries s))"
      by (metis append_take_drop_id set_append)
    ultimately show ?thesis by blast
  qed
  ultimately show ?thesis by (simp add: delete_objects_eq shrink_def)
qed

lemma PruneAllButLastCommitted_ok:
  assumes ok: "nav_ok s" and can: "CanPruneAllButLastCommitted s"
  shows "safe {} (PruneAllButLastCommittedInternal s) (\<lambda>s'. nav_ok s' \<and> settled s' \<and>
           history s' = ([page_of s (entries s ! nat (last_committed_entry_index s))], 0) \<and>
           entries s' = [entries s ! nat (last_committed_entry_index s)])"
proof -
  let ?l = "last_committed_entry_index s" and ?p = "entries s ! nat (last_committed_entry_index s)"
  have s: "settled s" using ok can by (simp add: nav_ok_def settled_def CanPruneAllButLastCommitted_def)
  have l: "0 \<le> ?l" "?l < int (length (entries s))" and d: "distinct (entries s)"
    using s can by (auto simp: settled_def nav_core_def list_ok_def CanPruneAllButLastCommitted_def)
  have p: "?p \<in> set (entries s)" using l by (simp add: nat_less_iff)
  have "set (take (nat ?l) (entries s) @ drop (Suc (nat ?l)) (entries s)) = set (entries s) - {?p}"
    using set_remove_nth [OF l d] by (simp add: remove_nth_def)
  then have "PruneAllButLastCommittedInternal s = Inr (shrink [?p] 0 s)"
    using can by (simp add: PruneAllButLastCommittedInternal_def entry_ptr_at_ok [OF l] Let_def delete_objects_eq
        shrink_def del: set_append)
  moreover have "settled (shrink [?p] 0 s)" "history (shrink [?p] 0 s) = (map (page_of s) [?p], 0)"
    using p shrink_settled [OF s, of "[?p]" 0] by simp_all
  ultimately show ?thesis using ok by (simp add: nav_ok_def settled_def)
qed

subsection \<open>Inserting\<close>

text \<open>The committed list after a new page: it replaces the current one, or the entries after the
  current one go, the oldest one too when the list is full, and the page is appended.\<close>

definition insert_page :: "nat \<Rightarrow> bool \<Rightarrow> 'a \<Rightarrow> 'a list \<times> int \<Rightarrow> 'a list \<times> int" where
  "insert_page limit replace page h =
     (if replace \<and> fst h \<noteq> [] then ((fst h)[nat (snd h) := page], snd h)
      else let kept = take (nat (snd h + 1)) (fst h);
               kept' = (if length kept \<ge> limit then drop 1 kept else kept)
           in (kept' @ [page], int (length kept')))"

definition takes_id :: "nav_controller \<Rightarrow> NavigationEntryImpl \<Rightarrow> NavigationEntryImpl" where
  "takes_id s e = (if pending_entry_index s = -1
     then case Option.bind (pending_entry s) (objects s) of None \<Rightarrow> e | Some q \<Rightarrow> e\<lparr>unique_id := unique_id q\<rparr>
     else e)"

lemma takes_id_tree [simp]: "frame_tree (takes_id s e) = frame_tree e"
  by (simp add: takes_id_def split: option.split)

lemma drop_all_modified:
  assumes "pending_entry s \<noteq> Some p" "transient_entry_index s \<noteq> -1 \<Longrightarrow> entries s ! nat (transient_entry_index s) \<noteq> p"
  shows "drop_all (s\<lparr>objects := (objects s)(p \<mapsto> e)\<rparr>) = (drop_all s)\<lparr>objects := (objects (drop_all s))(p \<mapsto> e)\<rparr>"
  using assms
  by (cases "pending_entry s")
    (auto simp: drop_all_def drop_transient_def drop_pending_def fun_upd_twist)

text \<open>An entry may take the id of the new pending entry that is discarded.\<close>

lemma take_pending_id:
  assumes core: "nav_core s" and p: "objects (drop_all s) p = Some e"
    and q: "pending_entry_index s = -1" "pending_entry s = Some q" "objects s q = Some f"
    and e': "unique_id e' = unique_id f"
  shows "nav_core ((drop_all s)\<lparr>objects := (objects (drop_all s))(p \<mapsto> e')\<rparr>)"
proof -
  let ?s = "(drop_all s)\<lparr>objects := (objects (drop_all s))(p \<mapsto> e')\<rparr>"
  have d: "nav_core (drop_all s)" using core by (rule drop_all_ok)
  have d_ids: "ids_ok (drop_all s)" and ids: "ids_ok s" using d core by (simp_all add: nav_core_def)
  have sub: "objects (drop_all s) r = Some g \<Longrightarrow> objects s r = Some g \<and> r \<noteq> q" for r g
    using q by (auto simp: drop_all_def drop_transient_def drop_pending_def split: if_splits)
  have other: "unique_id g \<noteq> unique_id f" if "objects (drop_all s) r = Some g" for r g
    using sub [OF that] q(3) ids unfolding ids_ok_def by blast
  have "1 \<le> unique_id f \<and> unique_id f \<le> int (created s)" using ids q(3) by (auto simp: ids_ok_def)
  moreover have "p < created s" using ids sub [OF p] by (auto simp: ids_ok_def)
  ultimately have "ids_ok ?s"
    using d_ids other e' unfolding ids_ok_def by (auto split: if_splits; metis)
  moreover have "list_ok ?s" using d by (auto simp: nav_core_def list_ok_def)
  moreover have "pending_ok ?s" using d by (auto simp: nav_core_def pending_ok_def)
  ultimately show ?thesis using d by (simp add: nav_core_def)
qed

lemma insert_prepare:
  assumes core: "nav_core s" and p: "objects s p = Some e" "p \<notin> set (entries s)" "pending_entry s \<noteq> Some p"
  defines "s2 \<equiv> (drop_all s)\<lparr>objects := (objects (drop_all s))(p \<mapsto> takes_id s e)\<rparr>"
  shows "bindE (case pending_entry s of
          Some q \<Rightarrow> if pending_entry_index s = -1
            then bindE (deref q s) (\<lambda>pending. modify p (\<lambda>e. e\<lparr>unique_id := unique_id pending\<rparr>) s) else Inr s
        | None \<Rightarrow> Inr s) (DiscardNonCommittedEntriesInternal env) = Inr s2"
    and "settled s2" and "history s2 = history s"
proof -
  let ?s1 = "s\<lparr>objects := (objects s)(p \<mapsto> takes_id s e)\<rparr>"
  have l: "list_ok s" and pend: "pending_ok s" and nn: "\<not> in_navigate_to_pending_entry s"
    using core by (auto simp: nav_core_def)
  have first: "(case pending_entry s of
          Some q \<Rightarrow> if pending_entry_index s = -1
            then bindE (deref q s) (\<lambda>pending. modify p (\<lambda>e. e\<lparr>unique_id := unique_id pending\<rparr>) s) else Inr s
        | None \<Rightarrow> Inr s) = Inr ?s1"
  proof (cases "pending_entry s")
    case None then show ?thesis using p by (simp add: takes_id_def fun_upd_idem)
  next
    case (Some q)
    then obtain f where "objects s q = Some f" using pending_alive [OF pend] by blast
    then show ?thesis using Some p by (simp add: takes_id_def deref_ok modify_ok fun_upd_idem)
  qed
  have other: "transient_entry_index s \<noteq> -1 \<Longrightarrow> entries s ! nat (transient_entry_index s) \<noteq> p"
    using transient_in_list [OF l] p(2) by blast
  have drop: "drop_all ?s1 = s2" unfolding s2_def by (rule drop_all_modified [OF p(3) other])
  have l1: "list_ok ?s1" using l by (auto simp: list_ok_def)
  have pend1: "pending_ok ?s1" using pend by (auto simp: pending_ok_def split: option.splits)
  show "bindE (case pending_entry s of
          Some q \<Rightarrow> if pending_entry_index s = -1
            then bindE (deref q s) (\<lambda>pending. modify p (\<lambda>e. e\<lparr>unique_id := unique_id pending\<rparr>) s) else Inr s
        | None \<Rightarrow> Inr s) (DiscardNonCommittedEntriesInternal env) = Inr s2"
    unfolding first bindE_Inr drop [symmetric]
    by (rule DiscardNonCommittedEntriesInternal_weak [OF l1 pend1]) (use nn in simp)
  have sub: "set (committed_entries s) \<subseteq> set (entries s)" using l by (rule committed_entries_facts)
  have p_drop: "objects (drop_all s) p = Some e"
    using drop_all_other_objects [OF p(3) other] p(1) by simp
  have "nav_core s2"
  proof (cases "pending_entry_index s = -1 \<and> pending_entry s \<noteq> None")
    case False
    then have "takes_id s e = e" by (auto simp: takes_id_def)
    then show ?thesis using drop_all_ok [OF core] p_drop by (simp add: s2_def fun_upd_idem)
  next
    case True
    then obtain q f where q: "pending_entry s = Some q" "objects s q = Some f" using pending_alive [OF pend] by blast
    have "unique_id (takes_id s e) = unique_id f" using True q by (simp add: takes_id_def)
    then show ?thesis unfolding s2_def using take_pending_id [OF core p_drop _ q] True by blast
  qed
  then show "settled s2" using core by (simp add: settled_def s2_def)
  show "history s2 = history s"
    using history_drop_all [OF core] sub p(2) by (auto simp: s2_def history_def page_of_def)
qed

lemma append_settled:
  assumes s: "settled s" and p: "objects s p \<noteq> None" "p \<notin> set (entries s)" "pending_entry s \<noteq> Some p"
  defines "s' \<equiv> s\<lparr>entries := entries s @ [p], last_committed_entry_index := int (length (entries s))\<rparr>"
  shows "settled s'" "history s' = (fst (history s) @ [page_of s p], int (length (fst (history s))))"
proof -
  have "ids_ok s'" using s by (simp add: settled_def nav_core_def ids_ok_def s'_def)
  moreover have "list_ok s'" using s p by (auto simp: settled_def nav_core_def list_ok_def s'_def)
  moreover have "pending_ok s'" using s p
    by (auto simp: settled_def nav_core_def pending_ok_def s'_def split: option.splits)
  ultimately show "settled s'" using s by (simp add: settled_def nav_core_def s'_def)
  show "history s' = (fst (history s) @ [page_of s p], int (length (fst (history s))))"
    using s by (simp add: history_def settled_def s'_def page_of_def)
qed

lemma replace_settled:
  assumes s: "settled s" and p: "objects s p \<noteq> None" "p \<notin> set (entries s)" "pending_entry s \<noteq> Some p"
    and ne: "entries s \<noteq> []"
  defines "l \<equiv> last_committed_entry_index s"
  defines "s' \<equiv> (delete_object (entries s ! nat l) s)\<lparr>entries := (entries s)[nat l := p]\<rparr>"
  shows "settled s'" "history s' = ((fst (history s))[nat l := page_of s p], l)"
proof -
  have core: "nav_core s" and t: "transient_entry_index s = -1" using s by (simp_all add: settled_def)
  have l: "0 \<le> l" "l < int (length (entries s))" and d: "distinct (entries s)" and alive: "\<forall>q \<in> set (entries s). objects s q \<noteq> None"
    using core t ne by (auto simp: nav_core_def list_ok_def l_def)
  let ?old = "entries s ! nat l"
  have old: "?old \<in> set (entries s)" using l by (simp add: nat_less_iff)
  have set': "set ((entries s)[nat l := p]) = insert p (set (entries s) - {?old})"
    using d l by (intro set_update_distinct) (simp_all add: nat_less_iff)
  have "ids_ok s'" using core by (auto simp: nav_core_def ids_ok_def s'_def delete_object_def split: if_splits)
  moreover have "list_ok s'"
  proof -
    have "distinct ((entries s)[nat l := p])" using d p(2) by (intro distinct_list_update) auto
    moreover have "\<forall>q \<in> set (entries s'). objects s' q \<noteq> None"
      using alive p old set' by (auto simp: s'_def delete_object_def)
    moreover have "entries s' = (entries s)[nat l := p]" "last_committed_entry_index s' = l" "transient_entry_index s' = -1"
      using t by (simp_all add: s'_def l_def delete_object_def)
    ultimately show ?thesis using l unfolding list_ok_def by simp
  qed
  moreover have "pending_ok s'"
  proof (cases "pending_entry s")
    case None then show ?thesis using s by (simp add: settled_def pending_ok_def s'_def delete_object_def)
  next
    case (Some q)
    have "q \<notin> set (entries s)" using settled_pending [OF s Some] .
    moreover have "objects s q \<noteq> None" using core Some by (simp add: nav_core_def pending_ok_def)
    moreover have "q \<noteq> p" "q \<noteq> ?old" using p(3) Some old \<open>q \<notin> set (entries s)\<close> by auto
    moreover have "pending_entry_index s = -1" using s by (simp add: settled_def)
    ultimately show ?thesis using Some set' by (simp add: pending_ok_def s'_def delete_object_def)
  qed
  ultimately show "settled s'" using s by (simp add: settled_def nav_core_def s'_def delete_object_def)
  have "map (page_of s') ((entries s)[nat l := p]) = (map (page_of s) (entries s))[nat l := page_of s p]"
  proof (rule nth_equalityI)
    fix i assume i: "i < length (map (page_of s') ((entries s)[nat l := p]))"
    then have "i \<noteq> nat l \<Longrightarrow> entries s ! i \<noteq> ?old"
      using l nth_eq_iff_index_eq [OF d, of i "nat l"] by (simp add: nat_less_iff)
    moreover have "p \<noteq> ?old" using p old by blast
    ultimately show "map (page_of s') ((entries s)[nat l := p]) ! i = (map (page_of s) (entries s))[nat l := page_of s p] ! i"
      using i by (cases "i = nat l") (auto simp: s'_def page_of_def delete_object_def)
  qed simp
  then show "history s' = ((fst (history s))[nat l := page_of s p], l)"
    using t by (simp add: history_def s'_def l_def delete_object_def)
qed

end
