(* ===== verification/Nav_Insert.thy ===== *)
theory Nav_Insert
  imports Nav_Editing
begin

text \<open>
  A committed page enters the list (\<open>InsertOrReplaceEntry\<close>), and the remaining operations that change
  the list: a transient entry, reloading a tab that was restored, restoring one.
\<close>

subsection \<open>The entry of a new page\<close>

lemma PruneOldestEntryIfFull_ok:
  assumes s: "settled s" and id: "idle s" and none: "pending_entry s = None"
    and last: "last_committed_entry_index s = int (length (entries s)) - 1" and room: "2 \<le> max_entry_count env"
  defines "kept \<equiv> (if max_entry_count env \<le> length (entries s) then drop 1 (entries s) else entries s)"
  shows "\<exists>s'. PruneOldestEntryIfFull env s = Inr s' \<and> settled s' \<and> idle s' \<and> pending_entry s' = None \<and>
      entries s' = kept \<and> map (page_of s') (entries s') = map (page_of s) kept \<and>
      (\<forall>p. p \<notin> set (entries s) \<longrightarrow> objects s' p = objects s p)"
proof (cases "max_entry_count env \<le> length (entries s)")
  case False
  then show ?thesis using s id none by (intro exI [of _ s]) (simp add: PruneOldestEntryIfFull_def kept_def)
next
  case True
  let ?l = "last_committed_entry_index s"
  have core: "nav_core s" and t: "transient_entry_index s = -1" and pi: "pending_entry_index s = -1"
    using s by (simp_all add: settled_def)
  obtain evs where d: "DiscardNonCommittedEntries env s = Inr ((drop_all s)\<lparr>events := evs\<rparr>)"
    using DiscardNonCommittedEntries_ok [OF core] by blast
  have drop: "drop_all s = s\<lparr>failed_pending_entry_id := 0\<rparr>"
    using t none by (simp add: drop_all_def drop_transient_def drop_pending_def)
  let ?s = "(drop_all s)\<lparr>events := evs\<rparr>"
  have s2: "settled ?s" using s by (simp add: settled_def drop)
  have es: "entries ?s = entries s" "last_committed_entry_index ?s = ?l" by (simp_all add: drop)
  have i: "0 \<le> (0 :: int)" "0 < int (length (entries ?s))" "0 \<noteq> last_committed_entry_index ?s"
    using True room last es by auto
  define s3 where "s3 = shrink (remove_nth 0 (entries ?s)) (?l - 1) ?s"
  have "RemoveEntryAtIndex env 0 s = Inr (True, s3)"
    unfolding RemoveEntryAtIndex_def RemoveEntryAtIndexInternal_def d bindE_Inr erase_is_shrink [OF s2 i(1,2)] s3_def
    using i(3) es pi True room last by simp
  then have eq: "PruneOldestEntryIfFull env s = Inr (notify (NavListPruned True 1) s3)"
    using True by (simp add: PruneOldestEntryIfFull_def)
  have tail: "remove_nth 0 (entries s) = drop 1 (entries s)" by (simp add: remove_nth_def)
  have l0: "?l > 0" using last True room by simp
  have "settled s3" using shrink_remove(1) [OF s2 i] l0 es by (simp add: s3_def)
  moreover have "objects s3 p = objects s p" if "p \<notin> set (entries s)" for p
    using that es by (simp add: s3_def drop)
  moreover have "map (page_of s3) (drop 1 (entries s)) = map (page_of s) (drop 1 (entries s))"
    by (rule map_cong [OF refl]) (simp add: page_of_def s3_def es tail, simp add: drop)
  moreover have "entries s3 = drop 1 (entries s)" by (simp add: s3_def drop tail)
  moreover have "pending_entry s3 = None" "idle s3" using none id by (simp_all add: s3_def)
  moreover have "page_of (notify ev s3) = page_of s3" for ev by (simp add: page_of_def fun_eq_iff)
  moreover have "settled (notify ev s3) = settled s3" for ev by (simp add: settled_def)
  ultimately show ?thesis using True by (intro exI [of _ "notify (NavListPruned True 1) s3"]) (simp add: eq kept_def)
qed

lemma InsertOrReplaceEntry_ok:
  assumes core: "nav_core s" and id: "idle s" and p: "objects s p = Some e" "p \<notin> set (entries s)" "pending_entry s \<noteq> Some p"
    and room: "2 \<le> max_entry_count env"
  shows "safe {} (InsertOrReplaceEntry env p replace s) (\<lambda>s'. settled s' \<and> idle s' \<and> pending_entry s' = None \<and>
      last_committed_ptr s' = Some p \<and> objects s' p = Some (takes_id s e) \<and>
      history s' = insert_page (max_entry_count env) replace (Some (unique_id (takes_id s e), frame_tree e)) (history s))"
proof -
  define s2 where "s2 = (drop_all s)\<lparr>objects := (objects (drop_all s))(p \<mapsto> takes_id s e)\<rparr>"
  note prep = insert_prepare [OF core p, folded s2_def]
  have es: "entries s2 = committed_entries s" and none: "pending_entry s2 = None" and id2: "idle s2"
    and l2: "last_committed_entry_index s2 = last_committed_entry_index s" and p2: "objects s2 p = Some (takes_id s e)"
    using id by (simp_all add: s2_def)
  have p3: "p \<notin> set (entries s2)"
    using p(2) committed_entries_facts(1) core es by (auto simp: nav_core_def)
  have l: "list_ok s2" and t: "transient_entry_index s2 = -1" using prep(2) by (simp_all add: settled_def nav_core_def)
  have page: "page_of s2 p = Some (unique_id (takes_id s e), frame_tree e)" using p2 by (simp add: page_of_def)
  have hist: "history s = (map (page_of s2) (entries s2), last_committed_entry_index s2)"
    using prep(3) t by (simp add: history_def)
  define kont where "kont = (\<lambda>s2. let current_size = int (length (entries s2)) in
       if replace \<and> current_size > 0
       then bindE (entry_ptr_at (last_committed_entry_index s2) s2) (\<lambda>old.
              Inr ((delete_object old s2)\<lparr>entries := (entries s2)[nat (last_committed_entry_index s2) := p]\<rparr>))
       else
         let num_pruned = (if current_size > 0 then current_size - 1 - last_committed_entry_index s2 else 0);
             s3 = (if num_pruned > 0
                   then notify (NavListPruned False num_pruned) (prune_forward (nat num_pruned) s2) else s2)
         in bindE (PruneOldestEntryIfFull env s3) (\<lambda>s4.
              let s5 = s4\<lparr>entries := entries s4 @ [p]\<rparr>
              in Inr (s5\<lparr>last_committed_entry_index := int (length (entries s5)) - 1\<rparr>)))"
  have assoc: "bindE (bindE m f) g = bindE m (\<lambda>x. bindE (f x) g)" for m :: "nav_error + nav_controller" and f g
    by (cases m) simp_all
  have eq: "InsertOrReplaceEntry env p replace s = kont s2"
    unfolding InsertOrReplaceEntry_def kont_def [symmetric] using arg_cong [OF prep(1) [of env], of "\<lambda>m. bindE m kont"]
    unfolding assoc by simp
  show ?thesis
  proof (cases "replace \<and> entries s2 \<noteq> []")
    case True
    let ?l = "last_committed_entry_index s2"
    have l': "0 \<le> ?l" "?l < int (length (entries s2))" using l t True by (auto simp: list_ok_def)
    note r = replace_settled [OF prep(2) _ p3 _ conjunct2 [OF True]]
    have "kont s2 = Inr ((delete_object (entries s2 ! nat ?l) s2)\<lparr>entries := (entries s2)[nat ?l := p]\<rparr>)"
      using True by (simp add: kont_def Let_def entry_ptr_at_ok [OF l'])
    moreover have "(entries s2)[nat ?l := p] ! nat ?l = p" using l' by (simp add: nat_less_iff)
    moreover have "entries s2 ! nat ?l \<noteq> p" using p3 l' by (metis nat_less_iff nth_mem)
    ultimately show ?thesis
      unfolding eq using r l' none id2 p2 True hist page prep(3)
      by (simp add: last_committed_ptr_def insert_page_def) (simp add: delete_object_def)
  next
    case False
    let ?l = "last_committed_entry_index s2" and ?n = "length (entries s2)"
    let ?kept = "take (nat (?l + 1)) (entries s2)"
    define num where "num = (if int ?n > 0 then int ?n - 1 - ?l else 0)"
    define s3 where "s3 = (if num > 0 then notify (NavListPruned False num) (prune_forward (nat num) s2) else s2)"
    have range: "-1 \<le> ?l" "?l < int ?n" "?l = -1 \<longleftrightarrow> entries s2 = []" using l t by (auto simp: list_ok_def)
    have klen: "int (length ?kept) = ?l + 1" using range by auto
    have s3: "settled s3 \<and> idle s3 \<and> pending_entry s3 = None \<and> entries s3 = ?kept \<and>
        last_committed_entry_index s3 = ?l \<and> (\<forall>q. q \<notin> set (entries s2) \<or> q \<in> set ?kept \<longrightarrow> objects s3 q = objects s2 q)"
    proof (cases "num > 0")
      case True
      then have lne: "?l \<noteq> -1" and n: "nat num = ?n - nat (?l + 1)" using range by (auto simp: num_def split: if_splits)
      have sh: "prune_forward (nat num) s2 = shrink ?kept ?l s2"
        using prune_forward_shrink [OF prep(2) n lne] .
      have sub: "set ?kept \<subseteq> set (entries s2)" by (rule set_take_subset)
      have d: "distinct ?kept" using l by (simp add: list_ok_def)
      have "settled (shrink ?kept ?l s2)"
        by (rule shrink_settled [OF prep(2) sub d]) (use range(1,3) klen lne in auto)
      moreover have "settled (notify ev x) = settled x" for ev x by (simp add: settled_def)
      moreover have "objects (shrink ?kept ?l s2) q = objects s2 q" if "q \<notin> set (entries s2) \<or> q \<in> set ?kept" for q
        using that by (auto simp: shrink_def)
      ultimately show ?thesis using True none id2 by (simp add: s3_def sh)
    next
      case False
      then have "?kept = entries s2" using range by (auto simp: num_def split: if_splits)
      then show ?thesis using False prep(2) none id2 by (simp add: s3_def)
    qed
    define kept' where "kept' = (if max_entry_count env \<le> length ?kept then drop 1 ?kept else ?kept)"
    obtain s4 where s4: "PruneOldestEntryIfFull env s3 = Inr s4" "settled s4" "idle s4" "pending_entry s4 = None"
      "entries s4 = kept'" "map (page_of s4) (entries s4) = map (page_of s3) kept'"
      "\<And>q. q \<notin> set (entries s3) \<Longrightarrow> objects s4 q = objects s3 q"
      using PruneOldestEntryIfFull_ok [of s3 env] s3 room klen unfolding kept'_def by auto
    have sub': "set kept' \<subseteq> set ?kept" by (auto simp: kept'_def dest: in_set_dropD)
    have pages: "map (page_of s3) kept' = map (page_of s2) kept'"
      using sub' s3 by (intro map_cong [OF refl]) (auto simp: page_of_def)
    have p_kept: "p \<notin> set ?kept" using p3 by (meson in_set_takeD)
    then have p4: "objects s4 p = Some (takes_id s e)" using s4(7) [of p] s3 p3 p2 by auto
    have p4': "p \<notin> set (entries s4)" using p_kept sub' s4(5) by auto
    define s5 where "s5 = s4\<lparr>entries := entries s4 @ [p], last_committed_entry_index := int (length (entries s4))\<rparr>"
    have a: "settled s5" "history s5 = (fst (history s4) @ [page_of s4 p], int (length (fst (history s4))))"
      unfolding s5_def by (rule append_settled [OF s4(2)]; use p4 p4' s4(4) in simp)+
    have kont_eq: "kont s2 = Inr s5"
      unfolding kont_def Let_def num_def [symmetric] s3_def [symmetric] s4(1) using False by (auto simp: s5_def)
    have "history s5 = insert_page (max_entry_count env) replace (page_of s2 p) (history s)"
    proof -
      have k: "map (page_of s2) kept' = (if max_entry_count env \<le> length ?kept then drop 1 (map (page_of s2) ?kept)
          else map (page_of s2) ?kept)"
        by (simp add: kept'_def drop_map)
      have "fst (history s4) = map (page_of s2) kept'"
        using s4(2,5,6) pages by (simp add: history_def settled_def)
      moreover have "page_of s4 p = page_of s2 p" using p4 p2 by (simp add: page_of_def)
      ultimately show ?thesis
        using a(2) False k by (auto simp: insert_page_def hist take_map Let_def)
    qed
    moreover have "last_committed_ptr s5 = Some p" by (simp add: last_committed_ptr_def s5_def)
    ultimately show ?thesis
      unfolding eq kont_eq using a(1) s4(3,4) p4 page by (simp add: s5_def)
  qed
qed

subsection \<open>Transient entries\<close>

lemma SetTransientEntry_ok:
  assumes ok: "nav_ok s" and p: "objects s p \<noteq> None" "p \<notin> set (entries s)" "pending_entry s \<noteq> Some p"
  shows "safe {} (SetTransientEntry p s) (\<lambda>s'. keeps_history s s' \<and> GetTransientEntry s' = Inr (Some p))"
proof -
  have core: "nav_core s" and id: "idle s" using ok by (simp_all add: nav_ok_def)
  have l: "list_ok s" using core by (rule nav_core_parts)
  define s1 where "s1 = drop_transient s"
  have core1: "nav_core s1" using core by (simp add: s1_def drop_transient_ok)
  have t1: "transient_entry_index s1 = -1" by (simp add: s1_def drop_transient_def)
  have es: "entries s1 = committed_entries s" "last_committed_entry_index s1 = last_committed_entry_index s"
    "pending_entry s1 = pending_entry s" "idle s1"
    using id by (simp_all add: s1_def drop_transient_def committed_entries_def)
  have p1: "objects s1 p \<noteq> None" "p \<notin> set (entries s1)" "pending_entry s1 \<noteq> Some p"
  proof -
    have "transient_entry_index s \<noteq> -1 \<Longrightarrow> entries s ! nat (transient_entry_index s) \<noteq> p"
      using transient_in_list [OF l] p(2) by blast
    then show "objects s1 p \<noteq> None" using p(1) by (auto simp: s1_def drop_transient_def)
    show "p \<notin> set (entries s1)" using committed_entries_facts(1) [OF l] es(1) p(2) by auto
    show "pending_entry s1 \<noteq> Some p" using p(3) es(3) by simp
  qed
  define i where "i = last_committed_entry_index s1 + 1"
  have l1: "list_ok s1" and ids1: "ids_ok s1" and pend1: "pending_ok s1" using core1 by (auto simp: nav_core_def)
  have i: "0 \<le> i" "i \<le> int (length (entries s1))" using l1 by (auto simp: list_ok_def i_def)
  define s2 where "s2 = s1\<lparr>entries := take (nat i) (entries s1) @ p # drop (nat i) (entries s1),
      pending_entry_index := (if pending_entry_index s1 \<ge> i then pending_entry_index s1 + 1 else pending_entry_index s1),
      transient_entry_index := i\<rparr>"
  have ni: "nat i \<le> length (entries s1)" using i by simp
  have set2: "set (entries s2) = insert p (set (entries s1))"
    unfolding s2_def by simp (metis append_take_drop_id set_append)
  have "list_ok s2"
  proof -
    have "distinct (entries s2)"
      using l1 p1(2) distinct_take [of "entries s1" "nat i"] distinct_drop [of "entries s1" "nat i"]
        set_take_disj_set_drop_if_distinct [of "entries s1" "nat i" "nat i"]
      by (auto simp: s2_def list_ok_def dest: in_set_takeD in_set_dropD)
    moreover have "\<forall>q \<in> set (entries s2). objects s2 q \<noteq> None"
      using l1 p1(1) unfolding set2 by (simp add: s2_def list_ok_def)
    moreover have "length (entries s2) = Suc (length (entries s1))" using ni by (simp add: s2_def)
    ultimately show ?thesis using l1 t1 i unfolding list_ok_def by (auto simp: s2_def i_def)
  qed
  moreover have "pending_ok s2"
  proof (cases "pending_entry s1")
    case None then show ?thesis using pend1 i by (simp add: pending_ok_def s2_def)
  next
    case (Some q)
    show ?thesis
    proof (cases "pending_entry_index s1 = -1")
      case True
      then show ?thesis using pend1 Some i p1(3) set2 by (auto simp: pending_ok_def s2_def)
    next
      case False
      let ?j = "pending_entry_index s1"
      have j: "0 \<le> ?j" "?j < int (length (entries s1))" "entries s1 ! nat ?j = q \<or> q \<notin> set (entries s1)"
        "objects s1 q \<noteq> None"
        using pend1 Some False by (auto simp: pending_ok_def)
      have "entries s2 ! nat (if ?j \<ge> i then ?j + 1 else ?j) = entries s1 ! nat ?j"
      proof (cases "?j \<ge> i")
        case True
        then have "nat (?j + 1) = Suc (nat ?j)" "nat i \<le> nat ?j" using j i by simp_all
        then show ?thesis using True j ni by (simp add: s2_def nth_append min_absorb2 Suc_diff_le nat_less_iff)
      next
        case False
        then have "nat ?j < nat i" using j by simp
        then show ?thesis using False j ni by (simp add: s2_def nth_append min_absorb2)
      qed
      moreover have "length (entries s2) = Suc (length (entries s1))" using ni by (simp add: s2_def)
      moreover have "pending_entry_index s2 = (if ?j \<ge> i then ?j + 1 else ?j)" "pending_entry s2 = Some q"
        "transient_entry_index s2 = i" "objects s2 q \<noteq> None"
        using Some j by (simp_all add: s2_def)
      moreover have "q \<noteq> p" using p1(3) Some by blast
      ultimately show ?thesis using j i set2 by (auto simp: pending_ok_def)
    qed
  qed
  moreover have "ids_ok s2" using ids1 by (simp add: ids_ok_def s2_def)
  ultimately have core2: "nav_core s2" using core1 by (simp add: nav_core_def s2_def)
  have com: "committed_entries s2 = entries s1"
    using i ni by (simp add: committed_entries_def s2_def remove_nth_def min_absorb2)
  have h1: "history s1 = history s"
  proof -
    have "page_of s1 q = page_of s q" if "q \<in> set (committed_entries s)" for q
    proof -
      have "distinct (entries s)" using l by (simp add: list_ok_def)
      then have "transient_entry_index s \<noteq> -1 \<Longrightarrow> q \<noteq> entries s ! nat (transient_entry_index s)"
        using that l set_remove_nth [of "transient_entry_index s" "entries s"]
        by (auto simp: committed_entries_def list_ok_def)
      then show ?thesis by (auto simp: page_of_def s1_def drop_transient_def)
    qed
    then show ?thesis using t1 es by (simp add: history_def)
  qed
  have "history s2 = history s1" using com t1 by (simp add: history_def page_of_def fun_eq_iff, simp add: s2_def)
  then have k: "keeps_history s (notify StateChangedAll s2)"
    using core2 es(4) h1 by (simp add: keeps_history_def nav_ok_def, simp add: s2_def idle_def)
  have "SetTransientEntry p s = Inr (notify StateChangedAll s2)"
    using DiscardTransientEntry_ok [OF l] i es(2) unfolding s1_def [symmetric]
    by (auto simp: SetTransientEntry_def insert_entry_def i_def s2_def Let_def)
  moreover have "GetTransientEntry (notify StateChangedAll s2) = Inr (Some p)"
    using i ni by (simp add: GetTransientEntry_def entry_ptr_at_def s2_def nth_append min_absorb2)
  ultimately show ?thesis using k by simp
qed

subsection \<open>Restored tabs\<close>

lemma SetNeedsReload_keeps:
  assumes ok: "nav_ok s" shows "safe {} (SetNeedsReload s) (keeps_history s)"
proof (cases "last_committed_entry_index s = -1")
  case True then show ?thesis using ok by (simp add: SetNeedsReload_def keeps_history_def nav_ok_def Let_def)
next
  case False
  let ?s = "s\<lparr>needs_reload := True\<rparr>"
  have core: "nav_core ?s" using ok by (simp add: nav_ok_def)
  have l: "0 \<le> last_committed_entry_index ?s" "last_committed_entry_index ?s < int (length (entries ?s))"
    using nav_core_parts(2) [OF core] False by (auto simp: list_ok_def)
  let ?p = "entries s ! nat (last_committed_entry_index s)"
  have "?p \<in> set (entries s)" using l by (simp add: nat_less_iff)
  then obtain e where e: "objects ?s ?p = Some e" using nav_core_parts(2) [OF core] by (auto simp: list_ok_def)
  note k = modify_keeps [OF core e, of "e\<lparr>transition_type := plain TRANSITION_RELOAD\<rparr>"]
  show ?thesis
    using k ok False entry_ptr_at_ok [OF l] modify_ok [OF e]
    by (simp add: SetNeedsReload_def Let_def keeps_history_def nav_ok_def)
qed

lemma LoadIfNecessary_keeps:
  assumes ok: "nav_ok s" shows "safe {} (LoadIfNecessary env s) (keeps_history s)"
proof -
  have core: "nav_core s" and id: "idle s" using ok by (simp_all add: nav_ok_def)
  have l: "list_ok s" using core by (rule nav_core_parts)
  consider "\<not> needs_reload s" | p where "needs_reload s" "pending_entry s = Some p"
    | "needs_reload s" "pending_entry s = None" "last_committed_entry_index s \<noteq> -1"
    | "needs_reload s" "pending_entry s = None" "last_committed_entry_index s = -1" by blast
  then show ?thesis
  proof cases
    case 1 then show ?thesis using ok by (simp add: LoadIfNecessary_def keeps_history_def)
  next
    case 2
    have eq: "LoadIfNecessary env s = NavigateToPendingEntry env RELOAD_NONE s"
      using 2 by (simp add: LoadIfNecessary_def)
    show ?thesis unfolding eq
      by (rule NavigateToPendingEntry_keeps [OF core 2(2) idle_last_pending [OF id]]) (rule id)
  next
    case 3
    let ?i = "last_committed_entry_index s" and ?p = "entries s ! nat (last_committed_entry_index s)"
    let ?s = "s\<lparr>pending_entry := Some ?p, pending_entry_index := ?i\<rparr>"
    have lc: "-1 \<le> ?i \<and> ?i < int (length (entries s)) \<and>
        (transient_entry_index s = -1 \<or> transient_entry_index s = ?i + 1)"
      using l unfolding list_ok_def by blast
    then have i: "0 \<le> ?i" "?i < int (length (entries s))" "?i \<noteq> transient_entry_index s"
      using 3(3) by linarith+
    have "nav_core ?s" using set_pending_at [OF core i(1,2) refl i(3)] .
    then have "safe {} (NavigateToPendingEntry env RELOAD_NONE ?s) (keeps_history ?s)"
      using id by (intro NavigateToPendingEntry_keeps [where p = ?p] idle_last_pending) simp_all
    moreover have "keeps_history ?s = keeps_history s" by (intro keeps_history_cong) simp
    ultimately show ?thesis using 3 i by (simp add: LoadIfNecessary_def entry_ptr_at_ok)
  next
    case 4 then show ?thesis using ok by (simp add: LoadIfNecessary_def keeps_history_def nav_ok_def)
  qed
qed

lemma SetActive_keeps: "nav_ok s \<Longrightarrow> safe {} (SetActive env active s) (keeps_history s)"
  using LoadIfNecessary_keeps [of s env] by (simp add: SetActive_def keeps_history_def)

end
