(* ===== verification/Nav_Commit_Lemmas.thy ===== *)
theory Nav_Commit_Lemmas
  imports Nav_Insert
begin

text \<open>
  Commits keep the invariant: each handler of a class of commits leaves a settled list with a current
  entry, whatever the renderer reports as long as it does not name the transient entry or an entry
  that is gone.
\<close>

subsection \<open>Looking entries up\<close>

lemma GetIndexOfEntry_absent: "p \<notin> set (entries s) \<Longrightarrow> GetIndexOfEntry (Some p) s = -1"
  by (auto simp: GetIndexOfEntry_def find_None_iff split: option.split dest: nth_mem)

lemma GetIndexOfEntry_nth:
  assumes d: "distinct (entries s)" and i: "0 \<le> i" "i < int (length (entries s))"
  shows "GetIndexOfEntry (Some (entries s ! nat i)) s = i"
proof -
  have n: "nat i < length (entries s)" using i by (simp add: nat_less_iff)
  have "find (\<lambda>k. Some (entries s ! k) = Some (entries s ! nat i)) [0..<length (entries s)] = Some (nat i)"
    unfolding find_Some_iff
    by (rule exI [of _ "nat i"]) (use n d in \<open>auto simp: nth_eq_iff_index_eq\<close>)
  then show ?thesis using i by (simp add: GetIndexOfEntry_def)
qed

lemma entry_index_cases:
  obtains (none) "GetEntryIndexWithUniqueID uid s = -1"
      "\<And>i. i < length (entries s) \<Longrightarrow> map_option unique_id (objects s (entries s ! i)) \<noteq> Some uid"
    | (found) i where "i < length (entries s)" "GetEntryIndexWithUniqueID uid s = int i"
      "map_option unique_id (objects s (entries s ! i)) = Some uid"
proof (cases "find (\<lambda>i. map_option unique_id (objects s (entries s ! i)) = Some uid) (rev [0..<length (entries s)])")
  case None
  show ?thesis
  proof (rule none)
    show "GetEntryIndexWithUniqueID uid s = -1" unfolding GetEntryIndexWithUniqueID_def None by simp
    show "map_option unique_id (objects s (entries s ! i)) \<noteq> Some uid" if "i < length (entries s)" for i
      using None that unfolding find_None_iff by simp
  qed
next
  case (Some i)
  have "i < length (entries s) \<and> map_option unique_id (objects s (entries s ! i)) = Some uid"
    using Some unfolding find_Some_iff by (auto simp: rev_nth)
  moreover have "GetEntryIndexWithUniqueID uid s = int i" unfolding GetEntryIndexWithUniqueID_def Some by simp
  ultimately show ?thesis using found by blast
qed

lemma entry_index_cong:
  assumes "entries s' = entries s" "\<And>p. map_option unique_id (objects s' p) = map_option unique_id (objects s p)"
  shows "GetEntryIndexWithUniqueID uid s' = GetEntryIndexWithUniqueID uid s"
  using assms by (simp add: GetEntryIndexWithUniqueID_def)

definition committed_index :: "nav_controller \<Rightarrow> int \<Rightarrow> int" where
  "committed_index s j = (if transient_entry_index s \<noteq> -1 \<and> j > transient_entry_index s then j - 1 else j)"

lemma committed_index_ok:
  assumes l: "list_ok s" and j: "0 \<le> j" "j < int (length (entries s))" "j \<noteq> transient_entry_index s"
  shows "0 \<le> committed_index s j" "committed_index s j < int (length (committed_entries s))"
    and "committed_entries s ! nat (committed_index s j) = entries s ! nat j"
proof -
  have t: "transient_entry_index s \<noteq> -1 \<Longrightarrow>
      0 \<le> transient_entry_index s \<and> transient_entry_index s < int (length (entries s))"
    using l by (auto simp: list_ok_def)
  show low: "0 \<le> committed_index s j" using j t by (auto simp: committed_index_def)
  show high: "committed_index s j < int (length (committed_entries s))"
    using j t length_remove_nth [of "transient_entry_index s" "entries s"]
    by (auto simp: committed_index_def committed_entries_def)
  show "committed_entries s ! nat (committed_index s j) = entries s ! nat j"
  proof (cases "transient_entry_index s = -1")
    case True then show ?thesis by (simp add: committed_index_def)
  next
    case False
    let ?t = "transient_entry_index s"
    have "nat (committed_index s j) < length (entries s) - 1"
      using high low t [OF False] False length_remove_nth [of ?t "entries s"]
      by (simp add: committed_entries_def nat_less_iff)
    from nth_remove_nth [OF _ _ this, of ?t] show ?thesis
      using j t [OF False] False
      by (auto simp: committed_entries_def committed_index_def Suc_nat_eq_nat_zadd1 split: if_splits)
  qed
qed

lemma pending_ok_move [simp]: "pending_ok (s\<lparr>last_committed_entry_index := j\<rparr>) = pending_ok s"
  by (simp add: pending_ok_def cong: option.case_cong)

lemma move_index:
  assumes s: "settled s" and j: "0 \<le> j" "j < int (length (entries s))"
  shows "settled (s\<lparr>last_committed_entry_index := j\<rparr>)" "history (s\<lparr>last_committed_entry_index := j\<rparr>) = (fst (history s), j)"
    and "last_committed_ptr (s\<lparr>last_committed_entry_index := j\<rparr>) = Some (entries s ! nat j)"
proof -
  show "settled (s\<lparr>last_committed_entry_index := j\<rparr>)"
    using s j by (auto simp: settled_def nav_core_def ids_ok_def list_ok_def pending_ok_def split: option.splits)
  show "history (s\<lparr>last_committed_entry_index := j\<rparr>) = (fst (history s), j)"
    by (simp add: history_def page_of_def)
  show "last_committed_ptr (s\<lparr>last_committed_entry_index := j\<rparr>) = Some (entries s ! nat j)"
    using j by (simp add: last_committed_ptr_def)
qed

lemma discard_with_index:
  assumes core: "nav_core s" and j: "0 \<le> j" "j < int (length (entries s))"
  shows "DiscardNonCommittedEntriesInternal env (s\<lparr>last_committed_entry_index := j\<rparr>) =
     Inr ((drop_all s)\<lparr>last_committed_entry_index := committed_index s j\<rparr>)"
proof -
  have l: "list_ok s" and pend: "pending_ok s" and nn: "\<not> in_navigate_to_pending_entry s"
    using core by (auto simp: nav_core_def)
  have t: "transient_entry_index s \<noteq> -1 \<Longrightarrow>
      0 \<le> transient_entry_index s \<and> transient_entry_index s < int (length (entries s))"
    using l by (auto simp: list_ok_def)
  have pend1: "pending_ok (s\<lparr>last_committed_entry_index := j\<rparr>)" using pend by simp
  have "DiscardPendingEntry env False (s\<lparr>last_committed_entry_index := j\<rparr>) =
      Inr ((drop_pending 0 s)\<lparr>last_committed_entry_index := j\<rparr>)"
    using DiscardPendingEntry_ok [OF pend1, of env False] nn
    by (simp add: failed_id_def drop_pending_def split: option.splits)
  moreover have "DiscardTransientEntry ((drop_pending 0 s)\<lparr>last_committed_entry_index := j\<rparr>) =
      Inr ((drop_all s)\<lparr>last_committed_entry_index := committed_index s j\<rparr>)"
  proof (cases "transient_entry_index s = -1")
    case True
    then have "transient_entry_index (drop_pending 0 s) = -1" by (simp add: drop_pending_def split: option.split)
    then show ?thesis using True
      by (simp add: DiscardTransientEntry_def drop_all_def drop_transient_def committed_index_def)
  next
    case False
    have "transient_entry_index (drop_pending 0 s) = transient_entry_index s"
      "entries (drop_pending 0 s) = entries s" by (simp_all add: drop_pending_def split: option.split)
    then show ?thesis using t [OF False] False j
      by (auto simp: DiscardTransientEntry_def erase_entry_ok drop_all_def drop_transient_def committed_index_def
          delete_object_def Let_def)
  qed
  ultimately show ?thesis by (simp add: DiscardNonCommittedEntriesInternal_def)
qed

lemma settled_modify:
  assumes s: "settled s" and e: "objects s p = Some e" "unique_id e' = unique_id e"
  shows "settled (s\<lparr>objects := (objects s)(p \<mapsto> e')\<rparr>)"
  using modify_keeps(1) [of s p e e'] s e by (simp add: settled_def)

lemma history_modify:
  assumes s: "nav_core s" and i: "i < length (committed_entries s)" "committed_entries s ! i = p"
  shows "history (s\<lparr>objects := (objects s)(p \<mapsto> e')\<rparr>) =
     ((fst (history s))[i := Some (unique_id e', frame_tree e')], last_committed_entry_index s)"
proof -
  have d: "distinct (committed_entries s)" using s committed_entries_facts(2) by (simp add: nav_core_def)
  have "map (page_of (s\<lparr>objects := (objects s)(p \<mapsto> e')\<rparr>)) (committed_entries s) =
      (map (page_of s) (committed_entries s))[i := Some (unique_id e', frame_tree e')]"
    by (rule nth_equalityI) (use i d in \<open>auto simp: page_of_def nth_list_update nth_eq_iff_index_eq\<close>)
  then show ?thesis by (simp add: history_def)
qed

subsection \<open>What the handlers make of an entry\<close>

lemma root_update_at: "frame_entry (update_at path g t) = (if path = [] then frame_entry (g t) else frame_entry t)"
  by (cases path; cases t) simp_all

lemma update_frame_entry_root:
  assumes "\<And>fe. h (k fe) = h fe"
  shows "h (root_entry (update_frame_entry f k e)) = h (root_entry e)"
  using assms by (auto simp: update_frame_entry_def root_update_at split: option.split)

lemmas root_simps = GetURL_def SetURL_def SetReferrer_def SetVirtualURL_def set_site_instance_def
  entry_site_instance_def update_root_def

lemma UpdateVirtualURL_root [simp]:
  "frame_tree (UpdateVirtualURLToURL env u e) = frame_tree e" "unique_id (UpdateVirtualURLToURL env u e) = unique_id e"
  by (auto simp: UpdateVirtualURLToURL_def SetVirtualURL_def split: option.split)

lemma finish_new_page_facts:
  "unique_id (finish_new_page env rfh params sd lc b) = unique_id (fst b)"
  "GetURL (finish_new_page env rfh params sd lc b) = c_url params"
  "entry_site_instance (finish_new_page env rfh params sd lc b) = rfh_site_instance rfh"
  by (auto simp: finish_new_page_def Let_def GetURL_def entry_site_instance_def split: prod.split option.split)
    (simp_all add: update_frame_entry_root [where h = fne_url] update_frame_entry_root [where h = fne_site_instance]
      SetURL_def SetReferrer_def set_site_instance_def update_root_def)

lemma new_page_base_id: "unique_id (fst (new_page_base env rfh params sd h lc pend pi uid)) = uid"
  by (auto simp: new_page_base_def Let_def split: option.split)

lemma finish_existing_page_id [simp]: "unique_id (finish_existing_page env rfh params sd e) = unique_id e"
  by (simp add: finish_existing_page_def Let_def)

lemma finish_same_page_id [simp]: "unique_id (finish_same_page env rfh params h pending e) = unique_id pending"
  by (simp add: finish_same_page_def Let_def)

lemma finish_committed_entry_id [simp]: "unique_id (finish_committed_entry env rfh params h t e) = unique_id e"
  by (simp add: finish_committed_entry_def block_entry_def Let_def)

subsection \<open>The handlers\<close>

definition committed_state :: "nav_controller \<Rightarrow> bool" where
  "committed_state s \<longleftrightarrow> settled s \<and> idle s \<and> pending_entry s = None \<and> last_committed_ptr s \<noteq> None"

lemma NewPage_ok:
  assumes core: "nav_core s" and id: "idle s" and room: "2 \<le> max_entry_count env"
  shows "safe {} (RendererDidNavigateToNewPage env rfh params sd rp h s) (\<lambda>s'. committed_state s' \<and>
    (\<exists>p e. last_committed_ptr s' = Some p \<and> objects s' p = Some e \<and> GetURL e = c_url params \<and>
       entry_site_instance e = rfh_site_instance rfh \<and>
       history s' = insert_page (max_entry_count env) rp (Some (unique_id e, frame_tree e))
         (if history_list_was_cleared params then ([], -1) else history s)))"
proof -
  have l: "list_ok s" and pend: "pending_ok s" using core by (auto simp: nav_core_def)
  obtain lc pe where lc: "deref_option (last_committed_ptr s) s = Inr lc" and pe: "deref_option (pending_entry s) s = Inr pe"
    using deref_option_ok [of "last_committed_ptr s" s] deref_option_ok [of "pending_entry s" s]
      last_committed_alive [OF l] pending_alive [OF pend] by (metis option.distinct(1))
  define mk where "mk = (\<lambda>uid. finish_new_page env rfh params sd lc
           (new_page_base env rfh params sd h lc pe (pending_entry_index s) uid))"
  obtain p s1 where new: "new_object mk s = (p, s1)" by fastforce
  have mk: "unique_id (mk uid) = uid" "GetURL (mk uid) = c_url params"
      "entry_site_instance (mk uid) = rfh_site_instance rfh" for uid
    by (simp_all add: mk_def finish_new_page_facts new_page_base_id)
  note made = new_keeps [OF core mk(1) new]
  let ?e = "mk (int (created s) + 1)"
  define s2 where "s2 = (if history_list_was_cleared params then shrink [] (-1) (drop_all s1) else s1)"
  have cleared: "(if history_list_was_cleared params
               then bindE (DiscardNonCommittedEntriesInternal env s1) (\<lambda>s2.
                 Inr ((delete_objects (entries s2) s2)\<lparr>entries := [], last_committed_entry_index := -1\<rparr>))
               else Inr s1) = Inr s2"
    using DiscardNonCommittedEntriesInternal_ok [OF made(1)]
    by (simp add: s2_def shrink_def delete_objects_eq)
  have eq: "RendererDidNavigateToNewPage env rfh params sd rp h s = InsertOrReplaceEntry env p rp s2"
    unfolding RendererDidNavigateToNewPage_def GetLastCommittedEntry_ok [OF l] bindE_Inr lc pe mk_def [symmetric] new
    by (simp add: cleared)
  have s2: "nav_core s2 \<and> idle s2 \<and> objects s2 p = Some ?e \<and> p \<notin> set (entries s2) \<and> pending_entry s2 \<noteq> Some p \<and>
      history s2 = (if history_list_was_cleared params then ([], -1) else history s)"
  proof (cases "history_list_was_cleared params")
    case False then show ?thesis using made id by (simp add: s2_def)
  next
    case True
    have "settled (drop_all s1)" using made(1) by (rule settled_drop_all)
    note sh = shrink_settled [OF this, of "[]" "-1", simplified]
    have "p \<notin> set (committed_entries s1)" using made(3) committed_entries_facts(1) [OF nav_core_parts(2) [OF made(1)]] by blast
    moreover have "objects (drop_all s1) p = objects s1 p"
      using drop_all_other_objects [OF made(4)] transient_in_list [OF nav_core_parts(2) [OF made(1)]] made(3) by metis
    ultimately show ?thesis using True sh made id by (simp add: s2_def settled_def)
  qed
  have "safe {} (InsertOrReplaceEntry env p rp s2) (\<lambda>s'. settled s' \<and> idle s' \<and> pending_entry s' = None \<and>
      last_committed_ptr s' = Some p \<and> objects s' p = Some (takes_id s2 ?e) \<and>
      history s' = insert_page (max_entry_count env) rp (Some (unique_id (takes_id s2 ?e), frame_tree ?e)) (history s2))"
    by (rule InsertOrReplaceEntry_ok) (use s2 room in auto)
  moreover have "GetURL (takes_id s2 ?e) = GetURL ?e" "entry_site_instance (takes_id s2 ?e) = entry_site_instance ?e"
    by (simp_all add: GetURL_def entry_site_instance_def)
  ultimately show ?thesis
    unfolding eq using s2 mk(2,3) by (auto elim!: safe_mono simp: committed_state_def)
qed

lemma current_entry:
  assumes core: "nav_core s" and some: "last_committed_ptr s = Some p"
  shows "0 \<le> last_committed_entry_index s" "last_committed_entry_index s < int (length (entries s))"
    and "entries s ! nat (last_committed_entry_index s) = p" "p \<in> set (committed_entries s)"
    and "last_committed_entry_index s \<noteq> transient_entry_index s"
    and "committed_entries s ! nat (last_committed_entry_index s) = p"
    and "committed_index s (last_committed_entry_index s) = last_committed_entry_index s"
proof -
  let ?i = "last_committed_entry_index s"
  have l: "list_ok s" using core by (rule nav_core_parts)
  then have range: "-1 \<le> ?i \<and> ?i < int (length (entries s)) \<and>
      (transient_entry_index s = -1 \<or> transient_entry_index s = ?i + 1)" unfolding list_ok_def by blast
  moreover have "?i \<noteq> -1" "p = entries s ! nat ?i" using some by (auto simp: last_committed_ptr_def split: if_splits)
  ultimately show i: "0 \<le> ?i" "?i < int (length (entries s))" "entries s ! nat ?i = p" "?i \<noteq> transient_entry_index s"
    by (linarith, linarith, metis, linarith)
  have "\<not> (transient_entry_index s \<noteq> -1 \<and> ?i > transient_entry_index s)" using range by linarith
  then show c: "committed_index s ?i = ?i" unfolding committed_index_def by (rule if_not_P)
  note ci = committed_index_ok [OF l i(1,2,4), unfolded c]
  show "committed_entries s ! nat ?i = p" using ci(3) i(3) by simp
  then show "p \<in> set (committed_entries s)" using ci(1,2) by (metis nat_less_iff nth_mem)
qed

end
