(* ===== verification/Nav_Handlers.thy ===== *)
theory Nav_Handlers
  imports Nav_Commit_Lemmas
begin

text \<open>
  The handlers of commits to pages that have an entry already, and of subframes.
\<close>

subsection \<open>Existing pages\<close>

text \<open>The commit is for the current entry or for an entry of the list that is not transient.\<close>

definition known_entry :: "commit_params \<Rightarrow> nav_controller \<Rightarrow> bool" where
  "known_entry params s \<longleftrightarrow>
     (let j = GetEntryIndexWithUniqueID (nav_entry_id params) s
      in nav_entry_id params \<noteq> 0 \<longrightarrow> transient_entry_index s \<noteq> -1 \<longrightarrow> j \<noteq> transient_entry_index s)"

definition commit_target :: "commit_params \<Rightarrow> nav_controller \<Rightarrow> int" where
  "commit_target params s =
     (if intended_as_new_entry params \<or> nav_entry_id params = 0 then last_committed_entry_index s
      else GetEntryIndexWithUniqueID (nav_entry_id params) s)"

lemma commit_target_ok:
  assumes core: "nav_core s" and lc: "last_committed_ptr s = Some l" and known: "intended_as_new_entry params \<or> known_entry params s"
    and found: "commit_target params s \<noteq> -1"
  shows "0 \<le> commit_target params s" "commit_target params s < int (length (entries s))"
    and "commit_target params s \<noteq> transient_entry_index s"
proof -
  note cur = current_entry [OF core lc]
  have "0 \<le> commit_target params s \<and> commit_target params s < int (length (entries s)) \<and>
      commit_target params s \<noteq> transient_entry_index s"
  proof (cases "intended_as_new_entry params \<or> nav_entry_id params = 0")
    case True then show ?thesis using cur by (simp add: commit_target_def)
  next
    case False
    show ?thesis
    proof (rule entry_index_cases [of "nav_entry_id params" s])
      assume "GetEntryIndexWithUniqueID (nav_entry_id params) s = -1"
      then show ?thesis using False found by (simp add: commit_target_def)
    next
      fix i assume "i < length (entries s)" "GetEntryIndexWithUniqueID (nav_entry_id params) s = int i"
      then show ?thesis using False known by (auto simp: commit_target_def known_entry_def Let_def)
    qed
  qed
  then show "0 \<le> commit_target params s" "commit_target params s < int (length (entries s))"
    "commit_target params s \<noteq> transient_entry_index s" by simp_all
qed

text \<open>A page shows what its main frame committed: the URL and the site instance.\<close>

definition shows_commit :: "committing_frame_host \<Rightarrow> commit_params \<Rightarrow> TreeNode \<Rightarrow> bool" where
  "shows_commit rfh params tree \<longleftrightarrow>
     fne_url (frame_entry tree) = c_url params \<and> fne_site_instance (frame_entry tree) = rfh_site_instance rfh"

lemma updated_main_frame:
  "\<not> has_parent rfh \<Longrightarrow>
   shows_commit rfh params (frame_tree (Entry_AddOrUpdateFrameEntry ps (rfh_frame rfh) (update_of rfh params) e))"
  by (simp add: Entry_AddOrUpdateFrameEntry_def AddOrUpdateFrameEntry_def has_parent_def shows_commit_def update_node_def
      UpdateEntry_def update_of_def)

lemma finish_existing_page_shows:
  "\<not> has_parent rfh \<Longrightarrow> shows_commit rfh params (frame_tree (finish_existing_page env rfh params sd e))"
  using updated_main_frame [of rfh] by (simp add: finish_existing_page_def Let_def)

lemma finish_same_page_shows:
  "\<not> has_parent rfh \<Longrightarrow> shows_commit rfh params (frame_tree (finish_same_page env rfh params h pending e))"
  using updated_main_frame [of rfh] by (simp add: finish_same_page_def Let_def)

lemma ExistingPage_ok:
  assumes core: "nav_core s" and id: "idle s" and lc: "last_committed_ptr s = Some l" and known: "intended_as_new_entry params \<or> known_entry params s"
    and found: "commit_target params s \<noteq> -1"
  defines "k \<equiv> committed_index s (commit_target params s)"
  shows "safe {} (RendererDidNavigateToExistingPage env rfh params sd restored h s) (\<lambda>s'. committed_state s' \<and>
    0 \<le> k \<and> k < int (length (fst (history s))) \<and>
    (\<exists>uid old new. fst (history s) ! nat k = Some (uid, old) \<and>
       (\<not> has_parent rfh \<longrightarrow> shows_commit rfh params new) \<and>
       history s' = ((fst (history s))[nat k := Some (uid, new)], k)))"
proof -
  let ?j = "commit_target params s"
  have l: "list_ok s" and pend: "pending_ok s" using core by (auto simp: nav_core_def)
  note j = commit_target_ok [OF core lc known found]
  note k = committed_index_ok [OF l j, folded k_def]
  note cur = current_entry [OF core lc]
  define p where "p = entries s ! nat ?j"
  have p_com: "p \<in> set (committed_entries s)" using k unfolding p_def by (metis nat_less_iff nth_mem)
  then have p_in: "p \<in> set (entries s)" using committed_entries_facts(1) [OF l] by blast
  then obtain e where e: "objects s p = Some e" using l by (auto simp: list_ok_def)
  obtain le where le: "objects s l = Some le" using last_committed_alive [OF l lc] by blast
  define g where "g = (\<lambda>e. finish_existing_page env rfh params sd
                (e\<lparr>ssl := existing_ssl (url_lib env) sd restored h params le e\<rparr>))"
  define e' where "e' = g e"
  have e': "unique_id e' = unique_id e" by (simp add: e'_def g_def)
  let ?s1 = "s\<lparr>objects := (objects s)(p \<mapsto> e')\<rparr>"
  have core1: "nav_core ?s1" using modify_keeps(1) [OF core e e'] .
  have entry: "(if intended_as_new_entry params then Inr (last_committed_ptr s)
            else if nav_entry_id params \<noteq> 0 then GetEntryWithUniqueID (nav_entry_id params) s
            else Inr (last_committed_ptr s)) = Inr (Some p)"
    using lc cur(3) found j
    by (auto simp: commit_target_def p_def GetEntryWithUniqueID_def Let_def entry_ptr_at_ok split: if_splits)
  have d: "settled (drop_all ?s1)" using core1 by (rule settled_drop_all)
  have es: "entries (drop_all ?s1) = committed_entries s" by simp
  have k2: "0 \<le> k" "k < int (length (entries (drop_all ?s1)))" using k es by simp_all
  have index: "GetIndexOfEntry (Some p) (drop_all ?s1) = k"
  proof -
    have "distinct (entries (drop_all ?s1))" using d by (simp add: settled_def nav_core_def list_ok_def)
    moreover have "entries (drop_all ?s1) ! nat k = p" using k(3) es by (simp add: p_def)
    ultimately show ?thesis using GetIndexOfEntry_nth [OF _ k2] by metis
  qed
  have eq: "RendererDidNavigateToExistingPage env rfh params sd restored h s =
      Inr ((drop_all ?s1)\<lparr>last_committed_entry_index := k\<rparr>)"
    unfolding RendererDidNavigateToExistingPage_def GetLastCommittedEntry_ok [OF l] bindE_Inr lc entry [unfolded lc] not_null_def
      option.case deref_ok [OF le] g_def [symmetric] modify_ok [OF e] e'_def [symmetric]
      DiscardNonCommittedEntriesInternal_ok [OF core1] index ..
  note m = move_index [OF d k2]
  have "history (drop_all ?s1) = ((fst (history s))[nat k := Some (unique_id e', frame_tree e')], last_committed_entry_index s)"
    unfolding history_drop_all [OF core1]
    by (rule history_modify [OF core]) (use k in \<open>simp_all add: p_def nat_less_iff\<close>)
  then have h: "history ((drop_all ?s1)\<lparr>last_committed_entry_index := k\<rparr>) =
      ((fst (history s))[nat k := Some (unique_id e', frame_tree e')], k)" using m(2) by simp
  have "fst (history s) ! nat k = Some (unique_id e, frame_tree e)"
    using k e by (simp add: history_def p_def nat_less_iff page_of_def)
  moreover have "committed_state ((drop_all ?s1)\<lparr>last_committed_entry_index := k\<rparr>)"
    using m(1,3) id by (simp add: committed_state_def)
  moreover have "0 \<le> k \<and> k < int (length (fst (history s)))" using k by (simp add: history_def)
  moreover have "\<not> has_parent rfh \<longrightarrow> shows_commit rfh params (frame_tree e')"
    by (simp add: e'_def g_def finish_existing_page_shows)
  ultimately show ?thesis
    unfolding eq safe_Inr using h e' by metis
qed

text \<open>A commit that names an entry the list does not have, or the transient one, ends the process.\<close>

lemma ExistingPage_gone:
  assumes "list_ok s" "last_committed_ptr s = Some l" "commit_target params s = -1"
  shows "RendererDidNavigateToExistingPage env rfh params sd restored h s = Inl NullPointer"
proof -
  have "last_committed_entry_index s \<noteq> -1" using assms(2) by (auto simp: last_committed_ptr_def)
  then show ?thesis using assms
    by (auto simp: RendererDidNavigateToExistingPage_def GetLastCommittedEntry_ok commit_target_def
        GetEntryWithUniqueID_def Let_def not_null_def split: if_splits)
qed

lemma complete_commit_nothing:
  assumes "pending_entry s = None" "transient_entry_index s = -1" "last_committed_entry_index s = -1"
    and "\<not> in_navigate_to_pending_entry s"
  shows "complete_commit env rfh params h ua s = Inl NullPointer"
  using assms
  by (simp add: complete_commit_def DiscardNonCommittedEntriesInternal_def DiscardPendingEntry_def DiscardTransientEntry_def
      GetLastCommittedEntry_def not_null_def Let_def split: prod.split)

lemma ExistingPage_transient:
  assumes core: "nav_core s" and lc: "last_committed_ptr s = Some l" and unknown: "\<not> known_entry params s"
    and named: "\<not> intended_as_new_entry params"
  shows "bindE (RendererDidNavigateToExistingPage env rfh params sd restored h s) (complete_commit env rfh params h ua) =
     Inl NullPointer"
proof -
  have l: "list_ok s" using core by (rule nav_core_parts)
  let ?t = "transient_entry_index s" and ?p = "entries s ! nat (transient_entry_index s)"
  have t: "0 \<le> ?t" "?t < int (length (entries s))" "?t \<noteq> -1"
    and uid: "nav_entry_id params \<noteq> 0" "GetEntryIndexWithUniqueID (nav_entry_id params) s = ?t"
    using unknown l by (auto simp: known_entry_def Let_def list_ok_def)
  obtain e where e: "objects s ?p = Some e" using l transient_in_list [OF l t(3)] by (auto simp: list_ok_def)
  obtain le where le: "objects s l = Some le" using last_committed_alive [OF l lc] by blast
  define e' where "e' = finish_existing_page env rfh params sd
                (e\<lparr>ssl := existing_ssl (url_lib env) sd restored h params le e\<rparr>)"
  let ?s1 = "s\<lparr>objects := (objects s)(?p \<mapsto> e')\<rparr>"
  have core1: "nav_core ?s1" using modify_keeps(1) [OF core e] by (simp add: e'_def)
  have "?p \<notin> set (committed_entries s)"
    using set_remove_nth [OF t(1,2)] l t(3) by (simp add: committed_entries_def list_ok_def)
  then have "GetIndexOfEntry (Some ?p) (drop_all ?s1) = -1"
    by (simp add: GetIndexOfEntry_absent)
  then have "RendererDidNavigateToExistingPage env rfh params sd restored h s =
      Inr ((drop_all ?s1)\<lparr>last_committed_entry_index := -1\<rparr>)"
    using named uid t
    by (simp add: RendererDidNavigateToExistingPage_def GetLastCommittedEntry_ok [OF l] lc GetEntryWithUniqueID_def Let_def
        entry_ptr_at_ok not_null_def deref_ok [OF le] modify_ok [OF e] e'_def [symmetric]
        DiscardNonCommittedEntriesInternal_ok [OF core1])
  then show ?thesis using nav_core_parts(4) [OF drop_all_ok [OF core1]] by (simp add: complete_commit_nothing)
qed

subsection \<open>The same page again\<close>

lemma SamePage_ok:
  assumes core: "nav_core s" and id: "idle s" and lc: "last_committed_ptr s = Some l" "objects s l = Some le"
    and site: "entry_site_instance le = rfh_site_instance rfh"
    and pend: "pending_entry s = Some q" "pending_entry_index s = -1"
  shows "safe {} (RendererDidNavigateToSamePage env rfh params h s) (\<lambda>s'. committed_state s' \<and>
    (\<exists>uid tree. (\<not> has_parent rfh \<longrightarrow> shows_commit rfh params tree) \<and>
       history s' = ((fst (history s))[nat (last_committed_entry_index s) := Some (uid, tree)],
                     last_committed_entry_index s)))"
proof -
  have lo: "list_ok s" and po: "pending_ok s" and nn: "\<not> in_navigate_to_pending_entry s"
    using core by (auto simp: nav_core_def)
  note cur = current_entry [OF core lc(1)]
  obtain f where f: "objects s q = Some f" using pending_alive [OF po pend(1)] by blast
  define e' where "e' = finish_same_page env rfh params h f le"
  let ?s1 = "s\<lparr>objects := (objects s)(l \<mapsto> e')\<rparr>"
  have q: "q \<notin> set (entries s)" using po pend by (simp add: pending_ok_def)
  have l_in: "l \<in> set (entries s)" using cur(4) committed_entries_facts(1) [OF lo] by blast
  have ne: "pending_entry s \<noteq> Some l" using q l_in pend by auto
  have other: "transient_entry_index s \<noteq> -1 \<Longrightarrow> entries s ! nat (transient_entry_index s) \<noteq> l"
    using cur(4) lo set_remove_nth [of "transient_entry_index s" "entries s"]
    by (auto simp: committed_entries_def list_ok_def)
  have drop: "drop_all ?s1 = (drop_all s)\<lparr>objects := (objects (drop_all s))(l \<mapsto> e')\<rparr>"
    by (rule drop_all_modified [OF ne other])
  have "objects (drop_all s) l = Some le" using drop_all_other_objects [OF ne other] lc(2) by simp
  then have core2: "nav_core (drop_all ?s1)"
    unfolding drop using take_pending_id [OF core _ pend(2,1) f] by (simp add: e'_def)
  have l1: "list_ok ?s1" using lo by (auto simp: list_ok_def)
  have p1: "pending_ok ?s1" using po by (auto simp: pending_ok_def split: option.splits)
  have "DiscardNonCommittedEntriesInternal env ?s1 = Inr (drop_all ?s1)"
    by (rule DiscardNonCommittedEntriesInternal_weak [OF l1 p1]) (use nn in simp)
  then obtain evs where d: "DiscardNonCommittedEntries env ?s1 = Inr ((drop_all ?s1)\<lparr>events := evs\<rparr>)"
  proof (cases "transient_entry_index s = -1")
    case True
    assume D: "DiscardNonCommittedEntriesInternal env ?s1 = Inr (drop_all ?s1)"
    have "DiscardNonCommittedEntries env ?s1 = Inr ((drop_all ?s1)\<lparr>events := events (drop_all ?s1)\<rparr>)"
      unfolding DiscardNonCommittedEntries_def D using True by simp
    then show ?thesis using that by blast
  next
    case False
    assume D: "DiscardNonCommittedEntriesInternal env ?s1 = Inr (drop_all ?s1)"
    have "DiscardNonCommittedEntries env ?s1 = Inr (notify StateChangedAll (drop_all ?s1))"
      unfolding DiscardNonCommittedEntries_def D using False by simp
    then show ?thesis using that unfolding notify_def by blast
  qed
  have eq: "RendererDidNavigateToSamePage env rfh params h s = Inr ((drop_all ?s1)\<lparr>events := evs\<rparr>)"
    unfolding RendererDidNavigateToSamePage_def GetLastCommittedEntry_ok [OF lo] bindE_Inr lc(1) not_null_def option.case
      deref_ok [OF lc(2)] pend(1) deref_ok [OF f] modify_ok [OF lc(2)] e'_def [symmetric] d
    using site by simp
  let ?i = "last_committed_entry_index s"
  have "?i \<noteq> -1" using cur(1) by simp
  then have left: "committed_state ((drop_all ?s1)\<lparr>events := evs\<rparr>)"
    using core2 id drop_all_index [OF core]
    by (simp add: committed_state_def settled_def last_committed_ptr_def drop)
  have "nat ?i < length (committed_entries (drop_all s))"
    using committed_entries_facts(3) [OF lo] cur(1) by (simp add: nat_less_iff)
  moreover have "committed_entries (drop_all s) ! nat ?i = l" using cur(6) by simp
  ultimately have "history (drop_all ?s1) = ((fst (history s))[nat ?i := Some (unique_id e', frame_tree e')], ?i)"
    unfolding drop using history_modify [OF drop_all_ok [OF core]] history_drop_all [OF core] by simp
  moreover have "\<not> has_parent rfh \<longrightarrow> shows_commit rfh params (frame_tree e')"
    by (simp add: e'_def finish_same_page_shows)
  ultimately show ?thesis unfolding eq using left by auto
qed

subsection \<open>Subframes\<close>

lemma NewSubframe_ok:
  assumes core: "nav_core s" and id: "idle s" and lc: "last_committed_ptr s = Some l" and room: "2 \<le> max_entry_count env"
  shows "safe {} (RendererDidNavigateNewSubframe env rfh params sd rp s) (\<lambda>s'. committed_state s' \<and>
    (\<exists>page. history s' = insert_page (max_entry_count env) rp page (history s)))"
proof -
  have lo: "list_ok s" using core by (rule nav_core_parts)
  obtain le where le: "objects s l = Some le" using last_committed_alive [OF lo lc] by blast
  define mk where "mk = (\<lambda>uid. Entry_CloneAndReplace (page_state_env env) uid (committed_frame_entry env rfh params)
           sd (Some (rfh_frame rfh)) (Some (live_root env)) le)"
  obtain p s1 where new: "new_object mk s = (p, s1)" by fastforce
  have mk: "unique_id (mk uid) = uid" for uid by (simp add: mk_def)
  note made = new_keeps [OF core mk new]
  have eq: "RendererDidNavigateNewSubframe env rfh params sd rp s = InsertOrReplaceEntry env p rp s1"
    unfolding RendererDidNavigateNewSubframe_def GetLastCommittedEntry_ok [OF lo] bindE_Inr lc not_null_def option.case
      deref_ok [OF le] mk_def [symmetric] new by simp
  have "safe {} (InsertOrReplaceEntry env p rp s1) (\<lambda>s'. settled s' \<and> idle s' \<and> pending_entry s' = None \<and>
      last_committed_ptr s' = Some p \<and> objects s' p = Some (takes_id s1 (mk (int (created s) + 1))) \<and>
      history s' = insert_page (max_entry_count env) rp (Some (unique_id (takes_id s1 (mk (int (created s) + 1))),
        frame_tree (mk (int (created s) + 1)))) (history s1))"
    by (rule InsertOrReplaceEntry_ok) (use made id room in auto)
  then show ?thesis unfolding eq using made(2) by (auto elim!: safe_mono simp: committed_state_def)
qed

lemma modify_current:
  assumes core: "nav_core s" and lc: "last_committed_ptr s = Some l" and g: "\<And>e. unique_id (g e) = unique_id e"
  shows "\<exists>s'. modify l g s = Inr s' \<and> nav_core s' \<and> idle s' = idle s \<and> last_committed_ptr s' = Some l \<and>
      pending_entry s' = pending_entry s \<and> (settled s \<longrightarrow> settled s') \<and>
      (\<exists>page. history s' = ((fst (history s))[nat (last_committed_entry_index s) := page], last_committed_entry_index s))"
proof -
  have lo: "list_ok s" using core by (rule nav_core_parts)
  obtain e where e: "objects s l = Some e" using last_committed_alive [OF lo lc] by blast
  note cur = current_entry [OF core lc]
  let ?s = "s\<lparr>objects := (objects s)(l \<mapsto> g e)\<rparr>"
  have "nat (last_committed_entry_index s) < length (committed_entries s)"
    using committed_entries_facts(3) [OF lo] cur(1) by (simp add: nat_less_iff)
  note h = history_modify [OF core this cur(6), of "g e"]
  show ?thesis
    using modify_ok [OF e] modify_keeps(1) [OF core e g] settled_modify [OF _ e g] lc h
    by (auto simp: last_committed_ptr_def)
qed

definition auto_target :: "commit_params \<Rightarrow> nav_controller \<Rightarrow> int" where
  "auto_target params s =
     (let j = GetEntryIndexWithUniqueID (nav_entry_id params) s
      in if nav_entry_id params \<noteq> 0 \<and> j \<noteq> -1 then committed_index s j else last_committed_entry_index s)"

lemma AutoSubframe_ok:
  assumes core: "nav_core s" and id: "idle s" and lc: "last_committed_ptr s = Some l" and known: "known_entry params s \<or> OutOfRange \<in> E"
  shows "safe E (RendererDidNavigateAutoSubframe env rfh params s) (\<lambda>(moved, s').
      nav_ok s' \<and> last_committed_ptr s' \<noteq> None \<and> (moved \<longrightarrow> committed_state s') \<and>
      (\<exists>page. history s' = ((fst (history s))[nat (auto_target params s) := page], auto_target params s)))"
proof -
  have lo: "list_ok s" using core by (rule nav_core_parts)
  define j where "j = (if nav_entry_id params \<noteq> 0 then GetEntryIndexWithUniqueID (nav_entry_id params) s else -1)"
  define moved where "moved \<longleftrightarrow> j \<noteq> -1 \<and> j \<noteq> last_committed_entry_index s"
  define finish where "finish = (\<lambda>s2. bindE (GetLastCommittedEntry s2) (\<lambda>l.
      bindE (not_null l) (\<lambda>p.
      bindE (modify p (Entry_AddOrUpdateFrameEntry (page_state_env env) (rfh_frame rfh) (update_of rfh params)) s2) (\<lambda>s3.
        Inr (moved, s3)))))"
  have fin: "\<exists>s3. finish s2 = Inr (moved, s3) \<and> nav_core s3 \<and> idle s3 = idle s2 \<and> last_committed_ptr s3 \<noteq> None \<and>
      pending_entry s3 = pending_entry s2 \<and> (settled s2 \<longrightarrow> settled s3) \<and>
      (\<exists>page. history s3 = ((fst (history s2))[nat (last_committed_entry_index s2) := page], last_committed_entry_index s2))"
    if c: "nav_core s2" and p: "last_committed_ptr s2 = Some q" for s2 q
    using modify_current [OF c p, of "Entry_AddOrUpdateFrameEntry (page_state_env env) (rfh_frame rfh) (update_of rfh params)"] p
    by (auto simp: finish_def GetLastCommittedEntry_ok [OF nav_core_parts(2) [OF c]] not_null_def)
  show ?thesis
  proof (cases moved)
    case False
    then have "RendererDidNavigateAutoSubframe env rfh params s = finish s"
      by (simp add: RendererDidNavigateAutoSubframe_def Let_def j_def [symmetric] moved_def [symmetric] finish_def)
    moreover have "auto_target params s = last_committed_entry_index s"
      using False current_entry(7) [OF core lc] by (auto simp: auto_target_def moved_def j_def Let_def split: if_splits)
    ultimately show ?thesis using fin [OF core lc] id False by (auto simp: nav_ok_def)
  next
    case True
    then have nz: "nav_entry_id params \<noteq> 0" by (auto simp: moved_def j_def split: if_splits)
    have j1: "0 \<le> j \<and> j < int (length (entries s))"
    proof (rule entry_index_cases [of "nav_entry_id params" s])
      assume "GetEntryIndexWithUniqueID (nav_entry_id params) s = -1"
      then show ?thesis using True nz by (simp add: moved_def j_def)
    next
      fix i assume "i < length (entries s)" "GetEntryIndexWithUniqueID (nav_entry_id params) s = int i"
      then show ?thesis using nz by (simp add: j_def)
    qed
    have known_j: "j \<noteq> transient_entry_index s" if "known_entry params s"
      using that nz j1 by (auto simp: j_def known_entry_def Let_def)
    let ?k = "committed_index s j"
    have low: "0 \<le> ?k" and high: "?k < int (length (committed_entries s)) \<or> OutOfRange \<in> E"
    proof -
      have "0 \<le> transient_entry_index s \<or> transient_entry_index s = -1" using lo by (auto simp: list_ok_def)
      then show "0 \<le> ?k" using j1 by (auto simp: committed_index_def)
      show "?k < int (length (committed_entries s)) \<or> OutOfRange \<in> E"
        using committed_index_ok(2) [OF lo, of j] j1 known_j known by blast
    qed
    have "entries s ! nat j \<in> set (entries s)" using j1 by (simp add: nat_less_iff)
    then obtain d where d: "objects s (entries s ! nat j) = Some d" using lo by (auto simp: list_ok_def)
    obtain le where le: "objects s l = Some le" using last_committed_alive [OF lo lc] by blast
    define s1 where "s1 = (if (SchemeIs (GetURL le) kHttpScheme \<or> SchemeIs (GetURL le) kHttpsScheme) \<and>
                            (SchemeIs (GetURL d) kHttpScheme \<or> SchemeIs (GetURL d) kHttpsScheme) \<and>
                            GetOrigin (url_lib env) (GetURL le) \<noteq> GetOrigin (url_lib env) (GetURL d)
                         then notify BadMessage s else s)"
    have s1: "nav_core s1" "idle s1" "entries s1 = entries s" "history s1 = history s"
      "transient_entry_index s1 = transient_entry_index s" "committed_index s1 j = committed_index s j"
      "committed_entries s1 = committed_entries s"
      using core id by (simp_all add: s1_def committed_index_def)
    have drop: "DiscardNonCommittedEntriesInternal env (s1\<lparr>last_committed_entry_index := j\<rparr>) =
        Inr ((drop_all s1)\<lparr>last_committed_entry_index := ?k\<rparr>)"
      using discard_with_index [OF s1(1), of j] j1 s1 by simp
    let ?s2 = "(drop_all s1)\<lparr>last_committed_entry_index := ?k\<rparr>"
    have run: "RendererDidNavigateAutoSubframe env rfh params s = finish ?s2"
      unfolding RendererDidNavigateAutoSubframe_def Let_def j_def [symmetric] moved_def [symmetric]
        entry_ptr_at_ok [OF conjunct1 [OF j1] conjunct2 [OF j1]] bindE_Inr deref_ok [OF d] GetLastCommittedEntry_ok [OF lo] lc
        not_null_def option.case deref_ok [OF le] s1_def [symmetric]
      using True drop by (simp add: finish_def not_null_def)
    show ?thesis
    proof (cases "?k < int (length (committed_entries s))")
      case False
      then have "GetLastCommittedEntry ?s2 = Inl OutOfRange"
        using low s1(7) by (simp add: GetLastCommittedEntry_def entry_ptr_at_def)
      then show ?thesis using high False by (simp add: run finish_def)
    next
      case k: True
      have "settled (drop_all s1)" using s1(1) by (rule settled_drop_all)
      note m = move_index [OF this, of ?k]
      have s2: "settled ?s2" "last_committed_ptr ?s2 \<noteq> None" "history ?s2 = (fst (history s), ?k)"
        using m k low s1 history_drop_all [OF s1(1)] by simp_all
      obtain q where "last_committed_ptr ?s2 = Some q" using s2(2) by blast
      moreover have "auto_target params s = ?k"
        using True nz by (simp add: auto_target_def moved_def j_def Let_def)
      ultimately show ?thesis
        using fin [of ?s2 q] s2 s1(2) True run by (auto simp: nav_ok_def settled_def committed_state_def)
    qed
  qed
qed

end
