(* ===== verification/Nav_Bindings.thy ===== *)
theory Nav_Bindings
  imports Nav_Handlers
begin

text \<open>
  The bindings of entries. An entry remembers the bindings of the renderer that committed it, and a
  CHECK fails when another renderer with other bindings commits it. Handlers copy bindings and never
  make new ones, so when every entry fits the renderer before a commit, the CHECK holds after it.
\<close>

definition fits :: "int \<Rightarrow> NavigationEntryImpl \<Rightarrow> bool" where
  "fits b e \<longleftrightarrow> bindings e = kInvalidBindings \<or> bindings e = b"

definition all_fit :: "int \<Rightarrow> nav_controller \<Rightarrow> bool" where
  "all_fit b s \<longleftrightarrow> (\<forall>p e. objects s p = Some e \<longrightarrow> fits b e)"

lemma safe_both: "safe E m P \<Longrightarrow> safe UNIV m Q \<Longrightarrow> safe E m (\<lambda>x. P x \<and> Q x)"
  by (cases m) simp_all

lemma safe_any [simp]: "safe UNIV m (\<lambda>x. True)"
  by (cases m) simp_all

lemma all_fit_irrelevant [simp]:
  "all_fit b (s\<lparr>events := evs\<rparr>) = all_fit b s" "all_fit b (s\<lparr>entries := es\<rparr>) = all_fit b s"
  "all_fit b (s\<lparr>last_committed_entry_index := i\<rparr>) = all_fit b s"
  "all_fit b (s\<lparr>transient_entry_index := i\<rparr>) = all_fit b s" "all_fit b (s\<lparr>pending_entry := pe\<rparr>) = all_fit b s"
  "all_fit b (s\<lparr>pending_entry_index := i\<rparr>) = all_fit b s" "all_fit b (s\<lparr>failed_pending_entry_id := i\<rparr>) = all_fit b s"
  "all_fit b (s\<lparr>is_initial_navigation := c\<rparr>) = all_fit b s" "all_fit b (s\<lparr>time_smoother := ts\<rparr>) = all_fit b s"
  "all_fit b (s\<lparr>last_committed_reload_type := r\<rparr>) = all_fit b s"
  "all_fit b (s\<lparr>last_committed_reload_time := lt\<rparr>) = all_fit b s" "all_fit b (notify ev s) = all_fit b s"
  by (simp_all add: all_fit_def notify_def)

named_theorems fit_rules \<open>outcomes whose entries all fit\<close>

lemma fit_deref [fit_rules]: "all_fit b s \<Longrightarrow> safe UNIV (deref p s) (fits b)"
  by (auto simp: deref_def all_fit_def split: option.split)

lemma fit_deref_option [fit_rules]: "all_fit b s \<Longrightarrow> safe UNIV (deref_option r s) (\<lambda>e. \<forall>x. e = Some x \<longrightarrow> fits b x)"
  by (auto simp: deref_option_def deref_def all_fit_def split: option.split)

lemma fit_modify [fit_rules]:
  "all_fit b s \<Longrightarrow> (\<And>e. fits b e \<Longrightarrow> fits b (g e)) \<Longrightarrow> safe UNIV (modify p g s) (all_fit b)"
  by (auto simp: modify_def deref_def all_fit_def split: option.split)

lemma fit_delete: "all_fit b s \<Longrightarrow> all_fit b (delete_object p s)"
  by (auto simp: all_fit_def delete_object_def split: if_splits)

lemma fit_delete_objects: "all_fit b s \<Longrightarrow> all_fit b (delete_objects ps s)"
  by (auto simp: all_fit_def delete_objects_eq split: if_splits)

lemma fit_new: "all_fit b s \<Longrightarrow> (\<And>uid. fits b (mk uid)) \<Longrightarrow> new_object mk s = (p, s') \<Longrightarrow> all_fit b s'"
  by (auto simp: all_fit_def new_object_def split: if_splits)

lemma fit_erase [fit_rules]: "all_fit b s \<Longrightarrow> safe UNIV (erase_entry i s) (all_fit b)"
  using fit_delete by (auto simp: erase_entry_def entry_ptr_at_def)

lemma fit_discard_pending [fit_rules]: "all_fit b s \<Longrightarrow> safe UNIV (DiscardPendingEntry env f s) (all_fit b)"
  by (auto simp: DiscardPendingEntry_def deref_def delete_object_def all_fit_def Let_def split: option.split)

lemma fit_discard_transient [fit_rules]: "all_fit b s \<Longrightarrow> safe UNIV (DiscardTransientEntry s) (all_fit b)"
  by (auto simp: DiscardTransientEntry_def Let_def intro!: safe_mono [OF fit_erase])

lemma fit_discard_internal [fit_rules]:
  "all_fit b s \<Longrightarrow> safe UNIV (DiscardNonCommittedEntriesInternal env s) (all_fit b)"
  unfolding DiscardNonCommittedEntriesInternal_def safe_bind
  by (rule safe_mono [OF fit_discard_pending fit_discard_transient])

lemma fit_discard [fit_rules]: "all_fit b s \<Longrightarrow> safe UNIV (DiscardNonCommittedEntries env s) (all_fit b)"
  unfolding DiscardNonCommittedEntries_def safe_bind
  by (rule safe_mono [OF fit_discard_internal]) auto

lemma fit_prune_forward: "all_fit b s \<Longrightarrow> all_fit b (prune_forward n s)"
  by (induction n arbitrary: s) (simp_all add: fit_delete)

lemma fit_prune_oldest [fit_rules]: "all_fit b s \<Longrightarrow> safe UNIV (PruneOldestEntryIfFull env s) (all_fit b)"
  unfolding PruneOldestEntryIfFull_def RemoveEntryAtIndex_def RemoveEntryAtIndexInternal_def
  by (auto intro!: safe_mono [OF fit_discard] safe_mono [OF fit_erase])

lemma fits_id: "fits b (e\<lparr>unique_id := i\<rparr>) = fits b e"
  by (simp add: fits_def)

lemma fit_insert [fit_rules]:
  assumes "all_fit b s" shows "safe UNIV (InsertOrReplaceEntry env p replace s) (all_fit b)"
proof -
  have first: "safe UNIV (case pending_entry s of
          Some q \<Rightarrow> if pending_entry_index s = -1
            then bindE (deref q s) (\<lambda>pending. modify p (\<lambda>e. e\<lparr>unique_id := unique_id pending\<rparr>) s) else Inr s
        | None \<Rightarrow> Inr s) (all_fit b)"
    using assms by (auto simp: fits_id split: option.split intro!: safe_mono [OF fit_deref] fit_modify)
  have rest: "safe UNIV (let current_size = int (length (entries s2)) in
       if replace \<and> current_size > 0
       then bindE (entry_ptr_at (last_committed_entry_index s2) s2) (\<lambda>old.
              Inr ((delete_object old s2)\<lparr>entries := (entries s2)[nat (last_committed_entry_index s2) := p]\<rparr>))
       else
         let num_pruned = (if current_size > 0 then current_size - 1 - last_committed_entry_index s2 else 0);
             s3 = (if num_pruned > 0
                   then notify (NavListPruned False num_pruned) (prune_forward (nat num_pruned) s2) else s2)
         in bindE (PruneOldestEntryIfFull env s3) (\<lambda>s4.
              let s5 = s4\<lparr>entries := entries s4 @ [p]\<rparr>
              in Inr (s5\<lparr>last_committed_entry_index := int (length (entries s5)) - 1\<rparr>))) (all_fit b)"
    if "all_fit b s2" for s2
    using that fit_delete [OF that] fit_prune_forward [OF that]
    by (auto simp: Let_def entry_ptr_at_def intro!: safe_mono [OF fit_prune_oldest])
  show ?thesis
    unfolding InsertOrReplaceEntry_def safe_bind
    by (intro safe_mono [OF first] safe_mono [OF fit_discard_internal] rest)
qed

subsection \<open>The handlers\<close>

lemma fits_simps [simp]:
  "fits b (NavigationEntryImpl_new uid si url ref ttl tr ri)" "fits b (update_root g e) = fits b e"
  "fits b (SetURL url e) = fits b e" "fits b (SetReferrer ref e) = fits b e" "fits b (SetVirtualURL url e) = fits b e"
  "fits b (set_site_instance si e) = fits b e" "fits b (UpdateVirtualURLToURL env url e) = fits b e"
  "fits b (Entry_AddOrUpdateFrameEntry ps f u e) = fits b e" "fits b (update_frame_entry f h e) = fits b e"
  "fits b (Entry_CloneAndReplace ps uid fe cc tg lv e) = fits b e" "fits b (Entry_Clone ps uid e) = fits b e"
  "fits b (ResetForCommit g0 e) = fits b e"
  by (auto simp: fits_def NavigationEntryImpl_new_def update_root_def SetURL_def SetReferrer_def SetVirtualURL_def
      set_site_instance_def UpdateVirtualURLToURL_def Entry_AddOrUpdateFrameEntry_def update_frame_entry_def
      Entry_CloneAndReplace_def Entry_Clone_def ResetForCommit_def Let_def split: option.splits)

lemma fits_fields [simp]:
  "fits b (e\<lparr>page_type := pt\<rparr>) = fits b e" "fits b (e\<lparr>transition_type := tt\<rparr>) = fits b e"
  "fits b (e\<lparr>original_request_url := u\<rparr>) = fits b e" "fits b (e\<lparr>is_overriding_user_agent := o'\<rparr>) = fits b e"
  "fits b (e\<lparr>title := ti\<rparr>) = fits b e" "fits b (e\<lparr>favicon := fv\<rparr>) = fits b e" "fits b (e\<lparr>ssl := sl\<rparr>) = fits b e"
  "fits b (e\<lparr>update_virtual_url_with_url := v\<rparr>) = fits b e" "fits b (e\<lparr>unique_id := i\<rparr>) = fits b e"
  "fits b (e\<lparr>extra_headers := x\<rparr>) = fits b e" "fits b (e\<lparr>timestamp := ts\<rparr>) = fits b e"
  "fits b (e\<lparr>http_status_code := c\<rparr>) = fits b e" "fits b (e\<lparr>restore_type := r\<rparr>) = fits b e"
  by (simp_all add: fits_def)

lemma fits_new_page:
  assumes "\<And>e. last_committed = Some e \<Longrightarrow> fits b e" "\<And>e. pending = Some e \<Longrightarrow> fits b e"
  shows "fits b (finish_new_page env rfh params sd last_committed
           (new_page_base env rfh params sd h last_committed pending pi uid))"
  using assms
  by (auto simp: finish_new_page_def new_page_base_def Let_def split: option.splits prod.splits)

lemma fits_finish [simp]:
  "fits b (finish_existing_page env rfh params sd e) = fits b e"
  "fits b (finish_same_page env rfh params h pend e) = fits b e"
  "fits b (finish_committed_entry env rfh params h t e) = fits b e"
  by (simp_all add: finish_existing_page_def finish_same_page_def finish_committed_entry_def block_entry_def Let_def)

lemma fit_new_page:
  assumes "all_fit b s" shows "safe UNIV (RendererDidNavigateToNewPage env rfh params sd rp h s) (all_fit b)"
proof -
  have rest: "safe UNIV (let (p, s1) = new_object (\<lambda>uid. finish_new_page env rfh params sd lc
           (new_page_base env rfh params sd h lc pe (pending_entry_index s) uid)) s
     in bindE (if history_list_was_cleared params
               then bindE (DiscardNonCommittedEntriesInternal env s1) (\<lambda>s2.
                 Inr ((delete_objects (entries s2) s2)\<lparr>entries := [], last_committed_entry_index := -1\<rparr>))
               else Inr s1) (InsertOrReplaceEntry env p rp)) (all_fit b)"
    if "\<forall>x. lc = Some x \<longrightarrow> fits b x" "\<forall>x. pe = Some x \<longrightarrow> fits b x" for lc pe
  proof -
    obtain p s1 where new: "new_object (\<lambda>uid. finish_new_page env rfh params sd lc
           (new_page_base env rfh params sd h lc pe (pending_entry_index s) uid)) s = (p, s1)" by fastforce
    have s1: "all_fit b s1" by (rule fit_new [OF assms _ new]) (use that in \<open>auto intro: fits_new_page\<close>)
    have "all_fit b ((delete_objects (entries s2) s2)\<lparr>entries := [], last_committed_entry_index := -1\<rparr>)"
      if "all_fit b s2" for s2 using fit_delete_objects [OF that, of "entries s2"] by simp
    then show ?thesis
      unfolding new Let_def prod.case safe_bind
      using s1 by (auto intro!: safe_mono [OF fit_discard_internal] fit_insert)
  qed
  show ?thesis
    unfolding RendererDidNavigateToNewPage_def safe_bind
    by (rule safe_mono [OF safe_any], rule safe_mono [OF fit_deref_option [OF assms]],
        rule safe_mono [OF fit_deref_option [OF assms]], rule rest)
qed

lemma fit_existing_page:
  assumes "all_fit b s" shows "safe UNIV (RendererDidNavigateToExistingPage env rfh params sd restored h s) (all_fit b)"
  unfolding RendererDidNavigateToExistingPage_def safe_bind
  by (rule safe_mono [OF safe_any], rule safe_mono [OF safe_any], rule safe_mono [OF safe_any],
      rule safe_mono [OF safe_any], rule safe_mono [OF safe_any], rule safe_mono [OF fit_modify [OF assms]], simp,
      rule safe_mono [OF fit_discard_internal], assumption, simp)

lemma fit_same_page:
  assumes "all_fit b s" shows "safe UNIV (RendererDidNavigateToSamePage env rfh params h s) (all_fit b)"
proof -
  have "safe UNIV (bindE (modify p (finish_same_page env rfh params h pend) s) (DiscardNonCommittedEntries env)) (all_fit b)"
    for p pend
    unfolding safe_bind by (rule safe_mono [OF fit_modify [OF assms]]) (auto intro: fit_discard)
  then show ?thesis
    unfolding RendererDidNavigateToSamePage_def
    by (auto intro!: safe_mono [OF safe_any] simp del: safe_any)
qed

lemma fit_new_subframe:
  assumes "all_fit b s" shows "safe UNIV (RendererDidNavigateNewSubframe env rfh params sd rp s) (all_fit b)"
proof -
  have rest: "safe UNIV (let (p, s1) = new_object (\<lambda>uid. Entry_CloneAndReplace (page_state_env env) uid (committed_frame_entry env rfh params)
           sd (Some (rfh_frame rfh)) (Some (live_root env)) le) s
     in InsertOrReplaceEntry env p rp s1) (all_fit b)" if "fits b le" for le
  proof -
    let ?mk = "\<lambda>uid. Entry_CloneAndReplace (page_state_env env) uid (committed_frame_entry env rfh params)
           sd (Some (rfh_frame rfh)) (Some (live_root env)) le"
    obtain p s1 where new: "new_object ?mk s = (p, s1)" by fastforce
    have "all_fit b s1" by (rule fit_new [OF assms _ new]) (use that in simp)
    then show ?thesis unfolding new by (simp add: fit_insert)
  qed
  show ?thesis
    unfolding RendererDidNavigateNewSubframe_def safe_bind
    by (rule safe_mono [OF safe_any], rule safe_mono [OF safe_any], rule safe_mono [OF fit_deref [OF assms]], rule rest)
qed

lemma fit_auto_subframe:
  assumes "all_fit b s" shows "safe UNIV (RendererDidNavigateAutoSubframe env rfh params s) (\<lambda>(moved, s'). all_fit b s')"
proof -
  define finish where "finish = (\<lambda>moved s2. bindE (GetLastCommittedEntry s2) (\<lambda>l.
      bindE (not_null l) (\<lambda>p.
      bindE (modify p (Entry_AddOrUpdateFrameEntry (page_state_env env) (rfh_frame rfh) (update_of rfh params)) s2) (\<lambda>s3.
        Inr (moved :: bool, s3)))))"
  have fin: "safe UNIV (finish moved s2) (\<lambda>(moved, s'). all_fit b s')" if "all_fit b s2" for moved s2
    unfolding finish_def safe_bind
    by (rule safe_mono [OF safe_any], rule safe_mono [OF safe_any], rule safe_mono [OF fit_modify [OF that]]) simp_all
  have disc: "safe UNIV (bindE (entry_ptr_at j s) (\<lambda>d. bindE (deref d s) (\<lambda>dest.
      bindE (GetLastCommittedEntry s) (\<lambda>l. bindE (not_null l) (\<lambda>c. bindE (deref c s) (\<lambda>cur.
        DiscardNonCommittedEntriesInternal env
          ((if C cur dest then notify ev s else s)\<lparr>last_committed_entry_index := j\<rparr>))))))) (all_fit b)" for j C ev
    unfolding safe_bind
    by (rule safe_mono [OF safe_any], rule safe_mono [OF safe_any], rule safe_mono [OF safe_any],
        rule safe_mono [OF safe_any], rule safe_mono [OF safe_any], rule fit_discard_internal) (use assms in simp)
  define j where "j = (if nav_entry_id params \<noteq> 0 then GetEntryIndexWithUniqueID (nav_entry_id params) s else -1)"
  define moved where "moved \<longleftrightarrow> j \<noteq> -1 \<and> j \<noteq> last_committed_entry_index s"
  define web where "web = (\<lambda>u. SchemeIs u kHttpScheme \<or> SchemeIs u kHttpsScheme)"
  define C where "C = (\<lambda>cur dest. web (GetURL cur) \<and> web (GetURL dest) \<and>
       GetOrigin (url_lib env) (GetURL cur) \<noteq> GetOrigin (url_lib env) (GetURL dest))"
  define first where "first = (if \<not> moved then Inr s else bindE (entry_ptr_at j s) (\<lambda>d. bindE (deref d s) (\<lambda>dest.
      bindE (GetLastCommittedEntry s) (\<lambda>l. bindE (not_null l) (\<lambda>c. bindE (deref c s) (\<lambda>cur.
        DiscardNonCommittedEntriesInternal env
          ((if C cur dest then notify BadMessage s else s)\<lparr>last_committed_entry_index := j\<rparr>)))))))"
  have eq: "RendererDidNavigateAutoSubframe env rfh params s = bindE first (finish moved)"
    unfolding RendererDidNavigateAutoSubframe_def Let_def j_def [symmetric] moved_def [symmetric] finish_def
      first_def C_def web_def ..
  have "safe UNIV first (all_fit b)"
    unfolding first_def using assms disc by simp
  then show ?thesis unfolding eq safe_bind by (rule safe_mono) (rule fin)
qed

end
