(* ===== verification/Nav_Navigate.thy ===== *)
theory Nav_Navigate
  imports Nav_Bindings
begin

text \<open>
  The whole commit. \<open>history_step\<close> is the abstract specification: what a commit of each class may
  do to the committed list. The locale \<open>commit_handler\<close> is the contract of the five handlers; each
  of them is an interpretation of it, and what follows a handler in \<open>RendererDidNavigate\<close> is
  proved once in it.
\<close>

subsection \<open>The abstract specification\<close>

type_synonym page = "(int \<times> TreeNode) option"

definition committed_url :: "nav_env \<Rightarrow> committing_frame_host \<Rightarrow> commit_params \<Rightarrow> nav_handle \<Rightarrow> GURL" where
  "committed_url env rfh params h =
     (if IsBlockedNavigation (net_error_code h) then parse_url (url_lib env) kAboutBlankURL else c_url params)"

text \<open>The current page is the one that changes; a commit of the main frame shows its URL there.\<close>

definition moved_to :: "int \<Rightarrow> page \<Rightarrow> page list \<times> int \<Rightarrow> page list \<times> int" where
  "moved_to k page h = ((fst h)[nat k := page], k)"

definition history_step ::
  "nav_env \<Rightarrow> commit_params \<Rightarrow> NavigationType \<Rightarrow> int \<Rightarrow> page list \<times> int \<Rightarrow> page list \<times> int \<Rightarrow> bool" where
  "history_step env params type k h h' \<longleftrightarrow>
     (\<exists>page. case type of
        NAVIGATION_TYPE_NEW_PAGE \<Rightarrow>
          h' = insert_page (max_entry_count env) (c_should_replace_current_entry params) page
                 (if history_list_was_cleared params then ([], -1) else h)
      | NAVIGATION_TYPE_NEW_SUBFRAME \<Rightarrow>
          h' = insert_page (max_entry_count env) (c_should_replace_current_entry params) page h
      | NAVIGATION_TYPE_NAV_IGNORE \<Rightarrow> h' = h
      | _ \<Rightarrow> 0 \<le> k \<and> k < int (length (fst h)) \<and> h' = moved_to k page h)"

text \<open>The place of the entry that a commit is for.\<close>

definition target_index :: "commit_params \<Rightarrow> NavigationType \<Rightarrow> nav_controller \<Rightarrow> int" where
  "target_index params type s =
     (case type of
        NAVIGATION_TYPE_EXISTING_PAGE \<Rightarrow> committed_index s (commit_target params s)
      | NAVIGATION_TYPE_AUTO_SUBFRAME \<Rightarrow> auto_target params s
      | _ \<Rightarrow> last_committed_entry_index s)"

definition current_tree :: "page list \<times> int \<Rightarrow> TreeNode option" where
  "current_tree h = (if 0 \<le> snd h \<and> snd h < int (length (fst h)) then map_option snd (fst h ! nat (snd h)) else None)"

definition shown_tree :: "committing_frame_host \<Rightarrow> commit_params \<Rightarrow> page list \<times> int \<Rightarrow> bool" where
  "shown_tree rfh params h \<longleftrightarrow> (\<exists>tree. current_tree h = Some tree \<and> shows_commit rfh params tree)"

text \<open>What the user sees after a commit of the main frame.\<close>

definition shows_page :: "nav_env \<Rightarrow> committing_frame_host \<Rightarrow> commit_params \<Rightarrow> nav_handle \<Rightarrow> page list \<times> int \<Rightarrow> bool" where
  "shows_page env rfh params h hist \<longleftrightarrow> (\<exists>tree. current_tree hist = Some tree \<and>
     fne_url (frame_entry tree) = committed_url env rfh params h \<and>
     fne_site_instance (frame_entry tree) = rfh_site_instance rfh)"

definition well_placed :: "'a list \<times> int \<Rightarrow> bool" where
  "well_placed h \<longleftrightarrow> snd h < int (length (fst h)) \<and> (fst h = [] \<or> 0 \<le> snd h)"

lemma well_placed_empty [simp]: "well_placed ([], -1)"
  by (simp add: well_placed_def)

lemma well_placed_history: "nav_core s \<Longrightarrow> well_placed (history s)"
proof -
  assume c: "nav_core s"
  then have l: "list_ok s" by (rule nav_core_parts)
  have "-1 \<le> last_committed_entry_index s" using l by (simp add: list_ok_def)
  moreover have "committed_entries s = []" if "last_committed_entry_index s = -1"
    using l that length_remove_nth [of "transient_entry_index s" "entries s"]
    by (auto simp: list_ok_def committed_entries_def split: if_splits)
  ultimately show ?thesis
    using committed_entries_facts(3) [OF l] by (auto simp: well_placed_def history_def)
qed

lemma insert_page_update:
  "well_placed h \<Longrightarrow>
   moved_to (snd (insert_page n r page h)) page' (insert_page n r page h) = insert_page n r page' h"
  by (auto simp: insert_page_def moved_to_def Let_def list_update_append well_placed_def)

lemma current_insert_page:
  "well_placed h \<Longrightarrow> current_tree (insert_page n r page h) = map_option snd page"
  by (auto simp: insert_page_def current_tree_def well_placed_def Let_def nat_less_iff)

lemma current_moved_to:
  "0 \<le> k \<Longrightarrow> k < int (length (fst h)) \<Longrightarrow> current_tree (moved_to k page h) = map_option snd page"
  by (simp add: current_tree_def moved_to_def nat_less_iff)

text \<open>A commit may go on changing the page that is current then.\<close>

lemma history_step_update:
  assumes step: "history_step env params type k h h'" and no: "type \<noteq> NAVIGATION_TYPE_NAV_IGNORE" and h: "well_placed h"
  shows "history_step env params type k h (moved_to (snd h') page' h')"
proof -
  let ?h = "if history_list_was_cleared params then ([], -1) else h"
  have "well_placed ?h" using h by simp
  note upd = insert_page_update [OF this] insert_page_update [OF h]
  show ?thesis
  proof (cases type)
    case NAVIGATION_TYPE_NEW_PAGE
    then obtain page where "h' = insert_page (max_entry_count env) (c_should_replace_current_entry params) page ?h"
      using step by (auto simp: history_step_def)
    then have "moved_to (snd h') page' h' =
        insert_page (max_entry_count env) (c_should_replace_current_entry params) page' ?h" by (simp only: upd)
    then show ?thesis unfolding NAVIGATION_TYPE_NEW_PAGE history_step_def NavigationType.case by blast
  next
    case NAVIGATION_TYPE_NEW_SUBFRAME
    then obtain page where "h' = insert_page (max_entry_count env) (c_should_replace_current_entry params) page h"
      using step by (auto simp: history_step_def)
    then have "moved_to (snd h') page' h' =
        insert_page (max_entry_count env) (c_should_replace_current_entry params) page' h" by (simp only: upd)
    then show ?thesis unfolding NAVIGATION_TYPE_NEW_SUBFRAME history_step_def NavigationType.case by blast
  qed (use step no in \<open>auto simp: history_step_def moved_to_def\<close>)
qed

subsection \<open>After the handler\<close>

lemma committed_state_core: "committed_state s \<Longrightarrow> nav_core s"
  by (simp add: committed_state_def settled_def)

lemma committed_entry_finish:
  "\<not> has_parent rfh \<Longrightarrow> GetURL e = c_url params \<Longrightarrow>
   GetURL (finish_committed_entry env rfh params h t e) = committed_url env rfh params h"
  "entry_site_instance (finish_committed_entry env rfh params h t e) = entry_site_instance e"
  by (auto simp: finish_committed_entry_def block_entry_def committed_url_def GetURL_def ResetForCommit_def Let_def
      entry_site_instance_def update_frame_entry_root [where h = fne_url]
      update_frame_entry_root [where h = fne_site_instance] FrameEntry_SetPageState_def SetVirtualURL_def SetURL_def
      update_root_def split: option.split)

text \<open>A commit ends at a CHECK when the bindings of its frame host do not fit those of the entry.\<close>

definition fits_or :: "nav_error set \<Rightarrow> committing_frame_host \<Rightarrow> nav_controller \<Rightarrow> bool" where
  "fits_or E rfh s \<longleftrightarrow> CheckFailed \<in> E \<or> all_fit (rfh_bindings rfh) s \<and> rfh_bindings rfh \<noteq> kInvalidBindings"

lemma complete_commit_ok:
  assumes st: "committed_state s" and fit: "fits_or E rfh s"
    and main: "\<not> has_parent rfh \<longrightarrow> shown_tree rfh params (history s)"
  shows "safe E (complete_commit env rfh params h ua s) (\<lambda>s'. committed_state s' \<and>
    (\<exists>page. history s' = moved_to (snd (history s)) page (history s)) \<and>
    (\<not> has_parent rfh \<longrightarrow> shows_page env rfh params h (history s')))"
proof -
  obtain t ts where ts: "GetSmoothedTime (current_time env) (time_smoother s) = (t, ts)" by fastforce
  let ?s0 = "s\<lparr>time_smoother := ts\<rparr>"
  have core: "nav_core ?s0" using st by (simp add: committed_state_core)
  define s1 where "s1 = drop_all ?s0"
  have core1: "nav_core s1" using core by (simp add: s1_def drop_all_ok)
  obtain p where p0: "last_committed_ptr s = Some p" using st by (auto simp: committed_state_def)
  have t0: "transient_entry_index s = -1" using st by (simp add: committed_state_def settled_def)
  have s1: "settled s1" "idle s1" "pending_entry s1 = None" "last_committed_ptr s1 = Some p" "history s1 = history s"
    using settled_drop_all [OF core] st p0 t0 history_drop_all [OF core]
    by (auto simp: s1_def committed_state_def last_committed_ptr_def split: if_splits)
  obtain e0 where e0: "objects s1 p = Some e0" using last_committed_alive [OF nav_core_parts(2) [OF core1] s1(4)] by blast
  define e where "e = finish_committed_entry env rfh params h t e0"
  note cur = current_entry [OF core1 s1(4)]
  let ?i = "last_committed_entry_index s1"
  have com: "committed_entries s1 = entries s1" using s1(1) by (simp add: settled_def)
  have i: "nat ?i < length (committed_entries s1)" using cur(1,2) com by (simp add: nat_less_iff)
  have old: "current_tree (history s1) = Some (frame_tree e0)"
    using cur(1,2) i cur(6) e0 com by (simp add: current_tree_def history_def page_of_def)
  have shown: "\<not> has_parent rfh \<longrightarrow> GetURL e0 = c_url params \<and> entry_site_instance e0 = rfh_site_instance rfh"
    using main old s1(5) by (auto simp: shown_tree_def shows_commit_def GetURL_def entry_site_instance_def)
  have site: "\<not> (\<not> has_parent rfh \<and> entry_site_instance e \<noteq> rfh_site_instance rfh)"
    using shown by (auto simp: e_def committed_entry_finish(2))
  have "objects s1 p = objects s p"
    using st by (auto simp: s1_def drop_all_def drop_transient_def drop_pending_def committed_state_def settled_def)
  then have fits: "CheckFailed \<in> E \<or> fits (rfh_bindings rfh) e \<and> rfh_bindings rfh \<noteq> kInvalidBindings"
    using fit e0 by (auto simp: fits_or_def all_fit_def e_def)
  define e' where "e' = e\<lparr>bindings := rfh_bindings rfh\<rparr>"
  have e': "unique_id e' = unique_id e0" "GetURL e' = GetURL e" "entry_site_instance e' = entry_site_instance e0"
    by (simp_all add: e'_def e_def GetURL_def entry_site_instance_def committed_entry_finish(2) [unfolded entry_site_instance_def])
  let ?s2 = "s1\<lparr>objects := (objects s1)(p \<mapsto> e')\<rparr>"
  note unfolded = complete_commit_def ts Let_def prod.case DiscardNonCommittedEntriesInternal_ok [OF core] bindE_Inr
      s1_def [symmetric] GetLastCommittedEntry_ok [OF nav_core_parts(2) [OF core1]] s1(4) not_null_def option.case
      deref_ok [OF e0] e_def [symmetric] if_not_P [OF site]
  show ?thesis
  proof (cases "fits (rfh_bindings rfh) e \<and> rfh_bindings rfh \<noteq> kInvalidBindings")
    case False
    then have "SetBindings (rfh_bindings rfh) e = Inl CheckFailed" by (auto simp: SetBindings_def fits_def)
    then show ?thesis unfolding unfolded using fits False by simp
  next
  case True
  then have set: "SetBindings (rfh_bindings rfh) e = Inr (e\<lparr>bindings := rfh_bindings rfh\<rparr>)"
    by (auto simp: SetBindings_def fits_def)
  have eq: "complete_commit env rfh params h ua s =
     (let s3 = notify (EntryCommitted p) (notify StateChangedAll ?s2);
          s4 = (if ua then notify UpdateOverridingUserAgent s3 else s3)
      in Inr (notify (SetNavEntryIds (unique_id e')) s4))"
    unfolding unfolded set e'_def [symmetric] modify_ok [OF e0] ..
  have index: "?i = snd (history s)" using s1(5) by (simp add: history_def)
  have done1: "committed_state ?s2"
    using settled_modify [OF s1(1) e0 e'(1)] s1 by (auto simp: committed_state_def last_committed_ptr_def split: if_splits)
  have hist: "history ?s2 = moved_to (snd (history s)) (Some (unique_id e', frame_tree e')) (history s)"
    using history_modify [OF core1 i cur(6)] s1(5) index by (simp add: moved_to_def)
  have "current_tree (history ?s2) = Some (frame_tree e')"
    unfolding hist using cur(1,2) com unfolding s1(5) [symmetric]
    by (subst current_moved_to) (auto simp: history_def)
  moreover have "\<not> has_parent rfh \<longrightarrow> GetURL e' = committed_url env rfh params h \<and> entry_site_instance e' = rfh_site_instance rfh"
    using shown committed_entry_finish(1) [of rfh e0 params env h t] e' by (simp add: e_def)
  ultimately have "\<not> has_parent rfh \<longrightarrow> shows_page env rfh params h (history ?s2)"
    by (simp add: shows_page_def GetURL_def entry_site_instance_def)
  then show ?thesis
    unfolding eq using done1 hist
    by (auto simp: Let_def committed_state_def settled_def last_committed_ptr_def)
  qed
qed

text \<open>The contract of a handler, and what holds of the commits that it serves.\<close>

locale commit_handler =
  fixes handler :: "nav_controller \<Rightarrow> nav_error + nav_controller"
    and applicable :: "nav_controller \<Rightarrow> bool"
    and env :: nav_env and rfh :: committing_frame_host and params :: commit_params and type :: NavigationType
  assumes handles: "nav_core s \<Longrightarrow> idle s \<Longrightarrow> applicable s \<Longrightarrow>
      safe {} (handler s) (\<lambda>s'. committed_state s' \<and> history_step env params type (target_index params type s) (history s) (history s') \<and>
        (\<not> has_parent rfh \<longrightarrow> shown_tree rfh params (history s')))"
    and keeps_fit: "all_fit b s \<Longrightarrow> safe UNIV (handler s) (all_fit b)"
    and commits: "type \<noteq> NAVIGATION_TYPE_NAV_IGNORE"
begin

lemma completes:
  assumes s: "nav_core s" "idle s" "applicable s"
    and fit: "fits_or E rfh s"
  shows "safe E (bindE (handler s) (complete_commit env rfh params h ua)) (\<lambda>s'. committed_state s' \<and>
      history_step env params type (target_index params type s) (history s) (history s') \<and>
      (\<not> has_parent rfh \<longrightarrow> shows_page env rfh params h (history s')))"
proof -
  obtain s1 where s1: "handler s = Inr s1" "committed_state s1" "history_step env params type (target_index params type s) (history s) (history s1)"
    "\<not> has_parent rfh \<longrightarrow> shown_tree rfh params (history s1)"
    using handles [OF s] by (auto simp: safe_total)
  have fit1: "fits_or E rfh s1" using fit keeps_fit [of "rfh_bindings rfh" s] s1(1) by (auto simp: fits_or_def)
  show ?thesis
    unfolding s1(1) bindE_Inr
    by (rule safe_mono [OF complete_commit_ok [OF s1(2) fit1 s1(4)]])
      (use history_step_update [OF s1(3) commits well_placed_history [OF s(1)]] in auto)
qed

end

lemma NewPage_handles:
  assumes "nav_core s" "idle s" "2 \<le> max_entry_count env"
  shows "safe {} (RendererDidNavigateToNewPage env rfh params sd (c_should_replace_current_entry params) h s) (\<lambda>s'.
      committed_state s' \<and> history_step env params NAVIGATION_TYPE_NEW_PAGE (target_index params NAVIGATION_TYPE_NEW_PAGE s) (history s) (history s') \<and>
      (\<not> has_parent rfh \<longrightarrow> shown_tree rfh params (history s')))"
proof (rule safe_mono [OF NewPage_ok [OF assms]], elim conjE exE)
  fix s' p and e :: NavigationEntryImpl
  let ?h = "if history_list_was_cleared params then ([], -1) else history s"
  let ?h' = "insert_page (max_entry_count env) (c_should_replace_current_entry params) (Some (unique_id e, frame_tree e)) ?h"
  assume st: "committed_state s'" "GetURL e = c_url params" "entry_site_instance e = rfh_site_instance rfh"
    and h: "history s' = ?h'"
  have "well_placed ?h" using well_placed_history [OF assms(1)] by simp
  then have "shown_tree rfh params (history s')"
    using current_insert_page st(2,3) unfolding h
    by (simp add: shown_tree_def shows_commit_def GetURL_def entry_site_instance_def)
  moreover have "history_step env params NAVIGATION_TYPE_NEW_PAGE (target_index params NAVIGATION_TYPE_NEW_PAGE s) (history s) (history s')"
    unfolding history_step_def NavigationType.case using h by blast
  ultimately show "committed_state s' \<and> history_step env params NAVIGATION_TYPE_NEW_PAGE (target_index params NAVIGATION_TYPE_NEW_PAGE s) (history s) (history s') \<and>
      (\<not> has_parent rfh \<longrightarrow> shown_tree rfh params (history s'))"
    using st(1) by blast
qed

interpretation NewPage: commit_handler
  "RendererDidNavigateToNewPage env rfh params sd (c_should_replace_current_entry params) h"
  "\<lambda>s. 2 \<le> max_entry_count env" env rfh params NAVIGATION_TYPE_NEW_PAGE for env rfh params sd h
  by unfold_locales (simp_all add: NewPage_handles fit_new_page)

lemma ExistingPage_handles:
  assumes "nav_core s" "idle s" "last_committed_ptr s \<noteq> None" "intended_as_new_entry params \<or> known_entry params s" "commit_target params s \<noteq> -1"
  shows "safe {} (RendererDidNavigateToExistingPage env rfh params sd restored h s) (\<lambda>s'.
      committed_state s' \<and> history_step env params NAVIGATION_TYPE_EXISTING_PAGE (target_index params NAVIGATION_TYPE_EXISTING_PAGE s) (history s) (history s') \<and>
      (\<not> has_parent rfh \<longrightarrow> shown_tree rfh params (history s')))"
proof -
  obtain l where l: "last_committed_ptr s = Some l" using assms(3) by blast
  let ?k = "committed_index s (commit_target params s)"
  show ?thesis
  proof (rule safe_mono [OF ExistingPage_ok [OF assms(1,2) l assms(4,5)]], elim conjE exE)
    fix s' uid old new
    assume st: "committed_state s'" and k: "0 \<le> ?k" "?k < int (length (fst (history s)))"
      and u: "\<not> has_parent rfh \<longrightarrow> shows_commit rfh params new"
      and h: "history s' = ((fst (history s))[nat ?k := Some (uid, new)], ?k)"
    have m: "history s' = moved_to ?k (Some (uid, new)) (history s)" using h by (simp add: moved_to_def)
    have target: "target_index params NAVIGATION_TYPE_EXISTING_PAGE s = ?k" by (simp add: target_index_def)
    have "history_step env params NAVIGATION_TYPE_EXISTING_PAGE (target_index params NAVIGATION_TYPE_EXISTING_PAGE s) (history s) (history s')"
      unfolding history_step_def NavigationType.case target using k m by blast
    moreover have "\<not> has_parent rfh \<longrightarrow> shown_tree rfh params (history s')"
      unfolding m using current_moved_to [OF k] u by (simp add: shown_tree_def)
    ultimately show "committed_state s' \<and> history_step env params NAVIGATION_TYPE_EXISTING_PAGE (target_index params NAVIGATION_TYPE_EXISTING_PAGE s) (history s) (history s') \<and>
      (\<not> has_parent rfh \<longrightarrow> shown_tree rfh params (history s'))" using st by blast
  qed
qed

interpretation ExistingPage: commit_handler
  "RendererDidNavigateToExistingPage env rfh params sd restored h"
  "\<lambda>s. last_committed_ptr s \<noteq> None \<and> (intended_as_new_entry params \<or> known_entry params s) \<and> commit_target params s \<noteq> -1"
  env rfh params NAVIGATION_TYPE_EXISTING_PAGE for env rfh params sd restored h
  by unfold_locales (blast intro: ExistingPage_handles, simp_all add: fit_existing_page)

definition same_page_again :: "committing_frame_host \<Rightarrow> nav_controller \<Rightarrow> bool" where
  "same_page_again rfh s \<longleftrightarrow> pending_entry s \<noteq> None \<and> pending_entry_index s = -1 \<and>
     (\<exists>l le. last_committed_ptr s = Some l \<and> objects s l = Some le \<and> entry_site_instance le = rfh_site_instance rfh)"

lemma SamePage_handles:
  assumes s: "nav_core s" "idle s" and again: "same_page_again rfh s"
  shows "safe {} (RendererDidNavigateToSamePage env rfh params h s) (\<lambda>s'.
      committed_state s' \<and> history_step env params NAVIGATION_TYPE_SAME_PAGE (target_index params NAVIGATION_TYPE_SAME_PAGE s) (history s) (history s') \<and>
      (\<not> has_parent rfh \<longrightarrow> shown_tree rfh params (history s')))"
proof -
  obtain q l le where q: "pending_entry s = Some q" "pending_entry_index s = -1"
    and l: "last_committed_ptr s = Some l" "objects s l = Some le" "entry_site_instance le = rfh_site_instance rfh"
    using again by (auto simp: same_page_again_def)
  let ?k = "last_committed_entry_index s"
  have k: "0 \<le> ?k" "?k < int (length (fst (history s)))"
    using current_entry(1) [OF s(1) l(1)] committed_entries_facts(3) [OF nav_core_parts(2) [OF s(1)]]
    by (simp_all add: history_def)
  show ?thesis
  proof (rule safe_mono [OF SamePage_ok [OF s l q]], elim conjE exE)
    fix s' uid tree
    assume st: "committed_state s'" and u: "\<not> has_parent rfh \<longrightarrow> shows_commit rfh params tree"
      and h: "history s' = ((fst (history s))[nat ?k := Some (uid, tree)], ?k)"
    have m: "history s' = moved_to ?k (Some (uid, tree)) (history s)" using h by (simp add: moved_to_def)
    have "target_index params NAVIGATION_TYPE_SAME_PAGE s = ?k" by (simp add: target_index_def)
    then have "history_step env params NAVIGATION_TYPE_SAME_PAGE (target_index params NAVIGATION_TYPE_SAME_PAGE s) (history s) (history s')"
      unfolding history_step_def NavigationType.case using k m by metis
    moreover have "\<not> has_parent rfh \<longrightarrow> shown_tree rfh params (history s')"
      unfolding m using current_moved_to [OF k] u by (simp add: shown_tree_def)
    ultimately show "committed_state s' \<and> history_step env params NAVIGATION_TYPE_SAME_PAGE (target_index params NAVIGATION_TYPE_SAME_PAGE s) (history s) (history s') \<and>
      (\<not> has_parent rfh \<longrightarrow> shown_tree rfh params (history s'))" using st by blast
  qed
qed

interpretation SamePage: commit_handler "RendererDidNavigateToSamePage env rfh params h" "same_page_again rfh"
  env rfh params NAVIGATION_TYPE_SAME_PAGE for env rfh params h
  by unfold_locales (simp_all add: SamePage_handles fit_same_page)

lemma NewSubframe_handles:
  assumes s: "nav_core s" "idle s" and l: "last_committed_ptr s \<noteq> None" and "has_parent rfh" "2 \<le> max_entry_count env"
  shows "safe {} (RendererDidNavigateNewSubframe env rfh params sd (c_should_replace_current_entry params) s) (\<lambda>s'.
      committed_state s' \<and> history_step env params NAVIGATION_TYPE_NEW_SUBFRAME (target_index params NAVIGATION_TYPE_NEW_SUBFRAME s) (history s) (history s') \<and>
      (\<not> has_parent rfh \<longrightarrow> shown_tree rfh params (history s')))"
proof -
  obtain q where q: "last_committed_ptr s = Some q" using l by blast
  show ?thesis
    by (rule safe_mono [OF NewSubframe_ok [OF s q assms(5)]])
      (use assms(4) in \<open>auto simp: history_step_def\<close>)
qed

interpretation NewSubframe: commit_handler
  "RendererDidNavigateNewSubframe env rfh params sd (c_should_replace_current_entry params)"
  "\<lambda>s. last_committed_ptr s \<noteq> None \<and> has_parent rfh \<and> 2 \<le> max_entry_count env"
  env rfh params NAVIGATION_TYPE_NEW_SUBFRAME for env rfh params sd
  by unfold_locales (blast intro: NewSubframe_handles, simp_all add: fit_new_subframe)

subsection \<open>The whole commit\<close>

text \<open>What a renderer may report without reaching an object that is gone: it does not name the
  transient entry, and when it names the entry of a failed load, the list still has that entry.\<close>

definition honest_report :: "commit_params \<Rightarrow> nav_controller \<Rightarrow> bool" where
  "honest_report params s \<longleftrightarrow> known_entry params s \<and>
     (\<not> intended_as_new_entry params \<and> nav_entry_id params \<noteq> 0 \<and> url_is_unreachable params \<and>
      nav_entry_id params = failed_pending_entry_id s \<longrightarrow>
      GetEntryIndexWithUniqueID (nav_entry_id params) s \<noteq> -1)"

lemma classify_known:
  assumes "classify rfh params lc pend s = NAVIGATION_TYPE_EXISTING_PAGE"
    and "lc \<noteq> None \<longrightarrow> last_committed_entry_index s \<noteq> -1"
  shows "lc \<noteq> None" "honest_report params s \<Longrightarrow> commit_target params s \<noteq> -1"
  using assms by (auto simp: classify_def commit_target_def honest_report_def Let_def split: if_splits)

lemma classify_same:
  assumes "classify rfh params lc pend s = NAVIGATION_TYPE_SAME_PAGE"
  shows "\<exists>le. lc = Some le \<and> entry_site_instance le = rfh_site_instance rfh"
    and "pend \<noteq> None" "pending_entry_index s = -1"
  using assms by (auto simp: classify_def Let_def split: if_splits option.splits)

lemma classify_subframe:
  "classify rfh params lc pend s = NAVIGATION_TYPE_NEW_SUBFRAME \<Longrightarrow> lc \<noteq> None \<and> has_parent rfh"
  "classify rfh params lc pend s = NAVIGATION_TYPE_AUTO_SUBFRAME \<Longrightarrow> lc \<noteq> None \<and> has_parent rfh"
  by (auto simp: classify_def Let_def split: if_splits)

lemma ClassifyNavigation_ok:
  assumes "nav_core s"
  shows "ClassifyNavigation rfh params s =
     Inr (classify rfh params (Option.bind (last_committed_ptr s) (objects s)) (Option.bind (pending_entry s) (objects s)) s)"
proof -
  have l: "list_ok s" and p: "pending_ok s" using assms by (auto simp: nav_core_def)
  have "deref_option (last_committed_ptr s) s = Inr (Option.bind (last_committed_ptr s) (objects s))"
    using last_committed_alive [OF l] by (intro deref_option_ok) blast
  moreover have "deref_option (pending_entry s) s = Inr (Option.bind (pending_entry s) (objects s))"
    using pending_alive [OF p] by (intro deref_option_ok) blast
  ultimately show ?thesis by (simp add: ClassifyNavigation_def GetLastCommittedEntry_ok [OF l])
qed

text \<open>States that differ in what the commit changes before it is classified.\<close>

definition alike :: "nav_controller \<Rightarrow> nav_controller \<Rightarrow> bool" where
  "alike s s' \<longleftrightarrow> nav_core s' \<and> idle s' = idle s \<and> history s' = history s \<and> entries s' = entries s \<and>
     pending_entry s' = pending_entry s \<and> pending_entry_index s' = pending_entry_index s \<and>
     last_committed_entry_index s' = last_committed_entry_index s \<and>
     transient_entry_index s' = transient_entry_index s \<and> failed_pending_entry_id s' = failed_pending_entry_id s \<and>
     (\<forall>p. map_option unique_id (objects s' p) = map_option unique_id (objects s p)) \<and>
     (\<forall>p. map_option entry_site_instance (objects s' p) = map_option entry_site_instance (objects s p)) \<and>
     (\<forall>b. all_fit b s' = all_fit b s)"

lemma alike_parts:
  assumes "alike s s'"
  shows "nav_core s'" "idle s' = idle s" "history s' = history s" "last_committed_ptr s' = last_committed_ptr s"
    "pending_entry s' = pending_entry s" "pending_entry_index s' = pending_entry_index s"
    "transient_entry_index s' = transient_entry_index s"
    and "GetEntryIndexWithUniqueID uid s' = GetEntryIndexWithUniqueID uid s"
    and "target_index params type s' = target_index params type s"
    and "honest_report params s' = honest_report params s" "all_fit b s' = all_fit b s"
  using assms entry_index_cong [of s' s]
  by (auto simp: alike_def last_committed_ptr_def honest_report_def known_entry_def target_index_def auto_target_def
      commit_target_def committed_index_def Let_def split: NavigationType.split)

lemma classify_cong:
  assumes "map_option entry_site_instance lc' = map_option entry_site_instance lc"
    and "map_option unique_id pend' = map_option unique_id pend"
    and "pending_entry_index s' = pending_entry_index s" "failed_pending_entry_id s' = failed_pending_entry_id s"
    and "GetEntryIndexWithUniqueID (nav_entry_id params) s' = GetEntryIndexWithUniqueID (nav_entry_id params) s"
  shows "classify rfh params lc' pend' s' = classify rfh params lc pend s"
proof -
  have none: "lc' = None \<longleftrightarrow> lc = None" using assms(1) by (cases lc; cases lc') simp_all
  have site: "(case lc' of None \<Rightarrow> False | Some e \<Rightarrow> entry_site_instance e \<noteq> rfh_site_instance rfh) =
      (case lc of None \<Rightarrow> False | Some e \<Rightarrow> entry_site_instance e \<noteq> rfh_site_instance rfh)"
    using assms(1) by (cases lc; cases lc') simp_all
  show ?thesis unfolding classify_def Let_def none site assms(2-5) ..
qed

lemma alike_classify:
  assumes "nav_core s" "alike s s'"
  shows "ClassifyNavigation rfh params s' = ClassifyNavigation rfh params s"
proof -
  have m: "map_option f (Option.bind r (objects s')) = map_option f (Option.bind r (objects s))"
    if "\<And>p. map_option f (objects s' p) = map_option f (objects s p)" for f r
    using that by (cases r) auto
  have "classify rfh params (Option.bind (last_committed_ptr s') (objects s')) (Option.bind (pending_entry s') (objects s')) s' =
      classify rfh params (Option.bind (last_committed_ptr s) (objects s)) (Option.bind (pending_entry s) (objects s)) s"
    unfolding alike_parts(4,5) [OF assms(2)]
    by (rule classify_cong) (use assms(2) m alike_parts [OF assms(2)] in \<open>auto simp: alike_def\<close>)
  then show ?thesis
    using ClassifyNavigation_ok assms alike_parts(1) [OF assms(2)] by simp
qed

lemma alike_trans: "alike s s' \<Longrightarrow> alike s' s'' \<Longrightarrow> alike s s''"
  by (simp add: alike_def)

lemma clear_restore_type_ok:
  assumes "nav_core s"
  shows "\<exists>b s'. clear_restore_type s = Inr (b, s') \<and> alike s s'"
proof (cases "pending_entry s")
  case None
  then have "clear_restore_type s = Inr (False, s)" by (simp add: clear_restore_type_def)
  moreover have "alike s s" using assms by (simp add: alike_def)
  ultimately show ?thesis by blast
next
  case (Some p)
  obtain e where e: "objects s p = Some e" using Some pending_alive nav_core_parts(3) [OF assms] by blast
  let ?e = "e\<lparr>restore_type := RESTORE_NONE\<rparr>"
  have "alike s s" using assms by (simp add: alike_def)
  moreover have "all_fit b (s\<lparr>objects := (objects s)(p \<mapsto> ?e)\<rparr>) = all_fit b s" for b
    using e by (auto simp: all_fit_def split: if_splits)
  then have "alike s (s\<lparr>objects := (objects s)(p \<mapsto> ?e)\<rparr>)"
    using modify_keeps [OF assms e, of ?e] e by (auto simp: alike_def entry_site_instance_def)
  ultimately show ?thesis using Some e by (auto simp: clear_restore_type_def deref_ok modify_ok)
qed

lemma record_reload_ok:
  assumes "nav_core s"
  shows "\<exists>s'. record_reload env params h s = Inr s' \<and> alike s s'"
proof -
  have refl: "alike s s" using assms by (simp add: alike_def)
  have upd: "alike s (s\<lparr>last_committed_reload_type := r, time_smoother := ts, last_committed_reload_time := t\<rparr>)"
    "alike s (s\<lparr>last_committed_reload_type := r, last_committed_reload_time := t\<rparr>)" for r ts t
    using assms by (simp_all add: alike_def)
  show ?thesis
  proof (cases "PendingEntryMatchesHandle (pending_nav_entry_id h) s")
    case False then show ?thesis using refl by (simp add: record_reload_def)
  next
    case True
    then obtain p e where "pending_entry s = Some p" "objects s p = Some e"
      by (auto simp: PendingEntryMatchesHandle_def bind_eq_Some_conv)
    then show ?thesis using True refl upd
      by (auto simp: record_reload_def not_null_def deref_ok split: prod.split)
  qed
qed

lemma dispatch_ignored:
  assumes core: "nav_core s" and id: "idle s"
  shows "safe {} (dispatch_commit env rfh params sd restored h NAVIGATION_TYPE_NAV_IGNORE s) (\<lambda>(committed, s').
      \<not> committed \<and> nav_ok s' \<and> history s' = history s)"
proof -
  obtain evs where "DiscardNonCommittedEntries env s = Inr ((drop_all s)\<lparr>events := evs\<rparr>)"
    using DiscardNonCommittedEntries_ok [OF core] by blast
  then show ?thesis
    using core id by (simp add: dispatch_commit_def nav_ok_def drop_all_ok history_drop_all)
qed

lemma bindE_assoc: "bindE (bindE m f) g = bindE m (\<lambda>x. bindE (f x) g)"
  by (cases m) simp_all

text \<open>The end of a commit, after the state was prepared.\<close>

definition rest_of_commit ::
  "nav_env \<Rightarrow> committing_frame_host \<Rightarrow> commit_params \<Rightarrow> bool \<Rightarrow> bool \<Rightarrow> nav_handle \<Rightarrow> bool \<Rightarrow> NavigationType \<Rightarrow> nav_controller \<Rightarrow>
   nav_error + bool \<times> nav_controller" where
  "rest_of_commit env rfh params sd restored h ua type s =
     bindE (dispatch_commit env rfh params sd restored h type s) (\<lambda>(committed, s3).
       if \<not> committed then Inr (False, s3)
       else bindE (complete_commit env rfh params h ua s3) (\<lambda>s4. Inr (True, s4)))"

definition commit_result ::
  "nav_env \<Rightarrow> committing_frame_host \<Rightarrow> commit_params \<Rightarrow> nav_handle \<Rightarrow> NavigationType \<Rightarrow> nav_controller \<Rightarrow> bool \<times> nav_controller \<Rightarrow> bool" where
  "commit_result env rfh params h type s = (\<lambda>(committed, s').
     nav_ok s' \<and> history_step env params type (target_index params type s) (history s) (history s') \<and>
     (committed \<longrightarrow> committed_state s') \<and>
     (committed \<longrightarrow> \<not> has_parent rfh \<longrightarrow> shows_page env rfh params h (history s')))"

lemma handled:
  assumes "dispatch_commit env rfh params sd restored h type s = bindE m (\<lambda>s1. Inr (True, s1))"
    and "safe E (bindE m (complete_commit env rfh params h ua)) (\<lambda>s'. committed_state s' \<and>
      history_step env params type (target_index params type s) (history s) (history s') \<and>
      (\<not> has_parent rfh \<longrightarrow> shows_page env rfh params h (history s')))"
  shows "safe E (rest_of_commit env rfh params sd restored h ua type s) (commit_result env rfh params h type s)"
  using assms(2)
  by (auto simp: rest_of_commit_def assms(1) commit_result_def nav_ok_def committed_state_def settled_def
      elim!: safe_mono)

lemma AutoSubframe_completes:
  assumes s: "nav_core s" "idle s" and l: "last_committed_ptr s = Some l" and known: "known_entry params s \<or> OutOfRange \<in> E"
    and sub: "has_parent rfh" and fit: "fits_or E rfh s"
  shows "safe E (rest_of_commit env rfh params sd restored h ua NAVIGATION_TYPE_AUTO_SUBFRAME s)
           (commit_result env rfh params h NAVIGATION_TYPE_AUTO_SUBFRAME s)"
proof -
  let ?k = "auto_target params s"
  note outcome = AutoSubframe_ok [OF s l known, of env rfh]
  show ?thesis
  proof (cases "RendererDidNavigateAutoSubframe env rfh params s")
    case (Inl x)
    then show ?thesis using outcome by (simp add: rest_of_commit_def dispatch_commit_def)
  next
  case (Inr result)
  then obtain moved s1 page where r: "RendererDidNavigateAutoSubframe env rfh params s = Inr (moved, s1)"
    "nav_ok s1" "last_committed_ptr s1 \<noteq> None" "moved \<longrightarrow> committed_state s1"
    "history s1 = ((fst (history s))[nat ?k := page], ?k)"
    using outcome by (cases result) auto
  have fit1: "fits_or E rfh s1"
    using fit fit_auto_subframe [of "rfh_bindings rfh" s env rfh params] r(1) by (auto simp: fits_or_def)
  have core1: "nav_core s1" using r(2) by (simp add: nav_ok_def)
  have m: "history s1 = moved_to ?k page (history s)" using r(5) by (simp add: moved_to_def)
  obtain q where q: "last_committed_ptr s1 = Some q" using r(3) by blast
  have "0 \<le> snd (history s1)" "snd (history s1) < int (length (fst (history s1)))"
    using current_entry(1) [OF core1 q] committed_entries_facts(3) [OF nav_core_parts(2) [OF core1]]
    by (simp_all add: history_def)
  then have k: "0 \<le> ?k" "?k < int (length (fst (history s)))" by (simp_all add: m moved_to_def)
  have target: "target_index params NAVIGATION_TYPE_AUTO_SUBFRAME s = ?k" by (simp add: target_index_def)
  have step: "history_step env params NAVIGATION_TYPE_AUTO_SUBFRAME (target_index params NAVIGATION_TYPE_AUTO_SUBFRAME s) (history s) (history s1)"
    unfolding history_step_def NavigationType.case target using k m by blast
  have well: "well_placed (history s)" using s(1) by (rule well_placed_history)
  show ?thesis
  proof (cases moved)
    case False
    have g: "GetLastCommittedEntry s1 = Inr (last_committed_ptr s1)"
      by (rule GetLastCommittedEntry_ok [OF nav_core_parts(2) [OF core1]])
    show ?thesis using False r(2) step
      by (simp add: rest_of_commit_def dispatch_commit_def r(1) g commit_result_def nav_ok_def)
  next
    case True
    then have st: "committed_state s1" using r(4) by blast
    have "rest_of_commit env rfh params sd restored h ua NAVIGATION_TYPE_AUTO_SUBFRAME s =
        bindE (complete_commit env rfh params h ua s1) (\<lambda>s4. Inr (True, s4))"
      using True by (simp add: rest_of_commit_def dispatch_commit_def r(1))
    then show ?thesis
      using complete_commit_ok [OF st fit1, of params env h ua] sub history_step_update [OF step _ well]
      by (auto simp: commit_result_def nav_ok_def committed_state_def settled_def elim!: safe_mono)
  qed
  qed
qed

lemma dispatch_simps:
  "dispatch_commit env rfh params sd restored h NAVIGATION_TYPE_NEW_PAGE s =
     bindE (RendererDidNavigateToNewPage env rfh params sd (c_should_replace_current_entry params) h s) (\<lambda>s1. Inr (True, s1))"
  "dispatch_commit env rfh params sd restored h NAVIGATION_TYPE_EXISTING_PAGE s =
     bindE (RendererDidNavigateToExistingPage env rfh params sd restored h s) (\<lambda>s1. Inr (True, s1))"
  "dispatch_commit env rfh params sd restored h NAVIGATION_TYPE_SAME_PAGE s =
     bindE (RendererDidNavigateToSamePage env rfh params h s) (\<lambda>s1. Inr (True, s1))"
  "dispatch_commit env rfh params sd restored h NAVIGATION_TYPE_NEW_SUBFRAME s =
     bindE (RendererDidNavigateNewSubframe env rfh params sd (c_should_replace_current_entry params) s) (\<lambda>s1. Inr (True, s1))"
  by (simp_all add: dispatch_commit_def)

lemma rest_of_commit_ok:
  assumes s: "nav_core s" "idle s" and honest: "honest_report params s \<or> {NullPointer, OutOfRange} \<subseteq> E" and room: "2 \<le> max_entry_count env"
    and type: "ClassifyNavigation rfh params s = Inr type"
    and fit: "fits_or E rfh s"
  shows "safe E (rest_of_commit env rfh params sd restored h ua type s) (commit_result env rfh params h type s)"
proof -
  let ?lc = "Option.bind (last_committed_ptr s) (objects s)" and ?pe = "Option.bind (pending_entry s) (objects s)"
  have c: "classify rfh params ?lc ?pe s = type" using type ClassifyNavigation_ok [OF s(1)] by simp
  have lc: "?lc \<noteq> None \<Longrightarrow> last_committed_ptr s \<noteq> None" by (cases "last_committed_ptr s") simp_all
  show ?thesis
  proof (cases type)
    case NAVIGATION_TYPE_NEW_PAGE
    show ?thesis unfolding NAVIGATION_TYPE_NEW_PAGE
      by (rule handled [OF dispatch_simps(1) NewPage.completes [OF s room fit]])
  next
    case NAVIGATION_TYPE_EXISTING_PAGE
    have "?lc \<noteq> None \<longrightarrow> last_committed_entry_index s \<noteq> -1"
      using lc by (auto simp: last_committed_ptr_def)
    note ck = classify_known [OF c [unfolded NAVIGATION_TYPE_EXISTING_PAGE] this]
    obtain l where l: "last_committed_ptr s = Some l" using lc ck(1) by blast
    let ?run = "bindE (RendererDidNavigateToExistingPage env rfh params sd restored h s) (complete_commit env rfh params h ua)"
    show ?thesis
    proof (cases "(intended_as_new_entry params \<or> known_entry params s) \<and> commit_target params s \<noteq> -1")
      case True
      then have "last_committed_ptr s \<noteq> None \<and> (intended_as_new_entry params \<or> known_entry params s) \<and>
          commit_target params s \<noteq> -1" using l by blast
      then show ?thesis unfolding NAVIGATION_TYPE_EXISTING_PAGE
        by (rule handled [OF dispatch_simps(2) ExistingPage.completes [OF s _ fit]])
    next
      case False
      then have "NullPointer \<in> E" using honest ck(2) by (auto simp: honest_report_def)
      moreover have "?run = Inl NullPointer"
        using False ExistingPage_gone [OF nav_core_parts(2) [OF s(1)] l, of params env rfh sd restored h]
          ExistingPage_transient [OF s(1) l, of params env rfh sd restored h ua] by auto
      ultimately show ?thesis unfolding NAVIGATION_TYPE_EXISTING_PAGE
        by (intro handled [OF dispatch_simps(2)]) simp
    qed
  next
    case NAVIGATION_TYPE_SAME_PAGE
    from classify_same [OF c [unfolded NAVIGATION_TYPE_SAME_PAGE]]
    have "same_page_again rfh s"
      by (auto simp: same_page_again_def bind_eq_Some_conv)
    then show ?thesis unfolding NAVIGATION_TYPE_SAME_PAGE
      by (rule handled [OF dispatch_simps(3) SamePage.completes [OF s _ fit]])
  next
    case NAVIGATION_TYPE_NEW_SUBFRAME
    have "last_committed_ptr s \<noteq> None \<and> has_parent rfh \<and> 2 \<le> max_entry_count env"
      using classify_subframe(1) [OF c [unfolded NAVIGATION_TYPE_NEW_SUBFRAME]] lc room by blast
    then show ?thesis unfolding NAVIGATION_TYPE_NEW_SUBFRAME
      by (rule handled [OF dispatch_simps(4) NewSubframe.completes [OF s _ fit]])
  next
    case NAVIGATION_TYPE_AUTO_SUBFRAME
    obtain l where "last_committed_ptr s = Some l" "has_parent rfh"
      using classify_subframe(2) [OF c [unfolded NAVIGATION_TYPE_AUTO_SUBFRAME]] lc by blast
    then show ?thesis unfolding NAVIGATION_TYPE_AUTO_SUBFRAME using AutoSubframe_completes [OF s _ _ _ fit] honest
      by (auto simp: honest_report_def)
  next
    case NAVIGATION_TYPE_NAV_IGNORE
    obtain s1 where "dispatch_commit env rfh params sd restored h NAVIGATION_TYPE_NAV_IGNORE s = Inr (False, s1)"
      "nav_ok s1" "history s1 = history s"
      using dispatch_ignored [OF s, of env rfh params sd restored h] by (auto simp: safe_total)
    then show ?thesis unfolding NAVIGATION_TYPE_NAV_IGNORE
      by (simp add: rest_of_commit_def commit_result_def history_step_def)
  qed
qed

lemma RendererDidNavigate_ok:
  assumes ok: "nav_ok s" and honest: "honest_report params s \<or> {NullPointer, OutOfRange} \<subseteq> E" and room: "2 \<le> max_entry_count env"
    and type: "ClassifyNavigation rfh params s = Inr type"
    and fit: "fits_or E rfh s"
  shows "safe E (RendererDidNavigate env rfh params sd h s) (commit_result env rfh params h type s)"
proof -
  let ?s = "s\<lparr>is_initial_navigation := False\<rparr>"
  have core: "nav_core s" and id: "idle s" using ok by (simp_all add: nav_ok_def)
  have a0: "alike s ?s" using core by (simp add: alike_def)
  have core0: "nav_core ?s" using core by simp
  obtain b s1 where s1: "clear_restore_type ?s = Inr (b, s1)" "alike ?s s1" using clear_restore_type_ok [OF core0] by blast
  have a1: "alike s s1" using alike_trans [OF a0 s1(2)] .
  obtain s2 where s2: "record_reload env params h s1 = Inr s2" "alike s1 s2"
    using record_reload_ok [OF alike_parts(1) [OF a1]] by blast
  have a2: "alike s s2" using alike_trans [OF a1 s2(2)] .
  note parts = alike_parts [OF a2]
  have l: "list_ok ?s" and p: "pending_ok ?s" using core0 by (auto simp: nav_core_def)
  obtain lc where lc: "deref_option (last_committed_ptr ?s) ?s = Inr lc"
    using deref_option_ok [of "last_committed_ptr ?s" ?s] last_committed_alive [OF l] by (metis option.distinct(1))
  obtain pe where pe: "deref_option (pending_entry ?s) ?s = Inr pe"
    using deref_option_ok [of "pending_entry ?s" ?s] pending_alive [OF p] by (metis option.distinct(1))
  have "RendererDidNavigate env rfh params sd h s =
      rest_of_commit env rfh params sd b h (overriding_user_agent_changed lc pe) type s2"
    unfolding RendererDidNavigate_def Let_def GetLastCommittedEntry_ok [OF l] bindE_Inr lc pe s1(1) prod.case
      alike_classify [OF core a1] type s2(1) rest_of_commit_def ..
  moreover have "ClassifyNavigation rfh params s2 = Inr type" using alike_classify [OF core a2] type by simp
  moreover have "commit_result env rfh params h type s2 = commit_result env rfh params h type s"
    by (simp add: commit_result_def parts(3) alike_parts(9) [OF a2])
  moreover have "fits_or E rfh s2" using fit parts by (simp add: fits_or_def)
  ultimately show ?thesis
    using rest_of_commit_ok [of s2 params E env rfh type sd b h] parts id honest room by simp
qed

end
