(* ===== verification/Nav_Copy.thy ===== *)
theory Nav_Copy
  imports Nav_Navigate
begin

text \<open>
  Histories that come from elsewhere: restored entries, and the copies that a duplicated or
  prerendered tab takes over. A copied entry has a new id and a copy of the frame tree.
\<close>

subsection \<open>Copies of frame trees\<close>

fun clone_tree :: "TreeNode \<Rightarrow> TreeNode" where
  "clone_tree (TreeNode fe cs) = TreeNode (fe\<lparr>fne_source_site_instance := None\<rparr>) (map clone_tree cs)"

lemma FrameEntry_Clone_eq: "FrameEntry_Clone fe = fe\<lparr>fne_source_site_instance := None\<rparr>"
  by (simp add: FrameEntry_Clone_def UpdateEntry_def)

lemma Tree_Clone: "Tree_CloneAndReplace fe cc None None path t = clone_tree t"
proof (induction t arbitrary: path)
  case (TreeNode own cs)
  have "concat (map (\<lambda>(i, child). [Tree_CloneAndReplace fe cc None None (path @ [i]) child]) (enumerate n cs)) =
      map clone_tree cs" if "\<And>c p. c \<in> set cs \<Longrightarrow> Tree_CloneAndReplace fe cc None None p c = clone_tree c" for n
    using that by (induction cs arbitrary: n) auto
  then show ?case using TreeNode by (simp add: FrameEntry_Clone_eq)
qed

lemma Entry_Clone_tree: "frame_tree (Entry_Clone ps uid e) = clone_tree (frame_tree e)"
  by (simp add: Entry_Clone_def Entry_CloneAndReplace_def Tree_Clone)

declare Tree_CloneAndReplace.simps [simp del]

subsection \<open>Inserting copies\<close>

definition shown :: "NavigationEntryImpl list \<Rightarrow> NavigationEntryImpl list" where
  "shown es = filter (\<lambda>e. page_type e \<noteq> PAGE_TYPE_INTERSTITIAL) es"

definition with_clones :: "page_env \<Rightarrow> NavigationEntryImpl list \<Rightarrow> nav_controller \<Rightarrow> entry_ptr \<Rightarrow> NavigationEntryImpl option" where
  "with_clones ps es s p =
     (if created s \<le> p \<and> p < created s + length es
      then Some (Entry_Clone ps (int p + 1) (es ! (p - created s))) else objects s p)"

lemma insert_clones_eq:
  "i \<le> length (entries s) \<Longrightarrow>
   insert_clones ps es i s = s\<lparr>objects := with_clones ps (shown es) s, created := created s + length (shown es),
     entries := take i (entries s) @ [created s..<created s + length (shown es)] @ drop i (entries s)\<rparr>"
proof (induction es arbitrary: i s)
  case Nil
  have "with_clones ps [] s = objects s" by (auto simp: with_clones_def fun_eq_iff)
  then show ?case by (simp add: shown_def)
next
  case (Cons e es)
  show ?case
  proof (cases "page_type e = PAGE_TYPE_INTERSTITIAL")
    case True then show ?thesis using Cons by (simp add: shown_def)
  next
    case False
    let ?p = "created s"
    let ?s = "s\<lparr>objects := (objects s)(?p \<mapsto> Entry_Clone ps (int ?p + 1) e), created := Suc ?p,
        entries := take i (entries s) @ ?p # drop i (entries s)\<rparr>"
    have step: "insert_clones ps (e # es) i s = insert_clones ps es (Suc i) ?s"
      using False by (simp add: new_object_def)
    have objs: "with_clones ps (shown es) ?s = with_clones ps (shown (e # es)) s"
    proof
      fix p
      consider "p < ?p" | "p = ?p" | "Suc ?p \<le> p" by linarith
      then show "with_clones ps (shown es) ?s p = with_clones ps (shown (e # es)) s p"
      proof cases
        case 3
        then have "p - ?p = Suc (p - Suc ?p)" by simp
        then show ?thesis using 3 False by (simp add: with_clones_def shown_def)
      qed (use False in \<open>simp_all add: with_clones_def shown_def\<close>)
    qed
    have "Suc i \<le> length (entries ?s)" using Cons.prems by simp
    note ih = Cons.IH [OF this]
    have "take (Suc i) (entries ?s) @ [created ?s..<created ?s + length (shown es)] @ drop (Suc i) (entries ?s) =
        take i (entries s) @ [?p..<?p + length (shown (e # es))] @ drop i (entries s)"
    proof -
      have "[?p..<?p + Suc m] = ?p # [Suc ?p..<Suc ?p + m]" for m by (subst upt_conv_Cons) simp_all
      moreover have "length (shown (e # es)) = Suc (length (shown es))" using False by (simp add: shown_def)
      ultimately show ?thesis using Cons.prems by (simp add: min_absorb2)
    qed
    moreover have "created ?s + length (shown es) = ?p + length (shown (e # es))"
      using False by (simp add: shown_def)
    ultimately show ?thesis unfolding step ih objs by simp
  qed
qed

lemma source_entries_ok:
  "\<forall>p \<in> set ps. objects s p \<noteq> None \<Longrightarrow> source_entries ps s = Inr (map (\<lambda>p. the (objects s p)) ps)"
  by (induction ps) (auto simp: deref_def)

lemma InsertEntriesFrom_ok:
  assumes "list_ok source" "n \<le> GetEntryCount source"
  shows "InsertEntriesFrom env source n s =
     Inr (insert_clones (page_state_env env) (map (\<lambda>p. the (objects source p)) (take (nat n) (entries source))) 0 s)"
proof -
  have "\<forall>p \<in> set (take (nat n) (entries source)). objects source p \<noteq> None"
    using assms(1) by (auto simp: list_ok_def dest: in_set_takeD)
  then show ?thesis using assms(2) by (simp add: InsertEntriesFrom_def source_entries_ok)
qed

text \<open>The list with copies before the entries of a settled controller.\<close>

lemma with_clones_settled:
  fixes ps :: page_env
  assumes s: "settled s" and m: "m = length es" and l: "0 \<le> l" "l < int (m + length (entries s))"
  defines "s' \<equiv> s\<lparr>objects := with_clones ps es s, created := created s + m,
      entries := [created s..<created s + m] @ entries s, last_committed_entry_index := l\<rparr>"
  shows "settled s'"
    and "history s' = (map (\<lambda>k. Some (int (created s + k) + 1, clone_tree (frame_tree (es ! k)))) [0..<m] @
           map (page_of s) (entries s), l)"
proof -
  have core: "nav_core s" and t: "transient_entry_index s = -1" and pi: "pending_entry_index s = -1"
    using s by (simp_all add: settled_def)
  have ids: "ids_ok s" and lo: "list_ok s" and pend: "pending_ok s" using core by (auto simp: nav_core_def)
  have below: "objects s p = Some e \<Longrightarrow> p < created s \<and> 1 \<le> unique_id e \<and> unique_id e \<le> int (created s)" for p e
    using ids by (auto simp: ids_ok_def)
  have alive_below: "objects s p \<noteq> None \<Longrightarrow> p < created s" for p using below by blast
  have old: "with_clones ps es s p = objects s p" if "p < created s" for p using that by (simp add: with_clones_def)
  have new: "with_clones ps es s p = Some e \<Longrightarrow> created s \<le> p \<Longrightarrow>
      p < created s + m \<and> unique_id e = int p + 1" for p e
    using alive_below [of p] by (auto simp: with_clones_def m split: if_splits)
  have "ids_ok s'"
    unfolding ids_ok_def
  proof (intro conjI allI impI)
    fix p e assume "objects s' p = Some e"
    then have e: "with_clones ps es s p = Some e" by (simp add: s'_def)
    have "p < created s + m \<and> 1 \<le> unique_id e \<and> unique_id e \<le> int (created s) + int m"
    proof (cases "p < created s")
      case True then show ?thesis using e old [OF True] below [of p e] by auto
    next
      case False then show ?thesis using new [OF e] by auto
    qed
    then show "p < created s'" "1 \<le> unique_id e" "unique_id e \<le> int (created s')" by (auto simp: s'_def)
  next
    fix p q e f assume "objects s' p = Some e" "objects s' q = Some f" and eq: "unique_id e = unique_id f"
    then have e: "with_clones ps es s p = Some e" and f: "with_clones ps es s q = Some f" by (simp_all add: s'_def)
    show "p = q"
    proof (cases "p < created s"; cases "q < created s")
      assume "p < created s" "q < created s"
      then show ?thesis using e f old eq ids unfolding ids_ok_def by metis
    next
      assume "p < created s" "\<not> q < created s"
      then show ?thesis using e f old [of p] below [of p e] new [OF f] eq by auto
    next
      assume "\<not> p < created s" "q < created s"
      then show ?thesis using e f old [of q] below [of q f] new [OF e] eq by auto
    next
      assume "\<not> p < created s" "\<not> q < created s"
      then show ?thesis using new [OF e] new [OF f] eq by auto
    qed
  qed
  moreover have "list_ok s'"
  proof -
    have "p < created s" if "p \<in> set (entries s)" for p using that lo alive_below by (auto simp: list_ok_def)
    then have "set (entries s) \<inter> {created s..<created s + m} = {}" by fastforce
    then have "distinct (entries s')" using lo by (auto simp: s'_def list_ok_def)
    moreover have "\<forall>p \<in> set (entries s'). objects s' p \<noteq> None"
      using lo by (auto simp: s'_def list_ok_def with_clones_def m)
    ultimately show ?thesis using l t by (auto simp: list_ok_def s'_def)
  qed
  moreover have "pending_ok s'"
  proof (cases "pending_entry s")
    case None then show ?thesis using pi by (simp add: pending_ok_def s'_def)
  next
    case (Some p)
    then have "objects s p \<noteq> None" "p \<notin> set (entries s)" using pend pi by (auto simp: pending_ok_def)
    moreover have "p < created s" using calculation(1) by (rule alive_below)
    ultimately show ?thesis using Some pi old by (simp add: pending_ok_def s'_def)
  qed
  ultimately show "settled s'" using core t pi by (simp add: settled_def nav_core_def s'_def)
  have "map (page_of s') [created s..<created s + m] =
      map (\<lambda>k. Some (int (created s + k) + 1, clone_tree (frame_tree (es ! k)))) [0..<m]"
    by (rule nth_equalityI) (simp_all add: page_of_def s'_def with_clones_def m Entry_Clone_tree)
  moreover have "map (page_of s') (entries s) = map (page_of s) (entries s)"
  proof (rule map_cong [OF refl])
    fix p assume "p \<in> set (entries s)"
    then have "p < created s" using lo alive_below by (auto simp: list_ok_def)
    then show "page_of s' p = page_of s p" using old by (simp add: page_of_def s'_def)
  qed
  ultimately show "history s' = (map (\<lambda>k. Some (int (created s + k) + 1, clone_tree (frame_tree (es ! k)))) [0..<m] @
           map (page_of s) (entries s), l)"
    using t by (simp add: history_def committed_entries_def s'_def)
qed

subsection \<open>Copying before the current entry\<close>

definition copied_trees :: "nav_controller \<Rightarrow> entry_ptr list \<Rightarrow> TreeNode list" where
  "copied_trees source ps = map frame_tree (shown (map (\<lambda>p. the (objects source p)) ps))"

definition fresh_pages :: "nat \<Rightarrow> TreeNode list \<Rightarrow> page list" where
  "fresh_pages n trees = map (\<lambda>k. Some (int (n + k) + 1, clone_tree (trees ! k))) [0..<length trees]"

lemma settled_notify [simp]: "settled (notify ev s) = settled s"
  by (simp add: settled_def)

text \<open>The entries up to the current one, without it when the page replaces it; all of them when there is
  no current one.\<close>

definition copied_count :: "bool \<Rightarrow> nav_controller \<Rightarrow> int" where
  "copied_count replace_entry source =
     (let n = (if last_committed_entry_index source = -1 then GetEntryCount source
               else last_committed_entry_index source + 1)
      in if replace_entry \<and> n > 0 then n - 1 else n)"

lemma copied_count_range:
  "list_ok source \<Longrightarrow> 0 \<le> copied_count replace_entry source \<and> copied_count replace_entry source \<le> GetEntryCount source"
  by (auto simp: copied_count_def list_ok_def GetEntryCount_def Let_def)

lemma CopyStateFromAndPrune_ok:
  assumes ok: "nav_ok s" and can: "CanPruneAllButLastCommitted s" and src: "list_ok source1"
    and pruned: "(if \<not> replace_entry then PruneOldestEntryIfFull env source else Inr source) = Inr source1"
  defines "n \<equiv> copied_count replace_entry source1"
  shows "safe {} (CopyStateFromAndPrune env replace_entry source s) (\<lambda>(s', source').
      nav_ok s' \<and> source' = source1 \<and>
      (let copies = fresh_pages (created s) (copied_trees source1 (take (nat n) (entries source1)))
       in history s' = (copies @ [page_of s (entries s ! nat (last_committed_entry_index s))], int (length copies))))"
proof -
  let ?p = "entries s ! nat (last_committed_entry_index s)"
  obtain s1 where s1: "PruneAllButLastCommittedInternal s = Inr s1" "nav_ok s1" "settled s1"
    "history s1 = ([page_of s ?p], 0)" "entries s1 = [?p]"
    using PruneAllButLastCommitted_ok [OF ok can] by (auto simp: safe_total)
  have created: "created s1 = created s"
    using s1(1) can by (auto simp: PruneAllButLastCommittedInternal_def bindE_eq_Inr Let_def delete_objects_eq)
  have n: "n \<le> GetEntryCount source1" "0 \<le> n" using copied_count_range [OF src] by (simp_all add: n_def)
  define es where "es = map (\<lambda>p. the (objects source1 p)) (take (nat n) (entries source1))"
  let ?es = "shown es"
  define s2 where "s2 = s1\<lparr>objects := with_clones (page_state_env env) ?es s1, created := created s1 + length ?es,
      entries := [created s1..<created s1 + length ?es] @ entries s1\<rparr>"
  have ins: "InsertEntriesFrom env source1 n s1 = Inr s2"
    unfolding InsertEntriesFrom_ok [OF src n(1)] es_def [symmetric] by (simp add: insert_clones_eq s2_def)
  let ?s3 = "s2\<lparr>last_committed_entry_index := GetEntryCount s2 - 1\<rparr>"
  have count: "GetEntryCount s2 - 1 = int (length ?es)" by (simp add: GetEntryCount_def s2_def s1(5))
  have s3: "?s3 = s1\<lparr>objects := with_clones (page_state_env env) ?es s1, created := created s1 + length ?es,
      entries := [created s1..<created s1 + length ?es] @ entries s1, last_committed_entry_index := int (length ?es)\<rparr>"
    unfolding count by (simp add: s2_def)
  note w = with_clones_settled [OF s1(3) refl, of "int (length ?es)" ?es "page_state_env env", folded s3]
  have len: "0 \<le> int (length ?es)" "int (length ?es) < int (length ?es + length (entries s1))" by (simp_all add: s1(5))
  have last: "map (page_of s1) (entries s1) = [page_of s ?p]"
    using s1(3,4) by (simp add: history_def settled_def)
  have copies: "fresh_pages (created s) (copied_trees source1 (take (nat n) (entries source1))) =
      map (\<lambda>k. Some (int (created s1 + k) + 1, clone_tree (frame_tree (?es ! k)))) [0..<length ?es]"
    by (simp add: fresh_pages_def copied_trees_def es_def [symmetric] created)
  have "CopyStateFromAndPrune env replace_entry source s = bindE (InsertEntriesFrom env source1 n s1) (\<lambda>s2.
        let s3 = s2\<lparr>last_committed_entry_index := GetEntryCount s2 - 1\<rparr>
        in Inr (notify (SetHistoryOffsetAndLength (last_committed_entry_index s3) (GetEntryCount s3)) s3, source1))"
    using can unfolding CopyStateFromAndPrune_def s1(1) bindE_Inr pruned n_def copied_count_def by (simp add: Let_def)
  then have "CopyStateFromAndPrune env replace_entry source s =
      Inr (notify (SetHistoryOffsetAndLength (GetEntryCount s2 - 1) (GetEntryCount ?s3)) ?s3, source1)"
    unfolding ins by (simp add: Let_def)
  moreover have "idle ?s3" using s1(2) by (simp add: nav_ok_def s2_def)
  ultimately show ?thesis
    using w [OF len] last copies by (simp add: nav_ok_def settled_def Let_def)
qed

subsection \<open>Restoring\<close>

lemma configure_entry_id [simp]: "unique_id (configure_entry ps type e) = unique_id e"
  by (simp add: configure_entry_def SetPageStateIfEmpty_def)

lemma ConfigureEntriesForRestore_ok:
  assumes "\<forall>p \<in> set es. objects s p \<noteq> None"
  shows "\<exists>ob. ConfigureEntriesForRestore ps type es s = Inr (s\<lparr>objects := ob\<rparr>) \<and>
     (\<forall>p. map_option unique_id (ob p) = map_option unique_id (objects s p))"
  using assms
proof (induction es arbitrary: s)
  case Nil
  have "s = s\<lparr>objects := objects s\<rparr>" by simp
  then show ?case by (metis ConfigureEntriesForRestore.simps(1))
next
  case (Cons p es)
  then obtain e where e: "objects s p = Some e" by auto
  let ?s = "s\<lparr>objects := (objects s)(p \<mapsto> configure_entry ps type e)\<rparr>"
  have "\<forall>q \<in> set es. objects ?s q \<noteq> None" using Cons.prems by simp
  from Cons.IH [OF this] obtain ob where ob:
    "ConfigureEntriesForRestore ps type es ?s = Inr (?s\<lparr>objects := ob\<rparr>)"
    "\<forall>q. map_option unique_id (ob q) = map_option unique_id (objects ?s q)" by blast
  have "ConfigureEntriesForRestore ps type (p # es) s = Inr (s\<lparr>objects := ob\<rparr>)"
    using ob(1) by (simp add: modify_ok [OF e])
  moreover have "map_option unique_id (ob q) = map_option unique_id (objects s q)" for q
    using ob(2) e by (cases "q = p") simp_all
  ultimately show ?case by blast
qed

lemma ids_ok_same:
  assumes "ids_ok s" "\<And>p. map_option unique_id (ob p) = map_option unique_id (objects s p)"
  shows "ids_ok (s\<lparr>objects := ob\<rparr>)"
proof -
  have sub: "\<exists>f. objects s p = Some f \<and> unique_id f = unique_id e" if "ob p = Some e" for p e
    using assms(2) [of p] that by (cases "objects s p") simp_all
  have same: "p = q" if "objects s p = Some e" "objects s q = Some f" "unique_id e = unique_id f" for p q e f
    using that assms(1) unfolding ids_ok_def by blast
  show ?thesis
    unfolding ids_ok_def
  proof (intro conjI allI impI)
    fix p e assume "objects (s\<lparr>objects := ob\<rparr>) p = Some e"
    then obtain f where f: "objects s p = Some f" "unique_id f = unique_id e" using sub by auto
    have "p < created s \<and> 1 \<le> unique_id f \<and> unique_id f \<le> int (created s)"
      using assms(1) f(1) unfolding ids_ok_def by blast
    then show "p < created (s\<lparr>objects := ob\<rparr>)" "1 \<le> unique_id e" "unique_id e \<le> int (created (s\<lparr>objects := ob\<rparr>))"
      unfolding f(2) by simp_all
  next
    fix p q e f assume "objects (s\<lparr>objects := ob\<rparr>) p = Some e" "objects (s\<lparr>objects := ob\<rparr>) q = Some f"
      and "unique_id e = unique_id f"
    then show "p = q" by (auto dest!: sub intro: same)
  qed
qed

text \<open>A controller without entries that got a list of them.\<close>

lemma FinishRestore_ok:
  assumes ids: "ids_ok s" and pend: "pending_entry s = None" "pending_entry_index s = -1"
    and rest: "transient_entry_index s = -1" "idle s" "\<not> in_navigate_to_pending_entry s"
    and es: "distinct (entries s)" "\<forall>p \<in> set (entries s). objects s p \<noteq> None" and i: "0 \<le> i" "i < int (length (entries s))"
  shows "safe {} (FinishRestore env i type s) (\<lambda>s'. nav_ok s' \<and> committed_entries s' = entries s \<and>
      last_committed_entry_index s' = i \<and> needs_reload s' = needs_reload s)"
proof -
  obtain ob where ob: "ConfigureEntriesForRestore (page_state_env env) type (entries s) s = Inr (s\<lparr>objects := ob\<rparr>)"
    "\<And>p. map_option unique_id (ob p) = map_option unique_id (objects s p)"
    using ConfigureEntriesForRestore_ok [OF es(2)] by blast
  let ?s2 = "s\<lparr>objects := ob, last_committed_entry_index := i\<rparr>"
  have "ids_ok (s\<lparr>objects := ob\<rparr>)" using ids ob(2) by (rule ids_ok_same)
  then have "ids_ok ?s2" by (simp add: ids_ok_def)
  moreover have "ob p \<noteq> None" if "p \<in> set (entries s)" for p
    using ob(2) [of p] es(2) that by (cases "ob p") auto
  then have "list_ok ?s2" using rest es(1) i by (auto simp: list_ok_def)
  moreover have "pending_ok ?s2" using pend by (simp add: pending_ok_def)
  ultimately have "nav_ok ?s2" using rest by (simp add: nav_ok_def nav_core_def idle_def)
  moreover have "FinishRestore env i type s = Inr ?s2" unfolding FinishRestore_def ob(1) by simp
  ultimately show ?thesis using rest by simp
qed

lemma new_controller:
  assumes "nav_ok s" "entries s = []" "pending_entry s = None"
  shows "ids_ok s" "pending_entry_index s = -1" "transient_entry_index s = -1" "last_committed_entry_index s = -1"
    "idle s" "\<not> in_navigate_to_pending_entry s" "settled s"
  using assms by (auto simp: nav_ok_def nav_core_def settled_def list_ok_def pending_ok_def)

text \<open>A new controller takes the entries of a caller.\<close>

lemma Restore_ok:
  assumes ok: "nav_ok s" and new: "entries s = []" "pending_entry s = None"
    and ps: "distinct ps" "\<forall>p \<in> set ps. objects s p \<noteq> None" and i: "0 \<le> i" "i < int (length ps)"
  shows "safe {} (Restore env i type ps s) (\<lambda>s'. nav_ok s' \<and> committed_entries s' = ps \<and>
      last_committed_entry_index s' = i \<and> needs_reload s')"
  using FinishRestore_ok [of "s\<lparr>needs_reload := True, entries := entries s @ ps\<rparr>" i env type] new_controller [OF ok new] new ps i
  by (simp add: Restore_def ids_ok_def)

text \<open>A new controller takes copies of the entries of another one, all but those of interstitials.\<close>

definition own_entries :: "nav_controller \<Rightarrow> NavigationEntryImpl list" where
  "own_entries source = shown (map (\<lambda>p. the (objects source p)) (entries source))"

lemma CopyStateFrom_ok:
  assumes ok: "nav_ok s" and new: "entries s = []" "pending_entry s = None" and src: "list_ok source"
    and i: "last_committed_entry_index source \<noteq> -1" "last_committed_entry_index source < int (length (own_entries source))"
  shows "safe {} (CopyStateFrom env source s) (\<lambda>s'. nav_ok s' \<and> length (committed_entries s') = length (own_entries source))"
proof -
  let ?s = "s\<lparr>needs_reload := True\<rparr>" and ?es = "own_entries source" and ?i = "last_committed_entry_index source"
  have i0: "0 \<le> ?i" "entries source \<noteq> []" using i src by (auto simp: list_ok_def)
  define s1 where "s1 = ?s\<lparr>objects := with_clones (page_state_env env) ?es ?s, created := created s + length ?es,
      entries := [created s..<created s + length ?es]\<rparr>"
  have "InsertEntriesFrom env source (GetEntryCount source) ?s = Inr s1"
    unfolding InsertEntriesFrom_ok [OF src order_refl]
    using new by (simp add: insert_clones_eq s1_def own_entries_def GetEntryCount_def)
  moreover have "GetEntryCount source \<noteq> 0" using i0 by (simp add: GetEntryCount_def)
  ultimately have eq: "CopyStateFrom env source s = FinishRestore env ?i CURRENT_SESSION s1"
    by (simp add: CopyStateFrom_def)
  note n = new_controller [OF ok new]
  have "settled ?s" using n(7) by (simp add: settled_def)
  from with_clones_settled(1) [OF this refl, of "?i" ?es "page_state_env env"] i0 i new
  have w: "settled (s1\<lparr>last_committed_entry_index := ?i\<rparr>)" by (simp add: s1_def)
  have "ids_ok s1" "distinct (entries s1)" "\<forall>p \<in> set (entries s1). objects s1 p \<noteq> None" "\<not> in_navigate_to_pending_entry s1"
    using w by (simp_all add: settled_def nav_core_def ids_ok_def list_ok_def)
  moreover have "pending_entry s1 = None" "pending_entry_index s1 = -1" "transient_entry_index s1 = -1" "idle s1"
    using n new by (simp_all add: s1_def idle_def)
  moreover have "length (entries s1) = length ?es" by (simp add: s1_def)
  ultimately show ?thesis unfolding eq
    using i0 i by (intro safe_mono [OF FinishRestore_ok]) auto
qed

end
