(* ===== verification/Nav_Reach.thy ===== *)
theory Nav_Reach
  imports Nav_Copy
begin

text \<open>
  The states that a controller reaches through the calls of its clients and the commits of renderers,
  and their invariant. The record of a caller's entry that it hands over later is the step \<open>create\<close>.
  A commit may report anything, an index may be any, and any reload may happen: a step is a call that
  returns. The only conditions left are the documented preconditions of \<open>SetTransientEntry\<close>, \<open>Restore\<close>
  and \<open>CopyStateFrom\<close> on what the caller hands over. With \<open>limited\<close>, no call hands over more
  entries than the limit allows, and none copies from a list whose oldest entry is pending.
\<close>

subsection \<open>The committed list stays within its limit\<close>

lemma length_insert_page:
  assumes "length (fst h) \<le> n" "2 \<le> n" shows "length (fst (insert_page n r page h)) \<le> n"
  using assms by (auto simp: insert_page_def Let_def min_def)

lemma length_history_step:
  assumes step: "history_step env params type k h h'" and h: "length (fst h) \<le> max_entry_count env"
    and room: "2 \<le> max_entry_count env"
  shows "length (fst h') \<le> max_entry_count env"
proof -
  have e: "length (fst ([], -1 :: int)) \<le> max_entry_count env" by simp
  show ?thesis
    using step h room length_insert_page [OF h room] length_insert_page [OF e room]
    by (cases type) (auto simp: history_step_def moved_to_def split: if_splits)
qed

lemma length_history [simp]: "length (fst (history s)) = length (committed_entries s)"
  by (simp add: history_def)

lemma length_removed: "length (fst (removed i h)) \<le> length (fst h)"
  by (simp add: removed_def remove_nth_def)

lemma DiscardPendingEntry_keeps:
  assumes ok: "nav_ok s" shows "safe {} (DiscardPendingEntry env f s) (keeps_history s)"
proof -
  have core: "nav_core s" and id: "idle s" using ok by (simp_all add: nav_ok_def)
  have l: "list_ok s" and pend: "pending_ok s" and nn: "\<not> in_navigate_to_pending_entry s" using core by (auto simp: nav_core_def)
  have "history (drop_pending i s) = history s" for i
  proof -
    have "page_of (drop_pending i s) p = page_of s p" if "p \<in> set (committed_entries s)" for p
      using that committed_entries_facts(1) [OF l] pend
      by (auto simp: page_of_def drop_pending_def pending_ok_def split: option.split)
    moreover have "committed_entries (drop_pending i s) = committed_entries s"
      "last_committed_entry_index (drop_pending i s) = last_committed_entry_index s"
      by (simp_all add: drop_pending_def committed_entries_def split: option.split)
    ultimately show ?thesis by (simp add: history_def)
  qed
  moreover have "idle (drop_pending i s)" for i using id by (simp add: drop_pending_def idle_def split: option.split)
  ultimately show ?thesis
    using DiscardPendingEntry_ok [OF pend nn] drop_pending_ok [OF core] by (simp add: keeps_history_def nav_ok_def)
qed

lemma SetPendingEntry_keeps:
  assumes ok: "nav_ok s" and p: "objects s p \<noteq> None" "p \<notin> set (entries s)" "pending_entry s \<noteq> Some p"
  shows "safe {} (SetPendingEntry env p s) (keeps_history s)"
proof -
  have core: "nav_core s" and id: "idle s" using ok by (simp_all add: nav_ok_def)
  have l: "list_ok s" using core by (rule nav_core_parts)
  have "objects (drop_all s) p = objects s p"
    using drop_all_other_objects [OF p(3)] transient_in_list [OF l] p(2) by metis
  moreover have "p \<notin> set (entries (drop_all s))" using committed_entries_facts(1) [OF l] p(2) by auto
  ultimately have "nav_core ((drop_all s)\<lparr>pending_entry := Some p\<rparr>)"
    using core p(1) by (intro replace_pending drop_all_ok core) simp_all
  then show ?thesis
    using id history_drop_all [OF core]
    by (simp add: SetPendingEntry_def DiscardNonCommittedEntriesInternal_ok [OF core] keeps_history_def nav_ok_def)
qed

lemma SetPendingNavigationSSLError_keeps:
  assumes ok: "nav_ok s" shows "safe {} (SetPendingNavigationSSLError err s) (keeps_history s)"
proof (cases "pending_entry s")
  case None then show ?thesis using ok by (simp add: SetPendingNavigationSSLError_def keeps_history_def)
next
  case (Some p)
  have core: "nav_core s" using ok by (simp add: nav_ok_def)
  obtain e where e: "objects s p = Some e" using Some pending_alive nav_core_parts(3) [OF core] by blast
  show ?thesis
    using modify_keeps [OF core e, of "e\<lparr>ssl_error := err\<rparr>"] ok Some
    by (simp add: SetPendingNavigationSSLError_def modify_ok [OF e] keeps_history_def nav_ok_def)
qed

text \<open>The list that is copied: the oldest entry goes first when it is full, unless it is pending.\<close>

definition pruned_history :: "nav_env \<Rightarrow> nav_controller \<Rightarrow> page list \<times> int" where
  "pruned_history env s =
     (if max_entry_count env \<le> length (entries s) \<and> last_committed_entry_index s \<noteq> 0 \<and> pending_entry_index s \<noteq> 0
      then removed 0 (history s) else history s)"

lemma PruneOldest_source:
  assumes ok: "nav_ok s" and room: "2 \<le> max_entry_count env"
  shows "safe {} (PruneOldestEntryIfFull env s) (\<lambda>s'. nav_ok s' \<and> history s' = pruned_history env s)"
proof (cases "max_entry_count env \<le> length (entries s)")
  case False then show ?thesis using ok by (simp add: PruneOldestEntryIfFull_def pruned_history_def)
next
  case full: True
  have l: "list_ok s" using ok by (simp add: nav_ok_def nav_core_def)
  show ?thesis
  proof (cases "last_committed_entry_index s = 0 \<or> pending_entry_index s = 0")
    case True
    then have "RemoveEntryAtIndex env 0 s = Inr (False, s)" by (intro RemoveEntryAtIndex_busy) auto
    then show ?thesis using True full ok by (auto simp: PruneOldestEntryIfFull_def nav_ok_def pruned_history_def)
  next
    case False
    have range: "0 < int (length (entries s))" using full room by linarith
    have "transient_entry_index s = -1 \<or> 0 < transient_entry_index s"
      using l False full room by (auto simp: list_ok_def)
    from RemoveEntryAtIndex_ok [OF ok _ range _ _ this, of env] False
    show ?thesis using full by (auto simp: PruneOldestEntryIfFull_def nav_ok_def pruned_history_def elim!: safe_mono)
  qed
qed

subsection \<open>Steps\<close>

inductive nav_reachable :: "nav_env \<Rightarrow> bool \<Rightarrow> nav_controller \<Rightarrow> bool" for env :: nav_env and limited :: bool where
  start: "nav_reachable env limited NavigationControllerImpl_new"
| create: "nav_reachable env limited s \<Longrightarrow> (\<And>uid. unique_id (mk uid) = uid) \<Longrightarrow> new_object mk s = (p, s') \<Longrightarrow>
    nav_reachable env limited s'"
| load: "nav_reachable env limited s \<Longrightarrow> LoadURLWithParams env params subframe_id s = Inr s' \<Longrightarrow> nav_reachable env limited s'"
| go: "nav_reachable env limited s \<Longrightarrow> GoToIndex env index s = Inr s' \<Longrightarrow> nav_reachable env limited s'"
| offset: "nav_reachable env limited s \<Longrightarrow> GoToOffset env off s = Inr s' \<Longrightarrow> nav_reachable env limited s'"
| reload: "nav_reachable env limited s \<Longrightarrow> Reload env reload repost s = Inr s' \<Longrightarrow> nav_reachable env limited s'"
| cancel: "nav_reachable env limited s \<Longrightarrow> nav_reachable env limited (CancelPendingReload s)"
| continue: "nav_reachable env limited s \<Longrightarrow> ContinuePendingReload env s = Inr s' \<Longrightarrow> nav_reachable env limited s'"
| need: "nav_reachable env limited s \<Longrightarrow> SetNeedsReload s = Inr s' \<Longrightarrow> nav_reachable env limited s'"
| necessary: "nav_reachable env limited s \<Longrightarrow> LoadIfNecessary env s = Inr s' \<Longrightarrow> nav_reachable env limited s'"
| activate: "nav_reachable env limited s \<Longrightarrow> SetActive env active s = Inr s' \<Longrightarrow> nav_reachable env limited s'"
| discard: "nav_reachable env limited s \<Longrightarrow> DiscardNonCommittedEntries env s = Inr s' \<Longrightarrow> nav_reachable env limited s'"
| failure: "nav_reachable env limited s \<Longrightarrow> DiscardPendingEntry env was_failure s = Inr s' \<Longrightarrow> nav_reachable env limited s'"
| transient: "nav_reachable env limited s \<Longrightarrow> objects s p \<noteq> None \<Longrightarrow> p \<notin> set (entries s) \<Longrightarrow> pending_entry s \<noteq> Some p \<Longrightarrow>
    SetTransientEntry p s = Inr s' \<Longrightarrow> nav_reachable env limited s'"
| pending: "nav_reachable env limited s \<Longrightarrow> objects s p \<noteq> None \<Longrightarrow> p \<notin> set (entries s) \<Longrightarrow> pending_entry s \<noteq> Some p \<Longrightarrow>
    SetPendingEntry env p s = Inr s' \<Longrightarrow> nav_reachable env limited s'"
| ssl: "nav_reachable env limited s \<Longrightarrow> SetPendingNavigationSSLError err s = Inr s' \<Longrightarrow> nav_reachable env limited s'"
| remove: "nav_reachable env limited s \<Longrightarrow> RemoveEntryAtIndex env i s = Inr (b, s') \<Longrightarrow> nav_reachable env limited s'"
| prune: "nav_reachable env limited s \<Longrightarrow> PruneAllButLastCommitted s = Inr s' \<Longrightarrow> nav_reachable env limited s'"
| restore: "nav_reachable env limited s \<Longrightarrow> entries s = [] \<Longrightarrow> pending_entry s = None \<Longrightarrow> distinct ps \<Longrightarrow>
    (\<forall>p \<in> set ps. objects s p \<noteq> None) \<Longrightarrow> 0 \<le> i \<Longrightarrow> i < int (length ps) \<Longrightarrow>
    (limited \<longrightarrow> length ps \<le> max_entry_count env) \<Longrightarrow> Restore env i type ps s = Inr s' \<Longrightarrow> nav_reachable env limited s'"
| copy: "nav_reachable env limited s \<Longrightarrow> nav_reachable env limited source \<Longrightarrow> entries s = [] \<Longrightarrow> pending_entry s = None \<Longrightarrow>
    last_committed_entry_index source \<noteq> -1 \<Longrightarrow> last_committed_entry_index source < int (length (own_entries source)) \<Longrightarrow>
    (limited \<longrightarrow> length (own_entries source) \<le> max_entry_count env) \<Longrightarrow>
    CopyStateFrom env source s = Inr s' \<Longrightarrow> nav_reachable env limited s'"
| take_over: "nav_reachable env limited s \<Longrightarrow> nav_reachable env limited source \<Longrightarrow>
    (limited \<longrightarrow> replace_entry \<or> pending_entry_index source \<noteq> 0) \<Longrightarrow>
    CopyStateFromAndPrune env replace_entry source s = Inr (s', source') \<Longrightarrow> nav_reachable env limited s'"
| taken: "nav_reachable env limited s \<Longrightarrow> nav_reachable env limited source \<Longrightarrow>
    CopyStateFromAndPrune env replace_entry source s = Inr (s', source') \<Longrightarrow> nav_reachable env limited source'"
| commit: "nav_reachable env limited s \<Longrightarrow>
    RendererDidNavigate env rfh params same_document h s = Inr (committed, s') \<Longrightarrow> nav_reachable env limited s'"

text \<open>The invariant.\<close>

definition within_limit :: "nav_env \<Rightarrow> bool \<Rightarrow> nav_controller \<Rightarrow> bool" where
  "within_limit env limited s \<longleftrightarrow> nav_ok s \<and> (limited \<longrightarrow> length (fst (history s)) \<le> max_entry_count env)"

lemma keeps_within_limit:
  assumes "safe E m (keeps_history s)" "m = Inr s'" "within_limit env limited s"
  shows "within_limit env limited s'"
  using assms by (simp add: keeps_history_def within_limit_def del: length_history)

lemma limit_step:
  assumes "nav_ok s \<Longrightarrow> safe E m (keeps_history s)" "m = Inr s'" "within_limit env limited s"
  shows "within_limit env limited s'"
  using keeps_within_limit [OF assms(1) assms(2,3)] assms(3) by (simp add: within_limit_def)

lemma nav_ok_new: "nav_ok NavigationControllerImpl_new"
  by (simp add: NavigationControllerImpl_new_def nav_ok_def nav_core_def idle_def ids_ok_def list_ok_def pending_ok_def)

lemma within_limit_new: "within_limit env limited NavigationControllerImpl_new"
  using nav_ok_new by (simp add: within_limit_def history_def committed_entries_def NavigationControllerImpl_new_def)

lemma length_copies: "length (copied_trees source (take n ps)) \<le> n"
  by (simp add: copied_trees_def shown_def le_trans [OF length_filter_le])

lemma committed_count:
  assumes "list_ok s" shows "length (committed_entries s) \<le> length (entries s)"
    and "-1 \<le> last_committed_entry_index s" "last_committed_entry_index s < int (length (committed_entries s))"
  using assms committed_entries_facts(3) [OF assms] length_remove_nth [of "transient_entry_index s" "entries s"]
  by (auto simp: committed_entries_def list_ok_def)

lemma copied_within_limit:
  assumes src: "nav_ok source" "length (committed_entries source) \<le> max_entry_count env" and ok: "nav_ok source'"
    and pruned: "history source' = (if replace_entry then history source else pruned_history env source)"
    and free: "replace_entry \<or> pending_entry_index source \<noteq> 0" and room: "2 \<le> max_entry_count env"
  shows "copied_count replace_entry source' \<le> int (max_entry_count env) - 1"
proof -
  have l: "list_ok source" and l': "list_ok source'" using src(1) ok by (simp_all add: nav_ok_def nav_core_def)
  note c = committed_count [OF l]
  let ?i = "last_committed_entry_index source" and ?i' = "last_committed_entry_index source'"
  have i: "?i' = snd (history source')" "snd (history source) = ?i" by (simp_all add: history_def)
  show ?thesis
  proof (cases "?i' = -1")
    case True
    then have "length (entries source') \<le> 1" using l' by (auto simp: list_ok_def split: if_splits)
    then show ?thesis using copied_count_range [OF l', of replace_entry] room by (simp add: GetEntryCount_def)
  next
    case some: False
    have low: "-1 \<le> ?i'" using l' by (simp add: list_ok_def)
    have count: "copied_count replace_entry source' = ?i' + (if replace_entry then 0 else 1)"
      using some low by (auto simp: copied_count_def)
    have m: "int (length (committed_entries source)) \<le> int (max_entry_count env)" using src(2) by simp
    show ?thesis
    proof (cases replace_entry)
      case True
      then have "?i' = ?i" using pruned i by simp
      then show ?thesis using True count c(3) m by simp
    next
      case False
      then have "?i' = (if max_entry_count env \<le> length (entries source) \<and> ?i \<noteq> 0 then snd (removed 0 (history source)) else ?i)"
        using pruned free i by (auto simp: pruned_history_def)
      then show ?thesis using False count some c m room i(2) by (auto simp: removed_def split: if_splits)
    qed
  qed
qed

lemma take_over_within_limit:
  assumes s: "within_limit env limited s" and src: "within_limit env limited source"
    and run: "CopyStateFromAndPrune env replace_entry source s = Inr (s', source')" and room: "2 \<le> max_entry_count env"
  shows "nav_ok s'" "nav_ok source'" "history source' = (if replace_entry then history source else pruned_history env source)"
    and "(limited \<longrightarrow> replace_entry \<or> pending_entry_index source \<noteq> 0) \<Longrightarrow> within_limit env limited s'"
    and "within_limit env limited source'"
proof -
  have ok: "nav_ok s" and sok: "nav_ok source" using s src by (simp_all add: within_limit_def)
  have can: "CanPruneAllButLastCommitted s" using run by (auto simp: CopyStateFromAndPrune_def split: if_splits)
  obtain source1 where s1: "(if \<not> replace_entry then PruneOldestEntryIfFull env source else Inr source) = Inr source1"
    "nav_ok source1" "history source1 = (if replace_entry then history source else pruned_history env source)"
    using PruneOldest_source [OF sok room] sok by (cases replace_entry) (auto simp: safe_total)
  have l1: "list_ok source1" using s1(2) by (simp add: nav_ok_def nav_core_def)
  note result = CopyStateFromAndPrune_ok [OF ok can l1 s1(1), unfolded run, simplified]
  then have same: "source' = source1" by simp
  show ok': "nav_ok s'" "nav_ok source'" "history source' = (if replace_entry then history source else pruned_history env source)"
    using result s1 same by simp_all
  have len: "length (committed_entries s') = Suc (length (copied_trees source1 (take (nat (copied_count replace_entry source1)) (entries source1))))"
    using result by (simp add: Let_def fresh_pages_def flip: length_history)
  show "within_limit env limited s'" if free: "limited \<longrightarrow> replace_entry \<or> pending_entry_index source \<noteq> 0"
  proof (cases limited)
    case True
    then have "copied_count replace_entry source1 \<le> int (max_entry_count env) - 1"
      using copied_within_limit [OF sok _ s1(2,3)] src free room by (simp add: within_limit_def)
    then have "nat (copied_count replace_entry source1) \<le> max_entry_count env - 1" by linarith
    then have "Suc (length (copied_trees source1 (take (nat (copied_count replace_entry source1)) (entries source1)))) \<le>
        max_entry_count env"
      using length_copies [of source1 "nat (copied_count replace_entry source1)" "entries source1"] room by linarith
    then show ?thesis using ok' len by (simp add: within_limit_def)
  next
    case False then show ?thesis using ok' by (simp add: within_limit_def)
  qed
  have "length (fst (pruned_history env source)) \<le> length (fst (history source))"
    using length_removed [of 0 "history source"] by (auto simp: pruned_history_def)
  then show "within_limit env limited source'"
    using ok'(2,3) src by (auto simp: within_limit_def simp del: length_history split: if_splits)
qed

lemma reachable_within_limit:
  assumes "nav_reachable env limited s" and room: "2 \<le> max_entry_count env"
  shows "within_limit env limited s"
  using assms(1)
proof (induction rule: nav_reachable.induct)
  case start then show ?case by (rule within_limit_new)
next
  case (create s mk p s')
  then have core: "nav_core s" by (simp add: within_limit_def nav_ok_def)
  note made = new_keeps [OF core create.hyps(2,3)]
  show ?case using create.IH made by (simp add: within_limit_def nav_ok_def del: length_history)
next
  case (load s params subframe_id s')
  show ?case by (rule limit_step [OF LoadURLWithParams_outcome load.hyps(2) load.IH])
next
  case (go s index s')
  show ?case by (rule limit_step [OF GoToIndex_keeps go.hyps(2) go.IH])
next
  case (offset s off s')
  show ?case by (rule limit_step [OF GoToOffset_keeps offset.hyps(2) offset.IH])
next
  case (reload s reload repost s')
  show ?case by (rule limit_step [OF Reload_keeps reload.hyps(2) reload.IH])
next
  case (cancel s)
  then show ?case by (simp add: within_limit_def CancelPendingReload_def nav_ok_def del: length_history)
next
  case (continue s s')
  show ?case
  proof (cases "pending_reload s = RELOAD_NONE")
    case True then show ?thesis using continue by (simp add: ContinuePendingReload_def)
  next
    case False
    then obtain s1 where s1: "Reload env (pending_reload s) False s = Inr s1" "s' = s1\<lparr>pending_reload := RELOAD_NONE\<rparr>"
      using continue.hyps(2) by (auto simp: ContinuePendingReload_def bindE_eq_Inr)
    have "within_limit env limited s1" by (rule limit_step [OF Reload_keeps s1(1) continue.IH])
    then show ?thesis unfolding s1(2) by (simp add: within_limit_def nav_ok_def del: length_history)
  qed
next
  case (need s s')
  show ?case by (rule limit_step [OF SetNeedsReload_keeps need.hyps(2) need.IH])
next
  case (necessary s s')
  show ?case by (rule limit_step [OF LoadIfNecessary_keeps necessary.hyps(2) necessary.IH])
next
  case (activate s active s')
  show ?case by (rule limit_step [OF SetActive_keeps activate.hyps(2) activate.IH])
next
  case (discard s s')
  show ?case by (rule limit_step [OF discard_keeps discard.hyps(2) discard.IH])
next
  case (failure s was_failure s')
  show ?case by (rule limit_step [OF DiscardPendingEntry_keeps failure.hyps(2) failure.IH])
next
  case (transient s p s')
  then have "safe {} (SetTransientEntry p s) (keeps_history s)"
    using SetTransientEntry_ok [of s p] by (auto simp: within_limit_def elim!: safe_mono)
  then show ?case using keeps_within_limit transient by blast
next
  case (pending s p s')
  show ?case by (rule limit_step [OF SetPendingEntry_keeps pending.hyps(5) pending.IH]) (use pending.hyps in auto)
next
  case (ssl s err s')
  show ?case by (rule limit_step [OF SetPendingNavigationSSLError_keeps ssl.hyps(2) ssl.IH])
next
  case (remove s i b s')
  then have ok: "nav_ok s" by (simp add: within_limit_def)
  show ?case
  proof (cases "i = last_committed_entry_index s \<or> i = pending_entry_index s")
    case True then show ?thesis using remove RemoveEntryAtIndex_busy [OF True] by simp
  next
    case False
    then have "0 \<le> i" using RemoveEntryAtIndex_negative [OF ok, of i env] remove.hyps(2) by (cases "0 \<le> i") auto
    from RemoveEntryAtIndex_outcome [OF ok this, of env] show ?thesis
      using False remove.hyps(2) remove.IH length_removed [of i "history s"]
      by (auto simp: within_limit_def simp del: length_history split: if_splits)
  qed
next
  case (prune s s')
  then have "CanPruneAllButLastCommitted s"
    by (auto simp: PruneAllButLastCommitted_def PruneAllButLastCommittedInternal_def bindE_eq_Inr split: if_splits)
  then show ?case
    using PruneAllButLastCommitted_ok [of s] prune room
    by (auto simp: PruneAllButLastCommitted_def bindE_eq_Inr within_limit_def nav_ok_def simp del: length_history)
next
  case (restore s ps i type s')
  then show ?case
    using Restore_ok [of s ps i env type] by (auto simp: within_limit_def)
next
  case (copy s source s')
  then have "nav_ok s" "list_ok source" by (simp_all add: within_limit_def nav_ok_def nav_core_def)
  then show ?case using CopyStateFrom_ok [of s source env] copy.hyps by (auto simp: within_limit_def)
next
  case (take_over s source replace_entry s' source')
  then show ?case using take_over_within_limit(4) room by blast
next
  case (taken s source replace_entry s' source')
  then show ?case using take_over_within_limit(5) room by blast
next
  case (commit s rfh params same_document h committed s')
  have ok: "nav_ok s" using commit.IH by (simp add: within_limit_def)
  obtain type where type: "ClassifyNavigation rfh params s = Inr type"
    using ClassifyNavigation_ok ok by (auto simp: nav_ok_def)
  have "fits_or UNIV rfh s" by (simp add: fits_or_def)
  then have "commit_result env rfh params h type s (committed, s')"
    using RendererDidNavigate_ok [OF ok _ room type, of UNIV same_document h] commit.hyps(2) by simp
  then have s': "nav_ok s'" "history_step env params type (target_index params type s) (history s) (history s')"
    by (simp_all add: commit_result_def)
  show ?case
    using s'(1) length_history_step [OF s'(2) _ room] commit.IH unfolding within_limit_def by blast
qed

end
