(* ===== verification/Nav_Tree.thy ===== *)
theory Nav_Tree
  imports Nav_Entry
begin

text \<open>
  Frame trees: the search for a frame finds a matching node exactly when there is one, what is
  recorded of a frame is found again, page states survive being split over the frames of a page, and
  the walk that chooses the frames to navigate equals a definition by the frames' ancestors.
\<close>

subsection \<open>Nodes and paths\<close>

lemma node_at_append: "node_at (p @ q) t = Option.bind (node_at p t) (node_at q)"
  by (induction p t rule: node_at.induct) simp_all

lemma node_at_child:
  "node_at p t = Some n \<Longrightarrow> i < length (tree_children n) \<Longrightarrow> node_at (p @ [i]) t = Some (tree_children n ! i)"
  by (simp add: node_at_append)

lemma children_at_iff:
  "(p', c) \<in> set (children_at p n) \<longleftrightarrow> (\<exists>i < length (tree_children n). p' = p @ [i] \<and> c = tree_children n ! i)"
proof -
  have "children_at p n = map (\<lambda>i. (p @ [i], tree_children n ! i)) [0..<length (tree_children n)]"
    by (rule nth_equalityI) (auto simp: children_at_def nth_enumerate_eq)
  then show ?thesis by auto
qed

lemma find_matching_sound:
  assumes "find_matching f queue = Some p" "\<And>q n. (q, n) \<in> set queue \<Longrightarrow> node_at q root = Some n"
  shows "\<exists>n. node_at p root = Some n \<and> MatchesFrame f p n"
  using assms
proof (induction f queue rule: find_matching.induct)
  case (2 f path node queue)
  show ?case
  proof (cases "MatchesFrame f path node")
    case True then show ?thesis using 2 by auto
  next
    case False
    have "node_at q root = Some n" if "(q, n) \<in> set (queue @ children_at path node)" for q n
      using that 2(3) [of q n] 2(3) [of path node] node_at_child [of path root node]
      by (auto simp: children_at_iff)
    then show ?thesis using 2(1) [OF False] 2(2) False by simp
  qed
qed simp

lemma find_matching_complete:
  assumes "find_matching f queue = None" "(p, n) \<in> set queue" "node_at q n = Some m"
  shows "\<not> MatchesFrame f (p @ q) m"
  using assms
proof (induction f queue arbitrary: p n q rule: find_matching.induct)
  case (2 f path node queue)
  then have no: "\<not> MatchesFrame f path node" and rest: "find_matching f (queue @ children_at path node) = None"
    by (auto split: if_splits)
  note IH = 2(1) [OF no rest]
  show ?case
  proof (cases "(p, n) \<in> set queue")
    case True then show ?thesis using IH [of p n q] 2(4) by simp
  next
    case False
    then have here: "p = path" "n = node" using 2(3) by auto
    show ?thesis
    proof (cases q)
      case Nil then show ?thesis using no here 2(4) by simp
    next
      case (Cons i r)
      then have "i < length (tree_children node)" "node_at r (tree_children node ! i) = Some m"
        using 2(4) here by (auto split: if_splits)
      then show ?thesis
        using IH [of "path @ [i]" "tree_children node ! i" r] here Cons by (auto simp: children_at_iff)
    qed
  qed
qed simp

lemma FindFrameEntry_sound:
  assumes "FindFrameEntry f t = Some p" shows "\<exists>n. node_at p t = Some n \<and> MatchesFrame f p n"
  by (rule find_matching_sound [OF assms [unfolded FindFrameEntry_def]]) auto

lemma FindFrameEntry_complete:
  "FindFrameEntry f t = None \<Longrightarrow> node_at p t = Some n \<Longrightarrow> \<not> MatchesFrame f p n"
  using find_matching_complete [of f "[([], t)]" "[]" t p n] by (simp add: FindFrameEntry_def)

lemma FindFrameEntry_unique:
  assumes "node_at p t = Some n" "MatchesFrame f p n"
    and "\<And>q m. node_at q t = Some m \<Longrightarrow> MatchesFrame f q m \<Longrightarrow> q = p"
  shows "FindFrameEntry f t = Some p"
proof (cases "FindFrameEntry f t")
  case None then show ?thesis using FindFrameEntry_complete assms(1,2) by blast
next
  case (Some q) then show ?thesis using FindFrameEntry_sound [OF Some] assms(3) by blast
qed

lemma FindFrameEntry_main: "IsMainFrame f \<Longrightarrow> FindFrameEntry f t = Some []"
  by (simp add: FindFrameEntry_def MatchesFrame_def)

subsection \<open>Recording a frame\<close>

lemma node_at_update:
  "node_at p t = Some n \<Longrightarrow> node_at (p @ q) (update_at p g t) = node_at q (g n)"
proof (induction p t rule: node_at.induct)
  case (2 i path node)
  then show ?case by (cases node) (auto split: if_splits)
qed simp

text \<open>Elsewhere than below the place of the update, the frame entries stay.\<close>

lemma node_at_update_elsewhere:
  assumes "node_at q (update_at p g t) = Some m" "\<And>n. frame_entry (g n) = frame_entry n"
    and "\<And>r. q = p @ r \<Longrightarrow> r = []"
  shows "\<exists>m'. node_at q t = Some m' \<and> frame_entry m' = frame_entry m"
  using assms
proof (induction p g t arbitrary: q rule: update_at.induct)
  case (1 g node)
  then show ?case by auto
next
  case (2 i p g fe cs)
  show ?case
  proof (cases q)
    case Nil then show ?thesis using 2(2) by auto
  next
    case (Cons j r)
    show ?thesis
    proof (cases "j = i \<and> i < length cs")
      case True
      then have "node_at r (update_at p g (cs ! i)) = Some m" using 2(2) Cons by simp
      moreover have "\<And>r'. r = p @ r' \<Longrightarrow> r' = []" using 2(4) Cons True by simp
      ultimately obtain m' where "node_at r (cs ! i) = Some m'" "frame_entry m' = frame_entry m"
        using 2(1) [OF _ _ 2(3)] True by blast
      then show ?thesis using True Cons by simp
    next
      case False
      then show ?thesis using 2(2) Cons by (auto simp: nth_list_update split: if_splits)
    qed
  qed
qed

text \<open>The frame's name occurs in the tree at most once, as a child of its parent.\<close>

definition only_child_named :: "string \<Rightarrow> tree_path \<Rightarrow> TreeNode \<Rightarrow> bool" where
  "only_child_named name pp t \<longleftrightarrow>
     (\<exists>i. \<forall>p n. node_at p t = Some n \<longrightarrow> p \<noteq> [] \<longrightarrow> frame_unique_name (frame_entry n) = name \<longrightarrow> p = pp @ [i])"

definition records :: "frame_update \<Rightarrow> FrameNavigationEntry \<Rightarrow> bool" where
  "records u fe \<longleftrightarrow> fne_url fe = u_url u \<and> fne_referrer fe = u_referrer u \<and> fne_page_state fe = u_page_state u \<and>
     fne_redirect_chain fe = u_redirect_chain u \<and> fne_site_instance fe = u_site_instance u \<and>
     fne_source_site_instance fe = u_source_site_instance u \<and> fne_method fe = u_method u \<and> fne_post_id fe = u_post_id u"

lemma new_child_records:
  fixes ps :: page_env and name :: string and u :: frame_update
  defines "fe \<equiv> (FrameEntry_SetPageState ps (u_page_state u)
        (FrameNavigationEntry_new name (u_item_sequence_number u) (u_document_sequence_number u)
           (u_site_instance u) (u_source_site_instance u) (u_url u) (u_referrer u) (u_method u) (u_post_id u)))
        \<lparr>fne_redirect_chain := u_redirect_chain u\<rparr>"
  shows "frame_unique_name fe = name \<and> records u fe"
  by (auto simp: fe_def records_def FrameEntry_SetPageState_def FrameNavigationEntry_new_def split: option.split)

text \<open>Where the frame's entry is in the list of children afterwards, and what else is there.\<close>

lemma update_child_result:
  fixes cs :: "TreeNode list" and ps :: page_env and name :: string and u :: frame_update
  defines "cs' \<equiv> update_child ps name u cs"
  shows "\<exists>k < length cs'. frame_unique_name (frame_entry (cs' ! k)) = name \<and> records u (frame_entry (cs' ! k)) \<and>
    (\<forall>j < length cs'. j \<noteq> k \<longrightarrow> j < length cs \<and> cs' ! j = cs ! j) \<and>
    (k < length cs \<and> frame_unique_name (frame_entry (cs ! k)) = name \<and>
       (tree_children (cs' ! k) = [] \<or> tree_children (cs' ! k) = tree_children (cs ! k)) \<or>
     k = length cs \<and> (\<forall>c \<in> set cs. frame_unique_name (frame_entry c) \<noteq> name) \<and> tree_children (cs' ! k) = [])"
  unfolding cs'_def
proof (induction cs)
  case Nil
  show ?case using new_child_records [where ps = ps and u = u and name = name] by simp
next
  case (Cons c cs)
  show ?case
  proof (cases "frame_unique_name (frame_entry c) = name")
    case True
    have "frame_unique_name (frame_entry (update_node name u c)) = name \<and> records u (frame_entry (update_node name u c)) \<and>
        (tree_children (update_node name u c) = [] \<or> tree_children (update_node name u c) = tree_children c)"
      by (simp add: update_node_def UpdateEntry_def records_def)
    then show ?thesis using True by (intro exI [of _ 0]) (auto simp: nth_Cons')
  next
    case False
    from Cons.IH obtain k where k: "k < length (update_child ps name u cs)"
      "frame_unique_name (frame_entry (update_child ps name u cs ! k)) = name"
      "records u (frame_entry (update_child ps name u cs ! k))"
      "\<forall>j < length (update_child ps name u cs). j \<noteq> k \<longrightarrow> j < length cs \<and> update_child ps name u cs ! j = cs ! j"
      "k < length cs \<and> frame_unique_name (frame_entry (cs ! k)) = name \<and>
         (tree_children (update_child ps name u cs ! k) = [] \<or>
          tree_children (update_child ps name u cs ! k) = tree_children (cs ! k)) \<or>
       k = length cs \<and> (\<forall>c \<in> set cs. frame_unique_name (frame_entry c) \<noteq> name) \<and>
         tree_children (update_child ps name u cs ! k) = []" by blast
    have j: "j < length (c # cs) \<and> (c # update_child ps name u cs) ! j = (c # cs) ! j"
      if "j < length (c # update_child ps name u cs)" "j \<noteq> Suc k" for j
      using that k(4) by (cases j) auto
    show ?thesis
      by (rule exI [of _ "Suc k"]) (use False k(1,2,3,5) j in auto)
  qed
qed

lemma recorded_frame_found:
  assumes sub: "\<not> IsMainFrame f" and ne: "f \<noteq> []" and parent: "FindFrameEntry (tl f) t = Some pp"
    and only: "only_child_named (hd f) pp t"
  shows "\<exists>fe. Tree_GetFrameEntry f (AddOrUpdateFrameEntry ps f u t) = Some fe \<and>
     frame_unique_name fe = hd f \<and> records u fe"
proof -
  define name where "name = hd f"
  define g where "g = (\<lambda>parent. TreeNode (frame_entry parent) (update_child ps name u (tree_children parent)))"
  define t' where "t' = AddOrUpdateFrameEntry ps f u t"
  have t': "t' = update_at pp g t"
    using sub parent by (simp add: t'_def AddOrUpdateFrameEntry_def g_def name_def)
  obtain n where n: "node_at pp t = Some n" using FindFrameEntry_sound [OF parent] by blast
  let ?cs = "tree_children n" and ?cs' = "update_child ps name u (tree_children n)"
  obtain k where k: "k < length ?cs'" "frame_unique_name (frame_entry (?cs' ! k)) = name" "records u (frame_entry (?cs' ! k))"
    "\<And>j. j < length ?cs' \<Longrightarrow> j \<noteq> k \<Longrightarrow> j < length ?cs \<and> ?cs' ! j = ?cs ! j"
    and kids: "k < length ?cs \<and> frame_unique_name (frame_entry (?cs ! k)) = name \<and>
         (tree_children (?cs' ! k) = [] \<or> tree_children (?cs' ! k) = tree_children (?cs ! k)) \<or>
       k = length ?cs \<and> (\<forall>c \<in> set ?cs. frame_unique_name (frame_entry c) \<noteq> name) \<and> tree_children (?cs' ! k) = []"
    using update_child_result [of ps name u "tree_children n"] by blast
  obtain i where i: "\<And>p m. node_at p t = Some m \<Longrightarrow> p \<noteq> [] \<Longrightarrow> frame_unique_name (frame_entry m) = name \<Longrightarrow> p = pp @ [i]"
    using only by (auto simp: only_child_named_def name_def)
  have below: "node_at (pp @ q) t' = node_at q (TreeNode (frame_entry n) ?cs')" for q
    unfolding t' using node_at_update [OF n] by (simp add: g_def)
  have at: "node_at (pp @ [k]) t' = Some (?cs' ! k)" using k(1) below [of "[k]"] by simp
  have matches: "MatchesFrame f q m \<longleftrightarrow> q \<noteq> [] \<and> frame_unique_name (frame_entry m) = name" for q m
    using sub by (auto simp: MatchesFrame_def name_def)
  have unique: "q = pp @ [k]" if q: "node_at q t' = Some m" "q \<noteq> []" "frame_unique_name (frame_entry m) = name" for q m
  proof (cases "\<exists>j r. q = pp @ j # r")
    case False
    then have "\<And>r. q = pp @ r \<Longrightarrow> r = []" by (metis neq_Nil_conv)
    then obtain m' where "node_at q t = Some m'" "frame_entry m' = frame_entry m"
      using node_at_update_elsewhere [of q pp g t m] q(1) by (auto simp: t' g_def)
    then have "q = pp @ [i]" using i q by simp
    then show ?thesis using False by blast
  next
    case True
    then obtain j r where q': "q = pp @ j # r" by blast
    then have j: "j < length ?cs'" "node_at r (?cs' ! j) = Some m" using q(1) below [of "j # r"] by (auto split: if_splits)
    show ?thesis
    proof (cases "j = k")
      case False
      then have old: "j < length ?cs" "?cs' ! j = ?cs ! j" using k(4) j(1) by auto
      then have "node_at q t = Some m" unfolding q' using n j(2) by (simp add: node_at_append)
      then have qi: "q = pp @ [i]" using i q by blast
      then have "j = i" "r = []" using q' by simp_all
      then have "frame_unique_name (frame_entry (?cs ! j)) = name" using old j(2) q(3) by simp
      then have "k < length ?cs \<and> frame_unique_name (frame_entry (?cs ! k)) = name" using kids old(1) by (metis nth_mem)
      then have "pp @ [k] = pp @ [i]" using i [of "pp @ [k]" "?cs ! k"] n by (simp add: node_at_append)
      then show ?thesis using qi by simp
    next
      case True
      show ?thesis
      proof (cases r)
        case Nil then show ?thesis using True q' by simp
      next
        case (Cons l r')
        then have "tree_children (?cs' ! k) \<noteq> []" using j(2) True by (auto split: if_splits)
        then have kk: "k < length ?cs" "tree_children (?cs' ! k) = tree_children (?cs ! k)" using kids by auto
        then have "node_at r (?cs ! k) = Some m" using j(2) True Cons by (auto split: if_splits)
        then have "node_at q t = Some m" unfolding q' True using n kk(1) by (simp add: node_at_append)
        then have "q = pp @ [i]" using i q by blast
        then show ?thesis using q' Cons by simp
      qed
    qed
  qed
  have "FindFrameEntry f t' = Some (pp @ [k])"
    by (rule FindFrameEntry_unique [OF at]) (use k(2) unique in \<open>auto simp: matches\<close>)
  then show ?thesis
    using at k(2,3) by (simp add: Tree_GetFrameEntry_def t'_def [symmetric] name_def)
qed

lemma recorded_main_frame_found:
  assumes "IsMainFrame f"
  shows "\<exists>fe. Tree_GetFrameEntry f (AddOrUpdateFrameEntry ps f u t) = Some fe \<and>
     frame_unique_name fe = hd f \<and> records u fe"
  using assms FindFrameEntry_main [OF assms]
  by (simp add: Tree_GetFrameEntry_def AddOrUpdateFrameEntry_def update_node_def UpdateEntry_def records_def)

end
