(* ===== verification/Page_State_Lemmas.thy ===== *)
theory Page_State_Lemmas
  imports Page_State
begin

text \<open>
  Reading back what was written: the laws of pickles, the states that the format can store, and
  the reader of each part as the inverse of its writer.
\<close>

subsection \<open>Pickles\<close>

text \<open>What \<open>base::Pickle\<close> documents: the values of a pickle are read in the order in which they
  were written, a boolean as the integer 1 or 0.\<close>

definition pickle_ok :: "page_env \<Rightarrow> bool" where
  "pickle_ok env \<longleftrightarrow>
     (\<forall>p. PicklePayload env (PickleData env p) = p \<and> PickleData env p \<noteq> []) \<and>
     (\<forall>n r. Iterator_ReadInt env (Pickle_WriteInt env n @ r) = (Some n, r) \<and> Pickle_WriteInt env n \<noteq> []) \<and>
     (\<forall>n r. Iterator_ReadInt64 env (Pickle_WriteInt64 env n @ r) = (Some n, r)) \<and>
     (\<forall>b r. Iterator_ReadBool env (Pickle_WriteInt env (if b then 1 else 0) @ r) = (Some b, r)) \<and>
     (\<forall>d r. length d \<le> int_max \<longrightarrow> Iterator_ReadBytes env (length d) (Pickle_WriteBytes env d @ r) = (Some d, r)) \<and>
     (\<forall>d r. length d \<le> int_max \<longrightarrow> Iterator_ReadData env (Pickle_WriteData env d @ r) = (Some d, r)) \<and>
     (\<forall>s r. length s \<le> int_max \<longrightarrow> Iterator_ReadString env (Pickle_WriteString env s @ r) = (Some s, r))"

text \<open>An iterator only moves forward, an integer takes a byte at least, and as many bytes are read as
  were asked for.\<close>

definition pickle_ends :: "page_env \<Rightarrow> bool" where
  "pickle_ends env \<longleftrightarrow>
     (\<forall>p. length (snd (Iterator_ReadInt env p)) \<le> length p) \<and>
     (\<forall>p n r. Iterator_ReadInt env p = (Some n, r) \<longrightarrow> length r < length p) \<and>
     (\<forall>p. length (snd (Iterator_ReadInt64 env p)) \<le> length p) \<and>
     (\<forall>p. length (snd (Iterator_ReadBool env p)) \<le> length p) \<and>
     (\<forall>n p. length (snd (Iterator_ReadBytes env n p)) \<le> length p) \<and>
     (\<forall>n p d r. Iterator_ReadBytes env n p = (Some d, r) \<longrightarrow> length d = n) \<and>
     (\<forall>p. length (snd (Iterator_ReadData env p)) \<le> length p) \<and>
     (\<forall>p. length (snd (Iterator_ReadString env p)) \<le> length p)"

text \<open>The kinds of elements are distinct constants, sizes are positive and small, and a \<open>float\<close> is
  kept by a \<open>double\<close>.\<close>

definition constants_ok :: "page_env \<Rightarrow> bool" where
  "constants_ok env \<longleftrightarrow>
     distinct [kTypeData env, kTypeFile env, kTypeBlob env, kTypeFileSystemURL env] \<and>
     (\<forall>size \<in> {sizeof_NullableString16 env, sizeof_Element env, sizeof_ExplodedFrameState env}.
        0 < size \<and> size \<le> int_max) \<and>
     (\<forall>x. float_of_double env (double_of_float env x) = x)"

subsection \<open>What can be stored\<close>

definition string_ok :: "NullableString16 \<Rightarrow> bool" where
  "string_ok s \<longleftrightarrow> length (nullable_text s) * 2 < int_max"

definition vector_ok :: "nat \<Rightarrow> 'a list \<Rightarrow> bool" where
  "vector_ok element_size v \<longleftrightarrow> length v < int_max div element_size"

fun element_ok :: "page_env \<Rightarrow> Element \<Rightarrow> bool" where
  "element_ok env (TYPE_BYTES data) \<longleftrightarrow> data \<noteq> [] \<and> length data \<le> int_max"
| "element_ok env (TYPE_FILE path offset len time) \<longleftrightarrow>
     FromUTF16Unsafe env (AsUTF16Unsafe env path) = path \<and> string_ok (Some (AsUTF16Unsafe env path)) \<and>
     int_argument offset = offset \<and> int_argument len = len \<and> FromDoubleT env (ToDoubleT env time) = time"
| "element_ok env (TYPE_FILE_FILESYSTEM url offset len time) \<longleftrightarrow>
     parse_url (page_urls env) (spec url) = url \<and> length (spec url) \<le> int_max \<and>
     int_argument offset = offset \<and> int_argument len = len \<and> FromDoubleT env (ToDoubleT env time) = time"
| "element_ok env (TYPE_BLOB uuid) \<longleftrightarrow> length uuid \<le> int_max"
| "element_ok env _ \<longleftrightarrow> False"

definition body_ok :: "page_env \<Rightarrow> ResourceRequestBodyImpl \<Rightarrow> bool" where
  "body_ok env body \<longleftrightarrow> vector_ok (sizeof_Element env) (body_elements body) \<and>
     (\<forall>e \<in> set (body_elements body). element_ok env e)"

definition http_body_ok :: "page_env \<Rightarrow> ExplodedHttpBody \<Rightarrow> bool" where
  "http_body_ok env b \<longleftrightarrow> string_ok (http_content_type b) \<and>
     (case request_body b of
        None \<Rightarrow> \<not> contains_passwords b
      | Some body \<Rightarrow> body_ok env body \<and> \<not> contains_sensitive_info body)"

text \<open>A frame that did not save its scroll state has the one that is read then.\<close>

definition fields_ok :: "page_env \<Rightarrow> frame_fields \<Rightarrow> bool" where
  "fields_ok env s \<longleftrightarrow>
     string_ok (x_url_string s) \<and> string_ok (x_referrer s) \<and> string_ok (x_target s) \<and> string_ok (x_state_object s) \<and>
     vector_ok (sizeof_NullableString16 env) (x_document_state s) \<and> (\<forall>t \<in> set (x_document_state s). string_ok t) \<and>
     http_body_ok env (x_http_body s) \<and>
     (\<not> x_did_save_scroll_or_scale_state s \<longrightarrow>
        x_scroll_offset s = (0, 0) \<and> x_page_scale_factor s = 0 \<and>
        x_visual_viewport_scroll_offset s = (minus_one_float env, minus_one_float env))"

fun frame_ok :: "page_env \<Rightarrow> ExplodedFrameState \<Rightarrow> bool" where
  "frame_ok env (ExplodedFrameState s cs) \<longleftrightarrow>
     fields_ok env s \<and> vector_ok (sizeof_ExplodedFrameState env) cs \<and> (\<forall>c \<in> set cs. frame_ok env c)"

definition files_ok :: "page_env \<Rightarrow> NullableString16 list \<Rightarrow> bool" where
  "files_ok env files \<longleftrightarrow> vector_ok (sizeof_NullableString16 env) files \<and> (\<forall>f \<in> set files. string_ok f) \<and>
     remdups_adj files = files"

definition storable :: "page_env \<Rightarrow> ExplodedPageState \<Rightarrow> bool" where
  "storable env x \<longleftrightarrow> files_ok env (referenced_files x) \<and> frame_ok env (top_state x)"

subsection \<open>Readers that invert writers\<close>

definition reads :: "int \<Rightarrow> 'a reader \<Rightarrow> bytes option \<Rightarrow> 'a \<Rightarrow> bool" where
  "reads ver m w x \<longleftrightarrow> (\<exists>b. w = Some b \<and> (\<forall>obj rest. obj_version obj = ver \<longrightarrow> iter obj = b @ rest \<longrightarrow>
     length (iter obj) \<le> payload_size obj \<longrightarrow> run_state m obj = (x, obj\<lparr>iter := rest\<rparr>)))"

lemma appended_Nil [simp]: "appended [] = Some []"
  by (simp add: appended_def)

lemma appended_Cons: "appended (w # ws) = Option.bind w (\<lambda>b. map_option (\<lambda>bs. b @ bs) (appended ws))"
  by (cases w) (simp_all add: appended_def option.map_comp comp_def)

lemma appended_single [simp]: "appended [w] = w"
  by (cases w) (simp_all add: appended_Cons)

lemma reads_return: "reads ver (State_Monad.return x) (Some []) x"
  by (simp add: reads_def)

lemma readsI:
  assumes "w = Some b"
    and "\<And>obj rest. obj_version obj = ver \<Longrightarrow> iter obj = b @ rest \<Longrightarrow>
      length (iter obj) \<le> payload_size obj \<Longrightarrow> run_state m obj = (x, obj\<lparr>iter := rest\<rparr>)"
  shows "reads ver m w x"
  unfolding reads_def by (rule exI [of _ b]) (simp add: assms)

lemma readsE:
  assumes "reads ver m w x"
  obtains b where "w = Some b"
    and "\<And>obj rest. obj_version obj = ver \<Longrightarrow> iter obj = b @ rest \<Longrightarrow>
      length (iter obj) \<le> payload_size obj \<Longrightarrow> run_state m obj = (x, obj\<lparr>iter := rest\<rparr>)"
  using assms unfolding reads_def by (elim exE conjE) metis

lemma reads_return_eq: "x = y \<Longrightarrow> reads ver (State_Monad.return x) (Some []) y"
  by (simp add: reads_return)

lemma reads_bind:
  assumes "reads ver m w x" "reads ver (f x) (appended ws) y"
  shows "reads ver (State_Monad.bind m f) (appended (w # ws)) y"
proof -
  obtain b where b: "w = Some b"
    and m: "\<And>obj rest. obj_version obj = ver \<Longrightarrow> iter obj = b @ rest \<Longrightarrow>
        length (iter obj) \<le> payload_size obj \<Longrightarrow> run_state m obj = (x, obj\<lparr>iter := rest\<rparr>)"
    using assms(1) by (elim readsE) blast
  obtain bs where bs: "appended ws = Some bs"
    and f: "\<And>obj rest. obj_version obj = ver \<Longrightarrow> iter obj = bs @ rest \<Longrightarrow>
        length (iter obj) \<le> payload_size obj \<Longrightarrow> run_state (f x) obj = (y, obj\<lparr>iter := rest\<rparr>)"
    using assms(2) by (elim readsE) blast
  show ?thesis
  proof (rule readsI)
    show "appended (w # ws) = Some (b @ bs)" by (simp add: appended_Cons b bs)
    fix obj :: SerializeObject and rest
    assume o: "obj_version obj = ver" "iter obj = (b @ bs) @ rest" "length (iter obj) \<le> payload_size obj"
    show "run_state (State_Monad.bind m f) obj = (y, obj\<lparr>iter := rest\<rparr>)"
      using m [of obj "bs @ rest"] f [of "obj\<lparr>iter := bs @ rest\<rparr>" rest] o by simp
  qed
qed

lemma reads_bind_last: "reads ver m w x \<Longrightarrow> reads ver (f x) (Some []) y \<Longrightarrow> reads ver (State_Monad.bind m f) w y"
  using reads_bind [of ver m w x f "[]" y] by simp

lemma reads_map: "reads ver m w x \<Longrightarrow> g x = y \<Longrightarrow> reads ver (State_Monad.bind m (\<lambda>x. State_Monad.return (g x))) w y"
  by (rule reads_bind_last, assumption, hypsubst, rule reads_return)

lemma reads_version: "reads ver (f ver) w y \<Longrightarrow> reads ver (State_Monad.bind get_version f) w y"
  unfolding reads_def get_version_def by auto

lemma reads_or:
  assumes "\<And>rest. r (b @ rest) = (Some x, rest)"
  shows "reads ver (read_or r y) (Some b) x"
proof (rule readsI [OF refl])
  fix obj :: SerializeObject and rest
  assume "iter obj = b @ rest"
  then show "run_state (read_or r y) obj = (x, obj\<lparr>iter := rest\<rparr>)" by (simp add: read_or_def assms)
qed

text \<open>The environment of the lemmas on reading back.\<close>

definition env_ok :: "page_env \<Rightarrow> bool" where
  "env_ok env \<longleftrightarrow> pickle_ok env \<and> constants_ok env"

lemma reads_Integer: "env_ok env \<Longrightarrow> reads ver (ReadInteger env) (WriteInteger env n) n"
  unfolding env_ok_def pickle_ok_def ReadInteger_def WriteInteger_def by (intro reads_or) blast

lemma reads_Integer64: "env_ok env \<Longrightarrow> reads ver (ReadInteger64 env) (WriteInteger64 env n) n"
  unfolding env_ok_def pickle_ok_def ReadInteger64_def WriteInteger64_def by (intro reads_or) blast

lemma reads_Boolean: "env_ok env \<Longrightarrow> reads ver (ReadBoolean env) (WriteBoolean env b) b"
  unfolding env_ok_def pickle_ok_def ReadBoolean_def WriteBoolean_def by (intro reads_or) blast

lemma reads_Data:
  "env_ok env \<Longrightarrow> length d \<le> int_max \<Longrightarrow> reads ver (ReadData env) (Some (Pickle_WriteData env d)) d"
  unfolding env_ok_def pickle_ok_def ReadData_def by (intro reads_or) blast

lemma reads_Real: "env_ok env \<Longrightarrow> reads ver (ReadReal env) (WriteReal env d) d"
  unfolding ReadReal_def WriteReal_def
  by (rule reads_bind_last [OF reads_Data]) (simp_all add: reads_return del: le_bytes.simps)

lemma reads_StdString:
  "env_ok env \<Longrightarrow> length s \<le> int_max \<Longrightarrow> reads ver (ReadStdString env) (WriteStdString env s) s"
  unfolding env_ok_def pickle_ok_def ReadStdString_def WriteStdString_def by (intro reads_or) blast

lemma reads_GURL:
  assumes "env_ok env" "parse_url (page_urls env) (spec url) = url" "length (spec url) \<le> int_max"
  shows "reads ver (ReadGURL env) (WriteGURL env url) url"
  using assms unfolding env_ok_def pickle_ok_def ReadGURL_def WriteGURL_def
  by (intro reads_or) (simp add: mapped_def)

lemma int_of_count: "n \<le> int_max \<Longrightarrow> sint (of_nat n :: int32) = int n"
  by (simp add: signed_of_nat signed_take_bit_int_eq_self)

lemma unat_of_count: "n \<le> int_max \<Longrightarrow> unat (of_nat n :: int32) = n"
  by (simp add: unat_of_nat take_bit_nat_eq_self)

lemma size_of_count:
  assumes "n \<le> int_max"
  shows "unat (scast (of_nat n :: int32) :: 64 word) = n"
proof -
  have "scast (of_nat n :: int32) = (word_of_int (sint (of_nat n :: int32)) :: 64 word)" by simp
  also have "\<dots> = of_nat n" unfolding int_of_count [OF assms] by simp
  finally show ?thesis using assms by (simp add: unat_of_nat take_bit_nat_eq_self)
qed

lemma reads_String:
  assumes "env_ok env" "string_ok s"
  shows "reads ver (ReadString env) (WriteString env s) s"
proof (cases s)
  case None
  have "reads ver (ReadStringNoCopy env) (WriteInteger env (-1)) None"
    unfolding ReadStringNoCopy_def WriteInteger_def
    using assms(1) by (intro reads_bind_last [OF reads_or]) (auto simp: env_ok_def pickle_ok_def mapped_def reads_return)
  then show ?thesis unfolding ReadString_def None WriteString_def by (auto intro: reads_map)
next
  case (Some t)
  have small: "length t * 2 < int_max" using assms(2) by (simp add: string_ok_def Some nullable_text_def)
  define w :: int32 where "w = of_nat (length t * 2)"
  have n: "unat w = length t * 2" "\<not> sint w < 0"
    using small int_of_count [of "length t * 2"] unat_of_count [of "length t * 2"] unfolding w_def by simp_all
  have bytes: "Iterator_ReadBytes env (length t * 2) (Pickle_WriteBytes env (utf16le t) @ r) = (Some (utf16le t), r)" for r
    using assms(1) small unfolding env_ok_def pickle_ok_def by (metis length_utf16le less_imp_le mult.commute)
  have "reads ver (ReadStringNoCopy env)
      (appended [WriteInteger env w, Some (Pickle_WriteBytes env (utf16le t))]) (Some (utf16le t))"
    unfolding ReadStringNoCopy_def WriteInteger_def
  proof (rule reads_bind)
    show "reads ver (read_or (mapped Some (Iterator_ReadInt env)) None) (Some (Pickle_WriteInt env w)) (Some w)"
      using assms(1) by (intro reads_or) (simp add: env_ok_def pickle_ok_def mapped_def)
    show "reads ver (case Some w of None \<Rightarrow> State_Monad.return None
        | Some n \<Rightarrow> if sint n < 0 then State_Monad.return None else read_or (mapped Some (Iterator_ReadBytes env (unat n))) None)
        (appended [Some (Pickle_WriteBytes env (utf16le t))]) (Some (utf16le t))"
      using n bytes by (auto intro!: reads_or simp: mapped_def)
  qed
  then show ?thesis unfolding ReadString_def Some WriteString_def w_def
    by (auto intro!: reads_map simp: small Let_def)
qed

subsection \<open>Vectors\<close>

text \<open>A vector is plausible when each of its elements took a byte.\<close>

lemma reads_size:
  assumes "env_ok env" "vector_ok element_size v"
  obtains b where "WriteAndValidateVectorSize env element_size v = Some b"
    and "\<And>obj rest. iter obj = b @ rest \<Longrightarrow> length v \<le> length rest \<Longrightarrow> length (iter obj) \<le> payload_size obj \<Longrightarrow>
      run_state (ReadAndValidateVectorSize env element_size) obj = (length v, obj\<lparr>iter := rest\<rparr>)"
proof -
  have "length v \<le> int_max"
    using assms(2) div_le_dividend [of int_max element_size] unfolding vector_ok_def by linarith
  note n = size_of_count [OF this]
  let ?b = "Pickle_WriteInt env (of_nat (length v))"
  have "0 < length ?b" and int: "Iterator_ReadInt env (?b @ rest) = (Some (of_nat (length v)), rest)" for rest
    using assms(1) by (simp_all add: env_ok_def pickle_ok_def)
  then have "run_state (ReadAndValidateVectorSize env element_size) obj = (length v, obj\<lparr>iter := rest\<rparr>)"
    if "iter obj = ?b @ rest" "length v \<le> length rest" "length (iter obj) \<le> payload_size obj" for obj rest
    using that assms(2) n not_le_imp_less
    by (cases ?b) (simp_all add: ReadAndValidateVectorSize_def ReadInteger_def read_or_def vector_ok_def Let_def)
  moreover have "WriteAndValidateVectorSize env element_size v = Some ?b"
    using assms(2) by (simp add: WriteAndValidateVectorSize_def WriteInteger_def vector_ok_def)
  ultimately show thesis by (rule that [rotated])
qed

lemma reads_times:
  assumes "\<And>x. x \<in> set v \<Longrightarrow> reads ver m (W x) x \<and> W x \<noteq> Some []"
  shows "reads ver (read_times (length v) m) (appended (map W v)) v"
    and "\<exists>b. appended (map W v) = Some b \<and> length v \<le> length b"
  using assms
proof (induction v)
  case Nil
  { case 1 then show ?case by (simp add: reads_return) }
  { case 2 then show ?case by simp }
next
  case (Cons x v)
  { case 1
    have "reads ver (read_times (length v) m) (appended (map W v)) v" using 1 by (intro Cons.IH) simp
    then have "reads ver (read_times (length v) m \<bind> (\<lambda>xs. State_Monad.return (x # xs))) (appended (map W v)) (x # v)"
      by (rule reads_map) (rule refl)
    then show ?case using 1 by (auto intro: reads_bind) }
  { case 2
    obtain b where "appended (map W v) = Some b" "length v \<le> length b" using Cons.IH(2) 2 by auto
    moreover obtain c where "W x = Some c" "c \<noteq> []" using 2 [of x] by (auto elim: readsE)
    ultimately show ?case by (cases c) (auto simp: appended_Cons) }
qed

lemma reads_vector:
  assumes "env_ok env" "vector_ok element_size v" "\<And>x. x \<in> set v \<Longrightarrow> reads ver m (W x) x \<and> W x \<noteq> Some []"
  shows "reads ver (do { n \<leftarrow> ReadAndValidateVectorSize env element_size; read_times n m })
    (appended (WriteAndValidateVectorSize env element_size v # map W v)) v"
proof -
  obtain b where b: "WriteAndValidateVectorSize env element_size v = Some b"
    and size: "\<And>obj rest. iter obj = b @ rest \<Longrightarrow> length v \<le> length rest \<Longrightarrow> length (iter obj) \<le> payload_size obj \<Longrightarrow>
      run_state (ReadAndValidateVectorSize env element_size) obj = (length v, obj\<lparr>iter := rest\<rparr>)"
    using reads_size [OF assms(1,2)] by blast
  obtain bs where bs: "appended (map W v) = Some bs" "length v \<le> length bs"
    using reads_times(2) [of v ver m W] assms(3) by blast
  have times: "reads ver (read_times (length v) m) (Some bs) v"
    using reads_times(1) [of v ver m W] assms(3) bs(1) by simp
  show ?thesis
  proof (rule readsI)
    show "appended (WriteAndValidateVectorSize env element_size v # map W v) = Some (b @ bs)"
      by (simp add: appended_Cons b bs)
    fix obj :: SerializeObject and rest
    assume o: "obj_version obj = ver" "iter obj = (b @ bs) @ rest" "length (iter obj) \<le> payload_size obj"
    have "run_state (ReadAndValidateVectorSize env element_size) obj = (length v, obj\<lparr>iter := bs @ rest\<rparr>)"
      using o bs(2) by (intro size) simp_all
    moreover have "run_state (read_times (length v) m) (obj\<lparr>iter := bs @ rest\<rparr>) = (v, obj\<lparr>iter := rest\<rparr>)"
      using times o by (auto elim!: readsE)
    ultimately show "run_state (do { n \<leftarrow> ReadAndValidateVectorSize env element_size; read_times n m }) obj =
        (v, obj\<lparr>iter := rest\<rparr>)" by simp
  qed
qed

lemma WriteInteger_bytes: "env_ok env \<Longrightarrow> \<exists>b. WriteInteger env n = Some b \<and> b \<noteq> []"
  by (simp add: WriteInteger_def env_ok_def pickle_ok_def)

lemma appended_bytes: "\<exists>b. w = Some b \<and> b \<noteq> [] \<Longrightarrow> appended (w # ws) \<noteq> Some []"
  by (auto simp: appended_Cons)

lemma WriteString_bytes:
  assumes "env_ok env"
  shows "WriteString env s \<noteq> Some []"
  using assms appended_bytes [OF WriteInteger_bytes [OF assms]]
  by (auto simp: WriteString_def Let_def WriteInteger_def env_ok_def pickle_ok_def split: option.split)

lemma reads_StringVector:
  assumes "env_ok env" "vector_ok (sizeof_NullableString16 env) v" "\<forall>s \<in> set v. string_ok s"
  shows "reads ver (ReadStringVector env) (WriteStringVector env v) v"
  unfolding ReadStringVector_def WriteStringVector_def
  using assms by (intro reads_vector) (simp_all add: reads_String WriteString_bytes)

lemmas reads_next = reads_bind [OF reads_Integer] reads_bind [OF reads_Integer64] reads_bind [OF reads_Boolean]
  reads_bind [OF reads_Real] reads_bind [OF reads_String] reads_bind [OF reads_GURL]
  reads_bind [OF reads_StdString] reads_bind [OF reads_Data] reads_bind [OF reads_StringVector]

subsection \<open>Bodies\<close>

lemma distinct_kinds:
  assumes "env_ok env"
  shows "kTypeFile env \<noteq> kTypeData env" "kTypeFileSystemURL env \<noteq> kTypeData env" "kTypeBlob env \<noteq> kTypeData env"
    "kTypeFileSystemURL env \<noteq> kTypeFile env" "kTypeBlob env \<noteq> kTypeFile env" "kTypeBlob env \<noteq> kTypeFileSystemURL env"
  using assms by (auto simp: env_ok_def constants_ok_def)

text \<open>The bounds under which an element is written as the format means it, and what is read for it: no
  data that is empty, no blob before version 16, ranges cut to an \<open>int\<close>, and paths, URLs and times as
  the conversions of the environment give them back.\<close>

fun element_fits :: "page_env \<Rightarrow> Element \<Rightarrow> bool" where
  "element_fits env (TYPE_BYTES data) \<longleftrightarrow> length data \<le> int_max"
| "element_fits env (TYPE_FILE path offset len time) \<longleftrightarrow> string_ok (Some (AsUTF16Unsafe env path))"
| "element_fits env (TYPE_FILE_FILESYSTEM url offset len time) \<longleftrightarrow> length (spec url) \<le> int_max"
| "element_fits env (TYPE_BLOB uuid) \<longleftrightarrow> length uuid \<le> int_max"
| "element_fits env _ \<longleftrightarrow> False"

definition body_fits :: "page_env \<Rightarrow> ResourceRequestBodyImpl \<Rightarrow> bool" where
  "body_fits env body \<longleftrightarrow> vector_ok (sizeof_Element env) (body_elements body) \<and>
     (\<forall>e \<in> set (body_elements body). element_fits env e)"

fun read_back :: "page_env \<Rightarrow> int \<Rightarrow> Element \<Rightarrow> Element list" where
  "read_back env version (TYPE_BYTES data) = (if data = [] then [] else [TYPE_BYTES data])"
| "read_back env version (TYPE_FILE path offset len time) =
     [TYPE_FILE (FromUTF16Unsafe env (AsUTF16Unsafe env path)) (scast (ucast offset :: int32)) (scast (ucast len :: int32))
        (FromDoubleT env (ToDoubleT env time))]"
| "read_back env version (TYPE_FILE_FILESYSTEM url offset len time) =
     [TYPE_FILE_FILESYSTEM (parse_url (page_urls env) (spec url)) (scast (ucast offset :: int32)) (scast (ucast len :: int32))
        (FromDoubleT env (ToDoubleT env time))]"
| "read_back env version (TYPE_BLOB uuid) = (if 16 \<le> version then [TYPE_BLOB uuid] else [])"
| "read_back env version _ = []"

fun is_kept :: "int \<Rightarrow> Element \<Rightarrow> bool" where
  "is_kept version (TYPE_BLOB uuid) \<longleftrightarrow> 16 \<le> version"
| "is_kept version _ \<longleftrightarrow> True"

lemma element_ok_read_back:
  "element_ok env e \<Longrightarrow> element_fits env e \<and> read_back env version e = (if is_kept version e then [e] else [])"
  by (cases e) (simp_all add: int_argument_def)

lemma body_ok_fits: "body_ok env body \<Longrightarrow> body_fits env body"
  using element_ok_read_back by (auto simp: body_ok_def body_fits_def)

lemma body_ok_read_back:
  assumes "body_ok env body"
  shows "concat (map (read_back env version) (body_elements body)) = filter (is_kept version) (body_elements body)"
proof -
  have "\<forall>e \<in> set es. element_ok env e \<Longrightarrow> concat (map (read_back env version) es) = filter (is_kept version) es" for es
    by (induction es) (simp_all add: element_ok_read_back)
  then show ?thesis using assms by (simp add: body_ok_def)
qed

lemma reads_element:
  assumes env: "env_ok env" and e: "element_fits env e"
  shows "reads ver (read_element env body) (write_element env e) (fold append_element (read_back env ver e) body)"
proof (cases e)
  case (TYPE_BYTES data)
  have "reads ver (ReadData env \<bind> (\<lambda>data. State_Monad.return (AppendBytes data body)))
      (appended [Some (Pickle_WriteData env data)]) (fold append_element (read_back env ver e) body)"
    using e by (intro reads_bind [OF reads_Data [OF env]]) (simp_all add: TYPE_BYTES AppendBytes_def reads_return)
  then show ?thesis unfolding read_element_def TYPE_BYTES write_element.simps
    by (intro reads_bind [OF reads_Integer [OF env]]) simp
next
  case (TYPE_FILE path offset len time)
  have "reads ver (do {
       file_path \<leftarrow> ReadString env;
       file_start \<leftarrow> ReadInteger64 env;
       file_length \<leftarrow> ReadInteger64 env;
       time \<leftarrow> ReadReal env;
       State_Monad.return (AppendFileRangeToRequestBody env file_path file_start file_length time body) })
     (appended [WriteString env (Some (AsUTF16Unsafe env path)), WriteInteger64 env offset, WriteInteger64 env len,
       WriteReal env (ToDoubleT env time)]) (fold append_element (read_back env ver e) body)"
    using e by (intro reads_next env)
      (simp_all add: TYPE_FILE AppendFileRangeToRequestBody_def int_argument_def nullable_text_def reads_return)
  then show ?thesis unfolding read_element_def TYPE_FILE write_element.simps
    using distinct_kinds [OF env] by (intro reads_bind [OF reads_Integer [OF env]]) simp
next
  case (TYPE_FILE_FILESYSTEM url offset len time)
  have url: "reads ver (ReadGURL env) (WriteGURL env url) (parse_url (page_urls env) (spec url))"
    using env e unfolding env_ok_def pickle_ok_def ReadGURL_def WriteGURL_def TYPE_FILE_FILESYSTEM
    by (intro reads_or) (simp add: mapped_def)
  have "reads ver (do {
       url \<leftarrow> ReadGURL env;
       file_start \<leftarrow> ReadInteger64 env;
       file_length \<leftarrow> ReadInteger64 env;
       time \<leftarrow> ReadReal env;
       State_Monad.return (AppendURLRangeToRequestBody env url file_start file_length time body) })
     (appended [WriteGURL env url, WriteInteger64 env offset, WriteInteger64 env len,
       WriteReal env (ToDoubleT env time)]) (fold append_element (read_back env ver e) body)"
    by (rule reads_bind [OF url], intro reads_next env)
      (simp_all add: TYPE_FILE_FILESYSTEM AppendURLRangeToRequestBody_def int_argument_def reads_return)
  then show ?thesis unfolding read_element_def TYPE_FILE_FILESYSTEM write_element.simps
    using distinct_kinds [OF env] by (intro reads_bind [OF reads_Integer [OF env]]) simp
next
  case (TYPE_BLOB uuid)
  have len: "length uuid \<le> int_max" using e by (simp add: TYPE_BLOB)
  have "reads ver (do { uuid \<leftarrow> ReadStdString env; State_Monad.return (AppendBlob uuid body) })
     (appended [WriteStdString env uuid]) (append_element (TYPE_BLOB uuid) body)"
    using len by (intro reads_next env) (simp_all add: AppendBlob_def reads_return)
  moreover have "reads ver (ReadGURL env \<bind> (\<lambda>_. State_Monad.return body)) (WriteStdString env uuid) body"
    using env len unfolding env_ok_def pickle_ok_def ReadGURL_def WriteStdString_def
    by (intro reads_bind_last [OF reads_or] reads_return) (simp add: mapped_def)
  ultimately show ?thesis unfolding read_element_def TYPE_BLOB write_element.simps
    using distinct_kinds [OF env]
    by (intro reads_bind [OF reads_Integer [OF env]]) (auto intro!: reads_version)
qed (use e in simp_all)

lemma append_elements [simp]:
  "body_elements (append_element e body) = body_elements body @ [e]"
  "body_elements (fold append_element es body) = body_elements body @ es"
  "contains_sensitive_info (fold append_element es body) = contains_sensitive_info body"
  by (induction es arbitrary: body) (simp_all add: append_element_def)

lemma reads_elements:
  assumes "env_ok env" "\<forall>e \<in> set es. element_fits env e"
  shows "reads ver (read_elements env (length es) body) (appended (map (write_element env) es))
    (fold append_element (concat (map (read_back env ver) es)) body)"
  using assms(2)
proof (induction es arbitrary: body)
  case Nil
  show ?case by (simp add: reads_return)
next
  case (Cons e es)
  then show ?case using reads_element [OF assms(1), of e ver body] by (auto intro!: reads_bind)
qed

lemma reads_ResourceRequestBody:
  assumes env: "env_ok env" and body: "body_fits env body"
  shows "reads ver (ReadResourceRequestBody env) (WriteResourceRequestBody env body)
    (body\<lparr>body_elements := concat (map (read_back env ver) (body_elements body)), contains_sensitive_info := False\<rparr>)"
proof -
  have "length (body_elements body) \<le> int_max"
    using body div_le_dividend [of int_max "sizeof_Element env"] unfolding body_fits_def vector_ok_def by linarith
  then have n: "nat (sint (of_nat (length (body_elements body)) :: int32)) = length (body_elements body)"
    by (simp only: int_of_count nat_int)
  have size: "WriteAndValidateVectorSize env (sizeof_Element env) (body_elements body) =
      WriteInteger env (of_nat (length (body_elements body)))"
    using body by (simp add: body_fits_def vector_ok_def WriteAndValidateVectorSize_def)
  let ?elements = "concat (map (read_back env ver) (body_elements body))"
  have result: "(fold append_element ?elements ResourceRequestBodyImpl_new)\<lparr>body_identifier := body_identifier body\<rparr> =
      body\<lparr>body_elements := ?elements, contains_sensitive_info := False\<rparr>"
    by (rule ResourceRequestBodyImpl.equality) (simp_all add: ResourceRequestBodyImpl_new_def)
  show ?thesis unfolding ReadResourceRequestBody_def WriteResourceRequestBody_def size
    by (intro reads_bind [OF reads_Integer [OF env]], subst n, intro reads_bind [OF reads_elements [OF env]])
      (use body in \<open>auto simp: body_fits_def intro!: reads_map reads_Integer64 env result\<close>)
qed

lemma reads_HttpBody:
  assumes env: "env_ok env" and b: "http_body_ok env b"
  shows "reads kCurrentVersion (ReadHttpBody env) (WriteHttpBody env b) (b\<lparr>http_content_type := None\<rparr>)"
proof (cases "request_body b")
  case None
  then have "ExplodedHttpBody_new = b\<lparr>http_content_type := None\<rparr>"
    using b by (intro ExplodedHttpBody.equality) (simp_all add: ExplodedHttpBody_new_def http_body_ok_def)
  then show ?thesis unfolding ReadHttpBody_def WriteHttpBody_def None
    by (auto intro!: reads_bind_last [OF reads_Boolean [OF env]] reads_return)
next
  case (Some body)
  have "filter (is_kept kCurrentVersion) (body_elements body) = body_elements body"
  proof (rule filter_True)
    show "\<forall>e \<in> set (body_elements body). is_kept kCurrentVersion e"
    proof
      fix e show "is_kept kCurrentVersion e" by (cases e) (simp_all add: kCurrentVersion_def)
    qed
  qed
  then have body: "body_ok env body" "body\<lparr>body_elements := filter (is_kept kCurrentVersion) (body_elements body),
      contains_sensitive_info := False\<rparr> = body"
    using b by (auto simp: http_body_ok_def Some)
  have result: "ExplodedHttpBody_new\<lparr>request_body := Some body, contains_passwords := contains_passwords b\<rparr> =
      b\<lparr>http_content_type := None\<rparr>"
    using Some by (intro ExplodedHttpBody.equality) (simp_all add: ExplodedHttpBody_new_def)
  have "reads kCurrentVersion (do {
       body \<leftarrow> ReadResourceRequestBody env;
       version \<leftarrow> get_version;
       passwords \<leftarrow> (if version \<ge> 12 then ReadBoolean env else State_Monad.return False);
       State_Monad.return (ExplodedHttpBody_new\<lparr>request_body := Some body, contains_passwords := passwords\<rparr>) })
     (appended [WriteResourceRequestBody env body, WriteBoolean env (contains_passwords b)])
     (b\<lparr>http_content_type := None\<rparr>)"
    by (rule reads_bind [OF reads_ResourceRequestBody [where ver = kCurrentVersion, OF env body_ok_fits [OF body(1)],
        unfolded body_ok_read_back [OF body(1)] body(2)]], rule reads_version)
      (auto intro!: reads_map [OF reads_Boolean [OF env]] result simp: kCurrentVersion_def)
  then show ?thesis unfolding ReadHttpBody_def WriteHttpBody_def Some option.case
    by (intro reads_bind [OF reads_Boolean [OF env]]) simp
qed

subsection \<open>Frames and pages\<close>

lemma skip_nothing [simp]: "skip_if False m = State_Monad.return ()"
  by (simp add: skip_if_def)

lemma body_and_type [simp]: "b\<lparr>http_content_type := None, http_content_type := http_content_type b\<rparr> = b"
  by simp

lemma reads_fields:
  assumes env: "env_ok env" and s: "fields_ok env s"
  shows "reads kCurrentVersion (read_fields env is_top) (write_fields env s) s"
proof -
  have ok: "string_ok (x_url_string s)" "string_ok (x_referrer s)" "string_ok (x_target s)" "string_ok (x_state_object s)"
    "vector_ok (sizeof_NullableString16 env) (x_document_state s)" "\<forall>t \<in> set (x_document_state s). string_ok t"
    "http_body_ok env (x_http_body s)" "string_ok (http_content_type (x_http_body s))"
    using s by (auto simp: fields_ok_def http_body_ok_def)
  have float_of_double: "float_of_double env (double_of_float env x) = x" for x using env by (simp add: env_ok_def constants_ok_def)
  let ?save = "x_did_save_scroll_or_scale_state s"
  let ?saved = "\<lambda>ws. if ?save then appended ws else Some []"
  have offset: "reads ver (if ?save then do { x \<leftarrow> ReadInteger env; y \<leftarrow> ReadInteger env; State_Monad.return (x, y) }
        else State_Monad.return (0, 0))
      (?saved [WriteInteger env (fst (x_scroll_offset s)), WriteInteger env (snd (x_scroll_offset s))]) (x_scroll_offset s)" for ver
    using s by (auto simp: fields_ok_def reads_return intro!: reads_next env)
  have scale: "reads ver (if ?save then ReadReal env else State_Monad.return 0)
      (?saved [WriteReal env (x_page_scale_factor s)]) (x_page_scale_factor s)" for ver
    using s by (auto simp: fields_ok_def reads_return intro!: reads_Real env)
  have viewport: "reads ver (if ?save
       then do { x \<leftarrow> ReadReal env; y \<leftarrow> ReadReal env; State_Monad.return (float_of_double env x, float_of_double env y) }
       else State_Monad.return (minus_one_float env, minus_one_float env))
      (?saved [WriteReal env (double_of_float env (fst (x_visual_viewport_scroll_offset s))),
         WriteReal env (double_of_float env (snd (x_visual_viewport_scroll_offset s)))]) (x_visual_viewport_scroll_offset s)" for ver
    using s by (auto simp: fields_ok_def reads_return float_of_double intro!: reads_next env)
  have state_object: "reads ver (if x_state_object s \<noteq> None then ReadString env else State_Monad.return None)
      (if x_state_object s \<noteq> None then WriteString env (x_state_object s) else Some []) (x_state_object s)" for ver
    using ok(4) by (auto simp: reads_return intro!: reads_String env)
  show ?thesis
    unfolding read_fields_def write_fields_def Let_def
    by (rule reads_version)
      (simp add: kCurrentVersion_def split del: if_split del: not_None_eq,
       intro reads_next reads_bind [OF offset] reads_bind [OF scale] reads_bind [OF viewport]
         reads_bind [OF state_object] reads_bind [OF reads_HttpBody [unfolded kCurrentVersion_def]] env ok,
       unfold appended_Nil, rule reads_return_eq, cases s, simp)
qed

lemma write_fields_bytes:
  assumes "env_ok env"
  shows "write_fields env s \<noteq> Some []"
proof -
  show ?thesis using WriteString_bytes [OF assms, of "x_url_string s"]
    by (cases "WriteString env (x_url_string s)") (auto simp: write_fields_def Let_def appended_Cons)
qed

lemma WriteFrameState_bytes:
  assumes "env_ok env"
  shows "WriteFrameState env x \<noteq> Some []"
  using write_fields_bytes [OF assms] by (cases x) (auto simp: appended_Cons bind_eq_Some_conv)

text \<open>The depth of a tree is the fuel that it takes.\<close>

fun depth :: "ExplodedFrameState \<Rightarrow> nat" where
  "depth (ExplodedFrameState s cs) = Suc (foldr max (map depth cs) 0)"

lemma depth_child: "c \<in> set cs \<Longrightarrow> depth c \<le> foldr max (map depth cs) 0"
  by (induction cs) auto

lemma reads_FrameState:
  assumes env: "env_ok env" and x: "frame_ok env x" and fuel: "depth x \<le> fuel"
  shows "reads kCurrentVersion (ReadFrameState env fuel is_top) (WriteFrameState env x) x"
  using x fuel
proof (induction x arbitrary: fuel is_top)
  case (ExplodedFrameState s cs)
  obtain n where n: "fuel = Suc n" "foldr max (map depth cs) 0 \<le> n"
    using ExplodedFrameState.prems(2) by (cases fuel) auto
  have child: "reads kCurrentVersion (ReadFrameState env n False) (WriteFrameState env c) c" if "c \<in> set cs" for c
    using that ExplodedFrameState.prems(1) depth_child [OF that] n(2) by (intro ExplodedFrameState.IH) auto
  have "reads kCurrentVersion (do { n' \<leftarrow> ReadAndValidateVectorSize env (sizeof_ExplodedFrameState env);
        read_times n' (ReadFrameState env n False) })
      (appended (WriteAndValidateVectorSize env (sizeof_ExplodedFrameState env) cs # map (WriteFrameState env) cs)) cs"
    using ExplodedFrameState.prems(1) child
    by (intro reads_vector env) (simp_all add: WriteFrameState_bytes [OF env])
  then have "reads kCurrentVersion ((do { n' \<leftarrow> ReadAndValidateVectorSize env (sizeof_ExplodedFrameState env);
        read_times n' (ReadFrameState env n False) }) \<bind> (\<lambda>cs. State_Monad.return (ExplodedFrameState s cs)))
      (appended (WriteAndValidateVectorSize env (sizeof_ExplodedFrameState env) cs # map (WriteFrameState env) cs))
      (ExplodedFrameState s cs)"
    by (rule reads_map) (rule refl)
  moreover have "appended (WriteAndValidateVectorSize env (sizeof_ExplodedFrameState env) cs # map (WriteFrameState env) cs) =
      appended [WriteAndValidateVectorSize env (sizeof_ExplodedFrameState env) cs, appended (map (WriteFrameState env) cs)]"
    by (cases "appended (map (WriteFrameState env) cs)") (simp_all add: appended_Cons)
  ultimately show ?case
    using reads_fields [OF env, of s is_top] ExplodedFrameState.prems(1)
    by (simp add: n(1)) (rule reads_bind, simp_all)
qed

lemma depth_le_bytes:
  assumes env: "env_ok env"
  shows "WriteFrameState env x = Some b \<Longrightarrow> depth x \<le> length b"
proof (induction x arbitrary: b)
  case (ExplodedFrameState s cs)
  obtain b1 b2 b3 where b: "write_fields env s = Some b1" "appended (map (WriteFrameState env) cs) = Some b3"
    "b = b1 @ b2 @ b3"
    using ExplodedFrameState.prems by (auto simp: appended_Cons bind_eq_Some_conv)
  have "b1 \<noteq> []" using b(1) write_fields_bytes [OF env] by blast
  moreover have "foldr max (map depth cs) 0 \<le> length b3"
    using b(2) ExplodedFrameState.IH
  proof (induction cs arbitrary: b3)
    case (Cons c cs)
    then obtain c1 c2 where c: "WriteFrameState env c = Some c1" "appended (map (WriteFrameState env) cs) = Some c2" "b3 = c1 @ c2"
      by (auto simp: appended_Cons bind_eq_Some_conv)
    have "foldr max (map depth cs) 0 \<le> length c2" by (rule Cons.IH [OF c(2) Cons.prems(2)]) simp_all
    moreover have "depth c \<le> length c1" by (rule Cons.prems(2) [OF _ c(1)]) simp
    ultimately show ?case by (simp add: c(3))
  qed simp
  ultimately show ?case by (cases b1) (simp_all add: b(3))
qed

lemma reads_top:
  assumes env: "env_ok env" and x: "frame_ok env x"
  shows "reads kCurrentVersion (read_frame env True) (WriteFrameState env x) x"
proof -
  obtain b where b: "WriteFrameState env x = Some b"
    using reads_FrameState [OF env x order_refl, of True] unfolding reads_def by blast
  show ?thesis
  proof (rule readsI [OF b])
    fix obj :: SerializeObject and rest
    assume o: "obj_version obj = kCurrentVersion" "iter obj = b @ rest" "length (iter obj) \<le> payload_size obj"
    have "depth x \<le> Suc (length (iter obj))" using depth_le_bytes [OF env b] o(2) by simp
    from reads_FrameState [OF env x this, of True] show "run_state (read_frame env True) obj = (x, obj\<lparr>iter := rest\<rparr>)"
      using o b by (auto simp: read_frame_def elim!: readsE)
  qed
qed

lemma decode_encoded:
  assumes env: "env_ok env" and x: "storable env x"
  shows "\<exists>b. EncodePageState env x = Some b \<and> b \<noteq> [] \<and> DecodePageState env b = Some x"
proof -
  let ?v = "of_int kCurrentVersion :: int32"
  have files: "reads kCurrentVersion (ReadStringVector env) (WriteStringVector env (referenced_files x)) (referenced_files x)"
    using x env by (intro reads_StringVector) (simp_all add: storable_def files_ok_def)
  have top: "reads kCurrentVersion (read_frame env True) (WriteFrameState env (top_state x)) (top_state x)"
    using x env by (intro reads_top) (simp_all add: storable_def)
  have same: "\<lparr>referenced_files = remdups_adj (referenced_files x), top_state = top_state x\<rparr> = x"
    using x by (cases x) (simp add: storable_def files_ok_def)
  have rest: "reads kCurrentVersion (do { files \<leftarrow> ReadStringVector env; top \<leftarrow> read_frame env True;
        State_Monad.return \<lparr>referenced_files = remdups_adj files, top_state = top\<rparr> })
      (appended [WriteStringVector env (referenced_files x), WriteFrameState env (top_state x)]) x"
    by (rule reads_bind [OF files], rule reads_bind [OF top]) (simp add: same reads_return)
  obtain b where b: "appended [WriteStringVector env (referenced_files x), WriteFrameState env (top_state x)] = Some b"
    and run: "\<And>obj rest. obj_version obj = kCurrentVersion \<Longrightarrow> iter obj = b @ rest \<Longrightarrow>
      length (iter obj) \<le> payload_size obj \<Longrightarrow>
      run_state (do { files \<leftarrow> ReadStringVector env; top \<leftarrow> read_frame env True;
        State_Monad.return \<lparr>referenced_files = remdups_adj files, top_state = top\<rparr> }) obj = (x, obj\<lparr>iter := rest\<rparr>)"
    using rest by (elim readsE) blast
  let ?b = "Pickle_WriteInt env ?v @ b"
  have written: "WritePageState env x = Some ?b" using b by (simp add: WritePageState_def appended_Cons WriteInteger_def)
  have payload: "PicklePayload env (PickleData env p) = p" "PickleData env p \<noteq> []"
    and int: "Iterator_ReadInt env (Pickle_WriteInt env n @ r) = (Some n, r)" for p n r
    using env by (simp_all add: env_ok_def pickle_ok_def)
  let ?obj = "SerializeObject_new env (PickleData env ?b)"
  have "run_state (ReadPageState env) ?obj = (x, ?obj\<lparr>iter := [], obj_version := kCurrentVersion\<rparr>)"
    using run [of "?obj\<lparr>iter := b, obj_version := kCurrentVersion\<rparr>" "[]"]
    by (simp add: ReadPageState_def ReadInteger_def read_or_def SerializeObject_new_def payload int set_version_def
        kCurrentVersion_def kMinVersion_def)
  then have "DecodePageState env (PickleData env ?b) = Some x"
    by (simp add: DecodePageState_def payload SerializeObject_new_def)
  then show ?thesis by (simp add: EncodePageState_def written payload)
qed

text \<open>The decoder of bodies alone leaves the version 0.\<close>

lemma decode_encoded_body:
  assumes env: "env_ok env" and body: "body_fits env body"
  shows "\<exists>b. EncodeResourceRequestBody env body = Some b \<and>
     DecodeResourceRequestBody env b = Some (body\<lparr>body_elements := concat (map (read_back env 0) (body_elements body))\<rparr>)"
proof -
  let ?read = "do { body \<leftarrow> ReadResourceRequestBody env; sensitive \<leftarrow> ReadBoolean env;
      State_Monad.return (body\<lparr>contains_sensitive_info := sensitive\<rparr>) }"
  let ?body = "body\<lparr>body_elements := concat (map (read_back env 0) (body_elements body))\<rparr>"
  have "reads 0 ?read (appended [WriteResourceRequestBody env body, WriteBoolean env (contains_sensitive_info body)]) ?body"
    by (rule reads_bind [OF reads_ResourceRequestBody [OF env body]], intro reads_next env)
      (simp add: reads_return)
  then obtain b where b: "appended [WriteResourceRequestBody env body, WriteBoolean env (contains_sensitive_info body)] = Some b"
    and run: "\<And>obj rest. obj_version obj = 0 \<Longrightarrow> iter obj = b @ rest \<Longrightarrow> length (iter obj) \<le> payload_size obj \<Longrightarrow>
      run_state ?read obj = (?body, obj\<lparr>iter := rest\<rparr>)"
    by (elim readsE) blast
  have "run_state ?read (SerializeObject_new env (PickleData env b)) =
      (?body, (SerializeObject_new env (PickleData env b))\<lparr>iter := []\<rparr>)"
    using env by (intro run) (simp_all add: SerializeObject_new_def env_ok_def pickle_ok_def)
  then show ?thesis
    by (simp add: EncodeResourceRequestBody_def b DecodeResourceRequestBody_def SerializeObject_new_def del: run_state_bind)
qed

end
