(* ===== verification/Page_State_Decode.thy ===== *)
theory Page_State_Decode
  imports Page_State_Lemmas
begin

text \<open>
  The decoder on any input: it never needs more fuel than there are bytes, and what it accepts is
  within the bounds of the format, except what the format does not bound.
\<close>

subsection \<open>Progress\<close>

text \<open>A reader keeps the size and the version, and does not move its iterator back.\<close>

definition forward :: "'a reader \<Rightarrow> bool" where
  "forward m \<longleftrightarrow> (\<forall>obj. length (iter (snd (run_state m obj))) \<le> length (iter obj))"

named_theorems forward_intros

lemma forward_return [forward_intros]: "forward (State_Monad.return x)"
  by (simp add: forward_def)

lemma forward_bind [forward_intros]:
  assumes "forward m" "\<And>x. forward (f x)"
  shows "forward (State_Monad.bind m f)"
  unfolding forward_def
proof
  fix obj
  obtain x obj1 where "run_state m obj = (x, obj1)" by fastforce
  then show "length (iter (snd (run_state (State_Monad.bind m f) obj))) \<le> length (iter obj)"
    using assms(1)[unfolded forward_def, THEN spec, of obj] assms(2)[unfolded forward_def, THEN spec, of x obj1] by simp
qed

lemma forward_if [forward_intros]: "(c \<Longrightarrow> forward m) \<Longrightarrow> (\<not> c \<Longrightarrow> forward m') \<Longrightarrow> forward (if c then m else m')"
  by simp

lemma forward_option [forward_intros]:
  "forward m \<Longrightarrow> (\<And>x. forward (f x)) \<Longrightarrow> forward (case y of None \<Rightarrow> m | Some x \<Rightarrow> f x)"
  by (cases y) simp_all

lemma forward_State [forward_intros]:
  "forward (parse_failed x)" "forward get_version" "forward (State (\<lambda>obj. (payload_size obj, obj)))"
  by (simp_all add: forward_def parse_failed_def get_version_def)

lemma forward_or: "(\<And>p. length (snd (r p)) \<le> length p) \<Longrightarrow> forward (read_or r y)"
  unfolding forward_def read_or_def by (auto split: prod.split option.split) (metis snd_conv)+

lemma snd_mapped [simp]: "snd (mapped g r p) = snd (r p)"
  by (simp add: mapped_def split: prod.split)

lemma forward_times [forward_intros]: "forward m \<Longrightarrow> forward (read_times n m)"
  by (induction n) (simp_all add: forward_intros)

lemma forward_skip [forward_intros]: "forward m \<Longrightarrow> forward (skip_if c m)"
  unfolding skip_if_def by (intro forward_intros)

lemma forward_basic:
  assumes "pickle_ends env"
  shows "forward (ReadInteger env)" "forward (ReadInteger64 env)" "forward (ReadBoolean env)" "forward (ReadData env)"
    "forward (ReadGURL env)" "forward (ReadStdString env)" "forward (ReadStringNoCopy env)"
proof -
  show "forward (ReadInteger env)" "forward (ReadInteger64 env)" "forward (ReadBoolean env)" "forward (ReadData env)"
    "forward (ReadGURL env)" "forward (ReadStdString env)"
    using assms
    by (simp_all add: pickle_ends_def forward_or ReadInteger_def ReadInteger64_def ReadBoolean_def ReadData_def
        ReadGURL_def ReadStdString_def)
  show "forward (ReadStringNoCopy env)" unfolding ReadStringNoCopy_def
    using assms by (intro forward_intros forward_or) (simp_all add: pickle_ends_def)
qed

lemma forward_Real: "pickle_ends env \<Longrightarrow> forward (ReadReal env)"
  unfolding ReadReal_def by (intro forward_intros forward_basic)

lemma forward_String: "pickle_ends env \<Longrightarrow> forward (ReadString env)"
  unfolding ReadString_def by (intro forward_intros forward_basic)

lemma forward_VectorSize: "pickle_ends env \<Longrightarrow> forward (ReadAndValidateVectorSize env element_size)"
  unfolding ReadAndValidateVectorSize_def Let_def by (intro forward_intros forward_basic)

lemmas forward_readers = forward_basic forward_Real forward_String forward_VectorSize

lemma forward_StringVector: "pickle_ends env \<Longrightarrow> forward (ReadStringVector env)"
  unfolding ReadStringVector_def by (intro forward_intros forward_readers)

lemma forward_element: "pickle_ends env \<Longrightarrow> forward (read_element env body)"
  unfolding read_element_def by (intro forward_intros forward_readers)

lemma forward_elements: "pickle_ends env \<Longrightarrow> forward (read_elements env n body)"
  by (induction n arbitrary: body) (auto intro!: forward_intros forward_element)

lemma forward_HttpBody: "pickle_ends env \<Longrightarrow> forward (ReadHttpBody env)"
  unfolding ReadHttpBody_def ReadResourceRequestBody_def
  by (intro forward_intros forward_readers forward_elements)

lemma forward_fields: "pickle_ends env \<Longrightarrow> forward (read_fields env is_top)"
  unfolding read_fields_def Let_def case_prod_unfold
  by (intro forward_intros forward_readers forward_StringVector forward_HttpBody)

lemma forward_FrameState: "pickle_ends env \<Longrightarrow> forward (ReadFrameState env fuel is_top)"
  by (induction fuel arbitrary: is_top)
    (auto intro!: forward_intros forward_fields forward_VectorSize)

lemma forwardD: "forward m \<Longrightarrow> run_state m obj = (x, obj') \<Longrightarrow> length (iter obj') \<le> length (iter obj)"
  unfolding forward_def by (metis snd_conv)

subsection \<open>Fuel\<close>

lemma counted_children_took_a_byte:
  assumes ends: "pickle_ends env" and run: "run_state (ReadAndValidateVectorSize env element_size) obj = (n, obj')"
    and n: "n \<noteq> 0"
  shows "length (iter obj') < length (iter obj)"
proof (cases "Iterator_ReadInt env (iter obj)")
  case (Pair count rest)
  have "\<exists>c. count = Some c \<and> iter obj' = rest"
    using run n by (auto simp: ReadAndValidateVectorSize_def ReadInteger_def read_or_def Pair Let_def parse_failed_def
        split: option.splits if_splits)
  then show ?thesis using ends Pair by (auto simp: pickle_ends_def)
qed

lemma read_times_cong:
  assumes "forward m" "\<And>o'. length (iter o') \<le> length (iter obj) \<Longrightarrow> run_state m o' = run_state m' o'"
  shows "run_state (read_times n m) obj = run_state (read_times n m') obj"
  using assms(2)
proof (induction n arbitrary: obj)
  case (Suc n)
  obtain x obj1 where m: "run_state m obj = (x, obj1)" by fastforce
  then have "run_state m' obj = (x, obj1)" using Suc.prems [of obj] by simp
  moreover have "run_state (read_times n m) obj1 = run_state (read_times n m') obj1"
    using forwardD [OF assms(1) m] Suc.prems by (intro Suc.IH) (meson le_trans)
  ultimately show ?case using m by simp
qed simp

lemma enough_fuel:
  assumes ends: "pickle_ends env"
  shows "length (iter obj) < n \<Longrightarrow> length (iter obj) < n' \<Longrightarrow>
    run_state (ReadFrameState env n is_top) obj = run_state (ReadFrameState env n' is_top) obj"
proof (induction n arbitrary: n' obj is_top)
  case (Suc n)
  obtain k where k: "n' = Suc k" using Suc.prems(2) by (cases n') auto
  obtain s obj1 where s: "run_state (read_fields env is_top) obj = (s, obj1)" by fastforce
  obtain c obj2 where c: "run_state (ReadAndValidateVectorSize env (sizeof_ExplodedFrameState env)) obj1 = (c, obj2)"
    by fastforce
  have len: "length (iter obj1) \<le> length (iter obj)" by (rule forwardD [OF forward_fields [OF ends] s])
  have "run_state (read_times c (ReadFrameState env n False)) obj2 = run_state (read_times c (ReadFrameState env k False)) obj2"
  proof (cases "c = 0")
    case False
    have "length (iter obj2) < length (iter obj1)" by (rule counted_children_took_a_byte [OF ends c False])
    then have "length (iter obj2) < n" "length (iter obj2) < k" using len Suc.prems k by simp_all
    then show ?thesis by (intro read_times_cong forward_FrameState ends Suc.IH) simp_all
  qed simp
  then show ?case by (simp add: k s c)
qed simp

text \<open>So the reader with fuel is the recursion of the code.\<close>

lemma read_frame_recursion:
  assumes ends: "pickle_ends env"
  shows "run_state (read_frame env is_top) obj = run_state (do {
     s \<leftarrow> read_fields env is_top;
     num_children \<leftarrow> ReadAndValidateVectorSize env (sizeof_ExplodedFrameState env);
     children \<leftarrow> read_times num_children (read_frame env False);
     State_Monad.return (ExplodedFrameState s children) }) obj"
proof -
  obtain s obj1 where s: "run_state (read_fields env is_top) obj = (s, obj1)" by fastforce
  obtain c obj2 where c: "run_state (ReadAndValidateVectorSize env (sizeof_ExplodedFrameState env)) obj1 = (c, obj2)"
    by fastforce
  have len: "length (iter obj1) \<le> length (iter obj)" by (rule forwardD [OF forward_fields [OF ends] s])
  have "run_state (read_times c (ReadFrameState env (length (iter obj)) False)) obj2 =
      run_state (read_times c (read_frame env False)) obj2"
  proof (cases "c = 0")
    case False
    have "length (iter obj2) < length (iter obj1)" by (rule counted_children_took_a_byte [OF ends c False])
    then have "length (iter o') < length (iter obj)" if "length (iter o') \<le> length (iter obj2)" for o' :: SerializeObject
      using that len by simp
    then show ?thesis
      by (intro read_times_cong forward_FrameState ends)
        (simp add: read_frame_def del: ReadFrameState.simps, rule enough_fuel [OF ends], simp_all)
  qed simp
  then show ?thesis by (simp add: read_frame_def s c)
qed

subsection \<open>What is accepted\<close>

text \<open>An error is never forgotten, and without one the result is as the predicate says.\<close>

definition yields :: "'a reader \<Rightarrow> ('a \<Rightarrow> bool) \<Rightarrow> bool" where
  "yields m P \<longleftrightarrow> (\<forall>obj x obj'. run_state m obj = (x, obj') \<longrightarrow>
     (parse_error obj \<longrightarrow> parse_error obj') \<and> (\<not> parse_error obj' \<longrightarrow> P x))"

lemma yieldsD: "yields m P \<Longrightarrow> run_state m obj = (x, obj') \<Longrightarrow> \<not> parse_error obj' \<Longrightarrow> \<not> parse_error obj \<and> P x"
  unfolding yields_def by blast

lemma yields_return: "P x \<Longrightarrow> yields (State_Monad.return x) P"
  by (simp add: yields_def)

lemma yields_bind:
  assumes "yields m P" "\<And>x. yields (f x) (\<lambda>y. P x \<longrightarrow> Q y)"
  shows "yields (State_Monad.bind m f) Q"
  unfolding yields_def
proof (intro allI impI)
  fix obj y obj2
  assume run: "run_state (State_Monad.bind m f) obj = (y, obj2)"
  obtain x obj1 where x: "run_state m obj = (x, obj1)" by fastforce
  with run have y: "run_state (f x) obj1 = (y, obj2)" by simp
  have "parse_error obj \<longrightarrow> parse_error obj1" "\<not> parse_error obj1 \<longrightarrow> P x"
    using assms(1) x unfolding yields_def by blast+
  moreover have "parse_error obj1 \<longrightarrow> parse_error obj2" "\<not> parse_error obj2 \<longrightarrow> P x \<longrightarrow> Q y"
    using assms(2) [of x] y unfolding yields_def by blast+
  ultimately show "(parse_error obj \<longrightarrow> parse_error obj2) \<and> (\<not> parse_error obj2 \<longrightarrow> Q y)" by blast
qed

lemma yields_mono: "yields m P \<Longrightarrow> (\<And>x. P x \<Longrightarrow> Q x) \<Longrightarrow> yields m Q"
  unfolding yields_def by blast

lemma yields_if: "(c \<Longrightarrow> yields m P) \<Longrightarrow> (\<not> c \<Longrightarrow> yields m' P) \<Longrightarrow> yields (if c then m else m') P"
  by simp

lemma yields_or: "(\<And>p x r'. r p = (Some x, r') \<Longrightarrow> P x) \<Longrightarrow> yields (read_or r y) P"
  unfolding yields_def read_or_def by (auto split: prod.splits option.splits)

lemma yields_failed: "yields (parse_failed x) P"
  by (simp add: yields_def parse_failed_def)

lemma yields_version: "yields get_version (\<lambda>_. True)"
  by (simp add: yields_def get_version_def)

lemma yields_basic:
  "yields (ReadInteger env) (\<lambda>_. True)" "yields (ReadInteger64 env) (\<lambda>_. True)" "yields (ReadBoolean env) (\<lambda>_. True)"
  "yields (ReadData env) (\<lambda>_. True)" "yields (ReadGURL env) (\<lambda>_. True)" "yields (ReadStdString env) (\<lambda>_. True)"
  unfolding ReadInteger_def ReadInteger64_def ReadBoolean_def ReadData_def ReadGURL_def ReadStdString_def
  by (rule yields_or, rule TrueI)+

lemma yields_Real: "yields (ReadReal env) (\<lambda>_. True)"
  unfolding ReadReal_def by (intro yields_bind [OF yields_basic(4)] yields_if) (auto intro: yields_return yields_failed)

lemma unat_count:
  assumes "\<not> sint (n :: int32) < 0"
  shows "int (unat n) = sint n" "unat n \<le> int_max"
proof -
  have bounds: "0 \<le> sint n" "sint n < 2 ^ 31" using assms sint_lt [of n] by simp_all
  have "uint n = take_bit 32 (sint n)" by (simp add: uint_sint)
  also have "\<dots> = sint n" using bounds by (intro take_bit_int_eq_self) simp_all
  finally show n: "int (unat n) = sint n" by simp
  have "int (unat n) \<le> int int_max" unfolding n using bounds by simp
  then show "unat n \<le> int_max" by (simp only: of_nat_le_iff)
qed

lemma yields_String:
  assumes "pickle_ends env"
  shows "yields (ReadString env) string_ok"
proof -
  have "yields (read_or (mapped Some (Iterator_ReadBytes env (unat n))) None)
      (\<lambda>chars. string_ok (map_option of_utf16le chars))" if n: "\<not> sint n < 0" for n :: int32
  proof (rule yields_or)
    fix p x r assume "mapped Some (Iterator_ReadBytes env (unat n)) p = (Some x, r)"
    then obtain d where d: "x = Some d" "Iterator_ReadBytes env (unat n) p = (Some d, r)"
      by (auto simp: mapped_def split: prod.splits)
    have "length d = unat n" using assms d(2) unfolding pickle_ends_def by blast
    then have "length d \<le> int_max" using unat_count(2) [OF n] by simp
    then have "length d div 2 * 2 < int_max" by presburger
    then show "string_ok (map_option of_utf16le x)" by (simp add: d(1) string_ok_def nullable_text_def)
  qed
  moreover have "string_ok None" by (simp add: string_ok_def nullable_text_def)
  ultimately have "yields (ReadStringNoCopy env) (\<lambda>chars. string_ok (map_option of_utf16le chars))"
    unfolding ReadStringNoCopy_def
    by (intro yields_bind [of _ "\<lambda>_. True"] yields_or) (auto intro: yields_return split: option.split elim: yields_mono)
  then show ?thesis unfolding ReadString_def by (rule yields_bind) (auto intro: yields_return)
qed

lemma yields_VectorSize: "yields (ReadAndValidateVectorSize env element_size) (\<lambda>n. n < int_max div element_size)"
proof -
  have "yields (State (\<lambda>obj. (payload_size obj, obj))) (\<lambda>_. True)" by (simp add: yields_def)
  then show ?thesis unfolding ReadAndValidateVectorSize_def Let_def
    by (intro yields_bind [OF yields_basic(1)] yields_bind yields_if yields_failed yields_return) auto
qed

lemma yields_times: "yields m P \<Longrightarrow> yields (read_times n m) (\<lambda>xs. length xs = n \<and> (\<forall>x \<in> set xs. P x))"
proof (induction n)
  case 0
  show ?case by (simp add: yields_return)
next
  case (Suc n)
  show ?case unfolding read_times.simps
    by (rule yields_bind [OF Suc.prems], rule yields_bind [OF Suc.IH [OF Suc.prems]], rule yields_return) simp
qed

lemma yields_StringVector:
  assumes "pickle_ends env"
  shows "yields (ReadStringVector env) (\<lambda>v. vector_ok (sizeof_NullableString16 env) v \<and> (\<forall>s \<in> set v. string_ok s))"
  unfolding ReadStringVector_def
  by (rule yields_bind [OF yields_VectorSize], rule yields_mono [OF yields_times [OF yields_String [OF assms]]])
    (simp add: vector_ok_def)

lemma yields_True: "yields m P \<Longrightarrow> yields m (\<lambda>_. True)"
  by (erule yields_mono) simp

lemma yields_skip: "yields m (\<lambda>_. True) \<Longrightarrow> yields (skip_if c m) (\<lambda>_. True)"
  unfolding skip_if_def by (intro yields_if yields_bind [of m "\<lambda>_. True"] yields_return) simp_all

text \<open>A sequence of which nothing is asked but that it keeps the error.\<close>

lemma yields_seq: "yields m (\<lambda>_. True) \<Longrightarrow> (\<And>x. yields (f x) (\<lambda>_. True)) \<Longrightarrow> yields (State_Monad.bind m f) (\<lambda>_. True)"
  by (rule yields_bind) simp_all

text \<open>Every element that is read has data or a range of 32 bits.\<close>

fun parsed_element :: "Element \<Rightarrow> bool" where
  "parsed_element (TYPE_BYTES data) \<longleftrightarrow> data \<noteq> []"
| "parsed_element (TYPE_FILE path offset len time) \<longleftrightarrow> int_argument offset = offset \<and> int_argument len = len"
| "parsed_element (TYPE_FILE_FILESYSTEM url offset len time) \<longleftrightarrow> int_argument offset = offset \<and> int_argument len = len"
| "parsed_element (TYPE_BLOB uuid) \<longleftrightarrow> True"
| "parsed_element _ \<longleftrightarrow> False"

definition extends :: "nat \<Rightarrow> ResourceRequestBodyImpl \<Rightarrow> ResourceRequestBodyImpl \<Rightarrow> bool" where
  "extends n body b \<longleftrightarrow> contains_sensitive_info b = contains_sensitive_info body \<and>
     (\<exists>es. body_elements b = body_elements body @ es \<and> length es \<le> n \<and> (\<forall>e \<in> set es. parsed_element e))"

lemma int_argument_twice [simp]: "int_argument (int_argument n) = int_argument n"
proof -
  have "ucast (scast m :: 64 word) = m" for m :: int32 by (rule bit_word_eqI) (simp add: bit_simps)
  then show ?thesis by (simp add: int_argument_def)
qed

lemma extends_append: "parsed_element e \<Longrightarrow> extends (Suc 0) body (append_element e body)"
  by (simp add: extends_def append_element_def)

lemma extends_refl: "extends n body body"
  by (simp add: extends_def)

lemma extends_appended:
  "extends (Suc 0) body (AppendBytes data body)"
  "extends (Suc 0) body (AppendFileRangeToRequestBody env path start len time body)"
  "extends (Suc 0) body (AppendURLRangeToRequestBody env url start len time body)"
  "extends (Suc 0) body (AppendBlob uuid body)"
  by (simp_all add: AppendBytes_def AppendFileRangeToRequestBody_def AppendURLRangeToRequestBody_def AppendBlob_def
      extends_append extends_refl)

lemma extends_trans:
  assumes "extends m a b" "extends n b c"
  shows "extends (m + n) a c"
proof -
  obtain es where es: "body_elements b = body_elements a @ es" "length es \<le> m" "\<forall>e \<in> set es. parsed_element e"
    using assms(1) unfolding extends_def by blast
  obtain fs where "body_elements c = body_elements b @ fs" "length fs \<le> n" "\<forall>e \<in> set fs. parsed_element e"
    using assms(2) unfolding extends_def by blast
  then show ?thesis using assms es unfolding extends_def by (intro conjI exI [of _ "es @ fs"]) auto
qed

lemma yields_element:
  assumes "pickle_ends env"
  shows "yields (read_element env body) (extends (Suc 0) body)"
  unfolding read_element_def
  by (intro yields_if yields_bind [OF yields_basic(1)] yields_bind [OF yields_basic(2)] yields_bind [OF yields_basic(4)]
      yields_bind [OF yields_basic(5)] yields_bind [OF yields_basic(6)] yields_bind [OF yields_Real]
      yields_bind [OF yields_version] yields_bind [OF yields_String [OF assms]] yields_return)
    (auto intro!: yields_return yields_bind [OF yields_basic(2)] yields_bind [OF yields_basic(4)]
      yields_bind [OF yields_basic(5)] yields_bind [OF yields_basic(6)] yields_bind [OF yields_Real]
      yields_bind [OF yields_version] yields_bind [OF yields_String [OF assms]] extends_appended extends_refl)

lemma yields_elements:
  assumes "pickle_ends env"
  shows "yields (read_elements env n body) (extends n body)"
proof (induction n arbitrary: body)
  case (Suc n)
  show ?case unfolding read_elements.simps
    by (rule yields_bind [OF yields_element [OF assms]], rule yields_mono [OF Suc.IH]) (auto dest: extends_trans)
qed (simp add: yields_return extends_refl)

definition parsed_body :: "ResourceRequestBodyImpl \<Rightarrow> bool" where
  "parsed_body body \<longleftrightarrow> length (body_elements body) \<le> int_max \<and> (\<forall>e \<in> set (body_elements body). parsed_element e) \<and>
     \<not> contains_sensitive_info body"

lemma yields_ResourceRequestBody:
  assumes "pickle_ends env"
  shows "yields (ReadResourceRequestBody env) parsed_body"
proof -
  have "nat (sint n) \<le> int_max" for n :: int32 using sint_lt [of n] by simp
  then have "extends (nat (sint (n :: int32))) ResourceRequestBodyImpl_new b \<Longrightarrow> parsed_body (b\<lparr>body_identifier := i\<rparr>)" for n b i
    by (auto simp: extends_def parsed_body_def ResourceRequestBodyImpl_new_def intro: le_trans)
  then show ?thesis unfolding ReadResourceRequestBody_def
    by (intro yields_bind [OF yields_basic(1)] yields_bind [OF yields_elements [OF assms]] yields_bind [OF yields_basic(2)]
        yields_return) simp
qed

definition read_http_body :: "ExplodedHttpBody \<Rightarrow> bool" where
  "read_http_body b \<longleftrightarrow> http_content_type b = None \<and>
     (case request_body b of None \<Rightarrow> \<not> contains_passwords b | Some body \<Rightarrow> parsed_body body)"

lemma yields_HttpBody:
  assumes "pickle_ends env"
  shows "yields (ReadHttpBody env) read_http_body"
  unfolding ReadHttpBody_def
  by (intro yields_bind [OF yields_basic(3)] yields_if yields_return
      yields_bind [OF yields_ResourceRequestBody [OF assms]] yields_bind [OF yields_version]
      yields_bind [of _ "\<lambda>_. True"] yields_basic)
    (simp_all add: read_http_body_def ExplodedHttpBody_new_def)

text \<open>What is checked of a frame while it is read: the lengths of its strings and vectors, the defaults of
  a scroll state that was not saved, and a body as above. The lengths of data, paths, URLs and
  identifiers in a body are checked by nothing.\<close>

definition parsed_fields :: "page_env \<Rightarrow> frame_fields \<Rightarrow> bool" where
  "parsed_fields env s \<longleftrightarrow>
     string_ok (x_url_string s) \<and> string_ok (x_referrer s) \<and> string_ok (x_target s) \<and> string_ok (x_state_object s) \<and>
     vector_ok (sizeof_NullableString16 env) (x_document_state s) \<and> (\<forall>t \<in> set (x_document_state s). string_ok t) \<and>
     string_ok (http_content_type (x_http_body s)) \<and>
     (case request_body (x_http_body s) of
        None \<Rightarrow> \<not> contains_passwords (x_http_body s) | Some body \<Rightarrow> parsed_body body) \<and>
     (\<not> x_did_save_scroll_or_scale_state s \<longrightarrow>
        x_scroll_offset s = (0, 0) \<and> x_page_scale_factor s = 0 \<and>
        x_visual_viewport_scroll_offset s = (minus_one_float env, minus_one_float env))"

fun parsed_frame :: "page_env \<Rightarrow> ExplodedFrameState \<Rightarrow> bool" where
  "parsed_frame env (ExplodedFrameState s cs) \<longleftrightarrow>
     parsed_fields env s \<and> vector_ok (sizeof_ExplodedFrameState env) cs \<and> (\<forall>c \<in> set cs. parsed_frame env c)"

definition frame_body_ok :: "page_env \<Rightarrow> frame_fields \<Rightarrow> bool" where
  "frame_body_ok env s \<longleftrightarrow> (case request_body (x_http_body s) of None \<Rightarrow> True | Some body \<Rightarrow> body_ok env body)"

fun bodies_ok :: "page_env \<Rightarrow> ExplodedFrameState \<Rightarrow> bool" where
  "bodies_ok env (ExplodedFrameState s cs) \<longleftrightarrow> frame_body_ok env s \<and> (\<forall>c \<in> set cs. bodies_ok env c)"

lemma parsed_fields_ok: "parsed_fields env s \<Longrightarrow> fields_ok env s \<longleftrightarrow> frame_body_ok env s"
  by (auto simp: parsed_fields_def fields_ok_def frame_body_ok_def http_body_ok_def parsed_body_def split: option.splits)

text \<open>So a frame that was read can be stored when its bodies can.\<close>

lemma parsed_frame_ok: "parsed_frame env x \<Longrightarrow> frame_ok env x \<longleftrightarrow> bodies_ok env x"
  by (induction x) (auto simp: parsed_fields_ok)

lemma yields_fields:
  assumes ends: "pickle_ends env"
  shows "yields (read_fields env is_top) (parsed_fields env)"
proof -
  note str = yields_String [OF ends]
  have skip: "yields (skip_if c (ReadInteger env)) (\<lambda>_. True)" "yields (skip_if c (ReadInteger64 env)) (\<lambda>_. True)"
    "yields (skip_if c (ReadString env)) (\<lambda>_. True)"
    "yields (skip_if c (do { _ \<leftarrow> ReadString env; _ \<leftarrow> ReadString env; _ \<leftarrow> ReadString env; ReadReal env })) (\<lambda>_. True)"
    "yields (skip_if c (do { _ \<leftarrow> ReadBoolean env; ReadInteger env })) (\<lambda>_. True)"
    "yields (skip_if c (do { _ \<leftarrow> ReadReal env; ReadBoolean env })) (\<lambda>_. True)" for c
    by (intro yields_skip yields_seq yields_basic yields_Real yields_True [OF str])+
  have saved: "yields (if version \<ge> 24 then ReadBoolean env else State_Monad.return True)
      (\<lambda>saved. version < 24 \<longrightarrow> saved)" for version :: int
    by (intro yields_if yields_return yields_mono [OF yields_basic(3)]) simp_all
  have offset: "yields (if did_save then do { x \<leftarrow> ReadInteger env; y \<leftarrow> ReadInteger env; State_Monad.return (x, y) }
        else State_Monad.return (0, 0)) (\<lambda>p. \<not> did_save \<longrightarrow> p = (0, 0))" for did_save
    by (intro yields_if yields_bind [OF yields_basic(1)] yields_return) simp_all
  have scale: "yields (if did_save then ReadReal env else State_Monad.return 0) (\<lambda>d. \<not> did_save \<longrightarrow> d = 0)" for did_save
    by (intro yields_if yields_return yields_mono [OF yields_Real]) simp_all
  have policy: "yields (if c then ReadInteger env else State_Monad.return y) (\<lambda>_. True)" for c y
    by (intro yields_if yields_return yields_basic) simp
  have viewport: "yields (if version \<ge> 20 \<and> did_save
       then do { x \<leftarrow> ReadReal env; y \<leftarrow> ReadReal env; State_Monad.return (float_of_double env x, float_of_double env y) }
       else State_Monad.return (minus_one_float env, minus_one_float env))
      (\<lambda>p. \<not> did_save \<longrightarrow> p = (minus_one_float env, minus_one_float env))" for version :: int and did_save
    by (intro yields_if yields_bind [OF yields_Real] yields_return) simp_all
  have object: "yields (if c then ReadString env else State_Monad.return None) string_ok" for c
    by (intro yields_if yields_return str) (simp add: string_ok_def nullable_text_def)
  show ?thesis
    unfolding read_fields_def Let_def case_prod_unfold
    by (intro yields_bind [OF yields_version] skip [THEN yields_bind] yields_bind [OF str] yields_bind [OF saved] yields_bind [OF offset]
        yields_bind [OF yields_StringVector [OF ends]] yields_bind [OF scale] yields_bind [OF yields_basic(2)]
        yields_bind [OF policy] yields_bind [OF viewport] yields_bind [OF yields_basic(3)] yields_bind [OF object]
        yields_bind [OF yields_HttpBody [OF ends]] yields_return impI)
      (auto simp: parsed_fields_def read_http_body_def split: option.splits)
qed

lemma new_fields_parsed: "env_ok env \<Longrightarrow> string_ok u \<Longrightarrow> parsed_fields env ((frame_fields_new env)\<lparr>x_url_string := u\<rparr>)"
  by (auto simp: frame_fields_new_def ExplodedHttpBody_new_def parsed_fields_def
      string_ok_def nullable_text_def vector_ok_def env_ok_def constants_ok_def div_greater_zero_iff)

lemma new_fields_without_body [simp]: "frame_body_ok env ((frame_fields_new env)\<lparr>x_url_string := u\<rparr>)"
  by (simp add: frame_fields_new_def ExplodedHttpBody_new_def frame_body_ok_def)

lemma new_frame_with_url:
  assumes "env_ok env"
  shows "frame_ok env (ExplodedFrameState ((frame_fields_new env)\<lparr>x_url_string := u\<rparr>) []) \<longleftrightarrow> string_ok u"
proof -
  have "vector_ok (sizeof_ExplodedFrameState env) ([] :: ExplodedFrameState list)"
    using assms by (auto simp: vector_ok_def env_ok_def constants_ok_def div_greater_zero_iff)
  moreover have "fields_ok env ((frame_fields_new env)\<lparr>x_url_string := u\<rparr>) \<longleftrightarrow> string_ok u"
    using parsed_fields_ok [OF new_fields_parsed [OF assms]] by (auto simp: fields_ok_def)
  ultimately show ?thesis by simp
qed

lemma new_frame_parsed: "env_ok env \<Longrightarrow> parsed_frame env (ExplodedFrameState_new env)"
  using new_fields_parsed [of env None] new_frame_with_url [of env None]
  by (simp add: ExplodedFrameState_new_def frame_fields_new_def string_ok_def nullable_text_def)

lemma yields_FrameState:
  assumes env: "env_ok env" "pickle_ends env"
  shows "yields (ReadFrameState env fuel is_top) (parsed_frame env)"
proof (induction fuel arbitrary: is_top)
  case 0
  show ?case by (simp add: yields_return new_frame_parsed env)
next
  case (Suc fuel)
  show ?case unfolding ReadFrameState.simps
    by (rule yields_bind [OF yields_fields [OF env(2)]], rule yields_bind [OF yields_VectorSize],
        rule yields_bind [OF yields_times [OF Suc.IH]], rule yields_return) (simp add: vector_ok_def)
qed

text \<open>A state by its version: the URL in place of a state is as long as the input has it; files are
  listed since version 14, and collected from the frames before.\<close>

definition url_state :: "page_env \<Rightarrow> GURL \<Rightarrow> ExplodedPageState" where
  "url_state env url = (ExplodedPageState_new env)\<lparr>top_state := ExplodedFrameState
     ((frame_fields_new env)\<lparr>x_url_string := Some (UTF8ToUTF16 env (spec url))\<rparr>) []\<rparr>"

definition parsed_state :: "page_env \<Rightarrow> int \<Rightarrow> ExplodedPageState \<Rightarrow> bool" where
  "parsed_state env version x \<longleftrightarrow>
     (if version = -1 then \<exists>url. x = url_state env url
      else kMinVersion \<le> version \<and> version \<le> kCurrentVersion \<and> parsed_frame env (top_state x) \<and>
        remdups_adj (referenced_files x) = referenced_files x \<and>
        (14 \<le> version \<longrightarrow> files_ok env (referenced_files x)))"

definition sound_parts :: "page_env \<Rightarrow> ExplodedPageState \<Rightarrow> bool" where
  "sound_parts env x \<longleftrightarrow> bodies_ok env (top_state x) \<and> string_ok (x_url_string (x_fields (top_state x))) \<and>
     vector_ok (sizeof_NullableString16 env) (referenced_files x) \<and> (\<forall>f \<in> set (referenced_files x). string_ok f)"

lemma remdups_adj_twice [simp]: "remdups_adj (remdups_adj xs) = remdups_adj xs"
  by (simp add: distinct_adj_altdef [symmetric])

lemma remdups_files_ok:
  assumes "vector_ok (sizeof_NullableString16 env) files" "\<forall>s \<in> set files. string_ok s"
  shows "files_ok env (remdups_adj files)"
  using assms le_less_trans [OF remdups_adj_length [of files]] by (simp add: files_ok_def vector_ok_def)

definition state_version :: "page_env \<Rightarrow> bytes \<Rightarrow> int" where
  "state_version env b = (case Iterator_ReadInt env (PicklePayload env b) of (None, _) \<Rightarrow> 0 | (Some v, _) \<Rightarrow> sint v)"

lemma yields_PageState:
  assumes env: "env_ok env" "pickle_ends env"
  shows "yields (do {
      _ \<leftarrow> set_version version;
      if version = -1
      then do {
        url \<leftarrow> ReadGURL env;
        State_Monad.return ((ExplodedPageState_new env)\<lparr>top_state := ExplodedFrameState
          ((frame_fields_new env)\<lparr>x_url_string := Some (UTF8ToUTF16 env (spec url))\<rparr>) []\<rparr>) }
      else if version > kCurrentVersion \<or> version < kMinVersion
      then parse_failed (ExplodedPageState_new env)
      else do {
        files \<leftarrow> (if version \<ge> 14 then ReadStringVector env else State_Monad.return []);
        top \<leftarrow> read_frame env True;
        let files' = (if version < 14 then fst (RecursivelyAppendReferencedFiles env top files) else files);
        State_Monad.return \<lparr>referenced_files = remdups_adj files', top_state = top\<rparr> } })
    (parsed_state env version)"
proof -
  have set: "yields (set_version version) (\<lambda>_. True)" by (simp add: yields_def set_version_def)
  have top: "yields (read_frame env True) (parsed_frame env)"
    using yields_FrameState [OF env] by (simp add: read_frame_def yields_def del: ReadFrameState.simps)
  have files: "yields (if version \<ge> 14 then ReadStringVector env else State_Monad.return [])
      (\<lambda>v. 14 \<le> version \<longrightarrow> files_ok env (remdups_adj v))"
    by (intro yields_if yields_return yields_mono [OF yields_StringVector [OF env(2)]]) (simp_all add: remdups_files_ok)
  show ?thesis unfolding Let_def
    by (intro yields_bind [OF set] yields_if yields_failed yields_bind [OF yields_basic(5)] yields_bind [OF files]
        yields_bind [OF top] yields_return)
      (auto simp: parsed_state_def url_state_def)
qed

lemma decoded_parsed:
  assumes "env_ok env" "pickle_ends env" "DecodePageState env b = Some x" "b \<noteq> []"
  shows "parsed_state env (state_version env b) x"
proof -
  obtain y obj where run: "run_state (ReadPageState env) (SerializeObject_new env b) = (y, obj)" by fastforce
  then have ok: "\<not> parse_error obj" "y = x" using assms(3,4) by (auto simp: DecodePageState_def split: if_splits)
  obtain v obj1 where v: "run_state (ReadInteger env) (SerializeObject_new env b) = (v, obj1)" by fastforce
  note rest = yieldsD [OF yields_PageState [OF assms(1,2), of "sint v"]]
  have "\<not> parse_error obj1 \<and> parsed_state env (sint v) y"
    using run rest ok(1) unfolding ReadPageState_def by (simp only: run_state_bind v prod.case Let_def)
  moreover from this have "state_version env b = sint v"
    using v by (auto simp: state_version_def ReadInteger_def read_or_def SerializeObject_new_def split: prod.splits option.splits)
  ultimately show ?thesis by (simp add: ok(2))
qed

lemma parsed_storable:
  assumes env: "env_ok env" and x: "parsed_state env version x"
  shows "storable env x \<longleftrightarrow>
    (if version = -1 then string_ok (x_url_string (x_fields (top_state x)))
     else bodies_ok env (top_state x) \<and> (version < 14 \<longrightarrow> vector_ok (sizeof_NullableString16 env) (referenced_files x) \<and>
       (\<forall>f \<in> set (referenced_files x). string_ok f)))"
proof (cases "version = -1")
  case True
  then obtain url where "x = url_state env url" using x by (auto simp: parsed_state_def)
  moreover have "files_ok env []" using env
    by (auto simp: files_ok_def vector_ok_def env_ok_def constants_ok_def div_greater_zero_iff)
  ultimately show ?thesis using True
    by (simp add: storable_def url_state_def ExplodedPageState_new_def new_frame_with_url [OF env] del: frame_ok.simps)
next
  case False
  then show ?thesis using x parsed_frame_ok [of env "top_state x"]
    by (auto simp: parsed_state_def storable_def files_ok_def)
qed

lemma decoded_storable:
  assumes "env_ok env" "pickle_ends env" "DecodePageState env b = Some x" "sound_parts env x"
  shows "storable env x"
proof (cases "b = []")
  case True
  then show ?thesis using assms parsed_frame_ok [OF new_frame_parsed [OF assms(1)]]
    by (auto simp: DecodePageState_def storable_def files_ok_def ExplodedPageState_new_def sound_parts_def)
next
  case False
  then show ?thesis using parsed_storable [OF assms(1) decoded_parsed [OF assms(1-3)]] assms(4)
    by (auto simp: sound_parts_def)
qed

lemma storable_sound:
  assumes "storable env x"
  shows "sound_parts env x"
proof -
  have body: "fields_ok env s \<Longrightarrow> frame_body_ok env s" for s
    by (auto simp: fields_ok_def http_body_ok_def frame_body_ok_def split: option.splits)
  have "frame_ok env f \<Longrightarrow> bodies_ok env f" for f by (induction f) (auto intro: body)
  moreover have "frame_ok env f \<Longrightarrow> string_ok (x_url_string (x_fields f))" for f
    by (cases f) (simp add: fields_ok_def)
  ultimately show ?thesis using assms by (simp add: storable_def sound_parts_def files_ok_def)
qed

subsection \<open>States with a part removed\<close>

fun all_frames :: "ExplodedFrameState \<Rightarrow> frame_fields list" where
  "all_frames (ExplodedFrameState s cs) = s # concat (map all_frames cs)"

abbreviation (input) without_referrer :: "page_env \<Rightarrow> frame_fields \<Rightarrow> frame_fields" where
  "without_referrer env s \<equiv> s\<lparr>x_referrer := None, x_referrer_policy := kWebReferrerPolicyDefault env\<rparr>"

lemma all_frames_without_referrer:
  "all_frames (RecursivelyRemoveReferrer env f) = map (without_referrer env) (all_frames f)"
proof (induction f)
  case (ExplodedFrameState s cs)
  then have "map (\<lambda>c. all_frames (RecursivelyRemoveReferrer env c)) cs = map (\<lambda>c. map (without_referrer env) (all_frames c)) cs"
    by (intro map_cong refl)
  then show ?case by (simp only: RecursivelyRemoveReferrer.simps all_frames.simps list.map map_map comp_def map_concat)
qed

lemma frame_ok_without_referrer: "frame_ok env f \<Longrightarrow> frame_ok env (RecursivelyRemoveReferrer env f)"
  by (induction f) (auto simp: fields_ok_def vector_ok_def string_ok_def nullable_text_def)

lemma frame_ok_without_passwords: "frame_ok env f \<Longrightarrow> frame_ok env (RecursivelyRemovePasswordData f)"
  by (cases f) (auto simp: RecursivelyRemovePasswordData_def fields_ok_def http_body_ok_def ExplodedHttpBody_new_def
      string_ok_def nullable_text_def)

text \<open>A state that is rewritten decodes to the rewritten frames.\<close>

lemma rewritten_decodes:
  assumes env: "env_ok env" "pickle_ends env" and x: "DecodePageState env b = Some x" "sound_parts env x"
    and g: "\<And>f. frame_ok env f \<Longrightarrow> frame_ok env (g f)"
  shows "\<exists>b'. rewritten env g b = Some b' \<and> b' \<noteq> [] \<and> DecodePageState env b' = Some (x\<lparr>top_state := g (top_state x)\<rparr>)"
proof -
  have "storable env (x\<lparr>top_state := g (top_state x)\<rparr>)"
    using decoded_storable [OF env x] g by (simp add: storable_def)
  from decode_encoded [OF env(1) this] show ?thesis by (auto simp: rewritten_def x(1))
qed

end
