(* ===== verification/Nav_Frames.thy ===== *)
theory Nav_Frames
  imports Nav_Tree Nav_Load Page_State_Decode
begin

text \<open>
  Page states and the choice of the frames to navigate.
\<close>

subsection \<open>Page states\<close>

lemma storable_child:
  assumes "env_ok ps" "storable ps x" "c \<in> set (x_children (top_state x))"
  shows "storable ps \<lparr>referenced_files = [], top_state = c\<rparr>"
  using assms by (cases "top_state x")
    (auto simp: storable_def files_ok_def vector_ok_def env_ok_def constants_ok_def div_greater_zero_iff)

lemma generated_page_state:
  assumes "env_ok ps" "storable ps \<lparr>referenced_files = files, top_state = x\<rparr>"
  shows "DecodePageState ps (fne_page_state (frame_entry (RecursivelyGenerateFrameEntries ps x files))) =
     Some \<lparr>referenced_files = files, top_state = x\<rparr>"
  using decode_encoded [OF assms]
  by (cases x) (auto simp: FrameEntry_SetPageState_def unless_ended_def split: option.split)

lemma generated_children:
  "tree_children (RecursivelyGenerateFrameEntries ps x files) =
   map (\<lambda>c. RecursivelyGenerateFrameEntries ps c []) (x_children x)"
  by (cases x) simp

declare RecursivelyGenerateFrameState.simps [simp del]

lemma decoded_state:
  assumes "DecodePageState ps (fne_page_state fe) =
      Some \<lparr>referenced_files = files, top_state = ExplodedFrameState s children\<rparr>"
    and "length cs = length children"
  shows "RecursivelyGenerateFrameState ps (TreeNode fe cs) st =
      (let results = map (\<lambda>(child, child_state). RecursivelyGenerateFrameState ps child child_state) (zip cs children)
       in (ExplodedFrameState s (map fst results), files @ concat (map snd results)))"
  by (simp add: RecursivelyGenerateFrameState.simps assms Let_def)

lemma regenerated_state:
  assumes "env_ok ps"
  shows "storable ps \<lparr>referenced_files = files, top_state = x\<rparr> \<Longrightarrow>
    RecursivelyGenerateFrameState ps (RecursivelyGenerateFrameEntries ps x files) st = (x, files)"
proof (induction x arbitrary: files st)
  case (ExplodedFrameState s children)
  let ?x = "ExplodedFrameState s children"
  let ?node = "RecursivelyGenerateFrameEntries ps ?x files"
  let ?cs = "map (\<lambda>c. RecursivelyGenerateFrameEntries ps c []) children"
  have node: "?node = TreeNode (frame_entry ?node) ?cs" by simp
  note dec = generated_page_state [OF assms ExplodedFrameState.prems]
  have zip: "map (\<lambda>(child, child_state). RecursivelyGenerateFrameState ps child child_state) (zip ?cs children) =
      map (\<lambda>c. (c, [])) children"
    using ExplodedFrameState.IH storable_child [OF assms ExplodedFrameState.prems]
    by (intro nth_equalityI) simp_all
  have "RecursivelyGenerateFrameState ps ?node st =
      (let results = map (\<lambda>(child, child_state). RecursivelyGenerateFrameState ps child child_state) (zip ?cs children)
       in (ExplodedFrameState s (map fst results), files @ concat (map snd results)))"
    by (subst node) (rule decoded_state [OF dec], simp)
  then show ?case unfolding zip by (simp add: Let_def comp_def)
qed

lemma page_state_kept:
  assumes env: "env_ok ps" and x: "\<And>x. DecodePageState ps state = Some x \<Longrightarrow> storable ps x"
  shows "Tree_GetPageState ps (Tree_SetPageState ps state root) =
     (case DecodePageState ps state of
        None \<Rightarrow> state
      | Some x \<Rightarrow> if x_children (top_state x) = [] then state else unless_ended (EncodePageState ps x))"
proof (cases "DecodePageState ps state")
  case None
  then show ?thesis by (simp add: Tree_SetPageState_def Tree_GetPageState_def FrameEntry_SetPageState_def)
next
  case (Some x)
  have same: "\<lparr>referenced_files = referenced_files x, top_state = top_state x\<rparr> = x" by simp
  show ?thesis
  proof (cases "x_children (top_state x) = []")
    case True
    then show ?thesis using Some
      by (simp add: Tree_SetPageState_def Tree_GetPageState_def FrameEntry_SetPageState_def)
  next
    case False
    have "RecursivelyGenerateFrameState ps (RecursivelyGenerateFrameEntries ps (top_state x) (referenced_files x)) st =
        (top_state x, referenced_files x)" for st
      by (rule regenerated_state [OF env]) (unfold same, rule x [OF Some])
    then show ?thesis using Some False
      by (simp add: Tree_SetPageState_def Tree_GetPageState_def generated_children same)
  qed
qed

text \<open>So the state that is read decodes to the one that was given.\<close>

lemma page_state_decodes_again:
  assumes env: "env_ok ps" "pickle_ends ps" and x: "DecodePageState ps state = Some x" "sound_parts ps x"
  shows "DecodePageState ps (Tree_GetPageState ps (Tree_SetPageState ps state root)) = Some x"
proof -
  have storable: "storable ps x" by (rule decoded_storable [OF env x])
  obtain b where "EncodePageState ps x = Some b" "DecodePageState ps b = Some x"
    using decode_encoded [OF env(1) storable] by blast
  then show ?thesis using page_state_kept [OF env(1), of state root] storable x(1)
    by (simp add: unless_ended_def)
qed

subsection \<open>The frames to navigate\<close>

text \<open>The frames of the live tree with their ancestors, parents before children.\<close>

fun live_frames :: "frame \<Rightarrow> live_frame \<Rightarrow> (frame \<times> bool) list" where
  "live_frames ancestors (LiveFrame name no_url cs) =
     (name # ancestors, no_url) # concat (map (live_frames (name # ancestors)) cs)"

definition item_changes :: "FrameNavigationEntry \<Rightarrow> FrameNavigationEntry option \<Rightarrow> bool" where
  "item_changes new_item old_item \<longleftrightarrow>
     (case old_item of
        None \<Rightarrow> True
      | Some old \<Rightarrow> item_sequence_number new_item \<noteq> item_sequence_number old \<or>
          fne_site_instance new_item \<noteq> None \<and> fne_site_instance new_item \<noteq> fne_site_instance old)"

definition same_document_item :: "FrameNavigationEntry \<Rightarrow> FrameNavigationEntry option \<Rightarrow> bool \<Rightarrow> bool" where
  "same_document_item new_item old_item no_url \<longleftrightarrow>
     (case old_item of
        None \<Rightarrow> False
      | Some old \<Rightarrow> document_sequence_number new_item = document_sequence_number old \<and> \<not> no_url)"

text \<open>A frame is navigated when its item changes and those of its ancestors stay.\<close>

definition stays :: "TreeNode \<Rightarrow> TreeNode \<Rightarrow> frame \<Rightarrow> bool" where
  "stays new_tree old_tree f \<longleftrightarrow>
     (case Tree_GetFrameEntry f new_tree of
        None \<Rightarrow> False
      | Some item \<Rightarrow> \<not> item_changes item (Tree_GetFrameEntry f old_tree))"

fun ancestors_stay :: "TreeNode \<Rightarrow> TreeNode \<Rightarrow> frame \<Rightarrow> bool" where
  "ancestors_stay new_tree old_tree [] = True"
| "ancestors_stay new_tree old_tree (name # f) \<longleftrightarrow>
     (f = [] \<or> stays new_tree old_tree f) \<and> ancestors_stay new_tree old_tree f"

definition load_of :: "TreeNode \<Rightarrow> TreeNode \<Rightarrow> bool \<Rightarrow> frame \<times> bool \<Rightarrow> (frame \<times> FrameNavigationEntry) option" where
  "load_of new_tree old_tree same = (\<lambda>(f, no_url).
     case Tree_GetFrameEntry f new_tree of
       None \<Rightarrow> None
     | Some item \<Rightarrow>
         if ancestors_stay new_tree old_tree f \<and> item_changes item (Tree_GetFrameEntry f old_tree) \<and>
            same_document_item item (Tree_GetFrameEntry f old_tree) no_url = same
         then Some (f, item) else None)"

lemma below_stays:
  assumes "\<not> ancestors_stay new_tree old_tree (x # ancestors)"
  shows "List.map_filter (load_of new_tree old_tree same) (live_frames ancestors live) = []"
  using assms
proof (induction ancestors live arbitrary: x rule: live_frames.induct)
  case (1 ancestors name no_url cs)
  have here: "\<not> ancestors_stay new_tree old_tree (name # ancestors)" using 1(2) by simp
  have "List.map_filter (load_of new_tree old_tree same) (live_frames (name # ancestors) c) = []" if "c \<in> set cs" for c
    using 1(1) [OF that, of name] here by simp
  then show ?case using here
    by (auto simp: List.map_filter_def load_of_def filter_concat map_concat split: option.split)
qed

lemma FindFrames_eq_loads:
  assumes "ancestors = [] \<or> stays new_tree old_tree ancestors" "ancestors_stay new_tree old_tree ancestors"
  shows "FindFramesToNavigate new_tree old_tree ancestors live =
     (List.map_filter (load_of new_tree old_tree True) (live_frames ancestors live),
      List.map_filter (load_of new_tree old_tree False) (live_frames ancestors live))"
  using assms
proof (induction new_tree old_tree ancestors live rule: FindFramesToNavigate.induct)
  case (1 new_tree old_tree ancestors name no_url cs)
  let ?f = "name # ancestors"
  let ?rest = "\<lambda>same. List.map_filter (load_of new_tree old_tree same) (concat (map (live_frames ?f) cs))"
  have f: "ancestors_stay new_tree old_tree ?f" using 1(2,3) by simp
  have rest: "?rest same = concat (map (\<lambda>c. List.map_filter (load_of new_tree old_tree same) (live_frames ?f c)) cs)" for same
    by (induction cs) (simp_all add: List.map_filter_def)
  have stop: "?rest same = []" if "\<not> stays new_tree old_tree ?f" for same
  proof -
    have "\<not> ancestors_stay new_tree old_tree (undefined # ?f)" using that by simp
    from below_stays [OF this] show ?thesis unfolding rest by simp
  qed
  have split: "List.map_filter (load_of new_tree old_tree same) (live_frames ancestors (LiveFrame name no_url cs)) =
      (case load_of new_tree old_tree same (?f, no_url) of None \<Rightarrow> [] | Some l \<Rightarrow> [l]) @ ?rest same" for same
    by (simp add: List.map_filter_def split: option.split)
  show ?case
  proof (cases "Tree_GetFrameEntry ?f new_tree")
    case None
    then have "\<not> stays new_tree old_tree ?f" by (simp add: stays_def)
    then show ?thesis unfolding split using None stop by (simp add: load_of_def)
  next
    case (Some item)
    let ?old = "Tree_GetFrameEntry ?f old_tree"
    show ?thesis
    proof (cases "item_changes item ?old")
      case True
      then have "\<not> stays new_tree old_tree ?f" using Some by (simp add: stays_def)
      moreover have "FindFramesToNavigate new_tree old_tree ancestors (LiveFrame name no_url cs) =
          (if same_document_item item ?old no_url then ([(?f, item)], []) else ([], [(?f, item)]))"
        using Some True by (simp add: item_changes_def same_document_item_def Let_def)
      ultimately show ?thesis unfolding split using Some True stop f by (simp add: load_of_def)
    next
      case False
      have "stays new_tree old_tree ?f" using Some False by (simp add: stays_def)
      then have IH: "FindFramesToNavigate new_tree old_tree ?f c =
          (List.map_filter (load_of new_tree old_tree True) (live_frames ?f c),
           List.map_filter (load_of new_tree old_tree False) (live_frames ?f c))" if "c \<in> set cs" for c
        using 1(1) [OF refl Some refl False [unfolded item_changes_def] that] f by simp
      have "FindFramesToNavigate new_tree old_tree ancestors (LiveFrame name no_url cs) =
          (let found = map (FindFramesToNavigate new_tree old_tree ?f) cs
           in (concat (map fst found), concat (map snd found)))"
        using Some False by (simp add: item_changes_def Let_def)
      moreover have "map (FindFramesToNavigate new_tree old_tree ?f) cs =
          map (\<lambda>c. (List.map_filter (load_of new_tree old_tree True) (live_frames ?f c),
                List.map_filter (load_of new_tree old_tree False) (live_frames ?f c))) cs"
        using IH by simp
      ultimately show ?thesis
        unfolding split rest using Some False by (simp add: load_of_def Let_def comp_def)
    qed
  qed
qed

end
