(* ===== verification/Page_State_Properties.thy ===== *)
theory Page_State_Properties
  imports Page_State_Decode
begin

text \<open>
  The properties of page states, and an environment on which they are tried: little-endian
  integers, byte strings after their length, and ASCII in place of the conversions.
\<close>

subsection \<open>An environment\<close>

definition read_word :: "nat \<Rightarrow> 64 word pickle_read" where
  "read_word n p = (if length p < n then (None, []) else (Some (of_le_bytes (take n p)), drop n p))"

definition read_bytes :: "nat \<Rightarrow> bytes pickle_read" where
  "read_bytes n p = (if length p < n then (None, []) else (Some (take n p), drop n p))"

definition read_data :: "bytes pickle_read" where
  "read_data p = (case read_word 4 p of (None, r) \<Rightarrow> (None, r) | (Some n, r) \<Rightarrow> read_bytes (unat n) r)"

definition write_data :: "bytes \<Rightarrow> bytes" where
  "write_data d = le_bytes 4 (of_nat (length d)) @ d"

definition chars_of :: "bytes \<Rightarrow> string" where
  "chars_of = map (\<lambda>b. char_of (unat b))"

definition bytes_of :: "string \<Rightarrow> bytes" where
  "bytes_of = map (\<lambda>c. of_nat (of_char c))"

definition example_pages :: page_env where
  "example_pages = \<lparr>page_urls = example_library, PickleData = (\<lambda>p. 0 # p), PicklePayload = tl,
     Pickle_WriteInt = (\<lambda>n. le_bytes 4 (ucast n)), Pickle_WriteInt64 = le_bytes 8, Pickle_WriteBytes = (\<lambda>d. d),
     Pickle_WriteData = write_data, Pickle_WriteString = write_data \<circ> bytes_of,
     Iterator_ReadInt = mapped ucast (read_word 4), Iterator_ReadInt64 = read_word 8,
     Iterator_ReadBool = mapped (\<lambda>n. n \<noteq> 0) (read_word 4), Iterator_ReadBytes = read_bytes,
     Iterator_ReadData = read_data, Iterator_ReadString = mapped chars_of read_data,
     UTF16ToUTF8 = map (\<lambda>c. char_of (unat c)), UTF8ToUTF16 = map (of_nat \<circ> of_char),
     FromUTF16Unsafe = map (\<lambda>c. char_of (unat c)), AsUTF16Unsafe = map (of_nat \<circ> of_char),
     parse_url16 = (\<lambda>s. parse_url example_library (map (\<lambda>c. char_of (unat c)) s)),
     StringToSizeT = (\<lambda>s. None), FromDoubleT = uint, ToDoubleT = of_int, double_of_float = ucast, float_of_double = ucast,
     divide_offset = (\<lambda>n d. n), divide_scale = (\<lambda>d s. d), device_scale_factor = 1, minus_one_float = 1,
     kTypeData = 0, kTypeFile = 1, kTypeBlob = 2, kTypeFileSystemURL = 3,
     kWebHistoryScrollRestorationAuto = 0, kWebReferrerPolicyDefault = 1,
     sizeof_NullableString16 = 16, sizeof_Element = 64, sizeof_ExplodedFrameState = 256\<rparr>"

lemma read_word_written: "read_word n (le_bytes n v @ r) = (Some (take_bit (8 * n) v), r)"
  by (simp add: read_word_def of_le_bytes_enc)

lemma written_words [simp]:
  "ucast (ucast n :: 64 word) = (n :: int32)" "take_bit 32 (ucast n :: 64 word) = ucast n" "take_bit 64 d = (d :: 64 word)"
  by (rule bit_word_eqI, auto simp: bit_simps dest: bit_imp_le_length)+

lemma le_bytes_empty [simp]: "le_bytes n v = [] \<longleftrightarrow> n = 0"
  using length_le_bytes [of n v] by (metis length_0_conv)

lemma read_data_written: "length d \<le> int_max \<Longrightarrow> read_data (write_data d @ r) = (Some d, r)"
  by (simp add: read_data_def write_data_def read_word_written read_bytes_def take_bit_eq_mod unat_mod unat_of_nat
      flip: unat_eq_nat_uint)

lemma chars_of_bytes [simp]: "chars_of (bytes_of s) = s" "length (bytes_of s) = length s"
proof -
  have "char_of (unat (of_nat (of_char c) :: byte)) = c" for c :: char
  proof -
    have "(of_char c :: nat) < 256" by simp
    then have "unat (of_nat (of_char c) :: byte) = of_char c" by (simp add: unat_of_nat)
    then show ?thesis by simp
  qed
  then show "chars_of (bytes_of s) = s" by (simp add: chars_of_def bytes_of_def comp_def)
qed (simp add: bytes_of_def)

lemma example_pickle: "pickle_ok example_pages"
  unfolding pickle_ok_def
  by (intro conjI allI impI)
    (auto simp: example_pages_def mapped_def read_word_written read_bytes_def read_data_written)

lemma shrinks:
  "length (snd (read_word n p)) \<le> length p" "length (snd (read_bytes n p)) \<le> length p" "length (snd (read_data p)) \<le> length p"
  by (auto simp: read_word_def read_bytes_def read_data_def)

lemma example_ends: "pickle_ends example_pages"
proof -
  have "length r < length p" if "mapped ucast (read_word 4) p = (Some (n :: int32), r)" for p r n
    using that by (auto simp: mapped_def read_word_def split: if_splits)
  moreover have "length d = n" if "read_bytes n p = (Some d, r)" for n p d r
    using that by (auto simp: read_bytes_def split: if_splits)
  ultimately show ?thesis by (simp add: pickle_ends_def example_pages_def shrinks)
qed

lemma example_env_ok: "env_ok example_pages"
  unfolding env_ok_def
proof
  have "ucast (ucast x :: double) = (x :: 32 word)" for x by (rule bit_word_eqI) (auto simp: bit_simps)
  then show "constants_ok example_pages" by (simp add: constants_ok_def example_pages_def)
qed (rule example_pickle)

subsection \<open>A page\<close>

definition example_body :: ResourceRequestBodyImpl where
  "example_body = \<lparr>body_elements = [TYPE_BYTES [104, 105], TYPE_BLOB ''b1''], body_identifier = 7,
     contains_sensitive_info = False\<rparr>"

definition example_fields :: frame_fields where
  "example_fields = (frame_fields_new example_pages)\<lparr>x_url_string := Some [97, 98], x_referrer := Some [99],
     x_document_state := [Some [], None], x_scroll_offset := (3, -4), x_item_sequence_number := -1\<rparr>"

definition example_state :: ExplodedPageState where
  "example_state = \<lparr>referenced_files = [Some [102]],
     top_state = ExplodedFrameState
       (example_fields\<lparr>x_http_body := \<lparr>http_content_type = Some [116], request_body = Some example_body,
          contains_passwords = True\<rparr>\<rparr>)
       [ExplodedFrameState example_fields []]\<rparr>"

lemma example_body_ok: "body_ok example_pages example_body"
  by (simp add: body_ok_def vector_ok_def example_body_def) (simp add: example_pages_def)

lemma example_storable: "storable example_pages example_state"
proof -
  have sizes: "sizeof_NullableString16 example_pages = 16" "sizeof_ExplodedFrameState example_pages = 256"
    by (simp_all add: example_pages_def)
  have body: "http_body_ok example_pages \<lparr>http_content_type = Some [116], request_body = Some example_body,
      contains_passwords = True\<rparr>"
    using example_body_ok by (simp add: http_body_ok_def string_ok_def nullable_text_def) (simp add: example_body_def)
  have "fields_ok example_pages example_fields"
    by (simp add: example_fields_def frame_fields_new_def fields_ok_def http_body_ok_def ExplodedHttpBody_new_def
        string_ok_def nullable_text_def vector_ok_def sizes)
  then show ?thesis using body
    by (simp add: storable_def files_ok_def example_state_def fields_ok_def vector_ok_def string_ok_def nullable_text_def sizes)
qed

lemma example_bytes:
  obtains b where "EncodePageState example_pages example_state = Some b" "b \<noteq> []"
    "DecodePageState example_pages b = Some example_state" "sound_parts example_pages example_state"
  using decode_encoded [OF example_env_ok example_storable] storable_sound [OF example_storable] by blast

subsection \<open>Properties\<close>

text \<open>C17. A page state that fits the format is written without ending the process and read back as it
  was: strings and vectors within their bounds, a sound request body in each frame, and the defaults in
  a frame that did not save its scroll state.\<close>

theorem page_states_roundtrip:
  assumes "env_ok env" "storable env x"
  shows "\<exists>b. EncodePageState env x = Some b \<and> PageState_IsValid b \<and> DecodePageState env b = Some x"
  using decode_encoded [OF assms] by (simp add: PageState_IsValid_def)

lemma page_states_roundtrip_witness:
  "\<exists>b. EncodePageState example_pages example_state = Some b \<and> PageState_IsValid b \<and>
     DecodePageState example_pages b = Some example_state"
  by (rule page_states_roundtrip [OF example_env_ok example_storable])

text \<open>C18. Any bytes that are decoded without an error, of any of the versions 11 to 24, give a state
  within the bounds of the format: in every frame of the tree the strings, the saved form data and the
  number of children are below their limits, an unsaved scroll state has its defaults, and of a request
  body the number of elements fits an \<open>int\<close>, data are not empty and ranges fit 32 bits; no file is
  listed twice in a row, and since version 14 the listed files fit as well. Of the version -1 the state
  is that of a URL. What the format leaves unbounded is exactly what may keep such a state from being
  stored again: the URL of a state of the version -1, the elements of its bodies, and before version 14
  the files collected from the frames.\<close>

theorem decoded_states_are_bounded:
  assumes "env_ok env" "pickle_ends env" "DecodePageState env b = Some x" "b \<noteq> []"
  shows "parsed_state env (state_version env b) x \<and>
    (storable env x \<longleftrightarrow>
      (if state_version env b = -1 then string_ok (x_url_string (x_fields (top_state x)))
       else bodies_ok env (top_state x) \<and> (state_version env b < 14 \<longrightarrow>
         vector_ok (sizeof_NullableString16 env) (referenced_files x) \<and> (\<forall>f \<in> set (referenced_files x). string_ok f))))"
  using decoded_parsed [OF assms] parsed_storable [OF assms(1)] by blast

lemma decoded_states_are_bounded_witness:
  "\<exists>b. DecodePageState example_pages b = Some example_state \<and>
     parsed_state example_pages (state_version example_pages b) example_state"
  by (rule example_bytes) (blast dest: decoded_states_are_bounded [OF example_env_ok example_ends])

text \<open>C19. Decoding ends on every input: with fuel for one frame more than there are bytes, the reader
  is the unbounded recursion of the code.\<close>

theorem frames_are_read_without_fuel:
  assumes "pickle_ends env"
  shows "run_state (read_frame env is_top) obj = run_state (do {
     s \<leftarrow> read_fields env is_top;
     num_children \<leftarrow> ReadAndValidateVectorSize env (sizeof_ExplodedFrameState env);
     children \<leftarrow> read_times num_children (read_frame env False);
     State_Monad.return (ExplodedFrameState s children) }) obj"
  by (rule read_frame_recursion [OF assms])

lemma frames_are_read_without_fuel_witness:
  "run_state (read_frame example_pages True) (SerializeObject_new example_pages [0, 5, 6]) = run_state (do {
     s \<leftarrow> read_fields example_pages True;
     num_children \<leftarrow> ReadAndValidateVectorSize example_pages (sizeof_ExplodedFrameState example_pages);
     children \<leftarrow> read_times num_children (read_frame example_pages False);
     State_Monad.return (ExplodedFrameState s children) }) (SerializeObject_new example_pages [0, 5, 6])"
  by (rule frames_are_read_without_fuel [OF example_ends])

text \<open>C20. A request body that is encoded alone, with elements of the four kinds a form submits and
  lengths that fit the pickle, is written without ending the process and read back with the same
  identifier and the same flag, and without its blobs: its decoder does not know the version, and reads
  them as the URLs of the oldest format. Empty data are dropped, the ranges of files and file system
  URLs are cut to 32 bits, and paths, URLs and times are what the conversions give back. So a body
  comes back as it was but for its blobs when the conversions keep its paths, URLs and times and its
  ranges fit 32 bits.\<close>

theorem bodies_alone_lose_their_blobs:
  assumes "env_ok env" "body_fits env body"
  shows "\<exists>b. EncodeResourceRequestBody env body = Some b \<and>
     DecodeResourceRequestBody env b =
       Some (body\<lparr>body_elements := concat (map (\<lambda>e. case e of
           TYPE_BYTES d \<Rightarrow> if d = [] then [] else [TYPE_BYTES d]
         | TYPE_FILE path offset len time \<Rightarrow>
             [TYPE_FILE (FromUTF16Unsafe env (AsUTF16Unsafe env path)) (scast (ucast offset :: int32))
               (scast (ucast len :: int32)) (FromDoubleT env (ToDoubleT env time))]
         | TYPE_FILE_FILESYSTEM url offset len time \<Rightarrow>
             [TYPE_FILE_FILESYSTEM (parse_url (page_urls env) (spec url)) (scast (ucast offset :: int32))
               (scast (ucast len :: int32)) (FromDoubleT env (ToDoubleT env time))]
         | _ \<Rightarrow> []) (body_elements body))\<rparr>) \<and>
     (body_ok env body \<longrightarrow> DecodeResourceRequestBody env b =
       Some (body\<lparr>body_elements := filter (\<lambda>e. case e of TYPE_BLOB _ \<Rightarrow> False | _ \<Rightarrow> True) (body_elements body)\<rparr>))"
proof -
  have elements: "read_back env 0 = (\<lambda>e. case e of
           TYPE_BYTES d \<Rightarrow> if d = [] then [] else [TYPE_BYTES d]
         | TYPE_FILE path offset len time \<Rightarrow>
             [TYPE_FILE (FromUTF16Unsafe env (AsUTF16Unsafe env path)) (scast (ucast offset :: int32))
               (scast (ucast len :: int32)) (FromDoubleT env (ToDoubleT env time))]
         | TYPE_FILE_FILESYSTEM url offset len time \<Rightarrow>
             [TYPE_FILE_FILESYSTEM (parse_url (page_urls env) (spec url)) (scast (ucast offset :: int32))
               (scast (ucast len :: int32)) (FromDoubleT env (ToDoubleT env time))]
         | _ \<Rightarrow> [])"
    by (rule ext) (simp split: Element.split)
  have kept: "is_kept 0 = (\<lambda>e. case e of TYPE_BLOB _ \<Rightarrow> False | _ \<Rightarrow> True)"
    by (rule ext) (simp split: Element.split)
  show ?thesis using decode_encoded_body [OF assms] body_ok_read_back [of env body 0] unfolding elements kept by auto
qed

lemma bodies_alone_lose_their_blobs_witness:
  "\<exists>b. EncodeResourceRequestBody example_pages example_body = Some b \<and>
     DecodeResourceRequestBody example_pages b = Some (example_body\<lparr>body_elements := [TYPE_BYTES [104, 105]]\<rparr>)"
  using bodies_alone_lose_their_blobs [OF example_env_ok body_ok_fits [OF example_body_ok]] example_body_ok
  by (auto simp: example_body_def)

text \<open>C21. Removing the referrers of a page state that is not empty and decodes, with bodies, top URL and
  files within the bounds of the format, clears the referrer and its policy in every frame of the tree,
  and changes nothing else.\<close>

theorem referrers_are_removed_everywhere:
  assumes "env_ok env" "pickle_ends env" "DecodePageState env b = Some x" "sound_parts env x" "b \<noteq> []"
  shows "\<exists>b' y. RemoveReferrer env b = Some b' \<and> DecodePageState env b' = Some y \<and>
     referenced_files y = referenced_files x \<and>
     all_frames (top_state y) =
       map (\<lambda>s. s\<lparr>x_referrer := None, x_referrer_policy := kWebReferrerPolicyDefault env\<rparr>) (all_frames (top_state x))"
  using rewritten_decodes [OF assms(1-4), of "RecursivelyRemoveReferrer env", OF frame_ok_without_referrer] assms(5)
  by (auto simp: RemoveReferrer_def all_frames_without_referrer)

lemma referrers_are_removed_everywhere_witness:
  "\<exists>b y. DecodePageState example_pages b = Some y \<and>
     all_frames (top_state y) = map (\<lambda>s. s\<lparr>x_referrer := None, x_referrer_policy := 1\<rparr>) (all_frames (top_state example_state))"
proof (rule example_bytes)
  fix b assume "b \<noteq> []" "DecodePageState example_pages b = Some example_state" "sound_parts example_pages example_state"
  from referrers_are_removed_everywhere [OF example_env_ok example_ends this(2,3,1)]
  show ?thesis by (auto simp: example_pages_def)
qed

text \<open>Removing the passwords of a page state drops the request body of the top frame if it has
  passwords, and leaves the subframes as they are, with their passwords.\<close>

lemma passwords_are_removed_from_the_top_frame:
  assumes "env_ok env" "pickle_ends env" "DecodePageState env b = Some x" "sound_parts env x"
  shows "\<exists>b' y. RemovePasswordData env b = Some b' \<and> DecodePageState env b' = Some y \<and>
     referenced_files y = referenced_files x \<and> x_children (top_state y) = x_children (top_state x) \<and>
     x_http_body (x_fields (top_state y)) =
       (if contains_passwords (x_http_body (x_fields (top_state x))) then ExplodedHttpBody_new
        else x_http_body (x_fields (top_state x)))"
  proof -
  obtain b' where "rewritten env RecursivelyRemovePasswordData b = Some b'"
    "DecodePageState env b' = Some (x\<lparr>top_state := RecursivelyRemovePasswordData (top_state x)\<rparr>)"
    using rewritten_decodes [OF assms, of RecursivelyRemovePasswordData, OF frame_ok_without_passwords] by blast
  then show ?thesis by (simp add: RemovePasswordData_def RecursivelyRemovePasswordData_def)
qed

text \<open>The range of a file comes back truncated to 32 bits.\<close>

lemma file_offsets_are_truncated:
  "AppendFileRangeToRequestBody env path 0x100000005 0x80000000 time body =
   append_element (TYPE_FILE (FromUTF16Unsafe env (nullable_text path)) 5 0xFFFFFFFF80000000 (FromDoubleT env time)) body"
proof -
  have "int_argument 0x100000005 = 5" "int_argument 0x80000000 = 0xFFFFFFFF80000000"
    by (simp_all add: int_argument_def)
  then show ?thesis by (simp add: AppendFileRangeToRequestBody_def)
qed

end
