(* ===== verification/Nav_Properties.thy ===== *)
theory Nav_Properties
  imports Nav_Reach Nav_Frames Page_State_Properties
begin

text \<open>
  The properties of the session history, with the states they are tried on, and the commits and calls
  in which the code does not do what it means to.
\<close>

subsection \<open>A controller with two pages\<close>

definition example_env :: nav_env where
  "example_env = \<lparr>url_lib = example_library, page_state_env = example_pages, live_root = LiveFrame ''top'' False [],
     max_entry_count = 2, FixupURLBeforeRewrite = (\<lambda>u. u), RewriteURLIfNecessary = (\<lambda>u. (u, False)),
     ReverseURLRewrite = (\<lambda>u v. None), HandleDebugURL = (\<lambda>u t. False), gpu_benchmarking = False,
     starts_navigation = (\<lambda>f fe r sd. True), render_view_live = True, has_accessed_initial_document = False,
     is_being_destroyed = False, is_for_guests_only = (\<lambda>si. False), HasWrongProcessForURL = (\<lambda>si u. False),
     check_for_repost_flag = True, current_time = 5\<rparr>"

definition example_page :: "int \<Rightarrow> NavigationEntryImpl" where
  "example_page uid = NavigationEntryImpl_new uid (Some 7) empty_url (Referrer_new example_pages) [] (plain TRANSITION_LINK) False"

definition two_pages :: nav_controller where
  "two_pages = NavigationControllerImpl_new\<lparr>objects := [0 \<mapsto> example_page 1, 1 \<mapsto> example_page 2], created := 2,
     entries := [0, 1], last_committed_entry_index := 1, is_initial_navigation := False\<rparr>"

lemma two_pages_ok: "nav_ok two_pages"
  by (auto simp: two_pages_def NavigationControllerImpl_new_def nav_ok_def nav_core_def idle_def ids_ok_def list_ok_def
      pending_ok_def example_page_def NavigationEntryImpl_new_def split: if_splits)

lemma two_pages_fields [simp]:
  "entries two_pages = [0, 1]" "last_committed_entry_index two_pages = 1" "transient_entry_index two_pages = -1"
  "pending_entry_index two_pages = -1" "pending_entry two_pages = None" "is_initial_navigation two_pages = False"
  "created two_pages = 2"
  by (simp_all add: two_pages_def NavigationControllerImpl_new_def)

definition example_commit :: commit_params where
  "example_commit = \<lparr>nav_entry_id = 0, c_item_sequence_number = 1, c_document_sequence_number = 1, c_url = empty_url,
     c_referrer = Referrer_new example_pages, c_transition = plain TRANSITION_LINK, c_redirects = [], c_page_state = [], c_method = ''GET'',
     c_post_id = -1, c_frame_unique_name = ''top'', c_http_status_code = 200, c_original_request_url = empty_url,
     c_is_overriding_user_agent = False, history_list_was_cleared = False, url_is_unreachable = False,
     intended_as_new_entry = False, did_create_new_entry = True, c_should_replace_current_entry = False,
     gesture_user = False\<rparr>"

definition example_host :: committing_frame_host where
  "example_host = \<lparr>rfh_frame = [''top''], rfh_site_instance = Some 7, rfh_bindings = 0\<rparr>"

definition example_handle :: nav_handle where
  "example_handle = \<lparr>pending_nav_entry_id = 0, handle_ssl_status = \<lparr>ssl_initialized = False, ssl_content = 0\<rparr>,
     net_error_code = ERR_OTHER 0\<rparr>"

lemma example_commit_ok:
  "honest_report example_commit two_pages" "all_fit (rfh_bindings example_host) two_pages"
  "rfh_bindings example_host \<noteq> kInvalidBindings" "2 \<le> max_entry_count example_env"
  "\<not> has_parent example_host"
  by (auto simp: honest_report_def known_entry_def example_commit_def all_fit_def two_pages_def example_page_def
      NavigationEntryImpl_new_def fits_def example_host_def kInvalidBindings_def example_env_def has_parent_def
      IsMainFrame_def Let_def split: if_splits)

lemma example_commit_type:
  "ClassifyNavigation example_host example_commit two_pages = Inr NAVIGATION_TYPE_NEW_PAGE"
  using ClassifyNavigation_ok [of two_pages example_host example_commit] two_pages_ok example_commit_ok(5)
  by (simp add: nav_ok_def classify_def example_commit_def Let_def)

definition example_load :: LoadURLParams where
  "example_load =
     \<lparr>p_url = empty_url, load_type = LOAD_TYPE_DEFAULT, p_transition_type = plain TRANSITION_TYPED,
      p_frame_tree_node_id = -1, p_subframe = None, p_referrer = Referrer_new example_pages, p_redirect_chain = [], p_extra_headers = [],
      p_is_renderer_initiated = False, override_user_agent = UA_OVERRIDE_INHERIT, p_source_site_instance = None,
      p_transferred_global_request_id = None, p_base_url_for_data_url = empty_url,
      virtual_url_for_data_url = empty_url, p_data_url_as_string = None, p_post_data = None,
      p_can_load_local_resources = False, should_replace_current_entry = False, p_intent_received_timestamp = 0,
      p_has_user_gesture = False, p_should_clear_history_list = False, p_started_from_context_menu = False\<rparr>"

subsection \<open>The invariant\<close>

text \<open>C10. Take a controller through any sequence of calls that return and of commits that do not end the
  process, whatever the renderers report, where each entry that is handed over is new to the
  controller, \<open>Restore\<close> and \<open>CopyStateFrom\<close> fill an unused controller and give it a current entry in
  range, and the limit is at least two. Then its entries are distinct live objects, all objects have
  distinct ids, the current index is in range, a transient entry follows the current one, the pending
  entry is a live object, and a pending index is in range, is not that of the transient entry and names
  the pending entry unless that is an object outside the list. If moreover no call hands over more
  entries than the limit and none copies, without replacing, a list whose oldest entry is pending, the
  committed list stays within the limit.\<close>

theorem session_history_invariant:
  assumes "nav_reachable env limited s" "2 \<le> max_entry_count env"
  shows "distinct (entries s) \<and> (\<forall>p \<in> set (entries s). objects s p \<noteq> None) \<and>
    (\<forall>p q e f. objects s p = Some e \<and> objects s q = Some f \<and> unique_id e = unique_id f \<longrightarrow> p = q) \<and>
    -1 \<le> last_committed_entry_index s \<and> last_committed_entry_index s < GetEntryCount s \<and>
    (transient_entry_index s \<noteq> -1 \<longrightarrow>
       transient_entry_index s = last_committed_entry_index s + 1 \<and> transient_entry_index s < GetEntryCount s) \<and>
    (pending_entry s = None \<longrightarrow> pending_entry_index s = -1) \<and>
    (\<forall>p. pending_entry s = Some p \<longrightarrow> objects s p \<noteq> None \<and>
       (if pending_entry_index s = -1 then p \<notin> set (entries s)
        else 0 \<le> pending_entry_index s \<and> pending_entry_index s < GetEntryCount s \<and>
          pending_entry_index s \<noteq> transient_entry_index s \<and>
          (GetEntryAtIndex (pending_entry_index s) s = Some p \<or> p \<notin> set (entries s)))) \<and>
    (limited \<longrightarrow> length (committed_entries s) \<le> max_entry_count env)"
proof -
  have "within_limit env limited s" by (rule reachable_within_limit [OF assms])
  then have s: "ids_ok s" "list_ok s" "pending_ok s" and limit: "limited \<longrightarrow> length (committed_entries s) \<le> max_entry_count env"
    by (simp_all add: within_limit_def nav_ok_def nav_core_def)
  have "\<forall>p q e f. objects s p = Some e \<and> objects s q = Some f \<and> unique_id e = unique_id f \<longrightarrow> p = q"
    using s(1) unfolding ids_ok_def by blast
  moreover have "\<forall>p. pending_entry s = Some p \<longrightarrow> objects s p \<noteq> None \<and>
       (if pending_entry_index s = -1 then p \<notin> set (entries s)
        else 0 \<le> pending_entry_index s \<and> pending_entry_index s < GetEntryCount s \<and>
          pending_entry_index s \<noteq> transient_entry_index s \<and>
          (GetEntryAtIndex (pending_entry_index s) s = Some p \<or> p \<notin> set (entries s)))"
  proof (intro allI impI)
    fix p assume "pending_entry s = Some p"
    then have p: "objects s p \<noteq> None \<and> (if pending_entry_index s = -1 then p \<notin> set (entries s)
           else 0 \<le> pending_entry_index s \<and> pending_entry_index s < int (length (entries s)) \<and>
                (entries s ! nat (pending_entry_index s) = p \<or> p \<notin> set (entries s)) \<and>
                pending_entry_index s \<noteq> transient_entry_index s)"
      using s(3) by (simp add: pending_ok_def)
    show "objects s p \<noteq> None \<and>
       (if pending_entry_index s = -1 then p \<notin> set (entries s)
        else 0 \<le> pending_entry_index s \<and> pending_entry_index s < GetEntryCount s \<and>
          pending_entry_index s \<noteq> transient_entry_index s \<and>
          (GetEntryAtIndex (pending_entry_index s) s = Some p \<or> p \<notin> set (entries s)))"
    proof (cases "pending_entry_index s = -1")
      case True then show ?thesis using p by simp
    next
      case False then show ?thesis using p by (simp add: GetEntryAtIndex_def GetEntryCount_def)
    qed
  qed
  moreover have "pending_entry s = None \<longrightarrow> pending_entry_index s = -1" using s(3) by (auto simp: pending_ok_def)
  ultimately show ?thesis using s(2) limit unfolding list_ok_def GetEntryCount_def by blast
qed

lemma session_history_invariant_witness:
  "\<exists>s. LoadURLWithParams example_env example_load (-1) NavigationControllerImpl_new = Inr s \<and>
       distinct (entries s) \<and> length (committed_entries s) \<le> max_entry_count example_env"
proof -
  have main: "p_subframe example_load = None" by (simp add: example_load_def)
  obtain s where s: "LoadURLWithParams example_env example_load (-1) NavigationControllerImpl_new = Inr s"
    using LoadURLWithParams_keeps [OF nav_ok_new, of example_load example_env "-1"] main by (auto simp: safe_total)
  have "nav_reachable example_env True s" by (rule nav_reachable.load [OF nav_reachable.start s])
  from session_history_invariant [OF this example_commit_ok(4)] s show ?thesis by blast
qed

subsection \<open>Commits\<close>

text \<open>C11. Whatever a renderer reports to a controller in a sound state with a limit of two entries or
  more, a commit that does not end the process does to the committed list what its class says: a new
  page is put after the current one and the later ones go, a page that has an entry is shown at that
  entry's place, an ignored commit changes nothing; the state is sound again, and after a commit of the
  main frame the current entry has the URL and the site instance that were committed. A commit ends the
  process only at the check of the bindings, for a frame host whose bindings are invalid or differ from
  those of an entry, at a null pointer or outside the list, and these two only for a report that names
  the transient entry or a failed load whose entry is gone.\<close>

theorem commits_refine_the_history:
  assumes "nav_ok s" "2 \<le> max_entry_count env" and "ClassifyNavigation rfh params s = Inr type"
  shows "(case RendererDidNavigate env rfh params same_document h s of
       Inl e \<Rightarrow>
         e = CheckFailed \<and> \<not> (all_fit (rfh_bindings rfh) s \<and> rfh_bindings rfh \<noteq> kInvalidBindings) \<or>
         e \<in> {NullPointer, OutOfRange} \<and> \<not> honest_report params s
     | Inr (committed, s') \<Rightarrow>
         nav_ok s' \<and> history_step env params type (target_index params type s) (history s) (history s') \<and>
         (committed \<and> \<not> has_parent rfh \<longrightarrow> shows_page env rfh params h (history s')))"
proof -
  let ?m = "RendererDidNavigate env rfh params same_document h s"
  have run: "safe E ?m (commit_result env rfh params h type s)"
    if "honest_report params s \<or> {NullPointer, OutOfRange} \<subseteq> E" "fits_or E rfh s" for E
    by (rule RendererDidNavigate_ok [OF assms(1) that(1) assms(2,3) that(2)])
  show ?thesis
  proof (cases ?m)
    case (Inr result)
    then show ?thesis using run [of UNIV] by (auto simp: fits_or_def commit_result_def split: prod.split)
  next
    case (Inl e)
    let ?E = "(if all_fit (rfh_bindings rfh) s \<and> rfh_bindings rfh \<noteq> kInvalidBindings then {} else {CheckFailed}) \<union>
      (if honest_report params s then {} else {NullPointer, OutOfRange})"
    have "e \<in> ?E" using run [of ?E] Inl by (auto simp: fits_or_def)
    then show ?thesis using Inl by (auto split: if_splits)
  qed
qed

lemma commits_refine_the_history_witness:
  "\<exists>committed s'. RendererDidNavigate example_env example_host example_commit False example_handle two_pages =
       Inr (committed, s') \<and> nav_ok s' \<and>
     history_step example_env example_commit NAVIGATION_TYPE_NEW_PAGE
       (target_index example_commit NAVIGATION_TYPE_NEW_PAGE two_pages) (history two_pages) (history s') \<and>
     (committed \<and> \<not> has_parent example_host \<longrightarrow>
      shows_page example_env example_host example_commit example_handle (history s'))"
  using commits_refine_the_history [OF two_pages_ok example_commit_ok(4) example_commit_type, of example_handle False]
    example_commit_ok(1-3)
  by (auto split: sum.splits)

subsection \<open>Loads\<close>

text \<open>C12. In a sound state, starting a navigation - a load with any parameters, a step in the history, a
  reload of any type, in the same or another process - keeps the state sound and leaves the committed
  entries and the current index as they are; only a commit changes them. Steps and reloads always
  succeed, and a load ends the process only for a subframe before the first commit, at a null pointer.\<close>

theorem loads_keep_the_history:
  assumes "nav_ok s"
  shows "(case LoadURLWithParams env params subframe_id s of
            Inl e \<Rightarrow> e = NullPointer \<and> p_subframe params \<noteq> None \<and> last_committed_entry_index s = -1
          | Inr s' \<Rightarrow> nav_ok s' \<and> history s' = history s) \<and>
     (\<exists>s'. GoToIndex env index s = Inr s' \<and> nav_ok s' \<and> history s' = history s) \<and>
     (\<exists>s'. Reload env reload check_for_repost s = Inr s' \<and> nav_ok s' \<and> history s' = history s)"
proof -
  have "case LoadURLWithParams env params subframe_id s of
            Inl e \<Rightarrow> e = NullPointer \<and> p_subframe params \<noteq> None \<and> last_committed_entry_index s = -1
          | Inr s' \<Rightarrow> nav_ok s' \<and> history s' = history s"
    using LoadURLWithParams_outcome [OF assms, of env params subframe_id]
      LoadURLWithParams_keeps [OF assms, of params env subframe_id]
    by (cases "LoadURLWithParams env params subframe_id s") (auto simp: keeps_history_def)
  then show ?thesis using GoToIndex_keeps [OF assms] Reload_keeps [OF assms] by (simp add: safe_total keeps_history_def)
qed

lemma loads_keep_the_history_witness:
  "\<exists>s'. Reload example_env BYPASSING_CACHE True two_pages = Inr s' \<and> nav_ok s' \<and> history s' = history two_pages"
  using loads_keep_the_history [OF two_pages_ok] by blast

subsection \<open>Removing and copying entries\<close>

text \<open>Removing an entry that is neither current nor pending succeeds, takes exactly that entry
  out of the committed list and keeps the current entry current, as long as no transient entry
  stands before the index.\<close>

lemma removal_is_exact:
  assumes "nav_ok s" "0 \<le> index" "index < GetEntryCount s"
    and "index \<noteq> last_committed_entry_index s" "index \<noteq> pending_entry_index s"
    and "transient_entry_index s = -1 \<or> index < transient_entry_index s"
  shows "\<exists>s'. RemoveEntryAtIndex env index s = Inr (True, s') \<and> nav_ok s' \<and>
     fst (history s') = remove_nth index (fst (history s)) \<and>
     snd (history s') = (if snd (history s) > index then snd (history s) - 1 else snd (history s))"
  using RemoveEntryAtIndex_ok [of s index env] assms by (auto simp: safe_total removed_def GetEntryCount_def)

text \<open>C13. A tab with a current page and neither a transient entry nor a pending one from its list (what
  the code checks) takes over the history of any other in a sound state, with a limit of at least two.
  Its own current page is the last one; before it come copies, with new ids and the same frames, of the
  other's entries up to its current one (without it when the page replaces it; all entries when it has
  no current one), without interstitials. When the page does not replace and the other list is full,
  its oldest entry is removed first, unless that is current or pending; then the other list is as it
  was.\<close>

theorem copied_history_comes_first:
  assumes "nav_ok s" "CanPruneAllButLastCommitted s" "nav_ok source" "2 \<le> max_entry_count env"
  shows "\<exists>s' source'. CopyStateFromAndPrune env replace_entry source s = Inr (s', source') \<and> nav_ok s' \<and> nav_ok source' \<and>
     history source' =
       (if \<not> replace_entry \<and> max_entry_count env \<le> length (entries source) \<and>
           last_committed_entry_index source \<noteq> 0 \<and> pending_entry_index source \<noteq> 0
        then removed 0 (history source) else history source) \<and>
     (let copies = fresh_pages (created s)
            (copied_trees source' (take (nat (copied_count replace_entry source')) (entries source')))
      in history s' = (copies @ [page_of s (entries s ! nat (last_committed_entry_index s))], int (length copies)))"
proof -
  obtain source' where s1: "(if \<not> replace_entry then PruneOldestEntryIfFull env source else Inr source) = Inr source'"
    "nav_ok source'" "history source' = (if replace_entry then history source else pruned_history env source)"
    using PruneOldest_source [OF assms(3,4)] assms(3) by (cases replace_entry) (auto simp: safe_total)
  have "list_ok source'" using s1(2) by (simp add: nav_ok_def nav_core_def)
  from CopyStateFromAndPrune_ok [OF assms(1,2) this s1(1)] show ?thesis
    using s1(2,3) by (auto simp: safe_total Let_def pruned_history_def)
qed

definition one_page :: nav_controller where
  "one_page = NavigationControllerImpl_new\<lparr>objects := [0 \<mapsto> example_page 1], created := 1,
     entries := [0], last_committed_entry_index := 0, is_initial_navigation := False\<rparr>"

lemma one_page_ok: "nav_ok one_page" "CanPruneAllButLastCommitted one_page"
  by (auto simp: one_page_def NavigationControllerImpl_new_def nav_ok_def nav_core_def idle_def ids_ok_def list_ok_def
      pending_ok_def example_page_def NavigationEntryImpl_new_def CanPruneAllButLastCommitted_def split: if_splits)

lemma copied_history_comes_first_witness:
  "\<exists>s' source'. CopyStateFromAndPrune example_env False two_pages one_page = Inr (s', source') \<and> nav_ok s' \<and>
     history source' = removed 0 (history two_pages) \<and> last (fst (history s')) = page_of one_page 0"
proof -
  obtain s' source' where s': "CopyStateFromAndPrune example_env False two_pages one_page = Inr (s', source')"
    "nav_ok s'" "nav_ok source'" "history source' = removed 0 (history two_pages)"
    "history s' = (let copies = fresh_pages (created one_page)
            (copied_trees source' (take (nat (copied_count False source')) (entries source')))
      in (copies @ [page_of one_page (entries one_page ! nat (last_committed_entry_index one_page))], int (length copies)))"
    using copied_history_comes_first [OF one_page_ok two_pages_ok, of example_env False]
    by (auto simp: example_env_def Let_def)
  have "last (fst (history s')) = page_of one_page 0" unfolding s'(5) by (simp add: Let_def one_page_def)
  then show ?thesis using s'(1,2,4) by blast
qed

subsection \<open>Frames\<close>

text \<open>C14. What a renderer reports of a frame is found again as that frame's entry, the main frame's
  always, a subframe's when its parent has an entry and its name is not used elsewhere in the tree. The
  entry has every reported field but the sequence numbers: a frame that is new in the tree takes those
  of its page state, when that decodes.\<close>

theorem recorded_frames_are_found:
  assumes "f \<noteq> []"
    and "\<not> IsMainFrame f \<longrightarrow> (\<exists>pp. FindFrameEntry (tl f) t = Some pp \<and> only_child_named (hd f) pp t)"
  shows "\<exists>fe. Tree_GetFrameEntry f (AddOrUpdateFrameEntry ps f u t) = Some fe \<and>
     frame_unique_name fe = hd f \<and> records u fe"
  using recorded_main_frame_found [of f ps u t] recorded_frame_found [OF _ assms(1), of t _ ps u] assms(2)
  by (cases "IsMainFrame f") blast+

definition example_tree :: TreeNode where
  "example_tree = TreeNode (FrameNavigationEntry_new ''top'' 1 1 None None empty_url
     (Referrer_new example_pages) ''GET'' (-1)) []"

definition example_update :: frame_update where
  "example_update = \<lparr>u_item_sequence_number = 3, u_document_sequence_number = 3, u_site_instance = Some 4,
     u_source_site_instance = None, u_url = empty_url, u_referrer = Referrer_new example_pages, u_redirect_chain = [empty_url],
     u_page_state = [6], u_method = ''POST'', u_post_id = 8\<rparr>"

lemma recorded_frames_are_found_witness:
  "\<exists>fe. Tree_GetFrameEntry [''child'', ''top'']
      (AddOrUpdateFrameEntry example_pages [''child'', ''top''] example_update example_tree) = Some fe \<and>
     frame_unique_name fe = hd [''child'', ''top''] \<and> records example_update fe"
proof -
  have root: "p = []" if "node_at p example_tree = Some n" for p n
    using that by (cases p) (auto simp: example_tree_def)
  have "FindFrameEntry (tl [''child'', ''top'']) example_tree = Some []"
    by (rule FindFrameEntry_main) (simp add: IsMainFrame_def)
  moreover have "only_child_named (hd [''child'', ''top'']) [] example_tree"
    using root unfolding only_child_named_def by blast
  ultimately show ?thesis
    using recorded_frames_are_found [of "[''child'', ''top'']" example_tree example_pages example_update] by blast
qed


text \<open>C16. The page state given to an entry is the page state read from it, although it is kept as
  one state per frame in between: a state that does not decode or has no subframes byte for byte, and
  any other as an encoding of the same state. Of a state that decodes it is required that its bodies,
  its top URL and its files are within the bounds of the format, as they are in one that was encoded.\<close>

theorem page_state_survives:
  assumes "env_ok ps" "pickle_ends ps" "\<forall>x. DecodePageState ps state = Some x \<longrightarrow> sound_parts ps x"
  shows "DecodePageState ps (Tree_GetPageState ps (Tree_SetPageState ps state root)) = DecodePageState ps state \<and>
    ((\<forall>x. DecodePageState ps state = Some x \<longrightarrow> x_children (top_state x) = []) \<longrightarrow>
       Tree_GetPageState ps (Tree_SetPageState ps state root) = state)"
proof (cases "DecodePageState ps state")
  case None
  then show ?thesis using page_state_kept [OF assms(1), of state root] by simp
next
  case (Some x)
  then have "sound_parts ps x" using assms(3) by blast
  then show ?thesis
    using page_state_decodes_again [OF assms(1,2) Some, of root] page_state_kept [OF assms(1), of state root]
      decoded_storable [OF assms(1,2) Some] Some by simp
qed

lemma page_state_survives_witness:
  "\<exists>state. DecodePageState example_pages state = Some example_state \<and>
     DecodePageState example_pages (Tree_GetPageState example_pages (Tree_SetPageState example_pages state example_tree)) =
       Some example_state"
proof (rule example_bytes)
  fix b assume b: "DecodePageState example_pages b = Some example_state" "sound_parts example_pages example_state"
  then have "\<forall>x. DecodePageState example_pages b = Some x \<longrightarrow> sound_parts example_pages x" by simp
  from page_state_survives [OF example_env_ok example_ends this] b(1) show ?thesis by auto
qed

subsection \<open>Corner cases\<close>

text \<open>The index is taken before the transient entry is discarded: with a transient entry before it,
  an index of the list is out of range, or names the next entry.\<close>

lemma removal_after_transient:
  "RemoveEntryAtIndex example_env 2
     (two_pages\<lparr>objects := (objects two_pages)(2 \<mapsto> example_page 3), created := 3, entries := [0, 2, 1],
        last_committed_entry_index := 0, transient_entry_index := 1\<rparr>) = Inl OutOfRange"
  by (simp add: RemoveEntryAtIndex_def RemoveEntryAtIndexInternal_def DiscardNonCommittedEntries_def
      DiscardNonCommittedEntriesInternal_def DiscardPendingEntry_def DiscardTransientEntry_def erase_entry_def
      entry_ptr_at_def delete_object_def notify_def two_pages_def NavigationControllerImpl_new_def Let_def)

text \<open>The list is full and its oldest entry is pending: the entry is not pruned, and the copy
  exceeds the limit.\<close>

lemma copy_exceeds_the_limit:
  "\<exists>s' source'. CopyStateFromAndPrune example_env False
       (two_pages\<lparr>pending_entry := Some 0, pending_entry_index := 0\<rparr>) one_page = Inr (s', source') \<and>
     length (committed_entries s') = 3 \<and> max_entry_count example_env = 2"
proof -
  let ?source = "two_pages\<lparr>pending_entry := Some 0, pending_entry_index := 0\<rparr>"
  let ?pruned = "notify (NavListPruned True 1) ?source"
  have src: "list_ok ?pruned"
    using two_pages_ok by (simp add: nav_ok_def nav_core_def list_ok_def notify_def)
  have "(if \<not> False then PruneOldestEntryIfFull example_env ?source else Inr ?source) = Inr ?pruned"
    by (simp add: PruneOldestEntryIfFull_def RemoveEntryAtIndex_def example_env_def)
  note copied = CopyStateFromAndPrune_ok [OF one_page_ok src this]
  have count: "copied_count False ?pruned = 2" by (simp add: copied_count_def notify_def)
  have trees: "length (copied_trees ?pruned [0, 1]) = 2"
    by (simp add: copied_trees_def shown_def notify_def two_pages_def example_page_def NavigationEntryImpl_new_def)
  obtain s' where "CopyStateFromAndPrune example_env False ?source one_page = Inr (s', ?pruned)"
    "fst (history s') = fresh_pages (created one_page) (copied_trees ?pruned [0, 1]) @
       [page_of one_page (entries one_page ! nat (last_committed_entry_index one_page))]"
    using copied by (auto simp: safe_total Let_def count)
  moreover have "length (committed_entries s') = 3"
    using calculation(2) trees length_history [of s'] by (simp add: fresh_pages_def del: length_history)
  ultimately show ?thesis by (auto simp: example_env_def)
qed

text \<open>A commit for a failed load whose entry is gone is classified as one of an existing page, and
  its handler uses the entry without looking whether it found one.\<close>

lemma failed_load_commit_uses_no_entry:
  assumes "list_ok s" "\<not> has_parent rfh" "\<not> did_create_new_entry params" "\<not> c_should_replace_current_entry params"
    and "nav_entry_id params \<noteq> 0" "\<not> intended_as_new_entry params" "url_is_unreachable params"
    and "failed_pending_entry_id s = nav_entry_id params" "GetEntryIndexWithUniqueID (nav_entry_id params) s = -1"
  shows "classify rfh params (Some l) None s = NAVIGATION_TYPE_EXISTING_PAGE"
    and "RendererDidNavigateToExistingPage env rfh params same_document restored h s = Inl NullPointer"
  using assms
  by (simp_all add: classify_def Let_def RendererDidNavigateToExistingPage_def GetLastCommittedEntry_ok
      GetEntryWithUniqueID_def not_null_def)

text \<open>A reload in another process during the initial navigation: the pending entry is replaced by a
  new one, but the pending index still names the old one, which is in the list.\<close>

lemma reload_leaves_the_index:
  assumes "is_initial_navigation s" "pending_entry_index s = i" "0 \<le> i" "i < int (length (entries s))"
    and "nav_core s" "objects s p = Some e" "entry_site_instance e = Some si"
    and "\<not> is_for_guests_only env si" "HasWrongProcessForURL env si (GetURL e)"
  shows "\<exists>q s'. reload_entry env reload p i s = NavigateToPendingEntry env RELOAD_NONE s' \<and>
    pending_entry s' = Some q \<and> pending_entry_index s' = i \<and> GetEntryAtIndex i s' \<noteq> Some q"
proof -
  define mk where "mk = (\<lambda>uid. (CreateNavigationEntry env (GetURL e) (fne_referrer (root_entry e)) (transition_type e)
                 False (extra_headers e) uid)\<lparr>should_replace_entry := True\<rparr>)"
  obtain q s1 where new: "new_object mk s = (q, s1)" by fastforce
  have "unique_id (mk uid) = uid" for uid by (simp add: mk_def)
  note made = new_keeps [OF assms(5) this new]
  have "entries s1 ! nat i \<noteq> q" using made(3,7) assms(3,4) by (metis nat_less_iff nth_mem)
  then have "GetEntryAtIndex i (s1\<lparr>pending_entry := Some q\<rparr>) \<noteq> Some q" by (simp add: GetEntryAtIndex_def)
  moreover have "reload_entry env reload p i s = NavigateToPendingEntry env RELOAD_NONE (s1\<lparr>pending_entry := Some q\<rparr>)"
    using assms(1,7-9) new by (simp add: reload_entry_def deref_ok [OF assms(6)] mk_def [symmetric])
  moreover have "pending_entry_index (s1\<lparr>pending_entry := Some q\<rparr>) = i" using made(9) assms(2) by simp
  ultimately show ?thesis by (intro exI [of _ q] exI [of _ "s1\<lparr>pending_entry := Some q\<rparr>"]) simp
qed

end
