(* ===== verification/Spec2Isabelle.thy ===== *)
theory Spec2Isabelle
  imports Idb_Properties Idb_Commit_Properties Security_Policy_Properties Csp_Properties
    Frame_Options Frame_Policy_Properties Osv_Properties Dom_Storage_Properties
    Resource_Properties Cross_Site_Properties Event_Properties Ldb_Properties
    Nav_Properties Page_State_Properties
begin

text \<open>
  OSV-Free: a verification library for the content layer of the browser under src/src/content.

  \<^bold>\<open>The program.\<close> The repository is Chromium's content module (and the Android WebView that
  embeds it) with one addition, OSV-Free: messages from web pages to the native code of an app,
  labelled with the origins of the frame and of the script that sent them. The library models
  the parts that decide: who may do what, in which order stored data comes, which requests are
  refused. What the sources only call (url, base, storage, net, Blink, V8) is not in the
  repository and is a parameter: the record \<open>url_library\<close> (theory Urls), \<open>policy_env\<close>
  (file paths and embedder hooks, theory Security_Policy), \<open>header_library\<close> (theory
  Frame_Options), the enumeration \<open>kt\<close> of Blink's key types and the function \<open>parse16\<close>.

  \<^bold>\<open>Theories and sources.\<close>
  \<^item> Prelude: the error monad, three-way comparison (locale \<open>three_way\<close>) and codecs that leave the
    rest of their input (locale \<open>codec\<close>), with the lemmas that hold of every instance.
  \<^item> Idb_Coding, Idb_Key: browser/indexed_db/indexed_db_leveldb_coding.cc up to the key
    comparison, common/indexed_db/indexed_db_key.cc and indexed_db_key_path.cc. A
    \<open>StringPiece\<close> is a list of bytes, an \<open>int64_t\<close> a word of 64 bits, a double its 64 bits.
    An encoder takes the output string and returns it extended; a decoder returns the value and
    the rest, or \<open>Refused\<close> (the code returns false), or \<open>OutOfBounds\<close> (the code would read
    past the end). Recursion on arrays runs on fuel; the entry points start it with the number
    of bytes of the input, which is enough because every element takes a byte (lemmas
    \<open>decode_key_fuel\<close>, \<open>consume_key_fuel\<close> and \<open>compare_keys_fuel\<close>).
  \<^item> Idb_Prefix, Idb_Entries: \<open>class KeyPrefix\<close>, the fourteen kinds of stored keys and the
    comparator \<open>Compare\<close> of the database, one definition per method.
  \<^item> Idb_Key_Lemmas, Idb_Key_Compare, Idb_Entries_Lemmas, Idb_Properties: the codecs are inverse
    and prefix free, comparing encoded keys refines comparing keys, and from there the order of
    the whole store.
  \<^item> Urls: a \<open>GURL\<close> as the results of its accessors, an \<open>Origin\<close> as its tuple.
  \<^item> Security_Policy: browser/child_process_security_policy_impl.cc, with
    browser/site_instance_impl.cc for sites and browser/frame_host/debug_urls.cc. The record
    \<open>SecurityState\<close> is the inner class, \<open>policy\<close> the policy itself; every grant, revocation and
    check is a definition. The lock is not modelled: each operation holds it throughout. A check
    that walks up a path or through nested origins is a \<open>partial_function\<close>: \<open>None\<close> would be a
    loop that never ends, and \<open>nearest_grant_decides\<close> and \<open>committable_is_requestable\<close> prove that
    it does end.
  \<^item> Security_Policy_Lemmas: the operations as data (\<open>policy_op\<close>, \<open>perform\<close>), the reachable states
    and their invariants. Security_Policy_Walk: the specification of file permissions
    (\<open>nearest_grant\<close>) and of committing. Security_Policy_Properties: the properties.
  \<^item> Csp, Csp_Context, Csp_Properties: common/content_security_policy: matching, fallback,
    violation reports, the context of a document, and its two callers
    (browser/frame_host/navigation_request.cc, form_submission_throttle.cc). The virtual methods
    of a context are the record \<open>csp_hooks\<close>; the base class and the frame host are two instances.
    A check returns its verdict and the violations it reported, in order.
  \<^item> Frame_Options: browser/frame_host/ancestor_throttle.cc, X-Frame-Options, with what its usage
    histogram counts.
  \<^item> Osv_Messages, Osv_Properties: OSV-Free itself, renderer/render_frame_impl.cc and
    browser/frame_host/render_frame_host_impl.cc between their OSV_FREE marks. The state holds
    both processes and the two message queues; \<open>osv_step\<close> interleaves them.
  \<^item> List_Set: browser/indexed_db/list_set.h, with the locale \<open>insertion_ordered\<close> that it
    implements. Idb_Transaction, Idb_Coordinator, Idb_Commit: indexed_db_transaction.cc and
    indexed_db_transaction_coordinator.cc with the parts of indexed_db_connection.cc and
    indexed_db_database.cc that they call. Transactions are objects of a heap (\<open>heap\<close>, \<open>live\<close>), so
    that a pointer to a deleted one can be spoken of; an operation is the list of its effects on
    its transaction and its status; what LevelDB and the blob writer answer to a commit is the
    argument \<open>store_answers\<close>. Tasks posted to the sequence are the list \<open>posted\<close>.
    Idb_Commit_Lemmas, _Inv, _Steps, _Reach: the invariant of the coordinator step by step;
    Idb_Commit_Properties: the properties of every reachable state.
  \<^item> Ldb_Transaction: browser/indexed_db/leveldb/leveldb_transaction.cc, the uncommitted records of
    a transaction and the iterator that merges them with a snapshot of the database. LevelDB is
    the record \<open>leveldb\<close>; what it documents is the predicate \<open>snapshot\<close>, and \<open>leveldb_of_ok\<close> shows
    that it can be kept. Ldb_View: the merged view and the loop over conflicts, for any three-way
    comparator. Ldb_Cursor, Ldb_Walk: where the iterator arrives, in both directions. Ldb_Writes:
    what the operations make of the view. Ldb_Properties: the properties. The loop of \<open>RemoveRange\<close>
    is a \<open>partial_function\<close>; \<open>remove_range_is_exact\<close> proves that it ends.
  \<^item> Page_State: common/page_state_serialization.cc with public/common/page_state.cc and
    common/resource_request_body_impl.cc. Writers give the bytes they append, or \<open>None\<close> where a CHECK
    ends the process; readers are a state monad over the \<open>SerializeObject\<close> and, like the code, go on
    after an error. Pickles, text conversions, times and Blink's constants are the record
    \<open>page_env\<close>, with \<open>pickle_ok\<close>, \<open>pickle_ends\<close> and \<open>constants_ok\<close> for what is documented of them;
    \<open>example_pages\<close> satisfies all three. Reading frames runs on fuel for one frame more than there are
    bytes, and \<open>frames_are_read_without_fuel\<close> shows that this is the unbounded recursion.
    Page_State_Lemmas: readers invert writers. Page_State_Decode: what is true of every input;
    \<open>parsed_state\<close> is what decoding checks, \<open>sound_parts\<close> what it does not.
  \<^item> Nav_Entry, Nav_Controller, Nav_Load, Nav_Commit: the session history of a tab,
    browser/frame_host/navigation_entry_impl.cc, frame_navigation_entry.cc and
    navigation_controller_impl.cc. Entries are objects of a heap, the list and the pending entry
    hold pointers to them, and using a null or deleted entry is an error of the model. An entry keeps a
    tree of frame entries; the live frames of the page are an argument. What URL rewriting, process
    assignment and the navigator answer is the record \<open>nav_env\<close>. Nav_Invariant, Nav_Insert,
    Nav_Operations, Nav_Editing, Nav_Copy, Nav_Navigate, Nav_Bindings, Nav_Commit_Lemmas,
    Nav_Handlers, Nav_Reach: the invariant through every operation. Nav_Tree, Nav_Frames: the trees of
    frames and their page states. Nav_Properties, Page_State_Properties: the properties.
  \<^item> Feature_Policy: common/feature_policy. Frame_Policy: the policies of frames in
    browser/frame_host (frame_tree_node.cc, frame_tree.cc, render_frame_host_impl.cc,
    render_frame_host_manager.cc, navigator_impl.cc); the frames of a page are a map from node
    ids. Frame_Policy_Properties: the pages that an uncompromised renderer builds.
  \<^item> Std_Map: std::map as a sorted association list (locale \<open>weighed_map\<close>). Dom_Storage,
    Dom_Storage_Properties: common/dom_storage/dom_storage_map.cc; byte counts are 64-bit words.
  \<^item> Resource_Buffer, Async_Handler, Resource_Properties: browser/loader/resource_buffer.cc and
    async_resource_handler.cc; the CHECKs of the buffer, which release builds keep, are the
    outcome \<open>CheckFailed\<close>. The locale \<open>segment_queue\<close> is what the handler relies on.
  \<^item> Cross_Site, Cross_Site_Properties: common/cross_site_document_classifier.cc and
    child/site_isolation_stats_gatherer.cc.
  \<^item> Event_Validators, Event_Properties: the stream validators of common/input.

  \<^bold>\<open>What is shown.\<close> For IndexedDB's coding: round trips of all encodings, memory safety of the decoder
  (and where skipping a key lacks it), the comparator as a total preorder that orders by ids, then
  user key, primary key and sequence number, and the exact ranges of scans. For its transactions:
  running writers exclude each other, a waiting transaction waits for a reason, each ends with
  one outcome, and the sequence comes to rest. For transactions over LevelDB: the iterator walks
  the merged view (and where it does not), lookups see the transaction's writes, ranges are removed
  exactly, and the committed batch is the view. For the session history: an invariant of every
  reachable controller; what each class of commit does to the list of pages and which reports end the
  process, that loads leave the list alone, which frames a history step navigates; and when the list
  outgrows its limit. For page states: round trips, bounds and termination of the
  decoder on every input, their splitting over the frames of an entry, and what is lost on the way. For the security
  policy: isolation of children, consistency of every reachable state, file permissions against
  their specification, termination and coherence of the URL checks. For the content security
  policy: one directive decides, only enforced policies block, what 'self' lists, what redirects
  and reports disclose, the phases of a navigation. For X-Frame-Options: exactly which responses
  are blocked. For frames: what a child may use, and that no frame escapes its ancestors; with
  the navigations within a page by which one does, and two ways in which the browser's answer is not
  the policy's. For loading: the buffer is a queue of
  segments, unacknowledged data is never overwritten, a held loader is resumed (and the message
  that resumes it too early). For DOM storage: the accounting and the quota. For the sniffers and
  the validators: the exact languages they accept. For OSV-Free: what the app receives, and two
  ways in which the label is not the sender's.

  \<^bold>\<open>Assumptions of the step relations.\<close> \<open>flow\<close>: the renderer acknowledges only data it was sent, and the
  loader reads only when it is not held. \<open>page\<close>: a document is replaced or gets its header while its
  frame has no children; with \<open>steady\<close>, moreover, no navigation within a page adds sandbox flags to a
  frame that has children. \<open>nav_reachable\<close>: a call or a commit is a step when it returns, with any
  arguments, except that entries handed over are new to the controller and that \<open>Restore\<close> and
  \<open>CopyStateFrom\<close> fill an unused controller with a current entry in range; with \<open>limited\<close>, moreover,
  no call hands over more entries than the limit and none copies, without replacing, a list whose
  oldest entry is pending. Each property says which of these it needs.

  \<^bold>\<open>What is not modelled.\<close> The objects around these decisions: of the navigation controller the
  interstitial pages cancelled by a load, session storage namespaces, screenshots, display titles and
  the parameters sent to renderers; the swapping of frame hosts, application cache, service workers,
  the databases under DOM storage and IndexedDB, resource scheduling, input routing, media, GPU and
  device services, accessibility and the renderer's bridges to Blink; the Java and JNI layers; tracing
  and logging. Most of these are asynchronous exchanges with code that is not in the repository, so
  that a model would be of their messages only. DCHECKs are not modelled: the definitions say what a
  release build does.
\<close>

end
